(* ===== verification/Prelude.thy ===== *)
theory Prelude
  imports Complex_Main "HOL-Library.AList" "HOL-Library.Word"
begin

unbundle bit_operations_syntax

text \<open>
  Shared vocabulary of the development: the machine types, time, the tables that stand for
  \<open>HashMap\<close>, the collections of rewrite rules, and the two interfaces every component
  of the library is an instance of.

  Time. \<open>std::time::Instant\<close> and \<open>Duration\<close> are natural numbers of nanoseconds since an
  arbitrary epoch, so \<open>saturating_duration_since\<close> is subtraction on \<^typ>\<open>nat\<close>.
  Overflow of the 64-bit seconds counter is not modelled.

  Tables. A \<open>HashMap\<close> is an association list with distinct keys (\<open>AList\<close>), and iteration
  goes through it in list order. The order of a real \<open>HashMap\<close> is unspecified; no theorem
  fixes the order of a table it is given.
\<close>

section \<open>Machine types and time\<close>

type_synonym byte = "8 word"
type_synonym u16 = "16 word"
type_synonym instant = nat
type_synonym duration = nat

definition from_nanos :: "nat \<Rightarrow> duration" where
  "from_nanos n = n"

definition from_micros :: "nat \<Rightarrow> duration" where
  "from_micros n = n * 1000"

definition from_millis :: "nat \<Rightarrow> duration" where
  "from_millis n = n * 1000000"

definition from_secs :: "nat \<Rightarrow> duration" where
  "from_secs n = n * 1000000000"

lemmas duration_defs = from_nanos_def from_micros_def from_millis_def from_secs_def

text \<open>Durations as a number of seconds, for the places where the code computes in \<open>f64\<close>.\<close>

definition as_secs :: "duration \<Rightarrow> rat" where
  "as_secs d = of_nat d / 1000000000"

lemma as_secs_nonneg [simp]: "0 \<le> as_secs d"
  by (simp add: as_secs_def)

lemma as_secs_mono: "a \<le> b \<Longrightarrow> as_secs a \<le> as_secs b"
  by (simp add: as_secs_def divide_right_mono)

lemma as_secs_le_iff [simp]: "as_secs a \<le> as_secs b \<longleftrightarrow> a \<le> b"
  by (simp add: as_secs_def divide_le_cancel)

named_theorems frame_simps
  \<open>which fields an operation leaves unchanged\<close>
named_theorems wf_intros
  \<open>an operation preserves a well-formedness invariant\<close>

section \<open>Lists\<close>

lemma takeWhile_all: "(\<And>x. x \<in> set xs \<Longrightarrow> P x) \<Longrightarrow> takeWhile P xs = xs"
  by (simp add: takeWhile_eq_all_conv)

lemma dropWhile_all: "(\<And>x. x \<in> set xs \<Longrightarrow> P x) \<Longrightarrow> dropWhile P xs = []"
  by (simp add: dropWhile_eq_Nil_conv)

lemma dropWhile_no: "xs = [] \<or> \<not> P (hd xs) \<Longrightarrow> dropWhile P xs = xs"
  by (cases xs) auto

lemma sum_list_filter_le:
  fixes f :: "'a \<Rightarrow> nat"
  shows "sum_list (map f (filter P xs)) \<le> sum_list (map f xs)"
  by (induction xs) auto

lemma sum_list_filter_mono:
  fixes f :: "'a \<Rightarrow> nat"
  assumes "\<And>x. x \<in> set xs \<Longrightarrow> P x \<Longrightarrow> Q x"
  shows "sum_list (map f (filter P xs)) \<le> sum_list (map f (filter Q xs))"
  using assms by (induction xs) (auto intro: le_add2 order_trans)

text \<open>\<open>VecDeque::remove(i)\<close> and the element it returns.\<close>

definition remove_at :: "nat \<Rightarrow> 'a list \<Rightarrow> 'a list" where
  "remove_at i xs = take i xs @ drop (Suc i) xs"

lemma set_remove_at: "set (remove_at i xs) \<subseteq> set xs"
  by (auto simp: remove_at_def dest: in_set_takeD in_set_dropD)

lemma remove_at_length: "i < length xs \<Longrightarrow> length (remove_at i xs) = length xs - 1"
  by (simp add: remove_at_def)

lemma remove_at_split: "i < length xs \<Longrightarrow> xs = take i xs @ xs ! i # drop (Suc i) xs"
  by (rule id_take_nth_drop)

text \<open>\<open>Iterator::position\<close>: the index of the first element satisfying a predicate.\<close>

fun position :: "('a \<Rightarrow> bool) \<Rightarrow> 'a list \<Rightarrow> nat option" where
  "position P [] = None"
| "position P (x # xs) = (if P x then Some 0 else map_option Suc (position P xs))"

lemma position_Some:
  "position P xs = Some i \<Longrightarrow> i < length xs \<and> P (xs ! i) \<and> (\<forall>j < i. \<not> P (xs ! j))"
proof (induction xs arbitrary: i)
  case (Cons x xs)
  then show ?case
    by (auto split: if_splits simp: nth_Cons less_Suc_eq_0_disj split: nat.splits)
qed simp

lemma position_None [simp]: "position P xs = None \<longleftrightarrow> (\<forall>x \<in> set xs. \<not> P x)"
  by (induction xs) auto

section \<open>Tables\<close>

type_synonym ('k, 'v) table = "('k \<times> 'v) list"

definition table_ok :: "('k, 'v) table \<Rightarrow> bool" where
  "table_ok m \<longleftrightarrow> distinct (map fst m)"

abbreviation has_key :: "('k, 'v) table \<Rightarrow> 'k \<Rightarrow> bool" where
  "has_key m k \<equiv> map_of m k \<noteq> None"

lemma table_ok_empty [simp]: "table_ok []"
  by (simp add: table_ok_def)

lemma table_ok_update [simp]: "table_ok m \<Longrightarrow> table_ok (AList.update k v m)"
  by (simp add: table_ok_def distinct_update)

lemma table_ok_delete [simp]: "table_ok m \<Longrightarrow> table_ok (AList.delete k m)"
  by (simp add: table_ok_def distinct_delete)

lemma table_ok_filter [simp]: "table_ok m \<Longrightarrow> table_ok (filter P m)"
  by (induction m) (auto simp: table_ok_def)

lemma map_of_update [simp]: "map_of (AList.update k v m) = (map_of m)(k \<mapsto> v)"
  by (rule update_conv')

lemma map_of_delete [simp]: "map_of (AList.delete k m) = (map_of m)(k := None)"
  by (rule delete_conv')

lemma length_update:
  "length (AList.update k v m) = (if has_key m k then length m else Suc (length m))"
  by (induction m) auto

lemma length_delete_present:
  "has_key m k \<Longrightarrow> length (AList.delete k m) < length m"
proof (induction m)
  case (Cons p m)
  then show ?case
    using length_delete_le [of k m] by (cases "fst p = k") auto
qed simp

lemma map_of_filter_key:
  "table_ok m \<Longrightarrow> map_of (filter (\<lambda>(k, v). P k v) m) k =
     (case map_of m k of None \<Rightarrow> None | Some v \<Rightarrow> if P k v then Some v else None)"
proof (induction m)
  case (Cons p m)
  obtain a b where p: "p = (a, b)" by force
  have "a \<notin> fst ` set m" and ok: "table_ok m"
    using Cons.prems p by (auto simp: table_ok_def)
  then have "map_of m a = None"
    by (simp add: map_of_eq_None_iff)
  then show ?case
    using Cons.IH [OF ok] p by (auto split: option.splits)
qed simp

text \<open>
  \<open>iter().min_by_key(f)\<close> over a table: the key of the first entry whose measure is least.
\<close>

fun min_key_by :: "('v \<Rightarrow> nat) \<Rightarrow> ('k, 'v) table \<Rightarrow> 'k option" where
  "min_key_by f [] = None"
| "min_key_by f ((k, v) # m) =
     (if (\<forall>(k', v') \<in> set m. f v \<le> f v') then Some k else min_key_by f m)"

lemma min_key_by_nonempty: "m \<noteq> [] \<Longrightarrow> min_key_by f m \<noteq> None"
proof (induction m)
  case (Cons p m)
  then show ?case by (cases p; cases "m = []") auto
qed simp

lemma min_key_by_mem: "min_key_by f m = Some k \<Longrightarrow> has_key m k"
proof (induction m)
  case (Cons p m)
  then show ?case by (cases p) (auto split: if_splits)
qed simp

lemma min_key_by_least:
  "table_ok m \<Longrightarrow> min_key_by f m = Some k \<Longrightarrow> map_of m k' = Some v' \<Longrightarrow>
     \<exists>v. map_of m k = Some v \<and> f v \<le> f v'"
proof (induction m arbitrary: k' v')
  case (Cons p m)
  obtain a b where p: "p = (a, b)" by force
  have ok: "table_ok m" and anot: "a \<notin> fst ` set m"
    using Cons.prems(1) p by (auto simp: table_ok_def)
  show ?case
  proof (cases "\<forall>(k', v') \<in> set m. f b \<le> f v'")
    case True
    then have "k = a" using Cons.prems(2) p by simp
    moreover have "f b \<le> f v'"
      using Cons.prems(3) True p by (auto split: if_splits dest!: map_of_SomeD)
    ultimately show ?thesis using p by simp
  next
    case False
    then have k: "min_key_by f m = Some k" using Cons.prems(2) p by (auto split: if_splits)
    then have "k \<noteq> a"
      using min_key_by_mem [OF k] anot by (auto simp: map_of_eq_None_iff)
    show ?thesis
    proof (cases "k' = a")
      case True
      then have "v' = b" using Cons.prems(3) p by simp
      from False obtain c d where cd: "(c, d) \<in> set m" "f d < f b" by force
      then have "map_of m c = Some d" using ok by (simp add: table_ok_def)
      from Cons.IH [OF ok k this] obtain v where "map_of m k = Some v" "f v \<le> f d" by blast
      then show ?thesis using \<open>k \<noteq> a\<close> \<open>v' = b\<close> cd p by auto
    next
      case False
      then have "map_of m k' = Some v'" using Cons.prems(3) p by simp
      from Cons.IH [OF ok k this] show ?thesis using \<open>k \<noteq> a\<close> p by auto
    qed
  qed
qed simp

text \<open>
  The idiom four components share: before a new key goes into a full table, the entry with
  the least measure is removed. \<open>make_room\<close> is that step, and returns the key it removed.
\<close>

definition make_room :: "nat \<Rightarrow> ('v \<Rightarrow> nat) \<Rightarrow> 'k \<Rightarrow> ('k, 'v) table \<Rightarrow> ('k, 'v) table \<times> 'k option" where
  "make_room cap f k m =
     (if \<not> has_key m k \<and> cap \<le> length m
      then (case min_key_by f m of
              Some old \<Rightarrow> (AList.delete old m, Some old)
            | None \<Rightarrow> (m, None))
      else (m, None))"

lemma make_room_ok [simp]: "table_ok m \<Longrightarrow> table_ok (fst (make_room cap f k m))"
  by (simp add: make_room_def split: option.splits)

lemma make_room_length:
  assumes "length m \<le> cap" "0 < cap" "\<not> has_key m k"
  shows "length (fst (make_room cap f k m)) < cap"
proof (cases "cap \<le> length m")
  case True
  with assms have "m \<noteq> []" by auto
  then obtain old where old: "min_key_by f m = Some old"
    using min_key_by_nonempty [of m f] by blast
  then have "length (AList.delete old m) < length m"
    by (intro length_delete_present min_key_by_mem)
  then show ?thesis using True assms old by (simp add: make_room_def)
qed (use assms in \<open>simp add: make_room_def\<close>)

lemma make_room_keeps: "has_key m k \<Longrightarrow> make_room cap f k m = (m, None)"
  by (simp add: make_room_def)

lemma make_room_put_length:
  assumes "length m \<le> cap" "0 < cap"
  shows "length (AList.update k v (fst (make_room cap f k m))) \<le> cap"
proof (cases "has_key m k")
  case True
  then show ?thesis using assms by (simp add: make_room_keeps length_update)
next
  case False
  from make_room_length [OF assms False] show ?thesis
    by (auto simp: length_update Suc_le_eq intro: less_imp_le)
qed

lemma make_room_other:
  "j \<noteq> k \<Longrightarrow> snd (make_room cap f k m) \<noteq> Some j \<Longrightarrow>
     map_of (fst (make_room cap f k m)) j = map_of m j"
  by (auto simp: make_room_def split: option.splits)

lemma make_room_put_max:
  assumes "length m \<le> max 1 cap"
  shows "length (AList.update k v (fst (make_room cap f k m))) \<le> max 1 cap"
proof (cases "cap = 0 \<and> m \<noteq> []")
  case False
  then have "0 < cap \<and> length m \<le> cap \<or> m = []" using assms by (cases cap) auto
  then show ?thesis using make_room_put_length [of m cap k v f] by (auto simp: make_room_def)
next
  case True
  then obtain a b where "m = [(a, b)]" using assms by (cases m) auto
  then show ?thesis by (simp add: make_room_def)
qed

lemma make_room_values:
  "map_of (fst (make_room cap f k m)) j = Some v \<Longrightarrow> map_of m j = Some v"
  by (auto simp: make_room_def split: if_splits option.splits)

lemma make_room_shrinks: "length (fst (make_room cap f k m)) \<le> length m"
  using length_delete_le by (auto simp: make_room_def split: option.splits)

section \<open>Interfaces\<close>

text \<open>
  A component with an invariant: its operations, coded as one step function over an operation
  type, keep the invariant. Every run then keeps it.
\<close>

locale invariant_machine =
  fixes step :: "'op \<Rightarrow> 's \<Rightarrow> 's"
    and inv :: "'s \<Rightarrow> bool"
  assumes step_inv: "inv s \<Longrightarrow> inv (step x s)"
begin

lemma run_inv: "inv s \<Longrightarrow> inv (fold step xs s)"
  by (induction xs arbitrary: s) (auto intro: step_inv)

end

text \<open>
  A wire codec: decoding what the encoder produced for a well-formed value gives the value
  back. Encoding is then injective on well-formed values.
\<close>

locale codec =
  fixes enc :: "'a \<Rightarrow> 'w"
    and dec :: "'w \<Rightarrow> 'a option"
    and wf :: "'a \<Rightarrow> bool"
  assumes dec_enc: "wf x \<Longrightarrow> dec (enc x) = Some x"
begin

lemma enc_inj: "wf x \<Longrightarrow> wf y \<Longrightarrow> enc x = enc y \<Longrightarrow> x = y"
  using dec_enc by (metis option.inject)

lemma enc_inj_on: "inj_on enc {x. wf x}"
  by (intro inj_onI) (auto intro: enc_inj)

end

text \<open>
  Two codecs stacked, as AIRC in AX.25 or AX.25 in KISS: the inner message is wrapped in an
  outer value, encoded, decoded and unwrapped.
\<close>

locale codec_stack = outer: codec enc dec wf + inner: codec enc' dec' wf'
  for enc :: "'a \<Rightarrow> 'w" and dec wf and enc' :: "'b \<Rightarrow> 'v" and dec' wf' +
  fixes wrap :: "'v \<Rightarrow> 'a"
    and unwrap :: "'a \<Rightarrow> 'v option"
  assumes unwrap_wrap: "wf' y \<Longrightarrow> unwrap (wrap (enc' y)) = Some (enc' y)"
    and wrap_wf: "wf' y \<Longrightarrow> wf (wrap (enc' y))"
begin

lemma stacked_dec_enc:
  "wf' y \<Longrightarrow> Option.bind (dec (enc (wrap (enc' y)))) (\<lambda>x. Option.bind (unwrap x) dec') = Some y"
  by (simp add: outer.dec_enc wrap_wf unwrap_wrap inner.dec_enc)

end

sublocale codec_stack \<subseteq> stacked: codec "\<lambda>y. enc (wrap (enc' y))"
    "\<lambda>w. Option.bind (dec w) (\<lambda>x. Option.bind (unwrap x) dec')" wf'
  by unfold_locales (rule stacked_dec_enc)

end
