(* ===== verification/Rust_Text.thy ===== *)
theory Rust_Text
  imports Prelude
begin

text \<open>
  The part of Rust's \<open>char\<close>, \<open>str\<close> and \<open>String\<close> that the program uses. A \<open>char\<close> is its Unicode
  scalar value, a natural number; a string is the list of its characters. The UTF-8 form
  (\<open>as_bytes\<close>, \<open>len\<close>) is computed from it, and \<open>from_utf8_lossy\<close> follows the standard
  library's decoder, one replacement character per maximal invalid prefix.
\<close>

type_synonym ustr = "nat list"

text \<open>Literals: \<open>lit ''abc''\<close> is the string \<open>"abc"\<close>.\<close>

definition lit :: "string \<Rightarrow> ustr" where
  "lit s = map of_char s"

section \<open>Characters\<close>

definition is_ascii_digit :: "nat \<Rightarrow> bool" where
  "is_ascii_digit c \<longleftrightarrow> 48 \<le> c \<and> c \<le> 57"

definition is_ascii_uppercase :: "nat \<Rightarrow> bool" where
  "is_ascii_uppercase c \<longleftrightarrow> 65 \<le> c \<and> c \<le> 90"

definition is_ascii_lowercase :: "nat \<Rightarrow> bool" where
  "is_ascii_lowercase c \<longleftrightarrow> 97 \<le> c \<and> c \<le> 122"

definition is_ascii_alphabetic :: "nat \<Rightarrow> bool" where
  "is_ascii_alphabetic c \<longleftrightarrow> is_ascii_uppercase c \<or> is_ascii_lowercase c"

definition is_ascii_alphanumeric :: "nat \<Rightarrow> bool" where
  "is_ascii_alphanumeric c \<longleftrightarrow> is_ascii_alphabetic c \<or> is_ascii_digit c"

definition to_upper :: "nat \<Rightarrow> nat" where
  "to_upper c = (if is_ascii_lowercase c then c - 32 else c)"

definition to_lower :: "nat \<Rightarrow> nat" where
  "to_lower c = (if is_ascii_uppercase c then c + 32 else c)"

text \<open>The Unicode property \<open>White_Space\<close> and the category \<open>Cc\<close>.\<close>

definition is_whitespace :: "nat \<Rightarrow> bool" where
  "is_whitespace c \<longleftrightarrow> (9 \<le> c \<and> c \<le> 13) \<or> c = 32 \<or> c = 0x85 \<or> c = 0xA0 \<or> c = 0x1680
     \<or> (0x2000 \<le> c \<and> c \<le> 0x200A) \<or> c = 0x2028 \<or> c = 0x2029 \<or> c = 0x202F \<or> c = 0x205F \<or> c = 0x3000"

definition is_control :: "nat \<Rightarrow> bool" where
  "is_control c \<longleftrightarrow> c < 32 \<or> (127 \<le> c \<and> c \<le> 159)"

definition is_scalar :: "nat \<Rightarrow> bool" where
  "is_scalar c \<longleftrightarrow> c < 0x110000 \<and> \<not> (0xD800 \<le> c \<and> c \<le> 0xDFFF)"

lemmas char_class_defs =
  is_ascii_digit_def is_ascii_uppercase_def is_ascii_lowercase_def is_ascii_alphabetic_def
  is_ascii_alphanumeric_def

lemma alphanumeric_to_upper [simp]:
  "is_ascii_alphanumeric (to_upper c) = is_ascii_alphanumeric c"
  by (auto simp: to_upper_def char_class_defs)

lemma to_upper_idem [simp]: "to_upper (to_upper c) = to_upper c"
  by (auto simp: to_upper_def char_class_defs)

lemma alphanumeric_ascii: "is_ascii_alphanumeric c \<Longrightarrow> c < 128"
  by (auto simp: char_class_defs)

lemma alphanumeric_not_white: "is_ascii_alphanumeric c \<Longrightarrow> \<not> is_whitespace c"
  by (auto simp: char_class_defs is_whitespace_def)

section \<open>Slicing and trimming\<close>

definition to_ascii_uppercase :: "ustr \<Rightarrow> ustr" where
  "to_ascii_uppercase s = map to_upper s"

definition trim_start :: "ustr \<Rightarrow> ustr" where
  "trim_start s = dropWhile is_whitespace s"

definition trim_end :: "ustr \<Rightarrow> ustr" where
  "trim_end s = rev (dropWhile is_whitespace (rev s))"

definition trim :: "ustr \<Rightarrow> ustr" where
  "trim s = trim_end (trim_start s)"

text \<open>\<open>split_once\<close> on a character.\<close>

fun split_once :: "nat \<Rightarrow> ustr \<Rightarrow> (ustr \<times> ustr) option" where
  "split_once c [] = None"
| "split_once c (x # xs) =
     (if x = c then Some ([], xs)
      else map_option (\<lambda>(a, b). (x # a, b)) (split_once c xs))"

text \<open>\<open>split\<close> on a character: always at least one piece.\<close>

fun split_on :: "'a \<Rightarrow> 'a list \<Rightarrow> 'a list list" where
  "split_on c [] = [[]]"
| "split_on c (x # xs) =
     (if x = c then [] # split_on c xs
      else (case split_on c xs of [] \<Rightarrow> [[x]] | p # ps \<Rightarrow> (x # p) # ps))"

text \<open>\<open>split_whitespace\<close>: the maximal runs of non-white characters.\<close>

fun words_acc :: "ustr \<Rightarrow> ustr \<Rightarrow> ustr list" where
  "words_acc acc [] = (if acc = [] then [] else [rev acc])"
| "words_acc acc (c # cs) =
     (if is_whitespace c then (if acc = [] then words_acc [] cs else rev acc # words_acc [] cs)
      else words_acc (c # acc) cs)"

definition split_whitespace :: "ustr \<Rightarrow> ustr list" where
  "split_whitespace s = words_acc [] s"

definition starts_with :: "ustr \<Rightarrow> ustr \<Rightarrow> bool" where
  "starts_with p s \<longleftrightarrow> take (length p) s = p"

definition strip_prefix :: "ustr \<Rightarrow> ustr \<Rightarrow> ustr option" where
  "strip_prefix p s = (if starts_with p s then Some (drop (length p) s) else None)"

lemma split_once_append: "c \<notin> set a \<Longrightarrow> split_once c (a @ c # b) = Some (a, b)"
  by (induction a) auto

lemma split_once_None [simp]: "split_once c s = None \<longleftrightarrow> c \<notin> set s"
  by (induction s) auto

lemma split_once_absent [simp]: "c \<notin> set s \<Longrightarrow> split_once c s = None"
  by simp

lemma split_once_Some: "split_once c s = Some (a, b) \<Longrightarrow> s = a @ c # b \<and> c \<notin> set a"
proof (induction s arbitrary: a)
  case (Cons x xs)
  then show ?case by (auto split: if_splits)
qed simp

lemma split_on_ne [simp]: "split_on c xs \<noteq> []"
  by (induction xs) (auto split: list.splits)

lemma split_on_none: "c \<notin> set a \<Longrightarrow> split_on c a = [a]"
  by (induction a) auto

lemma split_on_append: "c \<notin> set a \<Longrightarrow> split_on c (a @ c # b) = a # split_on c b"
  by (induction a) auto

lemma set_split_on: "(\<Union>p \<in> set (split_on c xs). set p) = set xs - {c}"
proof (induction xs)
  case (Cons x xs)
  show ?case
  proof (cases "split_on c xs")
    case (Cons p ps)
    then show ?thesis using Cons.IH by auto
  qed simp
qed simp

lemma trim_noop:
  assumes "s = [] \<or> (\<not> is_whitespace (hd s) \<and> \<not> is_whitespace (last s))"
  shows "trim s = s"
proof (cases "s = []")
  case False
  with assms have "trim_start s = s" by (simp add: trim_start_def dropWhile_no)
  moreover have "dropWhile is_whitespace (rev s) = rev s"
    using assms False by (intro dropWhile_no) (simp add: hd_rev)
  ultimately show ?thesis by (simp add: trim_def trim_end_def)
qed (simp add: trim_def trim_start_def trim_end_def)

lemma set_trim_start: "set (trim_start s) \<subseteq> set s"
  by (auto simp: trim_start_def dest: set_dropWhileD)

lemma set_trim_end: "set (trim_end s) \<subseteq> set s"
  by (auto simp: trim_end_def dest: set_dropWhileD)

lemma set_trim: "set (trim s) \<subseteq> set s"
  using set_trim_start set_trim_end by (fastforce simp: trim_def)

lemma trim_all_plain: "(\<And>c. c \<in> set s \<Longrightarrow> \<not> is_whitespace c) \<Longrightarrow> trim s = s"
  by (rule trim_noop) (cases "s = []"; auto)

lemma trim_end_last: "trim_end s \<noteq> [] \<Longrightarrow> \<not> is_whitespace (last (trim_end s))"
proof -
  assume "trim_end s \<noteq> []"
  then have "dropWhile is_whitespace (rev s) \<noteq> []" by (simp add: trim_end_def)
  from hd_dropWhile [OF this] this show ?thesis by (simp add: trim_end_def last_rev)
qed

lemma trim_end_hd: "trim_end s \<noteq> [] \<Longrightarrow> hd (trim_end s) = hd s"
proof (induction s)
  case (Cons c cs)
  have "trim_end (c # cs) =
      (if trim_end cs = [] then if is_whitespace c then [] else [c] else c # trim_end cs)"
    by (auto simp: trim_end_def dropWhile_append)
  then show ?case using Cons.prems by (auto split: if_splits)
qed (simp add: trim_end_def)

lemma trim_hd: "trim s \<noteq> [] \<Longrightarrow> \<not> is_whitespace (hd (trim s))"
proof -
  assume a: "trim s \<noteq> []"
  then have "trim_start s \<noteq> []" by (auto simp: trim_def trim_end_def)
  then have "\<not> is_whitespace (hd (trim_start s))"
    unfolding trim_start_def by (rule hd_dropWhile)
  then show ?thesis using a trim_end_hd by (auto simp: trim_def)
qed

lemma trim_idem [simp]: "trim (trim s) = trim s"
  by (rule trim_noop) (metis trim_hd trim_end_last trim_def)

section \<open>Numbers as text\<close>

fun show_nat :: "nat \<Rightarrow> ustr" where
  "show_nat n = (if n < 10 then [48 + n] else show_nat (n div 10) @ [48 + n mod 10])"

declare show_nat.simps [simp del]

text \<open>Decimal digits to a number; \<open>None\<close> on any other character.\<close>

fun digits_val :: "nat \<Rightarrow> ustr \<Rightarrow> nat option" where
  "digits_val acc [] = Some acc"
| "digits_val acc (c # cs) =
     (if is_ascii_digit c then digits_val (acc * 10 + (c - 48)) cs else None)"

text \<open>
  \<open>str::parse\<close> at an unsigned type with \<open>bound\<close> values: an optional plus sign, then at least
  one digit, and an error on overflow.
\<close>

definition parse_unsigned :: "nat \<Rightarrow> ustr \<Rightarrow> nat option" where
  "parse_unsigned bound s =
     (let ds = (case s of [] \<Rightarrow> [] | c # cs \<Rightarrow> if c = 43 then cs else s) in
      if ds = [] then None
      else (case digits_val 0 ds of Some n \<Rightarrow> if n < bound then Some n else None | None \<Rightarrow> None))"

definition hex_digit :: "nat \<Rightarrow> nat option" where
  "hex_digit c =
     (if is_ascii_digit c then Some (c - 48)
      else if 65 \<le> c \<and> c \<le> 70 then Some (c - 55)
      else if 97 \<le> c \<and> c \<le> 102 then Some (c - 87) else None)"

fun hex_val :: "nat \<Rightarrow> ustr \<Rightarrow> nat option" where
  "hex_val acc [] = Some acc"
| "hex_val acc (c # cs) =
     (case hex_digit c of Some d \<Rightarrow> hex_val (acc * 16 + d) cs | None \<Rightarrow> None)"

text \<open>\<open>u16::from_str_radix(s, 16)\<close>.\<close>

definition parse_hex_u16 :: "ustr \<Rightarrow> nat option" where
  "parse_hex_u16 s =
     (let ds = (case s of [] \<Rightarrow> [] | c # cs \<Rightarrow> if c = 43 then cs else s) in
      if ds = [] then None
      else (case hex_val 0 ds of Some n \<Rightarrow> if n < 65536 then Some n else None | None \<Rightarrow> None))"

lemma digits_val_append:
  "digits_val a (xs @ ys) = Option.bind (digits_val a xs) (\<lambda>b. digits_val b ys)"
  by (induction xs arbitrary: a) auto

lemma digits_val_show: "digits_val 0 (show_nat n) = Some n"
proof (induction n rule: show_nat.induct)
  case (1 n)
  show ?case
  proof (cases "n < 10")
    case True
    then show ?thesis by (simp add: show_nat.simps [of n] is_ascii_digit_def)
  next
    case False
    have "n mod 10 < 10" by simp
    then have "is_ascii_digit (48 + n mod 10)"
      unfolding is_ascii_digit_def by presburger
    with 1 False show ?thesis
      by (simp add: show_nat.simps [of n] digits_val_append)
  qed
qed

lemma show_nat_digits: "c \<in> set (show_nat n) \<Longrightarrow> is_ascii_digit c"
proof (induction n rule: show_nat.induct)
  case (1 n)
  have "n mod 10 \<le> 9" by (simp add: less_Suc_eq_le [symmetric])
  with 1 show ?case
    by (auto simp: show_nat.simps [of n] is_ascii_digit_def split: if_splits)
qed

lemma show_nat_ne [simp]: "show_nat n \<noteq> []"
  by (simp add: show_nat.simps [of n])

lemma parse_show: "n < bound \<Longrightarrow> parse_unsigned bound (show_nat n) = Some n"
proof -
  assume n: "n < bound"
  obtain c cs where s: "show_nat n = c # cs"
    using show_nat_ne [of n] by (cases "show_nat n") auto
  then have "is_ascii_digit c" using show_nat_digits [of c n] by simp
  then have "c \<noteq> 43" by (auto simp: is_ascii_digit_def)
  then have "parse_unsigned bound (show_nat n) =
      (case digits_val 0 (show_nat n) of Some n \<Rightarrow> if n < bound then Some n else None | None \<Rightarrow> None)"
    by (simp add: parse_unsigned_def s)
  with n show ?thesis by (simp add: digits_val_show)
qed

section \<open>UTF-8\<close>

definition utf8_char :: "nat \<Rightarrow> nat list" where
  "utf8_char c =
     (if c < 0x80 then [c]
      else if c < 0x800 then [0xC0 + c div 0x40, 0x80 + c mod 0x40]
      else if c < 0x10000 then [0xE0 + c div 0x1000, 0x80 + c div 0x40 mod 0x40, 0x80 + c mod 0x40]
      else [0xF0 + c div 0x40000, 0x80 + c div 0x1000 mod 0x40, 0x80 + c div 0x40 mod 0x40,
            0x80 + c mod 0x40])"

definition utf8 :: "ustr \<Rightarrow> nat list" where
  "utf8 s = concat (map utf8_char s)"

text \<open>\<open>str::len\<close> counts bytes; \<open>as_bytes\<close> is the byte slice itself.\<close>

definition str_len :: "ustr \<Rightarrow> nat" where
  "str_len s = length (utf8 s)"

definition as_bytes :: "ustr \<Rightarrow> byte list" where
  "as_bytes s = map of_nat (utf8 s)"

definition is_cont :: "nat \<Rightarrow> bool" where
  "is_cont b \<longleftrightarrow> 0x80 \<le> b \<and> b \<le> 0xBF"

text \<open>Which second bytes the decoder accepts after a given lead byte.\<close>

definition second3 :: "nat \<Rightarrow> nat \<Rightarrow> bool" where
  "second3 b c \<longleftrightarrow> (b = 0xE0 \<and> 0xA0 \<le> c \<and> c \<le> 0xBF) \<or> (0xE1 \<le> b \<and> b \<le> 0xEC \<and> is_cont c)
     \<or> (b = 0xED \<and> 0x80 \<le> c \<and> c \<le> 0x9F) \<or> (0xEE \<le> b \<and> b \<le> 0xEF \<and> is_cont c)"

definition second4 :: "nat \<Rightarrow> nat \<Rightarrow> bool" where
  "second4 b c \<longleftrightarrow> (b = 0xF0 \<and> 0x90 \<le> c \<and> c \<le> 0xBF) \<or> (0xF1 \<le> b \<and> b \<le> 0xF3 \<and> is_cont c)
     \<or> (b = 0xF4 \<and> 0x80 \<le> c \<and> c \<le> 0x8F)"

text \<open>
  One step of the decoder: the character read (\<open>None\<close> for an invalid prefix) and how many of
  the following bytes belong to it.
\<close>

definition utf8_step :: "nat \<Rightarrow> nat list \<Rightarrow> nat option \<times> nat" where
  "utf8_step b bs =
     (if b < 0x80 then (Some b, 0)
      else if 0xC2 \<le> b \<and> b \<le> 0xDF then
        (case bs of c # _ \<Rightarrow> if is_cont c then (Some ((b - 0xC0) * 0x40 + (c - 0x80)), 1) else (None, 0)
         | [] \<Rightarrow> (None, 0))
      else if 0xE0 \<le> b \<and> b \<le> 0xEF then
        (case bs of c # cs \<Rightarrow>
           if second3 b c then
             (case cs of d # _ \<Rightarrow>
                if is_cont d
                then (Some ((b - 0xE0) * 0x1000 + (c - 0x80) * 0x40 + (d - 0x80)), 2) else (None, 1)
              | [] \<Rightarrow> (None, 1))
           else (None, 0)
         | [] \<Rightarrow> (None, 0))
      else if 0xF0 \<le> b \<and> b \<le> 0xF4 then
        (case bs of c # cs \<Rightarrow>
           if second4 b c then
             (case cs of d # ds \<Rightarrow>
                if is_cont d then
                  (case ds of e # _ \<Rightarrow>
                     if is_cont e
                     then (Some ((b - 0xF0) * 0x40000 + (c - 0x80) * 0x1000 + (d - 0x80) * 0x40
                             + (e - 0x80)), 3)
                     else (None, 2)
                   | [] \<Rightarrow> (None, 2))
                else (None, 1)
              | [] \<Rightarrow> (None, 1))
           else (None, 0)
         | [] \<Rightarrow> (None, 0))
      else (None, 0))"

function lossy :: "nat list \<Rightarrow> ustr" where
  "lossy [] = []"
| "lossy (b # bs) =
     (case utf8_step b bs of (r, k) \<Rightarrow>
        (case r of Some c \<Rightarrow> c | None \<Rightarrow> 0xFFFD) # lossy (drop k bs))"
  by pat_completeness auto
termination
  by (relation "measure length") auto

function strict :: "nat list \<Rightarrow> ustr option" where
  "strict [] = Some []"
| "strict (b # bs) =
     (case utf8_step b bs of (r, k) \<Rightarrow>
        (case r of Some c \<Rightarrow> map_option (Cons c) (strict (drop k bs)) | None \<Rightarrow> None))"
  by pat_completeness auto
termination
  by (relation "measure length") auto

definition from_utf8_lossy :: "byte list \<Rightarrow> ustr" where
  "from_utf8_lossy bs = lossy (map unat bs)"

text \<open>\<open>std::str::from_utf8(bytes).ok()\<close>.\<close>

definition from_utf8 :: "byte list \<Rightarrow> ustr option" where
  "from_utf8 bs = strict (map unat bs)"

lemma utf8_simps [simp]:
  "utf8 [] = []" "utf8 (c # s) = utf8_char c @ utf8 s" "utf8 (s @ t) = utf8 s @ utf8 t"
  by (simp_all add: utf8_def)

lemma as_bytes_simps [simp]:
  "as_bytes [] = []" "as_bytes (c # s) = map of_nat (utf8_char c) @ as_bytes s"
  "as_bytes (s @ t) = as_bytes s @ as_bytes t"
  by (simp_all add: as_bytes_def)

lemma utf8_char_ascii [simp]: "c < 128 \<Longrightarrow> utf8_char c = [c]"
  by (simp add: utf8_char_def)

lemma utf8_ascii: "\<forall>c \<in> set s. c < 128 \<Longrightarrow> utf8 s = s"
  by (induction s) auto

lemma as_bytes_ascii: "\<forall>c \<in> set s. c < 128 \<Longrightarrow> as_bytes s = map of_nat s"
  by (simp add: as_bytes_def utf8_ascii)

lemma str_len_ascii: "\<forall>c \<in> set s. c < 128 \<Longrightarrow> str_len s = length s"
  by (simp add: str_len_def utf8_ascii)

lemma utf8_char_byte: "is_scalar c \<Longrightarrow> b \<in> set (utf8_char c) \<Longrightarrow> b < 256"
proof -
  assume "is_scalar c" "b \<in> set (utf8_char c)"
  moreover have "x mod 0x40 < 0x40" for x :: nat by simp
  ultimately show ?thesis
    by (auto simp: utf8_char_def is_scalar_def split: if_splits)
qed

lemma utf8_char_high: "128 \<le> c \<Longrightarrow> b \<in> set (utf8_char c) \<Longrightarrow> 128 \<le> b"
  by (auto simp: utf8_char_def split: if_splits)

text \<open>The decoder reads back each encoded character, whatever follows it.\<close>

lemma utf8_step_char:
  assumes c: "is_scalar c" and e: "utf8_char c = b # rest"
  shows "utf8_step b (rest @ xs) = (Some c, length rest)"
proof -
  define q where "q = c div 0x40"
  define p where "p = q div 0x40"
  have q: "c = 0x40 * q + c mod 0x40" "c mod 0x40 < 0x40" by (simp_all add: q_def)
  have p: "q = 0x40 * p + q mod 0x40" "q mod 0x40 < 0x40" by (simp_all add: p_def)
  have o: "p = 0x40 * (p div 0x40) + p mod 0x40" "p mod 0x40 < 0x40" by simp_all
  have d: "c div 0x1000 = p" "c div 0x40000 = p div 0x40"
    by (simp_all add: p_def q_def div_mult2_eq [symmetric])
  consider "c < 0x80" | "0x80 \<le> c" "c < 0x800" | "0x800 \<le> c" "c < 0x10000" | "0x10000 \<le> c"
    by linarith
  then show ?thesis
  proof cases
    case 1
    then show ?thesis using e by (simp add: utf8_char_def utf8_step_def)
  next
    case 2
    then have e': "b = 0xC0 + q" "rest = [0x80 + c mod 0x40]"
      using e by (simp_all add: utf8_char_def q_def)
    have "2 \<le> q" "q < 0x20" using 2 q by linarith+
    then show ?thesis using q unfolding e' by (simp add: utf8_step_def is_cont_def)
  next
    case 3
    then have e': "b = 0xE0 + p" "rest = [0x80 + q mod 0x40, 0x80 + c mod 0x40]"
      using e by (simp_all add: utf8_char_def d q_def [symmetric])
    have r: "p < 0x10" "0x20 \<le> q" using 3 p q by linarith+
    have s: "second3 b (0x80 + q mod 0x40)"
      using c r p q unfolding e' second3_def is_cont_def is_scalar_def by linarith
    show ?thesis using s r p q unfolding e' by (simp add: utf8_step_def is_cont_def)
  next
    case 4
    then have e': "b = 0xF0 + p div 0x40"
        "rest = [0x80 + p mod 0x40, 0x80 + q mod 0x40, 0x80 + c mod 0x40]"
      using e by (simp_all add: utf8_char_def d q_def [symmetric])
    have r: "p div 0x40 < 5" "0x10 \<le> p" using 4 c p q o unfolding is_scalar_def by linarith+
    have s: "second4 b (0x80 + p mod 0x40)"
      using c r p q o unfolding e' second4_def is_cont_def is_scalar_def by linarith
    have t: "p div 0x40 * 0x40000 + p mod 0x40 * 0x1000 + q mod 0x40 * 0x40 + c mod 0x40 = c"
      using p q o by linarith
    have b: "c mod 0x40 \<le> 0x3F" "q mod 0x40 \<le> 0x3F" using p(2) q(2) by linarith+
    show ?thesis using s r(1) t b unfolding e' by (simp add: utf8_step_def is_cont_def)
  qed
qed

lemma utf8_char_ne: "utf8_char c \<noteq> []"
  by (simp add: utf8_char_def)

lemma lossy_utf8: "\<forall>c \<in> set s. is_scalar c \<Longrightarrow> lossy (utf8 s) = s"
proof (induction s)
  case (Cons c s)
  obtain b rest where e: "utf8_char c = b # rest" using utf8_char_ne [of c] by (cases "utf8_char c") auto
  have "is_scalar c" using Cons.prems by simp
  from utf8_step_char [OF this e, of "utf8 s"] show ?case using Cons e by simp
qed simp

lemma strict_utf8: "\<forall>c \<in> set s. is_scalar c \<Longrightarrow> strict (utf8 s) = Some s"
proof (induction s)
  case (Cons c s)
  obtain b rest where e: "utf8_char c = b # rest" using utf8_char_ne [of c] by (cases "utf8_char c") auto
  have "is_scalar c" using Cons.prems by simp
  from utf8_step_char [OF this e, of "utf8 s"] show ?case using Cons e by simp
qed simp

lemma utf8_bytes: "\<forall>c \<in> set s. is_scalar c \<Longrightarrow> b \<in> set (utf8 s) \<Longrightarrow> b < 256"
  by (induction s) (auto dest: utf8_char_byte)

lemma unat_of_byte [simp]: "n < 256 \<Longrightarrow> unat (of_nat n :: byte) = n"
  by (simp add: unat_of_nat)

lemma unat_byte_bound: "unat (b :: byte) < 256"
  using unsigned_less [of b, where 'a = nat] by simp

lemma unat_as_bytes: "\<forall>c \<in> set s. is_scalar c \<Longrightarrow> map unat (as_bytes s) = utf8 s"
  using utf8_bytes by (auto simp: as_bytes_def intro!: map_idI)

lemma from_utf8_lossy_as_bytes: "\<forall>c \<in> set s. is_scalar c \<Longrightarrow> from_utf8_lossy (as_bytes s) = s"
  by (simp add: from_utf8_lossy_def unat_as_bytes lossy_utf8)

lemma from_utf8_as_bytes: "\<forall>c \<in> set s. is_scalar c \<Longrightarrow> from_utf8 (as_bytes s) = Some s"
  by (simp add: from_utf8_def unat_as_bytes strict_utf8)

lemma length_as_bytes [simp]: "length (as_bytes s) = str_len s"
  by (simp add: as_bytes_def str_len_def)

lemma str_len_simps [simp]:
  "str_len [] = 0" "str_len (c # s) = length (utf8_char c) + str_len s"
  "str_len (s @ t) = str_len s + str_len t"
  by (simp_all add: str_len_def)

lemma length_le_str_len: "length s \<le> str_len s"
proof (induction s)
  case (Cons c s)
  have "1 \<le> length (utf8_char c)" by (simp add: utf8_char_def)
  with Cons show ?case by (simp only: str_len_simps list.size)
qed simp

lemma ascii_scalar: "c < 128 \<Longrightarrow> is_scalar c"
  by (simp add: is_scalar_def)

end
