(* ===== verification/Callsign.thy ===== *)
theory Callsign
  imports Rust_Text "HOL-Library.List_Lexorder"
begin

text \<open>
  \<open>src/src/callsign.rs\<close>: an amateur callsign with its SSID, the identity on the radio side.
  \<open>Callsign::new\<close> is the only constructor, so a well-formed callsign (\<open>callsign_wf\<close>) is one it
  can return. The theory proves what \<open>new\<close> accepts and rejects, and that the text form, the
  IRC nickname and the derived order are faithful: parsing a printed callsign gives it back.
\<close>

datatype callsign = Callsign (call_base: ustr) (call_ssid: byte)

datatype callsign_error =
    Empty
  | BaseLength nat
  | BadChar nat
  | BadSsid
  | Implausible ustr

section \<open>Operations\<close>

definition callsign_new :: "ustr \<Rightarrow> byte \<Rightarrow> callsign_error + callsign" where
  "callsign_new base0 ssid =
     (let base = to_ascii_uppercase (trim base0) in
      if base = [] then Inl Empty
      else if 6 < str_len base then Inl (BaseLength (str_len base))
      else (case find (\<lambda>c. \<not> is_ascii_alphanumeric c) base of
              Some c \<Rightarrow> Inl (BadChar c)
            | None \<Rightarrow> if 15 < ssid then Inl BadSsid else Inr (Callsign base ssid)))"

definition looks_like_amateur_call :: "callsign \<Rightarrow> bool" where
  "looks_like_amateur_call c \<longleftrightarrow>
     3 \<le> str_len (call_base c) \<and> list_ex is_ascii_digit (call_base c)
     \<and> list_ex is_ascii_alphabetic (call_base c)"

text \<open>\<open>impl fmt::Display\<close>.\<close>

definition callsign_to_string :: "callsign \<Rightarrow> ustr" where
  "callsign_to_string c =
     (if call_ssid c = 0 then call_base c else call_base c @ lit ''-'' @ show_nat (unat (call_ssid c)))"

definition require_amateur :: "callsign \<Rightarrow> callsign_error + unit" where
  "require_amateur c =
     (if looks_like_amateur_call c then Inr () else Inl (Implausible (callsign_to_string c)))"

definition same_station :: "callsign \<Rightarrow> callsign \<Rightarrow> bool" where
  "same_station a b \<longleftrightarrow> call_base a = call_base b"

definition to_nick :: "callsign \<Rightarrow> ustr" where
  "to_nick c =
     (if call_ssid c = 0 then call_base c else call_base c @ lit ''|'' @ show_nat (unat (call_ssid c)))"

definition parse_ssid :: "ustr \<Rightarrow> byte option" where
  "parse_ssid s = map_option of_nat (parse_unsigned 256 s)"

definition from_nick :: "ustr \<Rightarrow> callsign_error + callsign" where
  "from_nick nick =
     (case split_once 124 nick of
        Some (b, s) \<Rightarrow> (case parse_ssid s of Some n \<Rightarrow> callsign_new b n | None \<Rightarrow> Inl BadSsid)
      | None \<Rightarrow> callsign_new nick 0)"

text \<open>\<open>impl FromStr\<close>.\<close>

definition callsign_from_str :: "ustr \<Rightarrow> callsign_error + callsign" where
  "callsign_from_str s =
     (case split_once 45 s of
        Some (b, d) \<Rightarrow> (case parse_ssid d of Some n \<Rightarrow> callsign_new b n | None \<Rightarrow> Inl BadSsid)
      | None \<Rightarrow> callsign_new s 0)"

text \<open>RFC 1459 case mapping, \<open>irc::message::lower\<close>, on one character and on a string.\<close>

definition lower_char :: "nat \<Rightarrow> nat" where
  "lower_char c =
     (if is_ascii_uppercase c then to_lower c
      else if c = 91 then 123 else if c = 93 then 125 else if c = 92 then 124
      else if c = 126 then 94 else c)"

definition lower :: "ustr \<Rightarrow> ustr" where
  "lower s = map lower_char s"

definition ok_list :: "'e + 'a \<Rightarrow> 'a list" where
  "ok_list r = (case r of Inr x \<Rightarrow> [x] | Inl _ \<Rightarrow> [])"

definition reserved_from_nick :: "ustr \<Rightarrow> callsign option" where
  "reserved_from_nick nick =
     (let mapped = lower nick;
          candidates = ok_list (from_nick nick) @ ok_list (from_nick mapped)
            @ ok_list (callsign_from_str nick) @ ok_list (callsign_from_str mapped)
      in find looks_like_amateur_call candidates)"

text \<open>The derived order compares the base first, then the SSID.\<close>

instantiation callsign :: linorder
begin

definition less_eq_callsign :: "callsign \<Rightarrow> callsign \<Rightarrow> bool" where
  "less_eq_callsign a b \<longleftrightarrow> call_base a < call_base b \<or>
     (call_base a = call_base b \<and> call_ssid a \<le> call_ssid b)"

definition less_callsign :: "callsign \<Rightarrow> callsign \<Rightarrow> bool" where
  "less_callsign a b \<longleftrightarrow> call_base a < call_base b \<or>
     (call_base a = call_base b \<and> call_ssid a < call_ssid b)"

instance
proof
  fix x y z :: callsign
  show "(x < y) = (x \<le> y \<and> \<not> y \<le> x)"
    by (auto simp: less_eq_callsign_def less_callsign_def)
  show "x \<le> x" by (simp add: less_eq_callsign_def)
  show "x \<le> y \<Longrightarrow> y \<le> z \<Longrightarrow> x \<le> z" by (auto simp: less_eq_callsign_def)
  show "x \<le> y \<Longrightarrow> y \<le> x \<Longrightarrow> x = y"
    by (auto simp: less_eq_callsign_def intro: callsign.expand)
  show "x \<le> y \<or> y \<le> x" by (auto simp: less_eq_callsign_def)
qed

end

section \<open>Well-formed callsigns\<close>

definition callsign_wf :: "callsign \<Rightarrow> bool" where
  "callsign_wf c \<longleftrightarrow> call_base c \<noteq> [] \<and> length (call_base c) \<le> 6
     \<and> list_all (\<lambda>x. is_ascii_alphanumeric x \<and> to_upper x = x) (call_base c) \<and> call_ssid c \<le> 15"

lemma wf_base_char:
  "callsign_wf c \<Longrightarrow> x \<in> set (call_base c) \<Longrightarrow> is_ascii_alphanumeric x \<and> to_upper x = x"
  by (auto simp: callsign_wf_def list_all_iff)

lemma wf_base_ascii: "callsign_wf c \<Longrightarrow> x \<in> set (call_base c) \<Longrightarrow> x < 128"
  by (auto dest: wf_base_char alphanumeric_ascii)

lemma wf_base_trim: "callsign_wf c \<Longrightarrow> trim (call_base c) = call_base c"
  by (intro trim_all_plain) (auto dest: wf_base_char alphanumeric_not_white)

lemma wf_base_upper: "callsign_wf c \<Longrightarrow> to_ascii_uppercase (call_base c) = call_base c"
  by (auto simp: to_ascii_uppercase_def intro!: map_idI dest: wf_base_char)

lemma find_None_all: "find P xs = None \<longleftrightarrow> (\<forall>x \<in> set xs. \<not> P x)"
  by (induction xs) auto

lemma callsign_new_wf [wf_intros]:
  assumes "callsign_new s n = Inr c"
  shows "callsign_wf c"
proof -
  define base where "base = to_ascii_uppercase (trim s)"
  have b: "base \<noteq> []" "str_len base \<le> 6" "find (\<lambda>c. \<not> is_ascii_alphanumeric c) base = None"
      "n \<le> 15" "c = Callsign base n"
    using assms by (auto simp: callsign_new_def base_def [symmetric] Let_def not_less
        split: if_splits option.splits)
  moreover have "length base \<le> str_len base" by (rule length_le_str_len)
  moreover have "\<forall>x \<in> set base. to_upper x = x" by (auto simp: base_def to_ascii_uppercase_def)
  ultimately show ?thesis by (auto simp: callsign_wf_def list_all_iff find_None_all)
qed

lemma callsign_new_base:
  assumes "callsign_wf c"
  shows "callsign_new (call_base c) (call_ssid c) = Inr c"
proof -
  have "str_len (call_base c) = length (call_base c)"
    using assms by (auto intro: str_len_ascii dest: wf_base_ascii)
  moreover have "find (\<lambda>c. \<not> is_ascii_alphanumeric c) (call_base c) = None"
    using assms by (auto simp: find_None_all dest: wf_base_char)
  ultimately show ?thesis using assms
    by (auto simp: callsign_new_def Let_def wf_base_trim wf_base_upper callsign_wf_def not_less)
qed

lemma from_str_wf [wf_intros]: "callsign_from_str s = Inr c \<Longrightarrow> callsign_wf c"
  by (auto simp: callsign_from_str_def intro: callsign_new_wf split: option.splits prod.splits)

lemma from_nick_wf [wf_intros]: "from_nick s = Inr c \<Longrightarrow> callsign_wf c"
  by (auto simp: from_nick_def intro: callsign_new_wf split: option.splits prod.splits)

lemma parse_ssid_show: "parse_ssid (show_nat (unat n)) = Some (n :: byte)"
proof -
  have "unat n < 256" by (rule unat_byte_bound)
  then show ?thesis by (simp add: parse_ssid_def parse_show)
qed

lemma wf_base_no_sep:
  assumes "callsign_wf c"
  shows "45 \<notin> set (call_base c)" "124 \<notin> set (call_base c)"
  using assms by (auto dest!: wf_base_char simp: char_class_defs)

lemma callsign_round_trip: "callsign_wf c \<Longrightarrow> callsign_from_str (callsign_to_string c) = Inr c"
proof -
  assume wf: "callsign_wf c"
  show ?thesis
  proof (cases "call_ssid c = 0")
    case True
    then show ?thesis
      using callsign_new_base [OF wf] wf_base_no_sep [OF wf]
      by (simp add: callsign_from_str_def callsign_to_string_def)
  next
    case False
    then show ?thesis
      using callsign_new_base [OF wf] wf_base_no_sep [OF wf]
      by (simp add: callsign_from_str_def callsign_to_string_def lit_def split_once_append
          parse_ssid_show)
  qed
qed

lemma nick_round_trip: "callsign_wf c \<Longrightarrow> from_nick (to_nick c) = Inr c"
proof -
  assume wf: "callsign_wf c"
  show ?thesis
  proof (cases "call_ssid c = 0")
    case True
    then show ?thesis
      using callsign_new_base [OF wf] wf_base_no_sep [OF wf]
      by (simp add: from_nick_def to_nick_def)
  next
    case False
    then show ?thesis
      using callsign_new_base [OF wf] wf_base_no_sep [OF wf]
      by (simp add: from_nick_def to_nick_def lit_def split_once_append parse_ssid_show)
  qed
qed

text \<open>
  The text form is a codec, and so is the nickname: two well-formed callsigns never print alike.
\<close>

definition ok_of :: "'e + 'a \<Rightarrow> 'a option" where
  "ok_of r = (case r of Inr x \<Rightarrow> Some x | Inl _ \<Rightarrow> None)"

lemma ok_of_simps [simp]: "ok_of (Inr x) = Some x" "ok_of (Inl e) = None"
  by (simp_all add: ok_of_def)

interpretation call_text: codec callsign_to_string "\<lambda>s. ok_of (callsign_from_str s)" callsign_wf
  by unfold_locales (simp add: callsign_round_trip)

interpretation call_nick: codec to_nick "\<lambda>s. ok_of (from_nick s)" callsign_wf
  by unfold_locales (simp add: nick_round_trip)

lemma lower_nick_sep: "lower (b @ 92 # s) = lower b @ 124 # lower s"
  by (simp add: lower_def lower_char_def char_class_defs)

section \<open>Properties\<close>

text \<open>Every callsign any of the three constructors returns (\<open>Callsign::new\<close>, \<open>from_str\<close>,
  \<open>from_nick\<close>) is within the AX.25 limits (1 to 6 upper-case letters or digits, SSID at most 15), and
  both of its text forms parse back to the same callsign.\<close>

theorem callsign_text_forms:
  assumes "callsign_new b n = Inr c \<or> callsign_from_str s = Inr c \<or> from_nick s = Inr c"
  shows "length (call_base c) \<in> {1..6} \<and> call_ssid c \<le> 15 \<and>
    list_all (\<lambda>x. is_ascii_alphanumeric x \<and> \<not> is_ascii_lowercase x) (call_base c) \<and>
    callsign_from_str (callsign_to_string c) = Inr c \<and> from_nick (to_nick c) = Inr c"
proof -
  have wf: "callsign_wf c" using assms by (auto intro: callsign_new_wf from_str_wf from_nick_wf)
  moreover have "\<not> is_ascii_lowercase x" if "to_upper x = x" for x
    using that by (auto simp: char_class_defs to_upper_def split: if_splits)
  ultimately show ?thesis
    by (auto simp: callsign_wf_def list_all_iff Suc_le_eq callsign_round_trip nick_round_trip)
qed

theorem callsign_text_forms_witness:
  "callsign_from_str (callsign_to_string (Callsign (lit ''SM0ABC'') 7)) =
     Inr (Callsign (lit ''SM0ABC'') 7)"
proof -
  have "callsign_from_str (lit ''sm0abc-7'') = Inr (Callsign (lit ''SM0ABC'') 7)" by code_simp
  then show ?thesis
    using callsign_text_forms [of "[]" 0 "Callsign (lit ''SM0ABC'') 7" "lit ''sm0abc-7''"] by blast
qed

end
