(* ===== verification/Ax25.thy ===== *)
theory Ax25
  imports Callsign
begin

text \<open>
  \<open>src/src/ax25/address.rs\<close> and \<open>src/src/ax25/frame.rs\<close>: the seven-octet address field and
  UI frames. Encoding and decoding are byte for byte those of the source, error order included.
  The main results: decoding an encoded frame gives the frame back, every decoded address holds
  a callsign \<open>Callsign::new\<close> could have made, and a frame carries at most eight digipeaters.
\<close>

datatype ax25_error = Truncated | BadAddress | TooManyDigipeaters

section \<open>Addresses\<close>

definition ADDRESS_LEN :: nat where
  "ADDRESS_LEN = 7"

record address =
  addr_call :: callsign
  c_bit :: bool
  last_bit :: bool

definition address_new :: "callsign \<Rightarrow> address" where
  "address_new c = \<lparr>addr_call = c, c_bit = False, last_bit = False\<rparr>"

definition with_c_bit :: "bool \<Rightarrow> address \<Rightarrow> address" where
  "with_c_bit v a = a\<lparr>c_bit := v\<rparr>"

definition ssid_octet :: "address \<Rightarrow> byte" where
  "ssid_octet a =
     (0b01100000 OR push_bit 1 (call_ssid (addr_call a)))
     OR (if c_bit a then 0b10000000 else 0) OR (if last_bit a then 1 else 0)"

definition address_encode :: "address \<Rightarrow> byte list" where
  "address_encode a =
     (let base = as_bytes (call_base (addr_call a)) in
      map (\<lambda>i. push_bit 1 (if i < length base then base ! i else 0x20)) [0..<6] @ [ssid_octet a])"

text \<open>The loop over the six callsign octets, in order, first error wins.\<close>

fun decode_base :: "byte list \<Rightarrow> ustr option" where
  "decode_base [] = Some []"
| "decode_base (b # bs) =
     (if b AND 1 \<noteq> 0 then None
      else (let ch = unat (drop_bit 1 b) in
            if ch = 0x20 then decode_base bs
            else if \<not> is_ascii_alphanumeric ch then None
            else map_option (Cons ch) (decode_base bs)))"

definition address_decode :: "byte list \<Rightarrow> ax25_error + address" where
  "address_decode buf =
     (if length buf < ADDRESS_LEN then Inl Truncated
      else (case decode_base (take 6 buf) of
              None \<Rightarrow> Inl BadAddress
            | Some base \<Rightarrow>
                (let ssid_byte = buf ! 6; ssid = drop_bit 1 ssid_byte AND 0x0F in
                 case callsign_new base ssid of
                   Inl _ \<Rightarrow> Inl BadAddress
                 | Inr call \<Rightarrow> Inr \<lparr>addr_call = call,
                                  c_bit = (ssid_byte AND 0b10000000 \<noteq> 0),
                                  last_bit = (ssid_byte AND 1 \<noteq> 0)\<rparr>)))"

section \<open>Frames\<close>

definition CONTROL_UI :: byte where
  "CONTROL_UI = 0x03"

definition PID_NO_L3 :: byte where
  "PID_NO_L3 = 0xF0"

definition MAX_DIGIPEATERS :: nat where
  "MAX_DIGIPEATERS = 8"

record ax25_frame =
  destination :: address
  source_addr :: address
  digipeaters :: "address list"
  control :: byte
  pid :: "byte option"
  info :: "byte list"

definition ax25_ui ::
  "callsign \<Rightarrow> callsign \<Rightarrow> callsign list \<Rightarrow> byte list \<Rightarrow> ax25_error + ax25_frame" where
  "ax25_ui src dest path body =
     (if MAX_DIGIPEATERS < length path then Inl TooManyDigipeaters
      else Inr \<lparr>destination = with_c_bit True (address_new dest), source_addr = address_new src,
                digipeaters = map address_new path, control = CONTROL_UI,
                pid = Some PID_NO_L3, info = body\<rparr>)"

definition is_ui_control :: "byte \<Rightarrow> bool" where
  "is_ui_control c \<longleftrightarrow> c AND 0xEF = CONTROL_UI"

definition is_ui :: "ax25_frame \<Rightarrow> bool" where
  "is_ui f \<longleftrightarrow> is_ui_control (control f)"

text \<open>\<open>enumerate()\<close> over the digipeaters: only the last one gets the extension bit.\<close>

fun encode_digis :: "address list \<Rightarrow> byte list" where
  "encode_digis [] = []"
| "encode_digis (d # ds) = address_encode (d\<lparr>last_bit := (ds = [])\<rparr>) @ encode_digis ds"

definition ax25_encode :: "ax25_frame \<Rightarrow> byte list" where
  "ax25_encode f =
     address_encode ((destination f)\<lparr>last_bit := False\<rparr>)
     @ address_encode ((source_addr f)\<lparr>last_bit := (digipeaters f = [])\<rparr>)
     @ encode_digis (digipeaters f)
     @ [control f] @ (case pid f of Some p \<Rightarrow> [p] | None \<Rightarrow> []) @ info f"

text \<open>
  The \<open>while !last\<close> loop. \<open>room\<close> is \<open>MAX_DIGIPEATERS - digipeaters.len()\<close>; the buffer is
  passed as the part from \<open>offset\<close> on, which is what \<open>buf.get(offset..)\<close> yields, since
  \<open>offset\<close> never passes the end once the preceding address decoded.
\<close>

fun decode_digis :: "nat \<Rightarrow> bool \<Rightarrow> byte list \<Rightarrow> ax25_error + (address list \<times> byte list)" where
  "decode_digis room True buf = Inr ([], buf)"
| "decode_digis 0 False buf = Inl TooManyDigipeaters"
| "decode_digis (Suc room) False buf =
     (case address_decode buf of
        Inl e \<Rightarrow> Inl e
      | Inr d \<Rightarrow>
          (case decode_digis room (last_bit d) (drop ADDRESS_LEN buf) of
             Inl e \<Rightarrow> Inl e
           | Inr (ds, rest) \<Rightarrow> Inr (d # ds, rest)))"

definition clear_last :: "address \<Rightarrow> address" where
  "clear_last a = a\<lparr>last_bit := False\<rparr>"

definition ax25_decode :: "byte list \<Rightarrow> ax25_error + ax25_frame" where
  "ax25_decode buf =
     (case address_decode buf of
        Inl e \<Rightarrow> Inl e
      | Inr dest \<Rightarrow>
          if last_bit dest then Inl BadAddress
          else (case address_decode (drop ADDRESS_LEN buf) of
                  Inl e \<Rightarrow> Inl e
                | Inr src \<Rightarrow>
                    (case decode_digis MAX_DIGIPEATERS (last_bit src) (drop (2 * ADDRESS_LEN) buf) of
                       Inl e \<Rightarrow> Inl e
                     | Inr (digis, rest) \<Rightarrow>
                         (case rest of
                            [] \<Rightarrow> Inl Truncated
                          | ctl # rest' \<Rightarrow>
                              (let frame = (\<lambda>p i. \<lparr>destination = clear_last dest,
                                     source_addr = clear_last src,
                                     digipeaters = map clear_last digis,
                                     control = ctl, pid = p, info = i\<rparr>) in
                               if is_ui_control ctl \<or> ctl AND 1 = 0
                               then (case rest' of
                                       [] \<Rightarrow> Inl Truncated
                                     | p # rest'' \<Rightarrow> Inr (frame (Some p) rest''))
                               else Inr (frame None []))))))"

definition monitor_char :: "byte \<Rightarrow> nat" where
  "monitor_char b = (if 0x20 \<le> b \<and> b < 0x7F then unat b else 46)"

definition to_monitor_line :: "ax25_frame \<Rightarrow> ustr" where
  "to_monitor_line f =
     callsign_to_string (addr_call (source_addr f)) @ lit ''>'' @
     callsign_to_string (addr_call (destination f)) @
     concat (map (\<lambda>d. lit '','' @ callsign_to_string (addr_call d)
                        @ (if c_bit d then lit ''*'' else [])) (digipeaters f)) @
     lit '':'' @ map monitor_char (info f)"

section \<open>The address codec\<close>

definition address_wf :: "address \<Rightarrow> bool" where
  "address_wf a \<longleftrightarrow> callsign_wf (addr_call a)"

lemma length_address_encode [simp]: "length (address_encode a) = 7"
  by (simp add: address_encode_def Let_def)

lemma shifted_even: "push_bit 1 w AND 1 = (0 :: byte)" "w * 2 AND 1 = (0 :: byte)"
  by (simp_all add: and_one_eq mod_2_eq_odd even_push_bit_iff)

lemma shift_back:
  assumes "unat w < 128"
  shows "drop_bit 1 (push_bit 1 w) = (w :: byte)" "drop_bit (Suc 0) (w * 2) = w"
proof -
  from assms have u: "unat (w * 2) = 2 * unat w"
    by (simp add: unat_word_ariths)
  have "unat (drop_bit (Suc 0) (w * 2)) = drop_bit (Suc 0) (unat (w * 2))"
    by (rule unat_drop_bit_eq)
  then have "unat (drop_bit (Suc 0) (w * 2)) = unat w"
    by (simp add: u drop_bit_Suc)
  then show "drop_bit (Suc 0) (w * 2) = w" by (rule unsigned_word_eqI)
  then show "drop_bit 1 (push_bit 1 w) = w" by simp
qed

lemma address_octets:
  assumes "callsign_wf c"
  shows "map (\<lambda>i. push_bit 1 (if i < length (as_bytes (call_base c)) then as_bytes (call_base c) ! i else 0x20)) [0..<6]
    = map (push_bit 1) (map of_nat (call_base c) @ replicate (6 - length (call_base c)) (0x20 :: byte))"
proof (rule nth_equalityI)
  have b: "as_bytes (call_base c) = map of_nat (call_base c)"
    using assms by (intro as_bytes_ascii) (auto dest: wf_base_ascii)
  have l: "length (call_base c) \<le> 6" using assms by (simp add: callsign_wf_def)
  show "length (map (\<lambda>i. push_bit 1 (if i < length (as_bytes (call_base c))
      then as_bytes (call_base c) ! i else 0x20)) [0..<6]) =
    length (map (push_bit 1) (map of_nat (call_base c) @ replicate (6 - length (call_base c)) (0x20 :: byte)))"
    using l by simp
  fix i
  assume "i < length (map (\<lambda>i. push_bit 1 (if i < length (as_bytes (call_base c))
      then as_bytes (call_base c) ! i else 0x20)) [0..<6])"
  then show "map (\<lambda>i. push_bit 1 (if i < length (as_bytes (call_base c))
      then as_bytes (call_base c) ! i else 0x20)) [0..<6] ! i =
    map (push_bit 1) (map of_nat (call_base c) @ replicate (6 - length (call_base c)) (0x20 :: byte)) ! i"
    using l by (simp add: b nth_append)
qed

lemma decode_base_pad: "decode_base (map (push_bit 1) (replicate n (0x20 :: byte))) = Some []"
  by (induction n) (simp_all add: shifted_even shift_back)

lemma decode_base_chars:
  "\<forall>x \<in> set s. is_ascii_alphanumeric x \<Longrightarrow>
     decode_base (map (push_bit 1) (map of_nat s @ replicate n (0x20 :: byte))) = Some s"
proof (induction s)
  case Nil
  then show ?case using decode_base_pad by simp
next
  case (Cons x s)
  then have x: "is_ascii_alphanumeric x" "x < 128" by (auto dest: alphanumeric_ascii)
  then have "x \<noteq> 0x20" by (auto simp: char_class_defs)
  with Cons x show ?case by (simp add: shifted_even shift_back Let_def)
qed

lemma ssid_cases: "(n :: byte) \<le> 15 \<Longrightarrow> n \<in> {0,1,2,3,4,5,6,7,8,9,10,11,12,13,14,15}"
proof -
  assume "n \<le> 15"
  then have "unat n < 16" by (simp add: word_le_nat_alt)
  then have "unat n \<in> {0,1,2,3,4,5,6,7,8,9,10,11,12,13,14,15}"
    by (simp add: numeral_eq_Suc less_Suc_eq)
  then have "of_nat (unat n) \<in> (of_nat ` {0,1,2,3,4,5,6,7,8,9,10,11,12,13,14,15} :: byte set)"
    by (rule imageI)
  then show ?thesis by simp
qed

lemma ssid_octet_fields:
  assumes "call_ssid (addr_call a) \<le> 15"
  shows "drop_bit 1 (ssid_octet a) AND 0x0F = call_ssid (addr_call a)"
    "(ssid_octet a AND 0b10000000 \<noteq> 0) = c_bit a" "(ssid_octet a AND 1 \<noteq> 0) = last_bit a"
  using ssid_cases [OF assms] by (auto simp: ssid_octet_def)

lemma address_decode_encode:
  assumes "address_wf a"
  shows "address_decode (address_encode a @ rest) = Inr a"
proof -
  have c: "callsign_wf (addr_call a)" using assms by (simp add: address_wf_def)
  then have s: "call_ssid (addr_call a) \<le> 15" and l: "length (call_base (addr_call a)) \<le> 6"
    by (simp_all add: callsign_wf_def)
  define six where "six = map (push_bit 1)
    (map of_nat (call_base (addr_call a)) @ replicate (6 - length (call_base (addr_call a))) (0x20 :: byte))"
  have e: "address_encode a = six @ [ssid_octet a]" and six: "length six = 6"
    using address_octets [OF c] l by (simp_all add: address_encode_def Let_def six_def)
  have "decode_base six = Some (call_base (addr_call a))"
    unfolding six_def by (rule decode_base_chars) (use c in \<open>auto dest: wf_base_char\<close>)
  then show ?thesis
    using callsign_new_base [OF c] ssid_octet_fields [OF s] six
    by (simp add: address_decode_def e nth_append ADDRESS_LEN_def Let_def)
qed

lemma address_decode_wf [wf_intros]: "address_decode buf = Inr a \<Longrightarrow> address_wf a"
  by (auto simp: address_decode_def address_wf_def Let_def intro: callsign_new_wf
      split: if_splits option.splits sum.splits)

lemma address_decode_length: "address_decode buf = Inr a \<Longrightarrow> 7 \<le> length buf"
  by (auto simp: address_decode_def ADDRESS_LEN_def split: if_splits)

interpretation address_codec: codec address_encode "\<lambda>b. ok_of (address_decode b)" address_wf
  by unfold_locales (use address_decode_encode [where rest = "[]"] in simp)

section \<open>The frame codec\<close>

definition carries_pid :: "byte \<Rightarrow> bool" where
  "carries_pid ctl \<longleftrightarrow> is_ui_control ctl \<or> ctl AND 1 = 0"

definition ax25_wf :: "ax25_frame \<Rightarrow> bool" where
  "ax25_wf f \<longleftrightarrow> address_wf (destination f) \<and> address_wf (source_addr f)
     \<and> list_all address_wf (digipeaters f) \<and> length (digipeaters f) \<le> MAX_DIGIPEATERS
     \<and> \<not> last_bit (destination f) \<and> \<not> last_bit (source_addr f)
     \<and> list_all (\<lambda>d. \<not> last_bit d) (digipeaters f)
     \<and> (if carries_pid (control f) then pid f \<noteq> None else pid f = None \<and> info f = [])"

lemma address_wf_last [simp]: "address_wf (a\<lparr>last_bit := b\<rparr>) = address_wf a"
  by (simp add: address_wf_def)

lemma clear_last_update: "\<not> last_bit a \<Longrightarrow> clear_last (a\<lparr>last_bit := b\<rparr>) = a"
  by (simp add: clear_last_def)

text \<open>The digipeaters as they appear on the wire: the extension bit set on the last.\<close>

fun mark_last :: "address list \<Rightarrow> address list" where
  "mark_last [] = []"
| "mark_last (d # ds) = d\<lparr>last_bit := (ds = [])\<rparr> # mark_last ds"

lemma decode_encode_digis:
  "list_all address_wf ds \<Longrightarrow> length ds \<le> room \<Longrightarrow>
     decode_digis room (ds = []) (encode_digis ds @ rest) = Inr (mark_last ds, rest)"
proof (induction ds arbitrary: room)
  case (Cons d ds)
  then obtain r where r: "room = Suc r" "length ds \<le> r" by (cases room) auto
  have "address_decode (encode_digis (d # ds) @ rest) = Inr (d\<lparr>last_bit := (ds = [])\<rparr>)"
    using Cons.prems address_decode_encode [of "d\<lparr>last_bit := (ds = [])\<rparr>"] by simp
  with Cons r show ?case by (simp add: ADDRESS_LEN_def)
qed simp

lemma clear_mark_last:
  "list_all (\<lambda>d. \<not> last_bit d) ds \<Longrightarrow> map clear_last (mark_last ds) = ds"
  by (induction ds) (auto simp: clear_last_update)

lemma ax25_decode_encode:
  assumes "ax25_wf f"
  shows "ax25_decode (ax25_encode f) = Inr f"
proof -
  let ?tail = "[control f] @ (case pid f of Some p \<Rightarrow> [p] | None \<Rightarrow> []) @ info f"
  let ?dst = "(destination f)\<lparr>last_bit := False\<rparr>"
  let ?src = "(source_addr f)\<lparr>last_bit := (digipeaters f = [])\<rparr>"
  have d: "address_decode (ax25_encode f) = Inr ?dst"
    using assms by (simp add: ax25_encode_def address_decode_encode ax25_wf_def)
  have s: "address_decode (drop ADDRESS_LEN (ax25_encode f)) = Inr ?src"
    using assms by (simp add: ax25_encode_def address_decode_encode ax25_wf_def ADDRESS_LEN_def)
  have t: "drop (2 * ADDRESS_LEN) (ax25_encode f) = encode_digis (digipeaters f) @ ?tail"
    by (simp add: ax25_encode_def ADDRESS_LEN_def)
  have g: "decode_digis MAX_DIGIPEATERS (digipeaters f = []) (encode_digis (digipeaters f) @ ?tail)
      = Inr (mark_last (digipeaters f), ?tail)"
    using assms by (intro decode_encode_digis) (simp_all add: ax25_wf_def)
  have c: "clear_last ?dst = destination f" "clear_last ?src = source_addr f"
      "map clear_last (mark_last (digipeaters f)) = digipeaters f"
    using assms by (simp_all add: ax25_wf_def clear_last_update clear_mark_last)
  show ?thesis
    using assms c g unfolding ax25_decode_def d s t
    by (auto simp: ax25_wf_def carries_pid_def Let_def split: if_splits option.splits)
qed

lemma decode_digis_wf:
  "decode_digis room lst buf = Inr (ds, rest) \<Longrightarrow>
     list_all address_wf ds \<and> length ds \<le> room \<and> length rest \<le> length buf"
proof (induction room lst buf arbitrary: ds rest rule: decode_digis.induct)
  case (3 room buf)
  from "3.prems" obtain d ds' where
    d: "address_decode buf = Inr d" "ds = d # ds'"
    and r: "decode_digis room (last_bit d) (drop ADDRESS_LEN buf) = Inr (ds', rest)"
    by (auto split: sum.splits)
  from "3.IH" [OF d(1) r] d show ?case by (auto intro: address_decode_wf)
qed auto

lemma address_wf_clear [simp]: "address_wf (clear_last a) = address_wf a"
  by (simp add: clear_last_def)

lemma not_last_clear [simp]: "\<not> last_bit (clear_last a)"
  by (simp add: clear_last_def)

lemma ax25_decode_wf [wf_intros]:
  assumes "ax25_decode buf = Inr f"
  shows "ax25_wf f"
proof -
  from assms obtain dst src ds rest where
    d: "address_decode buf = Inr dst" "address_decode (drop ADDRESS_LEN buf) = Inr src"
    and g: "decode_digis MAX_DIGIPEATERS (last_bit src) (drop (2 * ADDRESS_LEN) buf) = Inr (ds, rest)"
    and f: "destination f = clear_last dst" "source_addr f = clear_last src"
      "digipeaters f = map clear_last ds"
      "if carries_pid (control f) then pid f \<noteq> None else pid f = None \<and> info f = []"
    by (auto simp: ax25_decode_def Let_def carries_pid_def split: sum.splits if_splits list.splits)
  from decode_digis_wf [OF g] d f show ?thesis
    by (auto simp: ax25_wf_def list_all_iff intro: address_decode_wf)
qed

lemma ax25_ui_wf [wf_intros]:
  assumes "callsign_wf src" "callsign_wf dest" "list_all callsign_wf path"
    and "ax25_ui src dest path body = Inr f"
  shows "ax25_wf f"
proof -
  have "carries_pid CONTROL_UI" by (simp add: carries_pid_def is_ui_control_def CONTROL_UI_def)
  with assms show ?thesis
    by (auto simp: ax25_ui_def ax25_wf_def address_new_def with_c_bit_def address_wf_def
        list_all_iff split: if_splits)
qed

interpretation ax25_codec: codec ax25_encode "\<lambda>b. ok_of (ax25_decode b)" ax25_wf
  by unfold_locales (simp add: ax25_decode_encode)

lemma length_encode_digis: "length (encode_digis ds) = 7 * length ds"
  by (induction ds) auto

lemma length_ax25_encode:
  "length (ax25_encode f) =
     15 + 7 * length (digipeaters f) + (if pid f = None then 0 else 1) + length (info f)"
  by (simp add: ax25_encode_def length_encode_digis split: option.splits)

lemma monitor_char_printable: "32 \<le> monitor_char b \<and> monitor_char b < 127"
  by (auto simp: monitor_char_def word_le_nat_alt word_less_nat_alt)

section \<open>Properties\<close>

text \<open>Encoding a well-formed AX.25 frame (any control octet, up to eight digipeaters, any
  C bits) and decoding the octets gives the frame back.\<close>

theorem ax25_frame_round_trip:
  assumes "ax25_wf f"
  shows "ax25_decode (ax25_encode f) = Inr f"
  by (rule ax25_decode_encode [OF assms])

theorem ax25_frame_round_trip_witness:
  "ax25_decode (ax25_encode \<lparr>destination = \<lparr>addr_call = Callsign (lit ''APZRFD'') 0, c_bit = True, last_bit = False\<rparr>,
       source_addr = \<lparr>addr_call = Callsign (lit ''SM0ABC'') 7, c_bit = False, last_bit = False\<rparr>,
       digipeaters = [\<lparr>addr_call = Callsign (lit ''WIDE1'') 1, c_bit = False, last_bit = False\<rparr>],
       control = 0x03, pid = Some 0xF0, info = [1, 2, 3]\<rparr>) =
   Inr \<lparr>destination = \<lparr>addr_call = Callsign (lit ''APZRFD'') 0, c_bit = True, last_bit = False\<rparr>,
       source_addr = \<lparr>addr_call = Callsign (lit ''SM0ABC'') 7, c_bit = False, last_bit = False\<rparr>,
       digipeaters = [\<lparr>addr_call = Callsign (lit ''WIDE1'') 1, c_bit = False, last_bit = False\<rparr>],
       control = 0x03, pid = Some 0xF0, info = [1, 2, 3]\<rparr>"
  by (rule ax25_frame_round_trip)
    (simp add: ax25_wf_def address_wf_def callsign_wf_def lit_def MAX_DIGIPEATERS_def carries_pid_def
      is_ui_control_def CONTROL_UI_def char_class_defs to_upper_def)

text \<open>Whatever octets arrive, a frame the decoder accepts satisfies the frame's type
  invariant (callsigns within the AX.25 limits, at most eight digipeaters, no stray extension bit, a PID exactly
  where the control octet calls for one), and encoding it again yields octets that decode to the same frame.\<close>

theorem ax25_decode_sound:
  assumes "ax25_decode buf = Inr f"
  shows "ax25_wf f \<and> ax25_decode (ax25_encode f) = Inr f"
  using ax25_decode_wf [OF assms] ax25_decode_encode by blast

theorem ax25_decode_sound_witness:
  "ax25_decode (ax25_encode \<lparr>destination = address_new (Callsign (lit ''APZRFD'') 0),
       source_addr = address_new (Callsign (lit ''SM0ABC'') 7), digipeaters = [], control = 0x03,
       pid = Some 0xF0, info = [65]\<rparr>) =
   Inr \<lparr>destination = address_new (Callsign (lit ''APZRFD'') 0),
       source_addr = address_new (Callsign (lit ''SM0ABC'') 7), digipeaters = [], control = 0x03,
       pid = Some 0xF0, info = [65]\<rparr>"
  (is "ax25_decode (ax25_encode ?f) = _")
proof -
  have "ax25_wf ?f"
    by (simp add: ax25_wf_def address_wf_def callsign_wf_def lit_def MAX_DIGIPEATERS_def carries_pid_def
        is_ui_control_def CONTROL_UI_def char_class_defs to_upper_def address_new_def)
  from ax25_decode_sound [OF ax25_decode_encode [OF this]] show ?thesis by blast
qed

end
