(* ===== verification/Kiss.thy ===== *)
theory Kiss
  imports Ax25
begin

text \<open>
  \<open>src/src/ax25/kiss.rs\<close>: KISS byte stuffing and the incremental decoder. The decoder is a
  state machine over single bytes (\<open>kiss_step\<close>); \<open>kiss_push\<close> is the loop over a read. The main
  results: whatever the decoder has seen before, a frame written by the encoder comes out of it
  unchanged; feeding it in pieces makes no difference; its buffer never exceeds \<open>max_frame\<close>.
\<close>

definition FEND :: byte where "FEND = 0xC0"
definition FESC :: byte where "FESC = 0xDB"
definition TFEND :: byte where "TFEND = 0xDC"
definition TFESC :: byte where "TFESC = 0xDD"

definition CMD_DATA :: byte where "CMD_DATA = 0x00"
definition CMD_TXDELAY :: byte where "CMD_TXDELAY = 0x01"
definition CMD_PERSISTENCE :: byte where "CMD_PERSISTENCE = 0x02"
definition CMD_SLOTTIME :: byte where "CMD_SLOTTIME = 0x03"
definition CMD_TXTAIL :: byte where "CMD_TXTAIL = 0x04"
definition CMD_FULLDUPLEX :: byte where "CMD_FULLDUPLEX = 0x05"

lemmas kiss_bytes = FEND_def FESC_def TFEND_def TFESC_def

section \<open>Encoding\<close>

definition stuff :: "byte \<Rightarrow> byte list" where
  "stuff b = (if b = FEND then [FESC, TFEND] else if b = FESC then [FESC, TFESC] else [b])"

definition type_octet :: "byte \<Rightarrow> byte \<Rightarrow> byte" where
  "type_octet port command = push_bit 4 (port AND 0x0F) OR (command AND 0x0F)"

definition kiss_encode :: "byte \<Rightarrow> byte \<Rightarrow> byte list \<Rightarrow> byte list" where
  "kiss_encode port command payload =
     [FEND] @ stuff (type_octet port command) @ concat (map stuff payload) @ [FEND]"

section \<open>The incremental decoder\<close>

record kiss_frame =
  kiss_port :: byte
  kiss_command :: byte
  kiss_payload :: "byte list"

record kiss_decoder =
  kbuf :: "byte list"
  in_frame :: bool
  escaped :: bool
  max_frame :: nat

definition kiss_decoder_new :: "nat \<Rightarrow> kiss_decoder" where
  "kiss_decoder_new n = \<lparr>kbuf = [], in_frame = False, escaped = False, max_frame = n\<rparr>"

definition take_frame :: "kiss_decoder \<Rightarrow> kiss_frame option" where
  "take_frame d =
     (case kbuf d of
        [] \<Rightarrow> None
      | first # rest \<Rightarrow> Some \<lparr>kiss_port = drop_bit 4 first, kiss_command = first AND 0x0F,
                             kiss_payload = rest\<rparr>)"

text \<open>One iteration of the loop in \<open>push\<close>: the new state and the frame it completes, if any.\<close>

definition kiss_step :: "kiss_decoder \<Rightarrow> byte \<Rightarrow> kiss_decoder \<times> kiss_frame list" where
  "kiss_step d b =
     (if b = FEND then
        (let out = (if in_frame d \<and> kbuf d \<noteq> []
                    then (case take_frame d of Some f \<Rightarrow> [f] | None \<Rightarrow> []) else [])
         in (d\<lparr>kbuf := [], escaped := False, in_frame := True\<rparr>, out))
      else if \<not> in_frame d then (d, [])
      else if b = FESC then (d\<lparr>escaped := True\<rparr>, [])
      else
        (let (d', byte) =
           (if escaped d then
              (let d1 = d\<lparr>escaped := False\<rparr> in
               if b = TFEND then (d1, FEND)
               else if b = TFESC then (d1, FESC)
               else (d1\<lparr>kbuf := []\<rparr>, b))
            else (d, b))
         in if max_frame d' \<le> length (kbuf d') then (d'\<lparr>in_frame := False, kbuf := []\<rparr>, [])
            else (d'\<lparr>kbuf := kbuf d' @ [byte]\<rparr>, [])))"

fun kiss_push :: "kiss_decoder \<Rightarrow> byte list \<Rightarrow> kiss_decoder \<times> kiss_frame list" where
  "kiss_push d [] = (d, [])"
| "kiss_push d (b # bs) =
     (let (d1, out1) = kiss_step d b; (d2, out2) = kiss_push d1 bs in (d2, out1 @ out2))"

section \<open>Incrementality and resynchronisation\<close>

lemma kiss_push_Cons:
  "kiss_push d (b # bs) =
     (fst (kiss_push (fst (kiss_step d b)) bs),
      snd (kiss_step d b) @ snd (kiss_push (fst (kiss_step d b)) bs))"
  by (simp add: Let_def case_prod_beta)

declare kiss_push.simps(2) [simp del]
declare kiss_push_Cons [simp]

lemma kiss_push_append:
  "kiss_push d (xs @ ys) =
     (fst (kiss_push (fst (kiss_push d xs)) ys),
      snd (kiss_push d xs) @ snd (kiss_push (fst (kiss_push d xs)) ys))"
  by (induction xs arbitrary: d) auto

lemma kiss_step_max [frame_simps]: "max_frame (fst (kiss_step d b)) = max_frame d"
  by (auto simp: kiss_step_def Let_def)

lemma kiss_push_max [frame_simps]: "max_frame (fst (kiss_push d bs)) = max_frame d"
  by (induction bs arbitrary: d) (auto simp: kiss_step_max)

definition decoder_ok :: "kiss_decoder \<Rightarrow> bool" where
  "decoder_ok d \<longleftrightarrow> length (kbuf d) \<le> max_frame d"

lemma kiss_step_ok [wf_intros]: "decoder_ok d \<Longrightarrow> decoder_ok (fst (kiss_step d b))"
  by (auto simp: decoder_ok_def kiss_step_def Let_def)

interpretation kiss_machine: invariant_machine "\<lambda>b d. fst (kiss_step d b)" decoder_ok
  by unfold_locales (rule kiss_step_ok)

lemma kiss_push_fst: "fst (kiss_push d bs) = fold (\<lambda>b d. fst (kiss_step d b)) bs d"
  by (induction bs arbitrary: d) auto

lemma kiss_push_ok [wf_intros]: "decoder_ok d \<Longrightarrow> decoder_ok (fst (kiss_push d bs))"
  by (simp add: kiss_push_fst kiss_machine.run_inv)

text \<open>The state right after a delimiter, and while a stuffed payload is being read.\<close>

definition reading :: "kiss_decoder \<Rightarrow> byte list \<Rightarrow> kiss_decoder" where
  "reading d xs = d\<lparr>kbuf := xs, in_frame := True, escaped := False\<rparr>"

lemma step_fend: "fst (kiss_step d FEND) = reading d []"
  by (simp add: kiss_step_def Let_def reading_def)

lemma push_stuff:
  assumes "length xs < max_frame d"
  shows "kiss_push (reading d xs) (stuff b) = (reading d (xs @ [b]), [])"
  using assms
  by (auto simp: stuff_def kiss_step_def reading_def kiss_bytes Let_def)

lemma push_stuffed:
  "length xs + length ys \<le> max_frame d \<Longrightarrow>
     kiss_push (reading d xs) (concat (map stuff ys)) = (reading d (xs @ ys), [])"
proof (induction ys arbitrary: xs)
  case (Cons y ys)
  then have "kiss_push (reading d xs) (stuff y) = (reading d (xs @ [y]), [])"
    by (intro push_stuff) simp
  with Cons show ?case by (simp add: kiss_push_append)
qed simp

lemma type_octet_fields:
  "drop_bit 4 (type_octet port command) = port AND 0x0F"
  "type_octet port command AND 0x0F = command AND 0x0F"
proof -
  have "drop_bit 4 (type_octet port command) = port AND 0x0F"
  proof (rule bit_word_eqI)
    fix n
    assume "n < LENGTH(8)"
    then show "bit (drop_bit 4 (type_octet port command)) n = bit (port AND 0x0F) n"
      unfolding type_octet_def bit_or_iff bit_and_iff bit_push_bit_iff bit_drop_bit_eq
      by (auto simp: bit_numeral_rec numeral_eq_Suc less_Suc_eq)
  qed
  moreover have "type_octet port command AND 0x0F = command AND 0x0F"
  proof (rule bit_word_eqI)
    fix n
    assume "n < LENGTH(8)"
    then show "bit (type_octet port command AND 0x0F) n = bit (command AND 0x0F) n"
      unfolding type_octet_def bit_or_iff bit_and_iff bit_push_bit_iff bit_drop_bit_eq
      by (auto simp: bit_numeral_rec numeral_eq_Suc less_Suc_eq)
  qed
  ultimately show
    "drop_bit 4 (type_octet port command) = port AND 0x0F"
    "type_octet port command AND 0x0F = command AND 0x0F"
    by auto
qed

lemma push_close:
  "kiss_push (reading d (type_octet port command # payload)) [FEND] =
     (reading d [], [\<lparr>kiss_port = port AND 0x0F, kiss_command = command AND 0x0F,
                      kiss_payload = payload\<rparr>])"
  by (simp add: kiss_step_def Let_def reading_def take_frame_def type_octet_fields)

text \<open>
  From any state at all, an encoded frame that fits is delivered, after whatever the opening
  delimiter completes; and the decoder is then between frames.
\<close>

lemma push_encoded:
  assumes "length payload < max_frame d"
  shows "kiss_push d (kiss_encode port command payload) =
    (reading d [], snd (kiss_step d FEND) @
       [\<lparr>kiss_port = port AND 0x0F, kiss_command = command AND 0x0F, kiss_payload = payload\<rparr>])"
proof -
  let ?t = "type_octet port command"
  have a: "kiss_push d [FEND] = (reading d [], snd (kiss_step d FEND))"
    by (simp add: step_fend)
  have b: "kiss_push (reading d []) (concat (map stuff (?t # payload))) =
      (reading d (?t # payload), [])"
    using push_stuffed [of "[]" "?t # payload" d] assms by simp
  have "kiss_encode port command payload =
      [FEND] @ concat (map stuff (?t # payload)) @ [FEND]"
    by (simp add: kiss_encode_def)
  then show ?thesis
    by (simp only: kiss_push_append a b push_close fst_conv snd_conv append_Nil)
qed

lemma nothing_pending:
  "kbuf d = [] \<or> \<not> in_frame d \<Longrightarrow> snd (kiss_step d FEND) = []"
  by (auto simp: kiss_step_def Let_def)

lemma pending_reading [simp]: "snd (kiss_step (reading d []) FEND) = []"
  by (intro nothing_pending) (simp add: reading_def)

lemma max_frame_reading [simp]: "max_frame (reading d xs) = max_frame d"
  by (simp add: reading_def)

lemma reading_reading [simp]: "reading (reading d xs) ys = reading d ys"
  by (simp add: reading_def)

definition frame_of :: "byte \<times> byte \<times> byte list \<Rightarrow> kiss_frame" where
  "frame_of t = (case t of (port, command, payload) \<Rightarrow>
     \<lparr>kiss_port = port AND 0x0F, kiss_command = command AND 0x0F, kiss_payload = payload\<rparr>)"

definition encode_of :: "byte \<times> byte \<times> byte list \<Rightarrow> byte list" where
  "encode_of t = (case t of (port, command, payload) \<Rightarrow> kiss_encode port command payload)"

lemma push_stream_between:
  "\<forall>(p, c, payload) \<in> set ts. length payload < max_frame d \<Longrightarrow>
     kiss_push (reading d []) (concat (map encode_of ts)) = (reading d [], map frame_of ts)"
proof (induction ts)
  case (Cons t ts)
  obtain p c pl where t: "t = (p, c, pl)" by (metis prod_cases3)
  with Cons.prems have "length pl < max_frame (reading d [])" by simp
  from push_encoded [OF this, of p c] Cons show ?case
    by (simp add: t encode_of_def frame_of_def kiss_push_append)
qed simp

lemma push_stream_fresh:
  assumes "\<forall>(p, c, payload) \<in> set ts. length payload < max_frame d" and "kbuf d = []"
  shows "snd (kiss_push d (concat (map encode_of ts))) = map frame_of ts"
proof (cases ts)
  case (Cons t us)
  obtain p c pl where t: "t = (p, c, pl)" by (metis prod_cases3)
  from assms Cons t push_encoded [of pl d p c] nothing_pending [of d] push_stream_between [of us d]
  show ?thesis by (simp add: encode_of_def frame_of_def kiss_push_append)
qed simp

text \<open>The receive loop: one \<open>push\<close> per read from the socket.\<close>

fun kiss_reads :: "kiss_decoder \<Rightarrow> byte list list \<Rightarrow> kiss_frame list" where
  "kiss_reads d [] = []"
| "kiss_reads d (bs # rest) = (let (d', out) = kiss_push d bs in out @ kiss_reads d' rest)"

lemma kiss_reads_concat: "kiss_reads d pieces = snd (kiss_push d (concat pieces))"
  by (induction pieces arbitrary: d) (auto simp: kiss_push_append Let_def case_prod_beta)

text \<open>No delimiter appears inside an encoded frame, so the far end cannot mis-frame it.\<close>

lemma no_fend_inside: "FEND \<notin> set (concat (map stuff xs))"
  by (induction xs) (auto simp: stuff_def kiss_bytes)

section \<open>KISS as a codec, and AX.25 over KISS\<close>

definition kiss_wf :: "nat \<Rightarrow> byte \<times> byte \<times> byte list \<Rightarrow> bool" where
  "kiss_wf cap t = (case t of (port, command, payload) \<Rightarrow>
     port \<le> 0x0F \<and> command \<le> 0x0F \<and> length payload < cap)"

definition kiss_decode_one :: "nat \<Rightarrow> byte list \<Rightarrow> (byte \<times> byte \<times> byte list) option" where
  "kiss_decode_one cap bs =
     (case snd (kiss_push (kiss_decoder_new cap) bs) of
        [f] \<Rightarrow> Some (kiss_port f, kiss_command f, kiss_payload f)
      | _ \<Rightarrow> None)"

lemma nibble_id: "(n :: byte) \<le> 0x0F \<Longrightarrow> n AND 0x0F = n"
  using ssid_cases [of n] by auto

lemma kiss_decode_encode: "kiss_wf cap t \<Longrightarrow> kiss_decode_one cap (encode_of t) = Some t"
proof -
  assume wf: "kiss_wf cap t"
  obtain p c pl where t: "t = (p, c, pl)" by (metis prod_cases3)
  have "snd (kiss_step (kiss_decoder_new cap) FEND) = []"
    by (intro nothing_pending) (simp add: kiss_decoder_new_def)
  then show ?thesis using wf push_encoded [of pl "kiss_decoder_new cap" p c]
    by (simp add: t kiss_wf_def kiss_decode_one_def encode_of_def nibble_id)
       (simp add: kiss_decoder_new_def nibble_id)
qed

interpretation kiss_codec: codec encode_of "kiss_decode_one cap" "kiss_wf cap" for cap
  by unfold_locales (rule kiss_decode_encode)

text \<open>
  The transmit path writes \<open>kiss::encode(port, CMD_DATA, frame.encode())\<close>, and the receive path
  takes a data frame on that port and decodes its payload.
\<close>

definition data_on :: "byte \<Rightarrow> byte \<times> byte \<times> byte list \<Rightarrow> byte list option" where
  "data_on port t = (case t of (p, c, payload) \<Rightarrow>
     if c \<noteq> CMD_DATA then None else if p \<noteq> port then None else Some payload)"

definition wire_wf :: "nat \<Rightarrow> ax25_frame \<Rightarrow> bool" where
  "wire_wf cap f \<longleftrightarrow> ax25_wf f \<and> length (ax25_encode f) < cap"

interpretation ax25_sized: codec ax25_encode "\<lambda>b. ok_of (ax25_decode b)" "wire_wf cap" for cap
  by unfold_locales (simp add: wire_wf_def ax25_decode_encode)

interpretation kiss_link: codec_stack encode_of "kiss_decode_one cap" "kiss_wf cap"
    ax25_encode "\<lambda>b. ok_of (ax25_decode b)" "wire_wf cap"
    "\<lambda>payload. (port AND 0x0F, CMD_DATA, payload)" "data_on (port AND 0x0F)" for cap port
proof unfold_locales
  have n: "port AND 0x0F \<le> 0x0F" by (simp add: word_and_le1)
  fix y
  assume "wire_wf cap y"
  with n show "kiss_wf cap (port AND 0x0F, CMD_DATA, ax25_encode y)"
    by (simp add: kiss_wf_def wire_wf_def CMD_DATA_def)
  show "data_on (port AND 0x0F) (port AND 0x0F, CMD_DATA, ax25_encode y) = Some (ax25_encode y)"
    by (simp add: data_on_def)
qed

section \<open>Properties\<close>

text \<open>C10: From any state of the decoder and after any line noise, an encoded frame shorter than the
  bound is delivered exactly, after whatever the noise itself completed by its delimiter. The decoder resynchronises.\<close>

theorem kiss_resynchronises:
  assumes "length payload < max_frame d"
  shows "snd (kiss_push d (noise @ kiss_encode port command payload)) =
    snd (kiss_push d (noise @ [FEND])) @
      [\<lparr>kiss_port = port AND 0x0F, kiss_command = command AND 0x0F, kiss_payload = payload\<rparr>]"
  using push_encoded [of payload "fst (kiss_push d noise)" port command] assms
  by (simp add: kiss_push_append kiss_push_max)

theorem kiss_resynchronises_witness:
  "snd (kiss_push (kiss_decoder_new 1024) ([0x55, 0xC0, 0x07, 0xDB] @ kiss_encode 0 0 [0xC0, 0x41])) =
     [\<lparr>kiss_port = 0, kiss_command = 7, kiss_payload = []\<rparr>,
      \<lparr>kiss_port = 0, kiss_command = 0, kiss_payload = [0xC0, 0x41]\<rparr>]"
proof -
  have "snd (kiss_push (kiss_decoder_new 1024) ([0x55, 0xC0, 0x07, 0xDB] @ [FEND])) =
      [\<lparr>kiss_port = 0, kiss_command = 7, kiss_payload = []\<rparr>]" by code_simp
  moreover have "length [0xC0, 0x41 :: byte] < max_frame (kiss_decoder_new 1024)" by code_simp
  ultimately show ?thesis
    using kiss_resynchronises [of "[0xC0, 0x41]" "kiss_decoder_new 1024" "[0x55, 0xC0, 0x07, 0xDB]" 0 0]
    by simp
qed

text \<open>A byte stream of back-to-back encoded frames, however the reads cut it into pieces, yields
  exactly those frames in order.\<close>

theorem kiss_stream_reassembles:
  assumes "concat pieces = concat (map encode_of ts)"
    and "\<forall>(p, c, payload) \<in> set ts. length payload < cap"
  shows "kiss_reads (kiss_decoder_new cap) pieces = map frame_of ts"
proof -
  have "length pl < max_frame (kiss_decoder_new cap)" if "(p, c, pl) \<in> set ts" for p c pl
    using that assms(2) by (auto simp: kiss_decoder_new_def)
  then have "snd (kiss_push (kiss_decoder_new cap) (concat (map encode_of ts))) = map frame_of ts"
    by (intro push_stream_fresh) (auto simp: kiss_decoder_new_def)
  then show ?thesis using assms(1) by (simp add: kiss_reads_concat)
qed

theorem kiss_stream_reassembles_witness:
  "kiss_reads (kiss_decoder_new 8) [[0xC0, 0x00], [0x41, 0xDB], [], [0xDC, 0xC0]] =
     [\<lparr>kiss_port = 0, kiss_command = 0, kiss_payload = [0x41, 0xC0]\<rparr>]"
proof -
  have a: "concat [[0xC0, 0x00], [0x41, 0xDB], [], [0xDC, 0xC0]] = concat (map encode_of [(0, 0, [0x41, 0xC0])])"
    by code_simp
  have b: "map frame_of [(0, 0, [0x41, 0xC0])] = [\<lparr>kiss_port = 0, kiss_command = 0, kiss_payload = [0x41, 0xC0]\<rparr>]"
    by code_simp
  from kiss_stream_reassembles [OF a, of 8] show ?thesis unfolding b by simp
qed

text \<open>The decoder's buffer never exceeds the bound it was created with, whatever octets a
  peer sends.\<close>

theorem kiss_buffer_bounded: "length (kbuf (fst (kiss_push (kiss_decoder_new cap) bs))) \<le> cap"
  using kiss_push_ok [of "kiss_decoder_new cap" bs] kiss_push_max [of "kiss_decoder_new cap" bs]
  by (simp add: decoder_ok_def kiss_decoder_new_def)

text \<open>C11: The link as a whole: a well-formed AX.25 frame (\<open>ax25_wf\<close>) whose encoding is shorter than the decoder's limit, sent as a KISS data frame on a port, is
  recovered by a fresh decoder on that port, octet stuffing and all. The limit the gateway gives its decoder does not admit a frame with seven or
  eight digipeaters and a full information field, which is dropped.\<close>

theorem ax25_over_kiss:
  assumes "ax25_wf f" and "length (ax25_encode f) < cap"
  shows "Option.bind (kiss_decode_one cap (kiss_encode (port AND 0x0F) CMD_DATA (ax25_encode f)))
    (\<lambda>t. Option.bind (data_on (port AND 0x0F) t) (\<lambda>b. ok_of (ax25_decode b))) = Some f"
  using kiss_link.stacked.dec_enc [of cap f port] assms by (simp add: wire_wf_def encode_of_def)

theorem ax25_over_kiss_witness:
  "Option.bind (kiss_decode_one 1024 (kiss_encode (3 AND 0x0F) CMD_DATA (ax25_encode
      \<lparr>destination = address_new (Callsign (lit ''CQ'') 0), source_addr = address_new (Callsign (lit ''SM0ABC'') 7),
       digipeaters = [], control = 0x03, pid = Some 0xF0, info = [0xC0, 0xDB]\<rparr>)))
    (\<lambda>t. Option.bind (data_on (3 AND 0x0F) t) (\<lambda>b. ok_of (ax25_decode b))) =
   Some \<lparr>destination = address_new (Callsign (lit ''CQ'') 0), source_addr = address_new (Callsign (lit ''SM0ABC'') 7),
       digipeaters = [], control = 0x03, pid = Some 0xF0, info = [0xC0, 0xDB]\<rparr>"
  by (rule ax25_over_kiss)
    (simp_all add: ax25_wf_def address_wf_def callsign_wf_def lit_def MAX_DIGIPEATERS_def carries_pid_def
      is_ui_control_def CONTROL_UI_def char_class_defs to_upper_def address_new_def length_ax25_encode)

end
