(* ===== verification/Airc_Frame.thy ===== *)
theory Airc_Frame
  imports Kiss
begin

text \<open>
  \<open>src/src/airc/frame.rs\<close> and the error type of \<open>src/src/airc/mod.rs\<close>: the AIRC/1 frame, its
  eight-octet header with the optional piggybacked acknowledgement, and the text fields of the
  payload. Results: the frame codec, what a decoded frame satisfies, and that encoded fields
  come back field by field with the separator and the line breaks taken out, so text put on the
  air can neither add a field nor start an IRC line.
\<close>

datatype airc_error = AircTruncated | NotAirc | UnknownKind byte | BadFragment

datatype kind =
    KHello | KWelcome | KJoin | KPart | KMsg | KNotice | KNames | KNamesReply
  | KPing | KPong | KAck | KError | KId | KQuit | KPresence | KStored

fun kind_code :: "kind \<Rightarrow> byte" where
  "kind_code KHello = 0x01"
| "kind_code KWelcome = 0x02"
| "kind_code KJoin = 0x03"
| "kind_code KPart = 0x04"
| "kind_code KMsg = 0x05"
| "kind_code KNotice = 0x06"
| "kind_code KNames = 0x07"
| "kind_code KNamesReply = 0x08"
| "kind_code KPing = 0x09"
| "kind_code KPong = 0x0A"
| "kind_code KAck = 0x0B"
| "kind_code KError = 0x0C"
| "kind_code KId = 0x0D"
| "kind_code KQuit = 0x0E"
| "kind_code KPresence = 0x0F"
| "kind_code KStored = 0x10"

definition kind_try_from :: "byte \<Rightarrow> airc_error + kind" where
  "kind_try_from v =
     (if v = 0x01 then Inr KHello
      else if v = 0x02 then Inr KWelcome
      else if v = 0x03 then Inr KJoin
      else if v = 0x04 then Inr KPart
      else if v = 0x05 then Inr KMsg
      else if v = 0x06 then Inr KNotice
      else if v = 0x07 then Inr KNames
      else if v = 0x08 then Inr KNamesReply
      else if v = 0x09 then Inr KPing
      else if v = 0x0A then Inr KPong
      else if v = 0x0B then Inr KAck
      else if v = 0x0C then Inr KError
      else if v = 0x0D then Inr KId
      else if v = 0x0E then Inr KQuit
      else if v = 0x0F then Inr KPresence
      else if v = 0x10 then Inr KStored
      else Inl (UnknownKind v))"

definition MAGIC :: "byte list" where "MAGIC = [0x41, 0x31]"
definition HEADER_LEN :: nat where "HEADER_LEN = 8"
definition FS :: byte where "FS = 0x1F"
definition ACK_REQ :: byte where "ACK_REQ = 0x01"
definition RETRY :: byte where "RETRY = 0x02"
definition TRUNCATED :: byte where "TRUNCATED = 0x04"
definition PIGGYACK :: byte where "PIGGYACK = 0x08"

lemmas flag_defs = ACK_REQ_def RETRY_def TRUNCATED_def PIGGYACK_def

record airc_frame =
  akind :: kind
  aflags :: byte
  aseq :: u16
  frag_index :: byte
  frag_total :: byte
  payload :: "byte list"
  piggyback_seq :: "u16 option"

definition airc_new :: "kind \<Rightarrow> u16 \<Rightarrow> byte list \<Rightarrow> airc_frame" where
  "airc_new k seq p =
     \<lparr>akind = k, aflags = 0, aseq = seq, frag_index = 0, frag_total = 1, payload = p,
      piggyback_seq = None\<rparr>"

definition with_flags :: "byte \<Rightarrow> airc_frame \<Rightarrow> airc_frame" where
  "with_flags fl f = f\<lparr>aflags := aflags f OR fl\<rparr>"

definition attach_piggyback :: "u16 \<Rightarrow> airc_frame \<Rightarrow> airc_frame" where
  "attach_piggyback seq f = f\<lparr>piggyback_seq := Some seq, aflags := aflags f OR PIGGYACK\<rparr>"

definition wants_ack :: "airc_frame \<Rightarrow> bool" where
  "wants_ack f \<longleftrightarrow> aflags f AND ACK_REQ \<noteq> 0"

definition to_be_bytes :: "u16 \<Rightarrow> byte list" where
  "to_be_bytes w = [ucast (drop_bit 8 w), ucast w]"

definition from_be_bytes :: "byte \<Rightarrow> byte \<Rightarrow> u16" where
  "from_be_bytes a b = push_bit 8 (ucast a) OR ucast b"

definition airc_encode :: "airc_frame \<Rightarrow> byte list" where
  "airc_encode f =
     (let flags0 = aflags f AND NOT PIGGYACK;
          flags = (if piggyback_seq f \<noteq> None then flags0 OR PIGGYACK else flags0)
      in MAGIC @ [kind_code (akind f), flags] @ to_be_bytes (aseq f)
         @ [frag_index f, frag_total f]
         @ (case piggyback_seq f of Some s \<Rightarrow> to_be_bytes s | None \<Rightarrow> [])
         @ payload f)"

definition airc_decode :: "byte list \<Rightarrow> airc_error + airc_frame" where
  "airc_decode buf =
     (if length buf < HEADER_LEN then Inl AircTruncated
      else if take 2 buf \<noteq> MAGIC then Inl NotAirc
      else
        (let total = buf ! 7; index = buf ! 6 in
         if total = 0 \<or> total \<le> index then Inl BadFragment
         else
           (let flags = buf ! 3; body = drop HEADER_LEN buf in
            if flags AND PIGGYACK \<noteq> 0 \<and> length body < 2 then Inl AircTruncated
            else
              (let (piggy, body') =
                 (if flags AND PIGGYACK \<noteq> 0
                  then (Some (from_be_bytes (body ! 0) (body ! 1)), drop 2 body)
                  else (None, body))
               in case kind_try_from (buf ! 2) of
                    Inl e \<Rightarrow> Inl e
                  | Inr k \<Rightarrow> Inr \<lparr>akind = k, aflags = flags,
                                aseq = from_be_bytes (buf ! 4) (buf ! 5), frag_index = index,
                                frag_total = total, payload = body', piggyback_seq = piggy\<rparr>))))"

definition fields :: "airc_frame \<Rightarrow> ustr list" where
  "fields f = map from_utf8_lossy (split_on FS (payload f))"

definition field :: "airc_frame \<Rightarrow> nat \<Rightarrow> ustr option" where
  "field f i = (if i < length (fields f) then Some (fields f ! i) else None)"

definition field_byte_ok :: "byte \<Rightarrow> bool" where
  "field_byte_ok b \<longleftrightarrow> b \<noteq> FS \<and> b \<noteq> 13 \<and> b \<noteq> 10 \<and> b \<noteq> 0"

fun encode_fields :: "ustr list \<Rightarrow> byte list" where
  "encode_fields [] = []"
| "encode_fields [f] = filter field_byte_ok (as_bytes f)"
| "encode_fields (f # g # fs) =
     filter field_byte_ok (as_bytes f) @ FS # encode_fields (g # fs)"

section \<open>The frame codec\<close>

lemma kind_round_trip [simp]: "kind_try_from (kind_code k) = Inr k"
  by (cases k) (simp_all add: kind_try_from_def)

lemma kind_try_from_code: "kind_try_from v = Inr k \<Longrightarrow> kind_code k = v"
  by (auto simp: kind_try_from_def split: if_splits)

lemma be_round_trip: "from_be_bytes (ucast (drop_bit 8 w)) (ucast w) = (w :: u16)"
  by (rule bit_word_eqI)
     (auto simp: from_be_bytes_def bit_or_iff bit_push_bit_iff bit_ucast_iff bit_drop_bit_eq)

lemma be_inverse: "to_be_bytes (from_be_bytes a b) = [a, b]"
proof -
  have "ucast (drop_bit 8 (from_be_bytes a b)) = a"
    by (rule bit_word_eqI)
       (auto simp: from_be_bytes_def bit_or_iff bit_push_bit_iff bit_ucast_iff bit_drop_bit_eq
         dest: bit_imp_le_length)
  moreover have "ucast (from_be_bytes a b) = b"
    by (rule bit_word_eqI)
       (auto simp: from_be_bytes_def bit_or_iff bit_push_bit_iff bit_ucast_iff)
  ultimately show ?thesis by (simp add: to_be_bytes_def)
qed

definition airc_wf :: "airc_frame \<Rightarrow> bool" where
  "airc_wf f \<longleftrightarrow> frag_total f \<noteq> 0 \<and> frag_index f < frag_total f
     \<and> ((aflags f AND PIGGYACK \<noteq> 0) = (piggyback_seq f \<noteq> None))"

lemma flag_clear_set:
  "(x AND NOT PIGGYACK OR PIGGYACK) AND PIGGYACK \<noteq> 0" "(x AND NOT PIGGYACK) AND PIGGYACK = 0"
proof -
  have "(x AND NOT PIGGYACK OR PIGGYACK) AND PIGGYACK = PIGGYACK"
    by (rule bit_word_eqI) (auto simp: bit_simps)
  then show "(x AND NOT PIGGYACK OR PIGGYACK) AND PIGGYACK \<noteq> 0" by (simp add: PIGGYACK_def)
  show "(x AND NOT PIGGYACK) AND PIGGYACK = 0"
    by (rule bit_word_eqI) (auto simp: bit_simps)
qed

lemma bit3: "bit PIGGYACK n \<longleftrightarrow> n = 3"
  by (auto simp: PIGGYACK_def bit_numeral_rec bit_1_iff split: nat.splits)

lemma and_piggyack: "x AND PIGGYACK = (if bit x 3 then PIGGYACK else 0)"
  by (rule bit_word_eqI) (auto simp: bit_simps bit3)

lemma flag_keep:
  "x AND PIGGYACK \<noteq> 0 \<Longrightarrow> x AND NOT PIGGYACK OR PIGGYACK = x"
  "x AND PIGGYACK = 0 \<Longrightarrow> x AND NOT PIGGYACK = x"
proof -
  assume "x AND PIGGYACK \<noteq> 0"
  then have "bit x 3" by (simp add: and_piggyack split: if_splits)
  then show "x AND NOT PIGGYACK OR PIGGYACK = x"
    by (intro bit_word_eqI) (auto simp: bit_simps bit3)
next
  assume "x AND PIGGYACK = 0"
  with and_piggyack [of x] have "\<not> bit x 3" by (auto simp: PIGGYACK_def)
  then show "x AND NOT PIGGYACK = x"
    by (intro bit_word_eqI) (auto simp: bit_simps bit3)
qed

lemma airc_decode_encode:
  assumes "airc_wf f"
  shows "airc_decode (airc_encode f) = Inr f"
proof (cases "piggyback_seq f")
  case None
  then have "aflags f AND PIGGYACK = 0" using assms by (simp add: airc_wf_def)
  with None assms flag_keep(2) [OF this] show ?thesis
    by (simp add: airc_encode_def airc_decode_def HEADER_LEN_def MAGIC_def to_be_bytes_def
        be_round_trip airc_wf_def not_le Let_def)
next
  case (Some s)
  then have "aflags f AND PIGGYACK \<noteq> 0" using assms by (simp add: airc_wf_def)
  with Some assms flag_keep(1) [OF this] show ?thesis
    by (simp add: airc_encode_def airc_decode_def HEADER_LEN_def MAGIC_def to_be_bytes_def
        be_round_trip airc_wf_def not_le Let_def)
qed

lemma airc_decode_wf [wf_intros]: "airc_decode buf = Inr f \<Longrightarrow> airc_wf f"
  by (auto simp: airc_decode_def airc_wf_def Let_def not_le split: if_splits sum.splits)

interpretation airc_codec: codec airc_encode "\<lambda>b. ok_of (airc_decode b)" airc_wf
  by unfold_locales (simp add: airc_decode_encode)

lemma airc_new_wf [wf_intros]: "airc_wf (airc_new k s p)"
  by (simp add: airc_wf_def airc_new_def)

lemma attach_piggyback_wf [wf_intros]: "airc_wf f \<Longrightarrow> airc_wf (attach_piggyback s f)"
proof -
  have "(aflags f OR PIGGYACK) AND PIGGYACK = PIGGYACK"
    by (rule bit_word_eqI) (auto simp: bit_simps)
  then show "airc_wf f \<Longrightarrow> airc_wf (attach_piggyback s f)"
    by (simp add: airc_wf_def attach_piggyback_def PIGGYACK_def)
qed

lemma length_airc_encode:
  "length (airc_encode f) =
     HEADER_LEN + (if piggyback_seq f = None then 0 else 2) + length (payload f)"
  by (simp add: airc_encode_def Let_def MAGIC_def to_be_bytes_def HEADER_LEN_def split: option.splits)

section \<open>Fields\<close>

definition field_char_ok :: "nat \<Rightarrow> bool" where
  "field_char_ok c \<longleftrightarrow> c \<noteq> 0x1F \<and> c \<noteq> 13 \<and> c \<noteq> 10 \<and> c \<noteq> 0"

definition clean_field :: "ustr \<Rightarrow> ustr" where
  "clean_field s = filter field_char_ok s"

lemma byte_ok_iff: "n < 256 \<Longrightarrow> field_byte_ok (of_nat n) = field_char_ok n"
proof -
  assume n: "n < 256"
  have e: "(of_nat n :: byte) = of_nat m \<longleftrightarrow> n = m" if "m < 256" for m
    using n that unat_of_byte by metis
  show ?thesis using e [of 31] e [of 13] e [of 10] e [of 0]
    by (simp add: field_byte_ok_def field_char_ok_def FS_def)
qed

lemma filter_char_bytes:
  assumes "is_scalar c"
  shows "filter field_byte_ok (map of_nat (utf8_char c)) =
    (if field_char_ok c then map of_nat (utf8_char c) else [])"
proof (cases "c < 128")
  case True
  then show ?thesis by (simp add: byte_ok_iff)
next
  case False
  have "field_byte_ok (of_nat b)" if "b \<in> set (utf8_char c)" for b
    using that utf8_char_byte [OF assms that] utf8_char_high [of c b] False
    by (auto simp: byte_ok_iff field_char_ok_def)
  then have "filter field_byte_ok (map of_nat (utf8_char c)) = map of_nat (utf8_char c)"
    by (intro filter_True) auto
  moreover have "field_char_ok c" using False by (auto simp: field_char_ok_def)
  ultimately show ?thesis by simp
qed

lemma filter_as_bytes:
  "\<forall>c \<in> set s. is_scalar c \<Longrightarrow> filter field_byte_ok (as_bytes s) = as_bytes (clean_field s)"
  by (induction s) (auto simp: filter_char_bytes clean_field_def)

lemma split_encode_fields:
  "fs \<noteq> [] \<Longrightarrow> split_on FS (encode_fields fs) = map (\<lambda>f. filter field_byte_ok (as_bytes f)) fs"
proof (induction fs rule: encode_fields.induct)
  case (2 f)
  have "FS \<notin> set (filter field_byte_ok (as_bytes f))" by (simp add: field_byte_ok_def)
  then show ?case by (simp add: split_on_none)
next
  case (3 f g fs)
  have "FS \<notin> set (filter field_byte_ok (as_bytes f))" by (simp add: field_byte_ok_def)
  with 3 show ?case by (simp add: split_on_append)
qed simp

lemma fields_encode_fields:
  assumes "fs \<noteq> []" "\<forall>f \<in> set fs. \<forall>c \<in> set f. is_scalar c" "payload m = encode_fields fs"
  shows "fields m = map clean_field fs"
proof -
  have "from_utf8_lossy (filter field_byte_ok (as_bytes f)) = clean_field f" if "f \<in> set fs" for f
  proof -
    have s: "\<forall>c \<in> set f. is_scalar c" using assms(2) that by blast
    then have "\<forall>c \<in> set (clean_field f). is_scalar c" by (simp add: clean_field_def)
    then show ?thesis by (simp add: filter_as_bytes [OF s] from_utf8_lossy_as_bytes)
  qed
  then show ?thesis using assms(1,3) by (simp add: fields_def split_encode_fields)
qed

lemma encode_fields_bytes: "b \<in> set (encode_fields fs) \<Longrightarrow> b = FS \<or> field_byte_ok b"
  by (induction fs rule: encode_fields.induct) auto

lemma length_fields_ne [simp]: "fields f \<noteq> []"
  by (simp add: fields_def)

section \<open>Properties\<close>

text \<open>C12: AIRC frames round-trip: every well-formed frame, with or without a piggybacked
  acknowledgement, decodes to itself.\<close>

theorem airc_frame_round_trip:
  assumes "airc_wf f"
  shows "airc_decode (airc_encode f) = Inr f"
  by (rule airc_decode_encode [OF assms])

theorem airc_frame_round_trip_witness:
  "airc_decode (airc_encode \<lparr>akind = KMsg, aflags = 0x09, aseq = 0xBEEF, frag_index = 2, frag_total = 5,
      payload = [1, 2], piggyback_seq = Some 0x1234\<rparr>) =
   Inr \<lparr>akind = KMsg, aflags = 0x09, aseq = 0xBEEF, frag_index = 2, frag_total = 5,
      payload = [1, 2], piggyback_seq = Some 0x1234\<rparr>"
  by (rule airc_frame_round_trip) code_simp

text \<open>Whatever octets arrive, an accepted AIRC frame has a fragment index below a non-zero fragment
  total and a piggyback exactly when its flag says so, so reassembly may index with it.\<close>

theorem airc_decode_sound:
  assumes "airc_decode buf = Inr f"
  shows "frag_index f < frag_total f \<and> ((aflags f AND PIGGYACK \<noteq> 0) = (piggyback_seq f \<noteq> None))
    \<and> airc_decode (airc_encode f) = Inr f"
  using airc_decode_wf [OF assms] airc_decode_encode [OF airc_decode_wf [OF assms]]
  by (simp add: airc_wf_def)

theorem airc_decode_sound_witness:
  "\<exists>f. airc_decode [0x41, 0x31, 0x10, 0x01, 0, 9, 0, 2, 65] = Inr f \<and> frag_index f < frag_total f"
proof -
  have "case airc_decode [0x41, 0x31, 0x10, 0x01, 0, 9, 0, 2, 65] of Inr f \<Rightarrow> True | Inl e \<Rightarrow> False" by code_simp
  then obtain f where "airc_decode [0x41, 0x31, 0x10, 0x01, 0, 9, 0, 2, 65] = Inr f"
    by (auto split: sum.splits)
  with airc_decode_sound [OF this] show ?thesis by blast
qed

text \<open>What goes on the air in a field list carries no CR, LF, NUL or stray separator
  whatever text a user typed, and the receiver reads the same number of fields, each the sender's text less those characters.\<close>

theorem fields_no_injection:
  assumes "fs \<noteq> []" "\<forall>f \<in> set fs. \<forall>c \<in> set f. is_scalar c"
  shows "fields (airc_new k seq (encode_fields fs)) = map clean_field fs \<and>
    (\<forall>b \<in> set (encode_fields fs). b \<noteq> 13 \<and> b \<noteq> 10 \<and> b \<noteq> 0)"
  using fields_encode_fields [OF assms, of "airc_new k seq (encode_fields fs)"]
    encode_fields_bytes [of _ fs]
  by (fastforce simp: airc_new_def field_byte_ok_def FS_def)

theorem fields_no_injection_witness:
  "fields (airc_new KMsg 1 (encode_fields [lit ''#chan'', lit ''hi'' @ [13, 10, 31] @ lit ''QUIT''])) =
     [lit ''#chan'', lit ''hiQUIT'']"
proof -
  have "map clean_field [lit ''#chan'', lit ''hi'' @ [13, 10, 31] @ lit ''QUIT''] = [lit ''#chan'', lit ''hiQUIT'']"
    by code_simp
  moreover have "\<forall>f \<in> set [lit ''#chan'', lit ''hi'' @ [13, 10, 31] @ lit ''QUIT'']. \<forall>c \<in> set f. is_scalar c"
    by (simp add: lit_def is_scalar_def)
  ultimately show ?thesis
    using fields_no_injection [of "[lit ''#chan'', lit ''hi'' @ [13, 10, 31] @ lit ''QUIT'']" KMsg 1] by simp
qed

end
