(* ===== verification/Airc_Session.thy ===== *)
theory Airc_Session
  imports Airc_Frame
begin

text \<open>
  \<open>src/src/airc/session.rs\<close>: the per-station session layer. Sequence numbers, fragmentation and
  reassembly, stop-and-wait with selective repeat, duplicate suppression, retry and expiry. The
  source is a pure state machine driven by an explicit \<open>now\<close>, so each method is one function
  from the state to the new state and the frames to transmit. This theory holds the state and
  the operations; \<open>Airc_Session_Proofs\<close> holds what is proved of them.
\<close>

section \<open>State\<close>

record session_config =
  paclen :: nat
  ack_timeout :: duration
  max_retries :: nat
  reassembly_timeout :: duration
  peer_idle_timeout :: duration
  max_queue :: nat
  dedup_window :: nat
  max_peers :: nat
  max_reasm :: nat

definition session_config_default :: session_config where
  "session_config_default =
     \<lparr>paclen = 128, ack_timeout = from_secs 12, max_retries = 3,
      reassembly_timeout = from_secs 60, peer_idle_timeout = from_secs (30 * 60),
      max_queue = 16, dedup_window = 64, max_peers = 256, max_reasm = 4\<rparr>"

definition max_payload :: "session_config \<Rightarrow> nat" where
  "max_payload cfg = max (paclen cfg - HEADER_LEN) 1"

record pending =
  pd_frames :: "airc_frame list"
  pd_acked :: "bool list"
  pd_attempts :: nat
  pd_next_retry :: "instant option"

record reassembly =
  ra_kind :: kind
  ra_flags :: byte
  ra_parts :: "byte list option list"
  ra_started :: instant
  ra_want_ack :: bool

record owed_ack =
  oa_seq :: u16
  oa_bitmap :: "byte list option"

datatype dialect = Aprs | Airc

record peer =
  peer_call :: callsign
  peer_channels :: "ustr set"
  first_heard :: instant
  last_heard :: instant
  peer_registered :: bool
  peer_dropped :: nat
  peer_dialect :: dialect
  peer_pending :: "pending option"
  peer_owed :: "owed_ack option"
  peer_queue :: "airc_frame list list"
  peer_seen :: "u16 list"
  peer_reasm :: "(u16, reassembly) table"
  peer_kicked :: "ustr set"
  peer_epoch :: u16

definition peer_new :: "callsign \<Rightarrow> instant \<Rightarrow> peer" where
  "peer_new c now =
     \<lparr>peer_call = c, peer_channels = {}, first_heard = now, last_heard = now,
      peer_registered = False, peer_dropped = 0, peer_dialect = Aprs, peer_pending = None,
      peer_owed = None, peer_queue = [], peer_seen = [], peer_reasm = [], peer_kicked = {},
      peer_epoch = 0\<rparr>"

definition note_airc :: "peer \<Rightarrow> peer" where
  "note_airc p = p\<lparr>peer_dialect := Airc\<rparr>"

definition note_aprs :: "peer \<Rightarrow> peer" where
  "note_aprs p = (if peer_dialect p \<noteq> Airc then p\<lparr>peer_dialect := Aprs\<rparr> else p)"

definition was_kicked_from :: "peer \<Rightarrow> ustr \<Rightarrow> bool" where
  "was_kicked_from p ch \<longleftrightarrow> ch \<in> peer_kicked p"

definition mark_kicked :: "ustr \<Rightarrow> peer \<Rightarrow> peer" where
  "mark_kicked ch p = p\<lparr>peer_kicked := insert ch (peer_kicked p),
                        peer_channels := peer_channels p - {ch}\<rparr>"

definition clear_kicked :: "ustr \<Rightarrow> peer \<Rightarrow> peer" where
  "clear_kicked ch p = p\<lparr>peer_kicked := peer_kicked p - {ch}\<rparr>"

definition queue_depth :: "peer \<Rightarrow> nat" where
  "queue_depth p = length (peer_queue p) + (if peer_pending p \<noteq> None then 1 else 0)"

definition awaiting_ack :: "peer \<Rightarrow> bool" where
  "awaiting_ack p \<longleftrightarrow> peer_pending p \<noteq> None"

record rx_outcome =
  rx_deliver :: "airc_frame option"
  rx_transmit :: "airc_frame list"
  rx_duplicate :: bool

definition rx_default :: rx_outcome where
  "rx_default = \<lparr>rx_deliver = None, rx_transmit = [], rx_duplicate = False\<rparr>"

record tick_outcome =
  tk_transmit :: "(callsign \<times> airc_frame) list"
  tk_lost :: "callsign list"

record send_outcome =
  so_frames :: "airc_frame list"
  so_accepted :: bool

definition send_dropped :: send_outcome where
  "send_dropped = \<lparr>so_frames = [], so_accepted = False\<rparr>"

record sessions =
  ss_config :: session_config
  ss_peers :: "(callsign, peer) table"
  ss_next_seq :: u16
  ss_evicted :: "callsign list"
  ss_radio_kicked :: "callsign set"

definition sessions_new :: "session_config \<Rightarrow> sessions" where
  "sessions_new cfg =
     \<lparr>ss_config = cfg, ss_peers = [], ss_next_seq = 1, ss_evicted = [], ss_radio_kicked = {}\<rparr>"

section \<open>Acknowledgements\<close>

definition ack_for :: "u16 \<Rightarrow> airc_frame" where
  "ack_for seq = airc_new KAck seq (to_be_bytes seq)"

definition ack_with_bitmap :: "u16 \<Rightarrow> byte list \<Rightarrow> airc_frame" where
  "ack_with_bitmap seq bitmap = airc_new KAck seq (to_be_bytes seq @ bitmap)"

definition owed_to_frame :: "owed_ack \<Rightarrow> airc_frame" where
  "owed_to_frame o' =
     (case oa_bitmap o' of None \<Rightarrow> ack_for (oa_seq o') | Some b \<Rightarrow> ack_with_bitmap (oa_seq o') b)"

definition owe_ack :: "u16 \<Rightarrow> byte list option \<Rightarrow> peer \<Rightarrow> peer" where
  "owe_ack seq bitmap p = p\<lparr>peer_owed := Some \<lparr>oa_seq = seq, oa_bitmap = bitmap\<rparr>\<rparr>"

definition parse_ack_payload :: "byte list \<Rightarrow> (u16 \<times> byte list option) option" where
  "parse_ack_payload p =
     (case p of
        a # b # rest \<Rightarrow> Some (from_be_bytes a b, if rest = [] then None else Some rest)
      | _ \<Rightarrow> None)"

definition bit_set :: "byte list \<Rightarrow> nat \<Rightarrow> bool" where
  "bit_set bits i \<longleftrightarrow> i div 8 < length bits \<and> bits ! (i div 8) AND push_bit (i mod 8) 1 \<noteq> 0"

text \<open>\<open>b[i / 8] |= 1 << (i % 8)\<close> for every part in hand, from a zeroed buffer.\<close>

definition set_bit_at :: "nat \<Rightarrow> byte list \<Rightarrow> byte list" where
  "set_bit_at i b = b[i div 8 := b ! (i div 8) OR push_bit (i mod 8) 1]"

definition bitmap_from_parts :: "byte list option list \<Rightarrow> byte list" where
  "bitmap_from_parts parts =
     fold (\<lambda>i b. if parts ! i \<noteq> None then set_bit_at i b else b) [0..<length parts]
       (replicate (max ((length parts + 7) div 8) 1) 0)"

section \<open>Fragmentation\<close>

function chunks :: "nat \<Rightarrow> 'a list \<Rightarrow> 'a list list" where
  "chunks n xs = (if xs = [] \<or> n = 0 then [] else take n xs # chunks n (drop n xs))"
  by pat_completeness auto
termination
  by (relation "measure (\<lambda>(n, xs). length xs)") auto

declare chunks.simps [simp del]

definition chunk_payload :: "byte list \<Rightarrow> nat \<Rightarrow> bool \<Rightarrow> byte list list" where
  "chunk_payload p mx piggy =
     (if p = [] then [[]]
      else
        (let first_max = (if piggy then max (mx - 2) 1 else mx) in
         if length p \<le> first_max then [p]
         else take first_max p # chunks mx (drop first_max p)))"

definition make_frames :: "kind \<Rightarrow> u16 \<Rightarrow> bool \<Rightarrow> byte list list \<Rightarrow> airc_frame list" where
  "make_frames k seq reliable cs =
     map (\<lambda>i. (airc_new k seq (cs ! i))\<lparr>frag_index := of_nat i, frag_total := of_nat (length cs),
                aflags := (if reliable then 0 OR ACK_REQ else 0)\<rparr>) [0..<length cs]"

section \<open>In-flight messages\<close>

definition start_pending :: "peer \<Rightarrow> airc_frame list \<Rightarrow> peer \<times> airc_frame list" where
  "start_pending p frames =
     (p\<lparr>peer_pending := Some \<lparr>pd_frames = frames, pd_acked = replicate (length frames) False,
                              pd_attempts = 0, pd_next_retry = None\<rparr>\<rparr>, frames)"

definition mark_retry :: "airc_frame \<Rightarrow> airc_frame" where
  "mark_retry f = f\<lparr>aflags := aflags f OR RETRY\<rparr>"

text \<open>The frames whose bit is not yet set, in order, flagged as retransmissions.\<close>

definition holes :: "pending \<Rightarrow> airc_frame list" where
  "holes pd = map (\<lambda>i. mark_retry (pd_frames pd ! i))
     (filter (\<lambda>i. \<not> (i < length (pd_acked pd) \<and> pd_acked pd ! i)) [0..<length (pd_frames pd)])"

definition merge_bitmap :: "byte list \<Rightarrow> bool list \<Rightarrow> bool list" where
  "merge_bitmap bits acked = map (\<lambda>i. acked ! i \<or> bit_set bits i) [0..<length acked]"

definition bitmap_progress :: "byte list \<Rightarrow> bool list \<Rightarrow> bool" where
  "bitmap_progress bits acked \<longleftrightarrow> list_ex (\<lambda>i. bit_set bits i \<and> \<not> acked ! i) [0..<length acked]"

text \<open>The message is complete: drop it and start the next queued one.\<close>

definition release_next :: "peer \<Rightarrow> peer \<times> airc_frame list" where
  "release_next p =
     (let p' = p\<lparr>peer_pending := None\<rparr> in
      case peer_queue p' of
        next # rest \<Rightarrow> start_pending (p'\<lparr>peer_queue := rest\<rparr>) next
      | [] \<Rightarrow> (p', []))"

definition apply_ack :: "peer \<Rightarrow> u16 \<Rightarrow> byte list option \<Rightarrow> peer \<times> airc_frame list" where
  "apply_ack p seq bitmap =
     (case peer_pending p of
        None \<Rightarrow> (p, [])
      | Some pd \<Rightarrow>
          if map_option aseq (case pd_frames pd of [] \<Rightarrow> None | f # _ \<Rightarrow> Some f) \<noteq> Some seq
          then (p, [])
          else
            (case bitmap of
               None \<Rightarrow> release_next p
             | Some bits \<Rightarrow>
                 (let progress = bitmap_progress bits (pd_acked pd);
                      pd1 = pd\<lparr>pd_acked := merge_bitmap bits (pd_acked pd)\<rparr>
                  in if \<not> list_all id (pd_acked pd1) then
                       (if \<not> progress then (p\<lparr>peer_pending := Some pd1\<rparr>, [])
                        else (let pd2 = pd1\<lparr>pd_attempts := 0, pd_next_retry := None\<rparr>
                              in (p\<lparr>peer_pending := Some pd2\<rparr>, holes pd2)))
                     else release_next (p\<lparr>peer_pending := Some pd1\<rparr>))))"

definition backoff :: "session_config \<Rightarrow> nat \<Rightarrow> duration" where
  "backoff cfg attempt = ack_timeout cfg * min attempt 4"

definition remember_seq :: "u16 \<Rightarrow> nat \<Rightarrow> peer \<Rightarrow> peer" where
  "remember_seq seq window p =
     (let seen' = peer_seen p @ [seq] in p\<lparr>peer_seen := drop (length seen' - window) seen'\<rparr>)"

definition hello_epoch :: "airc_frame \<Rightarrow> u16" where
  "hello_epoch f =
     (case field f 1 of
        None \<Rightarrow> 0
      | Some s \<Rightarrow> (case parse_hex_u16 (trim s) of Some n \<Rightarrow> of_nat n | None \<Rightarrow> 0))"

section \<open>The table of stations\<close>

definition next_seq :: "sessions \<Rightarrow> u16 \<times> sessions" where
  "next_seq s =
     (let seq = ss_next_seq s; n = seq + 1
      in (seq, s\<lparr>ss_next_seq := (if n = 0 then 1 else n)\<rparr>))"

definition take_evicted :: "sessions \<Rightarrow> callsign list \<times> sessions" where
  "take_evicted s = (ss_evicted s, s\<lparr>ss_evicted := []\<rparr>)"

definition ban :: "callsign \<Rightarrow> sessions \<Rightarrow> sessions" where
  "ban c s = s\<lparr>ss_radio_kicked := insert c (ss_radio_kicked s)\<rparr>"

definition lift_ban :: "callsign \<Rightarrow> sessions \<Rightarrow> sessions" where
  "lift_ban c s = s\<lparr>ss_radio_kicked := ss_radio_kicked s - {c}\<rparr>"

definition is_banned :: "sessions \<Rightarrow> callsign \<Rightarrow> bool" where
  "is_banned s c \<longleftrightarrow> c \<in> ss_radio_kicked s"

definition get_peer :: "sessions \<Rightarrow> callsign \<Rightarrow> peer option" where
  "get_peer s c = map_of (ss_peers s) c"

definition set_peer :: "callsign \<Rightarrow> peer \<Rightarrow> sessions \<Rightarrow> sessions" where
  "set_peer c p s = s\<lparr>ss_peers := AList.update c p (ss_peers s)\<rparr>"

text \<open>\<open>touch\<close> yields the station's entry and the state that holds it, or nothing when the table is full.\<close>

definition touch :: "callsign \<Rightarrow> instant \<Rightarrow> sessions \<Rightarrow> (peer \<times> sessions) option" where
  "touch c now s =
     (if get_peer s c = None \<and> max_peers (ss_config s) \<le> length (ss_peers s) then None
      else
        (let p0 = (case get_peer s c of Some p \<Rightarrow> p | None \<Rightarrow> peer_new c now);
             p = p0\<lparr>last_heard := now\<rparr>
         in Some (p, set_peer c p s)))"

text \<open>\<open>force_touch\<close> drops the station heard longest ago to make room; the state changes even when \<open>None\<close>.\<close>

definition force_touch :: "callsign \<Rightarrow> instant \<Rightarrow> sessions \<Rightarrow> peer option \<times> sessions" where
  "force_touch c now s =
     (if max_peers (ss_config s) = 0 then (None, s)
      else
        (let (peers', old) = make_room (max_peers (ss_config s)) last_heard c (ss_peers s);
             s1 = s\<lparr>ss_peers := peers',
                    ss_evicted := ss_evicted s @ (case old of Some k \<Rightarrow> [k] | None \<Rightarrow> [])\<rparr>
         in case touch c now s1 of
              Some (p, s2) \<Rightarrow> (Some p, s2)
            | None \<Rightarrow> (None, s1)))"

definition forget :: "callsign \<Rightarrow> sessions \<Rightarrow> sessions" where
  "forget c s = s\<lparr>ss_peers := AList.delete c (ss_peers s)\<rparr>"

section \<open>Reception\<close>

text \<open>A HELLO with a new epoch is a restart.\<close>

definition rx_hello :: "airc_frame \<Rightarrow> peer \<Rightarrow> peer" where
  "rx_hello f p =
     (if akind f = KHello \<and> hello_epoch f \<noteq> peer_epoch p
      then p\<lparr>peer_seen := [], peer_reasm := [], peer_pending := None, peer_owed := None,
             peer_queue := [], peer_epoch := hello_epoch f\<rparr>
      else p)"

definition rx_piggyback :: "airc_frame \<Rightarrow> peer \<Rightarrow> peer \<times> airc_frame list" where
  "rx_piggyback f p = (case piggyback_seq f of Some acked \<Rightarrow> apply_ack p acked None | None \<Rightarrow> (p, []))"

definition rx_ack :: "airc_frame \<Rightarrow> peer \<Rightarrow> peer \<times> airc_frame list" where
  "rx_ack f p =
     (case parse_ack_payload (payload f) of
        Some (acked, bitmap) \<Rightarrow> apply_ack p acked bitmap
      | None \<Rightarrow> (p, []))"

definition rx_seen :: "airc_frame \<Rightarrow> bool \<Rightarrow> peer \<Rightarrow> peer \<times> airc_frame option \<times> bool" where
  "rx_seen f to_us p =
     (let p' = (if to_us \<and> wants_ack f then owe_ack (aseq f) None p else p)
      in if akind f = KHello then (p', Some f, False) else (p', None, True))"

definition rx_single :: "session_config \<Rightarrow> airc_frame \<Rightarrow> bool \<Rightarrow> peer \<Rightarrow> peer \<times> airc_frame option" where
  "rx_single cfg f to_us p =
     (let p' = (if to_us \<and> wants_ack f then owe_ack (aseq f) None p else p)
      in (remember_seq (aseq f) (dedup_window cfg) p', Some f))"

definition fresh_reassembly :: "airc_frame \<Rightarrow> bool \<Rightarrow> instant \<Rightarrow> reassembly" where
  "fresh_reassembly f want now =
     \<lparr>ra_kind = akind f, ra_flags = aflags f, ra_parts = replicate (unat (frag_total f)) None,
      ra_started = now, ra_want_ack = want\<rparr>"

text \<open>The entry for this sequence number once the fragment is stored in it.\<close>

definition store_fragment :: "airc_frame \<Rightarrow> bool \<Rightarrow> instant \<Rightarrow> reassembly option \<Rightarrow> reassembly" where
  "store_fragment f want now old =
     (let e0 = (case old of Some r \<Rightarrow> r | None \<Rightarrow> fresh_reassembly f want now);
          e1 = (if length (ra_parts e0) \<noteq> unat (frag_total f)
                then fresh_reassembly f want now else e0);
          e2 = e1\<lparr>ra_want_ack := ra_want_ack e1 \<or> want\<rparr>;
          e3 = (if aflags f AND ACK_REQ \<noteq> 0
                then e2\<lparr>ra_flags := ra_flags e2 OR ACK_REQ\<rparr> else e2)
      in e3\<lparr>ra_parts := (ra_parts e3)[unat (frag_index f) := Some (payload f)]\<rparr>)"

definition rx_fragment ::
  "session_config \<Rightarrow> airc_frame \<Rightarrow> instant \<Rightarrow> bool \<Rightarrow> peer \<Rightarrow> peer \<times> airc_frame option" where
  "rx_fragment cfg f now to_us p =
     (if max_payload cfg < length (payload f) then (p, None)
      else
        (let seq = aseq f;
             want = (to_us \<and> wants_ack f);
             reasm1 = fst (make_room (max_reasm cfg) ra_started seq (peer_reasm p));
             entry = store_fragment f want now (map_of reasm1 seq);
             p1 = p\<lparr>peer_reasm := AList.update seq entry reasm1\<rparr>
         in if \<not> list_all (\<lambda>x. x \<noteq> None) (ra_parts entry) then
              (if want \<and> aflags f AND RETRY \<noteq> 0
               then (owe_ack seq (Some (bitmap_from_parts (ra_parts entry))) p1, None)
               else (p1, None))
            else
              (let body = concat (map (case_option [] id) (ra_parts entry));
                   p2 = p1\<lparr>peer_reasm := AList.delete seq (peer_reasm p1)\<rparr>;
                   p3 = remember_seq seq (dedup_window cfg) p2;
                   p4 = (if ra_want_ack entry \<or>
                            (to_us \<and> (wants_ack f \<or> ra_flags entry AND ACK_REQ \<noteq> 0))
                         then owe_ack seq None p3 else p3)
               in (p4, Some (with_flags (ra_flags entry) (airc_new (ra_kind entry) seq body))))))"

text \<open>\<open>on_receive\<close> from the point where the station's entry is at hand.\<close>

definition peer_receive ::
  "session_config \<Rightarrow> airc_frame \<Rightarrow> instant \<Rightarrow> bool \<Rightarrow> peer \<Rightarrow> peer \<times> rx_outcome" where
  "peer_receive cfg f now to_us p0 =
     (let p1 = rx_hello f (note_airc p0);
          (p2, tx1) = rx_piggyback f p1
      in if akind f = KAck then
           (let (p3, tx2) = rx_ack f p2
            in (p3, rx_default\<lparr>rx_transmit := tx1 @ tx2\<rparr>))
         else if aseq f \<in> set (peer_seen p2) then
           (let (p3, d, dup) = rx_seen f to_us p2
            in (p3, \<lparr>rx_deliver = d, rx_transmit = tx1, rx_duplicate = dup\<rparr>))
         else if frag_total f = 1 then
           (let (p3, d) = rx_single cfg f to_us p2
            in (p3, \<lparr>rx_deliver = d, rx_transmit = tx1, rx_duplicate = False\<rparr>))
         else
           (let (p3, d) = rx_fragment cfg f now to_us p2
            in (p3, \<lparr>rx_deliver = d, rx_transmit = tx1, rx_duplicate = False\<rparr>)))"

definition on_receive ::
  "callsign \<Rightarrow> airc_frame \<Rightarrow> instant \<Rightarrow> bool \<Rightarrow> sessions \<Rightarrow> rx_outcome \<times> sessions" where
  "on_receive src f now to_us s =
     (case touch src now s of
        None \<Rightarrow> (rx_default, s)
      | Some (p, s1) \<Rightarrow>
          (let (p', out) = peer_receive (ss_config s) f now to_us p
           in (out, set_peer src p' s1)))"

text \<open>Standalone acknowledgements that found nothing to ride on.\<close>

definition drain_acks :: "sessions \<Rightarrow> (callsign \<times> airc_frame) list \<times> sessions" where
  "drain_acks s =
     (concat (map (\<lambda>(c, p). case peer_owed p of Some o' \<Rightarrow> [(c, owed_to_frame o')] | None \<Rightarrow> [])
        (ss_peers s)),
      s\<lparr>ss_peers := map (\<lambda>(c, p). (c, p\<lparr>peer_owed := None\<rparr>)) (ss_peers s)\<rparr>)"

section \<open>Sending\<close>

definition can_accept :: "sessions \<Rightarrow> callsign \<Rightarrow> bool" where
  "can_accept s c =
     (case get_peer s c of
        Some p \<Rightarrow> if peer_pending p \<noteq> None then length (peer_queue p) < max_queue (ss_config s) else True
      | None \<Rightarrow> True)"

text \<open>The owed complete acknowledgement that may ride on a reliable message sent now.\<close>

definition take_piggy :: "session_config \<Rightarrow> bool \<Rightarrow> peer \<Rightarrow> u16 option \<times> peer" where
  "take_piggy cfg reliable p =
     (if (\<not> reliable \<or> peer_pending p = None) \<and> reliable \<and> 2 < max_payload cfg then
        (case peer_owed p of
           Some o' \<Rightarrow> if oa_bitmap o' = None then (Some (oa_seq o'), p\<lparr>peer_owed := None\<rparr>)
                     else (None, p)
         | None \<Rightarrow> (None, p))
      else (None, p))"

definition give_back :: "u16 option \<Rightarrow> peer \<Rightarrow> peer" where
  "give_back piggy p = (case piggy of Some s \<Rightarrow> owe_ack s None p | None \<Rightarrow> p)"

definition attach_first :: "u16 option \<Rightarrow> airc_frame list \<Rightarrow> airc_frame list" where
  "attach_first piggy fs =
     (case piggy of
        None \<Rightarrow> fs
      | Some s \<Rightarrow> (case fs of [] \<Rightarrow> [] | f # rest \<Rightarrow> attach_piggyback s f # rest))"

definition peer_enqueue ::
  "session_config \<Rightarrow> kind \<Rightarrow> u16 \<Rightarrow> byte list \<Rightarrow> bool \<Rightarrow> peer \<Rightarrow> peer \<times> send_outcome" where
  "peer_enqueue cfg k seq body reliable p0 =
     (let (piggy, p) = take_piggy cfg reliable p0;
          cs = chunk_payload body (max_payload cfg) (piggy \<noteq> None)
      in if 255 < length cs then
           ((give_back piggy p)\<lparr>peer_dropped := peer_dropped p + 1\<rparr>, send_dropped)
         else
           (let frames = make_frames k seq reliable cs
            in if \<not> reliable then (p, \<lparr>so_frames = frames, so_accepted = True\<rparr>)
               else if peer_pending p \<noteq> None then
                 (let p1 = give_back piggy p
                  in if max_queue cfg \<le> length (peer_queue p1)
                     then (p1\<lparr>peer_dropped := peer_dropped p1 + 1\<rparr>, send_dropped)
                     else (p1\<lparr>peer_queue := peer_queue p1 @ [frames]\<rparr>,
                           \<lparr>so_frames = [], so_accepted = True\<rparr>))
               else
                 (let (p1, out) = start_pending p frames
                  in (p1, \<lparr>so_frames = attach_first piggy out, so_accepted = True\<rparr>))))"

definition enqueue ::
  "callsign \<Rightarrow> kind \<Rightarrow> byte list \<Rightarrow> bool \<Rightarrow> instant \<Rightarrow> sessions \<Rightarrow> send_outcome \<times> sessions" where
  "enqueue dst k body reliable now s =
     (let (seq, s1) = next_seq s
      in case force_touch dst now s1 of
           (None, s2) \<Rightarrow> (send_dropped, s2)
         | (Some p, s2) \<Rightarrow>
             (let (p', out) = peer_enqueue (ss_config s) k seq body reliable p
              in (out, set_peer dst p' s2)))"

definition send ::
  "callsign \<Rightarrow> kind \<Rightarrow> byte list \<Rightarrow> bool \<Rightarrow> instant \<Rightarrow> sessions \<Rightarrow> airc_frame list \<times> sessions" where
  "send dst k body reliable now s =
     (let (out, s') = enqueue dst k body reliable now s in (so_frames out, s'))"

section \<open>Timers\<close>

datatype tick_status = Keep | Lost | GiveUp

definition reasm_expired :: "session_config \<Rightarrow> instant \<Rightarrow> reassembly \<Rightarrow> bool" where
  "reasm_expired cfg now r \<longleftrightarrow> reassembly_timeout cfg \<le> now - ra_started r"

definition expire_reasm ::
  "session_config \<Rightarrow> instant \<Rightarrow> peer \<Rightarrow> peer \<times> airc_frame list" where
  "expire_reasm cfg now p =
     (p\<lparr>peer_reasm := filter (\<lambda>(s, r). \<not> reasm_expired cfg now r) (peer_reasm p)\<rparr>,
      map (\<lambda>(s, r). ack_with_bitmap s (bitmap_from_parts (ra_parts r)))
        (filter (\<lambda>(s, r). reasm_expired cfg now r \<and> ra_want_ack r) (peer_reasm p)))"

text \<open>The body of the loop over the stations in \<open>tick_retries\<close>.\<close>

definition tick_peer ::
  "session_config \<Rightarrow> instant \<Rightarrow> bool \<Rightarrow> peer \<Rightarrow> peer \<times> airc_frame list \<times> tick_status" where
  "tick_peer cfg now retry p0 =
     (let (p, tx) = expire_reasm cfg now p0
      in if peer_idle_timeout cfg < now - last_heard p then (p, tx, Lost)
         else if \<not> retry then (p, tx, Keep)
         else
           (case peer_pending p of
              None \<Rightarrow> (p, tx, Keep)
            | Some pd \<Rightarrow>
                (case pd_next_retry pd of
                   None \<Rightarrow> (p, tx, Keep)
                 | Some deadline \<Rightarrow>
                     if now < deadline then (p, tx, Keep)
                     else if max_retries cfg \<le> pd_attempts pd then (p, tx, GiveUp)
                     else
                       (let n = pd_attempts pd + 1;
                            pd' = pd\<lparr>pd_attempts := n, pd_next_retry := Some (now + backoff cfg n)\<rparr>
                        in (p\<lparr>peer_pending := Some pd'\<rparr>, tx @ holes pd', Keep)))))"

definition tick_all ::
  "session_config \<Rightarrow> instant \<Rightarrow> bool \<Rightarrow> (callsign, peer) table \<Rightarrow>
     (callsign \<times> (peer \<times> airc_frame list \<times> tick_status)) list" where
  "tick_all cfg now retry ps = map (\<lambda>(c, p). (c, tick_peer cfg now retry p)) ps"

text \<open>The loop over the stations that ran out of retries.\<close>

definition give_up ::
  "callsign \<Rightarrow> (callsign, peer) table \<times> tick_outcome \<Rightarrow> (callsign, peer) table \<times> tick_outcome" where
  "give_up c st =
     (let (ps, out) = st in
      case map_of ps c of
        None \<Rightarrow> (ps, out)
      | Some p \<Rightarrow>
          (let p1 = p\<lparr>peer_pending := None, peer_dropped := peer_dropped p + 1\<rparr>
           in case peer_queue p1 of
                next # rest \<Rightarrow>
                  (let (p2, fs) = start_pending (p1\<lparr>peer_queue := rest\<rparr>) next
                   in (AList.update c p2 ps,
                       out\<lparr>tk_transmit := tk_transmit out @ map (Pair c) fs\<rparr>))
              | [] \<Rightarrow> (AList.update c p1 ps, out\<lparr>tk_lost := tk_lost out @ [c]\<rparr>)))"

definition tick_retries :: "instant \<Rightarrow> bool \<Rightarrow> sessions \<Rightarrow> tick_outcome \<times> sessions" where
  "tick_retries now retry s =
     (let rs = tick_all (ss_config s) now retry (ss_peers s);
          out0 = \<lparr>tk_transmit = concat (map (\<lambda>(c, p, tx, st). map (Pair c) tx) rs),
                  tk_lost = map fst (filter (\<lambda>(c, p, tx, st). st = Lost) rs)\<rparr>;
          giving_up = map fst (filter (\<lambda>(c, p, tx, st). st = GiveUp) rs);
          (ps, out) = fold give_up giving_up (map (\<lambda>(c, p, tx, st). (c, p)) rs, out0)
      in (out, s\<lparr>ss_peers := fold AList.delete (tk_lost out) ps\<rparr>))"

definition tick :: "instant \<Rightarrow> sessions \<Rightarrow> tick_outcome \<times> sessions" where
  "tick now s = tick_retries now True s"

definition session_on_keyed :: "callsign \<Rightarrow> u16 \<Rightarrow> instant \<Rightarrow> sessions \<Rightarrow> sessions" where
  "session_on_keyed dest seq now s =
     (case get_peer s dest of
        None \<Rightarrow> s
      | Some p \<Rightarrow>
          (case peer_pending p of
             None \<Rightarrow> s
           | Some pd \<Rightarrow>
               if map_option aseq (case pd_frames pd of [] \<Rightarrow> None | f # _ \<Rightarrow> Some f) \<noteq> Some seq then s
               else set_peer dest (p\<lparr>peer_pending := Some (pd\<lparr>pd_next_retry :=
                      Some (now + backoff (ss_config s) (max (pd_attempts pd) 1))\<rparr>)\<rparr>) s))"

end
