(* ===== verification/Airc_Session_Proofs.thy ===== *)
theory Airc_Session_Proofs
  imports Airc_Session
begin

text \<open>
  What the session layer guarantees. The sections follow the contract in \<open>docs/design.md\<close> section 6
  and \<open>docs/protocol.md\<close>: bitmaps say exactly which fragments are in hand, fragmentation fits
  the information field and is undone by reassembly whatever the order and repetition of the
  fragments, duplicates are acknowledged but not delivered, one reliable message is in flight
  per station with a bounded queue behind it, and every table stays within its bound.
\<close>

section \<open>Selective acknowledgement bitmaps\<close>

lemma length_set_bit_at [simp]: "length (set_bit_at i b) = length b"
  by (simp add: set_bit_at_def)

lemma bit_set_bit: "bit_set bits i \<longleftrightarrow> i div 8 < length bits \<and> bit (bits ! (i div 8)) (i mod 8)"
  by (simp add: bit_set_def bit_iff_and_push_bit_not_eq_0)

lemma same_octet: "i div 8 = j div 8 \<Longrightarrow> i mod 8 = j mod 8 \<Longrightarrow> i = (j :: nat)"
  by (metis div_mult_mod_eq)

lemma bit_set_set_bit_at:
  assumes "i div 8 < length b"
  shows "bit_set (set_bit_at i b) j \<longleftrightarrow> bit_set b j \<or> j = i"
proof (cases "i div 8 = j div 8")
  case True
  have "bit (push_bit (i mod 8) 1 :: byte) (j mod 8) \<longleftrightarrow> j mod 8 = i mod 8"
    by (auto simp: bit_exp_iff possible_bit_def)
  then show ?thesis using assms True same_octet [of j i]
    by (auto simp: bit_set_bit set_bit_at_def bit_or_iff)
next
  case False
  then show ?thesis by (auto simp: bit_set_bit set_bit_at_def)
qed

lemma bitmap_fold:
  assumes "n \<le> 8 * m" "k \<le> n"
  shows "length (fold (\<lambda>i b. if P i then set_bit_at i b else b) [0..<k] (replicate m 0)) = m \<and>
    (\<forall>j. bit_set (fold (\<lambda>i b. if P i then set_bit_at i b else b) [0..<k] (replicate m 0)) j
       \<longleftrightarrow> j < k \<and> P j)"
  using assms(2)
proof (induction k)
  case 0
  show ?case by (auto simp: bit_set_bit)
next
  case (Suc k)
  define b where "b = fold (\<lambda>i b. if P i then set_bit_at i b else b) [0..<k] (replicate m 0)"
  have IH: "length b = m" "\<And>j. bit_set b j \<longleftrightarrow> j < k \<and> P j"
    using Suc unfolding b_def by auto
  have "k div 8 < length b" using IH(1) Suc.prems assms(1) by auto
  then show ?case using IH
    by (auto simp: b_def [symmetric] bit_set_set_bit_at less_Suc_eq)
qed

lemma bit_set_bitmap: "bit_set (bitmap_from_parts parts) i \<longleftrightarrow> i < length parts \<and> parts ! i \<noteq> None"
proof -
  have "length parts \<le> 8 * max ((length parts + 7) div 8) 1" by linarith
  from bitmap_fold [OF this, of "length parts" "\<lambda>i. parts ! i \<noteq> None"] show ?thesis
    by (simp add: bitmap_from_parts_def)
qed

lemma length_bitmap: "length (bitmap_from_parts parts) = max ((length parts + 7) div 8) 1"
proof -
  have "length parts \<le> 8 * max ((length parts + 7) div 8) 1" by linarith
  from bitmap_fold [OF this, of "length parts" "\<lambda>i. parts ! i \<noteq> None"] show ?thesis
    by (simp add: bitmap_from_parts_def)
qed

lemma parse_complete: "parse_ack_payload (payload (ack_for seq)) = Some (seq, None)"
  by (simp add: ack_for_def airc_new_def to_be_bytes_def parse_ack_payload_def be_round_trip)

lemma parse_bitmap:
  "parse_ack_payload (payload (ack_with_bitmap seq (bitmap_from_parts parts))) =
     Some (seq, Some (bitmap_from_parts parts))"
proof -
  have "bitmap_from_parts parts \<noteq> []" using length_bitmap [of parts] by auto
  then show ?thesis
    by (simp add: ack_with_bitmap_def airc_new_def to_be_bytes_def parse_ack_payload_def be_round_trip)
qed

section \<open>Fragmentation\<close>

lemma concat_chunks: "0 < n \<Longrightarrow> concat (chunks n xs) = xs"
proof (induction n xs rule: chunks.induct)
  case (1 n xs)
  then show ?case by (subst chunks.simps) auto
qed

lemma chunks_sizes: "c \<in> set (chunks n xs) \<Longrightarrow> c \<noteq> [] \<and> length c \<le> n"
proof (induction n xs rule: chunks.induct)
  case (1 n xs)
  show ?case
  proof (cases "xs = [] \<or> n = 0")
    case False
    with "1.prems" have "c = take n xs \<or> c \<in> set (chunks n (drop n xs))"
      by (subst (asm) chunks.simps) auto
    with "1.IH" False show ?thesis by auto
  qed (use "1.prems" in \<open>subst (asm) chunks.simps; auto\<close>)
qed

lemma max_payload_pos [simp]: "0 < max_payload cfg"
  by (simp add: max_payload_def)

lemma concat_chunk_payload: "0 < mx \<Longrightarrow> concat (chunk_payload p mx piggy) = p"
  by (simp add: chunk_payload_def Let_def concat_chunks)

lemma chunk_payload_ne [simp]: "chunk_payload p mx piggy \<noteq> []"
  by (simp add: chunk_payload_def Let_def)

lemma chunk_payload_sizes:
  assumes "0 < mx" "c \<in> set (chunk_payload p mx piggy)"
  shows "length c \<le> mx"
proof -
  have "max (mx - 2) 1 \<le> mx" using assms(1) by simp
  then show ?thesis using assms(2)
    by (auto simp: chunk_payload_def Let_def split: if_splits dest: chunks_sizes)
qed

lemma chunk_payload_first:
  "2 < mx \<Longrightarrow> length (chunk_payload p mx True ! 0) + 2 \<le> mx"
  by (auto simp: chunk_payload_def Let_def)

lemma length_make_frames [simp]: "length (make_frames k seq rel cs) = length cs"
  by (simp add: make_frames_def)

lemma make_frames_nth:
  assumes "i < length cs" "length cs \<le> 255"
  shows "akind (make_frames k seq rel cs ! i) = k" "aseq (make_frames k seq rel cs ! i) = seq"
    "unat (frag_index (make_frames k seq rel cs ! i)) = i"
    "unat (frag_total (make_frames k seq rel cs ! i)) = length cs"
    "payload (make_frames k seq rel cs ! i) = cs ! i"
    "piggyback_seq (make_frames k seq rel cs ! i) = None"
    "wants_ack (make_frames k seq rel cs ! i) = rel"
    "airc_wf (make_frames k seq rel cs ! i)"
proof -
  have i: "i < 256" "length cs < 256" using assms by auto
  let ?f = "make_frames k seq rel cs ! i"
  have e: "?f = (airc_new k seq (cs ! i))\<lparr>frag_index := of_nat i, frag_total := of_nat (length cs),
      aflags := (if rel then 0 OR ACK_REQ else 0)\<rparr>"
    using assms by (simp add: make_frames_def)
  show "akind ?f = k" "aseq ?f = seq" "payload ?f = cs ! i" "piggyback_seq ?f = None"
    by (simp_all add: e airc_new_def)
  show n: "unat (frag_index ?f) = i" "unat (frag_total ?f) = length cs"
    using i by (simp_all add: e airc_new_def)
  show "wants_ack ?f = rel" by (simp add: e wants_ack_def airc_new_def ACK_REQ_def)
  have "frag_total ?f \<noteq> 0" using n(2) assms by auto
  moreover have "frag_index ?f < frag_total ?f" using n assms by (simp add: word_less_nat_alt)
  ultimately show "airc_wf ?f"
    by (simp add: airc_wf_def) (simp add: e airc_new_def ACK_REQ_def PIGGYACK_def)
qed

section \<open>Reassembly\<close>

text \<open>A frame that carries one fragment of the message cut into \<open>cs\<close>, whatever its flags and whatever
  acknowledgement rides on it.\<close>

definition fragment_of :: "byte list list \<Rightarrow> kind \<Rightarrow> u16 \<Rightarrow> airc_frame \<Rightarrow> bool" where
  "fragment_of cs k seq g \<longleftrightarrow> akind g = k \<and> aseq g = seq \<and> unat (frag_total g) = length cs
     \<and> unat (frag_index g) < length cs \<and> payload g = cs ! unat (frag_index g)"

lemma make_frames_fragment:
  "i < length cs \<Longrightarrow> length cs \<le> 255 \<Longrightarrow> fragment_of cs k seq (make_frames k seq rel cs ! i)"
  by (simp add: fragment_of_def make_frames_nth)

lemma attach_piggyback_fragment [simp]:
  "fragment_of cs k seq (attach_piggyback s g) = fragment_of cs k seq g"
  by (simp add: fragment_of_def attach_piggyback_def)

lemma mark_retry_fragment [simp]: "fragment_of cs k seq (mark_retry g) = fragment_of cs k seq g"
  by (simp add: fragment_of_def mark_retry_def)

text \<open>A sequence of receptions, each with its time and addressing, and what they deliver.\<close>

fun receive_all ::
  "session_config \<Rightarrow> peer \<Rightarrow> (airc_frame \<times> instant \<times> bool) list \<Rightarrow> airc_frame list" where
  "receive_all cfg p [] = []"
| "receive_all cfg p ((g, now, to_us) # gs) =
     (case peer_receive cfg g now to_us p of
        (p', out) \<Rightarrow> (case rx_deliver out of Some d \<Rightarrow> [d] | None \<Rightarrow> []) @ receive_all cfg p' gs)"

definition collected :: "byte list list \<Rightarrow> nat set \<Rightarrow> byte list option list" where
  "collected cs I = map (\<lambda>i. if i \<in> I then Some (cs ! i) else None) [0..<length cs]"

definition collecting :: "byte list list \<Rightarrow> kind \<Rightarrow> u16 \<Rightarrow> nat set \<Rightarrow> peer \<Rightarrow> bool" where
  "collecting cs k seq I p \<longleftrightarrow> seq \<notin> set (peer_seen p) \<and>
     (case map_of (peer_reasm p) seq of
        None \<Rightarrow> I = {}
      | Some r \<Rightarrow> ra_kind r = k \<and> ra_parts r = collected cs I)"

lemma length_collected [simp]: "length (collected cs I) = length cs"
  by (simp add: collected_def)

lemma collected_insert:
  "i < length cs \<Longrightarrow> (collected cs I)[i := Some (cs ! i)] = collected cs (insert i I)"
  by (rule nth_equalityI) (auto simp: collected_def nth_list_update)

lemma collected_none: "replicate (length cs) None = collected cs {}"
  by (rule nth_equalityI) (auto simp: collected_def)

lemma collected_complete:
  "I \<subseteq> {..<length cs} \<Longrightarrow> list_all (\<lambda>x. x \<noteq> None) (collected cs I) \<longleftrightarrow> I = {..<length cs}"
  by (auto simp: collected_def list_all_iff)

lemma collected_all: "concat (map (case_option [] id) (collected cs {..<length cs})) = concat cs"
proof -
  have "map (case_option [] id) (collected cs {..<length cs}) = map (\<lambda>i. cs ! i) [0..<length cs]"
    by (auto simp: collected_def)
  then show ?thesis by (simp add: map_nth)
qed

lemma seen_simps [simp]:
  "peer_seen (note_airc p) = peer_seen p" "peer_reasm (note_airc p) = peer_reasm p"
  "peer_seen (owe_ack s b p) = peer_seen p" "peer_reasm (owe_ack s b p) = peer_reasm p"
  "peer_reasm (remember_seq s w p) = peer_reasm p"
  by (simp_all add: note_airc_def owe_ack_def remember_seq_def Let_def)

lemma remember_seq_mem: "0 < w \<Longrightarrow> seq \<in> set (peer_seen (remember_seq seq w p))"
proof -
  assume "0 < w"
  then have "length (peer_seen p) + 1 - w \<le> length (peer_seen p)" by linarith
  then show ?thesis by (simp add: remember_seq_def Let_def)
qed

lemma apply_ack_frame [simp]:
  "peer_seen (fst (apply_ack p s b)) = peer_seen p" "peer_reasm (fst (apply_ack p s b)) = peer_reasm p"
  by (simp_all add: apply_ack_def release_next_def start_pending_def Let_def split: option.splits list.splits)

text \<open>What happens before the fragment itself is looked at leaves the duplicate and reassembly tables alone.\<close>

definition prefix_of :: "airc_frame \<Rightarrow> peer \<Rightarrow> peer \<times> airc_frame list" where
  "prefix_of g p = rx_piggyback g (rx_hello g (note_airc p))"

lemma plain_prefix:
  assumes "fragment_of cs k seq g" "k \<noteq> KHello" "k \<noteq> KAck"
  shows "peer_seen (fst (prefix_of g p)) = peer_seen p" "peer_reasm (fst (prefix_of g p)) = peer_reasm p"
    "akind g \<noteq> KAck" "akind g \<noteq> KHello"
  using assms
  by (auto simp: prefix_of_def fragment_of_def rx_hello_def rx_piggyback_def split: option.splits)

lemma receive_seen:
  assumes "fragment_of cs k seq g" "k \<noteq> KHello" "k \<noteq> KAck" "seq \<in> set (peer_seen p)"
  shows "rx_deliver (snd (peer_receive cfg g now to_us p)) = None \<and>
    rx_duplicate (snd (peer_receive cfg g now to_us p)) \<and>
    seq \<in> set (peer_seen (fst (peer_receive cfg g now to_us p)))"
  using assms plain_prefix [OF assms(1-3)]
  by (auto simp: peer_receive_def prefix_of_def [symmetric] case_prod_beta rx_seen_def fragment_of_def Let_def)

lemma receive_all_seen:
  "list_all (\<lambda>e. fragment_of cs k seq (fst e)) gs \<Longrightarrow> k \<noteq> KHello \<Longrightarrow> k \<noteq> KAck \<Longrightarrow>
     seq \<in> set (peer_seen p) \<Longrightarrow> receive_all cfg p gs = []"
proof (induction gs arbitrary: p)
  case (Cons e gs)
  obtain g now to_us where e: "e = (g, now, to_us)" by (metis prod_cases3)
  obtain p' out where r: "peer_receive cfg g now to_us p = (p', out)" by force
  have "fragment_of cs k seq g" using Cons.prems e by simp
  from receive_seen [OF this Cons.prems(2-4), of cfg now to_us] r
  have "rx_deliver out = None" "seq \<in> set (peer_seen p')" by auto
  with Cons e r show ?case by simp
qed simp

lemma store_fragment_parts:
  assumes "fragment_of cs k seq g"
    and "case old of None \<Rightarrow> I = {} | Some r \<Rightarrow> ra_kind r = k \<and> ra_parts r = collected cs I"
  shows "ra_parts (store_fragment g want now old) = collected cs (insert (unat (frag_index g)) I)"
    and "ra_kind (store_fragment g want now old) = k"
  using assms
  by (auto simp: store_fragment_def fresh_reassembly_def fragment_of_def Let_def collected_none
      collected_insert split: option.splits)

lemma make_room_own: "map_of (fst (make_room cap f k m)) k = map_of m k"
  by (auto simp: make_room_def split: option.splits)

lemma receive_part:
  assumes g: "fragment_of cs k seq g" and k: "k \<noteq> KHello" "k \<noteq> KAck"
    and c: "collecting cs k seq I p" and I: "I \<subseteq> {..<length cs}"
    and n: "2 \<le> length cs" and sz: "\<forall>c \<in> set cs. length c \<le> max_payload cfg"
  defines "I' \<equiv> insert (unat (frag_index g)) I"
  shows "I' \<noteq> {..<length cs} \<Longrightarrow>
      rx_deliver (snd (peer_receive cfg g now to_us p)) = None \<and>
      collecting cs k seq I' (fst (peer_receive cfg g now to_us p))"
    and "I' = {..<length cs} \<Longrightarrow> 0 < dedup_window cfg \<Longrightarrow>
      (\<exists>d. rx_deliver (snd (peer_receive cfg g now to_us p)) = Some d \<and> akind d = k \<and>
         aseq d = seq \<and> payload d = concat cs) \<and>
      seq \<in> set (peer_seen (fst (peer_receive cfg g now to_us p)))"
proof -
  let ?p = "fst (prefix_of g p)"
  note pre = plain_prefix [OF g k]
  let ?r = "fst (make_room (max_reasm cfg) ra_started seq (peer_reasm ?p))"
  let ?want = "to_us \<and> wants_ack g"
  let ?entry = "store_fragment g ?want now (map_of ?r seq)"
  have i: "unat (frag_index g) < length cs" and s: "aseq g = seq"
    and ft: "unat (frag_total g) = length cs"
    using g by (simp_all add: fragment_of_def)
  have "map_of ?r seq = map_of (peer_reasm p) seq" by (simp add: make_room_own pre)
  with c have "case map_of ?r seq of None \<Rightarrow> I = {} | Some r \<Rightarrow> ra_kind r = k \<and> ra_parts r = collected cs I"
    by (simp add: collecting_def)
  from store_fragment_parts [OF g this] have
    e: "ra_parts ?entry = collected cs I'" "ra_kind ?entry = k" by (simp_all add: I'_def)
  have I': "I' \<subseteq> {..<length cs}" using I i by (auto simp: I'_def)
  have fit: "\<not> max_payload cfg < length (payload g)"
    using sz g i by (auto simp: fragment_of_def not_less)
  have one: "frag_total g \<noteq> 1" using ft n by auto
  have unseen: "seq \<notin> set (peer_seen ?p)" using c by (simp add: collecting_def pre)
  have body: "peer_receive cfg g now to_us p =
      (let (p3, d) = rx_fragment cfg g now to_us ?p
       in (p3, \<lparr>rx_deliver = d, rx_transmit = snd (prefix_of g p), rx_duplicate = False\<rparr>))"
    using pre one unseen s by (simp add: peer_receive_def prefix_of_def [symmetric] case_prod_beta Let_def)
  {
    assume a: "I' \<noteq> {..<length cs}"
    have inc: "\<not> list_all (\<lambda>x. x \<noteq> None) (ra_parts ?entry)"
      using collected_complete [OF I'] a e by simp
    show "rx_deliver (snd (peer_receive cfg g now to_us p)) = None \<and>
        collecting cs k seq I' (fst (peer_receive cfg g now to_us p))"
      using inc fit s unseen e unfolding body rx_fragment_def Let_def
      by (auto simp: collecting_def)
  next
    assume a: "I' = {..<length cs}" and w: "0 < dedup_window cfg"
    have "list_all (\<lambda>x. x \<noteq> None) (ra_parts ?entry)"
      using collected_complete [OF I'] a e by simp
    then show "(\<exists>d. rx_deliver (snd (peer_receive cfg g now to_us p)) = Some d \<and> akind d = k \<and>
         aseq d = seq \<and> payload d = concat cs) \<and>
      seq \<in> set (peer_seen (fst (peer_receive cfg g now to_us p)))"
      using fit s e w a unfolding body rx_fragment_def Let_def
      by (auto simp: with_flags_def airc_new_def collected_all remember_seq_mem)
  }
qed

text \<open>
  However the fragments of one message arrive, in any order, repeated, flagged as retries or not,
  the message is delivered exactly once, whole.
\<close>

lemma receive_all_once:
  assumes "list_all (\<lambda>e. fragment_of cs k seq (fst e)) gs"
    and "k \<noteq> KHello" "k \<noteq> KAck" and "collecting cs k seq I p"
    and "I \<subseteq> {..<length cs}" "2 \<le> length cs" "\<forall>c \<in> set cs. length c \<le> max_payload cfg"
    and "0 < dedup_window cfg"
    and "I \<noteq> {..<length cs}"
    and "I \<union> (\<lambda>e. unat (frag_index (fst e))) ` set gs = {..<length cs}"
  shows "\<exists>d. receive_all cfg p gs = [d] \<and> akind d = k \<and> aseq d = seq \<and> payload d = concat cs"
  using assms(1,4,5,9,10)
proof (induction gs arbitrary: p I)
  case Nil
  then show ?case by simp
next
  case (Cons e gs)
  obtain g now to_us where e: "e = (g, now, to_us)" by (metis prod_cases3)
  obtain p' out where r: "peer_receive cfg g now to_us p = (p', out)" by force
  define I' where "I' = insert (unat (frag_index g)) I"
  have g: "fragment_of cs k seq g" and gs: "list_all (\<lambda>e. fragment_of cs k seq (fst e)) gs"
    using Cons.prems(1) e by simp_all
  have i: "unat (frag_index g) < length cs" using g by (simp add: fragment_of_def)
  note step = receive_part [OF g assms(2,3) Cons.prems(2,3) assms(6,7), of now to_us]
  show ?case
  proof (cases "I' = {..<length cs}")
    case True
    from step(2) [folded I'_def, OF True assms(8)] r obtain d where
      d: "rx_deliver out = Some d" "akind d = k" "aseq d = seq" "payload d = concat cs"
      and s: "seq \<in> set (peer_seen p')" by auto
    from receive_all_seen [OF gs assms(2,3) s] d e r show ?thesis by simp
  next
    case False
    from step(1) [folded I'_def, OF False] r have
      d: "rx_deliver out = None" and c: "collecting cs k seq I' p'" by auto
    have "I' \<subseteq> {..<length cs}" using Cons.prems(3) i by (auto simp: I'_def)
    moreover have "I' \<union> (\<lambda>e. unat (frag_index (fst e))) ` set gs = {..<length cs}"
      using Cons.prems(5) e by (auto simp: I'_def)
    ultimately show ?thesis using Cons.IH [OF gs c _ False] d e r by simp
  qed
qed

lemma receive_single:
  assumes "fragment_of cs k seq g" "k \<noteq> KHello" "k \<noteq> KAck" "length cs = 1"
    and "seq \<notin> set (peer_seen p)" "0 < dedup_window cfg"
  shows "rx_deliver (snd (peer_receive cfg g now to_us p)) = Some g \<and>
    seq \<in> set (peer_seen (fst (peer_receive cfg g now to_us p)))"
proof -
  have "unat (frag_total g) = 1" using assms by (simp add: fragment_of_def)
  then have "unat (frag_total g) = unat (1 :: byte)" by simp
  then have "frag_total g = 1" by (rule unsigned_word_eqI)
  then show ?thesis using assms plain_prefix [OF assms(1-3)]
    by (auto simp: peer_receive_def prefix_of_def [symmetric] case_prod_beta rx_single_def fragment_of_def
        Let_def remember_seq_mem)
qed

lemma exactly_once:
  assumes fr: "list_all (\<lambda>e. fragment_of cs k seq (fst e)) gs"
    and k: "k \<noteq> KHello" "k \<noteq> KAck"
    and new: "seq \<notin> set (peer_seen p)" "map_of (peer_reasm p) seq = None"
    and sz: "cs \<noteq> []" "\<forall>c \<in> set cs. length c \<le> max_payload cfg"
    and w: "0 < dedup_window cfg"
    and all: "(\<lambda>e. unat (frag_index (fst e))) ` set gs = {..<length cs}"
  shows "\<exists>d. receive_all cfg p gs = [d] \<and> akind d = k \<and> aseq d = seq \<and> payload d = concat cs"
proof (cases "length cs = 1")
  case False
  with sz have n: "2 \<le> length cs" by (cases cs) (auto simp: Suc_le_eq)
  have c: "collecting cs k seq {} p" using new by (simp add: collecting_def)
  have "0 \<in> {..<length cs}" using n by auto
  then have "{} \<noteq> {..<length cs}" by blast
  from receive_all_once [OF fr k c _ n sz(2) w this] all show ?thesis by simp
next
  case True
  have "0 \<in> {..<length cs}" using True by simp
  then have "0 \<in> (\<lambda>e. unat (frag_index (fst e))) ` set gs" unfolding all .
  then obtain x gs' where "gs = x # gs'" by (cases gs) auto
  moreover obtain g now to_us where "x = (g, now, to_us)" by (rule prod_cases3)
  ultimately have e: "gs = (g, now, to_us) # gs'" by simp
  have g: "fragment_of cs k seq g" and gs: "list_all (\<lambda>e. fragment_of cs k seq (fst e)) gs'"
    using fr e by simp_all
  obtain p' out where r: "peer_receive cfg g now to_us p = (p', out)" by force
  from receive_single [OF g k True new(1) w, of now to_us] r have
    d: "rx_deliver out = Some g" "seq \<in> set (peer_seen p')" by auto
  have "concat cs = payload g" using g True by (cases cs) (auto simp: fragment_of_def)
  with receive_all_seen [OF gs k d(2)] d e r g show ?thesis by (simp add: fragment_of_def)
qed

end
