(* ===== verification/Airc_Session_Inv.thy ===== *)
theory Airc_Session_Inv
  imports Airc_Session_Proofs
begin

text \<open>
  The invariant of the session layer (\<open>src/src/airc/session.rs\<close>) and its preservation by every
  method of \<open>Sessions\<close>: every table and queue within its configured bound, one message in flight
  per station and nothing queued behind a station with none, each message in flight or queued a
  set of fragments that fit the information field, and the outbound sequence number never zero.
\<close>

section \<open>The invariant\<close>

text \<open>A message as it is stored for transmission: 1 to 255 well-formed frames of one sequence number,
  each asking for an acknowledgement and each within the payload bound.\<close>

definition msg_ok :: "session_config \<Rightarrow> airc_frame list \<Rightarrow> bool" where
  "msg_ok cfg fs \<longleftrightarrow> fs \<noteq> [] \<and> length fs \<le> 255 \<and>
     (\<forall>f \<in> set fs. airc_wf f \<and> wants_ack f \<and> piggyback_seq f = None \<and> aseq f = aseq (hd fs)
        \<and> length (payload f) \<le> max_payload cfg)"

definition pending_ok :: "session_config \<Rightarrow> pending \<Rightarrow> bool" where
  "pending_ok cfg pd \<longleftrightarrow> msg_ok cfg (pd_frames pd) \<and> length (pd_acked pd) = length (pd_frames pd)
     \<and> \<not> list_all id (pd_acked pd) \<and> pd_attempts pd \<le> max_retries cfg"

definition reassembly_ok :: "session_config \<Rightarrow> reassembly \<Rightarrow> bool" where
  "reassembly_ok cfg r \<longleftrightarrow> \<not> list_all (\<lambda>x. x \<noteq> None) (ra_parts r) \<and> length (ra_parts r) \<le> 255
     \<and> (\<forall>b. Some b \<in> set (ra_parts r) \<longrightarrow> length b \<le> max_payload cfg)"

definition reasm_ok :: "session_config \<Rightarrow> (u16, reassembly) table \<Rightarrow> bool" where
  "reasm_ok cfg m \<longleftrightarrow> table_ok m \<and> length m \<le> max 1 (max_reasm cfg)
     \<and> (\<forall>s r. map_of m s = Some r \<longrightarrow> reassembly_ok cfg r)"

definition outbox_ok :: "session_config \<Rightarrow> pending option \<Rightarrow> airc_frame list list \<Rightarrow> bool" where
  "outbox_ok cfg pend q \<longleftrightarrow> length q \<le> max_queue cfg \<and> (\<forall>m \<in> set q. msg_ok cfg m)
     \<and> (case pend of None \<Rightarrow> q = [] | Some pd \<Rightarrow> pending_ok cfg pd)"

definition peer_ok :: "session_config \<Rightarrow> callsign \<Rightarrow> peer \<Rightarrow> bool" where
  "peer_ok cfg c p \<longleftrightarrow> peer_call p = c \<and> length (peer_seen p) \<le> dedup_window cfg
     \<and> outbox_ok cfg (peer_pending p) (peer_queue p) \<and> reasm_ok cfg (peer_reasm p)"

definition peers_ok :: "session_config \<Rightarrow> (callsign, peer) table \<Rightarrow> bool" where
  "peers_ok cfg ps \<longleftrightarrow> table_ok ps \<and> length ps \<le> max_peers cfg
     \<and> (\<forall>c p. map_of ps c = Some p \<longrightarrow> peer_ok cfg c p)"

definition sessions_ok :: "sessions \<Rightarrow> bool" where
  "sessions_ok s \<longleftrightarrow> peers_ok (ss_config s) (ss_peers s) \<and> ss_next_seq s \<noteq> 0"

section \<open>The table of stations\<close>

lemma peers_ok_update:
  assumes "peers_ok cfg ps" "peer_ok cfg c p" "has_key ps c \<or> length ps < max_peers cfg"
  shows "peers_ok cfg (AList.update c p ps)"
  using assms by (auto simp: peers_ok_def length_update split: if_splits)

lemma peers_ok_delete: "peers_ok cfg ps \<Longrightarrow> peers_ok cfg (AList.delete c ps)"
  using length_delete_le [of c ps] by (auto simp: peers_ok_def split: if_splits)

lemma peers_ok_deletes: "peers_ok cfg ps \<Longrightarrow> peers_ok cfg (fold AList.delete cs ps)"
  by (induction cs arbitrary: ps) (auto intro: peers_ok_delete)

lemma map_of_map_snd: "map_of (map (\<lambda>(c, p). (c, g c p)) ps) c = map_option (g c) (map_of ps c)"
  by (induction ps) auto

lemma peers_ok_map:
  assumes "peers_ok cfg ps" "\<And>c p. peer_ok cfg c p \<Longrightarrow> peer_ok cfg c (g c p)"
  shows "peers_ok cfg (map (\<lambda>(c, p). (c, g c p)) ps)"
proof -
  have "map fst (map (\<lambda>(c, p). (c, g c p)) ps) = map fst ps"
    by (induction ps) auto
  then have "table_ok (map (\<lambda>(c, p). (c, g c p)) ps) = table_ok ps"
    by (simp only: table_ok_def)
  then show ?thesis using assms by (auto simp: peers_ok_def map_of_map_snd)
qed

section \<open>Operations on one station\<close>

lemma peer_new_ok [wf_intros]: "peer_ok cfg c (peer_new c now)"
  by (simp add: peer_ok_def peer_new_def outbox_ok_def reasm_ok_def)

lemma peer_ok_frame [wf_intros]:
  assumes "peer_ok cfg c p" "peer_call q = peer_call p" "peer_seen q = peer_seen p"
    "peer_pending q = peer_pending p" "peer_queue q = peer_queue p" "peer_reasm q = peer_reasm p"
  shows "peer_ok cfg c q"
  using assms by (simp add: peer_ok_def)

lemma note_airc_ok [wf_intros]: "peer_ok cfg c p \<Longrightarrow> peer_ok cfg c (note_airc p)"
  by (erule peer_ok_frame) (simp_all add: note_airc_def)

lemma note_aprs_ok [wf_intros]: "peer_ok cfg c p \<Longrightarrow> peer_ok cfg c (note_aprs p)"
  by (erule peer_ok_frame) (simp_all add: note_aprs_def)

lemma mark_kicked_ok [wf_intros]: "peer_ok cfg c p \<Longrightarrow> peer_ok cfg c (mark_kicked ch p)"
  by (erule peer_ok_frame) (simp_all add: mark_kicked_def)

lemma clear_kicked_ok [wf_intros]: "peer_ok cfg c p \<Longrightarrow> peer_ok cfg c (clear_kicked ch p)"
  by (erule peer_ok_frame) (simp_all add: clear_kicked_def)

lemma owe_ack_ok [wf_intros]: "peer_ok cfg c p \<Longrightarrow> peer_ok cfg c (owe_ack seq b p)"
  by (erule peer_ok_frame) (simp_all add: owe_ack_def)

lemma give_back_ok [wf_intros]: "peer_ok cfg c p \<Longrightarrow> peer_ok cfg c (give_back piggy p)"
  by (auto simp: give_back_def split: option.splits intro: owe_ack_ok)

lemma take_piggy_ok [wf_intros]: "peer_ok cfg c p \<Longrightarrow> peer_ok cfg c (snd (take_piggy cfg rel p))"
  by (erule peer_ok_frame) (simp_all add: take_piggy_def split: option.splits)

lemma remember_seq_ok [wf_intros]: "peer_ok cfg c p \<Longrightarrow> peer_ok cfg c (remember_seq seq (dedup_window cfg) p)"
  by (auto simp: peer_ok_def remember_seq_def Let_def)

lemma not_all_replicate: "n \<noteq> 0 \<Longrightarrow> \<not> list_all id (replicate n False)"
  by (cases n) auto

lemma pending_fresh:
  "msg_ok cfg fs \<Longrightarrow> pending_ok cfg \<lparr>pd_frames = fs, pd_acked = replicate (length fs) False,
     pd_attempts = 0, pd_next_retry = None\<rparr>"
proof -
  assume m: "msg_ok cfg fs"
  then have "length fs \<noteq> 0" by (simp add: msg_ok_def)
  then show ?thesis by (simp add: pending_ok_def not_all_replicate m del: length_0_conv length_greater_0_conv)
qed

lemma start_pending_ok [wf_intros]:
  assumes "peer_ok cfg c p" "msg_ok cfg fs"
  shows "peer_ok cfg c (fst (start_pending p fs))"
proof -
  have "length (peer_queue p) \<le> max_queue cfg \<and> (\<forall>m \<in> set (peer_queue p). msg_ok cfg m)"
    using assms(1) by (auto simp: peer_ok_def outbox_ok_def)
  with assms pending_fresh [OF assms(2)] show ?thesis
    by (simp add: peer_ok_def start_pending_def outbox_ok_def)
qed

lemma next_queued_ok:
  assumes "peer_ok cfg c p" "peer_queue p = m # rest"
  shows "peer_ok cfg c (fst (start_pending (p\<lparr>peer_pending := x, peer_dropped := d, peer_queue := rest\<rparr>) m))"
proof -
  have q: "length rest \<le> max_queue cfg" "\<forall>m \<in> set rest. msg_ok cfg m" and m: "msg_ok cfg m"
    using assms by (auto simp: peer_ok_def outbox_ok_def)
  from assms(1) q pending_fresh [OF m] show ?thesis
    by (simp add: peer_ok_def start_pending_def outbox_ok_def)
qed

lemma release_next_ok [wf_intros]: "peer_ok cfg c p \<Longrightarrow> peer_ok cfg c (fst (release_next p))"
proof (cases "peer_queue p")
  case Nil
  then show "peer_ok cfg c p \<Longrightarrow> peer_ok cfg c (fst (release_next p))"
    by (auto simp: peer_ok_def release_next_def outbox_ok_def split: option.splits)
next
  case (Cons m rest)
  then show "peer_ok cfg c p \<Longrightarrow> peer_ok cfg c (fst (release_next p))"
    using next_queued_ok [where x = None and d = "peer_dropped p", of cfg c p m rest] by (simp add: release_next_def Let_def)
qed

lemma release_next_pending: "release_next (p\<lparr>peer_pending := x\<rparr>) = release_next p"
  by (simp add: release_next_def)

lemma pending_replace_ok:
  assumes "peer_ok cfg c p" "peer_pending p = Some pd" "pending_ok cfg pd'"
  shows "peer_ok cfg c (p\<lparr>peer_pending := Some pd'\<rparr>)"
  using assms by (simp add: peer_ok_def outbox_ok_def)

lemma length_merge_bitmap [simp]: "length (merge_bitmap bits acked) = length acked"
  by (simp add: merge_bitmap_def)

lemma apply_ack_ok [wf_intros]:
  assumes "peer_ok cfg c p"
  shows "peer_ok cfg c (fst (apply_ack p seq bitmap))"
proof (cases "peer_pending p")
  case (Some pd)
  then have pd: "pending_ok cfg pd" using assms by (simp add: peer_ok_def outbox_ok_def)
  have "pending_ok cfg (pd\<lparr>pd_acked := merge_bitmap bits (pd_acked pd)\<rparr>)"
    "pending_ok cfg (pd\<lparr>pd_acked := merge_bitmap bits (pd_acked pd), pd_attempts := 0, pd_next_retry := None\<rparr>)"
    if "\<not> list_all id (merge_bitmap bits (pd_acked pd))" for bits
    using pd that by (simp_all add: pending_ok_def)
  note repl = pending_replace_ok [OF assms Some this(1)] pending_replace_ok [OF assms Some this(2)]
  show ?thesis
    using assms Some repl release_next_ok [OF assms]
    by (simp add: apply_ack_def Let_def release_next_pending split: option.splits if_splits)
qed (use assms in \<open>simp add: apply_ack_def\<close>)

lemma rx_hello_ok [wf_intros]: "peer_ok cfg c p \<Longrightarrow> peer_ok cfg c (rx_hello f p)"
  by (auto simp: rx_hello_def peer_ok_def outbox_ok_def reasm_ok_def)

lemma rx_piggyback_ok [wf_intros]: "peer_ok cfg c p \<Longrightarrow> peer_ok cfg c (fst (rx_piggyback f p))"
  by (auto simp: rx_piggyback_def split: option.splits intro: apply_ack_ok)

lemma rx_ack_ok [wf_intros]: "peer_ok cfg c p \<Longrightarrow> peer_ok cfg c (fst (rx_ack f p))"
  by (auto simp: rx_ack_def split: option.splits intro: apply_ack_ok)

lemma rx_seen_ok [wf_intros]: "peer_ok cfg c p \<Longrightarrow> peer_ok cfg c (fst (rx_seen f to_us p))"
  by (auto simp: rx_seen_def Let_def intro: owe_ack_ok)

lemma rx_single_ok [wf_intros]: "peer_ok cfg c p \<Longrightarrow> peer_ok cfg c (fst (rx_single cfg f to_us p))"
  by (auto simp: rx_single_def Let_def intro: owe_ack_ok remember_seq_ok)

lemma store_fragment_ok:
  assumes "\<And>r. old = Some r \<Longrightarrow> reassembly_ok cfg r" "length (payload f) \<le> max_payload cfg"
    and "\<not> list_all (\<lambda>x. x \<noteq> None) (ra_parts (store_fragment f want now old))"
  shows "reassembly_ok cfg (store_fragment f want now old)"
proof -
  have n: "unat (frag_total f) \<le> 255" using unat_byte_bound [of "frag_total f"] by linarith
  show ?thesis
    using assms n
    by (auto simp: reassembly_ok_def store_fragment_def fresh_reassembly_def Let_def
        split: option.splits if_splits dest!: set_update_subset_insert [THEN subsetD])
qed

lemma reasm_ok_put:
  assumes "reasm_ok cfg m" "reassembly_ok cfg e"
  shows "reasm_ok cfg (AList.update s e (fst (make_room (max_reasm cfg) f s m)))"
  using assms make_room_put_max [of m "max_reasm cfg" s e f]
  by (auto simp: reasm_ok_def dest: make_room_values)

lemma reasm_ok_drop:
  assumes "reasm_ok cfg m"
  shows "reasm_ok cfg (AList.delete s (AList.update s e (fst (make_room cap f s m))))"
proof -
  have "AList.delete s (AList.update s e m') = AList.delete s m'" for m' :: "(u16, reassembly) table"
    by (induction m') auto
  moreover have "length (AList.delete s (fst (make_room cap f s m))) \<le> max 1 (max_reasm cfg)"
    using length_delete_le [of s "fst (make_room cap f s m)"] make_room_shrinks [of cap f s m] assms
    by (simp add: reasm_ok_def)
  ultimately show ?thesis using assms
    by (auto simp: reasm_ok_def dest: make_room_values split: if_splits)
qed

lemma peer_reasm_replace:
  "peer_ok cfg c p \<Longrightarrow> reasm_ok cfg m \<Longrightarrow> peer_ok cfg c (p\<lparr>peer_reasm := m\<rparr>)"
  by (simp add: peer_ok_def)

lemma rx_fragment_ok [wf_intros]:
  assumes "peer_ok cfg c p"
  shows "peer_ok cfg c (fst (rx_fragment cfg f now to_us p))"
proof (cases "max_payload cfg < length (payload f)")
  case False
  define want where "want = (to_us \<and> wants_ack f)"
  define m where "m = fst (make_room (max_reasm cfg) ra_started (aseq f) (peer_reasm p))"
  define e where "e = store_fragment f want now (map_of m (aseq f))"
  have r: "reasm_ok cfg (peer_reasm p)" using assms by (simp add: peer_ok_def)
  have old: "map_of m (aseq f) = Some r \<Longrightarrow> reassembly_ok cfg r" for r
    using r by (auto simp: reasm_ok_def m_def dest: make_room_values)
  have new: "reassembly_ok cfg e" if "\<not> list_all (\<lambda>x. x \<noteq> None) (ra_parts e)"
    unfolding e_def by (rule store_fragment_ok [OF old]) (use False that in \<open>simp_all add: e_def\<close>)
  have put: "peer_ok cfg c (p\<lparr>peer_reasm := AList.update (aseq f) e m\<rparr>)"
    if "\<not> list_all (\<lambda>x. x \<noteq> None) (ra_parts e)"
    unfolding m_def by (rule peer_reasm_replace [OF assms reasm_ok_put [OF r new [OF that]]])
  have drop: "peer_ok cfg c (p\<lparr>peer_reasm := AList.delete (aseq f) (AList.update (aseq f) e m)\<rparr>)"
    unfolding m_def by (rule peer_reasm_replace [OF assms reasm_ok_drop [OF r]])
  show ?thesis
    unfolding rx_fragment_def Let_def want_def [symmetric] m_def [symmetric] e_def [symmetric]
    using False put drop by (simp add: owe_ack_ok remember_seq_ok)
qed (use assms in \<open>simp add: rx_fragment_def\<close>)

lemma peer_receive_ok [wf_intros]:
  assumes "peer_ok cfg c p"
  shows "peer_ok cfg c (fst (peer_receive cfg f now to_us p))"
proof -
  have "peer_ok cfg c (fst (rx_piggyback f (rx_hello f (note_airc p))))"
    by (intro rx_piggyback_ok rx_hello_ok note_airc_ok assms)
  then show ?thesis
    by (simp add: peer_receive_def Let_def case_prod_beta rx_ack_ok rx_seen_ok rx_single_ok rx_fragment_ok)
qed

lemma make_frames_msg_ok:
  assumes "cs \<noteq> []" "length cs \<le> 255" "\<forall>c \<in> set cs. length c \<le> max_payload cfg"
  shows "msg_ok cfg (make_frames k seq True cs)"
proof -
  have h: "hd (make_frames k seq True cs) = make_frames k seq True cs ! 0"
    using assms(1) by (metis hd_conv_nth length_0_conv length_make_frames)
  then have "aseq (hd (make_frames k seq True cs)) = seq"
    using assms by (simp add: make_frames_nth)
  moreover have "make_frames k seq True cs \<noteq> []"
    using assms(1) by (metis length_0_conv length_make_frames)
  ultimately show ?thesis using assms
    by (auto simp: msg_ok_def in_set_conv_nth [of _ "make_frames k seq True cs"] make_frames_nth)
qed

lemma peer_enqueue_ok [wf_intros]:
  assumes "peer_ok cfg c p0"
  shows "peer_ok cfg c (fst (peer_enqueue cfg k seq body rel p0))"
proof -
  let ?pg = "fst (take_piggy cfg rel p0)" and ?p = "snd (take_piggy cfg rel p0)"
  let ?cs = "chunk_payload body (max_payload cfg) (?pg \<noteq> None)"
  have p: "peer_ok cfg c ?p" by (rule take_piggy_ok [OF assms])
  note g = give_back_ok [OF p, of ?pg]
  have d: "peer_ok cfg c (q\<lparr>peer_dropped := n\<rparr>)" if "peer_ok cfg c q" for q n
    using that by (rule peer_ok_frame) simp_all
  have same: "peer_pending (give_back ?pg ?p) = peer_pending ?p" "peer_queue (give_back ?pg ?p) = peer_queue ?p"
    by (simp_all add: give_back_def owe_ack_def split: option.splits)
  show ?thesis
  proof (cases "255 < length ?cs \<or> \<not> rel")
    case True
    then show ?thesis using p d [OF g] by (auto simp: peer_enqueue_def case_prod_beta Let_def)
  next
    case False
    have m: "msg_ok cfg (make_frames k seq rel ?cs)"
      using False chunk_payload_sizes [OF max_payload_pos] by (auto intro: make_frames_msg_ok)
    have q: "peer_ok cfg c (r\<lparr>peer_queue := peer_queue r @ [make_frames k seq rel ?cs]\<rparr>)"
      if "peer_ok cfg c r" "peer_pending r \<noteq> None" "length (peer_queue r) < max_queue cfg" for r
      using that m by (auto simp: peer_ok_def outbox_ok_def)
    show ?thesis
      using False start_pending_ok [OF p m] d [OF g] q [OF g] same
      by (auto simp: peer_enqueue_def case_prod_beta Let_def not_le)
  qed
qed

lemma tick_peer_fst:
  "fst (tick_peer cfg now retry p) = fst (expire_reasm cfg now p) \<or>
     (\<exists>pd. peer_pending p = Some pd \<and> pd_attempts pd < max_retries cfg \<and>
        fst (tick_peer cfg now retry p) = (fst (expire_reasm cfg now p))\<lparr>peer_pending :=
          Some (pd\<lparr>pd_attempts := pd_attempts pd + 1,
            pd_next_retry := Some (now + backoff cfg (pd_attempts pd + 1))\<rparr>)\<rparr>)"
proof -
  have e: "peer_pending (fst (expire_reasm cfg now p)) = peer_pending p"
    by (simp add: expire_reasm_def)
  show ?thesis
    by (cases "peer_pending p")
       (auto simp: tick_peer_def case_prod_beta Let_def e not_le split: option.splits)
qed

lemma expire_reasm_ok [wf_intros]: "peer_ok cfg c p \<Longrightarrow> peer_ok cfg c (fst (expire_reasm cfg now p))"
  by (auto simp: expire_reasm_def peer_ok_def reasm_ok_def map_of_filter_key
      intro: le_trans [OF length_filter_le] split: option.splits if_splits)

lemma tick_peer_ok [wf_intros]:
  assumes "peer_ok cfg c p"
  shows "peer_ok cfg c (fst (tick_peer cfg now retry p))"
  using tick_peer_fst [of cfg now retry p]
proof (elim disjE exE conjE)
  fix pd
  assume pd: "peer_pending p = Some pd" "pd_attempts pd < max_retries cfg"
    and e: "fst (tick_peer cfg now retry p) = (fst (expire_reasm cfg now p))\<lparr>peer_pending :=
      Some (pd\<lparr>pd_attempts := pd_attempts pd + 1,
        pd_next_retry := Some (now + backoff cfg (pd_attempts pd + 1))\<rparr>)\<rparr>"
  have "peer_pending (fst (expire_reasm cfg now p)) = Some pd" using pd by (simp add: expire_reasm_def)
  moreover have "pending_ok cfg pd" using assms pd by (simp add: peer_ok_def outbox_ok_def)
  ultimately show ?thesis
    unfolding e using pd(2) expire_reasm_ok [OF assms, of now]
    by (intro pending_replace_ok) (auto simp: pending_ok_def)
qed (simp add: expire_reasm_ok [OF assms])

section \<open>Operations on the table\<close>

lemma sessions_new_ok: "sessions_ok (sessions_new cfg)"
  by (simp add: sessions_ok_def sessions_new_def peers_ok_def)

lemma set_peer_ok [wf_intros]:
  "sessions_ok s \<Longrightarrow> peer_ok (ss_config s) c p \<Longrightarrow> get_peer s c \<noteq> None \<Longrightarrow> sessions_ok (set_peer c p s)"
  by (simp add: sessions_ok_def set_peer_def get_peer_def peers_ok_update)

lemma last_heard_ok: "peer_ok cfg c p \<Longrightarrow> peer_ok cfg c (p\<lparr>last_heard := now\<rparr>)"
  by (erule peer_ok_frame) simp_all

lemma touch_ok:
  assumes "sessions_ok s" "touch c now s = Some (p, s')"
  shows "sessions_ok s' \<and> peer_ok (ss_config s) c p \<and> get_peer s' c = Some p \<and> ss_config s' = ss_config s"
proof -
  let ?p0 = "case get_peer s c of Some p \<Rightarrow> p | None \<Rightarrow> peer_new c now"
  have e: "p = ?p0\<lparr>last_heard := now\<rparr>" "s' = set_peer c p s"
    and room: "get_peer s c \<noteq> None \<or> length (ss_peers s) < max_peers (ss_config s)"
    using assms(2) by (auto simp: touch_def Let_def not_le split: if_splits)
  have "peer_ok (ss_config s) c ?p0"
    using assms(1) by (auto simp: sessions_ok_def peers_ok_def get_peer_def peer_new_ok split: option.splits)
  then have p: "peer_ok (ss_config s) c p" unfolding e by (rule last_heard_ok)
  moreover have "sessions_ok s'"
    using assms(1) p room unfolding e(2)
    by (simp add: sessions_ok_def set_peer_def get_peer_def peers_ok_update)
  ultimately show ?thesis by (simp add: e(2) set_peer_def get_peer_def)
qed

lemma peers_ok_room: "peers_ok cfg ps \<Longrightarrow> peers_ok cfg (fst (make_room cap f c ps))"
  using make_room_shrinks [of cap f c ps] by (auto simp: peers_ok_def dest: make_room_values)

lemma force_touch_ok:
  assumes "sessions_ok s"
  shows "sessions_ok (snd (force_touch c now s))" (is ?a)
    and "fst (force_touch c now s) = Some p \<Longrightarrow> peer_ok (ss_config s) c p
      \<and> get_peer (snd (force_touch c now s)) c = Some p" (is "_ \<Longrightarrow> ?b")
    and "ss_config (snd (force_touch c now s)) = ss_config s" (is ?c)
proof -
  define s1 where "s1 = s\<lparr>ss_peers := fst (make_room (max_peers (ss_config s)) last_heard c (ss_peers s)),
    ss_evicted := ss_evicted s @ (case snd (make_room (max_peers (ss_config s)) last_heard c (ss_peers s))
      of Some k \<Rightarrow> [k] | None \<Rightarrow> [])\<rparr>"
  have s1: "sessions_ok s1" using assms by (simp add: sessions_ok_def s1_def peers_ok_room)
  have cfg: "ss_config s1 = ss_config s" by (simp add: s1_def)
  have f: "force_touch c now s = (if max_peers (ss_config s) = 0 then (None, s)
      else (case touch c now s1 of Some (p, s2) \<Rightarrow> (Some p, s2) | None \<Rightarrow> (None, s1)))"
    by (simp only: force_touch_def Let_def case_prod_beta s1_def)
  have "?a \<and> ?c \<and> (fst (force_touch c now s) = Some p \<longrightarrow> ?b)"
  proof (cases "touch c now s1")
    case None
    then show ?thesis using assms s1 cfg unfolding f by simp
  next
    case (Some ps)
    obtain q s2 where ps: "ps = (q, s2)" by force
    from touch_ok [OF s1 Some [unfolded ps]] cfg have
      t: "sessions_ok s2" "peer_ok (ss_config s) c q" "get_peer s2 c = Some q" "ss_config s2 = ss_config s"
      by auto
    show ?thesis using assms t Some ps unfolding f by auto
  qed
  then show ?a ?c "fst (force_touch c now s) = Some p \<Longrightarrow> ?b" by blast+
qed

text \<open>An outgoing message always finds a slot, unless the table is configured to hold nobody.\<close>

lemma force_touch_some:
  assumes "sessions_ok s" "0 < max_peers (ss_config s)"
  shows "fst (force_touch c now s) \<noteq> None"
proof -
  let ?m = "fst (make_room (max_peers (ss_config s)) last_heard c (ss_peers s))"
  have "map_of ?m c \<noteq> None \<or> length ?m < max_peers (ss_config s)"
  proof (cases "has_key (ss_peers s) c")
    case True
    then show ?thesis by (simp add: make_room_keeps)
  next
    case False
    then show ?thesis using assms
      by (intro disjI2 make_room_length) (simp_all add: sessions_ok_def peers_ok_def)
  qed
  then show ?thesis using assms(2)
    by (auto simp: force_touch_def case_prod_beta Let_def touch_def get_peer_def)
qed

lemma on_receive_ok [wf_intros]:
  assumes "sessions_ok s"
  shows "sessions_ok (snd (on_receive src f now to_us s))"
proof (cases "touch src now s")
  case (Some ps)
  obtain p s1 where ps: "ps = (p, s1)" by force
  from touch_ok [OF assms Some [unfolded ps]] have
    t: "sessions_ok s1" "peer_ok (ss_config s) src p" "get_peer s1 src = Some p" "ss_config s1 = ss_config s"
    by auto
  have "sessions_ok (set_peer src (fst (peer_receive (ss_config s) f now to_us p)) s1)"
    using t by (intro set_peer_ok) (simp_all add: peer_receive_ok)
  then show ?thesis by (simp add: on_receive_def Some ps case_prod_beta Let_def)
qed (use assms in \<open>simp add: on_receive_def\<close>)

lemma next_seq_ok [wf_intros]: "sessions_ok s \<Longrightarrow> sessions_ok (snd (next_seq s))"
  by (simp add: next_seq_def sessions_ok_def Let_def)

lemma enqueue_ok [wf_intros]:
  assumes "sessions_ok s"
  shows "sessions_ok (snd (enqueue dst k body rel now s))"
proof -
  let ?s1 = "snd (next_seq s)"
  have s1: "sessions_ok ?s1" and cfg: "ss_config ?s1 = ss_config s"
    using assms by (simp_all add: next_seq_ok) (simp add: next_seq_def Let_def)
  note ft = force_touch_ok [OF s1, of dst now]
  show ?thesis
  proof (cases "fst (force_touch dst now ?s1)")
    case None
    then show ?thesis using ft(1) by (simp add: enqueue_def case_prod_beta prod.case_eq_if)
  next
    case (Some p)
    have "sessions_ok (set_peer dst (fst (peer_enqueue (ss_config s) k (fst (next_seq s)) body rel p))
        (snd (force_touch dst now ?s1)))"
      using ft(1,3) ft(2) [OF Some] cfg by (intro set_peer_ok) (simp_all add: peer_enqueue_ok)
    then show ?thesis using Some by (simp add: enqueue_def case_prod_beta prod.case_eq_if Let_def)
  qed
qed

lemma drain_acks_ok [wf_intros]:
  assumes "sessions_ok s"
  shows "sessions_ok (snd (drain_acks s))"
proof -
  have "peers_ok (ss_config s) (map (\<lambda>(c, p). (c, p\<lparr>peer_owed := None\<rparr>)) (ss_peers s))"
    using assms by (intro peers_ok_map [where g = "\<lambda>c p. p\<lparr>peer_owed := None\<rparr>"])
      (simp add: sessions_ok_def, erule peer_ok_frame, simp_all)
  then show ?thesis using assms by (simp add: drain_acks_def sessions_ok_def)
qed

lemma give_up_ok:
  assumes "peers_ok cfg (fst st)"
  shows "peers_ok cfg (fst (give_up c st))"
proof (cases "map_of (fst st) c")
  case (Some p)
  then have p: "peer_ok cfg c p" using assms by (simp add: peers_ok_def)
  have "peer_ok cfg c (p\<lparr>peer_pending := None, peer_dropped := d\<rparr>)" if "peer_queue p = []" for d
    using p that by (simp add: peer_ok_def outbox_ok_def)
  then show ?thesis
    using assms Some next_queued_ok [OF p, where x = None and d = "peer_dropped p + 1"]
    by (auto simp: give_up_def case_prod_beta Let_def intro!: peers_ok_update split: list.splits)
qed (use assms in \<open>simp add: give_up_def case_prod_beta\<close>)

lemma give_ups_ok: "peers_ok cfg (fst st) \<Longrightarrow> peers_ok cfg (fst (fold give_up cs st))"
proof (induction cs arbitrary: st)
  case (Cons c cs)
  then show ?case using Cons.IH [OF give_up_ok [OF Cons.prems]] by simp
qed simp

lemma tick_retries_ok [wf_intros]:
  assumes "sessions_ok s"
  shows "sessions_ok (snd (tick_retries now retry s))"
proof -
  let ?cfg = "ss_config s"
  let ?ps = "map (\<lambda>(c, p, tx, st). (c, p)) (tick_all ?cfg now retry (ss_peers s))"
  have "?ps = map (\<lambda>(c, p). (c, fst (tick_peer ?cfg now retry p))) (ss_peers s)"
    by (simp add: tick_all_def case_prod_beta comp_def)
  moreover have "peers_ok ?cfg (map (\<lambda>(c, p). (c, fst (tick_peer ?cfg now retry p))) (ss_peers s))"
    using assms by (intro peers_ok_map [where g = "\<lambda>c p. fst (tick_peer ?cfg now retry p)"] tick_peer_ok)
      (simp add: sessions_ok_def)
  ultimately have "peers_ok ?cfg (fst (fold give_up cs (?ps, out)))" for cs out
    by (intro give_ups_ok) simp
  then show ?thesis using assms
    by (simp add: tick_retries_def case_prod_beta Let_def sessions_ok_def peers_ok_deletes)
qed

lemma session_on_keyed_ok [wf_intros]:
  assumes "sessions_ok s"
  shows "sessions_ok (session_on_keyed dest seq now s)"
proof -
  have "sessions_ok (set_peer dest (p\<lparr>peer_pending := Some (pd\<lparr>pd_next_retry := r\<rparr>)\<rparr>) s)"
    if p: "get_peer s dest = Some p" "peer_pending p = Some pd" for p pd r
  proof -
    have ok: "peer_ok (ss_config s) dest p"
      using assms p by (simp add: sessions_ok_def peers_ok_def get_peer_def)
    then have "pending_ok (ss_config s) (pd\<lparr>pd_next_retry := r\<rparr>)"
      using p by (simp add: peer_ok_def outbox_ok_def pending_ok_def)
    from pending_replace_ok [OF ok p(2) this] show ?thesis using assms p by (simp add: set_peer_ok)
  qed
  then show ?thesis using assms by (simp add: session_on_keyed_def split: option.splits)
qed

section \<open>The machine\<close>

text \<open>
  Every way the rest of the program changes a \<open>Sessions\<close>. \<open>with_peer\<close> stands for the callers that
  go through \<open>peer_mut\<close>: they mark a station kicked or readmitted, registered, its dialect or its
  channels, and touch nothing else.
\<close>

datatype session_op =
    Receive callsign airc_frame instant bool
  | Enqueue callsign kind "byte list" bool instant
  | Drain
  | Tick instant bool
  | Keyed callsign u16 instant
  | Touch callsign instant
  | ForceTouch callsign instant
  | Forget callsign
  | Ban callsign
  | LiftBan callsign
  | TakeEvicted
  | Kick callsign ustr
  | Unkick callsign ustr
  | HeardAprs callsign

definition with_peer :: "callsign \<Rightarrow> (peer \<Rightarrow> peer) \<Rightarrow> sessions \<Rightarrow> sessions" where
  "with_peer c g s = (case get_peer s c of Some p \<Rightarrow> set_peer c (g p) s | None \<Rightarrow> s)"

fun session_step :: "session_op \<Rightarrow> sessions \<Rightarrow> sessions" where
  "session_step (Receive src f now to_us) s = snd (on_receive src f now to_us s)"
| "session_step (Enqueue dst k body rel now) s = snd (enqueue dst k body rel now s)"
| "session_step Drain s = snd (drain_acks s)"
| "session_step (Tick now retry) s = snd (tick_retries now retry s)"
| "session_step (Keyed dest seq now) s = session_on_keyed dest seq now s"
| "session_step (Touch c now) s = (case touch c now s of Some (_, s') \<Rightarrow> s' | None \<Rightarrow> s)"
| "session_step (ForceTouch c now) s = snd (force_touch c now s)"
| "session_step (Forget c) s = forget c s"
| "session_step (Ban c) s = ban c s"
| "session_step (LiftBan c) s = lift_ban c s"
| "session_step TakeEvicted s = snd (take_evicted s)"
| "session_step (Kick c ch) s = with_peer c (mark_kicked ch) s"
| "session_step (Unkick c ch) s = with_peer c (clear_kicked ch) s"
| "session_step (HeardAprs c) s = with_peer c note_aprs s"

lemma with_peer_ok [wf_intros]:
  assumes "sessions_ok s" "\<And>p. peer_ok (ss_config s) c p \<Longrightarrow> peer_ok (ss_config s) c (g p)"
  shows "sessions_ok (with_peer c g s)"
proof (cases "get_peer s c")
  case (Some p)
  then have "peer_ok (ss_config s) c p"
    using assms(1) by (simp add: sessions_ok_def peers_ok_def get_peer_def)
  with Some assms show ?thesis by (simp add: with_peer_def set_peer_ok)
qed (use assms in \<open>simp add: with_peer_def\<close>)

lemma session_step_ok: "sessions_ok s \<Longrightarrow> sessions_ok (session_step x s)"
proof (cases x)
  case (Touch c now)
  then show "sessions_ok s \<Longrightarrow> sessions_ok (session_step x s)"
    using touch_ok [of s c now] by (auto split: option.splits)
qed (simp_all add: wf_intros force_touch_ok,
     auto simp: forget_def ban_def lift_ban_def take_evicted_def sessions_ok_def peers_ok_delete)

interpretation session_machine: invariant_machine session_step sessions_ok
  by unfold_locales (rule session_step_ok)

end
