(* ===== verification/Airc_Session_Spec.thy ===== *)
theory Airc_Session_Spec
  imports Airc_Session_Inv
begin

text \<open>
  The contract of the session layer, stated over the operations of \<open>Airc_Session\<close>: end-to-end
  delivery, selective repeat, stop-and-wait, broadcasts and blocked transmitters, the sequence
  space, the size of what goes on the air, and the bounds on what is remembered.
\<close>

section \<open>From the sender's queue to the receiver's application\<close>

lemma take_piggy_frame [simp]:
  "peer_pending (snd (take_piggy cfg rel p)) = peer_pending p"
  "peer_queue (snd (take_piggy cfg rel p)) = peer_queue p"
  "peer_dropped (snd (take_piggy cfg rel p)) = peer_dropped p"
  by (simp_all add: take_piggy_def split: option.splits)

lemma give_back_frame [simp]:
  "peer_pending (give_back piggy p) = peer_pending p"
  "peer_queue (give_back piggy p) = peer_queue p"
  "peer_dropped (give_back piggy p) = peer_dropped p"
  by (simp_all add: give_back_def owe_ack_def split: option.splits)

text \<open>A reliable message that is sent at once: the frames, and what is kept for retransmission.\<close>

lemma enqueue_sent:
  assumes "peer_enqueue cfg k seq body True p0 = (p1, out)" "so_frames out \<noteq> []"
  obtains piggy cs where "cs = chunk_payload body (max_payload cfg) (piggy \<noteq> None)" "length cs \<le> 255"
    "so_frames out = attach_first piggy (make_frames k seq True cs)"
    "map_option pd_frames (peer_pending p1) = Some (make_frames k seq True cs)"
    "piggy \<noteq> None \<longrightarrow> 2 < max_payload cfg"
proof -
  let ?pg = "fst (take_piggy cfg True p0)"
  let ?cs = "chunk_payload body (max_payload cfg) (?pg \<noteq> None)"
  have "?pg \<noteq> None \<longrightarrow> 2 < max_payload cfg" by (simp add: take_piggy_def split: option.splits)
  moreover have "length ?cs \<le> 255 \<and> so_frames out = attach_first ?pg (make_frames k seq True ?cs)
      \<and> map_option pd_frames (peer_pending p1) = Some (make_frames k seq True ?cs)"
    using assms
    by (auto simp: peer_enqueue_def case_prod_beta Let_def start_pending_def send_dropped_def not_less
        split: if_splits)
  ultimately show thesis using that [of ?cs ?pg] by auto
qed

lemma attach_first_mem:
  "g \<in> set (attach_first piggy fs) \<Longrightarrow>
     g \<in> set fs \<or> (\<exists>s. piggy = Some s \<and> fs \<noteq> [] \<and> g = attach_piggyback s (fs ! 0))"
  by (cases fs) (auto simp: attach_first_def split: option.splits)

lemma attach_first_index:
  "map frag_index (attach_first piggy fs) = map frag_index fs"
  by (cases fs) (auto simp: attach_first_def attach_piggyback_def split: option.splits)

lemma make_frames_fragments:
  "g \<in> set (make_frames k seq rel cs) \<Longrightarrow> length cs \<le> 255 \<Longrightarrow> fragment_of cs k seq g"
  by (auto simp: in_set_conv_nth make_frames_fragment)

lemma attached_fragment:
  assumes "g \<in> set (attach_first piggy (make_frames k seq rel cs))" "length cs \<le> 255"
  shows "fragment_of cs k seq g"
proof -
  have "make_frames k seq rel cs ! 0 \<in> set (make_frames k seq rel cs)" if "make_frames k seq rel cs \<noteq> []"
    using that by (cases "make_frames k seq rel cs") auto
  then show ?thesis using attach_first_mem [OF assms(1)] make_frames_fragments [OF _ assms(2)] by auto
qed

lemma make_frames_indices:
  "length cs \<le> 255 \<Longrightarrow> (\<lambda>f. unat (frag_index f)) ` set (make_frames k seq rel cs) = {..<length cs}"
proof -
  assume n: "length cs \<le> 255"
  let ?g = "\<lambda>f. unat (frag_index f)"
  have "?g ` set xs = (\<lambda>i. ?g (xs ! i)) ` {..<length xs}" for xs :: "airc_frame list"
    by (auto simp: set_conv_nth)
  then have "?g ` set (make_frames k seq rel cs) = (\<lambda>i. ?g (make_frames k seq rel cs ! i)) ` {..<length cs}"
    by simp
  also have "\<dots> = (\<lambda>i. i) ` {..<length cs}"
    using make_frames_nth(3) [OF _ n] by (intro image_cong) auto
  finally show ?thesis by simp
qed

lemma delivered_once:
  assumes sent: "peer_enqueue cfg k seq body True p0 = (p1, out)" "so_frames out \<noteq> []"
    and k: "k \<noteq> KHello" "k \<noteq> KAck"
    and rcv: "seq \<notin> set (peer_seen q)" "map_of (peer_reasm q) seq = None"
      "max_payload cfg \<le> max_payload rcfg" "0 < dedup_window rcfg"
    and heard: "\<forall>e \<in> set gs. fst e \<in> set (so_frames out) \<or>
      (\<exists>pd. peer_pending p1 = Some pd \<and> fst e \<in> mark_retry ` set (pd_frames pd))"
    and all: "\<forall>f \<in> set (so_frames out). \<exists>e \<in> set gs. frag_index (fst e) = frag_index f"
  shows "\<exists>d. receive_all rcfg q gs = [d] \<and> akind d = k \<and> aseq d = seq \<and> payload d = body"
proof -
  obtain piggy cs where cs: "cs = chunk_payload body (max_payload cfg) (piggy \<noteq> None)" "length cs \<le> 255"
    and out: "so_frames out = attach_first piggy (make_frames k seq True cs)"
    and pend: "map_option pd_frames (peer_pending p1) = Some (make_frames k seq True cs)"
    by (rule enqueue_sent [OF sent]) blast
  have fr: "list_all (\<lambda>e. fragment_of cs k seq (fst e)) gs"
    using heard pend attached_fragment [OF _ cs(2)] make_frames_fragments [OF _ cs(2)]
    by (fastforce simp: list_all_iff out)
  have idx: "(\<lambda>f. unat (frag_index f)) ` set (so_frames out) = {..<length cs}"
    using make_frames_indices [OF cs(2), of k seq True] attach_first_index [of piggy "make_frames k seq True cs"]
    unfolding out by (metis image_image list.set_map)
  have cover: "(\<lambda>e. unat (frag_index (fst e))) ` set gs = {..<length cs}"
  proof
    show "(\<lambda>e. unat (frag_index (fst e))) ` set gs \<subseteq> {..<length cs}"
      using fr by (auto simp: list_all_iff fragment_of_def)
    show "{..<length cs} \<subseteq> (\<lambda>e. unat (frag_index (fst e))) ` set gs"
    proof
      fix i assume "i \<in> {..<length cs}"
      then obtain f where "f \<in> set (so_frames out)" "i = unat (frag_index f)" unfolding idx [symmetric] by blast
      with all obtain e where "e \<in> set gs" "i = unat (frag_index (fst e))" by metis
      then show "i \<in> (\<lambda>e. unat (frag_index (fst e))) ` set gs" by blast
    qed
  qed
  have sz: "\<forall>c \<in> set cs. length c \<le> max_payload rcfg"
    using rcv(3) chunk_payload_sizes [OF max_payload_pos] cs(1) by (meson le_trans)
  from exactly_once [OF fr k rcv(1,2) _ sz rcv(4) cover] cs(1) show ?thesis
    by (simp add: concat_chunk_payload)
qed

section \<open>What goes on the air fits\<close>


section \<open>Selective repeat\<close>

lemma apply_bitmap:
  assumes "peer_pending p = Some pd" "pd_frames pd \<noteq> []" "aseq (hd (pd_frames pd)) = seq"
    and "length (pd_acked pd) = length (pd_frames pd)" "length parts = length (pd_frames pd)"
    and new: "\<exists>i < length parts. parts ! i \<noteq> None \<and> \<not> pd_acked pd ! i"
    and missing: "\<exists>i < length parts. parts ! i = None \<and> \<not> pd_acked pd ! i"
  shows "snd (apply_ack p seq (Some (bitmap_from_parts parts))) =
    map (\<lambda>i. mark_retry (pd_frames pd ! i))
      (filter (\<lambda>i. parts ! i = None \<and> \<not> pd_acked pd ! i) [0..<length (pd_frames pd)])"
proof -
  let ?b = "bitmap_from_parts parts"
  have m: "merge_bitmap ?b (pd_acked pd) ! i \<longleftrightarrow> pd_acked pd ! i \<or> parts ! i \<noteq> None"
    if "i < length (pd_frames pd)" for i
    using that assms(4,5) by (simp add: merge_bitmap_def bit_set_bitmap)
  have prog: "bitmap_progress ?b (pd_acked pd)"
    using new assms(4,5) by (auto simp: bitmap_progress_def list_ex_iff bit_set_bitmap)
  have inc: "\<not> list_all id (merge_bitmap ?b (pd_acked pd))"
    using missing m assms(4,5) by (auto simp: list_all_length)
  have "(case pd_frames pd of [] \<Rightarrow> None | f # _ \<Rightarrow> Some f) = Some (hd (pd_frames pd))"
    using assms(2) by (cases "pd_frames pd") auto
  with assms(1,3) prog inc have "snd (apply_ack p seq (Some ?b)) =
      holes (pd\<lparr>pd_acked := merge_bitmap ?b (pd_acked pd), pd_attempts := 0, pd_next_retry := None\<rparr>)"
    by (simp add: apply_ack_def Let_def)
  also have "\<dots> = map (\<lambda>i. mark_retry (pd_frames pd ! i))
      (filter (\<lambda>i. parts ! i = None \<and> \<not> pd_acked pd ! i) [0..<length (pd_frames pd)])"
    using m assms(4) by (auto simp: holes_def intro!: filter_cong arg_cong [where f = "map _"])
  finally show ?thesis .
qed

section \<open>Stop and wait\<close>

lemma enqueue_behind_pending:
  assumes "peer_pending p \<noteq> None"
  shows "so_frames (snd (peer_enqueue cfg k seq body True p)) = [] \<and>
    peer_pending (fst (peer_enqueue cfg k seq body True p)) = peer_pending p \<and>
    (if so_accepted (snd (peer_enqueue cfg k seq body True p))
     then length (peer_queue p) < max_queue cfg \<and>
       (\<exists>fs. peer_queue (fst (peer_enqueue cfg k seq body True p)) = peer_queue p @ [fs] \<and>
          concat (map payload fs) = body)
     else peer_queue (fst (peer_enqueue cfg k seq body True p)) = peer_queue p \<and>
       peer_dropped (fst (peer_enqueue cfg k seq body True p)) = peer_dropped p + 1)"
proof -
  let ?cs = "chunk_payload body (max_payload cfg) False"
  have pg: "take_piggy cfg True p = (None, p)" using assms by (auto simp: take_piggy_def)
  have "map payload (make_frames k seq True ?cs) = ?cs"
    by (rule nth_equalityI) (simp_all add: make_frames_def airc_new_def)
  then have "concat (map payload (make_frames k seq True ?cs)) = body"
    by (simp add: concat_chunk_payload)
  then show ?thesis using assms
    by (auto simp: peer_enqueue_def pg give_back_def Let_def send_dropped_def)
qed

lemma ack_releases:
  assumes "peer_pending p = Some pd" "pd_frames pd \<noteq> []" "aseq (hd (pd_frames pd)) = seq"
  shows "apply_ack p seq None = release_next p"
proof -
  have "(case pd_frames pd of [] \<Rightarrow> None | f # _ \<Rightarrow> Some f) = Some (hd (pd_frames pd))"
    using assms(2) by (cases "pd_frames pd") auto
  then show ?thesis using assms by (simp add: apply_ack_def)
qed

section \<open>Broadcasts\<close>

lemma release_next_owed [simp]: "peer_owed (fst (release_next p)) = peer_owed p"
  by (simp add: release_next_def start_pending_def Let_def split: list.splits)

lemma apply_ack_owed [simp]: "peer_owed (fst (apply_ack p s b)) = peer_owed p"
  by (simp add: apply_ack_def Let_def split: option.splits)

lemma remember_seq_owed [simp]: "peer_owed (remember_seq s w p) = peer_owed p"
  by (simp add: remember_seq_def Let_def)

lemma prefix_owed: "peer_owed (fst (prefix_of f p)) \<in> {peer_owed p, None}"
  by (auto simp: prefix_of_def rx_piggyback_def rx_hello_def note_airc_def split: option.splits)

text \<open>A station this one has never sent to, and has no acknowledgement duty towards.\<close>

definition quiet :: "peer \<Rightarrow> bool" where
  "quiet p \<longleftrightarrow> peer_owed p = None \<and> peer_pending p = None \<and> peer_queue p = []
     \<and> (\<forall>s r. map_of (peer_reasm p) s = Some r \<longrightarrow> \<not> ra_want_ack r)"

lemma quiet_prefix: "quiet p \<Longrightarrow> quiet (fst (prefix_of f p)) \<and> snd (prefix_of f p) = []"
  by (auto simp: quiet_def prefix_of_def rx_piggyback_def rx_hello_def note_airc_def apply_ack_def
      split: option.splits)

lemma quiet_remember [simp]: "quiet (remember_seq s w p) = quiet p"
  by (simp add: quiet_def remember_seq_def Let_def)

lemma store_fragment_want:
  "(\<And>r. old = Some r \<Longrightarrow> \<not> ra_want_ack r) \<Longrightarrow> \<not> ra_want_ack (store_fragment f False now old)"
  by (auto simp: store_fragment_def fresh_reassembly_def Let_def split: option.splits)

lemma quiet_fragment:
  assumes "quiet p"
  shows "quiet (fst (rx_fragment cfg f now False p))"
proof -
  define m where "m = fst (make_room (max_reasm cfg) ra_started (aseq f) (peer_reasm p))"
  define e where "e = store_fragment f False now (map_of m (aseq f))"
  have m: "\<not> ra_want_ack r" if "map_of m s = Some r" for s r
    using that assms unfolding m_def quiet_def by (blast dest: make_room_values)
  then have e: "\<not> ra_want_ack e" unfolding e_def by (rule store_fragment_want)
  have "quiet (p\<lparr>peer_reasm := AList.update (aseq f) e m\<rparr>)"
    "quiet (p\<lparr>peer_reasm := AList.delete (aseq f) (AList.update (aseq f) e m)\<rparr>)"
    using assms m e by (auto simp: quiet_def)
  with e assms show ?thesis
    unfolding rx_fragment_def Let_def simp_thms m_def [symmetric] e_def [symmetric] by simp
qed

lemma quiet_receive:
  assumes "quiet p"
  shows "quiet (fst (peer_receive cfg f now False p)) \<and> rx_transmit (snd (peer_receive cfg f now False p)) = []"
proof -
  have q: "quiet (fst (prefix_of f p))" and t: "snd (prefix_of f p) = []" using quiet_prefix [OF assms] by auto
  have a: "quiet (fst (rx_ack f r)) \<and> snd (rx_ack f r) = []" if "quiet r" for r
    using that by (auto simp: rx_ack_def apply_ack_def quiet_def split: option.splits)
  have s: "quiet (fst (rx_seen f False r))" "quiet (fst (rx_single cfg f False r))" if "quiet r" for r
    using that by (auto simp: rx_seen_def rx_single_def Let_def)
  show ?thesis using q t a [OF q] s [OF q] quiet_fragment [OF q, of cfg f now]
    by (simp add: peer_receive_def prefix_of_def [symmetric] case_prod_beta Let_def rx_default_def)
qed

definition all_quiet :: "sessions \<Rightarrow> bool" where
  "all_quiet s \<longleftrightarrow> table_ok (ss_peers s) \<and> (\<forall>c p. get_peer s c = Some p \<longrightarrow> quiet p)"

lemma quiet_hear:
  assumes "all_quiet s"
  shows "all_quiet (snd (on_receive src f now False s))
    \<and> rx_transmit (fst (on_receive src f now False s)) = []"
proof (cases "touch src now s")
  case None
  then show ?thesis using assms by (simp add: on_receive_def rx_default_def)
next
  case (Some ps)
  obtain p s1 where ps: "ps = (p, s1)" by force
  let ?p0 = "case get_peer s src of Some p \<Rightarrow> p | None \<Rightarrow> peer_new src now"
  have e: "p = ?p0\<lparr>last_heard := now\<rparr>" "s1 = set_peer src p s"
    using Some ps by (auto simp: touch_def Let_def split: if_splits)
  have "quiet ?p0" using assms by (auto simp: all_quiet_def peer_new_def quiet_def split: option.splits)
  then have p: "quiet p" by (simp add: e quiet_def)
  with assms have s1: "all_quiet s1" by (simp add: all_quiet_def e(2) set_peer_def get_peer_def)
  from quiet_receive [OF p, of "ss_config s" f now] s1 show ?thesis
    by (auto simp: on_receive_def Some ps case_prod_beta Let_def all_quiet_def set_peer_def get_peer_def)
qed

lemma quiet_drain:
  assumes "all_quiet s"
  shows "fst (drain_acks s) = []"
proof -
  have "peer_owed p = None" if "(c, p) \<in> set (ss_peers s)" for c p
    using that assms by (auto simp: all_quiet_def get_peer_def quiet_def table_ok_def)
  then show ?thesis by (fastforce simp: drain_acks_def)
qed

lemma quiet_tick_peer:
  assumes "quiet p" "table_ok (peer_reasm p)"
  shows "fst (snd (tick_peer cfg now retry p)) = [] \<and> snd (snd (tick_peer cfg now retry p)) \<noteq> GiveUp"
proof -
  have "\<not> ra_want_ack r" if "(s, r) \<in> set (peer_reasm p)" for s r
    using that assms by (auto simp: quiet_def table_ok_def)
  then have "snd (expire_reasm cfg now p) = []" by (fastforce simp: expire_reasm_def filter_empty_conv)
  moreover have "peer_pending (fst (expire_reasm cfg now p)) = None"
    using assms by (simp add: expire_reasm_def quiet_def)
  ultimately show ?thesis by (simp add: tick_peer_def case_prod_beta)
qed

lemma quiet_tick:
  assumes "all_quiet s" "sessions_ok s"
  shows "tk_transmit (fst (tick_retries now retry s)) = []"
proof -
  let ?rs = "tick_all (ss_config s) now retry (ss_peers s)"
  have q: "quiet p \<and> table_ok (peer_reasm p)" if "(c, p) \<in> set (ss_peers s)" for c p
    using that assms
    by (auto simp: all_quiet_def get_peer_def table_ok_def sessions_ok_def peers_ok_def peer_ok_def reasm_ok_def)
  have r: "fst (snd (snd e)) = [] \<and> snd (snd (snd e)) \<noteq> GiveUp" if "e \<in> set ?rs" for e
    using that quiet_tick_peer q by (fastforce simp: tick_all_def)
  have "filter (\<lambda>(c, p, tx, st). st = GiveUp) ?rs = []"
    using r by (fastforce simp: filter_empty_conv)
  moreover have "concat (map (\<lambda>(c, p, tx, st). map (Pair c) tx) ?rs) = []"
    using r by (fastforce simp: case_prod_beta)
  ultimately show ?thesis by (simp add: tick_retries_def Let_def)
qed

lemma map_of_deletes: "map_of (fold AList.delete cs m) c = (if c \<in> set cs then None else map_of m c)"
  by (induction cs arbitrary: m) auto

lemma new_quiet: "all_quiet (sessions_new cfg)"
  by (simp add: all_quiet_def sessions_new_def get_peer_def)

lemma quiet_peer_new [simp]: "quiet (peer_new c now)"
  by (simp add: quiet_def peer_new_def)

lemma quiet_set_peer: "all_quiet s \<Longrightarrow> quiet p \<Longrightarrow> all_quiet (set_peer c p s)"
  by (auto simp: all_quiet_def set_peer_def get_peer_def split: if_splits)

lemma quiet_with_peer: "all_quiet s \<Longrightarrow> (\<And>p. quiet p \<Longrightarrow> quiet (g p)) \<Longrightarrow> all_quiet (with_peer c g s)"
  by (auto simp: with_peer_def all_quiet_def intro!: quiet_set_peer [unfolded all_quiet_def] split: option.split)

lemma quiet_touch:
  assumes "all_quiet s" "touch c now s = Some (p, s')"
  shows "all_quiet s'"
proof -
  let ?p0 = "case get_peer s c of Some p \<Rightarrow> p | None \<Rightarrow> peer_new c now"
  have "quiet ?p0" using assms(1) by (auto simp: all_quiet_def split: option.split)
  then have "quiet (?p0\<lparr>last_heard := now\<rparr>)" by (simp add: quiet_def)
  then show ?thesis
    using assms quiet_set_peer by (auto simp: touch_def Let_def split: if_splits)
qed

lemma quiet_force_touch:
  assumes "all_quiet s"
  shows "all_quiet (snd (force_touch c now s))"
proof (cases "max_peers (ss_config s) = 0")
  case False
  obtain ps old where m: "make_room (max_peers (ss_config s)) last_heard c (ss_peers s) = (ps, old)" by force
  have q: "all_quiet (s\<lparr>ss_peers := ps, ss_evicted := ev\<rparr>)" for ev
    using assms make_room_values [of "max_peers (ss_config s)" last_heard c "ss_peers s"]
      make_room_ok [of "ss_peers s" "max_peers (ss_config s)" last_heard c] m
    by (auto simp: all_quiet_def get_peer_def)
  show ?thesis
    using False quiet_touch [OF q] q by (simp add: force_touch_def m Let_def split: option.split)
qed (simp add: force_touch_def assms)

lemma quiet_expire:
  assumes "quiet p" "table_ok (peer_reasm p)"
  shows "quiet (fst (expire_reasm cfg now p))"
proof -
  have "map_of (peer_reasm p) s = Some r" if "map_of (filter P (peer_reasm p)) s = Some r" for P s r
    using map_of_SomeD [OF that] assms(2) by (simp add: table_ok_def)
  then show ?thesis
    using assms(1) unfolding quiet_def expire_reasm_def by fastforce
qed

lemma quiet_tick_peer_after:
  assumes "quiet p" "table_ok (peer_reasm p)"
  shows "quiet (fst (tick_peer cfg now retry p))"
proof -
  have "peer_pending (fst (expire_reasm cfg now p)) = None"
    using assms(1) by (simp add: expire_reasm_def quiet_def)
  then show ?thesis
    using quiet_expire [OF assms] by (simp add: tick_peer_def case_prod_beta Let_def)
qed

lemma quiet_after_tick:
  assumes "all_quiet s" "sessions_ok s"
  shows "all_quiet (snd (tick_retries now retry s))"
proof -
  let ?rs = "tick_all (ss_config s) now retry (ss_peers s)"
  let ?g = "\<lambda>p. fst (tick_peer (ss_config s) now retry p)"
  have q: "quiet p \<and> table_ok (peer_reasm p)" if "(c, p) \<in> set (ss_peers s)" for c p
    using that assms
    by (auto simp: all_quiet_def get_peer_def table_ok_def sessions_ok_def peers_ok_def peer_ok_def reasm_ok_def)
  then have "snd (snd (snd e)) \<noteq> GiveUp" if "e \<in> set ?rs" for e
    using that quiet_tick_peer by (fastforce simp: tick_all_def)
  then have "filter (\<lambda>(c, p, tx, st). st = GiveUp) ?rs = []"
    by (fastforce simp: filter_empty_conv)
  moreover have "map (\<lambda>(c, p, tx, st). (c, p)) ?rs = map (\<lambda>(c, p). (c, ?g p)) (ss_peers s)"
    by (simp add: tick_all_def comp_def case_prod_unfold)
  ultimately obtain cs where s': "snd (tick_retries now retry s) =
      s\<lparr>ss_peers := fold AList.delete cs (map (\<lambda>(c, p). (c, ?g p)) (ss_peers s))\<rparr>"
    by (simp add: tick_retries_def Let_def)
  have "table_ok (fold AList.delete cs m)" if "table_ok m" for m :: "(callsign, peer) table"
    using that by (induction cs arbitrary: m) (simp_all add: table_ok_def distinct_delete)
  moreover have "table_ok (map (\<lambda>(c, p). (c, ?g p)) (ss_peers s))"
    using assms(1) by (simp add: all_quiet_def table_ok_def comp_def case_prod_unfold)
  moreover have "quiet (?g p)" if "map_of (ss_peers s) c = Some p" for c p
    using quiet_tick_peer_after q [OF map_of_SomeD [OF that]] by blast
  ultimately show ?thesis
    unfolding s' by (auto simp: all_quiet_def get_peer_def map_of_deletes map_of_map_snd [of "\<lambda>c. ?g"] split: if_splits)
qed

text \<open>Everything a session layer does that is not sending and not hearing a frame addressed to it, and what a step transmits.\<close>

definition hears_only :: "session_op \<Rightarrow> bool" where
  "hears_only x \<longleftrightarrow> (case x of Receive src f now to_us \<Rightarrow> \<not> to_us | Enqueue dst k body rel now \<Rightarrow> False | _ \<Rightarrow> True)"

definition step_sends :: "session_op \<Rightarrow> sessions \<Rightarrow> (callsign \<times> airc_frame) list" where
  "step_sends x s =
     (case x of
        Receive src f now to_us \<Rightarrow> map (Pair src) (rx_transmit (fst (on_receive src f now to_us s)))
      | Enqueue dst k body rel now \<Rightarrow> map (Pair dst) (so_frames (fst (enqueue dst k body rel now s)))
      | Drain \<Rightarrow> fst (drain_acks s)
      | Tick now retry \<Rightarrow> tk_transmit (fst (tick_retries now retry s))
      | _ \<Rightarrow> [])"

fun run_sends :: "session_op list \<Rightarrow> sessions \<Rightarrow> (callsign \<times> airc_frame) list" where
  "run_sends [] s = []"
| "run_sends (x # xs) s = step_sends x s @ run_sends xs (session_step x s)"

lemma quiet_drained: "all_quiet s \<Longrightarrow> all_quiet (snd (drain_acks s))"
  by (auto simp: all_quiet_def drain_acks_def get_peer_def map_of_map_snd [of "\<lambda>c p. p\<lparr>peer_owed := None\<rparr>"] quiet_def
      table_ok_def comp_def case_prod_unfold)

lemma quiet_step:
  assumes "all_quiet s" "sessions_ok s" "hears_only x"
  shows "step_sends x s = [] \<and> all_quiet (session_step x s)"
proof (cases x)
  case (Receive src f now to_us)
  then show ?thesis using assms quiet_hear [OF assms(1)] by (simp add: step_sends_def hears_only_def)
next
  case Drain
  then show ?thesis using quiet_drain [OF assms(1)] quiet_drained [OF assms(1)] by (simp add: step_sends_def)
next
  case (Tick now retry)
  then show ?thesis using quiet_tick [OF assms(1,2)] quiet_after_tick [OF assms(1,2)] by (simp add: step_sends_def)
next
  case (Keyed dest seq now)
  have "session_on_keyed dest seq now s = s"
    using assms(1) by (auto simp: session_on_keyed_def all_quiet_def quiet_def split: option.split)
  then show ?thesis using assms(1) Keyed by (simp add: step_sends_def)
next
  case (Touch c now)
  then show ?thesis using quiet_touch [OF assms(1)] assms(1) by (auto simp: step_sends_def split: option.split)
next
  case (ForceTouch c now)
  then show ?thesis using quiet_force_touch [OF assms(1)] by (simp add: step_sends_def)
next
  case (Forget c)
  then show ?thesis using assms(1) by (auto simp: step_sends_def forget_def all_quiet_def get_peer_def delete_conv)
next
  case (Kick c ch)
  then show ?thesis using assms(1) by (auto simp: step_sends_def mark_kicked_def quiet_def intro!: quiet_with_peer)
next
  case (Unkick c ch)
  then show ?thesis using assms(1) by (auto simp: step_sends_def clear_kicked_def quiet_def intro!: quiet_with_peer)
next
  case (HeardAprs c)
  then show ?thesis using assms(1) by (auto simp: step_sends_def note_aprs_def quiet_def intro!: quiet_with_peer)
qed (use assms in \<open>simp_all add: step_sends_def hears_only_def ban_def lift_ban_def take_evicted_def all_quiet_def get_peer_def\<close>)

lemma quiet_run: "all_quiet s \<Longrightarrow> sessions_ok s \<Longrightarrow> list_all hears_only xs \<Longrightarrow> run_sends xs s = []"
  by (induction xs arbitrary: s) (simp_all add: quiet_step session_step_ok)

section \<open>A transmitter that cannot key up\<close>

lemma blocked_tick_peer:
  "fst (tick_peer cfg now False p) = fst (expire_reasm cfg now p) \<and>
   fst (snd (tick_peer cfg now False p)) = snd (expire_reasm cfg now p) \<and>
   snd (snd (tick_peer cfg now False p)) = (if peer_idle_timeout cfg < now - last_heard p then Lost else Keep)"
  by (auto simp: tick_peer_def case_prod_beta expire_reasm_def)

lemma blocked_tick:
  "tick_retries now False s =
     (\<lparr>tk_transmit = concat (map (\<lambda>(c, p). map (Pair c) (snd (expire_reasm (ss_config s) now p))) (ss_peers s)),
       tk_lost = map fst (filter (\<lambda>(c, p). peer_idle_timeout (ss_config s) < now - last_heard p) (ss_peers s))\<rparr>,
      s\<lparr>ss_peers := fold AList.delete
          (map fst (filter (\<lambda>(c, p). peer_idle_timeout (ss_config s) < now - last_heard p) (ss_peers s)))
          (map (\<lambda>(c, p). (c, fst (expire_reasm (ss_config s) now p))) (ss_peers s))\<rparr>)"
proof -
  let ?rs = "tick_all (ss_config s) now False (ss_peers s)"
  have rs: "?rs = map (\<lambda>(c, p). (c, fst (expire_reasm (ss_config s) now p), snd (expire_reasm (ss_config s) now p),
      if peer_idle_timeout (ss_config s) < now - last_heard p then Lost else Keep)) (ss_peers s)"
    unfolding tick_all_def using blocked_tick_peer [of "ss_config s" now] by (auto simp: prod_eq_iff)
  have g: "filter (\<lambda>(c, p, tx, st). st = GiveUp) ?rs = []"
    unfolding rs by (auto simp: filter_empty_conv split: if_splits)
  have l: "map fst (filter (\<lambda>(c, p, tx, st). st = Lost) ?rs) =
      map fst (filter (\<lambda>(c, p). peer_idle_timeout (ss_config s) < now - last_heard p) (ss_peers s))"
    unfolding rs by (simp add: filter_map comp_def case_prod_unfold)
  have t: "concat (map (\<lambda>(c, p, tx, st). map (Pair c) tx) ?rs) =
      concat (map (\<lambda>(c, p). map (Pair c) (snd (expire_reasm (ss_config s) now p))) (ss_peers s))"
    and p: "map (\<lambda>(c, p, tx, st). (c, p)) ?rs = map (\<lambda>(c, p). (c, fst (expire_reasm (ss_config s) now p))) (ss_peers s)"
    unfolding rs by (simp_all add: comp_def case_prod_unfold)
  show ?thesis unfolding tick_retries_def Let_def g l t p by simp
qed

lemma blocked_keeps:
  assumes "get_peer s c = Some p" "table_ok (ss_peers s)" "now - last_heard p \<le> peer_idle_timeout (ss_config s)"
  shows "get_peer (snd (tick_retries now False s)) c = Some (fst (expire_reasm (ss_config s) now p))"
proof -
  have "c \<notin> fst ` set (filter (\<lambda>(c, p). peer_idle_timeout (ss_config s) < now - last_heard p) (ss_peers s))"
  proof
    assume "c \<in> fst ` set (filter (\<lambda>(c, p). peer_idle_timeout (ss_config s) < now - last_heard p) (ss_peers s))"
    then obtain q where "(c, q) \<in> set (ss_peers s)" "peer_idle_timeout (ss_config s) < now - last_heard q" by auto
    with assms show False by (auto simp: get_peer_def table_ok_def)
  qed
  then show ?thesis using assms(1)
    by (simp add: blocked_tick get_peer_def map_of_deletes map_of_map_snd [of "\<lambda>c p. fst (expire_reasm (ss_config s) now p)"])
qed

lemma blocked_transmits:
  "(c, f) \<in> set (tk_transmit (fst (tick_retries now False s))) \<Longrightarrow> akind f = KAck"
  by (auto simp: blocked_tick expire_reasm_def ack_with_bitmap_def airc_new_def)

section \<open>Sequence numbers\<close>

lemma unat_u16_bound: "unat (w :: u16) < 65536"
  using unsigned_less [of w] by simp

text \<open>The \<open>n\<close>-th sequence number drawn from now on.\<close>

fun nth_seq :: "nat \<Rightarrow> sessions \<Rightarrow> u16" where
  "nth_seq 0 s = fst (next_seq s)"
| "nth_seq (Suc n) s = nth_seq n (snd (next_seq s))"

lemma next_seq_unat:
  assumes "ss_next_seq s \<noteq> 0"
  shows "ss_next_seq (snd (next_seq s)) \<noteq> 0"
    and "unat (ss_next_seq (snd (next_seq s))) - 1 = (unat (ss_next_seq s) - 1 + 1) mod 65535"
proof -
  let ?w = "ss_next_seq s"
  have w: "0 < unat ?w" "unat ?w < 65536" using assms unat_u16_bound [of ?w] by (simp_all add: unat_gt_0)
  have e: "ss_next_seq (snd (next_seq s)) = (if ?w + 1 = 0 then 1 else ?w + 1)"
    by (simp add: next_seq_def Let_def)
  then show "ss_next_seq (snd (next_seq s)) \<noteq> 0" by simp
  show "unat (ss_next_seq (snd (next_seq s))) - 1 = (unat ?w - 1 + 1) mod 65535"
  proof (cases "?w + 1 = 0")
    case True
    then have "?w = - 1" by (simp add: eq_neg_iff_add_eq_0)
    then have "unat ?w = 65535" by (simp add: unsigned_minus_1_eq_mask mask_eq_exp_minus_1)
    then show ?thesis using True e by simp
  next
    case False
    then have "1 + ?w \<noteq> 0" by (simp add: add.commute)
    from unatSuc [OF this] have "unat (?w + 1) = unat ?w + 1" by (simp add: add.commute)
    moreover have "unat ?w < 65535" using False w calculation unat_u16_bound [of "?w + 1"] by simp
    ultimately show ?thesis using False e w by simp
  qed
qed

lemma nth_seq_value:
  "ss_next_seq s \<noteq> 0 \<Longrightarrow> nth_seq n s \<noteq> 0 \<and>
     unat (nth_seq n s) - 1 = (unat (ss_next_seq s) - 1 + n) mod 65535"
proof (induction n arbitrary: s)
  case 0
  have "unat (ss_next_seq s) < 65536" by (rule unat_u16_bound)
  with 0 show ?case by (auto simp: next_seq_def Let_def)
next
  case (Suc n)
  from Suc.IH [OF next_seq_unat(1) [OF Suc.prems]] next_seq_unat(2) [OF Suc.prems]
  show ?case by (simp add: mod_add_left_eq mod_Suc_eq)
qed

lemma nth_seq_distinct:
  assumes "ss_next_seq s \<noteq> 0" "i < j" "j - i < 65535"
  shows "nth_seq i s \<noteq> nth_seq j s"
proof
  assume e: "nth_seq i s = nth_seq j s"
  define a where "a = unat (ss_next_seq s) - 1"
  have "(a + j) mod 65535 = (a + i) mod 65535"
    using e nth_seq_value [OF assms(1), of i] nth_seq_value [OF assms(1), of j] by (simp only: a_def)
  moreover have "a + i \<le> a + j" using assms(2) by simp
  ultimately have "65535 dvd (a + j) - (a + i)" by (simp only: mod_eq_dvd_iff_nat)
  then have "65535 dvd j - i" by simp
  with assms show False by (simp add: nat_dvd_not_less)
qed

section \<open>A flood of callsigns\<close>

lemma receive_others:
  "c \<noteq> src \<Longrightarrow> get_peer (snd (on_receive src f now to_us s)) c = get_peer s c"
  by (auto simp: on_receive_def touch_def Let_def set_peer_def get_peer_def case_prod_beta split: option.splits if_splits)

lemma receive_full:
  "get_peer s src = None \<Longrightarrow> max_peers (ss_config s) \<le> length (ss_peers s) \<Longrightarrow>
     on_receive src f now to_us s = (rx_default, s)"
  by (simp add: on_receive_def touch_def)

section \<open>Properties\<close>

text \<open>A small configuration and two stations, for the concrete instances.\<close>

definition sample_config :: session_config where
  "sample_config = \<lparr>paclen = 12, ack_timeout = 2, max_retries = 3, reassembly_timeout = 5,
     peer_idle_timeout = 9, max_queue = 1, dedup_window = 4, max_peers = 1, max_reasm = 2\<rparr>"

definition sample_call :: callsign where
  "sample_call = Callsign (lit ''SM0ABC'') 1"

definition sample_pending :: pending where
  "sample_pending = \<lparr>pd_frames = map (airc_new KMsg 5) [[1], [2], [3]],
     pd_acked = [False, False, False], pd_attempts = 1, pd_next_retry = Some 4\<rparr>"

lemmas sample_defs = sample_config_def sample_call_def sample_pending_def

text \<open>C6: End-to-end delivery. When a reliable message, neither a HELLO nor an ACK, goes out, the receiving station hands its application
  exactly one message with exactly the sender's octets, whatever subset, order, repetition and retransmission of
  the fragments reaches it, provided each fragment reaches it at least once. The receiver takes payloads at least as long as the sender makes, has a
  deduplication window, and starts without the message's number among those it has seen or is reassembling; what it hears from the sender meanwhile is fragments
  of this message only, and no timer of it expires the reassembly.\<close>

theorem message_delivered_exactly_once:
  assumes "peer_enqueue cfg k seq body True p0 = (p1, out)" "so_frames out \<noteq> []"
    and "k \<noteq> KHello" "k \<noteq> KAck"
    and "seq \<notin> set (peer_seen q)" "map_of (peer_reasm q) seq = None"
    and "max_payload cfg \<le> max_payload rcfg" "0 < dedup_window rcfg"
    and "\<forall>e \<in> set gs. fst e \<in> set (so_frames out) \<or>
      (\<exists>pd. peer_pending p1 = Some pd \<and> fst e \<in> mark_retry ` set (pd_frames pd))"
    and "\<forall>f \<in> set (so_frames out). \<exists>e \<in> set gs. frag_index (fst e) = frag_index f"
  shows "\<exists>d. receive_all rcfg q gs = [d] \<and> akind d = k \<and> aseq d = seq \<and> payload d = body"
  by (rule delivered_once [OF assms])

theorem message_delivered_exactly_once_witness:
  "\<exists>d. receive_all sample_config (peer_new sample_call 0)
      [(make_frames KMsg 7 True [[1, 2, 3, 4], [5]] ! 1, 3, True),
       (make_frames KMsg 7 True [[1, 2, 3, 4], [5]] ! 1, 4, True),
       (make_frames KMsg 7 True [[1, 2, 3, 4], [5]] ! 0, 5, True)] = [d] \<and>
    akind d = KMsg \<and> aseq d = 7 \<and> payload d = [1, 2, 3, 4, 5]"
proof -
  let ?fs = "make_frames KMsg 7 True [[1, 2, 3, 4], [5]]"
  let ?p = "peer_new sample_call 0"
  have c: "chunk_payload [1, 2, 3, 4, 5] 4 False = [[1, 2, 3, 4], [5 :: byte]]"
    by (simp add: chunk_payload_def chunks.simps)
  have m: "max_payload sample_config = 4" by (simp add: max_payload_def sample_config_def HEADER_LEN_def)
  have e: "peer_enqueue sample_config KMsg 7 [1, 2, 3, 4, 5] True ?p =
      (fst (start_pending ?p ?fs), \<lparr>so_frames = ?fs, so_accepted = True\<rparr>)"
    by (simp add: peer_enqueue_def take_piggy_def m c peer_new_def start_pending_def attach_first_def Let_def)
  have fs: "?fs = [?fs ! 0, ?fs ! 1]" by (simp add: make_frames_def)
  show ?thesis
    by (rule message_delivered_exactly_once [OF e])
      (simp_all add: peer_new_def sample_config_def make_frames_def)
qed

text \<open>A repeat of a delivered message is not delivered again, but if it was addressed to this station
  and asks for an acknowledgement a complete one is owed: the earlier one was lost.\<close>

theorem duplicate_reacked:
  assumes "aseq f \<in> set (peer_seen p)" "akind f \<noteq> KHello" "akind f \<noteq> KAck"
  shows "rx_deliver (snd (peer_receive cfg f now to_us p)) = None \<and>
    rx_duplicate (snd (peer_receive cfg f now to_us p)) \<and>
    peer_seen (fst (peer_receive cfg f now to_us p)) = peer_seen p \<and>
    (to_us \<and> wants_ack f \<longrightarrow> peer_owed (fst (peer_receive cfg f now to_us p)) =
       Some \<lparr>oa_seq = aseq f, oa_bitmap = None\<rparr>)"
proof -
  have "peer_seen (fst (rx_piggyback f (rx_hello f (note_airc p)))) = peer_seen p"
    using assms(2) by (simp add: rx_piggyback_def rx_hello_def split: option.splits)
  then show ?thesis using assms
    by (simp add: peer_receive_def rx_seen_def case_prod_beta Let_def owe_ack_def)
qed

theorem duplicate_reacked_witness:
  "rx_deliver (snd (peer_receive sample_config ((airc_new KMsg 7 [65])\<lparr>aflags := ACK_REQ\<rparr>) 3 True
      ((peer_new sample_call 0)\<lparr>peer_seen := [6, 7]\<rparr>))) = None"
  using duplicate_reacked [of "(airc_new KMsg 7 [65])\<lparr>aflags := ACK_REQ\<rparr>"
      "(peer_new sample_call 0)\<lparr>peer_seen := [6, 7]\<rparr>" sample_config 3 True]
  by (simp add: airc_new_def peer_new_def)

text \<open>C13: Selective repeat. When the receiver reports which fragments it holds and at least one is news, the
  sender retransmits exactly the fragments that neither this report nor an earlier one covers, in order and marked as retries.\<close>

theorem selective_repeat:
  assumes "peer_pending p = Some pd" "pd_frames pd \<noteq> []" "aseq (hd (pd_frames pd)) = seq"
    and "length (pd_acked pd) = length (pd_frames pd)" "length parts = length (pd_frames pd)"
    and "\<exists>i < length parts. parts ! i \<noteq> None \<and> \<not> pd_acked pd ! i"
    and "\<exists>i < length parts. parts ! i = None \<and> \<not> pd_acked pd ! i"
  shows "snd (apply_ack p seq (Some (bitmap_from_parts parts))) =
    map (\<lambda>i. mark_retry (pd_frames pd ! i))
      (filter (\<lambda>i. parts ! i = None \<and> \<not> pd_acked pd ! i) [0..<length (pd_frames pd)])"
  by (rule apply_bitmap [OF assms])

theorem selective_repeat_witness:
  "snd (apply_ack ((peer_new sample_call 0)\<lparr>peer_pending := Some sample_pending\<rparr>) 5
      (Some (bitmap_from_parts [Some [1], None, Some [3]]))) = [mark_retry (airc_new KMsg 5 [2])]"
proof -
  have a: "\<exists>i < length [Some [1], None, Some [3 :: byte]]. [Some [1], None, Some [3]] ! i \<noteq> None \<and>
      \<not> pd_acked sample_pending ! i" by (rule exI [of _ 0]) (simp add: sample_pending_def)
  have b: "\<exists>i < length [Some [1], None, Some [3 :: byte]]. [Some [1], None, Some [3]] ! i = None \<and>
      \<not> pd_acked sample_pending ! i" by (rule exI [of _ 1]) (simp add: sample_pending_def)
  have "[0..<3] = [0, 1, 2 :: nat]" by (simp add: upt_rec)
  then show ?thesis
    using selective_repeat [OF _ _ _ _ _ a b, of "(peer_new sample_call 0)\<lparr>peer_pending := Some sample_pending\<rparr>" 5]
    by (simp add: sample_pending_def airc_new_def)
qed

text \<open>Stop and wait. While a reliable message to a station is unacknowledged a further one puts nothing on the
  air: it joins the back of that station's bounded queue whole, or is refused and counted as dropped when the queue is full.\<close>

theorem stop_and_wait:
  assumes "peer_pending p \<noteq> None"
  shows "so_frames (snd (peer_enqueue cfg k seq body True p)) = [] \<and>
    peer_pending (fst (peer_enqueue cfg k seq body True p)) = peer_pending p \<and>
    (if so_accepted (snd (peer_enqueue cfg k seq body True p))
     then length (peer_queue p) < max_queue cfg \<and>
       (\<exists>fs. peer_queue (fst (peer_enqueue cfg k seq body True p)) = peer_queue p @ [fs] \<and>
          concat (map payload fs) = body)
     else peer_queue (fst (peer_enqueue cfg k seq body True p)) = peer_queue p \<and>
       peer_dropped (fst (peer_enqueue cfg k seq body True p)) = peer_dropped p + 1)"
  by (rule enqueue_behind_pending [OF assms])

theorem stop_and_wait_witness:
  "so_frames (snd (peer_enqueue sample_config KMsg 6 [1, 2] True
      ((peer_new sample_call 0)\<lparr>peer_pending := Some sample_pending\<rparr>))) = []"
  using stop_and_wait [of "(peer_new sample_call 0)\<lparr>peer_pending := Some sample_pending\<rparr>" sample_config KMsg 6 "[1, 2]"]
  by simp

text \<open>C14: Every sequence of session operations from start-up keeps every table, queue, window and retry counter
  within its configured bound, never queues behind an idle station, stores only incomplete reassemblies and well-formed frames that fit,
  and never draws sequence number zero.\<close>

theorem sessions_invariant: "sessions_ok (fold session_step ops (sessions_new cfg))"
  by (rule session_machine.run_inv [OF sessions_new_ok])

text \<open>C15: A station that hears only broadcasts never transmits at the session layer, however hearing them, draining owed acknowledgements, timer
  ticks, keyed reports, evictions, kicks and bans interleave: no reply, no owed acknowledgement, no retransmission and no partial acknowledgement when a
  reassembly expires, whatever acknowledgement bits those broadcasts carry.\<close>

theorem broadcasts_are_never_answered: "run_sends (filter hears_only ops) (sessions_new cfg) = []"
  by (rule quiet_run [OF new_quiet sessions_new_ok]) (simp add: list_all_iff)

text \<open>While the transmitter cannot key up, a tick retransmits nothing, uses up no attempt and gives no station up: only partial
  acknowledgements are produced, and a station that is not idle keeps its message in flight, its queue and its retry clock.\<close>

theorem blocked_tick_keeps_messages:
  assumes "table_ok (ss_peers s)" "get_peer s c = Some p"
    and "now - last_heard p \<le> peer_idle_timeout (ss_config s)"
  shows "(\<exists>p'. get_peer (snd (tick_retries now False s)) c = Some p' \<and>
      peer_pending p' = peer_pending p \<and> peer_queue p' = peer_queue p) \<and>
    (\<forall>(d, f) \<in> set (tk_transmit (fst (tick_retries now False s))). akind f = KAck)"
  using blocked_keeps [OF assms(2,1,3)] blocked_transmits [of _ _ now s]
  by (auto simp: expire_reasm_def)

theorem blocked_tick_keeps_messages_witness:
  "\<exists>p'. get_peer (snd (tick_retries 8 False ((sessions_new sample_config)\<lparr>ss_peers :=
      [(sample_call, (peer_new sample_call 0)\<lparr>peer_pending := Some sample_pending\<rparr>)]\<rparr>))) sample_call = Some p'
    \<and> peer_pending p' = Some sample_pending"
proof -
  let ?p = "(peer_new sample_call 0)\<lparr>peer_pending := Some sample_pending\<rparr>"
  let ?s = "(sessions_new sample_config)\<lparr>ss_peers := [(sample_call, ?p)]\<rparr>"
  have a: "table_ok (ss_peers ?s)" by (simp add: table_ok_def)
  have b: "get_peer ?s sample_call = Some ?p" by (simp add: get_peer_def)
  have c: "8 - last_heard ?p \<le> peer_idle_timeout (ss_config ?s)"
    by (simp add: sessions_new_def sample_config_def peer_new_def)
  from blocked_tick_keeps_messages [OF a b c] show ?thesis by auto
qed

text \<open>Outbound sequence numbers are never zero, and the same number is not drawn again for 65534 further draws, across the
  wrap of the 16-bit counter.\<close>

theorem sequence_numbers_fresh:
  assumes "i < j" "j - i < 65535"
  shows "nth_seq i (fold session_step ops (sessions_new cfg)) \<noteq> nth_seq j (fold session_step ops (sessions_new cfg))
    \<and> nth_seq i (fold session_step ops (sessions_new cfg)) \<noteq> 0"
proof -
  have "ss_next_seq (fold session_step ops (sessions_new cfg)) \<noteq> 0"
    using session_machine.run_inv [OF sessions_new_ok, of ops cfg] by (simp add: sessions_ok_def)
  from nth_seq_distinct [OF this assms] nth_seq_value [OF this] show ?thesis by blast
qed

theorem sequence_numbers_fresh_witness:
  "nth_seq 2 (fold session_step [] (sessions_new sample_config)) \<noteq>
     nth_seq 65536 (fold session_step [] (sessions_new sample_config))"
  using sequence_numbers_fresh [of 2 65536 "[]" sample_config] by (simp del: nth_seq.simps fold_simps)



text \<open>A flood of callsigns cannot push a known station out: hearing one station never changes another's entry, and when the table is full a
  new callsign is ignored altogether; yet an outgoing message always finds a slot.\<close>

theorem inbound_never_evicts:
  assumes "sessions_ok s" "0 < max_peers (ss_config s)" "c \<noteq> src"
  shows "get_peer (snd (on_receive src f now to_us s)) c = get_peer s c \<and>
    (get_peer s src = None \<and> length (ss_peers s) = max_peers (ss_config s) \<longrightarrow>
       on_receive src f now to_us s = (rx_default, s)) \<and>
    fst (force_touch d now s) \<noteq> None"
  using receive_others [OF assms(3)] receive_full [of s src f now to_us] force_touch_some [OF assms(1,2)] by simp

theorem inbound_never_evicts_witness:
  "get_peer (snd (on_receive sample_call (airc_new KMsg 1 []) 0 True (sessions_new sample_config)))
     (Callsign (lit ''LA1XYZ'') 0) = None"
  using inbound_never_evicts [OF sessions_new_ok, of sample_config "Callsign (lit ''LA1XYZ'') 0" sample_call
      "airc_new KMsg 1 []" 0 True]
  by (simp add: sessions_new_def sample_config_def sample_call_def lit_def get_peer_def)

end
