(* ===== verification/Airtime.thy ===== *)
theory Airtime
  imports Prelude
begin

text \<open>
  \<open>src/src/ax25/airtime.rs\<close>: the transmitter airtime governor. Every frame is costed in key-down time, and
  three limits hold it back: the duty cycle over a sliding window, the length of an unbroken run
  with a cooldown after it, and an hourly budget. The counters the governor shares with the rest of
  the program (\<open>AirtimeShared\<close>, a struct of atomics) are a record of numbers.

  Idealisation. The code computes duty fractions and the stuffing factor in \<open>f64\<close>; here they are
  rationals, so the rounding error of \<open>f64\<close> is not modelled. \<open>Duration::mul_f64\<close> rounds to the nearest
  nanosecond, and the cast to \<open>u64\<close> microseconds truncates: both are written out. \<open>AirtimeShared::summary\<close>,
  which only formats the counters, is not modelled.
\<close>

section \<open>Configuration\<close>

definition FRAMING_OCTETS :: nat where "FRAMING_OCTETS = 4"

definition RUN_GAP :: duration where "RUN_GAP = from_secs 3"

definition HARD_MAX_DUTY :: rat where "HARD_MAX_DUTY = 1 / 2"

definition STANDARD_PACKET_BAUDS :: "nat list" where "STANDARD_PACKET_BAUDS = [300, 1200, 9600]"

record airtime_config =
  at_enabled :: bool
  at_baud :: nat
  at_txdelay :: duration
  at_txtail :: duration
  at_window :: duration
  at_max_duty :: rat
  at_max_continuous :: duration
  at_cooldown :: duration
  at_hourly_budget :: duration
  at_max_hold :: duration
  at_stuffing :: rat

definition airtime_config_default :: airtime_config where
  "airtime_config_default =
     \<lparr>at_enabled = True, at_baud = 300, at_txdelay = from_millis 400, at_txtail = from_millis 300,
      at_window = from_secs 600, at_max_duty = 1 / 4, at_max_continuous = from_secs 30,
      at_cooldown = from_secs 60, at_hourly_budget = from_secs 900, at_max_hold = from_secs 120,
      at_stuffing = 105 / 100\<rparr>"

definition clamp :: "rat \<Rightarrow> rat \<Rightarrow> rat \<Rightarrow> rat" where
  "clamp lo hi x = max lo (min hi x)"

definition effective_duty :: "airtime_config \<Rightarrow> rat" where
  "effective_duty cfg = clamp 0 HARD_MAX_DUTY (at_max_duty cfg)"

definition burst_duty :: "airtime_config \<Rightarrow> rat" where
  "burst_duty cfg =
     (let r = as_secs (at_max_continuous cfg); c = as_secs (at_cooldown cfg)
      in if r + c \<le> 0 then 1 else r / (r + c))"

text \<open>The refusal is a formatted message; here it is the two durations the message reports.\<close>

definition check_hardware_safe :: "airtime_config \<Rightarrow> (duration \<times> duration) + unit" where
  "check_hardware_safe cfg =
     (if \<not> at_enabled cfg then Inr ()
      else if HARD_MAX_DUTY < burst_duty cfg then Inl (at_max_continuous cfg, at_cooldown cfg)
      else Inr ())"

definition hourly_budget_window :: "airtime_config \<Rightarrow> duration" where
  "hourly_budget_window cfg = (if at_hourly_budget cfg = 0 then 0 else from_secs 3600)"

section \<open>Shared counters\<close>

record airtime_shared =
  sh_inhibit :: bool
  sh_interlock_ok :: bool
  sh_window_ms :: nat
  sh_window_span_ms :: nat
  sh_hour_ms :: nat
  sh_hour_budget_ms :: nat
  sh_run_ms :: nat
  sh_cooling_ms :: nat
  sh_total_ms :: nat
  sh_next_slot_ms :: nat
  sh_queued_ms :: nat
  sh_queued_frames :: nat
  sh_duty_pct_override :: nat
  sh_pacing_ms_override :: nat
  sh_rejected_backlog :: nat
  sh_deferred :: nat
  sh_dropped_stale :: nat
  sh_dropped_inhibited :: nat

definition airtime_shared_default :: airtime_shared where
  "airtime_shared_default =
     \<lparr>sh_inhibit = False, sh_interlock_ok = True, sh_window_ms = 0, sh_window_span_ms = 0, sh_hour_ms = 0,
      sh_hour_budget_ms = 0, sh_run_ms = 0, sh_cooling_ms = 0, sh_total_ms = 0, sh_next_slot_ms = 0,
      sh_queued_ms = 0, sh_queued_frames = 0, sh_duty_pct_override = 0, sh_pacing_ms_override = 0,
      sh_rejected_backlog = 0, sh_deferred = 0, sh_dropped_stale = 0, sh_dropped_inhibited = 0\<rparr>"

definition tx_blocked :: "airtime_shared \<Rightarrow> bool" where
  "tx_blocked sh \<longleftrightarrow> sh_inhibit sh \<or> \<not> sh_interlock_ok sh"

definition interlock_failed :: "airtime_shared \<Rightarrow> bool" where
  "interlock_failed sh \<longleftrightarrow> \<not> sh_interlock_ok sh"

definition shared_eta :: "airtime_shared \<Rightarrow> duration" where
  "shared_eta sh = from_millis (sh_next_slot_ms sh + sh_queued_ms sh)"

definition shared_queued :: "airtime_shared \<Rightarrow> duration" where
  "shared_queued sh = from_millis (sh_queued_ms sh)"

definition queued_frame_count :: "airtime_shared \<Rightarrow> nat" where
  "queued_frame_count sh = sh_queued_frames sh"

definition duty_limit :: "airtime_shared \<Rightarrow> rat \<Rightarrow> rat" where
  "duty_limit sh configured =
     clamp 0 HARD_MAX_DUTY
       (if sh_duty_pct_override sh = 0 then configured else of_nat (sh_duty_pct_override sh) / 100)"

definition set_duty_override :: "nat option \<Rightarrow> airtime_shared \<Rightarrow> nat option \<times> airtime_shared" where
  "set_duty_override percent sh =
     (let stored = (case percent of None \<Rightarrow> 0 | Some p \<Rightarrow> if p = 0 then 0 else min p 50)
      in (if 0 < stored then Some stored else None, sh\<lparr>sh_duty_pct_override := stored\<rparr>))"

definition set_pacing_override :: "nat option \<Rightarrow> airtime_shared \<Rightarrow> airtime_shared" where
  "set_pacing_override ms sh = sh\<lparr>sh_pacing_ms_override := (case ms of Some n \<Rightarrow> n | None \<Rightarrow> 0)\<rparr>"

definition shared_pacing :: "airtime_shared \<Rightarrow> duration \<Rightarrow> duration" where
  "shared_pacing sh configured =
     (if sh_pacing_ms_override sh = 0 then configured
      else max (from_millis (sh_pacing_ms_override sh)) configured)"

definition duty_percent :: "airtime_shared \<Rightarrow> rat" where
  "duty_percent sh =
     (if sh_window_span_ms sh = 0 then 0
      else of_nat (sh_window_ms sh) * 100 / of_nat (sh_window_span_ms sh))"

section \<open>The governor\<close>

datatype defer_reason = DeferDuty | DeferCooldown | DeferHourlyBudget

datatype tx_decision = TxSend | TxDefer duration defer_reason

record burst =
  burst_end :: instant
  burst_len :: duration

record governor =
  gov_cfg :: airtime_config
  gov_bursts :: "burst list"
  gov_last_end :: "instant option"
  gov_run :: duration
  gov_cooling_until :: "instant option"
  gov_total :: duration

definition governor_new :: "airtime_config \<Rightarrow> governor" where
  "governor_new cfg =
     \<lparr>gov_cfg = cfg, gov_bursts = [], gov_last_end = None, gov_run = 0, gov_cooling_until = None,
      gov_total = 0\<rparr>"

definition set_duty :: "rat \<Rightarrow> governor \<Rightarrow> governor" where
  "set_duty duty g = g\<lparr>gov_cfg := (gov_cfg g)\<lparr>at_max_duty := duty\<rparr>\<rparr>"

text \<open>\<open>window.mul_f64(duty)\<close>, rounded to the nearest nanosecond.\<close>

definition allowance :: "airtime_config \<Rightarrow> duration" where
  "allowance cfg = nat (round (of_nat (at_window cfg) * effective_duty cfg))"

definition airtime_for :: "airtime_config \<Rightarrow> nat \<Rightarrow> duration" where
  "airtime_for cfg octets =
     (let baud = of_nat (max (at_baud cfg) 1);
          bits = of_nat (octets + FRAMING_OCTETS) * 8;
          stuffed = bits * max (at_stuffing cfg) 1
      in at_txdelay cfg + from_micros (nat (floor (stuffed * 1000000 / baud :: rat))) + at_txtail cfg)"

definition retention :: "airtime_config \<Rightarrow> duration" where
  "retention cfg = max (at_window cfg) (hourly_budget_window cfg)"

definition gov_trim :: "instant \<Rightarrow> governor \<Rightarrow> governor" where
  "gov_trim now g =
     g\<lparr>gov_bursts := dropWhile (\<lambda>b. retention (gov_cfg g) < now - burst_end b) (gov_bursts g)\<rparr>"

definition airtime_within :: "burst list \<Rightarrow> instant \<Rightarrow> duration \<Rightarrow> duration" where
  "airtime_within bs now w = sum_list (map burst_len (filter (\<lambda>b. now - burst_end b \<le> w) bs))"

text \<open>The loop of \<open>retry_delay\<close>: \<open>None\<close> when it breaks or runs out, else the value it returns.\<close>

fun retry_scan :: "instant \<Rightarrow> duration \<Rightarrow> duration \<Rightarrow> duration \<Rightarrow> duration \<Rightarrow> burst list \<Rightarrow> duration option" where
  "retry_scan now w allow cost used [] = None"
| "retry_scan now w allow cost used (b # bs) =
     (if w < now - burst_end b then retry_scan now w allow cost used bs
      else if used + cost \<le> allow then None
      else if used - burst_len b + cost \<le> allow
      then Some (max (burst_end b + w - now) (from_millis 100))
      else retry_scan now w allow cost (used - burst_len b) bs)"

definition retry_delay :: "burst list \<Rightarrow> instant \<Rightarrow> duration \<Rightarrow> duration \<Rightarrow> duration \<Rightarrow> duration" where
  "retry_delay bs now w allow cost =
     (case retry_scan now w allow cost (airtime_within bs now w) bs of
        Some d \<Rightarrow> d
      | None \<Rightarrow> max (min w (from_secs 30)) (from_millis 100))"

definition run_over :: "governor \<Rightarrow> instant \<Rightarrow> bool" where
  "run_over g now \<longleftrightarrow> (case gov_last_end g of Some l \<Rightarrow> RUN_GAP \<le> now - l | None \<Rightarrow> True)"

definition run_gap_until :: "governor \<Rightarrow> instant \<Rightarrow> instant" where
  "run_gap_until g now = (case gov_last_end g of Some l \<Rightarrow> l | None \<Rightarrow> now) + RUN_GAP"

definition time_until_clear :: "governor \<Rightarrow> nat \<Rightarrow> instant \<Rightarrow> duration" where
  "time_until_clear g octets now =
     (let cfg = gov_cfg g; bs = gov_bursts g in
      if \<not> at_enabled cfg then 0
      else
        (let w0 = (case gov_cooling_until g of Some u \<Rightarrow> u - now | None \<Rightarrow> 0);
             cost = airtime_for cfg octets;
             run = (if run_over g now then 0 else gov_run g);
             w1 = (if 0 < run \<and> at_max_continuous cfg < run + cost
                   then max w0 (run_gap_until g now - now) else w0);
             w2 = (if allowance cfg < airtime_within bs now (at_window cfg) + cost
                   then max w1 (retry_delay bs now (at_window cfg) (allowance cfg) cost) else w1);
             hour = hourly_budget_window cfg
         in if at_hourly_budget cfg \<noteq> 0 \<and> at_hourly_budget cfg < airtime_within bs now hour + cost
            then max w2 (retry_delay bs now hour (at_hourly_budget cfg) cost) else w2))"

text \<open>\<open>check\<close>, from the point where the cooldown clock has been looked at: the three limits in order.\<close>

definition check_limits :: "governor \<Rightarrow> nat \<Rightarrow> instant \<Rightarrow> tx_decision" where
  "check_limits g octets now =
     (let cfg = gov_cfg g; bs = gov_bursts g; cost = airtime_for cfg octets;
          hour = hourly_budget_window cfg
      in if at_max_continuous cfg < gov_run g + cost \<and> 0 < gov_run g
         then TxDefer (max (run_gap_until g now - now) (from_millis 1)) DeferCooldown
         else if allowance cfg < airtime_within bs now (at_window cfg) + cost
         then TxDefer (retry_delay bs now (at_window cfg) (allowance cfg) cost) DeferDuty
         else if at_hourly_budget cfg \<noteq> 0 \<and> at_hourly_budget cfg < airtime_within bs now hour + cost
         then TxDefer (retry_delay bs now hour (at_hourly_budget cfg) cost) DeferHourlyBudget
         else TxSend)"

definition end_run :: "instant \<Rightarrow> governor \<Rightarrow> governor" where
  "end_run now g =
     (case gov_last_end g of
        Some l \<Rightarrow> if RUN_GAP \<le> now - l then g\<lparr>gov_run := 0\<rparr> else g
      | None \<Rightarrow> g)"

definition gov_check :: "nat \<Rightarrow> instant \<Rightarrow> governor \<Rightarrow> tx_decision \<times> governor" where
  "gov_check octets now g =
     (if \<not> at_enabled (gov_cfg g) then (TxSend, g)
      else
        (let g1 = gov_trim now g in
         case gov_cooling_until g1 of
           Some u \<Rightarrow>
             if now < u then (TxDefer (u - now) DeferCooldown, g1)
             else (let g2 = end_run now (g1\<lparr>gov_cooling_until := None, gov_run := 0\<rparr>)
                   in (check_limits g2 octets now, g2))
         | None \<Rightarrow> (let g2 = end_run now g1 in (check_limits g2 octets now, g2))))"

definition gov_record :: "nat \<Rightarrow> instant \<Rightarrow> governor \<Rightarrow> duration \<times> governor" where
  "gov_record octets now g =
     (if \<not> at_enabled (gov_cfg g) then (0, g)
      else
        (let cost = airtime_for (gov_cfg g) octets;
             fin = now + cost;
             g1 = end_run now g;
             g2 = gov_trim now (g1\<lparr>gov_run := gov_run g1 + cost, gov_total := gov_total g1 + cost,
                    gov_last_end := Some fin,
                    gov_bursts := gov_bursts g1 @ [\<lparr>burst_end = fin, burst_len = cost\<rparr>]\<rparr>)
         in (cost,
             if at_max_continuous (gov_cfg g) \<le> gov_run g2
             then g2\<lparr>gov_cooling_until := Some (fin + at_cooldown (gov_cfg g))\<rparr> else g2)))"

definition as_millis :: "duration \<Rightarrow> nat" where
  "as_millis d = d div 1000000"

definition gov_publish :: "governor \<Rightarrow> instant \<Rightarrow> airtime_shared \<Rightarrow> airtime_shared" where
  "gov_publish g now sh =
     sh\<lparr>sh_window_ms := as_millis (airtime_within (gov_bursts g) now (at_window (gov_cfg g))),
        sh_window_span_ms := as_millis (at_window (gov_cfg g)),
        sh_hour_ms := as_millis (airtime_within (gov_bursts g) now (hourly_budget_window (gov_cfg g))),
        sh_hour_budget_ms := as_millis (at_hourly_budget (gov_cfg g)),
        sh_run_ms := as_millis (gov_run g),
        sh_total_ms := as_millis (gov_total g),
        sh_cooling_ms := (case gov_cooling_until g of Some u \<Rightarrow> as_millis (u - now) | None \<Rightarrow> 0)\<rparr>"

definition gov_publish_with :: "governor \<Rightarrow> instant \<Rightarrow> nat \<Rightarrow> airtime_shared \<Rightarrow> airtime_shared" where
  "gov_publish_with g now typical sh =
     gov_publish g now (sh\<lparr>sh_next_slot_ms := as_millis (time_until_clear g typical now)\<rparr>)"

definition gov_reset :: "governor \<Rightarrow> governor" where
  "gov_reset g = g\<lparr>gov_bursts := [], gov_last_end := None, gov_run := 0, gov_cooling_until := None\<rparr>"

end
