(* ===== verification/Scheduler.thy ===== *)
theory Scheduler
  imports Rust_Text "HOL-Library.Multiset"
begin

text \<open>
  \<open>src/src/ax25/scheduler.rs\<close>: which queued frame keys the transmitter next, and when it is safe to. Five
  classes drained by priority with ageing, one airtime account per station, and the half-duplex
  guards. The array of five queues is a function of the class. Scores and balances, \<open>f64\<close> in the
  code, are rationals.
\<close>

section \<open>State\<close>

datatype tx_class = CChat | CDirect | CControl | CAck | CId

fun class_value :: "tx_class \<Rightarrow> nat" where
  "class_value CChat = 0"
| "class_value CDirect = 1"
| "class_value CControl = 2"
| "class_value CAck = 3"
| "class_value CId = 4"

text \<open>\<open>Class::ALL\<close>, and the order of the array of queues.\<close>

definition all_classes :: "tx_class list" where
  "all_classes = [CId, CAck, CControl, CDirect, CChat]"

definition queue_order :: "tx_class list" where
  "queue_order = [CChat, CDirect, CControl, CAck, CId]"

fun class_as_str :: "tx_class \<Rightarrow> ustr" where
  "class_as_str CChat = lit ''chat''"
| "class_as_str CDirect = lit ''direct''"
| "class_as_str CControl = lit ''control''"
| "class_as_str CAck = lit ''ack''"
| "class_as_str CId = lit ''id''"

record 'a queued =
  q_payload :: 'a
  q_class :: tx_class
  q_account :: ustr
  q_cost :: duration
  q_queued_at :: instant
  q_expects_reply :: bool

record scheduler_config =
  sc_max_hold :: duration
  sc_min_gap :: duration
  sc_reply_window :: duration
  sc_rx_guard :: duration
  sc_aging :: duration
  sc_unfunded_penalty :: rat
  sc_station_rate :: rat
  sc_station_burst :: duration
  sc_max_deficit :: rat
  sc_max_accounts :: nat
  sc_depth :: "tx_class \<Rightarrow> nat"

fun default_depth :: "tx_class \<Rightarrow> nat" where
  "default_depth CChat = 16"
| "default_depth CDirect = 16"
| "default_depth CControl = 8"
| "default_depth CAck = 32"
| "default_depth CId = 2"

definition scheduler_config_default :: scheduler_config where
  "scheduler_config_default =
     \<lparr>sc_max_hold = from_secs 120, sc_min_gap = from_millis 1500, sc_reply_window = from_millis 3500,
      sc_rx_guard = from_millis 600, sc_aging = from_secs 20, sc_unfunded_penalty = 3 / 2,
      sc_station_rate = 2 / 100, sc_station_burst = from_secs 12, sc_max_deficit = 3,
      sc_max_accounts = 256, sc_depth = default_depth\<rparr>"

datatype poll_result = PollReady | PollWait duration | PollIdle

record bucket =
  bk_tokens :: rat
  bk_last :: instant

record 'a scheduler =
  sd_cfg :: scheduler_config
  sd_queues :: "tx_class \<Rightarrow> 'a queued list"
  sd_buckets :: "(ustr, bucket) table"
  sd_pace_until :: "instant option"
  sd_reply_until :: "instant option"
  sd_last_heard :: "instant option"
  sd_refused :: nat
  sd_expired :: nat

definition scheduler_new :: "scheduler_config \<Rightarrow> 'a scheduler" where
  "scheduler_new cfg =
     \<lparr>sd_cfg = cfg, sd_queues = (\<lambda>_. []), sd_buckets = [], sd_pace_until = None, sd_reply_until = None,
      sd_last_heard = None, sd_refused = 0, sd_expired = 0\<rparr>"

definition set_queue :: "tx_class \<Rightarrow> 'a queued list \<Rightarrow> 'a scheduler \<Rightarrow> 'a scheduler" where
  "set_queue c q s = s\<lparr>sd_queues := (sd_queues s)(c := q)\<rparr>"

section \<open>Queueing and expiry\<close>

definition sched_push :: "'a queued \<Rightarrow> 'a scheduler \<Rightarrow> ('a queued + unit) \<times> 'a scheduler" where
  "sched_push item s =
     (let c = q_class item in
      if sc_depth (sd_cfg s) c \<le> length (sd_queues s c)
      then (Inl item, s\<lparr>sd_refused := sd_refused s + 1\<rparr>)
      else (Inr (), set_queue c (sd_queues s c @ [item]) s))"

definition held_too_long :: "scheduler_config \<Rightarrow> instant \<Rightarrow> 'a queued \<Rightarrow> bool" where
  "held_too_long cfg now item \<longleftrightarrow> sc_max_hold cfg < now - q_queued_at item"

definition expiring_classes :: "tx_class list" where
  "expiring_classes = [CChat, CDirect, CControl]"

definition sched_expire :: "instant \<Rightarrow> 'a scheduler \<Rightarrow> 'a queued list \<times> 'a scheduler" where
  "sched_expire now s =
     (let out = concat (map (\<lambda>c. filter (held_too_long (sd_cfg s) now) (sd_queues s c)) expiring_classes);
          keep = (\<lambda>c. if c \<in> set expiring_classes
                      then filter (\<lambda>i. \<not> held_too_long (sd_cfg s) now i) (sd_queues s c)
                      else sd_queues s c)
      in (out, s\<lparr>sd_queues := keep, sd_expired := sd_expired s + length out\<rparr>))"

definition sched_on_heard :: "instant \<Rightarrow> 'a scheduler \<Rightarrow> 'a scheduler" where
  "sched_on_heard now s = s\<lparr>sd_last_heard := Some now, sd_reply_until := None\<rparr>"

section \<open>Airtime accounts\<close>

definition tokens :: "'a scheduler \<Rightarrow> ustr \<Rightarrow> instant \<Rightarrow> rat" where
  "tokens s account now =
     (let burst = as_secs (sc_station_burst (sd_cfg s)) in
      case map_of (sd_buckets s) account of
        None \<Rightarrow> burst
      | Some b \<Rightarrow> min (bk_tokens b + as_secs (now - bk_last b) * sc_station_rate (sd_cfg s)) burst)"

definition funded :: "'a scheduler \<Rightarrow> ustr \<Rightarrow> duration \<Rightarrow> instant \<Rightarrow> bool" where
  "funded s account cost now \<longleftrightarrow> as_secs cost \<le> tokens s account now"

definition debit :: "ustr \<Rightarrow> instant \<Rightarrow> duration \<Rightarrow> 'a scheduler \<Rightarrow> 'a scheduler" where
  "debit account now cost s =
     (let cfg = sd_cfg s;
          burst = as_secs (sc_station_burst cfg);
          low = - burst * max (sc_max_deficit cfg) 0;
          t = tokens s account now;
          buckets = fst (make_room (sc_max_accounts cfg) bk_last account (sd_buckets s))
      in s\<lparr>sd_buckets := AList.update account
             \<lparr>bk_tokens = max (t - as_secs cost) low, bk_last = now\<rparr> buckets\<rparr>)"

definition expire_accounts :: "instant \<Rightarrow> duration \<Rightarrow> 'a scheduler \<Rightarrow> 'a scheduler" where
  "expire_accounts now idle s = s\<lparr>sd_buckets := filter (\<lambda>(_, b). now - bk_last b < idle) (sd_buckets s)\<rparr>"

section \<open>Transmission\<close>

definition sched_on_keyed :: "instant \<Rightarrow> ustr \<Rightarrow> duration \<Rightarrow> bool \<Rightarrow> 'a scheduler \<Rightarrow> 'a scheduler" where
  "sched_on_keyed now account keyed expects_reply s =
     (let fin = now + keyed; s1 = debit account now keyed s
      in s1\<lparr>sd_pace_until := Some (fin + sc_min_gap (sd_cfg s)),
            sd_reply_until := (if expects_reply then Some (fin + sc_reply_window (sd_cfg s)) else None)\<rparr>)"

definition sched_requeue :: "'a queued \<Rightarrow> instant \<Rightarrow> duration \<Rightarrow> 'a scheduler \<Rightarrow> 'a scheduler" where
  "sched_requeue item now delay s =
     (let t = (case sd_pace_until s of Some t \<Rightarrow> max t (now + delay) | None \<Rightarrow> now + delay)
      in set_queue (q_class item) (item # sd_queues s (q_class item)) (s\<lparr>sd_pace_until := Some t\<rparr>))"

text \<open>The largest of the guards that are armed.\<close>

definition blocked_until :: "'a scheduler \<Rightarrow> instant option" where
  "blocked_until s =
     (let rx = map_option (\<lambda>t. t + sc_rx_guard (sd_cfg s)) (sd_last_heard s);
          armed = concat (map (case_option [] (\<lambda>t. [t])) [sd_pace_until s, sd_reply_until s, rx])
      in if armed = [] then None else Some (fold max armed 0))"

definition sched_is_empty :: "'a scheduler \<Rightarrow> bool" where
  "sched_is_empty s \<longleftrightarrow> list_all (\<lambda>c. sd_queues s c = []) queue_order"

definition sched_poll :: "instant \<Rightarrow> 'a scheduler \<Rightarrow> poll_result" where
  "sched_poll now s =
     (if sched_is_empty s then PollIdle
      else (case blocked_until s of
              Some t \<Rightarrow> if now < t then PollWait (t - now) else PollReady
            | None \<Rightarrow> PollReady))"

definition score :: "'a scheduler \<Rightarrow> instant \<Rightarrow> 'a queued \<Rightarrow> rat" where
  "score s now item =
     (let aging = max (as_secs (sc_aging (sd_cfg s))) (1 / 1000);
          base = of_nat (class_value (q_class item)) + as_secs (now - q_queued_at item) / aging
      in if funded s (q_account item) (q_cost item) now then base
         else base - sc_unfunded_penalty (sd_cfg s))"

text \<open>The frame a class puts forward: its first funded one, else its head.\<close>

definition candidate :: "'a scheduler \<Rightarrow> instant \<Rightarrow> tx_class \<Rightarrow> nat option" where
  "candidate s now c =
     (if sd_queues s c = [] then None
      else (case position (\<lambda>i. funded s (q_account i) (q_cost i) now) (sd_queues s c) of
              Some i \<Rightarrow> Some i
            | None \<Rightarrow> Some 0))"

definition weigh :: "'a scheduler \<Rightarrow> instant \<Rightarrow> tx_class \<Rightarrow> (tx_class \<times> nat \<times> rat) option \<Rightarrow>
    (tx_class \<times> nat \<times> rat) option" where
  "weigh s now c best =
     (case candidate s now c of
        None \<Rightarrow> best
      | Some i \<Rightarrow>
          (let sc = score s now (sd_queues s c ! i) in
           case best of
             None \<Rightarrow> Some (c, i, sc)
           | Some (_, _, b) \<Rightarrow> if b < sc then Some (c, i, sc) else best))"

definition sched_pop :: "instant \<Rightarrow> 'a scheduler \<Rightarrow> 'a queued option \<times> 'a scheduler" where
  "sched_pop now s =
     (case fold (weigh s now) all_classes None of
        None \<Rightarrow> (None, s)
      | Some (c, i, _) \<Rightarrow> (Some (sd_queues s c ! i), set_queue c (remove_at i (sd_queues s c)) s))"

section \<open>Queries and purges\<close>

definition sched_len :: "'a scheduler \<Rightarrow> nat" where
  "sched_len s = sum_list (map (\<lambda>c. length (sd_queues s c)) queue_order)"

definition room_in :: "'a scheduler \<Rightarrow> tx_class \<Rightarrow> nat" where
  "room_in s c = sc_depth (sd_cfg s) c - length (sd_queues s c)"

definition queued_airtime_in :: "'a scheduler \<Rightarrow> tx_class \<Rightarrow> duration" where
  "queued_airtime_in s c = sum_list (map q_cost (sd_queues s c))"

definition queued_airtime :: "'a scheduler \<Rightarrow> duration" where
  "queued_airtime s = sum_list (map q_cost (concat (map (sd_queues s) queue_order)))"

definition sched_drain :: "'a scheduler \<Rightarrow> 'a queued list \<times> 'a scheduler" where
  "sched_drain s = (concat (map (sd_queues s) queue_order), s\<lparr>sd_queues := (\<lambda>_. [])\<rparr>)"

definition sched_drain_except :: "tx_class \<Rightarrow> 'a scheduler \<Rightarrow> 'a queued list \<times> 'a scheduler" where
  "sched_drain_except keep s =
     (concat (map (sd_queues s) (filter (\<lambda>c. c \<noteq> keep) all_classes)),
      s\<lparr>sd_queues := (\<lambda>c. if c = keep then sd_queues s c else [])\<rparr>)"

definition set_min_gap :: "duration \<Rightarrow> 'a scheduler \<Rightarrow> 'a scheduler" where
  "set_min_gap gap s = s\<lparr>sd_cfg := (sd_cfg s)\<lparr>sc_min_gap := gap\<rparr>\<rparr>"

end
