(* ===== verification/Tnc.thy ===== *)
theory Tnc
  imports Kiss Airc_Frame Airtime Scheduler
begin

text \<open>
  \<open>src/src/ax25/tnc.rs\<close>: the radio link task. It owns the governor, shares the scheduler and the airtime
  counters with the handle the rest of the server transmits through, pushes what the TNC sends
  through the KISS decoder, and keys one frame at a time. The asynchronous loop \<open>pump\<close> is cut at its
  suspension points: the work at the top of the loop, the arm that reads, and the arm that the
  timer fires; the wake arm does nothing. What a real socket decides (whether a write fails, and how many of its octets were out
  by then) and what another task may change while this one computes (the interlock between its two reads) are arguments. Sockets,
  serial ports, tasks and log lines are not modelled; the audit trail is the list of what is passed to it.
\<close>

section \<open>Configuration\<close>

datatype tnc_link = LinkTcp ustr nat | LinkSerial ustr nat | LinkLoopback

record tnc_config =
  tc_link :: tnc_link
  tc_kiss_port :: byte
  tc_max_frame :: nat
  tc_tx_pacing :: duration
  tc_tx_queue_depth :: nat
  tc_persistence :: "byte option"
  tc_slottime :: "byte option"
  tc_airtime :: airtime_config

definition tnc_config_default :: tnc_config where
  "tnc_config_default =
     \<lparr>tc_link = LinkTcp (lit ''127.0.0.1'') 8001, tc_kiss_port = 0, tc_max_frame = 512,
      tc_tx_pacing = from_millis 1500, tc_tx_queue_depth = 64, tc_persistence = None, tc_slottime = None,
      tc_airtime = airtime_config_default\<rparr>"

text \<open>\<open>from_config\<close>, from the settings it reads.\<close>

definition tnc_from_config ::
  "nat \<Rightarrow> byte \<Rightarrow> nat \<Rightarrow> byte option \<Rightarrow> byte option \<Rightarrow> airtime_config \<Rightarrow> tnc_link \<Rightarrow> tnc_config" where
  "tnc_from_config pac port pacing_ms persist slot airtime link =
     \<lparr>tc_link = link, tc_kiss_port = port, tc_max_frame = pac + 64, tc_tx_pacing = from_millis pacing_ms,
      tc_tx_queue_depth = 64, tc_persistence = persist, tc_slottime = slot, tc_airtime = airtime\<rparr>"

definition scheduler_from_tnc :: "tnc_config \<Rightarrow> scheduler_config" where
  "scheduler_from_tnc cfg =
     (let fast = (tc_tx_pacing cfg = 0);
          air = tc_airtime cfg
      in scheduler_config_default\<lparr>
           sc_max_hold := at_max_hold air,
           sc_min_gap := tc_tx_pacing cfg,
           sc_reply_window := (if fast then from_millis 20 else airtime_for air 40 + from_millis 200),
           sc_rx_guard := (if fast then from_millis 20 else at_txdelay air + from_millis 80),
           sc_depth := (default_depth(CChat := max (tc_tx_queue_depth cfg) 1))(CId := 4)\<rparr>)"

definition ms_to_kiss :: "duration \<Rightarrow> byte" where
  "ms_to_kiss d = of_nat (min (as_millis d div 10) 255)"

definition kiss_params :: "tnc_config \<Rightarrow> (byte \<times> byte) list" where
  "kiss_params cfg =
     [(CMD_TXDELAY, ms_to_kiss (at_txdelay (tc_airtime cfg))),
      (CMD_TXTAIL, ms_to_kiss (at_txtail (tc_airtime cfg))),
      (CMD_FULLDUPLEX, 0)]
     @ concat (map (\<lambda>(cmd, v). case v of Some x \<Rightarrow> [(cmd, x)] | None \<Rightarrow> [])
         [(CMD_PERSISTENCE, tc_persistence cfg), (CMD_SLOTTIME, tc_slottime cfg)])"

definition connect_bytes :: "tnc_config \<Rightarrow> byte list" where
  "connect_bytes cfg = concat (map (\<lambda>(cmd, v). kiss_encode (tc_kiss_port cfg) cmd [v]) (kiss_params cfg))"

section \<open>Looking into a payload\<close>

definition airc_seq :: "byte list \<Rightarrow> u16 option" where
  "airc_seq body =
     (if 8 \<le> length body \<and> body ! 0 = 0x41 \<and> body ! 1 = 0x31
      then Some (from_be_bytes (body ! 4) (body ! 5)) else None)"

fun kind_name :: "kind \<Rightarrow> ustr" where
  "kind_name KHello = lit ''Hello''"
| "kind_name KWelcome = lit ''Welcome''"
| "kind_name KJoin = lit ''Join''"
| "kind_name KPart = lit ''Part''"
| "kind_name KMsg = lit ''Msg''"
| "kind_name KNotice = lit ''Notice''"
| "kind_name KNames = lit ''Names''"
| "kind_name KNamesReply = lit ''NamesReply''"
| "kind_name KPing = lit ''Ping''"
| "kind_name KPong = lit ''Pong''"
| "kind_name KAck = lit ''Ack''"
| "kind_name KError = lit ''Error''"
| "kind_name KId = lit ''Id''"
| "kind_name KQuit = lit ''Quit''"
| "kind_name KPresence = lit ''Presence''"
| "kind_name KStored = lit ''Stored''"

definition airc_kind :: "byte list \<Rightarrow> ustr" where
  "airc_kind body =
     (if length body < 3 \<or> body ! 0 \<noteq> 0x41 \<or> body ! 1 \<noteq> 0x31 then lit ''-''
      else (case body ! 2 of b \<Rightarrow>
        if b = 0x01 then lit ''Hello'' else if b = 0x02 then lit ''Welcome''
        else if b = 0x03 then lit ''Join'' else if b = 0x04 then lit ''Part''
        else if b = 0x05 then lit ''Msg'' else if b = 0x06 then lit ''Notice''
        else if b = 0x07 then lit ''Names'' else if b = 0x08 then lit ''NamesReply''
        else if b = 0x09 then lit ''Ping'' else if b = 0x0A then lit ''Pong''
        else if b = 0x0B then lit ''Ack'' else if b = 0x0C then lit ''Error''
        else if b = 0x0D then lit ''Id'' else if b = 0x0E then lit ''Quit''
        else if b = 0x0F then lit ''Presence'' else if b = 0x10 then lit ''Stored''
        else lit ''-''))"

section \<open>State\<close>

record keyed_event =
  ke_dest :: callsign
  ke_seq :: u16

record audit_entry =
  au_event :: ustr
  au_dest :: ustr
  au_kind :: ustr
  au_bytes :: nat
  au_class :: ustr
  au_keyed :: duration
  au_duty :: rat

record tnc =
  tn_governor :: governor
  tn_shared :: airtime_shared
  tn_sched :: "ax25_frame scheduler"
  tn_decoder :: kiss_decoder
  tn_wire :: "byte list"
  tn_received :: "ax25_frame list"
  tn_keyed :: "keyed_event list"
  tn_audit :: "audit_entry list"

definition KEYED_CAPACITY :: nat where "KEYED_CAPACITY = 64"

definition publish_queue :: "'a scheduler \<Rightarrow> airtime_shared \<Rightarrow> airtime_shared" where
  "publish_queue s sh =
     sh\<lparr>sh_queued_ms := as_millis (queued_airtime s), sh_queued_frames := sched_len s\<rparr>"

definition publish :: "tnc \<Rightarrow> tnc" where
  "publish t = t\<lparr>tn_shared := publish_queue (tn_sched t) (tn_shared t)\<rparr>"

definition tnc_spawn :: "tnc_config \<Rightarrow> tnc" where
  "tnc_spawn cfg =
     \<lparr>tn_governor = governor_new (tc_airtime cfg), tn_shared = airtime_shared_default,
      tn_sched = scheduler_new (scheduler_from_tnc cfg), tn_decoder = kiss_decoder_new (tc_max_frame cfg),
      tn_wire = [], tn_received = [], tn_keyed = [], tn_audit = []\<rparr>"

text \<open>
  A fresh connection: the parameters are written one by one, and the decoder starts anew. \<open>werr\<close> names the write that fails, counted
  from nought, and how many of its octets were out by then; \<open>pump\<close> returns at once, which the flag of the result says.
\<close>

fun write_params :: "byte \<Rightarrow> (nat \<times> nat) option \<Rightarrow> (byte \<times> byte) list \<Rightarrow> bool \<times> byte list" where
  "write_params port werr [] = (True, [])"
| "write_params port werr ((cmd, v) # ps) =
     (let bs = kiss_encode port cmd [v] in
      case werr of
        None \<Rightarrow> (let (ok, out) = write_params port None ps in (ok, bs @ out))
      | Some (0, n) \<Rightarrow> (False, take n bs)
      | Some (Suc k, n) \<Rightarrow> (let (ok, out) = write_params port (Some (k, n)) ps in (ok, bs @ out)))"

definition tnc_connect :: "tnc_config \<Rightarrow> (nat \<times> nat) option \<Rightarrow> tnc \<Rightarrow> bool \<times> tnc" where
  "tnc_connect cfg werr t =
     (let (ok, out) = write_params (tc_kiss_port cfg) werr (kiss_params cfg);
          t1 = t\<lparr>tn_wire := tn_wire t @ out\<rparr>
      in if ok then (True, t1\<lparr>tn_decoder := kiss_decoder_new (tc_max_frame cfg)\<rparr>) else (False, t1))"

section \<open>The handle\<close>

definition set_inhibit :: "bool \<Rightarrow> tnc \<Rightarrow> tnc" where
  "set_inhibit b t = t\<lparr>tn_shared := (tn_shared t)\<lparr>sh_inhibit := b\<rparr>\<rparr>"

definition inhibited :: "tnc \<Rightarrow> bool" where
  "inhibited t \<longleftrightarrow> sh_inhibit (tn_shared t)"

definition tx_room_in :: "tnc \<Rightarrow> tx_class \<Rightarrow> nat" where
  "tx_room_in t c = room_in (tn_sched t) c"

definition tx_room :: "tnc \<Rightarrow> nat" where
  "tx_room t = tx_room_in t CChat"

definition tnc_enqueue ::
  "tnc_config \<Rightarrow> ax25_frame \<Rightarrow> tx_class \<Rightarrow> ustr \<Rightarrow> bool \<Rightarrow> instant \<Rightarrow> tnc \<Rightarrow> bool \<times> tnc" where
  "tnc_enqueue cfg frame cls account expects now t =
     (let item = \<lparr>q_payload = frame, q_class = cls, q_account = account,
                  q_cost = airtime_for (tc_airtime cfg) (length (ax25_encode frame)),
                  q_queued_at = now, q_expects_reply = expects\<rparr>
      in case sched_push item (tn_sched t) of
           (Inr _, s) \<Rightarrow> (True, publish (t\<lparr>tn_sched := s\<rparr>))
         | (Inl _, s) \<Rightarrow> (False, t\<lparr>tn_sched := s\<rparr>))"

definition try_send_id :: "tnc_config \<Rightarrow> ax25_frame \<Rightarrow> instant \<Rightarrow> tnc \<Rightarrow> bool \<times> tnc" where
  "try_send_id cfg frame now t = tnc_enqueue cfg frame CId (lit ''id'') False now t"

definition try_send :: "tnc_config \<Rightarrow> ax25_frame \<Rightarrow> instant \<Rightarrow> tnc \<Rightarrow> bool \<times> tnc" where
  "try_send cfg frame now t =
     tnc_enqueue cfg frame CChat (callsign_to_string (addr_call (destination frame))) False now t"

section \<open>The top of the loop\<close>

definition pump_purge :: "tnc \<Rightarrow> tnc" where
  "pump_purge t =
     (if sh_inhibit (tn_shared t) then
        (case sched_drain_except CId (tn_sched t) of
           (dropped, s) \<Rightarrow>
             if dropped = [] then t\<lparr>tn_sched := s\<rparr>
             else publish (t\<lparr>tn_sched := s, tn_shared := (tn_shared t)\<lparr>sh_dropped_inhibited :=
                    sh_dropped_inhibited (tn_shared t) + length dropped\<rparr>\<rparr>))
      else t)"

definition pump_tune :: "tnc_config \<Rightarrow> tnc \<Rightarrow> tnc" where
  "pump_tune cfg t =
     t\<lparr>tn_governor := set_duty (duty_limit (tn_shared t) (at_max_duty (tc_airtime cfg))) (tn_governor t),
       tn_sched := set_min_gap (shared_pacing (tn_shared t) (tc_tx_pacing cfg)) (tn_sched t)\<rparr>"

definition pump_expire :: "instant \<Rightarrow> tnc \<Rightarrow> tnc" where
  "pump_expire now t =
     (case sched_expire now (tn_sched t) of
        (expired, s) \<Rightarrow>
          if expired = [] then t\<lparr>tn_sched := s\<rparr>
          else publish (t\<lparr>tn_sched := s, tn_shared := (tn_shared t)\<lparr>sh_dropped_stale :=
                 sh_dropped_stale (tn_shared t) + length expired\<rparr>\<rparr>))"

definition pump_top :: "tnc_config \<Rightarrow> instant \<Rightarrow> tnc \<Rightarrow> tnc" where
  "pump_top cfg now t = pump_expire now (pump_tune cfg (pump_purge t))"

text \<open>How long the timer arm sleeps.\<close>

definition pump_wait :: "instant \<Rightarrow> tnc \<Rightarrow> duration" where
  "pump_wait now t =
     (case sched_poll now (tn_sched t) of
        PollIdle \<Rightarrow> from_secs 3600
      | PollWait d \<Rightarrow> d
      | PollReady \<Rightarrow> if interlock_failed (tn_shared t) then from_millis 500 else 0)"

section \<open>The arm that reads\<close>

definition pump_hear :: "tnc_config \<Rightarrow> instant \<Rightarrow> kiss_frame \<Rightarrow> tnc \<Rightarrow> tnc" where
  "pump_hear cfg now kf t =
     (if kiss_command kf \<noteq> CMD_DATA then t
      else if kiss_port kf \<noteq> tc_kiss_port cfg then t
      else (case ax25_decode (kiss_payload kf) of
              Inr frame \<Rightarrow> t\<lparr>tn_sched := sched_on_heard now (tn_sched t),
                              tn_received := tn_received t @ [frame]\<rparr>
            | Inl _ \<Rightarrow> t))"

text \<open>\<open>None\<close> when the TNC closed the connection. The receiving channel is open.\<close>

definition pump_read :: "tnc_config \<Rightarrow> instant \<Rightarrow> byte list \<Rightarrow> tnc \<Rightarrow> tnc option" where
  "pump_read cfg now bs t =
     (if bs = [] then None
      else (case kiss_push (tn_decoder t) bs of
              (d, frames) \<Rightarrow> Some (fold (pump_hear cfg now) frames (t\<lparr>tn_decoder := d\<rparr>))))"

section \<open>The arm the timer fires\<close>

definition audit_keyed :: "ax25_frame queued \<Rightarrow> nat \<Rightarrow> duration \<Rightarrow> rat \<Rightarrow> audit_entry" where
  "audit_keyed item n keyed duty =
     \<lparr>au_event = (if q_class item = CId then lit ''rf_id'' else lit ''rf_tx''),
      au_dest = callsign_to_string (addr_call (destination (q_payload item))),
      au_kind = airc_kind (info (q_payload item)), au_bytes = n,
      au_class = class_as_str (q_class item), au_keyed = keyed, au_duty = duty\<rparr>"

definition data_bytes :: "tnc_config \<Rightarrow> byte list \<Rightarrow> byte list" where
  "data_bytes cfg bs = kiss_encode (tc_kiss_port cfg) CMD_DATA bs"

definition note_keyed :: "ax25_frame \<Rightarrow> tnc \<Rightarrow> tnc" where
  "note_keyed frame t =
     (case airc_seq (info frame) of
        Some seq \<Rightarrow>
          if length (tn_keyed t) < KEYED_CAPACITY
          then t\<lparr>tn_keyed := tn_keyed t @ [\<lparr>ke_dest = addr_call (destination frame), ke_seq = seq\<rparr>]\<rparr>
          else t
      | None \<Rightarrow> t)"

text \<open>The frame has been written: account for it everywhere.\<close>

definition after_write :: "tnc_config \<Rightarrow> instant \<Rightarrow> ax25_frame queued \<Rightarrow> byte list \<Rightarrow> tnc \<Rightarrow> tnc" where
  "after_write cfg now item bs t =
     (let (recorded, g) = gov_record (length bs) now (tn_governor t);
          s = sched_on_keyed now (q_account item) recorded (q_expects_reply item) (tn_sched t);
          sh = gov_publish_with g now (tc_max_frame cfg) (publish_queue s (tn_shared t));
          keyed = (if recorded = 0 then q_cost item else recorded)
      in note_keyed (q_payload item)
           (t\<lparr>tn_governor := g, tn_sched := s, tn_shared := sh, tn_wire := tn_wire t @ data_bytes cfg bs,
              tn_audit := tn_audit t @ [audit_keyed item (length bs) keyed (duty_percent sh)]\<rparr>))"

definition pump_defer :: "tnc_config \<Rightarrow> instant \<Rightarrow> ax25_frame queued \<Rightarrow> duration \<Rightarrow> tnc \<Rightarrow> tnc" where
  "pump_defer cfg now item delay t0 =
     (let t = t0\<lparr>tn_shared := gov_publish_with (tn_governor t0) now (tc_max_frame cfg) (tn_shared t0)\<rparr>;
          sh = tn_shared t
      in if q_class item \<noteq> CId \<and> q_class item \<noteq> CAck
            \<and> at_max_hold (tc_airtime cfg) < now - q_queued_at item + delay
         then publish (t\<lparr>tn_shared := sh\<lparr>sh_dropped_stale := sh_dropped_stale sh + 1\<rparr>\<rparr>)
         else t\<lparr>tn_shared := sh\<lparr>sh_deferred := sh_deferred sh + 1\<rparr>,
                tn_sched := sched_requeue item now delay (tn_sched t)\<rparr>)"

text \<open>
  What becomes of a popped frame. \<open>ilk\<close> is the interlock as re-read just before keying, \<open>werr\<close> is
  for a write (or flush) that fails: the time, and how many octets of the frame were out by then, none, some or all of them. The frame
  is put back all the same. The flag of the result says whether \<open>pump\<close> goes on.
\<close>

definition pump_item ::
  "tnc_config \<Rightarrow> bool \<Rightarrow> (instant \<times> nat) option \<Rightarrow> instant \<Rightarrow> ax25_frame queued \<Rightarrow> tnc \<Rightarrow> bool \<times> tnc" where
  "pump_item cfg ilk werr now item t =
     (let sh = tn_shared t; bs = ax25_encode (q_payload item) in
      if sh_inhibit sh \<and> q_class item \<noteq> CId then
        (True, publish (t\<lparr>tn_shared := sh\<lparr>sh_dropped_inhibited := sh_dropped_inhibited sh + 1\<rparr>\<rparr>))
      else if tc_max_frame cfg < length bs then (True, publish t)
      else
        (case gov_check (length bs) now (tn_governor t) of
           (TxSend, g) \<Rightarrow>
             (let t1 = t\<lparr>tn_governor := g\<rparr> in
              if \<not> ilk then
                (True, t1\<lparr>tn_sched := sched_requeue item now (from_millis 200) (tn_sched t1)\<rparr>)
              else
                (case werr of
                   Some (later, n) \<Rightarrow>
                     (False, t1\<lparr>tn_wire := tn_wire t1 @ take n (data_bytes cfg bs),
                                tn_sched := sched_requeue item later 0 (tn_sched t1)\<rparr>)
                 | None \<Rightarrow> (True, after_write cfg now item bs t1)))
         | (TxDefer delay _, g) \<Rightarrow> (True, pump_defer cfg now item delay (t\<lparr>tn_governor := g\<rparr>))))"

definition pump_timer ::
  "tnc_config \<Rightarrow> bool \<Rightarrow> (instant \<times> nat) option \<Rightarrow> instant \<Rightarrow> tnc \<Rightarrow> bool \<times> tnc" where
  "pump_timer cfg ilk werr now t =
     (if interlock_failed (tn_shared t) then (True, t)
      else if sched_poll now (tn_sched t) \<noteq> PollReady then (True, t)
      else (case sched_pop now (tn_sched t) of
              (None, s) \<Rightarrow> (True, t\<lparr>tn_sched := s\<rparr>)
            | (Some item, s) \<Rightarrow> pump_item cfg ilk werr now item (t\<lparr>tn_sched := s\<rparr>)))"

section \<open>Reconnection\<close>

definition next_backoff :: "duration \<Rightarrow> duration" where
  "next_backoff b = min (b * 2) (from_secs 30)"

text \<open>What \<open>run\<close> does when \<open>pump\<close> returns: a loopback is gone for good and its backlog released.\<close>

definition run_after_pump :: "tnc_config \<Rightarrow> tnc \<Rightarrow> tnc" where
  "run_after_pump cfg t =
     (case tc_link cfg of
        LinkLoopback \<Rightarrow> publish (t\<lparr>tn_sched := snd (sched_drain (tn_sched t))\<rparr>)
      | _ \<Rightarrow> t)"

end
