(* ===== verification/Airtime_Proofs.thy ===== *)
theory Airtime_Proofs
  imports Airtime
begin

text \<open>
  What the governor guarantees. The log of everything ever transmitted is kept beside the governor's
  own trimmed list, and the limits are stated about the log: over any window of time the key-down
  time, counted on the clock and not by the governor's own bookkeeping, stays within the allowance.
\<close>

section \<open>The duty fraction\<close>

lemma clamp_bounds: "lo \<le> hi \<Longrightarrow> lo \<le> clamp lo hi x \<and> clamp lo hi x \<le> hi"
  by (simp add: clamp_def)

lemma effective_duty_bounds: "0 \<le> effective_duty cfg \<and> effective_duty cfg \<le> 1 / 2"
  using clamp_bounds [of 0 HARD_MAX_DUTY "at_max_duty cfg"] by (simp add: effective_duty_def HARD_MAX_DUTY_def)

lemma allowance_ceiling: "2 * allowance cfg \<le> at_window cfg + 1"
proof -
  let ?x = "of_nat (at_window cfg) * effective_duty cfg"
  have "?x \<le> of_nat (at_window cfg) * (1 / 2)"
    using effective_duty_bounds [of cfg] by (intro mult_left_mono) auto
  moreover have "of_int (round ?x) \<le> ?x + 1 / 2" by (rule of_int_round_le)
  ultimately have "2 * of_int (round ?x) \<le> (of_nat (at_window cfg) :: rat) + 1" by simp
  then have "(of_int (2 * round ?x) :: rat) \<le> of_int (int (at_window cfg) + 1)" by simp
  then have "2 * round ?x \<le> int (at_window cfg) + 1" by (simp only: of_int_le_iff)
  then show ?thesis by (simp add: allowance_def)
qed

section \<open>Airtime in a window\<close>

lemma airtime_within_append: "airtime_within (xs @ ys) now w = airtime_within xs now w + airtime_within ys now w"
  by (simp add: airtime_within_def)

lemma airtime_within_Cons:
  "airtime_within (b # bs) now w = (if now - burst_end b \<le> w then burst_len b else 0) + airtime_within bs now w"
  by (simp add: airtime_within_def)

lemma airtime_within_Nil [simp]: "airtime_within [] now w = 0"
  by (simp add: airtime_within_def)

lemma airtime_within_later: "now \<le> t \<Longrightarrow> airtime_within bs t w \<le> airtime_within bs now w"
  unfolding airtime_within_def by (rule sum_list_filter_mono) auto

lemma airtime_within_old:
  "(\<And>b. b \<in> set bs \<Longrightarrow> w < now - burst_end b) \<Longrightarrow> airtime_within bs now w = 0"
  by (auto simp: airtime_within_def filter_empty_conv not_le)

lemma trim_split:
  "\<exists>old. gov_bursts g = old @ gov_bursts (gov_trim now g) \<and>
     (\<forall>b \<in> set old. retention (gov_cfg g) < now - burst_end b)"
  using takeWhile_dropWhile_id [of "\<lambda>b. retention (gov_cfg g) < now - burst_end b" "gov_bursts g"]
  by (intro exI [of _ "takeWhile (\<lambda>b. retention (gov_cfg g) < now - burst_end b) (gov_bursts g)"])
     (auto simp: gov_trim_def dest: set_takeWhileD)

lemma trim_frame [frame_simps, simp]:
  "gov_cfg (gov_trim now g) = gov_cfg g" "gov_last_end (gov_trim now g) = gov_last_end g"
  "gov_run (gov_trim now g) = gov_run g" "gov_cooling_until (gov_trim now g) = gov_cooling_until g"
  "gov_total (gov_trim now g) = gov_total g"
  by (simp_all add: gov_trim_def)

lemma end_run_frame [frame_simps, simp]:
  "gov_cfg (end_run now g) = gov_cfg g" "gov_last_end (end_run now g) = gov_last_end g"
  "gov_bursts (end_run now g) = gov_bursts g" "gov_cooling_until (end_run now g) = gov_cooling_until g"
  by (simp_all add: end_run_def split: option.splits)

lemma window_le_retention: "at_window cfg \<le> retention cfg" "hourly_budget_window cfg \<le> retention cfg"
  by (simp_all add: retention_def)

lemma airtime_within_trim:
  assumes "w \<le> retention (gov_cfg g)"
  shows "airtime_within (gov_bursts (gov_trim now g)) now w = airtime_within (gov_bursts g) now w"
proof -
  obtain old where o: "gov_bursts g = old @ gov_bursts (gov_trim now g)"
    "\<forall>b \<in> set old. retention (gov_cfg g) < now - burst_end b" using trim_split by blast
  have "airtime_within old now w = 0" using o(2) assms by (intro airtime_within_old) force
  then show ?thesis by (simp add: o(1) airtime_within_append)
qed

section \<open>What \<open>check\<close> promises\<close>

lemma check_frame [frame_simps, simp]: "gov_cfg (snd (gov_check octets now g)) = gov_cfg g"
  by (simp add: gov_check_def Let_def split: option.splits)

lemma check_bursts:
  "at_enabled (gov_cfg g) \<Longrightarrow> gov_bursts (snd (gov_check octets now g)) = gov_bursts (gov_trim now g)"
  by (simp add: gov_check_def Let_def gov_trim_def split: option.splits)

lemma check_limits_send:
  "check_limits g octets now = TxSend \<longleftrightarrow>
     (gov_run g = 0 \<or> gov_run g + airtime_for (gov_cfg g) octets \<le> at_max_continuous (gov_cfg g)) \<and>
     airtime_within (gov_bursts g) now (at_window (gov_cfg g)) + airtime_for (gov_cfg g) octets
       \<le> allowance (gov_cfg g) \<and>
     (at_hourly_budget (gov_cfg g) \<noteq> 0 \<longrightarrow>
       airtime_within (gov_bursts g) now (hourly_budget_window (gov_cfg g)) + airtime_for (gov_cfg g) octets
         \<le> at_hourly_budget (gov_cfg g))"
  by (auto simp: check_limits_def Let_def not_less)

text \<open>The run as \<open>check\<close> sees it: over when the cooldown or the gap has passed.\<close>

definition run_at :: "governor \<Rightarrow> instant \<Rightarrow> duration" where
  "run_at g now = (if (\<exists>u. gov_cooling_until g = Some u \<and> u \<le> now) \<or>
     (\<exists>l. gov_last_end g = Some l \<and> RUN_GAP \<le> now - l) then 0 else gov_run g)"

lemma check_send_iff:
  assumes "at_enabled (gov_cfg g)"
  shows "fst (gov_check octets now g) = TxSend \<longleftrightarrow>
    (\<forall>u. gov_cooling_until g = Some u \<longrightarrow> u \<le> now) \<and>
    (run_at g now = 0 \<or> run_at g now + airtime_for (gov_cfg g) octets \<le> at_max_continuous (gov_cfg g)) \<and>
    airtime_within (gov_bursts g) now (at_window (gov_cfg g)) + airtime_for (gov_cfg g) octets
      \<le> allowance (gov_cfg g) \<and>
    (at_hourly_budget (gov_cfg g) \<noteq> 0 \<longrightarrow>
      airtime_within (gov_bursts g) now (hourly_budget_window (gov_cfg g)) + airtime_for (gov_cfg g) octets
        \<le> at_hourly_budget (gov_cfg g))"
proof -
  have w: "airtime_within (gov_bursts (gov_trim now g)) now (at_window (gov_cfg g)) =
      airtime_within (gov_bursts g) now (at_window (gov_cfg g))"
    "airtime_within (gov_bursts (gov_trim now g)) now (hourly_budget_window (gov_cfg g)) =
      airtime_within (gov_bursts g) now (hourly_budget_window (gov_cfg g))"
    using window_le_retention by (simp_all add: airtime_within_trim)
  have t: "gov_bursts (gov_trim now (g\<lparr>gov_cooling_until := c, gov_run := r\<rparr>)) = gov_bursts (gov_trim now g)" for c r
    by (simp add: gov_trim_def)
  show ?thesis
  proof (cases "gov_cooling_until g")
    case None
    have "gov_run (end_run now (gov_trim now g)) = run_at g now"
      using None by (simp add: end_run_def run_at_def split: option.splits)
    then show ?thesis using None assms w by (simp add: gov_check_def Let_def check_limits_send)
  next
    case (Some u)
    have "gov_run (end_run now ((gov_trim now g)\<lparr>gov_cooling_until := None, gov_run := 0\<rparr>)) = 0"
      by (simp add: end_run_def split: option.splits)
    moreover have "u \<le> now \<Longrightarrow> run_at g now = 0" using Some by (auto simp: run_at_def)
    ultimately show ?thesis using Some assms w
      by (simp add: gov_check_def Let_def check_limits_send not_less)
  qed
qed

section \<open>The log of transmissions\<close>

datatype gov_event =
    Offer nat instant
  | SetDuty rat

text \<open>\<open>Offer\<close> is what the transmit task does with a frame: ask, and on \<open>Send\<close> transmit and record.\<close>

fun gov_step :: "gov_event \<Rightarrow> governor \<times> burst list \<Rightarrow> governor \<times> burst list" where
  "gov_step (Offer octets now) (g, hist) =
     (case gov_check octets now g of
        (TxSend, g') \<Rightarrow>
          (snd (gov_record octets now g'),
           hist @ [\<lparr>burst_end = now + airtime_for (gov_cfg g) octets, burst_len = airtime_for (gov_cfg g) octets\<rparr>])
      | (TxDefer _ _, g') \<Rightarrow> (g', hist))"
| "gov_step (SetDuty d) (g, hist) = (set_duty d g, hist)"

fun event_times :: "gov_event list \<Rightarrow> instant list" where
  "event_times [] = []"
| "event_times (Offer octets now # es) = now # event_times es"
| "event_times (SetDuty d # es) = event_times es"

text \<open>Key-down time of a transmission between two instants.\<close>

definition keyed_between :: "instant \<Rightarrow> instant \<Rightarrow> burst \<Rightarrow> duration" where
  "keyed_between a t b = min t (burst_end b) - max a (burst_end b - burst_len b)"

definition keyed :: "instant \<Rightarrow> instant \<Rightarrow> burst list \<Rightarrow> duration" where
  "keyed a t hist = sum_list (map (keyed_between a t) hist)"

lemma keyed_simps [simp]:
  "keyed a t [] = 0" "keyed a t (b # bs) = keyed_between a t b + keyed a t bs"
  "keyed a t (xs @ ys) = keyed a t xs + keyed a t ys"
  by (simp_all add: keyed_def)

lemma keyed_between_le:
  assumes "now \<le> t" "burst_len b \<le> burst_end b"
  shows "keyed_between (t - w) t b \<le> (if now - burst_end b \<le> w then burst_len b else 0)"
  using assms by (auto simp: keyed_between_def min_def max_def)

lemma keyed_le_within:
  assumes "now \<le> t" "\<forall>b \<in> set hist. burst_len b \<le> burst_end b"
  shows "keyed (t - w) t hist \<le> airtime_within hist now w"
  using assms(2)
proof (induction hist)
  case (Cons b hist)
  then show ?case using keyed_between_le [OF assms(1), of b w] by (simp add: airtime_within_Cons)
qed simp

text \<open>The governor's trimmed list agrees with the log on every window it retains.\<close>

definition logged :: "governor \<Rightarrow> burst list \<Rightarrow> instant \<Rightarrow> bool" where
  "logged g hist now \<longleftrightarrow> (\<forall>b \<in> set hist. burst_len b \<le> burst_end b) \<and>
     (\<exists>old. hist = old @ gov_bursts g \<and> (\<forall>b \<in> set old. retention (gov_cfg g) < now - burst_end b))"

lemma logged_later: "logged g hist now \<Longrightarrow> now \<le> t \<Longrightarrow> logged g hist t"
proof -
  assume l: "logged g hist now" and t: "now \<le> t"
  then obtain old where o: "hist = old @ gov_bursts g" "\<forall>b \<in> set old. retention (gov_cfg g) < now - burst_end b"
    and s: "\<forall>b \<in> set hist. burst_len b \<le> burst_end b" by (auto simp: logged_def)
  have "\<forall>b \<in> set old. retention (gov_cfg g) < t - burst_end b" using o(2) t by fastforce
  with o(1) s show ?thesis unfolding logged_def by blast
qed

lemma logged_within:
  assumes "logged g hist now" "w \<le> retention (gov_cfg g)"
  shows "airtime_within hist now w = airtime_within (gov_bursts g) now w"
proof -
  obtain old where o: "hist = old @ gov_bursts g" "\<forall>b \<in> set old. retention (gov_cfg g) < now - burst_end b"
    using assms(1) by (auto simp: logged_def)
  have "airtime_within old now w = 0" using o(2) assms(2) by (intro airtime_within_old) force
  then show ?thesis by (simp add: o(1) airtime_within_append)
qed

lemma logged_trim: "logged g hist now \<Longrightarrow> logged (gov_trim now g) hist now"
proof -
  assume l: "logged g hist now"
  then obtain old where o: "hist = old @ gov_bursts g" "\<forall>b \<in> set old. retention (gov_cfg g) < now - burst_end b"
    and s: "\<forall>b \<in> set hist. burst_len b \<le> burst_end b" by (auto simp: logged_def)
  obtain more where m: "gov_bursts g = more @ gov_bursts (gov_trim now g)"
    "\<forall>b \<in> set more. retention (gov_cfg g) < now - burst_end b" using trim_split by blast
  have "hist = (old @ more) @ gov_bursts (gov_trim now g)" using o(1) m(1) by simp
  moreover have "\<forall>b \<in> set (old @ more). retention (gov_cfg (gov_trim now g)) < now - burst_end b"
    using o(2) m(2) by auto
  ultimately show ?thesis using s unfolding logged_def by blast
qed

lemma logged_cong:
  "logged g hist now \<Longrightarrow> gov_bursts g' = gov_bursts g \<Longrightarrow> retention (gov_cfg g') = retention (gov_cfg g) \<Longrightarrow> logged g' hist now"
  by (simp add: logged_def)

lemma logged_check: "at_enabled (gov_cfg g) \<Longrightarrow> logged g hist now \<Longrightarrow> logged (snd (gov_check octets now g)) hist now"
  by (rule logged_cong [OF logged_trim]) (simp_all add: check_bursts)

definition burst_of :: "airtime_config \<Rightarrow> nat \<Rightarrow> instant \<Rightarrow> burst" where
  "burst_of cfg octets now = \<lparr>burst_end = now + airtime_for cfg octets, burst_len = airtime_for cfg octets\<rparr>"

lemma record_bursts:
  assumes "at_enabled (gov_cfg g)"
  shows "\<exists>g2. gov_bursts g2 = gov_bursts g @ [burst_of (gov_cfg g) octets now] \<and> gov_cfg g2 = gov_cfg g \<and>
    gov_bursts (snd (gov_record octets now g)) = gov_bursts (gov_trim now g2) \<and>
    gov_cfg (snd (gov_record octets now g)) = gov_cfg g"
proof -
  let ?c = "airtime_for (gov_cfg g) octets"
  let ?g1 = "end_run now g"
  let ?g2 = "?g1\<lparr>gov_run := gov_run ?g1 + ?c, gov_total := gov_total ?g1 + ?c, gov_last_end := Some (now + ?c),
      gov_bursts := gov_bursts ?g1 @ [burst_of (gov_cfg g) octets now]\<rparr>"
  have "gov_bursts (snd (gov_record octets now g)) = gov_bursts (gov_trim now ?g2)"
    "gov_cfg (snd (gov_record octets now g)) = gov_cfg g"
    using assms by (simp_all add: gov_record_def Let_def burst_of_def)
  then show ?thesis by (intro exI [of _ ?g2]) simp
qed

lemma logged_record:
  assumes "at_enabled (gov_cfg g)" "logged g hist now"
  shows "logged (snd (gov_record octets now g)) (hist @ [burst_of (gov_cfg g) octets now]) now"
proof -
  obtain g2 where g2: "gov_bursts g2 = gov_bursts g @ [burst_of (gov_cfg g) octets now]" "gov_cfg g2 = gov_cfg g"
    "gov_bursts (snd (gov_record octets now g)) = gov_bursts (gov_trim now g2)"
    "gov_cfg (snd (gov_record octets now g)) = gov_cfg g"
    using record_bursts [OF assms(1)] by blast
  have "logged g2 (hist @ [burst_of (gov_cfg g) octets now]) now"
    using assms(2) g2(1,2) by (auto simp: logged_def burst_of_def)
  from logged_trim [OF this] show ?thesis by (rule logged_cong) (simp_all add: g2)
qed

section \<open>The limits, over the log\<close>

text \<open>
  One argument serves both windows: if every transmission was made when the airtime in a window of
  length \<open>w\<close> plus its own cost was at most \<open>a\<close>, then no window of length \<open>w\<close> contains more than \<open>a\<close>.
\<close>

definition window_ok :: "burst list \<Rightarrow> duration \<Rightarrow> duration \<Rightarrow> bool" where
  "window_ok hist w a \<longleftrightarrow> (\<forall>t. keyed (t - w) t hist \<le> a)"

lemma window_ok_send:
  assumes "window_ok hist w a" "\<forall>b \<in> set hist. burst_len b \<le> burst_end b"
    and "airtime_within hist now w + burst_len b \<le> a" "burst_end b = now + burst_len b"
  shows "window_ok (hist @ [b]) w a"
  unfolding window_ok_def
proof
  fix t
  show "keyed (t - w) t (hist @ [b]) \<le> a"
  proof (cases "t \<le> now")
    case True
    then have "keyed_between (t - w) t b = 0" using assms(4) by (simp add: keyed_between_def)
    then show ?thesis using assms(1) by (simp add: window_ok_def)
  next
    case False
    then have "keyed (t - w) t hist \<le> airtime_within hist now w" by (intro keyed_le_within assms) simp
    moreover have "keyed_between (t - w) t b \<le> burst_len b"
      using assms(4) by (auto simp: keyed_between_def min_def max_def)
    ultimately show ?thesis using assms(3) by simp
  qed
qed

declare gov_step.simps(1) [simp del]

lemma offer_step:
  "gov_step (Offer octets now) (g, hist) =
     (if fst (gov_check octets now g) = TxSend
      then (snd (gov_record octets now (snd (gov_check octets now g))), hist @ [burst_of (gov_cfg g) octets now])
      else (snd (gov_check octets now g), hist))"
  by (cases "gov_check octets now g"; cases "fst (gov_check octets now g)") (auto simp: gov_step.simps(1) burst_of_def)

definition trace_ok :: "duration \<Rightarrow> duration \<Rightarrow> instant \<Rightarrow> governor \<times> burst list \<Rightarrow> bool" where
  "trace_ok w a now st \<longleftrightarrow> at_enabled (gov_cfg (fst st)) \<and> logged (fst st) (snd st) now \<and>
     window_ok (snd st) w a"

text \<open>\<open>limit\<close> is any window the governor enforces under a configuration: the duty window or the hour.\<close>

definition enforces :: "airtime_config \<Rightarrow> duration \<Rightarrow> duration \<Rightarrow> bool" where
  "enforces cfg w a \<longleftrightarrow> w \<le> retention cfg \<and> (\<forall>g octets now. gov_cfg g = cfg \<longrightarrow> at_enabled cfg \<longrightarrow>
     fst (gov_check octets now g) = TxSend \<longrightarrow>
     airtime_within (gov_bursts g) now w + airtime_for cfg octets \<le> a)"

lemma trace_offer:
  assumes "trace_ok w a prev (g, hist)" "prev \<le> now" "enforces (gov_cfg g) w a"
  shows "trace_ok w a now (gov_step (Offer octets now) (g, hist))"
    and "gov_cfg (fst (gov_step (Offer octets now) (g, hist))) = gov_cfg g"
proof -
  have en: "at_enabled (gov_cfg g)" and lg: "logged g hist now" and wo: "window_ok hist w a"
    using assms(1,2) by (auto simp: trace_ok_def intro: logged_later)
  let ?g1 = "snd (gov_check octets now g)"
  have lg1: "logged ?g1 hist now" by (rule logged_check [OF en lg])
  have c: "gov_cfg (snd (gov_record octets now ?g1)) = gov_cfg g"
    using record_bursts [of ?g1 octets now] en by auto
  then show "gov_cfg (fst (gov_step (Offer octets now) (g, hist))) = gov_cfg g" by (simp add: offer_step)
  show "trace_ok w a now (gov_step (Offer octets now) (g, hist))"
  proof (cases "fst (gov_check octets now g) = TxSend")
    case True
    have "airtime_within hist now w + airtime_for (gov_cfg g) octets \<le> a"
      using assms(3) True en logged_within [OF lg, of w] by (simp add: enforces_def)
    then have "window_ok (hist @ [burst_of (gov_cfg g) octets now]) w a"
      using lg wo by (intro window_ok_send) (auto simp: logged_def burst_of_def)
    moreover have "logged (snd (gov_record octets now ?g1)) (hist @ [burst_of (gov_cfg g) octets now]) now"
      using logged_record [OF _ lg1, of octets] en by simp
    ultimately show ?thesis using True c en by (simp add: trace_ok_def offer_step)
  next
    case False
    then show ?thesis using lg1 en wo by (simp add: trace_ok_def offer_step)
  qed
qed

text \<open>\<open>set_duty\<close> changes the duty fraction only.\<close>

lemma set_duty_frame [simp]:
  "at_enabled (gov_cfg (set_duty d g)) = at_enabled (gov_cfg g)"
  "at_window (gov_cfg (set_duty d g)) = at_window (gov_cfg g)"
  "at_hourly_budget (gov_cfg (set_duty d g)) = at_hourly_budget (gov_cfg g)"
  "gov_bursts (set_duty d g) = gov_bursts g"
  "hourly_budget_window (gov_cfg (set_duty d g)) = hourly_budget_window (gov_cfg g)"
  "retention (gov_cfg (set_duty d g)) = retention (gov_cfg g)"
  by (simp_all add: set_duty_def hourly_budget_window_def retention_def)

definition same_limits :: "airtime_config \<Rightarrow> airtime_config \<Rightarrow> bool" where
  "same_limits c c' \<longleftrightarrow> at_window c' = at_window c \<and> at_hourly_budget c' = at_hourly_budget c"

lemma enforces_duty:
  assumes "at_window cfg = w" "(w + 1) div 2 \<le> a"
  shows "enforces cfg w a"
  unfolding enforces_def
proof (intro conjI allI impI)
  show "w \<le> retention cfg" using assms(1) by (simp add: retention_def)
  fix g octets now
  assume "gov_cfg g = cfg" "at_enabled cfg" "fst (gov_check octets now g) = TxSend"
  then have "airtime_within (gov_bursts g) now w + airtime_for cfg octets \<le> allowance cfg"
    using check_send_iff [of g octets now] assms(1) by simp
  also have "allowance cfg \<le> a" using allowance_ceiling [of cfg] assms by linarith
  finally show "airtime_within (gov_bursts g) now w + airtime_for cfg octets \<le> a" .
qed

lemma enforces_allowance: "enforces cfg (at_window cfg) (allowance cfg)"
  using check_send_iff by (auto simp: enforces_def retention_def)

lemma enforces_hour:
  assumes "at_hourly_budget cfg = a" "a \<noteq> 0"
  shows "enforces cfg (from_secs 3600) a"
  using assms check_send_iff by (auto simp: enforces_def retention_def hourly_budget_window_def)

lemma trace_run:
  assumes "trace_ok w a prev st" "sorted (prev # event_times es)"
    and "same_limits cfg (gov_cfg (fst st))" "\<And>c. same_limits cfg c \<Longrightarrow> enforces c w a"
  shows "window_ok (snd (fold gov_step es st)) w a"
  using assms(1-3)
proof (induction es arbitrary: st prev)
  case Nil
  then show ?case by (simp add: trace_ok_def)
next
  case (Cons e es)
  obtain g hist where st: "st = (g, hist)" by force
  show ?case
  proof (cases e)
    case (Offer octets now)
    have s: "prev \<le> now" "sorted (now # event_times es)" using Cons.prems(2) Offer by auto
    note step = trace_offer [OF Cons.prems(1) [unfolded st] s(1) assms(4), of octets]
    have sl: "same_limits cfg (gov_cfg g)" using Cons.prems(3) st by simp
    have "same_limits cfg (gov_cfg (fst (gov_step (Offer octets now) (g, hist))))"
      using step(2) [OF sl] sl by simp
    from Cons.IH [OF step(1) [OF sl] s(2) this] show ?thesis by (simp add: st Offer)
  next
    case (SetDuty d)
    have "trace_ok w a prev (set_duty d g, hist)"
      using Cons.prems(1) st by (auto simp: trace_ok_def intro: logged_cong)
    moreover have "same_limits cfg (gov_cfg (set_duty d g))" using Cons.prems(3) st by (simp add: same_limits_def)
    ultimately show ?thesis using Cons.IH [of prev "(set_duty d g, hist)"] Cons.prems(2) by (simp add: st SetDuty)
  qed
qed

lemma trace_start: "at_enabled cfg \<Longrightarrow> trace_ok w a 0 (governor_new cfg, [])"
  by (simp add: trace_ok_def governor_new_def logged_def window_ok_def)

section \<open>The read-only query\<close>

lemma retry_scan_pos: "retry_scan now w allow cost used bs = Some d \<Longrightarrow> from_millis 100 \<le> d"
  by (induction now w allow cost used bs rule: retry_scan.induct) (auto split: if_splits)

lemma retry_delay_pos: "0 < retry_delay bs now w allow cost"
proof -
  have "0 < from_millis 100" by (simp add: from_millis_def)
  then show ?thesis
    using retry_scan_pos [of now w allow cost "airtime_within bs now w" bs]
    by (auto simp: retry_delay_def split: option.splits)
qed

text \<open>The cooldown ends no sooner than the gap that ends a run: the configured cooldown is at least the gap.\<close>

definition cooldown_covers_gap :: "governor \<Rightarrow> bool" where
  "cooldown_covers_gap g \<longleftrightarrow> (\<forall>u. gov_cooling_until g = Some u \<longrightarrow>
     (\<exists>l. gov_last_end g = Some l \<and> l + RUN_GAP \<le> u))"

lemma clear_iff_send:
  assumes "at_enabled (gov_cfg g)" "cooldown_covers_gap g" "gov_last_end g = None \<longrightarrow> gov_run g = 0"
  shows "time_until_clear g octets now = 0 \<longleftrightarrow> fst (gov_check octets now g) = TxSend"
proof -
  let ?run = "if run_over g now then 0 else gov_run g"
  have cool: "(case gov_cooling_until g of Some u \<Rightarrow> u - now | None \<Rightarrow> 0) = 0 \<longleftrightarrow>
      (\<forall>u. gov_cooling_until g = Some u \<longrightarrow> u \<le> now)" by (auto split: option.splits)
  have run: "run_at g now = ?run"
    using assms(2,3) by (fastforce simp: run_at_def run_over_def cooldown_covers_gap_def split: option.splits)
  have gap: "0 < run_gap_until g now - now" if "0 < ?run"
    using that assms(3) by (auto simp: run_gap_until_def run_over_def split: option.splits if_splits)
  show ?thesis
    unfolding check_send_iff [OF assms(1)] cool [symmetric] run
    using assms(1) gap retry_delay_pos [of "gov_bursts g" now]
    by (simp add: time_until_clear_def Let_def max_def not_less)
qed

section \<open>When a deferred frame should ask again\<close>

lemma retry_scan_source:
  "retry_scan now w allow cost used bs = Some d \<Longrightarrow> \<exists>c \<in> set bs. burst_end c + w - now \<le> d"
  by (induction now w allow cost used bs rule: retry_scan.induct) (auto split: if_splits)

lemma airtime_within_all: "(\<And>b. b \<in> set bs \<Longrightarrow> t - burst_end b \<le> w) \<Longrightarrow>
    airtime_within bs t w = sum_list (map burst_len bs)"
  by (induction bs) (auto simp: airtime_within_Cons)

lemma airtime_within_le_sum: "airtime_within bs t w \<le> sum_list (map burst_len bs)"
  unfolding airtime_within_def by (rule sum_list_filter_le)

lemma retry_scan_exact:
  assumes "sorted (map burst_end bs)" "retry_scan now w allow cost (airtime_within bs now w) bs = Some d"
    and "from_millis 100 < d" "now \<le> t"
  shows "airtime_within bs t w + cost \<le> allow \<longleftrightarrow> now + d < t"
  using assms(1,2)
proof (induction bs)
  case (Cons b bs)
  have s: "sorted (map burst_end bs)" and after: "\<And>c. c \<in> set bs \<Longrightarrow> burst_end b \<le> burst_end c"
    using Cons.prems(1) by auto
  show ?case
  proof (cases "w < now - burst_end b")
    case True
    then have "w < t - burst_end b" using assms(4) by linarith
    with True Cons.prems(2) Cons.IH [OF s] show ?thesis by (simp add: airtime_within_Cons)
  next
    case False
    let ?u = "airtime_within (b # bs) now w"
    have u: "?u = burst_len b + airtime_within bs now w" using False by (simp add: airtime_within_Cons)
    have over: "allow < ?u + cost" using Cons.prems(2) False by (auto split: if_splits)
    show ?thesis
    proof (cases "?u - burst_len b + cost \<le> allow")
      case True
      then have "Some (max (burst_end b + w - now) (from_millis 100)) = Some d"
        using Cons.prems(2) False over by simp
      then have d: "d = burst_end b + w - now" using assms(3) by (simp add: max_def split: if_splits)
      have pos: "now < burst_end b + w" using d assms(3) by linarith
      show ?thesis
      proof (cases "now + d < t")
        case late: True
        then have "\<not> t - burst_end b \<le> w" using d pos by linarith
        moreover have "airtime_within bs t w \<le> airtime_within bs now w" by (rule airtime_within_later [OF assms(4)])
        ultimately show ?thesis using late True u by (simp add: airtime_within_Cons)
      next
        case early: False
        then have "t - burst_end b \<le> w" using d pos by linarith
        then have "\<And>c. c \<in> set (b # bs) \<Longrightarrow> t - burst_end c \<le> w"
          using after by (metis diff_le_mono2 le_trans set_ConsD)
        then have "airtime_within (b # bs) t w = sum_list (map burst_len (b # bs))" by (rule airtime_within_all)
        then have "?u \<le> airtime_within (b # bs) t w" using airtime_within_le_sum [of "b # bs" now w] by simp
        then show ?thesis using early over by simp
      qed
    next
      case again: False
      then have r: "retry_scan now w allow cost (airtime_within bs now w) bs = Some d"
        using Cons.prems(2) False over u by simp
      note IH = Cons.IH [OF s r]
      obtain c where c: "c \<in> set bs" "burst_end c + w - now \<le> d" using retry_scan_source [OF r] by blast
      have "now + d < t \<Longrightarrow> w < t - burst_end b" using c after [OF c(1)] by linarith
      then show ?thesis using IH by (auto simp: airtime_within_Cons)
    qed
  qed
qed simp

section \<open>Runs and cooldowns\<close>

text \<open>The unbroken run the newest transmission belongs to, from the log newest first.\<close>

fun current_run :: "burst list \<Rightarrow> duration" where
  "current_run [] = 0"
| "current_run [b] = burst_len b"
| "current_run (b # c # rest) =
     burst_len b + (if burst_end b - burst_len b - burst_end c < RUN_GAP then current_run (c # rest) else 0)"

lemma gap_since: "RUN_GAP \<le> now - l \<longleftrightarrow> l + RUN_GAP \<le> now"
  by (auto simp: RUN_GAP_def from_secs_def)

lemma gap_since': "now - l < RUN_GAP \<longleftrightarrow> \<not> l + RUN_GAP \<le> now"
  using gap_since [of now l] by linarith

text \<open>After every run that reached the limit the transmitter rested for the cooldown.\<close>

fun rested :: "duration \<Rightarrow> duration \<Rightarrow> burst list \<Rightarrow> bool" where
  "rested limit cd [] = True"
| "rested limit cd [b] = True"
| "rested limit cd (b # c # rest) =
     ((limit \<le> current_run (c # rest) \<longrightarrow> burst_end c + cd \<le> burst_end b - burst_len b) \<and>
      rested limit cd (c # rest))"

definition run_ok :: "airtime_config \<Rightarrow> governor \<Rightarrow> burst list \<Rightarrow> instant \<Rightarrow> bool" where
  "run_ok cfg g rlog now \<longleftrightarrow> at_enabled (gov_cfg g) \<and> at_max_continuous (gov_cfg g) = at_max_continuous cfg \<and>
     at_cooldown (gov_cfg g) = at_cooldown cfg \<and> rested (at_max_continuous cfg) (at_cooldown cfg) rlog \<and>
     (current_run rlog \<le> at_max_continuous cfg \<or> (\<exists>b \<in> set rlog. current_run rlog = burst_len b)) \<and>
     (case rlog of
        [] \<Rightarrow> gov_last_end g = None \<and> gov_run g = 0 \<and> gov_cooling_until g = None
      | b # _ \<Rightarrow> gov_last_end g = Some (burst_end b) \<and>
          (gov_run g = current_run rlog \<or> gov_run g = 0 \<and> burst_end b + RUN_GAP \<le> now) \<and>
          (\<forall>u. gov_cooling_until g = Some u \<longrightarrow> u = burst_end b + at_cooldown cfg) \<and>
          (at_max_continuous cfg \<le> current_run rlog \<longrightarrow>
             gov_cooling_until g \<noteq> None \<or> burst_end b + at_cooldown cfg \<le> now))"

lemma check_state:
  assumes "at_enabled (gov_cfg g)"
  shows "gov_last_end (snd (gov_check octets now g)) = gov_last_end g"
    and "gov_run (snd (gov_check octets now g)) =
      (if \<exists>u. gov_cooling_until g = Some u \<and> now < u then gov_run g else run_at g now)"
    and "gov_cooling_until (snd (gov_check octets now g)) =
      (if \<exists>u. gov_cooling_until g = Some u \<and> now < u then gov_cooling_until g else None)"
  using assms
  by (auto simp: gov_check_def Let_def run_at_def end_run_def split: option.splits)

lemma record_state:
  assumes "at_enabled (gov_cfg g)"
    and "c = airtime_for (gov_cfg g) octets"
    and "r = (if \<exists>l. gov_last_end g = Some l \<and> RUN_GAP \<le> now - l then 0 else gov_run g)"
  shows "gov_last_end (snd (gov_record octets now g)) = Some (now + c)"
    and "gov_run (snd (gov_record octets now g)) = r + c"
    and "gov_cooling_until (snd (gov_record octets now g)) =
      (if at_max_continuous (gov_cfg g) \<le> r + c then Some (now + c + at_cooldown (gov_cfg g)) else gov_cooling_until g)"
  using assms
  by (auto simp: gov_record_def Let_def end_run_def split: option.splits)

lemma run_offer:
  assumes ok: "run_ok cfg g rlog prev" and t: "prev \<le> now" and gap: "RUN_GAP \<le> at_cooldown cfg"
  shows "run_ok cfg (fst (gov_step (Offer octets now) (g, hist))) 
    (if fst (gov_check octets now g) = TxSend then burst_of (gov_cfg g) octets now # rlog else rlog) now"
proof -
  have en: "at_enabled (gov_cfg g)" using ok by (simp add: run_ok_def)
  let ?g1 = "snd (gov_check octets now g)"
  have en1: "at_enabled (gov_cfg ?g1)" using en by simp
  note cs = check_state [OF en, of octets now]
  let ?c = "airtime_for (gov_cfg g) octets"
  let ?b = "burst_of (gov_cfg g) octets now"
  show ?thesis
  proof (cases "fst (gov_check octets now g) = TxSend")
    case False
    then have "fst (gov_step (Offer octets now) (g, hist)) = ?g1" by (simp add: offer_step)
    moreover have "run_ok cfg ?g1 rlog now"
    proof (cases "\<exists>u. gov_cooling_until g = Some u \<and> now < u")
      case True
      then have "gov_run ?g1 = gov_run g" "gov_cooling_until ?g1 = gov_cooling_until g" using cs by auto
      then show ?thesis using ok t cs(1) by (cases rlog) (auto simp: run_ok_def)
    next
      case False
      then have s: "gov_run ?g1 = run_at g now" "gov_cooling_until ?g1 = None" using cs(2,3) by argo+
      have u: "u \<le> now" if "gov_cooling_until g = Some u" for u using False that by (simp add: not_less)
      show ?thesis
      proof (cases rlog)
        case Nil
        then show ?thesis using ok s cs(1) by (simp add: run_ok_def run_at_def)
      next
        case (Cons b rest)
        have l: "gov_last_end g = Some (burst_end b)" using ok Cons by (simp add: run_ok_def)
        have cd: "burst_end b + at_cooldown cfg \<le> now" if "gov_cooling_until g \<noteq> None"
          using ok Cons u that by (auto simp: run_ok_def)
        have r: "run_at g now = gov_run g \<or> run_at g now = 0 \<and> burst_end b + RUN_GAP \<le> now"
          using l cd gap by (auto simp: run_at_def gap_since)
        have run: "gov_run ?g1 = current_run rlog \<or> gov_run ?g1 = 0 \<and> burst_end b + RUN_GAP \<le> now"
          using ok t s(1) r Cons by (auto simp: run_ok_def)
        have rest: "at_max_continuous cfg \<le> current_run rlog \<Longrightarrow> burst_end b + at_cooldown cfg \<le> now"
          using ok t cd Cons by (auto simp: run_ok_def)
        show ?thesis using ok s(2) cs(1) l run rest Cons by (simp add: run_ok_def)
      qed
    qed
    ultimately show ?thesis using False by simp
  next
    case True
    note send = check_send_iff [OF en, of octets now, THEN iffD1, OF True]
    have cool: "gov_cooling_until ?g1 = None" "gov_run ?g1 = run_at g now"
      using send cs by auto
    let ?g2 = "snd (gov_record octets now ?g1)"
    have r: "run_at g now = (if \<exists>l. gov_last_end ?g1 = Some l \<and> RUN_GAP \<le> now - l then 0 else gov_run ?g1)"
      using cool(2) cs(1) by (auto simp: run_at_def)
    have c: "?c = airtime_for (gov_cfg ?g1) octets" by simp
    note rs = record_state [OF en1 c r]
    have new: "current_run (?b # rlog) = run_at g now + ?c"
    proof (cases rlog)
      case Nil
      then show ?thesis using ok by (simp add: run_ok_def run_at_def burst_of_def)
    next
      case (Cons b rest)
      have l: "gov_last_end g = Some (burst_end b)"
        and c: "gov_run g = current_run rlog \<or> gov_run g = 0 \<and> burst_end b + RUN_GAP \<le> now"
        and cd: "gov_cooling_until g = Some u \<Longrightarrow> burst_end b + RUN_GAP \<le> u" for u
        using ok t gap Cons by (auto simp: run_ok_def)
      have "run_at g now = (if burst_end b + RUN_GAP \<le> now then 0 else current_run rlog)"
        using l c cd by (auto simp: run_at_def gap_since dest: le_trans)
      moreover have "current_run (?b # rlog) =
          ?c + (if burst_end b + RUN_GAP \<le> now then 0 else current_run rlog)"
        by (simp add: Cons burst_of_def gap_since')
      ultimately show ?thesis by simp
    qed
    have "rested (at_max_continuous cfg) (at_cooldown cfg) (?b # rlog)"
      using ok t send by (cases rlog) (auto simp: run_ok_def burst_of_def)
    moreover have "current_run (?b # rlog) \<le> at_max_continuous cfg \<or> current_run (?b # rlog) = burst_len ?b"
      using send ok new by (auto simp: run_ok_def burst_of_def)
    ultimately have "run_ok cfg ?g2 (?b # rlog) now"
      using ok en rs new cool(1) record_bursts [OF en1, of octets now]
      by (auto simp: run_ok_def burst_of_def)
    then show ?thesis using True by (simp add: offer_step)
  qed
qed

lemma run_trace:
  assumes "run_ok cfg (fst st) (rev (snd st)) prev" "sorted (prev # event_times es)" "RUN_GAP \<le> at_cooldown cfg"
  shows "\<exists>now. run_ok cfg (fst (fold gov_step es st)) (rev (snd (fold gov_step es st))) now"
  using assms(1,2)
proof (induction es arbitrary: st prev)
  case (Cons e es)
  obtain g hist where st: "st = (g, hist)" by force
  show ?case
  proof (cases e)
    case (Offer octets now)
    have s: "prev \<le> now" "sorted (now # event_times es)" using Cons.prems(2) Offer by auto
    have h: "rev (snd (gov_step (Offer octets now) (g, hist))) =
        (if fst (gov_check octets now g) = TxSend then burst_of (gov_cfg g) octets now # rev hist else rev hist)"
      by (simp add: offer_step)
    have "run_ok cfg (fst (gov_step (Offer octets now) (g, hist))) (rev (snd (gov_step (Offer octets now) (g, hist)))) now"
      unfolding h using Cons.prems(1) st by (intro run_offer [where prev = prev] s(1) assms(3)) simp
    from Cons.IH [OF this s(2)] show ?thesis by (simp add: st Offer)
  next
    case (SetDuty d)
    have "run_ok cfg (set_duty d g) (rev hist) prev"
      using Cons.prems(1) st by (simp add: run_ok_def set_duty_def split: list.splits)
    then show ?thesis using Cons.IH [of "(set_duty d g, hist)" prev] Cons.prems(2) by (simp add: st SetDuty)
  qed
qed auto

lemma run_start: "at_enabled cfg \<Longrightarrow> run_ok cfg (governor_new cfg) [] 0"
  by (simp add: run_ok_def governor_new_def)

section \<open>What the run limit does not bound\<close>

text \<open>
  A station whose frames never bring a run exactly up to the limit is never made to cool down: the gap of
  three seconds ends the run. \<open>burst_duty\<close> says this configuration cannot exceed one half in bursts.
\<close>

definition gap_config :: airtime_config where
  "gap_config = \<lparr>at_enabled = True, at_baud = 1200, at_txdelay = 0, at_txtail = 0, at_window = from_secs 600,
     at_max_duty = 1 / 2, at_max_continuous = from_secs 10, at_cooldown = from_secs 10, at_hourly_budget = 0,
     at_max_hold = from_secs 120, at_stuffing = 1\<rparr>"

lemma gap_cost: "airtime_for gap_config 596 = from_secs 4"
  by (simp add: airtime_for_def gap_config_def FRAMING_OCTETS_def from_micros_def from_secs_def)

lemma gap_allowance: "allowance gap_config = from_secs 300"
  by (simp add: allowance_def effective_duty_def clamp_def gap_config_def HARD_MAX_DUTY_def from_secs_def)

lemma gap_fields:
  "at_enabled gap_config" "at_hourly_budget gap_config = 0" "at_window gap_config = from_secs 600"
  "at_max_continuous gap_config = from_secs 10" "at_cooldown gap_config = from_secs 10"
  by (simp_all add: gap_config_def)

definition gap_offers :: "gov_event list" where
  "gap_offers = map (\<lambda>t. Offer 596 (from_secs t)) [0, 4, 11, 15, 22, 26]"

lemma gap_history:
  "snd (fold gov_step gap_offers (governor_new gap_config, [])) =
     map (\<lambda>t. \<lparr>burst_end = from_secs t, burst_len = from_secs 4\<rparr>) [4, 8, 15, 19, 26, 30]"
  by (simp add: gap_offers_def gov_step.simps(1) gov_check_def governor_new_def check_limits_def gap_cost
      gap_allowance gov_record_def end_run_def run_gap_until_def gov_trim_def retention_def gap_fields
      hourly_budget_window_def airtime_within_def RUN_GAP_def from_secs_def Let_def)

section \<open>Properties\<close>

text \<open>C7: Duty cycle, with the governor enabled and events in the order of their times. Whatever frames are offered and whatever live duty overrides an
  operator sets, the transmissions the governor records keep the transmitter keyed for at most half of any
  window of the configured length (to the rounding of one nanosecond), and for at most the hourly budget, when one is set, in any hour.\<close>

theorem duty_cycle_bounded:
  assumes "at_enabled cfg" "sorted (event_times es)"
  shows "2 * keyed (t - at_window cfg) t (snd (fold gov_step es (governor_new cfg, []))) \<le> at_window cfg + 1 \<and>
    (at_hourly_budget cfg \<noteq> 0 \<longrightarrow>
      keyed (t - from_secs 3600) t (snd (fold gov_step es (governor_new cfg, []))) \<le> at_hourly_budget cfg)"
proof -
  have s: "sorted (0 # event_times es)" using assms(2) by simp
  have sl: "same_limits cfg (gov_cfg (fst (governor_new cfg, [] :: burst list)))"
    by (simp add: same_limits_def governor_new_def)
  have "window_ok (snd (fold gov_step es (governor_new cfg, []))) (at_window cfg) ((at_window cfg + 1) div 2)"
    by (rule trace_run [OF trace_start [OF assms(1)] s sl]) (auto simp: same_limits_def intro!: enforces_duty)
  moreover have "at_hourly_budget cfg \<noteq> 0 \<Longrightarrow>
      window_ok (snd (fold gov_step es (governor_new cfg, []))) (from_secs 3600) (at_hourly_budget cfg)"
    by (rule trace_run [OF trace_start [OF assms(1)] s sl]) (auto simp: same_limits_def intro!: enforces_hour)
  moreover have "2 * k \<le> n" if "k \<le> n div 2" for k n :: nat using that by linarith
  ultimately show ?thesis unfolding window_ok_def by blast
qed

theorem duty_cycle_bounded_witness:
  "2 * keyed (from_secs 700 - from_secs 600) (from_secs 700)
     (snd (fold gov_step gap_offers (governor_new gap_config, []))) \<le> from_secs 600 + 1"
proof -
  have "sorted (event_times gap_offers)" by (simp add: gap_offers_def from_secs_def)
  from duty_cycle_bounded [OF gap_fields(1) this, of "from_secs 700"] show ?thesis by (simp add: gap_fields)
qed

text \<open>The limits a single go-ahead rests on: the governor says \<open>Send\<close> exactly when it is not cooling down, the frame starts a run or
  fits in the one in progress, and the airtime of the frame fits in the duty window and in the hourly budget.\<close>

theorem send_exactly_within_limits:
  assumes "at_enabled (gov_cfg g)"
  shows "fst (gov_check octets now g) = TxSend \<longleftrightarrow>
    (\<forall>u. gov_cooling_until g = Some u \<longrightarrow> u \<le> now) \<and>
    (run_at g now = 0 \<or> run_at g now + airtime_for (gov_cfg g) octets \<le> at_max_continuous (gov_cfg g)) \<and>
    airtime_within (gov_bursts g) now (at_window (gov_cfg g)) + airtime_for (gov_cfg g) octets
      \<le> allowance (gov_cfg g) \<and>
    (at_hourly_budget (gov_cfg g) \<noteq> 0 \<longrightarrow>
      airtime_within (gov_bursts g) now (hourly_budget_window (gov_cfg g)) + airtime_for (gov_cfg g) octets
        \<le> at_hourly_budget (gov_cfg g))"
  by (rule check_send_iff [OF assms])

theorem send_exactly_within_limits_witness:
  "fst (gov_check 596 (from_secs 1) (governor_new gap_config)) = TxSend"
  using send_exactly_within_limits [of "governor_new gap_config" 596 "from_secs 1"]
  by (simp add: governor_new_def gap_fields gap_cost gap_allowance run_at_def from_secs_def)

text \<open>Runs and cooldowns. In any history an unbroken run is within \<open>max_continuous\<close> unless it is one frame longer than
  that by itself, and after a run that reached the limit nothing is transmitted for the whole cooldown.\<close>

theorem runs_bounded_and_rested:
  assumes "at_enabled cfg" "sorted (event_times es)" "RUN_GAP \<le> at_cooldown cfg"
  shows "(let past = rev (snd (fold gov_step es (governor_new cfg, []))) in
    (current_run past \<le> at_max_continuous cfg \<or> (\<exists>b \<in> set past. current_run past = burst_len b)) \<and>
    rested (at_max_continuous cfg) (at_cooldown cfg) past)"
proof -
  have "sorted (0 # event_times es)" using assms(2) by simp
  from run_trace [of cfg "(governor_new cfg, [])" 0 es, OF _ this assms(3)] run_start [OF assms(1)]
  show ?thesis by (auto simp: run_ok_def Let_def)
qed

theorem runs_bounded_and_rested_witness:
  "current_run (rev (snd (fold gov_step gap_offers (governor_new gap_config, [])))) \<le> from_secs 10"
proof -
  have a: "sorted (event_times gap_offers)" by (simp add: gap_offers_def from_secs_def)
  have b: "RUN_GAP \<le> at_cooldown gap_config" by (simp add: gap_fields RUN_GAP_def from_secs_def)
  from runs_bounded_and_rested [OF gap_fields(1) a b] show ?thesis
    by (auto simp: gap_history gap_fields Let_def from_secs_def)
qed

text \<open>Asking does not change the answer: the read-only \<open>time_until_clear\<close> is zero exactly when \<open>check\<close> would
  say \<open>Send\<close>, provided the cooldown is at least the gap that ends a run.\<close>

theorem query_agrees_with_check:
  assumes "at_enabled (gov_cfg g)" "cooldown_covers_gap g" "gov_last_end g = None \<longrightarrow> gov_run g = 0"
  shows "time_until_clear g octets now = 0 \<longleftrightarrow> fst (gov_check octets now g) = TxSend"
  by (rule clear_iff_send [OF assms])

theorem query_agrees_with_check_witness:
  "time_until_clear (governor_new gap_config) 596 0 = 0 \<longleftrightarrow> fst (gov_check 596 0 (governor_new gap_config)) = TxSend"
  by (rule query_agrees_with_check) (simp_all add: governor_new_def gap_fields cooldown_covers_gap_def)

text \<open>The retry delay is exact: when the transmissions still in the window are in order and the delay is above the polling
  floor, the frame fits in the window at every instant strictly after \<open>now + delay\<close> and at none before or at it.\<close>

theorem retry_delay_exact:
  assumes "sorted (map burst_end bs)" "retry_scan now w allow cost (airtime_within bs now w) bs = Some d"
    and "from_millis 100 < d" "now \<le> t"
  shows "airtime_within bs t w + cost \<le> allow \<longleftrightarrow> now + d < t"
  by (rule retry_scan_exact [OF assms])

theorem retry_delay_exact_witness:
  "\<not> airtime_within [\<lparr>burst_end = from_secs 5, burst_len = from_secs 4\<rparr>] (from_secs 15) (from_secs 10) + from_secs 2
     \<le> from_secs 5"
proof -
  let ?bs = "[\<lparr>burst_end = from_secs 5, burst_len = from_secs 4\<rparr>]"
  have "retry_scan (from_secs 6) (from_secs 10) (from_secs 5) (from_secs 2)
      (airtime_within ?bs (from_secs 6) (from_secs 10)) ?bs = Some (from_secs 9)"
    by (simp add: airtime_within_def from_secs_def from_millis_def)
  from retry_delay_exact [OF _ this, of "from_secs 15"] show ?thesis
    by (simp add: from_secs_def from_millis_def)
qed

text \<open>A configuration \<open>check_hardware_safe\<close> accepts, and offers it lets through, with the transmitter keyed for
  24 of 30 seconds: a station whose frames do not fill a run exactly rests three seconds, not the cooldown.\<close>

lemma burst_duty_exceeded:
  "check_hardware_safe gap_config = Inr () \<and> burst_duty gap_config = HARD_MAX_DUTY \<and>
   keyed 0 (from_secs 30) (snd (fold gov_step gap_offers (governor_new gap_config, []))) = from_secs 24"
  unfolding gap_history
  by (simp add: check_hardware_safe_def burst_duty_def gap_fields HARD_MAX_DUTY_def as_secs_def from_secs_def
      keyed_def keyed_between_def Let_def)

end
