(* ===== verification/Scheduler_Proofs.thy ===== *)
theory Scheduler_Proofs
  imports Scheduler
begin

text \<open>
  What the scheduler guarantees: no frame is lost or invented, each class keeps to its depth, the frame that goes next is the
  best candidate and cannot be overtaken for ever, the half-duplex guards hold the transmitter,
  and airtime accounts are bounded from both sides.
\<close>

section \<open>The interface of a transmit queue\<close>

text \<open>
  What the transmit task needs of its queue: it holds a multiset of frames, and the three ways it is
  used add or remove exactly the frame they name.
\<close>

locale transmit_queue =
  fixes contents :: "'s \<Rightarrow> 'i multiset"
    and offer :: "'i \<Rightarrow> 's \<Rightarrow> 's option"
    and take_next :: "instant \<Rightarrow> 's \<Rightarrow> ('i \<times> 's) option"
    and put_back :: "'i \<Rightarrow> instant \<Rightarrow> duration \<Rightarrow> 's \<Rightarrow> 's"
  assumes offer_adds: "offer x s = Some s' \<Longrightarrow> contents s' = add_mset x (contents s)"
    and take_removes: "take_next now s = Some (x, s') \<Longrightarrow> contents s = add_mset x (contents s')"
    and put_back_adds: "contents (put_back x now d s) = add_mset x (contents s)"
begin

lemma take_put_back: "take_next now s = Some (x, s') \<Longrightarrow> contents (put_back x t d s') = contents s"
  by (simp add: take_removes put_back_adds)

lemma taken_was_offered: "take_next now s = Some (x, s') \<Longrightarrow> x \<in># contents s"
  by (simp add: take_removes)

lemma nothing_lost: "take_next now s = Some (x, s') \<Longrightarrow> offer y s' = Some s'' \<Longrightarrow>
    add_mset x (contents s'') = add_mset y (contents s)"
  by (simp add: take_removes offer_adds)

end

section \<open>Contents\<close>

definition sched_contents :: "'a scheduler \<Rightarrow> 'a queued multiset" where
  "sched_contents s = mset (concat (map (sd_queues s) queue_order))"

lemma contents_classes:
  "sched_contents s = mset (sd_queues s CChat) + mset (sd_queues s CDirect) + mset (sd_queues s CControl)
     + mset (sd_queues s CAck) + mset (sd_queues s CId)"
  by (simp add: sched_contents_def queue_order_def)

lemma contents_set_queue:
  "sched_contents (set_queue c q s) + mset (sd_queues s c) = sched_contents s + mset q"
  by (cases c) (simp_all add: contents_classes set_queue_def)

lemma contents_add: "mset q = add_mset x (mset (sd_queues s c)) \<Longrightarrow>
    sched_contents (set_queue c q s) = add_mset x (sched_contents s)"
  using contents_set_queue [of c q s] by simp

lemma contents_cong: "sd_queues s = sd_queues s' \<Longrightarrow> sched_contents s = sched_contents s'"
  by (simp add: sched_contents_def)

lemma contents_frame [simp]:
  "sched_contents (s\<lparr>sd_refused := n\<rparr>) = sched_contents s"
  "sched_contents (s\<lparr>sd_pace_until := t\<rparr>) = sched_contents s"
  by (simp_all add: sched_contents_def)

lemma mset_remove_at: "i < length xs \<Longrightarrow> mset xs = add_mset (xs ! i) (mset (remove_at i xs))"
proof -
  assume i: "i < length xs"
  have "mset xs = mset (take i xs @ xs ! i # drop (Suc i) xs)" using remove_at_split [OF i] by simp
  then show ?thesis by (simp add: remove_at_def)
qed

lemma push_contents:
  "sched_contents (snd (sched_push item s)) =
     (if fst (sched_push item s) = Inr () then add_mset item (sched_contents s) else sched_contents s)"
proof (cases "sc_depth (sd_cfg s) (q_class item) \<le> length (sd_queues s (q_class item))")
  case True
  then show ?thesis by (simp add: sched_push_def Let_def contents_frame)
next
  case False
  then show ?thesis by (simp add: sched_push_def Let_def contents_add)
qed

lemma requeue_contents: "sched_contents (sched_requeue item now d s) = add_mset item (sched_contents s)"
proof -
  let ?s = "s\<lparr>sd_pace_until := Some (case sd_pace_until s of Some t \<Rightarrow> max t (now + d) | None \<Rightarrow> now + d)\<rparr>"
  have "sched_contents (set_queue (q_class item) (item # sd_queues s (q_class item)) ?s) =
      add_mset item (sched_contents ?s)"
    by (rule contents_add) simp
  then show ?thesis by (simp add: sched_requeue_def Let_def contents_cong [of ?s s])
qed

lemma expire_contents:
  "sched_contents s = mset (fst (sched_expire now s)) + sched_contents (snd (sched_expire now s))"
proof -
  define F where "F c = filter (held_too_long (sd_cfg s) now) (sd_queues s c)" for c
  define K where "K c = filter (\<lambda>i. \<not> held_too_long (sd_cfg s) now i) (sd_queues s c)" for c
  have m: "mset (sd_queues s c) = mset (F c) + mset (K c)" for c
    unfolding F_def K_def by (induction "sd_queues s c") auto
  have out: "mset (fst (sched_expire now s)) = mset (F CChat) + mset (F CDirect) + mset (F CControl)"
    unfolding F_def by (simp add: sched_expire_def Let_def expiring_classes_def del: mset_filter)
  have keep: "sched_contents (snd (sched_expire now s)) = mset (K CChat) + mset (K CDirect) + mset (K CControl)
      + mset (sd_queues s CAck) + mset (sd_queues s CId)"
    unfolding K_def by (simp add: contents_classes sched_expire_def Let_def expiring_classes_def del: mset_filter)
  have all: "sched_contents s = (mset (F CChat) + mset (K CChat)) + (mset (F CDirect) + mset (K CDirect))
      + (mset (F CControl) + mset (K CControl)) + mset (sd_queues s CAck) + mset (sd_queues s CId)"
    by (simp only: contents_classes m)
  show ?thesis unfolding out keep all by (simp only: add_ac)
qed

lemma drain_contents:
  "sched_contents s = mset (fst (sched_drain s)) \<and> sched_contents (snd (sched_drain s)) = {#}"
  by (simp add: sched_contents_def sched_drain_def queue_order_def)

lemma drain_except_contents:
  "sched_contents s = mset (fst (sched_drain_except keep s)) + sched_contents (snd (sched_drain_except keep s))"
  by (cases keep) (simp_all add: contents_classes sched_drain_except_def all_classes_def add_ac)

section \<open>Which frame goes next\<close>

lemma candidate_None: "candidate s now c = None \<longleftrightarrow> sd_queues s c = []"
  by (auto simp: candidate_def split: option.splits)

lemma candidate_bound: "candidate s now c = Some i \<Longrightarrow> i < length (sd_queues s c)"
  by (auto simp: candidate_def split: if_splits option.splits dest: position_Some)

definition best_of :: "'a scheduler \<Rightarrow> instant \<Rightarrow> tx_class set \<Rightarrow> (tx_class \<times> nat \<times> rat) option \<Rightarrow> bool" where
  "best_of s now C b \<longleftrightarrow>
     (case b of
        None \<Rightarrow> \<forall>c \<in> C. candidate s now c = None
      | Some (c, i, sc) \<Rightarrow> candidate s now c = Some i \<and> sc = score s now (sd_queues s c ! i) \<and>
          (\<forall>c' \<in> C. \<forall>i'. candidate s now c' = Some i' \<longrightarrow> score s now (sd_queues s c' ! i') \<le> sc))"

lemma weigh_best: "best_of s now C b \<Longrightarrow> best_of s now (insert c C) (weigh s now c b)"
  by (auto simp: best_of_def weigh_def Let_def split: option.splits prod.splits if_splits)

lemma weigh_all: "best_of s now C b \<Longrightarrow> best_of s now (set cs \<union> C) (fold (weigh s now) cs b)"
proof (induction cs arbitrary: b C)
  case (Cons c cs)
  from Cons.IH [OF weigh_best [OF Cons.prems]] show ?case by (simp add: insert_commute Un_commute)
qed simp

lemma every_class: "c \<in> set all_classes" "c \<in> set queue_order"
  by (cases c; simp add: all_classes_def queue_order_def)+

lemma pop_choice:
  "best_of s now UNIV (fold (weigh s now) all_classes None)"
proof -
  have "set all_classes \<union> {} = (UNIV :: tx_class set)" using every_class by auto
  then show ?thesis using weigh_all [of s now "{}" None all_classes] by (simp add: best_of_def)
qed

lemma pop_cases:
  obtains "sched_pop now s = (None, s)" "\<And>c. sd_queues s c = []"
  | c i where "candidate s now c = Some i" "i < length (sd_queues s c)"
      "sched_pop now s = (Some (sd_queues s c ! i), set_queue c (remove_at i (sd_queues s c)) s)"
      "\<And>c' i'. candidate s now c' = Some i' \<Longrightarrow>
         score s now (sd_queues s c' ! i') \<le> score s now (sd_queues s c ! i)"
proof (cases "fold (weigh s now) all_classes None")
  case None
  then have "candidate s now c = None" for c using pop_choice [of s now] by (simp add: best_of_def)
  then have "sd_queues s c = []" for c by (simp add: candidate_None)
  then show ?thesis using None that(1) by (simp add: sched_pop_def)
next
  case (Some r)
  obtain c i sc where r: "r = (c, i, sc)" by (metis prod_cases3)
  then have b: "candidate s now c = Some i" "sc = score s now (sd_queues s c ! i)"
    "\<And>c' i'. candidate s now c' = Some i' \<Longrightarrow> score s now (sd_queues s c' ! i') \<le> sc"
    using pop_choice [of s now] Some by (auto simp: best_of_def)
  show ?thesis
    by (rule that(2) [OF b(1) candidate_bound [OF b(1)]]) (use Some r b in \<open>auto simp: sched_pop_def\<close>)
qed

lemma pop_contents:
  "fst (sched_pop now s) = Some x \<Longrightarrow> sched_contents s = add_mset x (sched_contents (snd (sched_pop now s)))"
proof (rule pop_cases [where s = s and now = now])
  fix c i
  assume x: "fst (sched_pop now s) = Some x" and i: "i < length (sd_queues s c)"
    and p: "sched_pop now s = (Some (sd_queues s c ! i), set_queue c (remove_at i (sd_queues s c)) s)"
  have "sched_contents (set_queue c (remove_at i (sd_queues s c)) s) + mset (sd_queues s c) =
      sched_contents s + mset (remove_at i (sd_queues s c))" by (rule contents_set_queue)
  with mset_remove_at [OF i] x p show ?thesis by simp
qed simp

definition push_option :: "'a queued \<Rightarrow> 'a scheduler \<Rightarrow> 'a scheduler option" where
  "push_option x s = (case sched_push x s of (Inr _, s') \<Rightarrow> Some s' | (Inl _, _) \<Rightarrow> None)"

definition pop_option :: "instant \<Rightarrow> 'a scheduler \<Rightarrow> ('a queued \<times> 'a scheduler) option" where
  "pop_option now s = (case sched_pop now s of (Some x, s') \<Rightarrow> Some (x, s') | (None, _) \<Rightarrow> None)"

interpretation sched_queue: transmit_queue sched_contents push_option pop_option sched_requeue
proof unfold_locales
  fix x now d and s s' :: "'a scheduler"
  show "push_option x s = Some s' \<Longrightarrow> sched_contents s' = add_mset x (sched_contents s)"
    using push_contents [of x s] by (auto simp: push_option_def split: prod.splits sum.splits)
  show "pop_option now s = Some (x, s') \<Longrightarrow> sched_contents s = add_mset x (sched_contents s')"
    using pop_contents [of now s x] by (auto simp: pop_option_def split: prod.splits option.splits)
  show "sched_contents (sched_requeue x now d s) = add_mset x (sched_contents s)"
    by (rule requeue_contents)
qed

text \<open>Within a class only a dearer frame of the same account can be passed.\<close>

lemma pop_order:
  assumes "sched_pop now s = (Some x, s')"
  obtains c i where "x = sd_queues s c ! i" "i < length (sd_queues s c)"
    "s' = set_queue c (remove_at i (sd_queues s c)) s"
    "\<And>j. j < i \<Longrightarrow> q_account (sd_queues s c ! j) = q_account x \<Longrightarrow> q_cost x < q_cost (sd_queues s c ! j)"
proof (rule pop_cases [where s = s and now = now])
  fix c i
  assume i: "i < length (sd_queues s c)" and k: "candidate s now c = Some i"
    and p: "sched_pop now s = (Some (sd_queues s c ! i), set_queue c (remove_at i (sd_queues s c)) s)"
  have x: "x = sd_queues s c ! i" "s' = set_queue c (remove_at i (sd_queues s c)) s" using assms p by auto
  have "q_cost x < q_cost (sd_queues s c ! j)"
    if j: "j < i" "q_account (sd_queues s c ! j) = q_account x" for j
  proof -
    have pos: "position (\<lambda>i. funded s (q_account i) (q_cost i) now) (sd_queues s c) = Some i"
      using k j(1) by (auto simp: candidate_def split: if_splits option.splits)
    from position_Some [OF pos] j have "funded s (q_account x) (q_cost x) now"
      "\<not> funded s (q_account x) (q_cost (sd_queues s c ! j)) now" using x by auto
    then have "as_secs (q_cost x) < as_secs (q_cost (sd_queues s c ! j))" by (simp add: funded_def)
    then show ?thesis by (simp add: not_le [symmetric])
  qed
  with that x i show thesis by blast
qed (use assms in simp)

section \<open>Ageing\<close>

lemma score_bounds:
  assumes "0 \<le> sc_unfunded_penalty (sd_cfg s)"
  defines "a \<equiv> max (as_secs (sc_aging (sd_cfg s))) (1 / 1000)"
  shows "score s now x \<le> 4 + as_secs (now - q_queued_at x) / a"
    and "as_secs (now - q_queued_at x) / a - sc_unfunded_penalty (sd_cfg s) \<le> score s now x"
proof -
  have "class_value (q_class x) \<le> 4" by (cases "q_class x") auto
  then have "of_nat (class_value (q_class x)) \<le> (4 :: rat)" by simp
  then show "score s now x \<le> 4 + as_secs (now - q_queued_at x) / a"
    "as_secs (now - q_queued_at x) / a - sc_unfunded_penalty (sd_cfg s) \<le> score s now x"
    using assms(1) by (simp_all add: score_def a_def Let_def)
qed

lemma overtaking_bound:
  assumes "0 \<le> sc_unfunded_penalty (sd_cfg s)" "score s now y \<le> score s now x"
  shows "as_secs (now - q_queued_at y) \<le> as_secs (now - q_queued_at x) +
    (4 + sc_unfunded_penalty (sd_cfg s)) * max (as_secs (sc_aging (sd_cfg s))) (1 / 1000)"
proof -
  define a where "a = max (as_secs (sc_aging (sd_cfg s))) (1 / 1000)"
  have a: "0 < a" by (simp add: a_def)
  define p wx wy where "p = sc_unfunded_penalty (sd_cfg s)" and "wx = as_secs (now - q_queued_at x)"
    and "wy = as_secs (now - q_queued_at y)"
  have "wy / a - p \<le> 4 + wx / a"
    using score_bounds [OF assms(1), of now] assms(2) unfolding a_def p_def wx_def wy_def
    by (meson order_trans)
  then have "wy / a \<le> (wx + (4 + p) * a) / a" using a by (simp add: add_divide_distrib)
  then have "wy \<le> wx + (4 + p) * a" using a by (simp add: divide_le_cancel)
  then show ?thesis by (simp add: a_def p_def wx_def wy_def)
qed

section \<open>Guards\<close>

lemma fold_max_start: "m \<le> fold max xs (m :: nat)"
proof (induction xs arbitrary: m)
  case (Cons y ys)
  show ?case using Cons.IH [of "max y m"] by simp
qed simp

lemma fold_max_mem: "x \<in> set xs \<Longrightarrow> x \<le> fold max xs (m :: nat)"
proof (induction xs arbitrary: m)
  case (Cons y ys)
  then show ?case using fold_max_start [of "max y m" ys] by auto
qed simp

lemma blocked_ge:
  assumes "sd_pace_until s = Some t \<or> sd_reply_until s = Some t \<or>
     (\<exists>h. sd_last_heard s = Some h \<and> t = h + sc_rx_guard (sd_cfg s))"
  shows "\<exists>b. blocked_until s = Some b \<and> t \<le> b"
proof -
  define armed where "armed = concat (map (case_option [] (\<lambda>t. [t])) [sd_pace_until s, sd_reply_until s,
    map_option (\<lambda>t. t + sc_rx_guard (sd_cfg s)) (sd_last_heard s)])"
  have "t \<in> set armed" using assms by (auto simp: armed_def)
  moreover have "blocked_until s = (if armed = [] then None else Some (fold max armed 0))"
    by (simp only: blocked_until_def Let_def armed_def)
  ultimately show ?thesis using fold_max_mem [of t armed 0] by (cases armed) auto
qed

lemma ready_guards:
  assumes "sched_poll now s = PollReady"
  shows "(\<exists>c. sd_queues s c \<noteq> []) \<and> (\<forall>t. sd_pace_until s = Some t \<longrightarrow> t \<le> now) \<and>
    (\<forall>t. sd_reply_until s = Some t \<longrightarrow> t \<le> now) \<and>
    (\<forall>h. sd_last_heard s = Some h \<longrightarrow> h + sc_rx_guard (sd_cfg s) \<le> now)"
proof -
  have ne: "\<exists>c. sd_queues s c \<noteq> []" and b: "\<And>b. blocked_until s = Some b \<Longrightarrow> b \<le> now"
    using assms by (auto simp: sched_poll_def sched_is_empty_def list_all_iff split: if_splits option.splits)
  have le: "t \<le> now" if "\<exists>b. blocked_until s = Some b \<and> t \<le> b" for t
    using that b le_trans by blast
  show ?thesis using ne le [OF blocked_ge [of s]] by blast
qed

lemma pop_some: "sched_poll now s \<noteq> PollIdle \<Longrightarrow> fst (sched_pop t s) \<noteq> None"
  by (rule pop_cases [where s = s and now = t]) (auto simp: sched_poll_def sched_is_empty_def list_all_iff)

section \<open>Accounts\<close>

abbreviation burst_of :: "'a scheduler \<Rightarrow> rat" where
  "burst_of s \<equiv> as_secs (sc_station_burst (sd_cfg s))"

abbreviation floor_of :: "'a scheduler \<Rightarrow> rat" where
  "floor_of s \<equiv> - burst_of s * max (sc_max_deficit (sd_cfg s)) 0"

definition buckets_ok :: "'a scheduler \<Rightarrow> bool" where
  "buckets_ok s \<longleftrightarrow> table_ok (sd_buckets s) \<and> length (sd_buckets s) \<le> max 1 (sc_max_accounts (sd_cfg s)) \<and>
     (\<forall>a b. map_of (sd_buckets s) a = Some b \<longrightarrow> floor_of s \<le> bk_tokens b \<and> bk_tokens b \<le> burst_of s)"

lemma floor_nonpos: "floor_of s \<le> 0"
  by (simp add: mult_nonneg_nonneg)

lemma tokens_le_burst: "tokens s a now \<le> burst_of s"
  by (simp add: tokens_def Let_def split: option.splits)

lemma debit_ok [wf_intros]:
  assumes "buckets_ok s"
  shows "buckets_ok (debit account now cost s)"
proof -
  let ?m = "fst (make_room (sc_max_accounts (sd_cfg s)) bk_last account (sd_buckets s))"
  let ?t = "max (tokens s account now - as_secs cost) (floor_of s)"
  have "length (AList.update account v ?m) \<le> max 1 (sc_max_accounts (sd_cfg s))" for v
    using assms by (intro make_room_put_max) (simp add: buckets_ok_def)
  moreover have "floor_of s \<le> ?t" by simp
  moreover have "?t \<le> burst_of s"
    using tokens_le_burst [of s account now] as_secs_nonneg [of cost] floor_nonpos [of s]
      as_secs_nonneg [of "sc_station_burst (sd_cfg s)"] by (simp only: max.bounded_iff) linarith
  moreover have "floor_of s \<le> bk_tokens b \<and> bk_tokens b \<le> burst_of s" if "map_of ?m a = Some b" for a b
    using that assms by (auto simp: buckets_ok_def dest: make_room_values)
  moreover have "table_ok ?m" using assms by (simp add: buckets_ok_def)
  ultimately show ?thesis by (simp add: buckets_ok_def debit_def Let_def)
qed

text \<open>Overspending is a handicap and never a ban: silence long enough restores full credit.\<close>

lemma credit_recovers:
  assumes "buckets_ok s" "0 \<le> sc_station_rate (sd_cfg s)"
    and "\<forall>b. map_of (sd_buckets s) account = Some b \<longrightarrow>
      burst_of s * (1 + max (sc_max_deficit (sd_cfg s)) 0) \<le> as_secs (now - bk_last b) * sc_station_rate (sd_cfg s)"
    and "cost \<le> sc_station_burst (sd_cfg s)"
  shows "funded s account cost now"
proof (cases "map_of (sd_buckets s) account")
  case None
  then show ?thesis using assms(4) by (simp add: funded_def tokens_def)
next
  case (Some b)
  then have "floor_of s \<le> bk_tokens b" using assms(1) by (simp add: buckets_ok_def)
  moreover have "burst_of s * (1 + max (sc_max_deficit (sd_cfg s)) 0) \<le>
      as_secs (now - bk_last b) * sc_station_rate (sd_cfg s)" using assms(3) Some by blast
  ultimately have "burst_of s \<le> bk_tokens b + as_secs (now - bk_last b) * sc_station_rate (sd_cfg s)"
    by (simp add: algebra_simps)
  then have "tokens s account now = burst_of s" using Some by (simp add: tokens_def Let_def)
  then show ?thesis using assms(4) by (simp add: funded_def)
qed

section \<open>The machine\<close>

text \<open>
  The scheduler as the transmit task drives it: besides the queue there is at most one frame in the
  task's hands, popped and not yet transmitted, dropped or put back. Frames may be pushed
  meanwhile, because the lock is not held.
\<close>

record 'a sched_run =
  sr_sched :: "'a scheduler"
  sr_held :: "'a queued option"
  sr_accepted :: "'a queued multiset"
  sr_gone :: "'a queued multiset"

datatype 'a sched_op =
    Push "'a queued"
  | Pop instant
  | PutBack instant duration
  | Discard
  | KeyedUp instant duration
  | Heard instant
  | Expire instant
  | DrainAll
  | DrainExcept tx_class
  | MinGap duration
  | ExpireAccounts instant duration

definition held_mset :: "'a sched_run \<Rightarrow> 'a queued multiset" where
  "held_mset r = (case sr_held r of None \<Rightarrow> {#} | Some x \<Rightarrow> {#x#})"

fun sched_step :: "'a sched_op \<Rightarrow> 'a sched_run \<Rightarrow> 'a sched_run" where
  "sched_step (Push x) r =
     (case sched_push x (sr_sched r) of
        (Inr _, s) \<Rightarrow> r\<lparr>sr_sched := s, sr_accepted := add_mset x (sr_accepted r)\<rparr>
      | (Inl _, s) \<Rightarrow> r\<lparr>sr_sched := s\<rparr>)"
| "sched_step (Pop now) r =
     (if sr_held r \<noteq> None then r
      else (case sched_pop now (sr_sched r) of (x, s) \<Rightarrow> r\<lparr>sr_sched := s, sr_held := x\<rparr>))"
| "sched_step (PutBack now d) r =
     (case sr_held r of
        None \<Rightarrow> r
      | Some x \<Rightarrow> r\<lparr>sr_sched := sched_requeue x now d (sr_sched r), sr_held := None\<rparr>)"
| "sched_step Discard r = r\<lparr>sr_held := None, sr_gone := sr_gone r + held_mset r\<rparr>"
| "sched_step (KeyedUp now keyed) r =
     (case sr_held r of
        None \<Rightarrow> r
      | Some x \<Rightarrow> r\<lparr>sr_sched := sched_on_keyed now (q_account x) keyed (q_expects_reply x) (sr_sched r),
                    sr_held := None, sr_gone := add_mset x (sr_gone r)\<rparr>)"
| "sched_step (Heard now) r = r\<lparr>sr_sched := sched_on_heard now (sr_sched r)\<rparr>"
| "sched_step (Expire now) r =
     (case sched_expire now (sr_sched r) of (out, s) \<Rightarrow> r\<lparr>sr_sched := s, sr_gone := sr_gone r + mset out\<rparr>)"
| "sched_step DrainAll r =
     (case sched_drain (sr_sched r) of (out, s) \<Rightarrow> r\<lparr>sr_sched := s, sr_gone := sr_gone r + mset out\<rparr>)"
| "sched_step (DrainExcept keep) r =
     (case sched_drain_except keep (sr_sched r) of (out, s) \<Rightarrow> r\<lparr>sr_sched := s, sr_gone := sr_gone r + mset out\<rparr>)"
| "sched_step (MinGap g) r = r\<lparr>sr_sched := set_min_gap g (sr_sched r)\<rparr>"
| "sched_step (ExpireAccounts now idle) r = r\<lparr>sr_sched := expire_accounts now idle (sr_sched r)\<rparr>"

definition run_new :: "scheduler_config \<Rightarrow> 'a sched_run" where
  "run_new cfg = \<lparr>sr_sched = scheduler_new cfg, sr_held = None, sr_accepted = {#}, sr_gone = {#}\<rparr>"

definition held_in :: "tx_class \<Rightarrow> 'a sched_run \<Rightarrow> nat" where
  "held_in c r = (case sr_held r of Some x \<Rightarrow> if q_class x = c then 1 else 0 | None \<Rightarrow> 0)"

definition queues_ok :: "'a sched_run \<Rightarrow> bool" where
  "queues_ok r \<longleftrightarrow> (\<forall>c. (\<forall>x \<in> set (sd_queues (sr_sched r) c). q_class x = c) \<and>
     length (sd_queues (sr_sched r) c) + held_in c r \<le> sc_depth (sd_cfg (sr_sched r)) c + 1)"

definition conserved :: "'a sched_run \<Rightarrow> bool" where
  "conserved r \<longleftrightarrow> sr_accepted r = sched_contents (sr_sched r) + held_mset r + sr_gone r"

definition sched_ok :: "'a sched_run \<Rightarrow> bool" where
  "sched_ok r \<longleftrightarrow> queues_ok r \<and> conserved r \<and> buckets_ok (sr_sched r)"

lemma sched_new_ok: "sched_ok (run_new cfg)"
  by (simp add: sched_ok_def run_new_def queues_ok_def conserved_def buckets_ok_def scheduler_new_def
      held_in_def held_mset_def sched_contents_def queue_order_def)

lemma debit_frame [frame_simps, simp]:
  "sd_queues (debit a now c s) = sd_queues s" "sd_cfg (debit a now c s) = sd_cfg s"
  by (simp_all add: debit_def Let_def)

lemma other_frames [frame_simps, simp]:
  "sd_queues (sched_on_keyed now a k e s) = sd_queues s" "sd_cfg (sched_on_keyed now a k e s) = sd_cfg s"
  "sd_queues (sched_on_heard now s) = sd_queues s" "sd_cfg (sched_on_heard now s) = sd_cfg s"
  "sd_queues (set_min_gap g s) = sd_queues s" "sd_queues (expire_accounts now i s) = sd_queues s"
  "sd_cfg (expire_accounts now i s) = sd_cfg s" "sd_cfg (set_queue c q s) = sd_cfg s"
  "sd_cfg (sched_requeue item now d s) = sd_cfg s" "sd_cfg (snd (sched_expire now s)) = sd_cfg s"
  "sd_cfg (snd (sched_drain s)) = sd_cfg s" "sd_cfg (snd (sched_drain_except keep s)) = sd_cfg s"
  "sd_cfg (snd (sched_push item s)) = sd_cfg s"
  by (simp_all add: sched_on_keyed_def sched_on_heard_def set_min_gap_def expire_accounts_def set_queue_def
      sched_requeue_def sched_expire_def sched_drain_def sched_drain_except_def sched_push_def Let_def)

lemma depth_min_gap [simp]: "sc_depth (sd_cfg (set_min_gap g s)) = sc_depth (sd_cfg s)"
  by (simp add: set_min_gap_def)

lemma buckets_ok_cong:
  "buckets_ok s \<Longrightarrow> sd_buckets s' = sd_buckets s \<Longrightarrow>
     sc_station_burst (sd_cfg s') = sc_station_burst (sd_cfg s) \<Longrightarrow> sc_max_deficit (sd_cfg s') = sc_max_deficit (sd_cfg s) \<Longrightarrow>
     sc_max_accounts (sd_cfg s') = sc_max_accounts (sd_cfg s) \<Longrightarrow> buckets_ok s'"
  by (simp add: buckets_ok_def)

subsection \<open>Buckets\<close>

lemma expire_accounts_ok [wf_intros]: "buckets_ok s \<Longrightarrow> buckets_ok (expire_accounts now idle s)"
  by (auto simp: buckets_ok_def expire_accounts_def map_of_filter_key
      intro: le_trans [OF length_filter_le] split: option.splits if_splits)

lemma step_buckets: "buckets_ok (sr_sched r) \<Longrightarrow> buckets_ok (sr_sched (sched_step x r))"
proof (cases x)
  case (Push i)
  then show "buckets_ok (sr_sched r) \<Longrightarrow> buckets_ok (sr_sched (sched_step x r))"
    by (auto simp: sched_push_def Let_def set_queue_def intro: buckets_ok_cong)
next
  case (Pop now)
  then show "buckets_ok (sr_sched r) \<Longrightarrow> buckets_ok (sr_sched (sched_step x r))"
    by (auto simp: sched_pop_def set_queue_def intro: buckets_ok_cong split: option.splits)
next
  case (KeyedUp now k)
  have "buckets_ok (sched_on_keyed now a k e s)" if "buckets_ok s" for a e and s :: "'a scheduler"
    using debit_ok [OF that, of a now k] by (rule buckets_ok_cong) (simp_all add: sched_on_keyed_def Let_def)
  with KeyedUp show "buckets_ok (sr_sched r) \<Longrightarrow> buckets_ok (sr_sched (sched_step x r))"
    by (auto split: option.splits)
next
  case (ExpireAccounts now idle)
  then show "buckets_ok (sr_sched r) \<Longrightarrow> buckets_ok (sr_sched (sched_step x r))"
    by (simp add: expire_accounts_ok)
qed (auto simp: sched_requeue_def set_queue_def Let_def sched_on_heard_def sched_expire_def sched_drain_def
      sched_drain_except_def set_min_gap_def intro: buckets_ok_cong split: option.splits)

subsection \<open>Conservation\<close>

lemma step_conserved: "conserved r \<Longrightarrow> conserved (sched_step x r)"
proof (cases x)
  case (Push i)
  then show "conserved r \<Longrightarrow> conserved (sched_step x r)"
    using push_contents [of i "sr_sched r"]
    by (auto simp: conserved_def held_mset_def split: prod.splits sum.splits)
next
  case (Pop now)
  assume c: "conserved r"
  show ?thesis
  proof (cases "sr_held r")
    case None
    obtain y s' where p: "sched_pop now (sr_sched r) = (y, s')" by force
    show ?thesis
    proof (cases y)
      case None
      then have "s' = sr_sched r" using p by (auto simp: sched_pop_def split: option.splits)
      then show ?thesis using c Pop p None \<open>sr_held r = None\<close> by (simp add: conserved_def held_mset_def)
    next
      case (Some z)
      then have "sched_contents (sr_sched r) = add_mset z (sched_contents s')"
        using pop_contents [of now "sr_sched r" z] p by simp
      then show ?thesis using c Pop p Some None by (simp add: conserved_def held_mset_def)
    qed
  qed (use c Pop in simp)
next
  case (PutBack now d)
  then show "conserved r \<Longrightarrow> conserved (sched_step x r)"
    by (auto simp: conserved_def held_mset_def requeue_contents split: option.splits)
next
  case (Expire now)
  then show "conserved r \<Longrightarrow> conserved (sched_step x r)"
    using expire_contents [of "sr_sched r" now]
    by (auto simp: conserved_def held_mset_def add_ac split: prod.splits)
next
  case (DrainExcept keep)
  then show "conserved r \<Longrightarrow> conserved (sched_step x r)"
    using drain_except_contents [of "sr_sched r" keep]
    by (auto simp: conserved_def held_mset_def add_ac split: prod.splits)
next
  case DrainAll
  then show "conserved r \<Longrightarrow> conserved (sched_step x r)"
    using drain_contents [of "sr_sched r"]
    by (auto simp: conserved_def held_mset_def add_ac split: prod.splits)
next
  case (KeyedUp now k)
  have "sched_contents (sched_on_keyed now a k e s) = sched_contents s" for a e and s :: "'a scheduler"
    by (rule contents_cong) simp
  with KeyedUp show "conserved r \<Longrightarrow> conserved (sched_step x r)"
    by (auto simp: conserved_def held_mset_def split: option.splits)
qed (auto simp: conserved_def held_mset_def add_ac intro!: contents_cong)

subsection \<open>Depth\<close>

lemma queues_okD:
  assumes "queues_ok r"
  shows "x \<in> set (sd_queues (sr_sched r) c) \<Longrightarrow> q_class x = c"
    and "length (sd_queues (sr_sched r) c) + held_in c r \<le> sc_depth (sd_cfg (sr_sched r)) c + 1"
  using assms by (auto simp: queues_ok_def)

lemma queues_ok_shrink:
  assumes "queues_ok r" "sc_depth (sd_cfg (sr_sched r')) = sc_depth (sd_cfg (sr_sched r))"
    and "\<And>c. set (sd_queues (sr_sched r') c) \<subseteq> set (sd_queues (sr_sched r) c)"
    and "\<And>c. length (sd_queues (sr_sched r') c) \<le> length (sd_queues (sr_sched r) c)"
    and "\<And>c. held_in c r' \<le> held_in c r"
  shows "queues_ok r'"
  unfolding queues_ok_def
proof (intro allI conjI ballI)
  fix c
  show "q_class x = c" if "x \<in> set (sd_queues (sr_sched r') c)" for x
    using that assms(3) [of c] queues_okD(1) [OF assms(1)] by blast
  show "length (sd_queues (sr_sched r') c) + held_in c r' \<le> sc_depth (sd_cfg (sr_sched r')) c + 1"
    using queues_okD(2) [OF assms(1), of c] assms(4,5) [of c] unfolding assms(2) by linarith
qed

lemma held_in_cong: "sr_held r' = sr_held r \<Longrightarrow> held_in c r' \<le> held_in c r"
  "sr_held r' = None \<Longrightarrow> held_in c r' \<le> held_in c r"
  by (simp_all add: held_in_def)

lemma step_queues: "queues_ok r \<Longrightarrow> queues_ok (sched_step x r)"
proof (cases x)
  case (Push i)
  assume ok: "queues_ok r"
  show ?thesis
  proof (cases "sc_depth (sd_cfg (sr_sched r)) (q_class i) \<le> length (sd_queues (sr_sched r) (q_class i))")
    case True
    then show ?thesis using ok Push by (simp add: sched_push_def Let_def queues_ok_def held_in_def)
  next
    case False
    then show ?thesis using ok Push
      by (auto simp: sched_push_def Let_def queues_ok_def held_in_def set_queue_def split: option.splits)
  qed
next
  case (Pop now)
  assume ok: "queues_ok r"
  show ?thesis
  proof (cases "sr_held r")
    case None
    show ?thesis
    proof (rule pop_cases [where s = "sr_sched r" and now = now])
      assume "sched_pop now (sr_sched r) = (None, sr_sched r)"
      then show ?thesis using ok Pop None by (simp add: queues_ok_def held_in_def)
    next
      fix c i
      assume i: "i < length (sd_queues (sr_sched r) c)"
        and p: "sched_pop now (sr_sched r) = (Some (sd_queues (sr_sched r) c ! i),
          set_queue c (remove_at i (sd_queues (sr_sched r) c)) (sr_sched r))"
      have "q_class (sd_queues (sr_sched r) c ! i) = c" using ok i by (simp add: queues_ok_def)
      moreover have "length (remove_at i (sd_queues (sr_sched r) c)) + 1 = length (sd_queues (sr_sched r) c)"
        using i by (simp add: remove_at_length)
      moreover from this have "length (remove_at i (sd_queues (sr_sched r) c)) \<le> sc_depth (sd_cfg (sr_sched r)) c"
        using queues_okD(2) [OF ok, of c] by linarith
      ultimately show ?thesis using ok Pop None p
          set_remove_at [of i "sd_queues (sr_sched r) c"]
        by (auto simp: queues_ok_def held_in_def set_queue_def subset_iff)
    qed
  qed (use ok Pop in simp)
next
  case (PutBack now d)
  assume ok: "queues_ok r"
  show ?thesis
  proof (cases "sr_held r")
    case (Some i)
    have q: "sd_queues (sched_requeue i now d (sr_sched r)) =
        (sd_queues (sr_sched r))(q_class i := i # sd_queues (sr_sched r) (q_class i))"
      by (simp add: sched_requeue_def set_queue_def Let_def)
    have h: "held_in c r = (if q_class i = c then 1 else 0)" for c using Some by (simp add: held_in_def)
    have b: "length (sd_queues (sr_sched r) c) + (if q_class i = c then 1 else 0) \<le> sc_depth (sd_cfg (sr_sched r)) c + 1" for c
      using queues_okD(2) [OF ok, of c] by (simp only: h)
    have len: "length (((sd_queues (sr_sched r))(q_class i := i # sd_queues (sr_sched r) (q_class i))) c)
        \<le> sc_depth (sd_cfg (sr_sched r)) c + 1" for c
      using b [of c] by (cases "q_class i = c") simp_all
    have cls: "z \<in> set (((sd_queues (sr_sched r))(q_class i := i # sd_queues (sr_sched r) (q_class i))) c) \<Longrightarrow>
        q_class z = c" for z c
      using queues_okD(1) [OF ok] by (auto split: if_splits)
    have r': "sr_sched (sched_step x r) = sched_requeue i now d (sr_sched r)" "held_in c (sched_step x r) = 0" for c
      using PutBack Some by (simp_all add: held_in_def)
    show ?thesis
      unfolding queues_ok_def r' q other_frames
      by (intro allI conjI ballI) (erule cls, simp only: add_0_right len)
  qed (use ok PutBack in simp)
next
  case (Expire now)
  assume ok: "queues_ok r"
  show ?thesis
    by (rule queues_ok_shrink [OF ok])
      (auto simp: Expire sched_expire_def Let_def held_in_def)
next
  case (DrainExcept keep)
  assume ok: "queues_ok r"
  show ?thesis
    by (rule queues_ok_shrink [OF ok])
      (auto simp: DrainExcept sched_drain_except_def held_in_def)
next
  case DrainAll
  assume ok: "queues_ok r"
  show ?thesis
    by (rule queues_ok_shrink [OF ok]) (auto simp: DrainAll sched_drain_def held_in_def)
next
  case (KeyedUp now k)
  assume ok: "queues_ok r"
  show ?thesis
    by (rule queues_ok_shrink [OF ok]) (auto simp: KeyedUp held_in_def split: option.splits)
next
  case Discard
  assume ok: "queues_ok r"
  show ?thesis
    by (rule queues_ok_shrink [OF ok]) (auto simp: Discard held_in_def)
qed (simp_all add: queues_ok_def held_in_def)

lemma sched_step_ok: "sched_ok r \<Longrightarrow> sched_ok (sched_step x r)"
  by (simp add: sched_ok_def step_buckets step_conserved step_queues)

interpretation sched_machine: invariant_machine sched_step sched_ok
  by unfold_locales (rule sched_step_ok)

section \<open>Properties\<close>

text \<open>Two fragments of one message to one station, the first long and the second short, and an account with two seconds of credit.\<close>

definition frag1 :: "nat queued" where
  "frag1 = \<lparr>q_payload = 1, q_class = CDirect, q_account = lit ''SM0ABC'', q_cost = from_secs 4,
     q_queued_at = 0, q_expects_reply = False\<rparr>"

definition frag2 :: "nat queued" where
  "frag2 = frag1\<lparr>q_payload := 2, q_cost := from_secs 1\<rparr>"

definition short_credit :: "nat scheduler" where
  "short_credit = (scheduler_new scheduler_config_default)\<lparr>
     sd_queues := (\<lambda>c. if c = CDirect then [frag1, frag2] else []),
     sd_buckets := [(lit ''SM0ABC'', \<lparr>bk_tokens = 2, bk_last = 0\<rparr>)]\<rparr>"

lemma short_credit_funded:
  "funded short_credit (lit ''SM0ABC'') (from_secs 1) 0" "\<not> funded short_credit (lit ''SM0ABC'') (from_secs 4) 0"
  by (simp_all add: funded_def tokens_def short_credit_def scheduler_new_def scheduler_config_default_def
      as_secs_def from_secs_def Let_def)

lemma short_credit_candidates:
  "candidate short_credit 0 CDirect = Some 1" "c \<noteq> CDirect \<Longrightarrow> candidate short_credit 0 c = None"
proof -
  have q: "sd_queues short_credit CDirect = [frag1, frag2]" by (simp add: short_credit_def)
  show "candidate short_credit 0 CDirect = Some 1"
    using short_credit_funded by (simp add: candidate_def q) (simp add: frag1_def frag2_def)
  show "c \<noteq> CDirect \<Longrightarrow> candidate short_credit 0 c = None" by (simp add: candidate_None short_credit_def)
qed

text \<open>The second fragment goes first, although both are in one account and one class.\<close>

lemma same_account_overtaken: "fst (sched_pop 0 short_credit) = Some frag2"
proof -
  have "sd_queues short_credit CDirect ! 1 = frag2" by (simp add: short_credit_def)
  then show ?thesis
    by (simp add: sched_pop_def all_classes_def weigh_def short_credit_candidates Let_def)
qed

text \<open>C17: Conservation and bounds. Under any interleaving of pushes, pops, put-backs, transmissions, expiry and purges, every accepted frame is in exactly
  one place (queued, in the transmit task's hands, or gone), each class holds only its own frames and at most one more than its depth, and every airtime account
  stays between its deficit floor and its burst in a bounded table.\<close>

theorem scheduler_invariant: "sched_ok (fold sched_step ops (run_new cfg))"
  by (rule sched_machine.run_inv [OF sched_new_ok])

text \<open>The frame that goes next has the best score of all the candidates, one per class, so it never overtakes a
  candidate that has waited longer than it by more than (4 + penalty) ageing periods; it leaves the queue and everything else stays; and within its class it passes a frame of the same account
  only if that frame costs more.\<close>

theorem pop_takes_best:
  assumes "sched_pop now s = (Some x, s')" "0 \<le> sc_unfunded_penalty (sd_cfg s)"
  shows "(\<exists>c i. x = sd_queues s c ! i \<and> i < length (sd_queues s c) \<and>
      s' = set_queue c (remove_at i (sd_queues s c)) s \<and>
      (\<forall>j < i. q_account (sd_queues s c ! j) = q_account x \<longrightarrow> q_cost x < q_cost (sd_queues s c ! j))) \<and>
    sched_contents s = add_mset x (sched_contents s') \<and>
    (\<forall>c i. candidate s now c = Some i \<longrightarrow> score s now (sd_queues s c ! i) \<le> score s now x \<and>
      as_secs (now - q_queued_at (sd_queues s c ! i)) \<le> as_secs (now - q_queued_at x) +
        (4 + sc_unfunded_penalty (sd_cfg s)) * max (as_secs (sc_aging (sd_cfg s))) (1 / 1000))"
proof -
  have best: "score s now (sd_queues s c ! i) \<le> score s now x" if "candidate s now c = Some i" for c i
    by (rule pop_cases [where s = s and now = now]) (use assms(1) that in auto)
  have "sched_contents s = add_mset x (sched_contents s')" using pop_contents [of now s x] assms(1) by simp
  moreover have "\<exists>c i. x = sd_queues s c ! i \<and> i < length (sd_queues s c) \<and>
      s' = set_queue c (remove_at i (sd_queues s c)) s \<and>
      (\<forall>j < i. q_account (sd_queues s c ! j) = q_account x \<longrightarrow> q_cost x < q_cost (sd_queues s c ! j))"
    by (rule pop_order [OF assms(1)]) blast
  ultimately show ?thesis using best overtaking_bound [OF assms(2)] by blast
qed

theorem pop_takes_best_witness:
  "score short_credit 0 (sd_queues short_credit CDirect ! 1) \<le> score short_credit 0 frag2"
proof -
  obtain s' where "sched_pop 0 short_credit = (Some frag2, s')"
    using same_account_overtaken by (cases "sched_pop 0 short_credit") auto
  moreover have "0 \<le> sc_unfunded_penalty (sd_cfg short_credit)"
    by (simp add: short_credit_def scheduler_new_def scheduler_config_default_def)
  ultimately show ?thesis using pop_takes_best short_credit_candidates(1) by blast
qed

text \<open>Half duplex. When the scheduler says a frame is ready, the pacing gate is over, any reply window is over or was cleared by hearing
  something, and the guard after the last reception is over; and a frame is then really there to pop.\<close>

theorem ready_respects_guards:
  assumes "sched_poll now s = PollReady"
  shows "(\<forall>t. sd_pace_until s = Some t \<longrightarrow> t \<le> now) \<and> (\<forall>t. sd_reply_until s = Some t \<longrightarrow> t \<le> now) \<and>
    (\<forall>h. sd_last_heard s = Some h \<longrightarrow> h + sc_rx_guard (sd_cfg s) \<le> now) \<and> fst (sched_pop now s) \<noteq> None"
  using ready_guards [OF assms] pop_some [of now s now] assms by auto

theorem ready_respects_guards_witness:
  "fst (sched_pop (from_secs 20) (sched_on_keyed 0 (lit ''SM0ABC'') (from_secs 4) True short_credit)) \<noteq> None"
proof -
  have "sched_poll (from_secs 20) (sched_on_keyed 0 (lit ''SM0ABC'') (from_secs 4) True short_credit) = PollReady"
    by (simp add: sched_poll_def sched_is_empty_def queue_order_def blocked_until_def sched_on_keyed_def debit_def
        short_credit_def scheduler_new_def scheduler_config_default_def from_secs_def from_millis_def Let_def)
  from ready_respects_guards [OF this] show ?thesis by blast
qed

text \<open>Expiry returns exactly the chat, direct and control frames held longer than the limit, keeps the others in order, and never
  touches an acknowledgement or an identification.\<close>

theorem expiry_is_exact:
  "sd_queues (snd (sched_expire now s)) c =
     (if c \<in> {CAck, CId} then sd_queues s c
      else filter (\<lambda>i. now - q_queued_at i \<le> sc_max_hold (sd_cfg s)) (sd_queues s c)) \<and>
   sched_contents s = mset (fst (sched_expire now s)) + sched_contents (snd (sched_expire now s)) \<and>
   (\<forall>i \<in> set (fst (sched_expire now s)). sc_max_hold (sd_cfg s) < now - q_queued_at i)"
proof -
  have "sd_queues (snd (sched_expire now s)) c =
     (if c \<in> {CAck, CId} then sd_queues s c
      else filter (\<lambda>i. now - q_queued_at i \<le> sc_max_hold (sd_cfg s)) (sd_queues s c))"
    by (cases c) (simp_all add: sched_expire_def expiring_classes_def held_too_long_def not_less Let_def)
  moreover have "\<forall>i \<in> set (fst (sched_expire now s)). sc_max_hold (sd_cfg s) < now - q_queued_at i"
    by (auto simp: sched_expire_def held_too_long_def Let_def)
  ultimately show ?thesis using expire_contents [of s now] by blast
qed

theorem expiry_is_exact_witness:
  "sd_queues (snd (sched_expire (from_secs 121) short_credit)) CDirect = []"
  using expiry_is_exact [of "from_secs 121" short_credit CDirect]
  by (simp add: short_credit_def frag1_def frag2_def scheduler_new_def scheduler_config_default_def from_secs_def)

text \<open>Overspending is a handicap and never a ban: an account silent for long enough to earn its burst and its largest deficit is
  funded again for any frame its burst can pay, whatever it spent before.\<close>

theorem overspending_is_not_a_ban:
  assumes "0 \<le> sc_station_rate (sd_cfg (sr_sched (fold sched_step ops (run_new cfg))))"
    and "\<forall>b. map_of (sd_buckets (sr_sched (fold sched_step ops (run_new cfg)))) account = Some b \<longrightarrow>
      burst_of (sr_sched (fold sched_step ops (run_new cfg))) *
        (1 + max (sc_max_deficit (sd_cfg (sr_sched (fold sched_step ops (run_new cfg))))) 0)
      \<le> as_secs (now - bk_last b) * sc_station_rate (sd_cfg (sr_sched (fold sched_step ops (run_new cfg))))"
    and "cost \<le> sc_station_burst (sd_cfg (sr_sched (fold sched_step ops (run_new cfg))))"
  shows "funded (sr_sched (fold sched_step ops (run_new cfg))) account cost now"
  using sched_machine.run_inv [OF sched_new_ok] assms by (intro credit_recovers) (auto simp: sched_ok_def)

theorem overspending_is_not_a_ban_witness:
  "funded (sr_sched (fold sched_step [] (run_new scheduler_config_default))) (lit ''SM0ABC'') (from_secs 12) 0"
  by (rule overspending_is_not_a_ban)
    (simp_all add: run_new_def scheduler_new_def scheduler_config_default_def from_secs_def)

end
