(* ===== verification/Tnc_Proofs.thy ===== *)
theory Tnc_Proofs
  imports Tnc Airtime_Proofs Scheduler_Proofs "HOL-Library.Sublist"
begin

text \<open>
  What the radio link task guarantees: nothing is keyed against the interlock, the inhibit, the guards or
  the governor; a popped frame is transmitted, put again or counted; the published backlog is the
  real one; and what one link task writes another one receives.
\<close>

section \<open>The published backlog\<close>

definition accounted :: "tnc \<Rightarrow> bool" where
  "accounted t \<longleftrightarrow> sh_queued_frames (tn_shared t) = sched_len (tn_sched t) \<and>
     sh_queued_ms (tn_shared t) = as_millis (queued_airtime (tn_sched t))"

lemma sched_len_contents: "sched_len s = size (sched_contents s)"
  by (simp add: sched_len_def sched_contents_def queue_order_def)

lemma queued_airtime_contents: "queued_airtime s = sum_mset (image_mset q_cost (sched_contents s))"
  unfolding queued_airtime_def sched_contents_def by (metis mset_map sum_mset_sum_list)

text \<open>Only the contents of the queues matter, and two fields of the counters.\<close>

lemma accounted_cong:
  assumes "accounted t" "sched_contents (tn_sched t') = sched_contents (tn_sched t)"
    and "sh_queued_frames (tn_shared t') = sh_queued_frames (tn_shared t)"
    and "sh_queued_ms (tn_shared t') = sh_queued_ms (tn_shared t)"
  shows "accounted t'"
  using assms by (simp add: accounted_def sched_len_contents queued_airtime_contents)

lemma publish_accounted [simp]: "accounted (publish t)"
  by (simp add: accounted_def publish_def publish_queue_def)

lemma gov_publish_frame [frame_simps, simp]:
  "sh_queued_frames (gov_publish_with g now n sh) = sh_queued_frames sh"
  "sh_queued_ms (gov_publish_with g now n sh) = sh_queued_ms sh"
  "sh_inhibit (gov_publish_with g now n sh) = sh_inhibit sh"
  "sh_interlock_ok (gov_publish_with g now n sh) = sh_interlock_ok sh"
  by (simp_all add: gov_publish_with_def gov_publish_def)

lemma publish_frame [frame_simps, simp]:
  "tn_sched (publish t) = tn_sched t" "tn_wire (publish t) = tn_wire t" "tn_governor (publish t) = tn_governor t"
  "tn_audit (publish t) = tn_audit t" "tn_received (publish t) = tn_received t"
  by (simp_all add: publish_def)

lemma note_keyed_frame [frame_simps, simp]:
  "tn_sched (note_keyed f t) = tn_sched t" "tn_shared (note_keyed f t) = tn_shared t"
  "tn_wire (note_keyed f t) = tn_wire t" "tn_audit (note_keyed f t) = tn_audit t"
  by (simp_all add: note_keyed_def split: option.splits)

lemma contents_simps [simp]:
  "sched_contents (sched_on_keyed now a k e s) = sched_contents s"
  "sched_contents (sched_on_heard now s) = sched_contents s"
  "sched_contents (set_min_gap g s) = sched_contents s"
  by (rule contents_cong, simp)+

lemma after_write_accounted: "accounted (after_write cfg now item bs t)"
  by (simp add: after_write_def case_prod_beta Let_def accounted_def publish_queue_def)

lemma pump_hear_frame:
  "sched_contents (tn_sched (pump_hear cfg now kf t)) = sched_contents (tn_sched t) \<and>
   tn_shared (pump_hear cfg now kf t) = tn_shared t \<and> tn_wire (pump_hear cfg now kf t) = tn_wire t"
  by (simp add: pump_hear_def split: sum.splits)

lemma pump_hears_frame:
  "sched_contents (tn_sched (fold (pump_hear cfg now) kfs t)) = sched_contents (tn_sched t) \<and>
   tn_shared (fold (pump_hear cfg now) kfs t) = tn_shared t \<and> tn_wire (fold (pump_hear cfg now) kfs t) = tn_wire t"
  by (induction kfs arbitrary: t) (simp_all add: pump_hear_frame)

lemma sched_expire_none: "fst (sched_expire now s) = [] \<Longrightarrow>
    sched_contents (snd (sched_expire now s)) = sched_contents s"
  using expire_contents [of s now] by simp

lemma drain_except_none: "fst (sched_drain_except k s) = [] \<Longrightarrow>
    sched_contents (snd (sched_drain_except k s)) = sched_contents s"
  using drain_except_contents [of s k] by simp

lemma pump_top_accounted:
  assumes "accounted t"
  shows "accounted (pump_top cfg now t)"
proof -
  have "accounted (pump_purge t)"
    using assms drain_except_none [of CId "tn_sched t"]
    by (auto simp: pump_purge_def case_prod_beta intro: accounted_cong)
  then have "accounted (pump_tune cfg (pump_purge t))" by (rule accounted_cong) (simp_all add: pump_tune_def)
  then show ?thesis
    using sched_expire_none [of now "tn_sched (pump_tune cfg (pump_purge t))"]
    by (auto simp: pump_top_def pump_expire_def case_prod_beta intro: accounted_cong)
qed

text \<open>While a frame is out of the queue, the published backlog still counts it.\<close>

lemma pump_item_accounted:
  assumes "accounted t0" "sched_contents (tn_sched t0) = add_mset item (sched_contents s)"
  shows "accounted (snd (pump_item cfg ilk werr now item (t0\<lparr>tn_sched := s\<rparr>)))"
proof -
  have again: "accounted t" if "sched_contents (tn_sched t) = add_mset item (sched_contents s)"
    "sh_queued_frames (tn_shared t) = sh_queued_frames (tn_shared t0)"
    "sh_queued_ms (tn_shared t) = sh_queued_ms (tn_shared t0)" for t
    by (rule accounted_cong [OF assms(1)]) (simp_all add: assms(2) that)
  obtain d g where gc: "gov_check (length (ax25_encode (q_payload item))) now (tn_governor t0) = (d, g)" by force
  show ?thesis
  proof (cases "sh_inhibit (tn_shared t0) \<and> q_class item \<noteq> CId \<or> tc_max_frame cfg < length (ax25_encode (q_payload item))")
    case True
    then show ?thesis by (auto simp: pump_item_def Let_def)
  next
    case False
    then show ?thesis
      by (cases d; cases ilk; cases werr)
        (simp_all add: pump_item_def pump_defer_def gc Let_def case_prod_beta again requeue_contents after_write_accounted)
  qed
qed

lemma pump_timer_accounted:
  assumes "accounted t"
  shows "accounted (snd (pump_timer cfg ilk werr now t))"
proof (cases "sched_pop now (tn_sched t)")
  case (Pair x s)
  show ?thesis
  proof (cases x)
    case None
    then have "s = tn_sched t" using Pair by (auto simp: sched_pop_def split: option.splits)
    then show ?thesis using assms Pair None by (simp add: pump_timer_def)
  next
    case (Some item)
    then have "sched_contents (tn_sched t) = add_mset item (sched_contents s)"
      using pop_contents [of now "tn_sched t" item] Pair by simp
    from pump_item_accounted [OF assms this] show ?thesis
      using assms Pair Some by (simp add: pump_timer_def)
  qed
qed

section \<open>The machine\<close>

text \<open>Everything that happens to the link: the handle, the operator's knobs, the interlock monitor, and the task.\<close>

datatype tnc_op =
    TEnqueue ax25_frame tx_class ustr bool instant
  | TInhibit bool
  | TInterlock bool
  | TDuty "nat option"
  | TPacing "nat option"
  | TConnect "(nat \<times> nat) option"
  | TTop instant
  | TRead instant "byte list"
  | TTimer bool "(instant \<times> nat) option" instant
  | TEnd

fun tnc_step :: "tnc_config \<Rightarrow> tnc_op \<Rightarrow> tnc \<Rightarrow> tnc" where
  "tnc_step cfg (TEnqueue f cls a e now) t = snd (tnc_enqueue cfg f cls a e now t)"
| "tnc_step cfg (TInhibit b) t = set_inhibit b t"
| "tnc_step cfg (TInterlock b) t = t\<lparr>tn_shared := (tn_shared t)\<lparr>sh_interlock_ok := b\<rparr>\<rparr>"
| "tnc_step cfg (TDuty p) t = t\<lparr>tn_shared := snd (set_duty_override p (tn_shared t))\<rparr>"
| "tnc_step cfg (TPacing p) t = t\<lparr>tn_shared := set_pacing_override p (tn_shared t)\<rparr>"
| "tnc_step cfg (TConnect werr) t = snd (tnc_connect cfg werr t)"
| "tnc_step cfg (TTop now) t = pump_top cfg now t"
| "tnc_step cfg (TRead now bs) t = (case pump_read cfg now bs t of Some t' \<Rightarrow> t' | None \<Rightarrow> t)"
| "tnc_step cfg (TTimer ilk werr now) t = snd (pump_timer cfg ilk werr now t)"
| "tnc_step cfg TEnd t = run_after_pump cfg t"

lemma enqueue_accounted: "accounted t \<Longrightarrow> accounted (snd (tnc_enqueue cfg f cls a e now t))"
proof -
  assume a: "accounted t"
  let ?i = "\<lparr>q_payload = f, q_class = cls, q_account = a, q_cost = airtime_for (tc_airtime cfg) (length (ax25_encode f)),
    q_queued_at = now, q_expects_reply = e\<rparr>"
  obtain r s where p: "sched_push ?i (tn_sched t) = (r, s)" by force
  show ?thesis
  proof (cases r)
    case (Inl y)
    then have "sched_contents s = sched_contents (tn_sched t)" using push_contents [of ?i "tn_sched t"] p by simp
    then show ?thesis using a p Inl by (auto simp: tnc_enqueue_def Let_def intro: accounted_cong)
  next
    case (Inr u)
    then show ?thesis using p by (simp add: tnc_enqueue_def Let_def)
  qed
qed

lemma tnc_step_accounted: "accounted t \<Longrightarrow> accounted (tnc_step cfg x t)"
proof (cases x)
  case (TRead now bs)
  then show "accounted t \<Longrightarrow> accounted (tnc_step cfg x t)"
    using pump_hears_frame [of cfg now]
    by (auto simp: pump_read_def case_prod_beta intro: accounted_cong)
qed (auto simp: enqueue_accounted pump_top_accounted pump_timer_accounted set_inhibit_def set_duty_override_def
      set_pacing_override_def tnc_connect_def run_after_pump_def case_prod_beta Let_def intro: accounted_cong split: tnc_link.splits)

lemma spawn_accounted: "accounted (tnc_spawn cfg)"
  by (simp add: accounted_def tnc_spawn_def airtime_shared_default_def sched_len_def queued_airtime_def
      queue_order_def scheduler_new_def as_millis_def)

interpretation tnc_machine: invariant_machine "tnc_step cfg" accounted for cfg
  by unfold_locales (rule tnc_step_accounted)

section \<open>Keying\<close>

text \<open>
  What a write leaves behind: the whole frame and an entry in the audit trail, or, when it failed, as many octets of the frame as were
  out, the frame back in the queue, no entry, and the link closed.
\<close>

definition item_written :: "tnc_config \<Rightarrow> (instant \<times> nat) option \<Rightarrow> ax25_frame queued \<Rightarrow> tnc \<Rightarrow> bool \<times> tnc \<Rightarrow> bool" where
  "item_written cfg werr item t r \<longleftrightarrow>
     (case werr of
        None \<Rightarrow> fst r \<and> tn_wire (snd r) = tn_wire t @ data_bytes cfg (ax25_encode (q_payload item)) \<and>
          length (tn_audit (snd r)) = length (tn_audit t) + 1 \<and>
          sched_contents (tn_sched (snd r)) = sched_contents (tn_sched t)
      | Some (_, n) \<Rightarrow> \<not> fst r \<and> tn_wire (snd r) = tn_wire t @ take n (data_bytes cfg (ax25_encode (q_payload item))) \<and>
          tn_audit (snd r) = tn_audit t \<and>
          sched_contents (tn_sched (snd r)) = add_mset item (sched_contents (tn_sched t)))"

lemma pump_item_wire:
  assumes "tn_wire (snd (pump_item cfg ilk werr now item t)) \<noteq> tn_wire t"
  shows "ilk \<and> (sh_inhibit (tn_shared t) \<longrightarrow> q_class item = CId) \<and>
    length (ax25_encode (q_payload item)) \<le> tc_max_frame cfg \<and>
    fst (gov_check (length (ax25_encode (q_payload item))) now (tn_governor t)) = TxSend \<and>
    item_written cfg werr item t (pump_item cfg ilk werr now item t)"
  using assms
  by (auto simp: pump_item_def pump_defer_def after_write_def case_prod_beta Let_def not_less item_written_def requeue_contents
      split: if_splits tx_decision.splits option.splits)

lemma pump_timer_wire:
  assumes "tn_wire (snd (pump_timer cfg ilk werr now t)) \<noteq> tn_wire t"
  shows "sh_interlock_ok (tn_shared t) \<and> sched_poll now (tn_sched t) = PollReady \<and>
    (\<exists>item s. sched_pop now (tn_sched t) = (Some item, s) \<and>
      tn_wire (snd (pump_item cfg ilk werr now item (t\<lparr>tn_sched := s\<rparr>))) \<noteq> tn_wire t \<and>
      pump_timer cfg ilk werr now t = pump_item cfg ilk werr now item (t\<lparr>tn_sched := s\<rparr>))"
  using assms
  by (auto simp: pump_timer_def interlock_failed_def split: if_splits option.splits prod.splits)

lemma pump_item_fate:
  assumes "sched_contents s0 = add_mset item (sched_contents (tn_sched t))"
    and t': "t' = snd (pump_item cfg ilk werr now item t)"
  shows "sched_contents (tn_sched t') = sched_contents s0 \<and> tn_audit t' = tn_audit t \<and> tn_wire t' = tn_wire t @
        (if fst (pump_item cfg ilk werr now item t) then []
         else take (case werr of Some (_, n) \<Rightarrow> n | None \<Rightarrow> 0) (data_bytes cfg (ax25_encode (q_payload item)))) \<or>
    sched_contents s0 = add_mset item (sched_contents (tn_sched t')) \<and>
      (tn_wire t' = tn_wire t @ data_bytes cfg (ax25_encode (q_payload item)) \<and>
         length (tn_audit t') = length (tn_audit t) + 1
       \<or> sh_dropped_inhibited (tn_shared t') = sh_dropped_inhibited (tn_shared t) + 1
       \<or> sh_dropped_stale (tn_shared t') = sh_dropped_stale (tn_shared t) + 1
       \<or> tc_max_frame cfg < length (ax25_encode (q_payload item)))"
proof (cases "gov_check (length (ax25_encode (q_payload item))) now (tn_governor t)")
  case (Pair d g)
  then show ?thesis unfolding t'
    using assms(1)
    by (cases d)
      (auto simp: pump_item_def pump_defer_def after_write_def case_prod_beta Let_def requeue_contents
        publish_def publish_queue_def gov_publish_with_def gov_publish_def note_keyed_def split: option.splits)
qed

text \<open>
  A frame that was out when the flush failed is charged to nobody: the governor's account is as after the check, and the frame is in
  the queue for another transmission.
\<close>

lemma failed_flush_is_not_charged:
  assumes "gov_check (length (ax25_encode (q_payload item))) now (tn_governor t) = (TxSend, g)"
    and "sh_inhibit (tn_shared t) \<longrightarrow> q_class item = CId" "length (ax25_encode (q_payload item)) \<le> tc_max_frame cfg"
    and "t' = snd (pump_item cfg True (Some (later, length (data_bytes cfg (ax25_encode (q_payload item))))) now item t)"
  shows "tn_wire t' = tn_wire t @ data_bytes cfg (ax25_encode (q_payload item))" "tn_governor t' = g"
    "sched_contents (tn_sched t') = add_mset item (sched_contents (tn_sched t))"
  using assms(1-3) unfolding assms(4) by (auto simp: pump_item_def Let_def requeue_contents)

section \<open>What reaches the TNC at a connection\<close>

lemma write_params_all: "write_params port None ps = (True, concat (map (\<lambda>(cmd, v). kiss_encode port cmd [v]) ps))"
  by (induction ps) (auto simp: Let_def)

lemma write_params_prefix:
  "prefix (snd (write_params port werr ps)) (concat (map (\<lambda>(cmd, v). kiss_encode port cmd [v]) ps))"
proof (induction port werr ps rule: write_params.induct)
  case (2 port werr cmd v ps)
  show ?case
  proof (cases werr)
    case None
    then show ?thesis by (simp add: write_params_all Let_def)
  next
    case (Some kn)
    obtain k n where kn: "kn = (k, n)" by force
    show ?thesis
    proof (cases k)
      case 0
      then show ?thesis by (simp add: Some kn prefix_append take_is_prefix Let_def)
    next
      case (Suc k')
      then show ?thesis using "2.IH"(2) [OF refl Some kn [symmetric] Suc] by (simp add: Some kn Suc case_prod_beta Let_def)
    qed
  qed
qed simp

lemma write_params_done:
  "fst (write_params port werr ps) \<Longrightarrow>
     snd (write_params port werr ps) = concat (map (\<lambda>(cmd, v). kiss_encode port cmd [v]) ps)"
  by (induction port werr ps rule: write_params.induct)
    (auto simp: Let_def case_prod_beta split: option.splits nat.splits)

lemma connect_wire:
  "\<exists>p. tn_wire (snd (tnc_connect cfg werr t)) = tn_wire t @ p \<and> prefix p (connect_bytes cfg) \<and>
     (fst (tnc_connect cfg werr t) \<longrightarrow> p = connect_bytes cfg) \<and> (werr = None \<longrightarrow> fst (tnc_connect cfg werr t))"
  using write_params_prefix [of "tc_kiss_port cfg" werr "kiss_params cfg"]
    write_params_done [of "tc_kiss_port cfg" werr "kiss_params cfg"]
  by (auto simp: tnc_connect_def connect_bytes_def case_prod_beta Let_def write_params_all)

section \<open>What is written is what is heard\<close>

lemma pump_read_frame:
  assumes "ax25_wf f" "length (ax25_encode f) < max_frame (tn_decoder t)"
    and "kbuf (tn_decoder t) = [] \<or> \<not> in_frame (tn_decoder t)"
    and "tc_kiss_port cfg \<le> 0x0F"
  obtains d where "pump_read cfg now (data_bytes cfg (ax25_encode f)) t =
    Some (t\<lparr>tn_decoder := d, tn_sched := sched_on_heard now (tn_sched t), tn_received := tn_received t @ [f]\<rparr>)"
proof -
  let ?d = "reading (tn_decoder t) []"
  have k: "kiss_push (tn_decoder t) (data_bytes cfg (ax25_encode f)) =
      (?d, [\<lparr>kiss_port = tc_kiss_port cfg, kiss_command = CMD_DATA, kiss_payload = ax25_encode f\<rparr>])"
    using push_encoded [OF assms(2), of "tc_kiss_port cfg" CMD_DATA] nothing_pending [OF assms(3)] nibble_id [OF assms(4)]
    by (simp add: data_bytes_def CMD_DATA_def)
  have ne: "data_bytes cfg (ax25_encode f) \<noteq> []" by (simp add: data_bytes_def kiss_encode_def)
  show thesis
    by (rule that [of ?d]) (simp add: pump_read_def ne k pump_hear_def ax25_decode_encode [OF assms(1)])
qed

section \<open>Long paths\<close>

text \<open>
  The comment at \<open>max_frame\<close> counts 58 octets of header for eight digipeaters; that is the count for six. With
  seven or eight and a full information field the frame exceeds \<open>max_frame\<close>: it is refused on the way out, and the decoder drops it on the way in.
\<close>

lemma long_paths_refused:
  assumes "length (digipeaters f) = 8" "pid f = Some p" "length (info f) = pac"
  shows "length (ax25_encode f) = pac + 72"
    and "tc_max_frame (tnc_from_config pac port pacing pers slot air link) < length (ax25_encode f)"
  using assms by (simp_all add: length_ax25_encode tnc_from_config_def)

section \<open>The audit names\<close>

lemma airc_kind_encode: "airc_kind (airc_encode f) = kind_name (akind f)"
  by (cases "akind f") (simp_all add: airc_kind_def airc_encode_def MAGIC_def Let_def)

lemma airc_seq_encode: "airc_seq (airc_encode f) = Some (aseq f)"
  by (simp add: airc_seq_def airc_encode_def MAGIC_def to_be_bytes_def be_round_trip Let_def split: option.splits)

section \<open>Properties\<close>

text \<open>A link with one frame queued, for the concrete instances.\<close>

definition sample_frame :: ax25_frame where
  "sample_frame = \<lparr>destination = address_new (Callsign (lit ''CQ'') 0),
     source_addr = address_new (Callsign (lit ''SM0ABC'') 7), digipeaters = [], control = 0x03,
     pid = Some 0xF0, info = [65, 66]\<rparr>"

definition quiet_tnc :: tnc_config where
  "quiet_tnc = tnc_config_default\<lparr>tc_tx_pacing := 0, tc_airtime := gap_config\<rparr>"

definition sample_item :: "ax25_frame queued" where
  "sample_item = \<lparr>q_payload = sample_frame, q_class = CChat, q_account = lit ''CQ'', q_cost = 1,
     q_queued_at = 0, q_expects_reply = False\<rparr>"

definition sample_tnc :: tnc where
  "sample_tnc = (tnc_spawn quiet_tnc)\<lparr>tn_sched := (scheduler_new (scheduler_from_tnc quiet_tnc))\<lparr>
     sd_queues := (\<lambda>c. if c = CChat then [sample_item] else [])\<rparr>\<rparr>"

lemma sample_length: "length (ax25_encode sample_frame) = 18"
  by (simp add: length_ax25_encode sample_frame_def)

lemma sample_poll: "sched_poll 0 (tn_sched sample_tnc) = PollReady"
  by (simp add: sample_tnc_def sched_poll_def sched_is_empty_def queue_order_def blocked_until_def scheduler_new_def)

lemma sample_pop:
  obtains s where "sched_pop 0 (tn_sched sample_tnc) = (Some sample_item, s)"
    "sched_contents (tn_sched sample_tnc) = add_mset sample_item (sched_contents s)"
proof -
  have c: "sched_contents (tn_sched sample_tnc) = {#sample_item#}"
    by (simp add: sched_contents_def queue_order_def sample_tnc_def)
  obtain x s where p: "sched_pop 0 (tn_sched sample_tnc) = (x, s)" by force
  with pop_some [of 0 "tn_sched sample_tnc" 0] sample_poll obtain i where i: "x = Some i" by auto
  with pop_contents [of 0 "tn_sched sample_tnc" i] p have "add_mset i (sched_contents s) = {#sample_item#}"
    by (simp add: c)
  then have "i = sample_item" "sched_contents s = {#}" by auto
  with that [of s] p i c show thesis by simp
qed

lemma sample_governor: "fst (gov_check 18 0 (governor_new gap_config)) = TxSend"
proof -
  have "\<lfloor>440000 / 3 :: rat\<rfloor> = 146666" by (rule floor_unique) simp_all
  then have "airtime_for gap_config 18 = from_micros 146666"
    by (simp add: airtime_for_def gap_config_def FRAMING_OCTETS_def from_micros_def)
  then show ?thesis
    using check_send_iff [of "governor_new gap_config" 18 0]
    by (simp add: governor_new_def gap_fields gap_allowance run_at_def from_secs_def from_micros_def)
qed

lemma sample_timer_wire:
  "tn_wire (snd (pump_timer quiet_tnc True None 0 sample_tnc)) = data_bytes quiet_tnc (ax25_encode sample_frame)"
proof -
  obtain s where p: "sched_pop 0 (tn_sched sample_tnc) = (Some sample_item, s)" by (rule sample_pop)
  obtain g where g: "gov_check 18 0 (tn_governor sample_tnc) = (TxSend, g)"
    using sample_governor by (cases "gov_check 18 0 (governor_new gap_config)")
      (simp add: sample_tnc_def tnc_spawn_def quiet_tnc_def)
  have sh: "tn_shared sample_tnc = airtime_shared_default" "tn_wire sample_tnc = []"
    by (simp_all add: sample_tnc_def tnc_spawn_def)
  show ?thesis
    by (simp add: pump_timer_def sh interlock_failed_def airtime_shared_default_def sample_poll p pump_item_def
        sample_item_def sample_length g after_write_def case_prod_beta Let_def)
      (simp add: quiet_tnc_def tnc_config_default_def)
qed

text \<open>C9: Transmitter safety. If the link task writes anything when its timer fires, then the interlock was satisfied at both reads, the scheduler's guards were
  over, the frame was the scheduler's choice, the operator's inhibit was off or the frame was an identification, the governor
  allowed its length at that instant, it fits the frame bound, and exactly its KISS encoding was written; or, when the write or the flush
  failed, that part of the encoding that was out by then, no entry was made in the audit trail, the frame is in the queue again, and the task gives the connection up.\<close>

theorem transmit_only_when_allowed:
  assumes "tn_wire (snd (pump_timer cfg ilk werr now t)) \<noteq> tn_wire t"
  shows "sh_interlock_ok (tn_shared t) \<and> ilk \<and> sched_poll now (tn_sched t) = PollReady \<and>
    (\<exists>item s. sched_pop now (tn_sched t) = (Some item, s) \<and>
      (sh_inhibit (tn_shared t) \<longrightarrow> q_class item = CId) \<and>
      length (ax25_encode (q_payload item)) \<le> tc_max_frame cfg \<and>
      fst (gov_check (length (ax25_encode (q_payload item))) now (tn_governor t)) = TxSend \<and>
      (case werr of
         None \<Rightarrow>
           tn_wire (snd (pump_timer cfg ilk werr now t)) = tn_wire t @ data_bytes cfg (ax25_encode (q_payload item))
       | Some (later, n) \<Rightarrow>
           tn_wire (snd (pump_timer cfg ilk werr now t)) = tn_wire t @ take n (data_bytes cfg (ax25_encode (q_payload item))) \<and>
           tn_audit (snd (pump_timer cfg ilk werr now t)) = tn_audit t \<and>
           sched_contents (tn_sched (snd (pump_timer cfg ilk werr now t))) = sched_contents (tn_sched t) \<and>
           \<not> fst (pump_timer cfg ilk werr now t)))"
proof -
  obtain item s where w: "sh_interlock_ok (tn_shared t)" "sched_poll now (tn_sched t) = PollReady"
    "sched_pop now (tn_sched t) = (Some item, s)"
    "tn_wire (snd (pump_item cfg ilk werr now item (t\<lparr>tn_sched := s\<rparr>))) \<noteq> tn_wire (t\<lparr>tn_sched := s\<rparr>)"
    "pump_timer cfg ilk werr now t = pump_item cfg ilk werr now item (t\<lparr>tn_sched := s\<rparr>)"
    using pump_timer_wire [OF assms] by auto
  have "sched_contents (tn_sched t) = add_mset item (sched_contents s)"
    using pop_contents [of now "tn_sched t" item] w(3) by simp
  with pump_item_wire [OF w(4)] w(1-3) show ?thesis
    unfolding w(5) by (auto simp: item_written_def split: option.splits)
qed

theorem transmit_only_when_allowed_witness:
  "\<exists>item s. sched_pop 0 (tn_sched sample_tnc) = (Some item, s) \<and>
     fst (gov_check (length (ax25_encode (q_payload item))) 0 (tn_governor sample_tnc)) = TxSend"
proof -
  have "tn_wire (snd (pump_timer quiet_tnc True None 0 sample_tnc)) \<noteq> tn_wire sample_tnc"
    unfolding sample_timer_wire
    by (simp add: data_bytes_def kiss_encode_def sample_tnc_def tnc_spawn_def)
  from transmit_only_when_allowed [OF this] show ?thesis by blast
qed

text \<open>C18: No popped frame disappears. When the timer fires with a frame ready, the frame is afterwards either back in the queue and
  not in the audit trail, with nothing of it written unless the write failed, and then that part of its encoding that was out by then; or written whole
  and audited, or counted as dropped, or was longer than the bound; every other frame is still queued.\<close>

theorem popped_frame_accounted:
  assumes "sh_interlock_ok (tn_shared t)" "sched_poll now (tn_sched t) = PollReady"
    and "sched_pop now (tn_sched t) = (Some item, s)" "t' = snd (pump_timer cfg ilk werr now t)"
  shows "sched_contents (tn_sched t') = sched_contents (tn_sched t) \<and> tn_audit t' = tn_audit t \<and> tn_wire t' = tn_wire t @
        (if fst (pump_timer cfg ilk werr now t) then []
         else take (case werr of Some (_, n) \<Rightarrow> n | None \<Rightarrow> 0) (data_bytes cfg (ax25_encode (q_payload item)))) \<or>
    sched_contents (tn_sched t) = add_mset item (sched_contents (tn_sched t')) \<and>
      (tn_wire t' = tn_wire t @ data_bytes cfg (ax25_encode (q_payload item)) \<and>
         length (tn_audit t') = length (tn_audit t) + 1
       \<or> sh_dropped_inhibited (tn_shared t') = sh_dropped_inhibited (tn_shared t) + 1
       \<or> sh_dropped_stale (tn_shared t') = sh_dropped_stale (tn_shared t) + 1
       \<or> tc_max_frame cfg < length (ax25_encode (q_payload item)))"
proof -
  have "pop_option now (tn_sched t) = Some (item, s)" using assms(3) by (simp add: pop_option_def)
  then have "sched_contents (tn_sched t) = add_mset item (sched_contents (tn_sched (t\<lparr>tn_sched := s\<rparr>)))"
    using sched_queue.take_removes by simp
  moreover have e: "pump_timer cfg ilk werr now t = pump_item cfg ilk werr now item (t\<lparr>tn_sched := s\<rparr>)"
    using assms by (simp add: pump_timer_def interlock_failed_def)
  ultimately show ?thesis
    using pump_item_fate [of "tn_sched t" item "t\<lparr>tn_sched := s\<rparr>" t'] assms(4) unfolding e by simp
qed

theorem popped_frame_accounted_witness:
  "sched_contents (tn_sched (snd (pump_timer quiet_tnc False None 0 sample_tnc))) =
     sched_contents (tn_sched sample_tnc) \<or>
   sample_item \<in># sched_contents (tn_sched sample_tnc)"
proof -
  obtain s where p: "sched_pop 0 (tn_sched sample_tnc) = (Some sample_item, s)" by (rule sample_pop)
  have "sh_interlock_ok (tn_shared sample_tnc)"
    by (simp add: sample_tnc_def tnc_spawn_def airtime_shared_default_def)
  from popped_frame_accounted [OF this sample_poll p refl, of quiet_tnc False None] show ?thesis by auto
qed

text \<open>The backlog an operator or admission control reads (frames and airtime queued) is the real one after every event of the link, whatever
  the order of sends, knobs, interlock changes, receptions, timers, failures and reconnections.\<close>

theorem published_backlog_is_real:
  "sh_queued_frames (tn_shared (fold (tnc_step cfg) ops (tnc_spawn cfg))) =
     sched_len (tn_sched (fold (tnc_step cfg) ops (tnc_spawn cfg))) \<and>
   sh_queued_ms (tn_shared (fold (tnc_step cfg) ops (tnc_spawn cfg))) =
     as_millis (queued_airtime (tn_sched (fold (tnc_step cfg) ops (tnc_spawn cfg))))"
  using tnc_machine.run_inv [OF spawn_accounted] by (simp add: accounted_def)

text \<open>What one link writes for a well-formed frame, another that is between frames and uses the same KISS port receives as
  exactly that frame, and hearing it ends the wait for a reply.\<close>

theorem link_delivers:
  assumes "ax25_wf f" "length (ax25_encode f) < max_frame (tn_decoder t)"
    and "kbuf (tn_decoder t) = [] \<or> \<not> in_frame (tn_decoder t)" "tc_kiss_port cfg \<le> 0x0F"
  shows "\<exists>t'. pump_read cfg now (data_bytes cfg (ax25_encode f)) t = Some t' \<and>
    tn_received t' = tn_received t @ [f] \<and> sd_reply_until (tn_sched t') = None \<and> tn_wire t' = tn_wire t"
  by (rule pump_read_frame [OF assms, of now]) (simp add: sched_on_heard_def)

theorem link_delivers_witness:
  "\<exists>t'. pump_read quiet_tnc 5 (data_bytes quiet_tnc (ax25_encode sample_frame)) (tnc_spawn quiet_tnc) = Some t' \<and>
     tn_received t' = [sample_frame]"
proof -
  have "ax25_wf sample_frame"
    by (simp add: sample_frame_def ax25_wf_def address_wf_def callsign_wf_def lit_def MAX_DIGIPEATERS_def
        carries_pid_def is_ui_control_def CONTROL_UI_def char_class_defs to_upper_def address_new_def)
  moreover have "length (ax25_encode sample_frame) < max_frame (tn_decoder (tnc_spawn quiet_tnc))"
    by (simp add: sample_length tnc_spawn_def kiss_decoder_new_def quiet_tnc_def tnc_config_default_def)
  moreover have "kbuf (tn_decoder (tnc_spawn quiet_tnc)) = []" by (simp add: tnc_spawn_def kiss_decoder_new_def)
  moreover have "tc_kiss_port quiet_tnc \<le> 0x0F" by (simp add: quiet_tnc_def tnc_config_default_def)
  moreover have "tn_received (tnc_spawn quiet_tnc) = []" by (simp add: tnc_spawn_def)
  ultimately show ?thesis using link_delivers [of sample_frame "tnc_spawn quiet_tnc" quiet_tnc 5] by auto
qed

end
