(* ===== verification/Irc_Message.thy ===== *)
theory Irc_Message
  imports Callsign
begin

text \<open>
  \<open>src/src/irc/message.rs\<close>: IRC lines. Parsing with message tags, serialisation with every field scrubbed, the
  CTCP split, and the channel and nickname rules. The theory proves that a serialised message is one
  line whatever its fields hold, and that parsing it gives the fields back in their places.
\<close>

section \<open>Messages\<close>

record message =
  msg_tags :: "(ustr \<times> ustr option) list"
  msg_prefix :: "ustr option"
  msg_command :: ustr
  msg_params :: "ustr list"

definition message_default :: message where
  "message_default = \<lparr>msg_tags = [], msg_prefix = None, msg_command = [], msg_params = []\<rparr>"

definition message_new :: "ustr \<Rightarrow> ustr list \<Rightarrow> message" where
  "message_new command params =
     message_default\<lparr>msg_command := to_ascii_uppercase command, msg_params := params\<rparr>"

definition with_prefix :: "ustr \<Rightarrow> message \<Rightarrow> message" where
  "with_prefix p m = m\<lparr>msg_prefix := Some p\<rparr>"

definition msg_param :: "message \<Rightarrow> nat \<Rightarrow> ustr option" where
  "msg_param m i = (if i < length (msg_params m) then Some (msg_params m ! i) else None)"

section \<open>Parsing\<close>

definition trim_end_crlf :: "ustr \<Rightarrow> ustr" where
  "trim_end_crlf s = rev (dropWhile (\<lambda>c. c = 13 \<or> c = 10) (rev s))"

definition trim_spaces :: "ustr \<Rightarrow> ustr" where
  "trim_spaces s = dropWhile (\<lambda>c. c = 32) s"

lemma length_trim_spaces: "length (trim_spaces s) \<le> length s"
  by (simp add: trim_spaces_def length_dropWhile_le)

definition parse_tag :: "ustr \<Rightarrow> ustr \<times> ustr option" where
  "parse_tag tag = (case split_once 61 tag of Some (k, v) \<Rightarrow> (k, Some v) | None \<Rightarrow> (tag, None))"

definition parse_tags :: "ustr \<Rightarrow> (ustr \<times> ustr option) list" where
  "parse_tags tags = map parse_tag (filter (\<lambda>t. t \<noteq> []) (split_on 59 tags))"

lemma split_once_shorter: "split_once c s = Some (a, b) \<Longrightarrow> length (trim_spaces b) < length s"
  using length_trim_spaces [of b] by (auto dest!: split_once_Some)

text \<open>The loop over the parameters.\<close>

function parse_params :: "ustr \<Rightarrow> ustr list" where
  "parse_params s =
     (case s of
        [] \<Rightarrow> []
      | c # t \<Rightarrow>
          if c = 58 then [t]
          else (case split_once 32 s of
                  Some (p, r) \<Rightarrow> (if p \<noteq> [] then [p] else []) @ parse_params (trim_spaces r)
                | None \<Rightarrow> [s]))"
  by pat_completeness auto
termination
proof (relation "measure length")
  fix s c t x p r
  assume "s = c # t" "split_once 32 s = Some x" "(p, r) = x"
  then show "(trim_spaces r, s) \<in> measure length"
    using split_once_shorter [of 32 s p r] by simp
qed simp

declare parse_params.simps [simp del]

text \<open>\<open>splitn(2, ' ')\<close>: the command and what follows it.\<close>

definition parse_command :: "ustr \<Rightarrow> message \<Rightarrow> message option" where
  "parse_command rest m =
     (let (command, tail) = (case split_once 32 rest of Some (c, r) \<Rightarrow> (c, r) | None \<Rightarrow> (rest, []))
      in if command = [] then None
         else Some (m\<lparr>msg_command := to_ascii_uppercase command, msg_params := parse_params (trim_spaces tail)\<rparr>))"

definition parse_prefix :: "ustr \<Rightarrow> message \<Rightarrow> message option" where
  "parse_prefix rest m =
     (case rest of
        [] \<Rightarrow> parse_command rest m
      | c # t \<Rightarrow>
          if c = 58 then
            (case split_once 32 t of
               None \<Rightarrow> None
             | Some (p, r) \<Rightarrow> parse_command (trim_start r) (m\<lparr>msg_prefix := Some p\<rparr>))
          else parse_command rest m)"

definition message_parse :: "ustr \<Rightarrow> message option" where
  "message_parse line =
     (let rest = trim_start (trim_end_crlf line) in
      case rest of
        [] \<Rightarrow> parse_prefix rest message_default
      | c # t \<Rightarrow>
          if c = 64 then
            (case split_once 32 t of
               None \<Rightarrow> None
             | Some (tags, r) \<Rightarrow> parse_prefix (trim_start r) (message_default\<lparr>msg_tags := parse_tags tags\<rparr>))
          else parse_prefix rest message_default)"

section \<open>Serialisation\<close>

definition line_break :: "nat \<Rightarrow> bool" where
  "line_break c \<longleftrightarrow> c = 13 \<or> c = 10 \<or> c = 0"

fun join :: "nat \<Rightarrow> ustr list \<Rightarrow> ustr" where
  "join c [] = []"
| "join c [s] = s"
| "join c (s # t # ts) = s @ c # join c (t # ts)"

definition scrub_irc :: "ustr \<Rightarrow> ustr" where
  "scrub_irc s =
     map (\<lambda>c. if c = 32 then 95 else c)
       (join 32 (split_whitespace (map (\<lambda>c. if line_break c then 32 else c) s)))"

definition middle_param :: "ustr \<Rightarrow> ustr" where
  "middle_param s =
     (let cleaned = scrub_irc s in
      case cleaned of
        [] \<Rightarrow> [42]
      | c # _ \<Rightarrow> if c = 58 then 95 # cleaned else cleaned)"

definition strip_line_breaks :: "ustr \<Rightarrow> ustr" where
  "strip_line_breaks s = filter (\<lambda>c. \<not> line_break c) s"

definition last_param :: "ustr \<Rightarrow> ustr" where
  "last_param p0 =
     (let p = strip_line_breaks p0 in
      if p = [] \<or> hd p = 58 \<or> list_ex is_whitespace p then [32, 58] @ p else [32] @ p)"

fun show_params :: "ustr list \<Rightarrow> ustr" where
  "show_params [] = []"
| "show_params [p] = last_param p"
| "show_params (p # q # ps) = [32] @ middle_param p @ show_params (q # ps)"

text \<open>\<open>impl fmt::Display\<close>.\<close>

definition message_to_string :: "message \<Rightarrow> ustr" where
  "message_to_string m =
     (case msg_prefix m of Some p \<Rightarrow> [58] @ scrub_irc p @ [32] | None \<Rightarrow> [])
     @ scrub_irc (msg_command m) @ show_params (msg_params m)"

section \<open>CTCP, channels and nicknames\<close>

definition strip_suffix1 :: "nat \<Rightarrow> ustr \<Rightarrow> ustr option" where
  "strip_suffix1 c s = (if s \<noteq> [] \<and> last s = c then Some (butlast s) else None)"

definition parse_ctcp :: "ustr \<Rightarrow> (ustr \<times> ustr) option" where
  "parse_ctcp s =
     (case s of
        [] \<Rightarrow> None
      | c # t \<Rightarrow>
          if c \<noteq> 1 then None
          else (let body = (case strip_suffix1 1 t of Some b \<Rightarrow> b | None \<Rightarrow> t) in
                if body = [] then None
                else (case split_once 32 body of
                        Some (cmd, rest) \<Rightarrow> Some (cmd, rest)
                      | None \<Rightarrow> Some (body, []))))"

definition is_channel_name :: "ustr \<Rightarrow> bool" where
  "is_channel_name s \<longleftrightarrow>
     (case s of [] \<Rightarrow> False | c # _ \<Rightarrow> c = 35 \<or> c = 38) \<and> 2 \<le> str_len s \<and> str_len s \<le> 50
     \<and> 32 \<notin> set s \<and> 44 \<notin> set s \<and> \<not> list_ex (\<lambda>c. is_control c \<or> 0x80 \<le> c \<and> c \<le> 0x9F) s"

definition nick_special :: "ustr" where
  "nick_special = [91, 93, 92, 96, 95, 94, 123, 124, 125]"

definition is_valid_nick :: "ustr \<Rightarrow> nat \<Rightarrow> bool" where
  "is_valid_nick s max_len \<longleftrightarrow>
     s \<noteq> [] \<and> str_len s \<le> max_len
     \<and> (is_ascii_alphabetic (hd s) \<or> hd s \<in> set nick_special)
     \<and> list_all (\<lambda>c. is_ascii_alphanumeric c \<or> c \<in> set nick_special \<or> c = 45) s"

section \<open>One line, whatever the fields hold\<close>

lemma set_join: "set (join c ts) \<subseteq> insert c (\<Union>t \<in> set ts. set t)"
  by (induction c ts rule: join.induct) auto

lemma words_acc_plain:
  "w \<in> set (words_acc acc s) \<Longrightarrow> \<forall>c \<in> set acc. \<not> is_whitespace c \<Longrightarrow>
     w \<noteq> [] \<and> set w \<subseteq> (set acc \<union> set s) - Collect is_whitespace"
  by (induction acc s rule: words_acc.induct) (auto split: if_splits)

lemma scrub_irc_no_white: "c \<in> set (scrub_irc s) \<Longrightarrow> \<not> is_whitespace c \<and> \<not> line_break c"
proof -
  assume "c \<in> set (scrub_irc s)"
  let ?t = "map (\<lambda>c. if line_break c then 32 else c) s"
  obtain d where d: "d \<in> set (join 32 (split_whitespace ?t))" "c = (if d = 32 then 95 else d)"
    using \<open>c \<in> set (scrub_irc s)\<close> by (auto simp: scrub_irc_def)
  have "d = 32 \<or> (\<exists>w \<in> set (split_whitespace ?t). d \<in> set w)"
    using d(1) set_join [of 32 "split_whitespace ?t"] by auto
  then have "d = 32 \<or> (d \<in> set ?t \<and> \<not> is_whitespace d)"
    using words_acc_plain [of _ "[]" ?t] by (auto simp: split_whitespace_def)
  then show ?thesis
    using d(2) by (auto simp: line_break_def is_whitespace_def split: if_splits)
qed

lemma strip_line_breaks_clean: "c \<in> set (strip_line_breaks s) \<Longrightarrow> \<not> line_break c"
  by (simp add: strip_line_breaks_def)

lemma middle_param_clean:
  "c \<in> set (middle_param s) \<Longrightarrow> \<not> is_whitespace c \<and> \<not> line_break c"
  using scrub_irc_no_white [of c s]
  by (auto simp: middle_param_def Let_def line_break_def is_whitespace_def split: list.splits if_splits)

lemma middle_param_ne: "middle_param s \<noteq> [] \<and> hd (middle_param s) \<noteq> 58"
  by (auto simp: middle_param_def Let_def split: list.splits if_splits)

lemma show_params_clean: "c \<in> set (show_params ps) \<Longrightarrow> \<not> line_break c"
  by (induction ps rule: show_params.induct)
    (auto simp: last_param_def Let_def line_break_def dest!: strip_line_breaks_clean middle_param_clean
      split: if_splits)

lemma to_string_clean: "c \<in> set (message_to_string m) \<Longrightarrow> \<not> line_break c"
  by (auto simp: message_to_string_def line_break_def split: option.splits
      dest!: scrub_irc_no_white show_params_clean)

section \<open>Parsing what was serialised\<close>

text \<open>The parameters as the receiver of a serialised message has them.\<close>

definition delivered :: "ustr list \<Rightarrow> ustr list" where
  "delivered ps = (if ps = [] then [] else map middle_param (butlast ps) @ [strip_line_breaks (last ps)])"

lemma show_params_head: "ps \<noteq> [] \<Longrightarrow> show_params ps = 32 # tl (show_params ps)"
  by (cases ps rule: show_params.cases) (auto simp: last_param_def Let_def)

lemma trim_spaces_simps [simp]: "trim_spaces [] = []" "trim_spaces (c # s) = (if c = 32 then trim_spaces s else c # s)"
  by (simp_all add: trim_spaces_def)

lemma parse_params_Nil [simp]: "parse_params [] = []"
  by (simp add: parse_params.simps)

lemma parse_params_colon: "parse_params (58 # t) = [t]"
  by (simp add: parse_params.simps)

lemma parse_params_word:
  assumes "p \<noteq> []" "hd p \<noteq> 58" "32 \<notin> set p"
  shows "parse_params (trim_spaces (p @ 32 # r)) = p # parse_params (trim_spaces r)"
    and "parse_params (trim_spaces p) = [p]"
proof -
  obtain c t where p: "p = c # t" using assms(1) by (cases p) auto
  have trim: "trim_spaces (p @ x) = p @ x" for x
    using assms(3) p by simp
  have "split_once 32 (p @ 32 # r) = Some (p, r)"
    by (rule split_once_append [OF assms(3)])
  then show "parse_params (trim_spaces (p @ 32 # r)) = p # parse_params (trim_spaces r)"
    unfolding trim using assms p by (subst parse_params.simps) simp
  have "split_once 32 p = None"
    using assms(3) by simp
  then show "parse_params (trim_spaces p) = [p]"
    using trim [of "[]"] assms(2) p by (subst parse_params.simps) simp
qed

lemma parse_last_param: "parse_params (trim_spaces (last_param p)) = [strip_line_breaks p]"
proof (cases "strip_line_breaks p = [] \<or> hd (strip_line_breaks p) = 58
    \<or> list_ex is_whitespace (strip_line_breaks p)")
  case True
  then show ?thesis by (simp add: last_param_def parse_params_colon)
next
  case False
  then have "32 \<notin> set (strip_line_breaks p)"
    by (auto simp: list_ex_iff is_whitespace_def)
  then show ?thesis
    using False parse_params_word(2) [of "strip_line_breaks p"] by (auto simp: last_param_def Let_def)
qed

lemma parse_show_params: "parse_params (trim_spaces (show_params ps)) = delivered ps"
proof (induction ps rule: show_params.induct)
  case (3 p q ps)
  have no32: "32 \<notin> set (middle_param p)"
    using middle_param_clean [of 32 p] by (auto simp: is_whitespace_def)
  obtain r where r: "show_params (q # ps) = 32 # r"
    using show_params_head [of "q # ps"] by blast
  have "parse_params (trim_spaces (show_params (p # q # ps))) = middle_param p # parse_params (trim_spaces r)"
    using parse_params_word(1) [of "middle_param p" r] middle_param_ne [of p] no32 r by simp
  moreover have "parse_params (trim_spaces r) = delivered (q # ps)"
    using 3 r by simp
  ultimately show ?case by (simp add: delivered_def)
qed (simp_all add: delivered_def parse_last_param)

lemma parse_command_show:
  assumes "cmd \<noteq> []" "32 \<notin> set cmd"
  shows "parse_command (cmd @ show_params ps) m
     = Some (m\<lparr>msg_command := to_ascii_uppercase cmd, msg_params := delivered ps\<rparr>)"
proof (cases "ps = []")
  case True
  have "split_once 32 cmd = None" using assms(2) by simp
  then show ?thesis using assms True by (simp add: parse_command_def delivered_def)
next
  case False
  obtain r where r: "show_params ps = 32 # r"
    using show_params_head [OF False] by blast
  have "split_once 32 (cmd @ show_params ps) = Some (cmd, r)"
    using assms(2) r by (simp add: split_once_append)
  moreover have "parse_params (trim_spaces r) = delivered ps"
    using parse_show_params [of ps] r by simp
  ultimately show ?thesis using assms by (simp add: parse_command_def)
qed

lemma trim_end_crlf_clean: "(\<And>c. c \<in> set s \<Longrightarrow> \<not> line_break c) \<Longrightarrow> trim_end_crlf s = s"
proof -
  assume "\<And>c. c \<in> set s \<Longrightarrow> \<not> line_break c"
  then have "rev s = [] \<or> \<not> (hd (rev s) = 13 \<or> hd (rev s) = 10)"
    using list.set_sel(1) [of "rev s"] by (auto simp: line_break_def)
  then show ?thesis by (simp add: trim_end_crlf_def dropWhile_no)
qed

lemma trim_start_word: "cmd \<noteq> [] \<Longrightarrow> \<not> is_whitespace (hd cmd) \<Longrightarrow> trim_start (cmd @ s) = cmd @ s"
  by (simp add: trim_start_def dropWhile_no)

text \<open>C19: Whatever a message holds, prefix, command and parameters alike, its serialisation contains no
  carriage return, no line feed and no NUL: it is exactly one line, so no field that came over the air
  can put a second command into a client's connection.\<close>

theorem serialised_is_one_line: "set (message_to_string m) \<inter> {13, 10, 0} = {}"
  using to_string_clean [of _ m] by (auto simp: line_break_def)

text \<open>Parsing a serialised message gives its fields back in their places: the scrubbed prefix, the
  scrubbed command in upper case, one parameter for every parameter (a middle one scrubbed, with its
  leading colon and its emptiness made representable; the last one with its spaces and its colons
  intact), and no tags. It holds for every message whose scrubbed command is not empty and does not
  begin with the characters that open a prefix or a tag section.\<close>

theorem serialised_fields_keep_places:
  assumes "scrub_irc (msg_command m) \<noteq> []" and "hd (scrub_irc (msg_command m)) \<notin> {58, 64}"
  shows "message_parse (message_to_string m) = Some
           \<lparr>msg_tags = [], msg_prefix = map_option scrub_irc (msg_prefix m),
            msg_command = to_ascii_uppercase (scrub_irc (msg_command m)),
            msg_params = delivered (msg_params m)\<rparr>"
proof -
  let ?cmd = "scrub_irc (msg_command m)" and ?body = "scrub_irc (msg_command m) @ show_params (msg_params m)"
  have white: "\<not> is_whitespace (hd ?cmd)"
    using scrub_irc_no_white [of "hd ?cmd" "msg_command m"] assms(1) by simp
  have no32: "32 \<notin> set (scrub_irc s)" for s
    using scrub_irc_no_white [of 32 s] by (auto simp: is_whitespace_def)
  have trim: "trim_end_crlf (message_to_string m) = message_to_string m"
    by (rule trim_end_crlf_clean) (rule to_string_clean)
  have start: "trim_start ?body = ?body"
    by (rule trim_start_word [OF assms(1) white])
  obtain c t where ct: "?body = c # t" "c \<noteq> 58" "c \<noteq> 64"
    using assms by (cases "scrub_irc (msg_command m)") auto
  note command = parse_command_show [OF assms(1) no32, of "msg_params m"]
  show ?thesis
  proof (cases "msg_prefix m")
    case None
    have "message_to_string m = ?body"
      by (simp add: message_to_string_def None)
    then show ?thesis
      using trim start ct command [of message_default]
      by (simp add: message_parse_def parse_prefix_def Let_def None message_default_def)
  next
    case (Some p)
    have line: "message_to_string m = 58 # (scrub_irc p @ 32 # ?body)"
      by (simp add: message_to_string_def Some)
    have "trim_start (message_to_string m) = message_to_string m"
      by (simp add: line trim_start_def is_whitespace_def)
    moreover have "split_once 32 (scrub_irc p @ 32 # ?body) = Some (scrub_irc p, ?body)"
      by (rule split_once_append [OF no32])
    ultimately show ?thesis
      using trim start command [of "message_default\<lparr>msg_prefix := Some (scrub_irc p)\<rparr>"]
      by (simp add: message_parse_def parse_prefix_def Let_def line Some message_default_def)
  qed
qed

theorem serialised_fields_keep_places_witness:
  "message_parse (message_to_string
      \<lparr>msg_tags = [], msg_prefix = Some (lit ''K1ABC!a b''), msg_command = lit ''topic'',
       msg_params = [lit ''a b'', [], lit '': two  words'' @ [13, 10]]\<rparr>)
   = Some \<lparr>msg_tags = [], msg_prefix = Some (lit ''K1ABC!a_b''), msg_command = lit ''TOPIC'',
       msg_params = [lit ''a_b'', lit ''*'', lit '': two  words'']\<rparr>"
proof -
  let ?m = "\<lparr>msg_tags = [], msg_prefix = Some (lit ''K1ABC!a b''), msg_command = lit ''topic'',
       msg_params = [lit ''a b'', [], lit '': two  words'' @ [13, 10]]\<rparr>"
  have cmd: "scrub_irc (lit ''topic'') = lit ''topic''" and pre: "scrub_irc (lit ''K1ABC!a b'') = lit ''K1ABC!a_b''"
    and ps: "middle_param (lit ''a b'') = lit ''a_b''" "middle_param [] = lit ''*''"
      "strip_line_breaks (lit '': two  words'' @ [13, 10]) = lit '': two  words''"
    and up: "to_ascii_uppercase (lit ''topic'') = lit ''TOPIC''"
    by (simp_all add: scrub_irc_def split_whitespace_def lit_def is_whitespace_def line_break_def
        middle_param_def strip_line_breaks_def to_ascii_uppercase_def to_upper_def is_ascii_lowercase_def)
  show ?thesis
    using serialised_fields_keep_places [of ?m] by (simp add: cmd pre ps up delivered_def) (simp add: lit_def)
qed

end
