(* ===== verification/Policy.thy ===== *)
theory Policy
  imports Complex_Main Callsign
begin

text \<open>
  \<open>src/src/policy.rs\<close>: what may be transmitted, and how often. The token-bucket rate limiter, the eight
  limiters the gateway keeps, the transform and the screening of text on its way to the air.

  Idealisation. Token counts and rates are \<open>f64\<close> in the code and rationals here, and the entropy that
  \<open>looks_like_ciphertext\<close> compares is a real number.
\<close>

section \<open>Configuration\<close>

record policy_config =
  max_rf_text_len :: nat
  rf_msgs_per_min :: nat
  rf_burst :: nat
  ip_to_rf_msgs_per_min :: nat
  ip_to_rf_burst :: nat
  block_apparent_ciphertext :: bool
  deny_callsigns :: "ustr list"
  allow_callsigns :: "ustr list"
  rf_channel_msgs_per_min :: nat
  rf_channel_burst :: nat
  ip_cmds_per_min :: nat
  ip_cmd_burst :: nat
  max_rf_fragments :: nat
  identify_per_min :: nat
  identify_burst :: nat

definition policy_config_default :: policy_config where
  "policy_config_default =
     \<lparr>max_rf_text_len = 160, rf_msgs_per_min = 6, rf_burst = 4, ip_to_rf_msgs_per_min = 10, ip_to_rf_burst = 4,
      block_apparent_ciphertext = True, deny_callsigns = [], allow_callsigns = [], rf_channel_msgs_per_min = 10,
      rf_channel_burst = 4, ip_cmds_per_min = 90, ip_cmd_burst = 30, max_rf_fragments = 2, identify_per_min = 6,
      identify_burst = 3\<rparr>"

section \<open>The rate limiter\<close>

record rate_bucket =
  rb_tokens :: rat
  rb_last :: nat

definition MAX_BUCKETS :: nat where "MAX_BUCKETS = 4096"

record rate_limiter =
  per_minute :: rat
  rl_burst :: rat
  buckets :: "(ustr, rate_bucket) table"

definition rate_limiter_new :: "nat \<Rightarrow> nat \<Rightarrow> rate_limiter" where
  "rate_limiter_new pm b = \<lparr>per_minute = of_nat pm, rl_burst = of_nat (max 1 b), buckets = []\<rparr>"

definition limiter_check :: "ustr \<Rightarrow> nat \<Rightarrow> rate_limiter \<Rightarrow> bool \<times> rate_limiter" where
  "limiter_check key now l =
     (let rate = per_minute l / 60;
          room = fst (make_room MAX_BUCKETS rb_last key (buckets l));
          b = (case map_of room key of Some b \<Rightarrow> b | None \<Rightarrow> \<lparr>rb_tokens = rl_burst l, rb_last = now\<rparr>);
          elapsed = as_secs (now - rb_last b);
          tokens = min (rb_tokens b + elapsed * rate) (rl_burst l)
      in if 1 \<le> tokens
         then (True, l\<lparr>buckets := AList.update key \<lparr>rb_tokens = tokens - 1, rb_last = now\<rparr> room\<rparr>)
         else (False, l\<lparr>buckets := AList.update key \<lparr>rb_tokens = tokens, rb_last = now\<rparr> room\<rparr>))"

definition limiter_expire :: "nat \<Rightarrow> duration \<Rightarrow> rate_limiter \<Rightarrow> rate_limiter" where
  "limiter_expire now idle l = l\<lparr>buckets := filter (\<lambda>(_, b). now - rb_last b < idle) (buckets l)\<rparr>"

section \<open>Text\<close>

definition skip_digit :: "ustr \<Rightarrow> ustr" where
  "skip_digit s = (case s of [] \<Rightarrow> [] | c # t \<Rightarrow> if is_ascii_digit c then t else s)"

text \<open>What follows a mIRC colour code: up to two digits, a comma, up to two digits.\<close>

definition skip_colour :: "ustr \<Rightarrow> ustr" where
  "skip_colour s =
     (let s1 = skip_digit (skip_digit s) in
      case s1 of
        [] \<Rightarrow> []
      | c # t \<Rightarrow> if c = 44 then skip_digit (skip_digit t) else s1)"

lemma length_skip_digit: "length (skip_digit s) \<le> length s"
  by (simp add: skip_digit_def split: list.split)

lemma length_skip_digits: "length (skip_digit (skip_digit s)) \<le> length s"
  using length_skip_digit le_trans by blast

lemma length_skip_colour: "length (skip_colour s) \<le> length s"
proof (cases "skip_digit (skip_digit s)")
  case (Cons c t)
  then have "Suc (length t) \<le> length s"
    using length_skip_digits [of s] by simp
  then show ?thesis
    using Cons length_skip_digits [of t] by (simp add: skip_colour_def)
qed (simp add: skip_colour_def)

definition push_space :: "ustr \<Rightarrow> ustr" where
  "push_space out = (if out \<noteq> [] \<and> last out = 32 then out else out @ [32])"

function sanitize_loop :: "ustr \<Rightarrow> ustr \<Rightarrow> ustr" where
  "sanitize_loop out [] = out"
| "sanitize_loop out (c # cs) =
     (if c = 3 then sanitize_loop out (skip_colour cs)
      else if c \<in> {2, 0x0F, 0x16, 0x1D, 0x1F, 4} then sanitize_loop out cs
      else if c \<in> {13, 10, 9} then sanitize_loop (push_space out) cs
      else if c < 0x20 then sanitize_loop out cs
      else if 0x7F \<le> c \<and> c \<le> 0x9F then sanitize_loop out cs
      else if c = 32 then sanitize_loop (push_space out) cs
      else sanitize_loop (out @ [c]) cs)"
  by pat_completeness auto
termination
  by (relation "measure (\<lambda>(_, s). length s)") (simp_all add: le_imp_less_Suc length_skip_colour)

definition sanitize :: "ustr \<Rightarrow> ustr" where
  "sanitize s = trim (sanitize_loop [] s)"

definition terminal_active :: "nat \<Rightarrow> bool" where
  "terminal_active c \<longleftrightarrow>
     is_control c \<or> (0x80 \<le> c \<and> c \<le> 0x9F) \<or> c = 0x200E \<or> c = 0x200F
     \<or> (0x202A \<le> c \<and> c \<le> 0x202E) \<or> (0x2066 \<le> c \<and> c \<le> 0x2069)"

definition strip_terminal_controls :: "ustr \<Rightarrow> ustr" where
  "strip_terminal_controls s = filter (\<lambda>c. \<not> terminal_active c) s"

definition shannon_entropy :: "ustr \<Rightarrow> real" where
  "shannon_entropy s =
     - (\<Sum>c\<leftarrow>remdups s. let p = real (count_list s c) / real (length s) in p * log 2 p)"

fun contains_str :: "ustr \<Rightarrow> ustr \<Rightarrow> bool" where
  "contains_str p [] \<longleftrightarrow> p = []"
| "contains_str p (c # s) \<longleftrightarrow> starts_with p (c # s) \<or> contains_str p s"

definition cipher_token :: "ustr \<Rightarrow> bool" where
  "cipher_token token =
     (let len = length token;
          b64ish = length (filter (\<lambda>c. is_ascii_alphanumeric c \<or> c = 43 \<or> c = 47 \<or> c = 61) token)
      in if len < 40 then False
         else if b64ish * 100 div len < 95 then False
         else (list_ex is_ascii_lowercase token \<and> list_ex is_ascii_uppercase token
               \<and> list_ex is_ascii_digit token)
              \<or> shannon_entropy token > 42 / 10)"

definition looks_like_ciphertext :: "ustr \<Rightarrow> bool" where
  "looks_like_ciphertext s \<longleftrightarrow>
     (let upper = to_ascii_uppercase s in
      contains_str (lit ''-----BEGIN'') upper \<and> contains_str (lit ''MESSAGE'') upper)
     \<or> list_ex cipher_token (split_whitespace s)"

datatype verdict = Allow ustr | Truncated ustr | Deny ustr

section \<open>The policy\<close>

record policy =
  pol_config :: policy_config
  rf_out :: rate_limiter
  ip_to_rf :: rate_limiter
  rf_channel :: rate_limiter
  ip_cmds :: rate_limiter
  identify :: rate_limiter
  topic_limit :: rate_limiter
  presence :: rate_limiter
  first_contact :: rate_limiter

definition policy_new :: "policy_config \<Rightarrow> policy" where
  "policy_new cfg =
     \<lparr>pol_config = cfg,
      rf_out = rate_limiter_new (rf_msgs_per_min cfg) (rf_burst cfg),
      ip_to_rf = rate_limiter_new (ip_to_rf_msgs_per_min cfg) (ip_to_rf_burst cfg),
      rf_channel = rate_limiter_new (rf_channel_msgs_per_min cfg) (rf_channel_burst cfg),
      ip_cmds = rate_limiter_new (ip_cmds_per_min cfg) (ip_cmd_burst cfg),
      identify = rate_limiter_new (identify_per_min cfg) (identify_burst cfg),
      topic_limit = rate_limiter_new 6 2,
      presence = rate_limiter_new 12 4,
      first_contact = rate_limiter_new 10 5\<rparr>"

definition call_listed :: "ustr list \<Rightarrow> callsign \<Rightarrow> bool" where
  "call_listed cs call =
     list_ex (\<lambda>c. c = call \<or> (call_ssid c = 0 \<and> same_station c call))
       (List.map_filter (\<lambda>s. ok_of (callsign_from_str s)) cs)"

definition station_allowed :: "policy \<Rightarrow> callsign \<Rightarrow> bool" where
  "station_allowed p call =
     (if call_listed (deny_callsigns (pol_config p)) call then False
      else if allow_callsigns (pol_config p) = [] then True
      else call_listed (allow_callsigns (pol_config p)) call)"

definition rf_station_rate_ok :: "callsign \<Rightarrow> nat \<Rightarrow> policy \<Rightarrow> bool \<times> policy" where
  "rf_station_rate_ok call now p =
     (let (ok, l) = limiter_check (callsign_to_string call) now (rf_out p) in (ok, p\<lparr>rf_out := l\<rparr>))"

definition first_contact_ok :: "nat \<Rightarrow> policy \<Rightarrow> bool \<times> policy" where
  "first_contact_ok now p =
     (let (ok, l) = limiter_check (lit ''rf'') now (first_contact p) in (ok, p\<lparr>first_contact := l\<rparr>))"

definition ip_rate_ok :: "ustr \<Rightarrow> nat \<Rightarrow> policy \<Rightarrow> bool \<times> policy" where
  "ip_rate_ok key now p = (let (ok, l) = limiter_check key now (ip_to_rf p) in (ok, p\<lparr>ip_to_rf := l\<rparr>))"

definition rf_channel_rate_ok :: "ustr \<Rightarrow> nat \<Rightarrow> policy \<Rightarrow> bool \<times> policy" where
  "rf_channel_rate_ok key now p = (let (ok, l) = limiter_check key now (rf_channel p) in (ok, p\<lparr>rf_channel := l\<rparr>))"

definition ip_cmd_rate_ok :: "ustr \<Rightarrow> nat \<Rightarrow> policy \<Rightarrow> bool \<times> policy" where
  "ip_cmd_rate_ok key now p = (let (ok, l) = limiter_check key now (ip_cmds p) in (ok, p\<lparr>ip_cmds := l\<rparr>))"

definition identify_rate_ok :: "ustr \<Rightarrow> nat \<Rightarrow> policy \<Rightarrow> bool \<times> policy" where
  "identify_rate_ok key now p = (let (ok, l) = limiter_check key now (identify p) in (ok, p\<lparr>identify := l\<rparr>))"

definition topic_rate_ok :: "ustr \<Rightarrow> nat \<Rightarrow> policy \<Rightarrow> bool \<times> policy" where
  "topic_rate_ok channel now p =
     (let (ok, l) = limiter_check channel now (topic_limit p) in (ok, p\<lparr>topic_limit := l\<rparr>))"

definition presence_rate_ok :: "ustr \<Rightarrow> nat \<Rightarrow> policy \<Rightarrow> bool \<times> policy" where
  "presence_rate_ok channel now p =
     (let (ok, l) = limiter_check channel now (presence p) in (ok, p\<lparr>presence := l\<rparr>))"

definition screen_outbound :: "policy \<Rightarrow> ustr \<Rightarrow> verdict" where
  "screen_outbound p s =
     (let cleaned = sanitize s in
      if trim cleaned = [] then Deny (lit ''message is empty after removing control characters'')
      else if block_apparent_ciphertext (pol_config p) \<and> looks_like_ciphertext cleaned
      then Deny (lit ''refusing to transmit: the message looks like ciphertext or an armoured blob, and amateur transmissions must not obscure their meaning'')
      else if max_rf_text_len (pol_config p) < length cleaned
      then Truncated (take (max_rf_text_len (pol_config p) - 1) cleaned @ [0x2026])
      else Allow cleaned)"

definition LIMITER_IDLE :: duration where "LIMITER_IDLE = from_secs 3600"

definition policy_expire :: "nat \<Rightarrow> policy \<Rightarrow> policy" where
  "policy_expire now p =
     p\<lparr>rf_out := limiter_expire now LIMITER_IDLE (rf_out p),
       ip_to_rf := limiter_expire now LIMITER_IDLE (ip_to_rf p),
       rf_channel := limiter_expire now LIMITER_IDLE (rf_channel p),
       ip_cmds := limiter_expire now LIMITER_IDLE (ip_cmds p),
       identify := limiter_expire now LIMITER_IDLE (identify p),
       topic_limit := limiter_expire now LIMITER_IDLE (topic_limit p),
       presence := limiter_expire now LIMITER_IDLE (presence p),
       first_contact := limiter_expire now LIMITER_IDLE (first_contact p)\<rparr>"

text \<open>Every operation that changes the policy, as one step; the answer is the limiter's.\<close>

datatype policy_op =
    RfStation callsign nat
  | FirstContact nat
  | IpRate ustr nat
  | RfChannel ustr nat
  | IpCmd ustr nat
  | Identify ustr nat
  | Topic ustr nat
  | Presence ustr nat
  | PolicyExpire nat

fun policy_step :: "policy_op \<Rightarrow> policy \<Rightarrow> bool \<times> policy" where
  "policy_step (RfStation c t) p = rf_station_rate_ok c t p"
| "policy_step (FirstContact t) p = first_contact_ok t p"
| "policy_step (IpRate k t) p = ip_rate_ok k t p"
| "policy_step (RfChannel k t) p = rf_channel_rate_ok k t p"
| "policy_step (IpCmd k t) p = ip_cmd_rate_ok k t p"
| "policy_step (Identify k t) p = identify_rate_ok k t p"
| "policy_step (Topic k t) p = topic_rate_ok k t p"
| "policy_step (Presence k t) p = presence_rate_ok k t p"
| "policy_step (PolicyExpire t) p = (False, policy_expire t p)"

end
