(* ===== verification/Policy_Proofs.thy ===== *)
theory Policy_Proofs
  imports Policy
begin

text \<open>
  What \<open>Policy\<close> guarantees. Text: the transform for the air is a projection onto clean text, and the
  screening passes nothing else. Limiters: an interface \<open>token_gate\<close> (a potential that admissions spend
  and time refills) bounds the admissions of any run; it is interpreted on the limiter of one key and on
  the unkeyed first-contact limiter of the whole policy. The tables stay bounded.
\<close>

section \<open>Text for the air\<close>

definition printable :: "nat \<Rightarrow> bool" where
  "printable c \<longleftrightarrow> 32 \<le> c \<and> \<not> (0x7F \<le> c \<and> c \<le> 0x9F)"

definition single_spaced :: "ustr \<Rightarrow> bool" where
  "single_spaced s \<longleftrightarrow> successively (\<lambda>a b. \<not> (a = 32 \<and> b = 32)) s"

definition on_air_text :: "ustr \<Rightarrow> bool" where
  "on_air_text s \<longleftrightarrow> set s \<subseteq> Collect printable \<and> single_spaced s \<and> trim s = s"

lemma single_spaced_snoc:
  "single_spaced (s @ [c]) \<longleftrightarrow> single_spaced s \<and> (s = [] \<or> last s \<noteq> 32 \<or> c \<noteq> 32)"
  by (auto simp: single_spaced_def successively_append_iff)

lemma single_spaced_middle: "single_spaced (a @ s @ b) \<Longrightarrow> single_spaced s"
  by (auto simp: single_spaced_def successively_append_iff)

lemma trim_parts: "\<exists>a b. s = a @ trim s @ b"
proof -
  have "s = takeWhile is_whitespace s @ trim_start s"
    by (simp add: trim_start_def)
  moreover have "t = trim_end t @ rev (takeWhile is_whitespace (rev t))" for t
    by (simp add: trim_end_def flip: rev_append)
  ultimately show ?thesis
    unfolding trim_def by metis
qed

lemma single_spaced_trim: "single_spaced s \<Longrightarrow> single_spaced (trim s)"
  using trim_parts [of s] single_spaced_middle by metis

lemma sanitize_loop_clean:
  "set out \<subseteq> Collect printable \<Longrightarrow> single_spaced out \<Longrightarrow>
     set (sanitize_loop out s) \<subseteq> Collect printable \<and> single_spaced (sanitize_loop out s)"
  by (induction out s rule: sanitize_loop.induct)
    (simp_all add: push_space_def single_spaced_snoc printable_def split: if_splits)

lemma sanitize_on_air: "on_air_text (sanitize s)"
proof -
  have "set (sanitize_loop [] s) \<subseteq> Collect printable" "single_spaced (sanitize_loop [] s)"
    using sanitize_loop_clean [of "[]" s] by (simp_all add: single_spaced_def [of "[]"])
  then show ?thesis
    using set_trim [of "sanitize_loop [] s"] by (simp add: on_air_text_def sanitize_def single_spaced_trim subset_trans)
qed

lemma sanitize_loop_keeps:
  "set s \<subseteq> Collect printable \<Longrightarrow> single_spaced (out @ s) \<Longrightarrow> sanitize_loop out s = out @ s"
proof (induction s arbitrary: out)
  case (Cons c s)
  have "sanitize_loop out (c # s) = sanitize_loop (out @ [c]) s"
  proof (cases "c = 32")
    case True
    have "single_spaced (out @ [c])"
      using Cons.prems(2) single_spaced_middle [of "[]" "out @ [c]" s] by simp
    then show ?thesis
      using True by (auto simp: push_space_def single_spaced_snoc)
  next
    case False
    then show ?thesis
      using Cons.prems(1) by (auto simp: printable_def)
  qed
  also have "\<dots> = out @ c # s"
    using Cons.IH [of "out @ [c]"] Cons.prems by simp
  finally show ?case .
qed simp

text \<open>Text prepared for the air is printable (no C0 or C1 control, no DEL), has no two spaces in a
  row and no white space at either end, whatever was typed; and text that is already so goes out
  exactly as it is. The transform is therefore a projection: applying it twice changes nothing.\<close>

theorem sanitize_projects: "on_air_text (sanitize s) \<and> (sanitize s = s \<longleftrightarrow> on_air_text s)"
proof -
  have "sanitize s = s" if "on_air_text s"
    using that sanitize_loop_keeps [of s "[]"] by (simp add: sanitize_def on_air_text_def)
  moreover have "on_air_text s" if "sanitize s = s"
    using that sanitize_on_air [of s] by simp
  ultimately show ?thesis using sanitize_on_air by blast
qed

lemma trim_fixed_ends: "trim s = s \<Longrightarrow> s \<noteq> [] \<Longrightarrow> \<not> is_whitespace (hd s)"
  using trim_hd [of s] by simp

lemma on_air_truncated:
  assumes "on_air_text s"
  shows "on_air_text (take n s @ [0x2026])"
proof -
  have "single_spaced (take n s)"
    using assms single_spaced_middle [of "[]" "take n s" "drop n s"] by (simp add: on_air_text_def)
  moreover have "trim (take n s @ [0x2026]) = take n s @ [0x2026]"
  proof (rule trim_noop)
    have "\<not> is_whitespace (hd (take n s @ [0x2026]))"
      using trim_fixed_ends [of s] assms by (cases s; cases n) (auto simp: on_air_text_def is_whitespace_def)
    then show "take n s @ [0x2026] = [] \<or> (\<not> is_whitespace (hd (take n s @ [0x2026]))
        \<and> \<not> is_whitespace (last (take n s @ [0x2026])))"
      by (simp add: is_whitespace_def)
  qed
  ultimately show ?thesis
    using assms set_take_subset [of n s] by (auto simp: on_air_text_def single_spaced_snoc printable_def)
qed

text \<open>What screening lets through. An allowed text is the sanitised one, not empty and within the
  length limit; a shortened text is longer than the limit before and has exactly the limit's length
  after (one character where the limit is zero), a prefix of the sanitised text and an ellipsis; both are
  clean text for the air, and neither comes from text the cipher detector flags while the detector is on.
  A refusal means that nothing was left or that the detector flagged it.\<close>

theorem screen_outbound_sound:
  "case screen_outbound p s of
     Allow t \<Rightarrow> t = sanitize s \<and> t \<noteq> [] \<and> on_air_text t \<and> length t \<le> max_rf_text_len (pol_config p)
       \<and> \<not> (block_apparent_ciphertext (pol_config p) \<and> looks_like_ciphertext t)
   | Truncated t \<Rightarrow> on_air_text t \<and> max_rf_text_len (pol_config p) < length (sanitize s)
       \<and> length t = max 1 (max_rf_text_len (pol_config p))
       \<and> butlast t = take (max_rf_text_len (pol_config p) - 1) (sanitize s) \<and> last t = 0x2026
       \<and> \<not> (block_apparent_ciphertext (pol_config p) \<and> looks_like_ciphertext (sanitize s))
   | Deny r \<Rightarrow> sanitize s = []
       \<or> block_apparent_ciphertext (pol_config p) \<and> looks_like_ciphertext (sanitize s)"
proof -
  have trim: "trim (sanitize s) = sanitize s"
    using sanitize_on_air [of s] by (simp add: on_air_text_def)
  show ?thesis
    unfolding screen_outbound_def Let_def trim
    using sanitize_on_air [of s] on_air_truncated [OF sanitize_on_air [of s]] by auto
qed

section \<open>Token gates\<close>

text \<open>
  The answers of a run, one for every operation.
\<close>

fun answers :: "('op \<Rightarrow> 's \<Rightarrow> bool \<times> 's) \<Rightarrow> 'op list \<Rightarrow> 's \<Rightarrow> bool list" where
  "answers step [] s = []"
| "answers step (x # xs) s = fst (step x s) # answers step xs (snd (step x s))"

definition admitted :: "('op \<Rightarrow> 's \<Rightarrow> bool \<times> 's) \<Rightarrow> ('op \<Rightarrow> bool) \<Rightarrow> 'op list \<Rightarrow> 's \<Rightarrow> nat" where
  "admitted step counts xs s = length (filter (\<lambda>(x, a). counts x \<and> a) (zip xs (answers step xs s)))"

lemma admitted_simps [simp]:
  "admitted step counts [] s = 0"
  "admitted step counts (x # xs) s =
     (if counts x \<and> fst (step x s) then 1 else 0) + admitted step counts xs (snd (step x s))"
  by (simp_all add: admitted_def)

locale token_gate =
  fixes step :: "'op \<Rightarrow> 's \<Rightarrow> bool \<times> 's"
    and time :: "'op \<Rightarrow> nat"
    and ok :: "'op \<Rightarrow> bool"
    and counts :: "'op \<Rightarrow> bool"
    and inv :: "'s \<Rightarrow> bool"
    and pot :: "'s \<Rightarrow> nat \<Rightarrow> rat"
    and rate :: rat
    and cap :: rat
  assumes inv_step: "inv s \<Longrightarrow> ok x \<Longrightarrow> inv (snd (step x s))"
    and pot_range: "inv s \<Longrightarrow> 0 \<le> pot s t \<and> pot s t \<le> cap"
    and pot_grows: "inv s \<Longrightarrow> t \<le> u \<Longrightarrow> pot s u \<le> pot s t + rate * as_secs (u - t)"
    and pot_spent: "inv s \<Longrightarrow> ok x \<Longrightarrow>
      (if counts x \<and> fst (step x s) then 1 else 0) + pot (snd (step x s)) (time x) \<le> pot s (time x)"
begin

lemma admitted_potential:
  "inv s \<Longrightarrow> list_all ok xs \<Longrightarrow> sorted (t # map time xs) \<Longrightarrow>
     of_nat (admitted step counts xs s) \<le> pot s t + rate * as_secs (last (t # map time xs) - t)"
proof (induction xs arbitrary: s t)
  case (Cons x xs)
  let ?s = "snd (step x s)" and ?fin = "last (time x # map time xs)"
  have le: "t \<le> time x" "time x \<le> ?fin"
    using Cons.prems(3) last_in_set [of "map time xs"] by (auto split: if_splits)
  have inv: "inv ?s"
    using Cons.prems by (auto intro: inv_step)
  have tail: "of_nat (admitted step counts xs ?s) \<le> pot ?s (time x) + rate * as_secs (?fin - time x)"
    using Cons.IH [OF inv] Cons.prems by auto
  have "(if counts x \<and> fst (step x s) then 1 else 0) + pot ?s (time x) \<le> pot s (time x)"
    using Cons.prems by (intro pot_spent) auto
  moreover have "pot s (time x) \<le> pot s t + rate * as_secs (time x - t)"
    using Cons.prems(1) le(1) by (rule pot_grows)
  moreover have "as_secs (?fin - t) = as_secs (?fin - time x) + as_secs (time x - t)"
    using le by (simp add: as_secs_def of_nat_diff flip: add_divide_distrib)
  ultimately show ?case
    using tail by (auto simp: algebra_simps)
qed (simp add: as_secs_def pot_range)

text \<open>The bound: at most \<open>cap\<close> admissions, and \<open>rate\<close> more for every second the run lasts.\<close>

lemma admissions_bounded:
  assumes "inv s" "list_all ok xs" "sorted (map time xs)" "xs \<noteq> []"
  shows "of_nat (admitted step counts xs s) \<le> cap + rate * as_secs (time (last xs) - time (hd xs))"
proof -
  have "sorted (time (hd xs) # map time xs)"
    using assms(3,4) by (cases xs) auto
  from admitted_potential [OF assms(1,2) this] pot_range [OF assms(1), of "time (hd xs)"]
  show ?thesis using assms(4) by (auto simp: last_map split: if_splits)
qed

end

section \<open>One key of one limiter\<close>

datatype limiter_op = Check ustr nat | Expire nat duration

fun limiter_step :: "limiter_op \<Rightarrow> rate_limiter \<Rightarrow> bool \<times> rate_limiter" where
  "limiter_step (Check key t) l = limiter_check key t l"
| "limiter_step (Expire t idle) l = (False, limiter_expire t idle l)"

fun limiter_time :: "limiter_op \<Rightarrow> nat" where
  "limiter_time (Check key t) = t"
| "limiter_time (Expire t idle) = t"

text \<open>The bucket a key has at a time: refilled since it was last used, and full where there is none.\<close>

definition filled :: "rate_limiter \<Rightarrow> nat \<Rightarrow> rate_bucket \<Rightarrow> rat" where
  "filled l t b = min (rb_tokens b + as_secs (t - rb_last b) * (per_minute l / 60)) (rl_burst l)"

definition tokens_at :: "ustr \<Rightarrow> rate_limiter \<Rightarrow> nat \<Rightarrow> rat" where
  "tokens_at key l t = (case map_of (buckets l) key of None \<Rightarrow> rl_burst l | Some b \<Rightarrow> filled l t b)"

lemma filled_buckets [simp]: "filled (l\<lparr>buckets := m\<rparr>) = filled l"
  by (simp add: filled_def fun_eq_iff)

lemma filled_expire [simp]:
  "filled (limiter_expire t idle l) = filled l" "rl_burst (limiter_expire t idle l) = rl_burst l"
  by (simp_all add: limiter_expire_def)

definition limiter_ok :: "rate_limiter \<Rightarrow> bool" where
  "limiter_ok l \<longleftrightarrow> table_ok (buckets l) \<and> length (buckets l) \<le> MAX_BUCKETS \<and> 0 \<le> per_minute l \<and> 1 \<le> rl_burst l
     \<and> (\<forall>key b. map_of (buckets l) key = Some b \<longrightarrow> 0 \<le> rb_tokens b \<and> rb_tokens b \<le> rl_burst l)"

lemma limiter_new_ok: "limiter_ok (rate_limiter_new pm b)"
  by (simp add: limiter_ok_def rate_limiter_new_def MAX_BUCKETS_def)

definition room :: "ustr \<Rightarrow> rate_limiter \<Rightarrow> (ustr, rate_bucket) table" where
  "room key l = fst (make_room MAX_BUCKETS rb_last key (buckets l))"

lemma room_own: "map_of (room key l) key = map_of (buckets l) key"
  by (auto simp: room_def make_room_def split: option.splits)

lemma limiter_check_tokens:
  "limiter_check key t l =
     (1 \<le> tokens_at key l t,
      l\<lparr>buckets := AList.update key
          \<lparr>rb_tokens = (if 1 \<le> tokens_at key l t then tokens_at key l t - 1 else tokens_at key l t), rb_last = t\<rparr>
          (room key l)\<rparr>)"
proof -
  obtain b where b: "(case map_of (room key l) key of Some b \<Rightarrow> b
      | None \<Rightarrow> \<lparr>rb_tokens = rl_burst l, rb_last = t\<rparr>) = b"
    by simp
  then have "min (rb_tokens b + as_secs (t - rb_last b) * (per_minute l / 60)) (rl_burst l) = tokens_at key l t"
    by (auto simp: tokens_at_def filled_def room_own as_secs_def split: option.splits)
  then show ?thesis
    unfolding limiter_check_def Let_def room_def [symmetric] b by simp
qed

lemma tokens_range: "limiter_ok l \<Longrightarrow> 0 \<le> tokens_at key l t \<and> tokens_at key l t \<le> rl_burst l"
  by (auto simp: limiter_ok_def tokens_at_def filled_def split: option.splits)

lemma tokens_grow:
  assumes "limiter_ok l" "t \<le> u"
  shows "tokens_at key l u \<le> tokens_at key l t + (per_minute l / 60) * as_secs (u - t)"
proof (cases "map_of (buckets l) key")
  case (Some b)
  have "as_secs (u - rb_last b) \<le> as_secs (t - rb_last b) + as_secs (u - t)"
    using assms(2) by (auto simp: as_secs_def simp flip: add_divide_distrib of_nat_add intro!: divide_right_mono)
  then have "as_secs (u - rb_last b) * (per_minute l / 60)
      \<le> (as_secs (t - rb_last b) + as_secs (u - t)) * (per_minute l / 60)"
    using assms(1) by (intro mult_right_mono) (auto simp: limiter_ok_def)
  moreover have "0 \<le> (per_minute l / 60) * as_secs (u - t)"
    using assms(1) by (auto simp: limiter_ok_def)
  ultimately show ?thesis
    using Some by (auto simp: tokens_at_def filled_def algebra_simps min_def)
qed (use assms in \<open>auto simp: tokens_at_def limiter_ok_def\<close>)

lemma limiter_check_ok:
  assumes "limiter_ok l"
  shows "limiter_ok (snd (limiter_check key t l))"
proof -
  have "length (AList.update key b (room key l)) \<le> MAX_BUCKETS" for b
    unfolding room_def using assms by (intro make_room_put_length) (auto simp: limiter_ok_def MAX_BUCKETS_def)
  moreover have "table_ok (room key l)"
    unfolding room_def using assms by (simp add: limiter_ok_def)
  moreover have "0 \<le> rb_tokens b \<and> rb_tokens b \<le> rl_burst l" if "map_of (room key l) j = Some b" for j b
    using make_room_values [OF that [unfolded room_def]] assms by (simp add: limiter_ok_def)
  ultimately show ?thesis
    using assms tokens_range [OF assms, of key t]
    by (auto simp: limiter_check_tokens limiter_ok_def split: if_splits)
qed

lemma limiter_expire_ok: "limiter_ok l \<Longrightarrow> limiter_ok (limiter_expire t idle l)"
  by (auto simp: limiter_ok_def limiter_expire_def map_of_filter_key [of _ "\<lambda>_ b. t - rb_last b < idle"]
      intro: le_trans [OF length_filter_le] split: option.splits if_splits)

lemma limiter_step_fields [simp]:
  "per_minute (snd (limiter_step x l)) = per_minute l"
  "rl_burst (snd (limiter_step x l)) = rl_burst l"
  by (cases x; simp add: limiter_check_tokens limiter_expire_def)+

lemma limiter_step_ok: "limiter_ok l \<Longrightarrow> limiter_ok (snd (limiter_step x l))"
  by (cases x) (simp_all add: limiter_check_ok limiter_expire_ok)

lemma tokens_after_check:
  "limiter_ok l \<Longrightarrow> tokens_at key (snd (limiter_check key t l)) t =
     (if 1 \<le> tokens_at key l t then tokens_at key l t - 1 else tokens_at key l t)"
  using tokens_range [of l key t]
  by (auto simp: limiter_check_tokens tokens_at_def [of key "l\<lparr>buckets := m\<rparr>" for m] filled_def as_secs_def)

text \<open>Within a set of keys that fits in the table, no check evicts another key's bucket.\<close>

definition keys_within :: "ustr set \<Rightarrow> rate_limiter \<Rightarrow> bool" where
  "keys_within K l \<longleftrightarrow> finite K \<and> card K \<le> MAX_BUCKETS \<and> fst ` set (buckets l) \<subseteq> K"

lemma room_within:
  assumes "limiter_ok l" "keys_within K l" "key \<in> K"
  shows "room key l = buckets l"
proof (cases "has_key (buckets l) key")
  case False
  then have "key \<notin> fst ` set (buckets l)"
    by (auto simp: map_of_eq_None_iff)
  then have "fst ` set (buckets l) \<subset> K"
    using assms(2,3) by (auto simp: keys_within_def)
  then have "card (fst ` set (buckets l)) < card K"
    using assms(2) by (intro psubset_card_mono) (auto simp: keys_within_def)
  moreover have "card (fst ` set (buckets l)) = length (buckets l)"
    using assms(1) distinct_card [of "map fst (buckets l)"] by (simp add: limiter_ok_def table_ok_def)
  ultimately show ?thesis
    using assms(2) by (simp add: room_def make_room_def keys_within_def)
qed (simp add: room_def make_room_keeps)

lemma keys_within_step:
  assumes "limiter_ok l" "keys_within K l" "case x of Check j t \<Rightarrow> j \<in> K | Expire t idle \<Rightarrow> True"
  shows "keys_within K (snd (limiter_step x l))"
proof (cases x)
  case (Check j t)
  then show ?thesis
    using assms room_within [OF assms(1,2), of j]
    by (auto simp: limiter_check_tokens keys_within_def dom_update simp flip: dom_map_of_conv_image_fst split: if_splits)
next
  case (Expire t idle)
  then show ?thesis using assms(2) by (auto simp: limiter_expire_def keys_within_def)
qed

lemma tokens_after_other:
  assumes "limiter_ok l" "keys_within K l" "j \<in> K" "j \<noteq> key"
  shows "tokens_at key (snd (limiter_check j t l)) u = tokens_at key l u"
  using assms(4) room_within [OF assms(1-3)]
  by (cases "map_of (buckets l) key") (simp_all add: limiter_check_tokens tokens_at_def)

text \<open>Sweeping an idle bucket is harmless when an idle bucket is a full one.\<close>

lemma tokens_after_expire:
  assumes "limiter_ok l" "rl_burst l \<le> per_minute l / 60 * as_secs idle"
  shows "tokens_at key (limiter_expire t idle l) t = tokens_at key l t"
proof -
  have "filled l t b = rl_burst l" if "map_of (buckets l) key = Some b" "\<not> t - rb_last b < idle" for b
  proof -
    have "per_minute l / 60 * as_secs idle \<le> per_minute l / 60 * as_secs (t - rb_last b)"
      using that(2) assms(1) by (intro mult_left_mono) (auto simp: limiter_ok_def)
    moreover have "0 \<le> rb_tokens b"
      using assms(1) that(1) by (simp add: limiter_ok_def)
    ultimately have "rl_burst l \<le> rb_tokens b + per_minute l / 60 * as_secs (t - rb_last b)"
      using assms(2) by linarith
    then show ?thesis
      by (simp add: filled_def mult.commute min_absorb2)
  qed
  moreover have "map_of (buckets (limiter_expire t idle l)) key =
      (case map_of (buckets l) key of None \<Rightarrow> None | Some b \<Rightarrow> if t - rb_last b < idle then Some b else None)"
    using assms(1) map_of_filter_key [of "buckets l" "\<lambda>_ b. t - rb_last b < idle" key]
    by (simp add: limiter_expire_def limiter_ok_def)
  ultimately show ?thesis
    by (auto simp: tokens_at_def split: option.splits)
qed

interpretation limiter_gate: token_gate limiter_step limiter_time
    "\<lambda>x. case x of Check j t \<Rightarrow> j \<in> K | Expire t idle \<Rightarrow> burst \<le> pm / 60 * as_secs idle"
    "\<lambda>x. case x of Check j t \<Rightarrow> j = key | Expire t idle \<Rightarrow> False"
    "\<lambda>l. limiter_ok l \<and> keys_within K l \<and> per_minute l = pm \<and> rl_burst l = burst"
    "tokens_at key" "pm / 60" burst
  for key K pm burst
proof
  fix l x
  assume l: "limiter_ok l \<and> keys_within K l \<and> per_minute l = pm \<and> rl_burst l = burst"
    and x: "case x of Check j t \<Rightarrow> j \<in> K | Expire t idle \<Rightarrow> burst \<le> pm / 60 * as_secs idle"
  show "limiter_ok (snd (limiter_step x l)) \<and> keys_within K (snd (limiter_step x l))
      \<and> per_minute (snd (limiter_step x l)) = pm \<and> rl_burst (snd (limiter_step x l)) = burst"
    using l x keys_within_step [of l K x] by (auto simp: limiter_step_ok split: limiter_op.splits)
  show "(if (case x of Check j t \<Rightarrow> j = key | Expire t idle \<Rightarrow> False) \<and> fst (limiter_step x l) then 1 else 0)
      + tokens_at key (snd (limiter_step x l)) (limiter_time x) \<le> tokens_at key l (limiter_time x)"
  proof (cases x)
    case (Check j t)
    then show ?thesis
      using l x tokens_after_other [of l K j key t t]
      by (cases "j = key") (auto simp: tokens_after_check, simp_all add: limiter_check_tokens)
  next
    case (Expire t idle)
    then show ?thesis using l x by (simp add: tokens_after_expire)
  qed
qed (auto simp: tokens_range dest: tokens_grow tokens_range)

text \<open>One key of one limiter, over any run of checks and sweeps with the clock not going back and
  no more distinct keys than the table holds: the checks answered yes for that key are at most the
  burst plus the configured rate for the time the run lasts, whatever the other keys do and however often
  the table is swept (with a sweep horizon long enough to refill a bucket).\<close>

theorem limiter_bounds_admissions:
  assumes "finite K" and "card K \<le> MAX_BUCKETS"
    and "list_all (\<lambda>x. case x of Check j t \<Rightarrow> j \<in> K
        | Expire t idle \<Rightarrow> of_nat (max 1 burst) \<le> of_nat pm / 60 * as_secs idle) xs"
    and "sorted (map limiter_time xs)" and "xs \<noteq> []"
  shows "of_nat (admitted limiter_step (\<lambda>x. case x of Check j t \<Rightarrow> j = key | Expire t idle \<Rightarrow> False)
             xs (rate_limiter_new pm burst))
     \<le> of_nat (max 1 burst) + of_nat pm / 60 * as_secs (limiter_time (last xs) - limiter_time (hd xs))"
proof (rule limiter_gate.admissions_bounded [OF _ assms(3,4,5)])
  show "limiter_ok (rate_limiter_new pm burst) \<and> keys_within K (rate_limiter_new pm burst)
      \<and> per_minute (rate_limiter_new pm burst) = of_nat pm \<and> rl_burst (rate_limiter_new pm burst) = of_nat (max 1 burst)"
    using assms(1,2) by (simp add: limiter_new_ok) (simp add: rate_limiter_new_def keys_within_def)
qed

theorem limiter_bounds_admissions_witness:
  "of_nat (admitted limiter_step (\<lambda>x. case x of Check j t \<Rightarrow> j = lit ''a'' | Expire t idle \<Rightarrow> False)
       [Check (lit ''a'') 5, Check (lit ''a'') 5, Check (lit ''b'') 5] (rate_limiter_new 60 1)) \<le> (1 :: rat)"
  using limiter_bounds_admissions [of "{lit ''a'', lit ''b''}" 1 60
      "[Check (lit ''a'') 5, Check (lit ''a'') 5, Check (lit ''b'') 5]" "lit ''a''"]
  by (simp add: MAX_BUCKETS_def as_secs_def card_insert_if)

section \<open>The whole policy\<close>

definition policy_ok :: "policy \<Rightarrow> bool" where
  "policy_ok p \<longleftrightarrow> limiter_ok (rf_out p) \<and> limiter_ok (ip_to_rf p) \<and> limiter_ok (rf_channel p) \<and> limiter_ok (ip_cmds p)
     \<and> limiter_ok (identify p) \<and> limiter_ok (topic_limit p) \<and> limiter_ok (presence p) \<and> limiter_ok (first_contact p)"

lemmas policy_op_defs =
  rf_station_rate_ok_def first_contact_ok_def ip_rate_ok_def rf_channel_rate_ok_def ip_cmd_rate_ok_def
  identify_rate_ok_def topic_rate_ok_def presence_rate_ok_def policy_expire_def

lemma policy_step_ok: "policy_ok p \<Longrightarrow> policy_ok (snd (policy_step x p))"
  by (cases x) (auto simp: policy_op_defs policy_ok_def case_prod_unfold Let_def limiter_check_ok limiter_expire_ok)

interpretation policy_machine: invariant_machine "\<lambda>x p. snd (policy_step x p)" policy_ok
  by unfold_locales (rule policy_step_ok)

text \<open>After any run of the policy's operations, in any order and at any times, no limiter holds more
  than its 4096 buckets, no key appears twice in a limiter, and every bucket's tokens are between none
  and the limiter's burst, which is at least one.\<close>

theorem policy_tables_bounded: "policy_ok (fold (\<lambda>x p. snd (policy_step x p)) xs (policy_new cfg))"
  by (rule policy_machine.run_inv) (simp add: policy_ok_def policy_new_def limiter_new_ok)

interpretation limiter_machine: invariant_machine "\<lambda>x l. snd (limiter_step x l)" "\<lambda>l. limiter_ok l \<and> per_minute l = pm"
  for pm
  by unfold_locales (simp add: limiter_step_ok)

text \<open>A limiter never starves a key. After any run of checks and sweeps on a limiter, a check is
  answered yes for a key that has no bucket and for a key whose last check is long enough ago to have
  earned one token at the configured rate.\<close>

theorem waiting_earns_admission:
  assumes "l = fold (\<lambda>x l. snd (limiter_step x l)) xs (rate_limiter_new pm burst)"
    and "case map_of (buckets l) key of None \<Rightarrow> True | Some b \<Rightarrow> 60 \<le> of_nat pm * as_secs (t - rb_last b)"
  shows "fst (limiter_check key t l)"
proof -
  have l: "limiter_ok l \<and> per_minute l = of_nat pm"
    unfolding assms(1) by (rule limiter_machine.run_inv) (simp add: limiter_new_ok, simp add: rate_limiter_new_def)
  have "1 \<le> filled l t b" if b: "map_of (buckets l) key = Some b" for b
  proof -
    have "0 \<le> rb_tokens b" "1 \<le> rl_burst l"
      using l b by (auto simp: limiter_ok_def)
    then show ?thesis
      using assms(2) b l by (simp add: filled_def algebra_simps)
  qed
  then have "1 \<le> tokens_at key l t"
    using l by (auto simp: tokens_at_def limiter_ok_def split: option.splits)
  then show ?thesis by (simp add: limiter_check_tokens)
qed

theorem waiting_earns_admission_witness:
  "fst (limiter_check (lit ''b'') 9 (fold (\<lambda>x l. snd (limiter_step x l)) [Check (lit ''a'') 5] (rate_limiter_new 60 1)))"
  by (rule waiting_earns_admission [OF refl])
    (simp add: limiter_check_tokens room_def make_room_def MAX_BUCKETS_def rate_limiter_new_def lit_def)

fun policy_time :: "policy_op \<Rightarrow> nat" where
  "policy_time (RfStation c t) = t"
| "policy_time (FirstContact t) = t"
| "policy_time (IpRate k t) = t"
| "policy_time (RfChannel k t) = t"
| "policy_time (IpCmd k t) = t"
| "policy_time (Identify k t) = t"
| "policy_time (Topic k t) = t"
| "policy_time (Presence k t) = t"
| "policy_time (PolicyExpire t) = t"

definition is_first_contact :: "policy_op \<Rightarrow> bool" where
  "is_first_contact x \<longleftrightarrow> (case x of FirstContact t \<Rightarrow> True | _ \<Rightarrow> False)"

definition contact_limited :: "policy \<Rightarrow> bool" where
  "contact_limited p \<longleftrightarrow> limiter_ok (first_contact p) \<and> keys_within {lit ''rf''} (first_contact p)
     \<and> per_minute (first_contact p) = 10 \<and> rl_burst (first_contact p) = 5"

text \<open>What an operation of the policy does to the first-contact limiter.\<close>

definition contact_op :: "policy_op \<Rightarrow> limiter_op option" where
  "contact_op x = (case x of FirstContact t \<Rightarrow> Some (Check (lit ''rf'') t)
     | PolicyExpire t \<Rightarrow> Some (Expire t LIMITER_IDLE) | _ \<Rightarrow> None)"

lemma first_contact_step:
  "first_contact (snd (policy_step x p)) =
     (case contact_op x of None \<Rightarrow> first_contact p | Some y \<Rightarrow> snd (limiter_step y (first_contact p)))"
  "is_first_contact x \<Longrightarrow> contact_op x = Some (Check (lit ''rf'') (policy_time x))
     \<and> fst (policy_step x p) = fst (limiter_step (Check (lit ''rf'') (policy_time x)) (first_contact p))"
  by (cases x; simp add: policy_op_defs contact_op_def is_first_contact_def case_prod_unfold Let_def)+

interpretation contact_gate: token_gate policy_step policy_time "\<lambda>x. True" is_first_contact contact_limited
    "\<lambda>p. tokens_at (lit ''rf'') (first_contact p)" "10 / 60" 5
proof
  fix p x
  assume p: "contact_limited p"
  let ?l = "first_contact p"
  have l: "limiter_ok ?l \<and> keys_within {lit ''rf''} ?l \<and> per_minute ?l = 10 \<and> rl_burst ?l = 5"
    using p by (simp add: contact_limited_def)
  have ok: "case y of Check j t \<Rightarrow> j \<in> {lit ''rf''} | Expire t idle \<Rightarrow> (5 :: rat) \<le> 10 / 60 * as_secs idle"
    if "contact_op x = Some y" for y
    using that by (auto simp: contact_op_def LIMITER_IDLE_def duration_defs as_secs_def split: policy_op.splits)
  show "contact_limited (snd (policy_step x p))"
    using l limiter_gate.inv_step [OF l ok]
    by (auto simp: contact_limited_def first_contact_step(1) split: option.splits)
  show "(if is_first_contact x \<and> fst (policy_step x p) then 1 else 0)
      + tokens_at (lit ''rf'') (first_contact (snd (policy_step x p))) (policy_time x)
      \<le> tokens_at (lit ''rf'') ?l (policy_time x)"
  proof (cases "contact_op x")
    case None
    then show ?thesis using first_contact_step(2) [of x p] by (auto simp: first_contact_step(1))
  next
    case (Some y)
    then have "limiter_time y = policy_time x"
      and "is_first_contact x \<longleftrightarrow> (case y of Check j t \<Rightarrow> j = lit ''rf'' | Expire t idle \<Rightarrow> False)"
      by (auto simp: contact_op_def is_first_contact_def split: policy_op.splits)
    moreover have "is_first_contact x \<Longrightarrow> fst (policy_step x p) = fst (limiter_step y ?l)"
      using Some first_contact_step(2) [of x p] by simp
    ultimately show ?thesis
      using limiter_gate.pot_spent [OF l ok [OF Some], of "lit ''rf''"] Some
      by (auto simp: first_contact_step(1) split: if_splits)
  qed
qed (auto simp: contact_limited_def tokens_range dest: tokens_grow tokens_range)

text \<open>New stations are rationed for the gateway as a whole, not by name: over any run of the
  policy's operations with the clock not going back, from the start of the server, the first contacts
  that are let in are at most five plus one for every six seconds the run lasts, however many callsigns
  a flood invents.\<close>

theorem first_contacts_rationed:
  assumes "sorted (map policy_time xs)" and "xs \<noteq> []"
  shows "of_nat (admitted policy_step is_first_contact xs (policy_new cfg))
     \<le> (5 :: rat) + 1 / 6 * as_secs (policy_time (last xs) - policy_time (hd xs))"
proof -
  have "contact_limited (policy_new cfg)"
    using limiter_new_ok [of 10 5]
    by (simp add: contact_limited_def policy_new_def keys_within_def rate_limiter_new_def MAX_BUCKETS_def)
  from contact_gate.admissions_bounded [OF this _ assms]
  show ?thesis by (simp add: list_all_iff)
qed

theorem first_contacts_rationed_witness:
  "of_nat (admitted policy_step is_first_contact (replicate 9 (FirstContact 7)) (policy_new policy_config_default)) \<le> (5 :: rat)"
  using first_contacts_rationed [of "replicate 9 (FirstContact 7)" policy_config_default] by (simp add: as_secs_def)

end
