(* ===== verification/Ip_Addr.thy ===== *)
theory Ip_Addr
  imports Callsign
begin

text \<open>
  The host keys of \<open>src/src/irc/admission.rs\<close> and \<open>src/src/accounts.rs\<close>: a host string is folded so that one
  address has one spelling. The standard library's address parser and printer are modelled as far as the
  keys use them: the four octets of IPv4, the eight groups of IPv6 with \<open>::\<close> and an embedded IPv4 tail, and the
  compressed form on output.
\<close>

section \<open>Reading numbers\<close>

type_synonym v4 = "nat \<times> nat \<times> nat \<times> nat"

datatype ip_addr = IpV4 v4 | IpV6 "nat list"

definition digit_of :: "nat \<Rightarrow> nat \<Rightarrow> nat option" where
  "digit_of radix c = (case hex_digit c of Some d \<Rightarrow> if d < radix then Some d else None | None \<Rightarrow> None)"

fun read_digits :: "nat \<Rightarrow> nat \<Rightarrow> nat \<Rightarrow> ustr \<Rightarrow> nat \<times> nat \<times> ustr" where
  "read_digits radix acc n [] = (acc, n, [])"
| "read_digits radix acc n (c # s) =
     (case digit_of radix c of
        Some d \<Rightarrow> read_digits radix (acc * radix + d) (Suc n) s
      | None \<Rightarrow> (acc, n, c # s))"

definition read_number :: "nat \<Rightarrow> nat \<Rightarrow> nat \<Rightarrow> bool \<Rightarrow> ustr \<Rightarrow> (nat \<times> ustr) option" where
  "read_number radix max_digits bound allow_zero_prefix s =
     (case read_digits radix 0 0 s of
        (v, n, rest) \<Rightarrow>
          if max_digits < n \<or> n = 0 \<or> bound \<le> v then None
          else if \<not> allow_zero_prefix \<and> s \<noteq> [] \<and> hd s = 48 \<and> 1 < n then None
          else Some (v, rest))"

definition read_char :: "nat \<Rightarrow> ustr \<Rightarrow> ustr option" where
  "read_char c s = (case s of [] \<Rightarrow> None | d # t \<Rightarrow> if d = c then Some t else None)"

definition read_separated :: "nat \<Rightarrow> nat \<Rightarrow> (ustr \<Rightarrow> 'a option) \<Rightarrow> ustr \<Rightarrow> 'a option" where
  "read_separated sep i inner s = (if 0 < i then Option.bind (read_char sep s) inner else inner s)"

definition read_octet :: "ustr \<Rightarrow> (nat \<times> ustr) option" where
  "read_octet s = read_number 10 3 256 False s"

definition read_v4 :: "ustr \<Rightarrow> (v4 \<times> ustr) option" where
  "read_v4 s0 =
     Option.bind (read_separated 46 0 read_octet s0) (\<lambda>(a, s1).
     Option.bind (read_separated 46 1 read_octet s1) (\<lambda>(b, s2).
     Option.bind (read_separated 46 2 read_octet s2) (\<lambda>(c, s3).
     Option.bind (read_separated 46 3 read_octet s3) (\<lambda>(d, s4). Some ((a, b, c, d), s4)))))"

text \<open>
  \<open>read_groups\<close>: groups from index \<open>i\<close>, \<open>left\<close> of them still to fill; the flag says that the last two came from an
  embedded IPv4 address.
\<close>

fun read_groups :: "nat \<Rightarrow> nat \<Rightarrow> ustr \<Rightarrow> nat list \<times> bool \<times> ustr" where
  "read_groups i 0 s = ([], False, s)"
| "read_groups i (Suc left) s =
     (let v4 = (if 0 < left then read_separated 58 i read_v4 s else None) in
      case v4 of
        Some ((a, b, c, d), rest) \<Rightarrow> ([a * 256 + b, c * 256 + d], True, rest)
      | None \<Rightarrow>
          (case read_separated 58 i (read_number 16 4 0x10000 True) s of
             None \<Rightarrow> ([], False, s)
           | Some (g, rest) \<Rightarrow>
               (case read_groups (Suc i) left rest of (gs, f, r) \<Rightarrow> (g # gs, f, r))))"

definition read_v6 :: "ustr \<Rightarrow> (nat list \<times> ustr) option" where
  "read_v6 s =
     (case read_groups 0 8 s of
        (head, embedded, s1) \<Rightarrow>
          if length head = 8 then Some (head, s1)
          else if embedded then None
          else Option.bind (read_char 58 s1) (\<lambda>s2. Option.bind (read_char 58 s2) (\<lambda>s3.
                 (case read_groups 0 (8 - (length head + 1)) s3 of
                    (tail, _, s4) \<Rightarrow> Some (head @ replicate (8 - length head - length tail) 0 @ tail, s4)))))"

definition ip_parse :: "ustr \<Rightarrow> ip_addr option" where
  "ip_parse s =
     (case read_v4 s of
        Some (a, rest) \<Rightarrow> if rest = [] then Some (IpV4 a) else None
      | None \<Rightarrow>
          (case read_v6 s of
             Some (g, rest) \<Rightarrow> if rest = [] then Some (IpV6 g) else None
           | None \<Rightarrow> None))"

section \<open>Printing\<close>

fun v4_string :: "v4 \<Rightarrow> ustr" where
  "v4_string (a, b, c, d) = show_nat a @ [46] @ show_nat b @ [46] @ show_nat c @ [46] @ show_nat d"

definition hex_char :: "nat \<Rightarrow> nat" where
  "hex_char d = (if d < 10 then 48 + d else 87 + d)"

fun show_hex :: "nat \<Rightarrow> ustr" where
  "show_hex n = (if n < 16 then [hex_char n] else show_hex (n div 16) @ [hex_char (n mod 16)])"

declare show_hex.simps [simp del]

definition groups_string :: "nat list \<Rightarrow> ustr" where
  "groups_string gs = concat (map (\<lambda>(i, g). (if i = 0 then [] else [58]) @ show_hex g) (enumerate 0 gs))"

text \<open>The first of the longest runs of zero groups: its start and length.\<close>

fun longest_zeros :: "nat list \<Rightarrow> nat \<Rightarrow> nat \<times> nat \<Rightarrow> nat \<times> nat \<Rightarrow> nat \<times> nat" where
  "longest_zeros [] i current longest = longest"
| "longest_zeros (g # gs) i (start, n) longest =
     (if g = 0
      then (let cur = (if n = 0 then i else start, Suc n)
            in longest_zeros gs (Suc i) cur (if snd longest < snd cur then cur else longest))
      else longest_zeros gs (Suc i) (0, 0) longest)"

definition v6_string :: "nat list \<Rightarrow> ustr" where
  "v6_string gs =
     (case longest_zeros gs 0 (0, 0) (0, 0) of
        (start, n) \<Rightarrow>
          if 1 < n then groups_string (take start gs) @ [58, 58] @ groups_string (drop (start + n) gs)
          else groups_string gs)"

definition to_ipv4_mapped :: "nat list \<Rightarrow> v4 option" where
  "to_ipv4_mapped gs =
     (if take 6 gs = [0, 0, 0, 0, 0, 0xFFFF]
      then Some (gs ! 6 div 256, gs ! 6 mod 256, gs ! 7 div 256, gs ! 7 mod 256) else None)"

section \<open>Host keys\<close>

definition trim_brackets :: "ustr \<Rightarrow> ustr" where
  "trim_brackets s =
     rev (dropWhile (\<lambda>c. c = 91 \<or> c = 93) (rev (dropWhile (\<lambda>c. c = 91 \<or> c = 93) s)))"

definition host_key :: "ustr \<Rightarrow> ustr" where
  "host_key host =
     (let lowered = lower (trim_brackets (trim host)) in
      case ip_parse lowered of
        Some (IpV4 a) \<Rightarrow> v4_string a
      | Some (IpV6 gs) \<Rightarrow> (case to_ipv4_mapped gs of Some a \<Rightarrow> v4_string a | None \<Rightarrow> v6_string gs)
      | None \<Rightarrow> lowered)"

definition host_ban_key :: "ustr \<Rightarrow> ustr" where
  "host_ban_key host =
     (let lowered = lower (trim_brackets (trim host)) in
      case ip_parse lowered of
        Some (IpV4 a) \<Rightarrow> v4_string a
      | Some (IpV6 gs) \<Rightarrow> (case to_ipv4_mapped gs of Some a \<Rightarrow> v4_string a | None \<Rightarrow> v6_string gs)
      | None \<Rightarrow> lowered)"

text \<open>The accept gate and the ban list fold hosts the same way.\<close>

lemma host_keys_agree: "host_key = host_ban_key"
  by (simp add: host_key_def host_ban_key_def fun_eq_iff)

section \<open>IPv4 and its mapped form\<close>

lemma digit_of_decimal: "is_ascii_digit c \<Longrightarrow> digit_of 10 c = Some (c - 48)"
  by (auto simp: digit_of_def hex_digit_def is_ascii_digit_def)

lemma digit_of_none: "c < 48 \<or> (57 < c \<and> c < 65) \<Longrightarrow> digit_of radix c = None"
  by (auto simp: digit_of_def hex_digit_def is_ascii_digit_def)

lemma read_digits_run:
  "\<forall>c \<in> set ds. is_ascii_digit c \<Longrightarrow> digits_val acc ds = Some v \<Longrightarrow>
     read_digits 10 acc n (ds @ rest) = read_digits 10 v (n + length ds) rest"
  by (induction ds arbitrary: acc n) (auto simp: digit_of_decimal)

lemma read_digits_stop:
  "rest = [] \<or> digit_of radix (hd rest) = None \<Longrightarrow> read_digits radix v n rest = (v, n, rest)"
  by (cases rest) auto

lemma show_nat_leading: "10 \<le> n \<Longrightarrow> hd (show_nat n) \<noteq> 48"
proof (induction n rule: less_induct)
  case (less n)
  show ?case
  proof (cases "n div 10 < 10")
    case True
    have "n div 10 \<noteq> 0" using less.prems by simp
    then show ?thesis
      using less.prems True by (simp add: show_nat.simps [of n] show_nat.simps [of "n div 10"])
  next
    case False
    then have "hd (show_nat (n div 10)) \<noteq> 48" using less by simp
    then show ?thesis using less.prems by (simp add: show_nat.simps [of n])
  qed
qed

lemma length_show_octet: "n < 256 \<Longrightarrow> length (show_nat n) \<le> 3"
proof -
  assume "n < 256"
  then have "n div 100 < 10" by linarith
  then show ?thesis
    by (simp add: show_nat.simps [of n] show_nat.simps [of "n div 10"] show_nat.simps [of "n div 100"]
        div_mult2_eq [symmetric])
qed

lemma read_octet_show:
  assumes "n < 256" "rest = [] \<or> digit_of 10 (hd rest) = None"
  shows "read_octet (show_nat n @ rest) = Some (n, rest)"
proof -
  have "read_digits 10 0 0 (show_nat n @ rest) = (n, length (show_nat n), rest)"
    using read_digits_run [of "show_nat n" 0 n 0 rest] show_nat_digits digits_val_show assms(2)
    by (simp add: read_digits_stop)
  moreover have "hd (show_nat n @ rest) = 48 \<longrightarrow> length (show_nat n) \<le> 1"
    using show_nat_leading [of n] by (cases "n < 10") (auto simp: show_nat.simps [of n] show_nat.simps [of 0] not_less)
  ultimately show ?thesis
    using assms(1) length_show_octet [OF assms(1)] by (auto simp: read_octet_def read_number_def)
qed

definition octets_ok :: "v4 \<Rightarrow> bool" where
  "octets_ok x = (case x of (a, b, c, d) \<Rightarrow> a < 256 \<and> b < 256 \<and> c < 256 \<and> d < 256)"

lemma read_v4_string: "octets_ok x \<Longrightarrow> read_v4 (v4_string x) = Some (x, [])"
  using read_octet_show [of "snd (snd (snd x))" "[]"]
  by (cases x) (simp add: octets_ok_def read_v4_def read_separated_def read_octet_show digit_of_none read_char_def)

lemma v4_string_chars: "octets_ok x \<Longrightarrow> c \<in> set (v4_string x) \<Longrightarrow> is_ascii_digit c \<or> c = 46"
  by (cases x) (auto dest: show_nat_digits)

lemma v4_string_ne: "v4_string x \<noteq> []"
  by (cases x) simp

lemma read_octet_other: "c < 48 \<or> (57 < c \<and> c < 65) \<Longrightarrow> read_octet (c # s) = None"
  by (simp add: read_octet_def read_number_def digit_of_none)

lemma read_v4_none: "read_octet s = None \<Longrightarrow> read_v4 s = None"
  by (simp add: read_v4_def read_separated_def)

definition mapped :: ustr where "mapped = lit ''::ffff:''"

lemma read_groups_v4:
  "1 < left \<Longrightarrow> read_separated 58 i read_v4 s = Some ((a, b, c, d), rest) \<Longrightarrow>
     read_groups i left s = ([a * 256 + b, c * 256 + d], True, rest)"
  by (cases left) simp_all

lemma read_groups_hex:
  "1 < left \<Longrightarrow> read_separated 58 i read_v4 s = None \<Longrightarrow>
     read_separated 58 i (read_number 16 4 0x10000 True) s = Some (g, rest) \<Longrightarrow>
     read_groups i left s = (case read_groups (Suc i) (left - 1) rest of (gs, f, r) \<Rightarrow> (g # gs, f, r))"
  by (cases left) simp_all

lemma read_groups_stop:
  "1 < left \<Longrightarrow> read_separated 58 i read_v4 s = None \<Longrightarrow>
     read_separated 58 i (read_number 16 4 0x10000 True) s = None \<Longrightarrow> read_groups i left s = ([], False, s)"
  by (cases left) simp_all

lemma parse_mapped:
  assumes "octets_ok (a, b, c, d)"
  shows "ip_parse (mapped @ v4_string (a, b, c, d)) = Some (IpV6 [0, 0, 0, 0, 0, 0xFFFF, a * 256 + b, c * 256 + d])"
proof -
  define t where "t = v4_string (a, b, c, d)"
  have f: "digit_of 16 102 = Some 15" "digit_of 10 102 = None" "digit_of 16 58 = None" "digit_of 10 58 = None"
    by (simp_all add: digit_of_def hex_digit_def is_ascii_digit_def)
  have no_v4: "read_v4 (58 # s) = None" "read_v4 (102 # s) = None" for s
    by (rule read_v4_none, simp add: read_octet_def read_number_def f)+
  have ffff: "read_number 16 4 0x10000 True (102 # 102 # 102 # 102 # 58 # t) = Some (0xFFFF, 58 # t)"
    by (simp add: read_number_def f)
  have colon: "read_number 16 4 0x10000 True (58 # s) = None" for s
    by (simp add: read_number_def f)
  have "read_separated 58 1 read_v4 (58 # t) = Some ((a, b, c, d), [])"
    using read_v4_string [OF assms] by (simp add: read_separated_def read_char_def t_def)
  then have "read_groups 1 6 (58 # t) = ([a * 256 + b, c * 256 + d], True, [])"
    by (rule read_groups_v4 [rotated]) simp
  moreover have "read_groups 0 7 (102 # 102 # 102 # 102 # 58 # t)
      = (case read_groups (Suc 0) (7 - 1) (58 # t) of (gs, f, r) \<Rightarrow> (0xFFFF # gs, f, r))"
    using ffff no_v4 by (intro read_groups_hex) (simp_all add: read_separated_def)
  ultimately have tail: "read_groups 0 7 (102 # 102 # 102 # 102 # 58 # t) = ([0xFFFF, a * 256 + b, c * 256 + d], True, [])"
    by simp
  have head: "read_groups 0 8 (58 # s) = ([], False, 58 # s)" for s
    using no_v4 colon by (intro read_groups_stop) (simp_all add: read_separated_def)
  have m: "mapped @ t = 58 # 58 # 102 # 102 # 102 # 102 # 58 # t"
    by (simp add: mapped_def lit_def)
  have "replicate 5 (0 :: nat) = [0, 0, 0, 0, 0]"
    by (simp add: numeral_eq_Suc)
  then show ?thesis
    unfolding t_def [symmetric] m ip_parse_def read_v6_def using no_v4 head tail by (simp add: read_char_def)
qed

lemma lower_plain: "\<forall>c \<in> set s. is_ascii_digit c \<or> c = 46 \<or> c = 58 \<or> c = 102 \<Longrightarrow> lower s = s"
  by (auto simp: lower_def lower_char_def is_ascii_digit_def is_ascii_uppercase_def intro!: map_idI)

lemma trim_brackets_plain: "s \<noteq> [] \<Longrightarrow> hd s \<notin> {91, 93} \<Longrightarrow> last s \<notin> {91, 93} \<Longrightarrow> trim_brackets s = s"
  by (simp add: trim_brackets_def dropWhile_no hd_rev)

lemma trim_brackets_inner: "s \<noteq> [] \<Longrightarrow> hd s \<notin> {91, 93} \<Longrightarrow> last s \<notin> {91, 93} \<Longrightarrow> trim_brackets (91 # s @ [93]) = s"
  by (simp add: trim_brackets_def dropWhile_no hd_rev)

lemma key_of_v4:
  assumes "octets_ok x" "lower (trim_brackets (trim h)) \<in> {v4_string x, mapped @ v4_string x}"
  shows "host_key h = v4_string x"
proof -
  obtain a b c d where x: "x = (a, b, c, d)" by (cases x)
  have v4: "ip_parse (v4_string x) = Some (IpV4 x)"
    using read_v4_string [OF assms(1)] by (simp add: ip_parse_def)
  have "to_ipv4_mapped [0, 0, 0, 0, 0, 0xFFFF, a * 256 + b, c * 256 + d] = Some x"
    using assms(1) by (simp add: to_ipv4_mapped_def octets_ok_def x)
  then show ?thesis
    using assms parse_mapped [of a b c d] v4 x by (auto simp: host_key_def)
qed

text \<open>One IPv4 address has one host key, however a connection or an operator spells it: plain, mapped into
  IPv6 in either case of the hexadecimal digits, and with the brackets of a URL. A ban or a per-host count
  on one spelling is a ban or a count on all of them.\<close>

theorem mapped_hosts_fold:
  assumes "octets_ok x"
  shows "host_key (v4_string x) = v4_string x \<and> host_key (lit ''::ffff:'' @ v4_string x) = v4_string x
    \<and> host_key (lit ''[::FFFF:'' @ v4_string x @ lit '']'') = v4_string x"
proof -
  let ?t = "v4_string x"
  have chars: "is_ascii_digit c \<or> c = 46" if "c \<in> set ?t" for c
    using v4_string_chars [OF assms that] .
  have ends: "?t \<noteq> []" "hd ?t \<notin> {91, 93}" "last ?t \<notin> {91, 93}"
    using chars [of "hd ?t"] chars [of "last ?t"] v4_string_ne [of x] by (auto simp: is_ascii_digit_def)
  have plain: "\<not> is_whitespace c" if "c \<in> set ?t" for c
    using chars [OF that] by (auto simp: is_whitespace_def is_ascii_digit_def)
  have lits: "\<forall>c \<in> set (lit ''::ffff:'') \<union> set (lit ''::FFFF:'') \<union> {91, 93}. \<not> is_whitespace c"
    by (simp add: lit_def is_whitespace_def)
  have trims: "trim ?t = ?t" "trim (mapped @ ?t) = mapped @ ?t"
    "trim (91 # lit ''::FFFF:'' @ ?t @ [93]) = 91 # lit ''::FFFF:'' @ ?t @ [93]"
    using plain lits by (auto intro!: trim_all_plain simp: mapped_def)
  have lowers: "lower ?t = ?t" "lower (mapped @ ?t) = mapped @ ?t" "lower (lit ''::FFFF:'' @ ?t) = mapped @ ?t"
  proof -
    show t: "lower ?t = ?t" using chars by (intro lower_plain) auto
    show "lower (mapped @ ?t) = mapped @ ?t"
      using chars by (intro lower_plain) (auto simp: mapped_def lit_def)
    show "lower (lit ''::FFFF:'' @ ?t) = mapped @ ?t"
      using t by (simp add: lower_def lower_char_def mapped_def lit_def is_ascii_uppercase_def to_lower_def)
  qed
  have "trim_brackets (91 # (lit ''::FFFF:'' @ ?t) @ [93]) = lit ''::FFFF:'' @ ?t"
    using ends by (intro trim_brackets_inner) (auto simp: lit_def)
  then have "host_key (91 # (lit ''::FFFF:'' @ ?t) @ [93]) = ?t"
    using trims lowers by (intro key_of_v4 [OF assms]) simp
  moreover have "host_key (mapped @ ?t) = ?t"
    using trims lowers trim_brackets_plain [of "mapped @ ?t"] ends
    by (intro key_of_v4 [OF assms]) (simp add: mapped_def lit_def)
  moreover have "host_key ?t = ?t"
    using trims lowers trim_brackets_plain [of ?t] ends by (intro key_of_v4 [OF assms]) simp
  ultimately show ?thesis by (simp add: mapped_def lit_def)
qed

theorem mapped_hosts_fold_witness:
  "host_key (lit ''::ffff:'' @ v4_string (10, 0, 0, 1)) = v4_string (10, 0, 0, 1)"
  using mapped_hosts_fold [of "(10, 0, 0, 1)"] by (simp add: octets_ok_def)

end
