(* ===== verification/Admission.thy ===== *)
theory Admission
  imports Ip_Addr
begin

text \<open>
  \<open>src/src/irc/admission.rs\<close>: the accept gate. \<open>try_acquire\<close> and \<open>release\<close> as the code has them, and then cut at
  their atomic operations (the ban lock, each operation on the atomic counter, the lock on the per-host
  map), so that any number of listeners interleave. The theory proves that in every interleaving the caps
  hold, the counters are exact, and nothing is leaked.

  The counter is a \<open>u64\<close> and the per-host counts are \<open>u32\<close>; here they are numbers, and the invariant shows
  that a count that is decremented is positive and that a per-host count stays within its \<open>u32\<close> cap.
\<close>

section \<open>The gate\<close>

datatype deny = Banned | Full | PerHost

definition error_line :: "deny \<Rightarrow> ustr \<Rightarrow> nat \<Rightarrow> nat \<Rightarrow> ustr" where
  "error_line d host max_clients max_conns =
     (case d of
        Banned \<Rightarrow> lit ''ERROR :Banned from this server''
      | Full \<Rightarrow> lit ''ERROR :Server is full (max '' @ show_nat max_clients @ lit '' clients)''
      | PerHost \<Rightarrow> lit ''ERROR :Too many connections from '' @ host @ lit '' (max '' @ show_nat max_conns @ lit '')'')"

definition audit_reason :: "deny \<Rightarrow> ustr" where
  "audit_reason d =
     (case d of Banned \<Rightarrow> lit ''kline'' | Full \<Rightarrow> lit ''max_clients'' | PerHost \<Rightarrow> lit ''max_conns_per_host'')"

record admission =
  ad_max_clients :: nat
  ad_max_per_host :: nat
  ad_total :: nat
  ad_hosts :: "(ustr, nat) table"
  ad_bans :: "ustr list"

record conn_slot =
  sl_key :: ustr
  sl_total :: bool
  sl_host :: bool

definition admission_new :: "nat \<Rightarrow> nat \<Rightarrow> admission" where
  "admission_new mc mh =
     \<lparr>ad_max_clients = mc, ad_max_per_host = mh, ad_total = 0, ad_hosts = [], ad_bans = []\<rparr>"

definition admission_ban :: "ustr \<Rightarrow> admission \<Rightarrow> admission" where
  "admission_ban host a =
     (let key = host_key host in if key = [] then a else a\<lparr>ad_bans := List.insert key (ad_bans a)\<rparr>)"

definition admission_unban :: "ustr \<Rightarrow> admission \<Rightarrow> admission" where
  "admission_unban host a = a\<lparr>ad_bans := removeAll (host_key host) (ad_bans a)\<rparr>"

definition load_bans :: "ustr list \<Rightarrow> admission \<Rightarrow> admission" where
  "load_bans hosts a = fold admission_ban hosts (a\<lparr>ad_bans := []\<rparr>)"

definition host_count :: "admission \<Rightarrow> ustr \<Rightarrow> nat" where
  "host_count a key = (case map_of (ad_hosts a) key of Some n \<Rightarrow> n | None \<Rightarrow> 0)"

text \<open>The lock on the per-host map in \<open>try_acquire\<close>: refused (with the entry \<open>or_insert\<close> made), or counted.\<close>

definition take_host :: "ustr \<Rightarrow> admission \<Rightarrow> bool \<times> admission" where
  "take_host key a =
     (let n = host_count a key in
      if ad_max_per_host a \<le> n then (False, a\<lparr>ad_hosts := AList.update key n (ad_hosts a)\<rparr>)
      else (True, a\<lparr>ad_hosts := AList.update key (Suc n) (ad_hosts a)\<rparr>))"

definition give_total :: "bool \<Rightarrow> admission \<Rightarrow> admission" where
  "give_total counted a = (if counted then a\<lparr>ad_total := ad_total a - 1\<rparr> else a)"

definition give_host :: "ustr \<Rightarrow> bool \<Rightarrow> admission \<Rightarrow> admission" where
  "give_host key counted a =
     (if counted then
        (case map_of (ad_hosts a) key of
           Some n \<Rightarrow>
             (if n - 1 = 0 then a\<lparr>ad_hosts := AList.delete key (ad_hosts a)\<rparr>
              else a\<lparr>ad_hosts := AList.update key (n - 1) (ad_hosts a)\<rparr>)
         | None \<Rightarrow> a)
      else a)"

definition try_acquire :: "ustr \<Rightarrow> admission \<Rightarrow> (deny + conn_slot) \<times> admission" where
  "try_acquire host a =
     (let key = host_key host in
      if key \<in> set (ad_bans a) then (Inl Banned, a)
      else
        (let counted = 0 < ad_max_clients a;
             a1 = (if counted then a\<lparr>ad_total := Suc (ad_total a)\<rparr> else a)
         in if counted \<and> ad_max_clients a < Suc (ad_total a) then (Inl Full, give_total True a1)
            else if 0 < ad_max_per_host a then
              (case take_host key a1 of
                 (False, a2) \<Rightarrow> (Inl PerHost, give_total counted a2)
               | (True, a2) \<Rightarrow> (Inr \<lparr>sl_key = key, sl_total = counted, sl_host = True\<rparr>, a2))
            else (Inr \<lparr>sl_key = key, sl_total = counted, sl_host = False\<rparr>, a1)))"

definition adm_release :: "conn_slot \<Rightarrow> admission \<Rightarrow> admission" where
  "adm_release s a = give_host (sl_key s) (sl_host s) (give_total (sl_total s) a)"

section \<open>Interleavings\<close>

text \<open>
  A connection, by what it does next. \<open>Arriving\<close> is about to take the ban lock, \<open>Counting\<close> to add to the
  total, \<open>Overfull\<close> to take that back, \<open>Counted\<close> to take the host lock, \<open>Backout\<close> to take the total back,
  \<open>Holding\<close> has its slot and will give the total back first, \<open>Leaving\<close> then the host count.
\<close>

datatype conn =
    Arriving ustr
  | Counting ustr
  | Overfull ustr
  | Counted ustr bool
  | Backout ustr bool
  | Holding conn_slot
  | Leaving conn_slot
  | Refused deny
  | Gone

fun conn_step :: "conn \<Rightarrow> admission \<Rightarrow> conn \<times> admission" where
  "conn_step (Arriving host) a =
     (let key = host_key host in if key \<in> set (ad_bans a) then (Refused Banned, a) else (Counting key, a))"
| "conn_step (Counting key) a =
     (if 0 < ad_max_clients a
      then (if ad_max_clients a < Suc (ad_total a) then Overfull key else Counted key True,
            a\<lparr>ad_total := Suc (ad_total a)\<rparr>)
      else (Counted key False, a))"
| "conn_step (Overfull key) a = (Refused Full, give_total True a)"
| "conn_step (Counted key counted) a =
     (if 0 < ad_max_per_host a then
        (case take_host key a of
           (False, a') \<Rightarrow> (Backout key counted, a')
         | (True, a') \<Rightarrow> (Holding \<lparr>sl_key = key, sl_total = counted, sl_host = True\<rparr>, a'))
      else (Holding \<lparr>sl_key = key, sl_total = counted, sl_host = False\<rparr>, a))"
| "conn_step (Backout key counted) a = (Refused PerHost, give_total counted a)"
| "conn_step (Holding s) a = (Leaving s, give_total (sl_total s) a)"
| "conn_step (Leaving s) a = (Gone, give_host (sl_key s) (sl_host s) a)"
| "conn_step (Refused d) a = (Refused d, a)"
| "conn_step Gone a = (Gone, a)"

inductive adm_step :: "admission \<times> conn list \<Rightarrow> admission \<times> conn list \<Rightarrow> bool" where
  arrive: "adm_step (a, cs) (a, cs @ [Arriving host])"
| move: "i < length cs \<Longrightarrow> conn_step (cs ! i) a = (c, a') \<Longrightarrow> adm_step (a, cs) (a', cs[i := c])"
| bans: "a' \<in> {admission_ban host a, admission_unban host a, load_bans hosts a} \<Longrightarrow> adm_step (a, cs) (a', cs)"

inductive adm_reachable :: "nat \<Rightarrow> nat \<Rightarrow> admission \<times> conn list \<Rightarrow> bool" for mc mh where
  start: "adm_reachable mc mh (admission_new mc mh, [])"
| step: "adm_reachable mc mh s \<Longrightarrow> adm_step s s' \<Longrightarrow> adm_reachable mc mh s'"

inductive_cases adm_stepE: "adm_step (a, cs) s'"

definition counts_total :: "conn \<Rightarrow> bool" where
  "counts_total c =
     (case c of Overfull _ \<Rightarrow> True | Counted _ b \<Rightarrow> b | Backout _ b \<Rightarrow> b | Holding s \<Rightarrow> sl_total s | _ \<Rightarrow> False)"

definition within_total :: "conn \<Rightarrow> bool" where
  "within_total c \<longleftrightarrow> counts_total c \<and> (case c of Overfull _ \<Rightarrow> False | _ \<Rightarrow> True)"

definition counts_host :: "ustr \<Rightarrow> conn \<Rightarrow> bool" where
  "counts_host key c =
     (case c of Holding s \<Rightarrow> sl_host s \<and> sl_key s = key | Leaving s \<Rightarrow> sl_host s \<and> sl_key s = key | _ \<Rightarrow> False)"

definition is_holding :: "conn \<Rightarrow> bool" where
  "is_holding c = (case c of Holding s \<Rightarrow> True | _ \<Rightarrow> False)"

definition holds_for :: "ustr \<Rightarrow> conn \<Rightarrow> bool" where
  "holds_for key c = (case c of Holding s \<Rightarrow> sl_key s = key | _ \<Rightarrow> False)"

definition is_finished :: "conn \<Rightarrow> bool" where
  "is_finished c = (case c of Refused _ \<Rightarrow> True | Gone \<Rightarrow> True | _ \<Rightarrow> False)"

text \<open>The flags of a connection say which caps are configured.\<close>

definition flags_fit :: "nat \<Rightarrow> nat \<Rightarrow> conn \<Rightarrow> bool" where
  "flags_fit mc mh c =
     (case c of Counted _ b \<Rightarrow> b = (0 < mc) | Backout _ b \<Rightarrow> b = (0 < mc)
      | Holding s \<Rightarrow> sl_total s = (0 < mc) \<and> sl_host s = (0 < mh)
      | Leaving s \<Rightarrow> sl_host s = (0 < mh) | Overfull _ \<Rightarrow> 0 < mc | _ \<Rightarrow> True)"

definition count :: "('a \<Rightarrow> bool) \<Rightarrow> 'a list \<Rightarrow> nat" where
  "count P xs = length (filter P xs)"

definition adm_inv :: "nat \<Rightarrow> nat \<Rightarrow> admission \<times> conn list \<Rightarrow> bool" where
  "adm_inv mc mh s =
     (case s of (a, cs) \<Rightarrow>
        ad_max_clients a = mc \<and> ad_max_per_host a = mh \<and> list_all (flags_fit mc mh) cs
        \<and> ad_total a = count counts_total cs \<and> (0 < mc \<longrightarrow> count within_total cs \<le> mc)
        \<and> table_ok (ad_hosts a) \<and> (\<forall>key. host_count a key = count (counts_host key) cs)
        \<and> (\<forall>key n. map_of (ad_hosts a) key = Some n \<longrightarrow> 0 < n \<and> n \<le> mh))"

lemma count_simps [simp]:
  "count P [] = 0" "count P (x # xs) = (if P x then 1 else 0) + count P xs"
  "count P (xs @ ys) = count P xs + count P ys"
  by (simp_all add: count_def)

lemma count_update:
  "i < length xs \<Longrightarrow> count P (xs[i := x]) + (if P (xs ! i) then 1 else 0) = count P xs + (if P x then 1 else 0)"
proof (induction xs arbitrary: i)
  case (Cons y ys)
  then show ?case using Cons.IH [of "i - 1"] by (cases i) auto
qed simp

lemma count_pos: "i < length xs \<Longrightarrow> P (xs ! i) \<Longrightarrow> 0 < count P xs"
  by (auto simp: count_def filter_empty_conv)

lemma count_mono: "(\<And>x. x \<in> set xs \<Longrightarrow> P x \<Longrightarrow> Q x) \<Longrightarrow> count P xs \<le> count Q xs"
  by (induction xs) (auto simp: le_SucI)

lemma count_zero: "(\<And>x. x \<in> set xs \<Longrightarrow> \<not> P x) \<Longrightarrow> count P xs = 0"
  by (simp add: count_def filter_empty_conv)

section \<open>The invariant\<close>

definition hosts_ok :: "admission \<Rightarrow> bool" where
  "hosts_ok a \<longleftrightarrow> table_ok (ad_hosts a) \<and> (\<forall>key n. map_of (ad_hosts a) key = Some n \<longrightarrow> 0 < n \<and> n \<le> ad_max_per_host a)"

lemma adm_inv_alt:
  "adm_inv mc mh (a, cs) \<longleftrightarrow>
     ad_max_clients a = mc \<and> ad_max_per_host a = mh \<and> list_all (flags_fit mc mh) cs
     \<and> ad_total a = count counts_total cs \<and> (0 < mc \<longrightarrow> count within_total cs \<le> mc)
     \<and> hosts_ok a \<and> (\<forall>key. host_count a key = count (counts_host key) cs)"
  by (auto simp: adm_inv_def hosts_ok_def)

lemma take_host_facts:
  assumes "hosts_ok a" "0 < ad_max_per_host a" "take_host key a = (ok, a')"
  shows "hosts_ok a'" "ad_max_clients a' = ad_max_clients a" "ad_max_per_host a' = ad_max_per_host a"
    "ad_total a' = ad_total a" "ad_bans a' = ad_bans a" "ok \<longleftrightarrow> host_count a key < ad_max_per_host a"
    "host_count a' k = host_count a k + (if ok \<and> k = key then 1 else 0)"
proof -
  have full: "map_of (ad_hosts a) key = Some (host_count a key)" if "ad_max_per_host a \<le> host_count a key"
    using that assms(2) by (auto simp: host_count_def split: option.splits)
  show "hosts_ok a'"
    using assms full by (auto simp: take_host_def Let_def hosts_ok_def split: if_splits)
  show "ad_max_clients a' = ad_max_clients a" "ad_max_per_host a' = ad_max_per_host a"
    "ad_total a' = ad_total a" "ad_bans a' = ad_bans a" "ok \<longleftrightarrow> host_count a key < ad_max_per_host a"
    using assms(3) by (auto simp: take_host_def Let_def split: if_splits)
  show "host_count a' k = host_count a k + (if ok \<and> k = key then 1 else 0)"
    using assms(3) by (auto simp: take_host_def Let_def host_count_def split: if_splits)
qed

lemma give_total_fields [simp]:
  "ad_max_clients (give_total b a) = ad_max_clients a" "ad_max_per_host (give_total b a) = ad_max_per_host a"
  "ad_hosts (give_total b a) = ad_hosts a" "ad_bans (give_total b a) = ad_bans a"
  "ad_total (give_total b a) = ad_total a - (if b then 1 else 0)"
  "host_count (give_total b a) = host_count a" "hosts_ok (give_total b a) = hosts_ok a"
  by (simp_all add: give_total_def host_count_def hosts_ok_def fun_eq_iff)

lemma total_update_fields [simp]:
  "host_count (a\<lparr>ad_total := n\<rparr>) = host_count a" "hosts_ok (a\<lparr>ad_total := n\<rparr>) = hosts_ok a"
  "host_count (a\<lparr>ad_bans := bs\<rparr>) = host_count a" "hosts_ok (a\<lparr>ad_bans := bs\<rparr>) = hosts_ok a"
  by (simp_all add: host_count_def hosts_ok_def fun_eq_iff)

lemma give_host_facts:
  assumes "hosts_ok a" "0 < host_count a key \<or> \<not> b"
  shows "hosts_ok (give_host key b a)" "ad_max_clients (give_host key b a) = ad_max_clients a"
    "ad_max_per_host (give_host key b a) = ad_max_per_host a" "ad_total (give_host key b a) = ad_total a"
    "host_count (give_host key b a) k + (if b \<and> k = key then 1 else 0) = host_count a k"
proof -
  have hosts: "table_ok (ad_hosts a)"
    "\<And>j n. map_of (ad_hosts a) j = Some n \<Longrightarrow> 0 < n \<and> n \<le> ad_max_per_host a"
    using assms(1) by (auto simp: hosts_ok_def)
  consider (off) "\<not> b" | (on) n where "b" "map_of (ad_hosts a) key = Some n" "0 < n" "n \<le> ad_max_per_host a"
    using assms(2) hosts(2) by (auto simp: host_count_def split: option.splits)
  note cases = this
  show "hosts_ok (give_host key b a)"
    using cases
  proof cases
    case off
    then show ?thesis using assms(1) by (simp add: give_host_def)
  next
    case on
    then show ?thesis
      using hosts(1) by (auto simp: give_host_def hosts_ok_def dest: hosts(2))
  qed
  show "ad_max_clients (give_host key b a) = ad_max_clients a"
    "ad_max_per_host (give_host key b a) = ad_max_per_host a" "ad_total (give_host key b a) = ad_total a"
    by (simp_all add: give_host_def split: option.splits)
  show "host_count (give_host key b a) k + (if b \<and> k = key then 1 else 0) = host_count a k"
    using cases by cases (auto simp: give_host_def host_count_def)
qed

lemma flags_update:
  "list_all P xs \<Longrightarrow> P x \<Longrightarrow> list_all P (xs[i := x])"
  using set_update_subset_insert [of xs i x] by (auto simp: list_all_iff)

text \<open>A step of one connection keeps the invariant when the counters move as the connection does.\<close>

lemma inv_moved:
  assumes inv: "adm_inv mc mh (a, cs)" and i: "i < length cs"
    and fields: "ad_max_clients a' = mc" "ad_max_per_host a' = mh" and flags: "flags_fit mc mh c" and hosts: "hosts_ok a'"
    and tot: "ad_total a' + (if counts_total (cs ! i) then 1 else 0) = ad_total a + (if counts_total c then 1 else 0)"
    and within: "within_total c \<and> \<not> within_total (cs ! i) \<Longrightarrow> 0 < mc \<Longrightarrow> count within_total cs < mc"
    and host: "\<And>key. host_count a' key + (if counts_host key (cs ! i) then 1 else 0)
                 = host_count a key + (if counts_host key c then 1 else 0)"
  shows "adm_inv mc mh (a', cs[i := c])"
proof -
  note old = inv [unfolded adm_inv_alt]
  have "ad_total a' = count counts_total (cs[i := c])"
    using count_update [OF i, of counts_total c] tot old by linarith
  moreover have "host_count a' key = count (counts_host key) (cs[i := c])" for key
    using count_update [OF i, of "counts_host key" c] host [of key] old by auto
  moreover have "count within_total (cs[i := c]) \<le> mc" if "0 < mc"
    using count_update [OF i, of within_total c] within that old by (auto split: if_splits)
  ultimately show ?thesis
    using old fields flags hosts by (simp add: adm_inv_alt flags_update)
qed

lemma move_inv:
  assumes inv: "adm_inv mc mh (a, cs)" and i: "i < length cs" and st: "conn_step (cs ! i) a = (c, a')"
  shows "adm_inv mc mh (a', cs[i := c])"
proof -
  note old = inv [unfolded adm_inv_alt]
  have flag: "flags_fit mc mh (cs ! i)"
    using old i by (simp add: list_all_length)
  have pos: "0 < ad_total a" if "counts_total (cs ! i)"
    using count_pos [of i cs counts_total, OF i that] old by simp
  have hpos: "0 < host_count a key" if "counts_host key (cs ! i)" for key
    using count_pos [of i cs "counts_host key", OF i that] old by simp
  have within: "count within_total cs \<le> ad_total a"
    using old count_mono [of cs within_total counts_total] by (simp add: within_total_def)
  note defs = counts_total_def within_total_def counts_host_def flags_fit_def
  show ?thesis
  proof (cases "cs ! i")
    case (Arriving host)
    show ?thesis
      by (rule inv_moved [OF inv i]) (use st old Arriving in \<open>auto simp: defs Let_def split: if_splits\<close>)
  next
    case (Counting key)
    show ?thesis
      by (rule inv_moved [OF inv i]) (use st old within Counting in \<open>auto simp: defs split: if_splits\<close>)
  next
    case (Overfull key)
    show ?thesis
      by (rule inv_moved [OF inv i]) (use st old Overfull pos in \<open>auto simp: defs\<close>)
  next
    case (Counted key counted)
    obtain ok b where th: "take_host key a = (ok, b)" by force
    show ?thesis
    proof (cases "0 < mh")
      case True
      note facts = take_host_facts [OF _ _ th]
      show ?thesis
        by (rule inv_moved [OF inv i])
          (use st old Counted True th flag facts in \<open>auto simp: defs split: bool.splits\<close>)
    next
      case False
      show ?thesis
        by (rule inv_moved [OF inv i]) (use st old Counted False flag in \<open>auto simp: defs\<close>)
    qed
  next
    case (Backout key counted)
    show ?thesis
      by (rule inv_moved [OF inv i]) (use st old Backout pos in \<open>auto simp: defs\<close>)
  next
    case (Holding s)
    show ?thesis
      by (rule inv_moved [OF inv i]) (use st old Holding pos flag in \<open>auto simp: defs\<close>)
  next
    case (Leaving s)
    have "0 < host_count a (sl_key s) \<or> \<not> sl_host s"
      using hpos [of "sl_key s"] Leaving by (auto simp: counts_host_def)
    note facts = give_host_facts [OF _ this]
    have step: "c = Gone" "a' = give_host (sl_key s) (sl_host s) a"
      using st Leaving by auto
    have hosts: "hosts_ok a" "ad_max_clients a = mc" "ad_max_per_host a = mh"
      using old by auto
    show ?thesis
    proof (rule inv_moved [OF inv i])
      fix key
      show "host_count a' key + (if counts_host key (cs ! i) then 1 else 0)
          = host_count a key + (if counts_host key c then 1 else 0)"
        using facts(5) [OF hosts(1), of key] by (auto simp: step Leaving counts_host_def)
    qed (simp_all add: step Leaving facts hosts defs)
  qed (use st inv list_update_id [of cs i] in auto)
qed

lemma ban_fields [simp]:
  "ad_max_clients (admission_ban h a) = ad_max_clients a" "ad_max_per_host (admission_ban h a) = ad_max_per_host a"
  "ad_total (admission_ban h a) = ad_total a" "ad_hosts (admission_ban h a) = ad_hosts a"
  by (simp_all add: admission_ban_def Let_def)

lemma bans_fields [simp]:
  "ad_max_clients (fold admission_ban hs a) = ad_max_clients a"
  "ad_max_per_host (fold admission_ban hs a) = ad_max_per_host a"
  "ad_total (fold admission_ban hs a) = ad_total a" "ad_hosts (fold admission_ban hs a) = ad_hosts a"
  by (induction hs arbitrary: a; simp)+

lemma adm_step_inv: "adm_step s s' \<Longrightarrow> adm_inv mc mh s \<Longrightarrow> adm_inv mc mh s'"
proof (induction rule: adm_step.induct)
  case (arrive a cs host)
  then show ?case
    by (auto simp: adm_inv_alt flags_fit_def counts_total_def within_total_def counts_host_def)
next
  case (bans a' host a hosts cs)
  then have "ad_max_clients a' = ad_max_clients a" "ad_max_per_host a' = ad_max_per_host a"
    "ad_total a' = ad_total a" "ad_hosts a' = ad_hosts a"
    by (auto simp: admission_unban_def load_bans_def)
  then show ?case
    using bans(2) by (auto simp: adm_inv_alt hosts_ok_def host_count_def)
qed (rule move_inv)

lemma adm_reachable_inv: "adm_reachable mc mh s \<Longrightarrow> adm_inv mc mh s"
proof (induction rule: adm_reachable.induct)
  case start
  show ?case by (simp add: adm_inv_alt admission_new_def hosts_ok_def host_count_def)
qed (rule adm_step_inv)

section \<open>What the gate guarantees\<close>

lemma inv_caps:
  assumes "adm_inv mc mh (a, cs)"
  shows "mc = 0 \<or> count is_holding cs \<le> mc" "mh = 0 \<or> count (holds_for key) cs \<le> mh"
proof -
  note inv = assms [unfolded adm_inv_alt]
  have flags: "flags_fit mc mh c" if "c \<in> set cs" for c
    using inv that by (auto simp: list_all_iff)
  show "mc = 0 \<or> count is_holding cs \<le> mc"
  proof (cases "mc = 0")
    case False
    have "within_total c" if "c \<in> set cs" "is_holding c" for c
      using flags [OF that(1)] that(2) False
      by (auto simp: is_holding_def within_total_def counts_total_def flags_fit_def split: conn.splits)
    then have "count is_holding cs \<le> count within_total cs"
      by (rule count_mono)
    then show ?thesis using inv False by simp
  qed simp
  show "mh = 0 \<or> count (holds_for key) cs \<le> mh"
  proof (cases "mh = 0")
    case False
    have "counts_host key c" if "c \<in> set cs" "holds_for key c" for c
      using flags [OF that(1)] that(2) False
      by (auto simp: holds_for_def counts_host_def flags_fit_def split: conn.splits)
    then have "count (holds_for key) cs \<le> count (counts_host key) cs"
      by (rule count_mono)
    moreover have "host_count a key \<le> mh"
    proof (cases "map_of (ad_hosts a) key")
      case (Some n)
      then show ?thesis using inv by (simp add: host_count_def hosts_ok_def) blast
    qed (simp add: host_count_def)
    ultimately show ?thesis using inv by auto
  qed simp
qed

text \<open>C21: However the steps of any number of connections, listeners and ban changes interleave, the slots held
  never exceed the configured maximum (where one is configured), nor those of one host its share; the total
  and the per-host counters are at every moment exactly what the connections in flight account for, so none is
  ever decremented below zero; and when every connection has been refused or has gone, the total is zero and
  the per-host table empty: no refusal, failure or hangup leaks a slot.\<close>

theorem admission_caps_and_no_leak:
  assumes "adm_reachable mc mh (a, cs)"
  shows "(mc = 0 \<or> count is_holding cs \<le> mc) \<and> (mh = 0 \<or> count (holds_for key) cs \<le> mh)
    \<and> ad_total a = count counts_total cs \<and> host_count a key = count (counts_host key) cs
    \<and> (list_all is_finished cs \<longrightarrow> ad_total a = 0 \<and> ad_hosts a = [])"
proof -
  have inv: "adm_inv mc mh (a, cs)"
    by (rule adm_reachable_inv [OF assms])
  note facts = inv [unfolded adm_inv_alt]
  have "ad_total a = 0 \<and> ad_hosts a = []" if "list_all is_finished cs"
  proof
    have none: "\<not> counts_total c" "\<not> counts_host k c" if "c \<in> set cs" for c k
      using \<open>list_all is_finished cs\<close> that
      by (auto simp: list_all_iff is_finished_def counts_total_def counts_host_def split: conn.splits)
    show "ad_total a = 0" using facts none(1) by (simp add: count_zero)
    have "map_of (ad_hosts a) k = None" for k
    proof (rule ccontr)
      assume "map_of (ad_hosts a) k \<noteq> None"
      then obtain n where n: "map_of (ad_hosts a) k = Some n" by blast
      have "host_count a k = 0" using facts none(2) by (simp add: count_zero)
      moreover have "0 < n" using facts n by (auto simp: hosts_ok_def)
      ultimately show False using n by (simp add: host_count_def)
    qed
    then have "map_of (ad_hosts a) = Map.empty" by (simp add: fun_eq_iff)
    then show "ad_hosts a = []" by (simp only: map_of_eq_empty_iff)
  qed
  then show ?thesis using facts inv_caps [OF inv] by auto
qed

text \<open>A run in which one connection arrives, passes the ban list and counts itself.\<close>

lemma sample_run:
  "adm_reachable 1 1 ((admission_new 1 1)\<lparr>ad_total := 1\<rparr>, [Counted (host_key (lit ''h'')) True])"
proof -
  have "adm_reachable 1 1 (admission_new 1 1, [Arriving (lit ''h'')])"
    using adm_reachable.step [OF adm_reachable.start adm_step.arrive, of 1 1 "lit ''h''"] by simp
  from adm_reachable.step [OF this adm_step.move [of 0]]
  have "adm_reachable 1 1 (admission_new 1 1, [Counting (host_key (lit ''h''))])"
    by (simp add: admission_new_def)
  from adm_reachable.step [OF this adm_step.move [of 0]]
  show ?thesis by (simp add: admission_new_def)
qed

theorem admission_caps_and_no_leak_witness:
  "ad_total ((admission_new 1 1)\<lparr>ad_total := 1\<rparr>) = count counts_total [Counted (host_key (lit ''h'')) True]"
  using admission_caps_and_no_leak [OF sample_run] by blast

section \<open>One connection alone\<close>

fun settle :: "nat \<Rightarrow> conn \<Rightarrow> admission \<Rightarrow> conn \<times> admission" where
  "settle 0 c a = (c, a)"
| "settle (Suc n) c a =
     (case c of
        Holding s \<Rightarrow> (c, a)
      | Refused d \<Rightarrow> (c, a)
      | _ \<Rightarrow> (case conn_step c a of (c', a') \<Rightarrow> settle n c' a'))"

text \<open>Cut at its atomic operations and run without interference, a connection does what \<open>try_acquire\<close> does
  as a whole: the same answer, the same slot and the same counters, on each of its five ways out (banned, full,
  too many from one host, and a slot with and without a per-host cap); and giving the slot back takes the two
  steps of the release.\<close>

theorem steps_are_try_acquire:
  "settle 4 (Arriving host) a =
     (case try_acquire host a of (Inl d, a') \<Rightarrow> (Refused d, a') | (Inr s, a') \<Rightarrow> (Holding s, a'))
   \<and> (case conn_step (Holding s) a of (c, a') \<Rightarrow> conn_step c a') = (Gone, adm_release s a)"
  by (auto simp: numeral_eq_Suc try_acquire_def adm_release_def Let_def split: prod.splits bool.splits)

end
