(* ===== verification/Server_State.thy ===== *)
theory Server_State
  imports Ip_Addr "HOL-Library.List_Lexorder"
begin

text \<open>
  \<open>src/src/server/state.rs\<close>: users, the nickname registry, channels and memberships. Maps are tables; the sets
  of strings a user and a channel keep are lists in which each element is kept once. The order in which the
  code's hash maps and sets are walked is not specified there; here it is the order of the list.
\<close>

section \<open>Users and channels\<close>

type_synonym client_id = nat

datatype user_id = IpUser client_id | RfUser callsign

definition id_is_rf :: "user_id \<Rightarrow> bool" where
  "id_is_rf i = (case i of RfUser _ \<Rightarrow> True | IpUser _ \<Rightarrow> False)"

definition id_callsign :: "user_id \<Rightarrow> callsign option" where
  "id_callsign i = (case i of RfUser c \<Rightarrow> Some c | IpUser _ \<Rightarrow> None)"

record user =
  us_id :: user_id
  us_nick :: ustr
  us_username :: ustr
  us_realname :: ustr
  us_host :: ustr
  us_callsign :: "callsign option"
  us_registered :: bool
  us_nick_identified :: bool
  us_identify_by :: "nat option"
  us_oper :: bool
  us_away :: "ustr option"
  us_channels :: "ustr list"
  us_connected_at :: nat
  us_last_active :: nat
  us_got_nick :: bool
  us_got_user :: bool
  us_pass_ok :: bool
  us_rf_tx :: bool
  us_listen_only :: bool

definition user_new :: "user_id \<Rightarrow> ustr \<Rightarrow> nat \<Rightarrow> user" where
  "user_new i host now =
     \<lparr>us_id = i, us_nick = lit ''*'', us_username = lit ''*'', us_realname = [], us_host = host, us_callsign = None,
      us_registered = False, us_nick_identified = False, us_identify_by = None, us_oper = False, us_away = None,
      us_channels = [], us_connected_at = now, us_last_active = now, us_got_nick = False, us_got_user = False,
      us_pass_ok = False, us_rf_tx = False, us_listen_only = False\<rparr>"

definition user_prefix :: "user \<Rightarrow> ustr" where
  "user_prefix u = us_nick u @ lit ''!'' @ us_username u @ lit ''@'' @ us_host u"

definition user_is_rf :: "user \<Rightarrow> bool" where
  "user_is_rf u = id_is_rf (us_id u)"

record member_flags =
  mf_op :: bool
  mf_voice :: bool
  mf_op_manual :: bool
  mf_voice_manual :: bool

definition member_flags_default :: member_flags where
  "member_flags_default = \<lparr>mf_op = False, mf_voice = False, mf_op_manual = False, mf_voice_manual = False\<rparr>"

definition sigil :: "member_flags \<Rightarrow> ustr" where
  "sigil f = (if mf_op f then lit ''@'' else if mf_voice f then lit ''+'' else [])"

record channel =
  ch_name :: ustr
  ch_configured :: bool
  ch_topic :: "ustr option"
  ch_topic_setter :: ustr
  ch_topic_time :: nat
  ch_members :: "(user_id, member_flags) table"
  ch_rf :: bool
  ch_moderated :: bool
  ch_topic_locked :: bool
  ch_key :: "ustr option"
  ch_limit :: "nat option"
  ch_operators :: "ustr list"

definition channel_new :: "ustr \<Rightarrow> bool \<Rightarrow> channel" where
  "channel_new name rf =
     \<lparr>ch_name = name, ch_configured = False, ch_topic = None, ch_topic_setter = [], ch_topic_time = 0, ch_members = [],
      ch_rf = rf, ch_moderated = rf, ch_topic_locked = True, ch_key = None, ch_limit = None, ch_operators = []\<rparr>"

definition mode_string :: "channel \<Rightarrow> ustr" where
  "mode_string c =
     lit ''+n'' @ (if ch_rf c then lit ''r'' else []) @ (if ch_moderated c then lit ''m'' else [])
     @ (if ch_topic_locked c then lit ''t'' else []) @ (if ch_key c \<noteq> None then lit ''k'' else [])
     @ (if ch_limit c \<noteq> None then lit ''l'' else [])"

definition has_rf_members :: "channel \<Rightarrow> bool" where
  "has_rf_members c = list_ex (\<lambda>(i, _). id_is_rf i) (ch_members c)"

definition rf_member_count :: "channel \<Rightarrow> nat" where
  "rf_member_count c = length (filter (\<lambda>(i, _). id_is_rf i) (ch_members c))"

section \<open>The state\<close>

record irc_state =
  st_users :: "(user_id, user) table"
  st_nicks :: "(ustr, user_id) table"
  st_channels :: "(ustr, channel) table"

definition irc_state_default :: irc_state where
  "irc_state_default = \<lparr>st_users = [], st_nicks = [], st_channels = []\<rparr>"

definition st_user :: "irc_state \<Rightarrow> user_id \<Rightarrow> user option" where
  "st_user s i = map_of (st_users s) i"

text \<open>What is done through \<open>user_mut\<close>: the user is replaced by an update of it.\<close>

definition user_mut :: "user_id \<Rightarrow> (user \<Rightarrow> user) \<Rightarrow> irc_state \<Rightarrow> irc_state" where
  "user_mut i f s =
     (case map_of (st_users s) i of
        Some u \<Rightarrow> s\<lparr>st_users := AList.update i (f u) (st_users s)\<rparr>
      | None \<Rightarrow> s)"

definition insert_user :: "user \<Rightarrow> irc_state \<Rightarrow> irc_state" where
  "insert_user u s = s\<lparr>st_users := AList.update (us_id u) u (st_users s)\<rparr>"

definition by_nick :: "irc_state \<Rightarrow> ustr \<Rightarrow> user option" where
  "by_nick s nick = Option.bind (map_of (st_nicks s) (lower nick)) (map_of (st_users s))"

definition nick_taken :: "irc_state \<Rightarrow> ustr \<Rightarrow> bool" where
  "nick_taken s nick \<longleftrightarrow> has_key (st_nicks s) (lower nick)"

definition set_nick :: "user_id \<Rightarrow> ustr \<Rightarrow> irc_state \<Rightarrow> bool \<times> irc_state" where
  "set_nick i nick s =
     (case map_of (st_users s) i of
        None \<Rightarrow> (False, s)
      | Some u \<Rightarrow>
          (let key = lower nick in
           if (case map_of (st_nicks s) key of Some owner \<Rightarrow> owner \<noteq> i | None \<Rightarrow> False) then (False, s)
           else (True, s\<lparr>st_nicks := AList.update key i (AList.delete (lower (us_nick u)) (st_nicks s)),
                         st_users := AList.update i (u\<lparr>us_nick := nick\<rparr>) (st_users s)\<rparr>)))"

definition st_channel :: "irc_state \<Rightarrow> ustr \<Rightarrow> channel option" where
  "st_channel s name = map_of (st_channels s) (lower name)"

definition channel_mut :: "ustr \<Rightarrow> (channel \<Rightarrow> channel) \<Rightarrow> irc_state \<Rightarrow> irc_state" where
  "channel_mut name f s =
     (case map_of (st_channels s) (lower name) of
        Some c \<Rightarrow> s\<lparr>st_channels := AList.update (lower name) (f c) (st_channels s)\<rparr>
      | None \<Rightarrow> s)"

definition ensure_channel :: "ustr \<Rightarrow> bool \<Rightarrow> irc_state \<Rightarrow> irc_state" where
  "ensure_channel name rf s =
     (if has_key (st_channels s) (lower name) then s
      else s\<lparr>st_channels := AList.update (lower name) (channel_new name rf) (st_channels s)\<rparr>)"

definition flags_for_parts :: "irc_state \<Rightarrow> user_id \<Rightarrow> bool \<Rightarrow> bool \<Rightarrow> ustr list \<Rightarrow> member_flags" where
  "flags_for_parts s i rf first operators =
     (case map_of (st_users s) i of
        None \<Rightarrow> member_flags_default
      | Some u \<Rightarrow>
          (let configured_op = lower (us_nick u) \<in> set operators \<and> us_nick_identified u in
           if rf then member_flags_default\<lparr>mf_op := us_oper u \<or> configured_op,
                                           mf_voice := us_callsign u \<noteq> None \<or> us_oper u\<rparr>
           else member_flags_default\<lparr>mf_op := (first \<and> \<not> id_is_rf i) \<or> us_oper u \<or> configured_op,
                                     mf_voice := False\<rparr>))"

definition st_join :: "user_id \<Rightarrow> ustr \<Rightarrow> irc_state \<Rightarrow> member_flags option \<times> irc_state" where
  "st_join i name s =
     (let key = lower name in
      case (map_of (st_users s) i, map_of (st_channels s) key) of
        (Some u, Some c) \<Rightarrow>
          if has_key (ch_members c) i then (None, s)
          else (let flags = flags_for_parts s i (ch_rf c) (ch_members c = []) (ch_operators c)
                in (Some flags,
                    s\<lparr>st_channels := AList.update key (c\<lparr>ch_members := AList.update i flags (ch_members c)\<rparr>) (st_channels s),
                      st_users := AList.update i (u\<lparr>us_channels := List.insert key (us_channels u)\<rparr>) (st_users s)\<rparr>))
      | _ \<Rightarrow> (None, s))"

definition apply_intended_flags ::
  "user_id \<Rightarrow> ustr \<Rightarrow> irc_state \<Rightarrow> (member_flags \<times> member_flags) option \<times> irc_state" where
  "apply_intended_flags i name s =
     (let key = lower name in
      case map_of (st_channels s) key of
        None \<Rightarrow> (None, s)
      | Some c \<Rightarrow>
          (case map_of (ch_members c) i of
             None \<Rightarrow> (None, s)
           | Some old \<Rightarrow>
               (let derived = flags_for_parts s i (ch_rf c) False (ch_operators c);
                    new = \<lparr>mf_op = mf_op derived \<or> mf_op_manual old, mf_voice = mf_voice derived \<or> mf_voice_manual old,
                           mf_op_manual = mf_op_manual old, mf_voice_manual = mf_voice_manual old\<rparr>
                in if old = new then (None, s)
                   else (Some (old, new),
                         s\<lparr>st_channels := AList.update key (c\<lparr>ch_members := AList.update i new (ch_members c)\<rparr>)
                             (st_channels s)\<rparr>))))"

definition ip_users :: "irc_state \<Rightarrow> nat" where
  "ip_users s = length (filter (\<lambda>(_, u). \<not> user_is_rf u) (st_users s))"

definition ip_count_from_host :: "irc_state \<Rightarrow> ustr \<Rightarrow> nat" where
  "ip_count_from_host s host =
     length (filter (\<lambda>(_, u). \<not> user_is_rf u \<and> host_ban_key (us_host u) = host_ban_key host) (st_users s))"

definition reap_channel :: "ustr \<Rightarrow> irc_state \<Rightarrow> irc_state" where
  "reap_channel key s =
     (case map_of (st_channels s) key of
        Some c \<Rightarrow> if \<not> ch_configured c \<and> ch_members c = []
                   then s\<lparr>st_channels := AList.delete key (st_channels s)\<rparr> else s
      | None \<Rightarrow> s)"

definition st_part :: "user_id \<Rightarrow> ustr \<Rightarrow> irc_state \<Rightarrow> bool \<times> irc_state" where
  "st_part i name s =
     (let key = lower name in
      case map_of (st_channels s) key of
        None \<Rightarrow> (False, s)
      | Some c \<Rightarrow>
          (let s1 = s\<lparr>st_channels := AList.update key (c\<lparr>ch_members := AList.delete i (ch_members c)\<rparr>) (st_channels s)\<rparr>;
               s2 = user_mut i (\<lambda>u. u\<lparr>us_channels := removeAll key (us_channels u)\<rparr>) s1
           in (has_key (ch_members c) i, reap_channel key s2)))"

text \<open>One channel of the user that goes: the membership is removed, the name noted, and the channel reaped.\<close>

definition drop_member :: "user_id \<Rightarrow> ustr \<Rightarrow> ustr list \<times> irc_state \<Rightarrow> ustr list \<times> irc_state" where
  "drop_member i key ns =
     (case ns of (names, s) \<Rightarrow>
        (case map_of (st_channels s) key of
           Some c \<Rightarrow>
             (names @ [ch_name c],
              reap_channel key
                (s\<lparr>st_channels := AList.update key (c\<lparr>ch_members := AList.delete i (ch_members c)\<rparr>) (st_channels s)\<rparr>))
         | None \<Rightarrow> (names, reap_channel key s)))"

definition remove_user :: "user_id \<Rightarrow> irc_state \<Rightarrow> ustr list \<times> irc_state" where
  "remove_user i s =
     (case map_of (st_users s) i of
        None \<Rightarrow> ([], s)
      | Some u \<Rightarrow>
          fold (drop_member i) (us_channels u)
            ([], s\<lparr>st_users := AList.delete i (st_users s),
                   st_nicks := AList.delete (lower (us_nick u)) (st_nicks s)\<rparr>))"

definition st_members :: "irc_state \<Rightarrow> ustr \<Rightarrow> user_id list" where
  "st_members s name = (case st_channel s name of Some c \<Rightarrow> map fst (ch_members c) | None \<Rightarrow> [])"

definition peers_of :: "irc_state \<Rightarrow> user_id \<Rightarrow> user_id list" where
  "peers_of s i =
     (case map_of (st_users s) i of
        None \<Rightarrow> []
      | Some u \<Rightarrow>
          removeAll i (remdups (concat (map (\<lambda>key. case map_of (st_channels s) key of
             Some c \<Rightarrow> map fst (ch_members c) | None \<Rightarrow> []) (us_channels u)))))"

definition names_of :: "irc_state \<Rightarrow> ustr \<Rightarrow> ustr list" where
  "names_of s name =
     (case st_channel s name of
        None \<Rightarrow> []
      | Some c \<Rightarrow>
          sort (List.map_filter (\<lambda>(i, flags). map_option (\<lambda>u. sigil flags @ us_nick u) (map_of (st_users s) i))
            (ch_members c)))"

end
