(* ===== verification/Server_State_Proofs.thy ===== *)
theory Server_State_Proofs
  imports Server_State
begin

text \<open>
  The invariant of the server's state (the nickname registry and the users agree, memberships are recorded on
  both sides, channels are filed under their folded names) and what it gives: one owner for a nickname, and
  no trace of a user that is gone.
\<close>

section \<open>The invariant\<close>

definition member_of :: "irc_state \<Rightarrow> ustr \<Rightarrow> user_id \<Rightarrow> bool" where
  "member_of s k i \<longleftrightarrow> (\<exists>c. map_of (st_channels s) k = Some c \<and> has_key (ch_members c) i)"

definition joined :: "irc_state \<Rightarrow> ustr \<Rightarrow> user_id \<Rightarrow> bool" where
  "joined s k i \<longleftrightarrow> (\<exists>u. map_of (st_users s) i = Some u \<and> k \<in> set (us_channels u))"

definition no_nick :: ustr where "no_nick = lit ''*''"

definition users_ok :: "irc_state \<Rightarrow> bool" where
  "users_ok s \<longleftrightarrow> table_ok (st_users s) \<and> (\<forall>i u. map_of (st_users s) i = Some u \<longrightarrow> us_id u = i \<and> distinct (us_channels u))"

definition nick_of :: "irc_state \<Rightarrow> user_id \<Rightarrow> ustr option" where
  "nick_of s i = map_option us_nick (map_of (st_users s) i)"

definition nicks_ok :: "irc_state \<Rightarrow> bool" where
  "nicks_ok s \<longleftrightarrow> table_ok (st_nicks s) \<and> map_of (st_nicks s) no_nick = None
     \<and> (\<forall>k i. map_of (st_nicks s) k = Some i \<longrightarrow> (\<exists>n. nick_of s i = Some n \<and> lower n = k))
     \<and> (\<forall>i n. nick_of s i = Some n \<longrightarrow> lower n = no_nick \<or> map_of (st_nicks s) (lower n) = Some i)"

definition channels_ok :: "irc_state \<Rightarrow> bool" where
  "channels_ok s \<longleftrightarrow> table_ok (st_channels s)
     \<and> (\<forall>k c. map_of (st_channels s) k = Some c \<longrightarrow> lower (ch_name c) = k \<and> table_ok (ch_members c))"

text \<open>Memberships agree, but for the pairs in \<open>D\<close>, which a channel still lists and no user has.\<close>

definition memberships_ok :: "(user_id \<times> ustr) set \<Rightarrow> irc_state \<Rightarrow> bool" where
  "memberships_ok D s \<longleftrightarrow> (\<forall>k i. member_of s k i \<longrightarrow> joined s k i \<or> (i, k) \<in> D) \<and> (\<forall>k i. joined s k i \<longrightarrow> member_of s k i)"

definition st_inv :: "(user_id \<times> ustr) set \<Rightarrow> irc_state \<Rightarrow> bool" where
  "st_inv D s \<longleftrightarrow> users_ok s \<and> nicks_ok s \<and> channels_ok s \<and> memberships_ok D s"

abbreviation st_ok :: "irc_state \<Rightarrow> bool" where "st_ok \<equiv> st_inv {}"

lemmas st_inv_defs = st_inv_def users_ok_def nicks_ok_def channels_ok_def memberships_ok_def

lemma st_default_ok: "st_ok irc_state_default"
  by (simp add: st_inv_defs irc_state_default_def member_of_def joined_def nick_of_def)

lemma member_of_update:
  "member_of (s\<lparr>st_channels := AList.update k c m\<rparr>) j i \<longleftrightarrow>
     (if j = k then has_key (ch_members c) i else member_of (s\<lparr>st_channels := m\<rparr>) j i)"
  by (auto simp: member_of_def)

lemma member_of_same [simp]:
  "member_of (s\<lparr>st_users := x\<rparr>) = member_of s" "member_of (s\<lparr>st_nicks := y\<rparr>) = member_of s"
  by (simp_all add: member_of_def fun_eq_iff)

lemma joined_same [simp]:
  "joined (s\<lparr>st_channels := x\<rparr>) = joined s" "joined (s\<lparr>st_nicks := y\<rparr>) = joined s"
  by (simp_all add: joined_def fun_eq_iff)

lemma nick_of_same [simp]:
  "nick_of (s\<lparr>st_channels := x\<rparr>) = nick_of s" "nick_of (s\<lparr>st_nicks := y\<rparr>) = nick_of s"
  by (simp_all add: nick_of_def fun_eq_iff)

text \<open>Each part of the invariant reads only some of the state.\<close>

lemma users_ok_cong: "st_users s' = st_users s \<Longrightarrow> users_ok s' = users_ok s"
  by (simp add: users_ok_def)

lemma nicks_ok_cong: "st_nicks s' = st_nicks s \<Longrightarrow> nick_of s' = nick_of s \<Longrightarrow> nicks_ok s' = nicks_ok s"
  by (simp add: nicks_ok_def)

lemma channels_ok_cong: "st_channels s' = st_channels s \<Longrightarrow> channels_ok s' = channels_ok s"
  by (simp add: channels_ok_def)

lemma memberships_ok_cong: "member_of s' = member_of s \<Longrightarrow> joined s' = joined s \<Longrightarrow> memberships_ok D s' = memberships_ok D s"
  by (simp add: memberships_ok_def)

lemma users_ok_put: "users_ok s \<Longrightarrow> us_id v = i \<Longrightarrow> distinct (us_channels v) \<Longrightarrow>
    users_ok (s\<lparr>st_users := AList.update i v (st_users s)\<rparr>)"
  by (simp add: users_ok_def)

lemma channels_ok_put: "channels_ok s \<Longrightarrow> lower (ch_name c) = k \<Longrightarrow> table_ok (ch_members c) \<Longrightarrow>
    channels_ok (s\<lparr>st_channels := AList.update k c (st_channels s)\<rparr>)"
  by (simp add: channels_ok_def)

lemma channels_ok_get: "channels_ok s \<Longrightarrow> map_of (st_channels s) k = Some c \<Longrightarrow> lower (ch_name c) = k \<and> table_ok (ch_members c)"
  by (simp add: channels_ok_def)

lemma users_ok_get: "users_ok s \<Longrightarrow> map_of (st_users s) i = Some u \<Longrightarrow> us_id u = i \<and> distinct (us_channels u)"
  by (simp add: users_ok_def)

lemma nicks_ok_owner: "nicks_ok s \<Longrightarrow> map_of (st_nicks s) k = Some i \<Longrightarrow> \<exists>n. nick_of s i = Some n \<and> lower n = k"
  by (simp add: nicks_ok_def)

lemma nicks_ok_registered:
  "nicks_ok s \<Longrightarrow> nick_of s i = Some n \<Longrightarrow> lower n = no_nick \<or> map_of (st_nicks s) (lower n) = Some i"
  by (simp add: nicks_ok_def)

section \<open>Operations keep it\<close>

text \<open>An update of a user that keeps its identity, its nickname and its channels; of a channel that keeps its
  name and its members.\<close>

definition keeps_user :: "(user \<Rightarrow> user) \<Rightarrow> bool" where
  "keeps_user f \<longleftrightarrow> (\<forall>u. us_id (f u) = us_id u \<and> us_nick (f u) = us_nick u \<and> us_channels (f u) = us_channels u)"

definition keeps_channel :: "(channel \<Rightarrow> channel) \<Rightarrow> bool" where
  "keeps_channel f \<longleftrightarrow> (\<forall>c. ch_name (f c) = ch_name c \<and> map fst (ch_members (f c)) = map fst (ch_members c))"

lemma has_key_iff: "has_key m k \<longleftrightarrow> k \<in> set (map fst m)"
  by (simp add: map_of_eq_None_iff)

lemma put_user_inv:
  assumes "st_inv D s" "map_of (st_users s) i = Some u"
    "us_id v = us_id u" "us_nick v = us_nick u" "us_channels v = us_channels u"
  shows "st_inv D (s\<lparr>st_users := AList.update i v (st_users s)\<rparr>)"
proof -
  have parts: "users_ok s" "nicks_ok s" "channels_ok s" "memberships_ok D s"
    using assms(1) by (simp_all add: st_inv_def)
  let ?s = "s\<lparr>st_users := AList.update i v (st_users s)\<rparr>"
  have "joined ?s = joined s" "nick_of ?s = nick_of s"
    using assms by (auto simp: joined_def nick_of_def fun_eq_iff)
  then show ?thesis
    using parts assms users_ok_get [OF parts(1) assms(2)]
    by (simp add: st_inv_def users_ok_put nicks_ok_cong [of ?s s] channels_ok_cong [of ?s s] memberships_ok_cong [of ?s s])
qed

lemma user_mut_inv: "st_inv D s \<Longrightarrow> keeps_user f \<Longrightarrow> st_inv D (user_mut i f s)"
  by (auto simp: user_mut_def keeps_user_def split: option.splits intro!: put_user_inv)

lemma put_channel_inv:
  assumes "st_inv D s" "map_of (st_channels s) k = Some c"
    "ch_name d = ch_name c" "map fst (ch_members d) = map fst (ch_members c)"
  shows "st_inv D (s\<lparr>st_channels := AList.update k d (st_channels s)\<rparr>)"
proof -
  have parts: "users_ok s" "nicks_ok s" "channels_ok s" "memberships_ok D s"
    using assms(1) by (simp_all add: st_inv_def)
  let ?s = "s\<lparr>st_channels := AList.update k d (st_channels s)\<rparr>"
  have "has_key (ch_members d) i \<longleftrightarrow> has_key (ch_members c) i" for i
    using assms(4) by (simp only: has_key_iff)
  then have "member_of ?s = member_of s"
    using assms(2) by (auto simp: member_of_update fun_eq_iff) (auto simp: member_of_def)
  moreover have "table_ok (ch_members d)"
    using assms(4) channels_ok_get [OF parts(3) assms(2)] by (simp add: table_ok_def)
  ultimately show ?thesis
    using parts assms channels_ok_get [OF parts(3) assms(2)]
    by (simp add: st_inv_def channels_ok_put nicks_ok_cong [of ?s s] users_ok_cong [of ?s s] memberships_ok_cong [of ?s s])
qed

lemma channel_mut_inv: "st_inv D s \<Longrightarrow> keeps_channel f \<Longrightarrow> st_inv D (channel_mut name f s)"
  by (auto simp: channel_mut_def keeps_channel_def split: option.splits intro!: put_channel_inv)

lemma insert_user_inv:
  assumes "st_ok s" "map_of (st_users s) i = None"
  shows "st_ok (insert_user (user_new i host now) s)"
proof -
  let ?s = "insert_user (user_new i host now) s"
  have parts: "users_ok s" "nicks_ok s" "channels_ok s" "memberships_ok {} s"
    using assms(1) by (simp_all add: st_inv_def)
  have "joined ?s = joined s" "member_of ?s = member_of s"
    using assms(2) by (auto simp: joined_def insert_user_def user_new_def fun_eq_iff)
  moreover have "lower (lit ''*'') = no_nick"
    by (simp add: no_nick_def lit_def lower_def lower_char_def is_ascii_uppercase_def)
  moreover have "nicks_ok ?s"
  proof -
    have nick: "nick_of ?s = (nick_of s)(i := Some (lit ''*''))" "st_nicks ?s = st_nicks s"
      by (auto simp: nick_of_def insert_user_def user_new_def fun_eq_iff)
    have "map_of (st_nicks s) k \<noteq> Some i" for k
      using nicks_ok_owner [OF parts(2), of k i] assms(2) by (auto simp: nick_of_def)
    then show ?thesis
      using parts(2) \<open>lower (lit ''*'') = no_nick\<close> unfolding nicks_ok_def nick by (auto simp: fun_upd_def)
  qed
  moreover have "users_ok ?s" "channels_ok ?s"
    using parts by (simp_all add: insert_user_def user_new_def users_ok_put channels_ok_def)
  ultimately show ?thesis
    using parts by (simp add: st_inv_def memberships_ok_cong [of ?s s])
qed

lemma set_nick_inv:
  assumes "st_ok s" "lower nick \<noteq> no_nick"
  shows "st_ok (snd (set_nick i nick s))"
proof (cases "fst (set_nick i nick s)")
  case True
  have parts: "users_ok s" "nicks_ok s" "channels_ok s" "memberships_ok {} s"
    using assms(1) by (simp_all add: st_inv_def)
  obtain u where u: "map_of (st_users s) i = Some u"
    and free: "map_of (st_nicks s) (lower nick) \<in> {None, Some i}"
    using True by (auto simp: set_nick_def Let_def split: option.splits if_splits)
  let ?s = "s\<lparr>st_nicks := AList.update (lower nick) i (AList.delete (lower (us_nick u)) (st_nicks s)),
              st_users := AList.update i (u\<lparr>us_nick := nick\<rparr>) (st_users s)\<rparr>"
  have s': "snd (set_nick i nick s) = ?s"
    using True u by (auto simp: set_nick_def Let_def split: option.splits if_splits)
  have nick: "nick_of ?s = (nick_of s)(i := Some nick)" "nick_of s i = Some (us_nick u)"
    using u by (auto simp: nick_of_def fun_eq_iff)
  have joined: "joined ?s = joined s" "member_of ?s = member_of s"
    using u by (auto simp: joined_def fun_eq_iff)
  have "nicks_ok ?s"
    unfolding nicks_ok_def
  proof (intro conjI allI impI)
    fix k j assume k: "map_of (st_nicks ?s) k = Some j"
    show "\<exists>n. nick_of ?s j = Some n \<and> lower n = k"
    proof (cases "k = lower nick")
      case False
      then have "map_of (st_nicks s) k = Some j" "k \<noteq> lower (us_nick u)"
        using k by (auto split: if_splits)
      then obtain n where "nick_of s j = Some n" "lower n = k"
        using parts(2) by (auto simp: nicks_ok_def)
      then show ?thesis
        using nick \<open>k \<noteq> lower (us_nick u)\<close> by (cases "j = i") auto
    qed (use k nick in auto)
  next
    fix j n assume j: "nick_of ?s j = Some n"
    show "lower n = no_nick \<or> map_of (st_nicks ?s) (lower n) = Some j"
    proof (cases "j = i")
      case False
      then have old: "nick_of s j = Some n" using j nick by simp
      show ?thesis
      proof (cases "lower n = no_nick")
        case False
        then have reg: "map_of (st_nicks s) (lower n) = Some j"
          using parts(2) old by (auto simp: nicks_ok_def)
        have "lower n \<noteq> lower (us_nick u)"
        proof
          assume eq: "lower n = lower (us_nick u)"
          then have "map_of (st_nicks s) (lower n) = Some i"
            using parts(2) nick(2) False by (metis nicks_ok_def)
          then show False using reg \<open>j \<noteq> i\<close> by simp
        qed
        moreover have "lower n \<noteq> lower nick"
          using reg free \<open>j \<noteq> i\<close> by auto
        ultimately show ?thesis using reg by simp
      qed simp
    qed (use j nick in auto)
  qed (use parts(2) assms(2) in \<open>auto simp: nicks_ok_def\<close>)
  then show ?thesis
    using parts users_ok_get [OF parts(1) u] joined unfolding s'
    by (simp add: st_inv_def memberships_ok_cong [of ?s s] channels_ok_cong [of ?s s]) (simp add: users_ok_def)
next
  case False
  then have "snd (set_nick i nick s) = s"
    by (auto simp: set_nick_def Let_def split: option.splits if_splits)
  then show ?thesis using assms by simp
qed

lemma reap_inv: "st_inv D s \<Longrightarrow> st_inv D (reap_channel k s)"
proof (cases "\<exists>c. map_of (st_channels s) k = Some c \<and> \<not> ch_configured c \<and> ch_members c = []")
  case True
  assume inv: "st_inv D s"
  obtain c where c: "map_of (st_channels s) k = Some c" "\<not> ch_configured c" "ch_members c = []"
    using True by blast
  let ?s = "s\<lparr>st_channels := AList.delete k (st_channels s)\<rparr>"
  have "member_of ?s = member_of s"
    using c by (auto simp: member_of_def fun_eq_iff)
  moreover have "channels_ok ?s"
    using inv by (auto simp: st_inv_def channels_ok_def)
  ultimately show ?thesis
    using inv c
    by (simp add: reap_channel_def st_inv_def nicks_ok_cong [of ?s s] users_ok_cong [of ?s s] memberships_ok_cong [of ?s s])
next
  case False
  assume "st_inv D s"
  then show ?thesis using False by (auto simp: reap_channel_def split: option.splits)
qed

lemma ensure_channel_inv:
  assumes "st_inv D s"
  shows "st_inv D (ensure_channel name rf s)"
proof (cases "has_key (st_channels s) (lower name)")
  case False
  let ?s = "s\<lparr>st_channels := AList.update (lower name) (channel_new name rf) (st_channels s)\<rparr>"
  have "member_of ?s = member_of s"
    using False by (auto simp: member_of_def channel_new_def fun_eq_iff)
  moreover have "channels_ok ?s"
    using assms by (intro channels_ok_put) (simp_all add: st_inv_def channel_new_def)
  ultimately show ?thesis
    using assms False
    by (simp add: ensure_channel_def st_inv_def nicks_ok_cong [of ?s s] users_ok_cong [of ?s s] memberships_ok_cong [of ?s s])
qed (use assms in \<open>simp add: ensure_channel_def\<close>)

lemma join_inv:
  assumes "st_ok s"
  shows "st_ok (snd (st_join i name s))"
proof (cases "fst (st_join i name s)")
  case (Some flags)
  have parts: "users_ok s" "nicks_ok s" "channels_ok s" "memberships_ok {} s"
    using assms by (simp_all add: st_inv_def)
  obtain u c where uc: "map_of (st_users s) i = Some u" "map_of (st_channels s) (lower name) = Some c"
    "\<not> has_key (ch_members c) i"
    using Some by (auto simp: st_join_def Let_def split: option.splits if_splits)
  let ?c = "c\<lparr>ch_members := AList.update i flags (ch_members c)\<rparr>"
  let ?u = "u\<lparr>us_channels := List.insert (lower name) (us_channels u)\<rparr>"
  let ?s = "s\<lparr>st_channels := AList.update (lower name) ?c (st_channels s), st_users := AList.update i ?u (st_users s)\<rparr>"
  have s': "snd (st_join i name s) = ?s"
    using Some uc by (auto simp: st_join_def Let_def)
  have "member_of ?s k j \<longleftrightarrow> member_of s k j \<or> (k = lower name \<and> j = i)" for k j
    using uc by (auto simp: member_of_def)
  moreover have "joined ?s k j \<longleftrightarrow> joined s k j \<or> (k = lower name \<and> j = i)" for k j
    using uc by (auto simp: joined_def)
  ultimately have "memberships_ok {} ?s"
    using parts(4) by (simp add: memberships_ok_def)
  moreover have "nick_of ?s = nick_of s"
    using uc by (auto simp: nick_of_def fun_eq_iff)
  ultimately show ?thesis
    using parts users_ok_get [OF parts(1) uc(1)] channels_ok_get [OF parts(3) uc(2)] unfolding s'
    by (simp add: st_inv_def nicks_ok_cong [of ?s s]) (simp add: users_ok_def channels_ok_def)
next
  case None
  then have "snd (st_join i name s) = s"
    by (auto simp: st_join_def Let_def split: option.splits if_splits)
  then show ?thesis using assms by simp
qed

lemma keys_update_present: "map_of m i = Some v \<Longrightarrow> map fst (AList.update i w m) = map fst m"
  by (induction m) auto

lemma apply_flags_inv: "st_inv D s \<Longrightarrow> st_inv D (snd (apply_intended_flags i name s))"
  by (auto simp: apply_intended_flags_def Let_def keys_update_present split: option.splits intro!: put_channel_inv)

text \<open>Removing a member that no user records any more.\<close>

lemma drop_channel_member:
  assumes "st_inv D s" "map_of (st_channels s) k = Some c" "\<not> joined s k i"
  shows "st_inv (D - {(i, k)}) (s\<lparr>st_channels := AList.update k (c\<lparr>ch_members := AList.delete i (ch_members c)\<rparr>) (st_channels s)\<rparr>)"
proof -
  have parts: "users_ok s" "nicks_ok s" "channels_ok s" "memberships_ok D s"
    using assms(1) by (simp_all add: st_inv_def)
  let ?s = "s\<lparr>st_channels := AList.update k (c\<lparr>ch_members := AList.delete i (ch_members c)\<rparr>) (st_channels s)\<rparr>"
  have "member_of ?s j m \<longleftrightarrow> member_of s j m \<and> (j, m) \<noteq> (k, i)" for j m
    using assms(2) by (auto simp: member_of_def)
  then have "memberships_ok (D - {(i, k)}) ?s"
    using parts(4) assms(3) by (auto simp: memberships_ok_def)
  then show ?thesis
    using parts channels_ok_get [OF parts(3) assms(2)]
    by (simp add: st_inv_def users_ok_cong [of ?s s] nicks_ok_cong [of ?s s] channels_ok_put)
qed

lemma leave_channel_inv:
  assumes "st_ok s" "map_of (st_users s) i = Some u"
  shows "st_inv {(i, k)} (s\<lparr>st_users := AList.update i (u\<lparr>us_channels := removeAll k (us_channels u)\<rparr>) (st_users s)\<rparr>)"
proof -
  have parts: "users_ok s" "nicks_ok s" "channels_ok s" "memberships_ok {} s"
    using assms(1) by (simp_all add: st_inv_def)
  let ?s = "s\<lparr>st_users := AList.update i (u\<lparr>us_channels := removeAll k (us_channels u)\<rparr>) (st_users s)\<rparr>"
  have "joined ?s j m \<longleftrightarrow> joined s j m \<and> (j, m) \<noteq> (k, i)" for j m
    using assms(2) by (auto simp: joined_def)
  then have "memberships_ok {(i, k)} ?s"
    using parts(4) by (auto simp: memberships_ok_def)
  moreover have "nick_of ?s = nick_of s"
    using assms(2) by (auto simp: nick_of_def fun_eq_iff)
  ultimately show ?thesis
    using parts users_ok_get [OF parts(1) assms(2)]
    by (simp add: st_inv_def nicks_ok_cong [of ?s s] channels_ok_cong [of ?s s] users_ok_put distinct_removeAll)
qed

lemma part_inv:
  assumes "st_ok s"
  shows "st_ok (snd (st_part i name s))"
proof (cases "map_of (st_channels s) (lower name)")
  case (Some c)
  let ?k = "lower name"
  let ?drop = "\<lambda>s. s\<lparr>st_channels := AList.update ?k (c\<lparr>ch_members := AList.delete i (ch_members c)\<rparr>) (st_channels s)\<rparr>"
  show ?thesis
  proof (cases "map_of (st_users s) i")
    case None
    then have "st_ok (?drop s)"
      using drop_channel_member [OF assms Some, of i] by (simp add: joined_def)
    then show ?thesis
      using Some None by (simp add: st_part_def Let_def user_mut_def reap_inv)
  next
    case u: (Some u)
    let ?s = "s\<lparr>st_users := AList.update i (u\<lparr>us_channels := removeAll ?k (us_channels u)\<rparr>) (st_users s)\<rparr>"
    have "st_ok (?drop ?s)"
      using drop_channel_member [OF leave_channel_inv [OF assms u, of ?k], of ?k c i] Some by (simp add: joined_def)
    moreover have "snd (st_part i name s) = reap_channel ?k (?drop ?s)"
      using Some u by (cases s) (simp add: st_part_def Let_def user_mut_def)
    ultimately show ?thesis by (simp only: reap_inv)
  qed
qed (use assms in \<open>simp add: st_part_def\<close>)

lemma reap_users [simp]: "st_users (reap_channel k s) = st_users s"
  by (simp add: reap_channel_def split: option.splits)

lemma drop_member_inv:
  assumes "st_inv ({i} \<times> K) (snd ns)" "map_of (st_users (snd ns)) i = None"
  shows "st_inv ({i} \<times> (K - {k})) (snd (drop_member i k ns)) \<and> map_of (st_users (snd (drop_member i k ns))) i = None"
proof -
  obtain names s where ns: "ns = (names, s)" by (cases ns)
  have inv: "st_inv ({i} \<times> K) s" and gone: "map_of (st_users s) i = None"
    using assms ns by simp_all
  show ?thesis
  proof (cases "map_of (st_channels s) k")
    case (Some c)
    let ?s = "s\<lparr>st_channels := AList.update k (c\<lparr>ch_members := AList.delete i (ch_members c)\<rparr>) (st_channels s)\<rparr>"
    have "\<not> joined s k i" using gone by (simp add: joined_def)
    from drop_channel_member [OF inv Some this] have "st_inv ({i} \<times> (K - {k})) ?s"
      by (simp add: Sigma_Diff_distrib2)
    then have "st_inv ({i} \<times> (K - {k})) (reap_channel k ?s)" by (rule reap_inv)
    then show ?thesis using gone Some by (simp add: ns drop_member_def)
  next
    case None
    then have "st_inv ({i} \<times> (K - {k})) s"
      using inv by (auto simp: st_inv_def memberships_ok_def member_of_def)
    then have "st_inv ({i} \<times> (K - {k})) (reap_channel k s)" by (rule reap_inv)
    then show ?thesis using gone None by (simp add: ns drop_member_def)
  qed
qed

lemma drop_members_inv:
  "st_inv ({i} \<times> K) (snd ns) \<Longrightarrow> map_of (st_users (snd ns)) i = None \<Longrightarrow>
     st_inv ({i} \<times> (K - set ks)) (snd (fold (drop_member i) ks ns))
     \<and> map_of (st_users (snd (fold (drop_member i) ks ns))) i = None"
proof (induction ks arbitrary: ns K)
  case (Cons k ks)
  have "K - set (k # ks) = K - {k} - set ks" by auto
  then show ?case
    using Cons.IH [of "K - {k}" "drop_member i k ns"] drop_member_inv [OF Cons.prems, of k] by simp
qed simp

lemma forget_user_inv:
  assumes "st_ok s" "map_of (st_users s) i = Some u"
  shows "st_inv ({i} \<times> set (us_channels u)) (s\<lparr>st_users := AList.delete i (st_users s),
      st_nicks := AList.delete (lower (us_nick u)) (st_nicks s)\<rparr>)"
proof -
  have parts: "users_ok s" "nicks_ok s" "channels_ok s" "memberships_ok {} s"
    using assms(1) by (simp_all add: st_inv_def)
  let ?s = "s\<lparr>st_users := AList.delete i (st_users s), st_nicks := AList.delete (lower (us_nick u)) (st_nicks s)\<rparr>"
  have "joined ?s k j \<longleftrightarrow> joined s k j \<and> j \<noteq> i" for k j
    by (auto simp: joined_def)
  moreover have "joined s k i \<longleftrightarrow> k \<in> set (us_channels u)" for k
    using assms(2) by (simp add: joined_def)
  ultimately have "memberships_ok ({i} \<times> set (us_channels u)) ?s"
    using parts(4) by (auto simp: memberships_ok_def) blast
  moreover have "nicks_ok ?s"
  proof -
    have nick: "nick_of ?s = (nick_of s)(i := None)" "nick_of s i = Some (us_nick u)"
      using assms(2) by (auto simp: nick_of_def fun_eq_iff)
    have "\<exists>n. nick_of ?s j = Some n \<and> lower n = k" if k: "map_of (st_nicks ?s) k = Some j" for k j
    proof -
      have "map_of (st_nicks s) k = Some j" "k \<noteq> lower (us_nick u)" using k by (auto split: if_splits)
      moreover obtain n where "nick_of s j = Some n" "lower n = k"
        using nicks_ok_owner [OF parts(2) calculation(1)] by blast
      ultimately show ?thesis using nick by auto
    qed
    moreover have "lower n = no_nick \<or> map_of (st_nicks ?s) (lower n) = Some j" if j: "nick_of ?s j = Some n" for j n
    proof -
      have old: "nick_of s j = Some n" "j \<noteq> i" using j nick by (auto split: if_splits)
      have "lower n = no_nick \<or> lower n \<noteq> lower (us_nick u)"
        using nicks_ok_registered [OF parts(2) old(1)] nicks_ok_registered [OF parts(2) nick(2)] old(2) by auto
      then show ?thesis
        using nicks_ok_registered [OF parts(2) old(1)] by auto
    qed
    ultimately show ?thesis using parts(2) by (auto simp: nicks_ok_def)
  qed
  ultimately show ?thesis
    using parts by (simp add: st_inv_def channels_ok_cong [of ?s s]) (simp add: users_ok_def)
qed

lemma remove_user_inv:
  assumes "st_ok s"
  shows "st_ok (snd (remove_user i s)) \<and> map_of (st_users (snd (remove_user i s))) i = None"
proof (cases "map_of (st_users s) i")
  case (Some u)
  let ?s = "s\<lparr>st_users := AList.delete i (st_users s), st_nicks := AList.delete (lower (us_nick u)) (st_nicks s)\<rparr>"
  show ?thesis
    using drop_members_inv [of i "set (us_channels u)" "([], ?s)" "us_channels u"] forget_user_inv [OF assms Some] Some
    by (simp add: remove_user_def)
qed (use assms in \<open>simp add: remove_user_def\<close>)

section \<open>Runs\<close>

text \<open>
  The operations of the server on its state. A user is created where its identity is new (a connection
  number is used once, and a station's user is created only when it has none).
\<close>

datatype state_op =
    Connect user_id ustr nat
  | SetNick user_id ustr
  | EnsureChannel ustr bool
  | JoinChannel user_id ustr
  | IntendedFlags user_id ustr
  | PartChannel user_id ustr
  | RemoveUser user_id
  | UserMut user_id "user \<Rightarrow> user"
  | ChannelMut ustr "channel \<Rightarrow> channel"

fun state_step :: "state_op \<Rightarrow> irc_state \<Rightarrow> irc_state" where
  "state_step (Connect i host now) s =
     (if has_key (st_users s) i then s else insert_user (user_new i host now) s)"
| "state_step (SetNick i nick) s = snd (set_nick i nick s)"
| "state_step (EnsureChannel name rf) s = ensure_channel name rf s"
| "state_step (JoinChannel i name) s = snd (st_join i name s)"
| "state_step (IntendedFlags i name) s = snd (apply_intended_flags i name s)"
| "state_step (PartChannel i name) s = snd (st_part i name s)"
| "state_step (RemoveUser i) s = snd (remove_user i s)"
| "state_step (UserMut i f) s = user_mut i f s"
| "state_step (ChannelMut name f) s = channel_mut name f s"

text \<open>
  What callers respect: nobody claims \<open>*\<close> (\<open>is_valid_nick\<close> refuses it, and no callsign maps to it), and the
  updates in place leave identities, nicknames and memberships to the operations above.
\<close>

definition op_ok :: "state_op \<Rightarrow> bool" where
  "op_ok x = (case x of SetNick i nick \<Rightarrow> lower nick \<noteq> no_nick | UserMut i f \<Rightarrow> keeps_user f
     | ChannelMut name f \<Rightarrow> keeps_channel f | _ \<Rightarrow> True)"

lemma state_step_ok: "st_ok s \<Longrightarrow> op_ok x \<Longrightarrow> st_ok (state_step x s)"
  by (cases x) (auto simp: op_ok_def insert_user_inv set_nick_inv ensure_channel_inv join_inv apply_flags_inv part_inv
      remove_user_inv user_mut_inv channel_mut_inv)

interpretation state_machine: invariant_machine "\<lambda>x s. if op_ok x then state_step x s else s" st_ok
  by unfold_locales (simp add: state_step_ok)

lemma state_run_ok:
  assumes "list_all op_ok ops"
  shows "st_ok (fold state_step ops irc_state_default)"
proof -
  have "fold (\<lambda>x s. if op_ok x then state_step x s else s) ops s = fold state_step ops s" for s
    using assms by (induction ops arbitrary: s) simp_all
  then show ?thesis using state_machine.run_inv [OF st_default_ok, of ops] by simp
qed

text \<open>C22: After any run of the server's operations on its state, the registry of nicknames and the users agree in
  both directions, a membership is recorded by the channel exactly when it is recorded by the user, every channel is
  filed under its folded name, and nothing is recorded twice.\<close>

theorem state_invariant:
  assumes "list_all op_ok ops"
  shows "st_ok (fold state_step ops irc_state_default)"
  by (rule state_run_ok [OF assms])

definition sample_ops :: "state_op list" where
  "sample_ops = [Connect (IpUser 1) (lit ''h'') 0, SetNick (IpUser 1) (lit ''Alice''), EnsureChannel (lit ''#a'') False,
     JoinChannel (IpUser 1) (lit ''#a'')]"

lemma sample_ops_ok: "list_all op_ok sample_ops"
  by (simp add: sample_ops_def op_ok_def lit_def no_nick_def lower_def lower_char_def is_ascii_uppercase_def to_lower_def)

theorem state_invariant_witness: "st_ok (fold state_step sample_ops irc_state_default)"
  by (rule state_invariant [OF sample_ops_ok])

section \<open>Nicknames\<close>

lemma by_nick_iff:
  assumes "st_ok s" "lower nick \<noteq> no_nick"
  shows "by_nick s nick = Some u \<longleftrightarrow> map_of (st_users s) (us_id u) = Some u \<and> lower (us_nick u) = lower nick"
proof
  have parts: "users_ok s" "nicks_ok s" using assms(1) by (simp_all add: st_inv_def)
  assume "by_nick s nick = Some u"
  then obtain i where i: "map_of (st_nicks s) (lower nick) = Some i" "map_of (st_users s) i = Some u"
    by (auto simp: by_nick_def split: bind_splits)
  then show "map_of (st_users s) (us_id u) = Some u \<and> lower (us_nick u) = lower nick"
    using users_ok_get [OF parts(1) i(2)] nicks_ok_owner [OF parts(2) i(1)] by (auto simp: nick_of_def)
next
  have parts: "nicks_ok s" using assms(1) by (simp add: st_inv_def)
  assume u: "map_of (st_users s) (us_id u) = Some u \<and> lower (us_nick u) = lower nick"
  then have "map_of (st_nicks s) (lower nick) = Some (us_id u)"
    using nicks_ok_registered [OF parts, of "us_id u" "us_nick u"] assms(2) by (simp add: nick_of_def)
  then show "by_nick s nick = Some u" using u by (simp add: by_nick_def)
qed

lemma set_nick_succeeds:
  assumes "st_ok s" "lower nick \<noteq> no_nick"
  shows "fst (set_nick i nick s) \<longleftrightarrow>
     has_key (st_users s) i \<and> (case by_nick s nick of Some u \<Rightarrow> us_id u = i | None \<Rightarrow> True)"
proof -
  have parts: "users_ok s" "nicks_ok s" using assms(1) by (simp_all add: st_inv_def)
  show ?thesis
  proof (cases "map_of (st_nicks s) (lower nick)")
    case (Some j)
    then obtain u where "map_of (st_users s) j = Some u"
      using nicks_ok_owner [OF parts(2)] by (auto simp: nick_of_def)
    then show ?thesis
      using Some users_ok_get [OF parts(1)] by (auto simp: set_nick_def by_nick_def Let_def split: option.splits)
  qed (auto simp: set_nick_def by_nick_def Let_def split: option.splits)
qed

text \<open>A nickname has one owner, under the IRC casemapping. After any run, looking a nickname up finds exactly
  the user that bears it, two users never bear nicknames that fold together, and claiming one succeeds exactly when
  the user exists and the nickname is free or already its own, after which the lookup finds that user.\<close>

theorem nickname_has_one_owner:
  assumes "list_all op_ok ops" and "s = fold state_step ops irc_state_default" and "lower nick \<noteq> no_nick"
  shows "(by_nick s nick = Some u \<longleftrightarrow> map_of (st_users s) (us_id u) = Some u \<and> lower (us_nick u) = lower nick)
    \<and> (by_nick s nick = Some u \<longrightarrow> map_of (st_users s) j = Some v \<longrightarrow> lower (us_nick v) = lower nick \<longrightarrow> j = us_id u)
    \<and> (fst (set_nick i nick s) \<longleftrightarrow>
         has_key (st_users s) i \<and> (case by_nick s nick of Some w \<Rightarrow> us_id w = i | None \<Rightarrow> True))
    \<and> (fst (set_nick i nick s) \<longrightarrow> map_option us_id (by_nick (snd (set_nick i nick s)) nick) = Some i)"
proof -
  have ok: "st_ok s"
    using state_run_ok [OF assms(1)] assms(2) by simp
  have "map_option us_id (by_nick (snd (set_nick i nick s)) nick) = Some i" if claimed: "fst (set_nick i nick s)"
  proof -
    obtain v where "map_of (st_users s) i = Some v" "us_id v = i"
      using claimed ok by (auto simp: set_nick_succeeds [OF ok assms(3)] st_inv_def users_ok_def)
    then show ?thesis
      using claimed by (auto simp: set_nick_def by_nick_def Let_def split: if_splits option.splits)
  qed
  moreover have "j = us_id u" if "by_nick s nick = Some u" "map_of (st_users s) j = Some v" "lower (us_nick v) = lower nick"
  proof -
    have "us_id v = j" using that(2) ok by (simp add: st_inv_def users_ok_def)
    then have "by_nick s nick = Some v"
      using that by (simp add: by_nick_iff [OF ok assms(3)])
    then show ?thesis using that(1) \<open>us_id v = j\<close> by simp
  qed
  ultimately show ?thesis
    using by_nick_iff [OF ok assms(3), of u] set_nick_succeeds [OF ok assms(3), of i] by auto
qed

theorem nickname_has_one_owner_witness:
  "fst (set_nick (IpUser 1) (lit ''bob'') (fold state_step sample_ops irc_state_default))"
proof -
  have lower: "lower (lit ''bob'') \<noteq> no_nick"
    by (simp add: lit_def no_nick_def lower_def lower_char_def is_ascii_uppercase_def)
  have "fold state_step sample_ops irc_state_default = fold state_step sample_ops irc_state_default" ..
  from nickname_has_one_owner [OF sample_ops_ok this lower, of _ _ _ "IpUser 1"] show ?thesis
    by (simp add: sample_ops_def irc_state_default_def insert_user_def user_new_def set_nick_def ensure_channel_def
        st_join_def by_nick_def Let_def lit_def lower_def lower_char_def is_ascii_uppercase_def to_lower_def
        channel_new_def flags_for_parts_def)
qed

section \<open>Removal\<close>

lemma reap_members: "member_of (reap_channel k s) = member_of s"
  by (auto simp: reap_channel_def member_of_def fun_eq_iff split: option.splits)

lemma drop_member_members:
  "member_of (snd (drop_member i k ns)) j m \<longleftrightarrow> member_of (snd ns) j m \<and> (j, m) \<noteq> (k, i)"
  by (cases ns) (auto simp: drop_member_def reap_members split: option.splits, auto simp: member_of_def split: if_splits)

lemma drop_members_others:
  "m \<noteq> i \<Longrightarrow> member_of (snd (fold (drop_member i) ks ns)) j m \<longleftrightarrow> member_of (snd ns) j m"
  by (induction ks arbitrary: ns) (auto simp: drop_member_members)

lemma drop_member_users [simp]:
  "st_users (snd (drop_member i k ns)) = st_users (snd ns)"
  by (cases ns) (auto simp: drop_member_def split: option.splits)

lemma drop_members_users: "st_users (snd (fold (drop_member i) ks ns)) = st_users (snd ns)"
  by (induction ks arbitrary: ns) simp_all

text \<open>Removing a user leaves no trace of it: it is gone from the users, from the registry and from every channel;
  and it leaves everything else alone: every other user is as it was, and a member of the same channels.\<close>

theorem removal_leaves_no_trace:
  assumes "list_all op_ok ops" and "s = fold state_step ops irc_state_default" and "s' = snd (remove_user i s)"
  shows "map_of (st_users s') i = None \<and> map_of (st_nicks s') k \<noteq> Some i \<and> \<not> member_of s' k i
    \<and> (j \<noteq> i \<longrightarrow> map_of (st_users s') j = map_of (st_users s) j \<and> (member_of s' k j \<longleftrightarrow> member_of s k j))"
proof -
  have ok: "st_ok s" using state_run_ok [OF assms(1)] assms(2) by simp
  have ok': "st_ok s'" and gone: "map_of (st_users s') i = None"
    using remove_user_inv [OF ok, of i] assms(3) by simp_all
  have "map_of (st_nicks s') k \<noteq> Some i"
    using ok' gone nicks_ok_owner [of s' k i] by (auto simp: st_inv_def nick_of_def)
  moreover have "\<not> member_of s' k i"
  proof
    assume "member_of s' k i"
    then have "joined s' k i" using ok' by (simp add: st_inv_def memberships_ok_def)
    then show False using gone by (simp add: joined_def)
  qed
  moreover have "map_of (st_users s') j = map_of (st_users s) j \<and> (member_of s' k j \<longleftrightarrow> member_of s k j)" if "j \<noteq> i"
    using that assms(3) by (simp add: remove_user_def drop_members_users drop_members_others split: option.splits)
  ultimately show ?thesis using gone by blast
qed

theorem removal_leaves_no_trace_witness:
  "map_of (st_nicks (snd (remove_user (IpUser 1) (fold state_step sample_ops irc_state_default)))) (lit ''alice'')
     \<noteq> Some (IpUser 1)"
  using removal_leaves_no_trace [OF sample_ops_ok refl refl] by blast

end
