(* ===== verification/Aprs.thy ===== *)
theory Aprs
  imports Irc_Message
begin

text \<open>
  \<open>src/src/aprs.rs\<close>: the APRS codec. Messages (addressee, text, message ID) both ways, position and status
  beacons on reception only. The theory proves the round trip of the messages the gateway sends and that
  an acknowledgement names the message it answers.

  Idealisation. A compressed position is computed in \<open>f64\<close>; here it is a rational, rounded to hundredths.
\<close>

section \<open>Messages\<close>

definition ax25_destination :: callsign where
  "ax25_destination = Callsign (lit ''APRS'') 0"

datatype aprs_kind = AprsMsg | AprsAck | AprsReject

record aprs_message =
  ap_addressee :: ustr
  ap_body :: ustr
  ap_msgid :: "ustr option"
  ap_kind :: aprs_kind

definition trim_trailing_crlf :: "byte list \<Rightarrow> byte list" where
  "trim_trailing_crlf bs = rev (dropWhile (\<lambda>b. b = 13 \<or> b = 10 \<or> b = 0) (rev bs))"

definition msgid_ok :: "ustr \<Rightarrow> bool" where
  "msgid_ok s \<longleftrightarrow> 1 \<le> str_len s \<and> str_len s \<le> 5 \<and> list_all is_ascii_alphanumeric s"

text \<open>\<open>rfind\<close>: the last occurrence.\<close>

definition rsplit_once :: "nat \<Rightarrow> ustr \<Rightarrow> (ustr \<times> ustr) option" where
  "rsplit_once c s = (case split_once c (rev s) of Some (a, b) \<Rightarrow> Some (rev b, rev a) | None \<Rightarrow> None)"

definition split_msgid :: "ustr \<Rightarrow> ustr \<times> ustr option" where
  "split_msgid body =
     (case rsplit_once 123 body of
        Some (front, rest0) \<Rightarrow>
          (let rest = (case strip_suffix1 125 rest0 of Some r \<Rightarrow> r | None \<Rightarrow> rest0)
           in if msgid_ok rest then (front, Some rest) else (body, None))
      | None \<Rightarrow> (body, None))"

definition aprs_classify :: "ustr \<Rightarrow> aprs_kind" where
  "aprs_classify s =
     (let t = trim s in
      if (case strip_prefix (lit ''ack'') t of Some i \<Rightarrow> msgid_ok i | None \<Rightarrow> False) then AprsAck
      else if (case strip_prefix (lit ''rej'') t of Some i \<Rightarrow> msgid_ok i | None \<Rightarrow> False) then AprsReject
      else AprsMsg)"

definition addr_byte_ok :: "byte \<Rightarrow> bool" where
  "addr_byte_ok b \<longleftrightarrow> is_ascii_alphanumeric (unat b) \<or> b = 45 \<or> b = 32"

definition split_addressee :: "byte list \<Rightarrow> (byte list \<times> byte list) option" where
  "split_addressee rest =
     (if 10 \<le> length rest \<and> rest ! 9 = 58 then Some (take 9 rest, drop 10 rest)
      else (case position (\<lambda>b. b = 58) rest of
              None \<Rightarrow> None
            | Some colon \<Rightarrow> if colon = 0 \<or> 9 < colon then None else Some (take colon rest, drop (colon + 1) rest)))"

definition aprs_decode :: "byte list \<Rightarrow> aprs_message option" where
  "aprs_decode info0 =
     (case trim_trailing_crlf info0 of
        [] \<Rightarrow> None
      | b # rest \<Rightarrow>
          if b \<noteq> 58 then None
          else (case split_addressee rest of
                  None \<Rightarrow> None
                | Some (addr, body) \<Rightarrow>
                    if \<not> list_all addr_byte_ok addr then None
                    else (case from_utf8 addr of
                            None \<Rightarrow> None
                          | Some s \<Rightarrow>
                              (let addressee = to_ascii_uppercase (trim s) in
                               if addressee = [] then None
                               else (let (text1, msgid) = split_msgid (trim_end (from_utf8_lossy body))
                                     in Some \<lparr>ap_addressee = addressee, ap_body = text1, ap_msgid = msgid,
                                              ap_kind = aprs_classify text1\<rparr>)))))"

text \<open>\<open>truncate(9)\<close> counts octets; the addressees the gateway writes are ASCII.\<close>

definition pad9 :: "ustr \<Rightarrow> ustr" where
  "pad9 s = take 9 s @ replicate (9 - length (take 9 s)) 32"

definition aprs_encode :: "aprs_message \<Rightarrow> byte list" where
  "aprs_encode m =
     as_bytes ([58] @ pad9 (ap_addressee m) @ [58] @ ap_body m
       @ (case ap_msgid m of Some i \<Rightarrow> [123] @ i | None \<Rightarrow> []))"

definition addressed_to :: "aprs_message \<Rightarrow> callsign \<Rightarrow> bool" where
  "addressed_to m gateway =
     (case callsign_from_str (ap_addressee m) of
        Inl _ \<Rightarrow> False
      | Inr dest \<Rightarrow> dest = gateway \<or> (call_ssid dest = 0 \<and> same_station dest gateway))"

definition is_ack_or_rej :: "aprs_message \<Rightarrow> bool" where
  "is_ack_or_rej m \<longleftrightarrow> ap_kind m = AprsAck \<or> ap_kind m = AprsReject"

definition APRS_TEXT_MAX :: nat where "APRS_TEXT_MAX = 67"

definition ack_info :: "callsign \<Rightarrow> ustr \<Rightarrow> byte list" where
  "ack_info dest msgid =
     aprs_encode \<lparr>ap_addressee = callsign_to_string dest, ap_body = lit ''ack'' @ msgid, ap_msgid = None, ap_kind = AprsAck\<rparr>"

definition rej_info :: "callsign \<Rightarrow> ustr \<Rightarrow> byte list" where
  "rej_info dest msgid =
     aprs_encode \<lparr>ap_addressee = callsign_to_string dest, ap_body = lit ''rej'' @ msgid, ap_msgid = None, ap_kind = AprsReject\<rparr>"

definition reply_info :: "callsign \<Rightarrow> ustr \<Rightarrow> byte list" where
  "reply_info dest s =
     aprs_encode \<lparr>ap_addressee = callsign_to_string dest, ap_body = take APRS_TEXT_MAX s, ap_msgid = None, ap_kind = AprsMsg\<rparr>"

definition message_info :: "callsign \<Rightarrow> ustr \<Rightarrow> ustr \<Rightarrow> byte list" where
  "message_info dest s msgid =
     aprs_encode \<lparr>ap_addressee = callsign_to_string dest, ap_body = take APRS_TEXT_MAX s, ap_msgid = Some msgid,
       ap_kind = AprsMsg\<rparr>"

definition checked_id :: "ustr option \<Rightarrow> ustr option" where
  "checked_id o1 = (case o1 of Some i \<Rightarrow> if msgid_ok i then Some i else None | None \<Rightarrow> None)"

definition control_msgid :: "aprs_message \<Rightarrow> ustr option" where
  "control_msgid m =
     (let t = trim (ap_body m) in
      case ap_kind m of
        AprsAck \<Rightarrow> checked_id (strip_prefix (lit ''ack'') t)
      | AprsReject \<Rightarrow> checked_id (strip_prefix (lit ''rej'') t)
      | AprsMsg \<Rightarrow> None)"

definition split_channel_line :: "ustr \<Rightarrow> ustr \<Rightarrow> (ustr \<times> ustr) option" where
  "split_channel_line s0 default_channel =
     (let s = trim s0;
          fallback = (if is_channel_name default_channel then Some (default_channel, s) else None)
      in if s = [] then None
         else (case split_once 32 s of
                 Some (first, rest) \<Rightarrow>
                   if is_channel_name first
                   then (let r = trim rest in if r = [] then None else Some (first, r))
                   else fallback
               | None \<Rightarrow> if is_channel_name s then None else fallback))"

definition eq_ignore_ascii_case :: "ustr \<Rightarrow> ustr \<Rightarrow> bool" where
  "eq_ignore_ascii_case a b \<longleftrightarrow> to_ascii_uppercase a = to_ascii_uppercase b"

definition is_help :: "ustr \<Rightarrow> bool" where
  "is_help s =
     (let t = trim s in t = [] \<or> t = lit ''?'' \<or> eq_ignore_ascii_case t (lit ''help'') \<or> eq_ignore_ascii_case t (lit ''h''))"

section \<open>Beacons\<close>

definition printable_comment :: "byte list \<Rightarrow> ustr" where
  "printable_comment raw = trim (map unat (filter (\<lambda>b. 0x20 \<le> b \<and> b \<le> 0x7E) raw))"

definition with_comment :: "ustr \<Rightarrow> ustr \<Rightarrow> ustr" where
  "with_comment pos comment = (if comment = [] then pos else pos @ lit '' - '' @ comment)"

definition status_text :: "byte list \<Rightarrow> ustr" where
  "status_text body =
     printable_comment
       (if 8 \<le> length body \<and> (body ! 6 = 122 \<or> body ! 6 = 104 \<or> body ! 6 = 47) then drop 7 body else body)"

definition uncompressed_lat :: "byte list \<Rightarrow> bool" where
  "uncompressed_lat rest \<longleftrightarrow>
     8 \<le> length rest \<and> list_all (\<lambda>b. is_ascii_digit (unat b)) (take 4 rest) \<and> rest ! 4 = 46
     \<and> list_all (\<lambda>b. is_ascii_digit (unat b)) (take 2 (drop 5 rest))
     \<and> rest ! 7 \<in> {78, 83, 110, 115}"

definition format_uncomp_coord :: "ustr \<Rightarrow> nat \<Rightarrow> ustr option" where
  "format_uncomp_coord raw deg_len =
     (if \<not> list_all (\<lambda>c. c < 128) raw then None
      else if raw = [] then None
      else (let hemi = last raw; body = butlast raw
            in if length body < deg_len + 3 then None
               else Some (take deg_len body @ [0xB0] @ drop deg_len body @ [hemi])))"

definition decode_uncompressed :: "byte list \<Rightarrow> ustr option" where
  "decode_uncompressed rest =
     (if length rest < 19 then None
      else (case (from_utf8 (take 8 rest), from_utf8 (take 9 (drop 9 rest))) of
              (Some lat0, Some lon0) \<Rightarrow>
                if rest ! 8 \<noteq> 47 \<and> rest ! 8 \<noteq> 92 then None
                else if str_len lon0 \<noteq> 9 \<or> as_bytes lon0 ! 8 \<notin> {69, 87, 101, 119} then None
                else (case (format_uncomp_coord lat0 2, format_uncomp_coord lon0 3) of
                        (Some lat, Some lon) \<Rightarrow>
                          Some (with_comment (lat @ [32] @ lon) (printable_comment (drop 19 rest)))
                      | _ \<Rightarrow> None)
            | _ \<Rightarrow> None))"

text \<open>Base 91; four digits are below \<open>91 ^ 4\<close>, which fits in 32 bits, so the checked arithmetic never fails.\<close>

definition base91 :: "byte list \<Rightarrow> nat option" where
  "base91 s =
     (if length s \<noteq> 4 \<or> \<not> list_all (\<lambda>c. 33 \<le> c \<and> c \<le> 124) s then None
      else Some (foldl (\<lambda>n c. n * 91 + (unat c - 33)) 0 s))"

definition show_hundredths :: "nat \<Rightarrow> ustr" where
  "show_hundredths n =
     show_nat (n div 100) @ [46] @ show_nat (n div 10 mod 10) @ show_nat (n mod 10)"

definition hundredths :: "rat \<Rightarrow> nat" where
  "hundredths x = nat \<lfloor>\<bar>x\<bar> * 100 + 1 / 2\<rfloor>"

definition format_decimal :: "rat \<Rightarrow> rat \<Rightarrow> ustr" where
  "format_decimal lat lon =
     show_hundredths (hundredths lat) @ [0xB0, if 0 \<le> lat then 78 else 83, 32]
     @ show_hundredths (hundredths lon) @ [0xB0, if 0 \<le> lon then 69 else 87]"

definition decode_compressed :: "byte list \<Rightarrow> ustr option" where
  "decode_compressed rest =
     (if length rest < 10 then None
      else if rest ! 0 \<noteq> 47 \<and> rest ! 0 \<noteq> 92 then None
      else (case (base91 (take 4 (drop 1 rest)), base91 (take 4 (drop 5 rest))) of
              (Some y, Some x) \<Rightarrow>
                Some (with_comment (format_decimal (90 - of_nat y / 380926) (of_nat x / 190463 - 180))
                  (printable_comment (drop 10 rest)))
            | _ \<Rightarrow> None))"

definition decode_position :: "byte list \<Rightarrow> ustr option" where
  "decode_position rest = (if uncompressed_lat rest then decode_uncompressed rest else decode_compressed rest)"

definition some_ne :: "ustr \<Rightarrow> ustr option" where
  "some_ne s = (if s = [] then None else Some s)"

definition beacon_decode :: "byte list \<Rightarrow> ustr option" where
  "beacon_decode info0 =
     (case trim_trailing_crlf info0 of
        [] \<Rightarrow> None
      | dtype # body \<Rightarrow>
          if dtype = 62 then some_ne (status_text body)
          else if dtype \<in> {33, 61, 47, 64, 95} then
            (let rest = (if dtype \<in> {47, 64} \<and> 8 < length (dtype # body) then drop 8 (dtype # body) else body)
             in case decode_position rest of
                  Some s \<Rightarrow> Some s
                | None \<Rightarrow> some_ne (printable_comment rest))
          else None)"

definition mice_digit :: "byte \<Rightarrow> (nat \<times> bool) option" where
  "mice_digit c =
     (if 48 \<le> c \<and> c \<le> 57 then Some (unat c - 48, False)
      else if 65 \<le> c \<and> c \<le> 74 then Some (unat c - 65, True)
      else if 80 \<le> c \<and> c \<le> 89 then Some (unat c - 80, True)
      else if c = 75 \<or> c = 90 then Some (0, True)
      else if c = 76 then Some (0, False)
      else None)"

definition mice_lat :: "nat list \<Rightarrow> bool \<Rightarrow> ustr" where
  "mice_lat d north =
     show_nat (d ! 0) @ show_nat (d ! 1) @ [0xB0] @ show_nat (d ! 2) @ show_nat (d ! 3) @ [46]
     @ show_nat (d ! 4) @ show_nat (d ! 5) @ [if north then 78 else 83]"

definition zero_pad :: "nat \<Rightarrow> nat \<Rightarrow> ustr" where
  "zero_pad w n = replicate (w - length (show_nat n)) 48 @ show_nat n"

definition mice_degrees :: "byte \<Rightarrow> bool \<Rightarrow> int" where
  "mice_degrees b offset =
     (let deg = int (unat b) - 28 + (if offset then 100 else 0)
      in if 180 \<le> deg \<and> deg \<le> 189 then deg - 80
         else if 190 \<le> deg \<and> deg \<le> 199 then deg - 190
         else deg)"

definition mice_minutes :: "byte \<Rightarrow> int" where
  "mice_minutes b = (let m = int (unat b) - 28 in if 60 \<le> m then m - 60 else m)"

definition mice_lon :: "byte list \<Rightarrow> bool \<Rightarrow> bool \<Rightarrow> ustr option" where
  "mice_lon bs offset west =
     (let deg = mice_degrees (bs ! 1) offset; mins = mice_minutes (bs ! 2); hund = int (unat (bs ! 3)) - 28
      in if 0 \<le> deg \<and> deg \<le> 179 \<and> 0 \<le> mins \<and> mins \<le> 59 \<and> 0 \<le> hund \<and> hund \<le> 99
         then Some (zero_pad 3 (nat deg) @ [0xB0] @ zero_pad 2 (nat mins) @ [46] @ zero_pad 2 (nat hund)
                @ [if west then 87 else 69])
         else None)"

definition mice_dest :: "ustr \<Rightarrow> byte list" where
  "mice_dest base =
     (let bs = filter (\<lambda>b. b \<noteq> 32) (as_bytes base) in take 6 (bs @ replicate 6 32))"

definition mice_digits :: "byte list \<Rightarrow> (nat \<times> bool) list option" where
  "mice_digits bs =
     (let ds = map mice_digit bs in if None \<in> set ds then None else Some (map the ds))"

definition decode_mice_frame :: "ustr \<Rightarrow> byte list \<Rightarrow> ustr option" where
  "decode_mice_frame base info0 =
     (let bs = trim_trailing_crlf info0 in
      if length bs < 8 \<or> (bs ! 0 \<noteq> 96 \<and> bs ! 0 \<noteq> 39) then None
      else (case mice_digits (mice_dest base) of
              None \<Rightarrow> None
            | Some ds \<Rightarrow>
                (case mice_lon bs (snd (ds ! 4)) (snd (ds ! 5)) of
                   None \<Rightarrow> None
                 | Some lon \<Rightarrow>
                     Some (with_comment (mice_lat (map fst ds) (snd (ds ! 3)) @ [32] @ lon)
                       (printable_comment (drop 8 bs))))))"

definition decode_beacon :: "callsign \<Rightarrow> byte list \<Rightarrow> ustr option" where
  "decode_beacon dest info0 =
     (let bs = trim_trailing_crlf info0 in
      case bs of
        [] \<Rightarrow> beacon_decode bs
      | b # _ \<Rightarrow> if b = 96 \<or> b = 39 then decode_mice_frame (call_base dest) bs else beacon_decode bs)"

end
