(* ===== verification/Config.thy ===== *)
theory Config
  imports Policy Irc_Message Aprs Ip_Addr Tnc
begin

text \<open>
  \<open>src/src/config.rs\<close>: the parsed configuration and what \<open>validate\<close> refuses. The sections are records with the
  fields of the structs, the serde defaults are the default records, and every \<open>bail!\<close> is a constructor
  of \<open>config_error\<close> with the values its message reports.

  TOML parsing (serde) is not modelled. What \<open>validate\<close> asks of other code is a record of functions,
  \<open>config_env\<close>: whether the TLS files load (rustls), whether a string is an Argon2 hash string (the argon2
  crate), and what a file holds.
\<close>

section \<open>The sections\<close>

record server_config =
  sv_name :: ustr
  sv_network :: ustr
  sv_motd :: "ustr list"
  sv_max_nick_len :: nat
  sv_max_channels_per_user :: nat
  sv_password :: "ustr option"

record tls_listen_config =
  tl_bind :: "ustr list"
  tl_cert :: ustr
  tl_key :: ustr

record listen_config =
  li_bind :: "ustr list"
  li_tls :: "tls_listen_config option"
  li_ping_interval_secs :: nat
  li_registration_timeout_secs :: nat
  li_max_conns_per_host :: nat
  li_max_clients :: nat

definition listen_config_default :: listen_config where
  "listen_config_default =
     \<lparr>li_bind = [lit ''127.0.0.1:6667''], li_tls = None, li_ping_interval_secs = 120,
      li_registration_timeout_secs = 60, li_max_conns_per_host = 8, li_max_clients = 256\<rparr>"

record interlock_config =
  il_command :: ustr
  il_args :: "ustr list"
  il_interval_secs :: nat
  il_timeout_secs :: nat

record duty_config =
  du_enabled :: bool
  du_baud :: nat
  du_txdelay_ms :: nat
  du_txtail_ms :: nat
  du_window_secs :: nat
  du_max_duty_percent :: nat
  du_max_continuous_secs :: nat
  du_cooldown_secs :: nat
  du_hourly_airtime_secs :: nat
  du_max_hold_secs :: nat
  du_allow_nonstandard_baud :: bool

definition duty_config_default :: duty_config where
  "duty_config_default =
     \<lparr>du_enabled = True, du_baud = 300, du_txdelay_ms = 400, du_txtail_ms = 300, du_window_secs = 600,
      du_max_duty_percent = 25, du_max_continuous_secs = 30, du_cooldown_secs = 60, du_hourly_airtime_secs = 900,
      du_max_hold_secs = 120, du_allow_nonstandard_baud = False\<rparr>"

definition to_airtime :: "duty_config \<Rightarrow> airtime_config" where
  "to_airtime d =
     \<lparr>at_enabled = du_enabled d, at_baud = max (du_baud d) 1, at_txdelay = from_millis (du_txdelay_ms d),
      at_txtail = from_millis (du_txtail_ms d), at_window = from_secs (max (du_window_secs d) 1),
      at_max_duty = of_nat (min (du_max_duty_percent d) 100) / 100,
      at_max_continuous = from_secs (max (du_max_continuous_secs d) 1), at_cooldown = from_secs (du_cooldown_secs d),
      at_hourly_budget = from_secs (du_hourly_airtime_secs d), at_max_hold = from_secs (max (du_max_hold_secs d) 1),
      at_stuffing = 105 / 100\<rparr>"

datatype rf_mode = RfAirc | RfAprs

definition is_airc :: "rf_mode \<Rightarrow> bool" where
  "is_airc m \<longleftrightarrow> m = RfAirc"

definition is_aprs :: "rf_mode \<Rightarrow> bool" where
  "is_aprs m \<longleftrightarrow> m = RfAprs"

record tnc_section =
  ts_kind :: ustr
  ts_host :: ustr
  ts_port :: nat
  ts_device :: ustr
  ts_baud :: nat
  ts_kiss_port :: byte
  ts_tx_pacing_ms :: nat
  ts_persistence :: "byte option"
  ts_slottime :: "byte option"
  ts_direwolf_conf :: "ustr option"
  ts_txdelay :: "byte option"
  ts_txtail :: "byte option"

definition tnc_section_default :: tnc_section where
  "tnc_section_default =
     \<lparr>ts_kind = lit ''tcp'', ts_host = lit ''127.0.0.1'', ts_port = 8001, ts_device = [], ts_baud = 9600,
      ts_kiss_port = 0, ts_tx_pacing_ms = 1500, ts_persistence = None, ts_slottime = None, ts_direwolf_conf = None,
      ts_txdelay = None, ts_txtail = None\<rparr>"

record radio_config =
  rc_enabled :: bool
  rc_callsign :: ustr
  rc_destination :: ustr
  rc_path :: "ustr list"
  rc_tnc :: tnc_section
  rc_id_interval_secs :: nat
  rc_id_text :: ustr
  rc_paclen :: nat
  rc_ack_timeout_secs :: nat
  rc_max_retries :: nat
  rc_peer_idle_timeout_secs :: nat
  rc_max_peers :: nat
  rc_presence_notices :: bool
  rc_mailbox_enabled :: bool
  rc_mailbox_per_station :: nat
  rc_mailbox_total :: nat
  rc_mailbox_ttl_secs :: nat
  rc_mailbox_flush_batch :: nat
  rc_repeat_rf_traffic :: bool
  rc_notice_air_relay :: bool
  rc_max_queued_airtime_secs :: nat
  rc_rf_names_max :: nat
  rc_aprs :: bool
  rc_aprs_channel :: ustr
  rc_rf_mode :: rf_mode
  rc_interlock :: "interlock_config option"
  rc_duty :: duty_config

definition radio_config_default :: radio_config where
  "radio_config_default =
     \<lparr>rc_enabled = False, rc_callsign = [], rc_destination = lit ''AIRC'', rc_path = [], rc_tnc = tnc_section_default,
      rc_id_interval_secs = 540, rc_id_text = lit ''RFIRC gateway'', rc_paclen = 128, rc_ack_timeout_secs = 12,
      rc_max_retries = 3, rc_peer_idle_timeout_secs = 1800, rc_max_peers = 256, rc_presence_notices = False,
      rc_mailbox_enabled = True, rc_mailbox_per_station = 10, rc_mailbox_total = 200,
      rc_mailbox_ttl_secs = 24 * 3600, rc_mailbox_flush_batch = 1, rc_repeat_rf_traffic = False,
      rc_notice_air_relay = True, rc_max_queued_airtime_secs = 60, rc_rf_names_max = 8, rc_aprs = True,
      rc_aprs_channel = [], rc_rf_mode = RfAirc, rc_interlock = None, rc_duty = duty_config_default\<rparr>"

record channel_config =
  cc_name :: ustr
  cc_topic :: ustr
  cc_rf :: bool
  cc_operators :: "ustr list"

record oper_config =
  op_name :: ustr
  op_password :: ustr

record logging_config =
  lg_file :: "ustr option"
  lg_audit_file :: "ustr option"

record accounts_config =
  ac_file :: ustr
  ac_identify_timeout_secs :: nat
  ac_min_password_len :: nat

definition accounts_config_default :: accounts_config where
  "accounts_config_default =
     \<lparr>ac_file = lit ''nicks.json'', ac_identify_timeout_secs = 60, ac_min_password_len = 8\<rparr>"

record config =
  cf_server :: server_config
  cf_listen :: listen_config
  cf_radio :: radio_config
  cf_policy :: policy_config
  cf_channels :: "channel_config list"
  cf_opers :: "oper_config list"
  cf_logging :: logging_config
  cf_accounts :: accounts_config

text \<open>A file with nothing but a server name.\<close>

definition config_named :: "ustr \<Rightarrow> config" where
  "config_named name =
     \<lparr>cf_server = \<lparr>sv_name = name, sv_network = lit ''RFIRC'', sv_motd = [], sv_max_nick_len = 30,
                   sv_max_channels_per_user = 20, sv_password = None\<rparr>,
      cf_listen = listen_config_default, cf_radio = radio_config_default, cf_policy = policy_config_default,
      cf_channels = [], cf_opers = [], cf_logging = \<lparr>lg_file = None, lg_audit_file = None\<rparr>,
      cf_accounts = accounts_config_default\<rparr>"

section \<open>What the rest of the program asks of it\<close>

definition parse_ok :: "ustr \<Rightarrow> callsign option" where
  "parse_ok s = (case callsign_from_str s of Inr c \<Rightarrow> Some c | Inl _ \<Rightarrow> None)"

definition aprs_listen_channel :: "config \<Rightarrow> ustr option" where
  "aprs_listen_channel cf =
     (if rc_aprs_channel (cf_radio cf) \<noteq> [] then Some (rc_aprs_channel (cf_radio cf))
      else map_option cc_name (find cc_rf (cf_channels cf)))"

definition gateway_callsign :: "config \<Rightarrow> callsign option" where
  "gateway_callsign cf = parse_ok (rc_callsign (cf_radio cf))"

definition rf_path :: "config \<Rightarrow> callsign list" where
  "rf_path cf = List.map_filter parse_ok (rc_path (cf_radio cf))"

definition id_interval :: "config \<Rightarrow> duration" where
  "id_interval cf = from_secs (rc_id_interval_secs (cf_radio cf))"

definition listen_addresses :: "config \<Rightarrow> ustr list" where
  "listen_addresses cf =
     li_bind (cf_listen cf) @ (case li_tls (cf_listen cf) of Some t \<Rightarrow> tl_bind t | None \<Rightarrow> [])"

definition tnc_config_of :: "config \<Rightarrow> tnc_link \<Rightarrow> tnc_config" where
  "tnc_config_of cf link =
     (let r = cf_radio cf; section = rc_tnc r
      in tnc_from_config (rc_paclen r) (ts_kiss_port section) (ts_tx_pacing_ms section) (ts_persistence section)
           (ts_slottime section) (to_airtime (rc_duty r)) link)"

section \<open>Refusals\<close>

datatype direwolf_error =
    DwUnreadable ustr
  | DwNoModem ustr
  | DwBaud nat nat
  | DwTxdelay nat nat
  | DwTxtail nat nat

datatype config_error =
    CeMoved ustr nat
  | CeServerName
  | CePingInterval
  | CeRegistrationTimeout
  | CeIdentifyTimeout
  | CeOperNameEmpty
  | CeOperNameTwice ustr
  | CeMaxNickLen
  | CeMaxChannels
  | CeMinPasswordLen
  | CeMaxRfTextLen
  | CePlainPasswords nat
  | CeTlsBind
  | CeTlsPaths
  | CeTlsFiles
  | CeChannelName ustr
  | CeSameChannel ustr ustr
  | CeCallsign callsign_error
  | CeDestination callsign_error
  | CePathEntry ustr callsign_error
  | CePathLength
  | CeIdInterval
  | CePaclen
  | CeMaxPeers
  | CeMaxRfFragments
  | CeMaxQueuedAirtime
  | CeInterlockCommand
  | CeInterlockZero
  | CeInterlockOverlap nat nat
  | CeNoRfChannel
  | CeAprsChannelName ustr
  | CeAprsChannelLocal ustr
  | CeDutyOff
  | CeDutyPercent nat
  | CeDutyWindow
  | CeDutyRun
  | CeBaudZero
  | CeBaud nat
  | CePacing
  | CeKissUnits ustr nat
  | CeHardware duration duration
  | CeFrameOverDuty duration duration nat
  | CeFrameOverRun duration nat
  | CeFrameOverHour
  | CeDirewolf direwolf_error
  | CePolicyCallsign ustr callsign_error

text \<open>\<open>bail!\<close> under a condition, and the first check that refuses.\<close>

definition bail :: "bool \<Rightarrow> 'e \<Rightarrow> 'e option" where
  "bail b e = (if b then Some e else None)"

fun first_error :: "'e option list \<Rightarrow> 'e option" where
  "first_error [] = None"
| "first_error (None # r) = first_error r"
| "first_error (Some e # r) = Some e"

record config_env =
  ce_tls :: "ustr \<Rightarrow> ustr \<Rightarrow> bool"
  ce_phc :: "ustr \<Rightarrow> bool"
  ce_read :: "ustr \<Rightarrow> ustr option"

end
