(* ===== verification/Mailbox.thy ===== *)
theory Mailbox
  imports Callsign
begin

text \<open>
  \<open>src/src/server/mailbox.rs\<close>: store-and-forward for stations out of range. The map of queues is refined
  to the mail each station has waiting, a function from callsigns to lists; the limits and the absence of
  empty queues are an invariant. \<open>held_mail\<close> is the interface delivery relies on: look first, drop
  after, so that what leaves a station's queue is what was handed over, in order.
\<close>

section \<open>The mailbox\<close>

record stored_message =
  sm_from :: ustr
  sm_body :: ustr
  sm_notice :: bool
  sm_truncated :: bool
  stored_at :: nat

definition mail_age :: "stored_message \<Rightarrow> nat \<Rightarrow> duration" where
  "mail_age m now = now - stored_at m"

datatype store_error = Disabled | StationFull | GatewayFull

record mailbox =
  mb_enabled :: bool
  per_station :: nat
  mb_total :: nat
  mb_ttl :: duration
  boxes :: "(callsign, stored_message list) table"

definition mailbox_new :: "bool \<Rightarrow> nat \<Rightarrow> nat \<Rightarrow> duration \<Rightarrow> mailbox" where
  "mailbox_new en per cap ttl =
     \<lparr>mb_enabled = en, per_station = per, mb_total = cap, mb_ttl = ttl, boxes = []\<rparr>"

definition mail_len :: "mailbox \<Rightarrow> nat" where
  "mail_len m = sum_list (map (\<lambda>(_, q). length q) (boxes m))"

definition mail_is_empty :: "mailbox \<Rightarrow> bool" where
  "mail_is_empty m \<longleftrightarrow> mail_len m = 0"

text \<open>\<open>entry(to).or_default()\<close> puts an empty queue in the map before the limit of the station is tested.\<close>

definition mail_store :: "callsign \<Rightarrow> stored_message \<Rightarrow> mailbox \<Rightarrow> (store_error + nat) \<times> mailbox" where
  "mail_store to msg m =
     (if \<not> mb_enabled m \<or> per_station m = 0 then (Inl Disabled, m)
      else if mb_total m \<le> mail_len m then (Inl GatewayFull, m)
      else (let q = (case map_of (boxes m) to of Some q \<Rightarrow> q | None \<Rightarrow> [])
            in if per_station m \<le> length q
               then (Inl StationFull, m\<lparr>boxes := AList.update to q (boxes m)\<rparr>)
               else (Inr (Suc (length q)), m\<lparr>boxes := AList.update to (q @ [msg]) (boxes m)\<rparr>)))"

definition mail_peek :: "callsign \<Rightarrow> mailbox \<Rightarrow> stored_message option" where
  "mail_peek call m =
     (case map_of (boxes m) call of Some (x # _) \<Rightarrow> Some x | _ \<Rightarrow> None)"

definition mail_drop_front :: "callsign \<Rightarrow> mailbox \<Rightarrow> stored_message option \<times> mailbox" where
  "mail_drop_front call m =
     (case map_of (boxes m) call of
        None \<Rightarrow> (None, m)
      | Some q \<Rightarrow>
          (let msg = (case q of [] \<Rightarrow> None | x # _ \<Rightarrow> Some x);
               q' = tl q
           in (msg, m\<lparr>boxes := (if q' = [] then AList.delete call (boxes m) else AList.update call q' (boxes m))\<rparr>)))"

definition mail_depth :: "callsign \<Rightarrow> mailbox \<Rightarrow> nat" where
  "mail_depth call m = (case map_of (boxes m) call of Some q \<Rightarrow> length q | None \<Rightarrow> 0)"

definition mail_summary :: "mailbox \<Rightarrow> (callsign \<times> nat) list" where
  "mail_summary m =
     sort_key fst (map (\<lambda>(c, q). (c, length q)) (filter (\<lambda>(_, q). q \<noteq> []) (boxes m)))"

definition mail_expire :: "nat \<Rightarrow> mailbox \<Rightarrow> nat \<times> mailbox" where
  "mail_expire now m =
     (let kept = map (\<lambda>(c, q). (c, filter (\<lambda>x. mail_age x now < mb_ttl m) q)) (boxes m);
          dropped = sum_list (map (\<lambda>(_, q). length q - length (filter (\<lambda>x. mail_age x now < mb_ttl m) q)) (boxes m))
      in (dropped, m\<lparr>boxes := filter (\<lambda>(_, q). q \<noteq> []) kept\<rparr>))"

section \<open>What a mailbox holds\<close>

definition held :: "mailbox \<Rightarrow> callsign \<Rightarrow> stored_message list" where
  "held m c = (case map_of (boxes m) c of Some q \<Rightarrow> q | None \<Rightarrow> [])"

definition mailbox_ok :: "mailbox \<Rightarrow> bool" where
  "mailbox_ok m \<longleftrightarrow> table_ok (boxes m) \<and> mail_len m \<le> mb_total m
     \<and> (\<forall>c q. map_of (boxes m) c = Some q \<longrightarrow> q \<noteq> [] \<and> length q \<le> per_station m)"

lemma mailbox_okD:
  assumes "mailbox_ok m"
  shows "table_ok (boxes m)" "mail_len m \<le> mb_total m"
    "\<And>c q. map_of (boxes m) c = Some q \<Longrightarrow> q \<noteq> [] \<and> length q \<le> per_station m"
  using assms by (auto simp: mailbox_ok_def)

lemma held_update: "held (m\<lparr>boxes := AList.update c q (boxes m)\<rparr>) = (held m)(c := q)"
  by (auto simp: held_def fun_eq_iff)

lemma held_delete: "held (m\<lparr>boxes := AList.delete c (boxes m)\<rparr>) = (held m)(c := [])"
  by (auto simp: held_def fun_eq_iff)

lemma sum_list_update:
  assumes "table_ok b"
  shows "sum_list (map (\<lambda>(_, q). length q) (AList.update c q b)) + length (case map_of b c of Some p \<Rightarrow> p | None \<Rightarrow> [])
     = sum_list (map (\<lambda>(_, q). length q) b) + length q"
  using assms
proof (induction b)
  case (Cons x b)
  then show ?case
    by (cases x; cases "fst x = c") (auto simp: table_ok_def map_of_eq_None_iff split: option.splits)
qed simp

lemma mail_len_update:
  "table_ok (boxes m) \<Longrightarrow>
     mail_len (m\<lparr>boxes := AList.update c q (boxes m)\<rparr>) + length (held m c) = mail_len m + length q"
  using sum_list_update [of "boxes m" c q] by (simp add: mail_len_def held_def)

lemma sum_list_delete_le: "sum_list (map (\<lambda>(_, q). length q) (AList.delete c b)) \<le> sum_list (map (\<lambda>(_, q). length q) b)"
  by (induction b) auto

lemma mail_new_ok: "mailbox_ok (mailbox_new en per cap ttl)"
  by (simp add: mailbox_ok_def mailbox_new_def mail_len_def)

lemma mail_store_ok:
  assumes "mailbox_ok m"
  shows "mailbox_ok (snd (mail_store c x m))"
proof -
  note ok = mailbox_okD [OF assms]
  have q: "held m c = [] \<or> length (held m c) \<le> per_station m"
    using ok(3) [of c] by (auto simp: held_def split: option.splits)
  have stored: "mailbox_ok (m\<lparr>boxes := AList.update c (held m c @ [x]) (boxes m)\<rparr>)"
    if "mail_len m < mb_total m" "length (held m c) < per_station m"
    using ok that mail_len_update [OF ok(1), of c "held m c @ [x]"] by (auto simp: mailbox_ok_def)
  have full: "mailbox_ok (m\<lparr>boxes := AList.update c (held m c) (boxes m)\<rparr>)"
    if "per_station m \<le> length (held m c)" "per_station m \<noteq> 0"
    using ok that q mail_len_update [OF ok(1), of c "held m c"] by (auto simp: mailbox_ok_def)
  show ?thesis
    using assms stored full by (auto simp: mail_store_def Let_def not_le simp flip: held_def)
qed

lemma mail_drop_ok:
  assumes "mailbox_ok m"
  shows "mailbox_ok (snd (mail_drop_front c m))"
proof (cases "map_of (boxes m) c")
  case (Some q)
  note ok = mailbox_okD [OF assms]
  have "mail_len (m\<lparr>boxes := AList.delete c (boxes m)\<rparr>) \<le> mail_len m"
    using sum_list_delete_le by (simp add: mail_len_def)
  moreover have "mail_len (m\<lparr>boxes := AList.update c (tl q) (boxes m)\<rparr>) \<le> mail_len m"
    using mail_len_update [OF ok(1), of c "tl q"] Some by (simp add: held_def)
  ultimately show ?thesis
    using ok Some by (auto simp: mail_drop_front_def Let_def mailbox_ok_def intro: le_trans [OF diff_le_self])
qed (use assms in \<open>simp add: mail_drop_front_def\<close>)

lemma map_of_expired:
  "table_ok b \<Longrightarrow>
     map_of (filter (\<lambda>(_, q). q \<noteq> []) (map (\<lambda>(c, q). (c, f q)) b)) c =
       (case map_of b c of None \<Rightarrow> None | Some q \<Rightarrow> if f q = [] then None else Some (f q))"
proof (induction b)
  case (Cons x b)
  obtain d q where x: "x = (d, q)" by force
  have "map_of b d = None" "table_ok b"
    using Cons.prems x by (auto simp: table_ok_def map_of_eq_None_iff)
  then show ?case using Cons.IH x by auto
qed simp

lemma mail_expire_ok:
  assumes "mailbox_ok m"
  shows "mailbox_ok (snd (mail_expire now m))"
proof -
  note ok = mailbox_okD [OF assms]
  let ?f = "filter (\<lambda>x. mail_age x now < mb_ttl m)"
  have "sum_list (map (\<lambda>(_, q). length q) (filter (\<lambda>(_, q). q \<noteq> []) (map (\<lambda>(c, q). (c, ?f q)) b)))
      \<le> sum_list (map (\<lambda>(_, q). length q) b)" for b :: "(callsign, stored_message list) table"
    by (induction b) (auto intro: add_mono length_filter_le trans_le_add2)
  moreover have "table_ok (map (\<lambda>(c, q). (c, ?f q)) (boxes m))"
    using ok(1) by (simp add: table_ok_def comp_def case_prod_unfold)
  ultimately show ?thesis
    using ok by (auto simp: mail_expire_def mailbox_ok_def mail_len_def map_of_expired
        split: option.splits if_splits intro: le_trans [OF length_filter_le] le_trans)
qed

section \<open>The specification: mail as a function\<close>

text \<open>
  What the mailbox promises, said without the table: every station has a list of messages, oldest first.
  Storing appends, dropping removes the oldest, expiry keeps the young ones.
\<close>

type_synonym mail = "callsign \<Rightarrow> stored_message list"

datatype mail_op = Store callsign stored_message | DropFront callsign | MailExpire nat

fun mail_step :: "mail_op \<Rightarrow> mailbox \<Rightarrow> mailbox" where
  "mail_step (Store c x) m = snd (mail_store c x m)"
| "mail_step (DropFront c) m = snd (mail_drop_front c m)"
| "mail_step (MailExpire t) m = snd (mail_expire t m)"

definition may_store :: "mailbox \<Rightarrow> callsign \<Rightarrow> bool" where
  "may_store m c \<longleftrightarrow> mb_enabled m \<and> mail_len m < mb_total m \<and> length (held m c) < per_station m"

fun spec_step :: "mail_op \<Rightarrow> bool \<Rightarrow> duration \<Rightarrow> mail \<Rightarrow> mail" where
  "spec_step (Store c x) room ttl h = (if room then h(c := h c @ [x]) else h)"
| "spec_step (DropFront c) room ttl h = h(c := tl (h c))"
| "spec_step (MailExpire t) room ttl h = (\<lambda>c. filter (\<lambda>x. mail_age x t < ttl) (h c))"

lemma held_store:
  "held (snd (mail_store c x m)) = (if may_store m c then (held m)(c := held m c @ [x]) else held m)"
  by (auto simp: mail_store_def may_store_def Let_def held_update not_less not_le fun_upd_triv simp flip: held_def)

lemma held_drop: "held (snd (mail_drop_front c m)) = (held m)(c := tl (held m c))"
proof (cases "map_of (boxes m) c")
  case (Some q)
  then have "held m c = q" by (simp add: held_def)
  then show ?thesis
    using Some by (auto simp: mail_drop_front_def Let_def held_update held_delete)
qed (auto simp: mail_drop_front_def held_def fun_eq_iff)

lemma held_expire:
  "table_ok (boxes m) \<Longrightarrow> held (snd (mail_expire t m)) = (\<lambda>c. filter (\<lambda>x. mail_age x t < mb_ttl m) (held m c))"
  by (auto simp: held_def mail_expire_def map_of_expired fun_eq_iff split: option.splits)

lemma peek_held: "mail_peek c m = (case held m c of [] \<Rightarrow> None | x # _ \<Rightarrow> Some x)"
  by (auto simp: mail_peek_def held_def split: option.splits)

lemma depth_held: "mail_depth c m = length (held m c)"
  by (simp add: mail_depth_def held_def split: option.splits)

lemma drop_front_held: "fst (mail_drop_front c m) = (case held m c of [] \<Rightarrow> None | x # _ \<Rightarrow> Some x)"
  by (auto simp: mail_drop_front_def held_def Let_def split: option.splits)

lemma mail_step_ok: "mailbox_ok m \<Longrightarrow> mailbox_ok (mail_step op m)"
  by (cases op) (simp_all add: mail_store_ok mail_drop_ok mail_expire_ok)

lemma mail_step_fields [simp]:
  "mb_enabled (mail_step op m) = mb_enabled m" "per_station (mail_step op m) = per_station m"
  "mb_total (mail_step op m) = mb_total m" "mb_ttl (mail_step op m) = mb_ttl m"
  by (cases op; simp add: mail_store_def mail_drop_front_def mail_expire_def Let_def split: option.splits)+

interpretation mail_machine: invariant_machine mail_step mailbox_ok
  by unfold_locales (rule mail_step_ok)

text \<open>C20: The mailbox implements its specification. After any run of operations from an empty mailbox,
  one more operation changes the mail every station has waiting exactly as the specification says, a
  message being stored when the mailbox is enabled and neither the station's limit nor the total is
  reached; what is looked at and what is dropped is the station's oldest message, and the depth is the
  number it has waiting.\<close>

theorem mailbox_refines:
  assumes "m = fold mail_step ops (mailbox_new en per cap ttl)"
  shows "held (mail_step op m) = spec_step op (case op of Store c x \<Rightarrow> may_store m c | _ \<Rightarrow> True) (mb_ttl m) (held m)
    \<and> mail_peek c m = (if held m c = [] then None else Some (hd (held m c)))
    \<and> fst (mail_drop_front c m) = mail_peek c m \<and> mail_depth c m = length (held m c)"
proof -
  have "table_ok (boxes m)"
    unfolding assms using mail_machine.run_inv [OF mail_new_ok] by (rule mailbox_okD)
  then have "held (mail_step op m) = spec_step op (case op of Store c x \<Rightarrow> may_store m c | _ \<Rightarrow> True) (mb_ttl m) (held m)"
    by (cases op) (simp_all add: held_store held_drop held_expire)
  then show ?thesis
    by (simp add: peek_held drop_front_held depth_held split: list.split)
qed

theorem mailbox_refines_witness:
  "held (mail_step (DropFront (Callsign (lit ''K1ABC'') 0)) (mailbox_new True 1 1 9)) (Callsign (lit ''K1ABC'') 0) = []"
  using mailbox_refines [OF refl, of "DropFront (Callsign (lit ''K1ABC'') 0)" "[]" True 1 1 9]
  by (simp add: mailbox_new_def held_def)

text \<open>After any run of operations the mailbox holds at most its total, no station has more than its
  share, and no station has an empty queue in the table.\<close>

theorem mailbox_bounded: "mailbox_ok (fold mail_step ops (mailbox_new en per cap ttl))"
  by (rule mail_machine.run_inv) (rule mail_new_ok)

section \<open>Delivery\<close>

text \<open>
  The interface of delivery. \<open>waiting s\<close> is what is waiting, \<open>look\<close> shows the oldest, \<open>drop\<close> removes it, and \<open>offer\<close>
  hands one message to a consumer, which may refuse it; \<open>taken s\<close> is what the consumer holds, in its own form
  (\<open>enc\<close>). A loop that looks, offers, and drops only what was taken, up to a number of times, hands over a
  prefix of what was waiting, in order, and leaves the rest. \<open>good\<close> is what the consumer needs of its state.
\<close>

locale held_mail =
  fixes good :: "'s \<Rightarrow> bool"
    and look :: "'s \<Rightarrow> 'm option"
    and drop1 :: "'s \<Rightarrow> 's"
    and waiting :: "'s \<Rightarrow> 'm list"
    and offer :: "'m \<Rightarrow> 's \<Rightarrow> bool \<times> 's"
    and taken :: "'s \<Rightarrow> 't list"
    and enc :: "'m \<Rightarrow> 't"
  assumes look_waiting: "look s = (case waiting s of [] \<Rightarrow> None | x # _ \<Rightarrow> Some x)"
    and drop_waiting: "waiting (drop1 s) = tl (waiting s)"
    and drop_taken: "taken (drop1 s) = taken s"
    and drop_good: "good s \<Longrightarrow> good (drop1 s)"
    and offer_waiting: "waiting (snd (offer x s)) = waiting s"
    and offer_taken: "good s \<Longrightarrow> taken (snd (offer x s)) = taken s @ (if fst (offer x s) then [enc x] else [])"
    and offer_good: "good s \<Longrightarrow> fst (offer x s) \<Longrightarrow> good (snd (offer x s))"
begin

fun deliver_batch :: "nat \<Rightarrow> 's \<Rightarrow> 's" where
  "deliver_batch 0 s = s"
| "deliver_batch (Suc n) s =
     (case look s of
        None \<Rightarrow> s
      | Some x \<Rightarrow> (case offer x s of (True, s') \<Rightarrow> deliver_batch n (drop1 s') | (False, s') \<Rightarrow> s'))"

lemma look_None: "waiting s = [] \<Longrightarrow> look s = None"
  by (simp add: look_waiting)

lemma look_Some: "waiting s = x # xs \<Longrightarrow> look s = Some x"
  by (simp add: look_waiting)

lemma batch_conserves:
  "good s \<Longrightarrow>
    \<exists>k \<le> n. waiting (deliver_batch n s) = drop k (waiting s) \<and>
            taken (deliver_batch n s) = taken s @ map enc (take k (waiting s))"
proof (induction n arbitrary: s)
  case (Suc n)
  show ?case
  proof (cases "waiting s")
    case Nil
    then show ?thesis using Suc.prems by (intro exI [of _ 0]) (simp add: look_None)
  next
    case (Cons x xs)
    obtain ok s' where o: "offer x s = (ok, s')" by fastforce
    note step = offer_waiting [of x s] offer_taken [OF Suc.prems, of x] offer_good [OF Suc.prems, of x]
    show ?thesis
    proof (cases ok)
      case False
      then show ?thesis using look_Some [OF Cons] o step by (intro exI [of _ 0]) simp
    next
      case True
      then have s': "waiting (drop1 s') = xs" "taken (drop1 s') = taken s @ [enc x]" "good (drop1 s')"
        using o step Cons by (simp_all add: drop_waiting drop_taken drop_good)
      obtain k where k: "k \<le> n" "waiting (deliver_batch n (drop1 s')) = drop k xs"
        "taken (deliver_batch n (drop1 s')) = taken s @ [enc x] @ map enc (take k xs)"
        using Suc.IH [OF s'(3)] unfolding s' by auto
      then show ?thesis
        using look_Some [OF Cons] o True Cons by (intro exI [of _ "Suc k"]) simp
    qed
  qed
qed (intro exI [of _ 0], simp)

end

end
