(* ===== verification/Radio.thy ===== *)
theory Radio
  imports Config Mailbox Airc_Session
begin

text \<open>
  \<open>src/src/server/radio.rs\<close>: putting something on the air. The station's transmit side decides whether a frame
  is handed to the link task: admission against the backlog in seconds of key-down time, the room in
  the frame queues, the operator's switch and the safety interlock, identification, and the stop-and-wait
  of APRS chat.

  The handle of the link task is the link task's own record (\<open>Tnc\<close>), with the configuration it was started with;
  what the task does between two calls is another change of that record. Each method reads the clock
  once here, as the argument \<open>now\<close>, and the iteration order of a \<open>HashMap\<close> is the order of the table.
\<close>

section \<open>What a frame is for\<close>

datatype radio_class = TxAck | TxControl | TxDirect | TxChat

definition class_allowance :: "radio_class \<Rightarrow> rat" where
  "class_allowance c = (case c of TxAck \<Rightarrow> 1 | TxControl \<Rightarrow> 85 / 100 | TxDirect \<Rightarrow> 7 / 10 | TxChat \<Rightarrow> 1 / 2)"

definition scheduler_class :: "radio_class \<Rightarrow> tx_class" where
  "scheduler_class c = (case c of TxAck \<Rightarrow> CAck | TxControl \<Rightarrow> CControl | TxDirect \<Rightarrow> CDirect | TxChat \<Rightarrow> CChat)"

section \<open>State\<close>

record aprs_in_flight =
  fl_msgid :: ustr
  fl_info :: "byte list"
  fl_class :: radio_class
  fl_attempts :: nat
  fl_next_retry :: instant

record aprs_queued =
  aq_text :: ustr
  aq_class :: radio_class

record aprs_outbound =
  next_id :: "32 word"
  ao_pending :: "(callsign, aprs_in_flight) table"
  ao_waiting :: "(callsign, aprs_queued list) table"

definition aprs_outbound_default :: aprs_outbound where
  "aprs_outbound_default = \<lparr>next_id = 0, ao_pending = [], ao_waiting = []\<rparr>"

record stats =
  rf_frames_rx :: nat
  rf_frames_tx :: nat
  rf_frames_dropped :: nat
  rf_frames_refused :: nat
  rf_bytes_tx :: nat
  ip_connections :: nat

definition stats_default :: stats where
  "stats_default =
     \<lparr>rf_frames_rx = 0, rf_frames_tx = 0, rf_frames_dropped = 0, rf_frames_refused = 0, rf_bytes_tx = 0,
      ip_connections = 0\<rparr>"

record radio =
  rd_config :: config
  rd_tnc :: "(tnc_config \<times> tnc) option"
  rd_source :: "callsign option"
  rd_path :: "callsign list"
  rd_sessions :: sessions
  rd_mailbox :: mailbox
  rd_stats :: stats
  rd_enabled :: bool
  rd_last_id :: "instant option"
  rd_transmitted_since_id :: bool
  rd_msgid :: "(callsign \<times> ustr, instant) table"
  rd_beacon :: "(callsign \<times> ustr, instant) table"
  rd_aprs_out :: aprs_outbound

datatype identify_result = IdSent | IdRateLimited | IdNotQueued

definition APRS_MSGID_TTL :: duration where "APRS_MSGID_TTL = from_secs (30 * 60)"
definition APRS_MSGID_MAX :: nat where "APRS_MSGID_MAX = 256"
definition APRS_BEACON_TTL :: duration where "APRS_BEACON_TTL = from_secs 90"
definition APRS_BEACON_MAX :: nat where "APRS_BEACON_MAX = 256"

definition radio_new :: "config \<Rightarrow> (tnc_config \<times> tnc) option \<Rightarrow> radio" where
  "radio_new cf tnc =
     (let r = cf_radio cf in
      \<lparr>rd_config = cf, rd_tnc = tnc, rd_source = gateway_callsign cf, rd_path = rf_path cf,
       rd_sessions = sessions_new (session_config_default\<lparr>
         paclen := rc_paclen r, ack_timeout := from_secs (rc_ack_timeout_secs r), max_retries := rc_max_retries r,
         peer_idle_timeout := from_secs (rc_peer_idle_timeout_secs r), max_peers := rc_max_peers r\<rparr>),
       rd_mailbox = mailbox_new (rc_mailbox_enabled r) (rc_mailbox_per_station r) (rc_mailbox_total r)
         (from_secs (rc_mailbox_ttl_secs r)),
       rd_stats = stats_default, rd_enabled = (rc_enabled r \<and> tnc \<noteq> None), rd_last_id = None,
       rd_transmitted_since_id = False, rd_msgid = [], rd_beacon = [], rd_aprs_out = aprs_outbound_default\<rparr>)"

section \<open>Small queries\<close>

definition radio_airtime :: "radio \<Rightarrow> airtime_shared option" where
  "radio_airtime r = map_option (\<lambda>(_, t). tn_shared t) (rd_tnc r)"

definition set_tx_inhibit :: "bool \<Rightarrow> radio \<Rightarrow> radio" where
  "set_tx_inhibit b r = r\<lparr>rd_tnc := map_option (\<lambda>(tc, t). (tc, set_inhibit b t)) (rd_tnc r)\<rparr>"

definition peers_heard :: "radio \<Rightarrow> nat" where
  "peers_heard r = length (ss_peers (rd_sessions r))"

definition radio_max_payload :: "radio \<Rightarrow> nat" where
  "radio_max_payload r = max_payload (ss_config (rd_sessions r))"

definition available :: "radio \<Rightarrow> bool" where
  "available r \<longleftrightarrow> rd_enabled r \<and> rd_tnc r \<noteq> None"

definition interlock_down :: "radio \<Rightarrow> bool" where
  "interlock_down r \<longleftrightarrow> (case radio_airtime r of Some a \<Rightarrow> interlock_failed a | None \<Rightarrow> False)"

definition wire_octets :: "radio \<Rightarrow> nat \<Rightarrow> nat" where
  "wire_octets r n =
     (let per_frame = HEADER_LEN + 7 * (2 + length (rc_path (cf_radio (rd_config r)))) + 4;
          mx = radio_max_payload r;
          fragments = max ((n + mx - 1) div mx) 1
      in n + fragments * per_frame)"

definition backlog_budget :: "radio \<Rightarrow> duration" where
  "backlog_budget r = from_secs (rc_max_queued_airtime_secs (cf_radio (rd_config r)))"

definition backlog_has_room :: "radio \<Rightarrow> nat \<Rightarrow> radio_class \<Rightarrow> bool" where
  "backlog_has_room r octets c =
     (case rd_tnc r of
        None \<Rightarrow> False
      | Some (tc, t) \<Rightarrow>
          shared_queued (tn_shared t) + airtime_for (tc_airtime tc) octets
            \<le> nat (round (of_nat (backlog_budget r) * class_allowance c)))"

definition radio_eta :: "radio \<Rightarrow> duration" where
  "radio_eta r = (case rd_tnc r of Some (_, t) \<Rightarrow> shared_eta (tn_shared t) | None \<Rightarrow> 0)"

definition room_in_class :: "radio \<Rightarrow> radio_class \<Rightarrow> nat" where
  "room_in_class r c = (case rd_tnc r of Some (_, t) \<Rightarrow> tx_room_in t (scheduler_class c) | None \<Rightarrow> 0)"

definition wants_aprs :: "radio \<Rightarrow> callsign \<Rightarrow> bool" where
  "wants_aprs r call \<longleftrightarrow> is_aprs (rc_rf_mode (cf_radio (rd_config r)))
     \<or> (case get_peer (rd_sessions r) call of Some p \<Rightarrow> peer_dialect p = Aprs | None \<Rightarrow> False)"

section \<open>Handing a frame to the link task\<close>

definition note_sent :: "nat \<Rightarrow> stats \<Rightarrow> stats" where
  "note_sent n s = s\<lparr>rf_frames_tx := rf_frames_tx s + 1, rf_bytes_tx := rf_bytes_tx s + n\<rparr>"

definition note_dropped :: "stats \<Rightarrow> stats" where
  "note_dropped s = s\<lparr>rf_frames_dropped := rf_frames_dropped s + 1\<rparr>"

definition note_refused :: "radio \<Rightarrow> radio" where
  "note_refused r = r\<lparr>rd_stats := (rd_stats r)\<lparr>rf_frames_refused := rf_frames_refused (rd_stats r) + 1\<rparr>\<rparr>"

definition enqueue_ui ::
  "callsign \<Rightarrow> byte list \<Rightarrow> radio_class \<Rightarrow> bool \<Rightarrow> ustr \<Rightarrow> instant \<Rightarrow> radio \<Rightarrow> radio" where
  "enqueue_ui dest body c expects account now r =
     (case (rd_tnc r, rd_source r) of
        (Some (tc, t), Some source) \<Rightarrow>
          if \<not> rd_enabled r then r
          else if interlock_failed (tn_shared t) then r
          else (case ax25_ui source dest (rd_path r) body of
                  Inl _ \<Rightarrow> r
                | Inr ax \<Rightarrow>
                    (case tnc_enqueue tc ax (scheduler_class c) account expects now t of
                       (True, t') \<Rightarrow>
                         r\<lparr>rd_tnc := Some (tc, t'), rd_stats := note_sent (length (ax25_encode ax)) (rd_stats r),
                           rd_transmitted_since_id := True\<rparr>
                     | (False, t') \<Rightarrow> r\<lparr>rd_tnc := Some (tc, t'), rd_stats := note_dropped (rd_stats r)\<rparr>))
      | _ \<Rightarrow> r)"

definition transmit_direct :: "callsign \<Rightarrow> airc_frame \<Rightarrow> radio_class \<Rightarrow> instant \<Rightarrow> radio \<Rightarrow> radio" where
  "transmit_direct dest f c now r =
     enqueue_ui dest (airc_encode f) c (wants_ack f) (callsign_to_string dest) now r"

definition transmit_to :: "callsign \<Rightarrow> airc_frame \<Rightarrow> instant \<Rightarrow> radio \<Rightarrow> radio" where
  "transmit_to dest f now r = transmit_direct dest f TxControl now r"

definition transmit_ui :: "callsign \<Rightarrow> byte list \<Rightarrow> radio_class \<Rightarrow> callsign \<Rightarrow> instant \<Rightarrow> radio \<Rightarrow> radio" where
  "transmit_ui dest body c account now r = enqueue_ui dest body c False (callsign_to_string account) now r"

definition radio_drain_acks :: "instant \<Rightarrow> radio \<Rightarrow> radio" where
  "radio_drain_acks now r =
     (let (acks, ss) = drain_acks (rd_sessions r)
      in fold (\<lambda>(dst, f). transmit_direct dst f TxAck now) acks (r\<lparr>rd_sessions := ss\<rparr>))"

definition drain_keyed :: "instant \<Rightarrow> radio \<Rightarrow> radio" where
  "drain_keyed now r =
     (case rd_tnc r of
        None \<Rightarrow> r
      | Some (tc, t) \<Rightarrow>
          r\<lparr>rd_sessions := fold (\<lambda>k. session_on_keyed (ke_dest k) (ke_seq k) now) (tn_keyed t) (rd_sessions r),
            rd_tnc := Some (tc, t\<lparr>tn_keyed := []\<rparr>)\<rparr>)"

text \<open>The loop over the frames of one message.\<close>

definition transmit_all :: "callsign \<Rightarrow> airc_frame list \<Rightarrow> radio_class \<Rightarrow> instant \<Rightarrow> radio \<Rightarrow> radio" where
  "transmit_all dest fs c now r = fold (\<lambda>f. transmit_direct dest f c now) fs r"

definition broadcast_flagged ::
  "kind \<Rightarrow> byte list \<Rightarrow> radio_class \<Rightarrow> byte \<Rightarrow> instant \<Rightarrow> radio \<Rightarrow> radio" where
  "broadcast_flagged k body c flags now r0 =
     (if \<not> available r0 \<or> interlock_down r0 then r0
      else
        (let (seq, ss) = next_seq (rd_sessions r0);
             r = r0\<lparr>rd_sessions := ss\<rparr>;
             cs = (if body = [] then [[]] else chunks (radio_max_payload r) body)
         in if 255 < length cs then r\<lparr>rd_stats := note_dropped (rd_stats r)\<rparr>
            else if \<not> backlog_has_room r (wire_octets r (length body)) c then note_refused r
            else if room_in_class r c < length cs then note_refused r
            else
              (let dest = (case parse_ok (rc_destination (cf_radio (rd_config r))) of
                             Some d \<Rightarrow> d | None \<Rightarrow> Callsign (lit ''AIRC'') 0);
                   frames = map (\<lambda>i. (with_flags flags (airc_new k seq (cs ! i)))
                                  \<lparr>frag_index := of_nat i, frag_total := of_nat (length cs)\<rparr>) [0..<length cs]
               in transmit_all dest frames c now r)))"

definition broadcast :: "kind \<Rightarrow> byte list \<Rightarrow> radio_class \<Rightarrow> instant \<Rightarrow> radio \<Rightarrow> radio" where
  "broadcast k body c now r = broadcast_flagged k body c 0 now r"

definition note_airc_peer :: "callsign \<Rightarrow> sessions \<Rightarrow> sessions" where
  "note_airc_peer dst s = (case get_peer s dst of Some p \<Rightarrow> set_peer dst (note_airc p) s | None \<Rightarrow> s)"

definition unicast_flagged ::
  "callsign \<Rightarrow> kind \<Rightarrow> byte list \<Rightarrow> bool \<Rightarrow> radio_class \<Rightarrow> byte \<Rightarrow> instant \<Rightarrow> radio \<Rightarrow> bool \<times> radio" where
  "unicast_flagged dst k body reliable c flags now r =
     (if \<not> available r \<or> interlock_down r then (False, r)
      else if \<not> backlog_has_room r (wire_octets r (length body)) c then (False, note_refused r)
      else
        (let queued_behind = (reliable \<and> (case get_peer (rd_sessions r) dst of
                                             Some p \<Rightarrow> awaiting_ack p | None \<Rightarrow> False));
             mx = radio_max_payload r;
             fragments = (if body = [] then 1 else max ((length body + mx - 1) div mx) 1)
         in if \<not> queued_behind \<and> room_in_class r c < fragments then (False, note_refused r)
            else
              (let (out, ss) = enqueue dst k body reliable now (rd_sessions r)
               in if \<not> so_accepted out then (False, r\<lparr>rd_sessions := ss\<rparr>)
                  else (True, transmit_all dst (map (with_flags flags) (so_frames out)) c now
                                (r\<lparr>rd_sessions := note_airc_peer dst ss\<rparr>)))))"

definition unicast ::
  "callsign \<Rightarrow> kind \<Rightarrow> byte list \<Rightarrow> bool \<Rightarrow> radio_class \<Rightarrow> instant \<Rightarrow> radio \<Rightarrow> radio" where
  "unicast dst k body reliable c now r = snd (unicast_flagged dst k body reliable c 0 now r)"

section \<open>APRS chat: one message in flight for each destination\<close>

definition base36_digit :: "nat \<Rightarrow> nat" where
  "base36_digit d = (if d < 10 then 48 + d else 65 + (d - 10))"

text \<open>At most \<open>k\<close> digits, the least significant last; the loop stops when nothing is left.\<close>

fun msgid_digits :: "nat \<Rightarrow> nat \<Rightarrow> ustr" where
  "msgid_digits 0 n = []"
| "msgid_digits (Suc k) n =
     (if n div 36 = 0 then [base36_digit (n mod 36)]
      else msgid_digits k (n div 36) @ [base36_digit (n mod 36)])"

definition next_msgid :: "aprs_outbound \<Rightarrow> ustr \<times> aprs_outbound" where
  "next_msgid a =
     (let n0 = next_id a + 1; n = (if n0 = 0 then 1 else n0)
      in (msgid_digits 5 (unat n), a\<lparr>next_id := n\<rparr>))"

definition aprs_timeout :: "radio \<Rightarrow> duration" where
  "aprs_timeout r = from_secs (max (rc_ack_timeout_secs (cf_radio (rd_config r))) 1)"

definition start_aprs_chat :: "callsign \<Rightarrow> ustr \<Rightarrow> radio_class \<Rightarrow> instant \<Rightarrow> radio \<Rightarrow> bool \<times> radio" where
  "start_aprs_chat dst s c now r0 =
     (let (msgid, ao) = next_msgid (rd_aprs_out r0);
          r = r0\<lparr>rd_aprs_out := ao\<rparr>;
          body = message_info dst s msgid
      in if \<not> backlog_has_room r (length body + 20) c then (False, note_refused r)
         else
           (let r1 = transmit_ui ax25_destination body c dst now r;
                fl = \<lparr>fl_msgid = msgid, fl_info = body, fl_class = c, fl_attempts = 1,
                      fl_next_retry = now + aprs_timeout r1\<rparr>
            in (True, r1\<lparr>rd_aprs_out := (rd_aprs_out r1)\<lparr>ao_pending :=
                  AList.update dst fl (ao_pending (rd_aprs_out r1))\<rparr>\<rparr>)))"

definition enqueue_aprs_chat :: "callsign \<Rightarrow> ustr \<Rightarrow> radio_class \<Rightarrow> instant \<Rightarrow> radio \<Rightarrow> bool \<times> radio" where
  "enqueue_aprs_chat dst s0 c now r =
     (let ao = rd_aprs_out r; s = take APRS_TEXT_MAX s0 in
      if \<not> available r \<or> interlock_down r then (False, r)
      else if s = [] then (False, r)
      else if has_key (ao_pending ao) dst then
        (let q = (case map_of (ao_waiting ao) dst of Some q \<Rightarrow> q | None \<Rightarrow> [])
         in if 8 \<le> length q
            then (False, note_refused (r\<lparr>rd_aprs_out := ao\<lparr>ao_waiting := AList.update dst q (ao_waiting ao)\<rparr>\<rparr>))
            else (True, r\<lparr>rd_aprs_out := ao\<lparr>ao_waiting :=
                    AList.update dst (q @ [\<lparr>aq_text = s, aq_class = c\<rparr>]) (ao_waiting ao)\<rparr>\<rparr>))
      else start_aprs_chat dst s c now r)"

text \<open>The next waiting line for a station whose message has been acknowledged or given up.\<close>

definition pop_waiting :: "callsign \<Rightarrow> aprs_outbound \<Rightarrow> aprs_queued option \<times> aprs_outbound" where
  "pop_waiting c a =
     (case map_of (ao_waiting a) c of
        None \<Rightarrow> (None, a)
      | Some q \<Rightarrow>
          (case q of [] \<Rightarrow> None | x # _ \<Rightarrow> Some x,
           a\<lparr>ao_waiting := (if tl q = [] then AList.delete c (ao_waiting a)
                             else AList.update c (tl q) (ao_waiting a))\<rparr>))"

definition start_next :: "callsign \<Rightarrow> instant \<Rightarrow> radio \<Rightarrow> radio" where
  "start_next c now r =
     (let (next, a) = pop_waiting c (rd_aprs_out r); r1 = r\<lparr>rd_aprs_out := a\<rparr>
      in case next of
           Some x \<Rightarrow> snd (start_aprs_chat c (aq_text x) (aq_class x) now r1)
         | None \<Rightarrow> r1)"

definition drop_pending :: "callsign \<Rightarrow> radio \<Rightarrow> radio" where
  "drop_pending c r =
     r\<lparr>rd_aprs_out := (rd_aprs_out r)\<lparr>ao_pending := AList.delete c (ao_pending (rd_aprs_out r))\<rparr>\<rparr>"

definition on_aprs_ack :: "callsign \<Rightarrow> aprs_message \<Rightarrow> instant \<Rightarrow> radio \<Rightarrow> radio" where
  "on_aprs_ack src m now r =
     (case control_msgid m of
        None \<Rightarrow> r
      | Some i \<Rightarrow>
          (case map_of (ao_pending (rd_aprs_out r)) src of
             None \<Rightarrow> r
           | Some fl \<Rightarrow> if fl_msgid fl \<noteq> i then r else start_next src now (drop_pending src r)))"

definition aprs_max_retries :: "radio \<Rightarrow> nat" where
  "aprs_max_retries r = max (rc_max_retries (cf_radio (rd_config r))) 1"

definition retry_aprs :: "instant \<Rightarrow> callsign \<Rightarrow> radio \<Rightarrow> radio" where
  "retry_aprs now c r0 =
     (case map_of (ao_pending (rd_aprs_out r0)) c of
        None \<Rightarrow> r0
      | Some fl \<Rightarrow>
          (let r = drop_pending c r0 in
           if aprs_max_retries r \<le> fl_attempts fl
           then start_next c now (r\<lparr>rd_stats := note_dropped (rd_stats r)\<rparr>)
           else
             (let n = fl_attempts fl + 1;
                  fl' = fl\<lparr>fl_attempts := n, fl_next_retry := now + aprs_timeout r * min n 4\<rparr>;
                  r1 = transmit_ui ax25_destination (fl_info fl) (fl_class fl) c now r
              in r1\<lparr>rd_aprs_out := (rd_aprs_out r1)\<lparr>ao_pending :=
                   AList.update c fl' (ao_pending (rd_aprs_out r1))\<rparr>\<rparr>)))"

definition tick_aprs :: "instant \<Rightarrow> radio \<Rightarrow> radio" where
  "tick_aprs now r =
     (if \<not> available r \<or> interlock_down r then r
      else fold (retry_aprs now)
             (map fst (filter (\<lambda>(_, fl). fl_next_retry fl \<le> now) (ao_pending (rd_aprs_out r)))) r)"

section \<open>What has been injected already\<close>

definition aprs_msgid_seen :: "radio \<Rightarrow> callsign \<Rightarrow> ustr \<Rightarrow> instant \<Rightarrow> bool" where
  "aprs_msgid_seen r src i now \<longleftrightarrow>
     (case map_of (rd_msgid r) (src, i) of Some t0 \<Rightarrow> now - t0 < APRS_MSGID_TTL | None \<Rightarrow> False)"

definition expire_aprs_msgids :: "instant \<Rightarrow> radio \<Rightarrow> radio" where
  "expire_aprs_msgids now r =
     r\<lparr>rd_msgid := filter (\<lambda>(_, t0). now - t0 < APRS_MSGID_TTL) (rd_msgid r),
       rd_beacon := filter (\<lambda>(_, t0). now - t0 < APRS_BEACON_TTL) (rd_beacon r)\<rparr>"

text \<open>The oldest entry of a full cache goes, whether or not the new key is already in it.\<close>

definition drop_oldest :: "nat \<Rightarrow> ('k, instant) table \<Rightarrow> ('k, instant) table" where
  "drop_oldest cap m =
     (if cap \<le> length m then (case min_key_by id m of Some k \<Rightarrow> AList.delete k m | None \<Rightarrow> m) else m)"

definition remember_aprs_msgid :: "callsign \<Rightarrow> ustr \<Rightarrow> instant \<Rightarrow> radio \<Rightarrow> radio" where
  "remember_aprs_msgid src i now r0 =
     (let r = expire_aprs_msgids now r0
      in r\<lparr>rd_msgid := AList.update (src, i) now (drop_oldest APRS_MSGID_MAX (rd_msgid r))\<rparr>)"

definition aprs_beacon_seen :: "radio \<Rightarrow> callsign \<Rightarrow> ustr \<Rightarrow> instant \<Rightarrow> bool" where
  "aprs_beacon_seen r src s now \<longleftrightarrow>
     (case map_of (rd_beacon r) (src, s) of Some t0 \<Rightarrow> now - t0 < APRS_BEACON_TTL | None \<Rightarrow> False)"

definition remember_aprs_beacon :: "callsign \<Rightarrow> ustr \<Rightarrow> instant \<Rightarrow> radio \<Rightarrow> radio" where
  "remember_aprs_beacon src s now r =
     r\<lparr>rd_beacon := AList.update (src, s) now (drop_oldest APRS_BEACON_MAX (rd_beacon r))\<rparr>"

section \<open>Held mail\<close>

definition aprs_mail_body :: "stored_message \<Rightarrow> ustr" where
  "aprs_mail_body m =
     (let body = (if sm_from m = [] then sm_body m else sm_from m @ lit '': '' @ sm_body m)
      in if sm_truncated m then body @ [0x2026] else body)"

definition mail_payload :: "callsign \<Rightarrow> instant \<Rightarrow> stored_message \<Rightarrow> byte list" where
  "mail_payload call now m =
     encode_fields [to_nick call, sm_from m, sm_body m, show_nat (mail_age m now div 1000000000)]"

text \<open>Offering one held message to the transmitter: whether it took it.\<close>

definition offer_mail :: "callsign \<Rightarrow> instant \<Rightarrow> stored_message \<Rightarrow> radio \<Rightarrow> bool \<times> radio" where
  "offer_mail call now m r =
     (if wants_aprs r call then
        (let body = aprs_mail_body m in
         if \<not> backlog_has_room r (min (str_len body) APRS_TEXT_MAX + 20) TxDirect then (False, r)
         else enqueue_aprs_chat call body TxDirect now r)
      else
        (let p = mail_payload call now m in
         if \<not> backlog_has_room r (wire_octets r (length p)) TxDirect then (False, r)
         else if \<not> can_accept (rd_sessions r) call then (False, r)
         else unicast_flagged call KStored p True TxDirect (if sm_truncated m then TRUNCATED else 0) now r))"

definition drop_mail :: "callsign \<Rightarrow> radio \<Rightarrow> radio" where
  "drop_mail call r = r\<lparr>rd_mailbox := snd (mail_drop_front call (rd_mailbox r))\<rparr>"

fun flush_loop :: "callsign \<Rightarrow> instant \<Rightarrow> nat \<Rightarrow> radio \<Rightarrow> radio" where
  "flush_loop call now 0 r = r"
| "flush_loop call now (Suc n) r =
     (case mail_peek call (rd_mailbox r) of
        None \<Rightarrow> r
      | Some m \<Rightarrow>
          (case offer_mail call now m r of
             (True, r') \<Rightarrow> flush_loop call now n (drop_mail call r')
           | (False, r') \<Rightarrow> r'))"

definition flush_mailbox :: "callsign \<Rightarrow> instant \<Rightarrow> radio \<Rightarrow> radio" where
  "flush_mailbox call now r =
     (if mail_depth call (rd_mailbox r) = 0 then r
      else if \<not> available r \<or> (case radio_airtime r of Some a \<Rightarrow> tx_blocked a | None \<Rightarrow> False) then r
      else flush_loop call now (max (rc_mailbox_flush_batch (cf_radio (rd_config r))) 1) r)"

section \<open>Identification\<close>

definition transmit_id :: "callsign \<Rightarrow> airc_frame \<Rightarrow> instant \<Rightarrow> radio \<Rightarrow> bool \<times> radio" where
  "transmit_id dest f now r =
     (case (rd_tnc r, rd_source r) of
        (Some (tc, t), Some source) \<Rightarrow>
          (case ax25_ui source dest (rd_path r) (airc_encode f) of
             Inl _ \<Rightarrow> (False, r)
           | Inr ax \<Rightarrow>
               (case try_send_id tc ax now t of
                  (True, t') \<Rightarrow>
                    (True, r\<lparr>rd_tnc := Some (tc, t'), rd_stats := note_sent (length (ax25_encode ax)) (rd_stats r)\<rparr>)
                | (False, t') \<Rightarrow>
                    (False, r\<lparr>rd_tnc := Some (tc, t'), rd_stats := note_dropped (rd_stats r)\<rparr>)))
      | _ \<Rightarrow> (False, r))"

definition id_payload :: "config \<Rightarrow> byte list" where
  "id_payload cf = encode_fields [rc_callsign (cf_radio cf) @ [32] @ rc_id_text (cf_radio cf)]"

definition send_id :: "instant \<Rightarrow> radio \<Rightarrow> bool \<times> radio" where
  "send_id now r0 =
     (let (seq, ss) = next_seq (rd_sessions r0);
          r = r0\<lparr>rd_sessions := ss\<rparr>
      in case transmit_id (Callsign (lit ''ID'') 0) (airc_new KId seq (id_payload (rd_config r))) now r of
           (True, r') \<Rightarrow> (True, r'\<lparr>rd_transmitted_since_id := False, rd_last_id := Some now\<rparr>)
         | (False, r') \<Rightarrow> (False, r'))"

definition id_too_soon :: "instant \<Rightarrow> radio \<Rightarrow> bool" where
  "id_too_soon now r \<longleftrightarrow> (case rd_last_id r of Some t0 \<Rightarrow> now - t0 < id_interval (rd_config r) | None \<Rightarrow> False)"

definition maybe_identify :: "instant \<Rightarrow> radio \<Rightarrow> radio" where
  "maybe_identify now r =
     (if rd_tnc r = None then r
      else if \<not> rd_transmitted_since_id r then r
      else if rd_enabled r \<and> id_too_soon now r then r
      else snd (send_id now r))"

definition id_if_needed :: "instant \<Rightarrow> radio \<Rightarrow> radio" where
  "id_if_needed now r = (if rd_transmitted_since_id r \<and> rd_tnc r \<noteq> None then snd (send_id now r) else r)"

definition identify_now :: "instant \<Rightarrow> radio \<Rightarrow> identify_result \<times> radio" where
  "identify_now now r =
     (if \<not> rd_transmitted_since_id r \<and> id_too_soon now r then (IdRateLimited, r)
      else (case send_id now r of (True, r') \<Rightarrow> (IdSent, r') | (False, r') \<Rightarrow> (IdNotQueued, r')))"

section \<open>The status line\<close>

text \<open>\<open>{:.0}\<close> of a float: to the nearest whole number, ties to even.\<close>

definition show_whole :: "rat \<Rightarrow> ustr" where
  "show_whole x =
     (let f = floor x; d = x - of_int f
      in show_nat (nat (if d < 1 / 2 then f else if 1 / 2 < d then f + 1 else if even f then f else f + 1)))"

definition status_line :: "radio \<Rightarrow> ustr" where
  "status_line r =
     (let rc = cf_radio (rd_config r); call = rc_callsign rc in
      if \<not> rc_enabled rc then lit ''Radio gateway is disabled. This is a plain IRC server; nothing is radiated.''
      else
        (case rd_tnc r of
           None \<Rightarrow> lit ''Radio gateway: no TNC attached. Station '' @ call @ lit ''. Nothing is being radiated.''
         | Some (tc, t) \<Rightarrow>
             (let a = tn_shared t in
              if \<not> rd_enabled r then
                lit ''Radio gateway: transmitter OFF. Station '' @ call @ lit ''. Nothing is being radiated.''
              else if interlock_failed a then
                lit ''Radio gateway: station '' @ call @ lit '', transmitter BLOCKED by the safety interlock. ''
                @ lit ''Nothing is being radiated. Station identification is held until it is safe.''
              else
                (let duty = lit '' '' @ show_whole (duty_percent a) @ lit ''% duty.'';
                     cooling = (if 0 < sh_cooling_ms a
                                then lit '' PA cooling for '' @ show_nat (sh_cooling_ms a div 1000) @ lit ''s.'' else [])
                 in lit ''Radio gateway: transmitter ON, station '' @ call @ lit '', '' @ show_nat (peers_heard r)
                    @ lit '' RF station(s) heard, '' @ show_nat (rf_frames_tx (rd_stats r)) @ lit '' frames TX / ''
                    @ show_nat (rf_frames_rx (rd_stats r)) @ lit '' RX ('' @ show_nat (rf_bytes_tx (rd_stats r))
                    @ lit '' bytes on air).'' @ duty @ cooling))))"

end
