(* ===== verification/Aprs_Proofs.thy ===== *)
theory Aprs_Proofs
  imports Aprs
begin

text \<open>
  The APRS messages the gateway sends decode to what was sent, and an acknowledgement of one of them names
  it: the message ID comes back, addressed to the gateway.
\<close>

lemma call_string_chars:
  assumes "callsign_wf c" "x \<in> set (callsign_to_string c)"
  shows "is_ascii_alphanumeric x \<or> x = 45"
  using assms by (auto simp: callsign_to_string_def is_ascii_alphanumeric_def lit_def
      dest: wf_base_char show_nat_digits split: if_splits)

lemma call_string_upper:
  assumes "callsign_wf c"
  shows "to_ascii_uppercase (callsign_to_string c) = callsign_to_string c"
  using wf_base_upper [OF assms]
  by (auto simp: callsign_to_string_def to_ascii_uppercase_def lit_def to_upper_def is_ascii_lowercase_def
      is_ascii_digit_def dest: show_nat_digits intro!: map_idI)

lemma length_show_small: "n \<le> 15 \<Longrightarrow> length (show_nat n) \<le> 2"
proof -
  assume "n \<le> 15"
  then have "n div 10 < 10" by linarith
  then show ?thesis by (simp add: show_nat.simps [of n] show_nat.simps [of "n div 10"])
qed

lemma call_string_length:
  assumes "callsign_wf c"
  shows "length (callsign_to_string c) \<le> 9" "callsign_to_string c \<noteq> []"
proof -
  have "unat (call_ssid c) \<le> 15"
    using assms by (simp add: callsign_wf_def word_le_nat_alt)
  from length_show_small [OF this] show "length (callsign_to_string c) \<le> 9"
    using assms by (simp add: callsign_to_string_def callsign_wf_def lit_def)
  show "callsign_to_string c \<noteq> []"
    using assms by (simp add: callsign_to_string_def callsign_wf_def)
qed

lemma pad9_facts:
  assumes "callsign_wf c"
  shows "length (pad9 (callsign_to_string c)) = 9"
    and "trim (pad9 (callsign_to_string c)) = callsign_to_string c"
    and "\<forall>x \<in> set (pad9 (callsign_to_string c)). x < 128 \<and> (is_ascii_alphanumeric x \<or> x = 45 \<or> x = 32)"
proof -
  let ?s = "callsign_to_string c"
  have take: "take 9 ?s = ?s"
    using call_string_length [OF assms] by simp
  have chars: "\<not> is_whitespace x" if "x \<in> set ?s" for x
    using call_string_chars [OF assms that] alphanumeric_not_white by (auto simp: is_whitespace_def)
  show "length (pad9 ?s) = 9"
    using call_string_length [OF assms] by (simp add: pad9_def)
  have ends: "\<not> is_whitespace (hd ?s)" "\<not> is_whitespace (hd (rev ?s))"
    using chars call_string_length(2) [OF assms] by (auto simp: hd_rev)
  have "dropWhile is_whitespace (replicate n 32 @ rev ?s) = rev ?s" for n
    using ends(2) by (induction n) (simp_all add: dropWhile_no, simp add: is_whitespace_def)
  then show "trim (pad9 ?s) = ?s"
    using ends(1) call_string_length(2) [OF assms] unfolding pad9_def take
    by (simp add: trim_def trim_start_def trim_end_def dropWhile_no)
  show "\<forall>x \<in> set (pad9 ?s). x < 128 \<and> (is_ascii_alphanumeric x \<or> x = 45 \<or> x = 32)"
    unfolding pad9_def take using call_string_chars [OF assms] alphanumeric_ascii by fastforce
qed

lemma trim_trailing_plain:
  "bs \<noteq> [] \<Longrightarrow> last bs \<notin> {13, 10, 0} \<Longrightarrow> trim_trailing_crlf bs = bs"
  by (simp add: trim_trailing_crlf_def dropWhile_no hd_rev)

lemma last_as_bytes: "s \<noteq> [] \<Longrightarrow> last s < 128 \<Longrightarrow> last (as_bytes s) = of_nat (last s)"
  by (cases s rule: rev_cases) (auto simp: as_bytes_def utf8_def)

lemma trim_end_plain: "s \<noteq> [] \<Longrightarrow> \<not> is_whitespace (last s) \<Longrightarrow> trim_end s = s"
  by (simp add: trim_end_def dropWhile_no hd_rev)

lemma take_drop_addressee:
  "length a = 9 \<Longrightarrow> split_addressee (a @ [58] @ b) = Some (a, b)"
  by (simp add: split_addressee_def nth_append)

text \<open>Decoding a packet whose message part ends in a letter or a digit.\<close>

lemma aprs_decode_packet:
  assumes c: "callsign_wf c" and scalar: "\<forall>x \<in> set body. is_scalar x"
    and ne: "body \<noteq> []" and last: "is_ascii_alphanumeric (last body)"
  shows "aprs_decode (as_bytes ([58] @ pad9 (callsign_to_string c) @ [58] @ body)) =
     (case split_msgid body of (t, i) \<Rightarrow>
        Some \<lparr>ap_addressee = callsign_to_string c, ap_body = t, ap_msgid = i, ap_kind = aprs_classify t\<rparr>)"
proof -
  let ?p = "pad9 (callsign_to_string c)"
  let ?bs = "as_bytes ([58] @ ?p @ [58] @ body)"
  note p = pad9_facts [OF c]
  have small: "last body < 128"
    using alphanumeric_ascii [OF last] .
  have bs: "?bs = 58 # (as_bytes ?p @ [58] @ as_bytes body)"
    by (simp add: as_bytes_def utf8_def)
  have "last ?bs = of_nat (last body)"
    using ne small last_as_bytes [of "[58] @ ?p @ [58] @ body"] by simp
  moreover have "of_nat (last body) \<notin> {13, 10, 0 :: byte}"
    using last small by (auto simp: char_class_defs dest!: arg_cong [of _ _ unat])
  ultimately have trimmed: "trim_trailing_crlf ?bs = ?bs"
    using bs by (intro trim_trailing_plain) auto
  have len: "length (as_bytes ?p) = 9"
    using p(1,3) str_len_ascii [of ?p] by simp
  have addr: "list_all addr_byte_ok (as_bytes ?p)"
  proof -
    have "as_bytes ?p = map of_nat ?p" using p(3) by (intro as_bytes_ascii) auto
    then show ?thesis using p(3) by (auto simp: list_all_iff addr_byte_ok_def)
  qed
  have str: "from_utf8 (as_bytes ?p) = Some ?p"
    using p(3) ascii_scalar by (intro from_utf8_as_bytes) auto
  have body: "trim_end (from_utf8_lossy (as_bytes body)) = body"
    using from_utf8_lossy_as_bytes [OF scalar] trim_end_plain [OF ne] alphanumeric_not_white [OF last] by simp
  show ?thesis
    unfolding aprs_decode_def trimmed
    using len addr str body p(2) call_string_upper [OF c] call_string_length(2) [OF c]
    by (simp add: bs take_drop_addressee [of "as_bytes ?p" "as_bytes body", simplified] Let_def case_prod_unfold)
qed

lemma msgid_facts:
  assumes "msgid_ok i"
  shows "i \<noteq> []" "is_ascii_alphanumeric (last i)" "123 \<notin> set i" "\<forall>x \<in> set i. is_scalar x"
    "strip_suffix1 125 i = None"
proof -
  have ne: "i \<noteq> []" and all: "\<And>x. x \<in> set i \<Longrightarrow> is_ascii_alphanumeric x"
    using assms by (auto simp: msgid_ok_def list_all_iff)
  show "i \<noteq> []" "is_ascii_alphanumeric (last i)" using ne all by auto
  show "123 \<notin> set i" using all [of 123] by (auto simp: char_class_defs)
  show "\<forall>x \<in> set i. is_scalar x" using all alphanumeric_ascii ascii_scalar by blast
  show "strip_suffix1 125 i = None"
    using all [of "last i"] ne by (auto simp: strip_suffix1_def char_class_defs)
qed

lemma split_msgid_present: "msgid_ok i \<Longrightarrow> split_msgid (t @ [123] @ i) = (t, Some i)"
  using msgid_facts [of i] split_once_append [of 123 "rev i" "rev t"]
  by (simp add: split_msgid_def rsplit_once_def)

lemma split_msgid_absent: "123 \<notin> set t \<Longrightarrow> split_msgid t = (t, None)"
  by (simp add: split_msgid_def rsplit_once_def)

text \<open>A message the gateway sends to a station over APRS decodes, in any receiver that uses this codec, to
  that station as the addressee, the text cut to the APRS limit of 67 characters, and the message ID the
  gateway chose; and the station recognises it as addressed to itself.\<close>

theorem aprs_message_round_trip:
  assumes "callsign_wf c" and "list_all is_scalar s" and "msgid_ok i"
  shows "aprs_decode (message_info c s i) =
      Some \<lparr>ap_addressee = callsign_to_string c, ap_body = take 67 s, ap_msgid = Some i,
            ap_kind = aprs_classify (take 67 s)\<rparr>
    \<and> addressed_to (the (aprs_decode (message_info c s i))) c"
proof -
  have "\<forall>x \<in> set (take 67 s). is_scalar x"
    using assms(2) by (auto simp: list_all_iff dest: in_set_takeD)
  then have "aprs_decode (message_info c s i) = Some \<lparr>ap_addressee = callsign_to_string c, ap_body = take 67 s,
      ap_msgid = Some i, ap_kind = aprs_classify (take 67 s)\<rparr>"
    using aprs_decode_packet [OF assms(1), of "take 67 s @ [123] @ i"] msgid_facts [OF assms(3)]
      split_msgid_present [OF assms(3), of "take 67 s"]
    by (auto simp: message_info_def aprs_encode_def APRS_TEXT_MAX_def is_scalar_def)
  then show ?thesis
    using callsign_round_trip [OF assms(1)] by (simp add: addressed_to_def)
qed

lemma sample_call_wf: "callsign_wf (Callsign (lit ''K1ABC'') 7)"
  by (simp add: callsign_wf_def lit_def char_class_defs to_upper_def)

theorem aprs_message_round_trip_witness:
  "aprs_decode (message_info (Callsign (lit ''K1ABC'') 7) (lit ''hi'') (lit ''1A''))
     = Some \<lparr>ap_addressee = lit ''K1ABC-7'', ap_body = lit ''hi'', ap_msgid = Some (lit ''1A''), ap_kind = AprsMsg\<rparr>"
  using aprs_message_round_trip [OF sample_call_wf, of "lit ''hi''" "lit ''1A''"]
  by (simp add: lit_def is_scalar_def msgid_ok_def str_len_def utf8_def utf8_char_def char_class_defs
      callsign_to_string_def aprs_classify_def strip_prefix_def starts_with_def trim_def trim_start_def trim_end_def
      is_whitespace_def show_nat.simps)

text \<open>The acknowledgement of a message names it.\<close>

lemma ack_classified:
  assumes "msgid_ok i"
  shows "trim (lit ''ack'' @ i) = lit ''ack'' @ i" "aprs_classify (lit ''ack'' @ i) = AprsAck"
proof -
  show trim: "trim (lit ''ack'' @ i) = lit ''ack'' @ i"
    using msgid_facts [OF assms] alphanumeric_not_white
    by (intro trim_noop) (auto simp: lit_def is_whitespace_def)
  show "aprs_classify (lit ''ack'' @ i) = AprsAck"
    unfolding aprs_classify_def trim using assms by (simp add: strip_prefix_def starts_with_def lit_def)
qed

text \<open>An acknowledgement a station sends back is decoded by the gateway as an acknowledgement, addressed to
  the gateway, of exactly the message ID it answers.\<close>

theorem aprs_ack_round_trip:
  assumes "callsign_wf gateway" and "msgid_ok i"
  shows "case aprs_decode (ack_info gateway i) of
      None \<Rightarrow> False
    | Some m \<Rightarrow> is_ack_or_rej m \<and> control_msgid m = Some i \<and> addressed_to m gateway \<and> ap_msgid m = None"
proof -
  let ?b = "lit ''ack'' @ i"
  have "123 \<notin> set ?b" "\<forall>x \<in> set ?b. is_scalar x"
    using msgid_facts [OF assms(2)] by (auto simp: lit_def is_scalar_def)
  then have "aprs_decode (ack_info gateway i) = Some \<lparr>ap_addressee = callsign_to_string gateway, ap_body = ?b,
      ap_msgid = None, ap_kind = AprsAck\<rparr>"
    using aprs_decode_packet [OF assms(1), of ?b] msgid_facts [OF assms(2)] split_msgid_absent [of ?b]
      ack_classified(2) [OF assms(2)]
    by (simp add: ack_info_def aprs_encode_def)
  then show ?thesis
    using callsign_round_trip [OF assms(1)] ack_classified(1) [OF assms(2)] assms(2)
    by (simp add: is_ack_or_rej_def control_msgid_def addressed_to_def checked_id_def strip_prefix_def starts_with_def lit_def)
qed

theorem aprs_ack_round_trip_witness:
  "case aprs_decode (ack_info (Callsign (lit ''K1ABC'') 7) (lit ''1A'')) of
      None \<Rightarrow> False | Some m \<Rightarrow> control_msgid m = Some (lit ''1A'')"
  using aprs_ack_round_trip [OF sample_call_wf, of "lit ''1A''"]
  by (auto simp: lit_def msgid_ok_def str_len_def utf8_def utf8_char_def char_class_defs split: option.splits)

end
