(* ===== verification/Config_Check.thy ===== *)
theory Config_Check
  imports Config
begin

text \<open>
  \<open>src/src/config.rs\<close>: \<open>validate\<close> and its helpers, and what holds of a configuration it lets through. The
  checks are listed in the order of the code; \<open>first_error\<close> is the early return.
\<close>

section \<open>Listening addresses\<close>

definition read_port :: "ustr \<Rightarrow> (nat \<times> ustr) option" where
  "read_port s = Option.bind (read_char 58 s) (\<lambda>t. read_number 10 (length t) 65536 True t)"

definition read_scope :: "ustr \<Rightarrow> ustr" where
  "read_scope s =
     (case Option.bind (read_char 37 s) (\<lambda>t. read_number 10 (length t) 4294967296 True t) of
        Some (_, rest) \<Rightarrow> rest
      | None \<Rightarrow> s)"

text \<open>The standard library's \<open>SocketAddr\<close> parser, as far as the address goes.\<close>

definition read_socket_v4 :: "ustr \<Rightarrow> (ip_addr \<times> ustr) option" where
  "read_socket_v4 s =
     Option.bind (read_v4 s) (\<lambda>(a, s1). Option.bind (read_port s1) (\<lambda>(_, s2). Some (IpV4 a, s2)))"

definition read_socket_v6 :: "ustr \<Rightarrow> (ip_addr \<times> ustr) option" where
  "read_socket_v6 s =
     Option.bind (read_char 91 s) (\<lambda>s1. Option.bind (read_v6 s1) (\<lambda>(gs, s2).
     Option.bind (read_char 93 (read_scope s2)) (\<lambda>s3.
     Option.bind (read_port s3) (\<lambda>(_, s4). Some (IpV6 gs, s4)))))"

definition socket_parse :: "ustr \<Rightarrow> ip_addr option" where
  "socket_parse s =
     (case (case read_socket_v4 s of Some r \<Rightarrow> Some r | None \<Rightarrow> read_socket_v6 s) of
        Some (a, rest) \<Rightarrow> if rest = [] then Some a else None
      | None \<Rightarrow> None)"

definition is_loopback :: "ip_addr \<Rightarrow> bool" where
  "is_loopback ip = (case ip of IpV4 (a, _, _, _) \<Rightarrow> a = 127 | IpV6 gs \<Rightarrow> gs = [0, 0, 0, 0, 0, 0, 0, 1])"

definition bind_is_loopback :: "ustr \<Rightarrow> bool" where
  "bind_is_loopback addr =
     (case socket_parse addr of
        Some ip \<Rightarrow> is_loopback ip
      | None \<Rightarrow>
          (let host = (case rsplit_once 58 addr of Some (h, _) \<Rightarrow> trim_brackets h | None \<Rightarrow> addr)
           in eq_ignore_ascii_case host (lit ''localhost'') \<or> host = lit ''127.0.0.1'' \<or> host = lit ''::1''))"

section \<open>Operators\<close>

fun oper_names :: "ustr list \<Rightarrow> oper_config list \<Rightarrow> config_error option" where
  "oper_names seen [] = None"
| "oper_names seen (o' # os) =
     (if trim (op_name o') = [] then Some CeOperNameEmpty
      else if lower (op_name o') \<in> set seen then Some (CeOperNameTwice (op_name o'))
      else oper_names (lower (op_name o') # seen) os)"

definition check_oper_names :: "oper_config list \<Rightarrow> config_error option" where
  "check_oper_names os = oper_names [] os"

definition check_oper_passwords :: "(ustr \<Rightarrow> bool) \<Rightarrow> oper_config list \<Rightarrow> ustr list \<Rightarrow> config_error option" where
  "check_oper_passwords is_phc os bind =
     (let plaintext = length (filter (\<lambda>o'. \<not> is_phc (op_password o')) os)
      in if plaintext = 0 then None
         else if list_all bind_is_loopback bind then None
         else Some (CePlainPasswords plaintext))"

section \<open>Channels\<close>

fun check_channels :: "(ustr \<times> ustr) list \<Rightarrow> channel_config list \<Rightarrow> config_error option" where
  "check_channels seen [] = None"
| "check_channels seen (ch # chs) =
     (if \<not> is_channel_name (cc_name ch) then Some (CeChannelName (cc_name ch))
      else (case map_of seen (lower (cc_name ch)) of
              Some first \<Rightarrow> Some (CeSameChannel first (cc_name ch))
            | None \<Rightarrow> check_channels ((lower (cc_name ch), cc_name ch) # seen) chs))"

section \<open>The modem's own configuration\<close>

definition str_lines :: "ustr \<Rightarrow> ustr list" where
  "str_lines s =
     (let parts = split_on 10 s
      in map (\<lambda>l. case strip_suffix1 13 l of Some t \<Rightarrow> t | None \<Rightarrow> l) (butlast parts)
         @ (if last parts = [] then [] else [last parts]))"

record direwolf =
  dw_modem :: "nat option"
  dw_txdelay :: "nat option"
  dw_txtail :: "nat option"

definition parse_u32 :: "ustr \<Rightarrow> nat option" where
  "parse_u32 s = parse_unsigned 4294967296 s"

definition direwolf_line :: "ustr \<Rightarrow> direwolf \<Rightarrow> direwolf" where
  "direwolf_line raw d =
     (let line = trim (hd (split_on 35 raw))
      in case split_whitespace line of
           [] \<Rightarrow> d
         | key # args \<Rightarrow>
             (let k = to_ascii_uppercase key;
                  v = (case args of [] \<Rightarrow> None | a # _ \<Rightarrow> parse_u32 a)
              in if k = lit ''MODEM'' then (case v of Some n \<Rightarrow> d\<lparr>dw_modem := Some n\<rparr> | None \<Rightarrow> d)
                 else if k = lit ''TXDELAY'' then d\<lparr>dw_txdelay := v\<rparr>
                 else if k = lit ''TXTAIL'' then d\<lparr>dw_txtail := v\<rparr>
                 else d))"

definition direwolf_scan :: "ustr \<Rightarrow> direwolf" where
  "direwolf_scan s = fold direwolf_line (str_lines s) \<lparr>dw_modem = None, dw_txdelay = None, dw_txtail = None\<rparr>"

definition check_direwolf_conf ::
  "(ustr \<Rightarrow> ustr option) \<Rightarrow> ustr \<Rightarrow> duty_config \<Rightarrow> direwolf_error option" where
  "check_direwolf_conf read path duty =
     (case read path of
        None \<Rightarrow> Some (DwUnreadable path)
      | Some s \<Rightarrow>
          (let d = direwolf_scan s
           in case dw_modem d of
                None \<Rightarrow> Some (DwNoModem path)
              | Some baud \<Rightarrow>
                  first_error
                    [bail (baud \<noteq> du_baud duty) (DwBaud (du_baud duty) baud),
                     (case dw_txdelay d of
                        Some u \<Rightarrow> bail (u * 10 \<noteq> du_txdelay_ms duty) (DwTxdelay (du_txdelay_ms duty) u)
                      | None \<Rightarrow> None),
                     (case dw_txtail d of
                        Some u \<Rightarrow> bail (u * 10 \<noteq> du_txtail_ms duty) (DwTxtail (du_txtail_ms duty) u)
                      | None \<Rightarrow> None)]))"

section \<open>The checks\<close>

definition check_moved :: "tnc_section \<Rightarrow> config_error option" where
  "check_moved t =
     first_error (map (\<lambda>(old, name). map_option (\<lambda>v. CeMoved name (unat v * 10)) old)
       [(ts_txdelay t, lit ''txdelay''), (ts_txtail t, lit ''txtail'')])"

definition check_server :: "config_env \<Rightarrow> config \<Rightarrow> config_error option list" where
  "check_server env cf =
     [check_moved (rc_tnc (cf_radio cf)),
      bail (trim (sv_name (cf_server cf)) = []) CeServerName,
      bail (li_ping_interval_secs (cf_listen cf) = 0) CePingInterval,
      bail (li_registration_timeout_secs (cf_listen cf) = 0) CeRegistrationTimeout,
      bail (ac_identify_timeout_secs (cf_accounts cf) = 0) CeIdentifyTimeout,
      check_oper_names (cf_opers cf),
      bail (sv_max_nick_len (cf_server cf) = 0) CeMaxNickLen,
      bail (sv_max_channels_per_user (cf_server cf) = 0) CeMaxChannels,
      bail (ac_min_password_len (cf_accounts cf) = 0) CeMinPasswordLen,
      bail (max_rf_text_len (cf_policy cf) = 0) CeMaxRfTextLen,
      check_oper_passwords (ce_phc env) (cf_opers cf) (listen_addresses cf),
      (case li_tls (cf_listen cf) of
         None \<Rightarrow> None
       | Some t \<Rightarrow>
           first_error
             [bail (tl_bind t = []) CeTlsBind,
              bail (trim (tl_cert t) = [] \<or> trim (tl_key t) = []) CeTlsPaths,
              bail (\<not> ce_tls env (tl_cert t) (tl_key t)) CeTlsFiles]),
      check_channels [] (cf_channels cf)]"

definition check_station :: "radio_config \<Rightarrow> config_error option list" where
  "check_station r =
     [(case callsign_from_str (rc_callsign r) of
         Inl e \<Rightarrow> Some (CeCallsign e)
       | Inr c \<Rightarrow> (case require_amateur c of Inl e \<Rightarrow> Some (CeCallsign e) | Inr _ \<Rightarrow> None)),
      (case callsign_from_str (rc_destination r) of Inl e \<Rightarrow> Some (CeDestination e) | Inr _ \<Rightarrow> None),
      first_error (map (\<lambda>d. case callsign_from_str d of Inl e \<Rightarrow> Some (CePathEntry d e) | Inr _ \<Rightarrow> None) (rc_path r)),
      bail (2 < length (rc_path r)) CePathLength,
      bail (rc_id_interval_secs r = 0 \<or> 600 < rc_id_interval_secs r) CeIdInterval,
      bail (rc_paclen r < 32 \<or> 256 < rc_paclen r) CePaclen,
      bail (rc_max_peers r = 0) CeMaxPeers]"

definition check_interlock :: "interlock_config option \<Rightarrow> config_error option" where
  "check_interlock il =
     (case il of
        None \<Rightarrow> None
      | Some i \<Rightarrow>
          first_error
            [bail (trim (il_command i) = []) CeInterlockCommand,
             bail (il_interval_secs i = 0 \<or> il_timeout_secs i = 0) CeInterlockZero,
             bail (il_interval_secs i \<le> il_timeout_secs i) (CeInterlockOverlap (il_timeout_secs i) (il_interval_secs i))])"

definition check_bridging :: "config \<Rightarrow> config_error option list" where
  "check_bridging cf =
     (let name = rc_aprs_channel (cf_radio cf) in
      [bail (list_all (\<lambda>c. \<not> cc_rf c) (cf_channels cf)) CeNoRfChannel,
       (if name = [] then None
        else first_error
          [bail (\<not> is_channel_name name) (CeAprsChannelName name),
           bail (\<not> list_ex (\<lambda>c. cc_rf c \<and> lower (cc_name c) = lower name) (cf_channels cf))
             (CeAprsChannelLocal name)])])"

definition check_duty :: "config_env \<Rightarrow> radio_config \<Rightarrow> config_error option list" where
  "check_duty env r =
     (let d = rc_duty r; kind = ts_kind (rc_tnc r); ceiling = nat (floor (HARD_MAX_DUTY * 100));
          air = to_airtime d; biggest = airtime_for air (rc_paclen r + 64)
      in [bail (du_max_duty_percent d = 0 \<or> ceiling < du_max_duty_percent d) (CeDutyPercent ceiling),
          bail (du_window_secs d = 0) CeDutyWindow,
          bail (du_max_continuous_secs d = 0) CeDutyRun,
          bail (du_baud d = 0) CeBaudZero,
          bail (\<not> du_allow_nonstandard_baud d \<and> du_baud d \<notin> set STANDARD_PACKET_BAUDS) (CeBaud (du_baud d)),
          bail (ts_tx_pacing_ms (rc_tnc r) = 0 \<and> kind \<noteq> lit ''loopback'') CePacing,
          bail (2550 < du_txdelay_ms d) (CeKissUnits (lit ''txdelay_ms'') (du_txdelay_ms d)),
          bail (2550 < du_txtail_ms d) (CeKissUnits (lit ''txtail_ms'') (du_txtail_ms d)),
          (case check_hardware_safe air of Inl (run, cool) \<Rightarrow> Some (CeHardware run cool) | Inr _ \<Rightarrow> None),
          bail (allowance air < biggest) (CeFrameOverDuty biggest (allowance air) (max (du_window_secs d) 1)),
          bail (at_max_continuous air < biggest) (CeFrameOverRun biggest (du_max_continuous_secs d)),
          bail (at_hourly_budget air \<noteq> 0 \<and> at_hourly_budget air < biggest) CeFrameOverHour,
          (case ts_direwolf_conf (rc_tnc r) of
             None \<Rightarrow> None
           | Some path \<Rightarrow> map_option CeDirewolf (check_direwolf_conf (ce_read env) path d))])"

definition check_policy_callsigns :: "policy_config \<Rightarrow> config_error option" where
  "check_policy_callsigns p =
     first_error (map (\<lambda>s. case callsign_from_str s of Inl e \<Rightarrow> Some (CePolicyCallsign s e) | Inr _ \<Rightarrow> None)
       (deny_callsigns p @ allow_callsigns p))"

definition validate :: "config_env \<Rightarrow> config \<Rightarrow> config_error option" where
  "validate env cf =
     (let r = cf_radio cf in
      case first_error (check_server env cf) of
        Some e \<Rightarrow> Some e
      | None \<Rightarrow>
          if \<not> rc_enabled r then None
          else first_error
            (check_station r
             @ [bail (max_rf_fragments (cf_policy cf) = 0) CeMaxRfFragments,
                bail (rc_max_queued_airtime_secs r = 0) CeMaxQueuedAirtime,
                check_interlock (rc_interlock r)]
             @ check_bridging cf
             @ [bail (\<not> du_enabled (rc_duty r) \<and> ts_kind (rc_tnc r) \<noteq> lit ''loopback'') CeDutyOff]
             @ (if du_enabled (rc_duty r) then check_duty env r else [])
             @ [check_policy_callsigns (cf_policy cf)]))"

text \<open>\<open>from_toml\<close>, with the TOML parser as an argument.\<close>

definition config_from_toml ::
  "(ustr \<Rightarrow> 'e + config) \<Rightarrow> config_env \<Rightarrow> ustr \<Rightarrow> ('e + config_error) + config" where
  "config_from_toml toml env s =
     (case toml s of
        Inl e \<Rightarrow> Inl (Inl e)
      | Inr cf \<Rightarrow> (case validate env cf of Some e \<Rightarrow> Inl (Inr e) | None \<Rightarrow> Inr cf))"

end
