(* ===== verification/Config_Proofs.thy ===== *)
theory Config_Proofs
  imports Config_Check Airtime_Proofs
begin

text \<open>
  What a configuration that \<open>validate\<close> lets through guarantees to the components that are built from it: the
  station can build every frame, the link task carries every frame it builds, the governor lets a
  frame of full length through, the timing pushed to the TNC is never longer than what is priced, names
  are unique and no operator password is in the clear on a public address.
\<close>

section \<open>Early returns\<close>

lemma first_error_None [simp]: "first_error xs = None \<longleftrightarrow> (\<forall>x \<in> set xs. x = None)"
  by (induction xs rule: first_error.induct) auto

lemma bail_None [simp]: "bail b e = None \<longleftrightarrow> \<not> b"
  by (simp add: bail_def)

lemma validate_server: "validate env cf = None \<Longrightarrow> x \<in> set (check_server env cf) \<Longrightarrow> x = None"
  by (auto simp: validate_def Let_def split: option.splits)

lemma validate_radio:
  assumes "validate env cf = None" "rc_enabled (cf_radio cf)"
  shows "x \<in> set (check_station (cf_radio cf)) \<Longrightarrow> x = None"
    and "x \<in> set (check_bridging cf) \<Longrightarrow> x = None"
    and "du_enabled (rc_duty (cf_radio cf)) \<Longrightarrow> x \<in> set (check_duty env (cf_radio cf)) \<Longrightarrow> x = None"
    and "check_interlock (rc_interlock (cf_radio cf)) = None"
    and "du_enabled (rc_duty (cf_radio cf)) \<or> ts_kind (rc_tnc (cf_radio cf)) = lit ''loopback''"
  using assms by (auto simp: validate_def Let_def split: option.splits if_splits)

lemma all_None_Cons: "(\<forall>x \<in> set (y # ys). x = None) \<longleftrightarrow> y = None \<and> (\<forall>x \<in> set ys. x = None)"
  by simp

lemma station_checks:
  assumes "validate env cf = None" "rc_enabled (cf_radio cf)"
  obtains c where "callsign_from_str (rc_callsign (cf_radio cf)) = Inr c" "looks_like_amateur_call c"
    "\<forall>d \<in> set (rc_path (cf_radio cf)). parse_ok d \<noteq> None" "length (rc_path (cf_radio cf)) \<le> 2"
    "32 \<le> rc_paclen (cf_radio cf)" "rc_paclen (cf_radio cf) \<le> 256"
    "0 < rc_id_interval_secs (cf_radio cf)" "rc_id_interval_secs (cf_radio cf) \<le> 600"
    "0 < rc_max_peers (cf_radio cf)"
proof -
  have all: "\<forall>x \<in> set (check_station (cf_radio cf)). x = None"
    using validate_radio(1) [OF assms] by blast
  obtain c where c: "callsign_from_str (rc_callsign (cf_radio cf)) = Inr c" "looks_like_amateur_call c"
    using all unfolding check_station_def all_None_Cons
    by (auto simp: require_amateur_def split: sum.splits if_splits)
  have path: "\<forall>d \<in> set (rc_path (cf_radio cf)). parse_ok d \<noteq> None"
    using all unfolding check_station_def all_None_Cons
    by (auto simp: parse_ok_def split: sum.splits)
  show thesis
    using all unfolding check_station_def all_None_Cons
    by (intro that [OF c path]) (simp_all add: not_less)
qed

lemma length_map_filter: "\<forall>x \<in> set xs. f x \<noteq> None \<Longrightarrow> length (List.map_filter f xs) = length xs"
  by (induction xs) (auto simp: map_filter_simps split: option.splits)

lemma length_rf_path: "length (rf_path cf) \<le> length (rc_path (cf_radio cf))"
  unfolding rf_path_def by (induction "rc_path (cf_radio cf)") (auto simp: List.map_filter_def)

text \<open>Every frame the station builds carries an information field of at most \<open>paclen\<close> octets.\<close>

lemma built_frame_fits:
  assumes "ax25_ui src dest path body = Inr f" "length path \<le> 2" "length body \<le> n"
  shows "length (ax25_encode f) \<le> n + 30"
  using assms by (auto simp: ax25_ui_def length_ax25_encode split: if_splits)

text \<open>A configuration that passes validation with the radio enabled lets the station build every frame: its
  callsign parses and looks like an amateur's, every hop of the path parses, no destination or text is
  refused by the frame builder, and a frame with at most \<open>paclen\<close> octets of information is never over the limit
  above which the link task refuses to transmit.
\<close>
theorem validated_station_builds_frames:
  assumes "validate env cf = None" "rc_enabled (cf_radio cf)" "length body \<le> rc_paclen (cf_radio cf)"
  shows "length (rf_path cf) = length (rc_path (cf_radio cf)) \<and>
    (case gateway_callsign cf of
       None \<Rightarrow> False
     | Some c \<Rightarrow> looks_like_amateur_call c \<and>
         (case ax25_ui c dest (rf_path cf) body of
            Inl _ \<Rightarrow> False
          | Inr f \<Rightarrow> length (ax25_encode f) \<le> tc_max_frame (tnc_config_of cf link)))"
proof -
  obtain c where c: "callsign_from_str (rc_callsign (cf_radio cf)) = Inr c" "looks_like_amateur_call c"
    and path: "\<forall>d \<in> set (rc_path (cf_radio cf)). parse_ok d \<noteq> None" "length (rc_path (cf_radio cf)) \<le> 2"
    using station_checks [OF assms(1,2)] by metis
  have len: "length (rf_path cf) = length (rc_path (cf_radio cf))"
    unfolding rf_path_def by (rule length_map_filter [OF path(1)])
  then obtain f where f: "ax25_ui c dest (rf_path cf) body = Inr f"
    using path(2) by (auto simp: ax25_ui_def MAX_DIGIPEATERS_def)
  have "length (ax25_encode f) \<le> rc_paclen (cf_radio cf) + 30"
    by (rule built_frame_fits [OF f _ assms(3)]) (simp add: len path(2))
  then show ?thesis
    using c f len by (simp add: gateway_callsign_def parse_ok_def tnc_config_of_def tnc_from_config_def Let_def)
qed

section \<open>The governor of a validated configuration\<close>

lemma airtime_for_mono: "m \<le> n \<Longrightarrow> airtime_for cfg m \<le> airtime_for cfg n"
proof -
  assume "m \<le> n"
  then have "of_nat (m + FRAMING_OCTETS) * 8 * max (at_stuffing cfg) 1 * 1000000 / of_nat (max (at_baud cfg) 1)
      \<le> of_nat (n + FRAMING_OCTETS) * 8 * max (at_stuffing cfg) 1 * 1000000 / (of_nat (max (at_baud cfg) 1) :: rat)"
    by (intro divide_right_mono mult_right_mono) auto
  then show ?thesis
    by (simp add: airtime_for_def Let_def from_micros_def nat_mono floor_mono)
qed

lemma duty_checks:
  assumes "validate env cf = None" "rc_enabled (cf_radio cf)" "du_enabled (rc_duty (cf_radio cf))"
  defines "air \<equiv> to_airtime (rc_duty (cf_radio cf))"
  defines "biggest \<equiv> airtime_for air (rc_paclen (cf_radio cf) + 64)"
  shows "biggest \<le> allowance air" "biggest \<le> at_max_continuous air"
    and "at_hourly_budget air = 0 \<or> biggest \<le> at_hourly_budget air"
    and "burst_duty air \<le> 1 / 2" "at_max_duty air \<le> 1 / 2" "0 < at_max_duty air"
    and "du_txdelay_ms (rc_duty (cf_radio cf)) \<le> 2550" "du_txtail_ms (rc_duty (cf_radio cf)) \<le> 2550"
    and "map_option CeDirewolf (Option.bind (ts_direwolf_conf (rc_tnc (cf_radio cf)))
           (\<lambda>path. check_direwolf_conf (ce_read env) path (rc_duty (cf_radio cf)))) = None"
proof -
  have all: "\<forall>x \<in> set (check_duty env (cf_radio cf)). x = None"
    using validate_radio(3) [OF assms(1,2,3)] by blast
  note each = all [unfolded check_duty_def Let_def all_None_Cons bail_None, folded air_def, folded biggest_def]
  show "biggest \<le> allowance air" "biggest \<le> at_max_continuous air"
    "at_hourly_budget air = 0 \<or> biggest \<le> at_hourly_budget air"
    "du_txdelay_ms (rc_duty (cf_radio cf)) \<le> 2550" "du_txtail_ms (rc_duty (cf_radio cf)) \<le> 2550"
    using each by (simp_all add: not_less)
  have en: "at_enabled air"
    using assms(3) by (simp add: air_def to_airtime_def)
  have "check_hardware_safe air = Inr ()"
    using each by (cases "check_hardware_safe air") (auto split: prod.splits)
  then show "burst_duty air \<le> 1 / 2"
    using en by (simp add: check_hardware_safe_def HARD_MAX_DUTY_def not_less split: if_splits)
  have "du_max_duty_percent (rc_duty (cf_radio cf)) \<noteq> 0" "du_max_duty_percent (rc_duty (cf_radio cf)) \<le> 50"
    using each by (simp_all add: HARD_MAX_DUTY_def not_less)
  then show "at_max_duty air \<le> 1 / 2" "0 < at_max_duty air"
    by (simp_all add: air_def to_airtime_def min_def)
  show "map_option CeDirewolf (Option.bind (ts_direwolf_conf (rc_tnc (cf_radio cf)))
           (\<lambda>path. check_direwolf_conf (ce_read env) path (rc_duty (cf_radio cf)))) = None"
    using each by (simp split: option.splits)
qed

text \<open>Under a validated configuration no frame is deferred for ever: whatever frame the station builds with at most
  \<open>paclen\<close> octets of information, a governor with that configuration whose recorded transmissions have all left the
  duty window and the hour, whose cooldown is over and whose last run has ended sends it at once.
\<close>
theorem validated_frames_are_sendable:
  assumes "validate env cf = None" "rc_enabled (cf_radio cf)" "du_enabled (rc_duty (cf_radio cf))"
    and "ax25_ui src dest (rf_path cf) body = Inr f" "length body \<le> rc_paclen (cf_radio cf)"
    and "gov_cfg g = to_airtime (rc_duty (cf_radio cf))"
    and "\<forall>b \<in> set (gov_bursts g). retention (gov_cfg g) < now - burst_end b"
    and "\<forall>u. gov_cooling_until g = Some u \<longrightarrow> u \<le> now"
    and "gov_run g = 0 \<or> gov_last_end g \<noteq> None \<and> run_over g now"
  shows "fst (gov_check (length (ax25_encode f)) now g) = TxSend"
proof -
  obtain c where "length (rc_path (cf_radio cf)) \<le> 2"
    using station_checks [OF assms(1,2)] by metis
  then have "length (rf_path cf) \<le> 2" using length_rf_path [of cf] by simp
  then have "length (ax25_encode f) \<le> rc_paclen (cf_radio cf) + 64"
    using built_frame_fits [OF assms(4) _ assms(5)] by simp
  note cost = airtime_for_mono [OF this, of "to_airtime (rc_duty (cf_radio cf))"]
  have old: "airtime_within (gov_bursts g) now w = 0" if "w \<le> retention (gov_cfg g)" for w
    using assms(7) that by (intro airtime_within_old) (meson le_less_trans)
  have en: "at_enabled (gov_cfg g)" using assms(3,6) by (simp add: to_airtime_def)
  have rest: "run_at g now = 0"
    using assms(9) by (auto simp: run_at_def run_over_def split: option.splits)
  note big = duty_checks(1-3) [OF assms(1,2,3)]
  show ?thesis
    unfolding check_send_iff [OF en] rest old [OF window_le_retention(1)] old [OF window_le_retention(2)]
    using assms(6,8) cost big by auto
qed

section \<open>Key-up timing\<close>

lemma ms_to_kiss_tens:
  assumes "ms \<le> 2550"
  shows "unat (ms_to_kiss (from_millis ms)) = ms div 10"
proof -
  have "as_millis (from_millis ms) = ms" by (simp add: as_millis_def from_millis_def)
  moreover have "ms div 10 \<le> 255" using assms by simp
  ultimately show ?thesis by (simp add: ms_to_kiss_def unat_of_nat)
qed

definition keyed_airtime :: "tnc_config \<Rightarrow> nat \<Rightarrow> duration" where
  "keyed_airtime tc octets =
     airtime_for ((tc_airtime tc)\<lparr>
       at_txdelay := from_millis (10 * unat (ms_to_kiss (at_txdelay (tc_airtime tc)))),
       at_txtail := from_millis (10 * unat (ms_to_kiss (at_txtail (tc_airtime tc))))\<rparr>) octets"

text \<open>The timing that a validated configuration pushes to the TNC, in units of ten milliseconds, is the one the governor
  prices with, rounded down: a frame keyed with it is on the air for no longer than the governor charges,
  and for less than twenty milliseconds shorter.
\<close>
theorem keyed_time_never_underpriced:
  assumes "validate env cf = None" "rc_enabled (cf_radio cf)" "du_enabled (rc_duty (cf_radio cf))"
  shows "keyed_airtime (tnc_config_of cf link) n \<le> airtime_for (tc_airtime (tnc_config_of cf link)) n \<and>
    airtime_for (tc_airtime (tnc_config_of cf link)) n < keyed_airtime (tnc_config_of cf link) n + from_millis 20"
proof -
  let ?d = "rc_duty (cf_radio cf)"
  have air: "tc_airtime (tnc_config_of cf link) = to_airtime ?d"
    by (simp add: tnc_config_of_def tnc_from_config_def Let_def)
  have t: "unat (ms_to_kiss (at_txdelay (to_airtime ?d))) = du_txdelay_ms ?d div 10"
    "unat (ms_to_kiss (at_txtail (to_airtime ?d))) = du_txtail_ms ?d div 10"
    using duty_checks(7,8) [OF assms] by (simp_all add: to_airtime_def ms_to_kiss_tens)
  have "10 * (du_txdelay_ms ?d div 10) \<le> du_txdelay_ms ?d" "du_txdelay_ms ?d < 10 * (du_txdelay_ms ?d div 10) + 10"
    "10 * (du_txtail_ms ?d div 10) \<le> du_txtail_ms ?d" "du_txtail_ms ?d < 10 * (du_txtail_ms ?d div 10) + 10"
    by simp_all
  then show ?thesis
    unfolding keyed_airtime_def air t by (simp add: airtime_for_def to_airtime_def Let_def from_millis_def)
qed

section \<open>Names and passwords\<close>

lemma oper_names_distinct:
  "oper_names seen os = None \<Longrightarrow> distinct (map (\<lambda>o'. lower (op_name o')) os) \<and>
     set seen \<inter> set (map (\<lambda>o'. lower (op_name o')) os) = {}"
  by (induction seen os rule: oper_names.induct) (auto split: if_splits)

lemma check_channels_distinct:
  "check_channels seen chs = None \<Longrightarrow> distinct (map (\<lambda>c. lower (cc_name c)) chs) \<and>
     fst ` set seen \<inter> set (map (\<lambda>c. lower (cc_name c)) chs) = {} \<and> list_all (\<lambda>c. is_channel_name (cc_name c)) chs"
  by (induction seen chs rule: check_channels.induct)
     (auto simp: map_of_eq_None_iff split: if_splits option.splits)

text \<open>In a validated configuration no two channels and no two operators have the same name under the IRC case mapping,
  every channel name is well formed, and when an operator password is not a hash every address the
  server listens on, TLS or not, is a loopback address.
\<close>
theorem validated_names_and_passwords:
  assumes "validate env cf = None"
  shows "distinct (map (\<lambda>c. lower (cc_name c)) (cf_channels cf)) \<and> distinct (map (\<lambda>o'. lower (op_name o')) (cf_opers cf)) \<and>
    list_all (\<lambda>c. is_channel_name (cc_name c)) (cf_channels cf) \<and>
    (list_all (\<lambda>o'. ce_phc env (op_password o')) (cf_opers cf) \<or> list_all bind_is_loopback (listen_addresses cf))"
proof -
  have all: "\<forall>x \<in> set (check_server env cf). x = None"
    using validate_server [OF assms] by blast
  note each = all [unfolded check_server_def all_None_Cons]
  have "oper_names [] (cf_opers cf) = None" "check_channels [] (cf_channels cf) = None"
    using each by (simp_all add: check_oper_names_def)
  moreover have "check_oper_passwords (ce_phc env) (cf_opers cf) (listen_addresses cf) = None"
    using each by simp
  ultimately show ?thesis
    using oper_names_distinct [of "[]" "cf_opers cf"] check_channels_distinct [of "[]" "cf_channels cf"]
    by (auto simp: check_oper_passwords_def Let_def list_all_iff filter_empty_conv split: if_splits)
qed

section \<open>A configuration that passes\<close>

definition valid_config :: config where
  "valid_config =
     (config_named (lit ''rfirc.example''))\<lparr>
       cf_radio := radio_config_default\<lparr>rc_enabled := True, rc_callsign := lit ''SK0MT-1'', rc_path := [lit ''WIDE1-1'']\<rparr>,
       cf_channels := [\<lparr>cc_name = lit ''#rf'', cc_topic = [], cc_rf = True, cc_operators = []\<rparr>],
       cf_opers := [\<lparr>op_name = lit ''op'', op_password = lit ''secret''\<rparr>]\<rparr>"

definition valid_env :: config_env where
  "valid_env = \<lparr>ce_tls = (\<lambda>_ _. False), ce_phc = (\<lambda>_. False), ce_read = (\<lambda>_. None)\<rparr>"

lemma default_bind_loopback: "bind_is_loopback (lit ''127.0.0.1:6667'')"
  by (simp add: bind_is_loopback_def socket_parse_def read_socket_v4_def read_v4_def read_separated_def read_octet_def
      read_number_def digit_of_def hex_digit_def is_ascii_digit_def read_char_def read_port_def is_loopback_def lit_def)

lemma valid_server: "first_error (check_server valid_env valid_config) = None"
  by (simp add: check_server_def check_moved_def valid_config_def config_named_def valid_env_def radio_config_default_def
      tnc_section_default_def listen_config_default_def accounts_config_default_def policy_config_default_def
      check_oper_names_def check_oper_passwords_def listen_addresses_def default_bind_loopback [unfolded lit_def, simplified] is_channel_name_def
      trim_def trim_start_def trim_end_def is_whitespace_def lower_def lit_def is_control_def str_len_def utf8_def)

lemma valid_callsigns:
  "callsign_from_str (lit ''SK0MT-1'') = Inr (Callsign (lit ''SK0MT'') 1)"
  "callsign_from_str (lit ''WIDE1-1'') = Inr (Callsign (lit ''WIDE1'') 1)"
  "callsign_from_str (lit ''AIRC'') = Inr (Callsign (lit ''AIRC'') 0)"
  by (simp_all add: callsign_from_str_def callsign_new_def parse_ssid_def parse_unsigned_def lit_def char_class_defs
      trim_def trim_start_def trim_end_def is_whitespace_def to_ascii_uppercase_def to_upper_def)

lemma valid_radio:
  "first_error (check_station (cf_radio valid_config)) = None"
  "first_error (check_bridging valid_config) = None"
  "first_error (check_duty valid_env (cf_radio valid_config)) = None"
proof -
  show "first_error (check_station (cf_radio valid_config)) = None"
    by (simp add: check_station_def valid_config_def config_named_def radio_config_default_def valid_callsigns
        require_amateur_def looks_like_amateur_call_def)
       (simp add: lit_def char_class_defs str_len_def utf8_def)
  show "first_error (check_bridging valid_config) = None"
    by (simp add: check_bridging_def valid_config_def config_named_def radio_config_default_def)
  show "first_error (check_duty valid_env (cf_radio valid_config)) = None"
    by (simp add: check_duty_def valid_config_def config_named_def radio_config_default_def tnc_section_default_def
        duty_config_default_def HARD_MAX_DUTY_def STANDARD_PACKET_BAUDS_def check_hardware_safe_def burst_duty_def
        to_airtime_def as_secs_def from_secs_def from_millis_def airtime_for_def FRAMING_OCTETS_def from_micros_def
        allowance_def effective_duty_def clamp_def Let_def)
qed

lemma valid_enabled: "rc_enabled (cf_radio valid_config)" "du_enabled (rc_duty (cf_radio valid_config))"
  "rc_paclen (cf_radio valid_config) = 128"
  by (simp_all add: valid_config_def radio_config_default_def duty_config_default_def)

lemma valid_rest:
  "max_rf_fragments (cf_policy valid_config) = 2" "rc_max_queued_airtime_secs (cf_radio valid_config) = 60"
  "rc_interlock (cf_radio valid_config) = None" "check_policy_callsigns (cf_policy valid_config) = None"
  by (simp_all add: valid_config_def config_named_def radio_config_default_def policy_config_default_def
      check_policy_callsigns_def)

lemma valid_config_valid: "validate valid_env valid_config = None"
proof -
  have "first_error (check_station (cf_radio valid_config) @ [None, None, None] @ check_bridging valid_config @ [None]
      @ check_duty valid_env (cf_radio valid_config) @ [None]) = None"
    using valid_radio unfolding first_error_None set_append by fastforce
  then show ?thesis
    unfolding validate_def Let_def valid_server
    by (simp only: valid_enabled valid_rest option.case bail_def check_interlock_def) simp
qed

theorem validated_station_builds_frames_witness:
  "case gateway_callsign valid_config of
     None \<Rightarrow> False
   | Some c \<Rightarrow> (case ax25_ui c (Callsign (lit ''AIRC'') 0) (rf_path valid_config) [65, 49] of
                   Inl _ \<Rightarrow> False
                 | Inr f \<Rightarrow> length (ax25_encode f) \<le> tc_max_frame (tnc_config_of valid_config LinkLoopback))"
  using validated_station_builds_frames [OF valid_config_valid valid_enabled(1),
      of "[65, 49]" LinkLoopback "Callsign (lit ''AIRC'') 0"]
  by (simp add: valid_enabled(3) split: option.splits)

definition valid_frame :: ax25_frame where
  "valid_frame =
     \<lparr>destination = with_c_bit True (address_new (Callsign (lit ''AIRC'') 0)),
      source_addr = address_new (Callsign (lit ''SK0MT'') 1),
      digipeaters = map address_new (rf_path valid_config), control = CONTROL_UI, pid = Some PID_NO_L3,
      info = [65, 49]\<rparr>"

theorem validated_frames_are_sendable_witness:
  "fst (gov_check (length (ax25_encode valid_frame)) 7
     (governor_new (to_airtime (rc_duty (cf_radio valid_config))))) = TxSend"
proof -
  have "rf_path valid_config = [Callsign (lit ''WIDE1'') 1]"
    by (simp add: rf_path_def valid_config_def parse_ok_def valid_callsigns map_filter_simps)
  then have "ax25_ui (Callsign (lit ''SK0MT'') 1) (Callsign (lit ''AIRC'') 0) (rf_path valid_config) [65, 49] =
      Inr valid_frame"
    by (simp add: ax25_ui_def valid_frame_def MAX_DIGIPEATERS_def)
  from validated_frames_are_sendable [OF valid_config_valid valid_enabled(1,2) this]
  show ?thesis by (simp add: valid_enabled(3) governor_new_def)
qed

theorem keyed_time_never_underpriced_witness:
  "keyed_airtime (tnc_config_of valid_config LinkLoopback) 100
     \<le> airtime_for (tc_airtime (tnc_config_of valid_config LinkLoopback)) 100"
  using keyed_time_never_underpriced [OF valid_config_valid valid_enabled(1,2)] by blast

theorem validated_names_and_passwords_witness:
  "list_all bind_is_loopback (listen_addresses valid_config)"
  using validated_names_and_passwords [OF valid_config_valid] by (simp add: valid_env_def valid_config_def)

end
