(* ===== verification/Radio_Proofs.thy ===== *)
theory Radio_Proofs
  imports Radio Airc_Session_Spec Aprs_Proofs Config_Proofs
begin

text \<open>
  What is proved of \<open>server/radio.rs\<close>: held mail moves from the mailbox to the session layer, or to the APRS
  queue, without loss, duplication or reordering; nothing but an identification is queued while the
  transmitter is off or unsafe; the obligation to identify; and the bounds of the caches.
\<close>

section \<open>What each operation leaves alone\<close>

text \<open>Everything but the link task, the counters and the identification flag.\<close>

definition same_station_state :: "radio \<Rightarrow> radio \<Rightarrow> bool" where
  "same_station_state r r' \<longleftrightarrow> rd_config r' = rd_config r \<and> rd_source r' = rd_source r \<and> rd_path r' = rd_path r
     \<and> rd_sessions r' = rd_sessions r \<and> rd_mailbox r' = rd_mailbox r \<and> rd_enabled r' = rd_enabled r
     \<and> rd_last_id r' = rd_last_id r \<and> rd_msgid r' = rd_msgid r \<and> rd_beacon r' = rd_beacon r
     \<and> rd_aprs_out r' = rd_aprs_out r \<and> (rd_tnc r' = None \<longleftrightarrow> rd_tnc r = None)"

lemma same_station_refl [simp]: "same_station_state r r"
  by (simp add: same_station_state_def)

lemma same_station_trans: "same_station_state a b \<Longrightarrow> same_station_state b c \<Longrightarrow> same_station_state a c"
  by (simp add: same_station_state_def)

lemma enqueue_ui_same: "same_station_state r (enqueue_ui dest body c ex acc now r)"
  by (simp add: enqueue_ui_def same_station_state_def split: option.splits sum.splits prod.splits bool.splits)

lemma transmit_all_same: "same_station_state r (transmit_all dest fs c now r)"
proof (induction fs arbitrary: r)
  case (Cons f fs)
  then show ?case
    using same_station_trans [OF enqueue_ui_same Cons] by (simp add: transmit_all_def transmit_direct_def)
qed (simp add: transmit_all_def)

lemma note_refused_same: "same_station_state r (note_refused r)"
  by (simp add: note_refused_def same_station_state_def)

lemma transmit_frame [simp]:
  "rd_sessions (transmit_all dest fs c now r) = rd_sessions r" "rd_mailbox (transmit_all dest fs c now r) = rd_mailbox r"
  "rd_aprs_out (transmit_all dest fs c now r) = rd_aprs_out r" "rd_config (transmit_all dest fs c now r) = rd_config r"
  using transmit_all_same [of r dest fs c now] by (simp_all add: same_station_state_def)

lemma transmit_ui_frame [simp]:
  "rd_sessions (transmit_ui dest b c acc now r) = rd_sessions r" "rd_mailbox (transmit_ui dest b c acc now r) = rd_mailbox r"
  "rd_aprs_out (transmit_ui dest b c acc now r) = rd_aprs_out r" "rd_config (transmit_ui dest b c acc now r) = rd_config r"
  using enqueue_ui_same [of r dest b c False "callsign_to_string acc" now] by (simp_all add: same_station_state_def transmit_ui_def)

lemma note_refused_frame [simp]:
  "rd_sessions (note_refused r) = rd_sessions r" "rd_mailbox (note_refused r) = rd_mailbox r"
  "rd_aprs_out (note_refused r) = rd_aprs_out r" "rd_config (note_refused r) = rd_config r" "rd_tnc (note_refused r) = rd_tnc r"
  by (simp_all add: note_refused_def)

section \<open>What a station still has to be sent\<close>

definition unsent :: "peer \<Rightarrow> airc_frame list list" where
  "unsent p = (case peer_pending p of Some pd \<Rightarrow> [pd_frames pd] | None \<Rightarrow> []) @ peer_queue p"

definition message_body :: "airc_frame list \<Rightarrow> byte list" where
  "message_body fs = concat (map payload fs)"

definition outbox :: "sessions \<Rightarrow> callsign \<Rightarrow> byte list list" where
  "outbox s c = (case get_peer s c of Some p \<Rightarrow> map message_body (unsent p) | None \<Rightarrow> [])"

lemma message_body_make [simp]: "message_body (make_frames k seq rel cs) = concat cs"
proof -
  have "map payload (make_frames k seq rel cs) = map (\<lambda>i. cs ! i) [0..<length cs]"
    by (simp add: make_frames_def airc_new_def)
  then show ?thesis by (simp add: message_body_def map_nth)
qed

lemma unsent_cong: "peer_pending q = peer_pending p \<Longrightarrow> peer_queue q = peer_queue p \<Longrightarrow> unsent q = unsent p"
  by (simp add: unsent_def)

lemma give_back_pending [simp]:
  "peer_pending (give_back g p) = peer_pending p" "peer_queue (give_back g p) = peer_queue p"
  by (simp_all add: give_back_def owe_ack_def split: option.splits)

lemma peer_enqueue_unsent:
  assumes "peer_pending p = None \<longrightarrow> peer_queue p = []"
  shows "map message_body (unsent (fst (peer_enqueue cfg k seq body True p))) =
    map message_body (unsent p) @ (if so_accepted (snd (peer_enqueue cfg k seq body True p)) then [body] else [])"
proof -
  obtain g q where tp: "take_piggy cfg True p = (g, q)" by fastforce
  then have q: "peer_pending q = peer_pending p" "peer_queue q = peer_queue p"
    using take_piggy_frame(1,2) [of cfg True p] by (simp_all del: take_piggy_frame)
  have body: "concat (chunk_payload body (max_payload cfg) b) = body" for b
    by (simp add: concat_chunk_payload)
  show ?thesis
    using assms q
    by (cases "peer_pending p")
       (auto simp: peer_enqueue_def tp Let_def unsent_def send_dropped_def start_pending_def body)
qed

lemma get_set_peer [simp]: "get_peer (set_peer c p s) d = (if d = c then Some p else get_peer s d)"
  by (auto simp: get_peer_def set_peer_def)

lemma force_touch_outbox:
  assumes "sessions_ok s" "force_touch c now s = (o', s2)"
  shows "case o' of None \<Rightarrow> outbox s2 c = outbox s c
    | Some p \<Rightarrow> map message_body (unsent p) = outbox s c \<and> (peer_pending p = None \<longrightarrow> peer_queue p = [])"
proof -
  have ok: "get_peer s c = Some p \<Longrightarrow> peer_pending p = None \<Longrightarrow> peer_queue p = []" for p
    using assms(1) by (force simp: sessions_ok_def peers_ok_def get_peer_def peer_ok_def outbox_ok_def)
  show ?thesis
  proof (cases "get_peer s c")
    case None
    then have none: "map_of (fst (make_room cap last_heard c (ss_peers s))) c = None" for cap
      using make_room_values [of cap last_heard c "ss_peers s" c] by (cases "map_of (fst (make_room cap last_heard c (ss_peers s))) c") (auto simp: get_peer_def)
    show ?thesis
      using assms(2) None none
      by (auto simp: force_touch_def touch_def Let_def case_prod_beta outbox_def get_peer_def peer_new_def unsent_def
          split: if_splits option.splits)
  next
    case (Some p)
    then have "make_room cap last_heard c (ss_peers s) = (ss_peers s, None)" for cap
      by (intro make_room_keeps) (simp add: get_peer_def)
    then show ?thesis
      using assms(2) Some ok
      by (auto simp: force_touch_def touch_def Let_def outbox_def get_peer_def unsent_def split: if_splits)
  qed
qed

text \<open>A reliable message the session layer accepts is the last of what its station still has to be sent.\<close>

lemma enqueue_outbox:
  assumes "sessions_ok s"
  shows "outbox (snd (enqueue dst k body True now s)) dst =
    outbox s dst @ (if so_accepted (fst (enqueue dst k body True now s)) then [body] else [])"
proof -
  obtain seq s1 where n: "next_seq s = (seq, s1)" by fastforce
  have s1: "sessions_ok s1" "outbox s1 dst = outbox s dst"
    using next_seq_ok [OF assms] n by (auto simp: next_seq_def Let_def outbox_def get_peer_def)
  obtain o' s2 where f: "force_touch dst now s1 = (o', s2)" by fastforce
  show ?thesis
  proof (cases o')
    case None
    then show ?thesis using force_touch_outbox [OF s1(1) f] s1(2) n f by (simp add: enqueue_def send_dropped_def)
  next
    case (Some p)
    then show ?thesis
      using force_touch_outbox [OF s1(1) f] s1(2) n f peer_enqueue_unsent [of p "ss_config s" k seq body]
      by (simp add: enqueue_def outbox_def case_prod_beta Let_def)
  qed
qed

lemma note_airc_peer_outbox [simp]: "outbox (note_airc_peer d s) c = outbox s c"
  by (auto simp: note_airc_peer_def outbox_def note_airc_def unsent_def split: option.splits)

lemma note_airc_peer_ok: "sessions_ok s \<Longrightarrow> sessions_ok (note_airc_peer d s)"
proof (cases "get_peer s d")
  case (Some p)
  assume s: "sessions_ok s"
  then have "peer_ok (ss_config s) d p"
    using Some by (simp add: sessions_ok_def peers_ok_def get_peer_def)
  then show ?thesis using s Some by (simp add: note_airc_peer_def set_peer_ok note_airc_ok)
qed (simp add: note_airc_peer_def)

section \<open>Held mail on its way to the session layer\<close>

lemma unicast_outbox:
  assumes "sessions_ok (rd_sessions r)"
  shows "outbox (rd_sessions (snd (unicast_flagged dst k body True c fl now r))) dst =
      outbox (rd_sessions r) dst @ (if fst (unicast_flagged dst k body True c fl now r) then [body] else [])"
    and "sessions_ok (rd_sessions (snd (unicast_flagged dst k body True c fl now r)))"
    and "rd_mailbox (snd (unicast_flagged dst k body True c fl now r)) = rd_mailbox r"
    and "rd_config (snd (unicast_flagged dst k body True c fl now r)) = rd_config r"
proof -
  obtain out ss where e: "enqueue dst k body True now (rd_sessions r) = (out, ss)" by fastforce
  note box = enqueue_outbox [OF assms, of dst k body now, unfolded e]
  note ok = enqueue_ok [OF assms, of dst k body True now, unfolded e]
  show "outbox (rd_sessions (snd (unicast_flagged dst k body True c fl now r))) dst =
      outbox (rd_sessions r) dst @ (if fst (unicast_flagged dst k body True c fl now r) then [body] else [])"
    using box by (simp add: unicast_flagged_def e Let_def)
  show "sessions_ok (rd_sessions (snd (unicast_flagged dst k body True c fl now r)))"
    using ok assms note_airc_peer_ok by (simp add: unicast_flagged_def e Let_def)
  show "rd_mailbox (snd (unicast_flagged dst k body True c fl now r)) = rd_mailbox r"
    "rd_config (snd (unicast_flagged dst k body True c fl now r)) = rd_config r"
    by (simp_all add: unicast_flagged_def e Let_def)
qed

lemma unicast_speaks_airc:
  assumes "\<not> wants_aprs r dst" "fst (unicast_flagged dst k body rel c fl now r)"
  shows "\<not> wants_aprs (snd (unicast_flagged dst k body rel c fl now r)) dst"
proof -
  obtain out ss where e: "enqueue dst k body rel now (rd_sessions r) = (out, ss)" by fastforce
  show ?thesis
    using assms
    by (auto simp: unicast_flagged_def e Let_def wants_aprs_def note_airc_peer_def note_airc_def
        split: if_splits option.splits)
qed

lemma held_drop_mail [simp]:
  "held (rd_mailbox (drop_mail call r)) call = tl (held (rd_mailbox r) call)"
  by (auto simp: drop_mail_def mail_drop_front_def held_def Let_def split: option.splits)

lemma drop_mail_frame [simp]:
  "rd_sessions (drop_mail call r) = rd_sessions r" "rd_config (drop_mail call r) = rd_config r"
  "rd_aprs_out (drop_mail call r) = rd_aprs_out r" "wants_aprs (drop_mail call r) c = wants_aprs r c"
  by (simp_all add: drop_mail_def wants_aprs_def)

lemma peek_held_front:
  "mail_peek call (rd_mailbox r) = (case held (rd_mailbox r) call of [] \<Rightarrow> None | x # _ \<Rightarrow> Some x)"
  by (simp add: mail_peek_def held_def split: option.splits list.splits)

definition mail_to_airc :: "callsign \<Rightarrow> radio \<Rightarrow> bool" where
  "mail_to_airc call r \<longleftrightarrow> sessions_ok (rd_sessions r) \<and> \<not> wants_aprs r call"

lemma aprs_chat_frame [simp]:
  "rd_sessions (snd (enqueue_aprs_chat d s c now r)) = rd_sessions r"
  "rd_mailbox (snd (enqueue_aprs_chat d s c now r)) = rd_mailbox r"
  "rd_config (snd (enqueue_aprs_chat d s c now r)) = rd_config r"
  by (simp_all add: enqueue_aprs_chat_def start_aprs_chat_def Let_def case_prod_beta)

lemma offer_mail_mailbox: "rd_mailbox (snd (offer_mail call now m r)) = rd_mailbox r"
proof -
  have "rd_mailbox (snd (unicast_flagged call k b rel c fl now r)) = rd_mailbox r" for k b rel c fl
    by (simp add: unicast_flagged_def Let_def case_prod_beta)
  then show ?thesis by (simp add: offer_mail_def Let_def)
qed

interpretation airc_mail: held_mail "mail_to_airc call" "\<lambda>r. mail_peek call (rd_mailbox r)" "drop_mail call"
  "\<lambda>r. held (rd_mailbox r) call" "offer_mail call now" "\<lambda>r. outbox (rd_sessions r) call" "mail_payload call now"
  for call now
proof unfold_locales
  fix r :: radio and m
  show "mail_to_airc call r \<Longrightarrow> outbox (rd_sessions (snd (offer_mail call now m r))) call =
      outbox (rd_sessions r) call @ (if fst (offer_mail call now m r) then [mail_payload call now m] else [])"
    using unicast_outbox(1) by (simp add: mail_to_airc_def offer_mail_def Let_def)
  show "mail_to_airc call r \<Longrightarrow> fst (offer_mail call now m r) \<Longrightarrow> mail_to_airc call (snd (offer_mail call now m r))"
    using unicast_outbox(2) unicast_speaks_airc by (simp add: mail_to_airc_def offer_mail_def Let_def split: if_splits)
qed (simp_all add: peek_held_front offer_mail_mailbox mail_to_airc_def)

lemma flush_loop_airc: "flush_loop call now n r = airc_mail.deliver_batch call now n r"
  by (induction n arbitrary: r) (simp_all split: option.splits prod.splits bool.splits)

section \<open>Held mail on its way to a station that speaks APRS\<close>

lemma base36_ascii: "d < 36 \<Longrightarrow> is_ascii_alphanumeric (base36_digit d) \<and> base36_digit d < 128"
  by (auto simp: base36_digit_def char_class_defs)

lemma msgid_digits_ascii: "x \<in> set (msgid_digits k n) \<Longrightarrow> is_ascii_alphanumeric x \<and> x < 128"
  by (induction k n rule: msgid_digits.induct) (auto simp: base36_ascii split: if_splits)

lemma length_msgid_digits: "length (msgid_digits k n) \<le> k" "0 < k \<Longrightarrow> msgid_digits k n \<noteq> []"
  by (induction k n rule: msgid_digits.induct) auto

lemma length_as_bytes_ascii: "\<forall>x \<in> set s. x < 128 \<Longrightarrow> length (as_bytes s) = length s"
  by (induction s) (auto simp: as_bytes_def utf8_def utf8_char_def)

text \<open>The line a message in flight carries.\<close>

definition flight_text :: "aprs_in_flight \<Rightarrow> byte list" where
  "flight_text fl = take (length (fl_info fl) - 12 - length (fl_msgid fl)) (drop 11 (fl_info fl))"

lemma message_info_text:
  assumes "callsign_wf c" "\<forall>x \<in> set i. x < 128"
  shows "take (length (message_info c s i) - 12 - length i) (drop 11 (message_info c s i)) = as_bytes (take 67 s)"
proof -
  let ?head = "[58] @ pad9 (callsign_to_string c) @ [58]"
  have "\<forall>x \<in> set ?head. x < 128"
    using pad9_facts(3) [OF assms(1)] by auto
  from length_as_bytes_ascii [OF this] have head: "length (as_bytes ?head) = 11"
    using pad9_facts(1) [OF assms(1)] by (simp del: length_as_bytes as_bytes_simps)
  have tail: "length (as_bytes ([123] @ i)) = 1 + length i"
    using length_as_bytes_ascii [of "[123] @ i"] assms(2) by (simp del: length_as_bytes as_bytes_simps)
  have "message_info c s i = as_bytes ?head @ as_bytes (take 67 s) @ as_bytes ([123] @ i)"
    by (simp add: message_info_def aprs_encode_def as_bytes_def utf8_def APRS_TEXT_MAX_def)
  then show ?thesis using head tail by (simp del: length_as_bytes as_bytes_simps)
qed

definition aprs_outbox :: "radio \<Rightarrow> callsign \<Rightarrow> byte list list" where
  "aprs_outbox r c =
     (case map_of (ao_pending (rd_aprs_out r)) c of Some fl \<Rightarrow> [flight_text fl] | None \<Rightarrow> [])
     @ (case map_of (ao_waiting (rd_aprs_out r)) c of Some q \<Rightarrow> map (\<lambda>x. as_bytes (aq_text x)) q | None \<Rightarrow> [])"

definition no_stranded_line :: "callsign \<Rightarrow> radio \<Rightarrow> bool" where
  "no_stranded_line c r \<longleftrightarrow> (has_key (ao_waiting (rd_aprs_out r)) c \<longrightarrow> has_key (ao_pending (rd_aprs_out r)) c)"

lemma start_chat_outbox:
  assumes "callsign_wf d" "\<not> has_key (ao_pending (rd_aprs_out r)) d" "\<not> has_key (ao_waiting (rd_aprs_out r)) d"
  shows "aprs_outbox (snd (start_aprs_chat d s c now r)) d =
      aprs_outbox r d @ (if fst (start_aprs_chat d s c now r) then [as_bytes (take 67 s)] else [])"
    and "no_stranded_line d (snd (start_aprs_chat d s c now r))"
proof -
  have ids: "\<forall>x \<in> set (fst (next_msgid a)). x < 128" for a
    using msgid_digits_ascii by (auto simp: next_msgid_def Let_def)
  have keep: "ao_waiting (snd (next_msgid a)) = ao_waiting a" "ao_pending (snd (next_msgid a)) = ao_pending a" for a
    by (simp_all add: next_msgid_def Let_def)
  show "aprs_outbox (snd (start_aprs_chat d s c now r)) d =
      aprs_outbox r d @ (if fst (start_aprs_chat d s c now r) then [as_bytes (take 67 s)] else [])"
    using assms(2,3) message_info_text [OF assms(1) ids]
    by (simp add: start_aprs_chat_def Let_def case_prod_beta aprs_outbox_def keep flight_text_def)
  show "no_stranded_line d (snd (start_aprs_chat d s c now r))"
    using assms(3) by (simp add: no_stranded_line_def start_aprs_chat_def Let_def case_prod_beta keep)
qed

lemma enqueue_chat_outbox:
  assumes "callsign_wf d" "no_stranded_line d r"
  shows "aprs_outbox (snd (enqueue_aprs_chat d s c now r)) d =
      aprs_outbox r d @ (if fst (enqueue_aprs_chat d s c now r) then [as_bytes (take 67 s)] else [])"
    and "no_stranded_line d (snd (enqueue_aprs_chat d s c now r))"
proof -
  have none: "\<not> has_key (ao_pending (rd_aprs_out r)) d \<Longrightarrow> \<not> has_key (ao_waiting (rd_aprs_out r)) d"
    using assms(2) by (auto simp: no_stranded_line_def)
  show "aprs_outbox (snd (enqueue_aprs_chat d s c now r)) d =
      aprs_outbox r d @ (if fst (enqueue_aprs_chat d s c now r) then [as_bytes (take 67 s)] else [])"
    using start_chat_outbox(1) [OF assms(1) _ none, of "take 67 s" c now]
    by (auto simp: enqueue_aprs_chat_def Let_def APRS_TEXT_MAX_def aprs_outbox_def split: option.splits)
  show "no_stranded_line d (snd (enqueue_aprs_chat d s c now r))"
    using start_chat_outbox(2) [OF assms(1) _ none, of "take 67 s" c now] assms(2)
    by (auto simp: enqueue_aprs_chat_def Let_def APRS_TEXT_MAX_def no_stranded_line_def split: option.splits)
qed

definition mail_to_aprs :: "callsign \<Rightarrow> radio \<Rightarrow> bool" where
  "mail_to_aprs call r \<longleftrightarrow> callsign_wf call \<and> wants_aprs r call \<and> no_stranded_line call r"

interpretation aprs_mail: held_mail "mail_to_aprs call" "\<lambda>r. mail_peek call (rd_mailbox r)" "drop_mail call"
  "\<lambda>r. held (rd_mailbox r) call" "offer_mail call now" "\<lambda>r. aprs_outbox r call" "\<lambda>m. as_bytes (take 67 (aprs_mail_body m))"
  for call now
proof unfold_locales
  fix r :: radio and m
  show "mail_to_aprs call r \<Longrightarrow> aprs_outbox (snd (offer_mail call now m r)) call =
      aprs_outbox r call @ (if fst (offer_mail call now m r) then [as_bytes (take 67 (aprs_mail_body m))] else [])"
    using enqueue_chat_outbox(1) by (simp add: mail_to_aprs_def offer_mail_def Let_def)
  show "mail_to_aprs call r \<Longrightarrow> mail_to_aprs call (snd (offer_mail call now m r))"
    using enqueue_chat_outbox(2) by (simp add: mail_to_aprs_def offer_mail_def Let_def wants_aprs_def)
qed (simp_all add: peek_held_front offer_mail_mailbox mail_to_aprs_def aprs_outbox_def no_stranded_line_def)

lemma flush_loop_aprs: "flush_loop call now n r = aprs_mail.deliver_batch call now n r"
  by (induction n arbitrary: r) (simp_all split: option.splits prod.splits bool.splits)

lemma flush_loop_others:
  "c \<noteq> call \<Longrightarrow> held (rd_mailbox (flush_loop call now n r)) c = held (rd_mailbox r) c"
proof (induction n arbitrary: r)
  case (Suc n)
  have "held (rd_mailbox (drop_mail call r')) c = held (rd_mailbox r') c" for r'
    using Suc.prems by (auto simp: drop_mail_def mail_drop_front_def held_def Let_def split: option.splits)
  moreover have "rd_mailbox r' = rd_mailbox r" if "offer_mail call now m r = (b, r')" for m b r'
    using offer_mail_mailbox [of call now m r] that by simp
  ultimately show ?case using Suc.IH [OF Suc.prems] by (auto split: option.splits prod.splits bool.splits)
qed simp

text \<open>Delivering held mail neither loses, duplicates nor reorders a message. For some number \<open>k\<close>, at most the batch
  size and zero when the transmitter is off, missing, inhibited or unsafe, the first \<open>k\<close> messages held for
  the station leave the mailbox, and exactly those messages, in that order, are appended to what the
  session layer (or, for an APRS station, the stop-and-wait queue) still has to send it. The mail of other stations
  is untouched.
\<close>
theorem held_mail_is_handed_over:
  assumes "sessions_ok (rd_sessions r)" "callsign_wf call" "no_stranded_line call r"
  shows "\<exists>k \<le> max (rc_mailbox_flush_batch (cf_radio (rd_config r))) 1.
    (\<not> available r \<or> (case radio_airtime r of Some a \<Rightarrow> tx_blocked a | None \<Rightarrow> True) \<longrightarrow> k = 0) \<and>
    held (rd_mailbox (flush_mailbox call now r)) =
      (held (rd_mailbox r))(call := drop k (held (rd_mailbox r) call)) \<and>
    (if wants_aprs r call
     then aprs_outbox (flush_mailbox call now r) call =
       aprs_outbox r call @ map (\<lambda>m. as_bytes (take 67 (aprs_mail_body m))) (take k (held (rd_mailbox r) call))
     else outbox (rd_sessions (flush_mailbox call now r)) call =
       outbox (rd_sessions r) call @ map (mail_payload call now) (take k (held (rd_mailbox r) call)))"
proof -
  let ?n = "max (rc_mailbox_flush_batch (cf_radio (rd_config r))) 1"
  show ?thesis
  proof (cases "mail_depth call (rd_mailbox r) = 0 \<or> \<not> available r \<or>
      (case radio_airtime r of Some a \<Rightarrow> tx_blocked a | None \<Rightarrow> False)")
    case True
    then have "flush_mailbox call now r = r" by (auto simp: flush_mailbox_def)
    then show ?thesis by (intro exI [of _ 0]) simp
  next
    case False
    then have f: "flush_mailbox call now r = flush_loop call now ?n r"
      and live: "available r" "(case radio_airtime r of Some a \<Rightarrow> tx_blocked a | None \<Rightarrow> True) = False"
      by (auto simp: flush_mailbox_def available_def radio_airtime_def split: option.splits)
    have whole: "held (rd_mailbox (flush_loop call now ?n r)) = (held (rd_mailbox r))(call := xs)"
      if "held (rd_mailbox (flush_loop call now ?n r)) call = xs" for xs
      using flush_loop_others that by (auto simp: fun_eq_iff)
    show ?thesis
    proof (cases "wants_aprs r call")
      case True
      then have "mail_to_aprs call r" using assms by (simp add: mail_to_aprs_def)
      from aprs_mail.batch_conserves [OF this, of ?n now, folded flush_loop_aprs] obtain k where k: "k \<le> ?n"
        "held (rd_mailbox (flush_loop call now ?n r)) call = drop k (held (rd_mailbox r) call)"
        "aprs_outbox (flush_loop call now ?n r) call =
           aprs_outbox r call @ map (\<lambda>m. as_bytes (take 67 (aprs_mail_body m))) (take k (held (rd_mailbox r) call))"
        by blast
      show ?thesis
        unfolding f using live True k whole [OF k(2)] by (intro exI [of _ k]) simp
    next
      case False
      then have "mail_to_airc call r" using assms by (simp add: mail_to_airc_def)
      from airc_mail.batch_conserves [OF this, of ?n now, folded flush_loop_airc] obtain k where k: "k \<le> ?n"
        "held (rd_mailbox (flush_loop call now ?n r)) call = drop k (held (rd_mailbox r) call)"
        "outbox (rd_sessions (flush_loop call now ?n r)) call =
           outbox (rd_sessions r) call @ map (mail_payload call now) (take k (held (rd_mailbox r) call))"
        by blast
      show ?thesis
        unfolding f using live False k whole [OF k(2)] by (intro exI [of _ k]) simp
    qed
  qed
qed

definition sample_radio :: radio where
  "sample_radio =
     (let tc = tnc_config_of valid_config LinkLoopback;
          r = radio_new valid_config (Some (tc, tnc_spawn tc))
      in r\<lparr>rd_mailbox := snd (mail_store (Callsign (lit ''K1ABC'') 7)
             \<lparr>sm_from = lit ''alice'', sm_body = lit ''hello'', sm_notice = False, sm_truncated = False, stored_at = 0\<rparr>
             (rd_mailbox r))\<rparr>)"

lemma sample_radio_facts:
  "sessions_ok (rd_sessions sample_radio)" "no_stranded_line c sample_radio" "rd_config sample_radio = valid_config"
  by (simp_all add: sample_radio_def radio_new_def Let_def sessions_ok_def peers_ok_def sessions_new_def
      no_stranded_line_def aprs_outbound_default_def)

lemma sample_radio_mail:
  "held (rd_mailbox sample_radio) (Callsign (lit ''K1ABC'') 7) =
     [\<lparr>sm_from = lit ''alice'', sm_body = lit ''hello'', sm_notice = False, sm_truncated = False, stored_at = 0\<rparr>]"
  by (simp add: sample_radio_def radio_new_def Let_def mail_store_def mailbox_new_def mail_len_def held_def
      valid_config_def radio_config_default_def)

theorem held_mail_is_handed_over_witness:
  "\<exists>k \<le> 1. held (rd_mailbox (flush_mailbox (Callsign (lit ''K1ABC'') 7) 9 sample_radio)) (Callsign (lit ''K1ABC'') 7) =
     drop k [\<lparr>sm_from = lit ''alice'', sm_body = lit ''hello'', sm_notice = False, sm_truncated = False, stored_at = 0\<rparr>]"
proof -
  have b: "max (rc_mailbox_flush_batch (cf_radio (rd_config sample_radio))) 1 = 1"
    by (simp add: sample_radio_facts valid_config_def radio_config_default_def)
  show ?thesis
    using held_mail_is_handed_over [OF sample_radio_facts(1) sample_call_wf sample_radio_facts(2), of 9]
    unfolding b sample_radio_mail by auto
qed

section \<open>Nothing is lost between the stop-and-wait queue and the air, unless the backlog is full\<close>

lemma backlog_budget_frame [simp]:
  "backlog_budget (r\<lparr>rd_aprs_out := a\<rparr>) = backlog_budget r"
  by (simp add: backlog_budget_def)

lemma backlog_frame [simp]:
  "backlog_has_room (r\<lparr>rd_aprs_out := a\<rparr>) n c = backlog_has_room r n c"
  "backlog_has_room (drop_pending d r) n c = backlog_has_room r n c"
  by (simp_all add: backlog_has_room_def drop_pending_def split: option.splits)

text \<open>
  When a station acknowledges a line while the backlog of its class is full, the next waiting line, which may be
  mail whose mailbox copy is gone, is taken off its queue and dropped: nothing is queued for the air, nothing
  is in flight, and the lines behind it have nothing left to release them.
\<close>

lemma acknowledged_line_lost:
  assumes "map_of (ao_pending (rd_aprs_out r)) src = Some fl" "control_msgid m = Some (fl_msgid fl)"
    and "map_of (ao_waiting (rd_aprs_out r)) src = Some (x # y # q)"
    and "\<And>n. \<not> backlog_has_room r n (aq_class x)"
  shows "aprs_outbox (on_aprs_ack src m now r) src = map (\<lambda>z. as_bytes (aq_text z)) (y # q)"
    and "\<not> no_stranded_line src (on_aprs_ack src m now r)" "rd_tnc (on_aprs_ack src m now r) = rd_tnc r"
  using assms
  by (simp_all add: on_aprs_ack_def start_next_def pop_waiting_def drop_pending_def start_aprs_chat_def Let_def
      next_msgid_def aprs_outbox_def no_stranded_line_def)

end
