(* ===== verification/Radio_Spec.thy ===== *)
theory Radio_Spec
  imports Radio_Proofs
begin

text \<open>
  The transmit side of \<open>server/radio.rs\<close> as a machine: the operations the server performs on it, and what
  the link task does in the meantime, are steps. Proved of every step: silence when the transmitter is off or unsafe, the identification
  obligation, and the invariant of the tables it keeps.
\<close>

section \<open>The operations\<close>

datatype radio_op =
    RoBroadcast kind "byte list" radio_class byte
  | RoUnicast callsign kind "byte list" bool radio_class byte
  | RoDirect callsign airc_frame radio_class
  | RoUi callsign "byte list" radio_class callsign
  | RoChat callsign ustr radio_class
  | RoAprsAck callsign aprs_message
  | RoTickAprs
  | RoDrainAcks
  | RoFlush callsign
  | RoStore callsign stored_message
  | RoExpireMail
  | RoHear callsign airc_frame bool
  | RoTick bool
  | RoMsgid callsign ustr
  | RoBeacon callsign ustr
  | RoExpire
  | RoKeyed
  | RoEnable bool
  | RoInhibit bool
  | RoLink tnc
  | RoMaybeId
  | RoIdIfNeeded
  | RoIdNow

text \<open>\<open>RoLink t\<close> is whatever the link task did to its own state in the meantime.\<close>

fun radio_step :: "radio_op \<Rightarrow> instant \<Rightarrow> radio \<Rightarrow> radio" where
  "radio_step (RoBroadcast k b c fl) now r = broadcast_flagged k b c fl now r"
| "radio_step (RoUnicast d k b rel c fl) now r = snd (unicast_flagged d k b rel c fl now r)"
| "radio_step (RoDirect d f c) now r = transmit_direct d f c now r"
| "radio_step (RoUi d b c acc) now r = transmit_ui d b c acc now r"
| "radio_step (RoChat d s c) now r = snd (enqueue_aprs_chat d s c now r)"
| "radio_step (RoAprsAck d m) now r = on_aprs_ack d m now r"
| "radio_step RoTickAprs now r = tick_aprs now r"
| "radio_step RoDrainAcks now r = radio_drain_acks now r"
| "radio_step (RoFlush d) now r = flush_mailbox d now r"
| "radio_step (RoStore d m) now r = r\<lparr>rd_mailbox := snd (mail_store d m (rd_mailbox r))\<rparr>"
| "radio_step RoExpireMail now r = r\<lparr>rd_mailbox := snd (mail_expire now (rd_mailbox r))\<rparr>"
| "radio_step (RoHear d f us) now r = r\<lparr>rd_sessions := snd (on_receive d f now us (rd_sessions r))\<rparr>"
| "radio_step (RoTick retry) now r = r\<lparr>rd_sessions := snd (tick_retries now retry (rd_sessions r))\<rparr>"
| "radio_step (RoMsgid d i) now r = remember_aprs_msgid d i now r"
| "radio_step (RoBeacon d s) now r = remember_aprs_beacon d s now r"
| "radio_step RoExpire now r = expire_aprs_msgids now r"
| "radio_step RoKeyed now r = drain_keyed now r"
| "radio_step (RoEnable b) now r = r\<lparr>rd_enabled := b\<rparr>"
| "radio_step (RoInhibit b) now r = set_tx_inhibit b r"
| "radio_step (RoLink t) now r = r\<lparr>rd_tnc := map_option (\<lambda>(tc, _). (tc, t)) (rd_tnc r)\<rparr>"
| "radio_step RoMaybeId now r = maybe_identify now r"
| "radio_step RoIdIfNeeded now r = id_if_needed now r"
| "radio_step RoIdNow now r = snd (identify_now now r)"

fun is_id_op :: "radio_op \<Rightarrow> bool" where
  "is_id_op RoMaybeId = True"
| "is_id_op RoIdIfNeeded = True"
| "is_id_op RoIdNow = True"
| "is_id_op _ = False"

fun is_link_op :: "radio_op \<Rightarrow> bool" where
  "is_link_op (RoLink _) = True"
| "is_link_op (RoInhibit _) = True"
| "is_link_op RoKeyed = True"
| "is_link_op _ = False"

fun is_switch_op :: "radio_op \<Rightarrow> bool" where
  "is_switch_op (RoEnable _) = True"
| "is_switch_op (RoInhibit _) = True"
| "is_switch_op _ = False"

section \<open>Silence\<close>

definition quiet_radio :: "radio \<Rightarrow> bool" where
  "quiet_radio r \<longleftrightarrow> \<not> available r \<or> interlock_down r"

lemma enqueue_ui_quiet: "quiet_radio r \<Longrightarrow> enqueue_ui d b c ex acc now r = r"
  by (auto simp: quiet_radio_def available_def interlock_down_def radio_airtime_def enqueue_ui_def
      split: option.splits)

lemma transmit_quiet [simp]:
  assumes "quiet_radio r"
  shows "transmit_direct d f c now r = r" "transmit_ui d b c acc now r = r" "transmit_all d fs c now r = r"
proof -
  show one: "transmit_direct d f c now r = r" "transmit_ui d b c acc now r = r" for f
    using assms by (simp_all add: transmit_direct_def transmit_ui_def enqueue_ui_quiet)
  show "transmit_all d fs c now r = r"
    unfolding transmit_all_def by (induction fs) (simp_all add: one)
qed

lemma quiet_cong:
  "rd_enabled r' = rd_enabled r \<Longrightarrow> rd_tnc r' = rd_tnc r \<Longrightarrow> quiet_radio r' = quiet_radio r"
  by (simp add: quiet_radio_def available_def interlock_down_def radio_airtime_def)

lemma start_next_tnc: "quiet_radio r \<Longrightarrow> rd_tnc (start_next c now r) = rd_tnc r \<and> rd_enabled (start_next c now r) = rd_enabled r"
proof -
  assume q: "quiet_radio r"
  have "quiet_radio (r\<lparr>rd_aprs_out := a\<rparr>)" for a
    using q by (simp add: quiet_cong [of "r\<lparr>rd_aprs_out := a\<rparr>" r])
  then show ?thesis
    by (simp add: start_next_def start_aprs_chat_def Let_def case_prod_beta note_refused_def split: option.split)
qed

lemma quiet_steps:
  assumes "quiet_radio r"
  shows "broadcast_flagged k b c fl now r = r" "unicast_flagged d k b rel c fl now r = (False, r)"
    "enqueue_aprs_chat d s c now r = (False, r)" "tick_aprs now r = r" "flush_mailbox d now r = r"
    "rd_tnc (radio_drain_acks now r) = rd_tnc r" "rd_tnc (on_aprs_ack d m now r) = rd_tnc r"
proof -
  show "broadcast_flagged k b c fl now r = r" "unicast_flagged d k b rel c fl now r = (False, r)"
    "enqueue_aprs_chat d s c now r = (False, r)" "tick_aprs now r = r"
    using assms by (simp_all add: quiet_radio_def broadcast_flagged_def unicast_flagged_def enqueue_aprs_chat_def tick_aprs_def)
  show "flush_mailbox d now r = r"
    using assms
    by (auto simp: flush_mailbox_def quiet_radio_def interlock_down_def tx_blocked_def interlock_failed_def split: option.splits)
  have acks: "fold (\<lambda>(dst, f). transmit_direct dst f TxAck now) xs s = s" if "quiet_radio s" for xs s
    using that by (induction xs) auto
  have "quiet_radio (r\<lparr>rd_sessions := ss\<rparr>)" for ss
    using assms by (subst quiet_cong [of _ r]) simp_all
  then show "rd_tnc (radio_drain_acks now r) = rd_tnc r"
    by (simp add: radio_drain_acks_def case_prod_beta acks)
  have "quiet_radio (drop_pending d r)"
    using assms by (subst quiet_cong [of _ r]) (simp_all add: drop_pending_def)
  from start_next_tnc [OF this] show "rd_tnc (on_aprs_ack d m now r) = rd_tnc r"
    by (simp add: on_aprs_ack_def drop_pending_def split: option.split)
qed

lemma silenced_link:
  assumes "\<not> available r \<or> interlock_down r" "\<not> is_id_op op" "\<not> is_link_op op"
  shows "rd_tnc (radio_step op now r) = rd_tnc r"
proof -
  have q: "quiet_radio r" using assms(1) by (simp add: quiet_radio_def)
  show ?thesis
    using assms(2,3)
    by (cases op) (simp_all add: quiet_steps [OF q] transmit_quiet [OF q] remember_aprs_msgid_def expire_aprs_msgids_def
        remember_aprs_beacon_def Let_def)
qed

text \<open>C23: While the operator has switched the transmitter off, or there is none, or the safety interlock is down, no
  operation of the server except identification hands anything to the link task: its queues,
  its clocks and its counters stay exactly as they were.
\<close>
theorem nothing_queued_when_silenced:
  assumes "\<not> available r \<or> interlock_down r" "\<not> is_id_op op" "\<not> is_link_op op"
  shows "rd_tnc (radio_step op now r) = rd_tnc r"
  by (rule silenced_link [OF assms])

theorem nothing_queued_when_silenced_witness:
  "rd_tnc (radio_step (RoFlush (Callsign (lit ''K1ABC'') 7)) 9 (sample_radio\<lparr>rd_enabled := False\<rparr>)) = rd_tnc sample_radio"
  using nothing_queued_when_silenced [of "sample_radio\<lparr>rd_enabled := False\<rparr>" "RoFlush (Callsign (lit ''K1ABC'') 7)" 9]
  by (simp add: available_def)

section \<open>What every step of traffic has in common\<close>

text \<open>
  A relation between a radio and what became of it that a queued frame and every change of the tables respect holds for
  every step of traffic.
\<close>

locale radio_relation =
  fixes R :: "radio \<Rightarrow> radio \<Rightarrow> bool"
  assumes refl: "R r r"
    and trans: "R a b \<Longrightarrow> R b c \<Longrightarrow> R a c"
    and queued: "R r (enqueue_ui dst body cls ex acc now r)"
    and tables: "R r (r\<lparr>rd_sessions := ss\<rparr>)" "R r (r\<lparr>rd_aprs_out := ao\<rparr>)" "R r (r\<lparr>rd_mailbox := mb\<rparr>)"
      "R r (r\<lparr>rd_msgid := mi\<rparr>)" "R r (r\<lparr>rd_beacon := be\<rparr>)"
    and counted: "R r (note_refused r)" "R r (r\<lparr>rd_stats := note_dropped (rd_stats r)\<rparr>)"
begin

lemma direct: "R r (transmit_direct d f c now r)"
  by (simp add: transmit_direct_def queued)

lemma ui: "R r (transmit_ui d b c acc now r)"
  by (simp add: transmit_ui_def queued)

lemma folded: "(\<And>y s. R s (f y s)) \<Longrightarrow> R r (fold f ys r)"
proof (induction ys arbitrary: r)
  case (Cons y ys)
  then show ?case using trans [of r "f y r"] by simp
qed (simp add: refl)

lemma every_frame: "R r (transmit_all d fs c now r)"
  unfolding transmit_all_def by (rule folded) (rule direct)

lemma broadcasts: "R r (broadcast_flagged k b c fl now r)"
proof -
  have "R r (transmit_all d fs c now (r\<lparr>rd_sessions := ss\<rparr>))" for d fs ss
    by (rule trans [OF tables(1) every_frame])
  moreover have "R r (r\<lparr>rd_sessions := ss, rd_stats := note_dropped (rd_stats r)\<rparr>)" for ss
    using trans [OF tables(1) counted(2), of r ss] by simp
  moreover have "R r (note_refused (r\<lparr>rd_sessions := ss\<rparr>))" for ss
    by (rule trans [OF tables(1) counted(1)])
  ultimately show ?thesis
    by (simp add: broadcast_flagged_def Let_def case_prod_beta tables refl counted)
qed

lemma unicasts: "R r (snd (unicast_flagged d k b rel c fl now r))"
proof -
  have "R r (transmit_all d fs c now (r\<lparr>rd_sessions := ss\<rparr>))" for fs ss
    by (rule trans [OF tables(1) every_frame])
  then show ?thesis
    by (simp add: unicast_flagged_def Let_def case_prod_beta tables refl counted)
qed

lemma chat_start: "R r (snd (start_aprs_chat d s c now r))"
proof -
  have "R r ((transmit_ui e b c d now (r\<lparr>rd_aprs_out := a\<rparr>))\<lparr>rd_aprs_out := a'\<rparr>)" for e b a a'
    by (rule trans [OF trans [OF tables(2) ui] tables(2)])
  moreover have "R r (note_refused (r\<lparr>rd_aprs_out := a\<rparr>))" for a
    by (rule trans [OF tables(2) counted(1)])
  ultimately show ?thesis
    by (simp add: start_aprs_chat_def Let_def case_prod_beta)
qed

lemma chat: "R r (snd (enqueue_aprs_chat d s c now r))"
  using trans [OF tables(2) counted(1)] by (simp add: enqueue_aprs_chat_def Let_def chat_start counted tables refl split: option.split)

lemma next_start: "R r (start_next c now r)"
proof -
  have "R r (snd (start_aprs_chat c s k now (r\<lparr>rd_aprs_out := a\<rparr>)))" for s k a
    by (rule trans [OF tables(2) chat_start])
  then show ?thesis by (simp add: start_next_def Let_def case_prod_beta tables refl split: option.split)
qed

lemma pending_dropped: "R r (drop_pending d r)"
  by (simp add: drop_pending_def tables refl)

lemma acknowledged: "R r (on_aprs_ack d m now r)"
  using trans [OF pending_dropped next_start] by (simp add: on_aprs_ack_def refl split: option.split)

lemma retried: "R r (retry_aprs now c r)"
proof -
  have a: "R r (start_next c now ((drop_pending c r)\<lparr>rd_stats := note_dropped (rd_stats (drop_pending c r))\<rparr>))"
    by (rule trans [OF trans [OF pending_dropped counted(2)] next_start])
  have b: "R r ((transmit_ui e b k c now (drop_pending c r))\<lparr>rd_aprs_out := a'\<rparr>)" for e b k a'
    by (rule trans [OF trans [OF pending_dropped ui] tables(2)])
  show ?thesis by (simp add: retry_aprs_def Let_def a b refl split: option.split)
qed

lemma acks_drained: "R r (radio_drain_acks now r)"
proof -
  have "R r (fold (\<lambda>(dst, f). transmit_direct dst f TxAck now) xs (r\<lparr>rd_sessions := ss\<rparr>))" for xs ss
    by (rule trans [OF tables(1) folded]) (auto simp: direct)
  then show ?thesis by (simp add: radio_drain_acks_def case_prod_beta)
qed

lemma mail_offered: "R r (snd (offer_mail d now m r))"
  by (simp add: offer_mail_def Let_def chat unicasts refl)

lemma flushed: "R r (flush_loop d now n r)"
proof (induction n arbitrary: r)
  case (Suc n)
  have "R r r'" if "offer_mail d now m r = (b, r')" for m b r'
    using mail_offered [of r d now m] that by simp
  then show ?case
    using trans [OF trans [OF _ tables(3)] Suc.IH]
    by (auto simp: drop_mail_def refl split: option.split prod.split bool.split)
qed (simp add: refl)

lemma expired: "R r (expire_aprs_msgids now r)"
  using trans [OF tables(4) tables(5)] by (simp add: expire_aprs_msgids_def)

lemma remembered: "R r (remember_aprs_msgid d i now r)" "R r (remember_aprs_beacon d s now r)"
  using trans [OF expired tables(4)] tables(5)
  by (simp_all add: remember_aprs_msgid_def remember_aprs_beacon_def Let_def)

lemma traffic:
  assumes "\<not> is_id_op op" "is_link_op op \<or> is_switch_op op \<Longrightarrow> R r (radio_step op now r)"
  shows "R r (radio_step op now r)"
  using assms
  by (cases op) (simp_all add: broadcasts unicasts direct ui chat acknowledged tick_aprs_def folded retried acks_drained
      flush_mailbox_def flushed tables remembered expired refl)

end

section \<open>The identification obligation\<close>

definition frames_queued :: "radio \<Rightarrow> nat" where
  "frames_queued r = rf_frames_tx (rd_stats r)"

text \<open>A step of traffic: the flag is set exactly when something was queued.\<close>

definition owes_step :: "radio \<Rightarrow> radio \<Rightarrow> bool" where
  "owes_step r r' \<longleftrightarrow> frames_queued r \<le> frames_queued r' \<and> rd_last_id r' = rd_last_id r \<and>
     (rd_transmitted_since_id r' \<longleftrightarrow> rd_transmitted_since_id r \<or> frames_queued r < frames_queued r')"

lemma owes_refl [simp]: "owes_step r r"
  by (simp add: owes_step_def)

lemma owes_trans: "owes_step a b \<Longrightarrow> owes_step b c \<Longrightarrow> owes_step a c"
  by (auto simp: owes_step_def)

lemma owes_same:
  "rf_frames_tx (rd_stats r') = rf_frames_tx (rd_stats r) \<Longrightarrow> rd_last_id r' = rd_last_id r \<Longrightarrow>
     rd_transmitted_since_id r' = rd_transmitted_since_id r \<Longrightarrow> owes_step r r'"
  by (simp add: owes_step_def frames_queued_def)

lemma enqueue_ui_owes: "owes_step r (enqueue_ui d b c ex acc now r)"
  by (simp add: enqueue_ui_def owes_step_def frames_queued_def note_sent_def note_dropped_def
      split: option.splits sum.splits prod.splits bool.splits)

interpretation owes: radio_relation owes_step
proof
  show "owes_step a b \<Longrightarrow> owes_step b c \<Longrightarrow> owes_step a c" for a b c
    by (rule owes_trans)
qed (simp_all add: enqueue_ui_owes owes_same note_refused_def note_dropped_def)

lemma traffic_owes: "\<not> is_id_op op \<Longrightarrow> owes_step r (radio_step op now r)"
  by (rule owes.traffic) (auto simp: owes_same drain_keyed_def set_tx_inhibit_def is_link_op.simps is_switch_op.simps
      elim!: is_link_op.elims is_switch_op.elims split: option.split)

text \<open>The identification the station would send now, and what waits in the class of identifications.\<close>

definition id_frames :: "radio \<Rightarrow> ax25_frame list" where
  "id_frames r =
     (case rd_source r of
        None \<Rightarrow> []
      | Some src \<Rightarrow>
          (case ax25_ui src (Callsign (lit ''ID'') 0) (rd_path r)
                  (airc_encode (airc_new KId (ss_next_seq (rd_sessions r)) (id_payload (rd_config r)))) of
             Inl _ \<Rightarrow> []
           | Inr ax \<Rightarrow> [ax]))"

definition id_queue :: "radio \<Rightarrow> ax25_frame list" where
  "id_queue r = (case rd_tnc r of Some (_, t) \<Rightarrow> map q_payload (sd_queues (tn_sched t) CId) | None \<Rightarrow> [])"

definition id_room :: "radio \<Rightarrow> bool" where
  "id_room r \<longleftrightarrow> (case rd_tnc r of Some (_, t) \<Rightarrow> 0 < tx_room_in t CId | None \<Rightarrow> False)"

definition id_sent :: "instant \<Rightarrow> radio \<Rightarrow> radio \<Rightarrow> bool" where
  "id_sent now r r' \<longleftrightarrow> \<not> rd_transmitted_since_id r' \<and> rd_last_id r' = Some now \<and> frames_queued r' = frames_queued r + 1
     \<and> id_frames r \<noteq> [] \<and> id_queue r' = id_queue r @ id_frames r"

definition not_identified :: "radio \<Rightarrow> radio \<Rightarrow> bool" where
  "not_identified r r' \<longleftrightarrow> rd_transmitted_since_id r' = rd_transmitted_since_id r \<and> rd_last_id r' = rd_last_id r
     \<and> frames_queued r' = frames_queued r \<and> id_queue r' = id_queue r"

lemma enqueue_id_queue:
  "tnc_enqueue tc ax CId acc ex now t = (b, t') \<Longrightarrow>
     b = (0 < tx_room_in t CId) \<and>
     map q_payload (sd_queues (tn_sched t') CId) =
       map q_payload (sd_queues (tn_sched t) CId) @ (if b then [ax] else [])"
  by (auto simp: tnc_enqueue_def sched_push_def Let_def set_queue_def publish_def tx_room_in_def room_in_def
      split: if_splits)

lemma send_id_effect:
  "if id_room r \<and> id_frames r \<noteq> [] then fst (send_id now r) \<and> id_sent now r (snd (send_id now r))
   else \<not> fst (send_id now r) \<and> not_identified r (snd (send_id now r))"
proof -
  let ?seq = "ss_next_seq (rd_sessions r)"
  obtain ss where n: "next_seq (rd_sessions r) = (?seq, ss)" by (simp add: next_seq_def Let_def)
  show ?thesis
  proof (cases "\<exists>tc t src. rd_tnc r = Some (tc, t) \<and> rd_source r = Some src")
    case False
    then show ?thesis
      by (auto simp: send_id_def n transmit_id_def id_frames_def id_room_def not_identified_def frames_queued_def id_queue_def
          split: option.splits)
  next
    case True
    then obtain tc t src where r: "rd_tnc r = Some (tc, t)" "rd_source r = Some src" by blast
    show ?thesis
    proof (cases "ax25_ui src (Callsign (lit ''ID'') 0) (rd_path r)
        (airc_encode (airc_new KId ?seq (id_payload (rd_config r))))")
      case (Inl e)
      then show ?thesis using r
        by (simp add: send_id_def n transmit_id_def id_frames_def not_identified_def frames_queued_def id_queue_def)
    next
      case (Inr ax)
      obtain b t' where e: "try_send_id tc ax now t = (b, t')" by fastforce
      note q = enqueue_id_queue [OF e [unfolded try_send_id_def]]
      show ?thesis using r Inr e q
        by (cases b) (simp_all add: send_id_def n transmit_id_def id_frames_def id_room_def id_sent_def
            not_identified_def frames_queued_def id_queue_def note_sent_def note_dropped_def)
    qed
  qed
qed

lemma id_op_effect:
  assumes "is_id_op op"
  shows "id_sent now r (radio_step op now r) \<or> not_identified r (radio_step op now r)"
proof -
  have same: "not_identified r r" by (simp add: not_identified_def)
  have "id_sent now r (snd (send_id now r)) \<or> not_identified r (snd (send_id now r))"
    using send_id_effect [of r now] by (auto split: if_splits)
  then show ?thesis
    using assms same
    by (cases op) (auto simp: maybe_identify_def id_if_needed_def identify_now_def case_prod_beta split: bool.split)
qed

text \<open>The obligation to identify is tracked exactly. A step that is not an identification leaves the station owing one
  exactly when it owed one before or the step queued a frame. An attempt to identify either changes
  neither the obligation, the time of the last identification, nor the queue, or it adds the station's own
  identification to the queue that goes first, records the time, and only then clears the obligation.
\<close>
theorem identification_obligation:
  "if is_id_op op
   then not_identified r (radio_step op now r) \<or> id_sent now r (radio_step op now r)
   else rd_last_id (radio_step op now r) = rd_last_id r \<and>
     (rd_transmitted_since_id (radio_step op now r)
        \<longleftrightarrow> rd_transmitted_since_id r \<or> frames_queued r < frames_queued (radio_step op now r))"
  using id_op_effect [of op now r] traffic_owes [of op r now] by (auto simp: owes_step_def)

text \<open>C24: An identification that is due is sent, whatever the operator's switch, the inhibit or the interlock say: under a
  validated configuration, a station that owes one and identified at least the configured interval ago, or never,
  or has been switched off since, queues it at the next tick as long as the queue of identifications has room.
\<close>
theorem identification_when_due:
  assumes "validate env (rd_config r) = None" "rc_enabled (cf_radio (rd_config r))"
    and "rd_source r = gateway_callsign (rd_config r)" "rd_path r = rf_path (rd_config r)"
    and "rd_transmitted_since_id r" "\<not> (rd_enabled r \<and> id_too_soon now r)" "id_room r"
  shows "id_sent now r (maybe_identify now r)"
proof -
  obtain c where c: "callsign_from_str (rc_callsign (cf_radio (rd_config r))) = Inr c"
    and len: "length (rc_path (cf_radio (rd_config r))) \<le> 2"
    using station_checks [OF assms(1,2)] by metis
  have "length (rd_path r) \<le> 2"
    using length_rf_path [of "rd_config r"] len assms(4) by simp
  then have "id_frames r \<noteq> []"
    using c assms(3) by (simp add: id_frames_def gateway_callsign_def parse_ok_def ax25_ui_def MAX_DIGIPEATERS_def)
  then have "id_sent now r (snd (send_id now r))"
    using send_id_effect [of r now] assms(7) by simp
  moreover have "rd_tnc r \<noteq> None" using assms(7) by (cases "rd_tnc r") (simp_all add: id_room_def)
  ultimately show ?thesis using assms(5,6) by (auto simp: maybe_identify_def)
qed

theorem identification_when_due_witness:
  "id_sent 9 (sample_radio\<lparr>rd_transmitted_since_id := True\<rparr>)
     (maybe_identify 9 (sample_radio\<lparr>rd_transmitted_since_id := True\<rparr>))"
proof -
  let ?r = "sample_radio\<lparr>rd_transmitted_since_id := True\<rparr>"
  have "rd_config ?r = valid_config" "rd_source ?r = gateway_callsign valid_config" "rd_path ?r = rf_path valid_config"
    "rd_last_id ?r = None"
    by (simp_all add: sample_radio_def radio_new_def Let_def)
  moreover have "id_room ?r"
    by (simp add: id_room_def sample_radio_def radio_new_def Let_def tnc_spawn_def tx_room_in_def room_in_def
        scheduler_new_def scheduler_from_tnc_def)
  ultimately show ?thesis
    using identification_when_due [of valid_env ?r 9] valid_config_valid valid_enabled(1)
    by (simp add: id_too_soon_def)
qed

text \<open>
  The obligation is set when a frame is queued, not when it is keyed. A frame that waits while the identification
  is queued is keyed after it, since identifications go first, and whatever the link task does next
  leaves the station owing nothing.
\<close>

lemma keyed_after_its_identification:
  assumes "rd_tnc r = Some (tc, t)" "item \<in> set (sd_queues (tn_sched t) CChat)" "rd_transmitted_since_id r"
    and "id_sent now r (maybe_identify now r)"
  shows "case rd_tnc (maybe_identify now r) of
      None \<Rightarrow> False
    | Some (_, t') \<Rightarrow> item \<in> set (sd_queues (tn_sched t') CChat)"
    and "\<not> rd_transmitted_since_id (radio_step (RoLink t'') later (maybe_identify now r))"
proof -
  have q: "sd_queues (tn_sched (snd (try_send_id tc ax now t))) CChat = sd_queues (tn_sched t) CChat" for ax
    by (simp add: try_send_id_def tnc_enqueue_def sched_push_def Let_def set_queue_def publish_def)
  have tid: "\<exists>t'. rd_tnc (snd (transmit_id d f now s)) = Some (tc, t') \<and> sd_queues (tn_sched t') CChat = sd_queues (tn_sched t) CChat"
    if "rd_tnc s = Some (tc, t)" for d f s
    using that q by (auto simp: transmit_id_def case_prod_beta split: option.split sum.split bool.split)
  have "\<exists>t'. rd_tnc (snd (send_id now r)) = Some (tc, t') \<and> sd_queues (tn_sched t') CChat = sd_queues (tn_sched t) CChat"
    using tid [of "r\<lparr>rd_sessions := snd (next_seq (rd_sessions r))\<rparr>"] assms(1)
    by (simp add: send_id_def case_prod_beta Let_def split: bool.split)
  then show "case rd_tnc (maybe_identify now r) of
      None \<Rightarrow> False
    | Some (_, t') \<Rightarrow> item \<in> set (sd_queues (tn_sched t') CChat)"
    using assms(1,2) by (auto simp: maybe_identify_def)
  show "\<not> rd_transmitted_since_id (radio_step (RoLink t'') later (maybe_identify now r))"
    using assms(4) by (simp add: id_sent_def)
qed

section \<open>What the station remembers is bounded and consistent\<close>

definition flight_ok :: "nat \<Rightarrow> aprs_in_flight \<Rightarrow> bool" where
  "flight_ok most fl \<longleftrightarrow> msgid_ok (fl_msgid fl) \<and> 1 \<le> fl_attempts fl \<and> fl_attempts fl \<le> most"

definition aprs_ok :: "nat \<Rightarrow> aprs_outbound \<Rightarrow> bool" where
  "aprs_ok most a \<longleftrightarrow> table_ok (ao_pending a) \<and> table_ok (ao_waiting a)
     \<and> (\<forall>c fl. map_of (ao_pending a) c = Some fl \<longrightarrow> flight_ok most fl)
     \<and> (\<forall>c q. map_of (ao_waiting a) c = Some q \<longrightarrow> q \<noteq> [] \<and> length q \<le> 8)"

definition cache_ok :: "nat \<Rightarrow> ('k, instant) table \<Rightarrow> bool" where
  "cache_ok cap m \<longleftrightarrow> table_ok m \<and> length m \<le> cap"

definition radio_ok :: "radio \<Rightarrow> bool" where
  "radio_ok r \<longleftrightarrow> sessions_ok (rd_sessions r) \<and> mailbox_ok (rd_mailbox r) \<and> aprs_ok (aprs_max_retries r) (rd_aprs_out r)
     \<and> cache_ok APRS_MSGID_MAX (rd_msgid r) \<and> cache_ok APRS_BEACON_MAX (rd_beacon r)"

lemma radio_ok_cong:
  assumes "radio_ok r" "rd_sessions r' = rd_sessions r" "rd_mailbox r' = rd_mailbox r" "rd_aprs_out r' = rd_aprs_out r"
    "rd_msgid r' = rd_msgid r" "rd_beacon r' = rd_beacon r" "rd_config r' = rd_config r"
  shows "radio_ok r'"
  using assms by (simp add: radio_ok_def aprs_max_retries_def)

lemma same_station_ok: "radio_ok r \<Longrightarrow> same_station_state r r' \<Longrightarrow> radio_ok r'"
  by (erule radio_ok_cong) (simp_all add: same_station_state_def)

lemma radio_ok_sessions: "radio_ok r \<Longrightarrow> sessions_ok ss \<Longrightarrow> radio_ok (r\<lparr>rd_sessions := ss\<rparr>)"
  by (simp add: radio_ok_def aprs_max_retries_def)

lemma radio_ok_mailbox: "radio_ok r \<Longrightarrow> mailbox_ok m \<Longrightarrow> radio_ok (r\<lparr>rd_mailbox := m\<rparr>)"
  by (simp add: radio_ok_def aprs_max_retries_def)

lemma radio_ok_aprs: "radio_ok r \<Longrightarrow> aprs_ok (aprs_max_retries r) a \<Longrightarrow> radio_ok (r\<lparr>rd_aprs_out := a\<rparr>)"
  by (simp add: radio_ok_def aprs_max_retries_def)

lemma radio_okD:
  assumes "radio_ok r"
  shows "sessions_ok (rd_sessions r)" "mailbox_ok (rd_mailbox r)" "aprs_ok (aprs_max_retries r) (rd_aprs_out r)"
  using assms by (simp_all add: radio_ok_def)

lemma transmit_ok:
  assumes "radio_ok r"
  shows "radio_ok (transmit_direct d f c now r)" "radio_ok (transmit_ui d b c acc now r)" "radio_ok (transmit_all d fs c now r)"
    "radio_ok (note_refused r)"
  using same_station_ok [OF assms enqueue_ui_same] same_station_ok [OF assms transmit_all_same]
    same_station_ok [OF assms note_refused_same]
  by (simp_all add: transmit_direct_def transmit_ui_def)

subsection \<open>The tables of APRS chat\<close>

lemma aprs_ok_pending:
  "aprs_ok n a \<Longrightarrow> flight_ok n fl \<Longrightarrow> aprs_ok n (a\<lparr>ao_pending := AList.update c fl (ao_pending a)\<rparr>)"
  by (auto simp: aprs_ok_def split: if_splits)

lemma aprs_ok_unpend: "aprs_ok n a \<Longrightarrow> aprs_ok n (a\<lparr>ao_pending := AList.delete c (ao_pending a)\<rparr>)"
  by (auto simp: aprs_ok_def split: if_splits)

lemma aprs_ok_waiting:
  "aprs_ok n a \<Longrightarrow> q \<noteq> [] \<Longrightarrow> length q \<le> 8 \<Longrightarrow> aprs_ok n (a\<lparr>ao_waiting := AList.update c q (ao_waiting a)\<rparr>)"
  by (auto simp: aprs_ok_def split: if_splits)

lemma aprs_ok_pop: "aprs_ok n a \<Longrightarrow> aprs_ok n (snd (pop_waiting c a))"
proof (cases "map_of (ao_waiting a) c")
  case (Some q)
  assume a: "aprs_ok n a"
  then have "length (tl q) \<le> 8" using Some by (force simp: aprs_ok_def)
  then show ?thesis using a Some by (auto simp: pop_waiting_def aprs_ok_def split: if_splits)
qed (simp add: pop_waiting_def)

lemma msgid_ok_next: "msgid_ok (fst (next_msgid a))"
proof -
  have l: "length (fst (next_msgid a)) \<le> 5" "fst (next_msgid a) \<noteq> []"
    using length_msgid_digits [of 5] by (simp_all add: next_msgid_def Let_def)
  have asc: "\<forall>x \<in> set (fst (next_msgid a)). is_ascii_alphanumeric x \<and> x < 128"
    using msgid_digits_ascii by (auto simp: next_msgid_def Let_def)
  then have "str_len (fst (next_msgid a)) = length (fst (next_msgid a))"
    using length_as_bytes_ascii by simp
  then show ?thesis using l asc by (cases "fst (next_msgid a)") (auto simp: msgid_ok_def list_all_iff)
qed

lemma start_chat_ok: "radio_ok r \<Longrightarrow> radio_ok (snd (start_aprs_chat d s c now r))"
proof -
  assume r: "radio_ok r"
  have a: "aprs_ok (aprs_max_retries r) (snd (next_msgid (rd_aprs_out r)))"
    using radio_okD(3) [OF r] by (simp add: aprs_ok_def next_msgid_def Let_def)
  have fl: "flight_ok (aprs_max_retries r) \<lparr>fl_msgid = fst (next_msgid (rd_aprs_out r)), fl_info = b, fl_class = c,
      fl_attempts = 1, fl_next_retry = t\<rparr>" for b t
    by (simp add: flight_ok_def msgid_ok_next aprs_max_retries_def)
  note r1 = radio_ok_aprs [OF r a]
  have "radio_ok ((transmit_ui e b c d now (r\<lparr>rd_aprs_out := snd (next_msgid (rd_aprs_out r))\<rparr>))\<lparr>rd_aprs_out := a'\<rparr>)"
    if "aprs_ok (aprs_max_retries r) a'" for e b a'
    using that by (intro radio_ok_aprs transmit_ok(2) r1) (simp add: aprs_max_retries_def)
  then show ?thesis
    using transmit_ok(4) [OF r1] aprs_ok_pending [OF a fl]
    by (simp add: start_aprs_chat_def Let_def case_prod_beta)
qed

lemma chat_ok: "radio_ok r \<Longrightarrow> radio_ok (snd (enqueue_aprs_chat d s c now r))"
proof -
  assume r: "radio_ok r"
  note a = radio_okD(3) [OF r]
  have full: "8 \<le> length q \<Longrightarrow> aprs_ok (aprs_max_retries r) ((rd_aprs_out r)\<lparr>ao_waiting := AList.update d q (ao_waiting (rd_aprs_out r))\<rparr>)"
    if "map_of (ao_waiting (rd_aprs_out r)) d = Some q" for q
    using a that by (intro aprs_ok_waiting) (auto simp: aprs_ok_def)
  show ?thesis
    using start_chat_ok [OF r] r full aprs_ok_waiting [OF a]
    by (auto simp: enqueue_aprs_chat_def Let_def intro!: transmit_ok(4) radio_ok_aprs split: option.split)
qed

lemma start_next_ok: "radio_ok r \<Longrightarrow> radio_ok (start_next c now r)"
  using start_chat_ok radio_ok_aprs [OF _ aprs_ok_pop [OF radio_okD(3)]]
  by (simp add: start_next_def Let_def case_prod_beta split: option.split)

lemma drop_pending_ok: "radio_ok r \<Longrightarrow> radio_ok (drop_pending c r)"
  using radio_ok_aprs [OF _ aprs_ok_unpend [OF radio_okD(3)]] by (simp add: drop_pending_def)

lemma aprs_ack_ok: "radio_ok r \<Longrightarrow> radio_ok (on_aprs_ack d m now r)"
  using start_next_ok drop_pending_ok by (simp add: on_aprs_ack_def split: option.split)

lemma retry_ok: "radio_ok r \<Longrightarrow> radio_ok (retry_aprs now c r)"
proof (cases "map_of (ao_pending (rd_aprs_out r)) c")
  case (Some fl)
  assume r: "radio_ok r"
  then have fl: "flight_ok (aprs_max_retries r) fl" using Some by (auto simp: radio_ok_def aprs_ok_def)
  note d = drop_pending_ok [OF r, of c]
  have m: "aprs_max_retries (drop_pending c r) = aprs_max_retries r"
    by (simp add: drop_pending_def aprs_max_retries_def)
  have "radio_ok ((drop_pending c r)\<lparr>rd_stats := s\<rparr>)" for s
    by (rule radio_ok_cong [OF d]) simp_all
  then have give_up: "radio_ok (start_next c now ((drop_pending c r)\<lparr>rd_stats := s\<rparr>))" for s
    by (rule start_next_ok)
  have again: "flight_ok (aprs_max_retries r) (fl\<lparr>fl_attempts := fl_attempts fl + 1, fl_next_retry := t\<rparr>)"
    if "\<not> aprs_max_retries r \<le> fl_attempts fl" for t
    using fl that by (simp add: flight_ok_def)
  have "radio_ok ((transmit_ui e b k c now (drop_pending c r))\<lparr>rd_aprs_out := a\<rparr>)"
    if "aprs_ok (aprs_max_retries r) a" for e b k a
    using that m by (intro radio_ok_aprs transmit_ok(2) d) (simp add: aprs_max_retries_def)
  then show ?thesis
    using Some give_up again radio_okD(3) [OF d] m
    by (simp add: retry_aprs_def Let_def aprs_ok_pending)
qed (simp add: retry_aprs_def)

lemma fold_ok: "(\<And>y s. radio_ok s \<Longrightarrow> radio_ok (f y s)) \<Longrightarrow> radio_ok r \<Longrightarrow> radio_ok (fold f ys r)"
  by (induction ys arbitrary: r) auto

subsection \<open>The caches\<close>

lemma cache_put:
  assumes "cache_ok cap m" "0 < cap"
  shows "cache_ok cap (AList.update k now (drop_oldest cap m))"
proof (cases "cap \<le> length m")
  case True
  then have "m \<noteq> []" using assms(2) by auto
  then obtain old where old: "min_key_by id m = Some old" using min_key_by_nonempty [of m id] by blast
  then have "length (AList.delete old m) < length m"
    by (intro length_delete_present min_key_by_mem)
  then show ?thesis using assms True old
    by (auto simp: cache_ok_def drop_oldest_def length_update)
qed (use assms in \<open>auto simp: cache_ok_def drop_oldest_def length_update\<close>)

lemma cache_filter: "cache_ok cap m \<Longrightarrow> cache_ok cap (filter P m)"
  by (auto simp: cache_ok_def table_ok_def distinct_map_filter intro: le_trans [OF length_filter_le])

lemma cache_steps_ok:
  assumes "radio_ok r"
  shows "radio_ok (expire_aprs_msgids now r)" "radio_ok (remember_aprs_msgid d i now r)"
    "radio_ok (remember_aprs_beacon d s now r)"
proof -
  show e: "radio_ok (expire_aprs_msgids now r)"
    using assms by (simp add: radio_ok_def expire_aprs_msgids_def cache_filter aprs_max_retries_def)
  have "0 < APRS_MSGID_MAX" "0 < APRS_BEACON_MAX" by (simp_all add: APRS_MSGID_MAX_def APRS_BEACON_MAX_def)
  then show "radio_ok (remember_aprs_msgid d i now r)" "radio_ok (remember_aprs_beacon d s now r)"
    using assms e by (simp_all add: radio_ok_def remember_aprs_msgid_def remember_aprs_beacon_def Let_def cache_put
        aprs_max_retries_def)
qed

subsection \<open>Every step\<close>

lemma broadcast_ok: "radio_ok r \<Longrightarrow> radio_ok (broadcast_flagged k b c fl now r)"
proof -
  assume r: "radio_ok r"
  have s: "radio_ok (r\<lparr>rd_sessions := snd (next_seq (rd_sessions r))\<rparr>)"
    using r by (intro radio_ok_sessions next_seq_ok radio_okD(1))
  then have "radio_ok (r\<lparr>rd_sessions := snd (next_seq (rd_sessions r)), rd_stats := st\<rparr>)" for st
    by (rule radio_ok_cong) simp_all
  then show ?thesis using r s transmit_ok(3,4) [OF s]
    by (simp add: broadcast_flagged_def Let_def case_prod_beta)
qed

lemma unicast_ok: "radio_ok r \<Longrightarrow> radio_ok (snd (unicast_flagged d k b rel c fl now r))"
proof -
  assume r: "radio_ok r"
  have e: "sessions_ok (snd (enqueue d k b' rel' now (rd_sessions r)))" for b' rel'
    by (rule enqueue_ok [OF radio_okD(1) [OF r]])
  show ?thesis
    using r transmit_ok(4) [OF r] radio_ok_sessions [OF r e]
      transmit_ok(3) [OF radio_ok_sessions [OF r note_airc_peer_ok [OF e]]]
    by (simp add: unicast_flagged_def Let_def case_prod_beta)
qed

lemma drain_ok: "radio_ok r \<Longrightarrow> radio_ok (radio_drain_acks now r)"
proof -
  assume r: "radio_ok r"
  have "radio_ok (r\<lparr>rd_sessions := snd (drain_acks (rd_sessions r))\<rparr>)"
    using r by (intro radio_ok_sessions drain_acks_ok radio_okD(1))
  then show ?thesis
    unfolding radio_drain_acks_def case_prod_beta Let_def by (rule fold_ok [rotated]) (simp add: case_prod_beta transmit_ok(1))
qed

lemma drop_mail_ok: "radio_ok r \<Longrightarrow> radio_ok (drop_mail d r)"
  using mail_machine.step_inv [of "rd_mailbox r" "DropFront d"] by (simp add: drop_mail_def radio_ok_mailbox radio_okD(2))

lemma offer_mail_ok: "radio_ok r \<Longrightarrow> radio_ok (snd (offer_mail d now m r))"
  by (simp add: offer_mail_def Let_def chat_ok unicast_ok)

lemma flush_loop_ok: "radio_ok r \<Longrightarrow> radio_ok (flush_loop d now n r)"
proof (induction n arbitrary: r)
  case (Suc n)
  have "radio_ok r'" if "offer_mail d now m r = (b, r')" for m b r'
    using offer_mail_ok [OF Suc.prems, of d now m] that by simp
  then show ?case using Suc drop_mail_ok by (auto split: option.split prod.split bool.split)
qed simp

lemma keyed_ok: "radio_ok r \<Longrightarrow> radio_ok (drain_keyed now r)"
proof -
  assume r: "radio_ok r"
  have "sessions_ok (fold (\<lambda>k. session_on_keyed (ke_dest k) (ke_seq k) now) ks s)" if "sessions_ok s"
    for ks :: "keyed_event list" and s
    using that by (induction ks arbitrary: s) (auto intro: session_on_keyed_ok)
  then have "radio_ok (r\<lparr>rd_sessions := fold (\<lambda>k. session_on_keyed (ke_dest k) (ke_seq k) now) ks (rd_sessions r)\<rparr>)"
    for ks :: "keyed_event list"
    using radio_ok_sessions [OF r] radio_okD(1) [OF r] by blast
  then have "radio_ok (r\<lparr>rd_sessions := fold (\<lambda>k. session_on_keyed (ke_dest k) (ke_seq k) now) ks (rd_sessions r),
      rd_tnc := t\<rparr>)" for ks :: "keyed_event list" and t
    by (rule radio_ok_cong) simp_all
  then show ?thesis using r by (simp add: drain_keyed_def split: option.split)
qed

lemma transmit_id_same: "same_station_state r (snd (transmit_id d f now r))"
  by (simp add: transmit_id_def same_station_state_def case_prod_beta split: option.split sum.split bool.split)

lemma send_id_ok: "radio_ok r \<Longrightarrow> radio_ok (snd (send_id now r))"
proof -
  assume r: "radio_ok r"
  have "radio_ok (r\<lparr>rd_sessions := snd (next_seq (rd_sessions r))\<rparr>)"
    using r by (intro radio_ok_sessions next_seq_ok radio_okD(1))
  then have t: "radio_ok (snd (transmit_id d f now (r\<lparr>rd_sessions := snd (next_seq (rd_sessions r))\<rparr>)))" for d f
    by (rule same_station_ok [OF _ transmit_id_same])
  then have "radio_ok ((snd (transmit_id d f now (r\<lparr>rd_sessions := snd (next_seq (rd_sessions r))\<rparr>)))
      \<lparr>rd_transmitted_since_id := b, rd_last_id := l\<rparr>)" for d f b l
    by (rule radio_ok_cong) simp_all
  then show ?thesis using t by (simp add: send_id_def case_prod_beta Let_def split: bool.split)
qed

lemma id_steps_ok:
  assumes "radio_ok r"
  shows "radio_ok (maybe_identify now r)" "radio_ok (id_if_needed now r)" "radio_ok (snd (identify_now now r))"
  using assms send_id_ok [OF assms, of now]
  by (simp_all add: maybe_identify_def id_if_needed_def identify_now_def case_prod_beta split: bool.split)

lemma table_steps_ok:
  assumes "radio_ok r"
  shows "radio_ok (r\<lparr>rd_mailbox := snd (mail_store d m (rd_mailbox r))\<rparr>)" "radio_ok (tick_aprs now r)"
    "radio_ok (flush_mailbox d now r)" "radio_ok (r\<lparr>rd_enabled := b\<rparr>)" "radio_ok (set_tx_inhibit b r)"
    "radio_ok (r\<lparr>rd_tnc := t\<rparr>)" "radio_ok (r\<lparr>rd_mailbox := snd (mail_expire now (rd_mailbox r))\<rparr>)"
proof -
  show "radio_ok (r\<lparr>rd_mailbox := snd (mail_expire now (rd_mailbox r))\<rparr>)"
    using mail_machine.step_inv [of "rd_mailbox r" "MailExpire now"] assms by (simp add: radio_ok_mailbox radio_okD(2))
  show "radio_ok (r\<lparr>rd_mailbox := snd (mail_store d m (rd_mailbox r))\<rparr>)"
    using mail_machine.step_inv [of "rd_mailbox r" "Store d m"] assms by (simp add: radio_ok_mailbox radio_okD(2))
  show "radio_ok (tick_aprs now r)"
    using assms by (simp add: tick_aprs_def fold_ok retry_ok)
  show "radio_ok (flush_mailbox d now r)"
    using assms by (simp add: flush_mailbox_def flush_loop_ok)
  show "radio_ok (r\<lparr>rd_enabled := b\<rparr>)" "radio_ok (set_tx_inhibit b r)" "radio_ok (r\<lparr>rd_tnc := t\<rparr>)"
    by (rule radio_ok_cong [OF assms]; simp add: set_tx_inhibit_def)+
qed

lemma radio_step_ok: "radio_ok r \<Longrightarrow> radio_ok (radio_step op now r)"
  by (cases op)
     (simp_all add: broadcast_ok unicast_ok transmit_ok chat_ok aprs_ack_ok drain_ok cache_steps_ok keyed_ok id_steps_ok
        table_steps_ok radio_ok_sessions on_receive_ok tick_retries_ok radio_okD(1))

interpretation radio_machine: invariant_machine "\<lambda>(op, now). radio_step op now" radio_ok
  by unfold_locales (auto intro: radio_step_ok)

lemma radio_new_ok: "radio_ok (radio_new cf tnc)"
  by (simp add: radio_new_def Let_def radio_ok_def sessions_new_ok mail_new_ok aprs_ok_def aprs_outbound_default_def
      cache_ok_def)

text \<open>C25: In every state the transmit side reaches, the session table satisfies its invariant, the mailbox is within its
  limits, each destination has at most one APRS message in flight, with an identifier a stock radio accepts
  and at most the configured number of transmissions, at most eight lines wait for it, and the two caches
  of what has been injected hold at most 256 entries each.
\<close>
theorem radio_invariant:
  "radio_ok (fold (\<lambda>(op, now). radio_step op now) ops (radio_new cf tnc))"
  by (rule radio_machine.run_inv [OF radio_new_ok])

section \<open>The price of a message\<close>

text \<open>What one frame of a message puts on the wire, with the two octets of the frame check sequence.\<close>

definition frame_octets :: "radio \<Rightarrow> callsign \<Rightarrow> airc_frame \<Rightarrow> nat" where
  "frame_octets r dst f =
     (case rd_source r of
        None \<Rightarrow> 0
      | Some src \<Rightarrow> (case ax25_ui src dst (rd_path r) (airc_encode f) of
                        Inl _ \<Rightarrow> 0 | Inr ax \<Rightarrow> length (ax25_encode ax) + 2))"

lemma chunks_Nil [simp]: "chunks n [] = []"
  by (subst chunks.simps) simp

lemma length_chunks: "0 < n \<Longrightarrow> length (chunks n xs) = (length xs + n - 1) div n"
proof (induction n xs rule: chunks.induct)
  case (1 n xs)
  show ?case
  proof (cases "xs = []")
    case True
    then show ?thesis using 1(2) by simp
  next
    case False
    then have e: "length (chunks n xs) = Suc (length (chunks n (drop n xs)))"
      using 1(2) by (simp add: chunks.simps [of n xs])
    show ?thesis
    proof (cases "length xs \<le> n")
      case True
      then have s: "length xs + n - 1 = n + (length xs - 1)" "length xs - 1 < n" using False 1(2) by (cases xs; simp)+
      have "(length xs + n - 1) div n = 1" unfolding s(1) using s(2) 1(2) by simp
      then show ?thesis using e True 1(2) by simp
    next
      case False
      then have s: "length xs + n - 1 = (length xs - 1) + n" using \<open>xs \<noteq> []\<close> by (cases xs) simp_all
      have "(length xs + n - 1) div n = Suc ((length xs - 1) div n)" unfolding s using 1(2) by simp
      then show ?thesis using e 1 \<open>xs \<noteq> []\<close> False by simp
    qed
  qed
qed

lemma length_chunk_payload:
  assumes "0 < mx"
  shows "length (chunk_payload p mx False) = max ((length p + mx - 1) div mx) 1"
proof (cases "length p \<le> mx")
  case True
  then have "(length p + mx - 1) div mx < 2" using assms by (intro less_mult_imp_div_less) simp
  then show ?thesis using True by (simp add: chunk_payload_def max_def)
next
  case False
  then have p: "p \<noteq> []" "mx < length p" by auto
  then have "chunk_payload p mx False = chunks mx p"
    using assms by (subst chunks.simps) (simp add: chunk_payload_def)
  moreover have "1 \<le> (length p + mx - 1) div mx"
    using p(2) assms by (simp add: div_greater_zero_iff Suc_le_eq)
  ultimately show ?thesis using length_chunks [OF assms, of p] by simp
qed

text \<open>The octets a message is admitted for are the octets it puts on the wire: for every payload, the frames the session
  layer cuts it into without an acknowledgement riding on them, each built by the station with its own
  address fields and counted with its check sequence, add up to exactly \<open>wire_octets\<close>.
\<close>
theorem wire_octets_exact:
  assumes "rd_source r = Some src" "length (rd_path r) = length (rc_path (cf_radio (rd_config r)))"
    and "length (rd_path r) \<le> MAX_DIGIPEATERS"
  shows "sum_list (map (frame_octets r dst) (make_frames k seq rel (chunk_payload body (radio_max_payload r) False))) =
    wire_octets r (length body)"
proof -
  let ?cs = "chunk_payload body (radio_max_payload r) False"
  let ?per = "HEADER_LEN + 7 * (2 + length (rc_path (cf_radio (rd_config r)))) + 4"
  have one: "frame_octets r dst f = ?per + length (payload f)" if "piggyback_seq f = None" for f
    using assms that by (simp add: frame_octets_def ax25_ui_def length_ax25_encode length_airc_encode not_less)
  have parts: "map (frame_octets r dst) (make_frames k seq rel ?cs) = map (\<lambda>c. ?per + length c) ?cs"
    by (rule nth_equalityI) (simp_all add: one make_frames_def airc_new_def)
  have "sum_list (map (\<lambda>c. m + length c) cs) = length cs * m + length (concat cs)" for m and cs :: "byte list list"
    by (induction cs) simp_all
  moreover have "0 < radio_max_payload r" by (simp add: radio_max_payload_def)
  ultimately show ?thesis
    unfolding parts wire_octets_def Let_def by (simp add: concat_chunk_payload length_chunk_payload)
qed

theorem wire_octets_exact_witness:
  "sum_list (map (frame_octets sample_radio (Callsign (lit ''K1ABC'') 7))
     (make_frames KMsg 7 True (chunk_payload [1, 2, 3] (radio_max_payload sample_radio) False))) =
   wire_octets sample_radio 3"
proof -
  have "rd_source sample_radio = Some (Callsign (lit ''SK0MT'') 1)"
    by (simp add: sample_radio_def radio_new_def Let_def gateway_callsign_def parse_ok_def valid_config_def valid_callsigns)
  moreover have "rd_path sample_radio = [Callsign (lit ''WIDE1'') 1]"
    by (simp add: sample_radio_def radio_new_def Let_def rf_path_def valid_config_def parse_ok_def valid_callsigns
        map_filter_simps)
  moreover have "length (rc_path (cf_radio (rd_config sample_radio))) = 1"
    by (simp add: sample_radio_facts valid_config_def)
  ultimately show ?thesis
    using wire_octets_exact [of sample_radio _ "Callsign (lit ''K1ABC'') 7" KMsg 7 True "[1, 2, 3]"]
    by (simp add: MAX_DIGIPEATERS_def numeral_3_eq_3)
qed

text \<open>
  With an acknowledgement riding on the first frame the estimate can be a whole frame short: a payload that fills
  one frame exactly is admitted for one and sent in two.
\<close>

lemma piggyback_needs_another_frame:
  assumes "2 < mx" "length body = mx"
  shows "length (chunk_payload body mx False) = 1" "length (chunk_payload body mx True) = 2"
proof -
  have b: "body \<noteq> []" "mx - (mx - 2) = 2" "\<not> mx \<le> mx - 2" using assms by auto
  have d: "(1 + mx) div mx = 1" using assms by (subst div_add_self2) simp_all
  show "length (chunk_payload body mx False) = 1" using assms b by (simp add: chunk_payload_def)
  show "length (chunk_payload body mx True) = 2"
    using assms b d length_chunks [of mx "drop (mx - 2) body"] by (simp add: chunk_payload_def Let_def)
qed

end
