(* ===== verification/Interlock.thy ===== *)
theory Interlock
  imports Config_Check
begin

text \<open>
  \<open>src/src/interlock.rs\<close>: the operator's own safety check. A command is run on a timer; while it fails, the
  transmitter is inhibited. What came of running the command (it ended with an exit status and its two outputs, it
  could not be run, or the time ran out) is the argument of \<open>run_once\<close>; the reading of it, and what the polling task
  publishes, are modelled. The published state is that of the airtime governor (\<open>Airtime\<close>).
\<close>

datatype check = Pass | Fail ustr | Unavailable ustr

datatype command_outcome =
    Exited "int option" "byte list" "byte list"   \<comment> \<open>exit code, standard output, standard error\<close>
  | CannotRun ustr
  | TimedOut

definition is_pass :: "check \<Rightarrow> bool" where
  "is_pass c = (case c of Pass \<Rightarrow> True | _ \<Rightarrow> False)"

definition check_reason :: "check \<Rightarrow> ustr" where
  "check_reason c = (case c of Pass \<Rightarrow> lit ''ok'' | Fail r \<Rightarrow> r | Unavailable r \<Rightarrow> r)"

definition show_int :: "int \<Rightarrow> ustr" where
  "show_int i = (if i < 0 then 45 # show_nat (nat (- i)) else show_nat (nat i))"

text \<open>The last line with something on it, without control characters and cut to 120 characters.\<close>

definition failure_detail :: "byte list \<Rightarrow> byte list \<Rightarrow> ustr" where
  "failure_detail out err =
     (let e = from_utf8_lossy err;
          s = (if trim e = [] then from_utf8_lossy out else e);
          l = (case find (\<lambda>l. trim l \<noteq> []) (rev (str_lines s)) of Some l \<Rightarrow> l | None \<Rightarrow> lit ''no output'')
      in take 120 (filter (\<lambda>c. \<not> is_control c) l))"

definition command_timeout :: "interlock_config \<Rightarrow> nat" where
  "command_timeout cf = max (il_timeout_secs cf) 1"

definition run_once :: "interlock_config \<Rightarrow> command_outcome \<Rightarrow> check" where
  "run_once cf r =
     (case r of
        CannotRun e \<Rightarrow> Unavailable (lit ''cannot run '' @ il_command cf @ lit '': '' @ e)
      | TimedOut \<Rightarrow>
          Unavailable (il_command cf @ lit '' did not answer within '' @ show_nat (command_timeout cf) @ lit ''s'')
      | Exited code out err \<Rightarrow>
          if code = Some 0 then Pass
          else Fail (il_command cf @ lit '' exited '' @ show_int (case code of Some c \<Rightarrow> c | None \<Rightarrow> -1)
                     @ lit '': '' @ failure_detail out err))"

text \<open>
  The polling task. What it shares is the published state; \<open>po_wakes\<close> counts the times it wakes the link task, and
  \<open>po_log\<close> is what it says to the operator's log.
\<close>

datatype interlock_log = NowPermitted | NowInhibited ustr

record poller =
  po_shared :: airtime_shared
  po_last_ok :: "bool option"
  po_wakes :: nat
  po_log :: "interlock_log list"

definition interlock_spawn :: "airtime_shared \<Rightarrow> poller" where
  "interlock_spawn sh =
     \<lparr>po_shared = sh\<lparr>sh_interlock_ok := False\<rparr>, po_last_ok = None, po_wakes = 1, po_log = []\<rparr>"

definition interlock_poll :: "interlock_config \<Rightarrow> command_outcome \<Rightarrow> poller \<Rightarrow> poller" where
  "interlock_poll cf r p =
     (let check = run_once cf r; ok = is_pass check;
          p1 = p\<lparr>po_shared := (po_shared p)\<lparr>sh_interlock_ok := ok\<rparr>\<rparr>
      in if po_last_ok p = Some ok then p1
         else p1\<lparr>po_wakes := po_wakes p + 1, po_last_ok := Some ok,
                 po_log := po_log p @ [if ok then NowPermitted else NowInhibited (check_reason check)]\<rparr>)"

definition interlock_run :: "interlock_config \<Rightarrow> airtime_shared \<Rightarrow> command_outcome list \<Rightarrow> poller" where
  "interlock_run cf sh rs = fold (interlock_poll cf) rs (interlock_spawn sh)"

section \<open>Properties\<close>

lemma poll_ok [simp]: "sh_interlock_ok (po_shared (interlock_poll cf r p)) = is_pass (run_once cf r)"
  by (simp add: interlock_poll_def Let_def)

lemma passes_iff: "is_pass (run_once cf r) \<longleftrightarrow> (\<exists>out err. r = Exited (Some 0) out err)"
  by (cases r) (auto simp: run_once_def is_pass_def)

lemma poll_last_ok: "po_last_ok (interlock_poll cf r p) = Some (is_pass (run_once cf r))"
  by (simp add: interlock_poll_def Let_def)

lemma poll_flag_shown:
  "po_last_ok (interlock_run cf sh rs) = None \<and> \<not> sh_interlock_ok (po_shared (interlock_run cf sh rs))
   \<or> po_last_ok (interlock_run cf sh rs) = Some (sh_interlock_ok (po_shared (interlock_run cf sh rs)))"
  by (cases rs rule: rev_cases) (simp_all add: interlock_run_def interlock_spawn_def poll_last_ok)

lemma poll_wakes:
  "po_wakes (interlock_poll cf r p) =
     po_wakes p + (if po_last_ok p = Some (is_pass (run_once cf r)) then 0 else 1)"
  by (simp add: interlock_poll_def Let_def)

lemma failure_detail_bounded:
  "length (failure_detail out err) \<le> 120 \<and> list_all (\<lambda>c. \<not> is_control c) (failure_detail out err)"
  by (auto simp: failure_detail_def Let_def list_all_iff dest: in_set_takeD)

lemma failed_after:
  "interlock_failed (po_shared (interlock_run cf sh rs)) =
     (case rev rs of [] \<Rightarrow> True
      | r # _ \<Rightarrow> (case r of Exited code out err \<Rightarrow> code \<noteq> Some 0 | CannotRun e \<Rightarrow> True | TimedOut \<Rightarrow> True))"
proof (cases rs rule: rev_cases)
  case (snoc ys y)
  then have "interlock_failed (po_shared (interlock_run cf sh rs)) = (\<not> is_pass (run_once cf y))"
    by (simp add: interlock_run_def interlock_failed_def)
  then show ?thesis using snoc by (cases y) (auto simp: run_once_def is_pass_def)
qed (simp add: interlock_run_def interlock_spawn_def interlock_failed_def)

text \<open>C26: The interlock fails closed. Whatever the state before it was started and whatever the polls made of the
  command, the transmitter is permitted exactly when the command has been run and its latest run ended with
  exit status 0: before the first check, after a check that could not be run or timed out, or
  after any other exit, the link task is blocked. And a poll that changes the published state always wakes the
  link task, so a frame that waits for it is not left asleep.\<close>

theorem interlock_fails_closed:
  "interlock_failed (po_shared (interlock_run cf sh rs)) =
     (case rev rs of [] \<Rightarrow> True
      | r # _ \<Rightarrow> (case r of Exited code out err \<Rightarrow> code \<noteq> Some 0 | CannotRun e \<Rightarrow> True | TimedOut \<Rightarrow> True))
   \<and> po_wakes (interlock_run cf sh rs)
       + (if sh_interlock_ok (po_shared (interlock_run cf sh rs)) = sh_interlock_ok (po_shared (interlock_run cf sh (rs @ [r])))
          then 0 else 1)
     \<le> po_wakes (interlock_run cf sh (rs @ [r]))"
  using poll_flag_shown [of cf sh rs] by (auto simp: failed_after) (auto simp: interlock_run_def poll_wakes)

end
