(* ===== verification/Audit_Trail.thy ===== *)
theory Audit_Trail
  imports Rust_Text "HOL-Library.Sublist"
begin

text \<open>
  \<open>src/src/audit.rs\<close>: the control operator's audit trail. An event becomes one line of text; the line goes into a
  bounded channel, and a dedicated task takes lines from it, collects what has arrived into a batch and writes the
  batch. The record \<open>audit\<close> is the handle, the channel, the writer's batch and the file, and its
  steps interleave freely. Opening the file and its permissions are not modelled; what a write does
  (it succeeds, or fails after some number of bytes) is part of the step.
\<close>

section \<open>One line for each event\<close>

definition one_line_char :: "nat \<Rightarrow> nat" where
  "one_line_char c =
     (if is_control c then 32
      else if c \<in> {0x85, 0x2028, 0x2029} then 32
      else if 0x80 \<le> c \<and> c \<le> 0x9F then 32 else c)"

definition one_line :: "ustr \<Rightarrow> ustr" where
  "one_line s = map one_line_char s"

definition format_field :: "ustr \<times> ustr \<Rightarrow> ustr" where
  "format_field kv =
     (let k = one_line (fst kv); v = one_line (snd kv)
      in if list_ex is_whitespace v
         then [32] @ k @ [61, 34] @ map (\<lambda>c. if c = 34 then 39 else c) v @ [34]
         else [32] @ k @ [61] @ v)"

definition format_event :: "nat \<Rightarrow> ustr \<Rightarrow> (ustr \<times> ustr) list \<Rightarrow> ustr" where
  "format_event ts kind kvs =
     show_nat ts @ [32] @ one_line kind @ concat (map format_field kvs)"

section \<open>The handle, the channel and the writer\<close>

definition AUDIT_QUEUE :: nat where "AUDIT_QUEUE = 4096"

record audit =
  aud_open :: bool
  aud_queue :: "ustr list"
  aud_dropped :: nat
  aud_warned :: "nat list"
  aud_batch :: "ustr list"
  aud_file :: "byte list"

definition audit_open :: "bool \<Rightarrow> audit" where
  "audit_open opened =
     \<lparr>aud_open = opened, aud_queue = [], aud_dropped = 0, aud_warned = [], aud_batch = [], aud_file = []\<rparr>"

definition is_power_of_two :: "nat \<Rightarrow> bool" where
  "is_power_of_two n \<longleftrightarrow> 0 < n \<and> list_ex (\<lambda>k. n = 2 ^ k) [0..<64]"

definition audit_event :: "nat \<Rightarrow> ustr \<Rightarrow> (ustr \<times> ustr) list \<Rightarrow> audit \<Rightarrow> audit" where
  "audit_event ts kind kvs a =
     (if \<not> aud_open a then a
      else if length (aud_queue a) < AUDIT_QUEUE
      then a\<lparr>aud_queue := aud_queue a @ [format_event ts kind kvs]\<rparr>
      else (let n = aud_dropped a + 1
            in a\<lparr>aud_dropped := n, aud_warned := aud_warned a @ (if is_power_of_two n then [n] else [])\<rparr>))"

text \<open>The writer receives: the first line of a batch, or one more that has already arrived.\<close>

definition writer_recv :: "audit \<Rightarrow> audit" where
  "writer_recv a =
     (case aud_queue a of [] \<Rightarrow> a | l # q \<Rightarrow> a\<lparr>aud_queue := q, aud_batch := aud_batch a @ [l]\<rparr>)"

definition batch_bytes :: "ustr list \<Rightarrow> byte list" where
  "batch_bytes ls = as_bytes (concat (map (\<lambda>l. l @ [10]) ls))"

text \<open>
  The writer found the channel empty and writes its batch; \<open>Some n\<close> is a failure after \<open>n\<close> bytes. Events that
  arrive between the last look at the channel and the write stay in the channel.
\<close>

definition writer_write :: "nat option \<Rightarrow> audit \<Rightarrow> audit" where
  "writer_write failed a =
     a\<lparr>aud_batch := [],
       aud_file := aud_file a @ (case failed of None \<Rightarrow> batch_bytes (aud_batch a)
                                | Some n \<Rightarrow> take n (batch_bytes (aud_batch a)))\<rparr>"

datatype audit_op =
    AuEvent nat ustr "(ustr \<times> ustr) list"
  | AuRecv
  | AuWrite "nat option"

definition audit_step :: "audit_op \<Rightarrow> audit \<Rightarrow> audit" where
  "audit_step x a =
     (case x of
        AuEvent ts kind kvs \<Rightarrow> audit_event ts kind kvs a
      | AuRecv \<Rightarrow> writer_recv a
      | AuWrite failed \<Rightarrow> writer_write failed a)"

section \<open>Properties\<close>

definition line_of :: "audit_op \<Rightarrow> ustr option" where
  "line_of x = (case x of AuEvent ts kind kvs \<Rightarrow> Some (format_event ts kind kvs) | _ \<Rightarrow> None)"

definition breaks_line :: "nat \<Rightarrow> bool" where
  "breaks_line c \<longleftrightarrow> is_control c \<or> c = 0x2028 \<or> c = 0x2029"

definition clean_line :: "ustr \<Rightarrow> bool" where
  "clean_line l \<longleftrightarrow> list_all (\<lambda>c. \<not> breaks_line c) l"

lemma clean_append [simp]: "clean_line (a @ b) \<longleftrightarrow> clean_line a \<and> clean_line b"
  by (simp add: clean_line_def)

lemma clean_Cons [simp]: "clean_line (c # l) \<longleftrightarrow> \<not> breaks_line c \<and> clean_line l"
  by (simp add: clean_line_def)

lemma clean_Nil [simp]: "clean_line []"
  by (simp add: clean_line_def)

lemma clean_one_line [simp]: "clean_line (one_line s)"
  by (auto simp: clean_line_def one_line_def list_all_iff one_line_char_def breaks_line_def is_control_def)

lemma clean_show_nat [simp]: "clean_line (show_nat n)"
  by (auto simp: clean_line_def list_all_iff breaks_line_def is_control_def is_ascii_digit_def dest!: show_nat_digits)

lemma clean_quotes: "clean_line l \<Longrightarrow> clean_line (map (\<lambda>c. if c = 34 then 39 else c) l)"
  by (auto simp: clean_line_def list_all_iff breaks_line_def is_control_def)

lemma clean_kv: "clean_line (format_field kv)"
  using clean_quotes [OF clean_one_line] by (auto simp: format_field_def Let_def breaks_line_def is_control_def)

lemma clean_event: "clean_line (format_event ts kind kvs)"
proof -
  have "clean_line (concat (map format_field kvs))"
    by (induction kvs) (auto simp: clean_kv)
  then show ?thesis by (simp add: format_event_def breaks_line_def is_control_def)
qed

lemma batch_append: "batch_bytes (a @ b) = batch_bytes a @ batch_bytes b"
  by (simp add: batch_bytes_def)

text \<open>
  What the trail holds, in order: the lines written, then those of the batch, then those of the channel. Without a
  failed write they are a subsequence of the events, and the lines missing are the ones counted as dropped.
\<close>

definition trail :: "audit_op list \<Rightarrow> ustr list \<Rightarrow> audit \<Rightarrow> bool" where
  "trail xs written a \<longleftrightarrow>
     aud_open a \<and> aud_file a = batch_bytes written \<and>
     subseq (written @ aud_batch a @ aud_queue a) (List.map_filter line_of xs) \<and>
     length (written @ aud_batch a @ aud_queue a) + aud_dropped a = length (List.map_filter line_of xs) \<and>
     length (aud_queue a) \<le> AUDIT_QUEUE"

lemma map_filter_snoc:
  "List.map_filter f (xs @ [x]) = List.map_filter f xs @ (case f x of Some y \<Rightarrow> [y] | None \<Rightarrow> [])"
  by (simp add: List.map_filter_def split: option.splits)

lemma trail_event:
  assumes "trail xs w a"
  shows "trail (xs @ [AuEvent ts kind kvs]) w (audit_event ts kind kvs a)"
proof -
  have "subseq (w @ aud_batch a @ aud_queue a @ [l]) (List.map_filter line_of xs @ [l])" for l
    using assms list_emb_append_mono [of "(=)" "w @ aud_batch a @ aud_queue a" _ "[l]" "[l]"] by (simp add: trail_def)
  moreover have "subseq (w @ aud_batch a @ aud_queue a) (List.map_filter line_of xs @ [l])" for l
    using assms by (simp add: trail_def list_emb_prefix)
  ultimately show ?thesis
    using assms by (auto simp: trail_def audit_event_def Let_def map_filter_snoc line_of_def)
qed

lemma trail_step:
  assumes "trail xs w a" "\<And>n. x \<noteq> AuWrite (Some n)"
  shows "\<exists>w'. trail (xs @ [x]) w' (audit_step x a)"
proof (cases x)
  case (AuEvent ts kind kvs)
  then show ?thesis using trail_event [OF assms(1)] by (auto simp: audit_step_def)
next
  case AuRecv
  then have "trail (xs @ [x]) w (audit_step x a)"
    using assms(1) by (auto simp: trail_def audit_step_def writer_recv_def map_filter_snoc line_of_def split: list.splits)
  then show ?thesis ..
next
  case (AuWrite f)
  then have "f = None" using assms(2) by (cases f) auto
  with AuWrite assms(1) have "trail (xs @ [x]) (w @ aud_batch a) (audit_step x a)"
    by (simp add: trail_def audit_step_def writer_write_def map_filter_snoc line_of_def batch_append)
  then show ?thesis ..
qed

lemma trail_run:
  assumes "\<And>n. AuWrite (Some n) \<notin> set xs"
  shows "\<exists>w. trail xs w (fold audit_step xs (audit_open True))"
  using assms
proof (induction xs rule: rev_induct)
  case Nil
  have "trail [] [] (audit_open True)"
    by (simp add: trail_def audit_open_def batch_bytes_def List.map_filter_def)
  then show ?case by auto
next
  case (snoc x xs)
  then obtain w where "trail xs w (fold audit_step xs (audit_open True))" by auto
  from trail_step [OF this, of x] snoc.prems show ?case by auto
qed

text \<open>The audit trail is one line for each event, in order, and every gap in it is counted. However events, the
  writer's receives and its writes interleave, if no write fails then the file is a series of
  newline-terminated lines; these lines, then the writer's batch, then the channel (never more than 4096 lines)
  are events in the order they happened; the events missing are exactly as many as the count of dropped
  lines; and no line holds a control character or a Unicode line break, whatever text the users
  supplied, so nobody can split a record or add one.\<close>

theorem audit_trail_is_accounted:
  assumes "\<And>n. AuWrite (Some n) \<notin> set xs"
    and "a = fold audit_step xs (audit_open True)"
  shows "\<exists>w. aud_file a = batch_bytes w \<and> list_all clean_line (w @ aud_batch a @ aud_queue a) \<and>
     subseq (w @ aud_batch a @ aud_queue a) (List.map_filter line_of xs) \<and>
     length (w @ aud_batch a @ aud_queue a) + aud_dropped a = length (List.map_filter line_of xs) \<and>
     length (aud_queue a) \<le> AUDIT_QUEUE"
proof -
  obtain w where w: "trail xs w a" using trail_run [of xs] assms by auto
  have "clean_line l" if "l \<in> set (List.map_filter line_of xs)" for l
    using that clean_event
    by (auto simp: List.map_filter_def line_of_def split: audit_op.splits)
  moreover have "set (w @ aud_batch a @ aud_queue a) \<subseteq> set (List.map_filter line_of xs)"
    using w by (auto simp: trail_def elim: list_emb_set)
  ultimately show ?thesis using w unfolding trail_def list_all_iff by blast
qed

definition sample_events :: "audit_op list" where
  "sample_events =
     [AuEvent 7 (lit ''kill'') [(lit ''reason'', lit ''bye'' @ [10] @ lit ''now'')], AuRecv, AuEvent 8 (lit ''id'') [],
      AuWrite None]"

theorem audit_trail_is_accounted_witness:
  "\<exists>w. aud_file (fold audit_step sample_events (audit_open True)) = batch_bytes w \<and>
     length w + length (aud_queue (fold audit_step sample_events (audit_open True))) \<le> 2 \<and> w \<noteq> []"
proof -
  let ?a = "fold audit_step sample_events (audit_open True)"
  have no: "AuWrite (Some n) \<notin> set sample_events" for n by (simp add: sample_events_def)
  have "aud_file ?a \<noteq> []"
    by (simp add: sample_events_def audit_step_def audit_event_def writer_recv_def writer_write_def audit_open_def
        AUDIT_QUEUE_def batch_bytes_def)
  moreover have "batch_bytes [] = []" by (simp add: batch_bytes_def)
  moreover have "length (List.map_filter line_of sample_events) = 2"
    by (simp add: sample_events_def line_of_def List.map_filter_def)
  moreover obtain w where "aud_file ?a = batch_bytes w"
      "length (w @ aud_batch ?a @ aud_queue ?a) + aud_dropped ?a = length (List.map_filter line_of sample_events)"
    using audit_trail_is_accounted [OF no refl] by blast
  ultimately show ?thesis by (intro exI [of _ w]) auto
qed

end
