(* ===== verification/Clients.thy ===== *)
theory Clients
  imports Server_State
begin

text \<open>
  \<open>src/src/server/clients.rs\<close>: the connected clients and the lines going out to them. A link is the bounded channel
  to the client's writer: what is queued in it, its capacity, whether the receiving end is gone, and what the writer
  has taken from it so far. Sending never waits: a client whose queue is full is dropped.

  The steps are the methods of \<open>Clients\<close> and the two things the connection's own task does, taking a line and
  going away.
\<close>

type_synonym audit_line = "ustr \<times> (ustr \<times> ustr) list"

record client_link =
  lk_cap :: nat
  lk_queue :: "ustr list"
  lk_taken :: "ustr list"
  lk_closed :: bool
  lk_hangup :: bool

record clients =
  cl_links :: "(client_id, client_link) table"
  cl_hung_up :: "client_id list"
  cl_audit :: "audit_line list"

definition clients_new :: clients where
  "clients_new = \<lparr>cl_links = [], cl_hung_up = [], cl_audit = []\<rparr>"

definition clients_insert :: "client_id \<Rightarrow> nat \<Rightarrow> bool \<Rightarrow> clients \<Rightarrow> clients" where
  "clients_insert i cap hangup c =
     c\<lparr>cl_links := AList.update i \<lparr>lk_cap = cap, lk_queue = [], lk_taken = [], lk_closed = False, lk_hangup = hangup\<rparr>
         (cl_links c)\<rparr>"

definition clients_ids :: "clients \<Rightarrow> client_id list" where
  "clients_ids c = map fst (cl_links c)"

definition clients_disconnect :: "client_id \<Rightarrow> clients \<Rightarrow> clients" where
  "clients_disconnect i c =
     (case map_of (cl_links c) i of
        None \<Rightarrow> c
      | Some lk \<Rightarrow>
          c\<lparr>cl_links := AList.delete i (cl_links c),
            cl_hung_up := cl_hung_up c @ (if lk_hangup lk then [i] else [])\<rparr>)"

definition clients_send :: "client_id \<Rightarrow> ustr \<Rightarrow> clients \<Rightarrow> bool \<times> clients" where
  "clients_send i line c =
     (case map_of (cl_links c) i of
        None \<Rightarrow> (False, c)
      | Some lk \<Rightarrow>
          if lk_closed lk then (False, clients_disconnect i c)
          else if length (lk_queue lk) < lk_cap lk
          then (True, c\<lparr>cl_links := AList.update i (lk\<lparr>lk_queue := lk_queue lk @ [line]\<rparr>) (cl_links c)\<rparr>)
          else (False, clients_disconnect i
                  (c\<lparr>cl_audit := cl_audit c @ [(lit ''output_overflow'', [(lit ''id'', show_nat i)])]\<rparr>)))"

section \<open>The connection's own task\<close>

definition link_take :: "client_id \<Rightarrow> clients \<Rightarrow> clients" where
  "link_take i c =
     (case map_of (cl_links c) i of
        Some lk \<Rightarrow>
          (case lk_queue lk of
             l # q \<Rightarrow> c\<lparr>cl_links := AList.update i (lk\<lparr>lk_queue := q, lk_taken := lk_taken lk @ [l]\<rparr>) (cl_links c)\<rparr>
           | [] \<Rightarrow> c)
      | None \<Rightarrow> c)"

definition link_close :: "client_id \<Rightarrow> clients \<Rightarrow> clients" where
  "link_close i c =
     (case map_of (cl_links c) i of
        Some lk \<Rightarrow> c\<lparr>cl_links := AList.update i (lk\<lparr>lk_closed := True\<rparr>) (cl_links c)\<rparr>
      | None \<Rightarrow> c)"

datatype clients_op =
    ClInsert client_id nat bool
  | ClSend client_id ustr
  | ClDisconnect client_id
  | ClTake client_id
  | ClClose client_id

definition clients_step :: "clients_op \<Rightarrow> clients \<Rightarrow> clients" where
  "clients_step x c =
     (case x of
        ClInsert i cap h \<Rightarrow> clients_insert i cap h c
      | ClSend i l \<Rightarrow> snd (clients_send i l c)
      | ClDisconnect i \<Rightarrow> clients_disconnect i c
      | ClTake i \<Rightarrow> link_take i c
      | ClClose i \<Rightarrow> link_close i c)"

section \<open>Properties\<close>

text \<open>What has been sent to a client since it connected.\<close>

definition sent_step :: "client_id \<Rightarrow> clients_op \<Rightarrow> ustr list \<Rightarrow> ustr list" where
  "sent_step i x acc =
     (case x of ClInsert j _ _ \<Rightarrow> if j = i then [] else acc | ClSend j l \<Rightarrow> if j = i then acc @ [l] else acc | _ \<Rightarrow> acc)"

definition sent_since :: "client_id \<Rightarrow> clients_op list \<Rightarrow> ustr list" where
  "sent_since i xs = fold (sent_step i) xs []"

definition link_good :: "client_id \<Rightarrow> ustr list \<Rightarrow> clients \<Rightarrow> bool" where
  "link_good i sent c \<longleftrightarrow>
     (case map_of (cl_links c) i of
        None \<Rightarrow> True
      | Some lk \<Rightarrow> lk_taken lk @ lk_queue lk = sent \<and> length (lk_queue lk) \<le> lk_cap lk)"

lemma disconnect_links [simp]:
  "map_of (cl_links (clients_disconnect i c)) = (map_of (cl_links c))(i := None)"
  by (auto simp: clients_disconnect_def split: option.splits)

lemma send_links:
  "map_of (cl_links (snd (clients_send i l c))) =
     (map_of (cl_links c))(i := (case map_of (cl_links c) i of
        None \<Rightarrow> None
      | Some lk \<Rightarrow> if \<not> lk_closed lk \<and> length (lk_queue lk) < lk_cap lk
                   then Some (lk\<lparr>lk_queue := lk_queue lk @ [l]\<rparr>) else None))"
  by (auto simp: clients_send_def split: option.splits)

lemma link_good_step:
  "link_good i sent c \<Longrightarrow> link_good i (sent_step i x sent) (clients_step x c)"
  by (cases x)
     (auto simp: link_good_def clients_step_def sent_step_def send_links clients_insert_def link_take_def link_close_def
       split: option.splits list.splits if_splits)

lemma link_good_run: "link_good i sent c \<Longrightarrow> link_good i (fold (sent_step i) xs sent) (fold clients_step xs c)"
  by (induction xs arbitrary: sent c) (auto intro: link_good_step)

text \<open>C27: A connected client has missed nothing. However sends, disconnections and the clients' own reading
  interleave, what a client that is still connected has been given, followed by what is queued for it, is every line
  sent to it since it connected, in order; the queue never exceeds its capacity. A send whose line cannot be
  queued removes exactly that client, and no send touches another client's link.\<close>

theorem connected_clients_miss_nothing:
  "case map_of (cl_links (fold clients_step xs clients_new)) i of
     None \<Rightarrow> \<not> fst (clients_send i l (fold clients_step xs clients_new))
   | Some lk \<Rightarrow>
       lk_taken lk @ lk_queue lk = sent_since i xs \<and> length (lk_queue lk) \<le> lk_cap lk \<and>
       map_of (cl_links (snd (clients_send i l (fold clients_step xs clients_new)))) =
         (map_of (cl_links (fold clients_step xs clients_new)))
           (i := (if fst (clients_send i l (fold clients_step xs clients_new))
                  then Some (lk\<lparr>lk_queue := lk_queue lk @ [l]\<rparr>) else None))"
proof -
  have "link_good i [] clients_new" by (simp add: link_good_def clients_new_def)
  from link_good_run [OF this, of xs] show ?thesis
    by (auto simp: link_good_def sent_since_def send_links split: option.splits)
       (auto simp: clients_send_def split: option.splits if_splits)
qed

end
