(* ===== verification/Accounts.thy ===== *)
theory Accounts
  imports Ip_Addr
begin

text \<open>
  \<open>src/src/accounts.rs\<close>: registered nicknames, their rights and callsigns, and the banned hosts. The store is a value;
  every change is computed on a copy of it and committed. A commit either writes the file first (synchronous mode),
  or changes memory at once and leaves the writing to a thread of its own (asynchronous mode).

  JSON is an argument: \<open>enc\<close> is \<open>serde_json::to_string_pretty\<close> and \<open>dec\<close> is \<open>serde_json::from_str\<close>. Argon2 is
  another: a password hash is a string. What the file system does in a write is part of the step.
  \<open>host_ban_key\<close> is in \<open>Ip_Addr\<close>.
\<close>

section \<open>The store\<close>

record nick_account =
  na_nick :: ustr
  na_password_hash :: ustr
  na_created_unix :: nat
  na_rf_tx :: bool
  na_callsign :: "ustr option"

record store =
  so_nicks :: "(ustr, nick_account) table"
  so_ip_bans :: "ustr list"

definition store_default :: store where
  "store_default = \<lparr>so_nicks = [], so_ip_bans = []\<rparr>"

datatype account_error = AeTooShort | AeTooLong | AeHash | AeIo | AeTaken | AeBadPassword | AeNotRegistered | AeCallsignTaken

text \<open>
  The closures given to \<open>mutate\<close>: an error, or the answer and the changed copy.
\<close>

definition update_account :: "ustr \<Rightarrow> (nick_account \<Rightarrow> nick_account) \<Rightarrow> store \<Rightarrow> account_error + (unit \<times> store)" where
  "update_account key f s =
     (case map_of (so_nicks s) key of
        None \<Rightarrow> Inl AeNotRegistered
      | Some a \<Rightarrow> Inr ((), s\<lparr>so_nicks := AList.update key (f a) (so_nicks s)\<rparr>))"

definition do_insert_hashed :: "ustr \<Rightarrow> ustr \<Rightarrow> nat \<Rightarrow> store \<Rightarrow> account_error + (unit \<times> store)" where
  "do_insert_hashed nick hash now s =
     (if has_key (so_nicks s) (lower nick) then Inl AeTaken
      else Inr ((), s\<lparr>so_nicks := AList.update (lower nick)
             \<lparr>na_nick = nick, na_password_hash = hash, na_created_unix = now, na_rf_tx = False, na_callsign = None\<rparr>
             (so_nicks s)\<rparr>))"

definition do_set_password_hash :: "ustr \<Rightarrow> ustr \<Rightarrow> store \<Rightarrow> account_error + (unit \<times> store)" where
  "do_set_password_hash nick hash s = update_account (lower nick) (\<lambda>a. a\<lparr>na_password_hash := hash\<rparr>) s"

definition do_drop_nick :: "ustr \<Rightarrow> store \<Rightarrow> account_error + (unit \<times> store)" where
  "do_drop_nick nick s =
     (if has_key (so_nicks s) (lower nick)
      then Inr ((), s\<lparr>so_nicks := AList.delete (lower nick) (so_nicks s)\<rparr>) else Inl AeNotRegistered)"

definition do_set_rf_tx :: "ustr \<Rightarrow> bool \<Rightarrow> store \<Rightarrow> account_error + (unit \<times> store)" where
  "do_set_rf_tx nick rf s = update_account (lower nick) (\<lambda>a. a\<lparr>na_rf_tx := rf\<rparr>) s"

definition claims_call :: "ustr \<Rightarrow> nick_account \<Rightarrow> bool" where
  "claims_call want a \<longleftrightarrow> (case na_callsign a of Some c \<Rightarrow> lower c = want | None \<Rightarrow> False)"

definition do_set_callsign :: "ustr \<Rightarrow> ustr \<Rightarrow> store \<Rightarrow> account_error + (unit \<times> store)" where
  "do_set_callsign nick call s =
     (if \<not> has_key (so_nicks s) (lower nick) then Inl AeNotRegistered
      else
        (case find (\<lambda>(_, a). claims_call (lower call) a) (so_nicks s) of
           Some (_, a) \<Rightarrow>
             if lower (na_nick a) \<noteq> lower nick then Inl AeCallsignTaken
             else update_account (lower nick) (\<lambda>a. a\<lparr>na_callsign := Some call\<rparr>) s
         | None \<Rightarrow> update_account (lower nick) (\<lambda>a. a\<lparr>na_callsign := Some call\<rparr>) s))"

definition do_clear_callsign :: "ustr \<Rightarrow> store \<Rightarrow> account_error + (ustr \<times> store)" where
  "do_clear_callsign call s =
     (case find (\<lambda>(_, a). claims_call (lower call) a) (so_nicks s) of
        None \<Rightarrow> Inl AeNotRegistered
      | Some (k, a) \<Rightarrow>
          Inr (na_nick a, s\<lparr>so_nicks := AList.update k (a\<lparr>na_callsign := None\<rparr>) (so_nicks s)\<rparr>))"

definition do_ban_ip :: "ustr \<Rightarrow> store \<Rightarrow> account_error + (bool \<times> store)" where
  "do_ban_ip key s = Inr (True, s\<lparr>so_ip_bans := so_ip_bans s @ [key]\<rparr>)"

definition do_unban_ip :: "ustr \<Rightarrow> store \<Rightarrow> account_error + (bool \<times> store)" where
  "do_unban_ip key s = Inr (True, s\<lparr>so_ip_bans := filter (\<lambda>h. host_ban_key h \<noteq> key) (so_ip_bans s)\<rparr>)"

section \<open>Writing the file\<close>

text \<open>
  \<open>write_atomic\<close> as the calls it makes, in order. A call that fails ends the write with an error; a failed rename
  also removes the temporary file. Opening the directory to sync it is best-effort and changes nothing here.
\<close>

datatype io_call = MakeParent | OpenTemp | StatTemp | ChmodTemp | WriteTemp | SyncTemp | RenameTemp | StatFile | ChmodFile

definition io_calls :: "io_call list" where
  "io_calls = [MakeParent, OpenTemp, StatTemp, ChmodTemp, WriteTemp, SyncTemp, RenameTemp, StatFile, ChmodFile]"

record disk =
  dk_file :: "ustr option"
  dk_temp :: "ustr option"

text \<open>One call that succeeds; a write that fails after \<open>n\<close> characters leaves a part of the text in the temporary file.\<close>

definition io_done :: "ustr \<Rightarrow> io_call \<Rightarrow> disk \<Rightarrow> disk" where
  "io_done s c d =
     (case c of
        OpenTemp \<Rightarrow> d\<lparr>dk_temp := Some []\<rparr>
      | WriteTemp \<Rightarrow> d\<lparr>dk_temp := Some s\<rparr>
      | RenameTemp \<Rightarrow> d\<lparr>dk_file := dk_temp d, dk_temp := None\<rparr>
      | _ \<Rightarrow> d)"

definition io_failed :: "ustr \<Rightarrow> nat \<Rightarrow> io_call \<Rightarrow> disk \<Rightarrow> disk" where
  "io_failed s n c d =
     (case c of
        WriteTemp \<Rightarrow> d\<lparr>dk_temp := Some (take n s)\<rparr>
      | RenameTemp \<Rightarrow> d\<lparr>dk_temp := None\<rparr>
      | _ \<Rightarrow> d)"

text \<open>What goes wrong in a write: nothing, or a call fails, with the characters already written.\<close>

datatype io_fate = IoFine | IoError io_call nat

fun run_calls :: "ustr \<Rightarrow> io_fate \<Rightarrow> io_call list \<Rightarrow> disk \<Rightarrow> bool \<times> disk" where
  "run_calls s fate [] d = (True, d)"
| "run_calls s fate (c # cs) d =
     (case fate of
        IoFine \<Rightarrow> run_calls s fate cs (io_done s c d)
      | IoError c' n \<Rightarrow> if c = c' then (False, io_failed s n c d) else run_calls s fate cs (io_done s c d))"

definition write_atomic :: "ustr \<Rightarrow> io_fate \<Rightarrow> disk \<Rightarrow> bool \<times> disk" where
  "write_atomic s fate d = run_calls s fate io_calls d"

section \<open>The accounts\<close>

text \<open>
  \<open>persist_gen\<close> counts the asynchronous commits. A persist thread carries the generation and the text of its commit;
  the one in \<open>ac_writing\<close> holds the lock and has found its generation to be the latest.
\<close>

record accounts =
  ac_store :: store
  ac_async :: bool
  ac_gen :: nat
  ac_fail :: nat
  ac_threads :: "(nat \<times> ustr) list"
  ac_writing :: "(nat \<times> ustr) option"
  ac_disk :: disk

definition accounts_of :: "store \<Rightarrow> disk \<Rightarrow> accounts" where
  "accounts_of s d =
     \<lparr>ac_store = s, ac_async = False, ac_gen = 0, ac_fail = 0, ac_threads = [], ac_writing = None, ac_disk = d\<rparr>"

text \<open>\<open>load\<close>: no file is an empty store, and a file that does not parse refuses to start.\<close>

definition accounts_load :: "(ustr \<Rightarrow> store option) \<Rightarrow> disk \<Rightarrow> accounts option" where
  "accounts_load dec d =
     (case dk_file d of
        None \<Rightarrow> Some (accounts_of store_default d)
      | Some s \<Rightarrow> map_option (\<lambda>st. accounts_of st d) (dec s))"

definition enable_async_persist :: "accounts \<Rightarrow> accounts" where
  "enable_async_persist a = a\<lparr>ac_async := True\<rparr>"

definition accounts_commit ::
  "(store \<Rightarrow> ustr option) \<Rightarrow> io_fate \<Rightarrow> store \<Rightarrow> accounts \<Rightarrow> (account_error + unit) \<times> accounts" where
  "accounts_commit enc fate s' a =
     (case enc s' of
        None \<Rightarrow> (Inl AeIo, a)
      | Some s \<Rightarrow>
          if ac_async a then
            (Inr (), a\<lparr>ac_store := s', ac_gen := ac_gen a + 1, ac_threads := ac_threads a @ [(ac_gen a + 1, s)]\<rparr>)
          else
            (case write_atomic s fate (ac_disk a) of
               (True, d) \<Rightarrow> (Inr (), a\<lparr>ac_store := s', ac_disk := d\<rparr>)
             | (False, d) \<Rightarrow> (Inl AeIo, a\<lparr>ac_disk := d\<rparr>)))"

definition accounts_mutate ::
  "(store \<Rightarrow> ustr option) \<Rightarrow> io_fate \<Rightarrow> (store \<Rightarrow> account_error + ('r \<times> store)) \<Rightarrow> accounts
     \<Rightarrow> (account_error + 'r) \<times> accounts" where
  "accounts_mutate enc fate f a =
     (case f (ac_store a) of
        Inl e \<Rightarrow> (Inl e, a)
      | Inr (r, s') \<Rightarrow>
          (case accounts_commit enc fate s' a of (Inl e, a') \<Rightarrow> (Inl e, a') | (Inr _, a') \<Rightarrow> (Inr r, a')))"

text \<open>A persist thread takes the lock: it goes on to write only if no later commit has been made.\<close>

definition thread_lock :: "nat \<Rightarrow> accounts \<Rightarrow> accounts" where
  "thread_lock i a =
     (if ac_writing a \<noteq> None \<or> length (ac_threads a) \<le> i then a
      else (let t = ac_threads a ! i; a' = a\<lparr>ac_threads := remove_at i (ac_threads a)\<rparr>
            in if fst t \<noteq> ac_gen a then a' else a'\<lparr>ac_writing := Some t\<rparr>))"

definition thread_write :: "io_fate \<Rightarrow> accounts \<Rightarrow> accounts" where
  "thread_write fate a =
     (case ac_writing a of
        None \<Rightarrow> a
      | Some (g, s) \<Rightarrow>
          (case write_atomic s fate (ac_disk a) of
             (True, d) \<Rightarrow> a\<lparr>ac_writing := None, ac_disk := d\<rparr>
           | (False, d) \<Rightarrow> a\<lparr>ac_writing := None, ac_disk := d, ac_fail := ac_fail a + 1\<rparr>))"

subsection \<open>Queries\<close>

definition get_account :: "accounts \<Rightarrow> ustr \<Rightarrow> nick_account option" where
  "get_account a nick = map_of (so_nicks (ac_store a)) (lower nick)"

definition is_registered :: "accounts \<Rightarrow> ustr \<Rightarrow> bool" where
  "is_registered a nick \<longleftrightarrow> has_key (so_nicks (ac_store a)) (lower nick)"

definition owner_of_callsign :: "accounts \<Rightarrow> ustr \<Rightarrow> ustr option" where
  "owner_of_callsign a call =
     map_option (\<lambda>(_, x). na_nick x) (find (\<lambda>(_, x). claims_call (lower call) x) (so_nicks (ac_store a)))"

definition list_accounts :: "accounts \<Rightarrow> nick_account list" where
  "list_accounts a = sort_key (\<lambda>x. lower (na_nick x)) (map snd (so_nicks (ac_store a)))"

definition is_ip_banned :: "accounts \<Rightarrow> ustr \<Rightarrow> bool" where
  "is_ip_banned a host \<longleftrightarrow> list_ex (\<lambda>h. host_ban_key h = host_ban_key host) (so_ip_bans (ac_store a))"

definition grants_rf_tx :: "accounts \<Rightarrow> ustr \<Rightarrow> bool" where
  "grants_rf_tx a nick = (case get_account a nick of Some x \<Rightarrow> na_rf_tx x | None \<Rightarrow> False)"

definition hash_for :: "accounts \<Rightarrow> ustr \<Rightarrow> ustr option" where
  "hash_for a nick = map_option na_password_hash (get_account a nick)"

subsection \<open>Operations\<close>

definition insert_hashed where
  "insert_hashed enc fate nick hash now a = accounts_mutate enc fate (do_insert_hashed nick hash now) a"

definition set_password_hash where
  "set_password_hash enc fate nick hash a = accounts_mutate enc fate (do_set_password_hash nick hash) a"

definition drop_nick where
  "drop_nick enc fate nick a = accounts_mutate enc fate (do_drop_nick nick) a"

definition set_rf_tx where
  "set_rf_tx enc fate nick rf a = accounts_mutate enc fate (do_set_rf_tx nick rf) a"

definition set_callsign where
  "set_callsign enc fate nick call a = accounts_mutate enc fate (do_set_callsign nick call) a"

definition clear_callsign where
  "clear_callsign enc fate call a = accounts_mutate enc fate (do_clear_callsign call) a"

definition ban_ip where
  "ban_ip enc fate host a =
     (if host_ban_key host = [] then (Inr False, a)
      else if is_ip_banned a host then (Inr False, a)
      else accounts_mutate enc fate (do_ban_ip (host_ban_key host)) a)"

definition unban_ip where
  "unban_ip enc fate host a =
     (if \<not> is_ip_banned a host then (Inr False, a)
      else accounts_mutate enc fate (do_unban_ip (host_ban_key host)) a)"

subsection \<open>As one step\<close>

datatype account_change =
    ChInsert ustr ustr nat
  | ChPassword ustr ustr
  | ChDrop ustr
  | ChRfTx ustr bool
  | ChCallsign ustr ustr
  | ChClear ustr
  | ChBan ustr
  | ChUnban ustr

definition change :: "(store \<Rightarrow> ustr option) \<Rightarrow> io_fate \<Rightarrow> account_change \<Rightarrow> accounts \<Rightarrow> account_error option \<times> accounts" where
  "change enc fate c a =
     (case c of
        ChInsert nick hash now \<Rightarrow> map_prod (case_sum Some Map.empty) id (insert_hashed enc fate nick hash now a)
      | ChPassword nick hash \<Rightarrow> map_prod (case_sum Some Map.empty) id (set_password_hash enc fate nick hash a)
      | ChDrop nick \<Rightarrow> map_prod (case_sum Some Map.empty) id (drop_nick enc fate nick a)
      | ChRfTx nick rf \<Rightarrow> map_prod (case_sum Some Map.empty) id (set_rf_tx enc fate nick rf a)
      | ChCallsign nick call \<Rightarrow> map_prod (case_sum Some Map.empty) id (set_callsign enc fate nick call a)
      | ChClear call \<Rightarrow> map_prod (case_sum Some Map.empty) id (clear_callsign enc fate call a)
      | ChBan host \<Rightarrow> map_prod (case_sum Some Map.empty) id (ban_ip enc fate host a)
      | ChUnban host \<Rightarrow> map_prod (case_sum Some Map.empty) id (unban_ip enc fate host a))"

text \<open>The server makes a change; a persist thread takes the lock; the thread that holds it writes.\<close>

datatype accounts_op = AcChange account_change io_fate | AcLock nat | AcWrite io_fate

definition accounts_step :: "(store \<Rightarrow> ustr option) \<Rightarrow> accounts_op \<Rightarrow> accounts \<Rightarrow> accounts" where
  "accounts_step enc x a =
     (case x of
        AcChange c fate \<Rightarrow> snd (change enc fate c a)
      | AcLock i \<Rightarrow> thread_lock i a
      | AcWrite fate \<Rightarrow> thread_write fate a)"

end
