(* ===== verification/Accounts_Proofs.thy ===== *)
theory Accounts_Proofs
  imports Accounts "HOL-Library.Countable" "HOL-Library.Sublist"
begin

text \<open>
  What \<open>Accounts\<close> promises: the store keeps one account for each nickname and one owner for each callsign; a write
  leaves the old file or the new one; and what the process holds in memory is what a restart reads back.
\<close>

section \<open>The store's invariant\<close>

definition store_ok :: "store \<Rightarrow> bool" where
  "store_ok s \<longleftrightarrow> table_ok (so_nicks s) \<and>
     (\<forall>k a. map_of (so_nicks s) k = Some a \<longrightarrow> k = lower (na_nick a)) \<and>
     (\<forall>k a k' a' c. map_of (so_nicks s) k = Some a \<and> map_of (so_nicks s) k' = Some a' \<and>
        claims_call c a \<and> claims_call c a' \<longrightarrow> k = k')"

lemma store_okI:
  assumes "table_ok (so_nicks s)"
    and "\<And>k a. map_of (so_nicks s) k = Some a \<Longrightarrow> k = lower (na_nick a)"
    and "\<And>k a k' a' c. map_of (so_nicks s) k = Some a \<Longrightarrow> map_of (so_nicks s) k' = Some a' \<Longrightarrow>
       claims_call c a \<Longrightarrow> claims_call c a' \<Longrightarrow> k = k'"
  shows "store_ok s"
  using assms unfolding store_ok_def by blast

lemma store_okD:
  assumes "store_ok s"
  shows "table_ok (so_nicks s)"
    and "map_of (so_nicks s) k = Some a \<Longrightarrow> lower (na_nick a) = k"
    and "map_of (so_nicks s) k = Some a \<Longrightarrow> map_of (so_nicks s) k' = Some a' \<Longrightarrow>
       claims_call c a \<Longrightarrow> claims_call c a' \<Longrightarrow> k = k'"
  using assms unfolding store_ok_def by blast+

lemma find_claims:
  "find (\<lambda>(_, a). claims_call w a) m = Some (k, a) \<Longrightarrow> (k, a) \<in> set m \<and> claims_call w a"
  by (auto simp: find_Some_iff in_set_conv_nth)

lemma find_no_claims:
  "find (\<lambda>(_, a). claims_call w a) m = None \<Longrightarrow> (k, a) \<in> set m \<Longrightarrow> \<not> claims_call w a"
  by (auto simp: find_None_iff)

text \<open>An update of one account that keeps its nickname, and gives it no callsign another account has.\<close>

lemma update_account_ok:
  assumes ok: "store_ok s" and r: "update_account key f s = Inr (r, s')"
    and nick: "\<And>a. na_nick (f a) = na_nick a"
    and call: "\<And>a k a' c. map_of (so_nicks s) key = Some a \<Longrightarrow> map_of (so_nicks s) k = Some a' \<Longrightarrow> k \<noteq> key \<Longrightarrow>
       claims_call c (f a) \<Longrightarrow> \<not> claims_call c a'"
  shows "store_ok s'"
proof -
  obtain a where a: "map_of (so_nicks s) key = Some a"
      and s': "s' = s\<lparr>so_nicks := AList.update key (f a) (so_nicks s)\<rparr>"
    using r by (auto simp: update_account_def split: option.splits)
  show ?thesis
  proof (rule store_okI)
    show "table_ok (so_nicks s')" using store_okD(1) [OF ok] by (simp add: s')
  next
    fix k x assume "map_of (so_nicks s') k = Some x"
    then show "k = lower (na_nick x)"
      using store_okD(2) [OF ok] a nick by (auto simp: s' split: if_splits)
  next
    fix k x k' x' c
    assume "map_of (so_nicks s') k = Some x" "map_of (so_nicks s') k' = Some x'" "claims_call c x" "claims_call c x'"
    then show "k = k'"
      using store_okD(3) [OF ok] call [OF a] by (auto simp: s' split: if_splits)
  qed
qed

lemma same_claims_ok:
  assumes "store_ok s" "update_account key f s = Inr (r, s')"
    and "\<And>a. na_nick (f a) = na_nick a" "\<And>a c. claims_call c (f a) \<Longrightarrow> claims_call c a"
  shows "store_ok s'"
  using assms(1-3) by (rule update_account_ok) (use assms(4) store_okD(3) [OF assms(1)] in blast)

lemma set_callsign_ok:
  assumes ok: "store_ok s" and r: "do_set_callsign nick call s = Inr (r, s')"
  shows "store_ok s'"
proof -
  let ?f = "\<lambda>a :: nick_account. a\<lparr>na_callsign := Some call\<rparr>"
  have claims: "claims_call c (?f a) \<longleftrightarrow> c = lower call" for c a by (auto simp: claims_call_def)
  have u: "update_account (lower nick) ?f s = Inr (r, s')"
    using r by (auto simp: do_set_callsign_def split: if_splits option.splits)
  show ?thesis
  proof (rule update_account_ok [OF ok u])
    fix a k a' c
    assume k: "map_of (so_nicks s) k = Some a'" "k \<noteq> lower nick" and c: "claims_call c (?f a)"
    show "\<not> claims_call c a'"
    proof
      assume "claims_call c a'"
      then have a': "claims_call (lower call) a'" using c claims by simp
      have "(k, a') \<in> set (so_nicks s)" using k(1) by (rule map_of_SomeD)
      then obtain k2 a2 where f: "find (\<lambda>(_, a). claims_call (lower call) a) (so_nicks s) = Some (k2, a2)"
        using a' by (cases "find (\<lambda>(_, a). claims_call (lower call) a) (so_nicks s)") (auto dest: find_no_claims)
      then have "lower (na_nick a2) = lower nick"
        using r by (auto simp: do_set_callsign_def split: if_splits)
      moreover have m: "map_of (so_nicks s) k2 = Some a2" "claims_call (lower call) a2"
        using find_claims [OF f] store_okD(1) [OF ok] by (auto simp: table_ok_def)
      then have "k2 = k" using store_okD(3) [OF ok _ k(1) _ a'] by blast
      ultimately show False using store_okD(2) [OF ok m(1)] k(2) by simp
    qed
  qed simp
qed

lemma clear_callsign_ok:
  assumes ok: "store_ok s" and r: "do_clear_callsign call s = Inr (r, s')"
  shows "store_ok s'"
proof -
  obtain k a where f: "find (\<lambda>(_, a). claims_call (lower call) a) (so_nicks s) = Some (k, a)"
      and s': "s' = s\<lparr>so_nicks := AList.update k (a\<lparr>na_callsign := None\<rparr>) (so_nicks s)\<rparr>"
    using r by (auto simp: do_clear_callsign_def split: option.splits)
  have "map_of (so_nicks s) k = Some a"
    using find_claims [OF f] store_okD(1) [OF ok] by (auto simp: table_ok_def)
  then have "update_account k (\<lambda>a. a\<lparr>na_callsign := None\<rparr>) s = Inr ((), s')"
    by (simp add: update_account_def s')
  from same_claims_ok [OF ok this] show ?thesis by (auto simp: claims_call_def)
qed

lemma insert_ok:
  assumes ok: "store_ok s" and r: "do_insert_hashed nick hash now s = Inr (r, s')"
  shows "store_ok s'"
proof -
  have s': "s' = s\<lparr>so_nicks := AList.update (lower nick)
      \<lparr>na_nick = nick, na_password_hash = hash, na_created_unix = now, na_rf_tx = False, na_callsign = None\<rparr> (so_nicks s)\<rparr>"
    using r by (auto simp: do_insert_hashed_def split: if_splits)
  show ?thesis
    by (rule store_okI)
       (auto simp: s' claims_call_def store_okD(1) [OF ok] split: if_splits
         dest: store_okD(2) [OF ok] store_okD(3) [OF ok, unfolded claims_call_def])
qed

lemma drop_ok:
  assumes ok: "store_ok s" and r: "do_drop_nick nick s = Inr (r, s')"
  shows "store_ok s'"
proof -
  have s': "s' = s\<lparr>so_nicks := AList.delete (lower nick) (so_nicks s)\<rparr>"
    using r by (auto simp: do_drop_nick_def split: if_splits)
  show ?thesis
    by (rule store_okI)
       (auto simp: s' store_okD(1) [OF ok] split: if_splits dest: store_okD(2) [OF ok] store_okD(3) [OF ok])
qed

lemma bans_only [simp]: "store_ok (s\<lparr>so_ip_bans := b\<rparr>) = store_ok s"
  by (simp add: store_ok_def)

lemma commit_store:
  "ac_store (snd (accounts_commit enc fate s' a)) \<in> {ac_store a, s'}"
  by (auto simp: accounts_commit_def split: option.splits prod.splits bool.splits)

lemma mutate_ok:
  assumes "store_ok (ac_store a)" "\<And>r s'. f (ac_store a) = Inr (r, s') \<Longrightarrow> store_ok s'"
  shows "store_ok (ac_store (snd (accounts_mutate enc fate f a)))"
proof (cases "f (ac_store a)")
  case (Inr p)
  then obtain r s' where "f (ac_store a) = Inr (r, s')" by (cases p) auto
  then show ?thesis using assms commit_store [of enc fate s' a]
    by (auto simp: accounts_mutate_def split: sum.splits prod.splits)
qed (use assms in \<open>simp add: accounts_mutate_def\<close>)

lemma change_ok:
  assumes "store_ok (ac_store a)"
  shows "store_ok (ac_store (snd (change enc fate c a)))"
proof -
  have "store_ok (ac_store (snd (insert_hashed enc fate nick hash now a)))" for nick hash now
    unfolding insert_hashed_def by (intro mutate_ok assms) (rule insert_ok [OF assms])
  moreover have "store_ok (ac_store (snd (set_password_hash enc fate nick hash a)))" for nick hash
    unfolding set_password_hash_def do_set_password_hash_def
    by (intro mutate_ok assms) (erule same_claims_ok [OF assms], auto simp: claims_call_def)
  moreover have "store_ok (ac_store (snd (drop_nick enc fate nick a)))" for nick
    unfolding drop_nick_def by (intro mutate_ok assms) (rule drop_ok [OF assms])
  moreover have "store_ok (ac_store (snd (set_rf_tx enc fate nick rf a)))" for nick rf
    unfolding set_rf_tx_def do_set_rf_tx_def
    by (intro mutate_ok assms) (erule same_claims_ok [OF assms], auto simp: claims_call_def)
  moreover have "store_ok (ac_store (snd (set_callsign enc fate nick call a)))" for nick call
    unfolding set_callsign_def by (intro mutate_ok assms) (rule set_callsign_ok [OF assms])
  moreover have "store_ok (ac_store (snd (clear_callsign enc fate call a)))" for call
    unfolding clear_callsign_def by (intro mutate_ok assms) (rule clear_callsign_ok [OF assms])
  moreover have "store_ok (ac_store (snd (ban_ip enc fate host a)))" for host
    using assms by (auto simp: ban_ip_def do_ban_ip_def intro!: mutate_ok)
  moreover have "store_ok (ac_store (snd (unban_ip enc fate host a)))" for host
    using assms by (auto simp: unban_ip_def do_unban_ip_def intro!: mutate_ok)
  ultimately show ?thesis by (cases c) (simp_all add: change_def)
qed

lemma thread_store [simp]:
  "ac_store (thread_lock i a) = ac_store a" "ac_store (thread_write fate a) = ac_store a"
  by (simp_all add: thread_lock_def thread_write_def Let_def split: option.splits prod.splits bool.splits)

interpretation accounts_machine: invariant_machine "accounts_step enc" "\<lambda>a. store_ok (ac_store a)" for enc
  by unfold_locales (auto simp: accounts_step_def change_ok split: accounts_op.splits)

section \<open>Writing the file\<close>

lemma calls_prefix: "take k io_calls \<in> set (prefixes io_calls)"
  by (simp add: take_is_prefix)

lemma write_prefix:
  assumes "cs \<in> set (prefixes io_calls)"
  shows "dk_file (snd (run_calls s fate cs d)) \<in> {dk_file d, Some s}"
proof (cases fate)
  case IoFine
  show ?thesis using assms by (auto simp: IoFine io_calls_def io_done_def)
next
  case (IoError c n)
  show ?thesis using assms by (cases c) (auto simp: IoError io_calls_def io_done_def io_failed_def)
qed

lemma write_fine: "write_atomic s IoFine d = (True, \<lparr>dk_file = Some s, dk_temp = None\<rparr>)"
  by (simp add: write_atomic_def io_calls_def io_done_def)

lemma write_error: "write_atomic s (IoError c n) d = (False, snd (write_atomic s (IoError c n) d))"
  by (cases c) (simp_all add: write_atomic_def io_calls_def io_done_def io_failed_def)

lemma write_error_file:
  "c \<notin> {StatFile, ChmodFile} \<Longrightarrow> dk_file (snd (write_atomic s (IoError c n) d)) = dk_file d"
  by (cases c) (simp_all add: write_atomic_def io_calls_def io_done_def io_failed_def)

section \<open>What a restart reads\<close>

definition reads_back :: "(ustr \<Rightarrow> store option) \<Rightarrow> store \<Rightarrow> disk \<Rightarrow> bool" where
  "reads_back dec s d \<longleftrightarrow> (case dk_file d of None \<Rightarrow> s = store_default | Some t \<Rightarrow> dec t = Some s)"

lemma reads_back_load: "reads_back dec s d \<longleftrightarrow> map_option ac_store (accounts_load dec d) = Some s"
  by (auto simp: reads_back_def accounts_load_def accounts_of_def split: option.splits)

text \<open>A change in asynchronous mode: nothing, or a commit with its thread.\<close>

definition committed :: "store \<Rightarrow> ustr \<Rightarrow> accounts \<Rightarrow> accounts" where
  "committed s' t a = a\<lparr>ac_store := s', ac_gen := ac_gen a + 1, ac_threads := ac_threads a @ [(ac_gen a + 1, t)]\<rparr>"

lemma mutate_async:
  assumes "ac_async a"
  shows "snd (accounts_mutate enc fate f a) = a \<or>
     (\<exists>s' t. enc s' = Some t \<and> snd (accounts_mutate enc fate f a) = committed s' t a)"
  using assms by (auto simp: accounts_mutate_def accounts_commit_def committed_def split: sum.splits option.splits)

lemma change_async:
  assumes "ac_async a"
  shows "snd (change enc fate c a) = a \<or> (\<exists>s' t. enc s' = Some t \<and> snd (change enc fate c a) = committed s' t a)"
  by (cases c) (simp_all add: mutate_async [OF assms] change_def insert_hashed_def set_password_hash_def drop_nick_def set_rf_tx_def
      set_callsign_def clear_callsign_def ban_ip_def unban_ip_def)

definition persists :: "(store \<Rightarrow> ustr option) \<Rightarrow> (ustr \<Rightarrow> store option) \<Rightarrow> accounts \<Rightarrow> bool" where
  "persists enc dec a \<longleftrightarrow> ac_async a \<and>
     (\<forall>(g, t) \<in> set (ac_threads a) \<union> set_option (ac_writing a). g \<le> ac_gen a \<and>
        (g = ac_gen a \<longrightarrow> enc (ac_store a) = Some t)) \<and>
     (\<forall>(g, t) \<in> set_option (ac_writing a). g = ac_gen a \<or> ac_gen a \<in> fst ` set (ac_threads a)) \<and>
     (reads_back dec (ac_store a) (ac_disk a) \<or> 0 < ac_fail a \<or> ac_gen a \<in> fst ` set (ac_threads a)
      \<or> (\<exists>t. ac_writing a = Some (ac_gen a, t)))"

lemma committed_persists: "persists enc dec a \<Longrightarrow> enc s' = Some t \<Longrightarrow> persists enc dec (committed s' t a)"
  by (cases "ac_writing a") (auto simp: persists_def committed_def split: prod.splits dest!: bspec)

lemma persistsD:
  assumes "persists enc dec a"
  shows "ac_async a"
    and "(g, t) \<in> set (ac_threads a) \<Longrightarrow> g \<le> ac_gen a"
    and "(ac_gen a, t) \<in> set (ac_threads a) \<Longrightarrow> enc (ac_store a) = Some t"
    and "ac_writing a = None \<Longrightarrow>
      reads_back dec (ac_store a) (ac_disk a) \<or> 0 < ac_fail a \<or> ac_gen a \<in> fst ` set (ac_threads a)"
  using assms by (auto simp: persists_def)

lemma lock_persists:
  assumes p: "persists enc dec a"
  shows "persists enc dec (thread_lock i a)"
proof (cases "ac_writing a \<noteq> None \<or> length (ac_threads a) \<le> i")
  case False
  then have idle: "ac_writing a = None" by (cases "ac_writing a") auto
  obtain g t where gt: "ac_threads a ! i = (g, t)" by (cases "ac_threads a ! i")
  have mem: "(g, t) \<in> set (ac_threads a)" using False gt by (metis not_le nth_mem)
  have sub: "(g', t') \<in> set (ac_threads a)" if "(g', t') \<in> set (remove_at i (ac_threads a))" for g' t'
    using that set_remove_at [of i "ac_threads a"] by blast
  show ?thesis
  proof (cases "g = ac_gen a")
    case True
    then have "thread_lock i a = a\<lparr>ac_threads := remove_at i (ac_threads a), ac_writing := Some (g, t)\<rparr>"
      using False gt by (simp add: thread_lock_def)
    moreover have "enc (ac_store a) = Some t" using persistsD(3) [OF p] mem True by simp
    moreover have "enc (ac_store a) = Some t'" if "(ac_gen a, t') \<in> set (remove_at i (ac_threads a))" for t'
      using persistsD(3) [OF p] sub [OF that] by simp
    moreover have "g' \<le> ac_gen a" if "(g', t') \<in> set (remove_at i (ac_threads a))" for g' t'
      using persistsD(2) [OF p sub [OF that]] .
    ultimately show ?thesis
      using True persistsD(1) [OF p] by (auto simp: persists_def)
  next
    case g: False
    then have a': "thread_lock i a = a\<lparr>ac_threads := remove_at i (ac_threads a)\<rparr>"
      using False gt by (simp add: thread_lock_def Let_def)
    have "set (ac_threads a) \<subseteq> insert (g, t) (set (remove_at i (ac_threads a)))"
      using False gt by (subst remove_at_split [of i "ac_threads a"]) (auto simp: remove_at_def)
    then have "ac_gen a \<in> fst ` set (remove_at i (ac_threads a))" if "ac_gen a \<in> fst ` set (ac_threads a)"
      using that g by force
    then show ?thesis
      using persistsD [OF p] idle unfolding a' by (auto simp: persists_def dest!: sub)
  qed
qed (use p in \<open>auto simp: thread_lock_def\<close>)

lemma write_persists:
  assumes p: "persists enc dec a" and json: "\<And>s t. enc s = Some t \<Longrightarrow> dec t = Some s"
  shows "persists enc dec (thread_write fate a)"
proof (cases "ac_writing a")
  case (Some gt)
  obtain g t where gt: "gt = (g, t)" by (cases gt)
  show ?thesis
  proof (cases fate)
    case IoFine
    then show ?thesis using p Some gt json
      by (auto simp: persists_def thread_write_def write_fine reads_back_def)
  next
    case (IoError c n)
    then have "thread_write fate a = a\<lparr>ac_writing := None, ac_disk := snd (write_atomic t (IoError c n) (ac_disk a)),
        ac_fail := ac_fail a + 1\<rparr>"
      using Some gt write_error [of t c n "ac_disk a"]
      by (cases "write_atomic t (IoError c n) (ac_disk a)") (simp add: thread_write_def)
    then show ?thesis using p by (auto simp: persists_def)
  qed
qed (use p in \<open>simp add: thread_write_def\<close>)

lemma persists_step:
  assumes "persists enc dec a" "\<And>s t. enc s = Some t \<Longrightarrow> dec t = Some s"
  shows "persists enc dec (accounts_step enc x a)"
proof (cases x)
  case (AcChange c fate)
  have "ac_async a" using assms(1) by (simp add: persists_def)
  from change_async [OF this, of enc fate c] show ?thesis
    using committed_persists [OF assms(1)] assms(1) AcChange by (auto simp: accounts_step_def)
qed (use assms lock_persists write_persists in \<open>auto simp: accounts_step_def\<close>)

lemma persists_run:
  assumes json: "\<And>s t. enc s = Some t \<Longrightarrow> dec t = Some s" and "persists enc dec a"
  shows "persists enc dec (fold (accounts_step enc) xs a)"
  using assms(2) by (induction xs arbitrary: a) (auto intro: persists_step json)

lemma load_persists:
  "accounts_load dec d = Some a \<Longrightarrow> persists enc dec (enable_async_persist a)"
  by (auto simp: accounts_load_def accounts_of_def enable_async_persist_def persists_def reads_back_def split: option.splits)

text \<open>Synchronous mode: memory and file agree after every change, unless the file's mode could not be set after the rename.\<close>

lemma mutate_sync:
  assumes "\<not> ac_async a" "reads_back dec (ac_store a) (ac_disk a)" "\<And>s t. enc s = Some t \<Longrightarrow> dec t = Some s"
    and "\<And>c n. fate = IoError c n \<Longrightarrow> c \<notin> {StatFile, ChmodFile}"
  shows "reads_back dec (ac_store (snd (accounts_mutate enc fate f a))) (ac_disk (snd (accounts_mutate enc fate f a)))"
proof (cases fate)
  case IoFine
  then show ?thesis using assms(1-3)
    by (auto simp: accounts_mutate_def accounts_commit_def write_fine reads_back_def split: sum.splits option.splits)
next
  case (IoError c n)
  define D where "D t d = snd (write_atomic t fate d)" for t d
  have "write_atomic t fate d = (False, D t d)" for t d
    unfolding D_def IoError by (rule write_error)
  moreover have "dk_file (D t d) = dk_file d" for t d
    using assms(4) [OF IoError] unfolding D_def IoError by (intro write_error_file) simp
  ultimately show ?thesis using assms(1,2)
    by (auto simp: accounts_mutate_def accounts_commit_def reads_back_def split: sum.splits option.splits)
qed

text \<open>
  A write that fails after its rename reports an error, and the change it refused is in the file: the process goes on
  without it and the next start has it.
\<close>

lemma refused_change_is_on_disk:
  "fst (write_atomic s (IoError ChmodFile 0) d) = False \<and> dk_file (snd (write_atomic s (IoError ChmodFile 0) d)) = Some s"
  by (simp add: write_atomic_def io_calls_def io_done_def io_failed_def)

section \<open>A host under its keys\<close>

lemma banned_after_ban:
  assumes "host_ban_key (host_ban_key h) = host_ban_key h" "host_ban_key h \<noteq> []" "ac_async a" "enc = (\<lambda>s. Some (e s))"
    and "host_ban_key h' = host_ban_key h"
  shows "is_ip_banned (snd (ban_ip enc fate h a)) h'"
  using assms
  by (auto simp: ban_ip_def accounts_mutate_def do_ban_ip_def accounts_commit_def is_ip_banned_def)

lemma not_banned_after_unban:
  assumes "ac_async a" "enc = (\<lambda>s. Some (e s))" "host_ban_key h' = host_ban_key h"
  shows "\<not> is_ip_banned (snd (unban_ip enc fate h a)) h'"
  using assms
  by (auto simp: unban_ip_def accounts_mutate_def do_unban_ip_def accounts_commit_def is_ip_banned_def list_ex_iff)

section \<open>A codec for the store\<close>

text \<open>One function that stands for the JSON of a store, for the examples.\<close>

type_synonym store_tuple = "(ustr \<times> ustr \<times> ustr \<times> nat \<times> bool \<times> ustr option) list \<times> ustr list"

definition tuple_of :: "store \<Rightarrow> store_tuple" where
  "tuple_of s = (map (\<lambda>(k, a). (k, na_nick a, na_password_hash a, na_created_unix a, na_rf_tx a, na_callsign a))
     (so_nicks s), so_ip_bans s)"

definition of_tuple :: "store_tuple \<Rightarrow> store" where
  "of_tuple t = \<lparr>so_nicks = map (\<lambda>(k, n, h, c, r, cs). (k, \<lparr>na_nick = n, na_password_hash = h, na_created_unix = c,
       na_rf_tx = r, na_callsign = cs\<rparr>)) (fst t), so_ip_bans = snd t\<rparr>"

definition sample_enc :: "store \<Rightarrow> ustr option" where
  "sample_enc s = Some [to_nat (tuple_of s)]"

definition sample_dec :: "ustr \<Rightarrow> store option" where
  "sample_dec t = (case t of [n] \<Rightarrow> Some (of_tuple (from_nat n)) | _ \<Rightarrow> None)"

lemma of_tuple_of: "of_tuple (tuple_of s) = s"
  by (cases s) (auto simp: of_tuple_def tuple_of_def case_prod_beta intro!: map_idI)

lemma sample_json: "sample_enc s = Some t \<Longrightarrow> sample_dec t = Some s"
  by (auto simp: sample_enc_def sample_dec_def of_tuple_of)

section \<open>Properties\<close>

text \<open>C28: One account for each nickname and one owner for each callsign are kept: from accounts that have them (\<open>store_ok\<close>; an empty store does, loading a file does not
  check it), whatever the order of registrations, claims, releases, bans and background writes, nicknames that differ only in case (IRC case) are
  the same account, and two accounts never hold callsigns that differ only in case.\<close>

theorem accounts_invariant:
  assumes "store_ok (ac_store a)" and "a' = fold (accounts_step enc) xs a"
  shows "store_ok (ac_store a') \<and>
     (\<forall>n x. get_account a' n = Some x \<longrightarrow> lower (na_nick x) = lower n) \<and>
     (\<forall>n x m y c. get_account a' n = Some x \<and> get_account a' m = Some y \<and> claims_call c x \<and> claims_call c y
        \<longrightarrow> lower n = lower m)"
proof -
  have ok: "store_ok (ac_store a')"
    unfolding assms(2) using assms(1) by (rule accounts_machine.run_inv)
  then show ?thesis using store_okD [OF ok] unfolding get_account_def by blast
qed

definition sample_changes :: "accounts_op list" where
  "sample_changes =
     [AcChange (ChInsert (lit ''Ann'') (lit ''h'') 7) IoFine,
      AcChange (ChCallsign (lit ''ann'') (lit ''SM0ABC'')) IoFine, AcLock 0, AcLock 0, AcWrite IoFine]"

lemma empty_store_ok: "store_ok store_default"
  by (simp add: store_ok_def store_default_def)

theorem accounts_invariant_witness:
  "store_ok (ac_store (fold (accounts_step sample_enc) sample_changes
     (enable_async_persist (accounts_of store_default \<lparr>dk_file = None, dk_temp = None\<rparr>))))"
  using accounts_invariant [of "enable_async_persist (accounts_of store_default \<lparr>dk_file = None, dk_temp = None\<rparr>)",
      OF _ refl] empty_store_ok
  by (simp add: enable_async_persist_def accounts_of_def)

text \<open>The nick file is replaced whole. At every moment of a write, whichever call fails and wherever the process
  dies, the file holds either what it held before or the whole new text; and the write reports success exactly when no
  call failed, with the new text in place.\<close>

theorem write_is_old_or_new:
  "dk_file (snd (run_calls s fate (take k io_calls) d)) \<in> {dk_file d, Some s} \<and>
   fst (write_atomic s fate d) = (fate = IoFine) \<and>
   write_atomic s IoFine d = (True, \<lparr>dk_file = Some s, dk_temp = None\<rparr>)"
proof -
  have "fst (write_atomic s fate d) = (fate = IoFine)"
    using write_error [of s] by (cases fate) (auto simp: write_fine, metis fst_conv)
  then show ?thesis using write_prefix [OF calls_prefix, of s fate k d] by (simp add: write_fine)
qed

text \<open>C29: A restart loses nothing that was acknowledged. With background writing, any interleaving of changes, of
  threads taking the lock in any order and of their writes, leaves a file that a restart reads back to exactly
  the accounts in memory, once the threads are done and the count of failed writes is zero: a later change is never
  overwritten by the thread of an earlier one. (JSON is assumed to read back what it printed.)\<close>

theorem restart_loses_nothing:
  assumes json: "\<And>s t. enc s = Some t \<Longrightarrow> dec t = Some s"
    and "accounts_load dec d = Some a0" and a: "a = fold (accounts_step enc) xs (enable_async_persist a0)"
    and quiet: "ac_threads a = []" "ac_writing a = None" "ac_fail a = 0"
  shows "map_option ac_store (accounts_load dec (ac_disk a)) = Some (ac_store a)"
proof -
  have "persists enc dec a" unfolding a by (intro persists_run json load_persists [OF assms(2)])
  from persistsD(4) [OF this] quiet show ?thesis by (simp add: reads_back_load)
qed

lemmas sample_run_defs = sample_changes_def accounts_step_def change_def insert_hashed_def set_callsign_def
  accounts_mutate_def accounts_commit_def do_insert_hashed_def do_set_callsign_def update_account_def
  enable_async_persist_def accounts_of_def store_default_def thread_lock_def thread_write_def remove_at_def write_fine
  sample_enc_def claims_call_def

theorem restart_loses_nothing_witness:
  "map_option ac_store (accounts_load sample_dec (ac_disk (fold (accounts_step sample_enc) sample_changes
     (enable_async_persist (accounts_of store_default \<lparr>dk_file = None, dk_temp = None\<rparr>))))) =
   Some (ac_store (fold (accounts_step sample_enc) sample_changes
     (enable_async_persist (accounts_of store_default \<lparr>dk_file = None, dk_temp = None\<rparr>))))"
proof (rule restart_loses_nothing [of sample_enc sample_dec "\<lparr>dk_file = None, dk_temp = None\<rparr>", OF sample_json _ refl])
  show "accounts_load sample_dec \<lparr>dk_file = None, dk_temp = None\<rparr> = Some (accounts_of store_default \<lparr>dk_file = None, dk_temp = None\<rparr>)"
    by (simp add: accounts_load_def)
  have low: "lower (lit ''Ann'') = lower (lit ''ann'')" by code_simp
  let ?a = "fold (accounts_step sample_enc) sample_changes
     (enable_async_persist (accounts_of store_default \<lparr>dk_file = None, dk_temp = None\<rparr>))"
  show "ac_threads ?a = []" "ac_writing ?a = None" "ac_fail ?a = 0"
    by (simp_all add: sample_run_defs low)
qed

end
