(* ===== verification/Server.thy ===== *)
theory Server
  imports Radio Clients Accounts Admission
begin

text \<open>
  \<open>src/src/server/mod.rs\<close>: the server's state and what it sends. One task owns it all: the chat state, the
  policy, the radio, the accounts and the clients' links. A \<open>delivery\<close> is a thing that happened; it is rendered as an
  IRC line for a client and, if \<open>rf_emission\<close> names it, as a transmission for the stations on the air.

  Every function takes the clock as an argument and reads it once. \<open>srv_audit\<close> is what the server passes to the
  audit trail; the links keep their own part of it. Log lines are not modelled.
\<close>

section \<open>The server\<close>

text \<open>
  Password work handed to another thread, and the answer expected of it: the hash of a password, whether a password
  matches a hash, or work done only for its duration, which always fails. The event that brings the answer is
  \<open>AuthFinished\<close>.
\<close>

datatype auth_kind = AuIdentify | AuRegister | AuUnregister | AuOper

datatype auth_work = WHash ustr | WVerify ustr ustr | WDummy ustr

record auth_job =
  job_client :: client_id
  job_kind :: auth_kind
  job_nick :: ustr
  job_work :: auth_work

record server =
  srv_config :: config
  srv_state :: irc_state
  srv_policy :: policy
  srv_radio :: radio
  srv_accounts :: accounts
  srv_clients :: clients
  srv_audit :: "audit_line list"
  srv_conn_password :: "ustr option"
  srv_air_notices :: "(user_id \<times> ustr, instant) table"
  srv_fail_seen :: nat
  srv_admission :: admission
  srv_jobs :: "auth_job list"
  srv_started :: nat
  srv_overflow :: bool

definition on_state :: "(irc_state \<Rightarrow> irc_state) \<Rightarrow> server \<Rightarrow> server" where
  "on_state f s = s\<lparr>srv_state := f (srv_state s)\<rparr>"

definition on_radio :: "(radio \<Rightarrow> radio) \<Rightarrow> server \<Rightarrow> server" where
  "on_radio f s = s\<lparr>srv_radio := f (srv_radio s)\<rparr>"

definition on_sessions :: "(sessions \<Rightarrow> sessions) \<Rightarrow> server \<Rightarrow> server" where
  "on_sessions f s = on_radio (\<lambda>r. r\<lparr>rd_sessions := f (rd_sessions r)\<rparr>) s"

definition on_peer :: "callsign \<Rightarrow> (peer \<Rightarrow> peer) \<Rightarrow> server \<Rightarrow> server" where
  "on_peer c f s = on_sessions (\<lambda>ss. case get_peer ss c of Some p \<Rightarrow> set_peer c (f p) ss | None \<Rightarrow> ss) s"

definition audit :: "ustr \<Rightarrow> (ustr \<times> ustr) list \<Rightarrow> server \<Rightarrow> server" where
  "audit kind kvs s = s\<lparr>srv_audit := srv_audit s @ [(kind, kvs)]\<rparr>"

definition on_admission :: "(admission \<Rightarrow> admission) \<Rightarrow> server \<Rightarrow> server" where
  "on_admission f s = s\<lparr>srv_admission := f (srv_admission s)\<rparr>"

definition server_name :: "server \<Rightarrow> ustr" where
  "server_name s = sv_name (cf_server (srv_config s))"

definition rf_mode_of :: "server \<Rightarrow> rf_mode" where
  "rf_mode_of s = rc_rf_mode (cf_radio (rd_config (srv_radio s)))"

definition user_of :: "server \<Rightarrow> user_id \<Rightarrow> user option" where
  "user_of s uid = st_user (srv_state s) uid"

definition nick_or_star :: "server \<Rightarrow> user_id \<Rightarrow> ustr" where
  "nick_or_star s uid = (case user_of s uid of Some u \<Rightarrow> us_nick u | None \<Rightarrow> lit ''*'')"

text \<open>
  The limit on the length of a text for the air: the configured one, or what fits in the permitted number of
  frames beside the other fields.
\<close>

definition cap_text_len :: "radio \<Rightarrow> policy_config \<Rightarrow> policy_config" where
  "cap_text_len r p =
     (let cap = radio_max_payload r * max (max_rf_fragments p) 1 - 48
      in if 0 < cap \<and> cap < max_rf_text_len p then p\<lparr>max_rf_text_len := cap\<rparr> else p)"

definition configure_channel :: "ustr \<Rightarrow> nat \<Rightarrow> channel_config \<Rightarrow> irc_state \<Rightarrow> irc_state" where
  "configure_channel name now_unix ch st =
     channel_mut (cc_name ch)
       (\<lambda>c. (if cc_topic ch = [] then c\<lparr>ch_configured := True\<rparr>
             else c\<lparr>ch_configured := True, ch_topic := Some (cc_topic ch), ch_topic_setter := name, ch_topic_time := now_unix\<rparr>)
            \<lparr>ch_operators := map lower (cc_operators ch)\<rparr>)
       (ensure_channel (cc_name ch) (cc_rf ch) st)"

text \<open>\<open>wall\<close> is the system clock in nanoseconds. The accounts are those \<open>accounts_load\<close> read; a file that does not parse stops the program before this point.\<close>

definition server_new :: "config \<Rightarrow> (tnc_config \<times> tnc) option \<Rightarrow> nat \<Rightarrow> accounts \<Rightarrow> server" where
  "server_new cf tnc wall acc =
     (let r = radio_new cf tnc in
      \<lparr>srv_config = cf,
       srv_state = fold (configure_channel (sv_name (cf_server cf)) (wall div 1000000000)) (cf_channels cf) irc_state_default,
       srv_policy = policy_new (cap_text_len r (cf_policy cf)), srv_radio = r, srv_accounts = acc,
       srv_clients = clients_new, srv_audit = [], srv_conn_password = sv_password (cf_server cf),
       srv_air_notices = [], srv_fail_seen = 0,
       srv_admission = load_bans (so_ip_bans (ac_store acc)) (admission_new (li_max_clients (cf_listen cf)) (li_max_conns_per_host (cf_listen cf))),
       srv_jobs = [], srv_started = wall, srv_overflow = False\<rparr>)"

section \<open>Deliveries\<close>

datatype delivery =
    DPrivmsg ustr ustr ustr ustr bool bool   \<comment> \<open>nick, prefix, target, text, notice, truncated\<close>
  | DJoin ustr ustr ustr
  | DPart ustr ustr ustr ustr
  | DQuit ustr ustr ustr
  | DNick ustr ustr ustr
  | DTopic ustr ustr ustr ustr

datatype rf_emission =
    EChat ustr ustr ustr bool bool   \<comment> \<open>nick, target, text, truncated, unicast\<close>
  | ETopic ustr ustr ustr
  | EPresence ustr ustr bool

definition rf_emission :: "bool \<Rightarrow> delivery \<Rightarrow> rf_emission option" where
  "rf_emission presence_notices d =
     (case d of
        DPrivmsg nick prefix target s notice truncated \<Rightarrow>
          if notice then None
          else
            (case parse_ctcp s of
               Some (cmd, rest) \<Rightarrow>
                 if eq_ignore_ascii_case cmd (lit ''ACTION'')
                 then Some (EChat nick target (lit ''/me '' @ rest) truncated (\<not> is_channel_name target))
                 else None
             | None \<Rightarrow> Some (EChat nick target s truncated (\<not> is_channel_name target)))
      | DTopic nick prefix ch topic \<Rightarrow> Some (ETopic nick ch (take 64 topic))
      | DJoin nick prefix ch \<Rightarrow> if presence_notices then Some (EPresence nick ch True) else None
      | DPart nick prefix ch reason \<Rightarrow> if presence_notices then Some (EPresence nick ch False) else None
      | DQuit nick prefix reason \<Rightarrow> None
      | DNick old prefix new \<Rightarrow> None)"

definition render_irc :: "delivery \<Rightarrow> ustr" where
  "render_irc d =
     message_to_string
       (case d of
          DPrivmsg nick prefix target s notice truncated \<Rightarrow>
            with_prefix prefix (message_new (if notice then lit ''NOTICE'' else lit ''PRIVMSG'') [target, s])
        | DJoin nick prefix ch \<Rightarrow> with_prefix prefix (message_new (lit ''JOIN'') [ch])
        | DPart nick prefix ch reason \<Rightarrow> with_prefix prefix (message_new (lit ''PART'') [ch, reason])
        | DQuit nick prefix reason \<Rightarrow> with_prefix prefix (message_new (lit ''QUIT'') [reason])
        | DNick old prefix new \<Rightarrow> with_prefix prefix (message_new (lit ''NICK'') [new])
        | DTopic nick prefix ch topic \<Rightarrow> with_prefix prefix (message_new (lit ''TOPIC'') [ch, topic]))"

section \<open>Output to clients and courtesies to stations\<close>

definition send_raw :: "client_id \<Rightarrow> ustr \<Rightarrow> server \<Rightarrow> server" where
  "send_raw i line s = s\<lparr>srv_clients := snd (clients_send i line (srv_clients s))\<rparr>"

definition numeric :: "user_id \<Rightarrow> ustr \<Rightarrow> ustr list \<Rightarrow> server \<Rightarrow> server" where
  "numeric uid code params s =
     (case uid of
        IpUser i \<Rightarrow>
          send_raw i (message_to_string (with_prefix (server_name s) (message_new code (nick_or_star s uid # params)))) s
      | RfUser _ \<Rightarrow> s)"

definition notice_user :: "instant \<Rightarrow> user_id \<Rightarrow> ustr \<Rightarrow> server \<Rightarrow> server" where
  "notice_user now uid s0 s =
     (case uid of
        IpUser i \<Rightarrow>
          send_raw i (message_to_string (with_prefix (server_name s) (message_new (lit ''NOTICE'') [nick_or_star s uid, s0]))) s
      | RfUser call \<Rightarrow>
          on_radio (unicast call KNotice (encode_fields [lit ''*'', take 80 s0]) False TxControl now) s)"

definition notice_opers :: "instant \<Rightarrow> ustr \<Rightarrow> server \<Rightarrow> server" where
  "notice_opers now s0 s =
     fold (\<lambda>i. notice_user now i s0) (map (\<lambda>(_, u). us_id u) (filter (\<lambda>(_, u). us_oper u) (st_users (srv_state s)))) s"

definition notice_rf_audience :: "instant \<Rightarrow> ustr \<Rightarrow> ustr \<Rightarrow> server \<Rightarrow> server" where
  "notice_rf_audience now ch s0 s =
     fold (\<lambda>uid. if id_is_rf uid then id else notice_user now uid s0) (st_members (srv_state s) ch) s"

definition announce_mode :: "ustr \<Rightarrow> ustr \<Rightarrow> ustr \<Rightarrow> ustr list \<Rightarrow> server \<Rightarrow> server" where
  "announce_mode ch setter changes args s =
     (let line = message_to_string (with_prefix setter (message_new (lit ''MODE'') (ch # changes # args)))
      in fold (\<lambda>uid. case uid of IpUser i \<Rightarrow> send_raw i line | RfUser _ \<Rightarrow> id) (st_members (srv_state s) ch) s)"

section \<open>Output to the air\<close>

definition chat_flags :: "bool \<Rightarrow> byte" where
  "chat_flags truncated = (if truncated then TRUNCATED else 0)"

definition aprs_line :: "ustr \<Rightarrow> ustr \<Rightarrow> bool \<Rightarrow> ustr" where
  "aprs_line nick s truncated = nick @ lit '': '' @ s @ (if truncated then [0x2026] else [])"

definition emit_direct_chat_rf :: "instant \<Rightarrow> callsign \<Rightarrow> ustr \<Rightarrow> ustr \<Rightarrow> bool \<Rightarrow> radio \<Rightarrow> radio" where
  "emit_direct_chat_rf now call nick s truncated r =
     (if wants_aprs r call then snd (enqueue_aprs_chat call (aprs_line nick s truncated) TxDirect now r)
      else snd (unicast_flagged call KMsg (encode_fields [to_nick call, nick, s]) True TxDirect (chat_flags truncated) now r))"

definition peer_speaks :: "radio \<Rightarrow> dialect \<Rightarrow> callsign \<Rightarrow> bool" where
  "peer_speaks r d c \<longleftrightarrow> (case get_peer (rd_sessions r) c of Some p \<Rightarrow> peer_dialect p = d | None \<Rightarrow> False)"

definition emit_channel_chat_rf_to ::
  "instant \<Rightarrow> ustr \<Rightarrow> callsign list \<Rightarrow> ustr \<Rightarrow> ustr \<Rightarrow> bool \<Rightarrow> radio \<Rightarrow> radio" where
  "emit_channel_chat_rf_to now ch calls nick s truncated r0 =
     (let mode = rc_rf_mode (cf_radio (rd_config r0));
          need_airc = (case mode of RfAprs \<Rightarrow> False | RfAirc \<Rightarrow> calls = [] \<or> list_ex (peer_speaks r0 Airc) calls);
          r = (if need_airc
               then broadcast_flagged KMsg (encode_fields [ch, nick, s]) TxChat (chat_flags truncated) now r0 else r0);
          targets = filter (\<lambda>c. case mode of RfAprs \<Rightarrow> True | RfAirc \<Rightarrow> peer_speaks r Aprs c) calls
      in fold (\<lambda>c r. snd (enqueue_aprs_chat c (aprs_line nick s truncated) TxChat now r)) targets r)"

definition deliver_rf :: "instant \<Rightarrow> callsign \<Rightarrow> delivery \<Rightarrow> server \<Rightarrow> server" where
  "deliver_rf now call d s =
     (case rf_emission (rc_presence_notices (cf_radio (srv_config s))) d of
        Some (EChat nick target s0 truncated uni) \<Rightarrow>
          if uni then on_radio (emit_direct_chat_rf now call nick s0 truncated) s else s
      | Some (ETopic nick ch topic) \<Rightarrow>
          if \<not> is_airc (rf_mode_of s) then s
          else
            (let (ok, p) = topic_rate_ok ch now (srv_policy s); s' = s\<lparr>srv_policy := p\<rparr>
             in if ok then on_radio (broadcast KNotice (encode_fields [ch, nick, topic]) TxChat now) s' else s')
      | Some (EPresence nick ch joins) \<Rightarrow>
          if \<not> is_airc (rf_mode_of s) then s
          else
            (let (ok, p) = presence_rate_ok ch now (srv_policy s); s' = s\<lparr>srv_policy := p\<rparr>
             in if ok
                then on_radio (broadcast KPresence (encode_fields [ch, nick, if joins then lit ''+'' else lit ''-'']) TxChat now) s'
                else s')
      | None \<Rightarrow> s)"

definition deliver :: "instant \<Rightarrow> user_id \<Rightarrow> delivery \<Rightarrow> server \<Rightarrow> server" where
  "deliver now uid d s =
     (case uid of IpUser i \<Rightarrow> send_raw i (render_irc d) s | RfUser call \<Rightarrow> deliver_rf now call d s)"

definition rf_calls_of :: "user_id list \<Rightarrow> callsign list" where
  "rf_calls_of us = List.map_filter id_callsign us"

definition broadcast_channel_ex ::
  "instant \<Rightarrow> ustr \<Rightarrow> delivery \<Rightarrow> user_id option \<Rightarrow> bool \<Rightarrow> server \<Rightarrow> server" where
  "broadcast_channel_ex now ch d skip allow_rf s0 =
     (let members = filter (\<lambda>uid. Some uid \<noteq> skip) (st_members (srv_state s0) ch);
          emission = rf_emission (rc_presence_notices (cf_radio (srv_config s0))) d;
          s = fold (\<lambda>uid. case uid of IpUser i \<Rightarrow> send_raw i (render_irc d) | RfUser _ \<Rightarrow> id) members s0;
          calls = rf_calls_of members
      in if \<not> allow_rf then s
         else
           (case emission of
              Some (EChat nick target s1 truncated uni) \<Rightarrow>
                if uni then s else on_radio (emit_channel_chat_rf_to now ch calls nick s1 truncated) s
            | None \<Rightarrow> s
            | Some _ \<Rightarrow>
                if \<not> is_airc (rf_mode_of s) then s
                else
                  (case (case calls of c # _ \<Rightarrow> Some c | [] \<Rightarrow> gateway_callsign (srv_config s)) of
                     Some call \<Rightarrow> deliver_rf now call d s
                   | None \<Rightarrow> s)))"

definition broadcast_channel :: "instant \<Rightarrow> ustr \<Rightarrow> delivery \<Rightarrow> user_id option \<Rightarrow> server \<Rightarrow> server" where
  "broadcast_channel now ch d skip s = broadcast_channel_ex now ch d skip True s"

text \<open>The loop over the users who share a channel; one delivery for all the stations among them.\<close>

definition peer_delivery :: "instant \<Rightarrow> delivery \<Rightarrow> user_id \<Rightarrow> bool \<times> server \<Rightarrow> bool \<times> server" where
  "peer_delivery now d t ds =
     (case ds of (rf_done, s) \<Rightarrow>
        if id_is_rf t then
          (if rf_done \<or> rf_emission (rc_presence_notices (cf_radio (srv_config s))) d = None then (rf_done, s)
           else (True, deliver now t d s))
        else (rf_done, deliver now t d s))"

definition broadcast_peers :: "instant \<Rightarrow> user_id \<Rightarrow> delivery \<Rightarrow> bool \<Rightarrow> server \<Rightarrow> server" where
  "broadcast_peers now uid d include_self s =
     snd (fold (peer_delivery now d) (peers_of (srv_state s) uid @ (if include_self then [uid] else [])) (False, s))"

section \<open>A user leaves\<close>

definition rf_channels_of :: "irc_state \<Rightarrow> user \<Rightarrow> ustr list" where
  "rf_channels_of st u =
     (if user_is_rf u
      then List.map_filter (\<lambda>k. case map_of (st_channels st) k of
             Some c \<Rightarrow> if ch_rf c then Some (ch_name c) else None | None \<Rightarrow> None) (us_channels u)
      else [])"

definition no_rf_left :: "irc_state \<Rightarrow> ustr \<Rightarrow> bool" where
  "no_rf_left st ch \<longleftrightarrow> (case st_channel st ch of Some c \<Rightarrow> \<not> has_rf_members c | None \<Rightarrow> False)"

definition quit_user :: "instant \<Rightarrow> user_id \<Rightarrow> ustr \<Rightarrow> server \<Rightarrow> server" where
  "quit_user now uid reason s0 =
     (case user_of s0 uid of
        None \<Rightarrow> s0
      | Some u \<Rightarrow>
          (let s1 = (if us_registered u
                     then broadcast_peers now uid (DQuit (us_nick u) (user_prefix u) reason) False s0 else s0);
               chs = rf_channels_of (srv_state s1) u;
               s2 = on_state (\<lambda>st. snd (remove_user uid st)) s1;
               s3 = s2\<lparr>srv_air_notices := filter (\<lambda>((i, _), _). i \<noteq> uid) (srv_air_notices s2)\<rparr>;
               s4 = (case uid of
                       IpUser i \<Rightarrow> s3\<lparr>srv_clients := clients_disconnect i (srv_clients s3)\<rparr>
                     | RfUser call \<Rightarrow> on_sessions (forget call) s3)
           in fold (\<lambda>ch s. if no_rf_left (srv_state s) ch
                then notice_rf_audience now ch (lit ''No RF station remains in this channel. Users with RF-TX can still CQ.'') s
                else s) chs s4))"

section \<open>Privileges\<close>

definition find_target :: "server \<Rightarrow> ustr \<Rightarrow> user_id option" where
  "find_target s name = map_option us_id (by_nick (srv_state s) name)"

definition user_may_tx_rf :: "server \<Rightarrow> user_id \<Rightarrow> bool" where
  "user_may_tx_rf s uid = (case user_of s uid of Some u \<Rightarrow> user_is_rf u \<or> us_oper u \<or> us_rf_tx u | None \<Rightarrow> False)"

definition is_chanop :: "server \<Rightarrow> user_id \<Rightarrow> ustr \<Rightarrow> bool" where
  "is_chanop s uid ch \<longleftrightarrow>
     (case user_of s uid of Some u \<Rightarrow> us_oper u | None \<Rightarrow> False) \<or>
     (case st_channel (srv_state s) ch of
        Some c \<Rightarrow> (case map_of (ch_members c) uid of Some f \<Rightarrow> mf_op f | None \<Rightarrow> False)
      | None \<Rightarrow> False)"

definition set_user :: "user_id \<Rightarrow> (user \<Rightarrow> user) \<Rightarrow> server \<Rightarrow> server" where
  "set_user uid f s = on_state (user_mut uid f) s"

text \<open>The callsign a user's account holds, if the user has identified to it.\<close>

definition stored_call :: "server \<Rightarrow> user \<Rightarrow> callsign option" where
  "stored_call s u =
     (if us_nick_identified u
      then Option.bind (Option.bind (get_account (srv_accounts s) (us_nick u)) na_callsign) parse_ok
      else None)"

text \<open>
  \<open>refresh_rf_tx\<close>, \<open>refresh_privileges\<close> and \<open>strip_callsign_claims\<close> call each other: a user whose claim is stripped may
  get its account's callsign back, which strips that callsign from others. The last of the three recurs on fuel, and
  \<open>None\<close> is the stack it ran out of.
\<close>

definition refresh_rf_tx_with ::
  "(callsign \<Rightarrow> user_id \<Rightarrow> ustr \<Rightarrow> server \<Rightarrow> server option) \<Rightarrow> user_id \<Rightarrow> server \<Rightarrow> server option" where
  "refresh_rf_tx_with strip uid s =
     (case user_of s uid of
        None \<Rightarrow> Some s
      | Some u \<Rightarrow>
          if user_is_rf u then Some s
          else
            (let granted = us_nick_identified u \<and> grants_rf_tx (srv_accounts s) (us_nick u);
                 restored = (if us_callsign u = None then stored_call s u else None);
                 s' = set_user uid (\<lambda>u. u\<lparr>us_rf_tx := us_oper u \<or> granted,
                        us_callsign := (case restored of Some c \<Rightarrow> Some c | None \<Rightarrow> us_callsign u)\<rparr>) s
             in case restored of
                  Some c \<Rightarrow> strip c uid (lit ''Callsign '' @ callsign_to_string c @ lit '' now belongs to another nick.'') s'
                | None \<Rightarrow> Some s'))"

definition refresh_channel :: "user_id \<Rightarrow> ustr \<Rightarrow> ustr \<Rightarrow> server \<Rightarrow> server" where
  "refresh_channel uid nick ch s =
     (let (change, st) = apply_intended_flags uid ch (srv_state s); s1 = s\<lparr>srv_state := st\<rparr>
      in case change of
           None \<Rightarrow> s1
         | Some (old, new) \<Rightarrow>
             (let s2 = (if mf_op old \<noteq> mf_op new
                        then announce_mode ch (server_name s1) (if mf_op new then lit ''+o'' else lit ''-o'') [nick] s1 else s1)
              in if mf_voice old \<noteq> mf_voice new
                 then announce_mode ch (server_name s1) (if mf_voice new then lit ''+v'' else lit ''-v'') [nick] s2 else s2))"

definition refresh_flags :: "user_id \<Rightarrow> server \<Rightarrow> server" where
  "refresh_flags uid s =
     (let chs = (case user_of s uid of
                   Some u \<Rightarrow> List.map_filter (\<lambda>k. map_option ch_name (map_of (st_channels (srv_state s)) k)) (us_channels u)
                 | None \<Rightarrow> []);
          nick = (case user_of s uid of Some u \<Rightarrow> us_nick u | None \<Rightarrow> [])
      in fold (refresh_channel uid nick) chs s)"

definition refresh_privileges_with ::
  "(callsign \<Rightarrow> user_id \<Rightarrow> ustr \<Rightarrow> server \<Rightarrow> server option) \<Rightarrow> user_id \<Rightarrow> server \<Rightarrow> server option" where
  "refresh_privileges_with strip uid s = map_option (refresh_flags uid) (refresh_rf_tx_with strip uid s)"

definition claim_victims :: "server \<Rightarrow> callsign \<Rightarrow> user_id option \<Rightarrow> user_id list" where
  "claim_victims s call keep =
     map (\<lambda>(_, u). us_id u) (filter (\<lambda>(_, u). Some (us_id u) \<noteq> keep \<and> us_callsign u = Some call) (st_users (srv_state s)))"

fun for_all :: "('a \<Rightarrow> 's \<Rightarrow> 's option) \<Rightarrow> 'a list \<Rightarrow> 's \<Rightarrow> 's option" where
  "for_all f [] s = Some s"
| "for_all f (x # xs) s = Option.bind (f x s) (for_all f xs)"

fun strip_claims :: "nat \<Rightarrow> instant \<Rightarrow> callsign \<Rightarrow> user_id option \<Rightarrow> ustr \<Rightarrow> server \<Rightarrow> server option" where
  "strip_claims 0 now call keep notice s = None"
| "strip_claims (Suc n) now call keep notice s =
     for_all
       (\<lambda>v s. refresh_privileges_with (\<lambda>c u. strip_claims n now c (Some u)) v
                (notice_user now v notice (set_user v (\<lambda>u. u\<lparr>us_callsign := None\<rparr>) s)))
       (claim_victims s call keep) s"

definition claim_fuel :: "server \<Rightarrow> nat" where
  "claim_fuel s = length (st_users (srv_state s)) + 2"

definition or_overflow :: "server \<Rightarrow> server option \<Rightarrow> server" where
  "or_overflow s r = (case r of Some s' \<Rightarrow> s' | None \<Rightarrow> s\<lparr>srv_overflow := True\<rparr>)"

definition strip_callsign_claims :: "instant \<Rightarrow> callsign \<Rightarrow> user_id option \<Rightarrow> ustr \<Rightarrow> server \<Rightarrow> server" where
  "strip_callsign_claims now call keep notice s = or_overflow s (strip_claims (claim_fuel s) now call keep notice s)"

definition refresh_rf_tx :: "instant \<Rightarrow> user_id \<Rightarrow> server \<Rightarrow> server" where
  "refresh_rf_tx now uid s =
     or_overflow s (refresh_rf_tx_with (\<lambda>c u. strip_claims (claim_fuel s) now c (Some u)) uid s)"

definition refresh_privileges :: "instant \<Rightarrow> user_id \<Rightarrow> server \<Rightarrow> server" where
  "refresh_privileges now uid s =
     or_overflow s (refresh_privileges_with (\<lambda>c u. strip_claims (claim_fuel s) now c (Some u)) uid s)"

section \<open>What users are told about the air\<close>

definition channel_air_line :: "server \<Rightarrow> ustr \<Rightarrow> ustr" where
  "channel_air_line s ch =
     (let call = rc_callsign (cf_radio (srv_config s)) in
      case st_channel (srv_state s) ch of
        None \<Rightarrow> []
      | Some c \<Rightarrow>
          if \<not> ch_rf c then ch @ lit '' is Internet-only. Nothing here goes on the air.''
          else if \<not> available (srv_radio s)
          then ch @ lit '' is +r (bridged) but the transmitter is OFF. Messages stay on IRC.''
          else if interlock_down (srv_radio s)
          then ch @ lit '' is +r (bridged) but the safety interlock is holding the transmitter. Messages stay on IRC.''
          else if \<not> has_rf_members c
          then ch @ lit '' is +r, transmitter ON ('' @ call @ lit ''). No RF station is in the channel yet. ''
               @ lit ''Users with RF-TX can still CQ; others stay on IRC.''
          else ch @ lit '' is +r, transmitter ON ('' @ call
               @ lit ''). Messages from users with RF-TX privilege are sent on the air; others stay on IRC.'')"

definition notice_rf_join :: "instant \<Rightarrow> user_id \<Rightarrow> ustr \<Rightarrow> server \<Rightarrow> server" where
  "notice_rf_join now uid ch s0 =
     (let s1 = notice_user now uid
            (ch @ lit '' is +rm: bridged to amateur radio. CALLSIGN grants +v (speak on IRC). Messages go on the air only ''
             @ lit ''after a control operator grants RF-TX to a registered nick (RADIO GRANT) ''
             @ [0x2014] @ lit '' everyone else is heard on IRC only. You do not need channel operator (+o) to chat. ''
             @ lit ''With RF-TX you may CQ even if no station has joined yet.'') s0;
          s2 = notice_user now uid (status_line (srv_radio s1)) s1;
          air = channel_air_line s2 ch
      in if air = [] then s2 else notice_user now uid air s2)"

definition notice_air_reason :: "instant \<Rightarrow> user_id \<Rightarrow> ustr \<Rightarrow> ustr \<Rightarrow> server \<Rightarrow> server" where
  "notice_air_reason now uid ch why s =
     (if why = [] then s
      else
        (let key = (uid, lower ch)
         in case map_of (srv_air_notices s) key of
              Some t0 \<Rightarrow>
                if now - t0 < from_secs 600 then s
                else notice_user now uid why (s\<lparr>srv_air_notices := AList.update key now (srv_air_notices s)\<rparr>)
            | None \<Rightarrow> notice_user now uid why (s\<lparr>srv_air_notices := AList.update key now (srv_air_notices s)\<rparr>)))"

definition guest_nick :: "nat \<Rightarrow> nat \<Rightarrow> ustr" where
  "guest_nick i max_len =
     (let full = lit ''Guest_'' @ show_nat i; digits = show_nat i
      in if str_len full \<le> max_len then full
         else lit ''Guest_'' @ drop (length digits - (max_len - 6)) digits)"

definition channel_display_name :: "server \<Rightarrow> ustr \<Rightarrow> ustr" where
  "channel_display_name s name =
     (case map_of (st_channels (srv_state s)) (lower name) of Some c \<Rightarrow> ch_name c | None \<Rightarrow> name)"

end
