(* ===== verification/Bridge.thy ===== *)
theory Bridge
  imports Server
begin

text \<open>
  \<open>src/src/server/bridge.rs\<close>: the gateway proper, what happens when a frame arrives from the air. A frame is refused,
  ignored, or handed to the session layer or the APRS side; what they deliver becomes a registration, a join, a message
  on a channel or to a user. Monitor and log lines are not modelled.
\<close>

section \<open>Answers to a station\<close>

definition rf_error :: "instant \<Rightarrow> callsign \<Rightarrow> ustr \<Rightarrow> ustr \<Rightarrow> server \<Rightarrow> server" where
  "rf_error now dst code s0 s = on_radio (unicast dst KError (encode_fields [code, s0]) False TxControl now) s"

definition aprs_ack :: "instant \<Rightarrow> callsign \<Rightarrow> aprs_message \<Rightarrow> server \<Rightarrow> server" where
  "aprs_ack now src m s =
     (case ap_msgid m of
        Some i \<Rightarrow> on_radio (transmit_ui ax25_destination (ack_info src i) TxAck src now) s
      | None \<Rightarrow> s)"

definition aprs_rej_or_ack :: "instant \<Rightarrow> callsign \<Rightarrow> aprs_message \<Rightarrow> server \<Rightarrow> server" where
  "aprs_rej_or_ack now src m s =
     (case ap_msgid m of
        Some i \<Rightarrow> on_radio (transmit_ui ax25_destination (rej_info src i) TxAck src now) s
      | None \<Rightarrow> s)"

definition aprs_reply :: "instant \<Rightarrow> callsign \<Rightarrow> ustr \<Rightarrow> server \<Rightarrow> server" where
  "aprs_reply now src s0 s = on_radio (transmit_ui ax25_destination (reply_info src s0) TxControl src now) s"

definition transmit_airc :: "instant \<Rightarrow> callsign \<Rightarrow> airc_frame \<Rightarrow> server \<Rightarrow> server" where
  "transmit_airc now dst f s = on_radio (transmit_direct dst f TxAck now) s"

definition rf_ctrl_ok :: "instant \<Rightarrow> callsign \<Rightarrow> server \<Rightarrow> bool \<times> server" where
  "rf_ctrl_ok now src s = (let (ok, p) = rf_station_rate_ok src now (srv_policy s) in (ok, s\<lparr>srv_policy := p\<rparr>))"

definition first_contact :: "instant \<Rightarrow> callsign \<Rightarrow> server \<Rightarrow> bool \<times> server" where
  "first_contact now src s =
     (if get_peer (rd_sessions (srv_radio s)) src \<noteq> None then (True, s)
      else (let (ok, p) = first_contact_ok now (srv_policy s) in (ok, s\<lparr>srv_policy := p\<rparr>)))"

section \<open>The member list for the air\<close>

definition NAMES_BUDGET :: nat where "NAMES_BUDGET = 160"

fun names_loop :: "nat \<Rightarrow> ustr list \<Rightarrow> ustr \<Rightarrow> nat \<Rightarrow> ustr \<times> nat" where
  "names_loop limit [] out shown = (out, shown)"
| "names_loop limit (n # ns) out shown =
     (if limit \<le> shown \<or> NAMES_BUDGET < str_len out + str_len n + 1 then (out, shown)
      else names_loop limit ns ((if out = [] then [] else out @ lit '','') @ n) (shown + 1))"

definition names_for_air :: "server \<Rightarrow> ustr \<Rightarrow> ustr" where
  "names_for_air s ch =
     (let every = names_of (srv_state s) ch;
          (out, shown) = names_loop (rc_rf_names_max (cf_radio (srv_config s))) every [] 0
      in if shown < length every then out @ lit '',+'' @ show_nat (length every - shown) @ lit '' more'' else out)"

section \<open>Presence of a station\<close>

text \<open>Its callsign as a nickname, or that with a suffix from 1 to 8; then the user is taken out again.\<close>

fun claim_nick :: "nat \<Rightarrow> nat \<Rightarrow> user_id \<Rightarrow> callsign \<Rightarrow> ustr \<Rightarrow> irc_state \<Rightarrow> bool \<times> irc_state" where
  "claim_nick 0 suffix uid call nick st = (False, st)"
| "claim_nick (Suc k) suffix uid call nick st =
     (case set_nick uid nick st of
        (True, st') \<Rightarrow> (True, st')
      | (False, st') \<Rightarrow>
          if 9 < suffix + 1 then (False, snd (remove_user uid st'))
          else claim_nick k (suffix + 1) uid call (to_nick call @ lit ''_'' @ show_nat suffix) st')"

definition rf_user :: "server \<Rightarrow> callsign \<Rightarrow> instant \<Rightarrow> user" where
  "rf_user s call now =
     (user_new (RfUser call) (callsign_to_string call @ lit ''.ax25'') now)
       \<lparr>us_username := lit ''rf'',
        us_realname := callsign_to_string call @ lit '' via '' @ rc_callsign (cf_radio (srv_config s)),
        us_callsign := Some call, us_registered := True\<rparr>"

definition mark_registered :: "instant \<Rightarrow> callsign \<Rightarrow> sessions \<Rightarrow> sessions" where
  "mark_registered now call ss =
     (case touch call now ss of
        Some (p, ss') \<Rightarrow> set_peer call (p\<lparr>peer_registered := True\<rparr>) ss'
      | None \<Rightarrow> ss)"

definition ensure_rf_user :: "instant \<Rightarrow> callsign \<Rightarrow> server \<Rightarrow> bool \<times> server" where
  "ensure_rf_user now call s =
     (let uid = RfUser call in
      if user_of s uid \<noteq> None then (False, s)
      else
        (let s1 = on_state (insert_user (rf_user s call now)) s
         in case claim_nick 10 1 uid call (to_nick call) (srv_state s1) of
              (True, st) \<Rightarrow> (True, on_sessions (mark_registered now call) (s1\<lparr>srv_state := st\<rparr>))
            | (False, st) \<Rightarrow> (False, s1\<lparr>srv_state := st\<rparr>)))"

text \<open>\<open>if self.ensure_rf_user(src) { self.radio.flush_mailbox(src) }\<close>.\<close>

definition welcome_station :: "instant \<Rightarrow> callsign \<Rightarrow> server \<Rightarrow> server" where
  "welcome_station now src s =
     (case ensure_rf_user now src s of
        (True, s') \<Rightarrow> on_radio (flush_mailbox src now) s'
      | (False, s') \<Rightarrow> s')"

definition rf_join :: "instant \<Rightarrow> callsign \<Rightarrow> ustr \<Rightarrow> bool \<Rightarrow> server \<Rightarrow> server" where
  "rf_join now call ch airc_reply s0 =
     (let uid = RfUser call; display = channel_display_name s0 ch in
      if \<not> is_channel_name ch then rf_error now call (lit ''403'') (lit ''no such channel'') s0
      else
        (case st_channel (srv_state s0) display of
           None \<Rightarrow> rf_error now call (lit ''403'') (lit ''no such channel'') s0
         | Some chan \<Rightarrow>
             if \<not> ch_rf chan then rf_error now call (lit ''404'') (lit ''channel is not bridged to RF'') s0
             else
               (case st_join uid display (srv_state s0) of
                  (None, st) \<Rightarrow> s0\<lparr>srv_state := st\<rparr>
                | (Some _, st) \<Rightarrow>
                    (let s1 = on_peer call (\<lambda>p. clear_kicked display (p\<lparr>peer_channels := insert display (peer_channels p)\<rparr>))
                                (s0\<lparr>srv_state := st\<rparr>);
                         flags = (case Option.bind (st_channel (srv_state s1) display) (\<lambda>c. map_of (ch_members c) uid) of
                                    Some f \<Rightarrow> f | None \<Rightarrow> member_flags_default);
                         (nick, prefix) = (case user_of s1 uid of Some u \<Rightarrow> (us_nick u, user_prefix u) | None \<Rightarrow> ([], []));
                         s2 = broadcast_channel_ex now display (DJoin nick prefix display) (Some uid) False s1;
                         s3 = (if mf_voice flags then announce_mode display (server_name s2) (lit ''+v'') [nick] s2 else s2);
                         s4 = (if (case st_channel (srv_state s3) display of Some c \<Rightarrow> has_rf_members c | None \<Rightarrow> False)
                               then notice_rf_audience now display
                                      (lit ''RF station '' @ callsign_to_string call
                                       @ lit '' is on frequency. Messages from +v users will be radiated.'') s3
                               else s3);
                         n = (case st_channel (srv_state s4) display of Some c \<Rightarrow> length (ch_members c) | None \<Rightarrow> 0);
                         topic = (case Option.bind (st_channel (srv_state s4) display) ch_topic of Some t \<Rightarrow> t | None \<Rightarrow> [])
                     in if \<not> airc_reply then s4
                        else on_radio (unicast call KNamesReply
                               (encode_fields [display, show_nat n @ lit '' here'', take 64 topic]) True TxControl now) s4))))"

definition rf_part :: "instant \<Rightarrow> user_id \<Rightarrow> ustr \<Rightarrow> ustr \<Rightarrow> server \<Rightarrow> server" where
  "rf_part now uid ch reason s =
     (case user_of s uid of
        None \<Rightarrow> s
      | Some u \<Rightarrow>
          if \<not> (case st_channel (srv_state s) ch of Some c \<Rightarrow> has_key (ch_members c) uid | None \<Rightarrow> False) then s
          else
            (let d = DPart (us_nick u) (user_prefix u) ch (if reason = [] then lit ''Leaving'' else reason);
                 s1 = broadcast_channel_ex now ch d (Some uid) False s;
                 s2 = on_state (\<lambda>st. snd (st_part uid ch st)) s1
             in if no_rf_left (srv_state s2) ch
                then notice_rf_audience now ch
                       (lit ''No RF station remains in this channel. Messages stay on IRC until one joins.'') s2
                else s2))"

section \<open>Messages from a station\<close>

definition was_kicked :: "server \<Rightarrow> callsign \<Rightarrow> ustr \<Rightarrow> bool" where
  "was_kicked s src ch \<longleftrightarrow>
     (case get_peer (rd_sessions (srv_radio s)) src of Some p \<Rightarrow> was_kicked_from p ch | None \<Rightarrow> False)"

text \<open>What the policy makes of a text that would be repeated: the text, whether it was shortened, whether it may go.\<close>

definition screened :: "policy \<Rightarrow> ustr \<Rightarrow> ustr \<times> bool \<times> bool" where
  "screened p s0 =
     (case screen_outbound p s0 of
        Allow t \<Rightarrow> (t, False, True)
      | verdict.Truncated t \<Rightarrow> (t, True, True)
      | Deny _ \<Rightarrow> (s0, False, False))"

definition rf_channel_message ::
  "instant \<Rightarrow> callsign \<Rightarrow> user \<Rightarrow> ustr \<Rightarrow> ustr \<Rightarrow> bool \<Rightarrow> server \<Rightarrow> server" where
  "rf_channel_message now src u target s0 notice s =
     (let uid = RfUser src; display = channel_display_name s target in
      case st_channel (srv_state s) display of
        None \<Rightarrow> rf_error now src (lit ''403'') (lit ''no such channel'') s
      | Some chan \<Rightarrow>
          if \<not> ch_rf chan then rf_error now src (lit ''404'') (lit ''channel is not bridged to RF'') s
          else if \<not> has_key (ch_members chan) uid \<and> was_kicked s src display
          then rf_error now src (lit ''442'') (lit ''you're not on that channel'') s
          else
            (let s1 = (if has_key (ch_members chan) uid then s else rf_join now src display True s);
                 (t, truncated, repeats) =
                   (if rc_repeat_rf_traffic (cf_radio (srv_config s1)) then screened (srv_policy s1) s0
                    else (s0, False, False))
             in broadcast_channel_ex now display (DPrivmsg (us_nick u) (user_prefix u) display t notice truncated)
                  (Some uid) repeats s1))"

definition rf_private_message :: "instant \<Rightarrow> callsign \<Rightarrow> user \<Rightarrow> ustr \<Rightarrow> ustr \<Rightarrow> bool \<Rightarrow> server \<Rightarrow> server" where
  "rf_private_message now src u target s0 notice s =
     (case find_target s target of
        None \<Rightarrow> rf_error now src (lit ''401'') (lit ''no such nick'') s
      | Some tid \<Rightarrow>
          (let (t, truncated, ok) = screened (srv_policy s) s0
           in if \<not> ok \<and> id_is_rf tid then s
              else deliver now tid (DPrivmsg (us_nick u) (user_prefix u) target t notice truncated) s))"

definition note_dropped_peer :: "callsign \<Rightarrow> server \<Rightarrow> server" where
  "note_dropped_peer src s = on_peer src (\<lambda>p. p\<lparr>peer_dropped := peer_dropped p + 1\<rparr>) s"

definition rf_message :: "instant \<Rightarrow> callsign \<Rightarrow> ustr \<Rightarrow> ustr \<Rightarrow> bool \<Rightarrow> server \<Rightarrow> server" where
  "rf_message now src target s0 notice s =
     (case rf_ctrl_ok now src s of
        (False, s1) \<Rightarrow> note_dropped_peer src s1
      | (True, s1) \<Rightarrow>
          (let t = sanitize s0 in
           if t = [] then s1
           else if is_banned (rd_sessions (srv_radio s1)) src
           then rf_error now src (lit ''442'') (lit ''removed by control operator'') s1
           else
             (let s2 = welcome_station now src s1
              in case user_of s2 (RfUser src) of
                   None \<Rightarrow> s2
                 | Some u \<Rightarrow>
                     if is_channel_name target then rf_channel_message now src u target t notice s2
                     else rf_private_message now src u target t notice s2)))"

section \<open>AIRC control frames\<close>

definition peer_is_registered :: "server \<Rightarrow> callsign \<Rightarrow> bool" where
  "peer_is_registered s src \<longleftrightarrow>
     (case get_peer (rd_sessions (srv_radio s)) src of Some p \<Rightarrow> peer_registered p | None \<Rightarrow> False)"

text \<open>The arms of \<open>handle_airc_message\<close>, after the rate limit where the arm has one.\<close>

definition on_hello :: "instant \<Rightarrow> callsign \<Rightarrow> server \<Rightarrow> server" where
  "on_hello now src s =
     (let s1 = on_sessions (lift_ban src) s;
          s2 = snd (ensure_rf_user now src s1);
          motd = (case sv_motd (cf_server (srv_config s2)) of l # _ \<Rightarrow> l | [] \<Rightarrow> lit ''welcome'');
          s3 = on_radio (unicast src KWelcome (encode_fields [server_name s2, take 48 motd]) True TxControl now) s2
      in on_radio (flush_mailbox src now) s3)"

definition on_join :: "instant \<Rightarrow> callsign \<Rightarrow> ustr list \<Rightarrow> server \<Rightarrow> server" where
  "on_join now src fs s =
     (let s1 = on_sessions (lift_ban src) s in
      case fs of
        [] \<Rightarrow> s1
      | ch # _ \<Rightarrow> rf_join now src ch True (welcome_station now src s1))"

definition on_part :: "instant \<Rightarrow> callsign \<Rightarrow> ustr list \<Rightarrow> server \<Rightarrow> server" where
  "on_part now src fs s =
     (case fs of
        [] \<Rightarrow> s
      | ch # rest \<Rightarrow>
          (let display = channel_display_name s ch;
               reason = sanitize (case rest of r # _ \<Rightarrow> r | [] \<Rightarrow> []);
               s1 = (if user_of s (RfUser src) \<noteq> None then rf_part now (RfUser src) display reason s else s)
           in on_peer src (\<lambda>p. p\<lparr>peer_channels := peer_channels p - {display}\<rparr>) s1))"

definition on_quit :: "instant \<Rightarrow> callsign \<Rightarrow> ustr list \<Rightarrow> server \<Rightarrow> server" where
  "on_quit now src fs s =
     (let reason = sanitize (case fs of r # _ \<Rightarrow> r | [] \<Rightarrow> lit ''Signed off'')
      in quit_user now (RfUser src) (if reason = [] then lit ''Signed off'' else reason) s)"

definition on_msg :: "instant \<Rightarrow> callsign \<Rightarrow> ustr list \<Rightarrow> bool \<Rightarrow> server \<Rightarrow> server" where
  "on_msg now src fs notice s =
     (if 3 \<le> length fs then s
      else case fs of [target, t] \<Rightarrow> rf_message now src target t notice s | _ \<Rightarrow> s)"

definition on_names :: "instant \<Rightarrow> callsign \<Rightarrow> ustr list \<Rightarrow> server \<Rightarrow> server" where
  "on_names now src fs s =
     (if \<not> peer_is_registered s src then s
      else
        (case fs of
           [] \<Rightarrow> s
         | ch # _ \<Rightarrow>
             (let display = channel_display_name s ch
              in on_radio (unicast src KNamesReply (encode_fields [display, names_for_air s display]) False TxControl now) s)))"

definition on_ping :: "instant \<Rightarrow> callsign \<Rightarrow> ustr list \<Rightarrow> server \<Rightarrow> server" where
  "on_ping now src fs s =
     (if \<not> peer_is_registered s src then s
      else on_radio (unicast src KPong (encode_fields [take 8 (case fs of t # _ \<Rightarrow> t | [] \<Rightarrow> [])]) False TxControl now) s)"

definition when_ctrl_ok :: "instant \<Rightarrow> callsign \<Rightarrow> (server \<Rightarrow> server) \<Rightarrow> server \<Rightarrow> server" where
  "when_ctrl_ok now src f s = (case rf_ctrl_ok now src s of (True, s') \<Rightarrow> f s' | (False, s') \<Rightarrow> s')"

definition handle_airc_message :: "instant \<Rightarrow> callsign \<Rightarrow> airc_frame \<Rightarrow> server \<Rightarrow> server" where
  "handle_airc_message now src f s =
     (let fs = Airc_Frame.fields f in
      case akind f of
        KHello \<Rightarrow> when_ctrl_ok now src (on_hello now src) s
      | KJoin \<Rightarrow> when_ctrl_ok now src (on_join now src fs) s
      | KPart \<Rightarrow> when_ctrl_ok now src (on_part now src fs) s
      | KQuit \<Rightarrow> when_ctrl_ok now src (on_quit now src fs) s
      | KMsg \<Rightarrow> on_msg now src fs False s
      | KNotice \<Rightarrow> on_msg now src fs True s
      | KNames \<Rightarrow> when_ctrl_ok now src (on_names now src fs) s
      | KPing \<Rightarrow> when_ctrl_ok now src (on_ping now src fs) s
      | _ \<Rightarrow> s)"

section \<open>APRS\<close>

definition airc_others :: "server \<Rightarrow> ustr \<Rightarrow> user_id \<Rightarrow> callsign list" where
  "airc_others s ch uid =
     (case st_channel (srv_state s) ch of
        Some c \<Rightarrow> filter (peer_speaks (srv_radio s) Airc) (rf_calls_of (filter (\<lambda>m. m \<noteq> uid) (map fst (ch_members c))))
      | None \<Rightarrow> [])"

definition aprs_query :: "instant \<Rightarrow> callsign \<Rightarrow> aprs_message \<Rightarrow> user \<Rightarrow> ustr \<Rightarrow> server \<Rightarrow> server" where
  "aprs_query now src m target body s =
     (if body = [] then aprs_reply now src (lit ''send nick text'') (aprs_ack now src m s)
      else
        (let s1 = welcome_station now src s
         in case user_of s1 (RfUser src) of
              None \<Rightarrow> aprs_ack now src m s1
            | Some u \<Rightarrow>
                aprs_ack now src m
                  (deliver now (us_id target) (DPrivmsg (us_nick u) (user_prefix u) (us_nick target) body False False) s1)))"

definition aprs_into_channel :: "instant \<Rightarrow> callsign \<Rightarrow> aprs_message \<Rightarrow> ustr \<Rightarrow> ustr \<Rightarrow> server \<Rightarrow> server" where
  "aprs_into_channel now src m display body s =
     (let uid = RfUser src in
      case user_of s uid of
        None \<Rightarrow> aprs_ack now src m s
      | Some u \<Rightarrow>
          (let others = airc_others s display (us_id u);
               (t, truncated, to_airc) = (if others \<noteq> [] then screened (srv_policy s) body else (body, False, False));
               s1 = broadcast_channel_ex now display (DPrivmsg (us_nick u) (user_prefix u) display t False truncated)
                      (Some (us_id u)) False s;
               s2 = (if to_airc
                     then on_radio (broadcast_flagged KMsg (encode_fields [display, us_nick u, t]) TxChat
                                      (chat_flags truncated) now) s1
                     else s1)
           in aprs_ack now src m s2))"

definition aprs_channel_line :: "instant \<Rightarrow> callsign \<Rightarrow> aprs_message \<Rightarrow> ustr \<Rightarrow> ustr \<Rightarrow> server \<Rightarrow> server" where
  "aprs_channel_line now src m ch body s =
     (let display = channel_display_name s ch; uid = RfUser src in
      case st_channel (srv_state s) display of
        None \<Rightarrow> aprs_reply now src (lit ''no such channel'') (aprs_ack now src m s)
      | Some chan \<Rightarrow>
          if \<not> ch_rf chan then aprs_reply now src (lit ''channel is not bridged'') (aprs_ack now src m s)
          else
            (let s1 = welcome_station now src s in
             if \<not> has_key (ch_members chan) uid \<and> was_kicked s1 src display
             then aprs_reply now src (lit ''not on that channel'') (aprs_ack now src m s1)
             else aprs_into_channel now src m display body
                    (if has_key (ch_members chan) uid then s1 else rf_join now src display False s1)))"

definition aprs_text :: "instant \<Rightarrow> callsign \<Rightarrow> aprs_message \<Rightarrow> server \<Rightarrow> server" where
  "aprs_text now src m s =
     (let t = sanitize (ap_body m); default_ch = rc_aprs_channel (cf_radio (srv_config s));
          query = (case split_once 32 t of
                     Some (first, rest) \<Rightarrow>
                       if is_channel_name first then None
                       else map_option (\<lambda>u. (u, sanitize (trim rest))) (by_nick (srv_state s) first)
                   | None \<Rightarrow> None)
      in if is_help t then
           aprs_reply now src (if default_ch = [] then lit ''send #chan text'' else lit ''send #chan text, or text for the default channel'')
             (aprs_ack now src m s)
         else
           (case query of
              Some (target, body) \<Rightarrow> aprs_query now src m target body s
            | None \<Rightarrow>
                (case split_channel_line t default_ch of
                   None \<Rightarrow> aprs_reply now src (lit ''send #chan text'') (aprs_ack now src m s)
                 | Some (ch, body) \<Rightarrow> aprs_channel_line now src m ch body s)))"

definition aprs_admitted :: "instant \<Rightarrow> callsign \<Rightarrow> aprs_message \<Rightarrow> server \<Rightarrow> server" where
  "aprs_admitted now src m s =
     (case touch src now (rd_sessions (srv_radio s)) of
        None \<Rightarrow> aprs_ack now src m s
      | Some (_, ss) \<Rightarrow>
          (let s1 = on_peer src note_aprs (on_sessions (\<lambda>_. ss) s);
               duplicate = (case ap_msgid m of Some i \<Rightarrow> aprs_msgid_seen (srv_radio s1) src i now | None \<Rightarrow> False)
           in if is_banned (rd_sessions (srv_radio s1)) src then aprs_rej_or_ack now src m s1
              else if duplicate then aprs_ack now src m s1
              else aprs_text now src m
                     (case ap_msgid m of Some i \<Rightarrow> on_radio (remember_aprs_msgid src i now) s1 | None \<Rightarrow> s1)))"

definition handle_aprs_message :: "instant \<Rightarrow> callsign \<Rightarrow> aprs_message \<Rightarrow> server \<Rightarrow> server" where
  "handle_aprs_message now src m s =
     (if \<not> looks_like_amateur_call src then s
      else if \<not> station_allowed (srv_policy s) src then s
      else if is_ack_or_rej m then on_radio (on_aprs_ack src m now) s
      else
        (case rf_ctrl_ok now src s of
           (False, s1) \<Rightarrow> note_dropped_peer src s1
         | (True, s1) \<Rightarrow>
             (case first_contact now src s1 of
                (False, s2) \<Rightarrow> s2
              | (True, s2) \<Rightarrow> aprs_admitted now src m s2)))"

definition beacon_line :: "callsign \<Rightarrow> ustr \<Rightarrow> ustr \<Rightarrow> ustr" where
  "beacon_line src display t =
     message_to_string (with_prefix (to_nick src @ lit ''!rf@'' @ callsign_to_string src @ lit ''.ax25'')
       (message_new (lit ''NOTICE'') [display, t]))"

definition handle_aprs_beacon :: "instant \<Rightarrow> callsign \<Rightarrow> ustr \<Rightarrow> server \<Rightarrow> server" where
  "handle_aprs_beacon now src summary s =
     (if \<not> looks_like_amateur_call src then s
      else if \<not> station_allowed (srv_policy s) src then s
      else if is_banned (rd_sessions (srv_radio s)) src then s
      else if aprs_beacon_seen (srv_radio s) src summary now then s
      else
        (case aprs_listen_channel (srv_config s) of
           None \<Rightarrow> s
         | Some ch \<Rightarrow>
             (let display = channel_display_name s ch; t = sanitize summary in
              case st_channel (srv_state s) display of
                None \<Rightarrow> s
              | Some chan \<Rightarrow>
                  if \<not> ch_rf chan then s
                  else if t = [] then s
                  else fold (\<lambda>uid. case uid of IpUser i \<Rightarrow> send_raw i (beacon_line src display t) | RfUser _ \<Rightarrow> id)
                         (st_members (srv_state s) display)
                         (on_radio (remember_aprs_beacon src summary now) s))))"

section \<open>A frame from the air\<close>

definition frame_is_for_us :: "server \<Rightarrow> ax25_frame \<Rightarrow> bool" where
  "frame_is_for_us s f \<longleftrightarrow> gateway_callsign (srv_config s) = Some (addr_call (destination f))"

definition frame_is_protocol_broadcast :: "ax25_frame \<Rightarrow> bool" where
  "frame_is_protocol_broadcast f \<longleftrightarrow>
     \<not> looks_like_amateur_call (addr_call (destination f)) \<and> callsign_to_string (addr_call (destination f)) \<noteq> lit ''ID''"

definition uplink_chat_from_broadcast :: "airc_frame \<Rightarrow> bool" where
  "uplink_chat_from_broadcast f \<longleftrightarrow> akind f \<in> {KMsg, KNotice} \<and> length (Airc_Frame.fields f) = 2"

definition handle_airc_frame :: "instant \<Rightarrow> callsign \<Rightarrow> airc_frame \<Rightarrow> bool \<Rightarrow> bool \<Rightarrow> server \<Rightarrow> server" where
  "handle_airc_frame now src airc for_us bcast s0 =
     (if \<not> looks_like_amateur_call src then s0
      else if \<not> station_allowed (srv_policy s0) src then s0
      else
        (case first_contact now src s0 of
           (False, s1) \<Rightarrow> s1
         | (True, s1) \<Rightarrow>
             (let (out, ss) = on_receive src airc now for_us (rd_sessions (srv_radio s1));
                  s2 = fold (transmit_airc now src) (rx_transmit out) (on_sessions (\<lambda>_. ss) s1);
                  s3 = (case rx_deliver out of
                          Some m \<Rightarrow> if \<not> bcast \<or> uplink_chat_from_broadcast m
                                     then handle_airc_message now src m s2 else s2
                        | None \<Rightarrow> s2)
              in on_radio (radio_drain_acks now) s3)))"

definition count_rx :: "radio \<Rightarrow> radio" where
  "count_rx r = r\<lparr>rd_stats := (rd_stats r)\<lparr>rf_frames_rx := rf_frames_rx (rd_stats r) + 1\<rparr>\<rparr>"

definition handle_rf_frame :: "instant \<Rightarrow> ax25_frame \<Rightarrow> server \<Rightarrow> server" where
  "handle_rf_frame now f s0 =
     (let s = on_radio count_rx s0; src = addr_call (source_addr f);
          gateway = gateway_callsign (srv_config s)
      in if \<not> is_ui f \<or> pid f \<noteq> Some PID_NO_L3 then s
         else if gateway = Some src then s
         else
           (case (if rc_aprs (cf_radio (srv_config s)) then aprs_decode (info f) else None) of
              Some m \<Rightarrow>
                (case gateway of
                   Some g \<Rightarrow> if addressed_to m g then handle_aprs_message now src m s else s
                 | None \<Rightarrow> s)
            | None \<Rightarrow>
                (case (if rc_aprs (cf_radio (srv_config s)) then decode_beacon (addr_call (destination f)) (info f) else None) of
                   Some summary \<Rightarrow> handle_aprs_beacon now src summary s
                 | None \<Rightarrow>
                     (let for_us = frame_is_for_us s f; bcast = frame_is_protocol_broadcast f
                      in if \<not> for_us \<and> \<not> bcast then s
                         else
                           (case airc_decode (info f) of
                              Inr airc \<Rightarrow> handle_airc_frame now src airc for_us bcast s
                            | Inl _ \<Rightarrow> s)))))"

end
