(* ===== verification/Numerics.thy ===== *)
theory Numerics
  imports Rust_Text
begin

text \<open>
  \<open>src/src/irc/numerics.rs\<close>: the numerics the server emits, under the names they have there.
\<close>

definition RPL_WELCOME :: ustr where "RPL_WELCOME = lit ''001''"
definition RPL_YOURHOST :: ustr where "RPL_YOURHOST = lit ''002''"
definition RPL_CREATED :: ustr where "RPL_CREATED = lit ''003''"
definition RPL_MYINFO :: ustr where "RPL_MYINFO = lit ''004''"
definition RPL_ISUPPORT :: ustr where "RPL_ISUPPORT = lit ''005''"
definition RPL_UMODEIS :: ustr where "RPL_UMODEIS = lit ''221''"
definition RPL_STATSUPTIME :: ustr where "RPL_STATSUPTIME = lit ''242''"
definition RPL_ENDOFSTATS :: ustr where "RPL_ENDOFSTATS = lit ''219''"
definition RPL_LUSERCLIENT :: ustr where "RPL_LUSERCLIENT = lit ''251''"
definition RPL_ADMINME :: ustr where "RPL_ADMINME = lit ''256''"
definition RPL_ADMINLOC1 :: ustr where "RPL_ADMINLOC1 = lit ''257''"
definition RPL_ADMINLOC2 :: ustr where "RPL_ADMINLOC2 = lit ''258''"
definition RPL_ADMINEMAIL :: ustr where "RPL_ADMINEMAIL = lit ''259''"
definition RPL_LUSERME :: ustr where "RPL_LUSERME = lit ''255''"
definition RPL_USERHOST :: ustr where "RPL_USERHOST = lit ''302''"
definition RPL_ISON :: ustr where "RPL_ISON = lit ''303''"
definition RPL_AWAY :: ustr where "RPL_AWAY = lit ''301''"
definition RPL_UNAWAY :: ustr where "RPL_UNAWAY = lit ''305''"
definition RPL_NOWAWAY :: ustr where "RPL_NOWAWAY = lit ''306''"
definition RPL_WHOISUSER :: ustr where "RPL_WHOISUSER = lit ''311''"
definition RPL_WHOISSERVER :: ustr where "RPL_WHOISSERVER = lit ''312''"
definition RPL_WHOISOPERATOR :: ustr where "RPL_WHOISOPERATOR = lit ''313''"
definition RPL_WHOISREGNICK :: ustr where "RPL_WHOISREGNICK = lit ''307''"
definition RPL_WHOISSPECIAL :: ustr where "RPL_WHOISSPECIAL = lit ''320''"
definition RPL_ENDOFWHO :: ustr where "RPL_ENDOFWHO = lit ''315''"
definition RPL_WHOISIDLE :: ustr where "RPL_WHOISIDLE = lit ''317''"
definition RPL_ENDOFWHOIS :: ustr where "RPL_ENDOFWHOIS = lit ''318''"
definition RPL_WHOISCHANNELS :: ustr where "RPL_WHOISCHANNELS = lit ''319''"
definition RPL_LISTSTART :: ustr where "RPL_LISTSTART = lit ''321''"
definition RPL_LIST :: ustr where "RPL_LIST = lit ''322''"
definition RPL_LISTEND :: ustr where "RPL_LISTEND = lit ''323''"
definition RPL_CHANNELMODEIS :: ustr where "RPL_CHANNELMODEIS = lit ''324''"
definition RPL_NOTOPIC :: ustr where "RPL_NOTOPIC = lit ''331''"
definition RPL_TOPIC :: ustr where "RPL_TOPIC = lit ''332''"
definition RPL_TOPICWHOTIME :: ustr where "RPL_TOPICWHOTIME = lit ''333''"
definition RPL_INVITING :: ustr where "RPL_INVITING = lit ''341''"
definition RPL_VERSION :: ustr where "RPL_VERSION = lit ''351''"
definition RPL_WHOREPLY :: ustr where "RPL_WHOREPLY = lit ''352''"
definition RPL_NAMREPLY :: ustr where "RPL_NAMREPLY = lit ''353''"
definition RPL_LINKS :: ustr where "RPL_LINKS = lit ''364''"
definition RPL_ENDOFLINKS :: ustr where "RPL_ENDOFLINKS = lit ''365''"
definition RPL_ENDOFNAMES :: ustr where "RPL_ENDOFNAMES = lit ''366''"
definition RPL_ENDOFWHOWAS :: ustr where "RPL_ENDOFWHOWAS = lit ''369''"
definition RPL_INFO :: ustr where "RPL_INFO = lit ''371''"
definition RPL_MOTD :: ustr where "RPL_MOTD = lit ''372''"
definition RPL_ENDOFINFO :: ustr where "RPL_ENDOFINFO = lit ''374''"
definition RPL_MOTDSTART :: ustr where "RPL_MOTDSTART = lit ''375''"
definition RPL_ENDOFMOTD :: ustr where "RPL_ENDOFMOTD = lit ''376''"
definition RPL_YOUREOPER :: ustr where "RPL_YOUREOPER = lit ''381''"
definition RPL_TIME :: ustr where "RPL_TIME = lit ''391''"
definition RPL_HELPSTART :: ustr where "RPL_HELPSTART = lit ''704''"
definition RPL_HELPTXT :: ustr where "RPL_HELPTXT = lit ''705''"
definition RPL_ENDOFHELP :: ustr where "RPL_ENDOFHELP = lit ''706''"
definition ERR_NOSUCHNICK :: ustr where "ERR_NOSUCHNICK = lit ''401''"
definition ERR_NOSUCHCHANNEL :: ustr where "ERR_NOSUCHCHANNEL = lit ''403''"
definition ERR_CANNOTSENDTOCHAN :: ustr where "ERR_CANNOTSENDTOCHAN = lit ''404''"
definition ERR_TOOMANYCHANNELS :: ustr where "ERR_TOOMANYCHANNELS = lit ''405''"
definition ERR_WASNOSUCHNICK :: ustr where "ERR_WASNOSUCHNICK = lit ''406''"
definition ERR_NOTEXTTOSEND :: ustr where "ERR_NOTEXTTOSEND = lit ''412''"
definition ERR_UNKNOWNCOMMAND :: ustr where "ERR_UNKNOWNCOMMAND = lit ''421''"
definition ERR_NOMOTD :: ustr where "ERR_NOMOTD = lit ''422''"
definition ERR_NONICKNAMEGIVEN :: ustr where "ERR_NONICKNAMEGIVEN = lit ''431''"
definition ERR_ERRONEUSNICKNAME :: ustr where "ERR_ERRONEUSNICKNAME = lit ''432''"
definition ERR_NICKNAMEINUSE :: ustr where "ERR_NICKNAMEINUSE = lit ''433''"
definition ERR_USERNOTINCHANNEL :: ustr where "ERR_USERNOTINCHANNEL = lit ''441''"
definition ERR_NOTONCHANNEL :: ustr where "ERR_NOTONCHANNEL = lit ''442''"
definition ERR_USERONCHANNEL :: ustr where "ERR_USERONCHANNEL = lit ''443''"
definition ERR_NOTREGISTERED :: ustr where "ERR_NOTREGISTERED = lit ''451''"
definition ERR_NEEDMOREPARAMS :: ustr where "ERR_NEEDMOREPARAMS = lit ''461''"
definition ERR_ALREADYREGISTERED :: ustr where "ERR_ALREADYREGISTERED = lit ''462''"
definition ERR_PASSWDMISMATCH :: ustr where "ERR_PASSWDMISMATCH = lit ''464''"
definition ERR_CHANNELISFULL :: ustr where "ERR_CHANNELISFULL = lit ''471''"
definition ERR_BADCHANNELKEY :: ustr where "ERR_BADCHANNELKEY = lit ''475''"
definition ERR_NOPRIVILEGES :: ustr where "ERR_NOPRIVILEGES = lit ''481''"
definition ERR_CHANOPRIVSNEEDED :: ustr where "ERR_CHANOPRIVSNEEDED = lit ''482''"
definition ERR_RESTRICTED :: ustr where "ERR_RESTRICTED = lit ''484''"
definition ERR_USERSDONTMATCH :: ustr where "ERR_USERSDONTMATCH = lit ''502''"

end
