(* ===== verification/Commands_Base.thy ===== *)
theory Commands_Base
  imports Bridge Numerics
begin

text \<open>
  \<open>src/src/server/commands/mod.rs\<close>: what the command families share. What a command reads from outside the server is
  a record of arguments: the two clocks in nanoseconds, the encoder of the accounts file, whether each write of it succeeds, and whether
  a string is a PHC hash. Result: the comparison of secrets is equality.
\<close>

record server_env =
  en_now :: instant
  en_wall :: nat
  en_json :: "store \<Rightarrow> ustr option"
  en_fate :: "account_change \<Rightarrow> io_fate"
  en_phc :: "ustr \<Rightarrow> bool"

definition en_unix :: "server_env \<Rightarrow> nat" where
  "en_unix e = en_wall e div 1000000000"

definition uptime_secs :: "server_env \<Rightarrow> server \<Rightarrow> nat" where
  "uptime_secs e s = (en_wall e - srv_started s) div 1000000000"

definition PKG_VERSION :: ustr where "PKG_VERSION = lit ''0.10.0''"

definition notice :: "server_env \<Rightarrow> user_id \<Rightarrow> ustr \<Rightarrow> server \<Rightarrow> server" where
  "notice e uid s0 s = notice_user (en_now e) uid s0 s"

definition need_more :: "user_id \<Rightarrow> ustr \<Rightarrow> server \<Rightarrow> server" where
  "need_more uid cmd s = numeric uid ERR_NEEDMOREPARAMS [cmd, lit ''Not enough parameters''] s"

definition user_is :: "(user \<Rightarrow> bool) \<Rightarrow> server \<Rightarrow> user_id \<Rightarrow> bool" where
  "user_is P s uid \<longleftrightarrow> (case user_of s uid of Some u \<Rightarrow> P u | None \<Rightarrow> False)"

definition user_text :: "(user \<Rightarrow> ustr) \<Rightarrow> server \<Rightarrow> user_id \<Rightarrow> ustr" where
  "user_text f s uid = (case user_of s uid of Some u \<Rightarrow> f u | None \<Rightarrow> [])"

definition audit_user :: "ustr \<Rightarrow> (user \<Rightarrow> (ustr \<times> ustr) list) \<Rightarrow> user_id \<Rightarrow> server \<Rightarrow> server" where
  "audit_user kind f uid s = (case user_of s uid of Some u \<Rightarrow> audit kind (f u) s | None \<Rightarrow> s)"

definition nick_and_host :: "user \<Rightarrow> (ustr \<times> ustr) list" where
  "nick_and_host u = [(lit ''nick'', us_nick u), (lit ''host'', us_host u)]"

text \<open>A change of the accounts: what it returns, and the server with it made.\<close>

definition on_accounts :: "(accounts \<Rightarrow> 'r \<times> accounts) \<Rightarrow> server \<Rightarrow> 'r \<times> server" where
  "on_accounts f s = (let (r, a) = f (srv_accounts s) in (r, s\<lparr>srv_accounts := a\<rparr>))"

definition send_members :: "ustr \<Rightarrow> ustr \<Rightarrow> server \<Rightarrow> server" where
  "send_members ch line s =
     fold (\<lambda>uid. case uid of IpUser i \<Rightarrow> send_raw i line | RfUser _ \<Rightarrow> id) (st_members (srv_state s) ch) s"

section \<open>The comparison of secrets\<close>

definition byte_or_0 :: "byte list \<Rightarrow> nat \<Rightarrow> byte" where
  "byte_or_0 bs i = (if i < length bs then bs ! i else 0)"

definition constant_time_eq :: "ustr \<Rightarrow> ustr \<Rightarrow> bool" where
  "constant_time_eq a b =
     (let x = as_bytes a; y = as_bytes b
      in fold (\<lambda>i diff. or diff (xor (byte_or_0 x i) (byte_or_0 y i))) [0..<max (length x) (length y)]
           (if length x \<noteq> length y then 1 else 0) = 0)"

lemma or_eq_0: "or (a :: byte) b = 0 \<longleftrightarrow> a = 0 \<and> b = 0"
  by (auto simp: bit_eq_iff bit_simps)

lemma xor_eq_0: "xor (a :: byte) b = 0 \<longleftrightarrow> a = b"
  by (auto simp: bit_eq_iff bit_simps)

lemma fold_or_0: "fold (\<lambda>i diff. or diff (f i)) is (d :: byte) = 0 \<longleftrightarrow> d = 0 \<and> (\<forall>i \<in> set is. f i = 0)"
  by (induction "is" arbitrary: d) (auto simp: or_eq_0)

lemma same_octets: "x = y \<longleftrightarrow> length x = length y \<and> (\<forall>i < max (length x) (length y). byte_or_0 x i = byte_or_0 y i)"
  by (auto simp: byte_or_0_def intro!: nth_equalityI)

text \<open>The comparison of a password, a channel key or an operator's name with the secret looks at every octet of
  both and accepts exactly the secret itself, whatever the two lengths are: for any two Rust strings, it is true
  if and only if they are the same string.\<close>
theorem constant_time_eq_is_equality:
  assumes "list_all is_scalar a" and "list_all is_scalar b"
  shows "constant_time_eq a b \<longleftrightarrow> a = b"
proof -
  have "constant_time_eq a b \<longleftrightarrow> as_bytes a = as_bytes b"
    unfolding same_octets [of "as_bytes a"]
    by (simp add: constant_time_eq_def Let_def fold_or_0 xor_eq_0 del: length_as_bytes) auto
  moreover have "as_bytes a = as_bytes b \<longleftrightarrow> a = b"
    using from_utf8_as_bytes [of a] from_utf8_as_bytes [of b] assms by (metis list_all_iff option.inject)
  ultimately show ?thesis by simp
qed

theorem constant_time_eq_is_equality_witness:
  "constant_time_eq (lit ''hunter2x'' @ replicate 256 0) (lit ''hunter2x'') = False \<and>
   constant_time_eq [0x20ac] [0x20ac]"
  using constant_time_eq_is_equality [of "lit ''hunter2x'' @ replicate 256 0" "lit ''hunter2x''"]
    constant_time_eq_is_equality [of "[0x20ac]" "[0x20ac]"]
  by (simp add: lit_def is_scalar_def list_all_iff)

section \<open>Who is asking\<close>

definition rate_key :: "server \<Rightarrow> user_id \<Rightarrow> ustr" where
  "rate_key s uid =
     (case user_of s uid of
        None \<Rightarrow> lit ''unknown''
      | Some u \<Rightarrow>
          if user_is_rf u then (case us_callsign u of Some c \<Rightarrow> callsign_to_string c | None \<Rightarrow> us_nick u)
          else lit ''ip:'' @ us_host u)"

end
