(* ===== verification/Commands_Registration.thy ===== *)
theory Commands_Registration
  imports Commands_Base
begin

text \<open>
  \<open>src/src/server/commands/registration.rs\<close>: from a connection to a registered user. \<open>PASS\<close>, \<open>NICK\<close>, \<open>USER\<close>, the
  welcome that follows, and the two replies it shares with the commands \<open>LUSERS\<close> and \<open>MOTD\<close>.
\<close>

section \<open>Replies\<close>

definition send_lusers :: "user_id \<Rightarrow> server \<Rightarrow> server" where
  "send_lusers uid s =
     (let every = length (st_users (srv_state s));
          rf = length (filter (\<lambda>(i, _). id_is_rf i) (st_users (srv_state s)));
          s1 = numeric uid RPL_LUSERCLIENT
                 [lit ''There are '' @ show_nat every @ lit '' users online, '' @ show_nat rf @ lit '' of them on RF''] s
      in numeric uid RPL_LUSERME [lit ''I have '' @ show_nat (every - rf) @ lit '' clients and 0 servers''] s1)"

definition send_motd :: "user_id \<Rightarrow> server \<Rightarrow> server" where
  "send_motd uid s =
     (let motd = sv_motd (cf_server (srv_config s)) in
      if motd = [] then numeric uid ERR_NOMOTD [lit ''MOTD File is missing''] s
      else
        (let s1 = numeric uid RPL_MOTDSTART [lit ''- '' @ server_name s @ lit '' Message of the day -''] s;
             s2 = fold (\<lambda>l. numeric uid RPL_MOTD [lit ''- '' @ l]) motd s1
         in numeric uid RPL_ENDOFMOTD [lit ''End of /MOTD command''] s2))"

definition isupport :: "server \<Rightarrow> ustr list" where
  "isupport s =
     [lit ''CHANTYPES=#&'', lit ''PREFIX=(ov)@+'',
      lit ''NICKLEN='' @ show_nat (sv_max_nick_len (cf_server (srv_config s))),
      lit ''CHANNELLEN=50'', lit ''CASEMAPPING=rfc1459'', lit ''NETWORK='' @ sv_network (cf_server (srv_config s)),
      lit ''MAXTARGETS=1'', lit ''TOPICLEN=200'', lit ''CHANMODES=k,l,r,mnt'',
      lit ''RADIO='' @ (if available (srv_radio s) then lit ''ON'' else lit ''OFF''),
      lit ''RFCALL='' @ rc_callsign (cf_radio (srv_config s)), lit ''are supported by this server'']"

section \<open>Completing the registration\<close>

definition welcome_user :: "server_env \<Rightarrow> user_id \<Rightarrow> user \<Rightarrow> server \<Rightarrow> server" where
  "welcome_user e uid u s0 =
     (let name = server_name s0; network = sv_network (cf_server (srv_config s0));
          s1 = numeric uid RPL_WELCOME
                 [lit ''Welcome to the '' @ network @ lit '' amateur radio IRC network '' @ us_nick u] s0;
          s2 = numeric uid RPL_YOURHOST [lit ''Your host is '' @ name @ lit '', running rfircd '' @ PKG_VERSION] s1;
          s3 = numeric uid RPL_CREATED [lit ''This server was created at startup''] s2;
          s4 = numeric uid RPL_MYINFO [name, lit ''rfircd-'' @ PKG_VERSION, lit ''iow'', lit ''mnrtkl''] s3;
          s5 = send_motd uid (send_lusers uid (numeric uid RPL_ISUPPORT (isupport s4) s4));
          s6 = (if us_listen_only u
                then notice e uid (lit ''This connection is listen-only (plaintext from off the machine). ''
                       @ lit ''Connect with TLS to speak, identify, OPER, or control the radio. ''
                       @ lit ''Everything that reaches the air is still in the clear.'') s5
                else s5);
          s7 = notice e uid (status_line (srv_radio s6)) s6;
          s8 = notice e uid (lit ''On +r channels CALLSIGN grants +v (speak on IRC). A control operator ''
                 @ lit ''must RADIO GRANT a registered nick before that nick's messages are ''
                 @ lit ''radiated. REGISTER/IDENTIFY keep the nick and the grant across restarts.'') s7
      in if is_registered (srv_accounts s8) (us_nick u)
         then notice e uid (us_nick u @ lit '' is registered. IDENTIFY <password> within ''
                @ show_nat (ac_identify_timeout_secs (cf_accounts (srv_config s8))) @ lit '' seconds.'') s8
         else s8)"

definition try_complete_registration :: "server_env \<Rightarrow> user_id \<Rightarrow> server \<Rightarrow> server" where
  "try_complete_registration e uid s =
     (case user_of s uid of
        None \<Rightarrow> s
      | Some u \<Rightarrow>
          if us_registered u \<or> \<not> us_got_nick u \<or> \<not> us_got_user u then s
          else if srv_conn_password s \<noteq> None \<and> \<not> us_pass_ok u then
            (let s1 = numeric uid ERR_PASSWDMISMATCH [lit ''Password incorrect''] s;
                 s2 = (case uid of IpUser i \<Rightarrow> send_raw i (lit ''ERROR :Closing link (bad password)'') s1 | RfUser _ \<Rightarrow> s1)
             in quit_user (en_now e) uid (lit ''Bad password'') s2)
          else
            (let s1 = set_user uid (\<lambda>u. u\<lparr>us_registered := True\<rparr>) s;
                 s2 = audit_user (lit ''register'')
                        (\<lambda>u. [(lit ''nick'', us_nick u), (lit ''user'', us_username u), (lit ''host'', us_host u)]) uid s1
             in welcome_user e uid u s2))"

section \<open>The three commands\<close>

definition cmd_pass :: "user_id \<Rightarrow> message \<Rightarrow> server \<Rightarrow> server" where
  "cmd_pass uid m s =
     (case msg_param m 0 of
        None \<Rightarrow> need_more uid (lit ''PASS'') s
      | Some given \<Rightarrow>
          (let ok = (case srv_conn_password s of Some p \<Rightarrow> constant_time_eq p given | None \<Rightarrow> True)
           in set_user uid (\<lambda>u. u\<lparr>us_pass_ok := ok\<rparr>) s))"

text \<open>The user keeps its name but for the case of its letters.\<close>

definition renick_case :: "server_env \<Rightarrow> user_id \<Rightarrow> ustr \<Rightarrow> ustr \<Rightarrow> bool \<Rightarrow> server \<Rightarrow> server" where
  "renick_case e uid old nick was_registered s =
     (let s1 = (if old = nick then s
                else
                  (let prefix = user_text user_prefix s uid; s1 = on_state (\<lambda>st. snd (set_nick uid nick st)) s
                   in if was_registered then broadcast_peers (en_now e) uid (DNick old prefix nick) True s1 else s1))
      in if was_registered then s1 else try_complete_registration e uid s1)"

definition renick :: "server_env \<Rightarrow> user_id \<Rightarrow> ustr \<Rightarrow> ustr \<Rightarrow> bool \<Rightarrow> server \<Rightarrow> server" where
  "renick e uid old nick was_registered s =
     (let prefix = user_text user_prefix s uid;
          timeout = ac_identify_timeout_secs (cf_accounts (srv_config s))
      in case set_nick uid nick (srv_state s) of
           (False, st) \<Rightarrow> numeric uid ERR_NICKNAMEINUSE [nick, lit ''Nickname is already in use''] (s\<lparr>srv_state := st\<rparr>)
         | (True, st) \<Rightarrow>
             (let claimed = is_registered (srv_accounts s) nick;
                  s1 = set_user uid (\<lambda>u. u\<lparr>us_got_nick := True, us_nick_identified := False, us_callsign := None,
                         us_identify_by := (if claimed then Some (en_now e + from_secs timeout) else None)\<rparr>)
                         (s\<lparr>srv_state := st\<rparr>);
                  s2 = (if claimed
                        then notice e uid (lit ''This nick is registered. IDENTIFY <password> within ''
                               @ show_nat timeout @ lit '' seconds or it will be released.'') s1
                        else s1)
              in if was_registered
                 then refresh_privileges (en_now e) uid (broadcast_peers (en_now e) uid (DNick old prefix nick) True s2)
                 else try_complete_registration e uid s2))"

definition cmd_nick :: "server_env \<Rightarrow> user_id \<Rightarrow> message \<Rightarrow> server \<Rightarrow> server" where
  "cmd_nick e uid m s =
     (case msg_param m 0 of
        None \<Rightarrow> numeric uid ERR_NONICKNAMEGIVEN [lit ''No nickname given''] s
      | Some nick \<Rightarrow>
          if \<not> is_valid_nick nick (sv_max_nick_len (cf_server (srv_config s)))
          then numeric uid ERR_ERRONEUSNICKNAME [nick, lit ''Erroneous nickname''] s
          else if reserved_from_nick nick \<noteq> None
          then numeric uid ERR_ERRONEUSNICKNAME
                 [nick, lit ''Callsign nicknames are reserved; use CALLSIGN to identify''] s
          else
            (let was_registered = user_is us_registered s uid; old = user_text us_nick s uid
             in if old \<noteq> [] \<and> old \<noteq> lit ''*'' \<and> lower old = lower nick
                then renick_case e uid old nick was_registered s
                else if nick_taken (srv_state s) nick
                then numeric uid ERR_NICKNAMEINUSE [nick, lit ''Nickname is already in use''] s
                else renick e uid old nick was_registered s))"

definition username_from_user_param :: "ustr \<Rightarrow> ustr option" where
  "username_from_user_param raw =
     (let u = take 10 raw
      in if u = [] \<or> list_ex (\<lambda>c. c = 33 \<or> c = 64 \<or> c < 32 \<or> c = 127) u then None else Some u)"

definition cmd_user :: "server_env \<Rightarrow> user_id \<Rightarrow> message \<Rightarrow> server \<Rightarrow> server" where
  "cmd_user e uid m s =
     (if user_is us_registered s uid then numeric uid ERR_ALREADYREGISTERED [lit ''You may not reregister''] s
      else if length (msg_params m) < 4 then need_more uid (lit ''USER'') s
      else
        (case username_from_user_param (msg_params m ! 0) of
           None \<Rightarrow> numeric uid ERR_ERRONEUSNICKNAME
                     [msg_params m ! 0, lit ''Username may not contain ! or @ or control characters''] s
         | Some name \<Rightarrow>
             try_complete_registration e uid
               (set_user uid (\<lambda>u. u\<lparr>us_username := name, us_realname := msg_params m ! 3, us_got_user := True\<rparr>) s)))"

end
