(* ===== verification/Commands_Messaging.thy ===== *)
theory Commands_Messaging
  imports Commands_Base
begin

text \<open>
  \<open>src/src/server/commands/messaging.rs\<close>: \<open>PRIVMSG\<close> and \<open>NOTICE\<close>, and the gate between an IRC user and the transmitter.
  \<open>chat_for_air\<close> is the allowlist for bodies, \<open>screen\<close> the gate for privilege, callsign, rate, content and airtime.
\<close>

section \<open>What may be radiated\<close>

datatype air_timing = AirNow | AirHeld

definition is_action :: "ustr \<Rightarrow> bool" where
  "is_action cmd = eq_ignore_ascii_case cmd (lit ''ACTION'')"

definition chat_for_air :: "ustr \<Rightarrow> bool \<Rightarrow> ustr option" where
  "chat_for_air t is_notice =
     (if is_notice then None
      else (case parse_ctcp t of
              Some (cmd, rest) \<Rightarrow> if is_action cmd then Some (lit ''/me '' @ rest) else None
            | None \<Rightarrow> Some t))"

text \<open>A screened text is the text and whether it was shortened.\<close>

definition delivery_text_after_screen :: "ustr \<Rightarrow> ustr \<times> bool \<Rightarrow> ustr \<times> bool" where
  "delivery_text_after_screen original sc =
     (case sc of (t, truncated) \<Rightarrow>
        (if (case parse_ctcp original of Some (cmd, _) \<Rightarrow> is_action cmd | None \<Rightarrow> False) then
           (case strip_prefix (lit ''/me '') t of
              Some rest \<Rightarrow> ([1] @ lit ''ACTION '' @ rest @ [1], truncated)
            | None \<Rightarrow> if t = lit ''/me'' then ([1] @ lit ''ACTION'' @ [1], truncated) else (t, truncated))
         else (t, truncated)))"

section \<open>The gate\<close>

definition screen_content :: "server_env \<Rightarrow> user_id \<Rightarrow> ustr \<Rightarrow> server \<Rightarrow> (ustr \<times> bool) option \<times> server" where
  "screen_content e uid t0 s =
     (case screen_outbound (srv_policy s) t0 of
        Allow t \<Rightarrow> (Some (t, False), s)
      | verdict.Truncated t \<Rightarrow>
          (Some (t, True),
           notice e uid (lit ''Your message was shortened to '' @ show_nat (max_rf_text_len (pol_config (srv_policy s)))
             @ lit '' characters before transmission. The radio side carries sentences, not paragraphs.'') s)
      | Deny reason \<Rightarrow> (None, notice e uid reason s))"

definition screen_backlog :: "server_env \<Rightarrow> user_id \<Rightarrow> ustr \<times> bool \<Rightarrow> server \<Rightarrow> (ustr \<times> bool) option \<times> server" where
  "screen_backlog e uid sc s =
     (if interlock_down (srv_radio s)
      then (None, notice e uid (lit ''Not put on the air: the safety interlock is holding the transmitter. ''
              @ lit ''Your message stayed on IRC.'') s)
      else
        (let octets = wire_octets (srv_radio s) (str_len (fst sc) + 40) in
         if backlog_has_room (srv_radio s) octets TxChat then (Some sc, s)
         else
           (let s1 = notice e uid (lit ''Not put on the air: the transmit queue is ''
                  @ show_nat (radio_eta (srv_radio s) div 1000000000)
                  @ lit ''s deep and the duty-cycle limit will not clear it in time. Your message was delivered on IRC. ''
                  @ lit ''Try again shortly '' @ [0x2014] @ lit '' or say it shorter.'') s
            in (None, audit (lit ''rf_backlog_refused'') [(lit ''octets'', show_nat octets)] (on_radio note_refused s1)))))"

definition screen :: "air_timing \<Rightarrow> server_env \<Rightarrow> user_id \<Rightarrow> ustr \<Rightarrow> server \<Rightarrow> (ustr \<times> bool) option \<times> server" where
  "screen timing e uid t s =
     (if \<not> available (srv_radio s)
      then (None, notice e uid (lit ''The transmitter is off; your message stayed on the wire.'') s)
      else if \<not> user_may_tx_rf s uid
      then (None, notice e uid (lit ''Not relayed to RF: you do not have RF-TX privilege. ''
              @ lit ''Register this nick, then ask a control operator to RADIO GRANT it. ''
              @ lit ''CALLSIGN is also required. Until then your messages stay on IRC.'') s)
      else
        (case Option.bind (user_of s uid) us_callsign of
           None \<Rightarrow> (None, notice e uid (lit ''Not relayed to RF: identify with CALLSIGN <yourcall> first. ''
                      @ lit ''Everything transmitted here is third-party traffic under the ''
                      @ lit ''gateway licensee's responsibility.'') s)
         | Some call \<Rightarrow>
             if \<not> station_allowed (srv_policy s) call
             then (None, notice e uid (lit ''Not relayed to RF: your callsign is not permitted on this gateway.'') s)
             else
               (let (ok, p) = ip_rate_ok (rate_key s uid) (en_now e) (srv_policy s); s1 = s\<lparr>srv_policy := p\<rparr> in
                if \<not> ok
                then (None, notice e uid (lit ''Not relayed to RF: you are sending faster than the channel can carry. ''
                        @ lit ''Slow down; the radio side is ''
                        @ show_nat (du_baud (rc_duty (cf_radio (srv_config s1)))) @ lit '' bits per second.'') s1)
                else
                  (case screen_content e uid t s1 of
                     (None, s2) \<Rightarrow> (None, s2)
                   | (Some sc, s2) \<Rightarrow> (case timing of AirHeld \<Rightarrow> (Some sc, s2) | AirNow \<Rightarrow> screen_backlog e uid sc s2)))))"

definition screen_for_air :: "server_env \<Rightarrow> user_id \<Rightarrow> ustr \<Rightarrow> server \<Rightarrow> (ustr \<times> bool) option \<times> server" where
  "screen_for_air = screen AirNow"

definition screen_for_mailbox :: "server_env \<Rightarrow> user_id \<Rightarrow> ustr \<Rightarrow> server \<Rightarrow> (ustr \<times> bool) option \<times> server" where
  "screen_for_mailbox = screen AirHeld"

section \<open>A station that is not in range\<close>

definition no_such_nick :: "user_id \<Rightarrow> ustr \<Rightarrow> server \<Rightarrow> server" where
  "no_such_nick uid target s = numeric uid ERR_NOSUCHNICK [target, lit ''No such nick/channel''] s"

definition store_error_text :: "store_error \<Rightarrow> ustr" where
  "store_error_text x =
     (case x of
        Disabled \<Rightarrow> lit ''the mailbox is disabled''
      | StationFull \<Rightarrow> lit ''that station already has as much mail as it can hold''
      | GatewayFull \<Rightarrow> lit ''the gateway mailbox is full'')"

definition mailbox_call :: "ustr \<Rightarrow> callsign option" where
  "mailbox_call target =
     (case from_nick target of Inr c \<Rightarrow> if looks_like_amateur_call c then Some c else None | Inl _ \<Rightarrow> None)"

definition hold_message :: "server_env \<Rightarrow> user_id \<Rightarrow> callsign \<Rightarrow> stored_message \<Rightarrow> server \<Rightarrow> server" where
  "hold_message e uid call m s =
     (case mail_store call m (rd_mailbox (srv_radio s)) of
        (Inr depth, mb) \<Rightarrow>
          notice e uid (callsign_to_string call @ lit '' is not on frequency. Held for delivery when the station is next heard (''
            @ show_nat depth @ lit '' waiting, dropped after ''
            @ show_nat (rc_mailbox_ttl_secs (cf_radio (srv_config s)) div 3600) @ lit ''h).'')
            (on_radio (\<lambda>r. r\<lparr>rd_mailbox := mb\<rparr>) s)
      | (Inl x, mb) \<Rightarrow>
          notice e uid (lit ''Not held for '' @ callsign_to_string call @ lit '': '' @ store_error_text x @ lit ''.'')
            (on_radio (\<lambda>r. r\<lparr>rd_mailbox := mb\<rparr>) s))"

definition offer_mailbox :: "server_env \<Rightarrow> user_id \<Rightarrow> ustr \<Rightarrow> ustr \<Rightarrow> ustr \<Rightarrow> bool \<Rightarrow> server \<Rightarrow> server" where
  "offer_mailbox e uid sender target t is_notice s =
     (case chat_for_air t is_notice of
        None \<Rightarrow> no_such_nick uid target s
      | Some air \<Rightarrow>
          (case mailbox_call target of
             None \<Rightarrow> no_such_nick uid target s
           | Some call \<Rightarrow>
               if \<not> mb_enabled (rd_mailbox (srv_radio s)) \<or> \<not> rc_enabled (cf_radio (srv_config s))
               then no_such_nick uid target s
               else
                 (case screen_for_mailbox e uid air s of
                    (None, s1) \<Rightarrow> s1
                  | (Some (body, truncated), s1) \<Rightarrow>
                      hold_message e uid call
                        \<lparr>sm_from = sender, sm_body = body, sm_notice = is_notice, sm_truncated = truncated,
                         stored_at = en_now e\<rparr> s1)))"

section \<open>PRIVMSG and NOTICE\<close>

text \<open>
  Whether a message to a channel may be radiated at all, and the flood limit on the channel's airtime: the message is
  still delivered to the channel's IRC side. The three results are the server, whether it may go, and whether it was
  the flood limit that said no.
\<close>

definition channel_may_radiate :: "server \<Rightarrow> user_id \<Rightarrow> channel \<Rightarrow> bool" where
  "channel_may_radiate s uid c \<longleftrightarrow>
     ch_rf c \<and> available (srv_radio s)
     \<and> (has_rf_members c \<or> (is_airc (rc_rf_mode (cf_radio (srv_config s))) \<and> user_may_tx_rf s uid))"

definition channel_flood :: "server_env \<Rightarrow> user_id \<Rightarrow> user \<Rightarrow> channel \<Rightarrow> server \<Rightarrow> bool \<times> server" where
  "channel_flood e uid sender c s =
     (let (ok, p) = rf_channel_rate_ok (rate_key s uid @ lit '':'' @ ch_name c) (en_now e) (srv_policy s);
          s1 = s\<lparr>srv_policy := p\<rparr>
      in if ok then (False, s1)
         else (True,
               audit (lit ''flood_rf'') [(lit ''nick'', us_nick sender), (lit ''channel'', ch_name c)]
                 (notice e uid (lit ''Flood protection: too many messages on the RF channel. Slow down.'') s1)))"

definition relay_notice :: "server \<Rightarrow> channel \<Rightarrow> ustr" where
  "relay_notice s c =
     (let eta = radio_eta (srv_radio s) div 1000000000; n = rf_member_count c
      in lit ''Queued for RF ('' @ rc_callsign (cf_radio (srv_config s)) @ lit ''), ''
         @ (if eta < 2 then lit ''going out now'' else lit ''about '' @ show_nat eta @ lit ''s of queue ahead of it'') @ lit ''. ''
         @ (if n = 0 then lit ''CQ: no RF station in the channel yet.'' else show_nat n @ lit '' station(s) on frequency.''))"

definition relay_to_channel ::
  "server_env \<Rightarrow> user_id \<Rightarrow> user \<Rightarrow> channel \<Rightarrow> ustr \<Rightarrow> bool \<Rightarrow> bool \<Rightarrow> bool \<Rightarrow> server \<Rightarrow> server" where
  "relay_to_channel e uid sender c t truncated is_notice allow_rf s =
     (let d = DPrivmsg (us_nick sender) (user_prefix sender) (ch_name c) t is_notice truncated;
          s1 = broadcast_channel_ex (en_now e) (ch_name c) d (Some uid) allow_rf s
      in if allow_rf \<and> rc_notice_air_relay (cf_radio (srv_config s1)) \<and> \<not> is_notice
         then notice e uid (relay_notice s1 c) s1 else s1)"

definition send_to_channel :: "server_env \<Rightarrow> user_id \<Rightarrow> user \<Rightarrow> channel \<Rightarrow> ustr \<Rightarrow> bool \<Rightarrow> server \<Rightarrow> server" where
  "send_to_channel e uid sender c t is_notice s =
     (case chat_for_air t is_notice of
        None \<Rightarrow> relay_to_channel e uid sender c t False is_notice False s
      | Some air \<Rightarrow>
          if \<not> channel_may_radiate s uid c then
            relay_to_channel e uid sender c t False is_notice False
              (if ch_rf c then notice_air_reason (en_now e) uid (ch_name c) (channel_air_line s (ch_name c)) s else s)
          else
            (case channel_flood e uid sender c s of
               (True, s1) \<Rightarrow> relay_to_channel e uid sender c t False is_notice False s1
             | (False, s1) \<Rightarrow>
                 (case screen_for_air e uid air s1 of
                    (None, s2) \<Rightarrow> relay_to_channel e uid sender c t False is_notice False s2
                  | (Some sc, s2) \<Rightarrow>
                      (let (t', truncated) = delivery_text_after_screen t sc
                       in relay_to_channel e uid sender c t' truncated is_notice True s2))))"

definition privmsg_channel :: "server_env \<Rightarrow> user_id \<Rightarrow> user \<Rightarrow> ustr \<Rightarrow> ustr \<Rightarrow> bool \<Rightarrow> server \<Rightarrow> server" where
  "privmsg_channel e uid sender target t is_notice s =
     (case st_channel (srv_state s) target of
        None \<Rightarrow> numeric uid ERR_NOSUCHCHANNEL [target, lit ''No such channel''] s
      | Some c \<Rightarrow>
          (case map_of (ch_members c) uid of
             None \<Rightarrow> numeric uid ERR_CANNOTSENDTOCHAN [ch_name c, lit ''Cannot send to channel''] s
           | Some f \<Rightarrow>
               if ch_moderated c \<and> \<not> (mf_op f \<or> mf_voice f)
               then numeric uid ERR_CANNOTSENDTOCHAN
                      [ch_name c, lit ''Channel is moderated (+m); identify with CALLSIGN for +v''] s
               else send_to_channel e uid sender c t is_notice s))"

definition send_to_user ::
  "server_env \<Rightarrow> user_id \<Rightarrow> user \<Rightarrow> user_id \<Rightarrow> ustr \<Rightarrow> ustr \<Rightarrow> bool \<Rightarrow> bool \<Rightarrow> server \<Rightarrow> server" where
  "send_to_user e uid sender tid target t truncated is_notice s =
     (let s1 = (case Option.bind (user_of s tid) us_away of
                  Some away \<Rightarrow> numeric uid RPL_AWAY [target, away] s | None \<Rightarrow> s)
      in deliver (en_now e) tid (DPrivmsg (us_nick sender) (user_prefix sender) target t is_notice truncated) s1)"

definition privmsg_user :: "server_env \<Rightarrow> user_id \<Rightarrow> user \<Rightarrow> ustr \<Rightarrow> ustr \<Rightarrow> bool \<Rightarrow> server \<Rightarrow> server" where
  "privmsg_user e uid sender target t is_notice s =
     (case find_target s target of
        None \<Rightarrow> offer_mailbox e uid (us_nick sender) target t is_notice s
      | Some tid \<Rightarrow>
          if \<not> id_is_rf tid then send_to_user e uid sender tid target t False is_notice s
          else
            (case chat_for_air t is_notice of
               None \<Rightarrow> notice e uid (lit ''Only PRIVMSG chat (including /me) is put on the air.'') s
             | Some air \<Rightarrow>
                 (case screen_for_air e uid air s of
                    (None, s1) \<Rightarrow> s1
                  | (Some sc, s1) \<Rightarrow>
                      (let (t', truncated) = delivery_text_after_screen t sc
                       in send_to_user e uid sender tid target t' truncated is_notice s1))))"

definition cmd_privmsg :: "server_env \<Rightarrow> user_id \<Rightarrow> message \<Rightarrow> bool \<Rightarrow> server \<Rightarrow> server" where
  "cmd_privmsg e uid m is_notice s =
     (case msg_param m 0 of
        None \<Rightarrow> numeric uid ERR_NOSUCHNICK [lit ''*'', lit ''No recipient given''] s
      | Some target \<Rightarrow>
          if msg_param m 1 = None \<or> msg_param m 1 = Some []
          then numeric uid ERR_NOTEXTTOSEND [lit ''No text to send''] s
          else
            (case (msg_param m 1, user_of s uid) of
               (Some t, Some sender) \<Rightarrow>
                 if is_channel_name target then privmsg_channel e uid sender target t is_notice s
                 else privmsg_user e uid sender target t is_notice s
             | _ \<Rightarrow> s))"

end
