(* ===== verification/Commands_Channels.thy ===== *)
theory Commands_Channels
  imports Commands_Messaging
begin

text \<open>
  \<open>src/src/server/commands/channels.rs\<close>: joining, leaving, names, topics, modes, kicks and invitations.
\<close>

section \<open>Topics and names\<close>

definition no_such_channel :: "user_id \<Rightarrow> ustr \<Rightarrow> server \<Rightarrow> server" where
  "no_such_channel uid ch s = numeric uid ERR_NOSUCHCHANNEL [ch, lit ''No such channel''] s"

definition send_topic :: "user_id \<Rightarrow> ustr \<Rightarrow> bool \<Rightarrow> server \<Rightarrow> server" where
  "send_topic uid ch explicit s =
     (case st_channel (srv_state s) ch of
        None \<Rightarrow> s
      | Some c \<Rightarrow>
          (case ch_topic c of
             Some topic \<Rightarrow>
               (let s1 = numeric uid RPL_TOPIC [ch_name c, topic] s
                in if ch_topic_setter c = [] then s1
                   else numeric uid RPL_TOPICWHOTIME [ch_name c, ch_topic_setter c, show_nat (ch_topic_time c)] s1)
           | None \<Rightarrow> if explicit then numeric uid RPL_NOTOPIC [ch_name c, lit ''No topic is set''] s else s))"

definition NAMREPLY_BUDGET :: nat where "NAMREPLY_BUDGET = 400"

text \<open>The names in the lines they are sent in, given the line so far and the octets it takes.\<close>

fun names_lines :: "ustr list \<Rightarrow> nat \<Rightarrow> ustr list \<Rightarrow> ustr list list" where
  "names_lines chunk used [] = (if chunk = [] then [] else [chunk])"
| "names_lines chunk used (n # ns) =
     (if chunk \<noteq> [] \<and> NAMREPLY_BUDGET < used + str_len n + 1 then chunk # names_lines [n] (str_len n + 1) ns
      else names_lines (chunk @ [n]) (used + str_len n + 1) ns)"

definition send_names :: "user_id \<Rightarrow> ustr \<Rightarrow> server \<Rightarrow> server" where
  "send_names uid ch s =
     (case st_channel (srv_state s) ch of
        None \<Rightarrow> no_such_channel uid ch s
      | Some c \<Rightarrow>
          numeric uid RPL_ENDOFNAMES [ch_name c, lit ''End of /NAMES list'']
            (fold (\<lambda>l. numeric uid RPL_NAMREPLY [lit ''='', ch_name c, Irc_Message.join 32 l])
               (names_lines [] 0 (names_of (srv_state s) ch)) s))"

section \<open>Joining\<close>

text \<open>The name the channel has, or the name asked for.\<close>

definition real_name :: "server \<Rightarrow> ustr \<Rightarrow> ustr" where
  "real_name s name = (case st_channel (srv_state s) name of Some c \<Rightarrow> ch_name c | None \<Rightarrow> name)"

definition in_channel :: "server \<Rightarrow> user_id \<Rightarrow> ustr \<Rightarrow> bool" where
  "in_channel s uid name \<longleftrightarrow> (case st_channel (srv_state s) name of Some c \<Rightarrow> has_key (ch_members c) uid | None \<Rightarrow> False)"

definition join_refusal :: "server \<Rightarrow> ustr \<Rightarrow> ustr \<Rightarrow> (ustr \<times> ustr) option" where
  "join_refusal s name key =
     (case st_channel (srv_state s) name of
        None \<Rightarrow> None
      | Some c \<Rightarrow>
          if (case ch_key c of Some k \<Rightarrow> \<not> constant_time_eq k key | None \<Rightarrow> False)
          then Some (ERR_BADCHANNELKEY, lit ''Cannot join channel (+k)'')
          else if (case ch_limit c of Some l \<Rightarrow> l \<le> length (ch_members c) | None \<Rightarrow> False)
          then Some (ERR_CHANNELISFULL, lit ''Cannot join channel (+l)'')
          else None)"

text \<open>A channel that does not exist is made, and is never bridged.\<close>

definition announce_join :: "server_env \<Rightarrow> user_id \<Rightarrow> ustr \<Rightarrow> server \<Rightarrow> server" where
  "announce_join e uid name s =
     (let flags = (case Option.bind (st_channel (srv_state s) name) (\<lambda>c. map_of (ch_members c) uid) of
                     Some f \<Rightarrow> f | None \<Rightarrow> member_flags_default);
          rn = real_name s name; nick = user_text us_nick s uid;
          s1 = broadcast_channel (en_now e) rn (DJoin nick (user_text user_prefix s uid) rn) None s;
          s2 = (if mf_op flags then announce_mode rn (server_name s1) (lit ''+o'') [nick] s1 else s1);
          s3 = (if mf_voice flags then announce_mode rn (server_name s1) (lit ''+v'') [nick] s2 else s2);
          s4 = send_names uid rn (send_topic uid rn False s3)
      in if (case st_channel (srv_state s4) rn of Some c \<Rightarrow> ch_rf c | None \<Rightarrow> False)
         then notice_rf_join (en_now e) uid rn s4 else s4)"

definition do_join :: "server_env \<Rightarrow> user_id \<Rightarrow> ustr \<Rightarrow> ustr \<Rightarrow> server \<Rightarrow> server" where
  "do_join e uid name key s =
     (if \<not> is_channel_name name then no_such_channel uid name s
      else if in_channel s uid name
      then send_names uid (real_name s name) (send_topic uid (real_name s name) False s)
      else if sv_max_channels_per_user (cf_server (srv_config s))
              \<le> (case user_of s uid of Some u \<Rightarrow> length (us_channels u) | None \<Rightarrow> 0)
      then numeric uid ERR_TOOMANYCHANNELS [name, lit ''You have joined too many channels''] s
      else
        (case join_refusal s name key of
           Some (code, why) \<Rightarrow> numeric uid code [name, why] s
         | None \<Rightarrow>
             (case st_join uid name (ensure_channel name False (srv_state s)) of
                (None, st) \<Rightarrow> s\<lparr>srv_state := st\<rparr>
              | (Some _, st) \<Rightarrow> announce_join e uid name (s\<lparr>srv_state := st\<rparr>))))"

section \<open>Leaving\<close>

definition do_part :: "server_env \<Rightarrow> user_id \<Rightarrow> ustr \<Rightarrow> ustr \<Rightarrow> server \<Rightarrow> server" where
  "do_part e uid name reason s =
     (if st_channel (srv_state s) name = None then no_such_channel uid name s
      else if \<not> in_channel s uid name
      then numeric uid ERR_NOTONCHANNEL [real_name s name, lit ''You're not on that channel''] s
      else
        (let rn = real_name s name;
             d = DPart (user_text us_nick s uid) (user_text user_prefix s uid) rn reason;
             s1 = broadcast_channel (en_now e) rn d None s
         in on_state (\<lambda>st. snd (st_part uid rn st)) s1))"

definition cmd_join :: "server_env \<Rightarrow> user_id \<Rightarrow> message \<Rightarrow> server \<Rightarrow> server" where
  "cmd_join e uid m s =
     (case msg_param m 0 of
        None \<Rightarrow> need_more uid (lit ''JOIN'') s
      | Some names \<Rightarrow>
          if names = lit ''0'' then
            fold (\<lambda>k s. do_part e uid (case map_of (st_channels (srv_state s)) k of Some c \<Rightarrow> ch_name c | None \<Rightarrow> k)
                          (lit ''Leaving'') s)
              (case user_of s uid of Some u \<Rightarrow> us_channels u | None \<Rightarrow> []) s
          else
            (let keys = split_on 44 (case msg_param m 1 of Some k \<Rightarrow> k | None \<Rightarrow> [])
             in fold (\<lambda>(i, name). do_join e uid name (if i < length keys then keys ! i else []))
                  (List.enumerate 0 (split_on 44 names)) s))"

definition cmd_part :: "server_env \<Rightarrow> user_id \<Rightarrow> message \<Rightarrow> server \<Rightarrow> server" where
  "cmd_part e uid m s =
     (case msg_param m 0 of
        None \<Rightarrow> need_more uid (lit ''PART'') s
      | Some names \<Rightarrow>
          fold (\<lambda>name. do_part e uid name (case msg_param m 1 of Some r \<Rightarrow> r | None \<Rightarrow> lit ''Leaving''))
            (split_on 44 names) s)"

section \<open>TOPIC and LIST\<close>

definition need_chanop :: "user_id \<Rightarrow> channel \<Rightarrow> server \<Rightarrow> server" where
  "need_chanop uid c s = numeric uid ERR_CHANOPRIVSNEEDED [ch_name c, lit ''You're not channel operator''] s"

definition member_is_op :: "channel \<Rightarrow> user_id \<Rightarrow> bool" where
  "member_is_op c uid \<longleftrightarrow> (case map_of (ch_members c) uid of Some f \<Rightarrow> mf_op f | None \<Rightarrow> False)"

text \<open>The sanitised topic is stored, and announced if it differs; only what passes the gate goes on the air.\<close>

definition change_topic :: "server_env \<Rightarrow> user_id \<Rightarrow> ustr \<Rightarrow> channel \<Rightarrow> ustr \<Rightarrow> server \<Rightarrow> server" where
  "change_topic e uid name c topic s =
     (let nick = user_text us_nick s uid; prefix = user_text user_prefix s uid in
      if ch_topic c = Some topic then s
      else
        (let s1 = on_state (channel_mut name (\<lambda>c. c\<lparr>ch_topic := Some topic, ch_topic_setter := nick,
                                ch_topic_time := en_unix e\<rparr>)) s;
             (allow_rf, s2) =
               (if ch_rf c \<and> has_rf_members c \<and> available (srv_radio s1)
                then (case screen_for_air e uid topic s1 of (None, s2) \<Rightarrow> (False, s2) | (Some _, s2) \<Rightarrow> (True, s2))
                else (False, s1))
         in broadcast_channel_ex (en_now e) (ch_name c) (DTopic nick prefix (ch_name c) topic) None allow_rf s2))"

definition cmd_topic :: "server_env \<Rightarrow> user_id \<Rightarrow> message \<Rightarrow> server \<Rightarrow> server" where
  "cmd_topic e uid m s =
     (case msg_param m 0 of
        None \<Rightarrow> need_more uid (lit ''TOPIC'') s
      | Some name \<Rightarrow>
          (case st_channel (srv_state s) name of
             None \<Rightarrow> no_such_channel uid name s
           | Some c \<Rightarrow>
               (case msg_param m 1 of
                  None \<Rightarrow> send_topic uid name True s
                | Some topic \<Rightarrow>
                    if \<not> has_key (ch_members c) uid
                    then numeric uid ERR_NOTONCHANNEL [ch_name c, lit ''You're not on that channel''] s
                    else if ch_topic_locked c \<and> \<not> member_is_op c uid \<and> \<not> user_is us_oper s uid
                    then need_chanop uid c s
                    else change_topic e uid name c (sanitize topic) s)))"

definition list_line :: "channel \<Rightarrow> ustr list" where
  "list_line c =
     (let topic = (case ch_topic c of Some t \<Rightarrow> t | None \<Rightarrow> [])
      in [ch_name c, show_nat (length (ch_members c)), if ch_rf c then lit ''[RF] '' @ topic else topic])"

definition cmd_list :: "user_id \<Rightarrow> server \<Rightarrow> server" where
  "cmd_list uid s =
     numeric uid RPL_LISTEND [lit ''End of /LIST'']
       (fold (\<lambda>(_, c). numeric uid RPL_LIST (list_line c)) (st_channels (srv_state s))
          (numeric uid RPL_LISTSTART [lit ''Channel'', lit ''Users  Name''] s))"

end
