(* ===== verification/Commands_Mode.thy ===== *)
theory Commands_Mode
  imports Commands_Channels
begin

text \<open>
  \<open>src/src/server/commands/channels.rs\<close>: \<open>MODE\<close>, \<open>KICK\<close> and \<open>INVITE\<close>. The loop over the letters of a mode change is a
  fold over a record of its variables, one definition per letter.
\<close>

section \<open>The variables of the loop\<close>

record mode_state =
  ms_server :: server
  ms_adding :: bool
  ms_arg :: nat
  ms_applied :: ustr
  ms_args :: "ustr list"
  ms_sign :: "nat option"
  ms_refresh :: "user_id list"

definition ms_tell :: "(server \<Rightarrow> server) \<Rightarrow> mode_state \<Rightarrow> mode_state" where
  "ms_tell f x = x\<lparr>ms_server := f (ms_server x)\<rparr>"

definition push_mode :: "nat \<Rightarrow> mode_state \<Rightarrow> mode_state" where
  "push_mode letter x =
     (let sign = (if ms_adding x then 43 else 45)
      in if ms_sign x = Some sign then x\<lparr>ms_applied := ms_applied x @ [letter]\<rparr>
         else x\<lparr>ms_applied := ms_applied x @ [sign, letter], ms_sign := Some sign\<rparr>)"

definition push_arg :: "ustr \<Rightarrow> mode_state \<Rightarrow> mode_state" where
  "push_arg a x = x\<lparr>ms_args := ms_args x @ [a]\<rparr>"

definition ms_channel :: "ustr \<Rightarrow> mode_state \<Rightarrow> channel option" where
  "ms_channel target x = st_channel (srv_state (ms_server x)) target"

definition ms_set_channel :: "ustr \<Rightarrow> (channel \<Rightarrow> channel) \<Rightarrow> mode_state \<Rightarrow> mode_state" where
  "ms_set_channel target f x = ms_tell (on_state (channel_mut target f)) x"

section \<open>One letter\<close>

definition mode_m :: "user_id \<Rightarrow> ustr \<Rightarrow> channel \<Rightarrow> bool \<Rightarrow> mode_state \<Rightarrow> mode_state" where
  "mode_m uid target chan is_oper x =
     (if ch_rf chan \<and> \<not> is_oper
      then ms_tell (numeric uid ERR_NOPRIVILEGES [lit ''Only a control operator may change +m on an RF channel'']) x
      else
        (case ms_channel target x of
           None \<Rightarrow> x
         | Some c \<Rightarrow>
             if ch_moderated c = ms_adding x then x
             else push_mode 109 (ms_set_channel target (\<lambda>c. c\<lparr>ch_moderated := ms_adding x\<rparr>) x)))"

definition mode_t :: "ustr \<Rightarrow> mode_state \<Rightarrow> mode_state" where
  "mode_t target x =
     (case ms_channel target x of
        None \<Rightarrow> x
      | Some c \<Rightarrow>
          if ch_topic_locked c = ms_adding x then x
          else push_mode 116 (ms_set_channel target (\<lambda>c. c\<lparr>ch_topic_locked := ms_adding x\<rparr>) x))"

text \<open>A channel that becomes bridged becomes moderated, and its operators keep no \<open>+o\<close> of their own.\<close>

definition bridge_channel :: "bool \<Rightarrow> channel \<Rightarrow> channel" where
  "bridge_channel adding c =
     (if adding
      then c\<lparr>ch_rf := True, ch_moderated := True,
             ch_members := map (\<lambda>(i, f). (i, f\<lparr>mf_op_manual := False\<rparr>)) (ch_members c)\<rparr>
      else c\<lparr>ch_rf := False\<rparr>)"

definition mode_r :: "user_id \<Rightarrow> ustr \<Rightarrow> bool \<Rightarrow> mode_state \<Rightarrow> mode_state" where
  "mode_r uid target is_oper x =
     (if \<not> is_oper then ms_tell (numeric uid ERR_NOPRIVILEGES [lit ''Only a control operator may change +r'']) x
      else
        (case ms_channel target x of
           None \<Rightarrow> x
         | Some c \<Rightarrow>
             if ch_rf c = ms_adding x then x
             else
               (let added_m = (ms_adding x \<and> \<not> ch_moderated c);
                    x1 = push_mode 114 (ms_set_channel target (bridge_channel (ms_adding x)) x);
                    x2 = (if added_m then push_mode 109 x1 else x1)
                in x2\<lparr>ms_refresh := map fst (ch_members c)\<rparr>)))"

definition next_arg :: "message \<Rightarrow> mode_state \<Rightarrow> ustr option \<times> mode_state" where
  "next_arg m x = (msg_param m (ms_arg x), x\<lparr>ms_arg := ms_arg x + 1\<rparr>)"

definition mode_k :: "user_id \<Rightarrow> message \<Rightarrow> ustr \<Rightarrow> mode_state \<Rightarrow> mode_state" where
  "mode_k uid m target x0 =
     (let (key, x) = next_arg m x0 in
      if ms_adding x \<and> (key = None \<or> key = Some []) then ms_tell (need_more uid (lit ''MODE'')) x
      else
        (case ms_channel target x of
           None \<Rightarrow> x
         | Some c \<Rightarrow>
             if ms_adding x then
               (if ch_key c = key then x
                else
                  (let x1 = push_mode 107 (ms_set_channel target (\<lambda>c. c\<lparr>ch_key := key\<rparr>) x)
                   in case key of Some k \<Rightarrow> push_arg k x1 | None \<Rightarrow> x1))
             else if ch_key c = None then x
             else push_mode 107 (ms_set_channel target (\<lambda>c. c\<lparr>ch_key := None\<rparr>) x)))"

definition positive_limit :: "ustr option \<Rightarrow> nat option" where
  "positive_limit raw =
     (case Option.bind raw (parse_unsigned (2 ^ 64)) of Some n \<Rightarrow> if 0 < n then Some n else None | None \<Rightarrow> None)"

definition mode_l :: "user_id \<Rightarrow> message \<Rightarrow> ustr \<Rightarrow> mode_state \<Rightarrow> mode_state" where
  "mode_l uid m target x0 =
     (let (raw, x) = next_arg m x0 in
      if ms_adding x then
        (case positive_limit raw of
           None \<Rightarrow> ms_tell (need_more uid (lit ''MODE'')) x
         | Some n \<Rightarrow>
             (case ms_channel target x of
                None \<Rightarrow> x
              | Some c \<Rightarrow>
                  if ch_limit c = Some n then x
                  else push_arg (show_nat n) (push_mode 108 (ms_set_channel target (\<lambda>c. c\<lparr>ch_limit := Some n\<rparr>) x))))
      else
        (case ms_channel target x of
           None \<Rightarrow> x
         | Some c \<Rightarrow>
             if ch_limit c = None then x
             else push_mode 108 (ms_set_channel target (\<lambda>c. c\<lparr>ch_limit := None\<rparr>) x)))"

definition set_flag :: "bool \<Rightarrow> bool \<Rightarrow> member_flags \<Rightarrow> member_flags" where
  "set_flag op b f =
     (if op then f\<lparr>mf_op := b, mf_op_manual := b\<rparr> else f\<lparr>mf_voice := b, mf_voice_manual := b\<rparr>)"

definition set_member_flag :: "bool \<Rightarrow> bool \<Rightarrow> user_id \<Rightarrow> channel \<Rightarrow> channel" where
  "set_member_flag op b tid c =
     (case map_of (ch_members c) tid of
        Some f \<Rightarrow> c\<lparr>ch_members := AList.update tid (set_flag op b f) (ch_members c)\<rparr>
      | None \<Rightarrow> c)"

definition mode_member :: "user_id \<Rightarrow> bool \<Rightarrow> ustr \<Rightarrow> channel \<Rightarrow> ustr \<Rightarrow> mode_state \<Rightarrow> mode_state" where
  "mode_member uid op target chan who x =
     (case find_target (ms_server x) who of
        None \<Rightarrow> ms_tell (numeric uid ERR_NOSUCHNICK [who, lit ''No such nick'']) x
      | Some tid \<Rightarrow>
          (case Option.bind (ms_channel target x) (\<lambda>c. map_of (ch_members c) tid) of
             None \<Rightarrow> ms_tell (numeric uid ERR_USERNOTINCHANNEL [who, ch_name chan, lit ''They aren't on that channel'']) x
           | Some f \<Rightarrow>
               (let x1 = ms_set_channel target (set_member_flag op (ms_adding x) tid) x
                in if (if op then mf_op f else mf_voice f) = ms_adding x then x1
                   else push_arg who (push_mode (if op then 111 else 118) x1))))"

definition mode_ov :: "user_id \<Rightarrow> message \<Rightarrow> bool \<Rightarrow> ustr \<Rightarrow> channel \<Rightarrow> bool \<Rightarrow> mode_state \<Rightarrow> mode_state" where
  "mode_ov uid m op target chan is_oper x0 =
     (let (who, x) = next_arg m x0 in
      if op \<and> ch_rf chan \<and> \<not> is_oper
      then ms_tell (numeric uid ERR_NOPRIVILEGES [lit ''Only a control operator may grant +o on an RF channel'']) x
      else
        (case who of
           None \<Rightarrow> ms_tell (need_more uid (lit ''MODE'')) x
         | Some w \<Rightarrow> mode_member uid op target chan w x))"

definition mode_char :: "user_id \<Rightarrow> message \<Rightarrow> ustr \<Rightarrow> channel \<Rightarrow> bool \<Rightarrow> nat \<Rightarrow> mode_state \<Rightarrow> mode_state" where
  "mode_char uid m target chan is_oper c x =
     (if c = 43 then x\<lparr>ms_adding := True\<rparr>
      else if c = 45 then x\<lparr>ms_adding := False\<rparr>
      else if c = 109 then mode_m uid target chan is_oper x
      else if c = 116 then mode_t target x
      else if c = 114 then mode_r uid target is_oper x
      else if c = 107 then mode_k uid m target x
      else if c = 108 then mode_l uid m target x
      else if c = 111 then mode_ov uid m True target chan is_oper x
      else if c = 118 then mode_ov uid m False target chan is_oper x
      else x)"

section \<open>MODE\<close>

definition user_mode :: "user_id \<Rightarrow> ustr \<Rightarrow> server \<Rightarrow> server" where
  "user_mode uid target s =
     (if lower target \<noteq> lower (user_text us_nick s uid)
      then numeric uid ERR_USERSDONTMATCH [lit ''Can't change mode for other users''] s
      else
        numeric uid RPL_UMODEIS
          [if user_is us_oper s uid then (if user_is us_rf_tx s uid then lit ''+oR'' else lit ''+o'')
           else if user_is us_rf_tx s uid then lit ''+R'' else lit ''+i''] s)"

definition change_modes :: "server_env \<Rightarrow> user_id \<Rightarrow> message \<Rightarrow> ustr \<Rightarrow> channel \<Rightarrow> ustr \<Rightarrow> server \<Rightarrow> server" where
  "change_modes e uid m target chan changes s =
     (let x = fold (mode_char uid m target chan (user_is us_oper s uid)) changes
                \<lparr>ms_server = s, ms_adding = True, ms_arg = 2, ms_applied = [], ms_args = [], ms_sign = None,
                 ms_refresh = []\<rparr>;
          s1 = ms_server x
      in if ms_applied x = [] then s1
         else
           (let line = message_to_string (with_prefix (user_text user_prefix s1 uid)
                         (message_new (lit ''MODE'') (ch_name chan # ms_applied x # ms_args x)))
            in fold (refresh_privileges (en_now e)) (ms_refresh x) (send_members (ch_name chan) line s1)))"

definition cmd_mode :: "server_env \<Rightarrow> user_id \<Rightarrow> message \<Rightarrow> server \<Rightarrow> server" where
  "cmd_mode e uid m s =
     (case msg_param m 0 of
        None \<Rightarrow> need_more uid (lit ''MODE'') s
      | Some target \<Rightarrow>
          if \<not> is_channel_name target then user_mode uid target s
          else
            (case st_channel (srv_state s) target of
               None \<Rightarrow> no_such_channel uid target s
             | Some chan \<Rightarrow>
                 (case msg_param m 1 of
                    None \<Rightarrow> numeric uid RPL_CHANNELMODEIS [ch_name chan, mode_string chan] s
                  | Some changes \<Rightarrow>
                      if \<not> member_is_op chan uid \<and> \<not> user_is us_oper s uid then need_chanop uid chan s
                      else change_modes e uid m target chan changes s)))"

section \<open>KICK and INVITE\<close>

definition kick_member :: "server_env \<Rightarrow> user_id \<Rightarrow> channel \<Rightarrow> ustr \<Rightarrow> user_id \<Rightarrow> ustr \<Rightarrow> server \<Rightarrow> server" where
  "kick_member e uid chan who tid reason s =
     (let line = message_to_string (with_prefix (user_text user_prefix s uid)
                   (message_new (lit ''KICK'') [ch_name chan, who, reason]));
          s1 = on_state (\<lambda>st. snd (st_part tid (ch_name chan) st)) (send_members (ch_name chan) line s);
          s2 = audit (lit ''kick'') [(lit ''channel'', ch_name chan), (lit ''nick'', who), (lit ''reason'', reason)] s1
      in case tid of
           IpUser _ \<Rightarrow> s2
         | RfUser call \<Rightarrow>
             rf_error (en_now e) call (lit ''442'') (lit ''kicked from channel'')
               (on_peer call (mark_kicked (ch_name chan)) s2))"

definition cmd_kick :: "server_env \<Rightarrow> user_id \<Rightarrow> message \<Rightarrow> server \<Rightarrow> server" where
  "cmd_kick e uid m s =
     (case (msg_param m 0, msg_param m 1) of
        (Some ch, Some who) \<Rightarrow>
          (case st_channel (srv_state s) ch of
             None \<Rightarrow> no_such_channel uid ch s
           | Some chan \<Rightarrow>
               if \<not> is_chanop s uid (ch_name chan) then need_chanop uid chan s
               else
                 (case find_target s who of
                    None \<Rightarrow> numeric uid ERR_NOSUCHNICK [who, lit ''No such nick''] s
                  | Some tid \<Rightarrow>
                      if \<not> has_key (ch_members chan) tid
                      then numeric uid ERR_USERNOTINCHANNEL [who, ch_name chan, lit ''They aren't on that channel''] s
                      else kick_member e uid chan who tid
                             (case msg_param m 2 of Some r \<Rightarrow> r | None \<Rightarrow> lit ''Kicked'') s))
      | _ \<Rightarrow> need_more uid (lit ''KICK'') s)"

definition cmd_invite :: "server_env \<Rightarrow> user_id \<Rightarrow> message \<Rightarrow> server \<Rightarrow> server" where
  "cmd_invite e uid m s =
     (case (msg_param m 0, msg_param m 1) of
        (Some who, Some ch) \<Rightarrow>
          (case st_channel (srv_state s) ch of
             None \<Rightarrow> no_such_channel uid ch s
           | Some chan \<Rightarrow>
               if \<not> has_key (ch_members chan) uid
               then numeric uid ERR_NOTONCHANNEL [ch_name chan, lit ''You're not on that channel''] s
               else
                 (case find_target s who of
                    None \<Rightarrow> numeric uid ERR_NOSUCHNICK [who, lit ''No such nick''] s
                  | Some tid \<Rightarrow>
                      if has_key (ch_members chan) tid
                      then numeric uid ERR_USERONCHANNEL [who, ch_name chan, lit ''is already on channel''] s
                      else
                        (let from_user = user_text user_prefix s uid; s1 = numeric uid RPL_INVITING [who, ch_name chan] s
                         in case tid of
                              IpUser i \<Rightarrow>
                                send_raw i (message_to_string (with_prefix from_user
                                  (message_new (lit ''INVITE'') [who, ch_name chan]))) s1
                            | RfUser _ \<Rightarrow>
                                notice e uid
                                  (lit ''That station is on the radio. Invite is IRC-only; they join from the air.'') s1)))
      | _ \<Rightarrow> need_more uid (lit ''INVITE'') s)"

end
