(* ===== verification/Commands_Queries.thy ===== *)
theory Commands_Queries
  imports Commands_Base
begin

text \<open>
  \<open>src/src/server/commands/queries.rs\<close> and \<open>src/src/server/commands/misc.rs\<close>: the commands that only answer.
  The calendar is computed as the code does it.
\<close>

section \<open>Who is here\<close>

definition visible_host :: "server \<Rightarrow> user_id \<Rightarrow> user \<Rightarrow> ustr" where
  "visible_host s viewer u =
     (if \<not> user_is us_listen_only s viewer \<or> user_is us_oper s viewer \<or> user_is_rf u \<or> us_id u = viewer
      then us_host u else lit ''hidden'')"

definition who_users :: "server \<Rightarrow> ustr \<Rightarrow> user list" where
  "who_users s pat =
     (if is_channel_name pat then List.map_filter (user_of s) (st_members (srv_state s) pat)
      else if pat = lit ''*'' \<or> pat = [] then map snd (st_users (srv_state s))
      else (case by_nick (srv_state s) pat of Some u \<Rightarrow> [u] | None \<Rightarrow> []))"

definition who_flags :: "server \<Rightarrow> ustr \<Rightarrow> user \<Rightarrow> ustr" where
  "who_flags s pat u =
     (if us_away u \<noteq> None then lit ''G'' else lit ''H'') @ (if us_oper u then lit ''*'' else [])
     @ (if is_channel_name pat
        then (case Option.bind (st_channel (srv_state s) pat) (\<lambda>c. map_of (ch_members c) (us_id u)) of
                Some f \<Rightarrow> sigil f | None \<Rightarrow> [])
        else [])"

definition who_line :: "user_id \<Rightarrow> ustr \<Rightarrow> user \<Rightarrow> server \<Rightarrow> server" where
  "who_line uid pat u s =
     numeric uid RPL_WHOREPLY
       [pat, us_username u, visible_host s uid u, server_name s, us_nick u, who_flags s pat u, lit ''0 '' @ us_realname u] s"

definition cmd_who :: "user_id \<Rightarrow> message \<Rightarrow> server \<Rightarrow> server" where
  "cmd_who uid m s =
     (let pat = (case msg_param m 0 of Some x \<Rightarrow> x | None \<Rightarrow> lit ''*'')
      in numeric uid RPL_ENDOFWHO [pat, lit ''End of /WHO list''] (fold (who_line uid pat) (who_users s pat) s))"

definition whois_desc :: "user \<Rightarrow> ustr" where
  "whois_desc u =
     (case us_callsign u of
        Some c \<Rightarrow>
          if user_is_rf u then lit ''Radio station '' @ callsign_to_string c @ lit '', heard via the gateway''
          else lit ''Identified as '' @ callsign_to_string c @ lit '' (connected over the Internet)''
      | None \<Rightarrow> lit ''Not identified with a callsign'')"

definition whois_idle :: "server_env \<Rightarrow> user_id \<Rightarrow> user \<Rightarrow> server \<Rightarrow> server" where
  "whois_idle e uid u s =
     (case Option.bind (id_callsign (us_id u)) (get_peer (rd_sessions (srv_radio s))) of
        None \<Rightarrow> s
      | Some p \<Rightarrow>
          (let idle = show_nat ((en_now e - last_heard p) div 1000000000)
           in numeric uid RPL_WHOISIDLE
                [us_nick u, idle, lit ''last heard '' @ idle @ lit ''s ago, '' @ show_nat (queue_depth p)
                   @ lit '' queued, '' @ show_nat (peer_dropped p) @ lit '' dropped''] s))"

definition whois_channels :: "server \<Rightarrow> user \<Rightarrow> ustr list" where
  "whois_channels s u =
     List.map_filter (\<lambda>k. map_option
         (\<lambda>c. (case map_of (ch_members c) (us_id u) of Some f \<Rightarrow> sigil f | None \<Rightarrow> []) @ ch_name c)
         (map_of (st_channels (srv_state s)) k)) (us_channels u)"

definition whois_reply :: "server_env \<Rightarrow> user_id \<Rightarrow> user \<Rightarrow> server \<Rightarrow> server" where
  "whois_reply e uid u s0 =
     (let nick = us_nick u;
          s1 = numeric uid RPL_WHOISUSER [nick, us_username u, visible_host s0 uid u, lit ''*'', us_realname u] s0;
          s2 = numeric uid RPL_WHOISSERVER [nick, server_name s1, whois_desc u] s1;
          s3 = (if us_oper u then numeric uid RPL_WHOISOPERATOR [nick, lit ''is a control operator''] s2 else s2);
          s4 = (if us_nick_identified u then numeric uid RPL_WHOISREGNICK [nick, lit ''is a registered nick''] s3 else s3);
          s5 = (if us_rf_tx u \<and> \<not> user_is_rf u
                then numeric uid RPL_WHOISSPECIAL [nick, lit ''has RF-TX privilege (messages may be radiated)''] s4 else s4);
          s6 = whois_idle e uid u s5;
          chs = whois_channels s6 u;
          s7 = (if chs = [] then s6 else numeric uid RPL_WHOISCHANNELS [nick, Irc_Message.join 32 chs] s6);
          s8 = (case us_away u of Some away \<Rightarrow> numeric uid RPL_AWAY [nick, away] s7 | None \<Rightarrow> s7)
      in numeric uid RPL_ENDOFWHOIS [nick, lit ''End of /WHOIS list''] s8)"

definition cmd_whois :: "server_env \<Rightarrow> user_id \<Rightarrow> message \<Rightarrow> server \<Rightarrow> server" where
  "cmd_whois e uid m s =
     (case msg_param m 0 of
        None \<Rightarrow> numeric uid ERR_NONICKNAMEGIVEN [lit ''No nickname given''] s
      | Some nick \<Rightarrow>
          (case by_nick (srv_state s) nick of
             None \<Rightarrow> numeric uid ERR_NOSUCHNICK [nick, lit ''No such nick''] s
           | Some u \<Rightarrow> whois_reply e uid u s))"

definition cmd_whowas :: "user_id \<Rightarrow> message \<Rightarrow> server \<Rightarrow> server" where
  "cmd_whowas uid m s =
     (case msg_param m 0 of
        None \<Rightarrow> numeric uid ERR_NONICKNAMEGIVEN [lit ''No nickname given''] s
      | Some nick \<Rightarrow>
          numeric uid RPL_ENDOFWHOWAS [nick, lit ''End of WHOWAS'']
            (numeric uid ERR_WASNOSUCHNICK [nick, lit ''There was no such nickname''] s))"

definition cmd_ison :: "user_id \<Rightarrow> message \<Rightarrow> server \<Rightarrow> server" where
  "cmd_ison uid m s =
     (if msg_params m = [] then need_more uid (lit ''ISON'') s
      else numeric uid RPL_ISON
             [Irc_Message.join 32 (filter (\<lambda>nick. by_nick (srv_state s) nick \<noteq> None)
                (concat (map split_whitespace (msg_params m))))] s)"

definition userhost_reply :: "server \<Rightarrow> user_id \<Rightarrow> user \<Rightarrow> ustr" where
  "userhost_reply s uid u =
     us_nick u @ (if us_oper u then lit ''*'' else []) @ lit ''='' @ (if us_away u \<noteq> None then lit ''-'' else lit ''+'')
     @ us_username u @ lit ''@'' @ visible_host s uid u"

definition cmd_userhost :: "user_id \<Rightarrow> message \<Rightarrow> server \<Rightarrow> server" where
  "cmd_userhost uid m s =
     (if msg_params m = [] then need_more uid (lit ''USERHOST'') s
      else numeric uid RPL_USERHOST
             [Irc_Message.join 32 (map (userhost_reply s uid)
                (List.map_filter (by_nick (srv_state s)) (take 5 (msg_params m))))] s)"

section \<open>The server about itself\<close>

definition to_ascii_lowercase :: "ustr \<Rightarrow> ustr" where
  "to_ascii_lowercase s = map to_lower s"

definition cap_line :: "client_id \<Rightarrow> ustr \<Rightarrow> ustr \<Rightarrow> ustr \<Rightarrow> ustr \<Rightarrow> server \<Rightarrow> server" where
  "cap_line i name nick verb rest s =
     send_raw i (message_to_string (with_prefix name (message_new (lit ''CAP'') [nick, verb, rest]))) s"

definition cmd_cap :: "user_id \<Rightarrow> message \<Rightarrow> server \<Rightarrow> server" where
  "cmd_cap uid m s =
     (case uid of
        RfUser _ \<Rightarrow> s
      | IpUser i \<Rightarrow>
          (let sub = to_ascii_uppercase (case msg_param m 0 of Some x \<Rightarrow> x | None \<Rightarrow> []);
               nick = (case user_of s uid of
                         Some u \<Rightarrow> if us_registered u then us_nick u else lit ''*'' | None \<Rightarrow> lit ''*'')
           in if sub = lit ''LS'' \<or> sub = lit ''LIST'' then cap_line i (server_name s) nick sub [] s
              else if sub = lit ''REQ''
              then cap_line i (server_name s) nick (lit ''NAK'') (case msg_param m 1 of Some x \<Rightarrow> x | None \<Rightarrow> []) s
              else s))"

definition cmd_version :: "user_id \<Rightarrow> server \<Rightarrow> server" where
  "cmd_version uid s =
     numeric uid RPL_VERSION
       [lit ''rfircd-'' @ PKG_VERSION, server_name s, lit ''IRC + AX.25 gateway. See HELP. Air is always in the clear.''] s"

definition cmd_admin :: "user_id \<Rightarrow> server \<Rightarrow> server" where
  "cmd_admin uid s =
     numeric uid RPL_ADMINEMAIL [lit ''See MOTD and the station licence.'']
       (numeric uid RPL_ADMINLOC2 [lit ''The control operator is whoever can OPER on this process.'']
         (numeric uid RPL_ADMINLOC1 [lit ''This is an amateur-radio packet gateway, not a public IRC network.'']
           (numeric uid RPL_ADMINME [server_name s, lit ''Administrative info''] s)))"

definition info_lines :: "ustr list" where
  "info_lines =
     [lit ''rfircd '' @ PKG_VERSION @ lit '' '' @ [0x2014] @ lit '' IRC server with an AX.25 gateway'',
      lit ''Single server; no linking, no services, no DCC, no on-air encryption.'',
      lit ''The air is an allowlist: PRIVMSG chat and /me, plus TOPIC. Anything'',
      lit ''not named stays on IRC '' @ [0x2014] @ lit '' a new event type does not transmit until listed.'',
      lit ''https://github.com/mashu/rfircd'']"

definition cmd_info :: "user_id \<Rightarrow> server \<Rightarrow> server" where
  "cmd_info uid s =
     numeric uid RPL_ENDOFINFO [lit ''End of /INFO list''] (fold (\<lambda>l. numeric uid RPL_INFO [l]) info_lines s)"

definition help_body :: "ustr \<Rightarrow> ustr list" where
  "help_body topic =
     (if topic \<in> {lit ''air'', lit ''radio'', lit ''rf''} then
        [lit ''Allowlist: PRIVMSG chat and /me, plus TOPIC (AIRC mode only).'',
         lit ''JOIN/PART only if presence_notices is on (AIRC). APRS messages'',
         lit ''to the gateway enter a +r channel or query a nick. Replies and'',
         lit ''channel chat reach APRS HTs as addressed APRS when needed.'',
         lit ''positions/status beacons are IRC NOTICE only, never retransmitted.'',
         lit ''NOTICE, CTCP, MODE, KICK, numerics stay on IRC until listed.'']
      else
        [lit ''NICK USER PASS QUIT PING PONG JOIN PART PRIVMSG NOTICE TOPIC'',
         lit ''NAMES LIST WHO WHOIS WHOWAS MODE MOTD LUSERS AWAY KICK INVITE'',
         lit ''ISON USERHOST VERSION TIME ADMIN INFO HELP STATS LINKS CAP'',
         lit ''OPER CALLSIGN REGISTER IDENTIFY UNREGISTER RADIO'',
         lit ''OPER also: KILL ACCOUNTS DROPNICK UNCLAIM KLINE UNKLINE KLINES PASSWD'',
         lit ''HELP AIR '' @ [0x2014] @ lit '' what is transmitted vs what stays on IRC''])"

definition cmd_help :: "user_id \<Rightarrow> message \<Rightarrow> server \<Rightarrow> server" where
  "cmd_help uid m s =
     (let topic = to_ascii_lowercase (case msg_param m 0 of Some x \<Rightarrow> x | None \<Rightarrow> lit ''index'')
      in numeric uid RPL_ENDOFHELP [topic, lit ''End of /HELP'']
           (fold (\<lambda>l. numeric uid RPL_HELPTXT [topic, l]) (help_body topic)
              (numeric uid RPL_HELPSTART [topic, lit ''Help''] s)))"

definition show02 :: "nat \<Rightarrow> ustr" where
  "show02 n = (if n < 10 then 48 # show_nat n else show_nat n)"

definition uptime_text :: "nat \<Rightarrow> ustr" where
  "uptime_text up =
     lit ''Server Up '' @ show_nat (up div 86400) @ lit '' days '' @ show02 ((up mod 86400) div 3600) @ lit '':''
     @ show02 ((up mod 3600) div 60) @ lit '':'' @ show02 (up mod 60)"

definition cmd_stats :: "server_env \<Rightarrow> user_id \<Rightarrow> message \<Rightarrow> server \<Rightarrow> server" where
  "cmd_stats e uid m s =
     (let what = to_lower (case msg_param m 0 of Some (c # _) \<Rightarrow> c | _ \<Rightarrow> 117);
          s1 = (if what = 117 then numeric uid RPL_STATSUPTIME [uptime_text (uptime_secs e s)] s
                else notice e uid (lit ''STATS u (uptime)'') s)
      in numeric uid RPL_ENDOFSTATS [[what], lit ''End of /STATS''] s1)"

definition cmd_links :: "user_id \<Rightarrow> server \<Rightarrow> server" where
  "cmd_links uid s =
     numeric uid RPL_ENDOFLINKS [lit ''*'', lit ''End of /LINKS list'']
       (numeric uid RPL_LINKS [server_name s, server_name s, lit ''0 rfircd (no server linking)''] s)"

section \<open>TIME\<close>

text \<open>
  Seconds since 1970 as year, month, day, hour, minute, second. The machine integers of the code do not overflow
  before the year 2 147 483 647.
\<close>

definition civil_utc :: "nat \<Rightarrow> nat \<times> nat \<times> nat \<times> nat \<times> nat \<times> nat" where
  "civil_utc unix =
     (let rem = unix mod 86400;
          z = unix div 86400 + 719468;
          era = z div 146097;
          doe = z mod 146097;
          yoe = (doe - doe div 1460 + doe div 36524 - doe div 146096) div 365;
          y = yoe + era * 400;
          doy = doe - (365 * yoe + yoe div 4 - yoe div 100);
          mp = (5 * doy + 2) div 153;
          d = doy - (153 * mp + 2) div 5 + 1;
          m = (if mp < 10 then mp + 3 else mp - 9)
      in (if m \<le> 2 then y + 1 else y, m, d, rem div 3600, (rem mod 3600) div 60, rem mod 60))"

definition WDAY :: "ustr list" where
  "WDAY = [lit ''Thu'', lit ''Fri'', lit ''Sat'', lit ''Sun'', lit ''Mon'', lit ''Tue'', lit ''Wed'']"

definition MON :: "ustr list" where
  "MON = [lit ''Jan'', lit ''Feb'', lit ''Mar'', lit ''Apr'', lit ''May'', lit ''Jun'', lit ''Jul'', lit ''Aug'', lit ''Sep'',
          lit ''Oct'', lit ''Nov'', lit ''Dec'']"

definition utc_rfc2822 :: "nat \<Rightarrow> ustr" where
  "utc_rfc2822 t =
     (case civil_utc t of (y, m, d, hh, mm, ss) \<Rightarrow>
        WDAY ! (t div 86400 mod 7) @ lit '', '' @ show02 d @ lit '' '' @ MON ! (m - 1) @ lit '' '' @ show_nat y @ lit '' ''
        @ show02 hh @ lit '':'' @ show02 mm @ lit '':'' @ show02 ss @ lit '' +0000'')"

definition cmd_time :: "server_env \<Rightarrow> user_id \<Rightarrow> server \<Rightarrow> server" where
  "cmd_time e uid s = numeric uid RPL_TIME [server_name s, utc_rfc2822 (en_unix e)] s"

end
