(* ===== verification/Commands_Accounts.thy ===== *)
theory Commands_Accounts
  imports Commands_Base
begin

text \<open>
  \<open>src/src/server/commands/accounts.rs\<close>: \<open>REGISTER\<close>, \<open>IDENTIFY\<close>, \<open>UNREGISTER\<close> and the RF-TX grant, with the callsign
  claims of \<open>commands/operator.rs\<close> they use. Argon2 runs on another thread: a command leaves a job in the server, and the
  event that answers it is \<open>finish_auth\<close>. Argon2 itself is an argument of that event; the test mode that hashes inline is
  not modelled.
\<close>

section \<open>Errors and limits\<close>

definition account_error_text :: "server \<Rightarrow> account_error \<Rightarrow> ustr" where
  "account_error_text s x =
     (case x of
        AeTooShort \<Rightarrow> lit ''Password too short (minimum '' @ show_nat (ac_min_password_len (cf_accounts (srv_config s)))
                      @ lit '' characters).''
      | AeTooLong \<Rightarrow> lit ''Password too long.''
      | AeHash \<Rightarrow> lit ''Could not hash the password.''
      | AeIo \<Rightarrow> lit ''Could not write the nick database.''
      | AeTaken \<Rightarrow> lit ''That nick is already registered. IDENTIFY to claim it.''
      | AeBadPassword \<Rightarrow> lit ''Password incorrect.''
      | AeNotRegistered \<Rightarrow> lit ''That nick is not registered. REGISTER <password> first.''
      | AeCallsignTaken \<Rightarrow> lit ''That callsign is already registered to another nick.'')"

definition notice_account_error :: "server_env \<Rightarrow> user_id \<Rightarrow> account_error \<Rightarrow> server \<Rightarrow> server" where
  "notice_account_error e uid x s = notice e uid (account_error_text s x) s"

definition auth_rate_ok :: "server_env \<Rightarrow> user_id \<Rightarrow> server \<Rightarrow> bool \<times> server" where
  "auth_rate_ok e uid s =
     (let host = user_text us_host s uid; (ok, p) = identify_rate_ok host (en_now e) (srv_policy s);
          s1 = s\<lparr>srv_policy := p\<rparr>
      in if ok then (True, s1)
         else (False, audit (lit ''auth_throttle'') [(lit ''host'', host)]
                (notice e uid (lit ''Slow down: too many password attempts from your host.'') s1)))"

definition run_argon2 :: "user_id \<Rightarrow> auth_kind \<Rightarrow> ustr \<Rightarrow> auth_work \<Rightarrow> server \<Rightarrow> server" where
  "run_argon2 uid kind nick work s =
     (case uid of
        RfUser _ \<Rightarrow> s
      | IpUser i \<Rightarrow> s\<lparr>srv_jobs := srv_jobs s @ [\<lparr>job_client = i, job_kind = kind, job_nick = nick, job_work = work\<rparr>]\<rparr>)"

section \<open>The commands\<close>

definition cmd_register :: "server_env \<Rightarrow> user_id \<Rightarrow> message \<Rightarrow> server \<Rightarrow> server" where
  "cmd_register e uid m s0 =
     (case msg_param m 0 of
        None \<Rightarrow> need_more uid (lit ''REGISTER'') s0
      | Some password \<Rightarrow>
          (case auth_rate_ok e uid s0 of
             (False, s) \<Rightarrow> s
           | (True, s) \<Rightarrow>
               (case user_of s uid of
                  None \<Rightarrow> s
                | Some u \<Rightarrow>
                    if reserved_from_nick (us_nick u) \<noteq> None
                    then notice e uid (lit ''Callsign nicks cannot be registered; they belong to RF stations.'') s
                    else if str_len password < ac_min_password_len (cf_accounts (srv_config s))
                    then notice_account_error e uid AeTooShort s
                    else if 128 < str_len password then notice_account_error e uid AeTooLong s
                    else if \<not> us_nick_identified u \<and> is_registered (srv_accounts s) (us_nick u)
                    then notice_account_error e uid AeTaken s
                    else run_argon2 uid AuRegister (us_nick u) (WHash password) s)))"

text \<open>\<open>IDENTIFY\<close> and \<open>UNREGISTER\<close> differ in the name and the kind of the job.\<close>

definition verify_command :: "ustr \<Rightarrow> auth_kind \<Rightarrow> server_env \<Rightarrow> user_id \<Rightarrow> message \<Rightarrow> server \<Rightarrow> server" where
  "verify_command cmd kind e uid m s0 =
     (case msg_param m 0 of
        None \<Rightarrow> need_more uid cmd s0
      | Some password \<Rightarrow>
          (case auth_rate_ok e uid s0 of
             (False, s) \<Rightarrow> s
           | (True, s) \<Rightarrow>
               (case user_of s uid of
                  None \<Rightarrow> s
                | Some u \<Rightarrow>
                    (case hash_for (srv_accounts s) (us_nick u) of
                       None \<Rightarrow> notice_account_error e uid AeNotRegistered s
                     | Some hash \<Rightarrow> run_argon2 uid kind (us_nick u) (WVerify password hash) s))))"

definition cmd_identify :: "server_env \<Rightarrow> user_id \<Rightarrow> message \<Rightarrow> server \<Rightarrow> server" where
  "cmd_identify = verify_command (lit ''IDENTIFY'') AuIdentify"

definition cmd_unregister :: "server_env \<Rightarrow> user_id \<Rightarrow> message \<Rightarrow> server \<Rightarrow> server" where
  "cmd_unregister = verify_command (lit ''UNREGISTER'') AuUnregister"

section \<open>The answer\<close>

definition belongs_text :: "callsign \<Rightarrow> ustr" where
  "belongs_text c = lit ''Callsign '' @ callsign_to_string c @ lit '' now belongs to another nick.''"

definition bound_text :: "callsign \<Rightarrow> ustr" where
  "bound_text c = lit ''Callsign '' @ callsign_to_string c @ lit '' is bound to this nick. Nobody else can claim it.''"

definition store_callsign :: "server_env \<Rightarrow> ustr \<Rightarrow> ustr \<Rightarrow> server \<Rightarrow> (account_error + unit) \<times> server" where
  "store_callsign e nick call s = on_accounts (set_callsign (en_json e) (en_fate e (ChCallsign nick call)) nick call) s"

definition bind_session_callsign :: "server_env \<Rightarrow> user_id \<Rightarrow> ustr \<Rightarrow> server \<Rightarrow> server" where
  "bind_session_callsign e uid taken s =
     (case user_of s uid of
        None \<Rightarrow> s
      | Some u \<Rightarrow>
          (case us_callsign u of
             None \<Rightarrow> s
           | Some c \<Rightarrow>
               (case store_callsign e (us_nick u) (callsign_to_string c) s of
                  (Inr _, s1) \<Rightarrow>
                    notice e uid (bound_text c) (strip_callsign_claims (en_now e) c (Some uid) (belongs_text c) s1)
                | (Inl x, s1) \<Rightarrow>
                    if x = AeCallsignTaken then notice e uid taken (set_user uid (\<lambda>u. u\<lparr>us_callsign := None\<rparr>) s1)
                    else notice_account_error e uid x s1)))"

definition identified :: "user_id \<Rightarrow> server \<Rightarrow> server" where
  "identified uid s = set_user uid (\<lambda>u. u\<lparr>us_nick_identified := True, us_identify_by := None\<rparr>) s"

definition finish_identify :: "server_env \<Rightarrow> user_id \<Rightarrow> user \<Rightarrow> server \<Rightarrow> server" where
  "finish_identify e uid u s =
     (if \<not> is_registered (srv_accounts s) (us_nick u) then notice_account_error e uid AeNotRegistered s
      else
        (let s1 = notice e uid (lit ''Password accepted. You own this nick for this session.'') (identified uid s);
             s2 = bind_session_callsign e uid
                    (lit ''That callsign already belongs to another nick. CALLSIGN something else.'') s1
         in refresh_privileges (en_now e) uid (audit (lit ''identify'') (nick_and_host u) s2)))"

definition finish_register :: "server_env \<Rightarrow> user_id \<Rightarrow> user \<Rightarrow> ustr option \<Rightarrow> server \<Rightarrow> server" where
  "finish_register e uid u password_hash s =
     (case password_hash of
        None \<Rightarrow> notice_account_error e uid AeHash s
      | Some hash \<Rightarrow>
          if us_nick_identified u \<and> is_registered (srv_accounts s) (us_nick u) then
            (case on_accounts (set_password_hash (en_json e) (en_fate e (ChPassword (us_nick u) hash)) (us_nick u) hash) s of
               (Inl x, s1) \<Rightarrow> notice_account_error e uid x s1
             | (Inr _, s1) \<Rightarrow> notice e uid (lit ''Password updated.'') s1)
          else
            (case on_accounts (insert_hashed (en_json e) (en_fate e (ChInsert (us_nick u) hash (en_unix e)))
                                 (us_nick u) hash (en_unix e)) s of
               (Inl x, s1) \<Rightarrow> notice_account_error e uid x s1
             | (Inr _, s1) \<Rightarrow>
                 (let s2 = bind_session_callsign e uid
                        (lit ''Nick registered, but that callsign already belongs to another nick. CALLSIGN something else.'')
                        (identified uid s1);
                      s3 = notice e uid (lit ''Nick registered. The password is stored as an Argon2id hash, not recoverable. ''
                             @ lit ''IDENTIFY on next connect.'') s2
                  in refresh_privileges (en_now e) uid (audit (lit ''nick_register'') (nick_and_host u) s3))))"

definition finish_unregister :: "server_env \<Rightarrow> user_id \<Rightarrow> user \<Rightarrow> server \<Rightarrow> server" where
  "finish_unregister e uid u s =
     (case on_accounts (drop_nick (en_json e) (en_fate e (ChDrop (us_nick u))) (us_nick u)) s of
        (Inl x, s1) \<Rightarrow> notice_account_error e uid x s1
      | (Inr _, s1) \<Rightarrow>
          (let s2 = notice e uid (lit ''Nick unregistered.'')
                 (set_user uid (\<lambda>u. u\<lparr>us_nick_identified := False, us_rf_tx := us_oper u\<rparr>) s1)
           in refresh_privileges (en_now e) uid (audit (lit ''nick_drop'') [(lit ''nick'', us_nick u)] s2)))"

definition grant_oper :: "server_env \<Rightarrow> user_id \<Rightarrow> server \<Rightarrow> server" where
  "grant_oper e uid s =
     (let s1 = numeric uid RPL_YOUREOPER [lit ''You are now a control operator''] (set_user uid (\<lambda>u. u\<lparr>us_oper := True\<rparr>) s)
      in refresh_privileges (en_now e) uid (audit_user (lit ''oper'') nick_and_host uid s1))"

definition finish_auth ::
  "server_env \<Rightarrow> client_id \<Rightarrow> auth_kind \<Rightarrow> ustr \<Rightarrow> account_error + unit \<Rightarrow> ustr option \<Rightarrow> server \<Rightarrow> server" where
  "finish_auth e i kind nick result password_hash s =
     (let uid = IpUser i in
      case user_of s uid of
        None \<Rightarrow> s
      | Some u \<Rightarrow>
          if lower (us_nick u) \<noteq> lower nick
          then notice e uid (lit ''Nick changed during password check; try again.'') s
          else
            (case result of
               Inl x \<Rightarrow>
                 if kind = AuOper
                 then audit (lit ''oper_fail'') (nick_and_host u) (numeric uid ERR_PASSWDMISMATCH [lit ''Password incorrect''] s)
                 else notice_account_error e uid x s
             | Inr _ \<Rightarrow>
                 (case kind of
                    AuIdentify \<Rightarrow> finish_identify e uid u s
                  | AuRegister \<Rightarrow> finish_register e uid u password_hash s
                  | AuUnregister \<Rightarrow> finish_unregister e uid u s
                  | AuOper \<Rightarrow> grant_oper e uid s)))"

section \<open>The grant\<close>

definition grant_rf_tx :: "server_env \<Rightarrow> user_id \<Rightarrow> ustr \<Rightarrow> bool \<Rightarrow> server \<Rightarrow> server" where
  "grant_rf_tx e oper nick grant s =
     (if \<not> is_registered (srv_accounts s) nick
      then notice e oper (nick @ lit '' is not registered. They must REGISTER first; ''
             @ lit ''the grant is stored in the nick file and restored on IDENTIFY.'') s
      else
        (case on_accounts (set_rf_tx (en_json e) (en_fate e (ChRfTx nick grant)) nick grant) s of
           (Inl x, s1) \<Rightarrow> notice_account_error e oper x s1
         | (Inr _, s1) \<Rightarrow>
             (let s2 = (case find_target s1 nick of
                          None \<Rightarrow> s1
                        | Some t \<Rightarrow>
                            notice e t (if grant
                              then lit ''A control operator granted you RF-TX. After CALLSIGN, your messages in +r channels may be radiated.''
                              else lit ''RF-TX revoked. Your messages stay on IRC.'') (refresh_privileges (en_now e) t s1));
                  s3 = notice e oper (lit ''RF-TX '' @ (if grant then lit ''granted'' else lit ''revoked'') @ lit '' for '' @ nick
                         @ lit '' and stored in the nick file.'') s2
              in audit (if grant then lit ''rf_tx_grant'' else lit ''rf_tx_revoke'') [(lit ''nick'', nick)] s3)))"

section \<open>CALLSIGN\<close>

definition holder_of :: "server \<Rightarrow> user_id \<Rightarrow> callsign \<Rightarrow> ustr option" where
  "holder_of s uid call =
     map_option (\<lambda>(_, u). us_nick u)
       (find (\<lambda>(_, u). us_id u \<noteq> uid \<and> us_callsign u = Some call) (st_users (srv_state s)))"

text \<open>The claim is made: the accounts have it already when the user has identified.\<close>

definition record_callsign :: "server_env \<Rightarrow> user_id \<Rightarrow> callsign \<Rightarrow> bool \<Rightarrow> server \<Rightarrow> server" where
  "record_callsign e uid call ident s =
     (let c = callsign_to_string call;
          s1 = set_user uid (\<lambda>u. u\<lparr>us_callsign := Some call\<rparr>) s;
          s2 = audit_user (lit ''callsign'')
                 (\<lambda>u. [(lit ''nick'', us_nick u), (lit ''call'', c), (lit ''host'', us_host u)]) uid s1;
          s3 = notice e uid (lit ''Callsign recorded as '' @ c @ lit ''. This is an unverified claim and is logged ''
                 @ lit ''as such. You are responsible for your own transmissions.'') s2;
          s4 = notice e uid (if ident then bound_text call
                 else lit ''This claim lasts for this session only. REGISTER <password> to bind the nick ''
                      @ lit ''and this callsign so nobody else can use them.'') s3
      in refresh_privileges (en_now e) uid s4)"

definition claim_free_callsign :: "server_env \<Rightarrow> user_id \<Rightarrow> callsign \<Rightarrow> server \<Rightarrow> server" where
  "claim_free_callsign e uid call s =
     (let ident = user_is us_nick_identified s uid; nick = user_text us_nick s uid; c = callsign_to_string call in
      case holder_of s uid call of
        Some holder \<Rightarrow> notice e uid (lit ''Callsign '' @ c @ lit '' is already claimed by '' @ holder @ lit ''.'') s
      | None \<Rightarrow>
          if \<not> ident then record_callsign e uid call False s
          else
            (case store_callsign e nick c s of
               (Inl x, s1) \<Rightarrow> notice_account_error e uid x s1
             | (Inr _, s1) \<Rightarrow>
                 record_callsign e uid call True
                   (strip_callsign_claims (en_now e) call (Some uid) (belongs_text call) s1)))"

definition cmd_callsign :: "server_env \<Rightarrow> user_id \<Rightarrow> message \<Rightarrow> server \<Rightarrow> server" where
  "cmd_callsign e uid m s =
     (case msg_param m 0 of
        None \<Rightarrow>
          notice e uid (lit ''Your callsign is set to: ''
            @ (case Option.bind (user_of s uid) us_callsign of Some c \<Rightarrow> callsign_to_string c | None \<Rightarrow> lit ''none'')) s
      | Some arg \<Rightarrow>
          (case parse_ok arg of
             None \<Rightarrow> notice e uid (lit ''That is not a valid callsign.'') s
           | Some call \<Rightarrow>
               if \<not> looks_like_amateur_call call
               then notice e uid (lit ''That does not look like an amateur callsign.'') s
               else if \<not> station_allowed (srv_policy s) call
               then notice e uid (lit ''That callsign is not permitted on this gateway.'') s
               else
                 (case owner_of_callsign (srv_accounts s) (callsign_to_string call) of
                    Some owner \<Rightarrow>
                      if lower owner \<noteq> lower (user_text us_nick s uid)
                      then notice e uid (lit ''Callsign '' @ callsign_to_string call @ lit '' is registered to '' @ owner
                             @ lit ''. Choose another, or ask a control operator.'') s
                      else claim_free_callsign e uid call s
                  | None \<Rightarrow> claim_free_callsign e uid call s)))"

end
