(* ===== verification/Airtime_Report.thy ===== *)
theory Airtime_Report
  imports Radio
begin

text \<open>
  \<open>src/src/ax25/airtime.rs\<close>: \<open>AirtimeShared::summary\<close>, one line of report. Its decimals are printed from \<open>f64\<close> values,
  so the rounding to the nearest double is modelled: \<open>f64\<close> is the double nearest to a rational that is neither
  negative nor beyond 53 bits, which is every value the counters give.
\<close>

definition round_half_even :: "rat \<Rightarrow> int" where
  "round_half_even x =
     (let f = floor x; d = x - of_int f
      in if d < 1 / 2 then f else if 1 / 2 < d then f + 1 else if even f then f else f + 1)"

text \<open>How often a number is doubled until it has 53 bits before the point.\<close>

fun f64_shift :: "nat \<Rightarrow> rat \<Rightarrow> nat" where
  "f64_shift 0 x = 0"
| "f64_shift (Suc n) x = (if 2 ^ 52 \<le> x then 0 else Suc (f64_shift n (2 * x)))"

definition f64 :: "rat \<Rightarrow> rat" where
  "f64 x = (if x \<le> 0 then 0 else let k = f64_shift 1074 x in of_int (round_half_even (x * 2 ^ k)) / 2 ^ k)"

definition show_tenths :: "rat \<Rightarrow> ustr" where
  "show_tenths x = (let n = nat (round_half_even (x * 10)) in show_nat (n div 10) @ lit ''.'' @ show_nat (n mod 10))"

text \<open>\<open>ms as f64 / 1000.0\<close>, and \<open>Duration::from_millis(ms).as_secs_f64()\<close>.\<close>

definition ms_over_1000 :: "nat \<Rightarrow> rat" where
  "ms_over_1000 ms = f64 (of_nat ms / 1000)"

definition as_secs_f64 :: "duration \<Rightarrow> rat" where
  "as_secs_f64 d = f64 (of_nat (d div 1000000000) + f64 (of_nat (d mod 1000000000) / 1000000000))"

definition shared_summary :: "airtime_shared \<Rightarrow> ustr" where
  "shared_summary a =
     lit ''airtime: '' @ show_tenths (f64 (duty_percent a)) @ lit ''% duty over the last ''
     @ show_nat (sh_window_span_ms a div 1000) @ lit ''s, '' @ show_nat (sh_hour_ms a div 1000)
     @ lit ''s keyed in the last hour''
     @ (if 0 < sh_hour_budget_ms a then lit '' (budget '' @ show_nat (sh_hour_budget_ms a div 1000) @ lit ''s)'' else [])
     @ lit ''; '' @ show_nat (sh_queued_frames a) @ lit '' frame(s) / '' @ show_tenths (ms_over_1000 (sh_queued_ms a))
     @ lit ''s queued ('' @ show_tenths (ms_over_1000 (sh_next_slot_ms a)) @ lit ''s until the next slot); total keyed ''
     @ show_nat (sh_total_ms a div 1000) @ lit ''s; '' @ show_nat (sh_deferred a) @ lit '' frames deferred, ''
     @ show_nat (sh_rejected_backlog a) @ lit '' refused as backlog, '' @ show_nat (sh_dropped_stale a)
     @ lit '' dropped stale, '' @ show_nat (sh_dropped_inhibited a) @ lit '' dropped while inhibited''
     @ (if 0 < sh_cooling_ms a
        then lit ''; PA cooling for another '' @ show_nat (sh_cooling_ms a div 1000) @ lit ''s'' else [])
     @ (if 0 < sh_duty_pct_override a
        then lit ''; duty overridden to '' @ show_nat (sh_duty_pct_override a) @ lit ''% by a control operator'' else [])
     @ (if 0 < sh_pacing_ms_override a
        then lit ''; pacing overridden to '' @ show_nat (sh_pacing_ms_override a) @ lit ''ms'' else [])
     @ (if sh_inhibit a then lit ''; TRANSMIT INHIBITED by a control operator'' else [])
     @ (if interlock_failed a then lit ''; TRANSMIT BLOCKED by the safety interlock'' else [])"

end
