(* ===== verification/Commands_Operator.thy ===== *)
theory Commands_Operator
  imports Commands_Accounts Airtime_Report
begin

text \<open>
  \<open>src/src/server/commands/operator.rs\<close>: \<open>OPER\<close>, the station's control panel \<open>RADIO\<close>, and the account and access tools.
  \<open>CALLSIGN\<close> is in \<open>Commands_Accounts\<close>, the recursion that strips claims in \<open>Server\<close>.
\<close>

section \<open>OPER\<close>

definition oper_refused :: "user_id \<Rightarrow> server \<Rightarrow> server" where
  "oper_refused uid s =
     audit_user (lit ''oper_fail'') nick_and_host uid (numeric uid ERR_PASSWDMISMATCH [lit ''Password incorrect''] s)"

text \<open>Every name is compared, and the last that matches counts.\<close>

definition match_oper :: "oper_config list \<Rightarrow> ustr \<Rightarrow> ustr option" where
  "match_oper os name =
     fold (\<lambda>o' found. if constant_time_eq (lower (op_name o')) (lower name) then Some (op_password o') else found) os None"

definition cmd_oper :: "server_env \<Rightarrow> user_id \<Rightarrow> message \<Rightarrow> server \<Rightarrow> server" where
  "cmd_oper e uid m s0 =
     (case (msg_param m 0, msg_param m 1) of
        (Some name, Some pass) \<Rightarrow>
          (case auth_rate_ok e uid s0 of
             (False, s) \<Rightarrow> s
           | (True, s) \<Rightarrow>
               (let nick = user_text us_nick s uid; os = cf_opers (srv_config s) in
                case match_oper os name of
                  None \<Rightarrow>
                    if list_ex (\<lambda>o'. en_phc e (op_password o')) os then run_argon2 uid AuOper nick (WDummy pass) s
                    else oper_refused uid s
                | Some secret \<Rightarrow>
                    if en_phc e secret then run_argon2 uid AuOper nick (WVerify pass secret) s
                    else if \<not> constant_time_eq secret pass then oper_refused uid s
                    else grant_oper e uid s))
      | _ \<Rightarrow> need_more uid (lit ''OPER'') s0)"

definition permission_denied :: "user_id \<Rightarrow> server \<Rightarrow> server" where
  "permission_denied uid s = numeric uid ERR_NOPRIVILEGES [lit ''Permission denied''] s"

text \<open>\<open>if !self.require_oper(uid) { return; }\<close>.\<close>

definition require_oper :: "user_id \<Rightarrow> (server \<Rightarrow> server) \<Rightarrow> server \<Rightarrow> server" where
  "require_oper uid f s = (if user_is us_oper s uid then f s else permission_denied uid s)"

section \<open>RADIO: reports\<close>

definition show_secs :: "duration \<Rightarrow> ustr" where
  "show_secs d = show_nat (d div 1000000000)"

definition peer_rows :: "(callsign \<times> peer) list \<Rightarrow> peer list" where
  "peer_rows ps = map snd ps"

definition status_detail :: "server_env \<Rightarrow> server \<Rightarrow> ustr" where
  "status_detail e s =
     (let st = rd_stats (srv_radio s); up = uptime_secs e s
      in lit ''up '' @ show_nat (up div 3600) @ lit ''h'' @ (let n = (up mod 3600) div 60 in if n < 10 then 48 # show_nat n else show_nat n)
         @ lit ''m; frames rx '' @ show_nat (rf_frames_rx st) @ lit '' tx '' @ show_nat (rf_frames_tx st)
         @ lit '' refused '' @ show_nat (rf_frames_refused st) @ lit '' dropped '' @ show_nat (rf_frames_dropped st)
         @ lit '' ('' @ show_nat (rf_bytes_tx st) @ lit '' bytes); stations '' @ show_nat (peers_heard (srv_radio s))
         @ lit ''; mail '' @ show_nat (mail_len (rd_mailbox (srv_radio s))))"

definition radio_status :: "server_env \<Rightarrow> user_id \<Rightarrow> server \<Rightarrow> server" where
  "radio_status e uid s =
     (let s1 = notice e uid (status_line (srv_radio s)) s in
      if \<not> user_is us_oper s uid then s1
      else
        (let s2 = notice e uid (status_detail e s1) s1
         in case radio_airtime (srv_radio s2) of Some a \<Rightarrow> notice e uid (shared_summary a) s2 | None \<Rightarrow> s2))"

definition heard_row :: "server_env \<Rightarrow> peer \<Rightarrow> ustr" where
  "heard_row e p =
     callsign_to_string (peer_call p) @ lit '' last heard '' @ show_secs (en_now e - last_heard p) @ lit ''s ago, ''
     @ show_nat (card (peer_channels p)) @ lit '' channels, '' @ show_nat (queue_depth p) @ lit '' queued, ''
     @ show_nat (peer_dropped p) @ lit '' dropped''"

definition radio_heard :: "server_env \<Rightarrow> user_id \<Rightarrow> server \<Rightarrow> server" where
  "radio_heard e uid s =
     (let rows = sort (map (heard_row e) (peer_rows (ss_peers (rd_sessions (srv_radio s)))))
      in fold (notice e uid) rows (if rows = [] then notice e uid (lit ''No stations heard.'') s else s))"

definition duty_limits :: "duty_config \<Rightarrow> ustr" where
  "duty_limits d =
     (if du_enabled d
      then lit ''limits: '' @ show_nat (du_max_duty_percent d) @ lit ''% of '' @ show_nat (du_window_secs d)
           @ lit ''s, max '' @ show_nat (du_max_continuous_secs d) @ lit ''s continuous then '' @ show_nat (du_cooldown_secs d)
           @ lit ''s cooldown, '' @ show_nat (du_hourly_airtime_secs d) @ lit ''s per rolling hour, frames dropped after ''
           @ show_nat (du_max_hold_secs d) @ lit ''s held (baud '' @ show_nat (du_baud d) @ lit '', txdelay ''
           @ show_nat (du_txdelay_ms d) @ lit ''ms, txtail '' @ show_nat (du_txtail_ms d) @ lit ''ms)''
      else lit ''The airtime governor is DISABLED in the configuration. ''
           @ lit ''Nothing is protecting the finals or the channel.'')"

definition radio_duty :: "server_env \<Rightarrow> user_id \<Rightarrow> server \<Rightarrow> server" where
  "radio_duty e uid s =
     (case radio_airtime (srv_radio s) of
        None \<Rightarrow> notice e uid (lit ''No TNC; there is no airtime to report.'') s
      | Some a \<Rightarrow>
          notice e uid (duty_limits (rc_duty (cf_radio (srv_config s)))) (notice e uid (shared_summary a) s))"

definition queue_line :: "radio \<Rightarrow> airtime_shared \<Rightarrow> ustr" where
  "queue_line r a =
     lit ''transmit queue: '' @ show_nat (queued_frame_count a) @ lit '' frame(s), ''
     @ show_tenths (as_secs_f64 (shared_queued a)) @ lit ''s of airtime, next slot in ''
     @ show_tenths (as_secs_f64 (from_millis (sh_next_slot_ms a))) @ lit ''s (budget '' @ show_secs (backlog_budget r) @ lit ''s)''"

definition waiting_row :: "peer \<Rightarrow> ustr" where
  "waiting_row p =
     lit ''  '' @ callsign_to_string (peer_call p) @ lit '': '' @ show_nat (queue_depth p)
     @ lit '' message(s) awaiting acknowledgement, '' @ show_nat (peer_dropped p) @ lit '' dropped''"

definition radio_queue :: "server_env \<Rightarrow> user_id \<Rightarrow> server \<Rightarrow> server" where
  "radio_queue e uid s =
     (let s1 = notice e uid (case radio_airtime (srv_radio s) of
                 Some a \<Rightarrow> queue_line (srv_radio s) a | None \<Rightarrow> lit ''No TNC; nothing can be queued.'') s;
          rows = sort (map waiting_row
                   (filter (\<lambda>p. 0 < queue_depth p) (peer_rows (ss_peers (rd_sessions (srv_radio s1))))));
          s2 = (if rows = [] then notice e uid (lit ''No per-station messages in flight.'') s1
                else fold (notice e uid) rows (notice e uid (lit ''Per-station (reliable, awaiting ACK):'') s1));
          st = rd_stats (srv_radio s2)
      in notice e uid (lit ''Held for stations out of range: '' @ show_nat (mail_len (rd_mailbox (srv_radio s2)))
           @ lit '' message(s). Refused for backlog since start: '' @ show_nat (rf_frames_refused st)
           @ lit ''. Dropped at the transmitter: '' @ show_nat (rf_frames_dropped st) @ lit ''.'') s2)"

definition mail_row :: "callsign \<times> nat \<Rightarrow> ustr" where
  "mail_row cd = (case cd of (c, n) \<Rightarrow> callsign_to_string c @ lit '': '' @ show_nat n @ lit '' message(s) held'')"

definition radio_mail :: "server_env \<Rightarrow> user_id \<Rightarrow> server \<Rightarrow> server" where
  "radio_mail e uid s =
     (let rows = mail_summary (rd_mailbox (srv_radio s))
      in fold (\<lambda>x. notice e uid (mail_row x)) rows (if rows = [] then notice e uid (lit ''No messages held.'') s else s))"

section \<open>RADIO: control\<close>

definition tell_rf_channels :: "server_env \<Rightarrow> server \<Rightarrow> server" where
  "tell_rf_channels e s =
     (let line = status_line (srv_radio s)
      in fold (\<lambda>ch. notice_rf_audience (en_now e) ch line)
           (map (\<lambda>(_, c). ch_name c) (filter (\<lambda>(_, c). ch_rf c) (st_channels (srv_state s)))) s)"

text \<open>The station identifies before it goes quiet, and what is queued is discarded.\<close>

definition radio_off :: "server_env \<Rightarrow> user_id \<Rightarrow> server \<Rightarrow> server" where
  "radio_off e uid s =
     (let s1 = on_radio (\<lambda>r. set_tx_inhibit True ((id_if_needed (en_now e) r)\<lparr>rd_enabled := False\<rparr>)) s;
          s2 = notice e uid (lit ''Transmitter disabled and the transmit queue purged. The IRC side keeps running.'') s1
      in tell_rf_channels e (audit (lit ''radio_off'') [] s2))"

definition radio_on :: "server_env \<Rightarrow> user_id \<Rightarrow> server \<Rightarrow> server" where
  "radio_on e uid s =
     (if rc_enabled (cf_radio (srv_config s)) then
        (let s1 = on_radio (\<lambda>r. (set_tx_inhibit False r)\<lparr>rd_enabled := True\<rparr>) s;
             s2 = notice e uid (lit ''Transmitter enabled.'') s1
         in tell_rf_channels e (audit (lit ''radio_on'') [] s2))
      else notice e uid (lit ''Radio support is disabled in the configuration.'') s)"

definition radio_id :: "server_env \<Rightarrow> user_id \<Rightarrow> server \<Rightarrow> server" where
  "radio_id e uid s =
     (let (result, r) = identify_now (en_now e) (srv_radio s)
      in notice e uid
           (case result of
              IdSent \<Rightarrow> lit ''Station identification transmitted.''
            | IdRateLimited \<Rightarrow> lit ''Station identification was already sent recently. ''
                 @ lit ''Wait for the identification interval, or transmit first.''
            | IdNotQueued \<Rightarrow> lit ''Station identification was not transmitted. Check RADIO STATUS.'')
           (s\<lparr>srv_radio := r\<rparr>))"

definition on_airtime :: "(airtime_shared \<Rightarrow> airtime_shared) \<Rightarrow> server \<Rightarrow> server" where
  "on_airtime f s =
     on_radio (\<lambda>r. r\<lparr>rd_tnc := map_option (\<lambda>(tc, t). (tc, t\<lparr>tn_shared := f (tn_shared t)\<rparr>)) (rd_tnc r)\<rparr>) s"

text \<open>\<open>off\<close>, a number, or neither.\<close>

definition off_or_number :: "nat \<Rightarrow> ustr \<Rightarrow> nat option option" where
  "off_or_number bound v =
     (if eq_ignore_ascii_case v (lit ''off'') then Some None else map_option Some (parse_unsigned bound v))"

definition number_or_off :: "nat option \<Rightarrow> ustr" where
  "number_or_off x = (case x of Some n \<Rightarrow> show_nat n | None \<Rightarrow> lit ''off'')"

definition limit_duty :: "server_env \<Rightarrow> user_id \<Rightarrow> airtime_shared \<Rightarrow> ustr \<Rightarrow> server \<Rightarrow> server" where
  "limit_duty e uid a v s =
     (case off_or_number (2 ^ 32) v of
        None \<Rightarrow> notice e uid (lit ''Usage: RADIO LIMIT DUTY <1-50|off>'') s
      | Some asked \<Rightarrow>
          (let (applied, a') = set_duty_override asked a;
               answer = (case applied of
                           None \<Rightarrow> lit ''Duty override cleared; the configured limit applies.''
                         | Some p \<Rightarrow>
                             if Some p \<noteq> asked
                             then lit ''Duty cycle limited to '' @ show_nat p @ lit ''% '' @ [0x2014] @ lit '' the ceiling is ''
                                  @ show_nat p @ lit ''%, whatever was asked for.''
                             else lit ''Duty cycle limited to '' @ show_nat p @ lit ''% until further notice.'')
           in audit (lit ''radio_limit_duty'') [(lit ''percent'', number_or_off applied)]
                (notice e uid answer (on_airtime (\<lambda>_. a') s))))"

definition limit_pacing :: "server_env \<Rightarrow> user_id \<Rightarrow> airtime_shared \<Rightarrow> ustr \<Rightarrow> server \<Rightarrow> server" where
  "limit_pacing e uid a v s =
     (case off_or_number (2 ^ 64) v of
        None \<Rightarrow> notice e uid (lit ''Usage: RADIO LIMIT PACING <milliseconds|off>'') s
      | Some ms \<Rightarrow>
          (let a' = set_pacing_override ms a; configured = from_millis (ts_tx_pacing_ms (rc_tnc (cf_radio (srv_config s))));
               answer = (case ms of
                           None \<Rightarrow> lit ''Pacing override cleared; the configured gap applies.''
                         | Some asked \<Rightarrow>
                             (let applied = shared_pacing a' configured
                              in if from_millis asked < applied
                                 then lit ''Minimum gap set to '' @ show_nat (applied div 1000000)
                                      @ lit ''ms '' @ [0x2014] @ lit '' pacing can only slow the station (configured floor is ''
                                      @ show_nat (configured div 1000000) @ lit ''ms).''
                                 else lit ''Minimum gap between transmissions set to '' @ show_nat (applied div 1000000)
                                      @ lit ''ms. This slows the station down; it cannot speed it past the duty-cycle limit.''))
           in audit (lit ''radio_limit_pacing'') [(lit ''ms'', number_or_off ms)]
                (notice e uid answer (on_airtime (\<lambda>_. a') s))))"

definition limit_usage :: "server_env \<Rightarrow> user_id \<Rightarrow> server \<Rightarrow> server" where
  "limit_usage e uid s =
     notice e uid (lit ''RADIO LIMIT DUTY <1-50|off> | RADIO LIMIT PACING <ms|off>. ''
       @ lit ''Both take effect on the next frame and are not saved to the configuration file.'') s"

definition radio_limit :: "server_env \<Rightarrow> user_id \<Rightarrow> message \<Rightarrow> server \<Rightarrow> server" where
  "radio_limit e uid m s =
     (let what = to_ascii_uppercase (case msg_param m 1 of Some x \<Rightarrow> x | None \<Rightarrow> [])
      in case radio_airtime (srv_radio s) of
           None \<Rightarrow> notice e uid (lit ''No TNC; there is nothing to limit.'') s
         | Some a \<Rightarrow>
             (case msg_param m 2 of
                Some v \<Rightarrow>
                  if what = lit ''DUTY'' then limit_duty e uid a v s
                  else if what = lit ''PACING'' then limit_pacing e uid a v s
                  else limit_usage e uid s
              | None \<Rightarrow> limit_usage e uid s))"

definition radio_kick :: "server_env \<Rightarrow> user_id \<Rightarrow> message \<Rightarrow> server \<Rightarrow> server" where
  "radio_kick e uid m s =
     (case Option.bind (msg_param m 1) parse_ok of
        None \<Rightarrow> notice e uid (lit ''Usage: RADIO KICK <callsign>'') s
      | Some call \<Rightarrow>
          notice e uid (lit ''Station removed.'')
            (quit_user (en_now e) (RfUser call) (lit ''Removed by control operator'') (on_sessions (ban call) s)))"

definition radio_grant :: "server_env \<Rightarrow> user_id \<Rightarrow> message \<Rightarrow> bool \<Rightarrow> server \<Rightarrow> server" where
  "radio_grant e uid m grant s =
     (case msg_param m 1 of
        None \<Rightarrow> notice e uid (lit ''Usage: RADIO '' @ (if grant then lit ''GRANT'' else lit ''REVOKE'') @ lit '' <nick>'') s
      | Some nick \<Rightarrow> grant_rf_tx e uid nick grant s)"

definition cmd_radio :: "server_env \<Rightarrow> user_id \<Rightarrow> message \<Rightarrow> server \<Rightarrow> server" where
  "cmd_radio e uid m s =
     (let sub = to_ascii_uppercase (case msg_param m 0 of Some x \<Rightarrow> x | None \<Rightarrow> lit ''STATUS'')
      in if sub = lit ''STATUS'' then radio_status e uid s
         else if \<not> user_is us_oper s uid then permission_denied uid s
         else if sub = lit ''OFF'' then radio_off e uid s
         else if sub = lit ''ON'' then radio_on e uid s
         else if sub = lit ''ID'' then radio_id e uid s
         else if sub = lit ''HEARD'' then radio_heard e uid s
         else if sub = lit ''DUTY'' then radio_duty e uid s
         else if sub = lit ''QUEUE'' then radio_queue e uid s
         else if sub = lit ''LIMIT'' then radio_limit e uid m s
         else if sub = lit ''MAIL'' then radio_mail e uid s
         else if sub = lit ''KICK'' then radio_kick e uid m s
         else if sub = lit ''GRANT'' then radio_grant e uid m True s
         else if sub = lit ''REVOKE'' then radio_grant e uid m False s
         else notice e uid (lit ''RADIO STATUS | DUTY | QUEUE | LIMIT | ON | OFF | ID | HEARD | MAIL | ''
                @ lit ''KICK <callsign> | GRANT <nick> | REVOKE <nick>'') s)"

section \<open>Access\<close>

definition cmd_kill :: "server_env \<Rightarrow> user_id \<Rightarrow> message \<Rightarrow> server \<Rightarrow> server" where
  "cmd_kill e uid m s =
     (if \<not> user_is us_oper s uid then permission_denied uid s
      else
        (case msg_param m 0 of
           None \<Rightarrow> need_more uid (lit ''KILL'') s
         | Some who \<Rightarrow>
             (let reason = (case msg_param m 1 of Some r \<Rightarrow> r | None \<Rightarrow> lit ''Killed'');
                  why = lit ''Killed ('' @ reason @ lit '')''
              in case find_target s who of
                   None \<Rightarrow> numeric uid ERR_NOSUCHNICK [who, lit ''No such nick''] s
                 | Some t \<Rightarrow>
                     (let s1 = audit (lit ''kill'') [(lit ''nick'', who), (lit ''reason'', reason)] s;
                          s2 = (case t of IpUser i \<Rightarrow> send_raw i (lit ''ERROR :'' @ why) s1 | RfUser _ \<Rightarrow> s1)
                      in quit_user (en_now e) t why s2))))"

definition account_row :: "nick_account \<Rightarrow> ustr" where
  "account_row a =
     na_nick a @ lit ''  '' @ (case na_callsign a of Some c \<Rightarrow> c | None \<Rightarrow> lit ''-'') @ lit ''  ''
     @ (if na_rf_tx a then lit ''yes'' else lit ''no'')"

definition cmd_accounts :: "server_env \<Rightarrow> user_id \<Rightarrow> server \<Rightarrow> server" where
  "cmd_accounts e uid = require_oper uid (\<lambda>s.
     (let rows = list_accounts (srv_accounts s)
      in if rows = [] then notice e uid (lit ''No registered nicks.'') s
         else fold (\<lambda>a. notice e uid (account_row a)) rows (notice e uid (lit ''nick  callsign  rf-tx'') s)))"

definition drop_session :: "server_env \<Rightarrow> user_id \<Rightarrow> server \<Rightarrow> server" where
  "drop_session e t s =
     refresh_privileges (en_now e) t
       (notice e t (lit ''A control operator unregistered this nick.'')
         (set_user t (\<lambda>u. u\<lparr>us_nick_identified := False, us_rf_tx := us_oper u, us_callsign := None\<rparr>) s))"

definition cmd_dropnick :: "server_env \<Rightarrow> user_id \<Rightarrow> message \<Rightarrow> server \<Rightarrow> server" where
  "cmd_dropnick e uid m = require_oper uid (\<lambda>s.
     (case msg_param m 0 of
        None \<Rightarrow> need_more uid (lit ''DROPNICK'') s
      | Some nick \<Rightarrow>
          (case on_accounts (drop_nick (en_json e) (en_fate e (ChDrop nick)) nick) s of
             (Inl x, s1) \<Rightarrow> notice_account_error e uid x s1
           | (Inr _, s1) \<Rightarrow>
               (let s2 = (case find_target s1 nick of Some t \<Rightarrow> drop_session e t s1 | None \<Rightarrow> s1)
                in audit (lit ''dropnick'') [(lit ''nick'', nick)]
                     (notice e uid (lit ''Unregistered '' @ nick @ lit ''.'') s2)))))"

definition cmd_unclaim :: "server_env \<Rightarrow> user_id \<Rightarrow> message \<Rightarrow> server \<Rightarrow> server" where
  "cmd_unclaim e uid m = require_oper uid (\<lambda>s.
     (case msg_param m 0 of
        None \<Rightarrow> need_more uid (lit ''UNCLAIM'') s
      | Some arg \<Rightarrow>
          (case parse_ok arg of
             None \<Rightarrow> notice e uid (lit ''That is not a valid callsign.'') s
           | Some call \<Rightarrow>
               (let c = callsign_to_string call in
                case on_accounts (clear_callsign (en_json e) (en_fate e (ChClear c)) c) s of
                  (Inr owner, s1) \<Rightarrow>
                    (let s2 = strip_callsign_claims (en_now e) call None
                           (lit ''A control operator released callsign '' @ c @ lit ''.'') s1;
                         s3 = notice e uid (lit ''Callsign '' @ c @ lit '' is no longer bound to '' @ owner @ lit ''.'') s2
                     in audit (lit ''unclaim'') [(lit ''call'', c), (lit ''nick'', owner)] s3)
                | (Inl x, s1) \<Rightarrow>
                    if x = AeNotRegistered then notice e uid (lit ''That callsign is not bound to any nick.'') s1
                    else notice_account_error e uid x s1))))"

text \<open>Every other client from the host is disconnected, and never the one who asked.\<close>

definition ban_victims :: "server \<Rightarrow> user_id \<Rightarrow> ustr \<Rightarrow> user_id list" where
  "ban_victims s uid key =
     map (\<lambda>(_, u). us_id u)
       (filter (\<lambda>(_, u). us_id u \<noteq> uid \<and> \<not> user_is_rf u \<and> host_ban_key (us_host u) = key) (st_users (srv_state s)))"

definition expel :: "server_env \<Rightarrow> user_id \<Rightarrow> server \<Rightarrow> server" where
  "expel e v s =
     quit_user (en_now e) v (lit ''Banned'')
       (case v of IpUser i \<Rightarrow> send_raw i (lit ''ERROR :Banned from this server'') s | RfUser _ \<Rightarrow> s)"

definition cmd_kline :: "server_env \<Rightarrow> user_id \<Rightarrow> message \<Rightarrow> server \<Rightarrow> server" where
  "cmd_kline e uid m = require_oper uid (\<lambda>s.
     (case msg_param m 0 of
        None \<Rightarrow> need_more uid (lit ''KLINE'') s
      | Some host \<Rightarrow>
          (let key = host_ban_key host; reason = (case msg_param m 1 of Some r \<Rightarrow> r | None \<Rightarrow> lit ''Banned'') in
           if key = [] then notice e uid (lit ''Usage: KLINE <host> [reason]'') s
           else
             (case on_accounts (ban_ip (en_json e) (en_fate e (ChBan key)) key) s of
                (Inl x, s1) \<Rightarrow> notice_account_error e uid x s1
              | (Inr _, s1) \<Rightarrow>
                  (let s2 = on_admission (admission_ban key) s1;
                       s3 = fold (expel e) (ban_victims s2 uid key) s2;
                       s4 = notice e uid (lit ''Banned '' @ key @ lit '' ('' @ reason @ lit ''). Stored in the nick file.'') s3
                   in audit (lit ''kline'') [(lit ''host'', key), (lit ''reason'', reason)] s4)))))"

definition cmd_unkline :: "server_env \<Rightarrow> user_id \<Rightarrow> message \<Rightarrow> server \<Rightarrow> server" where
  "cmd_unkline e uid m = require_oper uid (\<lambda>s.
     (case msg_param m 0 of
        None \<Rightarrow> need_more uid (lit ''UNKLINE'') s
      | Some host \<Rightarrow>
          (case on_accounts (unban_ip (en_json e) (en_fate e (ChUnban host)) host) s of
             (Inr True, s1) \<Rightarrow>
               (let key = host_ban_key host;
                    s2 = notice e uid (lit ''Removed the ban on '' @ key @ lit ''.'') (on_admission (admission_unban key) s1)
                in audit (lit ''unkline'') [(lit ''host'', key)] s2)
           | (Inr False, s1) \<Rightarrow> notice e uid (lit ''That host is not banned.'') s1
           | (Inl x, s1) \<Rightarrow> notice_account_error e uid x s1)))"

definition cmd_klines :: "server_env \<Rightarrow> user_id \<Rightarrow> server \<Rightarrow> server" where
  "cmd_klines e uid = require_oper uid (\<lambda>s.
     (let bans = so_ip_bans (ac_store (srv_accounts s))
      in if bans = [] then notice e uid (lit ''No IP bans.'') s
         else fold (\<lambda>b. notice e uid (lit ''KLINE '' @ b)) bans s))"

definition cmd_passwd :: "server_env \<Rightarrow> user_id \<Rightarrow> message \<Rightarrow> server \<Rightarrow> server" where
  "cmd_passwd e uid m = require_oper uid (\<lambda>s.
     (case msg_param m 0 of
        None \<Rightarrow> need_more uid (lit ''PASSWD'') s
      | Some arg \<Rightarrow>
          if arg = [] then need_more uid (lit ''PASSWD'') s
          else if eq_ignore_ascii_case arg (lit ''off'')
          then audit (lit ''passwd'') [(lit ''set'', lit ''off'')]
                 (notice e uid (lit ''IRC connection password cleared for this process. A restart reloads the config file.'')
                   (s\<lparr>srv_conn_password := None\<rparr>))
          else audit (lit ''passwd'') [(lit ''set'', lit ''on'')]
                 (notice e uid (lit ''IRC connection password is now required (PASS). Not written to the config file; ''
                    @ lit ''a restart restores whatever is in server.password.'')
                   (s\<lparr>srv_conn_password := Some arg\<rparr>))))"

end
