(* ===== verification/Commands.thy ===== *)
theory Commands
  imports Commands_Registration Commands_Mode Commands_Queries Commands_Operator
begin

text \<open>
  \<open>src/src/server/commands/mod.rs\<close>: what a listen-only connection may ask for, and the dispatcher.
\<close>

definition listen_only_words :: "ustr list" where
  "listen_only_words =
     [lit ''CAP'', lit ''PASS'', lit ''NICK'', lit ''USER'', lit ''QUIT'', lit ''PING'', lit ''PONG'', lit ''JOIN'',
      lit ''PART'', lit ''NAMES'', lit ''LIST'', lit ''WHO'', lit ''WHOIS'', lit ''WHOWAS'', lit ''MOTD'', lit ''LUSERS'',
      lit ''AWAY'', lit ''RADIO'', lit ''VERSION'', lit ''TIME'', lit ''ADMIN'', lit ''INFO'', lit ''HELP'', lit ''STATS'',
      lit ''LINKS'', lit ''ISON'', lit ''USERHOST'']"

definition listen_only_command :: "ustr \<Rightarrow> message \<Rightarrow> bool" where
  "listen_only_command cmd m \<longleftrightarrow>
     cmd \<in> set listen_only_words \<or> (cmd = lit ''MODE'' \<or> cmd = lit ''TOPIC'') \<and> msg_param m 1 = None"

section \<open>The commands that are an arm of the dispatcher\<close>

definition cmd_quit :: "server_env \<Rightarrow> client_id \<Rightarrow> message \<Rightarrow> server \<Rightarrow> server" where
  "cmd_quit e i m s =
     (let reason = (case msg_param m 0 of Some r \<Rightarrow> r | None \<Rightarrow> lit ''Client quit'')
      in quit_user (en_now e) (IpUser i) reason (send_raw i (lit ''ERROR :Closing link ('' @ reason @ lit '')'') s))"

definition cmd_ping :: "client_id \<Rightarrow> message \<Rightarrow> server \<Rightarrow> server" where
  "cmd_ping i m s =
     send_raw i (message_to_string (with_prefix (server_name s)
       (message_new (lit ''PONG'') [server_name s, case msg_param m 0 of Some t \<Rightarrow> t | None \<Rightarrow> []]))) s"

definition own_channels :: "server \<Rightarrow> user_id \<Rightarrow> ustr list" where
  "own_channels s uid =
     (case user_of s uid of
        Some u \<Rightarrow> List.map_filter (\<lambda>k. map_option ch_name (map_of (st_channels (srv_state s)) k)) (us_channels u)
      | None \<Rightarrow> [])"

definition cmd_names :: "user_id \<Rightarrow> message \<Rightarrow> server \<Rightarrow> server" where
  "cmd_names uid m s =
     (case msg_param m 0 of
        Some ch \<Rightarrow> send_names uid ch s
      | None \<Rightarrow>
          if own_channels s uid = [] then numeric uid RPL_ENDOFNAMES [lit ''*'', lit ''End of /NAMES list''] s
          else fold (send_names uid) (own_channels s uid) s)"

definition cmd_away :: "user_id \<Rightarrow> message \<Rightarrow> server \<Rightarrow> server" where
  "cmd_away uid m s =
     (let away = (case msg_param m 0 of Some t \<Rightarrow> if t = [] then None else Some t | None \<Rightarrow> None);
          s1 = set_user uid (\<lambda>u. u\<lparr>us_away := away\<rparr>) s
      in if away \<noteq> None then numeric uid RPL_NOWAWAY [lit ''You have been marked as being away''] s1
         else numeric uid RPL_UNAWAY [lit ''You are no longer marked as being away''] s1)"

section \<open>The dispatcher\<close>

text \<open>The arms of the match, tried in order; the words are distinct.\<close>

definition command_table ::
  "server_env \<Rightarrow> client_id \<Rightarrow> user_id \<Rightarrow> message \<Rightarrow> (string \<times> (server \<Rightarrow> server)) list" where
  "command_table e i uid m =
     [(''CAP'', cmd_cap uid m), (''PASS'', cmd_pass uid m), (''NICK'', cmd_nick e uid m), (''USER'', cmd_user e uid m),
      (''QUIT'', cmd_quit e i m), (''PING'', cmd_ping i m), (''PONG'', id), (''JOIN'', cmd_join e uid m),
      (''PART'', cmd_part e uid m), (''PRIVMSG'', cmd_privmsg e uid m False), (''NOTICE'', cmd_privmsg e uid m True),
      (''TOPIC'', cmd_topic e uid m), (''NAMES'', cmd_names uid m), (''LIST'', cmd_list uid), (''WHO'', cmd_who uid m),
      (''WHOIS'', cmd_whois e uid m), (''WHOWAS'', cmd_whowas uid m), (''ISON'', cmd_ison uid m),
      (''USERHOST'', cmd_userhost uid m), (''VERSION'', cmd_version uid), (''TIME'', cmd_time e uid),
      (''ADMIN'', cmd_admin uid), (''INFO'', cmd_info uid), (''HELP'', cmd_help uid m), (''STATS'', cmd_stats e uid m),
      (''LINKS'', cmd_links uid), (''INVITE'', cmd_invite e uid m), (''MODE'', cmd_mode e uid m), (''MOTD'', send_motd uid),
      (''LUSERS'', send_lusers uid), (''AWAY'', cmd_away uid m), (''OPER'', cmd_oper e uid m),
      (''CALLSIGN'', cmd_callsign e uid m), (''RADIO'', cmd_radio e uid m), (''KICK'', cmd_kick e uid m),
      (''KILL'', cmd_kill e uid m), (''ACCOUNTS'', cmd_accounts e uid), (''DROPNICK'', cmd_dropnick e uid m),
      (''UNCLAIM'', cmd_unclaim e uid m), (''KLINE'', cmd_kline e uid m), (''UNKLINE'', cmd_unkline e uid m),
      (''KLINES'', cmd_klines e uid), (''PASSWD'', cmd_passwd e uid m), (''REGISTER'', cmd_register e uid m),
      (''IDENTIFY'', cmd_identify e uid m), (''UNREGISTER'', cmd_unregister e uid m)]"

definition dispatch :: "server_env \<Rightarrow> client_id \<Rightarrow> message \<Rightarrow> server \<Rightarrow> server" where
  "dispatch e i m s =
     (case find (\<lambda>(w, _). lit w = msg_command m) (command_table e i (IpUser i) m) of
        Some (_, f) \<Rightarrow> f s
      | None \<Rightarrow> numeric (IpUser i) ERR_UNKNOWNCOMMAND [msg_command m, lit ''Unknown command''] s)"

definition unmetered :: "ustr \<Rightarrow> bool" where
  "unmetered cmd \<longleftrightarrow> cmd \<in> {lit ''PONG'', lit ''PING'', lit ''QUIT''}"

definition before_registration :: "ustr \<Rightarrow> bool" where
  "before_registration cmd \<longleftrightarrow>
     cmd \<in> {lit ''PASS'', lit ''NICK'', lit ''USER'', lit ''QUIT'', lit ''PING'', lit ''PONG'', lit ''CAP''}"

definition command_rate_ok :: "server_env \<Rightarrow> client_id \<Rightarrow> message \<Rightarrow> server \<Rightarrow> bool \<times> server" where
  "command_rate_ok e i m s =
     (if unmetered (msg_command m) then (True, s)
      else (let (ok, p) = ip_cmd_rate_ok (show_nat i) (en_now e) (srv_policy s) in (ok, s\<lparr>srv_policy := p\<rparr>)))"

definition handle_client_message :: "server_env \<Rightarrow> client_id \<Rightarrow> message \<Rightarrow> server \<Rightarrow> server" where
  "handle_client_message e i m s0 =
     (let uid = IpUser i; cmd = msg_command m in
      if user_of s0 uid = None then s0
      else
        (case command_rate_ok e i m (set_user uid (\<lambda>u. u\<lparr>us_last_active := en_now e\<rparr>) s0) of
           (False, s) \<Rightarrow>
             audit (lit ''flood_cmd'') [(lit ''id'', show_nat i)]
               (notice e uid (lit ''Slow down: command flood protection.'') s)
         | (True, s) \<Rightarrow>
             if \<not> user_is us_registered s uid \<and> \<not> before_registration cmd
             then numeric uid ERR_NOTREGISTERED [lit ''You have not registered''] s
             else if user_is us_listen_only s uid \<and> \<not> listen_only_command cmd m
             then numeric uid ERR_RESTRICTED
                    [cmd, lit ''This connection is listen-only. Connect with TLS to speak, identify, or control the radio.''] s
             else dispatch e i m s))"

end
