(* ===== verification/Server_Events.thy ===== *)
theory Server_Events
  imports Commands
begin

text \<open>
  \<open>src/src/server/mod.rs\<close>: the events of the server and the loop that handles them. One handler runs to its end before
  the next starts, so a run of the server is a list of events.

  An event carries what the code reads while it handles it: the clocks and the fate of the writes (\<open>server_env\<close>). A
  connection's output queue is its capacity; \<open>AuthFinished\<close> carries the answer of a password job, which the run takes
  from the jobs the server has handed out.
\<close>

datatype event =
    Connected client_id ustr bool nat bool   \<comment> \<open>id, host, listen-only, capacity of the queue, whether it can be hung up\<close>
  | Line client_id ustr
  | Disconnected client_id ustr
  | AuthFinished client_id auth_kind ustr "account_error + unit" "ustr option"
  | Rf ax25_frame
  | Tick
  | Shutdown

section \<open>A connection\<close>

text \<open>The reason for the audit trail, and the line the connection is sent before it is hung up.\<close>

definition connect_refusal :: "ustr \<Rightarrow> server \<Rightarrow> (ustr \<times> ustr) option" where
  "connect_refusal host s =
     (let cap = li_max_clients (cf_listen (srv_config s)); per_host = li_max_conns_per_host (cf_listen (srv_config s))
      in if is_ip_banned (srv_accounts s) host then Some (lit ''kline'', lit ''ERROR :Banned from this server'')
         else if 0 < cap \<and> cap \<le> ip_users (srv_state s)
         then Some (lit ''max_clients'', lit ''ERROR :Server is full (max '' @ show_nat cap @ lit '' clients)'')
         else if 0 < per_host \<and> per_host \<le> ip_count_from_host (srv_state s) host
         then Some (lit ''max_conns_per_host'',
                    lit ''ERROR :Too many connections from '' @ host @ lit '' (max '' @ show_nat per_host @ lit '')'')
         else None)"

definition new_user :: "instant \<Rightarrow> client_id \<Rightarrow> ustr \<Rightarrow> bool \<Rightarrow> user" where
  "new_user now i host listen_only = (user_new (IpUser i) host now)\<lparr>us_listen_only := listen_only\<rparr>"

definition on_connected :: "server_env \<Rightarrow> client_id \<Rightarrow> ustr \<Rightarrow> bool \<Rightarrow> nat \<Rightarrow> bool \<Rightarrow> server \<Rightarrow> server" where
  "on_connected e i host listen_only cap hangup s =
     (case connect_refusal host s of
        Some (why, _) \<Rightarrow> audit (lit ''connect_denied'') [(lit ''host'', host), (lit ''reason'', why)] s
      | None \<Rightarrow>
          (let s1 = s\<lparr>srv_clients := clients_insert i cap hangup (srv_clients s)\<rparr>;
               s2 = on_radio (\<lambda>r. r\<lparr>rd_stats := (rd_stats r)\<lparr>ip_connections := ip_connections (rd_stats r) + 1\<rparr>\<rparr>) s1;
               s3 = audit (lit ''connect'') [(lit ''id'', show_nat i), (lit ''host'', host),
                      (lit ''access'', if listen_only then lit ''listen-only'' else lit ''full'')] s2
           in on_state (insert_user (new_user (en_now e) i host listen_only)) s3))"

definition on_line :: "server_env \<Rightarrow> client_id \<Rightarrow> ustr \<Rightarrow> server \<Rightarrow> server" where
  "on_line e i line s = (case message_parse line of Some m \<Rightarrow> handle_client_message e i m s | None \<Rightarrow> s)"

definition on_disconnected :: "server_env \<Rightarrow> client_id \<Rightarrow> ustr \<Rightarrow> server \<Rightarrow> server" where
  "on_disconnected e i reason s =
     quit_user (en_now e) (IpUser i) reason
       (audit_user (lit ''disconnect'')
          (\<lambda>u. [(lit ''nick'', us_nick u), (lit ''host'', us_host u), (lit ''reason'', reason)]) (IpUser i) s)"

section \<open>The periodic work\<close>

definition warn_nick_store_failures :: "server_env \<Rightarrow> server \<Rightarrow> server" where
  "warn_nick_store_failures e s =
     (let fails = ac_fail (srv_accounts s) in
      if fails \<le> srv_fail_seen s then s
      else notice_opers (en_now e) (lit ''Nick database write failed; registrations and grants in this process may not ''
             @ lit ''survive a restart. Check disk and permissions.'')
             (audit (lit ''nicks_write_failed'') [(lit ''count'', show_nat fails)] (s\<lparr>srv_fail_seen := fails\<rparr>)))"

definition ids_where :: "(user \<Rightarrow> bool) \<Rightarrow> server \<Rightarrow> user_id list" where
  "ids_where P s = map (\<lambda>(_, u). us_id u) (filter (\<lambda>(_, u). P u) (st_users (srv_state s)))"

definition close_with :: "server_env \<Rightarrow> ustr \<Rightarrow> ustr \<Rightarrow> user_id \<Rightarrow> server \<Rightarrow> server" where
  "close_with e line reason uid s =
     quit_user (en_now e) uid reason (case uid of IpUser i \<Rightarrow> send_raw i line s | RfUser _ \<Rightarrow> s)"

definition expire_unregistered :: "server_env \<Rightarrow> server \<Rightarrow> server" where
  "expire_unregistered e s =
     (let limit = from_secs (li_registration_timeout_secs (cf_listen (srv_config s)))
      in fold (close_with e (lit ''ERROR :Registration timeout'') (lit ''Registration timeout''))
           (ids_where (\<lambda>u. \<not> us_registered u \<and> \<not> user_is_rf u \<and> limit < en_now e - us_connected_at u) s) s)"

definition identify_overdue :: "instant \<Rightarrow> user \<Rightarrow> bool" where
  "identify_overdue now u \<longleftrightarrow>
     \<not> user_is_rf u \<and> \<not> us_nick_identified u \<and> (case us_identify_by u of Some t \<Rightarrow> t \<le> now | None \<Rightarrow> False)"

definition identify_timeout_quit :: "server_env \<Rightarrow> user_id \<Rightarrow> server \<Rightarrow> server" where
  "identify_timeout_quit e uid s =
     close_with e (lit ''ERROR :Identify timeout on a registered nick'') (lit ''Identify timeout'') uid
       (notice e uid (lit ''This nick is registered. Disconnecting.'') s)"

definition release_nick :: "server_env \<Rightarrow> user_id \<Rightarrow> server \<Rightarrow> server" where
  "release_nick e uid s0 =
     (let old = user_text us_nick s0 uid;
          guest = guest_nick (case uid of IpUser i \<Rightarrow> i | RfUser _ \<Rightarrow> 0) (sv_max_nick_len (cf_server (srv_config s0)));
          s = set_user uid (\<lambda>u. u\<lparr>us_identify_by := None, us_callsign := None\<rparr>) s0
      in if nick_taken (srv_state s) guest then identify_timeout_quit e uid s
         else
           (let prefix = user_text user_prefix s uid in
            case set_nick uid guest (srv_state s) of
              (False, st) \<Rightarrow> identify_timeout_quit e uid (s\<lparr>srv_state := st\<rparr>)
            | (True, st) \<Rightarrow>
                (let s1 = broadcast_peers (en_now e) uid (DNick old prefix guest) True (s\<lparr>srv_state := st\<rparr>);
                     s2 = notice e uid (old @ lit '' is registered. Your nick is now '' @ guest @ lit ''. IDENTIFY to reclaim it.'') s1
                 in audit (lit ''identify_timeout'') [(lit ''old'', old), (lit ''guest'', guest)]
                      (refresh_privileges (en_now e) uid s2))))"

definition expire_unidentified :: "server_env \<Rightarrow> server \<Rightarrow> server" where
  "expire_unidentified e s = fold (release_nick e) (ids_where (identify_overdue (en_now e)) s) s"

definition lose_station :: "server_env \<Rightarrow> callsign \<Rightarrow> server \<Rightarrow> server" where
  "lose_station e call s =
     (if user_of s (RfUser call) \<noteq> None then quit_user (en_now e) (RfUser call) (lit ''Signal lost'') s else s)"

definition retry_sessions :: "server_env \<Rightarrow> server \<Rightarrow> server" where
  "retry_sessions e s0 =
     (let s = on_radio (drain_keyed (en_now e)) s0; r = srv_radio s;
          (out, ss) = tick_retries (en_now e) (available r \<and> \<not> interlock_down r) (rd_sessions r);
          s1 = fold (\<lambda>(c, f). on_radio (transmit_to c f (en_now e))) (tk_transmit out) (on_sessions (\<lambda>_. ss) s)
      in fold (lose_station e) (tk_lost out) s1)"

definition on_tick :: "server_env \<Rightarrow> server \<Rightarrow> server" where
  "on_tick e s0 =
     (let now = en_now e; s1 = retry_sessions e s0;
          s2 = s1\<lparr>srv_policy := policy_expire now (srv_policy s1)\<rparr>;
          s3 = on_radio (\<lambda>r. tick_aprs now (expire_aprs_msgids now r)) s2;
          s4 = on_radio (\<lambda>r. r\<lparr>rd_mailbox := snd (mail_expire now (rd_mailbox r))\<rparr>) s3;
          s5 = on_radio (maybe_identify now) s4
      in warn_nick_store_failures e (expire_unidentified e (expire_unregistered e s5)))"

definition on_shutdown :: "server_env \<Rightarrow> server \<Rightarrow> server" where
  "on_shutdown e s0 =
     (let s = on_radio (id_if_needed (en_now e)) s0
      in fold (\<lambda>i. send_raw i (lit ''ERROR :Server shutting down'')) (clients_ids (srv_clients s)) s)"

section \<open>One event\<close>

definition reap_station :: "server_env \<Rightarrow> callsign \<Rightarrow> server \<Rightarrow> server" where
  "reap_station e call s =
     (if user_of s (RfUser call) \<noteq> None then quit_user (en_now e) (RfUser call) (lit ''Replaced'') s else s)"

definition reap_evicted_peers :: "server_env \<Rightarrow> server \<Rightarrow> server" where
  "reap_evicted_peers e s =
     (let (calls, ss) = take_evicted (rd_sessions (srv_radio s)) in fold (reap_station e) calls (on_sessions (\<lambda>_. ss) s))"

text \<open>A refused connection returns from the handler at once, and the eviction waits for the next event.\<close>

definition handle_event :: "server_env \<Rightarrow> event \<Rightarrow> server \<Rightarrow> server" where
  "handle_event e ev s =
     (case ev of
        Connected i host listen_only cap hangup \<Rightarrow>
          if connect_refusal host s \<noteq> None then on_connected e i host listen_only cap hangup s
          else reap_evicted_peers e (on_connected e i host listen_only cap hangup s)
      | Line i line \<Rightarrow> reap_evicted_peers e (on_line e i line s)
      | Disconnected i reason \<Rightarrow> reap_evicted_peers e (on_disconnected e i reason s)
      | AuthFinished i kind nick result hash \<Rightarrow> reap_evicted_peers e (finish_auth e i kind nick result hash s)
      | Rf f \<Rightarrow> reap_evicted_peers e (handle_rf_frame (en_now e) f s)
      | Tick \<Rightarrow> reap_evicted_peers e (on_tick e s)
      | Shutdown \<Rightarrow> reap_evicted_peers e (on_shutdown e s))"

text \<open>\<open>run\<close>: the events in the order in which they are received, up to and with the first shutdown.\<close>

fun server_run :: "(server_env \<times> event) list \<Rightarrow> server \<Rightarrow> server" where
  "server_run [] s = s"
| "server_run ((e, ev) # evs) s =
     (if ev = Shutdown then handle_event e ev s else server_run evs (handle_event e ev s))"

end
