(* ===== verification/Server_Moves.thy ===== *)
theory Server_Moves
  imports Server_Events Server_State_Proofs Radio_Spec Policy_Proofs Accounts_Proofs
begin

text \<open>
  What a handler of the server may change. \<open>moves C a s\<close> says that \<open>s\<close> comes from \<open>a\<close> by single changes of the server's
  parts, each of them harmless or allowed by a permission in \<open>C\<close>: the radio, its switches, the accounts, the rank of a
  user, a password job for a client. A handler is shown once to make only such changes (\<open>Server_Frames\<close>,
  \<open>Command_Frames\<close>), and what holds of the server follows by induction on \<open>moves\<close>.
\<close>

named_theorems moves_intros \<open>a handler makes only the changes it is permitted\<close>

datatype rank = RkOper | RkOwner | RkNew   \<comment> \<open>an operator, the identified owner of a nick, a client that is new\<close>

datatype permission =
    PmRadio | PmControl | PmAccounts
  | PmRaise rank user_id
  | PmJob client_id   \<comment> \<open>to hand out a password job for this client\<close>

section \<open>Rank\<close>

text \<open>What a change of a user may be, if \<open>P\<close> says who may be raised to what.\<close>

definition below :: "(rank \<times> user_id) set \<Rightarrow> user_id \<Rightarrow> user \<Rightarrow> user \<Rightarrow> bool" where
  "below P i u v \<longleftrightarrow> (us_oper v \<longrightarrow> us_oper u \<or> (RkOper, i) \<in> P)
     \<and> (us_nick_identified v \<longrightarrow> us_nick_identified u \<or> (RkOwner, i) \<in> P)
     \<and> us_listen_only v = us_listen_only u"

text \<open>The users of the Internet side; a station's user has no use for a rank.\<close>

definition user_kept :: "(rank \<times> user_id) set \<Rightarrow> user_id \<Rightarrow> user option \<Rightarrow> user \<Rightarrow> bool" where
  "user_kept P i old v \<longleftrightarrow>
     id_is_rf i \<or> (case old of Some u \<Rightarrow> below P i u v | None \<Rightarrow> False)
     \<or> (RkNew, i) \<in> P \<and> (us_oper v \<longrightarrow> (RkOper, i) \<in> P) \<and> (us_nick_identified v \<longrightarrow> (RkOwner, i) \<in> P)"

definition ranks_kept :: "(rank \<times> user_id) set \<Rightarrow> irc_state \<Rightarrow> irc_state \<Rightarrow> bool" where
  "ranks_kept P st st' \<longleftrightarrow> (\<forall>i v. map_of (st_users st') i = Some v \<longrightarrow> user_kept P i (map_of (st_users st) i) v)"

lemma below_refl [simp]: "below P i u u"
  by (simp add: below_def)

lemma below_trans: "below P i u v \<Longrightarrow> below P i v w \<Longrightarrow> below P i u w"
  by (auto simp: below_def)

lemma user_kept_trans: "user_kept P i old v \<Longrightarrow> below P i v w \<Longrightarrow> user_kept P i old w"
  by (cases old) (auto simp: user_kept_def below_def)

lemma user_kept_same [simp]: "user_kept P i (Some u) u"
  by (simp add: user_kept_def)

lemma ranks_kept_refl [simp]: "ranks_kept P st st"
  by (simp add: ranks_kept_def)

lemma ranks_kept_trans:
  assumes "ranks_kept P a b" "ranks_kept P b c"
  shows "ranks_kept P a c"
  unfolding ranks_kept_def
proof (intro allI impI)
  fix i w assume w: "map_of (st_users c) i = Some w"
  then have bc: "user_kept P i (map_of (st_users b) i) w"
    using assms(2) by (simp add: ranks_kept_def)
  show "user_kept P i (map_of (st_users a) i) w"
  proof (cases "map_of (st_users b) i")
    case None
    then show ?thesis using bc by (auto simp: user_kept_def)
  next
    case (Some v)
    then have "user_kept P i (map_of (st_users a) i) v"
      using assms(1) by (simp add: ranks_kept_def)
    moreover have "below P i v w \<or> user_kept P i None w"
      using bc Some by (auto simp: user_kept_def)
    moreover have "user_kept P i None w \<Longrightarrow> user_kept P i (map_of (st_users a) i) w"
      by (auto simp: user_kept_def)
    ultimately show ?thesis using user_kept_trans by blast
  qed
qed

lemma ranks_kept_mono: "ranks_kept P st st' \<Longrightarrow> P \<subseteq> Q \<Longrightarrow> ranks_kept Q st st'"
  unfolding ranks_kept_def user_kept_def below_def by (fastforce split: option.splits)

lemma ranks_kept_same: "st_users st' = st_users st \<Longrightarrow> ranks_kept P st st'"
  by (simp add: ranks_kept_def)

lemma ranks_kept_put:
  "map_of (st_users st) i = Some u \<Longrightarrow> below P i u v \<Longrightarrow> st_users st' = AList.update i v (st_users st)
   \<Longrightarrow> ranks_kept P st st'"
  by (auto simp: ranks_kept_def user_kept_def update_conv')

abbreviation raises :: "permission set \<Rightarrow> (rank \<times> user_id) set" where
  "raises C \<equiv> {(r, i). PmRaise r i \<in> C}"

section \<open>The relation\<close>

text \<open>The operator's switches: the transmitter, the inhibit, and the two overrides of the airtime governor.\<close>

definition switches :: "radio \<Rightarrow> bool \<times> (bool \<times> nat \<times> nat) option" where
  "switches r =
     (rd_enabled r,
      map_option (\<lambda>(_, t). (sh_inhibit (tn_shared t), sh_duty_pct_override (tn_shared t), sh_pacing_ms_override (tn_shared t)))
        (rd_tnc r))"

lemma tnc_enqueue_switches:
  "tnc_enqueue tc ax k acc ex now t = (b, t') \<Longrightarrow>
     sh_inhibit (tn_shared t') = sh_inhibit (tn_shared t) \<and>
     sh_duty_pct_override (tn_shared t') = sh_duty_pct_override (tn_shared t) \<and>
     sh_pacing_ms_override (tn_shared t') = sh_pacing_ms_override (tn_shared t)"
  by (auto simp: tnc_enqueue_def Let_def publish_def publish_queue_def split: sum.splits prod.splits)

interpretation switched: radio_relation "\<lambda>r r'. switches r' = switches r"
proof
  show "switches (enqueue_ui dst body cls ex acc now r) = switches r" for dst body cls ex acc now r
    by (auto simp: enqueue_ui_def switches_def split: option.split prod.split sum.split bool.split
        dest!: tnc_enqueue_switches)
qed (simp_all add: switches_def note_refused_def)

lemma switches_kept: "\<not> is_id_op op \<Longrightarrow> \<not> is_link_op op \<Longrightarrow> \<not> is_switch_op op \<Longrightarrow> switches (radio_step op now r) = switches r"
  by (rule switched.traffic) auto


text \<open>What the components keep, for the whole server.\<close>

definition server_ok :: "server \<Rightarrow> bool" where
  "server_ok s \<longleftrightarrow> st_ok (srv_state s) \<and> radio_ok (srv_radio s) \<and> store_ok (ac_store (srv_accounts s)) \<and> policy_ok (srv_policy s)"

inductive moves :: "permission set \<Rightarrow> server \<Rightarrow> server \<Rightarrow> bool" for C :: "permission set" and a :: server where
  here: "moves C a a"
| clients: "moves C a s \<Longrightarrow> moves C a (s\<lparr>srv_clients := c\<rparr>)"
| trail: "moves C a s \<Longrightarrow> moves C a (s\<lparr>srv_audit := l\<rparr>)"
| conn_password: "moves C a s \<Longrightarrow> moves C a (s\<lparr>srv_conn_password := w\<rparr>)"
| air_notices: "moves C a s \<Longrightarrow> moves C a (s\<lparr>srv_air_notices := n\<rparr>)"
| fail_seen: "moves C a s \<Longrightarrow> moves C a (s\<lparr>srv_fail_seen := k\<rparr>)"
| admission: "moves C a s \<Longrightarrow> moves C a (s\<lparr>srv_admission := ad\<rparr>)"
| overflow: "moves C a s \<Longrightarrow> moves C a (s\<lparr>srv_overflow := b\<rparr>)"
| policy: "moves C a s \<Longrightarrow> (policy_ok (srv_policy s) \<Longrightarrow> policy_ok p) \<Longrightarrow> moves C a (s\<lparr>srv_policy := p\<rparr>)"
| state: "moves C a s \<Longrightarrow> (st_ok (srv_state s) \<Longrightarrow> st_ok st) \<Longrightarrow> ranks_kept (raises C) (srv_state s) st
    \<Longrightarrow> moves C a (s\<lparr>srv_state := st\<rparr>)"
| radio: "moves C a s \<Longrightarrow> PmRadio \<in> C \<Longrightarrow> (radio_ok (srv_radio s) \<Longrightarrow> radio_ok r)
    \<Longrightarrow> PmControl \<in> C \<or> switches r = switches (srv_radio s) \<Longrightarrow> moves C a (s\<lparr>srv_radio := r\<rparr>)"
| accounts: "moves C a s \<Longrightarrow> PmAccounts \<in> C \<Longrightarrow> (store_ok (ac_store (srv_accounts s)) \<Longrightarrow> store_ok (ac_store acc))
    \<Longrightarrow> moves C a (s\<lparr>srv_accounts := acc\<rparr>)"
| jobs: "moves C a s \<Longrightarrow> (\<And>j. j \<in> set js \<Longrightarrow> j \<in> set (srv_jobs s) \<or> PmJob (job_client j) \<in> C)
    \<Longrightarrow> moves C a (s\<lparr>srv_jobs := js\<rparr>)"

section \<open>What follows of a server that moved\<close>

lemma moves_ok: "moves C a s \<Longrightarrow> server_ok a \<Longrightarrow> server_ok s"
  by (induction rule: moves.induct) (auto simp: server_ok_def)

lemma moves_config: "moves C a s \<Longrightarrow> srv_config s = srv_config a"
  by (induction rule: moves.induct) auto

lemma moves_radio: "moves C a s \<Longrightarrow> PmRadio \<notin> C \<Longrightarrow> srv_radio s = srv_radio a"
  by (induction rule: moves.induct) auto

lemma moves_switches: "moves C a s \<Longrightarrow> PmControl \<notin> C \<Longrightarrow> switches (srv_radio s) = switches (srv_radio a)"
  by (induction rule: moves.induct) auto

lemma moves_accounts: "moves C a s \<Longrightarrow> PmAccounts \<notin> C \<Longrightarrow> srv_accounts s = srv_accounts a"
  by (induction rule: moves.induct) auto

lemma moves_ranks: "moves C a s \<Longrightarrow> ranks_kept (raises C) (srv_state a) (srv_state s)"
  by (induction rule: moves.induct) (auto intro: ranks_kept_trans)

lemma moves_jobs: "moves C a s \<Longrightarrow> j \<in> set (srv_jobs s) \<Longrightarrow> j \<in> set (srv_jobs a) \<or> PmJob (job_client j) \<in> C"
  by (induction rule: moves.induct) auto

lemma moves_trans: "moves C b c \<Longrightarrow> moves C a b \<Longrightarrow> moves C a c"
  by (induction rule: moves.induct) (auto intro: moves.intros)

lemma moves_mono: "moves C a s \<Longrightarrow> C \<subseteq> D \<Longrightarrow> moves D a s"
proof (induction rule: moves.induct)
  case (state s st)
  then have "ranks_kept (raises D) (srv_state s) st" by (auto elim: ranks_kept_mono)
  then show ?case using state by (auto intro: moves.state)
qed (auto intro: moves.intros)

section \<open>The operations of the chat state keep ranks\<close>

named_theorems rank_intros \<open>an operation of the state keeps everybody's rank\<close>

lemma reap_ranks [simp]: "ranks_kept P st (reap_channel k s) = ranks_kept P st s"
  by (simp add: ranks_kept_def)

lemma user_mut_ranks [rank_intros]:
  "(\<And>u. below P i u (f u)) \<Longrightarrow> ranks_kept P st (user_mut i f st)"
  by (auto simp: user_mut_def split: option.split intro!: ranks_kept_put)

lemma set_nick_ranks [rank_intros]: "ranks_kept P st (snd (set_nick i n st))"
  by (auto simp: set_nick_def Let_def ranks_kept_def user_kept_def below_def update_conv' split: option.split)

lemma channel_mut_ranks [rank_intros]: "ranks_kept P st (channel_mut n f st)"
  by (auto simp: channel_mut_def intro: ranks_kept_same split: option.split)

lemma ensure_channel_ranks [rank_intros]: "ranks_kept P st (ensure_channel n rf st)"
  by (simp add: ensure_channel_def ranks_kept_same)

lemma join_ranks [rank_intros]: "ranks_kept P st (snd (st_join i n st))"
  by (auto simp: st_join_def Let_def ranks_kept_def user_kept_def below_def update_conv' split: option.split)

lemma flags_ranks [rank_intros]: "ranks_kept P st (snd (apply_intended_flags i n st))"
  by (auto simp: apply_intended_flags_def Let_def intro: ranks_kept_same split: option.split)

lemma part_ranks [rank_intros]: "ranks_kept P st (snd (st_part i n st))"
proof -
  have "ranks_kept P st (user_mut i (\<lambda>u. u\<lparr>us_channels := f u\<rparr>) (st\<lparr>st_channels := x\<rparr>))" for f x
    by (rule ranks_kept_trans [OF ranks_kept_same user_mut_ranks]) (simp_all add: below_def)
  then show ?thesis by (simp add: st_part_def Let_def split: option.split)
qed

lemma remove_ranks [rank_intros]: "ranks_kept P st (snd (remove_user i st))"
  by (auto simp: remove_user_def drop_members_users ranks_kept_def delete_conv' split: option.split)

end
