(* ===== verification/Server_Frames.thy ===== *)
theory Server_Frames
  imports Server_Moves
begin

text \<open>
  What the handlers of \<open>Server\<close> and \<open>Bridge\<close> change. One rule per way of building a handler (a test, a match, a
  \<open>let\<close>, a loop), one per handler; a handler's rule is proved by applying the rules of its parts.
\<close>

section \<open>Ways of building a handler\<close>

lemma move_let_server:
  "moves C a t \<Longrightarrow> (\<And>x. moves C a x \<Longrightarrow> moves C a (f x)) \<Longrightarrow> moves C a (let x = t :: server in f x)"
  by simp

lemma move_pair_server:
  "moves C a (snd p) \<Longrightarrow> (\<And>b y. moves C a y \<Longrightarrow> moves C a (f b y)) \<Longrightarrow> moves C a (case p of (b :: 'b, y :: server) \<Rightarrow> f b y)"
  by (cases p) simp

lemma move_let: "moves C a (f t) \<Longrightarrow> moves C a (let x = t in f x)"
  by simp

lemma move_pair: "moves C a (f (fst p) (snd p)) \<Longrightarrow> moves C a (case p of (b, y) \<Rightarrow> f b y)"
  by (cases p) simp

lemma move_pair_step: "moves C a (f (fst p) (snd p) s) \<Longrightarrow> moves C a ((case p of (b, y) \<Rightarrow> f b y) s)"
  by (cases p) simp

lemma move_if: "(b \<Longrightarrow> moves C a x) \<Longrightarrow> (\<not> b \<Longrightarrow> moves C a y) \<Longrightarrow> moves C a (if b then x else y)"
  by simp

lemma move_if_step: "(b \<Longrightarrow> moves C a (f s)) \<Longrightarrow> (\<not> b \<Longrightarrow> moves C a (g s)) \<Longrightarrow> moves C a ((if b then f else g) s)"
  by simp

lemma move_bool: "(b \<Longrightarrow> moves C a x) \<Longrightarrow> (\<not> b \<Longrightarrow> moves C a y) \<Longrightarrow> moves C a (case b of True \<Rightarrow> x | False \<Rightarrow> y)"
  by (cases b) simp_all

lemma move_option:
  "(x = None \<Longrightarrow> moves C a n) \<Longrightarrow> (\<And>y. x = Some y \<Longrightarrow> moves C a (f y)) \<Longrightarrow> moves C a (case x of None \<Rightarrow> n | Some y \<Rightarrow> f y)"
  by (cases x) simp_all

lemma move_sum:
  "(\<And>y. moves C a (f y)) \<Longrightarrow> (\<And>y. moves C a (g y)) \<Longrightarrow> moves C a (case x of Inl y \<Rightarrow> f y | Inr y \<Rightarrow> g y)"
  by (cases x) simp_all

lemma move_list:
  "moves C a n \<Longrightarrow> (\<And>y ys. moves C a (f y ys)) \<Longrightarrow> moves C a (case x of [] \<Rightarrow> n | y # ys \<Rightarrow> f y ys)"
  by (cases x) simp_all

lemma move_user_id:
  "(\<And>i. x = IpUser i \<Longrightarrow> moves C a (f i)) \<Longrightarrow> (\<And>c. x = RfUser c \<Longrightarrow> moves C a (g c))
   \<Longrightarrow> moves C a (case x of IpUser i \<Rightarrow> f i | RfUser c \<Rightarrow> g c)"
  by (cases x) simp_all

lemma move_user_id_step:
  "(\<And>i. x = IpUser i \<Longrightarrow> moves C a (f i s)) \<Longrightarrow> (\<And>c. x = RfUser c \<Longrightarrow> moves C a (g c s))
   \<Longrightarrow> moves C a ((case x of IpUser i \<Rightarrow> f i | RfUser c \<Rightarrow> g c) s)"
  by (cases x) simp_all

lemma move_emission:
  "(\<And>n t x b u. moves C a (f n t x b u)) \<Longrightarrow> (\<And>n c t. moves C a (g n c t)) \<Longrightarrow> (\<And>n c b. moves C a (h n c b))
   \<Longrightarrow> moves C a (case x of EChat n t x b u \<Rightarrow> f n t x b u | ETopic n c t \<Rightarrow> g n c t | EPresence n c b \<Rightarrow> h n c b)"
  by (cases x) simp_all

lemma move_verdict:
  "(\<And>t. moves C a (f t)) \<Longrightarrow> (\<And>t. moves C a (g t)) \<Longrightarrow> (\<And>t. moves C a (h t))
   \<Longrightarrow> moves C a (case x of Allow t \<Rightarrow> f t | verdict.Truncated t \<Rightarrow> g t | Deny t \<Rightarrow> h t)"
  by (cases x) simp_all

lemma move_fold:
  "(\<And>x s. x \<in> set xs \<Longrightarrow> moves C a s \<Longrightarrow> moves C a (f x s)) \<Longrightarrow> moves C a s \<Longrightarrow> moves C a (fold f xs s)"
  by (induction xs arbitrary: s) auto

lemma move_id: "moves C a s \<Longrightarrow> moves C a (id s)"
  by simp

text \<open>A handler that returns something beside the server.\<close>

lemma move_snd: "moves C a y \<Longrightarrow> moves C a (snd (x, y))"
  by simp

lemma move_snd_if:
  "(b \<Longrightarrow> moves C a (snd x)) \<Longrightarrow> (\<not> b \<Longrightarrow> moves C a (snd y)) \<Longrightarrow> moves C a (snd (if b then x else y))"
  by simp

lemma move_snd_option:
  "(x = None \<Longrightarrow> moves C a (snd n)) \<Longrightarrow> (\<And>y. x = Some y \<Longrightarrow> moves C a (snd (f y)))
   \<Longrightarrow> moves C a (snd (case x of None \<Rightarrow> n | Some y \<Rightarrow> f y))"
  by (cases x) simp_all

lemma move_snd_let_server:
  "moves C a t \<Longrightarrow> (\<And>x. moves C a x \<Longrightarrow> moves C a (snd (f x))) \<Longrightarrow> moves C a (snd (let x = t :: server in f x))"
  by simp

lemma move_snd_pair_server:
  "moves C a (snd p) \<Longrightarrow> (\<And>b y. moves C a y \<Longrightarrow> moves C a (snd (f b y)))
   \<Longrightarrow> moves C a (snd (case p of (b :: 'b, y :: server) \<Rightarrow> f b y))"
  by (cases p) simp

lemma move_snd_let: "moves C a (snd (f t)) \<Longrightarrow> moves C a (snd (let x = t in f x))"
  by simp

lemma move_snd_pair: "moves C a (snd (f (fst p) (snd p))) \<Longrightarrow> moves C a (snd (case p of (b, y) \<Rightarrow> f b y))"
  by (cases p) simp

lemmas move_snd_forms = move_snd move_snd_if move_snd_option move_snd_let_server move_snd_pair_server move_snd_let move_snd_pair

lemma moves_shape:
  "moves C a s \<Longrightarrow> moves C a (s\<lparr>srv_clients := c\<rparr>)"
  "moves C a s \<Longrightarrow> moves C a (s\<lparr>srv_audit := l\<rparr>)"
  "moves C a s \<Longrightarrow> moves C a (s\<lparr>srv_conn_password := w\<rparr>)"
  "moves C a s \<Longrightarrow> moves C a (s\<lparr>srv_air_notices := n\<rparr>)"
  "moves C a s \<Longrightarrow> moves C a (s\<lparr>srv_fail_seen := k\<rparr>)"
  "moves C a s \<Longrightarrow> moves C a (s\<lparr>srv_admission := ad\<rparr>)"
  "moves C a s \<Longrightarrow> moves C a (s\<lparr>srv_overflow := b\<rparr>)"
  by (simp_all add: moves.intros)

lemmas move_forms = move_let_server move_pair_server move_if move_if_step move_bool move_option move_sum move_list
  move_snd_forms move_user_id move_user_id_step move_emission move_verdict move_fold move_id move_let move_pair move_pair_step moves_shape

section \<open>The three components with an invariant\<close>

text \<open>\<open>state_fine\<close>, \<open>radio_fine\<close> and \<open>policy_fine\<close>: what a change of one component must be for the rules of \<open>moves\<close>.\<close>

definition state_fine :: "(rank \<times> user_id) set \<Rightarrow> irc_state \<Rightarrow> irc_state \<Rightarrow> bool" where
  "state_fine P st st' \<longleftrightarrow> (st_ok st \<longrightarrow> st_ok st') \<and> ranks_kept P st st'"

definition radio_fine :: "radio \<Rightarrow> radio \<Rightarrow> bool" where
  "radio_fine r r' \<longleftrightarrow> (radio_ok r \<longrightarrow> radio_ok r') \<and> switches r' = switches r"

definition policy_fine :: "policy \<Rightarrow> policy \<Rightarrow> bool" where
  "policy_fine p p' \<longleftrightarrow> (policy_ok p \<longrightarrow> policy_ok p')"

lemma fine_refl [simp]: "state_fine P st st" "radio_fine r r" "policy_fine p p"
  by (simp_all add: state_fine_def radio_fine_def policy_fine_def)

lemma state_fine_trans: "state_fine P a b \<Longrightarrow> state_fine P b c \<Longrightarrow> state_fine P a c"
  unfolding state_fine_def using ranks_kept_trans by blast

lemma radio_fine_trans: "radio_fine a b \<Longrightarrow> radio_fine b c \<Longrightarrow> radio_fine a c"
  by (simp add: radio_fine_def)

lemma move_state [moves_intros]:
  "moves C a s \<Longrightarrow> state_fine (raises C) (srv_state s) st \<Longrightarrow> moves C a (s\<lparr>srv_state := st\<rparr>)"
  by (auto simp: state_fine_def intro: moves.state)

lemma move_on_state [moves_intros]:
  "moves C a s \<Longrightarrow> state_fine (raises C) (srv_state s) (f (srv_state s)) \<Longrightarrow> moves C a (on_state f s)"
  by (simp add: on_state_def move_state)

lemma move_radio [moves_intros]:
  "moves C a s \<Longrightarrow> PmRadio \<in> C \<Longrightarrow> radio_fine (srv_radio s) r \<Longrightarrow> moves C a (s\<lparr>srv_radio := r\<rparr>)"
  by (auto simp: radio_fine_def intro: moves.radio)

lemma move_on_radio [moves_intros]:
  "moves C a s \<Longrightarrow> PmRadio \<in> C \<Longrightarrow> radio_fine (srv_radio s) (f (srv_radio s)) \<Longrightarrow> moves C a (on_radio f s)"
  by (simp add: on_radio_def move_radio)

lemma move_policy [moves_intros]:
  "moves C a s \<Longrightarrow> policy_fine (srv_policy s) p \<Longrightarrow> moves C a (s\<lparr>srv_policy := p\<rparr>)"
  by (auto simp: policy_fine_def intro: moves.policy)

lemma move_sessions [moves_intros]:
  "moves C a s \<Longrightarrow> PmRadio \<in> C \<Longrightarrow> (sessions_ok (rd_sessions (srv_radio s)) \<Longrightarrow> sessions_ok (f (rd_sessions (srv_radio s))))
   \<Longrightarrow> moves C a (on_sessions f s)"
  by (auto simp: on_sessions_def radio_fine_def switches_def radio_ok_sessions radio_okD(1) intro!: move_on_radio)

lemma move_accounts [moves_intros]:
  "moves C a s \<Longrightarrow> PmAccounts \<in> C \<Longrightarrow> (store_ok (ac_store (srv_accounts s)) \<longrightarrow> store_ok (ac_store acc))
    \<Longrightarrow> moves C a (s\<lparr>srv_accounts := acc\<rparr>)"
  by (auto intro: moves.accounts)

subsection \<open>The state\<close>

lemma lower_no_nick: "lower n = no_nick \<longleftrightarrow> n = no_nick"
  by (auto simp: no_nick_def lit_def lower_def lower_char_def is_ascii_uppercase_def to_lower_def split: if_splits)

lemma fine_ops [rank_intros]:
  "lower n \<noteq> no_nick \<Longrightarrow> state_fine P st x \<Longrightarrow> state_fine P st (snd (set_nick i n x))"
  "state_fine P st x \<Longrightarrow> state_fine P st (ensure_channel n rf x)"
  "state_fine P st x \<Longrightarrow> state_fine P st (snd (st_join i n x))"
  "state_fine P st x \<Longrightarrow> state_fine P st (snd (apply_intended_flags i n x))"
  "state_fine P st x \<Longrightarrow> state_fine P st (snd (st_part i n x))"
  "state_fine P st x \<Longrightarrow> state_fine P st (snd (remove_user i x))"
  "keeps_channel g \<Longrightarrow> state_fine P st x \<Longrightarrow> state_fine P st (channel_mut n g x)"
  by (erule state_fine_trans; auto simp: state_fine_def rank_intros set_nick_inv ensure_channel_inv join_inv
      apply_flags_inv part_inv remove_user_inv channel_mut_inv | assumption)+


lemma fine_user_mut [rank_intros]:
  "keeps_user g \<Longrightarrow> (\<And>u. below P i u (g u)) \<Longrightarrow> state_fine P st x \<Longrightarrow> state_fine P st (user_mut i g x)"
  by (erule state_fine_trans) (simp add: state_fine_def user_mut_inv user_mut_ranks)

lemma move_set_user [moves_intros]:
  "moves C a s \<Longrightarrow> keeps_user g \<Longrightarrow> (\<And>u. below (raises C) i u (g u)) \<Longrightarrow> moves C a (set_user i g s)"
  unfolding set_user_def by (rule move_on_state) (auto intro!: fine_user_mut)

subsection \<open>The policy\<close>

lemma fine_policy [moves_intros]:
  "policy_fine p (snd (rf_station_rate_ok c now p))" "policy_fine p (snd (first_contact_ok now p))"
  "policy_fine p (snd (ip_rate_ok k now p))" "policy_fine p (snd (rf_channel_rate_ok k now p))"
  "policy_fine p (snd (ip_cmd_rate_ok k now p))" "policy_fine p (snd (identify_rate_ok k now p))"
  "policy_fine p (snd (topic_rate_ok k now p))" "policy_fine p (snd (presence_rate_ok k now p))"
  "policy_fine p (policy_expire now p)"
  by (auto simp: policy_fine_def policy_op_defs policy_ok_def case_prod_unfold Let_def limiter_check_ok limiter_expire_ok)

subsection \<open>The radio\<close>

lemma send_id_switches: "switches (snd (send_id now r)) = switches r"
proof -
  have "switches (snd (transmit_id d f now s)) = switches s" for d f s
    by (auto simp: transmit_id_def try_send_id_def switches_def split: option.split prod.split sum.split bool.split
        dest!: tnc_enqueue_switches)
  moreover have "switches (s\<lparr>rd_transmitted_since_id := b, rd_last_id := l\<rparr>) = switches s"
    "switches (s\<lparr>rd_sessions := ss\<rparr>) = switches s" for s b l ss
    by (simp_all add: switches_def)
  ultimately show ?thesis by (simp add: send_id_def case_prod_beta Let_def split: bool.split)
qed

lemma radio_step_switches:
  "\<not> is_switch_op op \<Longrightarrow> (\<And>t. op \<noteq> RoLink t) \<Longrightarrow> switches (radio_step op now r) = switches r"
proof (cases "is_id_op op \<or> is_link_op op")
  case True
  assume "\<not> is_switch_op op" "\<And>t. op \<noteq> RoLink t"
  then show ?thesis using True send_id_switches
    by (cases op) (auto simp: maybe_identify_def id_if_needed_def identify_now_def drain_keyed_def case_prod_beta
        switches_def split: bool.split option.split)
qed (simp add: switches_kept)

lemma fine_step: "\<not> is_switch_op op \<Longrightarrow> (\<And>t. op \<noteq> RoLink t) \<Longrightarrow> radio_fine r x \<Longrightarrow> radio_fine r (radio_step op now x)"
  by (simp add: radio_fine_def radio_step_switches radio_step_ok)

lemma fine_radio [moves_intros]:
  assumes "radio_fine r x"
  shows "radio_fine r (broadcast_flagged k b c fl now x)" "radio_fine r (broadcast k b c now x)"
    "radio_fine r (snd (unicast_flagged d k b rel c fl now x))" "radio_fine r (unicast d k b rel c now x)"
    "radio_fine r (transmit_direct d f c now x)" "radio_fine r (transmit_ui d b c acc now x)"
    "radio_fine r (transmit_to d f now x)"
    "radio_fine r (snd (enqueue_aprs_chat d t c now x))" "radio_fine r (on_aprs_ack d m now x)"
    "radio_fine r (tick_aprs now x)" "radio_fine r (radio_drain_acks now x)" "radio_fine r (flush_mailbox d now x)"
    "radio_fine r (remember_aprs_msgid d i now x)" "radio_fine r (remember_aprs_beacon d t now x)"
    "radio_fine r (expire_aprs_msgids now x)" "radio_fine r (drain_keyed now x)"
    "radio_fine r (maybe_identify now x)" "radio_fine r (id_if_needed now x)" "radio_fine r (snd (identify_now now x))"
    "radio_fine r (x\<lparr>rd_mailbox := snd (mail_store d m' (rd_mailbox x))\<rparr>)"
    "radio_fine r (x\<lparr>rd_mailbox := snd (mail_expire now (rd_mailbox x))\<rparr>)"
  using fine_step [OF _ _ assms, of "RoBroadcast k b c fl" now] fine_step [OF _ _ assms, of "RoBroadcast k b c 0" now]
    fine_step [OF _ _ assms, of "RoUnicast d k b rel c fl" now] fine_step [OF _ _ assms, of "RoUnicast d k b rel c 0" now]
    fine_step [OF _ _ assms, of "RoDirect d f c" now] fine_step [OF _ _ assms, of "RoUi d b c acc" now]
    fine_step [OF _ _ assms, of "RoDirect d f TxControl" now]
    fine_step [OF _ _ assms, of "RoChat d t c" now] fine_step [OF _ _ assms, of "RoAprsAck d m" now]
    fine_step [OF _ _ assms, of RoTickAprs now] fine_step [OF _ _ assms, of RoDrainAcks now]
    fine_step [OF _ _ assms, of "RoFlush d" now] fine_step [OF _ _ assms, of "RoMsgid d i" now]
    fine_step [OF _ _ assms, of "RoBeacon d t" now] fine_step [OF _ _ assms, of RoExpire now]
    fine_step [OF _ _ assms, of RoKeyed now] fine_step [OF _ _ assms, of RoMaybeId now]
    fine_step [OF _ _ assms, of RoIdIfNeeded now] fine_step [OF _ _ assms, of RoIdNow now]
    fine_step [OF _ _ assms, of "RoStore d m'" now] fine_step [OF _ _ assms, of RoExpireMail now]
  by (simp_all add: broadcast_def unicast_def transmit_to_def)

lemma fine_counted [moves_intros]:
  assumes "radio_fine r x"
  shows "radio_fine r (note_refused x)" "radio_fine r (x\<lparr>rd_stats := st\<rparr>)"
  using assms radio_ok_cong [of x "note_refused x"] radio_ok_cong [of x "x\<lparr>rd_stats := st\<rparr>"]
  by (auto simp: radio_fine_def switches_def note_refused_def)

lemma fine_fold [moves_intros]:
  "(\<And>y x. radio_fine r x \<Longrightarrow> radio_fine r (f y x)) \<Longrightarrow> radio_fine r x \<Longrightarrow> radio_fine r (fold f ys x)"
  by (induction ys arbitrary: x) auto


section \<open>Server\<close>

lemma move_output [moves_intros]:
  "moves C a s \<Longrightarrow> moves C a (send_raw i l s)"
  "moves C a s \<Longrightarrow> moves C a (numeric uid code ps s)"
  "moves C a s \<Longrightarrow> moves C a (audit k kvs s)"
  "moves C a s \<Longrightarrow> moves C a (on_admission g s)"
  unfolding send_raw_def numeric_def audit_def on_admission_def
  by (assumption | rule move_forms | simp)+

lemma move_notice_user [moves_intros]:
  "moves C a s \<Longrightarrow> PmRadio \<in> C \<or> \<not> id_is_rf uid \<Longrightarrow> moves C a (notice_user now uid t s)"
  unfolding notice_user_def by (assumption | rule move_forms moves_intros | simp add: id_is_rf_def)+

lemma move_notices [moves_intros]:
  "moves C a s \<Longrightarrow> moves C a (notice_rf_audience now ch t s)"
  "moves C a s \<Longrightarrow> PmRadio \<in> C \<Longrightarrow> moves C a (notice_opers now t s)"
  "moves C a s \<Longrightarrow> moves C a (announce_mode ch who changes args s)"
  unfolding notice_rf_audience_def notice_opers_def announce_mode_def
  by (assumption | rule move_forms moves_intros | simp)+

text \<open>A delivery that nothing is radiated for.\<close>

definition airless :: "server \<Rightarrow> delivery \<Rightarrow> bool" where
  "airless s d \<longleftrightarrow> rf_emission (rc_presence_notices (cf_radio (srv_config s))) d = None"

lemma fine_direct_chat [moves_intros]: "radio_fine r x \<Longrightarrow> radio_fine r (emit_direct_chat_rf now call n t tr x)"
  by (simp add: emit_direct_chat_rf_def fine_radio)

lemma fine_channel_chat [moves_intros]: "radio_fine r x \<Longrightarrow> radio_fine r (emit_channel_chat_rf_to now ch cs n t tr x)"
  by (auto simp: emit_channel_chat_rf_to_def Let_def fine_radio intro!: fine_fold)

lemma move_deliver_rf [moves_intros]:
  "moves C a s \<Longrightarrow> PmRadio \<in> C \<or> airless a d \<Longrightarrow> moves C a (deliver_rf now call d s)"
proof (cases "airless a d")
  case True
  then show "moves C a s \<Longrightarrow> moves C a (deliver_rf now call d s)"
    by (simp add: deliver_rf_def airless_def moves_config)
next
  case False
  assume "moves C a s" "PmRadio \<in> C \<or> airless a d"
  then have "moves C a s" "PmRadio \<in> C" using False by simp_all
  then show ?thesis
    unfolding deliver_rf_def by - (assumption | rule move_forms moves_intros | simp)+
qed

lemma move_deliver [moves_intros]:
  "moves C a s \<Longrightarrow> PmRadio \<in> C \<or> \<not> id_is_rf uid \<or> airless a d \<Longrightarrow> moves C a (deliver now uid d s)"
  unfolding deliver_def by (assumption | rule move_forms moves_intros | auto simp: id_is_rf_def)+

lemma move_broadcast_channel_ex [moves_intros]:
  assumes "moves C a s" "PmRadio \<in> C \<or> airless a d \<or> \<not> rf"
  shows "moves C a (broadcast_channel_ex now ch d skip rf s)"
proof -
  let ?s = "fold (\<lambda>uid. case uid of IpUser i \<Rightarrow> send_raw i (render_irc d) | RfUser _ \<Rightarrow> id)
    (filter (\<lambda>uid. Some uid \<noteq> skip) (st_members (srv_state s) ch)) s"
  have s: "moves C a ?s"
    using assms(1) by - (assumption | rule move_forms moves_intros)+
  have deaf: "rf_emission (rc_presence_notices (cf_radio (srv_config s))) d = None" if "airless a d"
    using that moves_config [OF assms(1)] by (simp add: airless_def)
  consider (no) "\<not> rf" | (air) "airless a d" | (yes) "PmRadio \<in> C" using assms(2) by blast
  then show ?thesis
  proof cases
    case yes
    then show ?thesis using s unfolding broadcast_channel_ex_def Let_def
      by - (assumption | rule move_forms moves_intros | simp)+
  qed (use s deaf in \<open>simp_all add: broadcast_channel_ex_def Let_def\<close>)
qed

lemma move_broadcast_channel [moves_intros]:
  "moves C a s \<Longrightarrow> PmRadio \<in> C \<or> airless a d \<Longrightarrow> moves C a (broadcast_channel now ch d skip s)"
  by (auto simp: broadcast_channel_def intro: move_broadcast_channel_ex)

lemma move_broadcast_peers [moves_intros]:
  assumes "moves C a s" "PmRadio \<in> C \<or> airless a d"
  shows "moves C a (broadcast_peers now uid d self s)"
proof -
  have "moves C a (snd (peer_delivery now d t ds))" if "moves C a (snd ds)" for t ds
    using that assms(2) by (auto simp: peer_delivery_def split: prod.split intro: move_deliver)
  then have "moves C a (snd (fold (peer_delivery now d) ts ds))" if "moves C a (snd ds)" for ts ds
    using that by (induction ts arbitrary: ds) auto
  then show ?thesis using assms(1) by (simp add: broadcast_peers_def)
qed

lemma airless_quit [simp]: "airless a (DQuit n p r)" "airless a (DNick n p m)"
  by (simp_all add: airless_def rf_emission_def)

lemma forget_ok: "sessions_ok ss \<Longrightarrow> sessions_ok (forget c ss)" "sessions_ok ss \<Longrightarrow> sessions_ok (ban c ss)"
  "sessions_ok ss \<Longrightarrow> sessions_ok (lift_ban c ss)" "sessions_ok ss \<Longrightarrow> sessions_ok (snd (take_evicted ss))"
  using session_step_ok [of ss "Forget c"] session_step_ok [of ss "Ban c"] session_step_ok [of ss "LiftBan c"]
    session_step_ok [of ss TakeEvicted] by simp_all

lemma move_quit_user [moves_intros]:
  "moves C a s \<Longrightarrow> PmRadio \<in> C \<or> \<not> id_is_rf uid \<Longrightarrow> moves C a (quit_user now uid reason s)"
  unfolding quit_user_def
  by (assumption | rule move_forms moves_intros rank_intros fine_refl | simp add: id_is_rf_def forget_ok)+


subsection \<open>Privileges and callsign claims\<close>

lemma pred_for_all:
  "(\<And>x s. P s \<Longrightarrow> pred_option P (f x s)) \<Longrightarrow> P s \<Longrightarrow> pred_option P (for_all f xs s)"
proof (induction xs arbitrary: s)
  case (Cons x xs)
  then have "pred_option P (f x s)" by blast
  then show ?case using Cons by (cases "f x s") auto
qed simp

lemma move_refresh_channel [moves_intros]: "moves C a s \<Longrightarrow> moves C a (refresh_channel uid nick ch s)"
  unfolding refresh_channel_def
  by (assumption | rule move_forms moves_intros rank_intros fine_refl | simp)+

lemma move_refresh_flags [moves_intros]: "moves C a s \<Longrightarrow> moves C a (refresh_flags uid s)"
  unfolding refresh_flags_def by (assumption | rule move_forms moves_intros)+

lemma move_refresh_with:
  assumes "\<And>c u t s. moves C a s \<Longrightarrow> pred_option (moves C a) (strip c u t s)" "moves C a s"
  shows "pred_option (moves C a) (refresh_privileges_with strip uid s)"
proof -
  have "pred_option (moves C a) (refresh_rf_tx_with strip uid s)"
    unfolding refresh_rf_tx_with_def Let_def
    by (auto split: option.split intro!: assms move_set_user simp: keeps_user_def below_def)
  then show ?thesis
    using move_refresh_flags
    by (cases "refresh_rf_tx_with strip uid s") (auto simp: refresh_privileges_with_def)
qed

lemma move_strip_claims:
  "PmRadio \<in> C \<Longrightarrow> moves C a s \<Longrightarrow> pred_option (moves C a) (strip_claims n now call keep t s)"
proof (induction n arbitrary: s call keep t)
  case (Suc n)
  have "moves C a (notice_user now v t (set_user v (\<lambda>u. u\<lparr>us_callsign := None\<rparr>) s))" if "moves C a s" for v s
    using that Suc.prems(1)
    by - (rule move_notice_user move_set_user | simp add: keeps_user_def below_def)+
  then show ?case
    using Suc by (auto intro!: pred_for_all move_refresh_with)
qed simp

lemma move_or_overflow:
  "moves C a s \<Longrightarrow> pred_option (moves C a) r \<Longrightarrow> moves C a (or_overflow s r)"
  by (auto simp: or_overflow_def intro: moves.overflow split: option.split)

lemma move_strip_callsign_claims [moves_intros]:
  "moves C a s \<Longrightarrow> PmRadio \<in> C \<Longrightarrow> moves C a (strip_callsign_claims now call keep t s)"
  unfolding strip_callsign_claims_def by (rule move_or_overflow) (auto intro: move_strip_claims)

text \<open>Without the radio, a refresh is harmless for a user who has not identified: no claim is restored.\<close>

lemma move_refresh_privileges [moves_intros]:
  assumes "moves C a s" "PmRadio \<in> C \<or> \<not> user_is us_nick_identified s uid"
  shows "moves C a (refresh_privileges now uid s)"
proof (cases "PmRadio \<in> C")
  case True
  then show ?thesis unfolding refresh_privileges_def
    using assms(1) by (intro move_or_overflow move_refresh_with) (auto intro: move_strip_claims)
next
  case False
  then have "\<not> user_is us_nick_identified s uid" using assms(2) by simp
  then have r: "pred_option (moves C a) (refresh_rf_tx_with strip uid s)" for strip
    using assms(1)
    by (auto simp: refresh_rf_tx_with_def user_is_def stored_call_def Let_def keeps_user_def below_def
        split: option.split intro!: move_set_user)
  have "pred_option (moves C a) (refresh_privileges_with strip uid s)" for strip
    using move_refresh_flags r [of strip] by (cases "refresh_rf_tx_with strip uid s") (auto simp: refresh_privileges_with_def)
  then show ?thesis unfolding refresh_privileges_def using assms(1) by (intro move_or_overflow) auto
qed

lemma move_rf_join_notice [moves_intros]:
  "moves C a s \<Longrightarrow> PmRadio \<in> C \<or> \<not> id_is_rf uid \<Longrightarrow> moves C a (notice_rf_join now uid ch s)"
  "moves C a s \<Longrightarrow> PmRadio \<in> C \<or> \<not> id_is_rf uid \<Longrightarrow> moves C a (notice_air_reason now uid ch why s)"
  unfolding notice_rf_join_def notice_air_reason_def
  by (assumption | rule move_forms moves_intros)+

end
