(* ===== verification/Bridge_Frames.thy ===== *)
theory Bridge_Frames
  imports Server_Frames
begin

text \<open>
  What the handlers of \<open>Bridge\<close> change: nothing of the accounts, of the operator's switches and of the rank of a user
  of the Internet side, for any frame from the air.
\<close>

section \<open>A station's user\<close>

lemma plausible_nick: "looks_like_amateur_call c \<Longrightarrow> lower (to_nick c @ t) \<noteq> no_nick"
proof
  assume "looks_like_amateur_call c" "lower (to_nick c @ t) = no_nick"
  moreover obtain x where "x \<in> set (call_base c)" "is_ascii_alphabetic x"
    using calculation by (auto simp: looks_like_amateur_call_def list_ex_iff)
  moreover have "set (call_base c) \<subseteq> set (to_nick c @ t)"
    by (auto simp: to_nick_def)
  ultimately have "x \<in> set no_nick" "is_ascii_alphabetic x"
    by (auto simp: lower_no_nick)
  then show False
    by (auto simp: no_nick_def lit_def is_ascii_alphabetic_def is_ascii_uppercase_def is_ascii_lowercase_def)
qed

lemma fine_claim_nick [rank_intros]:
  "looks_like_amateur_call c \<Longrightarrow> lower n \<noteq> no_nick \<Longrightarrow> state_fine P st x \<Longrightarrow> state_fine P st (snd (claim_nick k j uid c n x))"
proof (induction k arbitrary: j n x)
  case (Suc k)
  have s: "state_fine P st (snd (set_nick uid n x))"
    using Suc.prems by (intro fine_ops)
  then have "state_fine P st y" "state_fine P st (snd (remove_user uid y))" if "set_nick uid n x = (b, y)" for b y
    using that fine_ops(6) by auto
  then show ?case
    using Suc.IH Suc.prems plausible_nick [OF Suc.prems(1), of "lit ''_'' @ show_nat j"]
    by (auto split: prod.split bool.split)
qed simp

lemma fine_insert_station [rank_intros]:
  assumes "map_of (st_users st) (RfUser c) = None"
  shows "state_fine P st (insert_user (rf_user s c now) st)"
proof -
  let ?new = "user_new (RfUser c) (callsign_to_string c @ lit ''.ax25'') now"
  let ?f = "\<lambda>u. u\<lparr>us_username := us_username (rf_user s c now), us_realname := us_realname (rf_user s c now),
    us_callsign := Some c, us_registered := True\<rparr>"
  have "insert_user (rf_user s c now) st = user_mut (RfUser c) ?f (insert_user ?new st)"
    by (simp add: insert_user_def user_mut_def rf_user_def user_new_def)
  moreover have "keeps_user ?f" by (simp add: keeps_user_def)
  ultimately have "st_ok st \<Longrightarrow> st_ok (insert_user (rf_user s c now) st)"
    using insert_user_inv [OF _ assms] user_mut_inv by metis
  moreover have "ranks_kept P st (insert_user (rf_user s c now) st)"
    by (auto simp: ranks_kept_def insert_user_def rf_user_def user_new_def user_kept_def id_is_rf_def update_conv')
  ultimately show ?thesis by (simp add: state_fine_def)
qed

lemma mark_registered_ok: "sessions_ok ss \<Longrightarrow> sessions_ok (mark_registered now c ss)"
proof (cases "touch c now ss")
  case (Some ps)
  obtain p ss' where ps: "ps = (p, ss')" by fastforce
  assume "sessions_ok ss"
  from touch_ok [OF this Some [unfolded ps]]
  show ?thesis
    using Some ps by (simp add: mark_registered_def set_peer_ok peer_ok_def)
qed (simp add: mark_registered_def)


lemma move_on_peer [moves_intros]:
  assumes "moves C a s" "PmRadio \<in> C" "\<And>cfg p. peer_ok cfg c p \<Longrightarrow> peer_ok cfg c (g p)"
  shows "moves C a (on_peer c g s)"
proof -
  have "on_peer c g s = on_sessions (with_peer c g) s"
    by (simp add: on_peer_def with_peer_def [abs_def])
  then show ?thesis
    using assms by (auto intro!: move_sessions with_peer_ok)
qed

lemma plausible_plain: "looks_like_amateur_call c \<Longrightarrow> lower (to_nick c) \<noteq> no_nick"
  using plausible_nick [of c "[]"] by simp

lemma move_ensure_rf_user [moves_intros]:
  "moves C a s \<Longrightarrow> PmRadio \<in> C \<Longrightarrow> looks_like_amateur_call c \<Longrightarrow> moves C a (snd (ensure_rf_user now c s))"
proof (cases "user_of s (RfUser c) = None")
  case True
  assume m: "moves C a s" "PmRadio \<in> C" "looks_like_amateur_call c"
  let ?st = "insert_user (rf_user s c now) (srv_state s)"
  let ?p = "claim_nick 10 1 (RfUser c) c (to_nick c) ?st"
  have "state_fine (raises C) (srv_state s) (snd ?p)"
    using True m plausible_plain by (intro fine_claim_nick fine_insert_station) (auto simp: user_of_def st_user_def)
  then have "moves C a (s\<lparr>srv_state := snd ?p\<rparr>)"
    using m by (intro move_state)
  moreover have "moves C a (on_sessions (mark_registered now c) (s\<lparr>srv_state := snd ?p\<rparr>))"
    using calculation m mark_registered_ok by (intro move_sessions)
  ultimately show ?thesis
    using True by (cases ?p) (auto simp: ensure_rf_user_def Let_def on_state_def split: bool.split)
qed (simp add: ensure_rf_user_def)

lemma peer_fields_ok [moves_intros]:
  assumes "peer_ok cfg c p"
  shows "peer_ok cfg c (p\<lparr>peer_channels := x\<rparr>)" "peer_ok cfg c (p\<lparr>peer_dropped := n\<rparr>)"
    "peer_ok cfg c (clear_kicked ch p)" "peer_ok cfg c (mark_kicked ch p)" "peer_ok cfg c (note_aprs p)"
  using clear_kicked_ok [OF assms] mark_kicked_ok [OF assms] note_aprs_ok [OF assms]
  by (auto intro: peer_ok_frame [OF assms])

section \<open>The handlers\<close>

lemma move_answers [moves_intros]:
  "moves C a s \<Longrightarrow> PmRadio \<in> C \<Longrightarrow> moves C a (rf_error now c code t s)"
  "moves C a s \<Longrightarrow> PmRadio \<in> C \<Longrightarrow> moves C a (aprs_ack now c m s)"
  "moves C a s \<Longrightarrow> PmRadio \<in> C \<Longrightarrow> moves C a (aprs_rej_or_ack now c m s)"
  "moves C a s \<Longrightarrow> PmRadio \<in> C \<Longrightarrow> moves C a (aprs_reply now c t s)"
  "moves C a s \<Longrightarrow> PmRadio \<in> C \<Longrightarrow> moves C a (transmit_airc now c f s)"
  unfolding rf_error_def aprs_ack_def aprs_rej_or_ack_def aprs_reply_def transmit_airc_def
  by (assumption | rule move_forms moves_intros | simp)+

lemma move_rates [moves_intros]:
  "moves C a s \<Longrightarrow> moves C a (snd (rf_ctrl_ok now c s))"
  "moves C a s \<Longrightarrow> moves C a (snd (first_contact now c s))"
  by (simp_all add: rf_ctrl_ok_def first_contact_def case_prod_beta fine_policy move_policy)

lemma move_welcome_station [moves_intros]:
  "moves C a s \<Longrightarrow> PmRadio \<in> C \<Longrightarrow> looks_like_amateur_call c \<Longrightarrow> moves C a (welcome_station now c s)"
  unfolding welcome_station_def by (assumption | rule move_forms moves_intros | simp)+

lemma move_rf_join [moves_intros]:
  "moves C a s \<Longrightarrow> PmRadio \<in> C \<Longrightarrow> moves C a (rf_join now c ch r s)"
  unfolding rf_join_def
  by (assumption | rule move_forms moves_intros rank_intros fine_refl | simp)+


lemma move_rf_part [moves_intros]:
  "moves C a s \<Longrightarrow> moves C a (rf_part now uid ch reason s)"
  unfolding rf_part_def by (assumption | rule move_forms moves_intros rank_intros fine_refl | simp)+

lemma move_note_dropped [moves_intros]:
  "moves C a s \<Longrightarrow> PmRadio \<in> C \<Longrightarrow> moves C a (note_dropped_peer c s)"
  unfolding note_dropped_peer_def by (assumption | rule move_forms moves_intros)+

lemma move_rf_messages [moves_intros]:
  "moves C a s \<Longrightarrow> PmRadio \<in> C \<Longrightarrow> moves C a (rf_channel_message now c u ch t n s)"
  "moves C a s \<Longrightarrow> PmRadio \<in> C \<Longrightarrow> moves C a (rf_private_message now c u ch t n s)"
  unfolding rf_channel_message_def rf_private_message_def
  by (assumption | rule move_forms moves_intros | simp)+

lemma move_rf_message [moves_intros]:
  "moves C a s \<Longrightarrow> PmRadio \<in> C \<Longrightarrow> looks_like_amateur_call c \<Longrightarrow> moves C a (rf_message now c ch t n s)"
  unfolding rf_message_def by (assumption | rule move_forms moves_intros | simp)+

lemma move_control_frames [moves_intros]:
  assumes "moves C a s" "PmRadio \<in> C" "looks_like_amateur_call c"
  shows "moves C a (on_hello now c s)" "moves C a (on_join now c fs s)" "moves C a (on_part now c fs s)"
    "moves C a (on_quit now c fs s)" "moves C a (on_msg now c fs n s)" "moves C a (on_names now c fs s)"
    "moves C a (on_ping now c fs s)"
  unfolding on_hello_def on_join_def on_part_def on_quit_def on_msg_def on_names_def on_ping_def
  by (insert assms) (assumption | rule move_forms moves_intros | simp add: forget_ok)+

lemma move_when_ctrl_ok:
  "moves C a s \<Longrightarrow> (\<And>x. moves C a x \<Longrightarrow> moves C a (f x)) \<Longrightarrow> moves C a (when_ctrl_ok now c f s)"
  unfolding when_ctrl_ok_def by (assumption | rule move_forms moves_intros | simp)+

lemma move_airc_message [moves_intros]:
  "moves C a s \<Longrightarrow> PmRadio \<in> C \<Longrightarrow> looks_like_amateur_call c \<Longrightarrow> moves C a (handle_airc_message now c f s)"
  unfolding handle_airc_message_def
  by (cases "akind f") (simp_all add: Let_def move_when_ctrl_ok move_control_frames)

lemma move_aprs [moves_intros]:
  assumes "moves C a s" "PmRadio \<in> C" "looks_like_amateur_call c"
  shows "moves C a (aprs_query now c m u t s)" "moves C a (aprs_into_channel now c m ch t s)"
  unfolding aprs_query_def aprs_into_channel_def
  by (insert assms) (assumption | rule move_forms moves_intros | simp)+

lemma move_aprs_channel_line [moves_intros]:
  "moves C a s \<Longrightarrow> PmRadio \<in> C \<Longrightarrow> looks_like_amateur_call c \<Longrightarrow> moves C a (aprs_channel_line now c m ch t s)"
  unfolding aprs_channel_line_def by (assumption | rule move_forms moves_intros | simp)+

lemma move_aprs_text [moves_intros]:
  "moves C a s \<Longrightarrow> PmRadio \<in> C \<Longrightarrow> looks_like_amateur_call c \<Longrightarrow> moves C a (aprs_text now c m s)"
  unfolding aprs_text_def by (assumption | rule move_forms moves_intros | simp)+

lemma touch_sessions_ok: "touch c now ss = Some (p, ss') \<Longrightarrow> sessions_ok ss \<Longrightarrow> sessions_ok ss'"
  using touch_ok by blast

lemma move_aprs_admitted [moves_intros]:
  "moves C a s \<Longrightarrow> PmRadio \<in> C \<Longrightarrow> looks_like_amateur_call c \<Longrightarrow> moves C a (aprs_admitted now c m s)"
  unfolding aprs_admitted_def
  by (assumption | rule move_forms moves_intros | simp | (cases "touch c now (rd_sessions (srv_radio s))"; auto dest: touch_sessions_ok))+


lemma move_aprs_message [moves_intros]:
  "moves C a s \<Longrightarrow> PmRadio \<in> C \<Longrightarrow> moves C a (handle_aprs_message now c m s)"
  unfolding handle_aprs_message_def by (assumption | rule move_forms moves_intros | simp)+

lemma move_aprs_beacon [moves_intros]:
  "moves C a s \<Longrightarrow> PmRadio \<in> C \<Longrightarrow> moves C a (handle_aprs_beacon now c t s)"
  unfolding handle_aprs_beacon_def by (assumption | rule move_forms moves_intros | simp)+

lemma receive_ok: "sessions_ok ss \<Longrightarrow> on_receive c f now us ss = (r, ss') \<Longrightarrow> sessions_ok ss'"
  using on_receive_ok [of ss c f now us] by simp

lemma move_airc_frame [moves_intros]:
  assumes m: "moves C a s" and r: "PmRadio \<in> C"
  shows "moves C a (handle_airc_frame now c f us b s)"
proof -
  have "moves C a (on_sessions (\<lambda>_. snd (on_receive c f now us (rd_sessions (srv_radio x)))) x)" if "moves C a x" for x
    using that r by (intro move_sessions on_receive_ok)
  then have "moves C a (fold (transmit_airc now c) fs (on_sessions (\<lambda>_. ss) x))"
    if "moves C a x" "on_receive c f now us (rd_sessions (srv_radio x)) = (out, ss)" for x fs out ss
    using that r move_fold [OF move_answers(5)] by fastforce
  then have one: "moves C a (case first_contact now c s of
         (False, s1) \<Rightarrow> s1
       | (True, s1) \<Rightarrow>
           (let (out, ss) = on_receive c f now us (rd_sessions (srv_radio s1));
                s2 = fold (transmit_airc now c) (rx_transmit out) (on_sessions (\<lambda>_. ss) s1);
                s3 = (case rx_deliver out of
                        Some m \<Rightarrow> if \<not> b \<or> uplink_chat_from_broadcast m then handle_airc_message now c m s2 else s2
                      | None \<Rightarrow> s2)
            in on_radio (radio_drain_acks now) s3))" if "looks_like_amateur_call c"
    using m r that move_rates(2) [OF m, of now c]
    by (auto simp: Let_def split: prod.split bool.split option.split intro!: move_on_radio move_airc_message fine_radio)
  then show ?thesis
    using m by (simp add: handle_airc_frame_def)
qed

lemma move_rf_frame [moves_intros]:
  "moves C a s \<Longrightarrow> PmRadio \<in> C \<Longrightarrow> moves C a (handle_rf_frame now f s)"
  unfolding handle_rf_frame_def count_rx_def
  by (assumption | rule move_forms moves_intros | simp)+

end
