(* ===== verification/Command_Frames.thy ===== *)
theory Command_Frames
  imports Bridge_Frames
begin

text \<open>
  What the commands of a client change. A reply to a client needs no permission. \<open>PmRadio\<close> is asked for by a command that may
  radiate, \<open>PmAccounts\<close> by one that writes the accounts, \<open>PmRaise\<close> by what makes an operator or an owner of a nick,
  \<open>PmJob\<close> by a password check, \<open>PmControl\<close> by \<open>RADIO\<close>.
\<close>

section \<open>What the commands share\<close>

lemma move_client_notice [moves_intros]:
  "moves C a s \<Longrightarrow> \<not> id_is_rf uid \<Longrightarrow> moves C a (notice e uid t s)"
  by (simp add: notice_def move_notice_user)

lemma move_any_notice:
  "moves C a s \<Longrightarrow> PmRadio \<in> C \<Longrightarrow> moves C a (notice e uid t s)"
  by (simp add: notice_def move_notice_user)

lemma move_shared [moves_intros]:
  "moves C a s \<Longrightarrow> moves C a (need_more uid cmd s)"
  "moves C a s \<Longrightarrow> moves C a (audit_user k g uid s)"
  "moves C a s \<Longrightarrow> moves C a (send_members ch l s)"
  unfolding need_more_def audit_user_def send_members_def
  by (assumption | rule move_forms moves_intros | simp)+

text \<open>A user of the Internet side that could not be raised has the rank it had.\<close>

lemma moves_user_is:
  assumes "moves C a s" "PmRaise RkNew uid \<notin> C" "\<not> id_is_rf uid"
  shows "PmRaise RkOper uid \<notin> C \<Longrightarrow> user_is us_oper s uid \<Longrightarrow> user_is us_oper a uid"
    and "PmRaise RkOwner uid \<notin> C \<Longrightarrow> user_is us_nick_identified s uid \<Longrightarrow> user_is us_nick_identified a uid"
    and "user_is us_listen_only s uid \<Longrightarrow> user_is us_listen_only a uid"
  using moves_ranks [OF assms(1)] assms(2,3)
  by (auto simp: ranks_kept_def user_kept_def below_def user_is_def user_of_def st_user_def split: option.splits)

section \<open>Queries\<close>

lemma move_registration_replies [moves_intros]:
  "moves C a s \<Longrightarrow> moves C a (send_lusers uid s)"
  "moves C a s \<Longrightarrow> moves C a (send_motd uid s)"
  unfolding send_lusers_def send_motd_def
  by (assumption | rule move_forms moves_intros)+

lemma move_whois_idle [moves_intros]: "moves C a s \<Longrightarrow> moves C a (whois_idle e uid u s)"
  unfolding whois_idle_def by (assumption | rule move_forms moves_intros)+

lemma move_whois_reply [moves_intros]: "moves C a s \<Longrightarrow> moves C a (whois_reply e uid u s)"
  unfolding whois_reply_def by (assumption | rule move_forms moves_intros)+

lemma move_queries [moves_intros]:
  "moves C a s \<Longrightarrow> moves C a (cmd_who uid m s)"
  "moves C a s \<Longrightarrow> moves C a (cmd_whois e uid m s)"
  "moves C a s \<Longrightarrow> moves C a (cmd_whowas uid m s)"
  "moves C a s \<Longrightarrow> moves C a (cmd_ison uid m s)"
  "moves C a s \<Longrightarrow> moves C a (cmd_userhost uid m s)"
  "moves C a s \<Longrightarrow> moves C a (cmd_version uid s)"
  "moves C a s \<Longrightarrow> moves C a (cmd_admin uid s)"
  "moves C a s \<Longrightarrow> moves C a (cmd_info uid s)"
  "moves C a s \<Longrightarrow> moves C a (cmd_help uid m s)"
  "moves C a s \<Longrightarrow> moves C a (cmd_links uid s)"
  "moves C a s \<Longrightarrow> moves C a (cmd_time e uid s)"
  "moves C a s \<Longrightarrow> moves C a (cmd_list uid s)"
  unfolding cmd_who_def who_line_def cmd_whois_def cmd_whowas_def cmd_ison_def cmd_userhost_def cmd_version_def
    cmd_admin_def cmd_info_def cmd_help_def cmd_links_def cmd_time_def cmd_list_def
  by (assumption | rule move_forms moves_intros)+

lemma move_cap [moves_intros]: "moves C a s \<Longrightarrow> moves C a (cmd_cap uid m s)"
  unfolding cmd_cap_def cap_line_def by (assumption | rule move_forms moves_intros)+

lemma move_stats [moves_intros]: "moves C a s \<Longrightarrow> \<not> id_is_rf uid \<Longrightarrow> moves C a (cmd_stats e uid m s)"
  unfolding cmd_stats_def by (assumption | rule move_forms moves_intros)+

section \<open>Registration\<close>

lemma move_welcome [moves_intros]:
  "moves C a s \<Longrightarrow> \<not> id_is_rf uid \<Longrightarrow> moves C a (welcome_user e uid u s)"
  unfolding welcome_user_def by (assumption | rule move_forms moves_intros)+

lemma move_try_complete [moves_intros]:
  "moves C a s \<Longrightarrow> \<not> id_is_rf uid \<Longrightarrow> moves C a (try_complete_registration e uid s)"
  unfolding try_complete_registration_def
  by (assumption | rule move_forms moves_intros | simp add: keeps_user_def below_def)+

lemma move_pass [moves_intros]: "moves C a s \<Longrightarrow> moves C a (cmd_pass uid m s)"
  unfolding cmd_pass_def
  by (assumption | rule move_forms moves_intros | simp add: keeps_user_def below_def)+

lemma move_user [moves_intros]: "moves C a s \<Longrightarrow> \<not> id_is_rf uid \<Longrightarrow> moves C a (cmd_user e uid m s)"
  unfolding cmd_user_def
  by (assumption | rule move_forms moves_intros | simp add: keeps_user_def below_def)+

lemma valid_nick_no_star: "is_valid_nick n k \<Longrightarrow> lower n \<noteq> no_nick"
  unfolding lower_no_nick
  by (auto simp: no_nick_def lit_def is_valid_nick_def is_ascii_alphabetic_def is_ascii_uppercase_def is_ascii_lowercase_def
      nick_special_def)

lemma move_renick_case [moves_intros]:
  "moves C a s \<Longrightarrow> \<not> id_is_rf uid \<Longrightarrow> lower n \<noteq> no_nick \<Longrightarrow> moves C a (renick_case e uid old n reg s)"
  unfolding renick_case_def
  by (assumption | rule move_forms moves_intros rank_intros fine_refl | simp)+


text \<open>A nick that is changed is no longer identified, so the refresh that follows restores no claim.\<close>

lemma move_renick [moves_intros]:
  assumes m: "moves C a s" and "\<not> id_is_rf uid" "lower n \<noteq> no_nick"
    and r: "PmRadio \<in> C \<or> PmRaise RkNew uid \<notin> C \<and> PmRaise RkOwner uid \<notin> C \<and> \<not> user_is us_nick_identified a uid"
  shows "moves C a (renick e uid old n reg s)"
proof -
  have "PmRadio \<in> C \<or> \<not> user_is us_nick_identified x uid" if "moves C a x" for x
    using that r moves_user_is(2) assms(2) by blast
  then have "moves C a (refresh_privileges now uid x)" if "moves C a x" for x now
    using that by (intro move_refresh_privileges) auto
  note refresh = this
  show ?thesis unfolding renick_def
    by (insert assms(1-3))
       (assumption | rule refresh move_forms moves_intros rank_intros fine_refl | simp add: keeps_user_def below_def)+
qed

lemma move_nick [moves_intros]:
  assumes "moves C a s" "\<not> id_is_rf uid"
    and "PmRadio \<in> C \<or> PmRaise RkNew uid \<notin> C \<and> PmRaise RkOwner uid \<notin> C \<and> \<not> user_is us_nick_identified a uid"
  shows "moves C a (cmd_nick e uid m s)"
  unfolding cmd_nick_def
  by (insert assms) (assumption | rule move_forms moves_intros | simp add: valid_nick_no_star)+

section \<open>Channels\<close>

lemma move_names [moves_intros]:
  "moves C a s \<Longrightarrow> moves C a (no_such_channel uid ch s)"
  "moves C a s \<Longrightarrow> moves C a (send_topic uid ch x s)"
  "moves C a s \<Longrightarrow> moves C a (send_names uid ch s)"
  "moves C a s \<Longrightarrow> moves C a (need_chanop uid c s)"
  unfolding no_such_channel_def send_topic_def send_names_def need_chanop_def
  by (assumption | rule move_forms moves_intros)+

lemma airless_presence: "\<not> rc_presence_notices (cf_radio (srv_config a)) \<Longrightarrow> airless a (DJoin n p c) \<and> airless a (DPart n p c r)"
  by (simp add: airless_def rf_emission_def)

lemma move_announce_join [moves_intros]:
  "moves C a s \<Longrightarrow> \<not> id_is_rf uid \<Longrightarrow> PmRadio \<in> C \<or> \<not> rc_presence_notices (cf_radio (srv_config a))
   \<Longrightarrow> moves C a (announce_join e uid n s)"
  unfolding announce_join_def
  by (assumption | rule move_forms moves_intros | use airless_presence in blast)+

lemma move_do_join [moves_intros]:
  "moves C a s \<Longrightarrow> \<not> id_is_rf uid \<Longrightarrow> PmRadio \<in> C \<or> \<not> rc_presence_notices (cf_radio (srv_config a))
   \<Longrightarrow> moves C a (do_join e uid n k s)"
  unfolding do_join_def
  by (assumption | rule move_forms moves_intros rank_intros fine_refl)+

lemma move_do_part [moves_intros]:
  "moves C a s \<Longrightarrow> PmRadio \<in> C \<or> \<not> rc_presence_notices (cf_radio (srv_config a)) \<Longrightarrow> moves C a (do_part e uid n r s)"
  unfolding do_part_def
  by (assumption | rule move_forms moves_intros rank_intros fine_refl | use airless_presence in blast)+

lemma move_join_part [moves_intros]:
  "moves C a s \<Longrightarrow> \<not> id_is_rf uid \<Longrightarrow> PmRadio \<in> C \<or> \<not> rc_presence_notices (cf_radio (srv_config a))
   \<Longrightarrow> moves C a (cmd_join e uid m s)"
  "moves C a s \<Longrightarrow> PmRadio \<in> C \<or> \<not> rc_presence_notices (cf_radio (srv_config a)) \<Longrightarrow> moves C a (cmd_part e uid m s)"
  unfolding cmd_join_def cmd_part_def
  by (assumption | rule move_forms moves_intros)+


section \<open>Messages\<close>

lemma move_screen_content [moves_intros]:
  "moves C a s \<Longrightarrow> \<not> id_is_rf uid \<Longrightarrow> moves C a (snd (screen_content e uid t s))"
  by (auto simp: screen_content_def move_client_notice split: verdict.split)

lemma move_screen_backlog [moves_intros]:
  "moves C a s \<Longrightarrow> PmRadio \<in> C \<Longrightarrow> moves C a (snd (screen_backlog e uid sc s))"
  by (auto simp: screen_backlog_def Let_def intro!: move_any_notice move_output move_on_radio fine_counted)

lemma move_screen [moves_intros]:
  "moves C a s \<Longrightarrow> \<not> id_is_rf uid \<Longrightarrow> PmRadio \<in> C \<Longrightarrow> moves C a (snd (screen timing e uid t s))"
  unfolding screen_def
  by (assumption | rule move_forms moves_intros | (cases timing; simp))+

lemma move_screens [moves_intros]:
  "moves C a s \<Longrightarrow> \<not> id_is_rf uid \<Longrightarrow> PmRadio \<in> C \<Longrightarrow> moves C a (snd (screen_for_air e uid t s))"
  "moves C a s \<Longrightarrow> \<not> id_is_rf uid \<Longrightarrow> PmRadio \<in> C \<Longrightarrow> moves C a (snd (screen_for_mailbox e uid t s))"
  by (simp_all add: screen_for_air_def screen_for_mailbox_def move_screen)

lemma move_hold_message [moves_intros]:
  "moves C a s \<Longrightarrow> PmRadio \<in> C \<Longrightarrow> \<not> id_is_rf uid \<Longrightarrow> moves C a (hold_message e uid call m s)"
proof -
  assume m: "moves C a s" "PmRadio \<in> C" "\<not> id_is_rf uid"
  have "moves C a (on_radio (\<lambda>r. r\<lparr>rd_mailbox := snd (mail_store call m (rd_mailbox (srv_radio s)))\<rparr>) s)"
    using m by (intro move_on_radio fine_radio fine_refl)
  then show ?thesis using m(3)
    by (auto simp: hold_message_def intro!: move_client_notice split: prod.split sum.split)
qed

lemma move_offer_mailbox [moves_intros]:
  "moves C a s \<Longrightarrow> PmRadio \<in> C \<Longrightarrow> \<not> id_is_rf uid \<Longrightarrow> moves C a (offer_mailbox e uid f target t n s)"
  unfolding offer_mailbox_def no_such_nick_def
  by (assumption | rule move_forms moves_intros | simp)+

lemma move_channel_flood [moves_intros]:
  "moves C a s \<Longrightarrow> \<not> id_is_rf uid \<Longrightarrow> moves C a (snd (channel_flood e uid u c s))"
  by (auto simp: channel_flood_def Let_def case_prod_beta intro!: move_output move_client_notice move_policy fine_policy)

lemma move_relay [moves_intros]:
  "moves C a s \<Longrightarrow> PmRadio \<in> C \<or> \<not> rf \<Longrightarrow> \<not> id_is_rf uid \<Longrightarrow> moves C a (relay_to_channel e uid u c t tr n rf s)"
  unfolding relay_to_channel_def
  by (assumption | rule move_forms moves_intros | auto)+

lemma move_send_to_channel [moves_intros]:
  "moves C a s \<Longrightarrow> PmRadio \<in> C \<Longrightarrow> \<not> id_is_rf uid \<Longrightarrow> moves C a (send_to_channel e uid u c t n s)"
  unfolding send_to_channel_def
  by (assumption | rule move_forms moves_intros | simp)+

lemma move_send_to_user [moves_intros]:
  "moves C a s \<Longrightarrow> PmRadio \<in> C \<or> \<not> id_is_rf tid \<Longrightarrow> moves C a (send_to_user e uid u tid target t tr n s)"
  unfolding send_to_user_def
  by (assumption | rule move_forms moves_intros | auto)+

lemma move_privmsg_parts [moves_intros]:
  "moves C a s \<Longrightarrow> PmRadio \<in> C \<Longrightarrow> \<not> id_is_rf uid \<Longrightarrow> moves C a (privmsg_channel e uid u target t n s)"
  "moves C a s \<Longrightarrow> PmRadio \<in> C \<Longrightarrow> \<not> id_is_rf uid \<Longrightarrow> moves C a (privmsg_user e uid u target t n s)"
  unfolding privmsg_channel_def privmsg_user_def
  by (assumption | rule move_forms moves_intros | simp)+

lemma move_privmsg [moves_intros]:
  "moves C a s \<Longrightarrow> PmRadio \<in> C \<Longrightarrow> \<not> id_is_rf uid \<Longrightarrow> moves C a (cmd_privmsg e uid m n s)"
  unfolding cmd_privmsg_def
  by (assumption | rule move_forms moves_intros | simp)+

section \<open>Topics and modes\<close>

lemma move_change_topic [moves_intros]:
  assumes "moves C a s" "PmRadio \<in> C" "\<not> id_is_rf uid"
  shows "moves C a (change_topic e uid n c t s)"
  unfolding change_topic_def
  by (insert assms) (assumption | rule move_forms moves_intros rank_intros fine_refl | simp add: keeps_channel_def)+

lemma move_topic [moves_intros]:
  "moves C a s \<Longrightarrow> PmRadio \<in> C \<or> msg_param m 1 = None \<Longrightarrow> \<not> id_is_rf uid \<Longrightarrow> moves C a (cmd_topic e uid m s)"
  unfolding cmd_topic_def
  by (assumption | rule move_forms moves_intros | simp)+


lemma ms_simps [simp]:
  "ms_server (ms_tell g x) = g (ms_server x)"
  "ms_server (push_mode l x) = ms_server x"
  "ms_server (push_arg w x) = ms_server x"
  "ms_server (snd (next_arg m x)) = ms_server x"
  by (simp_all add: ms_tell_def push_mode_def push_arg_def next_arg_def Let_def)

lemma move_ms_channel:
  "moves C a (ms_server x) \<Longrightarrow> keeps_channel g \<Longrightarrow> moves C a (ms_server (ms_set_channel n g x))"
  by (simp add: ms_set_channel_def move_on_state fine_ops)

lemma keeps_channel_modes:
  "keeps_channel (bridge_channel b)" "keeps_channel (set_member_flag op b i)"
proof -
  show "keeps_channel (bridge_channel b)"
    by (auto simp: keeps_channel_def bridge_channel_def)
  show "keeps_channel (set_member_flag op b i)"
    by (auto simp: keeps_channel_def set_member_flag_def keys_update_present split: option.split)
qed

lemmas keeps_channel_rules = keeps_channel_modes keeps_channel_def [THEN iffD2]

lemma move_letters:
  assumes "moves C a (ms_server x)"
  shows "moves C a (ms_server (mode_m uid n c o' x))" "moves C a (ms_server (mode_t n x))"
    "moves C a (ms_server (mode_r uid n o' x))" "moves C a (ms_server (mode_k uid m n x))"
    "moves C a (ms_server (mode_l uid m n x))"
  using assms
  by (auto simp: mode_m_def mode_t_def mode_r_def mode_k_def mode_l_def Let_def case_prod_beta need_more_def
      intro!: move_output move_ms_channel keeps_channel_rules split: option.split)

lemma move_member_letter:
  assumes "moves C a (ms_server x)"
  shows "moves C a (ms_server (mode_ov uid m op n c o' x))"
proof -
  have "moves C a (ms_server (mode_member uid op n c w y))" if "moves C a (ms_server y)" for w y
    using that by (auto simp: mode_member_def Let_def intro!: move_output move_ms_channel keeps_channel_modes split: option.split)
  then show ?thesis using assms
    by (auto simp: mode_ov_def case_prod_beta intro!: move_output move_shared split: option.split)
qed

lemma move_mode_char: "moves C a (ms_server x) \<Longrightarrow> moves C a (ms_server (mode_char uid m n c o' l x))"
  by (simp add: mode_char_def move_letters move_member_letter)

lemma move_change_modes [moves_intros]:
  assumes "moves C a s" "PmRadio \<in> C"
  shows "moves C a (change_modes e uid m n c l s)"
proof -
  have "moves C a (ms_server (fold (mode_char uid m n c o') l x))" if "moves C a (ms_server x)" for o' x
    using that by (induction l arbitrary: x) (simp_all add: move_mode_char)
  then show ?thesis using assms
    by (auto simp: change_modes_def Let_def intro!: move_fold move_refresh_privileges move_shared)
qed

lemma move_mode [moves_intros]:
  "moves C a s \<Longrightarrow> PmRadio \<in> C \<or> msg_param m 1 = None \<Longrightarrow> \<not> id_is_rf uid \<Longrightarrow> moves C a (cmd_mode e uid m s)"
  unfolding cmd_mode_def user_mode_def
  by (assumption | rule move_forms moves_intros | simp)+

lemma move_kick_member [moves_intros]:
  "moves C a s \<Longrightarrow> PmRadio \<in> C \<Longrightarrow> moves C a (kick_member e uid c w tid r s)"
  unfolding kick_member_def
  by (assumption | rule move_forms moves_intros rank_intros fine_refl)+

lemma move_kick [moves_intros]:
  "moves C a s \<Longrightarrow> PmRadio \<in> C \<Longrightarrow> moves C a (cmd_kick e uid m s)"
  unfolding cmd_kick_def by (assumption | rule move_forms moves_intros)+

lemma move_invite [moves_intros]:
  "moves C a s \<Longrightarrow> \<not> id_is_rf uid \<Longrightarrow> moves C a (cmd_invite e uid m s)"
  unfolding cmd_invite_def by (assumption | rule move_forms moves_intros)+

end
