(* ===== verification/Operator_Frames.thy ===== *)
theory Operator_Frames
  imports Command_Frames
begin

text \<open>
  What the account and operator commands change, and with them every command and every event: the permissions each needs.
\<close>

section \<open>The accounts\<close>

lemma move_on_accounts:
  "moves C a s \<Longrightarrow> PmAccounts \<in> C \<Longrightarrow> (\<And>x. store_ok (ac_store x) \<Longrightarrow> store_ok (ac_store (snd (f x))))
   \<Longrightarrow> moves C a (snd (on_accounts f s))"
  by (auto simp: on_accounts_def Let_def case_prod_beta intro: move_accounts)

lemma move_account_changes [moves_intros]:
  assumes "moves C a s" "PmAccounts \<in> C"
  shows "moves C a (snd (on_accounts (insert_hashed enc fate n h t) s))"
    "moves C a (snd (on_accounts (set_password_hash enc fate n h) s))"
    "moves C a (snd (on_accounts (drop_nick enc fate n) s))"
    "moves C a (snd (on_accounts (set_rf_tx enc fate n b) s))"
    "moves C a (snd (on_accounts (set_callsign enc fate n c) s))"
    "moves C a (snd (on_accounts (clear_callsign enc fate c) s))"
    "moves C a (snd (on_accounts (ban_ip enc fate c) s))"
    "moves C a (snd (on_accounts (unban_ip enc fate c) s))"
  using assms change_ok [of _ enc fate "ChInsert n h t"] change_ok [of _ enc fate "ChPassword n h"]
    change_ok [of _ enc fate "ChDrop n"] change_ok [of _ enc fate "ChRfTx n b"] change_ok [of _ enc fate "ChCallsign n c"]
    change_ok [of _ enc fate "ChClear c"] change_ok [of _ enc fate "ChBan c"] change_ok [of _ enc fate "ChUnban c"]
  by (auto simp: change_def intro!: move_on_accounts)

lemma move_account_error [moves_intros]:
  "moves C a s \<Longrightarrow> \<not> id_is_rf uid \<Longrightarrow> moves C a (notice_account_error e uid x s)"
  by (simp add: notice_account_error_def move_client_notice)

lemma move_auth_rate [moves_intros]:
  "moves C a s \<Longrightarrow> \<not> id_is_rf uid \<Longrightarrow> moves C a (snd (auth_rate_ok e uid s))"
  unfolding auth_rate_ok_def by (assumption | rule move_forms moves_intros)+

lemma move_run_argon2 [moves_intros]:
  "moves C a s \<Longrightarrow> (case uid of IpUser i \<Rightarrow> PmJob i \<in> C | RfUser _ \<Rightarrow> True) \<Longrightarrow> moves C a (run_argon2 uid k n w s)"
  by (cases uid) (auto simp: run_argon2_def intro!: moves.jobs)

lemma move_password_commands [moves_intros]:
  assumes "moves C a s" "\<not> id_is_rf uid" "case uid of IpUser i \<Rightarrow> PmJob i \<in> C | RfUser _ \<Rightarrow> True"
  shows "moves C a (cmd_register e uid m s)" "moves C a (cmd_identify e uid m s)" "moves C a (cmd_unregister e uid m s)"
  unfolding cmd_register_def cmd_identify_def cmd_unregister_def verify_command_def
  by (insert assms) (assumption | rule move_forms moves_intros)+

lemma move_bind_session [moves_intros]:
  "moves C a s \<Longrightarrow> \<not> id_is_rf uid \<Longrightarrow> PmRadio \<in> C \<Longrightarrow> PmAccounts \<in> C \<Longrightarrow> moves C a (bind_session_callsign e uid t s)"
  unfolding bind_session_callsign_def store_callsign_def
  by (assumption | rule move_forms moves_intros | simp add: keeps_user_def below_def)+

lemma move_identified [moves_intros]:
  "moves C a s \<Longrightarrow> PmRaise RkOwner uid \<in> C \<Longrightarrow> moves C a (identified uid s)"
  unfolding identified_def by (rule move_set_user) (simp_all add: keeps_user_def below_def)

lemma move_finish_owner [moves_intros]:
  assumes "moves C a s" "\<not> id_is_rf uid" "PmRadio \<in> C" "PmAccounts \<in> C" "PmRaise RkOwner uid \<in> C"
  shows "moves C a (finish_identify e uid u s)" "moves C a (finish_register e uid u h s)"
  unfolding finish_identify_def finish_register_def
  by (insert assms) (assumption | rule move_forms moves_intros | simp add: keeps_user_def below_def)+

lemma move_finish_unregister [moves_intros]:
  "moves C a s \<Longrightarrow> \<not> id_is_rf uid \<Longrightarrow> PmRadio \<in> C \<Longrightarrow> PmAccounts \<in> C \<Longrightarrow> moves C a (finish_unregister e uid u s)"
  unfolding finish_unregister_def
  by (assumption | rule move_forms moves_intros | simp add: keeps_user_def below_def)+

lemma move_grant_oper [moves_intros]:
  "moves C a s \<Longrightarrow> PmRadio \<in> C \<Longrightarrow> PmRaise RkOper uid \<in> C \<Longrightarrow> moves C a (grant_oper e uid s)"
  unfolding grant_oper_def
  by (assumption | rule move_forms moves_intros | simp add: keeps_user_def below_def)+

text \<open>What the answer to a password job may change, by its kind and by whether the password was right.\<close>

definition answer_permissions :: "client_id \<Rightarrow> auth_kind \<Rightarrow> account_error + unit \<Rightarrow> permission set" where
  "answer_permissions i k r =
     (case r of
        Inl _ \<Rightarrow> {}
      | Inr _ \<Rightarrow>
          {PmRadio} \<union>
          (case k of
             AuIdentify \<Rightarrow> {PmAccounts, PmRaise RkOwner (IpUser i)}
           | AuRegister \<Rightarrow> {PmAccounts, PmRaise RkOwner (IpUser i)}
           | AuUnregister \<Rightarrow> {PmAccounts}
           | AuOper \<Rightarrow> {PmRaise RkOper (IpUser i)}))"

lemma move_finish_auth:
  assumes "moves C a s" "answer_permissions i k r \<subseteq> C"
  shows "moves C a (finish_auth e i k n r h s)"
  using assms
  by (cases r; cases k)
     (auto simp: finish_auth_def Let_def answer_permissions_def id_is_rf_def split: option.split
       intro!: move_client_notice move_account_error move_output move_finish_owner move_finish_unregister move_grant_oper)

lemma move_grant_rf_tx [moves_intros]:
  "moves C a s \<Longrightarrow> \<not> id_is_rf uid \<Longrightarrow> PmRadio \<in> C \<Longrightarrow> PmAccounts \<in> C \<Longrightarrow> moves C a (grant_rf_tx e uid n b s)"
  unfolding grant_rf_tx_def
  by (assumption | rule move_any_notice move_forms moves_intros | simp)+

lemma move_record_callsign [moves_intros]:
  "moves C a s \<Longrightarrow> \<not> id_is_rf uid \<Longrightarrow> PmRadio \<in> C \<Longrightarrow> moves C a (record_callsign e uid c b s)"
  unfolding record_callsign_def
  by (assumption | rule move_forms moves_intros | simp add: keeps_user_def below_def)+

lemma move_claim_free [moves_intros]:
  "moves C a s \<Longrightarrow> \<not> id_is_rf uid \<Longrightarrow> PmRadio \<in> C \<Longrightarrow> PmAccounts \<in> C \<Longrightarrow> moves C a (claim_free_callsign e uid c s)"
  unfolding claim_free_callsign_def store_callsign_def
  by (assumption | rule move_forms moves_intros)+

lemma move_callsign [moves_intros]:
  "moves C a s \<Longrightarrow> \<not> id_is_rf uid \<Longrightarrow> PmRadio \<in> C \<Longrightarrow> PmAccounts \<in> C \<Longrightarrow> moves C a (cmd_callsign e uid m s)"
  unfolding cmd_callsign_def by (assumption | rule move_forms moves_intros)+


section \<open>The operator\<close>

lemma move_oper_refused [moves_intros]: "moves C a s \<Longrightarrow> moves C a (oper_refused uid s)"
  unfolding oper_refused_def by (assumption | rule moves_intros)+

text \<open>The name and the password of an operator whose password the configuration has in the clear.\<close>

definition plain_oper_password :: "server_env \<Rightarrow> config \<Rightarrow> message \<Rightarrow> bool" where
  "plain_oper_password e cf m \<longleftrightarrow>
     (case (msg_param m 0, msg_param m 1) of
        (Some name, Some pass) \<Rightarrow>
          (case match_oper (cf_opers cf) name of
             Some secret \<Rightarrow> \<not> en_phc e secret \<and> constant_time_eq secret pass
           | None \<Rightarrow> False)
      | _ \<Rightarrow> False)"

lemma move_oper [moves_intros]:
  assumes "moves C a s" "\<not> id_is_rf uid" "PmRadio \<in> C"
    "plain_oper_password e (srv_config a) m \<longrightarrow> PmRaise RkOper uid \<in> C"
    "case uid of IpUser i \<Rightarrow> PmJob i \<in> C | RfUser _ \<Rightarrow> True"
  shows "moves C a (cmd_oper e uid m s)"
proof (cases "\<exists>name pass. msg_param m 0 = Some name \<and> msg_param m 1 = Some pass")
  case True
  then obtain name pass where m: "msg_param m 0 = Some name" "msg_param m 1 = Some pass" by blast
  have c: "srv_config x = srv_config a" if "moves C a x" for x
    using that by (rule moves_config)
  have "moves C a (grant_oper e uid x)"
    if "moves C a x" "match_oper (cf_opers (srv_config x)) name = Some y" "\<not> en_phc e y" "\<not> \<not> constant_time_eq y pass" for x y
    using that assms m c [OF that(1)] by (intro move_grant_oper) (auto simp: plain_oper_password_def)
  note grant = this
  show ?thesis unfolding cmd_oper_def m
    by (simp only: prod.case option.case, insert assms)
       (assumption | rule grant move_forms moves_intros)+
qed (use assms(1) in \<open>auto simp: cmd_oper_def intro: move_shared split: option.split\<close>)

lemma move_require_oper [moves_intros]:
  "moves C a s \<Longrightarrow> (user_is us_oper s uid \<Longrightarrow> moves C a (f s)) \<Longrightarrow> moves C a (require_oper uid f s)"
  by (simp add: require_oper_def permission_denied_def move_output)

lemma move_radio_reports [moves_intros]:
  assumes "moves C a s" "\<not> id_is_rf uid"
  shows "moves C a (permission_denied uid s)" "moves C a (radio_status e uid s)" "moves C a (radio_heard e uid s)"
    "moves C a (radio_duty e uid s)" "moves C a (radio_queue e uid s)" "moves C a (radio_mail e uid s)"
  unfolding permission_denied_def radio_status_def radio_heard_def radio_duty_def radio_queue_def radio_mail_def
  by (insert assms) (assumption | rule move_forms moves_intros)+

lemma move_tell_rf [moves_intros]: "moves C a s \<Longrightarrow> moves C a (tell_rf_channels e s)"
  unfolding tell_rf_channels_def by (assumption | rule move_forms moves_intros)+

text \<open>With the permission for the switches, any step of the radio will do.\<close>

lemma move_control:
  "moves C a s \<Longrightarrow> PmRadio \<in> C \<Longrightarrow> PmControl \<in> C \<Longrightarrow> (radio_ok (srv_radio s) \<Longrightarrow> radio_ok (f (srv_radio s)))
   \<Longrightarrow> moves C a (on_radio f s)"
  by (auto simp: on_radio_def intro: moves.radio)

lemma switch_steps_ok:
  "radio_ok r \<Longrightarrow> radio_ok (r\<lparr>rd_enabled := b\<rparr>)" "radio_ok r \<Longrightarrow> radio_ok (set_tx_inhibit b r)"
  "radio_ok r \<Longrightarrow> radio_ok (id_if_needed now r)" "radio_ok r \<Longrightarrow> radio_ok (snd (identify_now now r))"
  "radio_ok r \<Longrightarrow> radio_ok (r\<lparr>rd_tnc := t\<rparr>)"
  using radio_step_ok [of r "RoEnable b" now] radio_step_ok [of r "RoInhibit b" now] radio_step_ok [of r RoIdIfNeeded now]
    radio_step_ok [of r RoIdNow now] radio_ok_cong [of r "r\<lparr>rd_tnc := t\<rparr>"] by simp_all

lemma move_radio_control [moves_intros]:
  assumes "moves C a s" "\<not> id_is_rf uid" "PmRadio \<in> C" "PmControl \<in> C"
  shows "moves C a (radio_off e uid s)" "moves C a (radio_on e uid s)" "moves C a (radio_id e uid s)"
    "moves C a (radio_limit e uid m s)"
  unfolding radio_off_def radio_on_def radio_id_def radio_limit_def limit_duty_def limit_pacing_def limit_usage_def
    on_airtime_def
  by (insert assms) (assumption | rule move_forms move_control moves_intros | simp add: switch_steps_ok)+


lemma move_radio_kick [moves_intros]:
  "moves C a s \<Longrightarrow> \<not> id_is_rf uid \<Longrightarrow> PmRadio \<in> C \<Longrightarrow> moves C a (radio_kick e uid m s)"
  unfolding radio_kick_def by (assumption | rule move_forms moves_intros | simp add: forget_ok)+

lemma move_radio_grant [moves_intros]:
  "moves C a s \<Longrightarrow> \<not> id_is_rf uid \<Longrightarrow> PmRadio \<in> C \<Longrightarrow> PmAccounts \<in> C \<Longrightarrow> moves C a (radio_grant e uid m b s)"
  unfolding radio_grant_def by (assumption | rule move_forms moves_intros)+

text \<open>Without the mode of a control operator, \<open>RADIO\<close> only reports.\<close>

lemma move_cmd_radio [moves_intros]:
  "moves C a s \<Longrightarrow> \<not> id_is_rf uid \<Longrightarrow> user_is us_oper s uid \<longrightarrow> PmRadio \<in> C \<and> PmAccounts \<in> C \<and> PmControl \<in> C
   \<Longrightarrow> moves C a (cmd_radio e uid m s)"
  unfolding cmd_radio_def by (assumption | rule move_forms moves_intros | simp)+

lemma move_kill [moves_intros]:
  "moves C a s \<Longrightarrow> user_is us_oper s uid \<longrightarrow> PmRadio \<in> C \<Longrightarrow> moves C a (cmd_kill e uid m s)"
  unfolding cmd_kill_def permission_denied_def by (assumption | rule move_forms moves_intros | simp)+

lemma move_drop_session [moves_intros]:
  "moves C a s \<Longrightarrow> PmRadio \<in> C \<Longrightarrow> moves C a (drop_session e t s)"
  unfolding drop_session_def
  by (assumption | rule move_any_notice move_forms moves_intros | simp add: keeps_user_def below_def)+

lemma move_expel [moves_intros]:
  "moves C a s \<Longrightarrow> PmRadio \<in> C \<Longrightarrow> moves C a (expel e v s)"
  unfolding expel_def by (assumption | rule move_forms moves_intros | simp)+

lemma move_operator_commands [moves_intros]:
  assumes "moves C a s" "\<not> id_is_rf uid" "user_is us_oper s uid \<longrightarrow> PmRadio \<in> C \<and> PmAccounts \<in> C"
  shows "moves C a (cmd_accounts e uid s)" "moves C a (cmd_dropnick e uid m s)" "moves C a (cmd_unclaim e uid m s)"
    "moves C a (cmd_kline e uid m s)" "moves C a (cmd_unkline e uid m s)" "moves C a (cmd_klines e uid s)"
    "moves C a (cmd_passwd e uid m s)"
  unfolding cmd_accounts_def cmd_dropnick_def cmd_unclaim_def cmd_kline_def cmd_unkline_def cmd_klines_def cmd_passwd_def
  by (insert assms) (assumption | rule move_forms moves_intros move_bool | simp)+

section \<open>The dispatcher\<close>

lemma move_small_commands [moves_intros]:
  "moves C a s \<Longrightarrow> moves C a (cmd_quit e i m s)"
  "moves C a s \<Longrightarrow> moves C a (cmd_ping i m s)"
  "moves C a s \<Longrightarrow> moves C a (cmd_names uid m s)"
  "moves C a s \<Longrightarrow> moves C a (cmd_away uid m s)"
  unfolding cmd_quit_def cmd_ping_def cmd_names_def cmd_away_def
  by (assumption | rule move_forms moves_intros | simp add: id_is_rf_def keeps_user_def below_def)+

text \<open>The permissions a command of a client needs: by its word, and by whether the client is an operator.\<close>

definition command_permissions :: "server_env \<Rightarrow> server \<Rightarrow> client_id \<Rightarrow> message \<Rightarrow> permission set" where
  "command_permissions e s i m =
     (let cmd = msg_command m; uid = IpUser i in
      {PmRadio} \<union> (if user_is us_oper s uid then {PmAccounts} else {})
      \<union> (if user_is us_oper s uid \<and> cmd = lit ''RADIO'' then {PmControl} else {})
      \<union> (if cmd = lit ''CALLSIGN'' then {PmAccounts} else {})
      \<union> (if cmd = lit ''OPER'' \<and> plain_oper_password e (srv_config s) m then {PmRaise RkOper uid} else {})
      \<union> (if cmd \<in> {lit ''OPER'', lit ''REGISTER'', lit ''IDENTIFY'', lit ''UNREGISTER''} then {PmJob i} else {}))"


lemma find_hit: "find P xs = Some y \<Longrightarrow> y \<in> set xs \<and> P y"
  by (induction xs) (auto split: if_splits)

lemma move_dispatch:
  assumes "moves C a s"
    and "list_all (\<lambda>(w, f). msg_command m = lit w \<longrightarrow> moves C a (f s)) (command_table e i (IpUser i) m)"
  shows "moves C a (dispatch e i m s)"
proof (cases "find (\<lambda>(w, _). lit w = msg_command m) (command_table e i (IpUser i) m)")
  case (Some wf)
  then have "wf \<in> set (command_table e i (IpUser i) m)" "msg_command m = lit (fst wf)"
    using find_hit [OF Some] by (auto simp: case_prod_beta)
  then have "moves C a (snd wf s)"
    using assms(2) by (auto simp: list_all_iff)
  then show ?thesis using Some by (simp add: dispatch_def case_prod_beta)
qed (use assms(1) in \<open>simp add: dispatch_def move_output\<close>)

lemma move_client_rate [moves_intros]: "moves C a s \<Longrightarrow> moves C a (snd (command_rate_ok e i m s))"
  unfolding command_rate_ok_def by (assumption | rule move_forms moves_intros)+

text \<open>Before the dispatcher runs, only the time of the last command and the rate limits have changed.\<close>

lemma move_client_message:
  assumes "moves C a s" "listens = user_is us_listen_only s (IpUser i)"
    and "\<And>x. moves C a x \<Longrightarrow> \<not> listens \<or> listen_only_command (msg_command m) m
          \<Longrightarrow> user_is us_oper x (IpUser i) = user_is us_oper s (IpUser i)
          \<Longrightarrow> moves C a (dispatch e i m x)"
  shows "moves C a (handle_client_message e i m s)"
proof -
  let ?s = "set_user (IpUser i) (\<lambda>u. u\<lparr>us_last_active := en_now e\<rparr>) s"
  obtain ok x where x: "command_rate_ok e i m ?s = (ok, x)" by fastforce
  have "moves C a ?s"
    using assms(1) by (intro move_set_user) (simp_all add: keeps_user_def below_def)
  then have m: "moves C a x" using move_client_rate [of C a ?s e i m] x by simp
  have "st_users (srv_state x) = st_users (srv_state ?s)"
    using x by (auto simp: command_rate_ok_def Let_def case_prod_beta split: if_splits)
  then have o': "user_is us_oper x (IpUser i) = user_is us_oper s (IpUser i)"
    and l: "user_is us_listen_only x (IpUser i) = listens"
    using assms(2) by (auto simp: user_is_def user_of_def st_user_def set_user_def on_state_def user_mut_def
        split: option.splits)
  have d: "moves C a (dispatch e i m x)" if "\<not> listens \<or> listen_only_command (msg_command m) m"
    using assms(3) [OF m that o'] .
  have n: "moves C a (audit k kvs (notice e (IpUser i) t x))" "moves C a (numeric u k' ps x)" for k kvs t u k' ps
    using m by (simp_all add: move_output move_client_notice id_is_rf_def)
  show ?thesis
    using assms(1) d n by (simp add: handle_client_message_def Let_def x l split: bool.split)
qed

lemma move_full_command: "moves (command_permissions e s i m) s (handle_client_message e i m s)"
proof (rule move_client_message [OF moves.here refl])
  let ?C = "command_permissions e s i m" and ?u = "IpUser i"
  fix x assume x: "moves ?C s x" and o': "user_is us_oper x ?u = user_is us_oper s ?u"
  note perms = command_permissions_def [of e s i m, unfolded Let_def]
  have ip: "\<not> id_is_rf ?u" by (simp add: id_is_rf_def)
  have r: "PmRadio \<in> ?C" by (simp add: perms)
  have op: "msg_command m = lit ''RADIO'' \<Longrightarrow> user_is us_oper x ?u \<longrightarrow> PmRadio \<in> ?C \<and> PmAccounts \<in> ?C \<and> PmControl \<in> ?C"
    "user_is us_oper x ?u \<longrightarrow> PmRadio \<in> ?C \<and> PmAccounts \<in> ?C" "user_is us_oper x ?u \<longrightarrow> PmRadio \<in> ?C"
    by (simp_all add: perms o')
  have call: "msg_command m = lit ''CALLSIGN'' \<Longrightarrow> PmAccounts \<in> ?C"
    and oper: "msg_command m = lit ''OPER'' \<Longrightarrow> plain_oper_password e (srv_config s) m \<longrightarrow> PmRaise RkOper ?u \<in> ?C"
    by (simp_all add: perms)
  have job: "case ?u of IpUser i \<Rightarrow> PmJob i \<in> ?C | RfUser _ \<Rightarrow> True"
    if "msg_command m \<in> {lit ''OPER'', lit ''REGISTER'', lit ''IDENTIFY'', lit ''UNREGISTER''}"
    using that by (auto simp: perms)
  then have job: "msg_command m = lit ''OPER'' \<Longrightarrow> case ?u of IpUser i \<Rightarrow> PmJob i \<in> ?C | RfUser _ \<Rightarrow> True"
    "msg_command m = lit ''REGISTER'' \<Longrightarrow> case ?u of IpUser i \<Rightarrow> PmJob i \<in> ?C | RfUser _ \<Rightarrow> True"
    "msg_command m = lit ''IDENTIFY'' \<Longrightarrow> case ?u of IpUser i \<Rightarrow> PmJob i \<in> ?C | RfUser _ \<Rightarrow> True"
    "msg_command m = lit ''UNREGISTER'' \<Longrightarrow> case ?u of IpUser i \<Rightarrow> PmJob i \<in> ?C | RfUser _ \<Rightarrow> True"
    by blast+
  show "moves ?C s (dispatch e i m x)"
    by (rule move_dispatch [OF x], unfold command_table_def list.pred_inject prod.case, intro conjI impI TrueI)
       (assumption | rule x ip r op call oper job disjI1 move_id moves_intros list.pred_inject(1))+
qed


section \<open>A client that may only listen\<close>

lemma lit_eq: "lit v = lit w \<longleftrightarrow> v = w"
  by (simp add: lit_def inj_map_eq_map inj_def)

text \<open>What it may send, without a rank, needs no permission but that of the presence notices, if they are on.\<close>

definition presence_permissions :: "config \<Rightarrow> permission set" where
  "presence_permissions cf = (if rc_presence_notices (cf_radio cf) then {PmRadio} else {})"

lemma move_listen_only:
  assumes "user_is us_listen_only s (IpUser i)"
    and "\<not> user_is us_oper s (IpUser i)" "\<not> user_is us_nick_identified s (IpUser i)"
  shows "moves (presence_permissions (srv_config s)) s (handle_client_message e i m s)"
proof (rule move_client_message [OF moves.here refl])
  let ?u = "IpUser i" and ?C = "presence_permissions (srv_config s)"
  fix x assume x: "moves ?C s x" and o': "user_is us_oper x ?u = user_is us_oper s ?u"
    and listen: "\<not> user_is us_listen_only s ?u \<or> listen_only_command (msg_command m) m"
  then have w: "listen_only_command (msg_command m) m" using assms(1) by blast
  have ip: "\<not> id_is_rf ?u" by (simp add: id_is_rf_def)
  have op: "user_is us_oper x ?u \<longrightarrow> p" for p
    using o' assms(2) by simp
  have nick: "PmRadio \<in> ?C \<or> PmRaise RkNew ?u \<notin> ?C \<and> PmRaise RkOwner ?u \<notin> ?C \<and> \<not> user_is us_nick_identified s ?u"
    using assms(3) by (simp add: presence_permissions_def)
  have pres: "PmRadio \<in> ?C \<or> \<not> rc_presence_notices (cf_radio (srv_config s))"
    by (simp add: presence_permissions_def)
  have query: "msg_command m = lit ''MODE'' \<Longrightarrow> PmRadio \<in> ?C \<or> msg_param m 1 = None"
    "msg_command m = lit ''TOPIC'' \<Longrightarrow> PmRadio \<in> ?C \<or> msg_param m 1 = None"
    using w by (auto simp: listen_only_command_def listen_only_words_def lit_eq)
  have barred: "P" if "msg_command m = lit c"
    "c \<in> {''PRIVMSG'', ''NOTICE'', ''INVITE'', ''OPER'', ''CALLSIGN'', ''KICK'', ''KILL'', ''ACCOUNTS'', ''DROPNICK'',
      ''UNCLAIM'', ''KLINE'', ''UNKLINE'', ''KLINES'', ''PASSWD'', ''REGISTER'', ''IDENTIFY'', ''UNREGISTER''}" for P c
    using that w by (auto simp: listen_only_command_def listen_only_words_def lit_eq)
  show "moves ?C s (dispatch e i m x)"
    by (rule move_dispatch [OF x], unfold command_table_def list.pred_inject prod.case, intro conjI impI TrueI)
       ((erule barred, simp; fail) | assumption | rule x ip op nick pres query move_id moves_intros list.pred_inject(1))+
qed

end
