(* ===== verification/Event_Frames.thy ===== *)
theory Event_Frames
  imports Operator_Frames
begin

text \<open>
  What the events of the server change, and the states the server can reach.
\<close>

section \<open>A connection\<close>

lemma fine_insert_client [rank_intros]:
  assumes "map_of (st_users st) (IpUser i) = None" "(RkNew, IpUser i) \<in> P"
  shows "state_fine P st (insert_user (new_user now i host lo) st)"
proof -
  let ?new = "user_new (IpUser i) host now"
  let ?f = "\<lambda>u. u\<lparr>us_listen_only := lo\<rparr>"
  have "insert_user (new_user now i host lo) st = user_mut (IpUser i) ?f (insert_user ?new st)"
    by (simp add: insert_user_def user_mut_def new_user_def user_new_def)
  moreover have "keeps_user ?f" by (simp add: keeps_user_def)
  ultimately have "st_ok st \<Longrightarrow> st_ok (insert_user (new_user now i host lo) st)"
    using insert_user_inv [OF _ assms(1)] user_mut_inv by metis
  moreover have "ranks_kept P st (insert_user (new_user now i host lo) st)"
    using assms(2) by (auto simp: ranks_kept_def insert_user_def new_user_def user_new_def user_kept_def update_conv')
  ultimately show ?thesis by (simp add: state_fine_def)
qed

lemma move_connected:
  assumes "moves C a s" "PmRadio \<in> C" "PmRaise RkNew (IpUser i) \<in> C" "user_of s (IpUser i) = None"
  shows "moves C a (on_connected e i host lo cap h s)"
proof -
  let ?s = "on_radio (\<lambda>r. r\<lparr>rd_stats := (rd_stats r)\<lparr>ip_connections := ip_connections (rd_stats r) + 1\<rparr>\<rparr>)
    (s\<lparr>srv_clients := clients_insert i cap h (srv_clients s)\<rparr>)"
  have "moves C a ?s"
    using assms(1,2) by (intro move_on_radio moves.clients fine_counted) simp_all
  then have "moves C a (audit k kvs ?s)" for k kvs by (rule move_output)
  moreover have "map_of (st_users (srv_state (audit k kvs ?s))) (IpUser i) = None" for k kvs
    using assms(4) by (simp add: audit_def on_radio_def user_of_def st_user_def)
  ultimately have "moves C a (on_state (insert_user (new_user now i host lo)) (audit k kvs ?s))" for k kvs now
    using assms(3) by (intro move_on_state fine_insert_client) auto
  then show ?thesis
    using assms(1) by (cases lo; simp add: on_connected_def Let_def move_output split: option.split)
qed

lemma move_disconnected [moves_intros]:
  "moves C a s \<Longrightarrow> moves C a (on_disconnected e i reason s)"
  unfolding on_disconnected_def by (assumption | rule move_forms moves_intros | simp add: id_is_rf_def)+

lemma move_line:
  "moves C a s \<Longrightarrow> (\<And>m. message_parse l = Some m \<Longrightarrow> moves C a (handle_client_message e i m s)) \<Longrightarrow> moves C a (on_line e i l s)"
  by (auto simp: on_line_def split: option.split)

section \<open>The periodic work\<close>

lemma move_warn [moves_intros]:
  "moves C a s \<Longrightarrow> PmRadio \<in> C \<Longrightarrow> moves C a (warn_nick_store_failures e s)"
  unfolding warn_nick_store_failures_def by (assumption | rule move_forms moves_intros)+

lemma move_close_with [moves_intros]:
  "moves C a s \<Longrightarrow> PmRadio \<in> C \<Longrightarrow> moves C a (close_with e l r uid s)"
  unfolding close_with_def by (assumption | rule move_forms moves_intros | simp)+

lemma move_expire_unregistered [moves_intros]:
  "moves C a s \<Longrightarrow> PmRadio \<in> C \<Longrightarrow> moves C a (expire_unregistered e s)"
  unfolding expire_unregistered_def by (assumption | rule move_forms moves_intros)+

lemma move_identify_timeout [moves_intros]:
  "moves C a s \<Longrightarrow> PmRadio \<in> C \<Longrightarrow> moves C a (identify_timeout_quit e uid s)"
  unfolding identify_timeout_quit_def by (assumption | rule move_any_notice move_forms moves_intros)+

lemma guest_no_star: "lower (guest_nick i k) \<noteq> no_nick"
  unfolding lower_no_nick by (simp add: guest_nick_def Let_def no_nick_def lit_def)

lemma move_release_nick [moves_intros]:
  "moves C a s \<Longrightarrow> PmRadio \<in> C \<Longrightarrow> moves C a (release_nick e uid s)"
  unfolding release_nick_def
  by (assumption | rule move_any_notice move_forms moves_intros rank_intros fine_refl guest_no_star
      | simp add: keeps_user_def below_def)+

lemma move_expire_unidentified [moves_intros]:
  "moves C a s \<Longrightarrow> PmRadio \<in> C \<Longrightarrow> moves C a (expire_unidentified e s)"
  unfolding expire_unidentified_def by (assumption | rule move_forms moves_intros)+

lemma move_lose_station [moves_intros]:
  "moves C a s \<Longrightarrow> PmRadio \<in> C \<Longrightarrow> moves C a (lose_station e c s)"
  "moves C a s \<Longrightarrow> PmRadio \<in> C \<Longrightarrow> moves C a (reap_station e c s)"
  unfolding lose_station_def reap_station_def by (assumption | rule move_forms moves_intros | simp)+

lemma move_retry [moves_intros]:
  assumes "moves C a s" "PmRadio \<in> C"
  shows "moves C a (retry_sessions e s)"
proof -
  let ?s = "on_radio (drain_keyed (en_now e)) s"
  let ?t = "\<lambda>b. tick_retries (en_now e) b (rd_sessions (srv_radio ?s))"
  have "moves C a ?s" using assms by (intro move_on_radio fine_radio fine_refl)
  then have "moves C a (on_sessions (\<lambda>_. snd (?t b)) ?s)" for b
    using assms(2) by (intro move_sessions tick_retries_ok)
  moreover have "moves C a (fold (\<lambda>(c, f). on_radio (transmit_to c f (en_now e))) fs x)" if "moves C a x" for fs x
    using that assms(2) by (auto intro!: move_fold move_on_radio fine_radio)
  ultimately show ?thesis
    using assms(2) by (auto simp: retry_sessions_def Let_def case_prod_beta intro!: move_fold move_lose_station move_on_radio
        fine_radio)
qed

lemma move_tick [moves_intros]:
  "moves C a s \<Longrightarrow> PmRadio \<in> C \<Longrightarrow> moves C a (on_tick e s)"
  unfolding on_tick_def by (assumption | rule move_forms moves_intros | simp)+

lemma move_shutdown [moves_intros]:
  "moves C a s \<Longrightarrow> PmRadio \<in> C \<Longrightarrow> moves C a (on_shutdown e s)"
  unfolding on_shutdown_def by (assumption | rule move_forms moves_intros | simp)+

lemma move_reap [moves_intros]:
  assumes "moves C a s" "PmRadio \<in> C"
  shows "moves C a (reap_evicted_peers e s)"
proof -
  have "moves C a (on_sessions (\<lambda>_. snd (take_evicted (rd_sessions (srv_radio s)))) s)"
    using assms by (intro move_sessions forget_ok)
  then show ?thesis
    using assms(2) by (auto simp: reap_evicted_peers_def case_prod_beta Let_def intro!: move_fold move_lose_station)
qed

section \<open>Every event\<close>

definition event_permissions :: "server_env \<Rightarrow> server \<Rightarrow> event \<Rightarrow> permission set" where
  "event_permissions e s ev =
     (case ev of
        Connected i host lo cap h \<Rightarrow> {PmRadio, PmRaise RkNew (IpUser i)}
      | Line i l \<Rightarrow> (case message_parse l of Some m \<Rightarrow> command_permissions e s i m | None \<Rightarrow> {PmRadio})
      | AuthFinished i k n r h \<Rightarrow> insert PmRadio (answer_permissions i k r)
      | _ \<Rightarrow> {PmRadio})"

text \<open>
  What the rest of the program keeps to: a connection's number was never used before, so no user and no job has it;
  an answer belongs to a job the server handed out.
\<close>

definition event_expected :: "server \<Rightarrow> event \<Rightarrow> bool" where
  "event_expected s ev \<longleftrightarrow>
     (case ev of
        Connected i host lo cap h \<Rightarrow> user_of s (IpUser i) = None \<and> i \<notin> job_client ` set (srv_jobs s)
      | AuthFinished i k n r h \<Rightarrow> (i, k, n) \<in> (\<lambda>j. (job_client j, job_kind j, job_nick j)) ` set (srv_jobs s)
      | _ \<Rightarrow> True)"

theorem event_moves:
  assumes "event_expected s ev"
  shows "moves (event_permissions e s ev) s (handle_event e ev s)"
proof -
  have r: "PmRadio \<in> event_permissions e s ev"
    by (auto simp: event_permissions_def command_permissions_def Let_def split: event.split option.split)
  note here = moves.here [of "event_permissions e s ev" s]
  show ?thesis
  proof (cases ev)
    case (Connected i host lo cap h)
    then have "moves (event_permissions e s ev) s (on_connected e i host lo cap h s)"
      using assms r by (intro move_connected here) (auto simp: event_expected_def event_permissions_def)
    then show ?thesis using r by (simp add: handle_event_def Connected move_reap)
  next
    case (Line i l)
    have "moves (event_permissions e s ev) s (on_line e i l s)"
      by (rule move_line [OF here]) (use Line move_full_command in \<open>simp add: event_permissions_def\<close>)
    then show ?thesis using r by (simp add: handle_event_def Line move_reap)
  next
    case (AuthFinished i k n r' h)
    have "moves (event_permissions e s ev) s (finish_auth e i k n r' h s)"
      by (rule move_finish_auth [OF here]) (auto simp: event_permissions_def AuthFinished)
    then show ?thesis using r by (simp add: handle_event_def AuthFinished move_reap)
  qed (use r here in \<open>simp_all add: handle_event_def move_reap move_disconnected move_rf_frame move_tick move_shutdown\<close>)
qed

end
