(* ===== verification/Server_Safety.thy ===== *)
theory Server_Safety
  imports Event_Frames
begin

text \<open>
  What holds of the whole server: the invariant of every component after any run, that a client that may only listen
  changes nothing that matters, that only an operator has the transmitter, and how a user comes by a rank.
\<close>

section \<open>The invariant\<close>

fun expected_run :: "(server_env \<times> event) list \<Rightarrow> server \<Rightarrow> bool" where
  "expected_run [] s = True"
| "expected_run ((e, ev) # evs) s \<longleftrightarrow> event_expected s ev \<and> (ev = Shutdown \<or> expected_run evs (handle_event e ev s))"

inductive reached :: "server \<Rightarrow> server \<Rightarrow> bool" for s0 where
  start: "reached s0 s0"
| event: "reached s0 s \<Longrightarrow> event_expected s ev \<Longrightarrow> reached s0 (handle_event e ev s)"

lemma run_reached: "expected_run evs s \<Longrightarrow> reached s0 s \<Longrightarrow> reached s0 (server_run evs s)"
  by (induction evs s rule: server_run.induct) (auto intro: reached.event)

lemma event_ok: "server_ok s \<Longrightarrow> event_expected s ev \<Longrightarrow> server_ok (handle_event e ev s)"
  using moves_ok [OF event_moves] .

interpretation server_machine: invariant_machine "\<lambda>(e, ev) s. if event_expected s ev then handle_event e ev s else s" server_ok
  by unfold_locales (auto intro: event_ok)

lemma reached_ok: "reached s0 s \<Longrightarrow> server_ok s0 \<Longrightarrow> server_ok s"
  by (induction rule: reached.induct) (auto intro: event_ok)

lemma configure_ok: "st_ok st \<Longrightarrow> st_ok (configure_channel name now c st)"
proof -
  assume "st_ok st"
  then have "st_ok (ensure_channel (cc_name c) (cc_rf c) st)" by (rule ensure_channel_inv)
  then show ?thesis
    unfolding configure_channel_def by (rule channel_mut_inv) (simp add: keeps_channel_def)
qed

lemma configure_users [simp]: "st_users (configure_channel name now c st) = st_users st"
  by (simp add: configure_channel_def channel_mut_def ensure_channel_def split: option.split)

lemma configured_ok: "st_ok st \<Longrightarrow> st_ok (fold (configure_channel name now) cs st)"
  by (induction cs arbitrary: st) (auto intro: configure_ok)

lemma configured_users [simp]: "st_users (fold (configure_channel name now) cs st) = st_users st"
  by (induction cs arbitrary: st) auto

lemma server_new_ok: "store_ok (ac_store acc) \<Longrightarrow> server_ok (server_new cf tnc wall acc)"
  by (simp add: server_ok_def server_new_def Let_def configured_ok st_default_ok radio_new_ok policy_ok_def policy_new_def
      limiter_new_ok)


text \<open>C1: When the accounts loaded at the start hold one account for each nickname and one owner for each callsign (\<open>store_ok\<close>, which loading
  does not check), then whatever clients, stations, timers and password checks send the server, in any order and with any clock, and whether
  or not the accounts file can be written, after any run from the start the nickname registry, the users and the channels agree,
  every table of the radio side is consistent and within its bounds, no callsign has two owners among the accounts, and
  every rate limiter is within its size. The run is any that uses a connection's number once and answers only the
  password jobs the server handed out.\<close>
theorem every_run_keeps_the_invariants:
  assumes "store_ok (ac_store acc)" "expected_run evs (server_new cf tnc wall acc)"
  shows "server_ok (server_run evs (server_new cf tnc wall acc))"
  using reached_ok [OF run_reached [OF assms(2) reached.start] server_new_ok [OF assms(1)]] .

definition sample_env :: server_env where
  "sample_env = \<lparr>en_now = 9, en_wall = 9, en_json = (\<lambda>_. None), en_fate = (\<lambda>_. IoFine), en_phc = (\<lambda>_. False)\<rparr>"

definition sample_accounts :: accounts where
  "sample_accounts = accounts_of store_default \<lparr>dk_file = None, dk_temp = None\<rparr>"

definition sample_run_events :: "(server_env \<times> event) list" where
  "sample_run_events =
     map (Pair sample_env)
       [Connected 1 (lit ''10.0.0.1'') False 8 True, Line 1 (lit ''NICK alice''), Line 1 (lit ''USER a 0 * :A''),
        Line 1 (lit ''JOIN #chat''), event.Tick, Disconnected 1 (lit ''gone''), Shutdown]"

lemma sample_store: "store_ok (ac_store sample_accounts)"
  by (simp add: sample_accounts_def accounts_of_def store_default_def store_ok_def)

lemma sample_run_reached: "expected_run sample_run_events (server_new valid_config None 0 sample_accounts)"
  by (simp add: sample_run_events_def event_expected_def user_of_def st_user_def server_new_def Let_def irc_state_default_def)

theorem every_run_keeps_the_invariants_witness:
  "server_ok (server_run sample_run_events (server_new valid_config None 0 sample_accounts))"
  by (rule every_run_keeps_the_invariants [OF sample_store sample_run_reached])

section \<open>Which events need a permission\<close>

lemmas permissions = event_permissions_def command_permissions_def answer_permissions_def Let_def

lemma new_needs: "PmRaise RkNew (IpUser i) \<in> event_permissions e s ev \<Longrightarrow> \<exists>host lo cap h. ev = Connected i host lo cap h"
  by (cases ev) (auto simp: permissions split: option.splits if_splits sum.splits auth_kind.splits)

lemma oper_needs:
  "PmRaise RkOper (IpUser i) \<in> event_permissions e s ev \<Longrightarrow>
     (\<exists>n h. ev = AuthFinished i AuOper n (Inr ()) h) \<or>
     (\<exists>l m. ev = Line i l \<and> message_parse l = Some m \<and> msg_command m = lit ''OPER'' \<and> plain_oper_password e (srv_config s) m)"
  by (cases ev) (auto simp: permissions split: option.splits if_splits sum.splits auth_kind.splits)

lemma owner_needs:
  "PmRaise RkOwner (IpUser i) \<in> event_permissions e s ev \<Longrightarrow>
     \<exists>k n h. ev = AuthFinished i k n (Inr ()) h \<and> k \<in> {AuIdentify, AuRegister}"
  by (cases ev) (auto simp: permissions split: option.splits if_splits sum.splits auth_kind.splits)

lemma job_needs: "PmJob i \<in> event_permissions e s ev \<Longrightarrow> \<exists>l. ev = Line i l"
  by (cases ev) (auto simp: permissions split: option.splits if_splits sum.splits auth_kind.splits)

lemma control_needs:
  "PmControl \<in> event_permissions e s ev \<Longrightarrow>
     \<exists>i l m. ev = Line i l \<and> message_parse l = Some m \<and> msg_command m = lit ''RADIO'' \<and> user_is us_oper s (IpUser i)"
  by (cases ev) (auto simp: permissions split: option.splits if_splits sum.splits auth_kind.splits)

lemma moves_kept: "moves C a s \<Longrightarrow> user_of s i = Some v \<Longrightarrow> user_kept (raises C) i (user_of a i) v"
  unfolding user_of_def st_user_def by (drule moves_ranks) (simp add: ranks_kept_def)

lemma moves_new:
  assumes "moves C a s" "user_of a uid = None" "\<not> id_is_rf uid" "PmRaise RkOper uid \<notin> C" "PmRaise RkOwner uid \<notin> C"
  shows "\<not> user_is us_oper s uid \<and> \<not> user_is us_nick_identified s uid"
proof (cases "user_of s uid")
  case (Some v)
  then have "user_kept (raises C) uid None v"
    using moves_kept [OF assms(1), of uid v] assms(2) by simp
  then show ?thesis using assms(3-5) Some by (auto simp: user_kept_def user_is_def)
qed (simp add: user_is_def)

section \<open>Listen-only clients\<close>

text \<open>A client that may only listen has no rank, and no password is checked for it.\<close>

definition listeners_ok :: "server \<Rightarrow> bool" where
  "listeners_ok s \<longleftrightarrow>
     (\<forall>i. user_is us_listen_only s (IpUser i) \<longrightarrow>
        \<not> user_is us_oper s (IpUser i) \<and> \<not> user_is us_nick_identified s (IpUser i) \<and> i \<notin> job_client ` set (srv_jobs s))"

lemma listener_line:
  assumes "listeners_ok s" "user_is us_listen_only s (IpUser i)"
  shows "moves {PmRadio} s (handle_event e (Line i l) s)"
proof -
  have "moves {PmRadio} s (handle_client_message e i m s)" for m
    using assms by (intro moves_mono [OF move_listen_only]) (auto simp: listeners_ok_def presence_permissions_def)
  then have "moves {PmRadio} s (on_line e i l s)"
    by (intro move_line moves.here) simp
  then show ?thesis by (simp add: handle_event_def move_reap)
qed

lemma kept_listener:
  assumes "moves C s s'" "PmRaise RkNew (IpUser i) \<notin> C" "PmRaise RkOper (IpUser i) \<notin> C"
    "PmRaise RkOwner (IpUser i) \<notin> C" "PmJob i \<notin> C" "listeners_ok s" "user_is us_listen_only s' (IpUser i)"
  shows "\<not> user_is us_oper s' (IpUser i) \<and> \<not> user_is us_nick_identified s' (IpUser i) \<and> i \<notin> job_client ` set (srv_jobs s')"
proof -
  have u: "\<not> id_is_rf (IpUser i)" by (simp add: id_is_rf_def)
  have l: "user_is us_listen_only s (IpUser i)"
    using moves_user_is(3) [OF assms(1,2) u] assms(7) by blast
  then show ?thesis
    using moves_user_is [OF assms(1,2) u] moves_jobs [OF assms(1)] assms(3-6)
    by (auto simp: listeners_ok_def)
qed


lemma event_listeners:
  assumes l: "listeners_ok s" and ev: "event_expected s ev"
  shows "listeners_ok (handle_event e ev s)"
  unfolding listeners_ok_def
proof (intro allI impI)
  let ?s = "handle_event e ev s" and ?C = "event_permissions e s ev"
  fix i assume i: "user_is us_listen_only ?s (IpUser i)"
  note m = event_moves [OF ev, of e]
  show "\<not> user_is us_oper ?s (IpUser i) \<and> \<not> user_is us_nick_identified ?s (IpUser i) \<and> i \<notin> job_client ` set (srv_jobs ?s)"
  proof (cases "PmRaise RkNew (IpUser i) \<in> ?C")
    case True
    then obtain host lo cap h where c: "ev = Connected i host lo cap h"
      using new_needs by blast
    then have fresh: "user_of s (IpUser i) = None" "i \<notin> job_client ` set (srv_jobs s)"
      using ev by (auto simp: event_expected_def)
    have none: "PmRaise RkOper (IpUser i) \<notin> ?C" "PmRaise RkOwner (IpUser i) \<notin> ?C" "PmJob i \<notin> ?C"
      using oper_needs owner_needs job_needs c by fastforce+
    then show ?thesis
      using moves_new [OF m fresh(1) _ none(1,2)] moves_jobs [OF m] fresh(2) by (auto simp: id_is_rf_def)
  next
    case old: False
    show ?thesis
    proof (cases "PmRaise RkOper (IpUser i) \<in> ?C \<or> PmRaise RkOwner (IpUser i) \<in> ?C \<or> PmJob i \<in> ?C")
      case False
      then show ?thesis using kept_listener [OF m old _ _ _ l i] by blast
    next
      case True
      have was: "user_is us_listen_only s (IpUser i)"
        using moves_user_is(3) [OF m old] i by (simp add: id_is_rf_def)
      from True consider l' where "ev = Line i l'" | k n r h where "ev = AuthFinished i k n r h"
        using oper_needs owner_needs job_needs by blast
      then show ?thesis
      proof cases
        case (1 l')
        then show ?thesis
          using kept_listener [OF listener_line [OF l was, of e l'], of i] l i by simp
      next
        case 2
        then show ?thesis using ev l was by (force simp: event_expected_def listeners_ok_def)
      qed
    qed
  qed
qed

lemma reached_listeners: "reached s0 s \<Longrightarrow> listeners_ok s0 \<Longrightarrow> listeners_ok s"
  by (induction rule: reached.induct) (auto intro: event_listeners)

lemma new_listeners: "listeners_ok (server_new cf tnc wall acc)"
  by (simp add: listeners_ok_def user_is_def user_of_def st_user_def server_new_def Let_def irc_state_default_def)

text \<open>C5: A connection that may only listen (plaintext from another machine) can do no harm. In every state the server
  reaches, whatever such a client sends, it is neither an operator nor the owner of a nick afterwards, it has no password
  checked, the accounts are as they were, nobody else's rank has risen, and, unless presence notices are configured, the
  radio side is untouched: nothing is queued for the air, no session, mailbox or switch has changed.\<close>
theorem listen_only_client_is_harmless:
  assumes "reached (server_new cf tnc wall acc) s" "user_is us_listen_only s (IpUser i)"
  shows "srv_accounts (handle_client_message e i m s) = srv_accounts s
    \<and> set (srv_jobs (handle_client_message e i m s)) \<subseteq> set (srv_jobs s)
    \<and> ranks_kept {} (srv_state s) (srv_state (handle_client_message e i m s))
    \<and> \<not> user_is us_oper (handle_client_message e i m s) (IpUser i)
    \<and> \<not> user_is us_nick_identified (handle_client_message e i m s) (IpUser i)
    \<and> (rc_presence_notices (cf_radio (srv_config s)) \<or> srv_radio (handle_client_message e i m s) = srv_radio s)"
proof -
  have l: "listeners_ok s" using reached_listeners [OF assms(1) new_listeners] .
  then have r: "\<not> user_is us_oper s (IpUser i)" "\<not> user_is us_nick_identified s (IpUser i)"
    using assms(2) by (auto simp: listeners_ok_def)
  note m = move_listen_only [OF assms(2) r, of e m]
  let ?C = "presence_permissions (srv_config s)"
  have none: "PmAccounts \<notin> ?C" "PmRaise k j \<notin> ?C" "PmJob n \<notin> ?C" for k j n
    by (simp_all add: presence_permissions_def)
  then have "raises ?C = {}" "\<not> id_is_rf (IpUser i)" by (auto simp: id_is_rf_def)
  moreover have "rc_presence_notices (cf_radio (srv_config s)) \<or> PmRadio \<notin> ?C"
    by (simp add: presence_permissions_def)
  ultimately show ?thesis
    using moves_accounts [OF m none(1)] moves_jobs [OF m] none(3) moves_ranks [OF m] moves_radio [OF m]
      moves_user_is(1) [OF m none(2) _ none(2)] moves_user_is(2) [OF m none(2) _ none(2)] r
    by auto
qed

definition listening :: server where
  "listening = handle_event sample_env (Connected 1 (lit ''10.0.0.1'') True 8 True)
     (server_new valid_config None 0 sample_accounts)"

lemma listening_reached: "reached (server_new valid_config None 0 sample_accounts) listening"
  unfolding listening_def
  by (rule reached.event [OF reached.start])
     (simp add: event_expected_def user_of_def st_user_def server_new_def Let_def irc_state_default_def)

lemma nobody_refused:
  "st_users (srv_state s) = [] \<Longrightarrow> so_ip_bans (ac_store (srv_accounts s)) = [] \<Longrightarrow> connect_refusal host s = None"
  by (auto simp: connect_refusal_def Let_def is_ip_banned_def ip_users_def ip_count_from_host_def)

lemma listening_user: "user_is us_listen_only listening (IpUser 1)"
proof -
  let ?s = "server_new valid_config None 0 sample_accounts"
  have "connect_refusal (lit ''10.0.0.1'') ?s = None"
    by (rule nobody_refused) (simp_all add: server_new_def Let_def irc_state_default_def sample_accounts_def accounts_of_def
        store_default_def)
  moreover have "take_evicted (rd_sessions (srv_radio ?s)) = ([], rd_sessions (srv_radio ?s))"
    by (simp add: server_new_def Let_def radio_new_def sessions_new_def take_evicted_def)
  moreover have "reap_evicted_peers e x = x" if "take_evicted (rd_sessions (srv_radio x)) = ([], rd_sessions (srv_radio x))" for e x
    using that by (simp add: reap_evicted_peers_def on_sessions_def on_radio_def)
  ultimately show ?thesis
    by (simp add: listening_def handle_event_def on_connected_def Let_def on_state_def audit_def on_radio_def user_is_def user_of_def
        st_user_def insert_user_def new_user_def user_new_def)
qed

theorem listen_only_client_is_harmless_witness:
  "\<not> user_is us_oper (handle_client_message sample_env 1 (message_new (lit ''OPER'') [lit ''root'', lit ''guess'']) listening) (IpUser 1)"
  using listen_only_client_is_harmless [OF listening_reached listening_user] by blast

section \<open>The transmitter\<close>

text \<open>C2: Only an operator has the transmitter. The switch, the inhibit and the two overrides of the airtime governor are after
  any event what they were before it, unless the event is a line from a client that is a control operator and whose command
  is \<open>RADIO\<close>: no frame from the air, no timer, no password answer and no other client changes them.\<close>
theorem only_an_operator_has_the_transmitter:
  assumes "event_expected s ev"
  shows "switches (srv_radio (handle_event e ev s)) = switches (srv_radio s) \<or>
    (\<exists>i l m. ev = Line i l \<and> message_parse l = Some m \<and> msg_command m = lit ''RADIO'' \<and> user_is us_oper s (IpUser i))"
  using moves_switches [OF event_moves [OF assms, of e]] control_needs [of e s ev] by blast

theorem only_an_operator_has_the_transmitter_witness:
  "switches (srv_radio (handle_event sample_env (Line 1 (lit ''RADIO OFF'')) (server_new valid_config None 0 sample_accounts)))
     = switches (srv_radio (server_new valid_config None 0 sample_accounts))"
  using only_an_operator_has_the_transmitter [of "server_new valid_config None 0 sample_accounts" "Line 1 (lit ''RADIO OFF'')" sample_env]
  by (simp add: event_expected_def user_is_def user_of_def st_user_def server_new_def Let_def irc_state_default_def)

section \<open>Ranks\<close>

text \<open>The clients that are operators, and those that own the nick they have.\<close>

definition opers :: "server \<Rightarrow> client_id set" where
  "opers s = {i. user_is us_oper s (IpUser i)}"

definition owners :: "server \<Rightarrow> client_id set" where
  "owners s = {i. user_is us_nick_identified s (IpUser i)}"

lemma moves_opers:
  assumes "moves C a s"
  shows "opers s \<subseteq> opers a \<union> {i. PmRaise RkOper (IpUser i) \<in> C}"
    and "owners s \<subseteq> owners a \<union> {i. PmRaise RkOwner (IpUser i) \<in> C}"
  using moves_kept [OF assms]
  by (fastforce simp: opers_def owners_def user_is_def user_kept_def below_def id_is_rf_def split: option.splits)+

text \<open>C3: A user becomes a control operator only by the answer that a password matches, to an \<open>OPER\<close> of its own connection, or by
  an \<open>OPER\<close> that names a configured operator and gives the password the configuration has in the clear; and the identified
  owner of a nick only by such an answer to its own \<open>IDENTIFY\<close> or \<open>REGISTER\<close>. No other event raises anyone, and a new
  connection has no rank.\<close>
theorem ranks_come_from_passwords:
  assumes "event_expected s ev"
  shows "opers (handle_event e ev s) \<subseteq> opers s \<union> {i. \<exists>n h. ev = AuthFinished i AuOper n (Inr ()) h}
      \<union> {i. \<exists>l m. ev = Line i l \<and> message_parse l = Some m \<and> msg_command m = lit ''OPER'' \<and> plain_oper_password e (srv_config s) m}
    \<and> owners (handle_event e ev s) \<subseteq> owners s \<union> {i. \<exists>k n h. ev = AuthFinished i k n (Inr ()) h \<and> k \<in> {AuIdentify, AuRegister}}"
  using moves_opers [OF event_moves [OF assms, of e]] oper_needs [of _ e s ev] owner_needs [of _ e s ev] by blast

theorem ranks_come_from_passwords_witness:
  "opers (handle_event sample_env event.Tick listening) \<subseteq> opers listening"
  using ranks_come_from_passwords [of listening event.Tick sample_env] by (simp add: event_expected_def)

end
