(* ===== verification/Claims.thy ===== *)
theory Claims
  imports Server_Frames Accounts_Proofs
begin

text \<open>
  The recursion between \<open>refresh_rf_tx\<close>, \<open>refresh_privileges\<close> and \<open>strip_callsign_claims\<close> ends. It is followed on
  what it reads and writes of the server: the callsign each user claims, and the one each user's account holds. With no callsign held
  by two accounts, every user who is restored to the account's callsign keeps it, so a level of the recursion is
  a user settled.
\<close>

section \<open>The recursion on claims alone\<close>

fun settle_claims :: "('i \<Rightarrow> 'c option) \<Rightarrow> 'i list \<Rightarrow> nat \<Rightarrow> 'c \<Rightarrow> 'i option \<Rightarrow> ('i \<Rightarrow> 'c option) \<Rightarrow> ('i \<Rightarrow> 'c option) option" where
  "settle_claims g us 0 c keep f = None"
| "settle_claims g us (Suc n) c keep f =
     for_all
       (\<lambda>v f. case g v of None \<Rightarrow> Some (f(v := None)) | Some d \<Rightarrow> settle_claims g us n d (Some v) (f(v := Some d)))
       (filter (\<lambda>i. Some i \<noteq> keep \<and> f i = Some c) us) f"

text \<open>The users whose account holds a callsign they do not have now.\<close>

definition unsettled :: "('i \<Rightarrow> 'c option) \<Rightarrow> 'i list \<Rightarrow> ('i \<Rightarrow> 'c option) \<Rightarrow> 'i set" where
  "unsettled g us f = {i \<in> set us. g i \<noteq> None \<and> f i \<noteq> g i}"

definition one_owner :: "('i \<Rightarrow> 'c option) \<Rightarrow> bool" where
  "one_owner g \<longleftrightarrow> (\<forall>i j c. g i = Some c \<longrightarrow> g j = Some c \<longrightarrow> i = j)"

text \<open>A callsign other than \<open>c\<close> whose owner has it stays with everyone who has it.\<close>

definition undisturbed :: "('i \<Rightarrow> 'c option) \<Rightarrow> 'c \<Rightarrow> ('i \<Rightarrow> 'c option) \<Rightarrow> ('i \<Rightarrow> 'c option) \<Rightarrow> bool" where
  "undisturbed g c f f' \<longleftrightarrow> (\<forall>d w. d \<noteq> c \<longrightarrow> g w = Some d \<longrightarrow> f w = Some d \<longrightarrow> (\<forall>x. f x = Some d \<longrightarrow> f' x = Some d))"

lemma unsettled_finite [simp]: "finite (unsettled g us f)"
  by (simp add: unsettled_def)

lemma unsettled_settles:
  assumes "x \<in> set us" "g x = Some d" "f x \<noteq> Some d"
  shows "card (unsettled g us (f(x := Some d))) < card (unsettled g us f)"
proof -
  have "unsettled g us (f(x := Some d)) = unsettled g us f - {x}" "x \<in> unsettled g us f"
    using assms by (auto simp: unsettled_def)
  then show ?thesis by (simp only:) (rule card_Diff1_less, simp_all)
qed

lemma unsettled_bound: "x \<in> set us \<Longrightarrow> g x = Some d \<Longrightarrow> card (unsettled g us (f(x := Some d))) < length us"
proof -
  assume "x \<in> set us" "g x = Some d"
  then have "unsettled g us (f(x := Some d)) \<subset> set us" by (auto simp: unsettled_def)
  then have "card (unsettled g us (f(x := Some d))) < card (set us)" by (rule psubset_card_mono [rotated]) simp
  also have "\<dots> \<le> length us" by (rule card_length)
  finally show ?thesis .
qed

lemma settle_owner:
  assumes g: "one_owner g" and us: "distinct us"
  shows "g v = Some c \<Longrightarrow> f v = Some c \<Longrightarrow> card (unsettled g us f) < n \<Longrightarrow>
    \<exists>f'. settle_claims g us n c (Some v) f = Some f' \<and> card (unsettled g us f') \<le> card (unsettled g us f)
      \<and> f' v = Some c \<and> undisturbed g c f f'"
proof (induction n arbitrary: v c f)
  case (Suc n)
  let ?step = "\<lambda>x f. case g x of None \<Rightarrow> Some (f(x := None)) | Some d \<Rightarrow> settle_claims g us n d (Some x) (f(x := Some d))"
  have loop: "\<exists>f'. for_all ?step xs h = Some f' \<and> card (unsettled g us f') \<le> card (unsettled g us f)
      \<and> f' v = Some c \<and> undisturbed g c f f'"
    if "distinct xs" "v \<notin> set xs" "set xs \<subseteq> set us" "\<forall>x \<in> set xs. f x = Some c \<and> h x = Some c" "h v = Some c"
      "card (unsettled g us h) \<le> card (unsettled g us f)" "undisturbed g c f h" for xs h
    using that
  proof (induction xs arbitrary: h)
    case (Cons x xs)
    note x = Cons.prems
    show ?case
    proof (cases "g x")
      case None
      obtain h' where h': "h' = h(x := None)" by blast
      then have "unsettled g us h' = unsettled g us h" "h' v = Some c" "\<forall>y \<in> set xs. h' y = Some c" "undisturbed g c f h'"
        using None x by (auto simp: unsettled_def undisturbed_def)
      then have "\<exists>f'. for_all ?step xs h' = Some f' \<and> card (unsettled g us f') \<le> card (unsettled g us f)
          \<and> f' v = Some c \<and> undisturbed g c f f'"
        using x by (intro Cons.IH) auto
      then show ?thesis using None h' by simp
    next
      case (Some d)
      obtain h1 where h1: "h1 = h(x := Some d)" by blast
      then have h1x: "h1 x = Some d" by simp
      have dc: "d \<noteq> c" using g Some Suc.prems(1) x(2) by (auto simp: one_owner_def)
      have less: "card (unsettled g us h1) < card (unsettled g us h)"
        unfolding h1 using Some x dc by (intro unsettled_settles) auto
      then obtain h' where h': "settle_claims g us n d (Some x) h1 = Some h'" "card (unsettled g us h') \<le> card (unsettled g us h1)"
        "h' x = Some d" "undisturbed g d h1 h'"
        using Suc.IH [of x d h1] Some Suc.prems(3) x(6) h1x by auto
      have stay: "h' y = Some c" if "h y = Some c" "y \<noteq> x" for y
        using h'(4) dc Suc.prems(1) x(2,5) that by (auto simp: undisturbed_def h1)
      have "undisturbed g c f h'"
        unfolding undisturbed_def
      proof (intro allI impI)
        fix d' w y assume a: "d' \<noteq> c" "g w = Some d'" "f w = Some d'" "f y = Some d'"
        then have "h w = Some d'" "h y = Some d'" "w \<noteq> x" "y \<noteq> x"
          using x(4,7) by (auto simp: undisturbed_def)
        moreover have "d' \<noteq> d" using g a(2) Some \<open>w \<noteq> x\<close> by (auto simp: one_owner_def)
        ultimately show "h' y = Some d'" using h'(4) a(2) by (auto simp: undisturbed_def h1)
      qed
      then have "\<exists>f'. for_all ?step xs h' = Some f' \<and> card (unsettled g us f') \<le> card (unsettled g us f)
          \<and> f' v = Some c \<and> undisturbed g c f f'"
        using x h'(2) less stay by (intro Cons.IH) auto
      then show ?thesis using Some h'(1) h1 by simp
    qed
  qed simp
  have "undisturbed g c f f" by (simp add: undisturbed_def)
  then show ?case
    using Suc.prems us by (auto intro!: loop [of "filter (\<lambda>i. i \<noteq> v \<and> f i = Some c) us" f])
qed simp

lemma settle_ends:
  assumes "one_owner g" "distinct us" "length us < n"
  shows "settle_claims g us n c keep f \<noteq> None"
proof -
  obtain k where n: "n = Suc k" "length us \<le> k" using assms(3) by (cases n) auto
  let ?step = "\<lambda>x f. case g x of None \<Rightarrow> Some (f(x := None)) | Some d \<Rightarrow> settle_claims g us k d (Some x) (f(x := Some d))"
  have "?step x h \<noteq> None" if "x \<in> set us" for x h
  proof (cases "g x")
    case (Some d)
    then have "card (unsettled g us (h(x := Some d))) < k"
      using unsettled_bound [of x us g d h] that n(2) by simp
    then show ?thesis using settle_owner [OF assms(1,2) Some, of "h(x := Some d)"] Some by auto
  qed simp
  then have loop: "for_all ?step xs h \<noteq> None" if "set xs \<subseteq> set us" for xs h
    using that
  proof (induction xs arbitrary: h)
    case (Cons x xs)
    then obtain h' where "?step x h = Some h'" by fastforce
    then show ?case using Cons by simp
  qed simp
  show ?thesis unfolding n(1) settle_claims.simps by (rule loop) auto
qed


section \<open>The server's recursion is this one\<close>

definition claim :: "server \<Rightarrow> user_id \<Rightarrow> callsign option" where
  "claim s i = Option.bind (user_of s i) us_callsign"

text \<open>The callsign held by the account a user of the Internet side has identified to.\<close>

definition owned :: "server \<Rightarrow> user_id \<Rightarrow> callsign option" where
  "owned s i = (case user_of s i of Some u \<Rightarrow> if user_is_rf u then None else stored_call s u | None \<Rightarrow> None)"

definition user_ids :: "server \<Rightarrow> user_id list" where
  "user_ids s = map fst (st_users (srv_state s))"

text \<open>Two servers with the same users, nicks, identifications and accounts.\<close>

definition same_owners :: "server \<Rightarrow> server \<Rightarrow> bool" where
  "same_owners a s \<longleftrightarrow> users_ok (srv_state s) \<and> owned s = owned a \<and> user_ids s = user_ids a"

lemma stored_call_cong: "srv_accounts s' = srv_accounts s \<Longrightarrow> stored_call s' = stored_call s"
  by (simp add: stored_call_def fun_eq_iff)

lemma same_owners_state:
  assumes "same_owners a s" "st_users (srv_state s') = st_users (srv_state s)" "srv_accounts s' = srv_accounts s"
  shows "same_owners a s' \<and> claim s' = claim s"
proof -
  have "user_of s' = user_of s" using assms(2) by (simp add: fun_eq_iff user_of_def st_user_def)
  then have "owned s' i = owned s i" "claim s' = claim s" "user_ids s' = user_ids s" for i
    using stored_call_cong [OF assms(3)] assms(2) by (simp_all add: owned_def claim_def [abs_def] user_ids_def split: option.split)
  then have "owned s' = owned s" "claim s' = claim s" "user_ids s' = user_ids s" by auto
  then show ?thesis
    using assms(1) users_ok_cong [OF assms(2)] by (simp add: same_owners_def)
qed

lemma keys_update [simp]: "i \<in> set (map fst m) \<Longrightarrow> map fst (AList.update i v m) = map fst m"
  by (induction m) auto

lemma set_claim:
  assumes "same_owners a s" "user_of s v \<noteq> None"
    and "\<And>u. user_of s v = Some u \<Longrightarrow> us_id (g u) = us_id u \<and> us_nick (g u) = us_nick u \<and> us_channels (g u) = us_channels u
      \<and> us_nick_identified (g u) = us_nick_identified u \<and> us_callsign (g u) = c"
  shows "same_owners a (set_user v g s) \<and> claim (set_user v g s) = (claim s)(v := c)"
proof -
  obtain u where u: "map_of (st_users (srv_state s)) v = Some u" using assms(2) by (auto simp: user_of_def st_user_def)
  have ok: "users_ok (srv_state s)" using assms(1) by (simp add: same_owners_def)
  note g = assms(3) [unfolded user_of_def st_user_def, OF u]
  have s: "srv_state (set_user v g s) = (srv_state s)\<lparr>st_users := AList.update v (g u) (st_users (srv_state s))\<rparr>"
    "srv_accounts (set_user v g s) = srv_accounts s"
    by (simp_all add: set_user_def on_state_def user_mut_def u)
  have "users_ok (srv_state (set_user v g s))"
    unfolding s using users_ok_put [OF ok, of "g u" v] users_ok_get [OF ok u] g by simp
  moreover have "owned (set_user v g s) i = owned s i" for i
    using u g stored_call_cong [OF s(2)]
    by (cases "i = v") (simp_all add: owned_def user_of_def st_user_def s(1) user_is_rf_def stored_call_def split: option.split)
  moreover have "owned (set_user v g s) = owned s" using calculation by auto
  moreover have "user_ids (set_user v g s) = user_ids s"
    using map_of_SomeD [OF u] by (force simp: user_ids_def s intro!: keys_update)
  moreover have "claim (set_user v g s) = (claim s)(v := c)"
    using u g by (auto simp: fun_eq_iff claim_def user_of_def st_user_def s)
  ultimately show ?thesis using assms(1) by (simp add: same_owners_def)
qed


lemma keeps_users [simp]:
  "srv_state (notice_user now v t s) = srv_state s" "srv_accounts (notice_user now v t s) = srv_accounts s"
  "srv_state (announce_mode ch w x y s) = srv_state s" "srv_accounts (announce_mode ch w x y s) = srv_accounts s"
proof -
  have "srv_state (fold (\<lambda>uid. case uid of IpUser i \<Rightarrow> send_raw i l | RfUser _ \<Rightarrow> id) us s) = srv_state s
      \<and> srv_accounts (fold (\<lambda>uid. case uid of IpUser i \<Rightarrow> send_raw i l | RfUser _ \<Rightarrow> id) us s) = srv_accounts s" for l us
    by (induction us arbitrary: s) (auto simp: send_raw_def split: user_id.split)
  then show "srv_state (announce_mode ch w x y s) = srv_state s" "srv_accounts (announce_mode ch w x y s) = srv_accounts s"
    by (simp_all add: announce_mode_def Let_def)
qed (simp_all add: notice_user_def send_raw_def on_radio_def split: user_id.split)

lemma refresh_flags_users [simp]:
  "st_users (srv_state (refresh_flags v s)) = st_users (srv_state s) \<and> srv_accounts (refresh_flags v s) = srv_accounts s"
proof -
  have "st_users (snd (apply_intended_flags v ch st)) = st_users st" for ch st
    by (auto simp: apply_intended_flags_def Let_def split: option.split)
  then have "st_users (srv_state (refresh_channel v nick ch s)) = st_users (srv_state s)
      \<and> srv_accounts (refresh_channel v nick ch s) = srv_accounts s" for nick ch s
    by (simp add: refresh_channel_def Let_def case_prod_beta split: option.split)
  then have "st_users (srv_state (fold (refresh_channel v nick) chs s)) = st_users (srv_state s)
      \<and> srv_accounts (fold (refresh_channel v nick) chs s) = srv_accounts s" for nick chs s
    by (induction chs arbitrary: s) auto
  then show ?thesis by (simp add: refresh_flags_def Let_def)
qed

lemma for_all_rel:
  "(\<And>x s f. x \<in> set xs \<Longrightarrow> R s f \<Longrightarrow> rel_option R (F x s) (G x f)) \<Longrightarrow> R s f \<Longrightarrow> rel_option R (for_all F xs s) (for_all G xs f)"
proof (induction xs arbitrary: s f)
  case (Cons x xs)
  then have "rel_option R (F x s) (G x f)" by simp
  then show ?case using Cons by (cases "F x s"; cases "G x f") auto
qed simp

text \<open>What both recursions keep related.\<close>

definition follows :: "server \<Rightarrow> server \<Rightarrow> (user_id \<Rightarrow> callsign option) \<Rightarrow> bool" where
  "follows a s f \<longleftrightarrow> same_owners a s \<and> claim s = f"

lemma follows_known: "follows a s f \<Longrightarrow> v \<in> set (user_ids a) \<Longrightarrow> \<exists>u. user_of s v = Some u"
proof -
  assume "follows a s f" "v \<in> set (user_ids a)"
  then have "v \<in> set (map fst (st_users (srv_state s)))"
    by (simp add: follows_def same_owners_def user_ids_def flip: set_map)
  then show ?thesis by (cases "map_of (st_users (srv_state s)) v") (auto simp: user_of_def st_user_def map_of_eq_None_iff)
qed

lemma refresh_follows:
  assumes s: "follows a s f" "f v = None" "v \<in> set (user_ids a)"
    and strip: "\<And>d t s f. follows a s f \<Longrightarrow> rel_option (follows a) (strip d v t s) (G d f)"
  shows "rel_option (follows a) (refresh_privileges_with strip v s)
      (case owned a v of None \<Rightarrow> Some f | Some d \<Rightarrow> G d (f(v := Some d)))"
proof -
  have so: "same_owners a s" "claim s = f" using s(1) by (simp_all add: follows_def)
  obtain u where u: "user_of s v = Some u"
    using follows_known [OF s(1,3)] by blast
  then have c: "us_callsign u = None" using s(2) so(2) by (auto simp: claim_def)
  have o': "owned a v = (if user_is_rf u then None else stored_call s u)"
  proof -
    have "owned s v = (if user_is_rf u then None else stored_call s u)" by (simp add: owned_def u)
    moreover have "owned s = owned a" using so(1) by (simp add: same_owners_def)
    ultimately show ?thesis by simp
  qed
  have set_u: "follows a (set_user v g s) (f(v := d))"
    if "\<And>u. us_id (g u) = us_id u \<and> us_nick (g u) = us_nick u \<and> us_channels (g u) = us_channels u
      \<and> us_nick_identified (g u) = us_nick_identified u" "us_callsign (g u) = d" for g d
    using set_claim [OF so(1), of v g d] u so(2) that by (auto simp: follows_def)
  have flags: "follows a (refresh_flags v s') f'" if "follows a s' f'" for s' f'
    using same_owners_state [of a s' "refresh_flags v s'"] that by (auto simp: follows_def)
  have same: "f(v := None) = f" using s(2) by auto
  have "rel_option (follows a) (refresh_rf_tx_with strip v s)
      (case owned a v of None \<Rightarrow> Some f | Some d \<Rightarrow> G d (f(v := Some d)))"
  proof (cases "owned a v")
    case None
    have "follows a (set_user v (\<lambda>u. u\<lparr>us_rf_tx := b u, us_callsign := us_callsign u\<rparr>) s) f" for b
      using set_u [of "\<lambda>u. u\<lparr>us_rf_tx := b u, us_callsign := us_callsign u\<rparr>" None] c same by simp
    then show ?thesis using None o' s(1) by (auto simp: refresh_rf_tx_with_def u c Let_def)
  next
    case (Some d)
    have "follows a (set_user v (\<lambda>u. u\<lparr>us_rf_tx := b u, us_callsign := Some d\<rparr>) s) (f(v := Some d))" for b
      by (rule set_u) simp_all
    then show ?thesis using Some o' strip by (auto simp: refresh_rf_tx_with_def u c Let_def split: if_splits)
  qed
  then show ?thesis
    unfolding refresh_privileges_with_def by (auto simp: option.rel_map elim!: option.rel_mono_strong intro: flags)
qed

lemma map_filter_keys:
  "\<forall>x \<in> set xs. g x = fst x \<and> P x = Q (fst x) \<Longrightarrow> map g (filter P xs) = filter Q (map fst xs)"
  by (induction xs) auto

lemma victims_follow:
  assumes "follows a s f"
  shows "claim_victims s c keep = filter (\<lambda>i. Some i \<noteq> keep \<and> f i = Some c) (user_ids a)"
proof -
  have ok: "users_ok (srv_state s)" and ids: "user_ids a = map fst (st_users (srv_state s))" and f: "f = claim s"
    using assms by (auto simp: follows_def same_owners_def user_ids_def)
  have u: "us_id u = k \<and> claim s k = us_callsign u" if "(k, u) \<in> set (st_users (srv_state s))" for k u
  proof -
    have "map_of (st_users (srv_state s)) k = Some u"
      using ok that by (simp add: users_ok_def table_ok_def map_of_is_SomeI)
    then show ?thesis using users_ok_get [OF ok] by (auto simp: claim_def user_of_def st_user_def)
  qed
  show ?thesis unfolding claim_victims_def ids f by (rule map_filter_keys) (auto dest: u)
qed

lemma strip_follows:
  "follows a s f \<Longrightarrow>
     rel_option (follows a) (strip_claims n now c keep t s) (settle_claims (owned a) (user_ids a) n c keep f)"
proof (induction n arbitrary: c keep t s f)
  case (Suc n)
  have "follows a (notice_user now v t (set_user v (\<lambda>u. u\<lparr>us_callsign := None\<rparr>) s)) (f(v := None))"
    if "follows a s f" "v \<in> set (user_ids a)" for v s f
  proof -
    have "user_of s v \<noteq> None" using follows_known [OF that] by simp
    then show ?thesis
      using that(1) set_claim [of a s v "\<lambda>u. u\<lparr>us_callsign := None\<rparr>" None]
        same_owners_state [of a "set_user v (\<lambda>u. u\<lparr>us_callsign := None\<rparr>) s" "notice_user now v t (set_user v (\<lambda>u. u\<lparr>us_callsign := None\<rparr>) s)"]
      by (auto simp: follows_def)
  qed
  then have step: "rel_option (follows a)
      (refresh_privileges_with (\<lambda>c u. strip_claims n now c (Some u)) v
        (notice_user now v t (set_user v (\<lambda>u. u\<lparr>us_callsign := None\<rparr>) s)))
      (case owned a v of None \<Rightarrow> Some (f(v := None)) | Some d \<Rightarrow> settle_claims (owned a) (user_ids a) n d (Some v) (f(v := Some d)))"
    if "follows a s f" "v \<in> set (user_ids a)" for v s f
    using refresh_follows [of a _ "f(v := None)" v "\<lambda>c u. strip_claims n now c (Some u)"
        "\<lambda>d. settle_claims (owned a) (user_ids a) n d (Some v)", unfolded fun_upd_upd] Suc.IH that by simp
  then show ?case
    unfolding strip_claims.simps settle_claims.simps victims_follow [OF Suc.prems]
    by (intro for_all_rel Suc.prems) auto
qed simp


section \<open>It ends\<close>

text \<open>No callsign is held by two accounts, however it is written, and no account is for the name of a client without one.\<close>

definition claims_distinct :: "accounts \<Rightarrow> bool" where
  "claims_distinct a \<longleftrightarrow> get_account a no_nick = None \<and>
     (\<forall>n m x y c. get_account a n = Some x \<longrightarrow> get_account a m = Some y \<longrightarrow>
        Option.bind (na_callsign x) parse_ok = Some c \<longrightarrow> Option.bind (na_callsign y) parse_ok = Some c \<longrightarrow> lower n = lower m)"

lemma owned_account:
  assumes "owned s i = Some c"
  obtains u x where "user_of s i = Some u" "get_account (srv_accounts s) (us_nick u) = Some x"
    "Option.bind (na_callsign x) parse_ok = Some c"
  using assms by (auto simp: owned_def stored_call_def split: option.splits if_splits bind_splits)

lemma owners_distinct:
  assumes "st_ok (srv_state s)" "claims_distinct (srv_accounts s)"
  shows "one_owner (owned s)"
  unfolding one_owner_def
proof (intro allI impI)
  fix i j c assume "owned s i = Some c" "owned s j = Some c"
  then obtain u x v y where u: "user_of s i = Some u" "get_account (srv_accounts s) (us_nick u) = Some x"
      "Option.bind (na_callsign x) parse_ok = Some c"
    and v: "user_of s j = Some v" "get_account (srv_accounts s) (us_nick v) = Some y"
      "Option.bind (na_callsign y) parse_ok = Some c"
    by (meson owned_account)
  then have same: "lower (us_nick u) = lower (us_nick v)" using assms(2) unfolding claims_distinct_def by blast
  have "lower (us_nick u) \<noteq> no_nick"
    using assms(2) u(2) by (auto simp: claims_distinct_def get_account_def lower_no_nick)
  moreover have "nicks_ok (srv_state s)" using assms(1) by (simp add: st_inv_def)
  ultimately have "map_of (st_nicks (srv_state s)) (lower (us_nick u)) = Some i"
    "map_of (st_nicks (srv_state s)) (lower (us_nick v)) = Some j"
    using u(1) v(1) same nicks_ok_registered [of "srv_state s" i "us_nick u"] nicks_ok_registered [of "srv_state s" j "us_nick v"]
    by (simp_all add: nick_of_def user_of_def st_user_def)
  then show "i = j" using same by simp
qed

lemma follows_self: "st_ok (srv_state s) \<Longrightarrow> follows s s (claim s)"
  by (simp add: follows_def same_owners_def st_inv_def)

lemma follows_ends:
  assumes "follows s x f" "one_owner (owned s)" "st_ok (srv_state s)"
  shows "strip_claims (claim_fuel s + k) now c keep t x \<noteq> None"
proof -
  have "distinct (user_ids s)" "length (user_ids s) < claim_fuel s + k"
    using assms(3) by (simp_all add: user_ids_def st_inv_def users_ok_def table_ok_def claim_fuel_def)
  then have "settle_claims (owned s) (user_ids s) (claim_fuel s + k) c keep f \<noteq> None"
    using assms(2) by (intro settle_ends)
  then show ?thesis
    using strip_follows [OF assms(1), of "claim_fuel s + k" now c keep t] by (auto simp: rel_option_iff split: option.splits)
qed

text \<open>A run that ends does so the same way with more fuel.\<close>

lemma for_all_more:
  "(\<And>x u v. f x u = Some v \<Longrightarrow> g x u = Some v) \<Longrightarrow> for_all f xs s = Some r \<Longrightarrow> for_all g xs s = Some r"
  by (induction xs arbitrary: s) (auto simp: bind_eq_Some_conv)

lemma refresh_more:
  assumes "\<And>c u t s r. f c u t s = Some r \<Longrightarrow> g c u t s = Some r" "refresh_privileges_with f uid s = Some r"
  shows "refresh_privileges_with g uid s = Some r"
  using assms(2) by (auto simp: refresh_privileges_with_def refresh_rf_tx_with_def Let_def assms(1) split: option.splits if_splits)

lemma strip_more: "strip_claims n now c keep t s = Some r \<Longrightarrow> strip_claims (n + k) now c keep t s = Some r"
proof (induction n arbitrary: c keep t s r)
  case (Suc n)
  have "refresh_privileges_with (\<lambda>c u. strip_claims (n + k) now c (Some u)) v x = Some y"
    if "refresh_privileges_with (\<lambda>c u. strip_claims n now c (Some u)) v x = Some y" for v x y
    using that by (rule refresh_more [rotated]) (rule Suc.IH)
  then show ?case
    using Suc.prems unfolding add_Suc strip_claims.simps by (rule for_all_more)
qed simp

lemma refresh_ends:
  assumes "st_ok (srv_state s)" "claims_distinct (srv_accounts s)"
  shows "refresh_privileges_with (\<lambda>c u. strip_claims (claim_fuel s + k) now c (Some u)) uid s \<noteq> None"
proof (cases "user_of s uid")
  case (Some u)
  have "follows s (set_user uid (\<lambda>u. u\<lparr>us_rf_tx := b u, us_callsign := Some d\<rparr>) s) ((claim s)(uid := Some d))" for b d
    using set_claim [of s s uid _ "Some d"] follows_self [OF assms(1)] Some by (simp add: follows_def)
  then have "strip_claims (claim_fuel s + k) now d (Some uid) t'
      (set_user uid (\<lambda>u. u\<lparr>us_rf_tx := b u, us_callsign := Some d\<rparr>) s) \<noteq> None" for b d t'
    using follows_ends owners_distinct [OF assms] assms(1) by blast
  then show ?thesis
    by (simp add: refresh_privileges_with_def refresh_rf_tx_with_def Some Let_def split: option.split)
qed (simp add: refresh_privileges_with_def refresh_rf_tx_with_def)

text \<open>C8: Whoever claims, registers, releases or loses a callsign, the mutual recursion of \<open>strip_callsign_claims\<close>,
  \<open>refresh_privileges\<close> and \<open>refresh_rf_tx\<close> ends: it is never deeper than the number of users and two, for any clients, nicks
  and claims, in a state whose registry and channels are consistent (\<open>st_ok\<close>) and whose accounts share no callsign. The fuel of the
  model is therefore enough: with it the recursion has a result, and with more of it the same one.\<close>
theorem callsign_claims_settle:
  assumes "st_ok (srv_state s)" "claims_distinct (srv_accounts s)"
  shows "(case strip_claims (claim_fuel s) now c keep t s of
       None \<Rightarrow> False
     | Some r \<Rightarrow> strip_claims (claim_fuel s + k) now c keep t s = Some r)
    \<and> (case refresh_privileges_with (\<lambda>c u. strip_claims (claim_fuel s) now c (Some u)) uid s of
       None \<Rightarrow> False
     | Some r \<Rightarrow> refresh_privileges_with (\<lambda>c u. strip_claims (claim_fuel s + k) now c (Some u)) uid s = Some r)"
proof
  have "strip_claims (claim_fuel s + 0) now c keep t s \<noteq> None"
    using follows_ends [OF follows_self [OF assms(1)] owners_distinct [OF assms] assms(1)] .
  then obtain r where r: "strip_claims (claim_fuel s) now c keep t s = Some r" by auto
  show "case strip_claims (claim_fuel s) now c keep t s of None \<Rightarrow> False
     | Some r \<Rightarrow> strip_claims (claim_fuel s + k) now c keep t s = Some r"
    using strip_more [OF r] by (simp add: r)
  obtain q where q: "refresh_privileges_with (\<lambda>c u. strip_claims (claim_fuel s) now c (Some u)) uid s = Some q"
    using refresh_ends [OF assms, of 0 now uid] by auto
  have "refresh_privileges_with (\<lambda>c u. strip_claims (claim_fuel s + k) now c (Some u)) uid s = Some q"
    using q by (rule refresh_more [rotated]) (rule strip_more)
  then show "case refresh_privileges_with (\<lambda>c u. strip_claims (claim_fuel s) now c (Some u)) uid s of None \<Rightarrow> False
     | Some r \<Rightarrow> refresh_privileges_with (\<lambda>c u. strip_claims (claim_fuel s + k) now c (Some u)) uid s = Some r"
    by (simp add: q)
qed

definition two_users :: "state_op list" where
  "two_users =
     [Connect (IpUser 1) (lit ''h'') 0, SetNick (IpUser 1) (lit ''alice''), Connect (IpUser 2) (lit ''h'') 0,
      SetNick (IpUser 2) (lit ''bob''), UserMut (IpUser 1) (\<lambda>u. u\<lparr>us_nick_identified := True\<rparr>),
      UserMut (IpUser 2) (\<lambda>u. u\<lparr>us_callsign := Some (Callsign (lit ''K1ABC'') 0)\<rparr>)]"

definition one_account :: store where
  "one_account =
     \<lparr>so_nicks = [(lit ''alice'', \<lparr>na_nick = lit ''alice'', na_password_hash = [], na_created_unix = 0, na_rf_tx = True,
        na_callsign = Some (lit ''K1ABC'')\<rparr>)], so_ip_bans = []\<rparr>"

definition two_claims :: server where
  "two_claims = (server_new valid_config None 0 (accounts_of one_account \<lparr>dk_file = None, dk_temp = None\<rparr>))
     \<lparr>srv_state := fold state_step two_users irc_state_default\<rparr>"

theorem callsign_claims_settle_witness:
  "case strip_claims (claim_fuel two_claims) 9 (Callsign (lit ''K1ABC'') 0) (Some (IpUser 1)) (lit ''gone'') two_claims of
     None \<Rightarrow> False
   | Some r \<Rightarrow>
       strip_claims (claim_fuel two_claims + 7) 9 (Callsign (lit ''K1ABC'') 0) (Some (IpUser 1)) (lit ''gone'') two_claims = Some r"
proof -
  have "st_ok (srv_state two_claims)"
    by (simp add: two_claims_def, rule state_run_ok) (simp add: two_users_def op_ok_def keeps_user_def lit_def no_nick_def lower_def lower_char_def is_ascii_uppercase_def to_lower_def)
  moreover have "claims_distinct (srv_accounts two_claims)"
    by (simp add: claims_distinct_def two_claims_def one_account_def server_new_def Let_def accounts_of_def get_account_def
        lower_no_nick no_nick_def lit_def lower_def lower_char_def is_ascii_uppercase_def to_lower_def)
  ultimately show ?thesis
    using callsign_claims_settle [of two_claims, where k = 7] by blast
qed


text \<open>
  The one condition is needed. An accounts file in which two accounts hold the same callsign is loaded as it is, and if the owners of
  both are on the server, each restores the claim the other strips: no depth is enough.
\<close>

lemma only_one: "distinct us \<Longrightarrow> j \<in> set us \<Longrightarrow> filter (\<lambda>x. x = j) us = [j]"
  by (induction us) (auto simp: filter_empty_conv)

lemma two_owners_never_settle:
  "i \<noteq> j \<Longrightarrow> g i = Some c \<Longrightarrow> g j = Some c \<Longrightarrow> f i = Some c \<Longrightarrow> f j = Some c \<Longrightarrow> set us = {i, j} \<Longrightarrow> distinct us
   \<Longrightarrow> settle_claims g us n c (Some i) f = None"
proof (induction n arbitrary: i j f)
  case (Suc n)
  have "filter (\<lambda>x. x \<noteq> i \<and> f x = Some c) us = filter (\<lambda>x. x = j) us"
    using Suc.prems by (intro filter_cong) auto
  also have "\<dots> = [j]" using Suc.prems by (intro only_one) auto
  finally have "filter (\<lambda>x. x \<noteq> i \<and> f x = Some c) us = [j]" .
  moreover have "settle_claims g us n c (Some j) (f(j := Some c)) = None"
    using Suc.prems by (intro Suc.IH [of j i]) auto
  ultimately show ?case using Suc.prems by simp
qed simp

lemma shared_callsign_never_settles:
  assumes "st_ok (srv_state s)" "set (user_ids s) = {i, j}" "i \<noteq> j"
    and "owned s i = Some c" "owned s j = Some c" "claim s i = Some c" "claim s j = Some c"
  shows "strip_claims n now c (Some i) t s = None"
proof -
  have "distinct (user_ids s)"
    using assms(1) by (simp add: user_ids_def st_inv_def users_ok_def table_ok_def)
  then have "settle_claims (owned s) (user_ids s) n c (Some i) (claim s) = None"
    using assms by (intro two_owners_never_settle [of i j])
  then show ?thesis
    using strip_follows [OF follows_self [OF assms(1)], of n now c "Some i" t] by (cases "strip_claims n now c (Some i) t s") auto
qed

end
