(* ===== verification/Irc_Client.thy ===== *)
theory Irc_Client
  imports Server_Events Admission
begin

text \<open>
  \<open>src/src/irc/client.rs\<close>: the task of one IP client. It reserves a place at accept, reads lines of at most 512 octets,
  hands them to the server and pings an idle peer; a second task writes what the server sends.

  The socket is what \<open>fill_buf\<close> returns. A run of the task is a list of the things \<open>select!\<close> can choose: a poll of
  the read arm, the idle timer, the hang-up. When another arm wins, the future of the read arm is dropped, and what it had
  taken out of the buffer goes with it.
\<close>

definition MAX_LINE :: nat where "MAX_LINE = 512"
definition OUTPUT_QUEUE :: nat where "OUTPUT_QUEUE = 1024"

section \<open>Reading a line\<close>

datatype line_read = LrLine | LrEof | LrTooLong

text \<open>The reader: what successive calls of \<open>fill_buf\<close> will find, and \<open>consume\<close>. Past the end it finds nothing.\<close>

fun consume :: "nat \<Rightarrow> byte list list \<Rightarrow> byte list list" where
  "consume n [] = []"
| "consume n (c # cs) = (if n < length c then drop n c # cs else cs)"

fun read_line_capped :: "nat \<Rightarrow> byte list list \<Rightarrow> byte list \<Rightarrow> line_read \<times> byte list \<times> byte list list" where
  "read_line_capped m [] line = (if line = [] then LrEof else LrTooLong, line, [])"
| "read_line_capped m (avail # cs) line =
     (if avail = [] then (if line = [] then LrEof else LrTooLong, line, avail # cs)
      else
        (case position (\<lambda>b. b = 10) avail of
           Some pos \<Rightarrow>
             (let n = pos + 1
              in if m < length line + n then (LrTooLong, line, consume n (avail # cs))
                 else (LrLine, line @ take n avail, consume n (avail # cs)))
         | None \<Rightarrow>
             if m < length line + length avail then (LrTooLong, line, consume (length avail) (avail # cs))
             else read_line_capped m cs (line @ avail)))"

text \<open>What the octets say, whatever the pieces they come in: the first line of a stream.\<close>

definition first_line :: "nat \<Rightarrow> byte list \<Rightarrow> line_read" where
  "first_line m s =
     (case position (\<lambda>b. b = 10) s of
        Some p \<Rightarrow> if m < p + 1 then LrTooLong else LrLine
      | None \<Rightarrow> if s = [] then LrEof else LrTooLong)"

declare position_None [simp del]

lemma position_append:
  "position P (xs @ ys) =
     (case position P xs of Some i \<Rightarrow> Some i | None \<Rightarrow> map_option (\<lambda>i. length xs + i) (position P ys))"
  by (induction xs; cases "position P ys") (auto split: option.split)

lemma concat_consume:
  "c \<noteq> [] \<Longrightarrow> n \<le> length c \<Longrightarrow> concat (consume n (c # cs)) = drop n (c @ concat cs)"
  by auto

lemma consume_nonempty: "[] \<notin> set cs \<Longrightarrow> [] \<notin> set (consume n cs)"
  by (cases cs) auto

lemma position_bound: "position P xs = Some i \<Longrightarrow> i < length xs"
  using position_Some by fastforce

lemma position_absent: "10 \<notin> set line \<Longrightarrow> position (\<lambda>b. b = (10 :: byte)) line = None"
  by (simp add: position_None) blast

lemma read_line_prefix:
  assumes "[] \<notin> set cs" "10 \<notin> set line" "length line \<le> m"
  shows "fst (read_line_capped m cs line) = first_line m (line @ concat cs) \<and>
    length (fst (snd (read_line_capped m cs line))) \<le> m \<and>
    (first_line m (line @ concat cs) = LrLine \<longrightarrow>
       (\<exists>p. position (\<lambda>b. b = 10) (line @ concat cs) = Some p \<and>
          fst (snd (read_line_capped m cs line)) = take (p + 1) (line @ concat cs) \<and>
          concat (snd (snd (read_line_capped m cs line))) = drop (p + 1) (line @ concat cs)))"
  using assms
proof (induction cs arbitrary: line)
  case Nil
  then show ?case by (simp add: first_line_def position_absent)
next
  case (Cons c cs)
  have c: "c \<noteq> []" using Cons.prems by auto
  show ?case
  proof (cases "position (\<lambda>b. b = 10) c")
    case (Some pos)
    have p: "position (\<lambda>b. b = 10) (line @ c @ concat cs) = Some (length line + pos)"
      using Some by (simp add: position_append position_absent [OF Cons.prems(2)])
    then show ?thesis
      using Some c Cons.prems(3) position_bound [OF Some] by (auto simp: first_line_def Let_def)
  next
    case None
    have l: "10 \<notin> set (line @ c)"
      using Cons.prems(2) None by (auto simp: position_None)
    show ?thesis
    proof (cases "m < length line + length c")
      case True
      have "position (\<lambda>b. b = 10) (line @ c @ concat cs) =
          map_option (\<lambda>i. length line + length c + i) (position (\<lambda>b. b = 10) (concat cs))"
        using position_append [of "\<lambda>b. b = 10" "line @ c" "concat cs"] position_absent [OF l] by simp
      then have "first_line m (line @ c @ concat cs) = LrTooLong"
        using c True by (auto simp: first_line_def split: option.splits)
      then show ?thesis using True None c Cons.prems(3) by simp
    next
      case False
      then show ?thesis using Cons.IH [of "line @ c"] Cons.prems(1) l None c by simp
    qed
  qed
qed

section \<open>A line to the client\<close>

text \<open>The offsets at which a character starts, and the end.\<close>

definition is_char_boundary :: "ustr \<Rightarrow> nat \<Rightarrow> bool" where
  "is_char_boundary s i \<longleftrightarrow> i \<in> (\<lambda>k. str_len (take k s)) ` set [0..<Suc (length s)]"

fun cut_back :: "ustr \<Rightarrow> nat \<Rightarrow> nat" where
  "cut_back s 0 = 0"
| "cut_back s (Suc n) = (if is_char_boundary s (Suc n) then Suc n else cut_back s n)"

text \<open>\<open>String::truncate\<close>, at a character boundary.\<close>

fun str_truncate :: "nat \<Rightarrow> ustr \<Rightarrow> ustr" where
  "str_truncate n [] = []"
| "str_truncate n (c # s) = (if n < str_len [c] then [] else c # str_truncate (n - str_len [c]) s)"

definition truncate_utf8 :: "ustr \<Rightarrow> nat \<Rightarrow> ustr" where
  "truncate_utf8 line m = (if str_len line \<le> m then line else str_truncate (cut_back line m) line)"

text \<open>What the writer task puts on the socket for a line of the server.\<close>

definition writer_line :: "ustr \<Rightarrow> byte list" where
  "writer_line line = as_bytes (truncate_utf8 line (MAX_LINE - 2)) @ [13, 10]"

section \<open>The peer\<close>

definition v4_is_loopback :: "v4 \<Rightarrow> bool" where
  "v4_is_loopback a = (fst a = 127)"

definition peer_is_loopback :: "ip_addr \<Rightarrow> bool" where
  "peer_is_loopback ip =
     (case ip of
        IpV4 v \<Rightarrow> v4_is_loopback v
      | IpV6 v \<Rightarrow> v = [0, 0, 0, 0, 0, 0, 0, 1] \<or> (case to_ipv4_mapped v of Some a \<Rightarrow> v4_is_loopback a | None \<Rightarrow> False))"

text \<open>\<open>Ipv6Addr\<close> shows a mapped address with the dotted form of the address in it.\<close>

definition v6_display :: "nat list \<Rightarrow> ustr" where
  "v6_display v = (case to_ipv4_mapped v of Some a \<Rightarrow> lit ''::ffff:'' @ v4_string a | None \<Rightarrow> v6_string v)"

definition display_host :: "ip_addr \<Rightarrow> ustr" where
  "display_host ip = (case ip of IpV4 v \<Rightarrow> v4_string v | IpV6 v \<Rightarrow> lit ''['' @ v6_display v @ lit '']'')"

section \<open>The task\<close>

datatype task_end = TeRunning | TeClosed ustr | TeFailed

text \<open>\<open>ct_buf\<close> is what the reader has buffered, \<open>ct_line\<close> what the pending read has taken out of it, \<open>ct_up\<close> whether the
  server still takes events.\<close>

record conn_task =
  ct_id :: client_id
  ct_pings :: bool
  ct_buf :: "byte list"
  ct_line :: "byte list"
  ct_awaiting :: bool
  ct_up :: bool
  ct_end :: task_end

datatype task_io =
    TiData "byte list"   \<comment> \<open>the buffer is empty and the socket has this; nothing at the end of the stream\<close>
  | TiPoll               \<comment> \<open>the read arm goes on with what is buffered\<close>
  | TiError              \<comment> \<open>the socket fails\<close>
  | TiPing bool          \<comment> \<open>the idle timer, and whether the client's queue has room\<close>
  | TiHangup             \<comment> \<open>the server hangs up, or drops the connection's entry\<close>
  | TiServerGone         \<comment> \<open>the server's end of the event channel goes away\<close>

text \<open>\<open>events.send(..)\<close>, and the end of the loop: the server hears why.\<close>

definition to_server :: "event \<Rightarrow> conn_task \<Rightarrow> event list" where
  "to_server e t = (if ct_up t then [e] else [])"

definition break_with :: "ustr \<Rightarrow> conn_task \<Rightarrow> conn_task \<times> event list" where
  "break_with reason t = (t\<lparr>ct_end := TeClosed reason\<rparr>, to_server (Disconnected (ct_id t) reason) t)"

definition connection_closed :: ustr where
  "connection_closed = lit ''Connection closed''"

definition line_text :: "byte list \<Rightarrow> ustr" where
  "line_text line = rev (dropWhile (\<lambda>c. c = 13 \<or> c = 10) (rev (from_utf8_lossy line)))"

definition got_line :: "byte list \<Rightarrow> conn_task \<Rightarrow> conn_task \<times> event list" where
  "got_line line t =
     (let t1 = t\<lparr>ct_awaiting := False, ct_line := []\<rparr>; txt = line_text line
      in if txt = [] then (t1, [])
         else if \<not> ct_up t1 then break_with connection_closed t1
         else (t1, [Line (ct_id t1) txt]))"

text \<open>The read arm, polled: it takes the pieces the reader has, until a line is whole or there is nothing left to take.\<close>

definition poll_read :: "conn_task \<Rightarrow> conn_task \<times> event list" where
  "poll_read t =
     (case position (\<lambda>b. b = 10) (ct_buf t) of
        None \<Rightarrow>
          if MAX_LINE < length (ct_line t) + length (ct_buf t) then break_with (lit ''Line too long'') (t\<lparr>ct_buf := []\<rparr>)
          else (t\<lparr>ct_line := ct_line t @ ct_buf t, ct_buf := []\<rparr>, [])
      | Some _ \<Rightarrow>
          (case read_line_capped MAX_LINE [ct_buf t] (ct_line t) of
             (LrLine, line, rest) \<Rightarrow> got_line line (t\<lparr>ct_buf := concat rest\<rparr>)
           | (_, _, rest) \<Rightarrow> break_with (lit ''Line too long'') (t\<lparr>ct_buf := concat rest\<rparr>)))"

definition read_eof :: "conn_task \<Rightarrow> conn_task \<times> event list" where
  "read_eof t = break_with (if ct_line t = [] then connection_closed else lit ''Line too long'') t"

definition idle_tick :: "bool \<Rightarrow> conn_task \<Rightarrow> conn_task \<times> event list" where
  "idle_tick room t0 =
     (let t = t0\<lparr>ct_line := []\<rparr>
      in if ct_awaiting t then break_with (lit ''Ping timeout'') t
         else if \<not> room then break_with connection_closed (t\<lparr>ct_awaiting := True\<rparr>)
         else (t\<lparr>ct_awaiting := True\<rparr>, []))"

definition task_step :: "task_io \<Rightarrow> conn_task \<Rightarrow> conn_task \<times> event list" where
  "task_step io t =
     (if ct_end t \<noteq> TeRunning then (t, [])
      else
        (case io of
           TiData avail \<Rightarrow>
             if ct_buf t \<noteq> [] then (t, [])
             else if avail = [] then read_eof t
             else poll_read (t\<lparr>ct_buf := avail\<rparr>)
         | TiPoll \<Rightarrow> if ct_buf t = [] then (t, []) else poll_read t
         | TiError \<Rightarrow> if ct_buf t \<noteq> [] then (t, []) else (t\<lparr>ct_end := TeFailed\<rparr>, [])
         | TiPing room \<Rightarrow> if ct_pings t then idle_tick room t else (t, [])
         | TiHangup \<Rightarrow> break_with (lit ''Dropped'') t
         | TiServerGone \<Rightarrow> (t\<lparr>ct_up := False\<rparr>, [])))"

fun task_run :: "task_io list \<Rightarrow> conn_task \<Rightarrow> conn_task \<times> event list" where
  "task_run [] t = (t, [])"
| "task_run (io # ios) t =
     (case task_step io t of (t1, es1) \<Rightarrow> case task_run ios t1 of (t2, es2) \<Rightarrow> (t2, es1 @ es2))"

definition task_new :: "client_id \<Rightarrow> duration \<Rightarrow> conn_task" where
  "task_new i ping_interval =
     \<lparr>ct_id = i, ct_pings = 0 < ping_interval, ct_buf = [], ct_line = [], ct_awaiting = False, ct_up = True, ct_end = TeRunning\<rparr>"

text \<open>\<open>serve\<close>, when the server takes the connection.\<close>

definition client_serve :: "client_id \<Rightarrow> ustr \<Rightarrow> bool \<Rightarrow> duration \<Rightarrow> task_io list \<Rightarrow> conn_task \<times> event list" where
  "client_serve i host listen_only ping_interval ios =
     (case task_run ios (task_new i ping_interval) of
        (t, es) \<Rightarrow> (t, Connected i host listen_only OUTPUT_QUEUE True # es))"

section \<open>Accepting\<close>

definition refuse_socket :: "bool \<Rightarrow> deny \<Rightarrow> ustr \<Rightarrow> admission \<Rightarrow> byte list" where
  "refuse_socket tls deny host a =
     (if tls then [] else as_bytes (error_line deny host (ad_max_clients a) (ad_max_per_host a)) @ [13, 10])"

text \<open>A socket that has been accepted: what a refused peer is sent, the events of the connection, and the gate with the place
  taken. The place is given back when the task is over (\<open>adm_release\<close>).\<close>

definition accept_client ::
  "bool \<Rightarrow> duration \<Rightarrow> client_id \<Rightarrow> ip_addr \<Rightarrow> bool \<Rightarrow> task_io list \<Rightarrow> admission
     \<Rightarrow> byte list \<times> event list \<times> (deny + conn_slot) \<times> admission" where
  "accept_client tls ping_interval i ip handshake ios a0 =
     (let host = display_host ip; listen_only = (\<not> tls \<and> \<not> peer_is_loopback ip)
      in case try_acquire host a0 of
           (Inl deny, a) \<Rightarrow> (refuse_socket tls deny host a, [], Inl deny, a)
         | (Inr slot, a) \<Rightarrow>
             ([], if tls \<and> \<not> handshake then [] else snd (client_serve i host listen_only ping_interval ios), Inr slot, a))"

section \<open>The lines are those of the stream\<close>

text \<open>The lines in what a socket sends, up to the first that is too long.\<close>

function stream_lines :: "byte list \<Rightarrow> ustr list" where
  "stream_lines s =
     (case position (\<lambda>b. b = 10) s of
        None \<Rightarrow> []
      | Some p \<Rightarrow>
          if MAX_LINE < p + 1 then []
          else (let x = line_text (take (p + 1) s) in (if x = [] then [] else [x]) @ stream_lines (drop (p + 1) s)))"
  by pat_completeness auto
termination
  by (relation "measure length") (auto dest: position_bound)

declare stream_lines.simps [simp del]

fun lines_in :: "event list \<Rightarrow> ustr list" where
  "lines_in [] = []"
| "lines_in (Line i l # es) = l # lines_in es"
| "lines_in (_ # es) = lines_in es"

lemma lines_in_append [simp]: "lines_in (a @ b) = lines_in a @ lines_in b"
  by (induction a rule: lines_in.induct) simp_all

text \<open>What the task takes from the socket in a run.\<close>

fun task_takes :: "task_io list \<Rightarrow> conn_task \<Rightarrow> byte list" where
  "task_takes [] t = []"
| "task_takes (io # ios) t =
     (case io of TiData d \<Rightarrow> if ct_end t = TeRunning \<and> ct_buf t = [] then d else [] | _ \<Rightarrow> [])
     @ task_takes ios (fst (task_step io t))"

definition reads_only :: "task_io \<Rightarrow> bool" where
  "reads_only io \<longleftrightarrow> (case io of TiData _ \<Rightarrow> True | TiPoll \<Rightarrow> True | _ \<Rightarrow> False)"

definition task_ok :: "conn_task \<Rightarrow> bool" where
  "task_ok t \<longleftrightarrow> 10 \<notin> set (ct_line t) \<and> length (ct_line t) \<le> MAX_LINE \<and> ct_up t"

definition lines_left :: "conn_task \<Rightarrow> byte list \<Rightarrow> ustr list" where
  "lines_left t future = (if ct_end t = TeRunning then stream_lines (ct_line t @ ct_buf t @ future) else [])"

lemma ended_takes [simp]: "ct_end t \<noteq> TeRunning \<Longrightarrow> task_takes ios t = []"
  by (induction ios) (auto simp: task_step_def split: task_io.splits)

lemma no_newline_no_lines: "10 \<notin> set s \<Longrightarrow> stream_lines s = []"
  by (simp add: stream_lines.simps position_absent)

text \<open>A line that outgrows the limit ends the stream.\<close>

lemma too_long_no_lines:
  assumes "10 \<notin> set s" "MAX_LINE < length s"
  shows "stream_lines (s @ r) = []"
proof -
  have "position (\<lambda>b. b = 10) (s @ r) = map_option (\<lambda>i. length s + i) (position (\<lambda>b. b = 10) r)"
    by (simp add: position_append position_absent [OF assms(1)])
  then show ?thesis
    using assms(2) by (subst stream_lines.simps) (auto split: option.splits)
qed

lemma poll_read_lines:
  assumes ok: "task_ok t" and run: "ct_end t = TeRunning"
  shows "task_ok (fst (poll_read t)) \<and>
    lines_in (snd (poll_read t)) @ lines_left (fst (poll_read t)) r = stream_lines (ct_line t @ ct_buf t @ r)"
proof (cases "position (\<lambda>b. b = 10) (ct_buf t)")
  case None
  then have "10 \<notin> set (ct_line t @ ct_buf t)"
    using ok by (auto simp: task_ok_def position_None)
  then show ?thesis
    using ok run None too_long_no_lines [of "ct_line t @ ct_buf t" r]
    by (auto simp: poll_read_def break_with_def to_server_def lines_left_def task_ok_def)
next
  case (Some p)
  then have n: "position (\<lambda>b. b = 10) (ct_line t @ ct_buf t @ r) = Some (length (ct_line t) + p)"
    using ok by (simp add: position_append position_absent task_ok_def)
  have p: "p < length (ct_buf t)" "ct_buf t \<noteq> []"
    using position_bound [OF Some] by auto
  have rest: "concat (consume (Suc p) [ct_buf t]) = drop (Suc p) (ct_buf t)"
    by simp
  show ?thesis
  proof (cases "MAX_LINE < length (ct_line t) + Suc p")
    case True
    then show ?thesis
      using ok Some n p by (subst stream_lines.simps)
        (simp add: poll_read_def break_with_def to_server_def lines_left_def task_ok_def)
  next
    case False
    then show ?thesis
      using ok run Some n p
      by (subst stream_lines.simps) (simp add: poll_read_def got_line_def break_with_def to_server_def lines_left_def task_ok_def rest Let_def
          del: consume.simps)
  qed
qed

lemma step_lines:
  assumes "task_ok t" "reads_only io"
  shows "task_ok (fst (task_step io t)) \<and>
    lines_in (snd (task_step io t)) @ lines_left (fst (task_step io t)) (task_takes ios (fst (task_step io t))) =
      lines_left t (task_takes (io # ios) t)"
proof (cases "ct_end t = TeRunning")
  case run: True
  show ?thesis
  proof (cases io)
    case (TiData d)
    consider "ct_buf t \<noteq> []" | "ct_buf t = []" "d = []" | "ct_buf t = []" "d \<noteq> []"
      by blast
    then show ?thesis
    proof cases
      case 2
      then show ?thesis
        using assms run TiData no_newline_no_lines [of "ct_line t"]
        by (simp add: task_step_def read_eof_def break_with_def to_server_def lines_left_def task_ok_def)
    next
      case 3
      have "task_ok (t\<lparr>ct_buf := d\<rparr>)" using assms(1) by (simp add: task_ok_def)
      then show ?thesis
        using poll_read_lines [of "t\<lparr>ct_buf := d\<rparr>" "task_takes ios (fst (poll_read (t\<lparr>ct_buf := d\<rparr>)))"] run TiData 3
        by (cases "ct_end (fst (poll_read (t\<lparr>ct_buf := d\<rparr>))) = TeRunning") (auto simp: task_step_def lines_left_def)
    qed (use assms run TiData in \<open>simp add: task_step_def lines_left_def\<close>)
  next
    case TiPoll
    then show ?thesis
      using poll_read_lines [OF assms(1) run, of "task_takes ios (fst (poll_read t))"] assms run
      by (cases "ct_end (fst (poll_read t)) = TeRunning") (auto simp: task_step_def lines_left_def)
  qed (use assms in \<open>simp_all add: reads_only_def\<close>)
qed (use assms in \<open>simp add: task_step_def lines_left_def\<close>)

lemma run_lines:
  assumes "task_ok t" "list_all reads_only ios"
  shows "lines_in (snd (task_run ios t)) @ lines_left (fst (task_run ios t)) [] = lines_left t (task_takes ios t)"
  using assms
proof (induction ios arbitrary: t)
  case (Cons io ios)
  have "task_ok (fst (task_step io t))"
    using step_lines [of t io ios] Cons.prems by simp
  then have ih: "lines_in (snd (task_run ios (fst (task_step io t)))) @ lines_left (fst (task_run ios (fst (task_step io t)))) []
      = lines_left (fst (task_step io t)) (task_takes ios (fst (task_step io t)))"
    using Cons by simp
  obtain t1 es1 t2 es2 where e: "task_step io t = (t1, es1)" "task_run ios t1 = (t2, es2)"
    by (metis surj_pair)
  show ?case
    using ih step_lines [of t io ios] Cons.prems by (simp add: e del: task_takes.simps)
qed simp

text \<open>C30: The lines a connection hands to the server are the lines its socket sent. In whatever pieces the octets arrive, and
  however the reads are polled, the lines delivered so far, followed by those the octets still buffered would give, are those of
  the octets taken from the socket: cut at each newline, without their line ends, blank ones skipped, up to the first line of more than 512
  octets, which ends the connection. This is for a connection whose reads are not cut short by the idle timer.\<close>

theorem lines_are_those_of_the_stream:
  assumes "list_all reads_only ios"
  shows "lines_in (snd (client_serve i host lo p ios)) @ lines_left (fst (client_serve i host lo p ios)) [] =
    stream_lines (task_takes ios (task_new i p))"
proof -
  have "task_ok (task_new i p)" "lines_left (task_new i p) f = stream_lines f" for f
    by (simp_all add: task_ok_def task_new_def lines_left_def)
  then show ?thesis
    using run_lines [OF _ assms] by (simp add: client_serve_def split: prod.splits) (metis fst_conv snd_conv)
qed

definition sample_reads :: "task_io list" where
  "sample_reads = [TiData (as_bytes (lit ''PI'')), TiData (as_bytes (lit ''NG x'') @ [13, 10, 10, 65]), TiPoll, TiPoll]"

theorem lines_are_those_of_the_stream_witness:
  "lines_in (snd (client_serve 1 [] False 60 sample_reads)) @ lines_left (fst (client_serve 1 [] False 60 sample_reads)) [] =
    stream_lines (task_takes sample_reads (task_new 1 60))
   \<and> lines_in (snd (client_serve 1 [] False 60 sample_reads)) = [lit ''PING x'']"
proof -
  have "list_all reads_only sample_reads"
    by (simp add: sample_reads_def reads_only_def)
  moreover have "lines_in (snd (client_serve 1 [] False 60 sample_reads)) = [lit ''PING x'']"
    by code_simp
  ultimately show ?thesis
    using lines_are_those_of_the_stream by blast
qed

text \<open>The idle timer that fires while a line is half read takes the half away: the rest arrives as a line of its own.\<close>

lemma ping_splits_a_line:
  "snd (task_run [TiData (as_bytes (lit ''PRIVMSG #rf :please ''))] (task_new 1 60)) = []
   \<and> lines_in (snd (task_run [TiData (as_bytes (lit ''PRIVMSG #rf :please '')), TiPing True,
        TiData (as_bytes (lit ''QUIT'') @ [13, 10])] (task_new 1 60))) = [lit ''QUIT'']"
  by code_simp

section \<open>The life of a connection\<close>

definition closing :: "conn_task \<Rightarrow> event list" where
  "closing t = (case ct_end t of TeClosed r \<Rightarrow> if ct_up t then [Disconnected (ct_id t) r] else [] | _ \<Rightarrow> [])"

definition said :: "client_id \<Rightarrow> event list \<Rightarrow> bool" where
  "said i es \<longleftrightarrow> (\<exists>ls. es = map (Line i) ls \<and> [] \<notin> set ls)"

lemma said_simps [simp]: "said i []" "said i (Line i l # es) \<longleftrightarrow> l \<noteq> [] \<and> said i es"
  by (auto simp: said_def Cons_eq_map_conv)

lemma step_says:
  assumes "ct_end t = TeRunning"
  shows "ct_id (fst (task_step io t)) = ct_id t \<and>
    (\<exists>es. said (ct_id t) es \<and> snd (task_step io t) = es @ closing (fst (task_step io t)))"
proof -
  have poll: "ct_id (fst (poll_read t)) = ct_id t \<and>
      (\<exists>es. said (ct_id t) es \<and> snd (poll_read t) = es @ closing (fst (poll_read t)))"
    if "ct_end t = TeRunning" for t
    using that
    by (auto simp: poll_read_def got_line_def break_with_def to_server_def closing_def Let_def
        split: option.split prod.split line_read.split intro: exI [of _ "[]"] exI [of _ "[_]"])
  show ?thesis
    using assms poll [of t] poll [of "t\<lparr>ct_buf := d\<rparr>" for d]
    by (cases io) (auto simp: task_step_def read_eof_def idle_tick_def break_with_def to_server_def closing_def Let_def
        intro: exI [of _ "[]"])
qed

lemma said_append: "said i a \<Longrightarrow> said i b \<Longrightarrow> said i (a @ b)"
  by (auto simp: said_def) (metis Un_iff map_append set_append)

lemma ended_run [simp]: "ct_end t \<noteq> TeRunning \<Longrightarrow> task_run ios t = (t, [])"
  by (induction ios) (simp_all add: task_step_def)

lemma run_says:
  assumes "ct_end t = TeRunning"
  shows "ct_id (fst (task_run ios t)) = ct_id t \<and>
    (\<exists>es. said (ct_id t) es \<and> snd (task_run ios t) = es @ closing (fst (task_run ios t)))"
  using assms
proof (induction ios arbitrary: t)
  case Nil
  then show ?case by (auto simp: closing_def intro: exI [of _ "[]"])
next
  case (Cons io ios)
  obtain t1 es1 t2 es2 where e: "task_step io t = (t1, es1)" "task_run ios t1 = (t2, es2)"
    by (metis surj_pair)
  obtain es where es: "ct_id t1 = ct_id t" "said (ct_id t) es" "es1 = es @ closing t1"
    using step_says [OF Cons.prems, of io] e by auto
  show ?case
  proof (cases "ct_end t1 = TeRunning")
    case True
    then obtain es' where "ct_id t2 = ct_id t1" "said (ct_id t1) es'" "es2 = es' @ closing t2"
      using Cons.IH [of t1] e by auto
    then show ?thesis
      using es True said_append [of "ct_id t" es es'] e by (auto simp: closing_def [of t1])
  next
    case False
    then show ?thesis using es e by auto
  qed
qed

text \<open>Whatever the socket, the idle timer and the server do, and in whatever order, the server hears of a connection in order:
  that it is there, with what it may do; then its lines, none of them empty; and, when the task has ended for a reason, that it is gone and
  why, once and last, unless the server itself went away.\<close>

theorem connection_heard_in_order:
  "\<exists>ls. [] \<notin> set ls \<and>
    snd (client_serve i host lo p ios) =
      Connected i host lo OUTPUT_QUEUE True # map (Line i) ls
      @ (case ct_end (fst (client_serve i host lo p ios)) of
           TeClosed r \<Rightarrow> if ct_up (fst (client_serve i host lo p ios)) then [Disconnected i r] else []
         | _ \<Rightarrow> [])"
proof -
  have r: "ct_end (task_new i p) = TeRunning" "ct_id (task_new i p) = i"
    by (simp_all add: task_new_def)
  obtain t es where e: "task_run ios (task_new i p) = (t, es)"
    by (metis surj_pair)
  have c: "client_serve i host lo p ios = (t, Connected i host lo OUTPUT_QUEUE True # es)"
    by (simp add: client_serve_def e)
  obtain ls where "[] \<notin> set ls" "es = map (Line i) ls @ closing t" "ct_id t = i"
    using run_says [OF r(1), of ios] e r(2) by (auto simp: said_def)
  then show ?thesis
    unfolding c fst_conv snd_conv closing_def by blast
qed

text \<open>A socket that fails is the one end the server does not hear of: no event of the connection follows, whatever happens.\<close>

lemma failed_socket_is_not_reported:
  "ct_buf (fst (task_run ios (task_new i p))) = [] \<Longrightarrow> ct_end (fst (task_run ios (task_new i p))) = TeRunning \<Longrightarrow>
    Disconnected i r \<notin> set (snd (task_run (ios @ TiError # later) (task_new i p)))"
proof -
  assume b: "ct_buf (fst (task_run ios (task_new i p))) = []" and r: "ct_end (fst (task_run ios (task_new i p))) = TeRunning"
  have app: "task_run (a @ b) t =
      (fst (task_run b (fst (task_run a t))), snd (task_run a t) @ snd (task_run b (fst (task_run a t))))" for a b t
    by (induction a arbitrary: t) (simp_all split: prod.splits)
  have "task_run (TiError # later) (fst (task_run ios (task_new i p))) =
      ((fst (task_run ios (task_new i p)))\<lparr>ct_end := TeFailed\<rparr>, [])"
    using b r by (simp add: task_step_def)
  moreover have "Disconnected i r \<notin> set (snd (task_run ios (task_new i p)))" for r
    using run_says [of "task_new i p" ios] r by (auto simp: closing_def said_def task_new_def)
  ultimately show ?thesis
    by (simp add: app)
qed

section \<open>The writer\<close>

lemma str_len_pos: "0 < str_len [c]"
  using length_le_str_len [of "[c]"] by (simp only: list.size)

lemma str_len_Cons: "str_len (c # s) = str_len [c] + str_len s"
  by (simp add: str_len_def)

lemma boundary_iff: "is_char_boundary s n \<longleftrightarrow> (\<exists>k. k \<le> length s \<and> n = str_len (take k s))"
  by (simp only: is_char_boundary_def image_iff Bex_def set_upt atLeastLessThan_iff less_Suc_eq_le le0 simp_thms)

lemma boundary_Cons:
  "is_char_boundary (c # s) n \<longleftrightarrow> n = 0 \<or> (str_len [c] \<le> n \<and> is_char_boundary s (n - str_len [c]))"
proof
  assume "is_char_boundary (c # s) n"
  then obtain k where "k \<le> Suc (length s)" "n = str_len (take k (c # s))"
    by (auto simp: boundary_iff)
  then show "n = 0 \<or> (str_len [c] \<le> n \<and> is_char_boundary s (n - str_len [c]))"
    by (cases k) (auto simp: boundary_iff str_len_Cons [of c "take _ s"])
next
  assume n: "n = 0 \<or> (str_len [c] \<le> n \<and> is_char_boundary s (n - str_len [c]))"
  show "is_char_boundary (c # s) n"
  proof (cases "n = 0")
    case False
    then obtain k where "k \<le> length s" "n = str_len [c] + str_len (take k s)"
      using n by (auto simp: boundary_iff)
    then show ?thesis
      unfolding boundary_iff by (intro exI [of _ "Suc k"]) (simp add: str_len_Cons [of c "take _ s"])
  qed (auto simp: boundary_iff intro: exI [of _ 0])
qed

lemma truncate_off_boundary: "\<not> is_char_boundary s (Suc n) \<Longrightarrow> str_truncate (Suc n) s = str_truncate n s"
proof (induction s arbitrary: n)
  case (Cons c s)
  show ?case
  proof (cases "str_len [c] \<le> n")
    case True
    then have "Suc n - str_len [c] = Suc (n - str_len [c])" by simp
    then show ?thesis using Cons True by (simp add: boundary_Cons)
  next
    case False
    moreover have "is_char_boundary s 0" by (force simp: is_char_boundary_def)
    ultimately show ?thesis using Cons.prems by (cases "str_len [c] = Suc n") (auto simp: boundary_Cons)
  qed
qed simp

lemma truncate_cut_back: "str_truncate (cut_back s m) s = str_truncate m s"
  by (induction m) (simp_all add: truncate_off_boundary)

lemma truncate_longest:
  "\<exists>k. str_truncate m s = take k s \<and> str_len (take k s) \<le> m \<and> (k = length s \<or> m < str_len (take (Suc k) s))"
proof (induction s arbitrary: m)
  case (Cons c s)
  show ?case
  proof (cases "m < str_len [c]")
    case True
    then show ?thesis by (auto intro!: exI [of _ 0])
  next
    case False
    then obtain k where "str_truncate (m - str_len [c]) s = take k s" "str_len (take k s) \<le> m - str_len [c]"
      "k = length s \<or> m - str_len [c] < str_len (take (Suc k) s)"
      using Cons.IH by blast
    then show ?thesis
      using False by (intro exI [of _ "Suc k"]) (auto simp: str_len_Cons [of c "take _ s"])
  qed
qed simp

text \<open>What the writer puts on a socket for a line of the server is a line of the protocol: at most 512 octets with its CRLF, and
  before that the UTF-8 of a prefix of the line, whole characters only, which is the whole line when that fits and otherwise the longest
  prefix that does.\<close>

theorem written_lines_fit:
  "length (writer_line line) \<le> MAX_LINE \<and>
   (\<exists>k. writer_line line = as_bytes (take k line) @ [13, 10]
      \<and> (k = length line \<or> MAX_LINE - 2 < str_len (take (Suc k) line)))"
proof (cases "str_len line \<le> MAX_LINE - 2")
  case True
  then show ?thesis by (auto simp: writer_line_def truncate_utf8_def MAX_LINE_def intro: exI [of _ "length line"])
next
  case False
  then show ?thesis
    using truncate_longest [of "MAX_LINE - 2" line]
    by (auto simp: writer_line_def truncate_utf8_def truncate_cut_back MAX_LINE_def)
qed

end
