(* ===== verification/Kisshub.thy ===== *)
theory Kisshub
  imports Kiss "HOL-Library.Sublist"
begin

text \<open>
  \<open>src/src/kisshub.rs\<close>: a virtual radio channel over TCP. Every client is a station; a frame from one is re-framed and queued for
  all the others.

  Each station has a task that reads and a task that writes, and they share the table of clients, which is locked for one frame
  at a time; a run is a list of the steps the tasks take. A link stands for the bounded channel to a station's writer:
  \<open>hl_listed\<close> while the table holds its sending end, \<open>hl_hand\<close> the frame the writer has received and not yet written, which no longer
  counts against the channel, and \<open>hl_broken\<close> once the writer is gone, and with it the frame in its hands and the backlog.
\<close>

definition CLIENT_QUEUE :: nat where "CLIENT_QUEUE = 256"
definition HUB_MAX_FRAME :: nat where "HUB_MAX_FRAME = 2048"
definition MAX_STATIONS :: nat where "MAX_STATIONS = 64"

section \<open>The command line\<close>

record hub_options =
  ho_bind :: ustr
  ho_monitor :: bool

definition hub_options_default :: hub_options where
  "hub_options_default = \<lparr>ho_bind = lit ''127.0.0.1:8001'', ho_monitor = True\<rparr>"

datatype hub_invocation = HubRun hub_options | HubHelp ustr | HubUsage ustr

definition hub_usage :: ustr where
  "hub_usage = lit ''usage: rfirc-kisshub [--bind 127.0.0.1:8001] [--quiet]''"

fun hub_parse_args :: "ustr list \<Rightarrow> hub_options \<Rightarrow> hub_invocation" where
  "hub_parse_args [] opts = HubRun opts"
| "hub_parse_args (arg # args) opts =
     (if arg = lit ''--bind'' \<or> arg = lit ''-b''
      then (case args of v # rest \<Rightarrow> hub_parse_args rest (opts\<lparr>ho_bind := v\<rparr>) | [] \<Rightarrow> HubUsage (lit ''--bind needs an address''))
      else if arg = lit ''--quiet'' then hub_parse_args args (opts\<lparr>ho_monitor := False\<rparr>)
      else if arg = lit ''--help'' \<or> arg = lit ''-h'' then HubHelp hub_usage
      else HubUsage (lit ''unknown argument: '' @ arg))"

section \<open>The channel\<close>

record hub_link =
  hl_queue :: "byte list list"
  hl_hand :: "byte list option"
  hl_written :: "byte list list"
  hl_listed :: bool
  hl_broken :: bool

record hub_task =
  ht_decoder :: kiss_decoder
  ht_frames :: "kiss_frame list"   \<comment> \<open>what the last read completed and the loop has not come to\<close>

record hub =
  hb_links :: "(nat, hub_link) table"
  hb_tasks :: "(nat, hub_task) table"
  hb_arriving :: "nat list"   \<comment> \<open>accepted, their tasks not yet running\<close>
  hb_next :: nat
  hb_monitor :: bool
  hb_console :: "ustr list"

definition hub_new :: "bool \<Rightarrow> hub" where
  "hub_new monitor =
     \<lparr>hb_links = [], hb_tasks = [], hb_arriving = [], hb_next = 1, hb_monitor = monitor, hb_console = []\<rparr>"

definition println :: "ustr \<Rightarrow> hub \<Rightarrow> hub" where
  "println s h = h\<lparr>hb_console := hb_console h @ [s]\<rparr>"

definition stations :: "hub \<Rightarrow> nat" where
  "stations h = length (filter (\<lambda>(_, l). hl_listed l) (hb_links h))"

text \<open>An iteration of the accept loop; the argument is the error, or the address of the peer.\<close>

definition hub_accept :: "ustr + ustr \<Rightarrow> hub \<Rightarrow> hub" where
  "hub_accept r h =
     (case r of
        Inl e \<Rightarrow> println (lit ''accept failed: '' @ e) h
      | Inr peer \<Rightarrow>
          if MAX_STATIONS \<le> stations h
          then println (lit ''channel full ('' @ show_nat MAX_STATIONS @ lit '' stations); refusing '' @ peer) h
          else println (lit ''station '' @ show_nat (hb_next h) @ lit '' on channel ('' @ peer @ lit '')'')
                 (h\<lparr>hb_arriving := hb_arriving h @ [hb_next h], hb_next := hb_next h + 1\<rparr>))"

definition hub_start :: "nat \<Rightarrow> hub \<Rightarrow> hub" where
  "hub_start i h =
     (if i \<notin> set (hb_arriving h) then h
      else h\<lparr>hb_arriving := remove1 i (hb_arriving h),
             hb_links := AList.update i \<lparr>hl_queue = [], hl_hand = None, hl_written = [], hl_listed = True, hl_broken = False\<rparr> (hb_links h),
             hb_tasks := AList.update i \<lparr>ht_decoder = kiss_decoder_new HUB_MAX_FRAME, ht_frames = []\<rparr> (hb_tasks h)\<rparr>)"

definition hub_read :: "nat \<Rightarrow> byte list \<Rightarrow> hub \<Rightarrow> hub" where
  "hub_read i bytes h =
     (case map_of (hb_tasks h) i of
        Some t \<Rightarrow>
          if ht_frames t \<noteq> [] then h
          else (case kiss_push (ht_decoder t) bytes of
                  (d, fs) \<Rightarrow> h\<lparr>hb_tasks := AList.update i \<lparr>ht_decoder = d, ht_frames = fs\<rparr> (hb_tasks h)\<rparr>)
      | None \<Rightarrow> h)"

text \<open>\<open>retain\<close>: everyone but the sender is offered the frame, and dropped from the table if it cannot be queued.\<close>

definition offer_frame :: "nat \<Rightarrow> byte list \<Rightarrow> nat \<Rightarrow> hub_link \<Rightarrow> hub_link" where
  "offer_frame i wire other l =
     (if other = i \<or> \<not> hl_listed l then l
      else if hl_broken l \<or> CLIENT_QUEUE \<le> length (hl_queue l) then l\<lparr>hl_listed := False\<rparr>
      else l\<lparr>hl_queue := hl_queue l @ [wire]\<rparr>)"

definition offer_to_all :: "nat \<Rightarrow> byte list \<Rightarrow> (nat, hub_link) table \<Rightarrow> (nat, hub_link) table" where
  "offer_to_all i wire ls = map (\<lambda>(other, l). (other, offer_frame i wire other l)) ls"

definition monitor_frame :: "byte list \<Rightarrow> ustr" where
  "monitor_frame payload =
     (case ax25_decode payload of
        Inr ax \<Rightarrow> to_monitor_line ax
      | Inl _ \<Rightarrow> lit ''['' @ show_nat (length payload) @ lit '' bytes, undecodable]'')"

definition hub_relay :: "nat \<Rightarrow> hub \<Rightarrow> hub" where
  "hub_relay i h =
     (case map_of (hb_tasks h) i of
        Some t \<Rightarrow>
          (case ht_frames t of
             [] \<Rightarrow> h
           | f # fs \<Rightarrow>
               (let h1 = h\<lparr>hb_tasks := AList.update i (t\<lparr>ht_frames := fs\<rparr>) (hb_tasks h)\<rparr>
                in if kiss_command f \<noteq> CMD_DATA then h1
                   else (let h2 = (if hb_monitor h then println (monitor_frame (kiss_payload f)) h1 else h1)
                         in h2\<lparr>hb_links := offer_to_all i (kiss_encode 0 CMD_DATA (kiss_payload f)) (hb_links h2)\<rparr>)))
      | None \<Rightarrow> h)"

text \<open>The writer of a station: it receives a frame, and writes it.\<close>

definition hub_take :: "nat \<Rightarrow> hub \<Rightarrow> hub" where
  "hub_take i h =
     (case map_of (hb_links h) i of
        Some l \<Rightarrow>
          if hl_broken l \<or> hl_hand l \<noteq> None then h
          else (case hl_queue l of
                  [] \<Rightarrow> h
                | w # ws \<Rightarrow> h\<lparr>hb_links := AList.update i (l\<lparr>hl_queue := ws, hl_hand := Some w\<rparr>) (hb_links h)\<rparr>)
      | None \<Rightarrow> h)"

text \<open>The writer ends with \<open>n\<close> octets of the frame in its hands out; the frame and the backlog are dropped.\<close>

definition writer_gone :: "nat \<Rightarrow> hub_link \<Rightarrow> hub_link" where
  "writer_gone n l =
     l\<lparr>hl_written := hl_written l @ (case hl_hand l of Some w \<Rightarrow> [take n w] | None \<Rightarrow> []),
       hl_hand := None, hl_queue := [], hl_broken := True\<rparr>"

text \<open>\<open>write_all\<close>: \<open>None\<close> when it succeeds, or the octets that were out when it failed.\<close>

definition hub_write :: "nat \<Rightarrow> nat option \<Rightarrow> hub \<Rightarrow> hub" where
  "hub_write i werr h =
     (case map_of (hb_links h) i of
        Some l \<Rightarrow>
          (case hl_hand l of
             None \<Rightarrow> h
           | Some w \<Rightarrow>
               h\<lparr>hb_links := AList.update i
                   (case werr of
                      None \<Rightarrow> l\<lparr>hl_written := hl_written l @ [w], hl_hand := None\<rparr>
                    | Some n \<Rightarrow> writer_gone n l) (hb_links h)\<rparr>)
      | None \<Rightarrow> h)"

text \<open>The read ends: the station leaves the table. Its writer is aborted, which takes effect at the writer's next suspension.\<close>

definition hub_close :: "nat \<Rightarrow> hub \<Rightarrow> hub" where
  "hub_close i h =
     (case (map_of (hb_tasks h) i, map_of (hb_links h) i) of
        (Some t, Some l) \<Rightarrow>
          if ht_frames t \<noteq> [] then h
          else println (lit ''station '' @ show_nat i @ lit '' left the channel'')
                 (h\<lparr>hb_tasks := AList.delete i (hb_tasks h),
                    hb_links := AList.update i (l\<lparr>hl_listed := False\<rparr>) (hb_links h)\<rparr>)
      | _ \<Rightarrow> h)"

definition hub_abort :: "nat \<Rightarrow> nat \<Rightarrow> hub \<Rightarrow> hub" where
  "hub_abort i n h =
     (case (map_of (hb_tasks h) i, map_of (hb_links h) i) of
        (None, Some l) \<Rightarrow> h\<lparr>hb_links := AList.update i (writer_gone n l) (hb_links h)\<rparr>
      | _ \<Rightarrow> h)"

datatype hub_op =
    HubAccept "ustr + ustr"
  | HubStart nat
  | HubRead nat "byte list"
  | HubRelay nat
  | HubTake nat
  | HubWrite nat "nat option"
  | HubClose nat
  | HubAbort nat nat

definition hub_step :: "hub_op \<Rightarrow> hub \<Rightarrow> hub" where
  "hub_step x h =
     (case x of
        HubAccept r \<Rightarrow> hub_accept r h
      | HubStart i \<Rightarrow> hub_start i h
      | HubRead i bytes \<Rightarrow> hub_read i bytes h
      | HubRelay i \<Rightarrow> hub_relay i h
      | HubTake i \<Rightarrow> hub_take i h
      | HubWrite i werr \<Rightarrow> hub_write i werr h
      | HubClose i \<Rightarrow> hub_close i h
      | HubAbort i n \<Rightarrow> hub_abort i n h)"

section \<open>What is on the air\<close>

text \<open>The frame a step puts on the channel, and who sends it.\<close>

definition on_air :: "hub_op \<Rightarrow> hub \<Rightarrow> (nat \<times> byte list) option" where
  "on_air x h =
     (case x of
        HubRelay i \<Rightarrow>
          (case map_of (hb_tasks h) i of
             Some t \<Rightarrow> (case ht_frames t of
                 f # _ \<Rightarrow> if kiss_command f = CMD_DATA then Some (i, kiss_payload f) else None
               | [] \<Rightarrow> None)
           | None \<Rightarrow> None)
      | _ \<Rightarrow> None)"

definition joins :: "nat \<Rightarrow> hub_op \<Rightarrow> hub \<Rightarrow> bool" where
  "joins i x h \<longleftrightarrow> x = HubStart i \<and> i \<in> set (hb_arriving h)"

text \<open>Since a station came on the channel: what the others have put on the air, what it has, and the octets it sent.\<close>

definition heard_step :: "nat \<Rightarrow> hub_op \<Rightarrow> hub \<Rightarrow> byte list list \<Rightarrow> byte list list" where
  "heard_step i x h acc =
     (if joins i x h then [] else case on_air x h of Some (j, p) \<Rightarrow> if j \<noteq> i then acc @ [p] else acc | None \<Rightarrow> acc)"

definition aired_step :: "nat \<Rightarrow> hub_op \<Rightarrow> hub \<Rightarrow> byte list list \<Rightarrow> byte list list" where
  "aired_step i x h acc =
     (if joins i x h then [] else case on_air x h of Some (j, p) \<Rightarrow> if j = i then acc @ [p] else acc | None \<Rightarrow> acc)"

definition octets_step :: "nat \<Rightarrow> hub_op \<Rightarrow> hub \<Rightarrow> byte list \<Rightarrow> byte list" where
  "octets_step i x h acc =
     (if joins i x h then []
      else case x of
             HubRead j bytes \<Rightarrow>
               (if j = i \<and> (case map_of (hb_tasks h) i of Some t \<Rightarrow> ht_frames t = [] | None \<Rightarrow> False) then acc @ bytes else acc)
           | _ \<Rightarrow> acc)"

fun along :: "(hub_op \<Rightarrow> hub \<Rightarrow> 'a \<Rightarrow> 'a) \<Rightarrow> hub_op list \<Rightarrow> hub \<Rightarrow> 'a \<Rightarrow> 'a" where
  "along g [] h acc = acc"
| "along g (x # xs) h acc = along g xs (hub_step x h) (g x h acc)"

section \<open>Every station hears the others\<close>

abbreviation wire_of :: "byte list \<Rightarrow> byte list" where
  "wire_of p \<equiv> kiss_encode 0 CMD_DATA p"

definition passed_on :: "hub_link \<Rightarrow> byte list list" where
  "passed_on l = hl_written l @ (case hl_hand l of Some w \<Rightarrow> [w] | None \<Rightarrow> []) @ hl_queue l"

definition link_hears :: "nat \<Rightarrow> hub \<Rightarrow> byte list list \<Rightarrow> bool" where
  "link_hears i h heard \<longleftrightarrow>
     (case map_of (hb_links h) i of
        None \<Rightarrow> True
      | Some l \<Rightarrow>
          length (hl_queue l) \<le> CLIENT_QUEUE \<and>
          (if hl_broken l
           then hl_hand l = None \<and> hl_queue l = [] \<and> prefix (concat (hl_written l)) (concat (map wire_of heard))
           else if hl_listed l then passed_on l = map wire_of heard
           else prefix (passed_on l) (map wire_of heard)))"

lemma map_of_offer: "map_of (offer_to_all i w ls) j = map_option (offer_frame i w j) (map_of ls j)"
  by (induction ls) (auto simp: offer_to_all_def)

lemma println_simps [simp]:
  "hb_links (println s h) = hb_links h" "hb_tasks (println s h) = hb_tasks h" "hb_arriving (println s h) = hb_arriving h"
  "hb_next (println s h) = hb_next h"
  by (simp_all add: println_def)

lemma accept_frame [simp]: "hb_links (hub_accept r h) = hb_links h" "hb_tasks (hub_accept r h) = hb_tasks h"
  by (auto simp: hub_accept_def split: sum.split)

lemma writer_tasks [simp]:
  "hb_tasks (hub_take i h) = hb_tasks h" "hb_tasks (hub_write i werr h) = hb_tasks h" "hb_tasks (hub_abort i n h) = hb_tasks h"
  by (simp_all add: hub_take_def hub_write_def hub_abort_def split: option.split list.split)

lemma relay_links:
  "hb_links (hub_relay i h) =
     (case on_air (HubRelay i) h of Some (_, p) \<Rightarrow> offer_to_all i (wire_of p) (hb_links h) | None \<Rightarrow> hb_links h)"
proof (cases "map_of (hb_tasks h) i")
  case (Some t)
  then show ?thesis
    by (cases "ht_frames t") (simp_all add: hub_relay_def on_air_def Let_def)
qed (simp add: hub_relay_def on_air_def)

lemma on_air_sender: "on_air x h = Some (j, p) \<Longrightarrow> x = HubRelay j"
  by (cases x) (auto simp: on_air_def split: option.splits list.splits if_splits)

lemma on_air_simps [simp]:
  "on_air (HubAccept r) h = None" "on_air (HubStart j) h = None" "on_air (HubRead j b) h = None"
  "on_air (HubWrite j werr) h = None" "on_air (HubClose j) h = None" "on_air (HubTake j) h = None" "on_air (HubAbort j n) h = None"
  by (simp_all add: on_air_def)

lemma heard_simps [simp]:
  "heard_step i (HubAccept r) h acc = acc" "heard_step i (HubRead j b) h acc = acc"
  "heard_step i (HubWrite j werr) h acc = acc" "heard_step i (HubClose j) h acc = acc"
  "heard_step i (HubTake j) h acc = acc" "heard_step i (HubAbort j n) h acc = acc"
  "heard_step i (HubStart j) h acc = (if j = i \<and> i \<in> set (hb_arriving h) then [] else acc)"
  by (simp_all add: heard_step_def joins_def)

lemma heard_relay:
  "heard_step i (HubRelay j) h acc =
     (case on_air (HubRelay j) h of Some (_, p) \<Rightarrow> if j \<noteq> i then acc @ [p] else acc | None \<Rightarrow> acc)"
  by (auto simp: heard_step_def joins_def on_air_def split: option.split list.split)

lemma prefix_concat: "prefix xs ys \<Longrightarrow> prefix (concat xs) (concat ys)"
  by (auto simp: prefix_def)

lemma writer_gone_hears:
  assumes "hl_broken l \<Longrightarrow> hl_hand l = None \<and> hl_queue l = [] \<and> prefix (concat (hl_written l)) (concat ws)"
    and "\<not> hl_broken l \<Longrightarrow> prefix (passed_on l) ws"
  shows "prefix (concat (hl_written (writer_gone n l))) (concat ws)"
proof (cases "hl_broken l")
  case False
  then have "prefix (concat (passed_on l)) (concat ws)" using assms(2) prefix_concat by blast
  moreover have "prefix (concat (hl_written (writer_gone n l))) (concat (passed_on l))"
    by (auto simp: writer_gone_def passed_on_def intro: take_is_prefix prefix_prefix split: option.split)
  ultimately show ?thesis using prefix_order.trans by blast
qed (use assms(1) in \<open>simp add: writer_gone_def\<close>)

lemma hears_gone:
  assumes "link_hears i h acc" "map_of (hb_links h) i = Some l" "map_of (hb_links h') i = Some (writer_gone n l)"
  shows "link_hears i h' acc"
proof -
  have "prefix (concat (hl_written (writer_gone n l))) (concat (map wire_of acc))"
    by (rule writer_gone_hears) (use assms(1,2) in \<open>auto simp: link_hears_def split: if_splits\<close>)
  then show ?thesis
    using assms(3) by (simp add: link_hears_def) (simp add: writer_gone_def)
qed

lemma hears_offered:
  assumes "link_hears i h acc" "hb_links h' = offer_to_all j (wire_of p) (hb_links h)"
  shows "link_hears i h' (if j \<noteq> i then acc @ [p] else acc)"
proof (cases "map_of (hb_links h) i")
  case (Some l)
  have "prefix ws (map wire_of acc) \<Longrightarrow> prefix ws (map wire_of (acc @ [p]))" for ws
    by (simp add: prefix_append)
  moreover have "prefix (concat ws) (concat (map wire_of acc)) \<Longrightarrow> prefix (concat ws) (concat (map wire_of (acc @ [p])))" for ws
    by (simp add: prefix_append)
  ultimately show ?thesis
    using assms Some by (auto simp: link_hears_def map_of_offer offer_frame_def passed_on_def)
qed (use assms in \<open>simp add: link_hears_def map_of_offer\<close>)

lemma hears_relay:
  assumes "link_hears i h acc"
  shows "link_hears i (hub_relay j h) (heard_step i (HubRelay j) h acc)"
proof (cases "on_air (HubRelay j) h")
  case None
  then show ?thesis using assms by (simp add: heard_relay relay_links link_hears_def)
next
  case (Some kp)
  then obtain p where p: "on_air (HubRelay j) h = Some (j, p)"
    using on_air_sender by (cases kp) force
  then show ?thesis
    using hears_offered [OF assms, of "hub_relay j h" j p] by (simp add: heard_relay relay_links p)
qed

lemma hears_write:
  assumes "link_hears i h acc"
  shows "link_hears i (hub_write j werr h) acc"
proof (cases "j = i")
  case True
  show ?thesis
  proof (cases "map_of (hb_links h) i")
    case (Some l)
    show ?thesis
    proof (cases "hl_hand l")
      case None
      then show ?thesis using assms Some True by (simp add: hub_write_def)
    next
      case (Some w)
      show ?thesis
      proof (cases werr)
        case None
        then show ?thesis
          using assms \<open>map_of (hb_links h) i = Some l\<close> Some True by (auto simp: hub_write_def link_hears_def passed_on_def split: if_splits)
      next
        case (Some n)
        then show ?thesis
          using hears_gone [OF assms \<open>map_of (hb_links h) i = Some l\<close>] \<open>hl_hand l = Some w\<close> \<open>map_of (hb_links h) i = Some l\<close> True
          by (simp add: hub_write_def)
      qed
    qed
  qed (use assms True in \<open>simp add: hub_write_def\<close>)
next
  case False
  then have "map_of (hb_links (hub_write j werr h)) i = map_of (hb_links h) i"
    by (simp add: hub_write_def split: option.split)
  then show ?thesis using assms by (simp add: link_hears_def)
qed

lemma hears_abort:
  assumes "link_hears i h acc"
  shows "link_hears i (hub_abort j n h) acc"
proof (cases "j = i \<and> map_of (hb_tasks h) i = None \<and> map_of (hb_links h) i \<noteq> None")
  case True
  then show ?thesis using hears_gone [OF assms] by (auto simp: hub_abort_def)
next
  case False
  then have "map_of (hb_links (hub_abort j n h)) i = map_of (hb_links h) i"
    by (auto simp: hub_abort_def split: option.split)
  then show ?thesis using assms by (simp add: link_hears_def)
qed

lemma hears_step:
  assumes "link_hears i h acc"
  shows "link_hears i (hub_step x h) (heard_step i x h acc)"
proof (cases x)
  case (HubRelay j)
  then show ?thesis using hears_relay [OF assms] by (simp add: hub_step_def)
next
  case (HubStart j)
  then show ?thesis using assms
    by (cases "j = i") (auto simp: hub_step_def link_hears_def hub_start_def CLIENT_QUEUE_def passed_on_def)
next
  case (HubRead j b)
  have "hb_links (hub_read j b h) = hb_links h"
    by (simp add: hub_read_def split: option.split prod.split)
  with HubRead assms show ?thesis by (simp add: hub_step_def link_hears_def)
next
  case (HubTake j)
  then show ?thesis using assms
    by (cases "map_of (hb_links h) j"; cases "j = i"; cases "map_of (hb_links h) i")
       (auto simp: hub_step_def link_hears_def hub_take_def passed_on_def split: list.split)
next
  case (HubWrite j werr)
  then show ?thesis using hears_write [OF assms] by (simp add: hub_step_def)
next
  case (HubClose j)
  then show ?thesis using assms
    by (cases "map_of (hb_tasks h) j"; cases "j = i")
       (auto simp: hub_step_def link_hears_def hub_close_def passed_on_def split: option.split if_splits)
next
  case (HubAbort j n)
  then show ?thesis using hears_abort [OF assms] by (simp add: hub_step_def)
qed (use assms in \<open>simp add: hub_step_def link_hears_def\<close>)

section \<open>Every frame on the air is a station's\<close>

definition data_of :: "kiss_frame list \<Rightarrow> byte list list" where
  "data_of fs = map kiss_payload (filter (\<lambda>f. kiss_command f = CMD_DATA) fs)"

definition heard_from :: "byte list \<Rightarrow> kiss_frame list" where
  "heard_from octets = snd (kiss_push (kiss_decoder_new HUB_MAX_FRAME) octets)"

definition task_airs :: "nat \<Rightarrow> hub \<Rightarrow> byte list list \<Rightarrow> byte list \<Rightarrow> bool" where
  "task_airs i h aired octets \<longleftrightarrow>
     (case map_of (hb_tasks h) i of
        None \<Rightarrow> aired = data_of (heard_from octets)
      | Some t \<Rightarrow>
          aired @ data_of (ht_frames t) = data_of (heard_from octets) \<and>
          ht_decoder t = fst (kiss_push (kiss_decoder_new HUB_MAX_FRAME) octets))"

lemma data_of_simps [simp]:
  "data_of [] = []" "data_of (f # fs) = (if kiss_command f = CMD_DATA then [kiss_payload f] else []) @ data_of fs"
  "data_of (fs @ gs) = data_of fs @ data_of gs"
  by (simp_all add: data_of_def)

lemma heard_from_append:
  "heard_from (a @ b) = heard_from a @ snd (kiss_push (fst (kiss_push (kiss_decoder_new HUB_MAX_FRAME) a)) b)"
  by (simp add: heard_from_def kiss_push_append)

lemma aired_simps [simp]:
  "aired_step i (HubAccept r) h acc = acc" "aired_step i (HubRead j b) h acc = acc"
  "aired_step i (HubWrite j werr) h acc = acc" "aired_step i (HubClose j) h acc = acc"
  "aired_step i (HubTake j) h acc = acc" "aired_step i (HubAbort j n) h acc = acc"
  "aired_step i (HubStart j) h acc = (if j = i \<and> i \<in> set (hb_arriving h) then [] else acc)"
  by (simp_all add: aired_step_def joins_def)

lemma octets_simps [simp]:
  "octets_step i (HubAccept r) h o' = o'" "octets_step i (HubRelay j) h o' = o'"
  "octets_step i (HubWrite j werr) h o' = o'" "octets_step i (HubClose j) h o' = o'"
  "octets_step i (HubTake j) h o' = o'" "octets_step i (HubAbort j n) h o' = o'"
  "octets_step i (HubStart j) h o' = (if j = i \<and> i \<in> set (hb_arriving h) then [] else o')"
  "octets_step i (HubRead j b) h o' =
     (if j = i \<and> (case map_of (hb_tasks h) i of Some t \<Rightarrow> ht_frames t = [] | None \<Rightarrow> False) then o' @ b else o')"
  by (simp_all add: octets_step_def joins_def)

lemma airs_relay:
  assumes "task_airs i h aired octets"
  shows "task_airs i (hub_relay j h) (aired_step i (HubRelay j) h aired) octets"
proof (cases "map_of (hb_tasks h) j")
  case (Some t)
  then show ?thesis using assms
    by (cases "ht_frames t"; cases "j = i"; cases "map_of (hb_tasks h) i")
       (simp_all add: aired_step_def joins_def on_air_def task_airs_def hub_relay_def Let_def split: if_splits)
qed (use assms in \<open>simp add: aired_step_def joins_def on_air_def hub_relay_def\<close>)

lemma airs_step:
  assumes "task_airs i h aired octets"
  shows "task_airs i (hub_step x h) (aired_step i x h aired) (octets_step i x h octets)"
proof (cases x)
  case (HubRelay j)
  then show ?thesis using airs_relay [OF assms] by (simp add: hub_step_def)
next
  case (HubStart j)
  then show ?thesis using assms
    by (cases "j = i") (auto simp: hub_step_def task_airs_def hub_start_def heard_from_def)
next
  case (HubRead j b)
  show ?thesis
  proof (cases "j = i \<and> map_of (hb_tasks h) i \<noteq> None")
    case True
    then obtain t where t: "map_of (hb_tasks h) i = Some t" "j = i" by blast
    obtain d fs where "kiss_push (ht_decoder t) b = (d, fs)" by (metis surj_pair)
    then show ?thesis using assms HubRead t
      by (auto simp: hub_step_def task_airs_def hub_read_def heard_from_append kiss_push_append)
  next
    case False
    then have "map_of (hb_tasks (hub_read j b h)) i = map_of (hb_tasks h) i"
      by (cases "map_of (hb_tasks h) j") (auto simp: hub_read_def split: prod.split)
    then show ?thesis using assms HubRead False by (auto simp: hub_step_def task_airs_def)
  qed
next
  case (HubWrite j werr)
  with assms show ?thesis by (simp add: hub_step_def task_airs_def)
next
  case (HubTake j)
  with assms show ?thesis by (simp add: hub_step_def task_airs_def)
next
  case (HubAbort j n)
  with assms show ?thesis by (simp add: hub_step_def task_airs_def)
next
  case (HubClose j)
  then show ?thesis using assms
    by (cases "map_of (hb_tasks h) j"; cases "j = i") (auto simp: hub_step_def task_airs_def hub_close_def split: option.split)
qed (use assms in \<open>simp add: hub_step_def task_airs_def\<close>)

section \<open>The shared channel\<close>

text \<open>What is on the air came out of a decoder, so it fits the frame limit.\<close>

lemma push_frames_fit:
  "decoder_ok d \<Longrightarrow> f \<in> set (snd (kiss_push d bs)) \<Longrightarrow> length (kiss_payload f) < max_frame d"
proof (induction bs arbitrary: d)
  case (Cons b bs)
  have "length (kiss_payload g) < max_frame d" if "g \<in> set (snd (kiss_step d b))" for g
  proof (cases "b = FEND")
    case True
    then show ?thesis
      using that Cons.prems(1)
      by (cases "in_frame d"; cases "kbuf d") (simp_all add: kiss_step_def take_frame_def decoder_ok_def)
  next
    case False
    then have "snd (kiss_step d b) = []" by (simp add: kiss_step_def case_prod_beta Let_def)
    then show ?thesis using that by simp
  qed
  then show ?case
    using Cons.prems(2) Cons.IH [OF kiss_step_ok [OF Cons.prems(1), of b]] by (auto simp: kiss_step_max)
qed simp

definition tasks_fit :: "hub \<Rightarrow> bool" where
  "tasks_fit h \<longleftrightarrow>
     (\<forall>i t. map_of (hb_tasks h) i = Some t \<longrightarrow>
        decoder_ok (ht_decoder t) \<and> max_frame (ht_decoder t) = HUB_MAX_FRAME \<and>
        (\<forall>f \<in> set (ht_frames t). length (kiss_payload f) < HUB_MAX_FRAME))"

lemma fit_new: "decoder_ok (kiss_decoder_new n)" "max_frame (kiss_decoder_new n) = n"
  by (simp_all add: decoder_ok_def kiss_decoder_new_def)

lemma fit_read: "tasks_fit h \<Longrightarrow> tasks_fit (hub_read i b h)"
proof (cases "map_of (hb_tasks h) i")
  case (Some t)
  assume "tasks_fit h"
  then have t: "decoder_ok (ht_decoder t)" "max_frame (ht_decoder t) = HUB_MAX_FRAME"
    using Some by (auto simp: tasks_fit_def)
  obtain d fs where d: "kiss_push (ht_decoder t) b = (d, fs)" by (metis surj_pair)
  have "decoder_ok d" "max_frame d = HUB_MAX_FRAME" "\<forall>f \<in> set fs. length (kiss_payload f) < HUB_MAX_FRAME"
    using kiss_push_ok [OF t(1), of b] kiss_push_max [of "ht_decoder t" b] push_frames_fit [OF t(1), of _ b] d t(2) by auto
  then show ?thesis
    using \<open>tasks_fit h\<close> Some d by (auto simp: tasks_fit_def hub_read_def)
qed (simp add: hub_read_def)

lemma fit_step: "tasks_fit h \<Longrightarrow> tasks_fit (hub_step x h)"
proof (cases x)
  case (HubRead i b)
  assume "tasks_fit h"
  then show ?thesis using HubRead fit_read by (simp add: hub_step_def)
next
  case (HubRelay i)
  assume a: "tasks_fit h"
  show ?thesis
  proof (cases "map_of (hb_tasks h) i")
    case (Some t)
    then show ?thesis using a HubRelay
      by (cases "ht_frames t") (auto simp: hub_step_def tasks_fit_def hub_relay_def Let_def split: if_splits)
  qed (use a HubRelay in \<open>simp add: hub_step_def hub_relay_def\<close>)
next
  case (HubStart i)
  assume "tasks_fit h"
  then show ?thesis using HubStart by (auto simp: hub_step_def tasks_fit_def hub_start_def fit_new)
next
  case (HubWrite i werr)
  assume "tasks_fit h"
  then show ?thesis using HubWrite by (simp add: hub_step_def tasks_fit_def)
next
  case (HubTake i)
  assume "tasks_fit h"
  then show ?thesis using HubTake by (simp add: hub_step_def tasks_fit_def)
next
  case (HubAbort i n)
  assume "tasks_fit h"
  then show ?thesis using HubAbort by (simp add: hub_step_def tasks_fit_def)
next
  case (HubClose i)
  assume "tasks_fit h"
  then show ?thesis using HubClose
    by (cases "map_of (hb_tasks h) i"; cases "map_of (hb_links h) i") (auto simp: hub_step_def tasks_fit_def hub_close_def)
next
  case (HubAccept r)
  assume "tasks_fit h"
  then show ?thesis using HubAccept by (simp add: hub_step_def tasks_fit_def)
qed

interpretation hub_machine: invariant_machine hub_step tasks_fit
  by unfold_locales (rule fit_step)

definition frames_fit :: "byte list list \<Rightarrow> bool" where
  "frames_fit ps \<longleftrightarrow> (\<forall>p \<in> set ps. length p < HUB_MAX_FRAME)"

lemma on_air_fits:
  assumes "tasks_fit h" "on_air x h = Some (j, p)"
  shows "length p < HUB_MAX_FRAME"
proof (cases x)
  case (HubRelay i)
  then show ?thesis using assms
    by (cases "map_of (hb_tasks h) i") (auto simp: on_air_def tasks_fit_def split: list.splits if_splits)
qed (use assms in simp_all)

lemma heard_fits: "tasks_fit h \<Longrightarrow> frames_fit acc \<Longrightarrow> frames_fit (heard_step i x h acc)"
  by (auto simp: heard_step_def frames_fit_def dest: on_air_fits split: option.split)

lemma hears_octets:
  assumes "link_hears i h acc" "map_of (hb_links h) i = Some l"
  shows "prefix (concat (hl_written l)) (concat (map wire_of acc))"
proof (cases "hl_broken l")
  case False
  then have "prefix (passed_on l) (map wire_of acc)"
    using assms by (auto simp: link_hears_def split: if_splits)
  then have "prefix (hl_written l) (map wire_of acc)"
    by (auto simp: passed_on_def dest: append_prefixD)
  then show ?thesis by (rule prefix_concat)
qed (use assms in \<open>simp add: link_hears_def\<close>)

lemma along_hears:
  assumes "link_hears i h acc" "tasks_fit h" "frames_fit acc"
  shows "link_hears i (fold hub_step xs h) (along (heard_step i) xs h acc) \<and> frames_fit (along (heard_step i) xs h acc)"
  using assms
proof (induction xs arbitrary: h acc)
  case (Cons x xs)
  then show ?case
    using Cons.IH [OF hears_step [OF Cons.prems(1)] fit_step [OF Cons.prems(2)] heard_fits [OF Cons.prems(2,3)]] by simp
qed simp

lemma wires_decode:
  assumes "frames_fit ps"
  shows "snd (kiss_push (kiss_decoder_new HUB_MAX_FRAME) (concat (map wire_of ps))) =
    map (\<lambda>p. \<lparr>kiss_port = 0, kiss_command = CMD_DATA, kiss_payload = p\<rparr>) ps"
proof -
  have "concat (map wire_of ps) = concat (map encode_of (map (\<lambda>p. (0, CMD_DATA, p)) ps))"
    by (simp add: comp_def encode_of_def)
  moreover have "\<forall>(q, c, p) \<in> set (map (\<lambda>p. (0 :: byte, CMD_DATA, p)) ps). length p < max_frame (kiss_decoder_new HUB_MAX_FRAME)"
    using assms by (auto simp: frames_fit_def fit_new)
  moreover have "kbuf (kiss_decoder_new HUB_MAX_FRAME) = []"
    by (simp add: kiss_decoder_new_def)
  ultimately show ?thesis
    by (simp only: push_stream_fresh) (simp add: comp_def frame_of_def CMD_DATA_def)
qed

definition heard :: "nat \<Rightarrow> bool \<Rightarrow> hub_op list \<Rightarrow> byte list list" where
  "heard i monitor xs = along (heard_step i) xs (hub_new monitor) []"

text \<open>C31: The hub is a shared channel. However the accept loop and the reading and writing tasks of the stations interleave, and whatever
  writes fail, a station that is on the channel and whose writer lives has been given, or has waiting for it, exactly the frames the others put on the air since
  it came, in order and none of its own: those written, one in its writer's hands, and at most 256 queued; one that was dropped for not reading has a
  beginning of them. The octets a station has got, also after a failed write or an abort cut a frame short, are a beginning of those of the frames on the air, and decode
  to a beginning of those frames and nothing else, whatever the others wrote.\<close>

theorem hub_is_a_shared_channel:
  "case map_of (hb_links (fold hub_step xs (hub_new monitor))) i of
     None \<Rightarrow> True
   | Some l \<Rightarrow>
       length (hl_queue l) \<le> CLIENT_QUEUE \<and>
       (if hl_broken l then hl_queue l = []
        else
          (let given = hl_written l @ (case hl_hand l of Some w \<Rightarrow> [w] | None \<Rightarrow> []) @ hl_queue l
           in if hl_listed l then given = map (kiss_encode 0 CMD_DATA) (heard i monitor xs)
              else prefix given (map (kiss_encode 0 CMD_DATA) (heard i monitor xs)))) \<and>
       prefix (concat (hl_written l)) (concat (map (kiss_encode 0 CMD_DATA) (heard i monitor xs))) \<and>
       prefix (snd (kiss_push (kiss_decoder_new HUB_MAX_FRAME) (concat (hl_written l))))
         (map (\<lambda>p. \<lparr>kiss_port = 0, kiss_command = CMD_DATA, kiss_payload = p\<rparr>) (heard i monitor xs))"
proof -
  have "link_hears i (hub_new monitor) []" "tasks_fit (hub_new monitor)" "frames_fit []"
    by (simp_all add: link_hears_def tasks_fit_def frames_fit_def hub_new_def)
  then have h: "link_hears i (fold hub_step xs (hub_new monitor)) (heard i monitor xs)" "frames_fit (heard i monitor xs)"
    using along_hears [of i "hub_new monitor" "[]" xs] by (simp_all add: heard_def)
  show ?thesis
  proof (cases "map_of (hb_links (fold hub_step xs (hub_new monitor))) i")
    case (Some l)
    have octets: "prefix (concat (hl_written l)) (concat (map wire_of (heard i monitor xs)))"
      using hears_octets [OF h(1) Some] .
    then have "prefix (snd (kiss_push (kiss_decoder_new HUB_MAX_FRAME) (concat (hl_written l))))
        (snd (kiss_push (kiss_decoder_new HUB_MAX_FRAME) (concat (map wire_of (heard i monitor xs)))))"
      by (auto simp: prefix_def kiss_push_append case_prod_beta)
    then show ?thesis
      using h(1) octets unfolding wires_decode [OF h(2)] by (auto simp: Some link_hears_def passed_on_def Let_def split: if_splits)
  qed simp
qed

text \<open>A frame on the air is one a station sent. What a station has put on the channel since it came, followed by the data frames of its last
  read that are still to be relayed, are the data frames of the octets it wrote, in order: a parameter frame stays local, and half a frame,
  garbage or an oversized frame takes nothing of what follows it along.\<close>

theorem hub_relays_what_was_sent:
  "along (aired_step i) xs (hub_new monitor) []
     @ (case map_of (hb_tasks (fold hub_step xs (hub_new monitor))) i of Some t \<Rightarrow> data_of (ht_frames t) | None \<Rightarrow> []) =
   data_of (snd (kiss_push (kiss_decoder_new HUB_MAX_FRAME) (along (octets_step i) xs (hub_new monitor) [])))"
proof -
  have "task_airs i (fold hub_step xs h) (along (aired_step i) xs h a) (along (octets_step i) xs h b)"
    if "task_airs i h a b" for h a b
    using that by (induction xs arbitrary: h a b) (simp_all add: airs_step)
  from this [of "hub_new monitor" "[]" "[]"] show ?thesis
    by (auto simp: task_airs_def hub_new_def heard_from_def split: option.splits)
qed

section \<open>The limit on stations\<close>

text \<open>The table is looked at when a connection is accepted and extended when its task runs, so a burst of connections passes the limit;
  and a station dropped for not reading keeps its task, and goes on transmitting, without counting.\<close>

definition arrivals :: "nat \<Rightarrow> hub_op list" where
  "arrivals n = replicate n (HubAccept (Inr [])) @ map HubStart [1..<Suc n]"

lemma accepts:
  "stations h < MAX_STATIONS \<Longrightarrow>
     hb_links (fold hub_step (replicate n (HubAccept (Inr []))) h) = hb_links h \<and>
     hb_arriving (fold hub_step (replicate n (HubAccept (Inr []))) h) = hb_arriving h @ [hb_next h..<hb_next h + n]"
proof (induction n arbitrary: h)
  case (Suc n)
  have "stations (hub_accept (Inr []) h) < MAX_STATIONS" "hb_next (hub_accept (Inr []) h) = Suc (hb_next h)"
    "hb_arriving (hub_accept (Inr []) h) = hb_arriving h @ [hb_next h]"
    using Suc.prems by (simp_all add: hub_accept_def stations_def)
  then show ?case
    using Suc.IH [of "hub_accept (Inr []) h"] by (simp add: hub_step_def upt_conv_Cons)
qed simp

lemma update_fresh: "\<not> has_key m k \<Longrightarrow> AList.update k v m = m @ [(k, v)]"
  by (induction m) auto

lemma starts:
  assumes "distinct is" "set is \<subseteq> set (hb_arriving h)" "\<forall>i \<in> set is. \<not> has_key (hb_links h) i"
  shows "stations (fold hub_step (map HubStart is) h) = stations h + length is"
  using assms
proof (induction "is" arbitrary: h)
  case (Cons i "is")
  let ?h = "hub_start i h"
  have "set is \<subseteq> set (hb_arriving ?h)" "\<forall>j \<in> set is. \<not> has_key (hb_links ?h) j" "stations ?h = Suc (stations h)"
    using Cons.prems by (auto simp: hub_start_def stations_def update_fresh) (metis in_set_remove1 subsetD)
  then show ?case using Cons by (simp add: hub_step_def)
qed simp

lemma more_stations_than_the_limit: "stations (fold hub_step (arrivals n) (hub_new False)) = n"
  using accepts [of "hub_new False" n] starts [of "[1..<Suc n]" "fold hub_step (replicate n (HubAccept (Inr []))) (hub_new False)"]
  by (simp add: arrivals_def hub_new_def stations_def MAX_STATIONS_def)

lemma dropped_station_still_transmits:
  "on_air (HubRelay i) h = Some (i, p) \<Longrightarrow> map_of (hb_links h) j = Some l \<Longrightarrow> j \<noteq> i \<Longrightarrow> hl_listed l \<Longrightarrow> \<not> hl_broken l
    \<Longrightarrow> length (hl_queue l) < CLIENT_QUEUE
    \<Longrightarrow> map_of (hb_links (hub_relay i h)) j = Some (l\<lparr>hl_queue := hl_queue l @ [kiss_encode 0 CMD_DATA p]\<rparr>)"
  by (simp add: relay_links map_of_offer offer_frame_def)

end
