(* ===== verification/Station.thy ===== *)
theory Station
  imports Tnc_Proofs Airc_Session_Inv Policy_Proofs Aprs
begin

text \<open>
  \<open>src/src/station.rs\<close>: the client side of the gateway, for an operator with a radio. The command line, the
  commands typed at the terminal, the frames heard, and the timer.

  The refusals of the command line are a datatype. A duty percentage becomes an exact fraction. A call of an operation reads the clock
  once, and the clock's nanoseconds from which the epoch is mixed are an argument. \<open>--tnc serial:\<close> needs a
  build feature, which is an argument as well.
\<close>

section \<open>The command line\<close>

record station_args =
  ag_call :: callsign
  ag_gateway :: callsign
  ag_channel :: "ustr option"
  ag_link :: tnc_link
  ag_paclen :: nat
  ag_path :: "callsign list"
  ag_quiet :: bool
  ag_airtime :: airtime_config

datatype station_error =
    SeCallsign callsign_error
  | SeDuty nat
  | SeUnknown ustr
  | SeRequired
  | SeHops
  | SeUnsafe duration duration
  | SeBaud nat
  | SeKissTime ustr nat
  | SePort ustr
  | SeSerialBaud ustr
  | SeNoSerial
  | SeTnc ustr

datatype station_invocation = StRun station_args | StHelp | StUsage station_error

record station_opts =
  so_call :: "ustr option"
  so_gateway :: "ustr option"
  so_channel :: "ustr option"
  so_tnc :: ustr
  so_paclen :: nat
  so_path :: "callsign list"
  so_quiet :: bool
  so_airtime :: airtime_config

definition station_opts_default :: station_opts where
  "station_opts_default =
     \<lparr>so_call = None, so_gateway = None, so_channel = None, so_tnc = lit ''tcp://127.0.0.1:8001'', so_paclen = 128,
      so_path = [], so_quiet = False, so_airtime = airtime_config_default\<rparr>"

text \<open>\<open>args.next()\<close>. A value that should be a number and is none is passed over.\<close>

definition argv_next :: "ustr list \<Rightarrow> ustr option \<times> ustr list" where
  "argv_next args = (case args of [] \<Rightarrow> (None, []) | a # rest \<Rightarrow> (Some a, rest))"

definition set_airtime :: "(nat \<Rightarrow> airtime_config \<Rightarrow> airtime_config) \<Rightarrow> nat option \<Rightarrow> station_opts \<Rightarrow> station_opts" where
  "set_airtime f v o' = (case v of Some n \<Rightarrow> o'\<lparr>so_airtime := f n (so_airtime o')\<rparr> | None \<Rightarrow> o')"

fun parse_hops :: "ustr list \<Rightarrow> callsign_error + callsign list" where
  "parse_hops [] = Inr []"
| "parse_hops (hop # hops) =
     (case callsign_from_str hop of
        Inl e \<Rightarrow> Inl e
      | Inr c \<Rightarrow> (case parse_hops hops of Inl e \<Rightarrow> Inl e | Inr cs \<Rightarrow> Inr (c # cs)))"

definition take_path :: "ustr option \<Rightarrow> station_opts \<Rightarrow> station_error + station_opts" where
  "take_path v o' =
     (case v of
        None \<Rightarrow> Inr o'
      | Some s \<Rightarrow>
          (case parse_hops (filter (\<lambda>h. h \<noteq> []) (split_on 44 s)) of
             Inl e \<Rightarrow> Inl (SeCallsign e)
           | Inr cs \<Rightarrow> Inr (o'\<lparr>so_path := so_path o' @ cs\<rparr>)))"

definition take_duty :: "nat option \<Rightarrow> station_opts \<Rightarrow> station_error + station_opts" where
  "take_duty v o' =
     (case v of
        None \<Rightarrow> Inr o'
      | Some n \<Rightarrow>
          if n = 0 \<or> HARD_MAX_DUTY < of_nat n / 100 then Inl (SeDuty n)
          else Inr (o'\<lparr>so_airtime := (so_airtime o')\<lparr>at_max_duty := of_nat n / 100\<rparr>\<rparr>))"

text \<open>One argument, with those that follow it; \<open>None\<close> when help was asked for.\<close>

definition station_arg ::
  "ustr \<Rightarrow> ustr list \<Rightarrow> station_opts \<Rightarrow> station_error + (ustr list \<times> station_opts) option" where
  "station_arg arg args o' =
     (let (v, rest) = argv_next args;
          num = (\<lambda>bound. Option.bind v (parse_unsigned bound));
          go = (\<lambda>o'. Inr (Some (rest, o')))
      in if arg = lit ''--call'' then go (o'\<lparr>so_call := v\<rparr>)
         else if arg = lit ''--gateway'' then go (o'\<lparr>so_gateway := v\<rparr>)
         else if arg = lit ''--channel'' then go (o'\<lparr>so_channel := v\<rparr>)
         else if arg = lit ''--tnc'' then go (case v of Some s \<Rightarrow> o'\<lparr>so_tnc := s\<rparr> | None \<Rightarrow> o')
         else if arg = lit ''--paclen'' then go (case num (2 ^ 64) of Some n \<Rightarrow> o'\<lparr>so_paclen := n\<rparr> | None \<Rightarrow> o')
         else if arg = lit ''--path'' then (case take_path v o' of Inl e \<Rightarrow> Inl e | Inr o'' \<Rightarrow> go o'')
         else if arg = lit ''--quiet'' then Inr (Some (args, o'\<lparr>so_quiet := True\<rparr>))
         else if arg = lit ''--baud'' then go (set_airtime (\<lambda>n a. a\<lparr>at_baud := n\<rparr>) (num (2 ^ 32)) o')
         else if arg = lit ''--txdelay'' then go (set_airtime (\<lambda>n a. a\<lparr>at_txdelay := from_millis n\<rparr>) (num (2 ^ 64)) o')
         else if arg = lit ''--txtail'' then go (set_airtime (\<lambda>n a. a\<lparr>at_txtail := from_millis n\<rparr>) (num (2 ^ 64)) o')
         else if arg = lit ''--duty'' then (case take_duty (num (2 ^ 32)) o' of Inl e \<Rightarrow> Inl e | Inr o'' \<Rightarrow> go o'')
         else if arg = lit ''--max-continuous''
         then go (set_airtime (\<lambda>n a. a\<lparr>at_max_continuous := from_secs n\<rparr>) (num (2 ^ 64)) o')
         else if arg = lit ''--cooldown'' then go (set_airtime (\<lambda>n a. a\<lparr>at_cooldown := from_secs n\<rparr>) (num (2 ^ 64)) o')
         else if arg = lit ''--help'' \<or> arg = lit ''-h'' then Inr None
         else Inl (SeUnknown arg))"

lemma station_arg_shrinks: "station_arg arg args o' = Inr (Some (rest, o'')) \<Longrightarrow> length rest \<le> length args"
  by (auto simp: station_arg_def argv_next_def Let_def split: if_splits sum.splits list.splits)

function station_args_loop :: "ustr list \<Rightarrow> station_opts \<Rightarrow> station_error + station_opts option" where
  "station_args_loop [] o' = Inr (Some o')"
| "station_args_loop (arg # args) o' =
     (case station_arg arg args o' of
        Inl e \<Rightarrow> Inl e
      | Inr None \<Rightarrow> Inr None
      | Inr (Some (rest, o'')) \<Rightarrow> station_args_loop rest o'')"
  by pat_completeness auto
termination
  by (relation "measure (\<lambda>(args, _). length args)") (auto dest!: station_arg_shrinks)

definition station_link :: "bool \<Rightarrow> ustr \<Rightarrow> station_error + tnc_link" where
  "station_link serial spec =
     (case strip_prefix (lit ''tcp://'') spec of
        Some rest \<Rightarrow>
          (let (host, port) = (case rsplit_once 58 rest of Some hp \<Rightarrow> hp | None \<Rightarrow> (rest, lit ''8001''))
           in case parse_unsigned 65536 port of Some p \<Rightarrow> Inr (LinkTcp host p) | None \<Rightarrow> Inl (SePort port))
      | None \<Rightarrow>
          (case strip_prefix (lit ''serial:'') spec of
             Some rest \<Rightarrow>
               (let (device, baud) = (case split_once 64 rest of Some db \<Rightarrow> db | None \<Rightarrow> (rest, lit ''9600''))
                in if \<not> serial then Inl SeNoSerial
                   else (case parse_unsigned (2 ^ 32) baud of Some b \<Rightarrow> Inr (LinkSerial device b) | None \<Rightarrow> Inl (SeSerialBaud baud)))
           | None \<Rightarrow> Inl (SeTnc spec)))"

fun kiss_times_ok :: "(ustr \<times> duration) list \<Rightarrow> station_error + unit" where
  "kiss_times_ok [] = Inr ()"
| "kiss_times_ok ((name, d) # ts) = (if 2550 < as_millis d then Inl (SeKissTime name (as_millis d)) else kiss_times_ok ts)"

definition station_check :: "bool \<Rightarrow> station_opts \<Rightarrow> station_error + station_args" where
  "station_check serial o' =
     (case (so_call o', so_gateway o') of
        (Some call, Some gateway) \<Rightarrow>
          (let a = so_airtime o' in
           if 2 < length (so_path o') then Inl SeHops
           else (case check_hardware_safe a of
              Inl (r, c) \<Rightarrow> Inl (SeUnsafe r c)
            | Inr _ \<Rightarrow>
                if at_baud a \<notin> set STANDARD_PACKET_BAUDS then Inl (SeBaud (at_baud a))
                else (case kiss_times_ok [(lit ''--txdelay'', at_txdelay a), (lit ''--txtail'', at_txtail a)] of
                   Inl e \<Rightarrow> Inl e
                 | Inr _ \<Rightarrow>
                     (case station_link serial (so_tnc o') of
                        Inl e \<Rightarrow> Inl e
                      | Inr link \<Rightarrow>
                          (case callsign_from_str call of
                             Inl e \<Rightarrow> Inl (SeCallsign e)
                           | Inr c \<Rightarrow>
                               (case callsign_from_str gateway of
                                  Inl e \<Rightarrow> Inl (SeCallsign e)
                                | Inr g \<Rightarrow>
                                    Inr \<lparr>ag_call = c, ag_gateway = g, ag_channel = so_channel o', ag_link = link,
                                         ag_paclen = so_paclen o', ag_path = so_path o', ag_quiet = so_quiet o', ag_airtime = a\<rparr>))))))
      | _ \<Rightarrow> Inl SeRequired)"

definition station_parse_args :: "bool \<Rightarrow> ustr list \<Rightarrow> station_invocation" where
  "station_parse_args serial argv =
     (case station_args_loop argv station_opts_default of
        Inl e \<Rightarrow> StUsage e
      | Inr None \<Rightarrow> StHelp
      | Inr (Some o') \<Rightarrow> (case station_check serial o' of Inl e \<Rightarrow> StUsage e | Inr a \<Rightarrow> StRun a))"

section \<open>The station\<close>

record station =
  sn_args :: station_args
  sn_cfg :: tnc_config
  sn_tnc :: tnc
  sn_sessions :: sessions
  sn_current :: "ustr option"
  sn_output :: "ustr list"
  sn_epoch :: u16
  sn_last_rx :: "instant option"
  sn_last_hello :: instant

definition random_epoch :: "nat \<Rightarrow> u16" where
  "random_epoch nanos = of_nat nanos XOR of_nat (nanos div 2 ^ 16)"

text \<open>The configuration of the link and of the sessions, as \<open>main\<close> of \<open>rfirc-station\<close> builds them.\<close>

definition station_tnc_config :: "station_args \<Rightarrow> tnc_config" where
  "station_tnc_config a =
     \<lparr>tc_link = ag_link a, tc_kiss_port = 0, tc_max_frame = ag_paclen a + 64, tc_tx_pacing = from_millis 800,
      tc_tx_queue_depth = 32, tc_persistence = None, tc_slottime = None, tc_airtime = ag_airtime a\<rparr>"

definition station_new :: "station_args \<Rightarrow> nat \<Rightarrow> instant \<Rightarrow> station" where
  "station_new a nanos now =
     \<lparr>sn_args = a, sn_cfg = station_tnc_config a, sn_tnc = tnc_spawn (station_tnc_config a),
      sn_sessions = sessions_new (session_config_default\<lparr>paclen := ag_paclen a\<rparr>), sn_current = None, sn_output = [],
      sn_epoch = random_epoch nanos, sn_last_rx = None, sn_last_hello = now\<rparr>"

definition say :: "ustr \<Rightarrow> station \<Rightarrow> station" where
  "say line s = s\<lparr>sn_output := sn_output s @ [strip_terminal_controls line]\<rparr>"

definition drain_output :: "station \<Rightarrow> ustr list \<times> station" where
  "drain_output s = (sn_output s, s\<lparr>sn_output := []\<rparr>)"

definition set_channel :: "ustr option \<Rightarrow> station \<Rightarrow> station" where
  "set_channel c s = s\<lparr>sn_current := c\<rparr>"

text \<open>\<open>transmit_to\<close>.\<close>

definition st_transmit :: "callsign \<Rightarrow> airc_frame \<Rightarrow> instant \<Rightarrow> station \<Rightarrow> station" where
  "st_transmit dest f now s =
     (case ax25_ui (ag_call (sn_args s)) dest (ag_path (sn_args s)) (airc_encode f) of
        Inr ax \<Rightarrow>
          (case try_send (sn_cfg s) ax now (sn_tnc s) of
             (True, t) \<Rightarrow> s\<lparr>sn_tnc := t\<rparr>
           | (False, t) \<Rightarrow> say (lit ''!! transmit queue full, message dropped'') (s\<lparr>sn_tnc := t\<rparr>))
      | Inl e \<Rightarrow> say (lit ''!! cannot build frame: too many digipeaters'') s)"

definition st_transmit_all :: "(callsign \<times> airc_frame) list \<Rightarrow> instant \<Rightarrow> station \<Rightarrow> station" where
  "st_transmit_all fs now s = fold (\<lambda>(c, f). st_transmit c f now) fs s"

definition st_drain_acks :: "instant \<Rightarrow> station \<Rightarrow> station" where
  "st_drain_acks now s =
     (case drain_acks (sn_sessions s) of (acks, ss) \<Rightarrow> st_transmit_all acks now (s\<lparr>sn_sessions := ss\<rparr>))"

definition send_to :: "callsign \<Rightarrow> kind \<Rightarrow> byte list \<Rightarrow> bool \<Rightarrow> instant \<Rightarrow> station \<Rightarrow> station" where
  "send_to dest k body reliable now s =
     (case send dest k body reliable now (sn_sessions s) of
        (frames, ss) \<Rightarrow> st_drain_acks now (st_transmit_all (map (Pair dest) frames) now (s\<lparr>sn_sessions := ss\<rparr>)))"

definition st_send :: "kind \<Rightarrow> byte list \<Rightarrow> bool \<Rightarrow> instant \<Rightarrow> station \<Rightarrow> station" where
  "st_send k body reliable now s = send_to (ag_gateway (sn_args s)) k body reliable now s"

definition protocol_dest :: callsign where
  "protocol_dest = Callsign (lit ''AIRC'') 0"

definition send_chat :: "byte list \<Rightarrow> instant \<Rightarrow> station \<Rightarrow> station" where
  "send_chat body now s =
     (case send (ag_gateway (sn_args s)) KMsg body False now (sn_sessions s) of
        (frames, ss) \<Rightarrow> st_transmit_all (map (Pair protocol_dest) frames) now (s\<lparr>sn_sessions := ss\<rparr>))"

text \<open>\<open>format!("{:04X}")\<close> of a \<open>u16\<close>.\<close>

definition hex_upper :: "nat \<Rightarrow> nat" where
  "hex_upper d = (if d < 10 then 48 + d else 55 + d)"

definition hex4 :: "u16 \<Rightarrow> ustr" where
  "hex4 w = map (\<lambda>k. hex_upper (unat w div 16 ^ k mod 16)) [3, 2, 1, 0]"

definition send_hello :: "instant \<Rightarrow> station \<Rightarrow> station" where
  "send_hello now s =
     (st_send KHello (encode_fields [lit ''rfirc-station/1'', hex4 (sn_epoch s)]) True now s)\<lparr>sn_last_hello := now\<rparr>"

definition st_keyed :: "instant \<Rightarrow> station \<Rightarrow> station" where
  "st_keyed now s =
     s\<lparr>sn_sessions := fold (\<lambda>k. session_on_keyed (ke_dest k) (ke_seq k) now) (tn_keyed (sn_tnc s)) (sn_sessions s),
       sn_tnc := (sn_tnc s)\<lparr>tn_keyed := []\<rparr>\<rparr>"

definition hello_again :: "instant \<Rightarrow> station \<Rightarrow> station" where
  "hello_again now s =
     (case sn_last_rx s of
        Some heard \<Rightarrow>
          if from_secs (5 * 60) < now - heard \<and> from_secs 60 < now - sn_last_hello s
          then (send_hello now s)\<lparr>sn_last_hello := now\<rparr> else s
      | None \<Rightarrow> s)"

definition station_tick :: "instant \<Rightarrow> station \<Rightarrow> bool \<times> station" where
  "station_tick now s0 =
     (let s = hello_again now (st_keyed now s0)
      in case tick now (sn_sessions s) of
           (out, ss) \<Rightarrow>
             (tk_lost out \<noteq> [],
              st_drain_acks now (st_transmit_all (tk_transmit out) now (s\<lparr>sn_sessions := ss\<rparr>))))"

section \<open>The terminal\<close>

text \<open>Direct RF when the nick is a callsign.\<close>

definition rf_dest :: "ustr \<Rightarrow> callsign option" where
  "rf_dest who =
     (let c = (case callsign_from_str who of
                 Inr c \<Rightarrow> Some c
               | Inl _ \<Rightarrow> (case from_nick who of Inr c \<Rightarrow> Some c | Inl _ \<Rightarrow> None))
      in case c of Some c \<Rightarrow> if looks_like_amateur_call c then Some c else None | None \<Rightarrow> None)"

definition chan_or_current :: "ustr \<Rightarrow> station \<Rightarrow> ustr" where
  "chan_or_current rest s = (if rest = [] then (case sn_current s of Some c \<Rightarrow> c | None \<Rightarrow> []) else rest)"

definition input_join :: "ustr \<Rightarrow> instant \<Rightarrow> station \<Rightarrow> station" where
  "input_join rest now s =
     (if rest = [] then say (lit ''usage: /join #channel'') s
      else (st_send KJoin (encode_fields [rest]) True now s)\<lparr>sn_current := Some rest\<rparr>)"

definition input_part :: "ustr \<Rightarrow> instant \<Rightarrow> station \<Rightarrow> station" where
  "input_part rest now s =
     (let chan = chan_or_current rest s
      in if chan = [] then s
         else (let s1 = st_send KPart (encode_fields [chan]) True now s
               in if sn_current s1 = Some chan then s1\<lparr>sn_current := None\<rparr> else s1))"

definition input_names :: "ustr \<Rightarrow> instant \<Rightarrow> station \<Rightarrow> station" where
  "input_names rest now s =
     (let chan = chan_or_current rest s
      in if chan = [] then say (lit ''join a channel first'') s else st_send KNames (encode_fields [chan]) True now s)"

definition input_msg :: "ustr \<Rightarrow> instant \<Rightarrow> station \<Rightarrow> station" where
  "input_msg rest now s =
     (case split_once 32 rest of
        Some (who, txt) \<Rightarrow>
          if txt = [] then say (lit ''usage: /msg <nick> <text>'') s
          else say (lit ''-> '' @ who @ lit '': '' @ txt)
                 (case rf_dest who of
                    Some dest \<Rightarrow> send_to dest KMsg (encode_fields [who, txt]) True now s
                  | None \<Rightarrow> st_send KMsg (encode_fields [who, txt]) True now s)
      | None \<Rightarrow> say (lit ''usage: /msg <nick> <text>'') s)"

definition input_chat :: "ustr \<Rightarrow> instant \<Rightarrow> station \<Rightarrow> station" where
  "input_chat line now s =
     (case sn_current s of
        None \<Rightarrow> say (lit ''join a channel first: /join #rf'') s
      | Some chan \<Rightarrow> send_chat (encode_fields [chan, line]) now s)"

text \<open>False when the operator quits.\<close>

definition handle_input :: "ustr \<Rightarrow> instant \<Rightarrow> station \<Rightarrow> bool \<times> station" where
  "handle_input line0 now s =
     (let line = trim line0
      in if line = [] then (True, s)
         else
           (let (cmd, rest) = (case split_once 32 line of Some (c, r) \<Rightarrow> (c, trim r) | None \<Rightarrow> (line, []))
            in if cmd = lit ''/quit'' \<or> cmd = lit ''/q'' then (False, st_send KQuit (encode_fields [rest]) False now s)
               else (True,
                 if cmd = lit ''/join'' \<or> cmd = lit ''/j'' then input_join rest now s
                 else if cmd = lit ''/part'' then input_part rest now s
                 else if cmd = lit ''/names'' \<or> cmd = lit ''/who'' then input_names rest now s
                 else if cmd = lit ''/msg'' \<or> cmd = lit ''/m'' then input_msg rest now s
                 else if cmd = lit ''/ping'' then st_send KPing (encode_fields [lit ''s'']) False now s
                 else if cmd = lit ''/help'' then say (lit ''/join #chan  /part  /names  /msg <nick> <text>  /ping  /quit'') s
                 else if starts_with (lit ''/'') cmd then say (lit ''unknown command: '' @ cmd) s
                 else input_chat line now s)))"

section \<open>The air\<close>

definition human_age :: "nat \<Rightarrow> ustr" where
  "human_age secs =
     (if secs \<le> 90 then show_nat secs @ lit ''s''
      else if secs \<le> 5400 then show_nat (secs div 60) @ lit ''m''
      else show_nat (secs div 3600) @ lit ''h'')"

text \<open>\<open>f.get(i).cloned().unwrap_or_default()\<close>.\<close>

definition field_or :: "ustr list \<Rightarrow> nat \<Rightarrow> ustr" where
  "field_or f i = (if i < length f then f ! i else [])"

definition spaced :: "ustr list \<Rightarrow> ustr" where
  "spaced f = concat (map (\<lambda>(i, x). (if i = 0 then [] else [32]) @ x) (enumerate 0 f))"

definition show_message :: "callsign \<Rightarrow> ustr list \<Rightarrow> ustr \<Rightarrow> ustr" where
  "show_message src f stale =
     (let target = field_or f 0;
          (from, txt) = (if 3 \<le> length f then (field_or f 1, field_or f 2) else (to_nick src, field_or f 1))
      in if starts_with (lit ''#'') target \<or> starts_with (lit ''&'') target
         then target @ lit '' <'' @ from @ lit ''> '' @ txt @ stale
         else lit ''*'' @ from @ lit ''* '' @ txt @ stale)"

definition show_stored :: "ustr list \<Rightarrow> ustr" where
  "show_stored f =
     (let age = (case (if 3 < length f then parse_unsigned (2 ^ 64) (f ! 3) else None) of
                   Some n \<Rightarrow> human_age n | None \<Rightarrow> lit ''earlier'')
      in lit ''*'' @ field_or f 1 @ lit ''* [held '' @ age @ lit ''] '' @ field_or f 2)"

definition show_names :: "ustr list \<Rightarrow> ustr list" where
  "show_names f =
     (let chan = field_or f 0; body = field_or f 1
      in (if starts_with (rev (lit ''here'')) (rev body)
          then lit ''-- joined '' @ chan @ lit '' ('' @ body @ lit ''; /names to list them)''
          else lit ''-- '' @ chan @ lit '' members: '' @ body)
         # (if field_or f 2 \<noteq> [] then [lit ''-- '' @ chan @ lit '' topic: '' @ field_or f 2] else []))"

definition show_presence :: "ustr list \<Rightarrow> ustr" where
  "show_presence f =
     (let verb = (if field_or f 2 = lit ''+'' then lit ''joined'' else lit ''left'')
      in lit ''-- '' @ field_or f 1 @ lit '' '' @ verb @ lit '' '' @ field_or f 0)"

text \<open>The lines a message gives.\<close>

definition rendered :: "bool \<Rightarrow> callsign \<Rightarrow> airc_frame \<Rightarrow> ustr list" where
  "rendered quiet src msg =
     (let f = Airc_Frame.fields msg;
          stale = (if aflags msg AND RETRY \<noteq> 0 then lit '' (repeat)'' else [])
      in case akind msg of
           KMsg \<Rightarrow> [show_message src f stale]
         | KNotice \<Rightarrow> [show_message src f stale]
         | KStored \<Rightarrow> [show_stored f]
         | KWelcome \<Rightarrow> [lit ''-- connected to '' @ field_or f 0 @ lit '' : '' @ field_or f 1]
         | KNamesReply \<Rightarrow> show_names f
         | KPresence \<Rightarrow> [show_presence f]
         | KError \<Rightarrow> [lit ''!! '' @ spaced f]
         | KPong \<Rightarrow> (if quiet then [] else [lit ''-- pong''])
         | KId \<Rightarrow> (if quiet then [] else [lit ''-- '' @ spaced f])
         | _ \<Rightarrow> [])"

definition handle_rf :: "ax25_frame \<Rightarrow> instant \<Rightarrow> station \<Rightarrow> station" where
  "handle_rf ax now s =
     (let me = ag_call (sn_args s); src = addr_call (source_addr ax); dest = addr_call (destination ax)
      in if src = me then s
         else if looks_like_amateur_call dest \<and> dest \<noteq> me then s
         else (case airc_decode (info ax) of
                 Inl _ \<Rightarrow> s
               | Inr frame \<Rightarrow>
                   (case on_receive src frame now (dest = me) (sn_sessions s) of
                      (out, ss) \<Rightarrow>
                        (let s1 = st_transmit_all (map (Pair src) (rx_transmit out)) now
                                    (s\<lparr>sn_last_rx := Some now, sn_sessions := ss\<rparr>)
                         in case rx_deliver out of
                              None \<Rightarrow> s1
                            | Some msg \<Rightarrow> fold say (rendered (ag_quiet (sn_args s)) src msg) s1))))"

section \<open>The program\<close>

text \<open>\<open>main\<close> of \<open>rfirc-station\<close>: the greeting and the join, then the loop. What it prints is the output drained after every event.\<close>

definition station_start :: "station_args \<Rightarrow> nat \<Rightarrow> instant \<Rightarrow> station" where
  "station_start a nanos now =
     (let s = send_hello now (station_new a nanos now)
      in case ag_channel a of
           None \<Rightarrow> s
         | Some chan \<Rightarrow> set_channel (Some chan) (st_send KJoin (encode_fields [chan]) True now s))"

datatype station_event = SvRf ax25_frame | SvLine ustr | SvTick

text \<open>One turn of the loop: what is printed, and whether the loop goes on. The link's own task runs between the turns; it is a
  function on the link.\<close>

definition station_turn :: "station_event \<Rightarrow> instant \<Rightarrow> station \<Rightarrow> bool \<times> ustr list \<times> station" where
  "station_turn e now s =
     (case e of
        SvRf ax \<Rightarrow> (case drain_output (handle_rf ax now s) of (out, s') \<Rightarrow> (True, out, s'))
      | SvLine line \<Rightarrow>
          (case handle_input line now s of (go, s1) \<Rightarrow> case drain_output s1 of (out, s') \<Rightarrow> (go, out, s'))
      | SvTick \<Rightarrow>
          (case station_tick now s of
             (lost, s1) \<Rightarrow>
               (case drain_output s1 of
                  (out, s') \<Rightarrow> (True, (if lost then [lit ''!! the gateway is not answering''] else []) @ out, s'))))"

fun station_loop :: "(station_event \<times> instant \<times> (tnc \<Rightarrow> tnc)) list \<Rightarrow> station \<Rightarrow> ustr list \<times> station" where
  "station_loop [] s = ([], s)"
| "station_loop ((e, now, link) # evs) s =
     (case station_turn e now (s\<lparr>sn_tnc := link (sn_tnc s)\<rparr>) of
        (go, out, s') \<Rightarrow>
          if go then (case station_loop evs s' of (outs, s'') \<Rightarrow> (out @ outs, s'')) else (out, s'))"

end
