(* ===== verification/Station_Proofs.thy ===== *)
theory Station_Proofs
  imports Station
begin

text \<open>
  What the station client guarantees: it transmits only as itself, what the air says cannot drive its terminal, and the gateway
  reads the epoch of its greeting.
\<close>

section \<open>What a link puts on the wire\<close>

text \<open>The steps of the link's own task, and those of its handle, except queueing.\<close>

definition by_link :: "tnc_op \<Rightarrow> bool" where
  "by_link x \<longleftrightarrow> (case x of TEnqueue _ _ _ _ _ \<Rightarrow> False | _ \<Rightarrow> True)"

text \<open>The steps in which a write fails.\<close>

definition write_fails :: "tnc_op \<Rightarrow> bool" where
  "write_fails x \<longleftrightarrow> (case x of TConnect werr \<Rightarrow> werr \<noteq> None | TTimer _ werr _ \<Rightarrow> werr \<noteq> None | _ \<Rightarrow> False)"

text \<open>What one write may leave on the wire: all of it, or a beginning of it when \<open>brk\<close> allows for failures.\<close>

definition wire_pieces :: "bool \<Rightarrow> (ax25_frame \<Rightarrow> bool) \<Rightarrow> tnc_config \<Rightarrow> byte list set" where
  "wire_pieces brk P cfg =
     {p. \<exists>w \<in> insert (connect_bytes cfg) {data_bytes cfg (ax25_encode f) |f. P f}. if brk then prefix p w else p = w}"

definition carries :: "bool \<Rightarrow> (ax25_frame \<Rightarrow> bool) \<Rightarrow> tnc_config \<Rightarrow> tnc \<Rightarrow> bool" where
  "carries brk P cfg t \<longleftrightarrow>
     (\<forall>q. q \<in># sched_contents (tn_sched t) \<longrightarrow> P (q_payload q)) \<and>
     (\<exists>ps. tn_wire t = concat ps \<and> set ps \<subseteq> wire_pieces brk P cfg)"

lemma carries_less:
  assumes "carries brk P cfg t" "sched_contents (tn_sched t') \<subseteq># sched_contents (tn_sched t)" "tn_wire t' = tn_wire t"
  shows "carries brk P cfg t'"
  using assms by (auto simp: carries_def dest: mset_subset_eqD)

lemma carries_more:
  assumes "carries brk P cfg t" "sched_contents (tn_sched t') \<subseteq># sched_contents (tn_sched t)"
    and "tn_wire t' = tn_wire t @ p" "p \<in> wire_pieces brk P cfg"
  shows "carries brk P cfg t'"
proof -
  obtain ps where "tn_wire t = concat ps" "set ps \<subseteq> wire_pieces brk P cfg"
    using assms(1) by (auto simp: carries_def)
  then have "tn_wire t' = concat (ps @ [p])" "set (ps @ [p]) \<subseteq> wire_pieces brk P cfg"
    using assms(3,4) by auto
  then show ?thesis
    using assms(1,2) unfolding carries_def by (blast dest: mset_subset_eqD)
qed

lemma carries_timer:
  assumes "carries brk P cfg t" "write_fails (TTimer ilk werr now) \<longrightarrow> brk"
  shows "carries brk P cfg (snd (pump_timer cfg ilk werr now t))"
proof (cases "interlock_failed (tn_shared t) \<or> sched_poll now (tn_sched t) \<noteq> PollReady")
  case True
  then show ?thesis using assms by (auto simp: pump_timer_def)
next
  case False
  obtain x s where p: "sched_pop now (tn_sched t) = (x, s)" by force
  show ?thesis
  proof (cases x)
    case None
    then have "s = tn_sched t" using p by (auto simp: sched_pop_def split: option.splits)
    then show ?thesis using assms False p None by (simp add: pump_timer_def)
  next
    case (Some item)
    let ?t = "t\<lparr>tn_sched := s\<rparr>"
    have c: "sched_contents (tn_sched t) = add_mset item (sched_contents (tn_sched ?t))"
      using pop_contents [of now "tn_sched t" item] p Some by simp
    have own: "P (q_payload item)"
      using assms(1) c by (simp add: carries_def)
    have e: "snd (pump_timer cfg ilk werr now t) = snd (pump_item cfg ilk werr now item ?t)"
      using False p Some by (simp add: pump_timer_def)
    let ?u = "snd (pump_item cfg ilk werr now item ?t)"
    have less: "sched_contents (tn_sched ?u) \<subseteq># sched_contents (tn_sched t)"
      using pump_item_fate [OF c refl, of cfg ilk werr now] by (elim disjE) auto
    show ?thesis
    proof (cases "tn_wire ?u = tn_wire t")
      case True
      then show ?thesis unfolding e by (rule carries_less [OF assms(1) less])
    next
      case False
      then have "tn_wire ?u \<noteq> tn_wire ?t" by simp
      then have w: "item_written cfg werr item ?t (pump_item cfg ilk werr now item ?t)"
        using pump_item_wire [of cfg ilk werr now item ?t] by blast
      let ?p = "case werr of None \<Rightarrow> data_bytes cfg (ax25_encode (q_payload item))
        | Some (_, n) \<Rightarrow> take n (data_bytes cfg (ax25_encode (q_payload item)))"
      have "tn_wire ?u = tn_wire t @ ?p"
        using w by (auto simp: item_written_def split: option.splits)
      moreover have "?p \<in> wire_pieces brk P cfg"
        using own assms(2) by (auto simp: wire_pieces_def write_fails_def take_is_prefix split: option.splits)
      ultimately show ?thesis unfolding e by (rule carries_more [OF assms(1) less])
    qed
  qed
qed

lemma carries_top: "carries brk P cfg t \<Longrightarrow> carries brk P cfg (pump_top cfg now t)"
proof -
  assume a: "carries brk P cfg t"
  have "carries brk P cfg (pump_purge t)"
    by (rule carries_less [OF a])
      (use drain_except_contents [of "tn_sched t" CId] in \<open>auto simp: pump_purge_def case_prod_beta\<close>)
  then have "carries brk P cfg (pump_tune cfg (pump_purge t))"
    by (rule carries_less) (simp_all add: pump_tune_def)
  then show ?thesis
    unfolding pump_top_def
    by (rule carries_less)
      (use expire_contents [of "tn_sched (pump_tune cfg (pump_purge t))" now] in \<open>auto simp: pump_expire_def case_prod_beta\<close>)
qed

lemma carries_step:
  assumes "carries brk P cfg t" "by_link x" "write_fails x \<longrightarrow> brk"
  shows "carries brk P cfg (tnc_step cfg x t)"
proof (cases x)
  case (TConnect werr)
  obtain p where p: "tn_wire (snd (tnc_connect cfg werr t)) = tn_wire t @ p" "prefix p (connect_bytes cfg)"
    "fst (tnc_connect cfg werr t) \<longrightarrow> p = connect_bytes cfg" "werr = None \<longrightarrow> fst (tnc_connect cfg werr t)"
    using connect_wire [of cfg werr t] by blast
  then have "p \<in> wire_pieces brk P cfg"
    using assms(3) TConnect by (cases werr) (auto simp: wire_pieces_def write_fails_def)
  moreover have "tn_sched (snd (tnc_connect cfg werr t)) = tn_sched t"
    by (simp add: tnc_connect_def case_prod_beta Let_def)
  ultimately show ?thesis
    using carries_more [OF assms(1) _ p(1)] TConnect by simp
next
  case (TTop now)
  then show ?thesis using carries_top [OF assms(1)] by simp
next
  case (TRead now bs)
  then show ?thesis
    using pump_hears_frame [of cfg now]
    by (auto simp: pump_read_def case_prod_beta assms intro: carries_less [OF assms(1)])
next
  case (TTimer ilk werr now)
  then show ?thesis using carries_timer [OF assms(1)] assms(3) by simp
next
  case TEnd
  then show ?thesis
    using drain_contents [of "tn_sched t"] assms(1)
    by (auto simp: run_after_pump_def intro!: carries_less [OF assms(1)] split: tnc_link.split)
qed (use assms in \<open>auto simp: by_link_def set_inhibit_def set_duty_override_def set_pacing_override_def intro: carries_less\<close>)

lemma carries_steps: "carries brk P cfg t \<Longrightarrow> list_all (\<lambda>x. by_link x \<and> (write_fails x \<longrightarrow> brk)) xs \<Longrightarrow> carries brk P cfg (fold (tnc_step cfg) xs t)"
  by (induction xs arbitrary: t) (simp_all add: carries_step)

lemma carries_send:
  assumes "carries brk P cfg t" "P f"
  shows "carries brk P cfg (snd (try_send cfg f now t))"
proof -
  let ?i = "\<lparr>q_payload = f, q_class = CChat, q_account = callsign_to_string (addr_call (destination f)),
    q_cost = airtime_for (tc_airtime cfg) (length (ax25_encode f)), q_queued_at = now, q_expects_reply = False\<rparr>"
  obtain r s where p: "sched_push ?i (tn_sched t) = (r, s)" by force
  have "sched_contents s = sched_contents (tn_sched t) \<or> sched_contents s = add_mset ?i (sched_contents (tn_sched t))"
    using push_contents [of ?i "tn_sched t"] p by (auto split: if_splits)
  then show ?thesis
    using assms p by (cases r) (auto simp: try_send_def tnc_enqueue_def Let_def carries_def)
qed

lemma carries_spawn: "carries brk P cfg (tnc_spawn cfg)"
  by (auto simp: carries_def tnc_spawn_def scheduler_new_def sched_contents_def queue_order_def intro: exI [of _ "[]"])

section \<open>What an operation of the station may do\<close>

text \<open>Every operation is made of lines said, frames transmitted, and changes of the sessions and of what the station remembers.\<close>

inductive evolves :: "station \<Rightarrow> station \<Rightarrow> bool" where
  ev_refl: "evolves s s"
| ev_trans: "evolves s t \<Longrightarrow> evolves t u \<Longrightarrow> evolves s u"
| ev_say: "evolves s (say l s)"
| ev_transmit: "evolves s (st_transmit d f now s)"
| ev_note: "sn_args t = sn_args s \<Longrightarrow> sn_cfg t = sn_cfg s \<Longrightarrow> sn_output t = sn_output s \<Longrightarrow>
     tn_sched (sn_tnc t) = tn_sched (sn_tnc s) \<Longrightarrow> tn_wire (sn_tnc t) = tn_wire (sn_tnc s) \<Longrightarrow> evolves s t"

named_theorems evolves_intros

lemma ev_after: "evolves t u \<Longrightarrow> evolves s t \<Longrightarrow> evolves s u"
  by (rule ev_trans)

lemma ev_says: "evolves s t \<Longrightarrow> evolves s (say l t)"
  by (erule ev_trans) (rule ev_say)

lemma ev_notes:
  "evolves s t \<Longrightarrow> evolves s (t\<lparr>sn_sessions := x\<rparr>)" "evolves s t \<Longrightarrow> evolves s (t\<lparr>sn_current := c\<rparr>)"
  "evolves s t \<Longrightarrow> evolves s (t\<lparr>sn_last_rx := r\<rparr>)" "evolves s t \<Longrightarrow> evolves s (t\<lparr>sn_last_hello := h\<rparr>)"
  by (erule ev_trans, rule ev_note, simp_all)+

lemma ev_transmit_all: "evolves s t \<Longrightarrow> evolves s (st_transmit_all fs now t)"
  unfolding st_transmit_all_def
  by (induction fs arbitrary: t) (auto intro: ev_trans [OF _ ev_transmit])

lemmas evolves_basic [evolves_intros] = ev_says ev_notes ev_transmit_all

lemma ev_drain_acks [evolves_intros]: "evolves s t \<Longrightarrow> evolves s (st_drain_acks now t)"
  by (simp add: st_drain_acks_def evolves_intros split: prod.split)

lemma ev_send_to [evolves_intros]: "evolves s t \<Longrightarrow> evolves s (send_to d k b r now t)"
  by (simp add: send_to_def evolves_intros split: prod.split)

lemma ev_send [evolves_intros]: "evolves s t \<Longrightarrow> evolves s (st_send k b r now t)"
  by (simp add: st_send_def evolves_intros)

lemma ev_chat [evolves_intros]: "evolves s t \<Longrightarrow> evolves s (send_chat b now t)"
  by (simp add: send_chat_def evolves_intros split: prod.split)

lemma ev_hello [evolves_intros]: "evolves s t \<Longrightarrow> evolves s (send_hello now t)"
  by (simp add: send_hello_def evolves_intros)

lemma ev_tick: "evolves s (snd (station_tick now s))"
proof -
  have "evolves s (st_keyed now s)" by (rule ev_note) (simp_all add: st_keyed_def)
  then have "evolves s (hello_again now (st_keyed now s))"
    by (simp add: hello_again_def evolves_intros split: option.split)
  then show ?thesis by (simp add: station_tick_def Let_def evolves_intros split: prod.split)
qed

lemma ev_input: "evolves s (snd (handle_input line now s))"
proof -
  have parts: "evolves s (input_join rest now s)" "evolves s (input_part rest now s)" "evolves s (input_names rest now s)"
    "evolves s (input_msg rest now s)" "evolves s (input_chat line now s)" for rest line
    by (simp_all add: input_join_def input_part_def input_names_def input_msg_def input_chat_def Let_def ev_refl evolves_intros
        split: option.split)
  show ?thesis by (simp add: handle_input_def Let_def ev_refl evolves_intros parts split: prod.split)
qed

lemma ev_lines: "evolves s t \<Longrightarrow> evolves s (fold say ls t)"
  by (induction ls arbitrary: t) (simp_all add: ev_says)

lemma ev_rf: "evolves s (handle_rf ax now s)"
  by (simp add: handle_rf_def Let_def ev_refl ev_lines evolves_intros split: sum.split prod.split option.split)

section \<open>The terminal and the wire\<close>

definition harmless :: "ustr list \<Rightarrow> bool" where
  "harmless ls \<longleftrightarrow> set (concat ls) \<subseteq> {c. \<not> terminal_active c}"

lemma harmless_simps [simp]:
  "harmless []" "harmless (a @ b) \<longleftrightarrow> harmless a \<and> harmless b"
  by (auto simp: harmless_def)

lemma harmless_strip [simp]: "harmless [strip_terminal_controls l]"
  by (auto simp: harmless_def strip_terminal_controls_def)

text \<open>A frame the operator may be responsible for: from the operator's callsign, over the path given, with an AIRC frame in it.\<close>

definition own_frame :: "station_args \<Rightarrow> ax25_frame \<Rightarrow> bool" where
  "own_frame a ax \<longleftrightarrow> (\<exists>dest f. ax25_ui (ag_call a) dest (ag_path a) (airc_encode f) = Inr ax)"

definition station_fine :: "bool \<Rightarrow> station_args \<Rightarrow> station \<Rightarrow> bool" where
  "station_fine brk a s \<longleftrightarrow>
     sn_args s = a \<and> sn_cfg s = station_tnc_config a \<and> harmless (sn_output s)
     \<and> carries brk (own_frame a) (station_tnc_config a) (sn_tnc s)"

lemma say_fine: "station_fine brk a s \<Longrightarrow> station_fine brk a (say l s)"
  by (simp add: station_fine_def say_def)

lemma transmit_fine:
  assumes "station_fine brk a s"
  shows "station_fine brk a (st_transmit d f now s)"
proof (cases "ax25_ui (ag_call a) d (ag_path a) (airc_encode f)")
  case (Inl e)
  then have "st_transmit d f now s = say (lit ''!! cannot build frame: too many digipeaters'') s"
    using assms by (simp add: st_transmit_def station_fine_def)
  then show ?thesis using say_fine [OF assms] by simp
next
  case (Inr ax)
  then have "own_frame a ax" by (auto simp: own_frame_def)
  then have c: "carries brk (own_frame a) (station_tnc_config a) (snd (try_send (station_tnc_config a) ax now (sn_tnc s)))"
    using assms carries_send by (simp add: station_fine_def)
  obtain ok t where t: "try_send (station_tnc_config a) ax now (sn_tnc s) = (ok, t)" by force
  have f: "station_fine brk a (s\<lparr>sn_tnc := t\<rparr>)"
    using assms c t by (simp add: station_fine_def)
  have "st_transmit d f now s =
      (if ok then s\<lparr>sn_tnc := t\<rparr> else say (lit ''!! transmit queue full, message dropped'') (s\<lparr>sn_tnc := t\<rparr>))"
    using assms Inr t by (simp add: st_transmit_def station_fine_def)
  then show ?thesis using f say_fine [OF f] by simp
qed

lemma evolves_fine: "evolves s t \<Longrightarrow> station_fine brk a s \<Longrightarrow> station_fine brk a t"
proof (induction rule: evolves.induct)
  case (ev_note t s)
  then show ?case by (simp add: station_fine_def carries_def)
qed (simp_all add: say_fine transmit_fine)

lemma turn_fine:
  assumes "station_fine brk a s"
  shows "station_fine brk a (snd (snd (station_turn e now s))) \<and> harmless (fst (snd (station_turn e now s)))"
proof -
  have drained: "station_fine brk a (t\<lparr>sn_output := []\<rparr>) \<and> harmless (sn_output t)" if "evolves s t" for t
    using evolves_fine [OF that assms] by (simp add: station_fine_def)
  have "harmless [lit ''!! the gateway is not answering'']"
    by (simp add: harmless_def lit_def terminal_active_def is_control_def)
  then show ?thesis
    using drained [OF ev_rf] drained [OF ev_input] drained [OF ev_tick]
    by (cases e) (simp_all add: station_turn_def drain_output_def case_prod_beta)
qed

lemma start_fine: "station_fine brk a (station_start a nanos now)"
proof -
  have "station_fine brk a (station_new a nanos now)"
    by (simp add: station_fine_def station_new_def carries_spawn)
  moreover have "evolves (station_new a nanos now) (station_start a nanos now)"
    by (simp add: station_start_def Let_def set_channel_def ev_refl evolves_intros split: option.split)
  ultimately show ?thesis using evolves_fine by blast
qed

text \<open>The steps of the link between the turns, as the link's own task takes them.\<close>

definition link_steps :: "tnc_config \<Rightarrow> tnc_op list \<Rightarrow> tnc \<Rightarrow> tnc" where
  "link_steps cfg xs t = fold (tnc_step cfg) (filter by_link xs) t"

definition with_link :: "station_args \<Rightarrow> (station_event \<times> instant \<times> tnc_op list) list
    \<Rightarrow> (station_event \<times> instant \<times> (tnc \<Rightarrow> tnc)) list" where
  "with_link a evs = map (\<lambda>(e, now, xs). (e, now, link_steps (station_tnc_config a) xs)) evs"

definition writes_fail :: "(station_event \<times> instant \<times> tnc_op list) list \<Rightarrow> bool" where
  "writes_fail evs \<longleftrightarrow> list_ex (\<lambda>(e, now, xs). list_ex write_fails xs) evs"

lemma loop_fine:
  "station_fine brk a s \<Longrightarrow> (writes_fail evs \<longrightarrow> brk) \<Longrightarrow>
     harmless (fst (station_loop (with_link a evs) s)) \<and> station_fine brk a (snd (station_loop (with_link a evs) s))"
proof (induction evs arbitrary: s)
  case (Cons ev evs)
  obtain e now xs where ev: "ev = (e, now, xs)" by (metis surj_pair)
  let ?s = "s\<lparr>sn_tnc := link_steps (station_tnc_config a) xs (sn_tnc s)\<rparr>"
  have "list_all (\<lambda>x. by_link x \<and> (write_fails x \<longrightarrow> brk)) (filter by_link xs)"
    using Cons.prems(2) by (auto simp: ev writes_fail_def list_all_iff list_ex_iff)
  then have "station_fine brk a ?s"
    using Cons.prems(1) by (simp add: station_fine_def link_steps_def carries_steps)
  then have t: "station_fine brk a (snd (snd (station_turn e now ?s)))" "harmless (fst (snd (station_turn e now ?s)))"
    using turn_fine by blast+
  obtain go out s' where st: "station_turn e now ?s = (go, out, s')" by (metis surj_pair)
  obtain outs s'' where l: "station_loop (with_link a evs) s' = (outs, s'')" by force
  have "station_loop (with_link a (ev # evs)) s = (if go then (out @ outs, s'') else (out, s'))"
    using l by (simp add: with_link_def ev st)
  moreover have "writes_fail evs \<longrightarrow> brk"
    using Cons.prems(2) by (simp add: writes_fail_def)
  ultimately show ?case
    using Cons.IH [of s'] t l by (simp add: st)
qed (simp add: with_link_def)

text \<open>C32: What is on the air cannot drive the operator's terminal. Whatever frames are heard, whatever the operator types, and
  whatever the link does in between, the station never prints a control character, DEL or the C1 range, a left-to-right or right-to-left mark,
  or a directional embedding, override or isolate. The Arabic letter mark, U+061C, is not among them, and passes.\<close>

theorem station_output_is_harmless:
  "set (concat (fst (station_loop (with_link a evs) (station_start a nanos now)))) \<inter>
     ({0..31} \<union> {127..159} \<union> {0x200E, 0x200F} \<union> {0x202A..0x202E} \<union> {0x2066..0x2069}) = {}"
proof -
  have "harmless (fst (station_loop (with_link a evs) (station_start a nanos now)))"
    using loop_fine [OF start_fine, of evs True] by simp
  moreover have "{0..31} \<union> {127..159} \<union> {0x200E, 0x200F} \<union> {0x202A..0x202E} \<union> {0x2066..0x2069} \<subseteq> Collect terminal_active"
    by (auto simp: terminal_active_def is_control_def)
  ultimately show ?thesis unfolding harmless_def by blast
qed

text \<open>The filter knows the two marks U+200E and U+200F and not the third of their kind, the Arabic letter mark.\<close>

lemma arabic_letter_mark_passes: "strip_terminal_controls [0x61C] = [0x61C]"
  by (simp add: strip_terminal_controls_def terminal_active_def is_control_def)

text \<open>C33: The station transmits only as itself. Everything its link has ever written to the TNC is a sequence of pieces, each the parameters of a
  fresh connection or one UI frame from the operator's own callsign over the digipeaters the operator gave, with one AIRC frame in it; nothing heard or
  typed makes it speak for another station. A piece is whole, unless a write failed in the run: then it may be a beginning of one.\<close>

theorem station_transmits_as_itself:
  "\<exists>ps. tn_wire (sn_tnc (snd (station_loop (with_link a evs) (station_start a nanos now)))) = concat ps \<and>
    set ps \<subseteq>
      {p. \<exists>w \<in> insert (connect_bytes (station_tnc_config a))
               {data_bytes (station_tnc_config a) (ax25_encode ax) |ax dest f.
                  ax25_ui (ag_call a) dest (ag_path a) (airc_encode f) = Inr ax}.
             if writes_fail evs then prefix p w else p = w}"
proof -
  have e: "{data_bytes cfg (ax25_encode ax) |ax dest f. ax25_ui (ag_call a) dest (ag_path a) (airc_encode f) = Inr ax} =
      {data_bytes cfg (ax25_encode ax) |ax. own_frame a ax}" for cfg
    by (auto simp: own_frame_def)
  have "station_fine (writes_fail evs) a (snd (station_loop (with_link a evs) (station_start a nanos now)))"
    using loop_fine [OF start_fine, of evs "writes_fail evs"] by simp
  then show ?thesis
    unfolding e by (simp add: station_fine_def carries_def wire_pieces_def)
qed

section \<open>The command line\<close>

definition opts_ok :: "station_opts \<Rightarrow> bool" where
  "opts_ok o' \<longleftrightarrow>
     0 < at_max_duty (so_airtime o') \<and> at_max_duty (so_airtime o') \<le> HARD_MAX_DUTY \<and> at_enabled (so_airtime o')
     \<and> list_all callsign_wf (so_path o')"

lemma parse_hops_wf: "parse_hops hs = Inr cs \<Longrightarrow> list_all callsign_wf cs"
  by (induction hs arbitrary: cs) (auto dest: from_str_wf split: sum.splits)

lemma take_path_ok: "take_path v o1 = Inr o2 \<Longrightarrow> opts_ok o1 \<Longrightarrow> opts_ok o2"
  by (auto simp: take_path_def opts_ok_def dest!: parse_hops_wf split: option.splits sum.splits)

lemma take_duty_ok: "take_duty v o1 = Inr o2 \<Longrightarrow> opts_ok o1 \<Longrightarrow> opts_ok o2"
  by (auto simp: take_duty_def opts_ok_def not_less split: option.splits if_splits)

lemma set_airtime_ok:
  "opts_ok o1 \<Longrightarrow> (\<And>n a. at_max_duty (f n a) = at_max_duty a \<and> at_enabled (f n a) = at_enabled a) \<Longrightarrow> opts_ok (set_airtime f v o1)"
  by (simp add: set_airtime_def opts_ok_def split: option.split)

lemma station_arg_ok: "station_arg arg args o1 = Inr (Some (rest, o2)) \<Longrightarrow> opts_ok o1 \<Longrightarrow> opts_ok o2"
  by (auto simp: station_arg_def Let_def case_prod_beta set_airtime_ok take_path_ok take_duty_ok
      split: if_splits sum.splits option.splits) (simp_all add: opts_ok_def)

lemma station_args_ok: "station_args_loop args o1 = Inr (Some o2) \<Longrightarrow> opts_ok o1 \<Longrightarrow> opts_ok o2"
  by (induction args o1 rule: station_args_loop.induct) (auto split: sum.splits option.splits dest: station_arg_ok)

lemma opts_default_ok: "opts_ok station_opts_default"
  by (simp add: opts_ok_def station_opts_default_def airtime_config_default_def HARD_MAX_DUTY_def)

lemma station_check_ok:
  assumes "station_check serial o1 = Inr a" "opts_ok o1"
  shows "callsign_wf (ag_call a) \<and> callsign_wf (ag_gateway a) \<and> list_all callsign_wf (ag_path a) \<and> length (ag_path a) \<le> 2
    \<and> ag_airtime a = so_airtime o1 \<and> check_hardware_safe (ag_airtime a) = Inr () \<and> at_baud (ag_airtime a) \<in> set STANDARD_PACKET_BAUDS
    \<and> as_millis (at_txdelay (ag_airtime a)) \<le> 2550 \<and> as_millis (at_txtail (ag_airtime a)) \<le> 2550"
  using assms
  by (auto simp: station_check_def opts_ok_def Let_def not_less dest: from_str_wf split: option.splits if_splits sum.splits)

text \<open>C34: A station that starts is fit to transmit. Whatever the arguments, when they are accepted the callsigns are callsigns, at most two
  digipeaters are used, the duty cycle the transmitter is limited to is positive and at most one half, the longest burst as configured is at
  most one half of itself and the configured pause after it, the symbol rate is one of the packet rates, and the key-up times fit the octet KISS carries them in.\<close>

theorem accepted_arguments_are_safe:
  assumes "station_parse_args serial argv = StRun a"
  shows "callsign_wf (ag_call a) \<and> callsign_wf (ag_gateway a) \<and> list_all callsign_wf (ag_path a) \<and> length (ag_path a) \<le> 2
    \<and> 0 < at_max_duty (ag_airtime a) \<and> at_max_duty (ag_airtime a) \<le> HARD_MAX_DUTY
    \<and> burst_duty (ag_airtime a) \<le> HARD_MAX_DUTY \<and> at_baud (ag_airtime a) \<in> {300, 1200, 9600}
    \<and> as_millis (at_txdelay (ag_airtime a)) \<le> 2550 \<and> as_millis (at_txtail (ag_airtime a)) \<le> 2550"
proof -
  obtain o1 where o1: "station_args_loop argv station_opts_default = Inr (Some o1)" "station_check serial o1 = Inr a"
    using assms by (auto simp: station_parse_args_def split: sum.splits option.splits)
  have ok: "opts_ok o1" using station_args_ok [OF o1(1) opts_default_ok] .
  show ?thesis
    using station_check_ok [OF o1(2) ok] ok
    by (auto simp: opts_ok_def check_hardware_safe_def STANDARD_PACKET_BAUDS_def split: if_splits)
qed

definition sample_argv :: "ustr list" where
  "sample_argv = [lit ''--call'', lit ''SM0ABC-7'', lit ''--gateway'', lit ''SK0MT-1'', lit ''--duty'', lit ''40'']"

lemma lit_eq_iff: "lit s = lit t \<longleftrightarrow> s = t"
  unfolding lit_def by (rule inj_map_eq_map) (simp add: inj_on_def)

lemma sample_args_read:
  "station_arg (lit ''--call'') (v # vs) o1 = Inr (Some (vs, o1\<lparr>so_call := Some v\<rparr>))"
  "station_arg (lit ''--gateway'') (v # vs) o1 = Inr (Some (vs, o1\<lparr>so_gateway := Some v\<rparr>))"
  "station_arg (lit ''--duty'') (v # vs) o1 =
     (case take_duty (parse_unsigned (2 ^ 32) v) o1 of Inl e \<Rightarrow> Inl e | Inr o2 \<Rightarrow> Inr (Some (vs, o2)))"
  by (simp_all add: station_arg_def argv_next_def Let_def lit_eq_iff)

lemma sample_loop:
  "station_args_loop sample_argv station_opts_default =
     Inr (Some (station_opts_default\<lparr>so_call := Some (lit ''SM0ABC-7''), so_gateway := Some (lit ''SK0MT-1''),
       so_airtime := airtime_config_default\<lparr>at_max_duty := 2 / 5\<rparr>\<rparr>))"
proof -
  have "lit ''40'' = show_nat 40"
    by (simp add: lit_def show_nat.simps)
  then have "parse_unsigned (2 ^ 32) (lit ''40'') = Some 40"
    using parse_show [of 40 "2 ^ 32"] by simp
  then show ?thesis
    by (simp add: sample_argv_def sample_args_read take_duty_def station_opts_default_def HARD_MAX_DUTY_def)
qed

lemma sample_calls:
  "callsign_from_str (lit ''SM0ABC-7'') = Inr (Callsign (lit ''SM0ABC'') 7)"
  "callsign_from_str (lit ''SK0MT-1'') = Inr (Callsign (lit ''SK0MT'') 1)"
proof -
  have "callsign_wf (Callsign (lit ''SM0ABC'') 7)" "callsign_wf (Callsign (lit ''SK0MT'') 1)"
    by code_simp+
  moreover have "callsign_to_string (Callsign (lit ''SM0ABC'') 7) = lit ''SM0ABC-7''"
    "callsign_to_string (Callsign (lit ''SK0MT'') 1) = lit ''SK0MT-1''"
    by (simp_all add: callsign_to_string_def lit_def show_nat.simps)
  ultimately show "callsign_from_str (lit ''SM0ABC-7'') = Inr (Callsign (lit ''SM0ABC'') 7)"
    "callsign_from_str (lit ''SK0MT-1'') = Inr (Callsign (lit ''SK0MT'') 1)"
    using callsign_round_trip by metis+
qed

lemma sample_link: "station_link False (lit ''tcp://127.0.0.1:8001'') = Inr (LinkTcp (lit ''127.0.0.1'') 8001)"
proof -
  have s: "strip_prefix (lit ''tcp://'') (lit ''tcp://127.0.0.1:8001'') = Some (lit ''127.0.0.1:8001'')"
    "rsplit_once 58 (lit ''127.0.0.1:8001'') = Some (lit ''127.0.0.1'', lit ''8001'')"
    by code_simp+
  have "lit ''8001'' = show_nat 8001"
    by (simp add: lit_def show_nat.simps)
  then have "parse_unsigned 65536 (lit ''8001'') = Some 8001"
    using parse_show [of 8001 65536] by simp
  then show ?thesis
    by (simp add: station_link_def s)
qed

lemma sample_arguments:
  "station_parse_args False sample_argv =
     StRun \<lparr>ag_call = Callsign (lit ''SM0ABC'') 7, ag_gateway = Callsign (lit ''SK0MT'') 1, ag_channel = None,
        ag_link = LinkTcp (lit ''127.0.0.1'') 8001, ag_paclen = 128, ag_path = [], ag_quiet = False,
        ag_airtime = airtime_config_default\<lparr>at_max_duty := 2 / 5\<rparr>\<rparr>"
  unfolding station_parse_args_def sample_loop
  by (simp add: station_check_def station_opts_default_def sample_calls sample_link airtime_config_default_def
      check_hardware_safe_def burst_duty_def HARD_MAX_DUTY_def STANDARD_PACKET_BAUDS_def as_secs_def as_millis_def
      from_secs_def from_millis_def)

theorem accepted_arguments_are_safe_witness:
  "case station_parse_args False sample_argv of
     StRun a \<Rightarrow> ag_call a = Callsign (lit ''SM0ABC'') 7 \<and> callsign_wf (ag_call a) \<and> at_max_duty (ag_airtime a) = 2 / 5
       \<and> 2 / 5 \<le> HARD_MAX_DUTY \<and> burst_duty (ag_airtime a) \<le> HARD_MAX_DUTY
   | _ \<Rightarrow> False"
  using accepted_arguments_are_safe [OF sample_arguments] by (simp add: sample_arguments)

section \<open>The greeting\<close>

text \<open>The gateway reads the epoch the station greets it with, so a restart is seen as one.\<close>

lemma hex_upper_read: "d < 16 \<Longrightarrow> hex_digit (hex_upper d) = Some d" "hex_upper d \<noteq> 43"
  by (auto simp: hex_upper_def hex_digit_def is_ascii_digit_def)

lemma hex4_read: "parse_hex_u16 (hex4 w) = Some (unat w)"
proof -
  have w: "unat w < 65536" using unsigned_less [of w] by simp
  have v: "((n div 4096 mod 16 * 16 + n div 256 mod 16) * 16 + n div 16 mod 16) * 16 + n mod 16 = n" if "n < 65536" for n :: nat
  proof -
    have "n div 4096 mod 16 = n div 256 div 16" "n div 256 = n div 16 div 16"
      using that by (simp_all add: div_mult2_eq [symmetric])
    then show ?thesis by simp
  qed
  show ?thesis
    using w v [OF w] by (simp add: parse_hex_u16_def hex4_def hex_upper_read numeral_2_eq_2 numeral_3_eq_3)
qed

lemma greeting_carries_the_epoch:
  "hello_epoch (airc_new KHello seq (encode_fields [lit ''rfirc-station/1'', hex4 w])) = w"
proof -
  have h: "c \<in> set (hex4 w) \<Longrightarrow> 48 \<le> c \<and> c \<le> 70" for c
    by (auto simp: hex4_def hex_upper_def)
  have "clean_field (hex4 w) = hex4 w"
    using h unfolding clean_field_def by (intro filter_True) (force simp: field_char_ok_def)
  moreover have "trim (hex4 w) = hex4 w"
    using h by (intro trim_all_plain) (force simp: is_whitespace_def)
  moreover have "is_scalar c" if "c \<in> set (lit ''rfirc-station/1'') \<union> set (hex4 w)" for c
    using that h [of c] by (auto simp: lit_def is_scalar_def)
  then have "Airc_Frame.fields (airc_new KHello seq (encode_fields [lit ''rfirc-station/1'', hex4 w])) =
      map clean_field [lit ''rfirc-station/1'', hex4 w]"
    by (intro fields_encode_fields) (auto simp: airc_new_def)
  ultimately show ?thesis
    by (simp add: hello_epoch_def field_def hex4_read)
qed

end
