(* ===== verification/Gateway_Line.thy ===== *)
theory Gateway_Line
  imports Server Radio_Proofs Station_Proofs
begin

text \<open>
  The two ends of the air together: what the gateway broadcasts for a line on a channel (\<open>emit_channel_chat_rf_to\<close> of
  \<open>src/src/server/mod.rs\<close>) against what the station client prints when it hears it (\<open>src/src/station.rs\<close>).
\<close>

section \<open>What the gateway queues\<close>

text \<open>The frame of a line that fits one fragment.\<close>

definition line_frame :: "bool \<Rightarrow> u16 \<Rightarrow> ustr list \<Rightarrow> airc_frame" where
  "line_frame truncated seq fs =
     (with_flags (chat_flags truncated) (airc_new KMsg seq (encode_fields fs)))\<lparr>frag_index := 0, frag_total := 1\<rparr>"

lemma line_frame_fields [simp]:
  "akind (line_frame tr seq fs) = KMsg" "aseq (line_frame tr seq fs) = seq" "frag_total (line_frame tr seq fs) = 1"
  "frag_index (line_frame tr seq fs) = 0" "payload (line_frame tr seq fs) = encode_fields fs"
  "piggyback_seq (line_frame tr seq fs) = None" "aflags (line_frame tr seq fs) = chat_flags tr"
  by (simp_all add: line_frame_def with_flags_def airc_new_def)

lemma line_frame_wf: "airc_wf (line_frame tr seq fs)"
  by (simp add: airc_wf_def chat_flags_def TRUNCATED_def PIGGYACK_def)

lemma chunks_single: "xs \<noteq> [] \<Longrightarrow> length xs \<le> n \<Longrightarrow> chunks n xs = [xs]"
  by (cases n) (simp_all add: chunks.simps)

lemma enqueue_ui_adds:
  assumes "rd_tnc r = Some (cfg, t0)" "rd_tnc (enqueue_ui dest body c ex acc now r) = Some (cfg', t1)"
    and "item \<in># sched_contents (tn_sched t1) - sched_contents (tn_sched t0)" "rd_source r = Some gw"
  shows "ax25_ui gw dest (rd_path r) body = Inr (q_payload item)"
proof (cases "ax25_ui gw dest (rd_path r) body")
  case (Inl e)
  then show ?thesis using assms by (simp add: enqueue_ui_def split: if_splits)
next
  case (Inr ax)
  obtain ok t where e: "tnc_enqueue cfg ax (scheduler_class c) acc ex now t0 = (ok, t)" by force
  have "t1 = t \<or> t1 = t0"
    using assms(1,2,4) Inr e by (auto simp: enqueue_ui_def split: if_splits bool.splits)
  then have i: "item \<in># sched_contents (tn_sched t) - sched_contents (tn_sched t0)"
    using assms(3) by auto
  let ?i = "\<lparr>q_payload = ax, q_class = scheduler_class c, q_account = acc, q_cost = airtime_for (tc_airtime cfg) (length (ax25_encode ax)),
    q_queued_at = now, q_expects_reply = ex\<rparr>"
  obtain res s where p: "sched_push ?i (tn_sched t0) = (res, s)" by force
  have "tn_sched t = s"
    using e p by (auto simp: tnc_enqueue_def Let_def split: sum.splits)
  then have "item = ?i"
    using i push_contents [of ?i "tn_sched t0"] p by (auto split: if_splits)
  then show ?thesis using Inr by simp
qed

lemma protocol_dest_parsed: "parse_ok (lit ''AIRC'') = Some protocol_dest"
  by code_simp

text \<open>A broadcast of one fragment queues that one frame, or nothing.\<close>

lemma broadcast_single:
  fixes k :: kind and fl :: byte
  assumes "body \<noteq> []" "length body \<le> radio_max_payload r" "rc_destination (cf_radio (rd_config r)) = lit ''AIRC''"
  defines "r1 \<equiv> r\<lparr>rd_sessions := snd (next_seq (rd_sessions r))\<rparr>"
  defines "f \<equiv> (with_flags fl (airc_new k (fst (next_seq (rd_sessions r))) body))\<lparr>frag_index := 0, frag_total := 1\<rparr>"
  shows "broadcast_flagged k body c fl now r \<in> {r, note_refused r1, transmit_direct protocol_dest f c now r1}"
proof -
  have m: "radio_max_payload r1 = radio_max_payload r"
    by (simp add: r1_def radio_max_payload_def next_seq_def Let_def)
  have chunk: "chunks (radio_max_payload r1) body = [body]"
    using assms(1,2) m by (simp add: chunks_single)
  have d: "(case parse_ok (rc_destination (cf_radio (rd_config r1))) of Some d \<Rightarrow> d | None \<Rightarrow> Callsign (lit ''AIRC'') 0) = protocol_dest"
    by (simp add: r1_def assms(3) protocol_dest_parsed)
  show ?thesis
    unfolding broadcast_flagged_def Let_def case_prod_beta r1_def [symmetric]
    by (simp add: assms(1) chunk d transmit_all_def f_def)
qed

lemma channel_line_queued:
  assumes "rc_rf_mode (cf_radio (rd_config r)) = RfAirc" "list_all (peer_speaks r Airc) calls"
    and "rd_tnc r = Some (cfg, t0)" "rd_tnc (emit_channel_chat_rf_to now chan calls nick txt tr r) = Some (cfg', t1)"
    and "item \<in># sched_contents (tn_sched t1) - sched_contents (tn_sched t0)" "rd_source r = Some gw"
    and "length (encode_fields [chan, nick, txt]) \<le> radio_max_payload r"
    and "rc_destination (cf_radio (rd_config r)) = lit ''AIRC''"
  shows "ax25_ui gw protocol_dest (rd_path r)
    (airc_encode (line_frame tr (fst (next_seq (rd_sessions r))) [chan, nick, txt])) = Inr (q_payload item)"
proof -
  let ?body = "encode_fields [chan, nick, txt]"
  let ?r = "r\<lparr>rd_sessions := snd (next_seq (rd_sessions r))\<rparr>"
  let ?f = "line_frame tr (fst (next_seq (rd_sessions r))) [chan, nick, txt]"
  have air: "calls = [] \<or> list_ex (peer_speaks r Airc) calls"
    using assms(2) by (cases calls) auto
  let ?b = "broadcast_flagged KMsg ?body TxChat (chat_flags tr) now r"
  have b: "?b \<in> {r, note_refused ?r, transmit_direct protocol_dest ?f TxChat now ?r}"
    unfolding line_frame_def by (rule broadcast_single) (use assms(7,8) in auto)
  moreover have "rd_sessions (transmit_direct protocol_dest ?f TxChat now ?r) = rd_sessions ?r"
    using enqueue_ui_same unfolding transmit_direct_def same_station_state_def by blast
  ultimately have "get_peer (rd_sessions ?b) c = get_peer (rd_sessions r) c" for c
    by (auto simp: next_seq_def Let_def get_peer_def note_refused_def)
  then have "filter (peer_speaks ?b Aprs) calls = []"
    using assms(2) by (auto simp: list_all_iff filter_empty_conv peer_speaks_def split: option.splits)
  then have emit: "emit_channel_chat_rf_to now chan calls nick txt tr r = ?b"
    using assms(1) air by (simp add: emit_channel_chat_rf_to_def Let_def del: encode_fields.simps)
  have "rd_tnc ?b \<noteq> rd_tnc r"
    using assms(3,4,5) emit by auto
  then have "?b = transmit_direct protocol_dest ?f TxChat now ?r"
    using b by (auto simp: note_refused_def)
  with assms(4) have "rd_tnc (enqueue_ui protocol_dest (airc_encode ?f) TxChat (wants_ack ?f) (callsign_to_string protocol_dest) now ?r) =
      Some (cfg', t1)"
    unfolding emit by (simp add: transmit_direct_def)
  then show ?thesis
    using enqueue_ui_adds [of ?r cfg t0, OF _ _ assms(5)] assms(3,6) by simp
qed

section \<open>What the station prints\<close>

lemma line_delivered:
  assumes "akind f = KMsg" "frag_total f = 1" "piggyback_seq f = None" "\<not> wants_ack f"
    and "case get_peer ss src of Some p \<Rightarrow> aseq f \<notin> set (peer_seen p) | None \<Rightarrow> length (ss_peers ss) < max_peers (ss_config ss)"
  shows "rx_deliver (fst (on_receive src f now to_us ss)) = Some f" "rx_transmit (fst (on_receive src f now to_us ss)) = []"
  using assms
  by (auto simp: on_receive_def touch_def peer_receive_def rx_hello_def rx_piggyback_def rx_single_def note_airc_def peer_new_def Let_def
      split: prod.split option.splits)

lemma line_rendered:
  assumes "starts_with (lit ''#'') chan \<or> starts_with (lit ''&'') chan"
    and "\<forall>f \<in> {chan, nick, txt}. \<forall>c \<in> set f. is_scalar c \<and> field_char_ok c"
  shows "rendered q src (line_frame tr seq [chan, nick, txt]) = [chan @ lit '' <'' @ nick @ lit ''> '' @ txt]"
proof -
  have "clean_field f = f" if "f \<in> {chan, nick, txt}" for f
    using assms(2) that unfolding clean_field_def by (intro filter_True) blast
  then have "Airc_Frame.fields (line_frame tr seq [chan, nick, txt]) = [chan, nick, txt]"
    using fields_encode_fields [of "[chan, nick, txt]" "line_frame tr seq [chan, nick, txt]"] assms(2) by auto
  then show ?thesis
    using assms(1) by (auto simp: rendered_def show_message_def field_or_def chat_flags_def TRUNCATED_def RETRY_def Let_def)
qed

lemma line_printed:
  assumes "ax25_ui gw protocol_dest path (airc_encode (line_frame tr seq [chan, nick, txt])) = Inr ax"
    and "starts_with (lit ''#'') chan \<or> starts_with (lit ''&'') chan"
    and "\<forall>f \<in> {chan, nick, txt}. \<forall>c \<in> set f. is_scalar c \<and> field_char_ok c \<and> \<not> terminal_active c"
    and "gw \<noteq> ag_call (sn_args s)"
    and "case get_peer (sn_sessions s) gw of Some p \<Rightarrow> seq \<notin> set (peer_seen p)
         | None \<Rightarrow> length (ss_peers (sn_sessions s)) < max_peers (ss_config (sn_sessions s))"
  shows "sn_output (handle_rf ax now s) = sn_output s @ [chan @ lit '' <'' @ nick @ lit ''> '' @ txt]"
proof -
  let ?f = "line_frame tr seq [chan, nick, txt]"
  have ax: "addr_call (source_addr ax) = gw" "addr_call (destination ax) = protocol_dest" "info ax = airc_encode ?f"
    using assms(1) by (auto simp: ax25_ui_def with_c_bit_def address_new_def split: if_splits)
  have "strip_terminal_controls (chan @ lit '' <'' @ nick @ lit ''> '' @ txt) = chan @ lit '' <'' @ nick @ lit ''> '' @ txt"
    using assms(3) unfolding strip_terminal_controls_def
    by (intro filter_True) (auto simp: lit_def terminal_active_def is_control_def)
  moreover have "rendered q gw ?f = [chan @ lit '' <'' @ nick @ lit ''> '' @ txt]" for q
    using line_rendered [OF assms(2)] assms(3) by blast
  moreover have "\<not> looks_like_amateur_call protocol_dest"
    by code_simp
  moreover have "\<not> wants_ack ?f"
    by (simp add: wants_ack_def chat_flags_def TRUNCATED_def ACK_REQ_def)
  then have "rx_deliver (fst (on_receive gw ?f now to_us (sn_sessions s))) = Some ?f"
    "rx_transmit (fst (on_receive gw ?f now to_us (sn_sessions s))) = []" for to_us
    using line_delivered [of ?f "sn_sessions s" gw now to_us] assms(5) by (simp_all split: option.splits)
  moreover have "airc_decode (airc_encode ?f) = Inr ?f"
    by (rule airc_decode_encode [OF line_frame_wf])
  ultimately show ?thesis
    using assms(4) by (simp add: handle_rf_def ax say_def st_transmit_all_def Let_def case_prod_beta del: encode_fields.simps)
qed

text \<open>C35: What the gateway says on a channel is what the operator reads. When the gateway, in AIRC mode and with the AIRC destination address,
  relays a line of a \<open>#\<close> or \<open>&\<close> channel whose stations all speak AIRC, and the line fits one fragment, then a frame that this puts in its transmit
  queue, once its octets arrive whole at a station's TNC, is decoded there and gives one line on the terminal: the channel, the nick and the words, as they were put in. The station
  must be on the same KISS port, between frames, with a decoder longer than the frame; it must not have seen the message's number from the
  gateway, have room for the gateway among its peers, and go by another callsign; and the line holds no character the field encoding or the terminal filter removes.\<close>

theorem gateway_line_is_shown:
  assumes "rc_rf_mode (cf_radio (rd_config r)) = RfAirc" "rc_destination (cf_radio (rd_config r)) = lit ''AIRC''"
    and "list_all (peer_speaks r Airc) calls" "length (encode_fields [chan, nick, txt]) \<le> radio_max_payload r"
    and "rd_source r = Some gw" "callsign_wf gw" "list_all callsign_wf (rd_path r)"
    and "rd_tnc r = Some (gcfg, t0)"
    and "rd_tnc (emit_channel_chat_rf_to sent chan calls nick txt truncated r) = Some (gcfg', t1)"
    and "item \<in># sched_contents (tn_sched t1) - sched_contents (tn_sched t0)"
    and "starts_with (lit ''#'') chan \<or> starts_with (lit ''&'') chan"
    and "\<forall>f \<in> {chan, nick, txt}. \<forall>c \<in> set f. is_scalar c \<and> field_char_ok c \<and> \<not> terminal_active c"
    and "tc_kiss_port (sn_cfg s) = tc_kiss_port gcfg" "tc_kiss_port gcfg \<le> 0x0F"
    and "length (ax25_encode (q_payload item)) < max_frame (tn_decoder (sn_tnc s))" "kbuf (tn_decoder (sn_tnc s)) = []"
    and "gw \<noteq> ag_call (sn_args s)"
    and "case get_peer (sn_sessions s) gw of Some p \<Rightarrow> fst (next_seq (rd_sessions r)) \<notin> set (peer_seen p)
         | None \<Rightarrow> length (ss_peers (sn_sessions s)) < max_peers (ss_config (sn_sessions s))"
  shows "\<exists>t. pump_read (sn_cfg s) now (data_bytes gcfg (ax25_encode (q_payload item))) (sn_tnc s) = Some t \<and>
    tn_received t = tn_received (sn_tnc s) @ [q_payload item] \<and>
    sn_output (handle_rf (q_payload item) now (s\<lparr>sn_tnc := t\<rparr>)) = sn_output s @ [chan @ lit '' <'' @ nick @ lit ''> '' @ txt]"
proof -
  note queued = channel_line_queued [OF assms(1,3,8,9,10,5,4,2)]
  have wf: "ax25_wf (q_payload item)"
    by (rule ax25_ui_wf [OF assms(6) _ assms(7) queued]) code_simp
  have d: "data_bytes gcfg b = data_bytes (sn_cfg s) b" for b
    using assms(13) by (simp add: data_bytes_def)
  obtain t where t: "pump_read (sn_cfg s) now (data_bytes gcfg (ax25_encode (q_payload item))) (sn_tnc s) = Some t"
    "tn_received t = tn_received (sn_tnc s) @ [q_payload item]"
    unfolding d by (rule pump_read_frame [OF wf assms(15), of "sn_cfg s" now]) (use assms(13,14,16) in auto)
  have "sn_output (handle_rf (q_payload item) now (s\<lparr>sn_tnc := t\<rparr>)) =
      sn_output (s\<lparr>sn_tnc := t\<rparr>) @ [chan @ lit '' <'' @ nick @ lit ''> '' @ txt]"
    by (rule line_printed [OF queued assms(11,12)]) (use assms(17,18) in \<open>simp_all split: option.splits\<close>)
  with t show ?thesis by auto
qed

section \<open>A line on \<open>#rf\<close>\<close>

definition sample_args :: station_args where
  "sample_args = \<lparr>ag_call = Callsign (lit ''SM0ABC'') 7, ag_gateway = Callsign (lit ''SK0MT'') 1, ag_channel = None,
     ag_link = LinkTcp (lit ''127.0.0.1'') 8001, ag_paclen = 128, ag_path = [], ag_quiet = False,
     ag_airtime = airtime_config_default\<rparr>"

abbreviation sample_line :: "ustr list" where
  "sample_line \<equiv> [lit ''#rf'', lit ''alice'', lit ''hello'']"

abbreviation sample_link_cfg :: tnc_config where
  "sample_link_cfg \<equiv> tnc_config_of valid_config LinkLoopback"

lemma sample_radio_fields:
  "rd_tnc sample_radio = Some (sample_link_cfg, tnc_spawn sample_link_cfg)" "rd_config sample_radio = valid_config"
  "rd_enabled sample_radio" "rd_source sample_radio = gateway_callsign valid_config" "rd_path sample_radio = rf_path valid_config"
  "rd_sessions sample_radio = rd_sessions (radio_new valid_config (Some (sample_link_cfg, tnc_spawn sample_link_cfg)))"
  by (simp_all add: sample_radio_def radio_new_def valid_enabled Let_def)

lemma sample_gateway:
  "rd_source sample_radio = Some (Callsign (lit ''SK0MT'') 1)" "rd_path sample_radio = [Callsign (lit ''WIDE1'') 1]"
  "rc_rf_mode (cf_radio (rd_config sample_radio)) = RfAirc" "rc_destination (cf_radio (rd_config sample_radio)) = lit ''AIRC''"
  "radio_max_payload sample_radio = 120" "rc_max_queued_airtime_secs (cf_radio (rd_config sample_radio)) = 60"
  "length (rc_path (cf_radio (rd_config sample_radio))) = 1"
  by (simp_all add: sample_radio_fields gateway_callsign_def rf_path_def parse_ok_def valid_config_def radio_config_default_def
      valid_callsigns map_filter_simps radio_max_payload_def radio_new_def sessions_new_def max_payload_def HEADER_LEN_def
      Let_def)

lemma sample_room:
  "available sample_radio" "\<not> interlock_down sample_radio" "room_in_class (sample_radio\<lparr>rd_sessions := ss\<rparr>) TxChat = 64"
  by (simp_all add: available_def interlock_down_def radio_airtime_def sample_radio_fields interlock_failed_def tnc_spawn_def
     airtime_shared_default_def room_in_class_def tx_room_in_def room_in_def scheduler_class_def scheduler_new_def scheduler_from_tnc_def
     tnc_config_of_def tnc_from_config_def Let_def)

lemma sample_air: "airtime_for (tc_airtime sample_link_cfg) 48 \<le> from_secs 3"
proof -
  have "nat \<lfloor>x\<rfloor> \<le> 2000000" if "x \<le> 2000000" for x :: rat
    using that by linarith
  then show ?thesis
    by (simp add: tnc_config_of_def tnc_from_config_def airtime_for_def to_airtime_def valid_config_def radio_config_default_def
        duty_config_default_def Let_def FRAMING_OCTETS_def from_secs_def from_millis_def from_micros_def)
qed

lemma sample_backlog:
  assumes "radio_max_payload (sample_radio\<lparr>rd_sessions := ss\<rparr>) = 120"
  shows "backlog_has_room (sample_radio\<lparr>rd_sessions := ss\<rparr>) (wire_octets (sample_radio\<lparr>rd_sessions := ss\<rparr>) 15) TxChat"
    (is "backlog_has_room ?r (wire_octets ?r 15) TxChat")
proof -
  have w: "wire_octets ?r 15 = 48"
    using sample_gateway(7) assms by (simp add: wire_octets_def HEADER_LEN_def)
  have b: "nat (round (of_nat (backlog_budget ?r) * class_allowance TxChat)) = from_secs 30"
    using sample_gateway(6) by (simp add: backlog_budget_def class_allowance_def from_secs_def)
  have t: "rd_tnc ?r = Some (sample_link_cfg, tnc_spawn sample_link_cfg)"
    by (simp add: sample_radio_fields)
  have q: "shared_queued (tn_shared (tnc_spawn sample_link_cfg)) = 0"
    by (simp add: tnc_spawn_def shared_queued_def airtime_shared_default_def from_millis_def)
  have "from_secs 3 \<le> from_secs 30" by (simp add: from_secs_def)
  with sample_air show ?thesis
    unfolding backlog_has_room_def w b t option.case prod.case q by simp
qed

lemma sample_line_queued:
  "\<exists>t1 item. rd_tnc (emit_channel_chat_rf_to 5 (lit ''#rf'') [] (lit ''alice'') (lit ''hello'') False sample_radio) = Some (sample_link_cfg, t1) \<and>
     item \<in># sched_contents (tn_sched t1) - sched_contents (tn_sched (tnc_spawn sample_link_cfg)) \<and>
     length (ax25_encode (q_payload item)) = 46"
proof -
  let ?body = "encode_fields sample_line"
  let ?r = "sample_radio\<lparr>rd_sessions := snd (next_seq (rd_sessions sample_radio))\<rparr>"
  let ?f = "line_frame False (fst (next_seq (rd_sessions sample_radio))) sample_line"
  have m: "radio_max_payload ?r = 120"
    using sample_gateway(5) by (simp add: radio_max_payload_def next_seq_def Let_def)
  have l: "length ?body = 15"
    by code_simp
  then have lf: "length (airc_encode ?f) = 23"
    by (simp add: airc_encode_def MAGIC_def to_be_bytes_def Let_def del: encode_fields.simps)
  then have ne: "?body \<noteq> []" by auto
  have chunk: "chunks 120 ?body = [?body]"
    using l ne by (simp add: chunks_single del: encode_fields.simps)
  have "emit_channel_chat_rf_to 5 (lit ''#rf'') [] (lit ''alice'') (lit ''hello'') False sample_radio = transmit_direct protocol_dest ?f TxChat 5 ?r"
    using sample_room(1,2) sample_room(3) [of "rd_sessions ?r"] sample_backlog [of "rd_sessions ?r"] m sample_gateway(3,4)
    by (simp add: emit_channel_chat_rf_to_def broadcast_flagged_def case_prod_beta l ne chunk protocol_dest_parsed
     transmit_all_def line_frame_def del: encode_fields.simps)
  moreover obtain ax where ax: "ax25_ui (Callsign (lit ''SK0MT'') 1) protocol_dest [Callsign (lit ''WIDE1'') 1] (airc_encode ?f) = Inr ax"
    by (simp add: ax25_ui_def MAX_DIGIPEATERS_def)
  moreover obtain t1 i where "tnc_enqueue sample_link_cfg ax CChat (callsign_to_string protocol_dest) (wants_ack ?f) 5
      (tnc_spawn sample_link_cfg) = (True, t1)" "sched_contents (tn_sched t1) = {#i#}" "q_payload i = ax"
    by (simp add: tnc_enqueue_def Let_def tnc_spawn_def sched_push_def scheduler_new_def scheduler_from_tnc_def)
     (simp add: sched_contents_def queue_order_def set_queue_def publish_def)
  moreover have "sched_contents (tn_sched (tnc_spawn sample_link_cfg)) = {#}"
    by (simp add: sched_contents_def queue_order_def tnc_spawn_def scheduler_new_def)
  moreover have "length (ax25_encode ax) = 46"
    using ax lf by (auto simp: ax25_ui_def MAX_DIGIPEATERS_def length_ax25_encode)
  moreover have "\<not> interlock_failed (tn_shared (tnc_spawn sample_link_cfg))"
    by (simp add: interlock_failed_def tnc_spawn_def airtime_shared_default_def)
  ultimately show ?thesis
    by (simp add: transmit_direct_def enqueue_ui_def sample_radio_fields(1,3) sample_gateway(1,2) scheduler_class_def)
qed

theorem gateway_line_is_shown_witness:
  "\<exists>t1 item t. rd_tnc (emit_channel_chat_rf_to 5 (lit ''#rf'') [] (lit ''alice'') (lit ''hello'') False sample_radio) = Some (sample_link_cfg, t1) \<and>
     item \<in># sched_contents (tn_sched t1) \<and>
     sn_output (handle_rf (q_payload item) 9 ((station_new sample_args 0 0)\<lparr>sn_tnc := t\<rparr>)) = [lit ''#rf <alice> hello'']"
proof -
  let ?s = "station_new sample_args 0 0"
  obtain t1 item where q: "rd_tnc (emit_channel_chat_rf_to 5 (lit ''#rf'') [] (lit ''alice'') (lit ''hello'') False sample_radio) =
      Some (sample_link_cfg, t1)" "item \<in># sched_contents (tn_sched t1) - sched_contents (tn_sched (tnc_spawn sample_link_cfg))"
    "length (ax25_encode (q_payload item)) = 46"
    using sample_line_queued by blast
  have "length (encode_fields sample_line) \<le> radio_max_payload sample_radio"
    unfolding sample_gateway(5) by code_simp
  moreover have "callsign_wf (Callsign (lit ''SK0MT'') 1)" "callsign_wf (Callsign (lit ''WIDE1'') 1)"
    "starts_with (lit ''#'') (lit ''#rf'')"
    by code_simp+
  moreover have "\<forall>f \<in> {lit ''#rf'', lit ''alice'', lit ''hello''}. \<forall>c \<in> set f. is_scalar c \<and> field_char_ok c \<and> \<not> terminal_active c"
    by (simp add: lit_def is_scalar_def field_char_ok_def terminal_active_def is_control_def)
  moreover have no_stations: "list_all (peer_speaks sample_radio Airc) []" by simp
  moreover have "tc_kiss_port sample_link_cfg = 0"
    by (simp add: tnc_config_of_def tnc_from_config_def valid_config_def radio_config_default_def tnc_section_default_def Let_def)
  moreover have "tc_kiss_port (sn_cfg ?s) = 0" "kbuf (tn_decoder (sn_tnc ?s)) = []" "sn_output ?s = []"
    "max_frame (tn_decoder (sn_tnc ?s)) = 192" "sn_args ?s = sample_args" "get_peer (sn_sessions ?s) c = None"
    "length (ss_peers (sn_sessions ?s)) < max_peers (ss_config (sn_sessions ?s))" for c
    by (simp_all add: station_new_def station_tnc_config_def tnc_spawn_def kiss_decoder_new_def sample_args_def sessions_new_def
        get_peer_def session_config_default_def)
  moreover have "Callsign (lit ''SK0MT'') 1 \<noteq> ag_call sample_args"
    by (simp add: sample_args_def lit_eq_iff)
  ultimately obtain t where "sn_output (handle_rf (q_payload item) 9 (?s\<lparr>sn_tnc := t\<rparr>)) =
      [] @ [lit ''#rf'' @ lit '' <'' @ lit ''alice'' @ lit ''> '' @ lit ''hello'']"
    using gateway_line_is_shown [OF sample_gateway(3,4) no_stations _ sample_gateway(1) _ _ sample_radio_fields(1) q(1,2), of ?s 9]
    by (auto simp: sample_gateway(2) q(3) simp del: encode_fields.simps)
  with q show ?thesis
    by (intro exI [of _ t1] exI [of _ item] exI [of _ t]) (auto simp: lit_def dest: in_diffD)
qed

end
