(* ===== verification/Held_Transmitter.thy ===== *)
theory Held_Transmitter
  imports Radio_Spec Tnc_Proofs
begin

text \<open>
  A transmitter whose interlock is down: what the server does to the radio, what the operator sets, and what the link task does
  to its own state (\<open>src/src/server/radio.rs\<close>, \<open>src/src/ax25/tnc.rs\<close>) in any order, as long as no check of the interlock has passed.
\<close>

datatype held_op = OnRadio radio_op instant | OnLink tnc_op

definition held_step :: "held_op \<Rightarrow> radio \<Rightarrow> radio" where
  "held_step x r =
     (case x of
        OnRadio op now \<Rightarrow> radio_step op now r
      | OnLink y \<Rightarrow> r\<lparr>rd_tnc := map_option (\<lambda>(tc, t). (tc, tnc_step tc y t)) (rd_tnc r)\<rparr>)"

text \<open>No check passes, and the link is changed by its own task and through the server's operations only.\<close>

definition no_check_passed :: "held_op \<Rightarrow> bool" where
  "no_check_passed x \<longleftrightarrow>
     (case x of
        OnRadio op now \<Rightarrow> (case op of RoLink t \<Rightarrow> False | _ \<Rightarrow> True)
      | OnLink y \<Rightarrow> (case y of TEnqueue f c a e now \<Rightarrow> False | TInterlock b \<Rightarrow> \<not> b | _ \<Rightarrow> True))"

text \<open>Nothing has been keyed, nothing but KISS parameters is on the wire, and at most identifications wait.\<close>

definition only_ids :: "tnc \<Rightarrow> bool" where
  "only_ids t \<longleftrightarrow> q_class ` set_mset (sched_contents (tn_sched t)) \<subseteq> {CId}"

definition only_params :: "tnc_config \<Rightarrow> tnc \<Rightarrow> bool" where
  "only_params tc t \<longleftrightarrow> (\<exists>ps. tn_wire t = concat ps \<and> set ps \<subseteq> {p. prefix p (connect_bytes tc)})"

definition held_link :: "tnc_config \<Rightarrow> tnc \<Rightarrow> bool" where
  "held_link tc t \<longleftrightarrow> \<not> sh_interlock_ok (tn_shared t) \<and> only_ids t \<and> tn_audit t = [] \<and> only_params tc t"

definition held_radio :: "radio \<Rightarrow> bool" where
  "held_radio r \<longleftrightarrow> (case rd_tnc r of None \<Rightarrow> False | Some (tc, t) \<Rightarrow> held_link tc t)"

lemma held_less:
  assumes "held_link tc t" "sched_contents (tn_sched t') \<subseteq># sched_contents (tn_sched t)"
    and "sh_interlock_ok (tn_shared t') = sh_interlock_ok (tn_shared t)" "tn_audit t' = tn_audit t" "tn_wire t' = tn_wire t"
  shows "held_link tc t'"
  using assms set_mset_mono [OF assms(2)] by (auto simp: held_link_def only_ids_def only_params_def)

lemma held_top: "held_link tc t \<Longrightarrow> held_link tc (pump_top tc now t)"
proof -
  assume a: "held_link tc t"
  have "held_link tc (pump_purge t)"
    by (rule held_less [OF a])
      (use drain_except_contents [of "tn_sched t" CId] in \<open>auto simp: pump_purge_def case_prod_beta publish_def publish_queue_def\<close>)
  then have "held_link tc (pump_tune tc (pump_purge t))"
    by (rule held_less) (simp_all add: pump_tune_def)
  then show ?thesis
    unfolding pump_top_def
    by (rule held_less)
      (use expire_contents [of "tn_sched (pump_tune tc (pump_purge t))" now] in
        \<open>auto simp: pump_expire_def case_prod_beta publish_def publish_queue_def\<close>)
qed

lemma held_connect:
  assumes "held_link tc t"
  shows "held_link tc (snd (tnc_connect tc werr t))"
proof -
  obtain p where p: "tn_wire (snd (tnc_connect tc werr t)) = tn_wire t @ p" "prefix p (connect_bytes tc)"
    using connect_wire [of tc werr t] by blast
  obtain ps where ps: "tn_wire t = concat ps" "set ps \<subseteq> {p. prefix p (connect_bytes tc)}"
    using assms by (auto simp: held_link_def only_params_def)
  have "only_params tc (snd (tnc_connect tc werr t))"
    unfolding only_params_def using p ps by (intro exI [of _ "ps @ [p]"]) simp
  moreover have "tn_sched (snd (tnc_connect tc werr t)) = tn_sched t" "tn_shared (snd (tnc_connect tc werr t)) = tn_shared t"
    "tn_audit (snd (tnc_connect tc werr t)) = tn_audit t"
    by (simp_all add: tnc_connect_def case_prod_beta Let_def)
  ultimately show ?thesis using assms by (simp add: held_link_def only_ids_def)
qed

lemma pump_hears_audit: "tn_audit (fold (pump_hear cfg now) kfs t) = tn_audit t"
  by (induction kfs arbitrary: t) (simp_all add: pump_hear_def split: sum.split)

lemma held_read: "held_link tc t \<Longrightarrow> held_link tc (tnc_step tc (TRead now bs) t)"
  using pump_hears_frame [of tc now] pump_hears_audit [of tc now]
  by (auto simp: pump_read_def case_prod_beta intro: held_less)

lemma held_knobs:
  "held_link tc (set_inhibit b t) = held_link tc t" "held_link tc (t\<lparr>tn_keyed := ks\<rparr>) = held_link tc t"
  "held_link tc (t\<lparr>tn_shared := snd (set_duty_override d (tn_shared t))\<rparr>) = held_link tc t"
  "held_link tc (t\<lparr>tn_shared := set_pacing_override d (tn_shared t)\<rparr>) = held_link tc t"
  "held_link tc t \<Longrightarrow> held_link tc (t\<lparr>tn_shared := (tn_shared t)\<lparr>sh_interlock_ok := False\<rparr>\<rparr>)"
  by (simp_all add: held_link_def only_ids_def only_params_def set_inhibit_def set_duty_override_def set_pacing_override_def Let_def)

lemma held_own_step:
  assumes "held_link tc t" "no_check_passed (OnLink y)"
  shows "held_link tc (tnc_step tc y t)"
proof (cases y)
  case (TTimer ilk werr now)
  then show ?thesis using assms(1) by (simp add: held_link_def pump_timer_def interlock_failed_def)
next
  case TEnd
  then show ?thesis
    using drain_contents [of "tn_sched t"] assms(1)
    by (auto simp: run_after_pump_def publish_def publish_queue_def intro!: held_less [OF assms(1)] split: tnc_link.split)
next
  case (TRead now bs)
  then show ?thesis using held_read [OF assms(1)] by simp
next
  case (TConnect werr)
  then show ?thesis using held_connect [OF assms(1)] by simp
next
  case (TTop now)
  then show ?thesis using held_top [OF assms(1)] by simp
qed (use assms in \<open>simp_all add: no_check_passed_def held_knobs\<close>)

lemma held_id: "held_link tc t \<Longrightarrow> held_link tc (snd (try_send_id tc ax now t))"
proof -
  assume a: "held_link tc t"
  let ?i = "\<lparr>q_payload = ax, q_class = CId, q_account = lit ''id'', q_cost = airtime_for (tc_airtime tc) (length (ax25_encode ax)),
    q_queued_at = now, q_expects_reply = False\<rparr>"
  obtain r s where p: "sched_push ?i (tn_sched t) = (r, s)" by force
  have "q_class ` set_mset (sched_contents s) \<subseteq> {CId}"
    using push_contents [of ?i "tn_sched t"] p a by (auto simp: held_link_def only_ids_def split: if_splits)
  then show ?thesis
    using p a by (cases r) (simp_all add: try_send_id_def tnc_enqueue_def held_link_def only_ids_def only_params_def publish_def
        publish_queue_def Let_def)
qed

lemma held_transmit_id: "held_radio r \<Longrightarrow> held_radio (snd (transmit_id d f now r))"
  using held_id by (auto simp: held_radio_def transmit_id_def case_prod_beta split: option.splits sum.split bool.split)

lemma held_cong: "rd_tnc r' = rd_tnc r \<Longrightarrow> held_radio r' = held_radio r"
  by (simp add: held_radio_def)

lemma held_send_id: "held_radio r \<Longrightarrow> held_radio (snd (send_id now r))"
proof -
  assume h: "held_radio r"
  let ?r = "r\<lparr>rd_sessions := snd (next_seq (rd_sessions r))\<rparr>"
  have "held_radio ?r" using h by (subst held_cong [of _ r]) simp_all
  then have "held_radio (snd (transmit_id d f now ?r))" for d f by (rule held_transmit_id)
  then show ?thesis
    by (simp add: send_id_def case_prod_beta Let_def held_radio_def split: bool.split)
qed

lemma held_radio_step:
  assumes "held_radio r" "no_check_passed (OnRadio op now)"
  shows "held_radio (radio_step op now r)"
proof (cases "is_id_op op")
  case True
  then show ?thesis
    using assms(1) held_send_id [OF assms(1)]
    by (cases op) (simp_all add: maybe_identify_def id_if_needed_def identify_now_def case_prod_beta split: bool.split)
next
  case False
  show ?thesis
  proof (cases "is_link_op op")
    case True
    then show ?thesis
      using assms
      by (cases op) (auto simp: no_check_passed_def held_radio_def set_tx_inhibit_def drain_keyed_def held_knobs split: option.splits)
  next
    case not_link: False
    have "\<not> available r \<or> interlock_down r"
      using assms(1) by (auto simp: held_radio_def held_link_def available_def interlock_down_def radio_airtime_def interlock_failed_def
          split: option.splits)
    then show ?thesis
      using silenced_link [OF _ False not_link] assms(1) held_cong by blast
  qed
qed

lemma held_any_step: "held_radio r \<Longrightarrow> no_check_passed x \<Longrightarrow> held_radio (held_step x r)"
  using held_radio_step held_own_step
  by (cases x) (auto simp: held_step_def held_radio_def split: option.splits)

lemma held_run: "held_radio r \<Longrightarrow> held_radio (fold held_step (filter no_check_passed xs) r)"
  by (induction xs arbitrary: r) (simp_all add: held_any_step)

end
