(* ===== verification/Cli.thy ===== *)
theory Cli
  imports Server Interlock Irc_Client Config_Proofs Held_Transmitter "HOL-Library.Sublist"
begin

text \<open>
  \<open>src/src/cli.rs\<close> and \<open>src/src/main.rs\<close>: the command line of \<open>rfircd\<close> and the assembly of the gateway, the radio link,
  the interlock, the server and the listeners, from a configuration.

  The version of the package, whether the build has serial support, the outcome of binding an address and of loading a certificate, and
  the accounts as \<open>Accounts::load\<close> found them are arguments.
\<close>

section \<open>The command line\<close>

datatype cli_invocation =
    CliRun ustr
  | CliCheck ustr
  | CliInit ustr
  | CliHashPassword
  | CliVersion ustr
  | CliHelp
  | CliUsage ustr

definition DEFAULT_CONFIG :: ustr where
  "DEFAULT_CONFIG = lit ''rfircd.toml''"

definition cli_version :: "ustr \<Rightarrow> ustr" where
  "cli_version pkg = lit ''rfircd '' @ pkg"

definition cli_choice :: "ustr \<Rightarrow> bool \<Rightarrow> bool \<Rightarrow> cli_invocation" where
  "cli_choice path check_only init = (if init then CliInit path else if check_only then CliCheck path else CliRun path)"

fun cli_parse_args :: "ustr \<Rightarrow> ustr list \<Rightarrow> ustr \<Rightarrow> bool \<Rightarrow> bool \<Rightarrow> cli_invocation" where
  "cli_parse_args pkg [] path check_only init = cli_choice path check_only init"
| "cli_parse_args pkg (arg # args) path check_only init =
     (if arg = lit ''--config'' \<or> arg = lit ''-c''
      then (case args of p # rest \<Rightarrow> cli_parse_args pkg rest p check_only init | [] \<Rightarrow> CliUsage (lit ''--config needs a path''))
      else if arg = lit ''--check'' then cli_parse_args pkg args path True init
      else if arg = lit ''--init'' then cli_parse_args pkg args path check_only True
      else if arg = lit ''--hash-password'' then CliHashPassword
      else if arg = lit ''--version'' \<or> arg = lit ''-V'' then CliVersion (cli_version pkg)
      else if arg = lit ''--help'' \<or> arg = lit ''-h'' then CliHelp
      else CliUsage (lit ''unknown argument: '' @ arg))"

definition cli_args :: "ustr \<Rightarrow> ustr list \<Rightarrow> cli_invocation" where
  "cli_args pkg argv = cli_parse_args pkg argv DEFAULT_CONFIG False False"

text \<open>\<open>--hash-password\<close>: what is printed for what stdin holds; hashing may fail.\<close>

definition hash_password_of :: "(ustr \<Rightarrow> ustr option) \<Rightarrow> ustr \<Rightarrow> ustr + ustr" where
  "hash_password_of hash input =
     (let password = rev (dropWhile (\<lambda>c. c = 13 \<or> c = 10) (rev input))
      in if password = [] then Inl (lit ''no password on stdin'')
         else (case hash password of Some h \<Rightarrow> Inr h | None \<Rightarrow> Inl (lit ''could not hash password'')))"

section \<open>The radio link\<close>

datatype cli_error = CliNoSerial | CliTncKind ustr | CliAccounts

text \<open>The link, and whether the far end of a loopback is to be held.\<close>

definition resolve_link :: "bool \<Rightarrow> tnc_section \<Rightarrow> cli_error + (tnc_link \<times> bool)" where
  "resolve_link serial section =
     (if ts_kind section = lit ''tcp'' then Inr (LinkTcp (ts_host section) (ts_port section), False)
      else if ts_kind section = lit ''serial''
      then (if serial then Inr (LinkSerial (ts_device section) (ts_baud section), False) else Inl CliNoSerial)
      else if ts_kind section = lit ''loopback'' then Inr (LinkLoopback, True)
      else Inl (CliTncKind (ts_kind section)))"

section \<open>The gateway\<close>

record gateway =
  gw_server :: server
  gw_loopback :: bool
  gw_interlock :: "poller option"

text \<open>The handle of a link, with the interlock's first word on it when one is configured: the transmitter may not key.\<close>

definition start_radio :: "config \<Rightarrow> tnc_link \<Rightarrow> (tnc_config \<times> tnc) \<times> poller option" where
  "start_radio cf link =
     (let tc = tnc_config_of cf link; t = tnc_spawn tc
      in case rc_interlock (cf_radio cf) of
           None \<Rightarrow> ((tc, t), None)
         | Some _ \<Rightarrow> (let p = interlock_spawn (tn_shared t) in ((tc, t\<lparr>tn_shared := po_shared p\<rparr>), Some p)))"

definition build_radio :: "bool \<Rightarrow> config \<Rightarrow> cli_error + (tnc_config \<times> tnc) option \<times> bool \<times> poller option" where
  "build_radio serial cf =
     (if \<not> rc_enabled (cf_radio cf) then Inr (None, False, None)
      else (case resolve_link serial (rc_tnc (cf_radio cf)) of
              Inl e \<Rightarrow> Inl e
            | Inr (link, far) \<Rightarrow> (case start_radio cf link of (h, p) \<Rightarrow> Inr (Some h, far, p))))"

definition attach_events :: "server \<Rightarrow> server" where
  "attach_events s = s\<lparr>srv_accounts := enable_async_persist (srv_accounts s)\<rparr>"

definition gateway_build :: "bool \<Rightarrow> config \<Rightarrow> nat \<Rightarrow> accounts option \<Rightarrow> cli_error + gateway" where
  "gateway_build serial cf wall acc =
     (case build_radio serial cf of
        Inl e \<Rightarrow> Inl e
      | Inr (tnc, far, p) \<Rightarrow>
          (case acc of
             None \<Rightarrow> Inl CliAccounts
           | Some a \<Rightarrow>
               Inr \<lparr>gw_server = attach_events (server_new cf tnc wall a), gw_loopback = far, gw_interlock = p\<rparr>))"

section \<open>The listeners\<close>

record listener =
  ls_addr :: ustr
  ls_tls :: bool
  ls_ping :: duration

datatype 'e listen_failure = BindFailed ustr 'e | TlsFailed 'e

text \<open>Binding in order; the result has the addresses shown and the listeners that run, which keep running when a later one fails.\<close>

fun bind_all ::
  "(ustr \<Rightarrow> 'e + ustr) \<Rightarrow> bool \<Rightarrow> duration \<Rightarrow> ustr list \<Rightarrow> (listener \<times> ustr) list \<times> 'e listen_failure option" where
  "bind_all bind tls ping [] = ([], None)"
| "bind_all bind tls ping (addr # addrs) =
     (case bind addr of
        Inl e \<Rightarrow> ([], Some (BindFailed addr e))
      | Inr local \<Rightarrow>
          (case bind_all bind tls ping addrs of
             (ls, r) \<Rightarrow> ((\<lparr>ls_addr = addr, ls_tls = tls, ls_ping = ping\<rparr>, (if tls then lit ''tls:'' else []) @ local) # ls, r)))"

definition spawn_listeners ::
  "(ustr \<Rightarrow> 'e + ustr) \<Rightarrow> 'e option \<Rightarrow> config \<Rightarrow> (listener \<times> ustr) list \<times> 'e listen_failure option" where
  "spawn_listeners bind tls_error cf =
     (let li = cf_listen cf; ping = from_secs (li_ping_interval_secs li)
      in case bind_all bind False ping (li_bind li) of
           (ls, Some e) \<Rightarrow> (ls, Some e)
         | (ls, None) \<Rightarrow>
             (case li_tls li of
                None \<Rightarrow> (ls, None)
              | Some tls \<Rightarrow>
                  (case tls_error of
                     Some e \<Rightarrow> (ls, Some (TlsFailed e))
                   | None \<Rightarrow> (case bind_all bind True ping (tl_bind tls) of (ls', r) \<Rightarrow> (ls @ ls', r)))))"

section \<open>Properties\<close>

definition known_kind :: "bool \<Rightarrow> ustr \<Rightarrow> bool" where
  "known_kind serial k \<longleftrightarrow> k \<in> {lit ''tcp'', lit ''loopback''} \<or> serial \<and> k = lit ''serial''"

lemma resolves_iff: "(\<exists>l. resolve_link serial sec = Inr l) \<longleftrightarrow> known_kind serial (ts_kind sec)"
proof -
  have "lit ''serial'' \<noteq> lit ''tcp''" "lit ''serial'' \<noteq> lit ''loopback''" by code_simp+
  then show ?thesis by (auto simp: resolve_link_def known_kind_def)
qed

lemma radio_started:
  assumes "rc_enabled (cf_radio cf)" "known_kind serial (ts_kind (rc_tnc (cf_radio cf)))"
  obtains link far where "resolve_link serial (rc_tnc (cf_radio cf)) = Inr (link, far)"
    "build_radio serial cf = Inr (Some (fst (start_radio cf link)), far, snd (start_radio cf link))"
proof -
  obtain l where "resolve_link serial (rc_tnc (cf_radio cf)) = Inr l"
    using assms(2) resolves_iff by blast
  then show thesis
    using assms(1) that [of "fst l" "snd l"] by (simp add: build_radio_def case_prod_beta)
qed

text \<open>The radio at the start, with an interlock configured.\<close>

lemma starts_held:
  assumes "rc_interlock (cf_radio cf) = Some ic"
  shows "held_link (fst (fst (start_radio cf link))) (snd (fst (start_radio cf link)))"
  using assms
  by (simp add: start_radio_def interlock_spawn_def tnc_spawn_def airtime_shared_default_def held_link_def only_ids_def only_params_def
      sched_contents_def queue_order_def scheduler_new_def Let_def) (rule exI [of _ "[]"], simp)

lemma built_radio:
  assumes "rc_enabled (cf_radio cf)" "known_kind serial (ts_kind (rc_tnc (cf_radio cf)))"
  obtains link far where "gateway_build serial cf wall (Some acc) =
      Inr \<lparr>gw_server = attach_events (server_new cf (Some (fst (start_radio cf link))) wall acc), gw_loopback = far,
           gw_interlock = snd (start_radio cf link)\<rparr>"
    "rd_tnc (srv_radio (attach_events (server_new cf (Some (fst (start_radio cf link))) wall acc))) = Some (fst (start_radio cf link))"
proof -
  obtain link far where b: "build_radio serial cf = Inr (Some (fst (start_radio cf link)), far, snd (start_radio cf link))"
    using radio_started [OF assms] by blast
  show thesis
    by (rule that [of link far]) (simp_all add: gateway_build_def b attach_events_def server_new_def radio_new_def Let_def)
qed

text \<open>C4: A validated configuration comes up, and comes up safe. With a link of a kind the build has, when the radio is enabled, and accounts that
  load, the gateway is assembled. The radio is there exactly when it is enabled, with a callsign of a station; when it is not, there is no link and no
  interlock. When an interlock is configured the transmitter is held from the first instant: whatever the server does to the radio, the operator sets and
  the link task does, until a check has passed nothing is keyed, nothing but KISS parameters is written to the TNC, and no frame is in the queue but identifications.\<close>

theorem validated_gateway_comes_up:
  assumes "validate env cf = None" "rc_enabled (cf_radio cf) \<Longrightarrow> known_kind serial (ts_kind (rc_tnc (cf_radio cf)))"
  shows "case gateway_build serial cf wall (Some acc) of
      Inl _ \<Rightarrow> False
    | Inr g \<Rightarrow>
        available (srv_radio (gw_server g)) = rc_enabled (cf_radio cf) \<and>
        (if rc_enabled (cf_radio cf)
         then (case rd_source (srv_radio (gw_server g)) of None \<Rightarrow> False | Some call \<Rightarrow> looks_like_amateur_call call) \<and>
           (case rc_interlock (cf_radio cf) of
              None \<Rightarrow> \<not> interlock_down (srv_radio (gw_server g))
            | Some ic \<Rightarrow>
                interlock_down (srv_radio (gw_server g)) \<and> gw_interlock g \<noteq> None \<and>
                (case rd_tnc (fold held_step (filter no_check_passed ops) (srv_radio (gw_server g))) of
                   None \<Rightarrow> False
                 | Some (tc, t) \<Rightarrow>
                     tn_audit t = [] \<and> q_class ` set_mset (sched_contents (tn_sched t)) \<subseteq> {CId} \<and>
                     (\<exists>ps. tn_wire t = concat ps \<and> set ps \<subseteq> {p. prefix p (connect_bytes tc)})))
         else rd_tnc (srv_radio (gw_server g)) = None \<and> gw_interlock g = None)"
proof (cases "rc_enabled (cf_radio cf)")
  case False
  then show ?thesis
    by (simp add: gateway_build_def build_radio_def attach_events_def server_new_def radio_new_def available_def Let_def)
next
  case True
  obtain link far where g: "gateway_build serial cf wall (Some acc) =
      Inr \<lparr>gw_server = attach_events (server_new cf (Some (fst (start_radio cf link))) wall acc), gw_loopback = far,
           gw_interlock = snd (start_radio cf link)\<rparr>"
    and tnc: "rd_tnc (srv_radio (attach_events (server_new cf (Some (fst (start_radio cf link))) wall acc))) = Some (fst (start_radio cf link))"
    using built_radio [OF True assms(2) [OF True]] by metis
  let ?r = "srv_radio (attach_events (server_new cf (Some (fst (start_radio cf link))) wall acc))"
  obtain call where "callsign_from_str (rc_callsign (cf_radio cf)) = Inr call" "looks_like_amateur_call call"
    using station_checks [OF assms(1) True] by metis
  then have src: "rd_source ?r = Some call" "looks_like_amateur_call call"
    by (simp_all add: attach_events_def server_new_def radio_new_def gateway_callsign_def parse_ok_def Let_def)
  have up: "available ?r"
    using True tnc by (simp add: attach_events_def server_new_def radio_new_def available_def Let_def)
  have lock: "interlock_down ?r = interlock_failed (tn_shared (snd (fst (start_radio cf link))))"
    by (simp only: interlock_down_def radio_airtime_def tnc option.map option.case case_prod_beta)
  show ?thesis
  proof (cases "rc_interlock (cf_radio cf)")
    case None
    then have "\<not> interlock_down ?r"
      unfolding lock by (simp add: start_radio_def interlock_failed_def tnc_spawn_def airtime_shared_default_def Let_def)
    then show ?thesis using True src up None by (simp add: g)
  next
    case (Some ic)
    have down: "interlock_down ?r"
      unfolding lock using Some by (simp add: start_radio_def interlock_spawn_def interlock_failed_def Let_def)
    have poller: "snd (start_radio cf link) \<noteq> None"
      using Some by (simp add: start_radio_def Let_def)
    have "held_radio ?r"
      using starts_held [OF Some, of link] by (simp add: held_radio_def tnc case_prod_beta)
    then have "held_radio (fold held_step (filter no_check_passed ops) ?r)" by (rule held_run)
    then show ?thesis
      using True src up down poller Some
      by (auto simp: g held_radio_def held_link_def only_ids_def only_params_def split: option.splits)
  qed
qed

theorem validated_gateway_comes_up_witness:
  "case gateway_build False valid_config 0 (Some (accounts_of store_default \<lparr>dk_file = None, dk_temp = None\<rparr>)) of
     Inl _ \<Rightarrow> False | Inr g \<Rightarrow> available (srv_radio (gw_server g))"
proof -
  have "known_kind False (ts_kind (rc_tnc (cf_radio valid_config)))"
    by (simp add: known_kind_def valid_config_def radio_config_default_def tnc_section_default_def config_named_def)
  then show ?thesis
    using validated_gateway_comes_up [OF valid_config_valid,
        where serial = False and wall = 0 and acc = "accounts_of store_default \<lparr>dk_file = None, dk_temp = None\<rparr>"] valid_enabled(1)
    by (auto split: sum.splits)
qed

text \<open>The check of a configuration does not look at the kind of the link, so one that no build has passes it.\<close>

definition with_kind :: "ustr \<Rightarrow> config \<Rightarrow> config" where
  "with_kind k cf = cf\<lparr>cf_radio := (cf_radio cf)\<lparr>rc_tnc := (rc_tnc (cf_radio cf))\<lparr>ts_kind := k\<rparr>\<rparr>\<rparr>"

lemma unknown_kind_passes_the_check:
  assumes "ts_kind (rc_tnc (cf_radio cf)) \<noteq> lit ''loopback''" "k \<noteq> lit ''loopback''"
  shows "validate env (with_kind k cf) = validate env cf"
proof -
  let ?cf = "with_kind k cf"
  have "check_server env ?cf = check_server env cf" "check_station (cf_radio ?cf) = check_station (cf_radio cf)"
    "check_bridging ?cf = check_bridging cf"
    by (simp_all add: with_kind_def check_server_def check_station_def check_bridging_def check_moved_def listen_addresses_def Let_def)
  moreover have "check_duty env (cf_radio ?cf) = check_duty env (cf_radio cf)"
    using assms by (simp add: with_kind_def check_duty_def Let_def)
  moreover have "rc_enabled (cf_radio ?cf) = rc_enabled (cf_radio cf)" "cf_policy ?cf = cf_policy cf"
    "rc_max_queued_airtime_secs (cf_radio ?cf) = rc_max_queued_airtime_secs (cf_radio cf)"
    "rc_interlock (cf_radio ?cf) = rc_interlock (cf_radio cf)" "rc_duty (cf_radio ?cf) = rc_duty (cf_radio cf)"
    by (simp_all add: with_kind_def)
  moreover have "ts_kind (rc_tnc (cf_radio ?cf)) \<noteq> lit ''loopback''"
    "check_moved (rc_tnc (cf_radio ?cf)) = check_moved (rc_tnc (cf_radio cf))"
    "listen_addresses ?cf = listen_addresses cf" "cf_opers ?cf = cf_opers cf"
    using assms by (simp_all add: with_kind_def check_moved_def listen_addresses_def)
  ultimately show ?thesis
    using assms by (simp add: validate_def Let_def cong: if_cong option.case_cong)
qed

lemma unknown_kind_does_not_start:
  assumes "rc_enabled (cf_radio cf)" "\<not> known_kind serial k" "k \<noteq> lit ''serial''"
  shows "gateway_build serial (with_kind k cf) wall acc = Inl (CliTncKind k)"
  using assms by (auto simp: gateway_build_def build_radio_def resolve_link_def with_kind_def known_kind_def)

section \<open>The command line and the listeners\<close>

lemma help_never_starts: "cli_args pkg (lit ''--help'' # argv) = CliHelp" "cli_args pkg (lit ''-V'' # argv) = CliVersion (cli_version pkg)"
  by (simp_all add: cli_args_def) code_simp+

lemma bind_all_flags: "list_all (\<lambda>x. ls_tls (fst x) = tls \<and> ls_ping (fst x) = ping) (fst (bind_all bind tls ping addrs))"
  by (induction addrs) (auto split: sum.split prod.split)

lemma bind_all_prefix: "prefix (map (ls_addr \<circ> fst) (fst (bind_all bind tls ping addrs))) addrs"
  by (induction addrs) (auto split: sum.split prod.split)

end
