(* ===== verification/Wizard.thy ===== *)
theory Wizard
  imports Config_Proofs Station
begin

text \<open>
  \<open>src/src/wizard.rs\<close>: \<open>rfircd --init\<close>, the interview that writes a first configuration. The reader is the list of lines still
  to come, or of reads that fail; the writer takes a text or does not, as \<open>wz_sink\<close> says of all it has been given. A loop that asks
  again is a partial function, so that an interview that never ends is \<open>None\<close>.

  The certificate generator, SHA-256, Argon2, the TOML parser, \<open>hostname\<close>, \<open>stty\<close>, the \<open>Debug\<close> form of a character and the outcome
  of writing to a path are arguments.
\<close>

section \<open>Answers\<close>

definition BAUDS :: "(nat \<times> ustr) list" where
  "BAUDS = [(300, lit ''HF, the usual QMX/QRP case''), (1200, lit ''VHF/UHF FM packet''), (9600, lit ''9k6 FM, needs a capable radio'')]"

datatype tnc_answer = TaTcp ustr nat | TaSerial ustr nat

record radio_answers =
  ra_callsign :: callsign
  ra_enabled :: bool
  ra_tnc :: tnc_answer
  ra_baud :: nat
  ra_channel :: ustr

record tls_answers =
  ta_bind :: ustr
  ta_cert :: ustr
  ta_key :: ustr

record oper_answers =
  oa_name :: ustr
  oa_hash :: ustr

record wz_answers =
  an_server_name :: ustr
  an_network :: ustr
  an_plain_bind :: ustr
  an_radio :: "radio_answers option"
  an_tls :: "tls_answers option"
  an_oper :: "oper_answers option"

record wz_defaults =
  wd_server_name :: ustr
  wd_conf_dir :: ustr
  wd_terminal :: bool

definition tidy_server_name :: "ustr \<Rightarrow> ustr" where
  "tidy_server_name raw =
     (let cleaned = filter (\<lambda>c. is_ascii_alphanumeric c \<or> c = 46 \<or> c = 45) raw
      in if cleaned = [] then lit ''rfirc.local''
         else if 46 \<in> set cleaned then cleaned
         else cleaned @ lit ''.local'')"

definition default_server_name :: "ustr option \<Rightarrow> ustr" where
  "default_server_name hostname = tidy_server_name (case hostname of Some s \<Rightarrow> trim s | None \<Rightarrow> [])"

text \<open>\<open>Path::parent\<close> and \<open>Path::join\<close>, on paths without \<open>.\<close> components.\<close>

definition trim_slashes :: "ustr \<Rightarrow> ustr" where
  "trim_slashes p = rev (dropWhile (\<lambda>c. c = 47) (rev p))"

definition path_parent :: "ustr \<Rightarrow> ustr option" where
  "path_parent p =
     (let q = trim_slashes p
      in if q = [] then None
         else (let dir = rev (dropWhile (\<lambda>c. c \<noteq> 47) (rev q))
               in if dir = [] then Some []
                  else if trim_slashes dir = [] then Some [47]
                  else Some (trim_slashes dir)))"

definition path_join :: "ustr \<Rightarrow> ustr \<Rightarrow> ustr" where
  "path_join dir name = (if dir = [] then name else if last dir = 47 then dir @ name else dir @ [47] @ name)"

definition for_config_path :: "ustr option \<Rightarrow> bool \<Rightarrow> ustr \<Rightarrow> wz_defaults" where
  "for_config_path hostname terminal path =
     \<lparr>wd_server_name = default_server_name hostname,
      wd_conf_dir = (case path_parent path of Some p \<Rightarrow> if p = [] then lit ''.'' else p | None \<Rightarrow> lit ''.''),
      wd_terminal = terminal\<rparr>"

section \<open>Reader and writer\<close>

record wz =
  wz_in :: "(unit + ustr) list"
  wz_out :: ustr
  wz_sink :: "ustr \<Rightarrow> bool"
  wz_stty :: bool
  wz_echo :: bool

datatype wz_error =
    WzOutput
  | WzInput
  | WzEnded ustr
  | WzHash
  | WzExists ustr
  | WzCertificate
  | WzFile ustr
  | WzInvalid

type_synonym 'a asked = "((wz_error + 'a) \<times> wz) option"

definition and_then :: "'a asked \<Rightarrow> ('a \<Rightarrow> wz \<Rightarrow> 'b asked) \<Rightarrow> 'b asked" where
  "and_then m f = Option.bind m (\<lambda>r. case r of (Inl e, s) \<Rightarrow> Some (Inl e, s) | (Inr x, s) \<Rightarrow> f x s)"

abbreviation give :: "'a \<Rightarrow> wz \<Rightarrow> 'a asked" where
  "give x s \<equiv> Some (Inr x, s)"

abbreviation fails :: "wz_error \<Rightarrow> wz \<Rightarrow> 'a asked" where
  "fails e s \<equiv> Some (Inl e, s)"

definition continue_with :: "('a \<Rightarrow> wz \<Rightarrow> 'b asked) \<Rightarrow> (wz_error + 'a) \<times> wz \<Rightarrow> 'b asked" where
  "continue_with f r = (case fst r of Inl e \<Rightarrow> Some (Inl e, snd r) | Inr x \<Rightarrow> f x (snd r))"

lemma and_then_bind: "and_then m f = Option.bind m (continue_with f)"
  unfolding and_then_def continue_with_def by (rule arg_cong [of _ _ "Option.bind m"]) (auto split: sum.split)

lemma and_then_mono [partial_function_mono]:
  assumes "mono_option m" "\<And>x s. mono_option (\<lambda>f. k f x s)"
  shows "mono_option (\<lambda>f. and_then (m f) (k f))"
  unfolding and_then_bind
proof (intro bind_mono assms(1))
  show "mono_option (\<lambda>f. continue_with (k f) r)" for r
    using assms(2) by (cases "fst r") (simp_all add: continue_with_def monotone_def flat_ord_def)
qed

definition wz_write :: "ustr \<Rightarrow> wz \<Rightarrow> unit asked" where
  "wz_write t s =
     (let all = wz_out s @ t in if wz_sink s all then give () (s\<lparr>wz_out := all\<rparr>) else fails WzOutput s)"

definition writeln :: "ustr \<Rightarrow> wz \<Rightarrow> unit asked" where
  "writeln t s = wz_write (t @ [10]) s"

definition read_line :: "wz \<Rightarrow> ustr asked" where
  "read_line s =
     (case wz_in s of
        [] \<Rightarrow> give [] s
      | Inl _ # rest \<Rightarrow> fails WzInput (s\<lparr>wz_in := rest\<rparr>)
      | Inr line # rest \<Rightarrow> give line (s\<lparr>wz_in := rest\<rparr>))"

definition set_echo :: "bool \<Rightarrow> wz \<Rightarrow> bool \<times> wz" where
  "set_echo on s = (if wz_stty s then (True, s\<lparr>wz_echo := on\<rparr>) else (False, s))"

section \<open>Questions\<close>

partial_function (option) ask :: "ustr \<Rightarrow> ustr \<Rightarrow> wz \<Rightarrow> ustr asked" where
  "ask prompt d s =
     and_then (wz_write (if d = [] then prompt @ lit '': '' else prompt @ lit '' ['' @ d @ lit '']: '') s) (\<lambda>_ s.
     and_then (read_line s) (\<lambda>line s.
       if line = []
       then (if d = [] then fails (WzEnded prompt) s else and_then (writeln [] s) (\<lambda>_ s. give d s))
       else (let answer = trim line
             in if answer = []
                then (if d \<noteq> [] then give d s else and_then (writeln (lit ''  (needed)'') s) (\<lambda>_ s. ask prompt d s))
                else give answer s)))"

text \<open>The loops of the interview: a question asked until its answer is acceptable.\<close>

partial_function (option) ask_until ::
  "ustr \<Rightarrow> ustr \<Rightarrow> (ustr \<Rightarrow> 'a option) \<Rightarrow> (ustr \<Rightarrow> ustr) \<Rightarrow> wz \<Rightarrow> 'a asked" where
  "ask_until prompt d accept complain s =
     and_then (ask prompt d s) (\<lambda>raw s.
       case accept raw of
         Some x \<Rightarrow> give x s
       | None \<Rightarrow> and_then (writeln (complain raw) s) (\<lambda>_ s. ask_until prompt d accept complain s))"

definition yes_or_no :: "ustr \<Rightarrow> bool option" where
  "yes_or_no raw =
     (let a = map to_lower (trim raw)
      in if a = lit ''y'' \<or> a = lit ''yes'' then Some True else if a = lit ''n'' \<or> a = lit ''no'' then Some False else None)"

definition ask_yes_no :: "ustr \<Rightarrow> bool \<Rightarrow> wz \<Rightarrow> bool asked" where
  "ask_yes_no prompt default_yes s =
     ask_until (prompt @ lit '' ('' @ (if default_yes then lit ''Y/n'' else lit ''y/N'') @ lit '')'')
       (if default_yes then lit ''y'' else lit ''n'') yes_or_no (\<lambda>_. lit ''  please answer y or n'') s"

definition menu_line :: "nat \<times> ustr \<Rightarrow> ustr" where
  "menu_line = (\<lambda>(i, o'). lit ''  '' @ show_nat (i + 1) @ lit '') '' @ o')"

fun write_lines :: "ustr list \<Rightarrow> wz \<Rightarrow> unit asked" where
  "write_lines [] s = give () s"
| "write_lines (l # ls) s = and_then (writeln l s) (\<lambda>_ s. write_lines ls s)"

definition in_menu :: "nat \<Rightarrow> ustr \<Rightarrow> nat option" where
  "in_menu n raw =
     (case parse_unsigned (2 ^ 64) (trim raw) of
        Some k \<Rightarrow> if 1 \<le> k \<and> k \<le> n then Some (k - 1) else None
      | None \<Rightarrow> None)"

definition ask_choice :: "ustr \<Rightarrow> ustr list \<Rightarrow> nat \<Rightarrow> wz \<Rightarrow> nat asked" where
  "ask_choice prompt options default_index s =
     and_then (write_lines (prompt # map menu_line (enumerate 0 options)) s) (\<lambda>_ s.
       ask_until (lit ''  choice'') (show_nat (default_index + 1)) (in_menu (length options))
         (\<lambda>_. lit ''  enter a number between 1 and '' @ show_nat (length options)) s)"

text \<open>\<open>EchoOff\<close>: the echo is off while the guard lives, and on again when it is dropped, on every way out.\<close>

definition echo_off :: "bool \<Rightarrow> wz \<Rightarrow> bool \<times> wz" where
  "echo_off terminal s = (if terminal then set_echo False s else (False, s))"

definition drop_guard :: "bool \<Rightarrow> 'a asked \<Rightarrow> 'a asked" where
  "drop_guard active m = map_option (\<lambda>(r, s). (r, if active then snd (set_echo True s) else s)) m"

definition read_silent :: "ustr \<Rightarrow> bool \<Rightarrow> wz \<Rightarrow> ustr asked" where
  "read_silent prompt active s =
     and_then (if active then give () s
               else writeln (lit ''  (cannot turn off echo here '' @ [8212] @ lit '' this will be visible)'') s) (\<lambda>_ s.
     and_then (wz_write (prompt @ lit '': '') s) (\<lambda>_ s.
       case read_line s of
         None \<Rightarrow> None
       | Some (r, s) \<Rightarrow>
           and_then (if active then writeln [] s else give () s) (\<lambda>_ s.
             case r of Inl e \<Rightarrow> fails e s | Inr line \<Rightarrow> give (trim_end_crlf line) s)))"

definition read_password :: "ustr \<Rightarrow> bool \<Rightarrow> wz \<Rightarrow> ustr asked" where
  "read_password prompt terminal s =
     (case echo_off terminal s of (active, s) \<Rightarrow> drop_guard active (read_silent prompt active s))"

section \<open>The interview\<close>

record wz_env =
  we_debug :: "nat \<Rightarrow> ustr"
  we_serial :: bool
  we_hash :: "ustr \<Rightarrow> ustr option"

text \<open>\<open>impl Display for CallsignError\<close>.\<close>

definition callsign_error_text :: "wz_env \<Rightarrow> callsign_error \<Rightarrow> ustr" where
  "callsign_error_text env e =
     (case e of
        Empty \<Rightarrow> lit ''callsign is empty''
      | BaseLength n \<Rightarrow> lit ''callsign base must be 1-6 characters, got '' @ show_nat n
      | BadChar c \<Rightarrow> lit ''callsign contains an invalid character: '' @ we_debug env c
      | BadSsid \<Rightarrow> lit ''SSID must be 0-15''
      | Implausible s \<Rightarrow> lit ''callsign has no digit or is otherwise implausible: '' @ s)"

definition amateur_call :: "ustr \<Rightarrow> callsign option" where
  "amateur_call raw =
     (case callsign_from_str raw of
        Inr c \<Rightarrow> if looks_like_amateur_call c then Some c else None
      | Inl _ \<Rightarrow> None)"

definition call_complaint :: "wz_env \<Rightarrow> ustr \<Rightarrow> ustr" where
  "call_complaint env raw =
     (case callsign_from_str raw of
        Inr c \<Rightarrow> lit ''  '' @ callsign_to_string c
                  @ lit '' does not look like an amateur callsign (it needs a digit and a letter).''
      | Inl e \<Rightarrow> lit ''  '' @ callsign_error_text env e)"

definition positive :: "nat \<Rightarrow> ustr \<Rightarrow> nat option" where
  "positive bound raw =
     (case parse_unsigned bound raw of Some n \<Rightarrow> if 0 < n then Some n else None | None \<Rightarrow> None)"

definition channel_answer :: "ustr \<Rightarrow> ustr option" where
  "channel_answer raw = (if is_channel_name raw then Some raw else None)"

definition ask_tnc :: "wz_env \<Rightarrow> wz \<Rightarrow> tnc_answer asked" where
  "ask_tnc env s =
     and_then
       (ask_choice (lit ''  How is the TNC reached?'')
          (if we_serial env
           then [lit ''KISS over TCP '' @ [8212] @ lit '' Direwolf, a networked TNC (usual)'', lit ''KISS over a serial port'']
           else [lit ''KISS over TCP '' @ [8212] @ lit '' Direwolf, a networked TNC'']) 0 s) (\<lambda>choice s.
       if choice = 0
       then and_then (ask (lit ''  TNC host'') (lit ''127.0.0.1'') s) (\<lambda>host s.
            and_then (ask_until (lit ''  TNC KISS port'') (lit ''8001'') (positive 65536) (\<lambda>_. lit ''  not a TCP port'') s)
              (\<lambda>port s. give (TaTcp host port) s))
       else and_then (ask (lit ''  Serial device'') (lit ''/dev/ttyUSB0'') s) (\<lambda>path s.
            and_then (ask_until (lit ''  Serial line speed'') (lit ''9600'') (positive (2 ^ 32)) (\<lambda>_. lit ''  not a line speed'') s)
              (\<lambda>baud s. give (TaSerial path baud) s)))"

definition baud_advice :: ustr where
  "baud_advice =
     Irc_Message.join 10
      [[], lit ''  The on-air symbol rate must match what the modem actually sends.'',
       lit ''  Setting it too high makes the duty-cycle governor under-count key-down'',
       lit ''  time, which is how a QRP transmitter'' @ [39] @ lit ''s finals die. If you are unsure,'',
       lit ''  the lower number is the safe way to be wrong.'']"

definition transmitter_advice :: ustr where
  "transmitter_advice =
     Irc_Message.join 10
      [[], lit ''  Enabling the transmitter means this station keys up automatically,'',
       lit ''  under your licence, carrying other people'' @ [39] @ lit ''s traffic. You are the'',
       lit ''  control operator for everything it sends. Read the regulatory notes'',
       lit ''  first: https://mashu.github.io/rfircd/ (Regulatory).'',
       lit ''  Answering no configures everything and leaves it receive-only; you'',
       lit ''  turn it on later by setting radio.enabled = true.'']"

definition baud_label :: "nat \<times> ustr \<Rightarrow> ustr" where
  "baud_label = (\<lambda>(b, why). show_nat b @ lit '' baud '' @ [8212] @ lit '' '' @ why)"

definition ask_radio :: "wz_env \<Rightarrow> wz \<Rightarrow> radio_answers asked" where
  "ask_radio env s =
     and_then (ask_until (lit ''  Your callsign (with SSID, e.g. SK0MT-1)'') [] amateur_call (call_complaint env) s) (\<lambda>call s.
     and_then (ask_tnc env s) (\<lambda>tnc s.
     and_then (writeln baud_advice s) (\<lambda>_ s.
     and_then (ask_choice (lit ''  On-air symbol rate'') (map baud_label BAUDS) 0 s) (\<lambda>choice s.
     and_then (ask_until (lit ''  Channel bridged to RF'') (lit ''#rf'') channel_answer
                 (\<lambda>_. lit ''  a channel name starts with # or & and has no spaces'') s) (\<lambda>channel s.
     and_then (writeln transmitter_advice s) (\<lambda>_ s.
     and_then (ask_yes_no (lit ''  Enable the transmitter now?'') False s) (\<lambda>enabled s.
       give \<lparr>ra_callsign = call, ra_enabled = enabled, ra_tnc = tnc, ra_baud = fst (BAUDS ! choice), ra_channel = channel\<rparr> s)))))))"

definition tls_advice :: ustr where
  "tls_advice =
     lit ''TLS is required for anyone off this machine who will speak, IDENTIFY,'' @ [10]
     @ lit ''OPER or key the transmitter. Without it they can watch and nothing else.''"

definition ask_tls :: "wz_defaults \<Rightarrow> wz \<Rightarrow> tls_answers option asked" where
  "ask_tls d s =
     and_then (writeln tls_advice s) (\<lambda>_ s.
     and_then (ask_choice (lit ''TLS:'')
                 [lit ''generate a self-signed certificate now'', lit ''use certificate files I already have'',
                  lit ''no TLS '' @ [8212] @ lit '' loopback only''] 0 s) (\<lambda>choice s.
       if choice = 2 then give None s
       else and_then (ask (lit ''  TLS bind'') (lit ''0.0.0.0:6697'') s) (\<lambda>bind s.
         if choice = 1
         then and_then (ask (lit ''  Certificate chain (PEM)'') [] s) (\<lambda>cert s.
              and_then (ask (lit ''  Private key (PEM)'') [] s) (\<lambda>key s.
                give (Some \<lparr>ta_bind = bind, ta_cert = cert, ta_key = key\<rparr>) s))
         else give (Some \<lparr>ta_bind = bind, ta_cert = path_join (wd_conf_dir d) (lit ''tls-cert.pem''),
                         ta_key = path_join (wd_conf_dir d) (lit ''tls-key.pem'')\<rparr>) s)))"

text \<open>The loop over the operator's password. It has no case for the end of the input.\<close>

partial_function (option) ask_hash :: "wz_env \<Rightarrow> bool \<Rightarrow> wz \<Rightarrow> ustr asked" where
  "ask_hash env terminal s =
     and_then (read_password (lit ''  Operator password'') terminal s) (\<lambda>password s.
       if length password < 8
       then and_then (writeln (lit ''  at least 8 characters'') s) (\<lambda>_ s. ask_hash env terminal s)
       else and_then (read_password (lit ''  Again'') terminal s) (\<lambda>again s.
         if password \<noteq> again
         then and_then (writeln (lit ''  they did not match'') s) (\<lambda>_ s. ask_hash env terminal s)
         else and_then (writeln (lit ''  hashing (Argon2id, this takes a moment)...'') s) (\<lambda>_ s.
           case we_hash env password of Some h \<Rightarrow> give h s | None \<Rightarrow> fails WzHash s)))"

definition is_loopback_bind :: "ustr \<Rightarrow> bool" where
  "is_loopback_bind addr = (case socket_parse addr of Some ip \<Rightarrow> is_loopback ip | None \<Rightarrow> False)"

definition ask_oper :: "wz_env \<Rightarrow> tls_answers option \<Rightarrow> ustr \<Rightarrow> bool \<Rightarrow> wz \<Rightarrow> oper_answers asked" where
  "ask_oper env tls plain_bind terminal s =
     and_then (ask (lit ''  Operator name'') (lit ''root'') s) (\<lambda>name s.
     and_then (ask_hash env terminal s) (\<lambda>hash s.
     and_then (if tls = None \<and> \<not> is_loopback_bind plain_bind
               then writeln (lit ''  Note: with no TLS and a non-loopback bind, OPER is only reachable'' @ [10]
                             @ lit ''  from this machine.'') s
               else give () s) (\<lambda>_ s.
       give \<lparr>oa_name = name, oa_hash = hash\<rparr> s)))"

definition interview_banner :: ustr where
  "interview_banner =
     Irc_Message.join 10
      [lit ''rfircd setup. Enter accepts the value in brackets.'',
       lit ''Nothing is written until the end, and an existing config is never replaced.'', []]"

definition plain_advice :: ustr where
  "plain_advice =
     Irc_Message.join 10
      [[], lit ''Plaintext IRC listens on loopback. A plaintext connection from'',
       lit ''anywhere else is listen-only however you configure it '' @ [8212] @ lit '' TLS is next.'']"

definition ask_radio_side :: "wz_env \<Rightarrow> wz \<Rightarrow> radio_answers option asked" where
  "ask_radio_side env s =
     and_then (writeln [] s) (\<lambda>_ s.
     and_then (ask_yes_no (lit ''Configure the radio side?'') True s) (\<lambda>yes s.
       if yes then and_then (ask_radio env s) (\<lambda>r s. give (Some r) s)
       else and_then (writeln (lit ''  Skipping. The gateway will be an ordinary small IRC server.'') s) (\<lambda>_ s. give None s)))"

definition interview :: "wz_env \<Rightarrow> wz_defaults \<Rightarrow> wz \<Rightarrow> wz_answers asked" where
  "interview env d s =
     and_then (writeln interview_banner s) (\<lambda>_ s.
     and_then (ask (lit ''Server name, as IRC clients will see it'') (wd_server_name d) s) (\<lambda>server_name s.
     and_then (ask (lit ''Network name'') (lit ''RFIRC'') s) (\<lambda>network s.
     and_then (writeln plain_advice s) (\<lambda>_ s.
     and_then (ask (lit ''Plaintext bind'') (lit ''127.0.0.1:6667'') s) (\<lambda>plain_bind s.
     and_then (ask_radio_side env s) (\<lambda>radio s.
     and_then (writeln [] s) (\<lambda>_ s.
     and_then (ask_tls d s) (\<lambda>tls s.
     and_then (writeln [] s) (\<lambda>_ s.
     and_then (ask_yes_no (lit ''Create a control-operator account (OPER)?'') True s) (\<lambda>yes s.
     and_then (if yes then and_then (ask_oper env tls plain_bind (wd_terminal d) s) (\<lambda>o' s. give (Some o') s)
               else give None s) (\<lambda>oper s.
       give \<lparr>an_server_name = server_name, an_network = network, an_plain_bind = plain_bind, an_radio = radio,
             an_tls = tls, an_oper = oper\<rparr> s)))))))))))"

section \<open>The file\<close>

definition toml_char :: "nat \<Rightarrow> ustr" where
  "toml_char c =
     (if c = 34 then [92, 34]
      else if c = 92 then [92, 92]
      else if c = 10 then [92, 110]
      else if c = 13 then [92, 114]
      else if c = 9 then [92, 116]
      else if is_control c then [92, 117] @ hex4 (of_nat c)
      else [c])"

definition toml_str :: "ustr \<Rightarrow> ustr" where
  "toml_str s = [34] @ concat (map toml_char s) @ [34]"

text \<open>The pieces pushed: a line, a line of ASCII, a key with its value.\<close>

definition toml_text :: "ustr \<Rightarrow> ustr" where
  "toml_text t = t @ [10]"

definition toml_line :: "string \<Rightarrow> ustr" where
  "toml_line l = toml_text (lit l)"

definition toml_set :: "string \<Rightarrow> ustr \<Rightarrow> ustr" where
  "toml_set key val = toml_text (lit key @ lit '' = '' @ val)"

definition toml_list :: "ustr \<Rightarrow> ustr" where
  "toml_list v = [91] @ v @ [93]"

definition toml_quoted :: "string \<Rightarrow> ustr" where
  "toml_quoted s = [34] @ lit s @ [34]"

definition render_server :: "wz_answers \<Rightarrow> ustr" where
  "render_server a =
     toml_line ''# Written by `rfircd --init`. Every setting not named here keeps its''
     @ toml_line ''# default; the full annotated list is in rfircd.example.toml.'' @ [10]
     @ toml_line ''[server]'' @ toml_set ''name'' (toml_str (an_server_name a)) @ toml_set ''network'' (toml_str (an_network a))
     @ (case an_radio a of
          Some r \<Rightarrow> toml_set ''motd'' (toml_list (toml_str (callsign_to_string (ra_callsign r) @ lit '' packet gateway'')))
        | None \<Rightarrow> [])"

definition render_listen :: "wz_answers \<Rightarrow> ustr" where
  "render_listen a =
     [10] @ toml_line ''[listen]'' @ toml_set ''bind'' (toml_list (toml_str (an_plain_bind a)))
     @ (case an_tls a of
          Some t \<Rightarrow>
            [10] @ toml_line ''# Anyone off this machine who will speak, IDENTIFY, OPER or key the''
            @ toml_line ''# transmitter connects here. TLS protects the IP hop only: everything''
            @ toml_line ''# that reaches the antenna is in the clear, by law and by design.''
            @ toml_line ''[listen.tls]'' @ toml_set ''bind'' (toml_list (toml_str (ta_bind t)))
            @ toml_set ''cert'' (toml_str (ta_cert t)) @ toml_set ''key'' (toml_str (ta_key t))
        | None \<Rightarrow> [])"

definition render_tnc :: "tnc_answer \<Rightarrow> ustr" where
  "render_tnc t =
     (case t of
        TaTcp host port \<Rightarrow>
          toml_set ''kind'' (toml_quoted ''tcp'')
          @ toml_set ''host'' (toml_str host) @ toml_set ''port'' (show_nat port)
      | TaSerial path baud \<Rightarrow>
          toml_line ''# Needs a build with --features serial.''
          @ toml_set ''kind'' (toml_quoted ''serial'')
          @ toml_set ''device'' (toml_str path) @ toml_set ''baud'' (show_nat baud))"

definition render_radio :: "radio_answers \<Rightarrow> ustr" where
  "render_radio r =
     [10] @ toml_line ''[radio]''
     @ (if ra_enabled r then toml_set ''enabled'' (lit ''true'')
        else toml_line ''# Receive-only until you set this true. Everything else below is''
             @ toml_line ''# configured and ready; read the Regulatory notes first.''
             @ toml_set ''enabled'' (lit ''false''))
     @ toml_set ''callsign'' (toml_str (callsign_to_string (ra_callsign r)))
     @ [10] @ toml_line ''[radio.tnc]'' @ render_tnc (ra_tnc r)
     @ [10] @ toml_line ''# baud is the on-air symbol rate and must match the modem. Too high''
     @ toml_line ''# under-counts key-down time, which is what protects the finals.''
     @ toml_line ''[radio.duty]'' @ toml_set ''baud'' (show_nat (ra_baud r))
     @ [10] @ toml_line ''[[channels]]'' @ toml_set ''name'' (toml_str (ra_channel r)) @ toml_set ''rf'' (lit ''true'')"

definition render_oper :: "oper_answers \<Rightarrow> ustr" where
  "render_oper o' =
     [10] @ toml_text (lit ''# Argon2id hash '' @ [8212] @ lit '' the password itself was never written anywhere.'')
     @ toml_line ''# Replace it with `rfircd --hash-password` output to change it.''
     @ toml_line ''[[opers]]'' @ toml_set ''name'' (toml_str (oa_name o')) @ toml_set ''password'' (toml_str (oa_hash o'))"

definition render :: "wz_answers \<Rightarrow> ustr" where
  "render a =
     render_server a @ render_listen a
     @ (case an_radio a of Some r \<Rightarrow> render_radio r | None \<Rightarrow> [])
     @ ([10] @ toml_line ''[[channels]]'' @ toml_set ''name'' (toml_quoted ''#local''))
     @ (case an_oper a of Some o' \<Rightarrow> render_oper o' | None \<Rightarrow> [])"

section \<open>Files\<close>

record wz_file =
  wf_body :: ustr
  wf_private :: bool

type_synonym files = "(ustr, wz_file) table"

text \<open>What becomes of a write: it is refused before the file is touched, or stops with a part of the text written.\<close>

datatype io_outcome = IoOk | IoRefused | IoCut nat

record wz_world =
  ww_dir :: "ustr \<Rightarrow> bool"
  ww_io :: "ustr \<Rightarrow> io_outcome"
  ww_cert :: "ustr list \<Rightarrow> (ustr \<times> ustr \<times> nat list) option"

definition create_parent :: "wz_world \<Rightarrow> ustr \<Rightarrow> bool" where
  "create_parent w path = (case path_parent path of None \<Rightarrow> True | Some dir \<Rightarrow> dir = [] \<or> ww_dir w dir)"

definition file_write :: "wz_world \<Rightarrow> bool \<Rightarrow> ustr \<Rightarrow> ustr \<Rightarrow> files \<Rightarrow> bool \<times> files" where
  "file_write w private path body fs =
     (case ww_io w path of
        IoOk \<Rightarrow> (True, AList.update path \<lparr>wf_body = body, wf_private = private\<rparr> fs)
      | IoRefused \<Rightarrow> (False, fs)
      | IoCut n \<Rightarrow> (False, AList.update path \<lparr>wf_body = take n body, wf_private = private\<rparr> fs))"

definition write_private :: "wz_world \<Rightarrow> ustr \<Rightarrow> ustr \<Rightarrow> files \<Rightarrow> bool \<times> files" where
  "write_private w path body fs = (if create_parent w path then file_write w True path body fs else (False, fs))"

definition hex2 :: "nat \<Rightarrow> ustr" where
  "hex2 b = [hex_upper (b div 16), hex_upper (b mod 16)]"

definition write_self_signed :: "wz_world \<Rightarrow> ustr list \<Rightarrow> ustr \<Rightarrow> ustr \<Rightarrow> files \<Rightarrow> (wz_error + ustr) \<times> files" where
  "write_self_signed w names cert_path key_path fs =
     (case ww_cert w names of
        None \<Rightarrow> (Inl WzCertificate, fs)
      | Some (cert, key, digest) \<Rightarrow>
          if \<not> create_parent w cert_path then (Inl (WzFile cert_path), fs)
          else (case file_write w False cert_path cert fs of
                  (False, fs1) \<Rightarrow> (Inl (WzFile cert_path), fs1)
                | (True, fs1) \<Rightarrow>
                    (case write_private w key_path key fs1 of
                       (False, fs2) \<Rightarrow> (Inl (WzFile key_path), fs2)
                     | (True, fs2) \<Rightarrow> (Inr (Irc_Message.join 58 (map hex2 digest)), fs2))))"

text \<open>The certificate, only when neither file is there.\<close>

definition make_certificate :: "wz_world \<Rightarrow> wz_answers \<Rightarrow> files \<Rightarrow> (wz_error + ustr option) \<times> files" where
  "make_certificate w a fs =
     (case an_tls a of
        None \<Rightarrow> (Inr None, fs)
      | Some t \<Rightarrow>
          if map_of fs (ta_cert t) = None \<and> map_of fs (ta_key t) = None
          then (let names = an_server_name a # (if an_server_name a = lit ''localhost'' then [] else [lit ''localhost''])
                in case write_self_signed w names (ta_cert t) (ta_key t) fs of
                     (Inl e, fs1) \<Rightarrow> (Inl e, fs1)
                   | (Inr fp, fs1) \<Rightarrow> (Inr (Some fp), fs1))
          else (Inr None, fs))"

definition fingerprint_advice :: "ustr \<Rightarrow> ustr" where
  "fingerprint_advice fp =
     Irc_Message.join 10
      [[], lit ''The certificate is self-signed, so IRC clients will ask about it.'', lit ''Its SHA-256 fingerprint is:'', [],
       lit ''  '' @ fp, [], lit ''Compare that with what your client shows and accept it once. If this'',
       lit ''host has a real name, a certificate from Let'' @ [39] @ lit ''s Encrypt is better:'',
       lit ''point listen.tls.cert and .key at it and restart.'']"

definition closing_words :: "ustr \<Rightarrow> wz_answers \<Rightarrow> ustr option \<Rightarrow> ustr list" where
  "closing_words path a fingerprint =
     [[10] @ lit ''wrote '' @ path]
     @ (case (an_tls a, fingerprint) of
          (Some t, Some fp) \<Rightarrow> [lit ''wrote '' @ ta_cert t @ lit '' and '' @ ta_key t, fingerprint_advice fp]
        | _ \<Rightarrow> [])
     @ [[10] @ lit ''next:'', lit ''  rfircd --check -c '' @ path, lit ''  rfircd -c '' @ path]
     @ (case an_radio a of
          None \<Rightarrow> []
        | Some r \<Rightarrow>
            if ra_enabled r then []
            else [[10] @ lit ''The transmitter is off. When you have read the regulatory notes,'' @ [10]
                  @ lit ''set radio.enabled = true in '' @ path @ lit ''.''])"

definition write_config ::
  "wz_world \<Rightarrow> (files \<Rightarrow> config_env) \<Rightarrow> (ustr \<Rightarrow> 'e + config) \<Rightarrow> ustr \<Rightarrow> wz_answers \<Rightarrow> files \<Rightarrow> (wz_error + unit) \<times> files" where
  "write_config w cenv toml path a fs =
     (case config_from_toml toml (cenv fs) (render a) of
        Inl _ \<Rightarrow> (Inl WzInvalid, fs)
      | Inr _ \<Rightarrow>
          if \<not> create_parent w path then (Inl (WzFile path), fs)
          else (case write_private w path (render a) fs of
                  (True, fs1) \<Rightarrow> (Inr (), fs1)
                | (False, fs1) \<Rightarrow> (Inl (WzFile path), fs1)))"

definition run_with ::
  "wz_world \<Rightarrow> wz_env \<Rightarrow> (files \<Rightarrow> config_env) \<Rightarrow> (ustr \<Rightarrow> 'e + config) \<Rightarrow> ustr \<Rightarrow> wz_defaults \<Rightarrow> files \<Rightarrow> wz
     \<Rightarrow> ((wz_error + unit) \<times> wz \<times> files) option" where
  "run_with w env cenv toml path d fs s =
     (if map_of fs path \<noteq> None then Some (Inl (WzExists path), s, fs)
      else (case interview env d s of
              None \<Rightarrow> None
            | Some (Inl e, s1) \<Rightarrow> Some (Inl e, s1, fs)
            | Some (Inr a, s1) \<Rightarrow>
                (case make_certificate w a fs of
                   (Inl e, fs1) \<Rightarrow> Some (Inl e, s1, fs1)
                 | (Inr fingerprint, fs1) \<Rightarrow>
                     (case write_config w cenv toml path a fs1 of
                        (Inl e, fs2) \<Rightarrow> Some (Inl e, s1, fs2)
                      | (Inr _, fs2) \<Rightarrow>
                          map_option (\<lambda>(r, s2). (r, s2, fs2)) (write_lines (closing_words path a fingerprint) s1)))))"

text \<open>\<open>run\<close>: the same on the real terminal.\<close>

definition wizard_run ::
  "wz_world \<Rightarrow> wz_env \<Rightarrow> (files \<Rightarrow> config_env) \<Rightarrow> (ustr \<Rightarrow> 'e + config) \<Rightarrow> ustr option \<Rightarrow> bool \<Rightarrow> ustr \<Rightarrow> files \<Rightarrow> wz
     \<Rightarrow> ((wz_error + unit) \<times> wz \<times> files) option" where
  "wizard_run w env cenv toml hostname terminal path fs s =
     run_with w env cenv toml path (for_config_path hostname terminal path) fs s"

end
