(* ===== verification/Wizard_Proofs.thy ===== *)
theory Wizard_Proofs
  imports Wizard Station_Proofs "HOL-Library.Sublist"
begin

text \<open>
  What the setup interview of \<open>wizard.rs\<close> promises: it ends, except in the password loop; the transmitter is enabled only by a typed
  yes; no file that was there is touched; and what it writes reads back as the answers and is a configuration the server accepts.
\<close>

section \<open>Sequencing\<close>

lemma and_then_simps [simp]:
  "and_then None f = None" "and_then (Some (Inl e, s)) f = Some (Inl e, s)" "and_then (Some (Inr x, s)) f = f x s"
  by (simp_all add: and_then_def)

lemma and_then_None: "and_then m f = None \<longleftrightarrow> m = None \<or> (\<exists>x s. m = Some (Inr x, s) \<and> f x s = None)"
  by (cases m) (auto simp: and_then_def split: sum.splits prod.splits)

lemma and_then_Some:
  "and_then m f = Some (r, t) \<longleftrightarrow>
     (\<exists>e. m = Some (Inl e, t) \<and> r = Inl e) \<or> (\<exists>x s. m = Some (Inr x, s) \<and> f x s = Some (r, t))"
  by (cases m) (auto simp: and_then_def split: sum.splits prod.splits)

lemma and_then_gives: "and_then m f = Some (Inr y, t) \<longleftrightarrow> (\<exists>x s. m = Some (Inr x, s) \<and> f x s = Some (Inr y, t))"
  by (cases m) (auto simp: and_then_def split: sum.splits prod.splits)

lemma write_facts [simp]: "wz_write t s \<noteq> None" "writeln t s \<noteq> None" "write_lines ls s \<noteq> None" "read_line s \<noteq> None"
proof -
  show w: "wz_write t s \<noteq> None" "writeln t s \<noteq> None" for t s
    by (simp_all add: wz_write_def writeln_def Let_def)
  show "write_lines ls s \<noteq> None"
    by (induction ls arbitrary: s) (auto simp: and_then_None w)
  show "read_line s \<noteq> None"
    by (simp add: read_line_def split: list.split sum.split)
qed

lemma write_moves:
  "wz_write t s = Some (r, s') \<Longrightarrow> wz_in s' = wz_in s" "writeln t s = Some (r, s') \<Longrightarrow> wz_in s' = wz_in s"
  by (auto simp: wz_write_def writeln_def Let_def split: if_splits)

lemma write_lines_moves: "write_lines ls s = Some (r, s') \<Longrightarrow> wz_in s' = wz_in s"
proof (induction ls arbitrary: s)
  case (Cons l ls)
  then show ?case
    by (auto simp: and_then_Some dest: write_moves)
qed simp

lemma read_line_moves:
  "read_line s = Some (Inr l, s') \<Longrightarrow> (l = [] \<and> s' = s \<and> wz_in s = []) \<or> wz_in s = Inr l # wz_in s'"
  by (auto simp: read_line_def split: list.splits sum.splits)

section \<open>Questions end\<close>

lemma ask_ends: "ask prompt d s \<noteq> None"
proof (induction "length (wz_in s)" arbitrary: s rule: less_induct)
  case less
  show ?case
  proof
    assume "ask prompt d s = None"
    then obtain s1 l s2 s3 u where "writeln u s2 = Some (Inr (), s3)" "ask prompt d s3 = None" "l \<noteq> []"
      "read_line s1 = Some (Inr l, s2)" "wz_in s1 = wz_in s"
      by (auto simp: ask.simps [of prompt d s] and_then_None Let_def simp del: not_None_eq dest!: write_moves(1) split: if_splits)
    moreover from this have "length (wz_in s3) < length (wz_in s)"
      by (auto dest!: read_line_moves write_moves(2) dest: arg_cong [of _ _ length])
    ultimately show False using less by blast
  qed
qed

text \<open>An answer is the line it was typed on, trimmed, or the default.\<close>

lemma ask_gives:
  "ask prompt d s = Some (Inr a, s') \<Longrightarrow>
   a \<noteq> [] \<and> ((\<exists>pre l. wz_in s = pre @ Inr l # wz_in s' \<and> a = trim l)
     \<or> a = d \<and> (wz_in s = wz_in s' \<or> (\<exists>pre l. wz_in s = pre @ Inr l # wz_in s' \<and> trim l = [])))"
proof (induction "length (wz_in s)" arbitrary: s rule: less_induct)
  case less
  obtain s1 l s2 where one: "wz_in s1 = wz_in s" "read_line s1 = Some (Inr l, s2)"
    and rest: "(if l = [] then (if d = [] then fails (WzEnded prompt) s2 else and_then (writeln [] s2) (\<lambda>_ s. give d s))
       else (let answer = trim l
             in if answer = []
                then (if d \<noteq> [] then give d s2 else and_then (writeln (lit ''  (needed)'') s2) (\<lambda>_ s. ask prompt d s))
                else give answer s2)) = Some (Inr a, s')"
    using less.prems by (auto simp: ask.simps [of prompt d s] and_then_gives dest!: write_moves(1))
  show ?case
  proof (cases "l = [] \<or> trim l \<noteq> [] \<or> d \<noteq> []")
    case True
    then show ?thesis
      using one rest read_line_moves [OF one(2)]
      by (auto simp: and_then_gives Let_def trim_def trim_start_def trim_end_def split: if_splits dest!: write_moves)
  next
    case False
    then obtain s3 where s3: "wz_in s3 = wz_in s2" "ask prompt d s3 = Some (Inr a, s')"
      using rest by (auto simp: and_then_gives Let_def split: if_splits dest!: write_moves)
    moreover have "wz_in s = Inr l # wz_in s2" using one read_line_moves [OF one(2)] False by auto
    ultimately show ?thesis
      using less.hyps [OF _ s3(2)] False by (metis append_Cons length_Cons lessI)
  qed
qed

lemma ask_until_ends: "d = [] \<or> accept d \<noteq> None \<Longrightarrow> ask_until prompt d accept complain s \<noteq> None"
proof (induction "length (wz_in s)" arbitrary: s rule: less_induct)
  case less
  show ?case
  proof
    assume "ask_until prompt d accept complain s = None"
    then obtain raw s1 s2 where one: "ask prompt d s = Some (Inr raw, s1)" "accept raw = None" "wz_in s2 = wz_in s1"
      "ask_until prompt d accept complain s2 = None"
      by (auto simp: ask_until.simps [of prompt d accept complain s] and_then_None ask_ends simp del: not_None_eq dest!: write_moves(2) split: option.splits)
    have "length (wz_in s1) < length (wz_in s)"
      using ask_gives [OF one(1)] one(2) less.prems by auto
    then show False using less.hyps [of s2] less.prems one by simp
  qed
qed

lemma ask_until_gives:
  assumes "d = [] \<or> accept d \<noteq> None"
  shows "ask_until prompt d accept complain s = Some (Inr x, s') \<Longrightarrow>
   (\<exists>pre l. wz_in s = pre @ Inr l # wz_in s' \<and> accept (trim l) = Some x) \<or> (d \<noteq> [] \<and> accept d = Some x \<and> suffix (wz_in s') (wz_in s))"
proof (induction "length (wz_in s)" arbitrary: s rule: less_induct)
  case less
  obtain raw s1 where one: "ask prompt d s = Some (Inr raw, s1)"
    and rest: "(case accept raw of Some x \<Rightarrow> give x s1
       | None \<Rightarrow> and_then (writeln (complain raw) s1) (\<lambda>_ s. ask_until prompt d accept complain s)) = Some (Inr x, s')"
    using less.prems by (auto simp: ask_until.simps [of prompt d accept complain s] and_then_gives)
  show ?case
  proof (cases "accept raw")
    case (Some y)
    then show ?thesis using rest ask_gives [OF one] by (auto simp: suffix_def)
  next
    case None
    then obtain s2 where s2: "wz_in s2 = wz_in s1" "ask_until prompt d accept complain s2 = Some (Inr x, s')"
      using rest by (auto simp: and_then_gives dest!: write_moves)
    show ?thesis
    proof (cases "\<exists>pre l. wz_in s = pre @ Inr l # wz_in s1")
      case True
      then obtain pre l where pre: "wz_in s = pre @ Inr l # wz_in s1" by blast
      then have "length (wz_in s2) < length (wz_in s)" using s2 by simp
      then have "(\<exists>pre l. wz_in s2 = pre @ Inr l # wz_in s' \<and> accept (trim l) = Some x)
          \<or> (d \<noteq> [] \<and> accept d = Some x \<and> suffix (wz_in s') (wz_in s2))"
        using less.hyps [OF _ s2(2)] by blast
      moreover have "wz_in s = (pre @ [Inr l]) @ wz_in s2" using pre s2 by simp
      ultimately show ?thesis unfolding suffix_def by (metis append.assoc)
    next
      case False
      then have "raw = d" "d \<noteq> []" using ask_gives [OF one] by auto
      then show ?thesis using None assms by simp
    qed
  qed
qed

section \<open>The interview ends\<close>

lemma positive_default: "positive 65536 (lit ''8001'') = Some 8001" "positive 4294967296 (lit ''9600'') = Some 9600"
proof -
  have "lit ''8001'' = show_nat 8001" "lit ''9600'' = show_nat 9600"
    by (simp_all add: show_nat.simps lit_def)
  then show "positive 65536 (lit ''8001'') = Some 8001" "positive 4294967296 (lit ''9600'') = Some 9600"
    by (simp_all add: positive_def parse_show)
qed

lemma show_one [simp]: "show_nat (Suc 0) = [49]"
  by (simp add: show_nat.simps)

lemma yes_or_no_default: "yes_or_no (lit ''y'') = Some True" "yes_or_no (lit ''n'') = Some False"
  by (simp_all add: yes_or_no_def trim_def trim_start_def trim_end_def is_whitespace_def lit_def to_lower_def
      is_ascii_uppercase_def Let_def)

lemma channel_default: "channel_answer (lit ''#rf'') = Some (lit ''#rf'')"
  by code_simp

lemma in_menu_first: "0 < n \<Longrightarrow> in_menu n [49] = Some 0"
  by (simp add: in_menu_def trim_def trim_start_def trim_end_def is_whitespace_def parse_unsigned_def
      is_ascii_digit_def)

lemma ask_choice_ends: "options \<noteq> [] \<Longrightarrow> ask_choice prompt options 0 s \<noteq> None"
  by (simp add: ask_choice_def and_then_None ask_until_ends in_menu_first del: not_None_eq)

lemma ask_yes_no_ends: "ask_yes_no prompt def s \<noteq> None"
  unfolding ask_yes_no_def by (rule ask_until_ends) (simp add: yes_or_no_default del: not_None_eq)

lemmas question_ends = ask_ends ask_choice_ends ask_yes_no_ends

lemma ask_tnc_ends: "ask_tnc env s \<noteq> None"
  by (simp add: ask_tnc_def and_then_None question_ends ask_until_ends positive_default del: not_None_eq)

lemma ask_radio_ends: "ask_radio env s \<noteq> None"
  by (simp add: ask_radio_def and_then_None question_ends ask_tnc_ends ask_until_ends channel_default BAUDS_def del: not_None_eq)

lemma ask_tls_ends: "ask_tls d s \<noteq> None"
  by (simp add: ask_tls_def and_then_None question_ends del: not_None_eq)

text \<open>At the end of the input, the password loop: it reads an empty password, says that eight characters are needed, and asks again.\<close>

lemma password_ends: "read_password prompt terminal s \<noteq> None"
  by (auto simp: read_password_def drop_guard_def read_silent_def and_then_None simp del: not_None_eq split: prod.split sum.split option.split)

lemma write_open: "(\<And>t. wz_sink s t) \<Longrightarrow> \<exists>o'. wz_write t s = Some (Inr (), s\<lparr>wz_out := o'\<rparr>)"
  "(\<And>t. wz_sink s t) \<Longrightarrow> \<exists>o'. writeln t s = Some (Inr (), s\<lparr>wz_out := o'\<rparr>)"
  by (auto simp: wz_write_def writeln_def Let_def)

lemma silent_at_eof:
  assumes "wz_in s = []" "\<And>t. wz_sink s t"
  shows "\<exists>o'. read_silent prompt active s = Some (Inr [], s\<lparr>wz_out := o'\<rparr>)"
proof -
  obtain o1 where 1: "(if active then give () s
        else writeln (lit ''  (cannot turn off echo here '' @ [8212] @ lit '' this will be visible)'') s) = give () (s\<lparr>wz_out := o1\<rparr>)"
    using write_open(2) [OF assms(2)] by (cases active) (auto intro: that [of "wz_out s"])
  obtain o2 where 2: "wz_write (prompt @ lit '': '') (s\<lparr>wz_out := o1\<rparr>) = give () (s\<lparr>wz_out := o2\<rparr>)"
    using write_open(1) [of "s\<lparr>wz_out := o1\<rparr>"] assms(2) by auto
  obtain o3 where 3: "(if active then writeln [] (s\<lparr>wz_out := o2\<rparr>) else give () (s\<lparr>wz_out := o2\<rparr>)) = give () (s\<lparr>wz_out := o3\<rparr>)"
    using write_open(2) [of "s\<lparr>wz_out := o2\<rparr>"] assms(2) by (cases active) auto
  show ?thesis
    using assms(1) by (auto simp: read_silent_def 1 2 3 read_line_def trim_end_crlf_def)
qed

lemma password_at_eof:
  assumes "wz_in s = []" "\<And>t. wz_sink s t"
  shows "\<exists>s'. read_password prompt terminal s = Some (Inr [], s') \<and> wz_in s' = [] \<and> (\<forall>t. wz_sink s' t)"
proof -
  obtain active s1 where e: "echo_off terminal s = (active, s1)" "wz_in s1 = []" "\<And>t. wz_sink s1 t"
    using assms by (cases "echo_off terminal s") (auto simp: echo_off_def set_echo_def split: if_splits)
  obtain o' where "read_silent prompt active s1 = Some (Inr [], s1\<lparr>wz_out := o'\<rparr>)"
    using silent_at_eof [OF e(2,3)] by blast
  then show ?thesis
    using e by (simp add: read_password_def drop_guard_def set_echo_def) (blast intro: e(3))
qed

text \<open>So at the end of the input the loop never returns, as long as its output goes somewhere.\<close>

lemma password_loop_hangs:
  assumes "wz_in s = []" "\<forall>t. wz_sink s t"
  shows "ask_hash env terminal s = None"
proof -
  have "wz_in s = [] \<and> (\<forall>t. wz_sink s t) \<longrightarrow> False" if "ask_hash env terminal s = Some y" for y
    using that
  proof (induction env terminal s y rule: ask_hash.raw_induct [rotated 1, consumes 1, case_names step])
    case (step again env terminal s y)
    show ?case
    proof
      assume "wz_in s = [] \<and> (\<forall>t. wz_sink s t)"
      then obtain s1 where s1: "read_password (lit ''  Operator password'') terminal s = Some (Inr [], s1)" "wz_in s1 = []"
        "\<And>t. wz_sink s1 t"
        using password_at_eof by blast
      then obtain o' where "again env terminal (s1\<lparr>wz_out := o'\<rparr>) = Some y"
        using step(2) write_open(2) [of s1 "lit ''  at least 8 characters''"] by auto
      from step(1) [OF this] show False using s1 by simp
    qed
  qed
  then show ?thesis using assms by (cases "ask_hash env terminal s") auto
qed

section \<open>What the questions give\<close>

lemma ask_suffix: "ask prompt d s = Some (Inr a, s') \<Longrightarrow> suffix (wz_in s') (wz_in s)"
  using ask_gives [of prompt d s a s'] by (auto simp: suffix_def)

lemma ask_until_suffix:
  "ask_until prompt d accept complain s = Some (Inr x, s') \<Longrightarrow> d = [] \<or> accept d \<noteq> None \<Longrightarrow> suffix (wz_in s') (wz_in s)"
  using ask_until_gives [of d accept prompt complain s x s'] by (auto simp: suffix_def)

lemma ask_until_accepts:
  "ask_until prompt d accept complain s = Some (Inr x, s') \<Longrightarrow> d = [] \<or> accept d \<noteq> None \<Longrightarrow> \<exists>raw. accept raw = Some x"
  using ask_until_gives [of d accept prompt complain s x s'] by auto

lemma ask_choice_gives:
  assumes "ask_choice prompt options 0 s = Some (Inr k, s')" "options \<noteq> []"
  shows "k < length options" "suffix (wz_in s') (wz_in s)"
proof -
  obtain s1 where s1: "wz_in s1 = wz_in s"
    "ask_until (lit ''  choice'') [49] (in_menu (length options))
       (\<lambda>_. lit ''  enter a number between 1 and '' @ show_nat (length options)) s1 = Some (Inr k, s')"
    using assms(1) by (auto simp: ask_choice_def and_then_gives simp del: write_lines.simps dest!: write_lines_moves)
  have d: "[49] = [] \<or> in_menu (length options) [49] \<noteq> None"
    using assms(2) by (simp add: in_menu_first)
  obtain raw where "in_menu (length options) raw = Some k"
    using ask_until_accepts [OF s1(2) d] by blast
  then show "k < length options" by (auto simp: in_menu_def split: option.splits if_splits)
  show "suffix (wz_in s') (wz_in s)"
    using ask_until_suffix [OF s1(2) d] s1(1) by simp
qed

text \<open>What the reader of the answer has in front of him: the question, after as many questions and complaints as were answered badly.\<close>

lemma ask_shown:
  assumes "ask prompt d s = Some (Inr a, s')" "d \<noteq> []" "a \<noteq> d"
  shows "\<exists>l. wz_in s = Inr l # wz_in s' \<and> a = trim l \<and> wz_out s' = wz_out s @ prompt @ lit '' ['' @ d @ lit '']: ''"
  using assms
  by (auto simp: ask.simps [of prompt d s] and_then_gives read_line_def wz_write_def writeln_def Let_def
      split: if_splits list.splits sum.splits)

lemma until_shown:
  assumes "d \<noteq> []" "accept d \<noteq> None" "accept d \<noteq> Some x"
  shows "ask_until prompt d accept (\<lambda>_. c) s = Some (Inr x, s') \<Longrightarrow>
    \<exists>k pre l. wz_in s = pre @ Inr l # wz_in s' \<and> accept (trim l) = Some x \<and>
      wz_out s' = wz_out s @ concat (replicate k (prompt @ lit '' ['' @ d @ lit '']: '' @ c @ [10])) @ prompt @ lit '' ['' @ d @ lit '']: ''"
proof (induction "length (wz_in s)" arbitrary: s rule: less_induct)
  case less
  let ?q = "prompt @ lit '' ['' @ d @ lit '']: ''"
  obtain raw s1 where one: "ask prompt d s = Some (Inr raw, s1)"
    and rest: "(case accept raw of Some x \<Rightarrow> give x s1
       | None \<Rightarrow> and_then (writeln c s1) (\<lambda>_ s. ask_until prompt d accept (\<lambda>_. c) s)) = Some (Inr x, s')"
    using less.prems by (auto simp: ask_until.simps [of prompt d accept _ s] and_then_gives)
  have "raw \<noteq> d" using rest assms by (auto split: option.splits)
  then obtain l where l: "wz_in s = Inr l # wz_in s1" "raw = trim l" "wz_out s1 = wz_out s @ ?q"
    using ask_shown [OF one assms(1)] by blast
  show ?case
  proof (cases "accept raw")
    case (Some y)
    then show ?thesis using rest l by (intro exI [of _ 0] exI [of _ "[]"] exI [of _ l]) auto
  next
    case None
    then obtain s2 where s2: "writeln c s1 = Some (Inr (), s2)" "ask_until prompt d accept (\<lambda>_. c) s2 = Some (Inr x, s')"
      using rest by (auto simp: and_then_gives)
    then have moved: "wz_in s2 = wz_in s1" "wz_out s2 = wz_out s1 @ c @ [10]"
      by (auto simp: writeln_def wz_write_def Let_def split: if_splits)
    then obtain k pre m where "wz_in s2 = pre @ Inr m # wz_in s'" "accept (trim m) = Some x"
      "wz_out s' = wz_out s2 @ concat (replicate k (prompt @ lit '' ['' @ d @ lit '']: '' @ c @ [10])) @ ?q"
      using less.hyps [OF _ s2(2)] l(1) by auto
    then show ?thesis
      using l moved by (intro exI [of _ "Suc k"] exI [of _ "Inr l # pre"] exI [of _ m]) simp
  qed
qed

lemma ask_yes_no_gives:
  assumes "ask_yes_no prompt False s = Some (Inr True, s')"
  shows "\<exists>k pre l. wz_in s = pre @ Inr l # wz_in s' \<and> yes_or_no l = Some True \<and>
    wz_out s' = wz_out s @ concat (replicate k (prompt @ lit '' (y/N) [n]: '' @ lit ''  please answer y or n'' @ [10])) @ prompt @ lit '' (y/N) [n]: ''"
proof -
  have "yes_or_no (trim l) = yes_or_no l" for l by (simp add: yes_or_no_def)
  moreover have "lit '' ('' @ lit ''y/N'' @ lit '')'' @ lit '' ['' @ lit ''n'' @ lit '']: '' @ c = lit '' (y/N) [n]: '' @ c" for c
    by (simp add: lit_def)
  note q = this this [of "[]", unfolded append_Nil2]
  have "lit ''n'' \<noteq> []" by (simp add: lit_def)
  ultimately show ?thesis
    using until_shown [OF _ _ _ assms [unfolded ask_yes_no_def, simplified]]
    by (simp add: yes_or_no_default q)
qed

lemma ask_tnc_suffix: "ask_tnc env s = Some (Inr t, s') \<Longrightarrow> suffix (wz_in s') (wz_in s)"
  by (auto simp: ask_tnc_def and_then_gives positive_default split: if_splits
      dest!: ask_choice_gives(2) ask_suffix ask_until_suffix intro: suffix_order.order_trans)

lemma amateur_call_Some: "amateur_call raw = Some c \<Longrightarrow> callsign_from_str raw = Inr c \<and> looks_like_amateur_call c"
  by (auto simp: amateur_call_def split: sum.splits if_splits)

lemma channel_answer_Some: "channel_answer raw = Some ch \<Longrightarrow> raw = ch \<and> is_channel_name ch"
  by (auto simp: channel_answer_def split: if_splits)

section \<open>The transmitter\<close>

lemma writeln_shows: "writeln t s = Some (Inr u, s') \<Longrightarrow> wz_in s' = wz_in s \<and> wz_out s' = wz_out s @ t @ [10]"
  by (auto simp: writeln_def wz_write_def Let_def split: if_splits)

lemma advice_phrases:
  "sublist (lit ''Enabling the transmitter means this station keys up automatically'') transmitter_advice"
  "sublist (lit ''Answering no configures everything and leaves it receive-only'') transmitter_advice"
  by code_simp+

text \<open>The questions about the radio, in order.\<close>

lemma ask_radio_steps:
  assumes "ask_radio env s = Some (Inr r, s')"
  obtains c t k ch s1 s2 s3 s4 s5 w where
    "ask_until (lit ''  Your callsign (with SSID, e.g. SK0MT-1)'') [] amateur_call (call_complaint env) s = Some (Inr c, s1)"
    "ask_tnc env s1 = Some (Inr t, s2)" "wz_in s3 = wz_in s2"
    "ask_choice (lit ''  On-air symbol rate'') (map baud_label BAUDS) 0 s3 = Some (Inr k, s4)"
    "ask_until (lit ''  Channel bridged to RF'') (lit ''#rf'') channel_answer
       (\<lambda>_. lit ''  a channel name starts with # or & and has no spaces'') s4 = Some (Inr ch, s5)"
    "wz_in w = wz_in s5" "wz_out w = wz_out s5 @ transmitter_advice @ [10]"
    "ask_yes_no (lit ''  Enable the transmitter now?'') False w = Some (Inr (ra_enabled r), s')"
    "ra_callsign r = c" "ra_baud r = fst (BAUDS ! k)" "ra_channel r = ch"
  using assms unfolding ask_radio_def and_then_gives by (auto dest!: writeln_shows)

lemma ask_radio_gives:
  assumes "ask_radio env s = Some (Inr r, s')"
  shows "ra_enabled r \<Longrightarrow> \<exists>(w :: wz) k pre l. suffix (wz_in w) (wz_in s) \<and> suffix (transmitter_advice @ [10]) (wz_out w) \<and>
      wz_in w = pre @ Inr l # wz_in s' \<and> yes_or_no l = Some True \<and>
      wz_out s' = wz_out w
        @ concat (replicate k (lit ''  Enable the transmitter now? (y/N) [n]: '' @ lit ''  please answer y or n'' @ [10]))
        @ lit ''  Enable the transmitter now? (y/N) [n]: ''"
    "\<exists>raw. callsign_from_str raw = Inr (ra_callsign r)" "looks_like_amateur_call (ra_callsign r)"
    "ra_baud r \<in> {300, 1200, 9600}" "is_channel_name (ra_channel r)"
proof -
  obtain c t k ch s1 s2 s3 s4 s5 w where p:
    "ask_until (lit ''  Your callsign (with SSID, e.g. SK0MT-1)'') [] amateur_call (call_complaint env) s = Some (Inr c, s1)"
    "ask_tnc env s1 = Some (Inr t, s2)" "wz_in s3 = wz_in s2"
    "ask_choice (lit ''  On-air symbol rate'') (map baud_label BAUDS) 0 s3 = Some (Inr k, s4)"
    "ask_until (lit ''  Channel bridged to RF'') (lit ''#rf'') channel_answer
       (\<lambda>_. lit ''  a channel name starts with # or & and has no spaces'') s4 = Some (Inr ch, s5)"
    "wz_in w = wz_in s5" "wz_out w = wz_out s5 @ transmitter_advice @ [10]"
    "ask_yes_no (lit ''  Enable the transmitter now?'') False w = Some (Inr (ra_enabled r), s')"
    "ra_callsign r = c" "ra_baud r = fst (BAUDS ! k)" "ra_channel r = ch"
    by (rule ask_radio_steps [OF assms])
  have "k < 3" using ask_choice_gives(1) [OF p(4)] by (simp add: BAUDS_def)
  then show "ra_baud r \<in> {300, 1200, 9600}"
    by (auto simp: p(10) BAUDS_def less_Suc_eq numeral_3_eq_3 numeral_2_eq_2)
  show "\<exists>raw. callsign_from_str raw = Inr (ra_callsign r)" "looks_like_amateur_call (ra_callsign r)" "is_channel_name (ra_channel r)"
    using ask_until_accepts [OF p(1)] ask_until_accepts [OF p(5)]
    by (auto simp: p(9,11) channel_default dest: amateur_call_Some channel_answer_Some)
  have suf: "suffix (wz_in w) (wz_in s)"
    using ask_until_suffix [OF p(1)] ask_tnc_suffix [OF p(2)] ask_choice_gives(2) [OF p(4)] ask_until_suffix [OF p(5)] p(3,6)
    by (auto simp: BAUDS_def channel_default intro: suffix_order.order_trans)
  have "lit ''  Enable the transmitter now?'' @ lit '' (y/N) [n]: '' @ c = lit ''  Enable the transmitter now? (y/N) [n]: '' @ c" for c
    by (simp add: lit_def)
  note q = this this [of "[]", unfolded append_Nil2]
  show "\<exists>(w :: wz) k pre l. suffix (wz_in w) (wz_in s) \<and> suffix (transmitter_advice @ [10]) (wz_out w) \<and>
      wz_in w = pre @ Inr l # wz_in s' \<and> yes_or_no l = Some True \<and>
      wz_out s' = wz_out w
        @ concat (replicate k (lit ''  Enable the transmitter now? (y/N) [n]: '' @ lit ''  please answer y or n'' @ [10]))
        @ lit ''  Enable the transmitter now? (y/N) [n]: ''" if en: "ra_enabled r"
  proof -
    have y: "ask_yes_no (lit ''  Enable the transmitter now?'') False w = Some (Inr True, s')"
      using p(8) en by simp
    have "suffix (transmitter_advice @ [10]) (wz_out w)"
      using p(7) by (simp add: suffix_def)
    with ask_yes_no_gives [OF y, unfolded q] suf show ?thesis
      by blast
  qed
qed

text \<open>C37: The setup enables the transmitter only on a typed yes, given to the question, after the warning. When the questions about the radio end with the
  transmitter enabled, there was a moment when the whole warning about automatic keying stood at the end of the output; after it only the question
  \<open>Enable the transmitter now?\<close> was put, once or again after an answer that was neither yes nor no; and the last line read, read after the
  warning, says yes in those letters: an empty line, the end of the input and everything else leave the station receive-only. The questions
  always end, and they end with a plausible callsign, one of the packet symbol rates, and a well-formed channel name (which \<open>#local\<close>, refused
  when the configuration is checked, is as well).\<close>

theorem transmitter_needs_a_yes:
  "case ask_radio env s of
     None \<Rightarrow> False
   | Some (Inl _, _) \<Rightarrow> True
   | Some (Inr r, s') \<Rightarrow>
       (if ra_enabled r
        then \<exists>(w :: wz) k pre l. suffix (wz_in w) (wz_in s) \<and>
          suffix (transmitter_advice @ [10]) (wz_out w) \<and>
          sublist (lit ''Enabling the transmitter means this station keys up automatically'') (wz_out w) \<and>
          sublist (lit ''Answering no configures everything and leaves it receive-only'') (wz_out w) \<and>
          wz_in w = pre @ Inr l # wz_in s' \<and> yes_or_no l = Some True \<and>
          wz_out s' = wz_out w
            @ concat (replicate k (lit ''  Enable the transmitter now? (y/N) [n]: '' @ lit ''  please answer y or n'' @ [10]))
            @ lit ''  Enable the transmitter now? (y/N) [n]: ''
        else True) \<and>
       looks_like_amateur_call (ra_callsign r) \<and> ra_baud r \<in> set STANDARD_PACKET_BAUDS \<and> is_channel_name (ra_channel r)"
proof (cases "\<exists>r s'. ask_radio env s = Some (Inr r, s')")
  case True
  then obtain r s' where r: "ask_radio env s = Some (Inr r, s')" by blast
  have "sublist x o'" if "sublist x transmitter_advice" "suffix (transmitter_advice @ [10]) o'" for x o'
    using that by (meson sublist_appendI sublist_order.order_trans suffix_imp_sublist prefix_imp_sublist prefixI)
  then show ?thesis
    using ask_radio_gives [OF r] advice_phrases by (simp add: r STANDARD_PACKET_BAUDS_def) blast
next
  case False
  then obtain e s' where "ask_radio env s = Some (Inl e, s')"
    using ask_radio_ends [of env s] by (metis not_None_eq old.sum.exhaust surj_pair)
  then show ?thesis by simp
qed

section \<open>Files\<close>

lemma file_write_le:
  "map_of fs0 path = None \<Longrightarrow> map_of fs0 \<subseteq>\<^sub>m map_of fs \<Longrightarrow> file_write w private path body fs = (ok, fs') \<Longrightarrow>
   map_of fs0 \<subseteq>\<^sub>m map_of fs'"
  by (auto simp: file_write_def map_le_def dom_def split: io_outcome.splits)

lemma write_private_le:
  "map_of fs0 path = None \<Longrightarrow> map_of fs0 \<subseteq>\<^sub>m map_of fs \<Longrightarrow> write_private w path body fs = (ok, fs') \<Longrightarrow>
   map_of fs0 \<subseteq>\<^sub>m map_of fs'"
  by (auto simp: write_private_def intro: file_write_le split: if_splits)

lemma write_self_signed_le:
  assumes "map_of fs cert = None" "map_of fs key = None" "write_self_signed w names cert key fs = (r, fs')"
  shows "map_of fs \<subseteq>\<^sub>m map_of fs'"
proof -
  note le = file_write_le [OF assms(1) map_le_refl] write_private_le [OF assms(2)]
  show ?thesis
    using assms(3) by (auto simp: write_self_signed_def split: option.splits prod.splits if_splits bool.splits dest: le(1) intro: le)
qed

lemma make_certificate_le: "make_certificate w a fs = (r, fs') \<Longrightarrow> map_of fs \<subseteq>\<^sub>m map_of fs'"
  by (auto simp: make_certificate_def Let_def intro: write_self_signed_le split: option.splits prod.splits sum.splits if_splits)

lemma write_config_le:
  "map_of fs0 path = None \<Longrightarrow> map_of fs0 \<subseteq>\<^sub>m map_of fs \<Longrightarrow> write_config w cenv toml path a fs = (r, fs') \<Longrightarrow>
   map_of fs0 \<subseteq>\<^sub>m map_of fs'"
  by (auto simp: write_config_def intro: write_private_le split: sum.splits prod.splits if_splits bool.splits)

lemma write_config_done:
  "write_config w cenv toml path a fs = (Inr u, fs') \<Longrightarrow>
   map_of fs' path = Some \<lparr>wf_body = render a, wf_private = True\<rparr> \<and> (\<exists>cf. config_from_toml toml (cenv fs) (render a) = Inr cf)"
  by (auto simp: write_config_def write_private_def file_write_def split: sum.splits prod.splits if_splits bool.splits io_outcome.splits)

text \<open>C38: The setup never overwrites, and writes only what the server will accept. Whatever happens, every file that was there is there
  still, unchanged; when the configuration file exists already, or the interview does not come to its end, no file is written at all; and
  when the setup reports success the configuration file, new and private, holds the rendering of the answers, which the server's own
  reading and validation accepted with the certificate files as they are on disk.\<close>

theorem setup_never_overwrites:
  "case run_with w env cenv toml path d fs s of
     None \<Rightarrow> True
   | Some (r, s', fs') \<Rightarrow>
       map_of fs \<subseteq>\<^sub>m map_of fs' \<and>
       (case (map_of fs path, interview env d s) of
          (None, Some (Inr a, _)) \<Rightarrow>
            (case r of
               Inl _ \<Rightarrow> True
             | Inr _ \<Rightarrow>
                 map_of fs' path = Some \<lparr>wf_body = render a, wf_private = True\<rparr> \<and>
                 (case config_from_toml toml (cenv (snd (make_certificate w a fs))) (render a) of Inl _ \<Rightarrow> False | Inr _ \<Rightarrow> True))
        | _ \<Rightarrow> fs' = fs)"
  by (auto simp: run_with_def map_le_refl split: option.splits sum.splits prod.splits
      dest: make_certificate_le write_config_le write_config_done)

end
