(* ===== verification/Wizard_File.thy ===== *)
theory Wizard_File
  imports Wizard_Proofs
begin

text \<open>
  The file the setup of \<open>wizard.rs\<close> writes: a reader of TOML gets the answers back from it, and the configuration they make is one
  that \<open>validate\<close> accepts, whatever was typed, but for one name of the bridged channel.
\<close>

section \<open>Reading TOML\<close>

text \<open>A reader for the part of TOML the setup writes, to the letter of the specification: comments, tables, arrays of tables, and keys
  whose value is a basic string, an array of one, a boolean or an integer. A basic string may hold no control character but a tab.\<close>

datatype toml_value = TvString ustr | TvStrings "ustr list" | TvBool bool | TvInt nat

datatype toml_item = TiTable ustr | TiArray ustr | TiSet ustr toml_value

definition toml_escape :: "nat \<Rightarrow> nat option" where
  "toml_escape c =
     map_of [(98, 8), (116, 9), (110, 10), (102, 12), (114, 13), (34, 34), (92, 92)] c"

function toml_chars :: "ustr \<Rightarrow> (ustr \<times> ustr) option" where
  "toml_chars s =
     (case s of
        [] \<Rightarrow> None
      | c # cs \<Rightarrow>
          if c = 34 then Some ([], cs)
          else if c = 92
          then (case cs of
                  [] \<Rightarrow> None
                | e # es \<Rightarrow>
                    if e = 117
                    then (case (if length es < 4 then None else hex_val 0 (take 4 es)) of
                            None \<Rightarrow> None
                          | Some n \<Rightarrow> map_option (\<lambda>(t, rest). (n # t, rest)) (toml_chars (drop 4 es)))
                    else (case toml_escape e of
                            None \<Rightarrow> None
                          | Some n \<Rightarrow> map_option (\<lambda>(t, rest). (n # t, rest)) (toml_chars es)))
          else if (c < 32 \<and> c \<noteq> 9) \<or> c = 127 then None
          else map_option (\<lambda>(t, rest). (c # t, rest)) (toml_chars cs))"
  by pat_completeness auto
termination by (relation "measure length") auto

declare toml_chars.simps [simp del]

definition toml_value_of :: "ustr \<Rightarrow> toml_value option" where
  "toml_value_of v =
     (if v = lit ''true'' then Some (TvBool True)
      else if v = lit ''false'' then Some (TvBool False)
      else (case v of
              [] \<Rightarrow> None
            | c # cs \<Rightarrow>
                if c = 34
                then (case toml_chars cs of Some (t, []) \<Rightarrow> Some (TvString t) | _ \<Rightarrow> None)
                else if c = 91 \<and> take 1 cs = [34]
                then (case toml_chars (drop 1 cs) of
                        Some (t, rest) \<Rightarrow> if rest = [93] then Some (TvStrings [t]) else None
                      | None \<Rightarrow> None)
                else map_option TvInt (digits_val 0 v)))"

definition toml_line_of :: "ustr \<Rightarrow> toml_item list option" where
  "toml_line_of l =
     (if l = [] \<or> hd l = 35 then Some []
      else if take 2 l = [91, 91] then Some [TiArray (take (length l - 4) (drop 2 l))]
      else if hd l = 91 then Some [TiTable (butlast (tl l))]
      else (case split_once 61 l of
              None \<Rightarrow> None
            | Some (k, v) \<Rightarrow> map_option (\<lambda>x. [TiSet (trim k) x]) (toml_value_of (trim v))))"

fun toml_lines_of :: "ustr list \<Rightarrow> toml_item list option" where
  "toml_lines_of [] = Some []"
| "toml_lines_of (l # ls) =
     (case (toml_line_of l, toml_lines_of ls) of (Some a, Some b) \<Rightarrow> Some (a @ b) | _ \<Rightarrow> None)"

definition toml_read :: "ustr \<Rightarrow> toml_item list option" where
  "toml_read s = toml_lines_of (split_on 10 s)"

lemma hex4_val: "c < 65536 \<Longrightarrow> length (hex4 (of_nat c)) = 4 \<and> hex_val 0 (hex4 (of_nat c)) = Some c"
  using hex4_read [of "of_nat c"]
  by (simp add: parse_hex_u16_def Let_def hex4_def hex_upper_read(2) unat_of_nat split: option.splits if_splits)

lemma toml_char_read: "toml_chars (toml_char c @ rest) = map_option (\<lambda>(t, r). (c # t, r)) (toml_chars rest)"
proof -
  have h: "length (hex4 (of_nat c)) = 4" "hex_val 0 (hex4 (of_nat c)) = Some c" if "is_control c"
    using hex4_val [of c] that by (auto simp: is_control_def)
  show ?thesis
    using h by (subst toml_chars.simps) (auto simp: toml_char_def toml_escape_def is_control_def)
qed

lemma toml_str_read: "toml_chars (concat (map toml_char s) @ [34] @ rest) = Some (s, rest)"
  by (induction s) (simp_all add: toml_char_read, simp add: toml_chars.simps)

section \<open>Lines of the file\<close>

lemma toml_char_plain: "10 \<notin> set (toml_char c)"
  by (auto simp: toml_char_def hex4_def hex_upper_def is_control_def)

lemma toml_str_facts:
  "10 \<notin> set (toml_str v)" "trim (toml_str v) = toml_str v" "toml_str v \<noteq> []" "hd (toml_str v) = 34"
  "10 \<notin> set (toml_list (toml_str v))" "trim (toml_list (toml_str v)) = toml_list (toml_str v)"
  using toml_char_plain by (auto simp: toml_str_def toml_list_def is_whitespace_def intro!: trim_noop)

lemma toml_value_str: "toml_value_of (toml_str v) = Some (TvString v)"
  using toml_str_read [of v "[]"] by (simp add: toml_value_of_def toml_str_def lit_def)

interpretation toml_string: codec toml_str "\<lambda>v. case toml_value_of v of Some (TvString t) \<Rightarrow> Some t | _ \<Rightarrow> None" "\<lambda>_. True"
  by unfold_locales (simp add: toml_value_str)

lemma toml_value_list: "toml_value_of (toml_list (toml_str v)) = Some (TvStrings [v])"
  using toml_str_read [of v "[93]"] by (simp add: toml_value_of_def toml_str_def toml_list_def lit_def)

lemma toml_read_gap [simp]: "toml_read (10 # rest) = toml_read rest"
  by (simp add: toml_read_def toml_line_of_def split: option.splits)

lemma toml_read_nil [simp]: "toml_read [] = Some []"
  by (simp add: toml_read_def toml_line_of_def)

lemma toml_read_text:
  "10 \<notin> set t \<Longrightarrow> toml_read (toml_text t @ rest) =
     (case toml_line_of t of None \<Rightarrow> None | Some a \<Rightarrow> map_option ((@) a) (toml_read rest))"
  by (auto simp: toml_read_def toml_text_def split_on_append split: option.splits)

lemma lit_no_newline: "CHR 0x0A \<notin> set l \<Longrightarrow> 10 \<notin> set (lit l)"
proof
  assume a: "CHR 0x0A \<notin> set l" "10 \<in> set (lit l)"
  then obtain c where "c \<in> set l" "of_char c = (10 :: nat)" by (auto simp: lit_def)
  moreover have "of_char (CHR 0x0A) = (10 :: nat)" by simp
  ultimately show False using a by (metis of_char_eq_iff)
qed

lemma toml_read_comment:
  "l = CHR ''#'' # t \<Longrightarrow> CHR 0x0A \<notin> set t \<Longrightarrow> toml_read (toml_line l @ rest) = toml_read rest"
  using lit_no_newline [of l]
  by (cases "toml_read rest") (simp_all add: toml_line_def toml_read_text toml_line_of_def lit_def)

definition plain_key :: "string \<Rightarrow> bool" where
  "plain_key k \<longleftrightarrow> k \<noteq> [] \<and> list_all is_ascii_lowercase (lit k)"

lemma toml_read_set:
  assumes "plain_key k" "10 \<notin> set val" "trim val = val" "val \<noteq> []" "toml_value_of val = Some x"
  shows "toml_read (toml_set k val @ rest) = map_option (Cons (TiSet (lit k) x)) (toml_read rest)"
proof -
  let ?k = "lit k"
  have low: "\<forall>c \<in> set ?k. is_ascii_lowercase c" and ne: "?k \<noteq> []"
    using assms(1) by (auto simp: plain_key_def list_all_iff lit_def)
  then have cs: "61 \<notin> set ?k" "10 \<notin> set ?k" "hd ?k \<noteq> 35" "hd ?k \<noteq> 91" "\<forall>c \<in> set ?k. \<not> is_whitespace c"
    by (cases ?k; auto simp: is_ascii_lowercase_def is_whitespace_def)+
  have eq: "lit '' = '' = [32, 61, 32]" by (simp add: lit_def)
  have k: "trim (?k @ [32]) = ?k"
    using cs(5) ne trim_all_plain [of ?k] by (simp add: trim_def trim_start_def trim_end_def is_whitespace_def dropWhile_append ex_in_conv)
  have v: "trim (32 # val) = val"
    using assms(3) by (simp add: trim_def trim_start_def is_whitespace_def)
  have "split_once 61 (?k @ lit '' = '' @ val) = Some (?k @ [32], 32 # val)"
    using split_once_append [of 61 "?k @ [32]" "32 # val"] cs(1) by (simp add: eq)
  moreover have "take 2 (?k @ lit '' = '' @ val) \<noteq> [91, 91]" "hd (?k @ lit '' = '' @ val) = hd ?k"
    using ne cs(4) by (cases ?k; auto simp: eq)+
  ultimately have "toml_line_of (?k @ lit '' = '' @ val) = Some [TiSet ?k x]"
    using ne cs k v assms(5) by (simp add: toml_line_of_def)
  moreover have "10 \<notin> set (?k @ lit '' = '' @ val)"
    using cs(2) assms(2) by (simp add: eq)
  ultimately show ?thesis by (cases "toml_read rest") (simp_all add: toml_set_def toml_read_text)
qed

lemma plain_keys:
  "plain_key ''name''" "plain_key ''network''" "plain_key ''motd''" "plain_key ''bind''" "plain_key ''cert''" "plain_key ''key''"
  "plain_key ''enabled''" "plain_key ''callsign''" "plain_key ''kind''" "plain_key ''host''" "plain_key ''port''"
  "plain_key ''device''" "plain_key ''baud''" "plain_key ''rf''" "plain_key ''password''"
  by (simp_all add: plain_key_def lit_def is_ascii_lowercase_def)

lemma toml_quoted_str: "\<not> list_ex (\<lambda>c. is_control c \<or> c = 34 \<or> c = 92) (lit s) \<Longrightarrow> toml_quoted s = toml_str (lit s)"
proof -
  have "\<not> list_ex (\<lambda>c. is_control c \<or> c = 34 \<or> c = 92) t \<Longrightarrow> concat (map toml_char t) = t" for t
    by (induction t) (auto simp: toml_char_def is_control_def)
  then show "\<not> list_ex (\<lambda>c. is_control c \<or> c = 34 \<or> c = 92) (lit s) \<Longrightarrow> toml_quoted s = toml_str (lit s)"
    by (simp add: toml_quoted_def toml_str_def)
qed

lemma toml_quoted_words [simp]:
  "toml_quoted ''tcp'' = toml_str (lit ''tcp'')" "toml_quoted ''serial'' = toml_str (lit ''serial'')"
  "toml_quoted ''#local'' = toml_str (lit ''#local'')"
  by (rule toml_quoted_str; simp add: lit_def is_control_def)+

lemma toml_read_set_str: "plain_key k \<Longrightarrow>
    toml_read (toml_set k (toml_str v) @ rest) = map_option (Cons (TiSet (lit k) (TvString v))) (toml_read rest)"
  by (rule toml_read_set) (simp_all add: toml_str_facts toml_value_str)

lemma toml_read_last: "plain_key k \<Longrightarrow> toml_read (toml_set k (toml_str v)) = Some [TiSet (lit k) (TvString v)]"
  using toml_read_set_str [of k v "[]"] by simp

lemma toml_read_set_list: "plain_key k \<Longrightarrow>
    toml_read (toml_set k (toml_list (toml_str v)) @ rest) = map_option (Cons (TiSet (lit k) (TvStrings [v]))) (toml_read rest)"
  by (rule toml_read_set) (simp_all add: toml_str_facts toml_value_list, simp add: toml_list_def)

lemma toml_read_set_bool: "plain_key k \<Longrightarrow>
    toml_read (toml_set k (lit ''true'') @ rest) = map_option (Cons (TiSet (lit k) (TvBool True))) (toml_read rest)"
  "plain_key k \<Longrightarrow>
    toml_read (toml_set k (lit ''false'') @ rest) = map_option (Cons (TiSet (lit k) (TvBool False))) (toml_read rest)"
  by (rule toml_read_set; simp add: lit_def trim_def trim_start_def trim_end_def is_whitespace_def toml_value_of_def)+

lemma toml_read_set_nat: "plain_key k \<Longrightarrow>
    toml_read (toml_set k (show_nat n) @ rest) = map_option (Cons (TiSet (lit k) (TvInt n))) (toml_read rest)"
proof (rule toml_read_set)
  have digits: "\<And>c. c \<in> set (show_nat n) \<Longrightarrow> 48 \<le> c \<and> c \<le> 57"
    using show_nat_digits by (simp add: is_ascii_digit_def)
  then show "10 \<notin> set (show_nat n)" by fastforce
  show "trim (show_nat n) = show_nat n"
    using digits by (intro trim_all_plain) (fastforce simp: is_whitespace_def)
  obtain c cs where s: "show_nat n = c # cs" by (cases "show_nat n") simp_all
  then have "c \<noteq> 34" "c \<noteq> 91" "c \<noteq> 116" "c \<noteq> 102" using digits [of c] by auto
  then show "toml_value_of (show_nat n) = Some (TvInt n)"
    using digits_val_show [of n] s by (auto simp: toml_value_of_def lit_def)
qed simp_all

lemma toml_tables:
  "toml_read (toml_line ''[server]'' @ rest) = map_option (Cons (TiTable (lit ''server''))) (toml_read rest)"
  "toml_read (toml_line ''[listen]'' @ rest) = map_option (Cons (TiTable (lit ''listen''))) (toml_read rest)"
  "toml_read (toml_line ''[listen.tls]'' @ rest) = map_option (Cons (TiTable (lit ''listen.tls''))) (toml_read rest)"
  "toml_read (toml_line ''[radio]'' @ rest) = map_option (Cons (TiTable (lit ''radio''))) (toml_read rest)"
  "toml_read (toml_line ''[radio.tnc]'' @ rest) = map_option (Cons (TiTable (lit ''radio.tnc''))) (toml_read rest)"
  "toml_read (toml_line ''[radio.duty]'' @ rest) = map_option (Cons (TiTable (lit ''radio.duty''))) (toml_read rest)"
  "toml_read (toml_line ''[[channels]]'' @ rest) = map_option (Cons (TiArray (lit ''channels''))) (toml_read rest)"
  "toml_read (toml_line ''[[opers]]'' @ rest) = map_option (Cons (TiArray (lit ''opers''))) (toml_read rest)"
  by (cases "toml_read rest"; simp add: toml_line_def toml_read_text toml_line_of_def lit_def)+

lemma toml_dash_comment:
  "toml_read (toml_text (lit ''# Argon2id hash '' @ 8212 # lit '' the password itself was never written anywhere.'') @ rest)
   = toml_read rest"
  by (cases "toml_read rest"; simp add: toml_read_text toml_line_of_def lit_def)

lemmas toml_line_reads = toml_tables toml_dash_comment toml_read_comment
  toml_read_set_str toml_read_last toml_read_set_list toml_read_set_bool toml_read_set_nat plain_keys

section \<open>The file as a document\<close>

definition doc_str :: "string \<Rightarrow> ustr \<Rightarrow> toml_item" where
  "doc_str k v = TiSet (lit k) (TvString v)"

definition doc_radio :: "radio_answers \<Rightarrow> toml_item list" where
  "doc_radio r =
     [TiTable (lit ''radio''), TiSet (lit ''enabled'') (TvBool (ra_enabled r)),
      doc_str ''callsign'' (callsign_to_string (ra_callsign r)), TiTable (lit ''radio.tnc'')]
     @ (case ra_tnc r of
          TaTcp host port \<Rightarrow> [doc_str ''kind'' (lit ''tcp''), doc_str ''host'' host, TiSet (lit ''port'') (TvInt port)]
        | TaSerial path baud \<Rightarrow>
            [doc_str ''kind'' (lit ''serial''), doc_str ''device'' path, TiSet (lit ''baud'') (TvInt baud)])
     @ [TiTable (lit ''radio.duty''), TiSet (lit ''baud'') (TvInt (ra_baud r)),
        TiArray (lit ''channels''), doc_str ''name'' (ra_channel r), TiSet (lit ''rf'') (TvBool True)]"

definition answers_doc :: "wz_answers \<Rightarrow> toml_item list" where
  "answers_doc a =
     [TiTable (lit ''server''), doc_str ''name'' (an_server_name a), doc_str ''network'' (an_network a)]
     @ (case an_radio a of
          Some r \<Rightarrow> [TiSet (lit ''motd'') (TvStrings [callsign_to_string (ra_callsign r) @ lit '' packet gateway''])]
        | None \<Rightarrow> [])
     @ [TiTable (lit ''listen''), TiSet (lit ''bind'') (TvStrings [an_plain_bind a])]
     @ (case an_tls a of
          Some t \<Rightarrow> [TiTable (lit ''listen.tls''), TiSet (lit ''bind'') (TvStrings [ta_bind t]),
                     doc_str ''cert'' (ta_cert t), doc_str ''key'' (ta_key t)]
        | None \<Rightarrow> [])
     @ (case an_radio a of Some r \<Rightarrow> doc_radio r | None \<Rightarrow> [])
     @ [TiArray (lit ''channels''), doc_str ''name'' (lit ''#local'')]
     @ (case an_oper a of
          Some o' \<Rightarrow> [TiArray (lit ''opers''), doc_str ''name'' (oa_name o'), doc_str ''password'' (oa_hash o')]
        | None \<Rightarrow> [])"

lemma render_radio_reads: "toml_read (render_radio r @ rest) = map_option (\<lambda>x. doc_radio r @ x) (toml_read rest)"
proof -
  have "toml_read (render_tnc t @ rest) = map_option (\<lambda>x. (case t of
          TaTcp host port \<Rightarrow> [doc_str ''kind'' (lit ''tcp''), doc_str ''host'' host, TiSet (lit ''port'') (TvInt port)]
        | TaSerial path baud \<Rightarrow>
            [doc_str ''kind'' (lit ''serial''), doc_str ''device'' path, TiSet (lit ''baud'') (TvInt baud)]) @ x) (toml_read rest)"
    for t rest
    by (cases t) (simp_all add: render_tnc_def toml_line_reads doc_str_def option.map_comp comp_def)
  then show ?thesis
    by (cases "ra_enabled r")
      (simp_all add: render_radio_def doc_radio_def toml_line_reads doc_str_def option.map_comp comp_def)
qed

lemma render_read: "toml_read (render a) = Some (answers_doc a)"
proof -
  have server: "toml_read (render_server a @ rest) = map_option (\<lambda>x. TiTable (lit ''server'') # doc_str ''name'' (an_server_name a)
     # doc_str ''network'' (an_network a) # (case an_radio a of
          Some r \<Rightarrow> [TiSet (lit ''motd'') (TvStrings [callsign_to_string (ra_callsign r) @ lit '' packet gateway''])]
        | None \<Rightarrow> []) @ x) (toml_read rest)" for rest
    by (cases "an_radio a") (simp_all add: render_server_def toml_line_reads doc_str_def option.map_comp comp_def)
  have listen: "toml_read (render_listen a @ rest) = map_option (\<lambda>x. TiTable (lit ''listen'')
     # TiSet (lit ''bind'') (TvStrings [an_plain_bind a]) # (case an_tls a of
          Some t \<Rightarrow> [TiTable (lit ''listen.tls''), TiSet (lit ''bind'') (TvStrings [ta_bind t]),
                     doc_str ''cert'' (ta_cert t), doc_str ''key'' (ta_key t)]
        | None \<Rightarrow> []) @ x) (toml_read rest)" for rest
    by (cases "an_tls a") (simp_all add: render_listen_def toml_line_reads doc_str_def option.map_comp comp_def)
  have oper: "toml_read (case an_oper a of Some o' \<Rightarrow> render_oper o' | None \<Rightarrow> []) = Some (case an_oper a of
          Some o' \<Rightarrow> [TiArray (lit ''opers''), doc_str ''name'' (oa_name o'), doc_str ''password'' (oa_hash o')] | None \<Rightarrow> [])"
    by (cases "an_oper a") (simp_all add: render_oper_def toml_line_reads doc_str_def)
  have radio: "toml_read ((case an_radio a of Some r \<Rightarrow> render_radio r | None \<Rightarrow> []) @ rest) =
     map_option (\<lambda>x. (case an_radio a of Some r \<Rightarrow> doc_radio r | None \<Rightarrow> []) @ x) (toml_read rest)" for rest
    by (cases "an_radio a"; cases "toml_read rest") (simp_all add: render_radio_reads)
  show ?thesis
    by (simp add: render_def server listen radio oper toml_line_reads answers_doc_def doc_str_def)
qed

text \<open>C39: The file the setup writes reads back as the answers, whatever they hold. To a reader of TOML the rendering of any answers is
  exactly the tables, keys and values they call for: no quote, backslash, line break or control character in an answer can end its
  string, add a key or make the file unreadable.\<close>

theorem rendered_answers_read_back: "toml_read (render a) = Some (answers_doc a)"
  by (rule render_read)


section \<open>The document as a configuration\<close>

text \<open>What the keys mean to the configuration's own types: a table of the record, an element of an array, a key that is not known is
  refused.\<close>

definition as_string :: "toml_value \<Rightarrow> (ustr \<Rightarrow> 'a) \<Rightarrow> 'a option" where
  "as_string v f = (case v of TvString s \<Rightarrow> Some (f s) | _ \<Rightarrow> None)"

definition as_strings :: "toml_value \<Rightarrow> (ustr list \<Rightarrow> 'a) \<Rightarrow> 'a option" where
  "as_strings v f = (case v of TvStrings s \<Rightarrow> Some (f s) | _ \<Rightarrow> None)"

definition as_bool :: "toml_value \<Rightarrow> (bool \<Rightarrow> 'a) \<Rightarrow> 'a option" where
  "as_bool v f = (case v of TvBool b \<Rightarrow> Some (f b) | _ \<Rightarrow> None)"

definition as_int :: "toml_value \<Rightarrow> (nat \<Rightarrow> 'a) \<Rightarrow> 'a option" where
  "as_int v f = (case v of TvInt n \<Rightarrow> Some (f n) | _ \<Rightarrow> None)"

definition server_field :: "ustr \<Rightarrow> toml_value \<Rightarrow> server_config \<Rightarrow> server_config option" where
  "server_field k v c =
     (if k = lit ''name'' then as_string v (\<lambda>x. c\<lparr>sv_name := x\<rparr>)
      else if k = lit ''network'' then as_string v (\<lambda>x. c\<lparr>sv_network := x\<rparr>)
      else if k = lit ''motd'' then as_strings v (\<lambda>x. c\<lparr>sv_motd := x\<rparr>) else None)"

definition tls_field :: "ustr \<Rightarrow> toml_value \<Rightarrow> tls_listen_config option \<Rightarrow> tls_listen_config option option" where
  "tls_field k v t =
     (let c = (case t of Some c \<Rightarrow> c | None \<Rightarrow> \<lparr>tl_bind = [], tl_cert = [], tl_key = []\<rparr>)
      in map_option Some
        (if k = lit ''bind'' then as_strings v (\<lambda>x. c\<lparr>tl_bind := x\<rparr>)
         else if k = lit ''cert'' then as_string v (\<lambda>x. c\<lparr>tl_cert := x\<rparr>)
         else if k = lit ''key'' then as_string v (\<lambda>x. c\<lparr>tl_key := x\<rparr>) else None))"

definition tnc_field :: "ustr \<Rightarrow> toml_value \<Rightarrow> tnc_section \<Rightarrow> tnc_section option" where
  "tnc_field k v c =
     (if k = lit ''kind'' then as_string v (\<lambda>x. c\<lparr>ts_kind := x\<rparr>)
      else if k = lit ''host'' then as_string v (\<lambda>x. c\<lparr>ts_host := x\<rparr>)
      else if k = lit ''port'' then as_int v (\<lambda>x. c\<lparr>ts_port := x\<rparr>)
      else if k = lit ''device'' then as_string v (\<lambda>x. c\<lparr>ts_device := x\<rparr>)
      else if k = lit ''baud'' then as_int v (\<lambda>x. c\<lparr>ts_baud := x\<rparr>) else None)"

definition channel_field :: "ustr \<Rightarrow> toml_value \<Rightarrow> channel_config \<Rightarrow> channel_config option" where
  "channel_field k v c =
     (if k = lit ''name'' then as_string v (\<lambda>x. c\<lparr>cc_name := x\<rparr>)
      else if k = lit ''rf'' then as_bool v (\<lambda>x. c\<lparr>cc_rf := x\<rparr>) else None)"

definition oper_field :: "ustr \<Rightarrow> toml_value \<Rightarrow> oper_config \<Rightarrow> oper_config option" where
  "oper_field k v c =
     (if k = lit ''name'' then as_string v (\<lambda>x. c\<lparr>op_name := x\<rparr>)
      else if k = lit ''password'' then as_string v (\<lambda>x. c\<lparr>op_password := x\<rparr>) else None)"

definition radio_field :: "ustr \<Rightarrow> toml_value \<Rightarrow> radio_config \<Rightarrow> radio_config option" where
  "radio_field k v c =
     (if k = lit ''enabled'' then as_bool v (\<lambda>x. c\<lparr>rc_enabled := x\<rparr>)
      else if k = lit ''callsign'' then as_string v (\<lambda>x. c\<lparr>rc_callsign := x\<rparr>) else None)"

definition config_field :: "ustr \<Rightarrow> ustr \<Rightarrow> toml_value \<Rightarrow> config \<Rightarrow> config option" where
  "config_field t k v cf =
     (let r = cf_radio cf; li = cf_listen cf in
      if t = lit ''server'' then map_option (\<lambda>x. cf\<lparr>cf_server := x\<rparr>) (server_field k v (cf_server cf))
      else if t = lit ''listen''
      then (if k = lit ''bind'' then as_strings v (\<lambda>x. cf\<lparr>cf_listen := li\<lparr>li_bind := x\<rparr>\<rparr>) else None)
      else if t = lit ''listen.tls'' then map_option (\<lambda>x. cf\<lparr>cf_listen := li\<lparr>li_tls := x\<rparr>\<rparr>) (tls_field k v (li_tls li))
      else if t = lit ''radio'' then map_option (\<lambda>x. cf\<lparr>cf_radio := x\<rparr>) (radio_field k v r)
      else if t = lit ''radio.tnc'' then map_option (\<lambda>x. cf\<lparr>cf_radio := r\<lparr>rc_tnc := x\<rparr>\<rparr>) (tnc_field k v (rc_tnc r))
      else if t = lit ''radio.duty''
      then (if k = lit ''baud'' then as_int v (\<lambda>x. cf\<lparr>cf_radio := r\<lparr>rc_duty := (rc_duty r)\<lparr>du_baud := x\<rparr>\<rparr>\<rparr>) else None)
      else if t = lit ''channels''
      then map_option (\<lambda>x. cf\<lparr>cf_channels := butlast (cf_channels cf) @ [x]\<rparr>) (channel_field k v (last (cf_channels cf)))
      else if t = lit ''opers''
      then map_option (\<lambda>x. cf\<lparr>cf_opers := butlast (cf_opers cf) @ [x]\<rparr>) (oper_field k v (last (cf_opers cf)))
      else None)"

fun config_of_doc :: "ustr \<Rightarrow> toml_item list \<Rightarrow> config \<Rightarrow> config option" where
  "config_of_doc t [] cf = Some cf"
| "config_of_doc t (TiTable n # its) cf = config_of_doc n its cf"
| "config_of_doc t (TiArray n # its) cf =
     config_of_doc n its
       (if n = lit ''channels''
        then cf\<lparr>cf_channels := cf_channels cf @ [\<lparr>cc_name = [], cc_topic = [], cc_rf = False, cc_operators = []\<rparr>]\<rparr>
        else cf\<lparr>cf_opers := cf_opers cf @ [\<lparr>op_name = [], op_password = []\<rparr>]\<rparr>)"
| "config_of_doc t (TiSet k v # its) cf =
     (case config_field t k v cf of None \<Rightarrow> None | Some cf' \<Rightarrow> config_of_doc t its cf')"

definition config_reader :: "ustr \<Rightarrow> unit + config" where
  "config_reader body =
     (case Option.bind (toml_read body) (\<lambda>doc. config_of_doc [] doc (config_named [])) of Some cf \<Rightarrow> Inr cf | None \<Rightarrow> Inl ())"

section \<open>The promise\<close>

definition answers_tnc :: "tnc_answer \<Rightarrow> tnc_section \<Rightarrow> tnc_section" where
  "answers_tnc t c =
     (case t of
        TaTcp host port \<Rightarrow> c\<lparr>ts_kind := lit ''tcp'', ts_host := host, ts_port := port\<rparr>
      | TaSerial path baud \<Rightarrow> c\<lparr>ts_kind := lit ''serial'', ts_device := path, ts_baud := baud\<rparr>)"

definition answers_radio :: "radio_answers \<Rightarrow> radio_config \<Rightarrow> radio_config" where
  "answers_radio r c =
     c\<lparr>rc_enabled := ra_enabled r, rc_callsign := callsign_to_string (ra_callsign r),
       rc_tnc := answers_tnc (ra_tnc r) (rc_tnc c), rc_duty := (rc_duty c)\<lparr>du_baud := ra_baud r\<rparr>\<rparr>"

definition channel_named :: "ustr \<Rightarrow> bool \<Rightarrow> channel_config" where
  "channel_named name rf = \<lparr>cc_name = name, cc_topic = [], cc_rf = rf, cc_operators = []\<rparr>"

definition answers_config :: "wz_answers \<Rightarrow> config" where
  "answers_config a =
     (config_named (an_server_name a))\<lparr>
       cf_server := (cf_server (config_named (an_server_name a)))\<lparr>
         sv_network := an_network a,
         sv_motd := (case an_radio a of Some r \<Rightarrow> [callsign_to_string (ra_callsign r) @ lit '' packet gateway''] | None \<Rightarrow> [])\<rparr>,
       cf_listen := listen_config_default\<lparr>li_bind := [an_plain_bind a],
         li_tls := map_option (\<lambda>t. \<lparr>tl_bind = [ta_bind t], tl_cert = ta_cert t, tl_key = ta_key t\<rparr>) (an_tls a)\<rparr>,
       cf_radio := (case an_radio a of Some r \<Rightarrow> answers_radio r radio_config_default | None \<Rightarrow> radio_config_default),
       cf_channels := (case an_radio a of Some r \<Rightarrow> [channel_named (ra_channel r) True] | None \<Rightarrow> [])
         @ [channel_named (lit ''#local'') False],
       cf_opers := (case an_oper a of Some o' \<Rightarrow> [\<lparr>op_name = oa_name o', op_password = oa_hash o'\<rparr>] | None \<Rightarrow> [])\<rparr>"

lemmas field_defs = config_field_def server_field_def tls_field_def tnc_field_def channel_field_def oper_field_def radio_field_def
  as_string_def as_strings_def as_bool_def as_int_def

lemma doc_radio_config:
  "config_of_doc t (doc_radio r @ its) cf = config_of_doc (lit ''channels'') its
     (cf\<lparr>cf_radio := answers_radio r (cf_radio cf), cf_channels := cf_channels cf @ [channel_named (ra_channel r) True]\<rparr>)"
  by (cases "ra_tnc r")
    (simp_all add: doc_radio_def doc_str_def field_defs lit_eq_iff Let_def channel_named_def answers_radio_def answers_tnc_def)

lemma answers_read: "config_reader (render a) = Inr (answers_config a)"
proof -
  have "config_of_doc [] (answers_doc a) (config_named []) = Some (answers_config a)"
    by (cases "an_radio a"; cases "an_tls a"; cases "an_oper a")
      (simp_all add: answers_doc_def doc_str_def field_defs lit_eq_iff Let_def doc_radio_config answers_config_def config_named_def
        channel_named_def listen_config_default_def)
  moreover have "toml_read (render a) = Some (answers_doc a)" by (rule render_read)
  ultimately show ?thesis by (simp add: config_reader_def)
qed

section \<open>What the answers are\<close>

lemma trim_Nil [simp]: "trim [] = []"
  by (simp add: trim_def trim_start_def trim_end_def)

lemma trim_nonblank: "c \<in> set s \<Longrightarrow> \<not> is_whitespace c \<Longrightarrow> trim s \<noteq> []"
proof
  assume c: "c \<in> set s" "\<not> is_whitespace c" and "trim s = []"
  then have "\<forall>x \<in> set (trim_start s). is_whitespace x" by (simp add: trim_def trim_end_def)
  moreover have "c \<in> set (trim_start s)"
    using c by (induction s) (auto simp: trim_start_def)
  ultimately show False using c by blast
qed

lemma ask_nonblank:
  assumes "ask prompt d s = Some (Inr a, s')" "trim d \<noteq> [] \<or> d = []"
  shows "trim a \<noteq> []"
  using ask_gives [OF assms(1)] assms(2) by auto

lemma ask_hash_gives: "ask_hash env terminal s = Some (Inr h, s') \<Longrightarrow> \<exists>p. we_hash env p = Some h"
proof -
  assume a: "ask_hash env terminal s = Some (Inr h, s')"
  have "case fst y of Inl _ \<Rightarrow> True | Inr h \<Rightarrow> \<exists>p. we_hash env p = Some h" if "ask_hash env terminal s = Some y" for y
    using that
  proof (induction env terminal s y rule: ask_hash.raw_induct [rotated 1, consumes 1, case_names step])
    case (step again env terminal s y)
    then show ?case
      by (cases y; cases "fst y") (fastforce simp: and_then_Some split: if_splits option.splits)+
  qed
  from this [OF a] show ?thesis by simp
qed

definition radio_sound :: "radio_answers \<Rightarrow> bool" where
  "radio_sound r \<longleftrightarrow> (\<exists>raw. callsign_from_str raw = Inr (ra_callsign r)) \<and> looks_like_amateur_call (ra_callsign r)
     \<and> ra_baud r \<in> {300, 1200, 9600} \<and> is_channel_name (ra_channel r)"

lemma ask_tls_gives:
  assumes "ask_tls d s = Some (Inr (Some t), s')"
  shows "trim (ta_cert t) \<noteq> []" "trim (ta_key t) \<noteq> []"
proof -
  have join: "trim (path_join dir name) \<noteq> []" if "trim name \<noteq> []" "name \<noteq> []" for dir name
  proof -
    have "hd (trim name) \<in> set name" "\<not> is_whitespace (hd (trim name))"
      using that(1) trim_hd [of name] set_trim [of name] hd_in_set [of "trim name"] by auto
    then show ?thesis by (intro trim_nonblank [of "hd (trim name)"]) (auto simp: path_join_def)
  qed
  have pem: "trim (lit ''tls-cert.pem'') \<noteq> []" "trim (lit ''tls-key.pem'') \<noteq> []"
    by (rule trim_nonblank [of 116]; simp add: lit_def is_whitespace_def)+
  have "lit ''tls-cert.pem'' \<noteq> []" "lit ''tls-key.pem'' \<noteq> []" by (simp_all add: lit_def)
  then show "trim (ta_cert t) \<noteq> []" "trim (ta_key t) \<noteq> []"
    using assms by (auto simp: ask_tls_def and_then_gives split: if_splits dest: ask_nonblank intro: join pem) (metis join pem)+
qed

lemma ask_radio_side_gives:
  "ask_radio_side env s = Some (Inr r, s') \<Longrightarrow> list_all radio_sound (case r of Some r \<Rightarrow> [r] | None \<Rightarrow> [])"
  by (auto simp: ask_radio_side_def and_then_gives radio_sound_def split: if_splits dest: ask_radio_gives(2-5))

lemma ask_oper_gives:
  assumes "ask_oper env tls bind terminal s = Some (Inr o', s')"
  shows "trim (oa_name o') \<noteq> [] \<and> (\<exists>p. we_hash env p = Some (oa_hash o'))"
proof -
  have "trim (lit ''root'') \<noteq> []" by (rule trim_nonblank [of 114]) (simp_all add: lit_def is_whitespace_def)
  then show ?thesis
    using assms by (auto simp: ask_oper_def and_then_gives dest: ask_nonblank ask_hash_gives)
qed

lemma interview_gives:
  assumes "interview env d s = Some (Inr a, s')" "trim (wd_server_name d) \<noteq> []"
  shows "trim (an_server_name a) \<noteq> []"
    "list_all radio_sound (case an_radio a of Some r \<Rightarrow> [r] | None \<Rightarrow> [])"
    "an_tls a = Some t \<Longrightarrow> trim (ta_cert t) \<noteq> [] \<and> trim (ta_key t) \<noteq> []"
    "an_oper a = Some o' \<Longrightarrow> trim (oa_name o') \<noteq> [] \<and> (\<exists>p. we_hash env p = Some (oa_hash o'))"
proof -
  note unfold = interview_def and_then_gives
  show "trim (an_server_name a) \<noteq> []"
    using assms by (auto simp: unfold dest: ask_nonblank)
  show "list_all radio_sound (case an_radio a of Some r \<Rightarrow> [r] | None \<Rightarrow> [])"
    using assms(1) by (auto simp: unfold dest: ask_radio_side_gives)
  show "an_tls a = Some t \<Longrightarrow> trim (ta_cert t) \<noteq> [] \<and> trim (ta_key t) \<noteq> []"
    using assms(1) by (auto simp: unfold dest: ask_tls_gives)
  show "an_oper a = Some o' \<Longrightarrow> trim (oa_name o') \<noteq> [] \<and> (\<exists>p. we_hash env p = Some (oa_hash o'))"
    using assms(1) by (auto simp: unfold dest: ask_oper_gives split: if_splits)
qed

section \<open>The answers make a valid configuration\<close>

lemma default_name_nonblank: "trim (wd_server_name (for_config_path hostname terminal path)) \<noteq> []"
proof -
  have "\<exists>c \<in> set (tidy_server_name raw). \<not> is_whitespace c" for raw
  proof (cases "filter (\<lambda>c. is_ascii_alphanumeric c \<or> c = 46 \<or> c = 45) raw")
    case Nil
    then show ?thesis by (simp add: tidy_server_name_def lit_def is_whitespace_def)
  next
    case (Cons c cs)
    then have "c \<in> set (filter (\<lambda>c. is_ascii_alphanumeric c \<or> c = 46 \<or> c = 45) raw)" by simp
    then have "is_ascii_alphanumeric c \<or> c = 46 \<or> c = 45" by simp
    then have "\<not> is_whitespace c" using alphanumeric_not_white [of c] by (auto simp: is_whitespace_def)
    moreover have "c \<in> set (tidy_server_name raw)" by (simp add: tidy_server_name_def Let_def Cons)
    ultimately show ?thesis by blast
  qed
  then show ?thesis using trim_nonblank by (fastforce simp: for_config_path_def default_server_name_def)
qed

lemma answers_duty:
  assumes "ra_baud r \<in> {300, 1200, 9600}"
  shows "first_error (check_duty cenv (answers_radio r radio_config_default)) = None"
proof -
  have tnc: "ts_tx_pacing_ms (answers_tnc t tnc_section_default) = 1500" "ts_direwolf_conf (answers_tnc t tnc_section_default) = None" for t
    by (cases t; simp add: answers_tnc_def tnc_section_default_def)+
  show ?thesis
    using assms
    by (auto simp: check_duty_def answers_radio_def tnc radio_config_default_def
        duty_config_default_def HARD_MAX_DUTY_def STANDARD_PACKET_BAUDS_def check_hardware_safe_def burst_duty_def
        to_airtime_def as_secs_def from_secs_def from_millis_def airtime_for_def FRAMING_OCTETS_def from_micros_def
        allowance_def effective_duty_def clamp_def Let_def)
qed

lemma answers_station:
  assumes "radio_sound r"
  shows "first_error (check_station (answers_radio r radio_config_default)) = None"
proof -
  have "callsign_from_str (callsign_to_string (ra_callsign r)) = Inr (ra_callsign r)" "require_amateur (ra_callsign r) = Inr ()"
    using assms by (auto simp: radio_sound_def require_amateur_def intro: callsign_round_trip from_str_wf)
  then show ?thesis
    by (simp add: check_station_def answers_radio_def radio_config_default_def valid_callsigns)
qed

lemma local_name: "is_channel_name (lit ''#local'')" "lower (lit ''#local'') = lit ''#local''"
  by code_simp+

lemma answers_server:
  assumes "trim (an_server_name a) \<noteq> []" "list_all radio_sound (case an_radio a of Some r \<Rightarrow> [r] | None \<Rightarrow> [])"
    "\<And>t. an_tls a = Some t \<Longrightarrow> trim (ta_cert t) \<noteq> [] \<and> trim (ta_key t) \<noteq> [] \<and> ce_tls cenv (ta_cert t) (ta_key t)"
    "\<And>o'. an_oper a = Some o' \<Longrightarrow> trim (oa_name o') \<noteq> [] \<and> ce_phc cenv (oa_hash o')"
    "\<And>r. an_radio a = Some r \<Longrightarrow> lower (ra_channel r) \<noteq> lit ''#local''"
  shows "first_error (check_server cenv (answers_config a)) = None"
proof -
  let ?cf = "answers_config a"
  have chans: "check_channels [] (cf_channels ?cf) = None"
    using assms(2,5) local_name by (cases "an_radio a") (auto simp: answers_config_def channel_named_def radio_sound_def)
  have moved: "check_moved (rc_tnc (cf_radio ?cf)) = None"
    by (cases "an_radio a"; simp add: answers_config_def answers_radio_def check_moved_def radio_config_default_def)
      (auto simp: answers_tnc_def tnc_section_default_def split: tnc_answer.split)
  have opers: "check_oper_names (cf_opers ?cf) = None"
    "check_oper_passwords (ce_phc cenv) (cf_opers ?cf) (listen_addresses ?cf) = None"
    using assms(4) by (cases "an_oper a"; simp add: answers_config_def check_oper_names_def check_oper_passwords_def)+
  show ?thesis
    unfolding check_server_def
    using assms(1) chans moved opers
    by (cases "an_tls a")
      (simp_all add: answers_config_def config_named_def listen_config_default_def accounts_config_default_def
        policy_config_default_def assms(3))
qed

lemma answers_valid:
  assumes "first_error (check_server cenv (answers_config a)) = None"
    "list_all radio_sound (case an_radio a of Some r \<Rightarrow> [r] | None \<Rightarrow> [])"
  shows "validate cenv (answers_config a) = None"
proof (cases "an_radio a")
  case None
  then have "\<not> rc_enabled (cf_radio (answers_config a))"
    by (simp add: answers_config_def radio_config_default_def)
  then show ?thesis
    unfolding validate_def Let_def assms(1) by simp
next
  case (Some r)
  let ?cf = "answers_config a" and ?r = "answers_radio r radio_config_default"
  have r: "cf_radio ?cf = ?r" "radio_sound r" using Some assms(2) by (simp_all add: answers_config_def)
  have bridging: "first_error (check_bridging ?cf) = None"
    by (simp add: check_bridging_def r(1)) (simp add: answers_radio_def radio_config_default_def answers_config_def Some channel_named_def)
  have rest: "cf_policy ?cf = policy_config_default" "rc_max_queued_airtime_secs ?r = 60" "rc_interlock ?r = None"
    "du_enabled (rc_duty ?r)" "check_policy_callsigns policy_config_default = None" "max_rf_fragments policy_config_default \<noteq> 0"
    by (simp_all add: answers_config_def config_named_def answers_radio_def radio_config_default_def duty_config_default_def
        check_policy_callsigns_def policy_config_default_def)
  have "first_error (check_station ?r @ [None, None, None] @ check_bridging ?cf @ [None] @ check_duty cenv ?r @ [None]) = None"
    using answers_station [OF r(2)] answers_duty [of r] bridging r(2)
    unfolding first_error_None set_append radio_sound_def by fastforce
  then show ?thesis
    unfolding validate_def Let_def assms(1) r(1)
    by (simp only: rest option.case bail_def check_interlock_def) simp
qed

text \<open>C36: The setup keeps its promise that what it writes comes up. When the interview started by \<open>rfircd --init\<close> comes to its end, its
  rendering of the answers, read as TOML and put through the server's own validation, is accepted as the configuration they make,
  provided hashes are in the PHC form, the certificate pair loads, and the bridged channel is not the one called \<open>#local\<close> that every
  generated file has as well.\<close>

theorem wizard_keeps_its_promise:
  assumes "interview env (for_config_path hostname terminal path) s = Some (Inr a, s')"
    and "\<And>p h. we_hash env p = Some h \<Longrightarrow> ce_phc cenv h"
    and "\<And>t. an_tls a = Some t \<Longrightarrow> ce_tls cenv (ta_cert t) (ta_key t)"
    and "\<And>r. an_radio a = Some r \<Longrightarrow> lower (ra_channel r) \<noteq> lit ''#local''"
  shows "config_from_toml config_reader cenv (render a) = Inr (answers_config a)"
proof -
  note gives = interview_gives [OF assms(1) default_name_nonblank]
  have "first_error (check_server cenv (answers_config a)) = None"
    using gives assms(2-4) by (intro answers_server) auto
  then have "validate cenv (answers_config a) = None"
    using gives(2) by (rule answers_valid)
  then show ?thesis by (simp add: config_from_toml_def answers_read)
qed

text \<open>A bridged channel of that name is accepted by the interview and refused by the validation, after the certificate is written.\<close>

lemma local_channel_is_refused:
  assumes "an_radio a = Some r" "lower (ra_channel r) = lit ''#local''"
  shows "case config_from_toml config_reader cenv (render a) of Inl _ \<Rightarrow> True | Inr _ \<Rightarrow> False"
proof -
  have "check_channels [] (cf_channels (answers_config a)) \<noteq> None"
    using assms(2) local_name by (simp add: answers_config_def assms(1) channel_named_def)
  then have "first_error (check_server cenv (answers_config a)) \<noteq> None"
    unfolding check_server_def by (simp add: first_error_None)
  then obtain e where "first_error (check_server cenv (answers_config a)) = Some e" by blast
  then have "validate cenv (answers_config a) = Some e"
    by (simp add: validate_def Let_def)
  then show ?thesis by (simp add: config_from_toml_def answers_read)
qed

section \<open>A session\<close>

definition typed :: "string \<Rightarrow> unit + ustr" where
  "typed l = Inr (lit l @ [10])"

lemma ask_typed:
  assumes "wz_sink s = (\<lambda>_. True)" "wz_in s \<noteq> []" "hd (wz_in s) = typed l" "trim (lit l @ [10]) = lit l" "l \<noteq> []"
  shows "ask prompt d s = give (lit l) (s\<lparr>wz_in := tl (wz_in s),
     wz_out := wz_out s @ (if d = [] then prompt @ lit '': '' else prompt @ lit '' ['' @ d @ lit '']: '')\<rparr>)"
  using assms by (cases "wz_in s") (simp_all add: ask.simps [of prompt d s] wz_write_def read_line_def typed_def lit_def Let_def)

lemma ask_enter:
  assumes "wz_sink s = (\<lambda>_. True)" "wz_in s \<noteq> []" "hd (wz_in s) = typed []" "d \<noteq> []"
  shows "ask prompt d s = give d (s\<lparr>wz_in := tl (wz_in s), wz_out := wz_out s @ (prompt @ lit '' ['' @ d @ lit '']: '')\<rparr>)"
  using assms by (cases "wz_in s")
    (simp_all add: ask.simps [of prompt d s] wz_write_def read_line_def typed_def lit_def Let_def trim_def trim_start_def trim_end_def
      is_whitespace_def)

lemma ask_until_at_once:
  "ask prompt d s = give raw s1 \<Longrightarrow> accept raw = Some x \<Longrightarrow> ask_until prompt d accept complain s = give x s1"
  by (simp add: ask_until.simps [of prompt d accept complain s])

lemma writes_taken:
  "wz_sink s = (\<lambda>_. True) \<Longrightarrow> writeln t s = give () (s\<lparr>wz_out := wz_out s @ (t @ [10])\<rparr>)"
  "wz_sink s = (\<lambda>_. True) \<Longrightarrow> write_lines ls s = give () (s\<lparr>wz_out := wz_out s @ concat (map (\<lambda>t. t @ [10]) ls)\<rparr>)"
proof -
  show w: "wz_sink s = (\<lambda>_. True) \<Longrightarrow> writeln t s = give () (s\<lparr>wz_out := wz_out s @ (t @ [10])\<rparr>)" for t s
    by (simp add: writeln_def wz_write_def)
  show "wz_sink s = (\<lambda>_. True) \<Longrightarrow> write_lines ls s = give () (s\<lparr>wz_out := wz_out s @ concat (map (\<lambda>t. t @ [10]) ls)\<rparr>)"
    by (induction ls arbitrary: s) (simp_all add: w)
qed

definition sample_session :: wz where
  "sample_session =
     \<lparr>wz_in = [typed [], typed [], typed [], typed [], typed ''SK0MT-1'', typed [], typed [], typed [], typed [],
               typed [], typed ''yes'', typed ''3'', typed ''n''],
      wz_out = [], wz_sink = (\<lambda>_. True), wz_stty = False, wz_echo = True\<rparr>"

definition sample_answers :: wz_answers where
  "sample_answers =
     \<lparr>an_server_name = lit ''rfirc.local'', an_network = lit ''RFIRC'', an_plain_bind = lit ''127.0.0.1:6667'',
      an_radio = Some \<lparr>ra_callsign = Callsign (lit ''SK0MT'') 1, ra_enabled = True, ra_tnc = TaTcp (lit ''127.0.0.1'') 8001,
        ra_baud = 300, ra_channel = lit ''#rf''\<rparr>,
      an_tls = None, an_oper = None\<rparr>"

lemma sample_trims:
  "trim (lit ''SK0MT-1'' @ [10]) = lit ''SK0MT-1''" "trim (lit ''yes'' @ [10]) = lit ''yes''" "trim (lit ''3'' @ [10]) = lit ''3''"
  "trim (lit ''n'' @ [10]) = lit ''n''"
  by (simp_all add: lit_def trim_def trim_start_def trim_end_def is_whitespace_def)

lemma sample_accepts:
  "amateur_call (lit ''SK0MT-1'') = Some (Callsign (lit ''SK0MT'') 1)" "yes_or_no (lit ''yes'') = Some True"
  "in_menu (Suc (Suc (Suc 0))) (lit ''3'') = Some 2" "in_menu (Suc 0) [49] = Some 0" "in_menu (Suc (Suc (Suc 0))) [49] = Some 0"
proof -
  show "amateur_call (lit ''SK0MT-1'') = Some (Callsign (lit ''SK0MT'') 1)"
    by (simp add: amateur_call_def valid_callsigns looks_like_amateur_call_def)
      (simp add: lit_def char_class_defs str_len_def utf8_def)
  show "yes_or_no (lit ''yes'') = Some True"
    by (simp add: yes_or_no_def trim_def trim_start_def trim_end_def is_whitespace_def lit_def to_lower_def is_ascii_uppercase_def)
  show "in_menu (Suc (Suc (Suc 0))) (lit ''3'') = Some 2"
    by (simp add: in_menu_def lit_def trim_def trim_start_def trim_end_def is_whitespace_def parse_unsigned_def is_ascii_digit_def)
qed (simp_all add: in_menu_first)

lemma sample_interview: "\<exists>s'. interview \<lparr>we_debug = (\<lambda>_. []), we_serial = False, we_hash = (\<lambda>_. None)\<rparr>
    (for_config_path None False (lit ''rfircd.toml'')) sample_session = Some (Inr sample_answers, s')"
proof -
  have lits: "lit (c # cs) \<noteq> []" "[49 :: nat] \<noteq> []" for c cs by (simp_all add: lit_def)
  have name: "wd_server_name (for_config_path None False (lit ''rfircd.toml'')) = lit ''rfirc.local''"
    by (simp add: for_config_path_def default_server_name_def tidy_server_name_def)
  note evaluate = ask_until_at_once [OF ask_typed, where x = False] ask_until_at_once [OF ask_typed] ask_until_at_once [OF ask_enter] ask_typed ask_enter writes_taken
    sample_trims sample_accepts yes_or_no_default positive_default channel_default name lits
  show ?thesis
    by (simp add: interview_def ask_radio_side_def ask_yes_no_def ask_radio_def ask_tnc_def ask_choice_def ask_tls_def evaluate
        sample_session_def sample_answers_def BAUDS_def del: write_lines.simps)
qed

theorem wizard_keeps_its_promise_witness:
  "config_from_toml config_reader \<lparr>ce_tls = (\<lambda>_ _. False), ce_phc = (\<lambda>_. False), ce_read = (\<lambda>_. None)\<rparr> (render sample_answers)
     = Inr (answers_config sample_answers)
   \<and> rc_enabled (cf_radio (answers_config sample_answers))"
proof
  obtain s' where s: "interview \<lparr>we_debug = (\<lambda>_. []), we_serial = False, we_hash = (\<lambda>_. None)\<rparr>
      (for_config_path None False (lit ''rfircd.toml'')) sample_session = Some (Inr sample_answers, s')"
    using sample_interview by blast
  have c: "lower (lit ''#rf'') \<noteq> lit ''#local''" by code_simp
  show "config_from_toml config_reader \<lparr>ce_tls = (\<lambda>_ _. False), ce_phc = (\<lambda>_. False), ce_read = (\<lambda>_. None)\<rparr>
      (render sample_answers) = Inr (answers_config sample_answers)"
    by (rule wizard_keeps_its_promise [OF s]) (use c in \<open>auto simp: sample_answers_def\<close>)
  show "rc_enabled (cf_radio (answers_config sample_answers))"
    by (simp add: sample_answers_def answers_config_def answers_radio_def)
qed

end
