(* ===== verification/Argon2_Slots.thy ===== *)
theory Argon2_Slots
  imports Prelude
begin

text \<open>
  \<open>src/src/accounts.rs\<close>: the slots that bound concurrent password work, \<open>run_password_work\<close>. Two semaphores: two slots anyone's job may
  have, and one for \<open>OPER\<close>. A semaphore hands a slot given back to the job that has waited longest, as the runtime documents.
\<close>

datatype work_class = WcAccount | WcOper

definition ARGON2_MAX_IN_FLIGHT :: nat where
  "ARGON2_MAX_IN_FLIGHT = 2"

definition ARGON2_OPER_SLOTS :: nat where
  "ARGON2_OPER_SLOTS = 1"

text \<open>The permits left in each semaphore, the jobs waiting for a shared slot in the order they came, and the jobs at work with the
  semaphore their permit goes back to (\<open>True\<close> for the operators').\<close>

record slots =
  sl_shared :: nat
  sl_oper :: nat
  sl_waiting :: "(nat \<times> work_class) list"
  sl_working :: "(nat \<times> work_class \<times> bool) list"

definition slots_new :: slots where
  "slots_new = \<lparr>sl_shared = ARGON2_MAX_IN_FLIGHT, sl_oper = ARGON2_OPER_SLOTS, sl_waiting = [], sl_working = []\<rparr>"

definition acquire_shared :: "nat \<Rightarrow> work_class \<Rightarrow> slots \<Rightarrow> slots" where
  "acquire_shared job c s =
     (if 0 < sl_shared s \<and> sl_waiting s = []
      then s\<lparr>sl_shared := sl_shared s - 1, sl_working := (job, c, False) # sl_working s\<rparr>
      else s\<lparr>sl_waiting := sl_waiting s @ [(job, c)]\<rparr>)"

definition run_password_work :: "nat \<Rightarrow> work_class \<Rightarrow> slots \<Rightarrow> slots" where
  "run_password_work job c s =
     (case c of
        WcOper \<Rightarrow>
          (if 0 < sl_oper s then s\<lparr>sl_oper := sl_oper s - 1, sl_working := (job, c, True) # sl_working s\<rparr>
           else acquire_shared job c s)
      | WcAccount \<Rightarrow> acquire_shared job c s)"

text \<open>The end of a job: its permit is dropped.\<close>

definition give_back :: "bool \<Rightarrow> slots \<Rightarrow> slots" where
  "give_back reserved s =
     (if reserved then s\<lparr>sl_oper := sl_oper s + 1\<rparr>
      else (case sl_waiting s of
              [] \<Rightarrow> s\<lparr>sl_shared := sl_shared s + 1\<rparr>
            | (job, c) # rest \<Rightarrow> s\<lparr>sl_waiting := rest, sl_working := (job, c, False) # sl_working s\<rparr>))"

definition work_done :: "nat \<Rightarrow> slots \<Rightarrow> slots" where
  "work_done job s =
     (case find (\<lambda>(j, _). j = job) (sl_working s) of
        None \<Rightarrow> s
      | Some (j, c, reserved) \<Rightarrow> give_back reserved (s\<lparr>sl_working := remove1 (j, c, reserved) (sl_working s)\<rparr>))"

section \<open>The invariant\<close>

datatype slot_op = SoAsk nat work_class | SoDone nat

definition slot_step :: "slot_op \<Rightarrow> slots \<Rightarrow> slots" where
  "slot_step x s = (case x of SoAsk job c \<Rightarrow> run_password_work job c s | SoDone job \<Rightarrow> work_done job s)"

definition shared_work :: "slots \<Rightarrow> (nat \<times> work_class \<times> bool) list" where
  "shared_work s = filter (\<lambda>(_, _, reserved). \<not> reserved) (sl_working s)"

definition reserved_work :: "slots \<Rightarrow> (nat \<times> work_class \<times> bool) list" where
  "reserved_work s = filter (\<lambda>(_, _, reserved). reserved) (sl_working s)"

definition slots_ok :: "slots \<Rightarrow> bool" where
  "slots_ok s \<longleftrightarrow>
     sl_shared s + length (shared_work s) = ARGON2_MAX_IN_FLIGHT \<and> sl_oper s + length (reserved_work s) = ARGON2_OPER_SLOTS \<and>
     list_all (\<lambda>(_, c, _). c = WcOper) (reserved_work s) \<and> (sl_waiting s \<noteq> [] \<longrightarrow> sl_shared s = 0)"

lemma slots_new_ok: "slots_ok slots_new"
  by (simp add: slots_ok_def slots_new_def shared_work_def reserved_work_def)

lemma acquire_ok: "slots_ok s \<Longrightarrow> slots_ok (acquire_shared job c s)"
  by (auto simp: slots_ok_def acquire_shared_def shared_work_def reserved_work_def)

lemma ask_ok: "slots_ok s \<Longrightarrow> slots_ok (run_password_work job c s)"
  using acquire_ok [of s job c]
  by (cases c) (auto simp: run_password_work_def slots_ok_def shared_work_def reserved_work_def)

lemma drop_job:
  "(j, c, False) \<in> set ws \<Longrightarrow>
     Suc (length (filter (\<lambda>(_, _, r). \<not> r) (remove1 (j, c, False) ws))) = length (filter (\<lambda>(_, _, r). \<not> r) ws)
     \<and> filter (\<lambda>(_, _, r). r) (remove1 (j, c, False) ws) = filter (\<lambda>(_, _, r). r) ws"
  "(j, c, True) \<in> set ws \<Longrightarrow>
     Suc (length (filter (\<lambda>(_, _, r). r) (remove1 (j, c, True) ws))) = length (filter (\<lambda>(_, _, r). r) ws)
     \<and> filter (\<lambda>(_, _, r). \<not> r) (remove1 (j, c, True) ws) = filter (\<lambda>(_, _, r). \<not> r) ws"
  by (induction ws) auto

lemma done_ok:
  assumes "slots_ok s"
  shows "slots_ok (work_done job s)"
proof (cases "find (\<lambda>(j, _). j = job) (sl_working s)")
  case (Some w)
  obtain j c r where w: "w = (j, c, r)" by (cases w)
  then have mem: "(j, c, r) \<in> set (sl_working s)"
    using Some by (metis find_Some_iff nth_mem)
  note defs = work_done_def give_back_def slots_ok_def shared_work_def reserved_work_def
  show ?thesis
  proof (cases r)
    case True
    then show ?thesis
      using assms Some w mem drop_job(2) [of j c "sl_working s"] set_remove1_subset [of "(j, c, True)" "sl_working s"]
      by (simp add: defs list_all_iff) blast
  next
    case False
    then show ?thesis
      using assms Some w mem drop_job(1) [of j c "sl_working s"]
      by (cases "sl_waiting s") (auto simp: defs)
  qed
qed (simp add: work_done_def assms)

interpretation slot_machine: invariant_machine slot_step slots_ok
  by unfold_locales (simp add: slot_step_def ask_ok done_ok split: slot_op.split)

text \<open>C40: Password work is bounded, and an operator does not wait for it. After any sequence of requests and ends of jobs at most three
  hashes run at once, at most two of them for anyone but an operator, and no job waits while a shared slot is free; and a request for
  \<open>OPER\<close> that comes while no other has the reserved slot starts at once, however many others are waiting.\<close>

theorem hashing_is_bounded:
  "case fold slot_step ops slots_new of s \<Rightarrow>
     length (sl_working s) \<le> 3 \<and>
     length (filter (\<lambda>(_, c, _). c = WcAccount) (sl_working s)) \<le> ARGON2_MAX_IN_FLIGHT \<and>
     (sl_waiting s = [] \<or> sl_shared s = 0) \<and>
     (if reserved_work s = [] then (job, WcOper, True) \<in> set (sl_working (run_password_work job WcOper s)) else True)"
proof -
  obtain s where s: "fold slot_step ops slots_new = s" "slots_ok s"
    using slot_machine.run_inv [OF slots_new_ok] by blast
  have split: "length (sl_working s) = length (shared_work s) + length (reserved_work s)"
    using sum_length_filter_compl [of "\<lambda>(_, _, r). r" "sl_working s"]
    by (simp add: shared_work_def reserved_work_def case_prod_unfold)
  have "filter (\<lambda>(_, c, _). c = WcAccount) (sl_working s) = filter (\<lambda>(_, c, _). c = WcAccount) (shared_work s)"
    using s(2) by (auto simp: slots_ok_def shared_work_def reserved_work_def list_all_iff intro!: filter_cong)
  then have "length (filter (\<lambda>(_, c, _). c = WcAccount) (sl_working s)) \<le> length (shared_work s)"
    by simp
  then show ?thesis
    using s split by (auto simp: slots_ok_def ARGON2_MAX_IN_FLIGHT_def ARGON2_OPER_SLOTS_def run_password_work_def)
qed

text \<open>When the reserved slot is taken, by whoever sent \<open>OPER\<close>, the next one is queued behind the account work.\<close>

lemma second_oper_waits_behind_accounts:
  "sl_waiting (fold slot_step [SoAsk 0 WcOper, SoAsk 1 WcAccount, SoAsk 2 WcAccount, SoAsk 3 WcAccount, SoAsk 4 WcOper] slots_new)
     = [(3, WcAccount), (4, WcOper)]"
  by (simp add: slot_step_def run_password_work_def acquire_shared_def slots_new_def ARGON2_MAX_IN_FLIGHT_def ARGON2_OPER_SLOTS_def)

end
