(* ===== verification/Spec2Isabelle.thy ===== *)
theory Spec2Isabelle
  imports Airc_Session_Spec Tnc_Proofs Irc_Message Policy_Proofs Admission
    Server_State_Proofs Radio_Spec Interlock Audit_Trail Clients Accounts_Proofs Server_Events
    Server_Safety Claims Irc_Client Kisshub Gateway_Line Cli Wizard_File Argon2_Slots
begin

text \<open>
  A verification library for \<open>rfircd\<close>: an IRC server that is also the gateway of an amateur packet radio channel, with the station
  program for the other end of the channel, a virtual channel to test them on, and the programs' command lines.

  \<^bold>\<open>The program and how its parts meet.\<close> One task owns the state of the server and handles one event at a time: a connection, a line,
  a frame heard, a tick, a finished password check. Around it are a task for each IP client, the task of the radio link, a timer
  that runs the operator's safety check, and threads that check passwords and write the accounts. They meet in channels, in the
  admission counts and in the shared airtime counters. A line of a client becomes an event, the dispatcher hands it to a command, and
  a command changes the chat state and delivers to users: to an IP user a line in the client's queue, to a station a frame that the
  policy, the session layer and the airtime governor have to let through before the link task may key the transmitter. A frame heard
  goes the other way: KISS, AX.25, the bridge's refusals, the session layer, and then the same chat state.

  \<^bold>\<open>Theories and sources\<close> (under \<open>src/src/\<close>).
  \<^item> \<open>Prelude\<close>, \<open>Rust_Text\<close>: machine types, time, tables, the interfaces \<open>invariant_machine\<close>, \<open>codec\<close> and \<open>codec_stack\<close>, and the part of
    Rust's \<open>str\<close> and \<open>String\<close> the program uses, UTF-8 included.
  \<^item> Wire formats: \<open>Callsign\<close> (\<open>callsign.rs\<close>), \<open>Ax25\<close> (\<open>ax25/address.rs\<close>, \<open>ax25/frame.rs\<close>), \<open>Kiss\<close> (\<open>ax25/kiss.rs\<close>), \<open>Airc_Frame\<close>
    (\<open>airc/frame.rs\<close>), \<open>Aprs\<close> (\<open>aprs.rs\<close>), \<open>Irc_Message\<close> (\<open>irc/message.rs\<close>), \<open>Numerics\<close> (\<open>irc/numerics.rs\<close>). Each is proved a codec or given
    its round trips; the KISS decoder also resynchronises after any noise.
  \<^item> Session layer: \<open>Airc_Session\<close> (\<open>airc/session.rs\<close>), with its invariant in \<open>Airc_Session_Inv\<close> and its contract, delivery exactly once and
    selective repeat, in \<open>Airc_Session_Proofs\<close> and \<open>Airc_Session_Spec\<close>.
  \<^item> Transmitter: \<open>Airtime\<close> (\<open>ax25/airtime.rs\<close>), \<open>Scheduler\<close> (\<open>ax25/scheduler.rs\<close>), \<open>Tnc\<close> (\<open>ax25/tnc.rs\<close>), \<open>Interlock\<close> (\<open>interlock.rs\<close>),
    \<open>Airtime_Report\<close> (the report line). \<open>Airtime_Proofs\<close>, \<open>Scheduler_Proofs\<close> and \<open>Tnc_Proofs\<close>: the duty cycle over every window of real
    key-down time, what each class of frame may expect, no frame lost uncounted, nothing keyed when it may not be.
  \<^item> Policy and configuration: \<open>Policy\<close> (\<open>policy.rs\<close>), \<open>Config\<close> and \<open>Config_Check\<close> (\<open>config.rs\<close>); \<open>Policy_Proofs\<close>, \<open>Config_Proofs\<close>.
  \<^item> Stores: \<open>Accounts\<close> and \<open>Argon2_Slots\<close> (\<open>accounts.rs\<close>), \<open>Audit_Trail\<close> (\<open>audit.rs\<close>), \<open>Mailbox\<close> (\<open>server/mailbox.rs\<close>), \<open>Ip_Addr\<close> (host keys),
    \<open>Admission\<close> (\<open>irc/admission.rs\<close>), \<open>Server_State\<close> (\<open>server/state.rs\<close>), \<open>Clients\<close> (\<open>server/clients.rs\<close>), with their invariants, and
    refinements of queues for the mailbox and of a crash-safe store for the accounts.
  \<^item> Server: \<open>Radio\<close> (\<open>server/radio.rs\<close>), \<open>Server\<close> and \<open>Server_Events\<close> (\<open>server/mod.rs\<close>), \<open>Bridge\<close> (\<open>server/bridge.rs\<close>), and the commands,
    \<open>Commands_Base\<close>, \<open>Commands_Registration\<close>, \<open>Commands_Accounts\<close>, \<open>Commands_Messaging\<close>, \<open>Commands_Channels\<close>, \<open>Commands_Mode\<close>,
    \<open>Commands_Operator\<close>, \<open>Commands_Queries\<close> and the dispatcher \<open>Commands\<close> (\<open>server/commands/\<close>). \<open>Server_Moves\<close> says what a single change of
    the server may be and what permission it takes; the four theories of frames show which permissions each handler needs;
    \<open>Server_Safety\<close> draws the conclusions for every run; \<open>Claims\<close> shows that the recursion over callsign claims ends.
  \<^item> Around the server: \<open>Irc_Client\<close> (\<open>irc/client.rs\<close>), \<open>Cli\<close> (\<open>cli.rs\<close>, \<open>main.rs\<close>), \<open>Wizard\<close>, \<open>Wizard_Proofs\<close> and \<open>Wizard_File\<close>
    (\<open>wizard.rs\<close>), \<open>Kisshub\<close> (\<open>kisshub.rs\<close>), \<open>Station\<close> and \<open>Station_Proofs\<close> (\<open>station.rs\<close> and the loop of its binary).
    \<open>Gateway_Line\<close> puts the two ends together, a line from the gateway's broadcast to the station's terminal; \<open>Held_Transmitter\<close> follows
    a radio whose interlock is down, from start-up until a check passes.

  \<^bold>\<open>How the code is rendered.\<close> A struct is a record, an enum a datatype, an error a value of a sum. A handler is a function from state
  to state with every early return a branch, and what it reads from outside (the clock, entropy, the outcome of a write or a child
  process) is an argument. A \<open>HashMap\<close> is an association list kept free of duplicates, so an iteration has an order the code does
  not promise; the properties do not depend on it, but for the refusals and reports that name one of several. A \<open>HashSet\<close> is a list or a set.
  Octets, sequence numbers and flags keep their width; counters of 32 and 64 bits that only grow are \<open>nat\<close>. An \<open>Instant\<close> or a \<open>Duration\<close> is
  a number of nanoseconds, and a handler reads the clock once. \<open>f64\<close> is exact arithmetic on rationals, but in \<open>Airtime_Report\<close>, where
  the rounding shows. The loops of the link task, of a client's task and of the hub are cut where they suspend, and the steps of
  different tasks may come in any order. A write that fails may have put out any number of its octets: so it is for KISS parameters and frames, for the hub's
  clients and for files. Argon2, PHC strings, JSON, TOML, TLS, certificates and their digests are arguments, used by
  the documented behaviour that the statements name.

  \<^bold>\<open>Bounds and fuel.\<close> The recursion between \<open>refresh_rf_tx\<close>, \<open>refresh_privileges\<close> and \<open>strip_callsign_claims\<close> has fuel, two more than
  there are users (\<open>claim_fuel\<close>), and \<open>Claims\<close> proves that this is enough in a state whose accounts share no callsign. \<open>claim_nick\<close> tries ten names, as the code does. Loops of the setup interview that may not end are partial functions, with
  \<open>None\<close> for never; all but the password's are proved to end. Every other loop is structural or has a measure.

  \<^bold>\<open>Not modelled.\<close> Log and monitor lines, the help texts, the set-up of logging and the signal handler; sockets, serial ports and TLS
  beyond the outcomes they have; the loading of PEM files (\<open>irc/tls.rs\<close>); the unit tests and
  the code that only they use. The crate roots and \<open>mod.rs\<close> files without code have nothing to model.
\<close>

end
